(* ===== verification/Prelude.thy ===== *)
theory Prelude
  imports
    Main
    "HOL-Library.Word"
    "HOL-Library.AList"
    "HOL-Library.Char_ord"
    "HOL-Library.List_Lexorder"
begin

text \<open>
  Shared vocabulary of the development: the exceptions the modules raise, the result
  monad and the store-passing monad the services are written in, Python's string
  operations the code uses, identifiers and their printed form, insertion-ordered
  dictionaries, and the list and option lemmas the component theories share.
\<close>

named_theorems res_simps \<open>unfolding rules of the result and procedure monads\<close>
named_theorems dict_simps \<open>lookups and updates of insertion-ordered dictionaries\<close>

subsection \<open>Exceptions and results\<close>

text \<open>
  One constructor per exception class the modelled modules raise, carrying the message.
  \<open>ValueError\<close>, \<open>IndexError\<close> and \<open>KeyError\<close> are Python's own; the classes of
  the smaller modules share \<open>ModuleError\<close>, with the class name and the message.
\<close>

datatype exc =
    ValueError string
  | IndexError string
  | KeyError string
  | ModuleError string string
  | DeliveryDenied string
  | DeliveryConflict string
  | DeliveryNotFound string
  | TaskDenied string
  | TaskConflict string
  | TaskNotFound string

type_synonym 'a result = "exc + 'a"

definition rbind :: "'e + 'a \<Rightarrow> ('a \<Rightarrow> 'e + 'b) \<Rightarrow> 'e + 'b" where
  "rbind r f = (case r of Inl e \<Rightarrow> Inl e | Inr x \<Rightarrow> f x)"

lemma rbind_Inl [simp, res_simps]: "rbind (Inl e) f = Inl e"
  by (simp add: rbind_def)

lemma rbind_Inr [simp, res_simps]: "rbind (Inr x) f = f x"
  by (simp add: rbind_def)

lemma rbind_eq_Inr_iff: "rbind r f = Inr y \<longleftrightarrow> (\<exists>x. r = Inr x \<and> f x = Inr y)"
  by (cases r) auto

lemma rbind_eq_Inl_iff:
  "rbind r f = Inl e \<longleftrightarrow> r = Inl e \<or> (\<exists>x. r = Inr x \<and> f x = Inl e)"
  by (cases r) auto

lemma rbind_assoc: "rbind (rbind r f) g = rbind r (\<lambda>x. rbind (f x) g)"
  by (cases r) auto

lemma rbind_cong [fundef_cong]:
  "r = r' \<Longrightarrow> (\<And>x. r' = Inr x \<Longrightarrow> f x = f' x) \<Longrightarrow> rbind r f = rbind r' f'"
  by (cases r') auto

text \<open>A tuple comprehension whose element expression may raise: the first error wins.\<close>

fun map_result :: "('a \<Rightarrow> 'e + 'b) \<Rightarrow> 'a list \<Rightarrow> 'e + 'b list" where
  "map_result f [] = Inr []"
| "map_result f (x # xs) = rbind (f x) (\<lambda>y. rbind (map_result f xs) (\<lambda>ys. Inr (y # ys)))"

lemma map_result_Inr_iff:
  "map_result f xs = Inr ys \<longleftrightarrow> list_all2 (\<lambda>x y. f x = Inr y) xs ys"
  by (induction xs arbitrary: ys) (auto simp: rbind_eq_Inr_iff list_all2_Cons1)

lemma map_result_total: "(\<And>x. x \<in> set xs \<Longrightarrow> f x = Inr (g x)) \<Longrightarrow> map_result f xs = Inr (map g xs)"
  by (induction xs) auto

lemma map_result_Inl: "map_result f xs = Inl e \<Longrightarrow> \<exists>x \<in> set xs. f x = Inl e"
  by (induction xs) (auto simp: rbind_eq_Inl_iff)

subsection \<open>Procedures over a store\<close>

text \<open>
  A service call may change its store and then return or raise; what it wrote before an
  exception stays written. \<open>('s, 'a) proc\<close> returns both the outcome and the store.
\<close>

type_synonym ('s, 'a) proc = "'s \<Rightarrow> 'a result \<times> 's"

definition preturn :: "'a \<Rightarrow> ('s, 'a) proc" where
  "preturn x s = (Inr x, s)"

definition praise :: "exc \<Rightarrow> ('s, 'a) proc" where
  "praise e s = (Inl e, s)"

definition plift :: "'a result \<Rightarrow> ('s, 'a) proc" where
  "plift r s = (r, s)"

definition pget :: "('s \<Rightarrow> 'a) \<Rightarrow> ('s, 'a) proc" where
  "pget f s = (Inr (f s), s)"

definition pbind :: "('s, 'a) proc \<Rightarrow> ('a \<Rightarrow> ('s, 'b) proc) \<Rightarrow> ('s, 'b) proc" where
  "pbind m f s = (case m s of (Inl e, s') \<Rightarrow> (Inl e, s') | (Inr x, s') \<Rightarrow> f x s')"

text \<open>
  \<open>try: m except DeliveryConflict: h\<close>; the handler gets the exception, which a bare
  \<open>raise\<close> raises again.
\<close>

definition ptry_conflict :: "('s, 'a) proc \<Rightarrow> (exc \<Rightarrow> ('s, 'a) proc) \<Rightarrow> ('s, 'a) proc" where
  "ptry_conflict m h s =
     (case m s of (Inl (DeliveryConflict e), s') \<Rightarrow> h (DeliveryConflict e) s' | other \<Rightarrow> other)"

text \<open>
  Between two store calls of a coroutine other tasks run; \<open>env\<close> is what they did to the
  store meanwhile.
\<close>

definition pwait :: "('s \<Rightarrow> 's) \<Rightarrow> ('s, unit) proc" where
  "pwait env s = (Inr (), env s)"

lemmas proc_defs = preturn_def praise_def plift_def pget_def pbind_def

declare preturn_def [res_simps] praise_def [res_simps] plift_def [res_simps] pget_def [res_simps]

lemma pbind_simps [simp, res_simps]:
  "pbind (preturn x) f s = f x s"
  "pbind (praise e) f s = (Inl e, s)"
  "pbind (pget g) f s = f (g s) s"
  "pbind (plift (Inl e)) f s = (Inl e, s)"
  "pbind (plift (Inr x)) f s = f x s"
  by (simp_all add: proc_defs)

lemma pbind_pwait [simp, res_simps]: "pbind (pwait env) f s = f () (env s)"
  by (simp add: pwait_def pbind_def)

lemma pbind_Inr_iff:
  "pbind m f s = (Inr y, t) \<longleftrightarrow> (\<exists>x s'. m s = (Inr x, s') \<and> f x s' = (Inr y, t))"
  by (auto simp: pbind_def split: prod.splits sum.splits)

lemma pbind_plift: "pbind (plift r) f s = (case r of Inl e \<Rightarrow> (Inl e, s) | Inr x \<Rightarrow> f x s)"
  by (simp add: proc_defs split: sum.splits)

subsection \<open>Python strings\<close>

text \<open>
  A \<open>string\<close> is a list of the code points 0 to 255 (a \<open>char\<close> is one code point): blank
  space and letter case below are Python's for that range. Text outside it is not modelled.
\<close>

definition py_isspace :: "char \<Rightarrow> bool" where
  "py_isspace c \<longleftrightarrow> (let n = (of_char c :: nat)
     in (9 \<le> n \<and> n \<le> 13) \<or> (28 \<le> n \<and> n \<le> 32) \<or> n = 133 \<or> n = 160)"

definition py_lower_char :: "char \<Rightarrow> char" where
  "py_lower_char c = (let n = (of_char c :: nat)
     in if (65 \<le> n \<and> n \<le> 90) \<or> (192 \<le> n \<and> n \<le> 222 \<and> n \<noteq> 215) then char_of (n + 32) else c)"

definition py_strip :: "string \<Rightarrow> string" where
  "py_strip s = rev (dropWhile py_isspace (rev (dropWhile py_isspace s)))"

definition py_lower :: "string \<Rightarrow> string" where
  "py_lower s = map py_lower_char s"

text \<open>\<open>not value.strip()\<close>, the code's test for an empty text.\<close>

definition blank :: "string \<Rightarrow> bool" where
  "blank s \<longleftrightarrow> py_strip s = []"

lemma of_char_py_lower_char:
  "(of_char (py_lower_char c) :: nat) =
     (let n = (of_char c :: nat)
      in if (65 \<le> n \<and> n \<le> 90) \<or> (192 \<le> n \<and> n \<le> 222 \<and> n \<noteq> 215) then n + 32 else n)"
  by (auto simp: py_lower_char_def Let_def of_char_of)

lemma py_lower_char_idem [simp]: "py_lower_char (py_lower_char c) = py_lower_char c"
proof -
  have "(of_char (py_lower_char (py_lower_char c)) :: nat) = of_char (py_lower_char c)"
    by (auto simp: of_char_py_lower_char Let_def)
  then show ?thesis by simp
qed

lemma py_isspace_lower [simp]: "py_isspace (py_lower_char c) = py_isspace c"
  by (auto simp: py_isspace_def of_char_py_lower_char Let_def)

lemma py_lower_idem [simp]: "py_lower (py_lower s) = py_lower s"
  by (simp add: py_lower_def)

lemma py_lower_length [simp]: "length (py_lower s) = length s"
  by (simp add: py_lower_def)

lemma dropWhile_map_pred: "(\<And>c. P (f c) = P c) \<Longrightarrow> dropWhile P (map f s) = map f (dropWhile P s)"
  by (induction s) auto

lemma py_strip_lower: "py_strip (py_lower s) = py_lower (py_strip s)"
  by (simp add: py_strip_def py_lower_def dropWhile_map_pred rev_map)

lemma dropWhile_fixed: "s = [] \<or> \<not> P (hd s) \<Longrightarrow> dropWhile P s = s"
  by (cases s) auto

lemma dropWhile_head: "dropWhile P s = [] \<or> \<not> P (hd (dropWhile P s))"
  by (induction s) auto

lemma py_strip_ends:
  "py_strip s = [] \<or> (\<not> py_isspace (hd (py_strip s)) \<and> \<not> py_isspace (last (py_strip s)))"
proof (cases "py_strip s = []")
  case False
  let ?d = "dropWhile py_isspace s"
  let ?r = "dropWhile py_isspace (rev ?d)"
  from False have r: "?r \<noteq> []" by (simp add: py_strip_def)
  then have last: "\<not> py_isspace (last (rev ?r))"
    using dropWhile_head [of py_isspace "rev ?d"] by (metis last_rev)
  obtain pre where pre: "rev ?d = pre @ ?r"
    by (metis takeWhile_dropWhile_id)
  then have d: "?d = rev ?r @ rev pre" by (metis rev_append rev_rev_ident)
  have "hd (rev ?r) = hd ?d" by (metis d r hd_append2 rev_is_Nil_conv)
  moreover have "\<not> py_isspace (hd ?d)"
    using dropWhile_head [of py_isspace s] r d by (metis append_is_Nil_conv rev_is_Nil_conv)
  ultimately show ?thesis using last by (simp add: py_strip_def)
qed simp

lemma py_strip_fixed:
  assumes "s = [] \<or> (\<not> py_isspace (hd s) \<and> \<not> py_isspace (last s))"
  shows "py_strip s = s"
proof (cases "s = []")
  case False
  with assms have "dropWhile py_isspace s = s" by (simp add: dropWhile_fixed)
  moreover from False assms have "dropWhile py_isspace (rev s) = rev s"
    by (simp add: dropWhile_fixed hd_rev)
  ultimately show ?thesis by (simp add: py_strip_def)
qed (simp add: py_strip_def)

lemma py_strip_idem [simp]: "py_strip (py_strip s) = py_strip s"
  by (rule py_strip_fixed) (rule py_strip_ends)

lemma blank_strip [simp]: "blank (py_strip s) = blank s"
  by (simp add: blank_def)

lemma blank_lower [simp]: "blank (py_lower s) = blank s"
  unfolding blank_def py_strip_lower by (simp add: py_lower_def)

lemma blank_Nil [simp]: "blank []"
  by (simp add: blank_def py_strip_def)

lemma py_strip_Nil [simp]: "py_strip [] = []"
  by (simp add: py_strip_def)

text \<open>\<open>value.strip().lower()\<close>, the normal form the code compares names and heads in.\<close>

definition norm_text :: "string \<Rightarrow> string" where
  "norm_text s = py_lower (py_strip s)"

lemma norm_text_idem [simp]: "norm_text (norm_text s) = norm_text s"
  by (simp add: norm_text_def py_strip_lower)

lemma norm_text_strip [simp]: "norm_text (py_strip s) = norm_text s"
  by (simp add: norm_text_def)

subsection \<open>Full Git object ids\<close>

definition is_hex :: "char \<Rightarrow> bool" where
  "is_hex c \<longleftrightarrow> c \<in> set ''0123456789abcdef''"

definition normalize_full_sha :: "string \<Rightarrow> string \<Rightarrow> string result" where
  "normalize_full_sha value field =
     (let normalized = py_lower (py_strip value)
      in if length normalized \<noteq> 40 \<or> (\<exists>c \<in> set normalized. \<not> is_hex c)
         then Inl (ValueError (field @ '' must be a full Git object id''))
         else Inr normalized)"

definition full_sha :: "string \<Rightarrow> bool" where
  "full_sha s \<longleftrightarrow> length s = 40 \<and> (\<forall>c \<in> set s. is_hex c)"

lemma normalize_full_sha_Inr_iff:
  "normalize_full_sha v f = Inr s \<longleftrightarrow> s = norm_text v \<and> full_sha s"
  by (auto simp: normalize_full_sha_def norm_text_def full_sha_def Let_def)

lemma normalize_full_sha_Inl_iff:
  "normalize_full_sha v f = Inl e \<longleftrightarrow>
     e = ValueError (f @ '' must be a full Git object id'') \<and> \<not> full_sha (norm_text v)"
  by (auto simp: normalize_full_sha_def norm_text_def full_sha_def Let_def)

lemma hex_plain: "is_hex c \<Longrightarrow> \<not> py_isspace c \<and> py_lower_char c = c"
  by (auto simp: is_hex_def py_isspace_def py_lower_char_def)

lemma full_sha_norm [simp]:
  assumes "full_sha s" shows "norm_text s = s"
proof -
  from assms have ne: "s \<noteq> []" and hex: "\<forall>c \<in> set s. is_hex c" by (auto simp: full_sha_def)
  from ne hex have "\<not> py_isspace (hd s)" "\<not> py_isspace (last s)"
    by (simp_all add: hex_plain)
  then have "py_strip s = s" by (simp add: py_strip_fixed)
  moreover from hex have "py_lower s = s"
    by (simp add: py_lower_def hex_plain map_idI)
  ultimately show ?thesis by (simp add: norm_text_def)
qed

lemma full_sha_replicate: "full_sha (replicate 40 c) = is_hex c"
  by (auto simp: full_sha_def)

subsection \<open>Insertion-ordered dictionaries\<close>

text \<open>
  A Python \<open>dict\<close> is an association list: \<open>AList.update\<close> overwrites in place or
  appends at the end, as \<open>d[k] = v\<close> does, and \<open>map_of\<close> is \<open>d.get\<close>.
\<close>

type_synonym ('k, 'v) dict = "('k \<times> 'v) list"

abbreviation dict_get :: "('k, 'v) dict \<Rightarrow> 'k \<Rightarrow> 'v option" where
  "dict_get d k \<equiv> map_of d k"

abbreviation dict_set :: "'k \<Rightarrow> 'v \<Rightarrow> ('k, 'v) dict \<Rightarrow> ('k, 'v) dict" where
  "dict_set k v d \<equiv> AList.update k v d"

abbreviation dict_keys :: "('k, 'v) dict \<Rightarrow> 'k list" where
  "dict_keys d \<equiv> map fst d"

abbreviation dict_values :: "('k, 'v) dict \<Rightarrow> 'v list" where
  "dict_values d \<equiv> map snd d"

text \<open>\<open>d.update(pairs)\<close>.\<close>

definition dict_update :: "('k \<times> 'v) list \<Rightarrow> ('k, 'v) dict \<Rightarrow> ('k, 'v) dict" where
  "dict_update kvs d = foldl (\<lambda>acc (k, v). dict_set k v acc) d kvs"

lemma dict_update_simps [simp]:
  "dict_update [] d = d"
  "dict_update ((k, v) # kvs) d = dict_update kvs (dict_set k v d)"
  by (simp_all add: dict_update_def)

lemma dict_get_set [simp, dict_simps]:
  "dict_get (dict_set k v d) k' = (if k' = k then Some v else dict_get d k')"
  by (simp add: update_conv')

lemma dict_keys_set [dict_simps]:
  "dict_keys (dict_set k v d) = (if k \<in> fst ` set d then dict_keys d else dict_keys d @ [k])"
  by (induction d) auto

lemma set_dict_keys_set [simp, dict_simps]: "fst ` set (dict_set k v d) = insert k (fst ` set d)"
  by (induction d) auto

lemma distinct_dict_set [simp, dict_simps]: "distinct (dict_keys d) \<Longrightarrow> distinct (dict_keys (dict_set k v d))"
  by (rule distinct_update)

lemma dict_get_Some_in: "distinct (dict_keys d) \<Longrightarrow> (k, v) \<in> set d \<longleftrightarrow> dict_get d k = Some v"
  by simp

lemma dict_get_None_iff: "dict_get d k = None \<longleftrightarrow> k \<notin> fst ` set d"
  by (rule map_of_eq_None_iff)

lemma dict_set_new: "k \<notin> fst ` set d \<Longrightarrow> dict_set k v d = d @ [(k, v)]"
  by (induction d) auto

lemma length_dict_set:
  "length (dict_set k v d) = (if k \<in> fst ` set d then length d else Suc (length d))"
  by (induction d) auto

lemma dict_get_update_pairs:
  "dict_get (dict_update kvs d) k =
     (case map_of (rev kvs) k of None \<Rightarrow> dict_get d k | Some v \<Rightarrow> Some v)"
  by (induction kvs arbitrary: d) (auto simp: map_of_append map_add_def split: option.splits)

lemma distinct_dict_update:
  "distinct (dict_keys d) \<Longrightarrow> distinct (dict_keys (dict_update kvs d))"
  by (induction kvs arbitrary: d) auto

subsection \<open>Iteration helpers\<close>

text \<open>\<open>min(xs, default=d)\<close> and \<open>max(xs, default=d)\<close>.\<close>

fun py_min :: "int list \<Rightarrow> int \<Rightarrow> int" where
  "py_min [] d = d"
| "py_min (x # xs) d = foldr min xs x"

fun py_max :: "int list \<Rightarrow> int \<Rightarrow> int" where
  "py_max [] d = d"
| "py_max (x # xs) d = foldr max xs x"

lemma foldr_min_Min: "foldr min xs (x::int) = Min (insert x (set xs))"
  by (induction xs) (simp_all add: insert_commute)

lemma foldr_max_Max: "foldr max xs (x::int) = Max (insert x (set xs))"
  by (induction xs) (simp_all add: insert_commute)

lemma py_min_Min: "xs \<noteq> [] \<Longrightarrow> py_min xs d = Min (set xs)"
  by (cases xs) (simp_all add: foldr_min_Min)

lemma py_max_Max: "xs \<noteq> [] \<Longrightarrow> py_max xs d = Max (set xs)"
  by (cases xs) (simp_all add: foldr_max_Max)

lemma py_min_le: "x \<in> set xs \<Longrightarrow> py_min xs d \<le> x"
  using py_min_Min [of xs d] by (cases "xs = []") auto

lemma py_min_in: "xs \<noteq> [] \<Longrightarrow> py_min xs d \<in> set xs"
  using py_min_Min [of xs d] by simp

lemma py_max_ge: "x \<in> set xs \<Longrightarrow> x \<le> py_max xs d"
  using py_max_Max [of xs d] by (cases "xs = []") auto

lemma py_max_in: "xs \<noteq> [] \<Longrightarrow> py_max xs d \<in> set xs"
  using py_max_Max [of xs d] by simp

text \<open>\<open>xs[:n]\<close>; a negative \<open>n\<close> drops from the end.\<close>

definition py_prefix :: "int \<Rightarrow> 'a list \<Rightarrow> 'a list" where
  "py_prefix n xs = (if 0 \<le> n then take (nat n) xs else take (length xs - nat (- n)) xs)"

lemma set_py_prefix: "set (py_prefix n xs) \<subseteq> set xs"
  by (auto simp: py_prefix_def dest: in_set_takeD)

lemma length_py_prefix: "0 \<le> n \<Longrightarrow> int (length (py_prefix n xs)) \<le> n"
  by (simp add: py_prefix_def)

lemma py_prefix_split: "\<exists>ys. xs = py_prefix n xs @ ys"
  by (metis append_take_drop_id py_prefix_def)

text \<open>\<open>tuple(f(x) if p(x) else x for x in xs)\<close>.\<close>

definition map_where :: "('a \<Rightarrow> bool) \<Rightarrow> ('a \<Rightarrow> 'a) \<Rightarrow> 'a list \<Rightarrow> 'a list" where
  "map_where p f xs = map (\<lambda>x. if p x then f x else x) xs"

lemma set_map_where: "set (map_where p f xs) = f ` {x \<in> set xs. p x} \<union> {x \<in> set xs. \<not> p x}"
  by (auto simp: map_where_def)

lemma length_map_where [simp]: "length (map_where p f xs) = length xs"
  by (simp add: map_where_def)

lemma map_map_where: "(\<And>x. p x \<Longrightarrow> g (f x) = g x) \<Longrightarrow> map g (map_where p f xs) = map g xs"
  by (simp add: map_where_def)

text \<open>
  \<open>tuple(y for y in xs if key(y) != key(x)) + (x,)\<close>: the latest item per key, newest last.
\<close>

definition put_by :: "('a \<Rightarrow> 'k) \<Rightarrow> 'a \<Rightarrow> 'a list \<Rightarrow> 'a list" where
  "put_by key x xs = filter (\<lambda>y. key y \<noteq> key x) xs @ [x]"

lemma set_put_by: "set (put_by key x xs) = insert x {y \<in> set xs. key y \<noteq> key x}"
  by (auto simp: put_by_def)

lemma distinct_put_by: "distinct (map key xs) \<Longrightarrow> distinct (map key (put_by key x xs))"
  by (induction xs) (auto simp: put_by_def)

lemma last_put_by [simp]: "last (put_by key x xs) = x"
  by (simp add: put_by_def)

lemma put_by_ne [simp]: "put_by key x xs \<noteq> []"
  by (simp add: put_by_def)

lemma find_rev_put_by:
  "find (\<lambda>y. key y = k) (rev (put_by key x xs)) =
     (if key x = k then Some x else find (\<lambda>y. key y = k) (rev xs))"
proof -
  have "find (\<lambda>y. key y = k) (filter (\<lambda>y. key y \<noteq> key x) ys) = find (\<lambda>y. key y = k) ys"
    if "key x \<noteq> k" for ys
    using that by (induction ys) auto
  then show ?thesis by (simp add: put_by_def rev_filter)
qed

text \<open>\<open>next((x for x in xs if p(x)), None)\<close> is \<open>find p xs\<close>.\<close>

lemma find_unique_key:
  assumes "distinct (map key xs)" and "x \<in> set xs"
  shows "find (\<lambda>y. key y = key x) xs = Some x"
  using assms by (induction xs) (auto simp: image_iff)

lemma find_SomeD: "find P xs = Some x \<Longrightarrow> x \<in> set xs \<and> P x"
  by (auto simp: find_Some_iff)

lemma find_filter_neg: "(\<And>x. P x \<Longrightarrow> \<not> Q x) \<Longrightarrow> find P (filter Q xs) = None"
  by (auto simp: find_None_iff)

lemma key_unique: "distinct (map k xs) \<Longrightarrow> x \<in> set xs \<Longrightarrow> y \<in> set xs \<Longrightarrow> k x = k y \<Longrightarrow> x = y"
  by (simp add: distinct_map inj_on_def)

lemma find_filter: "find P (filter Q xs) = find (\<lambda>x. Q x \<and> P x) xs"
  by (induction xs) auto

lemma find_key_map_where:
  assumes "\<And>x. key (g x) = key x" and "k \<noteq> k'"
  shows "find (\<lambda>x. key x = k') (map_where (\<lambda>x. key x = k) g xs) = find (\<lambda>x. key x = k') xs"
  using assms by (induction xs) (auto simp: map_where_def)

lemma find_own_map_where:
  "(\<And>x. key (g x) = key x) \<Longrightarrow>
     find (\<lambda>x. key x = k) (map_where (\<lambda>x. key x = k) g xs) = map_option g (find (\<lambda>x. key x = k) xs)"
  by (induction xs) (auto simp: map_where_def)

lemma find_append: "find P (xs @ ys) = (case find P xs of None \<Rightarrow> find P ys | Some x \<Rightarrow> Some x)"
  by (induction xs) auto

text \<open>Sorting by a key of the mapped items.\<close>

lemma insort_key_map: "insort_key f (g x) (map g xs) = map g (insort_key (f \<circ> g) x xs)"
  by (induction xs) auto

lemma sort_key_map: "sort_key f (map g xs) = map g (sort_key (f \<circ> g) xs)"
  by (induction xs) (simp_all add: insort_key_map comp_def)

lemma find_map: "find P (map f xs) = map_option f (find (\<lambda>x. P (f x)) xs)"
  by (induction xs) auto

lemma map_of_find: "map_of (map (\<lambda>x. (k x, v x)) xs) i = map_option v (find (\<lambda>x. k x = i) xs)"
  by (induction xs) auto

subsection \<open>String enumerations\<close>

text \<open>\<open>Enum(text)\<close>: the member with that value; the code raises where there is none.\<close>

definition enum_parse :: "('e \<Rightarrow> string) \<Rightarrow> 'e list \<Rightarrow> string \<Rightarrow> 'e option" where
  "enum_parse value members s = find (\<lambda>x. value x = s) members"

text \<open>
  What the code relies on for every \<open>StrEnum\<close> it stores: all members are listed and
  their values differ, so reading a stored value gives the member back.
\<close>

locale str_enum =
  fixes val :: "'e \<Rightarrow> string"
    and members :: "'e list"
  assumes member: "x \<in> set members"
    and distinct_values: "distinct (map val members)"
begin

lemma parse_value [simp]: "enum_parse val members (val x) = Some x"
  unfolding enum_parse_def by (rule find_unique_key [OF distinct_values member])

lemma value_inj: "val x = val y \<Longrightarrow> x = y"
  by (metis parse_value option.inject)

lemma value_eq_iff: "val x = val y \<longleftrightarrow> x = y"
  using value_inj by blast

lemma parse_Some_iff: "enum_parse val members s = Some x \<longleftrightarrow> val x = s"
  using parse_value by (auto simp: enum_parse_def find_Some_iff)

end

end
