(* ===== verification/Identifiers.thy ===== *)
theory Identifiers
  imports Prelude
begin

text \<open>
  Identifiers and clock values. A \<open>UUID\<close> is a 128-bit value; \<open>str\<close> of it is the
  canonical 8-4-4-4-12 lower-case hexadecimal form, which the code uses in messages and as
  a sort key. The sort key orders identifiers exactly as their 128-bit values, so a sort
  by \<open>key=str\<close> is a sort by value (\<open>sort_key_uuid_str\<close>). A UTC \<open>datetime\<close> is
  its number of microseconds since the epoch.
\<close>

type_synonym uuid = "128 word"
type_synonym datetime = int

definition seconds :: "int \<Rightarrow> int" where
  "seconds n = n * 1000000"

subsection \<open>Hexadecimal printing\<close>

definition hex_digit :: "nat \<Rightarrow> char" where
  "hex_digit d = ''0123456789abcdef'' ! d"

fun hexn :: "nat \<Rightarrow> nat \<Rightarrow> string" where
  "hexn 0 x = []"
| "hexn (Suc n) x = hex_digit (x div 16 ^ n mod 16) # hexn n x"

definition dashed :: "string \<Rightarrow> string" where
  "dashed h = take 8 h @ CHR ''-'' # take 4 (drop 8 h) @ CHR ''-'' # take 4 (drop 12 h)
     @ CHR ''-'' # take 4 (drop 16 h) @ CHR ''-'' # drop 20 h"

definition uuid_str :: "uuid \<Rightarrow> string" where
  "uuid_str u = dashed (hexn 32 (unat u))"

lemma length_hexn [simp]: "length (hexn n x) = n"
  by (induction n) simp_all

lemma hex_digit_less: "d < 16 \<Longrightarrow> e < 16 \<Longrightarrow> hex_digit d < hex_digit e \<longleftrightarrow> d < e"
proof -
  have "\<forall>d < 16. \<forall>e < 16. (hex_digit d < hex_digit e) = (d < e)"
    by code_simp
  then show "d < 16 \<Longrightarrow> e < 16 \<Longrightarrow> hex_digit d < hex_digit e \<longleftrightarrow> d < e" by blast
qed

lemma hex_digit_inj: "d < 16 \<Longrightarrow> e < 16 \<Longrightarrow> hex_digit d = hex_digit e \<longleftrightarrow> d = e"
  by (metis hex_digit_less nat_neq_iff order_less_irrefl)

lemma append_less_append:
  fixes a b :: "'a::linorder list"
  assumes "length a = length b"
  shows "a @ c < b @ d \<longleftrightarrow> a < b \<or> (a = b \<and> c < d)"
  using assms by (induction a b rule: list_induct2) auto

lemma mod_pow_Suc: "(x::nat) mod 16 ^ Suc n = 16 ^ n * (x div 16 ^ n mod 16) + x mod 16 ^ n"
  unfolding power_Suc2 by (rule mod_mult2_eq)

lemma two_digit_less:
  fixes a b r s B :: nat
  assumes "r < B" and "s < B"
  shows "B * a + r < B * b + s \<longleftrightarrow> a < b \<or> (a = b \<and> r < s)"
proof -
  have "B * a + r < B * b + s" if "a < b" "r < B" for a b r s
  proof -
    from that(1) have "B * Suc a \<le> B * b" by (intro mult_le_mono2) simp
    with that(2) show ?thesis by simp
  qed
  then show ?thesis using assms by (metis add_less_cancel_left nat_neq_iff order_less_asym)
qed

lemma hexn_less: "hexn n x < hexn n y \<longleftrightarrow> x mod 16 ^ n < y mod 16 ^ n"
proof (induction n)
  case (Suc n)
  let ?a = "x div 16 ^ n mod 16" and ?b = "y div 16 ^ n mod 16"
  have "hexn (Suc n) x < hexn (Suc n) y \<longleftrightarrow> ?a < ?b \<or> (?a = ?b \<and> hexn n x < hexn n y)"
    by (simp add: hex_digit_less hex_digit_inj)
  also have "\<dots> \<longleftrightarrow> 16 ^ n * ?a + x mod 16 ^ n < 16 ^ n * ?b + y mod 16 ^ n"
    unfolding Suc.IH by (rule two_digit_less [symmetric]) simp_all
  finally show ?case by (simp only: mod_pow_Suc)
qed simp

lemma dashed_blocks: "h = take 8 h @ take 4 (drop 8 h) @ take 4 (drop 12 h) @ take 4 (drop 16 h) @ drop 20 h"
proof -
  have "drop 16 h = take 4 (drop 16 h) @ drop 20 h"
    using append_take_drop_id [of 4 "drop 16 h"] by simp
  moreover have "drop 12 h = take 4 (drop 12 h) @ drop 16 h"
    using append_take_drop_id [of 4 "drop 12 h"] by simp
  moreover have "drop 8 h = take 4 (drop 8 h) @ drop 12 h"
    using append_take_drop_id [of 4 "drop 8 h"] by simp
  ultimately show ?thesis by (metis append_take_drop_id)
qed

lemma dashed_less:
  assumes "length g = length h"
  shows "dashed g < dashed h \<longleftrightarrow> g < h"
proof -
  have "g < h \<longleftrightarrow>
      take 8 g @ take 4 (drop 8 g) @ take 4 (drop 12 g) @ take 4 (drop 16 g) @ drop 20 g <
      take 8 h @ take 4 (drop 8 h) @ take 4 (drop 12 h) @ take 4 (drop 16 h) @ drop 20 h"
    using dashed_blocks [of g] dashed_blocks [of h] by simp
  then show ?thesis
    using assms by (simp add: dashed_def append_less_append)
qed

lemma unat_uuid_less: "unat (u::uuid) < 16 ^ 32"
proof -
  have "unat u < 2 ^ 128" using unsigned_less [of u, where ?'a = nat] by simp
  then show ?thesis by simp
qed

theorem uuid_str_less: "uuid_str u < uuid_str v \<longleftrightarrow> u < v"
  using unat_uuid_less [of u] unat_uuid_less [of v]
  by (simp add: uuid_str_def dashed_less hexn_less word_less_nat_alt)

lemma uuid_str_inj [simp]: "uuid_str u = uuid_str v \<longleftrightarrow> u = v"
  by (metis uuid_str_less linorder_less_linear order_less_irrefl)

lemma uuid_str_le: "uuid_str u \<le> uuid_str v \<longleftrightarrow> u \<le> v"
  by (simp add: uuid_str_less flip: linorder_not_less)

lemma insort_key_uuid_str: "insort_key uuid_str u us = insort u us"
  by (induction us) (simp_all add: uuid_str_le)

lemma sort_key_uuid_str [simp]: "sort_key uuid_str us = sort us"
  by (induction us) (simp_all add: sort_key_def insort_key_uuid_str)

end
