(* ===== verification/Json_Values.thy ===== *)
theory Json_Values
  imports Prelude
begin

text \<open>
  The JSON documents the code stores as payloads and reads back (\<open>dict[str, object]\<close>
  values): Python's \<open>None\<close>, \<open>bool\<close>, \<open>int\<close>, \<open>float\<close>, \<open>str\<close>, \<open>list\<close>
  and \<open>dict\<close>. A float is kept as its decimal form \<open>m * 10 ^ e\<close>.
  \<open>json_eq\<close> is Python's \<open>==\<close> on them: a \<open>dict\<close> ignores the order of its
  keys and \<open>True\<close> equals \<open>1\<close>.
\<close>

datatype json =
    JNull
  | JBool bool
  | JInt int
  | JFloat (mantissa: int) (exponent: int)
  | JStr string
  | JList "json list"
  | JObject "(string \<times> json) list"

definition bool_int :: "bool \<Rightarrow> int" where
  "bool_int b = (if b then 1 else 0)"

text \<open>\<open>m * 10 ^ e = n * 10 ^ f\<close>, cross-multiplied so that it stays within the integers.\<close>

definition decimal_eq :: "int \<Rightarrow> int \<Rightarrow> int \<Rightarrow> int \<Rightarrow> bool" where
  "decimal_eq m e n f \<longleftrightarrow> m * 10 ^ nat (e - f) = n * 10 ^ nat (f - e)"

fun numeric :: "json \<Rightarrow> (int \<times> int) option" where
  "numeric (JBool b) = Some (bool_int b, 0)"
| "numeric (JInt n) = Some (n, 0)"
| "numeric (JFloat m e) = Some (m, e)"
| "numeric _ = None"

fun json_scalar_eq :: "json \<Rightarrow> json \<Rightarrow> bool" where
  "json_scalar_eq JNull JNull = True"
| "json_scalar_eq (JStr s) (JStr t) = (s = t)"
| "json_scalar_eq a b =
     (case (numeric a, numeric b) of
        (Some (m, e), Some (n, f)) \<Rightarrow> decimal_eq m e n f
      | _ \<Rightarrow> False)"

fun json_eq :: "json \<Rightarrow> json \<Rightarrow> bool"
  and json_list_eq :: "json list \<Rightarrow> json list \<Rightarrow> bool"
  and json_items_in :: "(string \<times> json) list \<Rightarrow> (string \<times> json) list \<Rightarrow> bool"
where
  "json_eq (JList xs) (JList ys) = json_list_eq xs ys"
| "json_eq (JObject xs) (JObject ys) = (length xs = length ys \<and> json_items_in xs ys)"
| "json_eq a b = json_scalar_eq a b"
| "json_list_eq [] [] = True"
| "json_list_eq (x # xs) (y # ys) = (json_eq x y \<and> json_list_eq xs ys)"
| "json_list_eq _ _ = False"
| "json_items_in [] ys = True"
| "json_items_in ((k, v) # xs) ys =
     ((case map_of ys k of None \<Rightarrow> False | Some w \<Rightarrow> json_eq v w) \<and> json_items_in xs ys)"

text \<open>A \<open>dict\<close> holds a key once, at every depth.\<close>

fun json_wf :: "json \<Rightarrow> bool" where
  "json_wf (JList xs) = (\<forall>x \<in> set xs. json_wf x)"
| "json_wf (JObject xs) = (distinct (map fst xs) \<and> (\<forall>kv \<in> set xs. json_wf (snd kv)))"
| "json_wf _ = True"

lemma json_items_in_iff:
  "json_items_in xs ys \<longleftrightarrow> (\<forall>(k, v) \<in> set xs. \<exists>w. map_of ys k = Some w \<and> json_eq v w)"
  by (induction xs) (auto split: option.splits)

lemma json_list_eq_refl: "(\<And>x. x \<in> set xs \<Longrightarrow> json_eq x x) \<Longrightarrow> json_list_eq xs xs"
  by (induction xs) auto

lemma json_eq_refl: "json_wf j \<Longrightarrow> json_eq j j"
proof (induction j rule: json_wf.induct)
  case (1 xs)
  then show ?case by (simp add: json_list_eq_refl)
next
  case (2 xs)
  then show ?case by (force simp: json_items_in_iff)
qed (simp_all add: decimal_eq_def)

text \<open>\<open>document.get(key)\<close> on a decoded object.\<close>

fun json_get :: "json \<Rightarrow> string \<Rightarrow> json option" where
  "json_get (JObject kvs) k = map_of kvs k"
| "json_get _ k = None"

end
