(* ===== verification/Delivery_Contracts.thy ===== *)
theory Delivery_Contracts
  imports Identifiers Json_Values
begin

text \<open>
  The public vocabulary of the delivery module (\<open>modules/delivery/contracts.py\<close>): its
  status enumerations with their stored values, the command and view classes, and the
  generator of pull request descriptions. Every \<open>StrEnum\<close> is a datatype with a
  \<open>_value\<close> function (the stored text) and a \<open>_members\<close> list;
  \<open>str_enum\<close> gives the round trip \<open>Status(status.value) = status\<close> for each.
\<close>

text \<open>A \<open>datetime\<close> that may lack a time zone; every other clock value is aware.\<close>

datatype py_datetime = Aware datetime | Naive datetime

subsection \<open>Enumerations\<close>

datatype change_set_status =
    CS_DRAFT
  | CS_READY
  | CS_DELIVERING
  | CS_BLOCKED
  | CS_DELIVERED
  | CS_COMPENSATING
  | CS_COMPENSATED
  | CS_MANUAL_INTERVENTION

fun change_set_status_value :: "change_set_status \<Rightarrow> string" where
  "change_set_status_value CS_DRAFT = ''draft''"
| "change_set_status_value CS_READY = ''ready''"
| "change_set_status_value CS_DELIVERING = ''delivering''"
| "change_set_status_value CS_BLOCKED = ''blocked''"
| "change_set_status_value CS_DELIVERED = ''delivered''"
| "change_set_status_value CS_COMPENSATING = ''compensating''"
| "change_set_status_value CS_COMPENSATED = ''compensated''"
| "change_set_status_value CS_MANUAL_INTERVENTION = ''manual_intervention''"

definition change_set_status_members :: "change_set_status list" where
  "change_set_status_members =
     [CS_DRAFT, CS_READY, CS_DELIVERING, CS_BLOCKED, CS_DELIVERED, CS_COMPENSATING,
      CS_COMPENSATED, CS_MANUAL_INTERVENTION]"

interpretation CS: str_enum change_set_status_value change_set_status_members
proof
  show "x \<in> set change_set_status_members" for x
    by (cases x) (simp_all add: change_set_status_members_def)
qed (simp add: change_set_status_members_def)

datatype repository_delivery_status =
    RD_PENDING
  | RD_PR_OPEN
  | RD_CI_PENDING
  | RD_CI_FAILED
  | RD_REVIEW_PENDING
  | RD_REVIEW_CHANGES_REQUESTED
  | RD_READY_TO_MERGE
  | RD_MERGE_REQUESTED
  | RD_MERGED
  | RD_COMPENSATION_PENDING
  | RD_COMPENSATED
  | RD_MANUAL_INTERVENTION

fun repository_delivery_status_value :: "repository_delivery_status \<Rightarrow> string" where
  "repository_delivery_status_value RD_PENDING = ''pending''"
| "repository_delivery_status_value RD_PR_OPEN = ''pr_open''"
| "repository_delivery_status_value RD_CI_PENDING = ''ci_pending''"
| "repository_delivery_status_value RD_CI_FAILED = ''ci_failed''"
| "repository_delivery_status_value RD_REVIEW_PENDING = ''review_pending''"
| "repository_delivery_status_value RD_REVIEW_CHANGES_REQUESTED = ''review_changes_requested''"
| "repository_delivery_status_value RD_READY_TO_MERGE = ''ready_to_merge''"
| "repository_delivery_status_value RD_MERGE_REQUESTED = ''merge_requested''"
| "repository_delivery_status_value RD_MERGED = ''merged''"
| "repository_delivery_status_value RD_COMPENSATION_PENDING = ''compensation_pending''"
| "repository_delivery_status_value RD_COMPENSATED = ''compensated''"
| "repository_delivery_status_value RD_MANUAL_INTERVENTION = ''manual_intervention''"

definition repository_delivery_status_members :: "repository_delivery_status list" where
  "repository_delivery_status_members =
     [RD_PENDING, RD_PR_OPEN, RD_CI_PENDING, RD_CI_FAILED, RD_REVIEW_PENDING,
      RD_REVIEW_CHANGES_REQUESTED, RD_READY_TO_MERGE, RD_MERGE_REQUESTED, RD_MERGED,
      RD_COMPENSATION_PENDING, RD_COMPENSATED, RD_MANUAL_INTERVENTION]"

interpretation RD: str_enum repository_delivery_status_value repository_delivery_status_members
proof
  show "x \<in> set repository_delivery_status_members" for x
    by (cases x) (simp_all add: repository_delivery_status_members_def)
qed (simp add: repository_delivery_status_members_def)

datatype recovery_trigger =
    RT_RUNNER_FAILED
  | RT_RUNNER_INTERRUPTED
  | RT_CI_FAILED
  | RT_PR_CONFLICT
  | RT_PARTIAL_MERGE
  | RT_OPERATOR_REQUESTED

fun recovery_trigger_value :: "recovery_trigger \<Rightarrow> string" where
  "recovery_trigger_value RT_RUNNER_FAILED = ''runner_failed''"
| "recovery_trigger_value RT_RUNNER_INTERRUPTED = ''runner_interrupted''"
| "recovery_trigger_value RT_CI_FAILED = ''ci_failed''"
| "recovery_trigger_value RT_PR_CONFLICT = ''pr_conflict''"
| "recovery_trigger_value RT_PARTIAL_MERGE = ''partial_merge''"
| "recovery_trigger_value RT_OPERATOR_REQUESTED = ''operator_requested''"

definition recovery_trigger_members :: "recovery_trigger list" where
  "recovery_trigger_members =
     [RT_RUNNER_FAILED, RT_RUNNER_INTERRUPTED, RT_CI_FAILED, RT_PR_CONFLICT,
      RT_PARTIAL_MERGE, RT_OPERATOR_REQUESTED]"

interpretation RT: str_enum recovery_trigger_value recovery_trigger_members
proof
  show "x \<in> set recovery_trigger_members" for x
    by (cases x) (simp_all add: recovery_trigger_members_def)
qed (simp add: recovery_trigger_members_def)

datatype recovery_action_kind =
    RK_RESUME_RUNNER_SESSION
  | RK_RETRY_RUNNER
  | RK_CLOSE_PULL_REQUEST
  | RK_CREATE_REVERT_PULL_REQUEST
  | RK_MERGE_REVERT_PULL_REQUEST
  | RK_REVALIDATE_CHANGESET
  | RK_MANUAL_INTERVENTION

fun recovery_action_kind_value :: "recovery_action_kind \<Rightarrow> string" where
  "recovery_action_kind_value RK_RESUME_RUNNER_SESSION = ''resume_runner_session''"
| "recovery_action_kind_value RK_RETRY_RUNNER = ''retry_runner''"
| "recovery_action_kind_value RK_CLOSE_PULL_REQUEST = ''close_pull_request''"
| "recovery_action_kind_value RK_CREATE_REVERT_PULL_REQUEST = ''create_revert_pull_request''"
| "recovery_action_kind_value RK_MERGE_REVERT_PULL_REQUEST = ''merge_revert_pull_request''"
| "recovery_action_kind_value RK_REVALIDATE_CHANGESET = ''revalidate_changeset''"
| "recovery_action_kind_value RK_MANUAL_INTERVENTION = ''manual_intervention''"

definition recovery_action_kind_members :: "recovery_action_kind list" where
  "recovery_action_kind_members =
     [RK_RESUME_RUNNER_SESSION, RK_RETRY_RUNNER, RK_CLOSE_PULL_REQUEST,
      RK_CREATE_REVERT_PULL_REQUEST, RK_MERGE_REVERT_PULL_REQUEST, RK_REVALIDATE_CHANGESET,
      RK_MANUAL_INTERVENTION]"

interpretation RK: str_enum recovery_action_kind_value recovery_action_kind_members
proof
  show "x \<in> set recovery_action_kind_members" for x
    by (cases x) (simp_all add: recovery_action_kind_members_def)
qed (simp add: recovery_action_kind_members_def)

datatype recovery_action_status =
    RA_PENDING
  | RA_RUNNING
  | RA_WAITING_WORKER
  | RA_SUCCEEDED
  | RA_FAILED
  | RA_SKIPPED

fun recovery_action_status_value :: "recovery_action_status \<Rightarrow> string" where
  "recovery_action_status_value RA_PENDING = ''pending''"
| "recovery_action_status_value RA_RUNNING = ''running''"
| "recovery_action_status_value RA_WAITING_WORKER = ''waiting_worker''"
| "recovery_action_status_value RA_SUCCEEDED = ''succeeded''"
| "recovery_action_status_value RA_FAILED = ''failed''"
| "recovery_action_status_value RA_SKIPPED = ''skipped''"

definition recovery_action_status_members :: "recovery_action_status list" where
  "recovery_action_status_members =
     [RA_PENDING, RA_RUNNING, RA_WAITING_WORKER, RA_SUCCEEDED, RA_FAILED, RA_SKIPPED]"

interpretation RA: str_enum recovery_action_status_value recovery_action_status_members
proof
  show "x \<in> set recovery_action_status_members" for x
    by (cases x) (simp_all add: recovery_action_status_members_def)
qed (simp add: recovery_action_status_members_def)

datatype review_state =
    RV_APPROVED
  | RV_CHANGES_REQUESTED
  | RV_DISMISSED

fun review_state_value :: "review_state \<Rightarrow> string" where
  "review_state_value RV_APPROVED = ''approved''"
| "review_state_value RV_CHANGES_REQUESTED = ''changes_requested''"
| "review_state_value RV_DISMISSED = ''dismissed''"

definition review_state_members :: "review_state list" where
  "review_state_members =
     [RV_APPROVED, RV_CHANGES_REQUESTED, RV_DISMISSED]"

interpretation RV: str_enum review_state_value review_state_members
proof
  show "x \<in> set review_state_members" for x
    by (cases x) (simp_all add: review_state_members_def)
qed (simp add: review_state_members_def)

datatype governance_decision_kind =
    GD_READY
  | GD_BLOCKED
  | GD_ROLLBACK_REQUIRED

fun governance_decision_kind_value :: "governance_decision_kind \<Rightarrow> string" where
  "governance_decision_kind_value GD_READY = ''ready''"
| "governance_decision_kind_value GD_BLOCKED = ''blocked''"
| "governance_decision_kind_value GD_ROLLBACK_REQUIRED = ''rollback_required''"

definition governance_decision_kind_members :: "governance_decision_kind list" where
  "governance_decision_kind_members =
     [GD_READY, GD_BLOCKED, GD_ROLLBACK_REQUIRED]"

interpretation GD: str_enum governance_decision_kind_value governance_decision_kind_members
proof
  show "x \<in> set governance_decision_kind_members" for x
    by (cases x) (simp_all add: governance_decision_kind_members_def)
qed (simp add: governance_decision_kind_members_def)

datatype scm_observation_source =
    SRC_WEBHOOK
  | SRC_POLLER
  | SRC_RECONCILIATION

fun scm_observation_source_value :: "scm_observation_source \<Rightarrow> string" where
  "scm_observation_source_value SRC_WEBHOOK = ''webhook''"
| "scm_observation_source_value SRC_POLLER = ''poller''"
| "scm_observation_source_value SRC_RECONCILIATION = ''reconciliation''"

definition scm_observation_source_members :: "scm_observation_source list" where
  "scm_observation_source_members =
     [SRC_WEBHOOK, SRC_POLLER, SRC_RECONCILIATION]"

interpretation SRC: str_enum scm_observation_source_value scm_observation_source_members
proof
  show "x \<in> set scm_observation_source_members" for x
    by (cases x) (simp_all add: scm_observation_source_members_def)
qed (simp add: scm_observation_source_members_def)

datatype scm_observation_status =
    SO_PENDING
  | SO_PROCESSING
  | SO_PROCESSED
  | SO_FAILED

fun scm_observation_status_value :: "scm_observation_status \<Rightarrow> string" where
  "scm_observation_status_value SO_PENDING = ''pending''"
| "scm_observation_status_value SO_PROCESSING = ''processing''"
| "scm_observation_status_value SO_PROCESSED = ''processed''"
| "scm_observation_status_value SO_FAILED = ''failed''"

definition scm_observation_status_members :: "scm_observation_status list" where
  "scm_observation_status_members =
     [SO_PENDING, SO_PROCESSING, SO_PROCESSED, SO_FAILED]"

interpretation SO: str_enum scm_observation_status_value scm_observation_status_members
proof
  show "x \<in> set scm_observation_status_members" for x
    by (cases x) (simp_all add: scm_observation_status_members_def)
qed (simp add: scm_observation_status_members_def)

datatype scm_command_kind =
    CK_MERGE_PULL_REQUEST
  | CK_UNDRAFT_PULL_REQUEST

fun scm_command_kind_value :: "scm_command_kind \<Rightarrow> string" where
  "scm_command_kind_value CK_MERGE_PULL_REQUEST = ''merge_pull_request''"
| "scm_command_kind_value CK_UNDRAFT_PULL_REQUEST = ''undraft_pull_request''"

definition scm_command_kind_members :: "scm_command_kind list" where
  "scm_command_kind_members =
     [CK_MERGE_PULL_REQUEST, CK_UNDRAFT_PULL_REQUEST]"

interpretation CK: str_enum scm_command_kind_value scm_command_kind_members
proof
  show "x \<in> set scm_command_kind_members" for x
    by (cases x) (simp_all add: scm_command_kind_members_def)
qed (simp add: scm_command_kind_members_def)

datatype scm_command_status =
    SC_PENDING
  | SC_PROCESSING
  | SC_ACCEPTED
  | SC_FAILED

fun scm_command_status_value :: "scm_command_status \<Rightarrow> string" where
  "scm_command_status_value SC_PENDING = ''pending''"
| "scm_command_status_value SC_PROCESSING = ''processing''"
| "scm_command_status_value SC_ACCEPTED = ''accepted''"
| "scm_command_status_value SC_FAILED = ''failed''"

definition scm_command_status_members :: "scm_command_status list" where
  "scm_command_status_members =
     [SC_PENDING, SC_PROCESSING, SC_ACCEPTED, SC_FAILED]"

interpretation SC: str_enum scm_command_status_value scm_command_status_members
proof
  show "x \<in> set scm_command_status_members" for x
    by (cases x) (simp_all add: scm_command_status_members_def)
qed (simp add: scm_command_status_members_def)

subsection \<open>Commands\<close>

text \<open>
  The immutable command objects the services take, one record per class, fields in the
  order of the class.
\<close>

record record_governance_decision_command =
  rgd_change_set_id :: uuid
  rgd_repository_id :: uuid
  rgd_head_sha :: string
  rgd_decision :: governance_decision_kind
  rgd_decided_by_agent_id :: uuid
  rgd_reason :: string

record enqueue_scm_command =
  esc_change_set_id :: uuid
  esc_repository_id :: uuid
  esc_kind :: scm_command_kind
  esc_idempotency_key :: string
  esc_payload :: json

record record_scm_observation_command =
  rso_provider :: string
  rso_source :: scm_observation_source
  rso_external_id :: string
  rso_event_type :: string
  rso_payload :: json
  rso_payload_hash :: string
  rso_observed_at :: py_datetime
  rso_change_set_id :: "uuid option"
  rso_repository_id :: "uuid option"

record repository_candidate_input =
  rci_repository_id :: uuid
  rci_task_id :: uuid
  rci_commit_sha :: string
  rci_base_sha :: string
  rci_branch_name :: string
  rci_depends_on :: "uuid list"
  rci_required_checks :: "string list"
  rci_required_approvals :: int
  rci_plan_id :: "uuid option"
  rci_run_id :: "uuid option"
  rci_worker_agent_id :: "uuid option"

record record_candidate_traceability_command =
  rct_change_set_id :: uuid
  rct_repository_id :: uuid
  rct_task_id :: uuid
  rct_commit_sha :: string
  rct_plan_id :: uuid
  rct_run_id :: "uuid option"
  rct_worker_agent_id :: uuid

record append_candidates_command =
  apc_change_set_id :: uuid
  apc_candidates :: "repository_candidate_input list"

record record_candidate_revision_command =
  rcr_change_set_id :: uuid
  rcr_repository_id :: uuid
  rcr_task_id :: uuid
  rcr_previous_head_sha :: string
  rcr_new_head_sha :: string
  rcr_reason :: string

record prepare_change_set_command =
  pcs_organization_id :: uuid
  pcs_project_id :: uuid
  pcs_created_by_agent_id :: uuid
  pcs_title :: string
  pcs_validation_snapshot_id :: "uuid option"
  pcs_candidates :: "repository_candidate_input list"

record pull_request_observation_command =
  pro_change_set_id :: uuid
  pro_repository_id :: uuid
  pro_pull_request_number :: int
  pro_pull_request_url :: string
  pro_head_sha :: string

record ci_observation_command =
  cio_change_set_id :: uuid
  cio_repository_id :: uuid
  cio_passed :: bool
  cio_check_run_id :: string
  cio_summary :: string
  cio_check_name :: string

record review_observation_command =
  rvo_change_set_id :: uuid
  rvo_repository_id :: uuid
  rvo_review_id :: string
  rvo_reviewer :: string
  rvo_state :: review_state
  rvo_head_sha :: string
  rvo_summary :: string

record merge_observation_command =
  mob_change_set_id :: uuid
  mob_repository_id :: uuid
  mob_merge_sha :: string

record record_merge_requested_command =
  rmr_change_set_id :: uuid
  rmr_repository_id :: uuid
  rmr_head_sha :: string

record plan_recovery_command =
  prc_change_set_id :: uuid
  prc_trigger :: recovery_trigger
  prc_reason :: string
  prc_repository_id :: "uuid option"
  prc_run_id :: "uuid option"
  prc_native_session_id :: "string option"

record record_recovery_action_command =
  rra_change_set_id :: uuid
  rra_recovery_plan_id :: uuid
  rra_action_id :: uuid
  rra_status :: recovery_action_status
  rra_detail :: string

record request_change_set_rollback_command =
  rcb_change_set_id :: uuid
  rcb_reason :: string
  rcb_requested_by_agent_id :: uuid

subsection \<open>Views\<close>

text \<open>The read-only views the services answer with, one record per class.\<close>

record governance_decision_view =
  gdv_id :: uuid
  gdv_repository_id :: uuid
  gdv_head_sha :: string
  gdv_decision :: governance_decision_kind
  gdv_decided_by_agent_id :: uuid
  gdv_reason :: string
  gdv_decided_at :: datetime

record delivery_archive_view =
  dav_delivery_id :: uuid
  dav_archived_at :: datetime

record scm_command_view =
  scv_id :: uuid
  scv_change_set_id :: uuid
  scv_repository_id :: uuid
  scv_kind :: scm_command_kind
  scv_idempotency_key :: string
  scv_payload :: json
  scv_status :: scm_command_status
  scv_attempts :: int
  scv_version :: int
  scv_last_error :: "string option"
  scv_created_at :: datetime
  scv_claimed_at :: "datetime option"
  scv_lease_owner :: "string option"
  scv_lease_expires_at :: "datetime option"
  scv_completed_at :: "datetime option"

record scm_poll_cursor_view =
  pcv_change_set_id :: uuid
  pcv_repository_id :: uuid
  pcv_consecutive_failures :: int
  pcv_last_polled_at :: "datetime option"
  pcv_next_poll_at :: datetime
  pcv_last_error :: "string option"
  pcv_version :: int

record scm_observation_view =
  sov_id :: uuid
  sov_provider :: string
  sov_source :: scm_observation_source
  sov_external_id :: string
  sov_event_type :: string
  sov_payload :: json
  sov_payload_hash :: string
  sov_status :: scm_observation_status
  sov_change_set_id :: "uuid option"
  sov_repository_id :: "uuid option"
  sov_attempts :: int
  sov_version :: int
  sov_last_error :: "string option"
  sov_observed_at :: py_datetime
  sov_received_at :: datetime
  sov_claimed_at :: "datetime option"
  sov_processed_at :: "datetime option"

record recorded_scm_observation =
  ros_observation :: scm_observation_view
  ros_created :: bool

record candidate_revision_view =
  crv_id :: uuid
  crv_repository_id :: uuid
  crv_task_id :: uuid
  crv_sequence :: int
  crv_head_sha :: string
  crv_previous_head_sha :: "string option"
  crv_reason :: string
  crv_created_at :: datetime

record ci_check_observation_view =
  ccv_check_name :: string
  ccv_check_run_id :: string
  ccv_passed :: bool
  ccv_summary :: string

record review_observation_view =
  rov_review_id :: string
  rov_reviewer :: string
  rov_state :: review_state
  rov_summary :: string

record repository_delivery_view =
  rdv_repository_id :: uuid
  rdv_task_id :: uuid
  rdv_commit_sha :: string
  rdv_base_sha :: string
  rdv_branch_name :: string
  rdv_depends_on :: "uuid list"
  rdv_merge_order :: int
  rdv_status :: repository_delivery_status
  rdv_pull_request_number :: "int option"
  rdv_pull_request_url :: "string option"
  rdv_ci_check_run_id :: "string option"
  rdv_ci_summary :: "string option"
  rdv_merge_sha :: "string option"
  rdv_required_checks :: "string list"
  rdv_ci_checks :: "ci_check_observation_view list"
  rdv_required_approvals :: int
  rdv_reviews :: "review_observation_view list"
  rdv_plan_id :: "uuid option"
  rdv_run_id :: "uuid option"
  rdv_worker_agent_id :: "uuid option"

record recovery_action_view =
  rav_id :: uuid
  rav_sequence :: int
  rav_kind :: recovery_action_kind
  rav_status :: recovery_action_status
  rav_repository_id :: "uuid option"
  rav_run_id :: "uuid option"
  rav_detail :: string

record recovery_plan_view =
  rpv_id :: uuid
  rpv_trigger :: recovery_trigger
  rpv_reason :: string
  rpv_created_at :: datetime
  rpv_actions :: "recovery_action_view list"

record change_set_view =
  csv_id :: uuid
  csv_organization_id :: uuid
  csv_project_id :: uuid
  csv_created_by_agent_id :: uuid
  csv_title :: string
  csv_validation_snapshot_id :: "uuid option"
  csv_status :: change_set_status
  csv_version :: int
  csv_merge_cursor :: int
  csv_repositories :: "repository_delivery_view list"
  csv_recovery_plans :: "recovery_plan_view list"
  csv_governance_decisions :: "governance_decision_view list"
  csv_candidate_revisions :: "candidate_revision_view list"
  csv_created_at :: datetime
  csv_updated_at :: datetime

record change_set_rollback_view =
  crb_delivery_id :: uuid
  crb_change_set_id :: uuid
  crb_decisions :: "governance_decision_view list"
  crb_recovery_plan :: recovery_plan_view
  crb_replayed :: bool

record delivery_traceability =
  dtr_issue_id :: uuid
  dtr_change_set_id :: uuid
  dtr_repository_id :: uuid
  dtr_task_id :: uuid
  dtr_branch_name :: string
  dtr_commit_sha :: string
  dtr_plan_id :: "uuid option"
  dtr_run_id :: "uuid option"
  dtr_worker_agent_id :: "uuid option"

record contract_view =
  cov_producer :: uuid
  cov_consumer :: uuid
  cov_interface :: string
  cov_status :: string
  cov_consumer_planned :: bool

record merge_gate_decision =
  mgd_change_set_id :: uuid
  mgd_repository_id :: uuid
  mgd_allowed :: bool
  mgd_reasons :: "string list"

record validation_evidence_decision =
  ved_valid :: bool
  ved_reasons :: "string list"

subsection \<open>The pull request description\<close>

text \<open>
  \<open>render_delivery_pull_request_body\<close>: a labelled line per fact, an absent optional id
  left out, joined by newlines.
\<close>

definition py_join :: "string \<Rightarrow> string list \<Rightarrow> string" where
  "py_join sep parts = concat (case parts of [] \<Rightarrow> [] | p # ps \<Rightarrow> p # map (\<lambda>x. sep @ x) ps)"

definition traceability_fields :: "delivery_traceability \<Rightarrow> (string \<times> string option) list" where
  "traceability_fields t =
     [(''issue'', Some (uuid_str (dtr_issue_id t))),
      (''change_set'', Some (uuid_str (dtr_change_set_id t))),
      (''plan'', map_option uuid_str (dtr_plan_id t)),
      (''repository'', Some (uuid_str (dtr_repository_id t))),
      (''task'', Some (uuid_str (dtr_task_id t))),
      (''run'', map_option uuid_str (dtr_run_id t)),
      (''worker_agent'', map_option uuid_str (dtr_worker_agent_id t)),
      (''branch'', Some (dtr_branch_name t)),
      (''commit'', Some (dtr_commit_sha t))]"

definition field_line :: "string \<Rightarrow> string \<Rightarrow> string" where
  "field_line label v = ''- '' @ label @ '': `'' @ v @ ''`''"

definition body_lines ::
    "delivery_traceability \<Rightarrow> string \<Rightarrow> string list \<Rightarrow> string list \<Rightarrow> string list" where
  "body_lines t headline ctx notes =
     [headline, []]
     @ concat (map (\<lambda>(label, v). case v of None \<Rightarrow> [] | Some x \<Rightarrow> [field_line label x])
         (traceability_fields t))
     @ map (\<lambda>line. ''- '' @ line) ctx
     @ (if notes = [] then [] else [] # notes)"

definition render_delivery_pull_request_body ::
    "delivery_traceability \<Rightarrow> string \<Rightarrow> string list \<Rightarrow> string list \<Rightarrow> string" where
  "render_delivery_pull_request_body t headline ctx notes =
     py_join [CHR 0x0A] (body_lines t headline ctx notes)"

definition merge_gate_governance_missing_reason :: string where
  "merge_gate_governance_missing_reason = ''head-bound governance decision is missing''"

end
