(* ===== verification/SCM_Domain.thy ===== *)
theory SCM_Domain
  imports Delivery_Contracts
begin

text \<open>
  The three source-control records of \<open>modules/delivery/domain.py\<close>: the leased command
  (\<open>SCMCommand\<close>), the poll cursor with its back-off (\<open>SCMPollCursor\<close>) and the
  external observation (\<open>SCMObservation\<close>). Each operation is the method of the same
  name; \<open>now\<close> and fresh identifiers are arguments. A frozen dataclass runs
  \<open>__post_init__\<close> again in \<open>replace\<close>, so every updated observation goes through
  \<open>so_post_init\<close>.
\<close>

subsection \<open>SCM commands\<close>

record scm_command =
  sc_change_set_id :: uuid
  sc_repository_id :: uuid
  sc_kind :: scm_command_kind
  sc_idempotency_key :: string
  sc_payload :: json
  sc_id :: uuid
  sc_status :: scm_command_status
  sc_attempts :: int
  sc_version :: int
  sc_last_error :: "string option"
  sc_created_at :: datetime
  sc_claimed_at :: "datetime option"
  sc_lease_owner :: "string option"
  sc_lease_expires_at :: "datetime option"
  sc_completed_at :: "datetime option"

text \<open>\<open>SCMCommand(...)\<close> with its defaults; \<open>i\<close> is the fresh id.\<close>

definition new_scm_command :: "enqueue_scm_command \<Rightarrow> uuid \<Rightarrow> datetime \<Rightarrow> scm_command" where
  "new_scm_command command i now =
     \<lparr>sc_change_set_id = esc_change_set_id command, sc_repository_id = esc_repository_id command,
      sc_kind = esc_kind command, sc_idempotency_key = esc_idempotency_key command,
      sc_payload = esc_payload command, sc_id = i, sc_status = SC_PENDING, sc_attempts = 0,
      sc_version = 1, sc_last_error = None, sc_created_at = now, sc_claimed_at = None,
      sc_lease_owner = None, sc_lease_expires_at = None, sc_completed_at = None\<rparr>"

definition sc_claim :: "datetime \<Rightarrow> string \<Rightarrow> datetime \<Rightarrow> scm_command \<Rightarrow> scm_command result" where
  "sc_claim now owner lease_expires_at c =
     (if sc_status c \<notin> {SC_PENDING, SC_FAILED, SC_PROCESSING}
      then Inl (DeliveryConflict ''SCM command is not claimable'')
      else Inr (c\<lparr>sc_status := SC_PROCESSING, sc_attempts := sc_attempts c + 1,
                  sc_claimed_at := Some now, sc_lease_owner := Some owner,
                  sc_lease_expires_at := Some lease_expires_at, sc_last_error := None,
                  sc_version := sc_version c + 1\<rparr>))"

definition sc_accept :: "datetime \<Rightarrow> scm_command \<Rightarrow> scm_command result" where
  "sc_accept now c =
     (if sc_status c \<noteq> SC_PROCESSING
      then Inl (DeliveryConflict ''SCM command is not processing'')
      else Inr (c\<lparr>sc_status := SC_ACCEPTED, sc_completed_at := Some now,
                  sc_lease_owner := None, sc_lease_expires_at := None, sc_last_error := None,
                  sc_version := sc_version c + 1\<rparr>))"

definition sc_fail :: "string \<Rightarrow> scm_command \<Rightarrow> scm_command result" where
  "sc_fail error c =
     (if sc_status c \<noteq> SC_PROCESSING
      then Inl (DeliveryConflict ''SCM command is not processing'')
      else Inr (c\<lparr>sc_status := SC_FAILED, sc_last_error := Some (take 2000 error),
                  sc_lease_owner := None, sc_lease_expires_at := None,
                  sc_version := sc_version c + 1\<rparr>))"

definition sc_to_view :: "scm_command \<Rightarrow> scm_command_view" where
  "sc_to_view c =
     \<lparr>scv_id = sc_id c, scv_change_set_id = sc_change_set_id c,
      scv_repository_id = sc_repository_id c, scv_kind = sc_kind c,
      scv_idempotency_key = sc_idempotency_key c, scv_payload = sc_payload c,
      scv_status = sc_status c, scv_attempts = sc_attempts c, scv_version = sc_version c,
      scv_last_error = sc_last_error c, scv_created_at = sc_created_at c,
      scv_claimed_at = sc_claimed_at c, scv_lease_owner = sc_lease_owner c,
      scv_lease_expires_at = sc_lease_expires_at c, scv_completed_at = sc_completed_at c\<rparr>"

lemmas sc_defs = sc_claim_def sc_accept_def sc_fail_def

lemma sc_to_view_inj: "sc_to_view c = sc_to_view d \<longleftrightarrow> c = d"
  by (cases c; cases d) (auto simp: sc_to_view_def)

text \<open>The life of one command: every transition is one of the three methods.\<close>

inductive sc_step :: "scm_command \<Rightarrow> scm_command \<Rightarrow> bool" where
  claim: "sc_claim now owner expires c = Inr d \<Longrightarrow> sc_step c d"
| accept: "sc_accept now c = Inr d \<Longrightarrow> sc_step c d"
| failed: "sc_fail error c = Inr d \<Longrightarrow> sc_step c d"

inductive sc_reachable :: "scm_command \<Rightarrow> bool" where
  enqueued: "sc_reachable (new_scm_command command i now)"
| step: "sc_reachable c \<Longrightarrow> sc_step c d \<Longrightarrow> sc_reachable d"

inductive_cases sc_stepE: "sc_step c d"

text \<open>
  What the transitions keep: exactly a processing command is leased, exactly an accepted
  one is completed, a failed one says why, and the version counts at least the attempts.
\<close>

definition sc_inv :: "scm_command \<Rightarrow> bool" where
  "sc_inv c \<longleftrightarrow>
     (sc_status c = SC_PROCESSING \<longleftrightarrow> sc_lease_owner c \<noteq> None) \<and>
     (sc_status c = SC_PROCESSING \<longleftrightarrow> sc_lease_expires_at c \<noteq> None) \<and>
     (sc_status c = SC_ACCEPTED \<longleftrightarrow> sc_completed_at c \<noteq> None) \<and>
     (sc_status c = SC_FAILED \<longleftrightarrow> sc_last_error c \<noteq> None) \<and>
     0 \<le> sc_attempts c \<and> sc_attempts c < sc_version c"

lemma sc_inv_new: "sc_inv (new_scm_command command i now)"
  by (simp add: sc_inv_def new_scm_command_def)

lemma sc_step_inv: "sc_step c d \<Longrightarrow> sc_inv c \<Longrightarrow> sc_inv d"
  by (erule sc_stepE) (auto simp: sc_defs sc_inv_def split: if_splits)

lemma sc_reachable_inv: "sc_reachable c \<Longrightarrow> sc_inv c"
  by (induction rule: sc_reachable.induct) (auto intro: sc_inv_new sc_step_inv)

lemma sc_step_version: "sc_step c d \<Longrightarrow> sc_version d = sc_version c + 1"
  by (erule sc_stepE) (auto simp: sc_defs split: if_splits)

lemma sc_step_identity:
  "sc_step c d \<Longrightarrow> sc_id d = sc_id c \<and> sc_idempotency_key d = sc_idempotency_key c
     \<and> sc_payload d = sc_payload c \<and> sc_kind d = sc_kind c
     \<and> sc_change_set_id d = sc_change_set_id c \<and> sc_repository_id d = sc_repository_id c"
  by (erule sc_stepE) (auto simp: sc_defs split: if_splits)

lemma sc_accepted_final: "sc_status c = SC_ACCEPTED \<Longrightarrow> \<not> sc_step c d"
  by (auto elim!: sc_stepE simp: sc_defs)

subsection \<open>Poll cursors\<close>

record scm_poll_cursor =
  pc_change_set_id :: uuid
  pc_repository_id :: uuid
  pc_next_poll_at :: datetime
  pc_consecutive_failures :: int
  pc_last_polled_at :: "datetime option"
  pc_last_error :: "string option"
  pc_version :: int

definition new_scm_poll_cursor :: "uuid \<Rightarrow> uuid \<Rightarrow> datetime \<Rightarrow> scm_poll_cursor" where
  "new_scm_poll_cursor change_set_id repository_id now =
     \<lparr>pc_change_set_id = change_set_id, pc_repository_id = repository_id,
      pc_next_poll_at = now, pc_consecutive_failures = 0, pc_last_polled_at = None,
      pc_last_error = None, pc_version = 0\<rparr>"

definition pc_succeed :: "datetime \<Rightarrow> int \<Rightarrow> scm_poll_cursor \<Rightarrow> scm_poll_cursor" where
  "pc_succeed now interval_seconds c =
     c\<lparr>pc_consecutive_failures := 0, pc_last_polled_at := Some now,
       pc_next_poll_at := now + seconds interval_seconds, pc_last_error := None,
       pc_version := pc_version c + 1\<rparr>"

text \<open>
  \<open>retry_after or min(base_seconds * (2 ** (failures - 1)), 3600)\<close>: a missing or zero
  \<open>retry_after\<close> falls back to the exponential delay. The interval is a whole number of
  seconds (the setting is an integer), and a count of failures is never negative.
\<close>

definition backoff_seconds :: "int \<Rightarrow> int \<Rightarrow> int option \<Rightarrow> int" where
  "backoff_seconds base_seconds failures retry_after =
     (let exponential = min (base_seconds * 2 ^ nat (failures - 1)) 3600
      in case retry_after of None \<Rightarrow> exponential | Some r \<Rightarrow> if r = 0 then exponential else r)"

definition pc_fail ::
    "datetime \<Rightarrow> string \<Rightarrow> int \<Rightarrow> int option \<Rightarrow> scm_poll_cursor \<Rightarrow> scm_poll_cursor" where
  "pc_fail now error base_seconds retry_after c =
     (let failures = pc_consecutive_failures c + 1;
          delay = backoff_seconds base_seconds failures retry_after
      in c\<lparr>pc_consecutive_failures := failures, pc_next_poll_at := now + seconds delay,
           pc_last_error := Some (take 2000 error), pc_version := pc_version c + 1\<rparr>)"

definition pc_to_view :: "scm_poll_cursor \<Rightarrow> scm_poll_cursor_view" where
  "pc_to_view c =
     \<lparr>pcv_change_set_id = pc_change_set_id c, pcv_repository_id = pc_repository_id c,
      pcv_consecutive_failures = pc_consecutive_failures c,
      pcv_last_polled_at = pc_last_polled_at c, pcv_next_poll_at = pc_next_poll_at c,
      pcv_last_error = pc_last_error c, pcv_version = pc_version c\<rparr>"

lemma backoff_bounds:
  assumes "0 < base" and "0 < failures"
  shows "min base 3600 \<le> backoff_seconds base failures None"
    and "backoff_seconds base failures None \<le> 3600"
proof -
  have "(1::int) \<le> 2 ^ nat (failures - 1)" by simp
  with assms(1) have "base * 1 \<le> base * 2 ^ nat (failures - 1)"
    by (intro mult_left_mono) auto
  then show "min base 3600 \<le> backoff_seconds base failures None"
    by (auto simp: backoff_seconds_def)
qed (simp add: backoff_seconds_def)

lemma backoff_doubles:
  assumes "0 < failures" and "backoff_seconds base (failures + 1) None < 3600"
  shows "backoff_seconds base (failures + 1) None = 2 * backoff_seconds base failures None
    \<or> 3600 \<le> base * 2 ^ nat (failures - 1)"
proof -
  have "nat failures = Suc (nat (failures - 1))" using assms(1) by simp
  then have "base * 2 ^ nat failures = 2 * (base * 2 ^ nat (failures - 1))" by simp
  then show ?thesis using assms(2) by (auto simp: backoff_seconds_def min_def)
qed

subsection \<open>Observations\<close>

record scm_observation =
  so_provider :: string
  so_source :: scm_observation_source
  so_external_id :: string
  so_event_type :: string
  so_payload :: json
  so_payload_hash :: string
  so_observed_at :: py_datetime
  so_change_set_id :: "uuid option"
  so_repository_id :: "uuid option"
  so_id :: uuid
  so_status :: scm_observation_status
  so_attempts :: int
  so_version :: int
  so_last_error :: "string option"
  so_received_at :: datetime
  so_claimed_at :: "datetime option"
  so_processed_at :: "datetime option"

definition so_post_init :: "scm_observation \<Rightarrow> scm_observation result" where
  "so_post_init o0 =
     (if blank (so_provider o0) \<or> blank (so_external_id o0) \<or> blank (so_event_type o0)
      then Inl (ValueError ''provider, external_id and event_type are required'')
      else let normalized_hash = py_lower (py_strip (so_payload_hash o0))
           in if length normalized_hash \<noteq> 64 \<or> (\<exists>c \<in> set normalized_hash. \<not> is_hex c)
              then Inl (ValueError ''payload_hash must be a SHA-256 digest'')
              else case so_observed_at o0 of
                     Naive _ \<Rightarrow> Inl (ValueError ''observed_at must be timezone-aware'')
                   | Aware _ \<Rightarrow> Inr o0)"

definition so_is_claimable :: "datetime \<Rightarrow> int \<Rightarrow> int \<Rightarrow> scm_observation \<Rightarrow> bool" where
  "so_is_claimable now lease_timeout max_attempts o0 =
     (if so_status o0 = SO_PROCESSED \<or> so_attempts o0 \<ge> max_attempts then False
      else if so_status o0 \<in> {SO_PENDING, SO_FAILED} then True
      else so_status o0 = SO_PROCESSING \<and>
           (case so_claimed_at o0 of None \<Rightarrow> False | Some t \<Rightarrow> t \<le> now - lease_timeout))"

definition so_claim :: "datetime \<Rightarrow> scm_observation \<Rightarrow> scm_observation result" where
  "so_claim now o0 =
     so_post_init (o0\<lparr>so_status := SO_PROCESSING, so_attempts := so_attempts o0 + 1,
        so_version := so_version o0 + 1, so_last_error := None, so_claimed_at := Some now,
        so_processed_at := None\<rparr>)"

definition so_complete :: "datetime \<Rightarrow> scm_observation \<Rightarrow> scm_observation result" where
  "so_complete now o0 =
     (if so_status o0 \<noteq> SO_PROCESSING
      then Inl (DeliveryConflict ''SCM observation is not being processed'')
      else so_post_init (o0\<lparr>so_status := SO_PROCESSED, so_version := so_version o0 + 1,
             so_processed_at := Some now\<rparr>))"

definition so_fail :: "string \<Rightarrow> scm_observation \<Rightarrow> scm_observation result" where
  "so_fail error o0 =
     (if so_status o0 \<noteq> SO_PROCESSING
      then Inl (DeliveryConflict ''SCM observation is not being processed'')
      else let detail = py_strip error
           in if detail = [] then Inl (ValueError ''SCM observation failure detail is required'')
              else so_post_init (o0\<lparr>so_status := SO_FAILED, so_version := so_version o0 + 1,
                     so_last_error := Some (take 2000 detail)\<rparr>))"

definition so_to_view :: "scm_observation \<Rightarrow> scm_observation_view" where
  "so_to_view o0 =
     \<lparr>sov_id = so_id o0, sov_provider = so_provider o0, sov_source = so_source o0,
      sov_external_id = so_external_id o0, sov_event_type = so_event_type o0,
      sov_payload = so_payload o0, sov_payload_hash = so_payload_hash o0,
      sov_status = so_status o0, sov_change_set_id = so_change_set_id o0,
      sov_repository_id = so_repository_id o0, sov_attempts = so_attempts o0,
      sov_version = so_version o0, sov_last_error = so_last_error o0,
      sov_observed_at = so_observed_at o0, sov_received_at = so_received_at o0,
      sov_claimed_at = so_claimed_at o0, sov_processed_at = so_processed_at o0\<rparr>"

text \<open>A value that passed its validation; the operations below never fail it again.\<close>

definition so_wf :: "scm_observation \<Rightarrow> bool" where
  "so_wf o0 \<longleftrightarrow> so_post_init o0 = Inr o0"

lemma so_post_init_Inr: "so_post_init o0 = Inr p \<longleftrightarrow> p = o0 \<and> so_wf o0"
  by (auto simp: so_wf_def so_post_init_def Let_def split: py_datetime.splits)

lemma so_wf_cong:
  "so_provider p = so_provider q \<Longrightarrow> so_external_id p = so_external_id q \<Longrightarrow>
   so_event_type p = so_event_type q \<Longrightarrow> so_payload_hash p = so_payload_hash q \<Longrightarrow>
   so_observed_at p = so_observed_at q \<Longrightarrow> so_wf p = so_wf q"
  by (simp add: so_wf_def so_post_init_def Let_def split: py_datetime.splits)

lemma so_wf_update [simp]:
  "so_wf (o0\<lparr>so_status := s, so_attempts := a, so_version := v, so_last_error := e,
              so_claimed_at := c, so_processed_at := p\<rparr>) = so_wf o0"
  "so_wf (o0\<lparr>so_status := s, so_version := v, so_processed_at := p\<rparr>) = so_wf o0"
  "so_wf (o0\<lparr>so_status := s, so_version := v, so_last_error := e\<rparr>) = so_wf o0"
  by (rule so_wf_cong; simp)+

text \<open>The life of one observation, claims guarded as \<open>SCMObservationService.claim\<close> guards them.\<close>

inductive so_step :: "int \<Rightarrow> int \<Rightarrow> scm_observation \<Rightarrow> scm_observation \<Rightarrow> bool"
  for timeout max_attempts where
  claim: "so_is_claimable now timeout max_attempts p \<Longrightarrow> so_claim now p = Inr q \<Longrightarrow>
    so_step timeout max_attempts p q"
| complete: "so_complete now p = Inr q \<Longrightarrow> so_step timeout max_attempts p q"
| failed: "so_fail error p = Inr q \<Longrightarrow> so_step timeout max_attempts p q"

inductive_cases so_stepE: "so_step timeout max_attempts p q"

lemma so_step_wf: "so_step t m p q \<Longrightarrow> so_wf q"
  by (erule so_stepE)
    (auto simp: so_claim_def so_complete_def so_fail_def so_post_init_Inr Let_def split: if_splits)

lemma so_step_bounded: "so_step t m p q \<Longrightarrow> so_attempts p \<le> m \<Longrightarrow> so_attempts q \<le> m"
  by (erule so_stepE)
    (auto simp: so_claim_def so_complete_def so_fail_def so_post_init_Inr so_is_claimable_def
        Let_def split: if_splits)

lemma so_step_version: "so_step t m p q \<Longrightarrow> so_version q = so_version p + 1"
  by (erule so_stepE)
    (auto simp: so_claim_def so_complete_def so_fail_def so_post_init_Inr Let_def split: if_splits)

lemma so_processed_final: "so_status p = SO_PROCESSED \<Longrightarrow> \<not> so_step t m p q"
  by (auto elim!: so_stepE simp: so_is_claimable_def so_complete_def so_fail_def)

end
