(* ===== verification/Repository_Delivery.thy ===== *)
theory Repository_Delivery
  imports Delivery_Contracts
begin

text \<open>
  One repository's delivery candidate (\<open>RepositoryDelivery\<close> of
  \<open>modules/delivery/domain.py\<close>): its construction and validation, the observations
  that move it from \<open>PENDING\<close> to \<open>MERGED\<close>, and its state machine as a step
  relation. The main invariant is that a candidate is ready, merge-requested or merged only
  with the evidence its policy asks for.
\<close>

subsection \<open>Data\<close>

record ci_check_observation =
  cc_check_name :: string
  cc_check_run_id :: string
  cc_passed :: bool
  cc_summary :: string

definition cc_to_view :: "ci_check_observation \<Rightarrow> ci_check_observation_view" where
  "cc_to_view c =
     \<lparr>ccv_check_name = cc_check_name c, ccv_check_run_id = cc_check_run_id c,
      ccv_passed = cc_passed c, ccv_summary = cc_summary c\<rparr>"

record review_observation =
  ro_review_id :: string
  ro_reviewer :: string
  ro_state :: review_state
  ro_summary :: string

definition ro_to_view :: "review_observation \<Rightarrow> review_observation_view" where
  "ro_to_view r =
     \<lparr>rov_review_id = ro_review_id r, rov_reviewer = ro_reviewer r, rov_state = ro_state r,
      rov_summary = ro_summary r\<rparr>"

record repository_delivery =
  rd_repository_id :: uuid
  rd_task_id :: uuid
  rd_commit_sha :: string
  rd_base_sha :: string
  rd_branch_name :: string
  rd_depends_on :: "uuid list"
  rd_merge_order :: int
  rd_required_checks :: "string list"
  rd_ci_checks :: "ci_check_observation list"
  rd_required_approvals :: int
  rd_reviews :: "review_observation list"
  rd_status :: repository_delivery_status
  rd_pull_request_number :: "int option"
  rd_pull_request_url :: "string option"
  rd_ci_check_run_id :: "string option"
  rd_ci_summary :: "string option"
  rd_merge_sha :: "string option"
  rd_plan_id :: "uuid option"
  rd_run_id :: "uuid option"
  rd_worker_agent_id :: "uuid option"

text \<open>\<open>__post_init__\<close>, run by the constructor and by every \<open>replace\<close>.\<close>

definition rd_post_init :: "repository_delivery \<Rightarrow> repository_delivery result" where
  "rd_post_init r =
     rbind (normalize_full_sha (rd_commit_sha r) ''commit_sha'') (\<lambda>_.
     rbind (normalize_full_sha (rd_base_sha r) ''base_sha'') (\<lambda>_.
     if blank (rd_branch_name r) then Inl (ValueError ''branch_name is required'')
     else let normalized = map (\<lambda>name. py_lower (py_strip name)) (rd_required_checks r)
          in if (\<exists>name \<in> set normalized. name = []) \<or> \<not> distinct normalized
             then Inl (ValueError ''required_checks must be non-empty and unique'')
             else if rd_required_approvals r < 0
             then Inl (ValueError ''required_approvals cannot be negative'')
             else Inr r))"

text \<open>
  The construction both \<open>prepare\<close> and \<open>append_candidates\<close> make of one candidate input:
  check names are stored normalised, the commit id as it was given.
\<close>

definition rd_of_candidate :: "repository_candidate_input \<Rightarrow> int \<Rightarrow> repository_delivery result" where
  "rd_of_candidate item order =
     rd_post_init
      \<lparr>rd_repository_id = rci_repository_id item, rd_task_id = rci_task_id item,
       rd_commit_sha = rci_commit_sha item, rd_base_sha = rci_base_sha item,
       rd_branch_name = rci_branch_name item, rd_depends_on = rci_depends_on item,
       rd_merge_order = order,
       rd_required_checks = map (\<lambda>name. py_lower (py_strip name)) (rci_required_checks item),
       rd_ci_checks = [], rd_required_approvals = rci_required_approvals item, rd_reviews = [],
       rd_status = RD_PENDING, rd_pull_request_number = None, rd_pull_request_url = None,
       rd_ci_check_run_id = None, rd_ci_summary = None, rd_merge_sha = None,
       rd_plan_id = rci_plan_id item, rd_run_id = rci_run_id item,
       rd_worker_agent_id = rci_worker_agent_id item\<rparr>"

definition rd_to_view :: "repository_delivery \<Rightarrow> repository_delivery_view" where
  "rd_to_view r =
     \<lparr>rdv_repository_id = rd_repository_id r, rdv_task_id = rd_task_id r,
      rdv_commit_sha = rd_commit_sha r, rdv_base_sha = rd_base_sha r,
      rdv_branch_name = rd_branch_name r, rdv_depends_on = rd_depends_on r,
      rdv_merge_order = rd_merge_order r, rdv_status = rd_status r,
      rdv_pull_request_number = rd_pull_request_number r,
      rdv_pull_request_url = rd_pull_request_url r,
      rdv_ci_check_run_id = rd_ci_check_run_id r, rdv_ci_summary = rd_ci_summary r,
      rdv_merge_sha = rd_merge_sha r, rdv_required_checks = rd_required_checks r,
      rdv_ci_checks = map cc_to_view (rd_ci_checks r),
      rdv_required_approvals = rd_required_approvals r,
      rdv_reviews = map ro_to_view (rd_reviews r), rdv_plan_id = rd_plan_id r,
      rdv_run_id = rd_run_id r, rdv_worker_agent_id = rd_worker_agent_id r\<rparr>"

subsection \<open>Readiness\<close>

text \<open>\<open>_readiness_status\<close>, branch by branch.\<close>

definition rd_required :: "repository_delivery \<Rightarrow> string list" where
  "rd_required r = map (\<lambda>name. py_lower (py_strip name)) (rd_required_checks r)"

definition rd_by_name :: "repository_delivery \<Rightarrow> (string, ci_check_observation) dict" where
  "rd_by_name r = dict_update (map (\<lambda>c. (cc_check_name c, c)) (rd_ci_checks r)) []"

definition rd_approvals :: "repository_delivery \<Rightarrow> string list" where
  "rd_approvals r =
     remdups (map ro_reviewer (filter (\<lambda>x. ro_state x = RV_APPROVED) (rd_reviews r)))"

definition rd_readiness_status :: "repository_delivery \<Rightarrow> repository_delivery_status" where
  "rd_readiness_status r =
     (let required = rd_required r; by_name = rd_by_name r
      in if \<exists>name \<in> set required. case dict_get by_name name of
              None \<Rightarrow> False | Some c \<Rightarrow> \<not> cc_passed c then RD_CI_FAILED
         else if required \<noteq> [] \<and> \<not> (\<forall>name \<in> set required. case dict_get by_name name of
              None \<Rightarrow> False | Some c \<Rightarrow> cc_passed c) then RD_CI_PENDING
         else if required = [] \<and> rd_ci_checks r \<noteq> [] \<and> \<not> cc_passed (last (rd_ci_checks r))
         then RD_CI_FAILED
         else if \<exists>x \<in> set (rd_reviews r). ro_state x = RV_CHANGES_REQUESTED
         then RD_REVIEW_CHANGES_REQUESTED
         else if int (length (rd_approvals r)) < rd_required_approvals r then RD_REVIEW_PENDING
         else if required = [] \<and> rd_ci_checks r = [] then RD_CI_PENDING
         else RD_READY_TO_MERGE)"

subsection \<open>Operations\<close>

definition rd_observe_pr ::
    "int \<Rightarrow> string \<Rightarrow> string \<Rightarrow> repository_delivery \<Rightarrow> repository_delivery result" where
  "rd_observe_pr number url head_sha r =
     (if py_lower (py_strip head_sha) \<noteq> rd_commit_sha r
      then Inl (DeliveryConflict ''pull request head does not match candidate commit'')
      else if rd_status r \<notin> {RD_PENDING, RD_PR_OPEN}
      then Inl (DeliveryConflict
             (''cannot attach pull request from '' @ repository_delivery_status_value (rd_status r)))
      else rd_post_init (r\<lparr>rd_status := RD_PR_OPEN, rd_pull_request_number := Some number,
             rd_pull_request_url := Some (py_strip url)\<rparr>))"

definition rd_attach_traceability ::
    "uuid \<Rightarrow> string \<Rightarrow> uuid \<Rightarrow> uuid option \<Rightarrow> uuid \<Rightarrow> repository_delivery
     \<Rightarrow> repository_delivery result" where
  "rd_attach_traceability task_id commit_sha plan_id run_id worker_agent_id r =
     (if task_id \<noteq> rd_task_id r
      then Inl (DeliveryConflict ''traceability task does not match candidate task'')
      else if py_lower (py_strip commit_sha) \<noteq> rd_commit_sha r
      then Inl (DeliveryConflict ''traceability commit does not match candidate commit'')
      else if (rd_plan_id r \<noteq> None \<or> rd_run_id r \<noteq> None \<or> rd_worker_agent_id r \<noteq> None) \<and>
              (rd_plan_id r, rd_run_id r, rd_worker_agent_id r)
                \<noteq> (Some plan_id, run_id, Some worker_agent_id)
      then Inl (DeliveryConflict ''candidate traceability is already bound differently'')
      else rd_post_init (r\<lparr>rd_plan_id := Some plan_id, rd_run_id := run_id,
             rd_worker_agent_id := Some worker_agent_id\<rparr>))"

text \<open>\<open>replace(updated, status=updated._readiness_status())\<close>.\<close>

definition rd_refresh :: "repository_delivery \<Rightarrow> repository_delivery result" where
  "rd_refresh r = rd_post_init (r\<lparr>rd_status := rd_readiness_status r\<rparr>)"

definition rd_observe_ci ::
    "bool \<Rightarrow> string \<Rightarrow> string \<Rightarrow> string \<Rightarrow> repository_delivery \<Rightarrow> repository_delivery result" where
  "rd_observe_ci passed check_run_id summary check_name r =
     (if rd_pull_request_number r = None
      then Inl (DeliveryConflict ''CI observation requires an open pull request'')
      else let normalized_name =
                 py_lower (if py_strip check_name \<noteq> [] then py_strip check_name
                           else py_strip check_run_id);
               observation =
                 \<lparr>cc_check_name = normalized_name, cc_check_run_id = py_strip check_run_id,
                  cc_passed = passed, cc_summary = py_strip summary\<rparr>;
               checks = put_by cc_check_name observation (rd_ci_checks r)
           in rbind (rd_post_init (r\<lparr>rd_ci_check_run_id := Some (py_strip check_run_id),
                       rd_ci_summary := Some (py_strip summary), rd_ci_checks := checks\<rparr>))
                rd_refresh)"

definition rd_observe_review ::
    "string \<Rightarrow> string \<Rightarrow> review_state \<Rightarrow> string \<Rightarrow> string \<Rightarrow> repository_delivery
     \<Rightarrow> repository_delivery result" where
  "rd_observe_review review_id reviewer state head_sha summary r =
     (if rd_pull_request_number r = None
      then Inl (DeliveryConflict ''review observation requires an open pull request'')
      else if py_lower (py_strip head_sha) \<noteq> rd_commit_sha r
      then Inl (DeliveryConflict ''review head does not match candidate commit'')
      else let normalized_reviewer = py_lower (py_strip reviewer)
           in if py_strip review_id = [] \<or> normalized_reviewer = []
              then Inl (ValueError ''review id and reviewer are required'')
              else let observation =
                         \<lparr>ro_review_id = py_strip review_id, ro_reviewer = normalized_reviewer,
                          ro_state = state, ro_summary = py_strip summary\<rparr>;
                       reviews = put_by ro_reviewer observation (rd_reviews r)
                   in rbind (rd_post_init (r\<lparr>rd_reviews := reviews\<rparr>)) rd_refresh)"

definition rd_observe_merge :: "string \<Rightarrow> repository_delivery \<Rightarrow> repository_delivery result" where
  "rd_observe_merge merge_sha r =
     (if rd_status r \<notin> {RD_READY_TO_MERGE, RD_MERGE_REQUESTED}
      then Inl (DeliveryConflict ''repository is not ready to merge'')
      else rbind (normalize_full_sha merge_sha ''merge_sha'') (\<lambda>normalized.
        rd_post_init (r\<lparr>rd_status := RD_MERGED, rd_merge_sha := Some normalized\<rparr>)))"

definition rd_request_merge :: "string \<Rightarrow> repository_delivery \<Rightarrow> repository_delivery result" where
  "rd_request_merge head_sha r =
     (if py_lower (py_strip head_sha) \<noteq> rd_commit_sha r
      then Inl (DeliveryConflict ''merge request head does not match candidate commit'')
      else if rd_status r = RD_MERGE_REQUESTED then Inr r
      else if rd_status r \<noteq> RD_READY_TO_MERGE
      then Inl (DeliveryConflict ''repository is not ready to request merge'')
      else rd_post_init (r\<lparr>rd_status := RD_MERGE_REQUESTED\<rparr>))"

definition rd_revise ::
    "uuid \<Rightarrow> string \<Rightarrow> string \<Rightarrow> repository_delivery \<Rightarrow> repository_delivery result" where
  "rd_revise task_id previous_head_sha new_head_sha r =
     (if rd_status r = RD_MERGED
      then Inl (DeliveryConflict ''merged candidate cannot be revised'')
      else if py_lower (py_strip previous_head_sha) \<noteq> rd_commit_sha r
      then Inl (DeliveryConflict ''candidate revision is based on a stale head'')
      else rbind (normalize_full_sha new_head_sha ''new candidate head'') (\<lambda>normalized.
        if normalized = rd_commit_sha r
        then Inl (DeliveryConflict ''candidate revision must change the head SHA'')
        else rd_post_init (r\<lparr>rd_task_id := task_id, rd_base_sha := rd_commit_sha r,
               rd_commit_sha := normalized,
               rd_status := (if rd_pull_request_number r \<noteq> None then RD_PR_OPEN else RD_PENDING),
               rd_ci_check_run_id := None, rd_ci_summary := None, rd_ci_checks := [],
               rd_reviews := [], rd_merge_sha := None\<rparr>)))"

lemmas rd_op_defs =
  rd_observe_pr_def rd_attach_traceability_def rd_refresh_def rd_observe_ci_def
  rd_observe_review_def rd_observe_merge_def rd_request_merge_def rd_revise_def

subsection \<open>Validation never fails on a validated value\<close>

definition rd_wf :: "repository_delivery \<Rightarrow> bool" where
  "rd_wf r \<longleftrightarrow>
     full_sha (norm_text (rd_commit_sha r)) \<and> full_sha (norm_text (rd_base_sha r)) \<and>
     \<not> blank (rd_branch_name r) \<and> (\<forall>name \<in> set (rd_required_checks r). \<not> blank name) \<and>
     distinct (rd_required r) \<and> 0 \<le> rd_required_approvals r"

lemma norm_text_empty [simp]: "norm_text s = [] \<longleftrightarrow> blank s"
  by (simp add: norm_text_def blank_def py_lower_def)

lemma Nil_norm_text [simp]: "[] = norm_text s \<longleftrightarrow> blank s"
  by (metis norm_text_empty)

lemma rd_required_norm: "rd_required r = map norm_text (rd_required_checks r)"
  by (simp add: rd_required_def norm_text_def)

lemma rd_post_init_Inr [simp]: "rd_post_init r = Inr q \<longleftrightarrow> q = r \<and> rd_wf r"
proof -
  have "rd_post_init r = Inr r \<longleftrightarrow> rd_wf r"
    by (auto simp: rd_post_init_def rd_wf_def rbind_eq_Inr_iff normalize_full_sha_Inr_iff
        rd_required_norm Let_def image_iff simp flip: norm_text_def split: if_splits)
  moreover have "rd_post_init r = Inr q \<Longrightarrow> q = r"
    by (auto simp: rd_post_init_def rbind_eq_Inr_iff Let_def split: if_splits)
  ultimately show ?thesis by blast
qed

lemma rd_post_init_wf [simp]: "rd_wf r \<Longrightarrow> rd_post_init r = Inr r"
  by simp

lemma rd_wf_cong:
  "rd_commit_sha p = rd_commit_sha q \<Longrightarrow> rd_base_sha p = rd_base_sha q \<Longrightarrow>
   rd_branch_name p = rd_branch_name q \<Longrightarrow> rd_required_checks p = rd_required_checks q \<Longrightarrow>
   rd_required_approvals p = rd_required_approvals q \<Longrightarrow> rd_wf p = rd_wf q"
  by (simp add: rd_wf_def rd_required_def)

lemma rd_wf_updates [simp]:
  "rd_wf (r\<lparr>rd_status := s\<rparr>) = rd_wf r"
  "rd_wf (r\<lparr>rd_status := s, rd_pull_request_number := n, rd_pull_request_url := u\<rparr>) = rd_wf r"
  "rd_wf (r\<lparr>rd_plan_id := pl, rd_run_id := ru, rd_worker_agent_id := w\<rparr>) = rd_wf r"
  "rd_wf (r\<lparr>rd_ci_check_run_id := i, rd_ci_summary := t, rd_ci_checks := cs\<rparr>) = rd_wf r"
  "rd_wf (r\<lparr>rd_ci_checks := cs, rd_status := s, rd_ci_check_run_id := i, rd_ci_summary := t\<rparr>) = rd_wf r"
  "rd_wf (r\<lparr>rd_reviews := rs\<rparr>) = rd_wf r"
  "rd_wf (r\<lparr>rd_reviews := rs, rd_status := s\<rparr>) = rd_wf r"
  "rd_wf (r\<lparr>rd_status := s, rd_merge_sha := m\<rparr>) = rd_wf r"
  by (rule rd_wf_cong; simp)+

lemma norm_text_def_strip: "py_lower (py_strip s) = norm_text s"
  by (simp add: norm_text_def)

lemma full_sha_norm_fixed: "s = norm_text t \<Longrightarrow> full_sha s \<Longrightarrow> full_sha (norm_text s)"
  by simp

lemma rd_wf_revised:
  "rd_wf r \<Longrightarrow> full_sha sha \<Longrightarrow> sha = norm_text t \<Longrightarrow>
   rd_wf (r\<lparr>rd_task_id := tid, rd_base_sha := rd_commit_sha r, rd_commit_sha := sha,
            rd_status := st, rd_ci_check_run_id := None, rd_ci_summary := None,
            rd_ci_checks := [], rd_reviews := [], rd_merge_sha := None\<rparr>)"
  by (simp add: rd_wf_def rd_required_def)

subsection \<open>The state machine of a candidate\<close>

inductive rd_step :: "repository_delivery \<Rightarrow> repository_delivery \<Rightarrow> bool" where
  observe_pr: "rd_observe_pr number url head r = Inr q \<Longrightarrow> rd_step r q"
| attach: "rd_attach_traceability task_id sha plan_id run_id worker r = Inr q \<Longrightarrow> rd_step r q"
| observe_ci: "rd_observe_ci passed run_id summary name r = Inr q \<Longrightarrow> rd_step r q"
| observe_review: "rd_observe_review review_id reviewer state head summary r = Inr q \<Longrightarrow> rd_step r q"
| observe_merge: "rd_observe_merge sha r = Inr q \<Longrightarrow> rd_step r q"
| request_merge: "rd_request_merge head r = Inr q \<Longrightarrow> rd_step r q"
| revise: "rd_revise task_id previous_head new_head r = Inr q \<Longrightarrow> rd_step r q"

inductive_cases rd_stepE: "rd_step r q"

inductive rd_reachable :: "repository_delivery \<Rightarrow> bool" where
  initial: "rd_of_candidate item order = Inr r \<Longrightarrow> rd_reachable r"
| step: "rd_reachable r \<Longrightarrow> rd_step r q \<Longrightarrow> rd_reachable q"

text \<open>The fields no transition touches.\<close>

lemma rd_step_frame:
  "rd_step r q \<Longrightarrow>
     rd_repository_id q = rd_repository_id r \<and> rd_merge_order q = rd_merge_order r \<and>
     rd_depends_on q = rd_depends_on r \<and> rd_branch_name q = rd_branch_name r \<and>
     rd_required_checks q = rd_required_checks r \<and>
     rd_required_approvals q = rd_required_approvals r"
  by (erule rd_stepE)
    (auto simp: rd_op_defs rbind_eq_Inr_iff Let_def split: if_splits)

lemma rd_step_wf: "rd_step r q \<Longrightarrow> rd_wf q \<or> q = r"
  by (erule rd_stepE) (auto simp: rd_op_defs rbind_eq_Inr_iff Let_def split: if_splits)

lemma rd_reachable_wf: "rd_reachable r \<Longrightarrow> rd_wf r"
  by (induction rule: rd_reachable.induct) (auto simp: rd_of_candidate_def dest: rd_step_wf)

text \<open>
  Observing a review, a CI result or a merge leaves \<open>rd_wf\<close> to the input alone, so on
  a validated candidate the only errors left are the ones the methods raise themselves.
\<close>

lemma rd_refresh_wf [simp]: "rd_wf r \<Longrightarrow> rd_refresh r = Inr (r\<lparr>rd_status := rd_readiness_status r\<rparr>)"
  by (simp add: rd_refresh_def)

subsection \<open>Evidence\<close>

text \<open>
  What the policy asks of the current head, stated without the code's branches: every
  required check has a passing result (without required checks: the latest result passes),
  nobody's latest review asks for changes, and enough reviewers approve.
\<close>

definition rd_latest :: "repository_delivery \<Rightarrow> string \<Rightarrow> ci_check_observation option" where
  "rd_latest r name = find (\<lambda>c. cc_check_name c = name) (rev (rd_ci_checks r))"

definition rd_evidence :: "repository_delivery \<Rightarrow> bool" where
  "rd_evidence r \<longleftrightarrow>
     (\<forall>name \<in> set (rd_required r). \<exists>c. rd_latest r name = Some c \<and> cc_passed c) \<and>
     (rd_required r = [] \<longrightarrow> rd_ci_checks r \<noteq> [] \<and> cc_passed (last (rd_ci_checks r))) \<and>
     (\<forall>x \<in> set (rd_reviews r). ro_state x \<noteq> RV_CHANGES_REQUESTED) \<and>
     rd_required_approvals r
       \<le> int (card {ro_reviewer x | x. x \<in> set (rd_reviews r) \<and> ro_state x = RV_APPROVED})"

lemma map_of_key_find: "map_of (map (\<lambda>c. (key c, c)) xs) k = find (\<lambda>c. key c = k) xs"
  by (induction xs) auto

lemma rd_by_name_latest: "dict_get (rd_by_name r) name = rd_latest r name"
  by (simp add: rd_by_name_def dict_get_update_pairs rd_latest_def rev_map map_of_key_find
      split: option.splits)

lemma rd_approvals_card:
  "length (rd_approvals r) =
     card {ro_reviewer x | x. x \<in> set (rd_reviews r) \<and> ro_state x = RV_APPROVED}"
proof -
  have "set (rd_approvals r) =
      {ro_reviewer x | x. x \<in> set (rd_reviews r) \<and> ro_state x = RV_APPROVED}"
    by (auto simp: rd_approvals_def)
  moreover have "distinct (rd_approvals r)" by (simp add: rd_approvals_def)
  ultimately show ?thesis by (metis distinct_card)
qed

lemma rd_ready_iff_evidence: "rd_readiness_status r = RD_READY_TO_MERGE \<longleftrightarrow> rd_evidence r"
  unfolding rd_readiness_status_def rd_evidence_def Let_def rd_by_name_latest
    rd_approvals_card [symmetric]
  by (auto split: option.splits if_splits)

text \<open>A failing latest result decides.\<close>

lemma rd_failing_required:
  assumes "name \<in> set (rd_required r)" and "rd_latest r name = Some c" and "\<not> cc_passed c"
  shows "rd_readiness_status r = RD_CI_FAILED"
proof -
  have "\<exists>n \<in> set (rd_required r).
      case dict_get (rd_by_name r) n of None \<Rightarrow> False | Some c \<Rightarrow> \<not> cc_passed c"
    using assms by (intro bexI [of _ name]) (simp_all add: rd_by_name_latest)
  then show ?thesis unfolding rd_readiness_status_def Let_def by (rule if_P)
qed

lemma rd_failing_last:
  "rd_required r = [] \<Longrightarrow> rd_ci_checks r \<noteq> [] \<Longrightarrow> \<not> cc_passed (last (rd_ci_checks r)) \<Longrightarrow>
     rd_readiness_status r = RD_CI_FAILED"
  by (simp add: rd_readiness_status_def Let_def)

lemma rd_readiness_range:
  "rd_readiness_status r \<in> {RD_CI_PENDING, RD_CI_FAILED, RD_REVIEW_PENDING,
     RD_REVIEW_CHANGES_REQUESTED, RD_READY_TO_MERGE}"
  by (simp add: rd_readiness_status_def Let_def)

text \<open>Readiness reads the policy and the evidence, nothing else.\<close>

lemma rd_readiness_cong:
  "rd_required_checks p = rd_required_checks q \<Longrightarrow> rd_ci_checks p = rd_ci_checks q \<Longrightarrow>
   rd_reviews p = rd_reviews q \<Longrightarrow> rd_required_approvals p = rd_required_approvals q \<Longrightarrow>
   rd_readiness_status p = rd_readiness_status q"
  by (simp add: rd_readiness_status_def rd_required_def rd_by_name_def rd_approvals_def Let_def
      cong: if_cong)

lemma rd_readiness_updates [simp]:
  "rd_readiness_status (r\<lparr>rd_status := s\<rparr>) = rd_readiness_status r"
  "rd_readiness_status (r\<lparr>rd_status := s, rd_merge_sha := m\<rparr>) = rd_readiness_status r"
  "rd_readiness_status (r\<lparr>rd_plan_id := pl, rd_run_id := ru, rd_worker_agent_id := w\<rparr>)
     = rd_readiness_status r"
  by (rule rd_readiness_cong; simp)+

lemma rd_evidence_cong:
  "rd_required_checks p = rd_required_checks q \<Longrightarrow> rd_ci_checks p = rd_ci_checks q \<Longrightarrow>
   rd_reviews p = rd_reviews q \<Longrightarrow> rd_required_approvals p = rd_required_approvals q \<Longrightarrow>
   rd_evidence p = rd_evidence q"
  using rd_readiness_cong [of p q] by (simp flip: rd_ready_iff_evidence)

lemma rd_evidence_updates [simp]:
  "rd_evidence (r\<lparr>rd_status := s\<rparr>) = rd_evidence r"
  "rd_evidence (r\<lparr>rd_status := s, rd_merge_sha := m\<rparr>) = rd_evidence r"
  "rd_evidence (r\<lparr>rd_plan_id := pl, rd_run_id := ru, rd_worker_agent_id := w\<rparr>) = rd_evidence r"
  by (rule rd_evidence_cong; simp)+

subsection \<open>The invariant of a candidate\<close>

definition rd_cleared :: "repository_delivery \<Rightarrow> bool" where
  "rd_cleared r \<longleftrightarrow> rd_status r \<in> {RD_READY_TO_MERGE, RD_MERGE_REQUESTED, RD_MERGED}"

definition rd_inv :: "repository_delivery \<Rightarrow> bool" where
  "rd_inv r \<longleftrightarrow>
     rd_wf r \<and>
     (rd_cleared r \<longrightarrow> rd_evidence r) \<and>
     (rd_pull_request_number r = None \<longleftrightarrow> rd_status r = RD_PENDING) \<and>
     distinct (map cc_check_name (rd_ci_checks r)) \<and>
     distinct (map ro_reviewer (rd_reviews r)) \<and>
     (\<forall>sha. rd_merge_sha r = Some sha \<longrightarrow> full_sha sha) \<and>
     (rd_status r = RD_MERGED \<longrightarrow> rd_merge_sha r \<noteq> None) \<and>
     rd_status r \<notin> {RD_COMPENSATION_PENDING, RD_COMPENSATED, RD_MANUAL_INTERVENTION}"

lemma rd_inv_initial: "rd_of_candidate item order = Inr r \<Longrightarrow> rd_inv r"
  by (auto simp: rd_of_candidate_def rd_inv_def rd_cleared_def)

lemma rd_readiness_cases:
  "rd_readiness_status r = RD_READY_TO_MERGE \<or>
   (rd_readiness_status r \<in> {RD_CI_PENDING, RD_CI_FAILED, RD_REVIEW_PENDING,
      RD_REVIEW_CHANGES_REQUESTED} \<and> \<not> rd_evidence r)"
  using rd_readiness_range [of r] rd_ready_iff_evidence [of r] by auto

lemma rd_inv_refresh:
  assumes "rd_wf r" and "rd_pull_request_number r \<noteq> None"
    and "distinct (map cc_check_name (rd_ci_checks r))"
    and "distinct (map ro_reviewer (rd_reviews r))"
    and "\<forall>sha. rd_merge_sha r = Some sha \<longrightarrow> full_sha sha"
  shows "rd_inv (r\<lparr>rd_status := rd_readiness_status r\<rparr>)"
  using assms rd_readiness_cases [of r] rd_ready_iff_evidence [of r]
  by (auto simp: rd_inv_def rd_cleared_def)

text \<open>The shape of what the two observations that recompute the status return.\<close>

definition rd_put_check :: "ci_check_observation \<Rightarrow> repository_delivery \<Rightarrow> repository_delivery" where
  "rd_put_check obs r =
     r\<lparr>rd_ci_check_run_id := Some (cc_check_run_id obs), rd_ci_summary := Some (cc_summary obs),
       rd_ci_checks := put_by cc_check_name obs (rd_ci_checks r)\<rparr>"

lemma rd_put_check_fields [simp]:
  "rd_required (rd_put_check obs r) = rd_required r"
  "rd_ci_checks (rd_put_check obs r) = put_by cc_check_name obs (rd_ci_checks r)"
  "rd_merge_sha (rd_put_check obs r) = rd_merge_sha r"
  "rd_wf (rd_put_check obs r) = rd_wf r"
  by (simp_all add: rd_put_check_def rd_required_def)

definition rd_put_review :: "review_observation \<Rightarrow> repository_delivery \<Rightarrow> repository_delivery" where
  "rd_put_review obs r = r\<lparr>rd_reviews := put_by ro_reviewer obs (rd_reviews r)\<rparr>"

definition rd_ci_name :: "string \<Rightarrow> string \<Rightarrow> string" where
  "rd_ci_name check_name check_run_id = norm_text (if blank check_name then check_run_id else check_name)"

lemma rd_observe_ci_Inr:
  "rd_observe_ci passed run_id summary name r = Inr q \<Longrightarrow>
   \<exists>obs. cc_check_name obs = rd_ci_name name run_id \<and> cc_passed obs = passed \<and>
     rd_pull_request_number r \<noteq> None \<and> rd_wf r \<and>
     q = (rd_put_check obs r)\<lparr>rd_status := rd_readiness_status (rd_put_check obs r)\<rparr>"
  by (rule exI [where x = "\<lparr>cc_check_name = rd_ci_name name run_id,
        cc_check_run_id = py_strip run_id, cc_passed = passed, cc_summary = py_strip summary\<rparr>"])
    (auto simp: rd_observe_ci_def rd_refresh_def rbind_eq_Inr_iff Let_def rd_put_check_def
        rd_ci_name_def norm_text_def blank_def split: if_splits)

lemma rd_observe_review_Inr:
  "rd_observe_review review_id reviewer state head summary r = Inr q \<Longrightarrow>
   \<exists>obs. ro_reviewer obs = norm_text reviewer \<and> ro_state obs = state \<and>
     rd_pull_request_number r \<noteq> None \<and> norm_text head = rd_commit_sha r \<and> rd_wf r \<and>
     q = (rd_put_review obs r)\<lparr>rd_status := rd_readiness_status (rd_put_review obs r)\<rparr>"
  by (rule exI [where x = "\<lparr>ro_review_id = py_strip review_id, ro_reviewer = norm_text reviewer,
        ro_state = state, ro_summary = py_strip summary\<rparr>"])
    (auto simp: rd_observe_review_def rd_refresh_def rbind_eq_Inr_iff Let_def rd_put_review_def
        norm_text_def split: if_splits)

lemma rd_observe_ci_total:
  assumes "rd_wf r" and "rd_pull_request_number r \<noteq> None"
    and "r' = rd_put_check \<lparr>cc_check_name = rd_ci_name name run_id,
           cc_check_run_id = py_strip run_id, cc_passed = passed, cc_summary = py_strip summary\<rparr> r"
  shows "rd_observe_ci passed run_id summary name r = Inr (r'\<lparr>rd_status := rd_readiness_status r'\<rparr>)"
proof -
  from assms have wf: "rd_wf r'" by (simp add: rd_put_check_def)
  moreover from assms(2) have "rd_observe_ci passed run_id summary name r = rbind (rd_post_init r') rd_refresh"
    by (auto simp: rd_observe_ci_def Let_def assms(3) rd_put_check_def rd_ci_name_def norm_text_def
        blank_def)
  ultimately show ?thesis by simp
qed

lemma rd_inv_put_check:
  "rd_inv r \<Longrightarrow> rd_pull_request_number r \<noteq> None \<Longrightarrow>
   rd_inv ((rd_put_check obs r)\<lparr>rd_status := rd_readiness_status (rd_put_check obs r)\<rparr>)"
  by (rule rd_inv_refresh) (auto simp: rd_inv_def rd_put_check_def distinct_put_by)

lemma rd_inv_put_review:
  "rd_inv r \<Longrightarrow> rd_pull_request_number r \<noteq> None \<Longrightarrow>
   rd_inv ((rd_put_review obs r)\<lparr>rd_status := rd_readiness_status (rd_put_review obs r)\<rparr>)"
  by (rule rd_inv_refresh) (auto simp: rd_inv_def rd_put_review_def distinct_put_by)

lemma rd_inv_observe_ci:
  assumes "rd_observe_ci passed run_id summary name r = Inr q" and "rd_inv r"
  shows "rd_inv q"
proof -
  from rd_observe_ci_Inr [OF assms(1)] obtain obs where pr: "rd_pull_request_number r \<noteq> None"
    and q: "q = (rd_put_check obs r)\<lparr>rd_status := rd_readiness_status (rd_put_check obs r)\<rparr>"
    by (elim exE conjE)
  show ?thesis unfolding q by (rule rd_inv_put_check [OF assms(2) pr])
qed

lemma rd_inv_observe_review:
  assumes "rd_observe_review review_id reviewer state head summary r = Inr q" and "rd_inv r"
  shows "rd_inv q"
proof -
  from rd_observe_review_Inr [OF assms(1)] obtain obs where pr: "rd_pull_request_number r \<noteq> None"
    and q: "q = (rd_put_review obs r)\<lparr>rd_status := rd_readiness_status (rd_put_review obs r)\<rparr>"
    by (elim exE conjE)
  show ?thesis unfolding q by (rule rd_inv_put_review [OF assms(2) pr])
qed

lemma rd_inv_observe_pr:
  assumes "rd_observe_pr number url head r = Inr q" and "rd_inv r"
  shows "rd_inv q"
proof -
  from assms(1) have "q = r\<lparr>rd_status := RD_PR_OPEN, rd_pull_request_number := Some number,
      rd_pull_request_url := Some (py_strip url)\<rparr>"
    by (simp add: rd_observe_pr_def split: if_splits)
  with assms(2) show ?thesis by (simp add: rd_inv_def rd_cleared_def)
qed

lemma rd_inv_attach:
  assumes "rd_attach_traceability task_id sha plan_id run_id worker r = Inr q" and "rd_inv r"
  shows "rd_inv q"
proof -
  from assms(1) have "q = r\<lparr>rd_plan_id := Some plan_id, rd_run_id := run_id, rd_worker_agent_id := Some worker\<rparr>"
    by (auto simp: rd_attach_traceability_def split: if_splits)
  with assms(2) show ?thesis by (simp add: rd_inv_def rd_cleared_def)
qed

lemma rd_inv_observe_merge:
  assumes "rd_observe_merge sha r = Inr q" and "rd_inv r"
  shows "rd_inv q"
proof -
  from assms(1) obtain m where "q = r\<lparr>rd_status := RD_MERGED, rd_merge_sha := Some m\<rparr>"
      and "full_sha m" and "rd_cleared r"
    by (auto simp: rd_observe_merge_def rbind_eq_Inr_iff normalize_full_sha_Inr_iff rd_cleared_def
        split: if_splits)
  with assms(2) show ?thesis by (auto simp: rd_inv_def rd_cleared_def)
qed

lemma rd_inv_request_merge:
  assumes "rd_request_merge head r = Inr q" and "rd_inv r"
  shows "rd_inv q"
proof -
  from assms(1) have "q = r \<or> (q = r\<lparr>rd_status := RD_MERGE_REQUESTED\<rparr> \<and> rd_status r = RD_READY_TO_MERGE)"
    by (auto simp: rd_request_merge_def split: if_splits)
  with assms(2) show ?thesis by (elim disjE conjE) (simp_all add: rd_inv_def rd_cleared_def)
qed

lemma rd_inv_revise:
  assumes "rd_revise task_id previous_head new_head r = Inr q" and "rd_inv r"
  shows "rd_inv q"
proof -
  from assms(1) obtain sha where "rd_wf q" and q: "q = r\<lparr>rd_task_id := task_id,
      rd_base_sha := rd_commit_sha r, rd_commit_sha := sha,
      rd_status := (if rd_pull_request_number r \<noteq> None then RD_PR_OPEN else RD_PENDING),
      rd_ci_check_run_id := None, rd_ci_summary := None, rd_ci_checks := [], rd_reviews := [],
      rd_merge_sha := None\<rparr>"
    by (auto simp add: rd_revise_def rbind_eq_Inr_iff split: if_splits)
  then show ?thesis by (simp add: rd_inv_def rd_cleared_def)
qed

lemmas rd_inv_ops =
  rd_inv_observe_pr rd_inv_attach rd_inv_observe_ci rd_inv_observe_review rd_inv_observe_merge
  rd_inv_request_merge rd_inv_revise

lemma rd_step_inv: "rd_step r q \<Longrightarrow> rd_inv r \<Longrightarrow> rd_inv q"
  by (erule rd_stepE) (auto intro: rd_inv_ops)

lemma rd_reachable_inv: "rd_reachable r \<Longrightarrow> rd_inv r"
  by (induction rule: rd_reachable.induct) (auto intro: rd_inv_initial rd_step_inv)

subsection \<open>Heads that were not given in normal form\<close>

text \<open>
  Construction checks that the commit id normalises to a full id but stores it as given;
  every later operation compares a normalised head with the stored text.
\<close>

lemma norm_text_ne: "c \<noteq> norm_text c \<Longrightarrow> norm_text h \<noteq> c"
  by (metis norm_text_idem)

lemma rd_of_candidate_fields:
  "rd_of_candidate item order = Inr r \<Longrightarrow>
     rd_commit_sha r = rci_commit_sha item \<and> rd_pull_request_number r = None \<and>
     rd_status r = RD_PENDING \<and> rd_repository_id r = rci_repository_id item \<and>
     rd_depends_on r = rci_depends_on item \<and> rd_merge_order r = order"
  by (auto simp: rd_of_candidate_def)

subsection \<open>A sample candidate\<close>

text \<open>The closed instances below follow one candidate from construction to merge.\<close>

definition sample_sha :: string where
  "sample_sha = replicate 40 (CHR ''a'')"

definition sample_item :: repository_candidate_input where
  "sample_item =
     \<lparr>rci_repository_id = 1, rci_task_id = 11, rci_commit_sha = sample_sha,
      rci_base_sha = replicate 40 (CHR ''0''), rci_branch_name = ''work'',
      rci_depends_on = [], rci_required_checks = [''build''], rci_required_approvals = 0,
      rci_plan_id = None, rci_run_id = None, rci_worker_agent_id = None\<rparr>"

definition sample_candidate :: repository_delivery where
  "sample_candidate =
     \<lparr>rd_repository_id = 1, rd_task_id = 11, rd_commit_sha = sample_sha,
      rd_base_sha = replicate 40 (CHR ''0''), rd_branch_name = ''work'', rd_depends_on = [],
      rd_merge_order = 0, rd_required_checks = [''build''], rd_ci_checks = [],
      rd_required_approvals = 0, rd_reviews = [], rd_status = RD_PENDING,
      rd_pull_request_number = None, rd_pull_request_url = None, rd_ci_check_run_id = None,
      rd_ci_summary = None, rd_merge_sha = None, rd_plan_id = None, rd_run_id = None,
      rd_worker_agent_id = None\<rparr>"

definition sample_open :: repository_delivery where
  "sample_open = sample_candidate
     \<lparr>rd_status := RD_PR_OPEN, rd_pull_request_number := Some 7, rd_pull_request_url := Some ''u''\<rparr>"

definition sample_ready :: repository_delivery where
  "sample_ready = sample_open
     \<lparr>rd_ci_checks := [\<lparr>cc_check_name = ''build'', cc_check_run_id = ''9'', cc_passed = True,
                        cc_summary = ''ok''\<rparr>],
      rd_status := RD_READY_TO_MERGE, rd_ci_check_run_id := Some ''9'', rd_ci_summary := Some ''ok''\<rparr>"

definition sample_merged :: repository_delivery where
  "sample_merged = sample_ready\<lparr>rd_status := RD_MERGED, rd_merge_sha := Some sample_sha\<rparr>"

lemmas sample_defs =
  sample_item_def sample_candidate_def sample_open_def sample_ready_def sample_merged_def

lemma full_sha_sample [simp]: "full_sha sample_sha" "full_sha (replicate 40 (CHR ''0''))"
  unfolding sample_sha_def full_sha_replicate by (simp_all add: is_hex_def)

lemma norm_text_sample [simp]: "norm_text ''build'' = ''build''" "\<not> blank ''build''"
    "\<not> blank ''work''" "py_strip ''u'' = ''u''" "py_strip ''9'' = ''9''" "py_strip ''ok'' = ''ok''"
    "py_strip ''build'' = ''build''" "py_lower ''build'' = ''build''"
  by (simp_all add: norm_text_def blank_def py_strip_def py_lower_def py_lower_char_def
      py_isspace_def Let_def)

lemma sample_wf [simp]: "rd_wf sample_candidate"
  by (simp add: sample_candidate_def rd_wf_def rd_required_norm)

lemma sample_steps:
  "rd_of_candidate sample_item 0 = Inr sample_candidate"
  "rd_observe_pr 7 ''u'' sample_sha sample_candidate = Inr sample_open"
  "rd_observe_ci True ''9'' ''ok'' ''build'' sample_open = Inr sample_ready"
  "rd_observe_merge sample_sha sample_ready = Inr sample_merged"
proof -
  have 1: "rd_of_candidate sample_item 0 = rd_post_init sample_candidate"
    by (simp add: rd_of_candidate_def sample_item_def sample_candidate_def)
  then show "rd_of_candidate sample_item 0 = Inr sample_candidate" by simp
  have sha: "py_lower (py_strip sample_sha) = rd_commit_sha sample_candidate"
    by (simp add: sample_candidate_def norm_text_def_strip)
  have pending: "rd_status sample_candidate = RD_PENDING" by (simp add: sample_candidate_def)
  show "rd_observe_pr 7 ''u'' sample_sha sample_candidate = Inr sample_open"
    by (simp add: rd_observe_pr_def sha pending sample_open_def)
  have wf: "rd_wf sample_open" "rd_pull_request_number sample_open = Some 7"
    by (simp_all add: sample_open_def)
  have ready: "rd_readiness_status sample_ready = RD_READY_TO_MERGE"
    by (simp add: rd_readiness_status_def sample_defs rd_required_norm rd_by_name_def rd_approvals_def)
  show "rd_observe_ci True ''9'' ''ok'' ''build'' sample_open = Inr sample_ready"
  proof -
    let ?r' = "rd_put_check \<lparr>cc_check_name = rd_ci_name ''build'' ''9'', cc_check_run_id = py_strip ''9'',
        cc_passed = True, cc_summary = py_strip ''ok''\<rparr> sample_open"
    have r': "?r'\<lparr>rd_status := RD_READY_TO_MERGE\<rparr> = sample_ready"
      by (simp add: rd_put_check_def rd_ci_name_def sample_defs put_by_def)
    then have "rd_readiness_status ?r' = RD_READY_TO_MERGE"
      using ready by (metis rd_readiness_updates(1))
    with r' show ?thesis
      using wf by (simp only: rd_observe_ci_total [OF wf(1) _ refl] option.distinct simp_thms)
  qed
  show "rd_observe_merge sample_sha sample_ready = Inr sample_merged"
  proof -
    have "normalize_full_sha sample_sha ''merge_sha'' = Inr sample_sha"
      by (simp add: normalize_full_sha_Inr_iff)
    moreover have "rd_wf sample_merged"
      by (rule rd_wf_cong [THEN iffD2, OF _ _ _ _ _ sample_wf])
        (simp_all add: sample_merged_def sample_ready_def sample_open_def)
    ultimately show ?thesis by (simp add: rd_observe_merge_def sample_merged_def sample_ready_def)
  qed
qed

subsection \<open>Properties\<close>

text \<open>C19: A candidate counts as ready to merge exactly when its evidence meets its policy:
  every required check has a passing latest result (with no required check, the latest result
  passes), no reviewer's latest review asks for changes, and enough reviewers approve.\<close>

theorem readiness_characterised:
  "rd_readiness_status r = RD_READY_TO_MERGE \<longleftrightarrow>
     (\<forall>name \<in> set (rd_required r). \<exists>c. rd_latest r name = Some c \<and> cc_passed c) \<and>
     (rd_required r = [] \<longrightarrow> rd_ci_checks r \<noteq> [] \<and> cc_passed (last (rd_ci_checks r))) \<and>
     (\<forall>x \<in> set (rd_reviews r). ro_state x \<noteq> RV_CHANGES_REQUESTED) \<and>
     rd_required_approvals r
       \<le> int (card {ro_reviewer x | x. x \<in> set (rd_reviews r) \<and> ro_state x = RV_APPROVED})"
  unfolding rd_ready_iff_evidence rd_evidence_def by (rule refl)

theorem readiness_characterised_witness:
  "rd_readiness_status sample_ready = RD_READY_TO_MERGE \<and>
   rd_latest sample_ready ''build'' \<noteq> None"
proof -
  have "rd_readiness_status sample_ready = RD_READY_TO_MERGE"
    by (subst readiness_characterised)
      (simp add: sample_defs rd_required_norm rd_latest_def)
  then show ?thesis by (simp add: sample_defs rd_latest_def)
qed

text \<open>Whatever sequence of observations, revisions and merge requests a candidate went
  through, it is ready, merge-requested or merged only while the evidence recorded for its
  current head meets its policy.\<close>

theorem cleared_candidate_has_evidence:
  assumes "rd_reachable r"
    and "rd_status r \<in> {RD_READY_TO_MERGE, RD_MERGE_REQUESTED, RD_MERGED}"
  shows "rd_evidence r"
  using rd_reachable_inv [OF assms(1)] assms(2) by (auto simp: rd_inv_def rd_cleared_def)

lemma sample_reachable:
  "rd_reachable sample_candidate" "rd_reachable sample_ready" "rd_reachable sample_merged"
  by (meson sample_steps rd_reachable.intros rd_step.intros)+

theorem cleared_candidate_has_evidence_witness:
  "rd_status sample_merged = RD_MERGED \<and> rd_evidence sample_merged"
proof -
  have "rd_status sample_merged = RD_MERGED" by (simp add: sample_merged_def)
  with cleared_candidate_has_evidence [OF sample_reachable(3)] show ?thesis by simp
qed

text \<open>A candidate whose commit id is valid but not given in lower case without blanks is
  accepted at construction and is then stuck: no observation, merge request, revision or
  traceability record can ever change it.\<close>

theorem unnormalised_head_is_stuck:
  assumes "rd_of_candidate item order = Inr r"
    and "rci_commit_sha item \<noteq> norm_text (rci_commit_sha item)"
  shows "\<not> rd_step r q"
proof -
  from assms have "rd_commit_sha r \<noteq> norm_text (rd_commit_sha r)"
    and "rd_pull_request_number r = None" and "rd_status r = RD_PENDING"
    by (auto dest: rd_of_candidate_fields)
  then show ?thesis
    using norm_text_ne [of "rd_commit_sha r"]
    by (auto elim!: rd_stepE simp: rd_op_defs norm_text_def_strip split: if_splits)
qed

definition upper_item :: repository_candidate_input where
  "upper_item = sample_item\<lparr>rci_commit_sha := replicate 40 (CHR ''A'')\<rparr>"

definition upper_candidate :: repository_delivery where
  "upper_candidate = sample_candidate\<lparr>rd_commit_sha := replicate 40 (CHR ''A'')\<rparr>"

lemma upper_norm: "norm_text (replicate 40 (CHR ''A'')) = sample_sha"
proof -
  have "py_strip (replicate 40 (CHR ''A'')) = replicate 40 (CHR ''A'')"
    by (rule py_strip_fixed) (simp add: py_isspace_def)
  moreover have "py_lower_char (CHR ''A'') = CHR ''a''" by code_simp
  ultimately show ?thesis by (simp add: norm_text_def sample_sha_def py_lower_def)
qed

lemma upper_ne: "replicate 40 (CHR ''A'') \<noteq> sample_sha"
  by (simp add: sample_sha_def)

theorem unnormalised_head_is_stuck_witness:
  "rd_of_candidate upper_item 0 = Inr upper_candidate \<and> (\<forall>q. \<not> rd_step upper_candidate q)"
proof -
  have wf: "rd_wf upper_candidate"
    by (simp add: upper_candidate_def sample_candidate_def rd_wf_def rd_required_norm upper_norm)
  have "rd_of_candidate upper_item 0 = rd_post_init upper_candidate"
    by (simp add: rd_of_candidate_def upper_item_def sample_item_def upper_candidate_def
        sample_candidate_def)
  with wf have ok: "rd_of_candidate upper_item 0 = Inr upper_candidate" by simp
  have "rci_commit_sha upper_item \<noteq> norm_text (rci_commit_sha upper_item)"
    using upper_ne by (simp add: upper_item_def upper_norm)
  with ok unnormalised_head_is_stuck [OF ok] show ?thesis by blast
qed

text \<open>A CI result that arrives after the merge is accepted and takes the candidate out of
  \<open>MERGED\<close>, although its merge commit stays recorded; a failing one for a required check
  (or any failing one when no check is required) marks it \<open>CI_FAILED\<close>.\<close>

theorem late_ci_result_unmerges:
  assumes "rd_reachable r" and "rd_status r = RD_MERGED"
  shows "\<exists>q. rd_observe_ci passed run_id summary name r = Inr q \<and> rd_status q \<noteq> RD_MERGED \<and>
    rd_merge_sha q = rd_merge_sha r \<and>
    (\<not> passed \<and> (rd_required r = [] \<or> rd_ci_name name run_id \<in> set (rd_required r))
       \<longrightarrow> rd_status q = RD_CI_FAILED)"
proof -
  let ?obs = "\<lparr>cc_check_name = rd_ci_name name run_id, cc_check_run_id = py_strip run_id,
    cc_passed = passed, cc_summary = py_strip summary\<rparr>"
  let ?r = "rd_put_check ?obs r"
  from rd_reachable_inv [OF assms(1)] assms(2) have "rd_wf r" "rd_pull_request_number r \<noteq> None"
    by (auto simp: rd_inv_def)
  then have ok: "rd_observe_ci passed run_id summary name r = Inr (?r\<lparr>rd_status := rd_readiness_status ?r\<rparr>)"
    by (rule rd_observe_ci_total) simp
  have latest: "rd_latest ?r (rd_ci_name name run_id) = Some ?obs"
    by (simp add: rd_latest_def rd_put_check_def find_rev_put_by)
  have "rd_readiness_status ?r = RD_CI_FAILED"
    if failing: "\<not> passed" and name: "rd_required r = [] \<or> rd_ci_name name run_id \<in> set (rd_required r)"
    using name
  proof
    assume "rd_required r = []"
    with failing show ?thesis by (intro rd_failing_last) simp_all
  next
    assume "rd_ci_name name run_id \<in> set (rd_required r)"
    with failing show ?thesis
      by (intro rd_failing_required [OF _ latest]) simp_all
  qed
  with ok show ?thesis
    using rd_readiness_range [of ?r] by auto
qed

theorem late_ci_result_unmerges_witness:
  "\<exists>q. rd_observe_ci False ''10'' ''late'' ''build'' sample_merged = Inr q \<and>
       rd_status q = RD_CI_FAILED \<and> rd_merge_sha q = Some sample_sha"
proof -
  have "rd_status sample_merged = RD_MERGED" and "rd_merge_sha sample_merged = Some sample_sha"
    and "rd_ci_name ''build'' ''10'' \<in> set (rd_required sample_merged)"
    by (simp_all add: sample_defs rd_ci_name_def rd_required_norm)
  with late_ci_result_unmerges [OF sample_reachable(3), of False "''10''" "''late''" "''build''"]
  show ?thesis by auto
qed

end
