(* ===== verification/Change_Set.thy ===== *)
theory Change_Set
  imports Repository_Delivery
begin

text \<open>
  The ChangeSet aggregate of \<open>modules/delivery/domain.py\<close>: recovery plans and their
  actions, head-bound governance decisions, the lineage of candidate revisions, and the
  ChangeSet that owns them with its status, version and merge cursor. Each update returns the
  new aggregate or the exception; \<open>replace\<close> runs \<open>cs_post_init\<close> again. An operation
  reads the clock once (\<open>now\<close>) and takes its fresh identifiers as arguments.
\<close>

subsection \<open>Recovery plans\<close>

record recovery_action =
  ra_sequence :: int
  ra_kind :: recovery_action_kind
  ra_repository_id :: "uuid option"
  ra_run_id :: "uuid option"
  ra_detail :: string
  ra_id :: uuid
  ra_status :: recovery_action_status

definition ra_record ::
    "recovery_action_status \<Rightarrow> string \<Rightarrow> recovery_action \<Rightarrow> recovery_action result" where
  "ra_record status detail a =
     (if ra_status a \<in> {RA_SUCCEEDED, RA_SKIPPED}
      then if status \<noteq> ra_status a
           then Inl (DeliveryConflict ''completed recovery action cannot change status'')
           else Inr a
      else if ra_status a = RA_WAITING_WORKER \<and> status \<notin> {RA_RUNNING, RA_SUCCEEDED, RA_FAILED}
      then Inl (DeliveryConflict ''waiting recovery action requires Worker resolution'')
      else Inr (a\<lparr>ra_status := status,
                  ra_detail := (if py_strip detail \<noteq> [] then py_strip detail else ra_detail a)\<rparr>))"

definition ra_to_view :: "recovery_action \<Rightarrow> recovery_action_view" where
  "ra_to_view a =
     \<lparr>rav_id = ra_id a, rav_sequence = ra_sequence a, rav_kind = ra_kind a,
      rav_status = ra_status a, rav_repository_id = ra_repository_id a, rav_run_id = ra_run_id a,
      rav_detail = ra_detail a\<rparr>"

record recovery_plan =
  rp_trigger :: recovery_trigger
  rp_reason :: string
  rp_actions :: "recovery_action list"
  rp_id :: uuid
  rp_created_at :: datetime

definition rp_record_action ::
    "uuid \<Rightarrow> recovery_action_status \<Rightarrow> string \<Rightarrow> recovery_plan \<Rightarrow> recovery_plan result" where
  "rp_record_action action_id status detail p =
     (if \<not> (\<exists>a \<in> set (rp_actions p). ra_id a = action_id)
      then Inl (DeliveryNotFound (''recovery action not found: '' @ uuid_str action_id))
      else rbind (map_result (\<lambda>a. if ra_id a = action_id then ra_record status detail a else Inr a)
                   (rp_actions p))
             (\<lambda>actions. Inr (p\<lparr>rp_actions := actions\<rparr>)))"

definition rp_to_view :: "recovery_plan \<Rightarrow> recovery_plan_view" where
  "rp_to_view p =
     \<lparr>rpv_id = rp_id p, rpv_trigger = rp_trigger p, rpv_reason = rp_reason p,
      rpv_created_at = rp_created_at p, rpv_actions = map ra_to_view (rp_actions p)\<rparr>"

subsection \<open>Governance decisions\<close>

record governance_decision =
  gd_repository_id :: uuid
  gd_head_sha :: string
  gd_decision :: governance_decision_kind
  gd_decided_by_agent_id :: uuid
  gd_reason :: string
  gd_id :: uuid
  gd_decided_at :: datetime

definition gd_post_init :: "governance_decision \<Rightarrow> governance_decision result" where
  "gd_post_init d =
     rbind (normalize_full_sha (gd_head_sha d) ''governance decision head_sha'') (\<lambda>_.
     if blank (gd_reason d) then Inl (ValueError ''governance decision reason is required'')
     else Inr d)"

definition gd_to_view :: "governance_decision \<Rightarrow> governance_decision_view" where
  "gd_to_view d =
     \<lparr>gdv_id = gd_id d, gdv_repository_id = gd_repository_id d, gdv_head_sha = gd_head_sha d,
      gdv_decision = gd_decision d, gdv_decided_by_agent_id = gd_decided_by_agent_id d,
      gdv_reason = gd_reason d, gdv_decided_at = gd_decided_at d\<rparr>"

subsection \<open>Candidate revisions\<close>

record candidate_revision =
  cr_repository_id :: uuid
  cr_task_id :: uuid
  cr_sequence :: int
  cr_head_sha :: string
  cr_previous_head_sha :: "string option"
  cr_reason :: string
  cr_id :: uuid
  cr_created_at :: datetime

definition cr_to_view :: "candidate_revision \<Rightarrow> candidate_revision_view" where
  "cr_to_view c =
     \<lparr>crv_id = cr_id c, crv_repository_id = cr_repository_id c, crv_task_id = cr_task_id c,
      crv_sequence = cr_sequence c, crv_head_sha = cr_head_sha c,
      crv_previous_head_sha = cr_previous_head_sha c, crv_reason = cr_reason c,
      crv_created_at = cr_created_at c\<rparr>"

text \<open>The revision \<open>prepare\<close> and \<open>append_repositories\<close> record for a new candidate.\<close>

definition initial_revision :: "repository_delivery \<Rightarrow> uuid \<Rightarrow> datetime \<Rightarrow> candidate_revision" where
  "initial_revision r i now =
     \<lparr>cr_repository_id = rd_repository_id r, cr_task_id = rd_task_id r, cr_sequence = 0,
      cr_head_sha = rd_commit_sha r, cr_previous_head_sha = None,
      cr_reason = ''initial candidate'', cr_id = i, cr_created_at = now\<rparr>"

definition initial_revisions ::
    "repository_delivery list \<Rightarrow> (nat \<Rightarrow> uuid) \<Rightarrow> datetime \<Rightarrow> candidate_revision list" where
  "initial_revisions rs fresh now = map (\<lambda>(k, r). initial_revision r (fresh k) now) (enumerate 0 rs)"

subsection \<open>The aggregate\<close>

record change_set =
  cs_organization_id :: uuid
  cs_project_id :: uuid
  cs_created_by_agent_id :: uuid
  cs_title :: string
  cs_validation_snapshot_id :: "uuid option"
  cs_repositories :: "repository_delivery list"
  cs_id :: uuid
  cs_status :: change_set_status
  cs_recovery_plans :: "recovery_plan list"
  cs_governance_decisions :: "governance_decision list"
  cs_candidate_revisions :: "candidate_revision list"
  cs_version :: int
  cs_merge_cursor :: int
  cs_created_at :: datetime
  cs_updated_at :: datetime

definition cs_post_init :: "change_set \<Rightarrow> change_set result" where
  "cs_post_init c =
     (if blank (cs_title c) \<or> cs_repositories c = []
      then Inl (ValueError ''ChangeSet title and repositories are required'')
      else if \<not> distinct (map rd_repository_id (cs_repositories c))
      then Inl (ValueError ''ChangeSet contains duplicate repositories'')
      else Inr c)"

definition pending_orders :: "repository_delivery list \<Rightarrow> int list" where
  "pending_orders rs = map rd_merge_order (filter (\<lambda>r. rd_status r \<noteq> RD_MERGED) rs)"

definition delivery_status :: "repository_delivery list \<Rightarrow> change_set_status" where
  "delivery_status rs =
     (if \<forall>r \<in> set rs. rd_status r = RD_MERGED then CS_DELIVERED
      else if \<exists>r \<in> set rs. rd_status r \<in> {RD_CI_FAILED, RD_REVIEW_CHANGES_REQUESTED}
      then CS_BLOCKED
      else CS_DELIVERING)"

definition cs_with_repositories ::
    "repository_delivery list \<Rightarrow> datetime \<Rightarrow> change_set \<Rightarrow> change_set result" where
  "cs_with_repositories rs now c =
     cs_post_init (c\<lparr>cs_repositories := rs, cs_status := delivery_status rs,
        cs_version := cs_version c + 1,
        cs_merge_cursor := py_min (pending_orders rs) (int (length rs)),
        cs_updated_at := now\<rparr>)"

definition cs_append_repositories ::
    "repository_delivery list \<Rightarrow> (nat \<Rightarrow> uuid) \<Rightarrow> datetime \<Rightarrow> change_set \<Rightarrow> change_set result" where
  "cs_append_repositories rs fresh now c =
     (if \<exists>r \<in> set rs. rd_repository_id r \<in> set (map rd_repository_id (cs_repositories c))
      then Inl (DeliveryConflict ''ChangeSet already contains the repository candidate'')
      else rbind (cs_with_repositories (cs_repositories c @ rs) now c) (\<lambda>updated.
             cs_post_init (updated\<lparr>cs_candidate_revisions :=
               cs_candidate_revisions c @ initial_revisions rs fresh now\<rparr>)))"

definition cs_add_recovery :: "recovery_plan \<Rightarrow> datetime \<Rightarrow> change_set \<Rightarrow> change_set result" where
  "cs_add_recovery plan now c =
     cs_post_init (c\<lparr>cs_status := CS_COMPENSATING,
        cs_recovery_plans := cs_recovery_plans c @ [plan],
        cs_version := cs_version c + 1, cs_updated_at := now\<rparr>)"

definition gd_key :: "governance_decision \<Rightarrow> uuid \<times> string" where
  "gd_key d = (gd_repository_id d, gd_head_sha d)"

definition cs_record_governance ::
    "governance_decision \<Rightarrow> datetime \<Rightarrow> change_set \<Rightarrow> change_set result" where
  "cs_record_governance decision now c =
     (case find (\<lambda>r. rd_repository_id r = gd_repository_id decision) (cs_repositories c) of
        None \<Rightarrow> Inl (DeliveryNotFound ''governance repository is not in ChangeSet'')
      | Some candidate \<Rightarrow>
          if gd_head_sha decision \<noteq> rd_commit_sha candidate
          then Inl (DeliveryConflict ''governance decision does not match candidate head'')
          else cs_post_init (c\<lparr>cs_governance_decisions :=
                   put_by gd_key decision (cs_governance_decisions c),
                 cs_version := cs_version c + 1, cs_updated_at := now\<rparr>))"

definition cs_record_candidate_revision ::
    "uuid \<Rightarrow> uuid \<Rightarrow> string \<Rightarrow> string \<Rightarrow> string \<Rightarrow> uuid \<Rightarrow> datetime \<Rightarrow> change_set
     \<Rightarrow> change_set result" where
  "cs_record_candidate_revision repository_id task_id previous_head_sha new_head_sha reason i now c =
     (case find (\<lambda>r. rd_repository_id r = repository_id) (cs_repositories c) of
        None \<Rightarrow> Inl (DeliveryNotFound ''revision repository is not in ChangeSet'')
      | Some candidate \<Rightarrow>
          rbind (rd_revise task_id previous_head_sha new_head_sha candidate) (\<lambda>revised.
          let sequence = 1 + py_max (map cr_sequence
                (filter (\<lambda>v. cr_repository_id v = repository_id) (cs_candidate_revisions c))) 0;
              revision =
                \<lparr>cr_repository_id = repository_id, cr_task_id = task_id, cr_sequence = sequence,
                 cr_head_sha = rd_commit_sha revised,
                 cr_previous_head_sha = Some (rd_commit_sha candidate),
                 cr_reason = (if py_strip reason \<noteq> [] then py_strip reason else ''candidate rework''),
                 cr_id = i, cr_created_at = now\<rparr>;
              repositories =
                map_where (\<lambda>r. rd_repository_id r = repository_id) (\<lambda>_. revised) (cs_repositories c)
          in if pending_orders repositories = []
             then Inl (ValueError ''min() iterable argument is empty'')
             else cs_post_init (c\<lparr>cs_repositories := repositories,
                    cs_candidate_revisions := cs_candidate_revisions c @ [revision],
                    cs_status := CS_DELIVERING,
                    cs_merge_cursor := py_min (pending_orders repositories) 0,
                    cs_version := cs_version c + 1, cs_updated_at := now\<rparr>)))"

definition recovery_status :: "recovery_action list \<Rightarrow> change_set_status" where
  "recovery_status actions =
     (if \<exists>a \<in> set actions. ra_status a = RA_FAILED then CS_MANUAL_INTERVENTION
      else if \<forall>a \<in> set actions. ra_status a \<in> {RA_SUCCEEDED, RA_SKIPPED} then CS_COMPENSATED
      else CS_COMPENSATING)"

definition cs_record_recovery_action ::
    "uuid \<Rightarrow> uuid \<Rightarrow> recovery_action_status \<Rightarrow> string \<Rightarrow> datetime \<Rightarrow> change_set
     \<Rightarrow> change_set result" where
  "cs_record_recovery_action plan_id action_id status detail now c =
     (if \<not> (\<exists>p \<in> set (cs_recovery_plans c). rp_id p = plan_id)
      then Inl (DeliveryNotFound (''recovery plan not found: '' @ uuid_str plan_id))
      else rbind (map_result (\<lambda>p. if rp_id p = plan_id then rp_record_action action_id status detail p
                                  else Inr p) (cs_recovery_plans c)) (\<lambda>plans.
           case find (\<lambda>p. rp_id p = plan_id) plans of
             None \<Rightarrow> Inl (ValueError ''StopIteration'')
           | Some active \<Rightarrow>
               cs_post_init (c\<lparr>cs_status := recovery_status (rp_actions active),
                 cs_recovery_plans := plans, cs_version := cs_version c + 1,
                 cs_updated_at := now\<rparr>)))"

definition cs_to_view :: "change_set \<Rightarrow> change_set_view" where
  "cs_to_view c =
     \<lparr>csv_id = cs_id c, csv_organization_id = cs_organization_id c,
      csv_project_id = cs_project_id c, csv_created_by_agent_id = cs_created_by_agent_id c,
      csv_title = cs_title c, csv_validation_snapshot_id = cs_validation_snapshot_id c,
      csv_status = cs_status c, csv_version = cs_version c, csv_merge_cursor = cs_merge_cursor c,
      csv_repositories = map rd_to_view (cs_repositories c),
      csv_recovery_plans = map rp_to_view (cs_recovery_plans c),
      csv_governance_decisions = map gd_to_view (cs_governance_decisions c),
      csv_candidate_revisions = map cr_to_view (cs_candidate_revisions c),
      csv_created_at = cs_created_at c, csv_updated_at = cs_updated_at c\<rparr>"

text \<open>
  \<open>DeliveryService._update_repository\<close> without its store: apply an operation to one
  candidate, keep the aggregate when nothing changed, otherwise recompute it. The flag says
  whether there is something to write.
\<close>

definition cs_update_repository ::
    "uuid \<Rightarrow> (repository_delivery \<Rightarrow> repository_delivery result) \<Rightarrow> datetime \<Rightarrow> change_set
     \<Rightarrow> (change_set \<times> bool) result" where
  "cs_update_repository repository_id operation now c =
     rbind (map_result (\<lambda>r. if rd_repository_id r = repository_id then operation r else Inr r)
             (cs_repositories c)) (\<lambda>repositories.
     if \<not> (\<exists>r \<in> set (cs_repositories c). rd_repository_id r = repository_id)
     then Inl (DeliveryNotFound (''repository not in ChangeSet: '' @ uuid_str repository_id))
     else if repositories = cs_repositories c then Inr (c, False)
     else rbind (cs_with_repositories repositories now c) (\<lambda>updated. Inr (updated, True)))"

end
