(* ===== verification/Store_Contracts.thy ===== *)
theory Store_Contracts
  imports Prelude
begin

text \<open>
  The contracts of the stores the services rely on, as locales: \<open>versioned_store\<close> for the
  optimistic version check of \<open>update\<close>, \<open>keyed_store\<close> for unique idempotency keys. A method is a
  procedure over its store; a refusal is the module's own \<open>conflict\<close> exception.
\<close>

text \<open>\<open>update(value, expected_version)\<close> writes only over the expected version.\<close>

locale versioned_store =
  fixes conflict :: "string \<Rightarrow> exc"
    and get :: "'s \<Rightarrow> 'i \<Rightarrow> 'v option"
    and update :: "'v \<Rightarrow> int \<Rightarrow> ('s, unit) proc"
    and ident :: "'v \<Rightarrow> 'i"
    and version :: "'v \<Rightarrow> int"
  assumes update_fresh: "get s (ident v) = Some u \<Longrightarrow> version u = expected \<Longrightarrow>
      fst (update v expected s) = Inr () \<and>
      get (snd (update v expected s)) i = (if i = ident v then Some v else get s i)"
    and update_stale: "(\<And>u. get s (ident v) = Some u \<Longrightarrow> version u \<noteq> expected) \<Longrightarrow>
      \<exists>m. update v expected s = (Inl (conflict m), s)"
begin

lemma update_Inr_iff:
  "fst (update v expected s) = Inr () \<longleftrightarrow> (\<exists>u. get s (ident v) = Some u \<and> version u = expected)"
proof (cases "\<exists>u. get s (ident v) = Some u \<and> version u = expected")
  case False
  then obtain m where "update v expected s = (Inl (conflict m), s)"
    using update_stale by blast
  with False show ?thesis by simp
qed (use update_fresh in blast)

text \<open>Of two writers that read the same version, the second to write is refused.\<close>

lemma second_writer_refused:
  assumes "get s i = Some u" and "ident v = i" and "ident w = i"
    and "version v \<noteq> version u" and "update v (version u) s = (Inr (), s1)"
  shows "\<exists>m. update w (version u) s1 = (Inl (conflict m), s1)"
proof (rule update_stale)
  fix x assume "get s1 (ident w) = Some x"
  moreover have "get s1 i = Some v"
    using update_fresh [of s v u "version u" i] assms by simp
  ultimately show "version x \<noteq> version u" using assms by simp
qed

lemma update_other:
  assumes "update v expected s = (r, s1)" and "i \<noteq> ident v"
  shows "get s1 i = get s i"
proof (cases "\<exists>u. get s (ident v) = Some u \<and> version u = expected")
  case True
  then obtain u where "get s (ident v) = Some u" "version u = expected" by blast
  from update_fresh [OF this, of i] assms show ?thesis by simp
next
  case False
  then obtain m where "update v expected s = (Inl (conflict m), s)"
    using update_stale by blast
  with assms show ?thesis by simp
qed

end

text \<open>\<open>add\<close> binds a key once; a key already bound is refused and nothing is written.\<close>

locale keyed_store =
  fixes conflict :: "string \<Rightarrow> exc"
    and lookup :: "'s \<Rightarrow> 'k \<Rightarrow> 'v option"
    and add :: "'v \<Rightarrow> ('s, unit) proc"
    and key :: "'v \<Rightarrow> 'k"
    and ok :: "'s \<Rightarrow> bool"
    and unused :: "'s \<Rightarrow> 'v \<Rightarrow> bool"
  assumes add_new: "ok s \<Longrightarrow> lookup s (key v) = None \<Longrightarrow> unused s v \<Longrightarrow>
      fst (add v s) = Inr () \<and> lookup (snd (add v s)) k = (if k = key v then Some v else lookup s k) \<and>
      ok (snd (add v s))"
    and add_bound: "ok s \<Longrightarrow> lookup s (key v) = Some u \<Longrightarrow>
      \<exists>m. add v s = (Inl (conflict m), s)"
begin

text \<open>A key once bound keeps its value.\<close>

lemma add_keeps:
  assumes "ok s" and "unused s v" and "lookup s k = Some u" and "add v s = (r, s1)"
  shows "lookup s1 k = Some u"
proof (cases "lookup s (key v)")
  case None
  with add_new [OF assms(1) None assms(2), of k] assms(3,4) show ?thesis by auto
next
  case (Some w)
  then obtain m where "add v s = (Inl (conflict m), s)"
    using add_bound [OF assms(1) Some] by blast
  with assms(3,4) show ?thesis by simp
qed

lemma add_twice:
  assumes "ok s" and "unused s v" and "lookup s (key v) = None" and "add v s = (r, s1)"
    and "key w = key v"
  shows "\<exists>m. add w s1 = (Inl (conflict m), s1)"
proof (rule add_bound)
  show "ok s1" "lookup s1 (key w) = Some v"
    using add_new [OF assms(1,3,2), of "key v"] assms(4,5) by simp_all
qed

lemma add_Inr_bound:
  assumes "ok s" and "unused s v" and "add v s = (Inr (), s1)"
  shows "lookup s (key v) = None \<and> lookup s1 (key v) = Some v \<and> ok s1"
proof (cases "lookup s (key v)")
  case None
  with add_new [OF assms(1) None assms(2), of "key v"] assms(3) show ?thesis by simp
next
  case (Some w)
  then obtain m where "add v s = (Inl (conflict m), s)"
    using add_bound [OF assms(1) Some] by blast
  with assms(3) show ?thesis by simp
qed

end

end
