(* ===== verification/Delivery_Stores.thy ===== *)
theory Delivery_Stores
  imports SCM_Domain Change_Set Store_Contracts
begin

text \<open>
  The in-memory stores of \<open>modules/delivery/infrastructure.py\<close>, with the contracts of
  \<open>Store_Contracts\<close> the services rely on. A store is a record of its dictionaries and a method is
  a procedure over it; \<open>datetime.now\<close> is an argument, one per call the method makes.
\<close>

subsection \<open>ChangeSet store\<close>

record change_set_store =
  cst_items :: "(uuid, change_set) dict"
  cst_keys :: "(string, uuid \<times> string) dict"

definition cst_add :: "change_set \<Rightarrow> string \<Rightarrow> string \<Rightarrow> (change_set_store, unit) proc" where
  "cst_add c idempotency_key fingerprint s =
     (if dict_get (cst_keys s) idempotency_key \<noteq> None
      then (Inl (DeliveryConflict ''duplicate ChangeSet idempotency key''), s)
      else (Inr (), s\<lparr>cst_items := dict_set (cs_id c) c (cst_items s),
                      cst_keys := dict_set idempotency_key (cs_id c, fingerprint) (cst_keys s)\<rparr>))"

definition cst_get :: "change_set_store \<Rightarrow> uuid \<Rightarrow> change_set option" where
  "cst_get s change_set_id = dict_get (cst_items s) change_set_id"

definition cst_get_by_idempotency_key ::
    "string \<Rightarrow> (change_set_store, (change_set \<times> string) option) proc" where
  "cst_get_by_idempotency_key key s =
     (case dict_get (cst_keys s) key of
        None \<Rightarrow> (Inr None, s)
      | Some (i, fingerprint) \<Rightarrow>
          (case dict_get (cst_items s) i of
             None \<Rightarrow> (Inl (KeyError (uuid_str i)), s)
           | Some c \<Rightarrow> (Inr (Some (c, fingerprint)), s)))"

definition cst_update :: "change_set \<Rightarrow> int \<Rightarrow> (change_set_store, unit) proc" where
  "cst_update c expected_version s =
     (if (case dict_get (cst_items s) (cs_id c) of
            None \<Rightarrow> True | Some current \<Rightarrow> cs_version current \<noteq> expected_version)
      then (Inl (DeliveryConflict ''ChangeSet version changed''), s)
      else (Inr (), s\<lparr>cst_items := dict_set (cs_id c) c (cst_items s)\<rparr>))"

definition cst_find_by_candidate :: "uuid \<Rightarrow> string \<Rightarrow> change_set_store \<Rightarrow> change_set list" where
  "cst_find_by_candidate repository_id head_sha s =
     (let normalized = py_lower (py_strip head_sha)
      in filter (\<lambda>c. \<exists>r \<in> set (cs_repositories c).
              rd_repository_id r = repository_id \<and> rd_commit_sha r = normalized)
           (dict_values (cst_items s)))"

definition cst_find_by_project :: "uuid \<Rightarrow> change_set_store \<Rightarrow> change_set list" where
  "cst_find_by_project project_id s =
     filter (\<lambda>c. cs_project_id c = project_id) (dict_values (cst_items s))"

definition cst_list_active :: "change_set_store \<Rightarrow> change_set list" where
  "cst_list_active s =
     filter (\<lambda>c. cs_status c \<notin> {CS_DELIVERED, CS_COMPENSATED}) (dict_values (cst_items s))"

text \<open>Stored under its own id; every key is bound to a stored ChangeSet.\<close>

definition cst_ok :: "change_set_store \<Rightarrow> bool" where
  "cst_ok s \<longleftrightarrow> distinct (dict_keys (cst_items s)) \<and> distinct (dict_keys (cst_keys s)) \<and>
     (\<forall>(i, c) \<in> set (cst_items s). cs_id c = i) \<and>
     (\<forall>(k, i, f) \<in> set (cst_keys s). dict_get (cst_items s) i \<noteq> None)"

lemma cst_ok_key: "cst_ok s \<Longrightarrow> dict_get (cst_keys s) k = Some (i, f) \<Longrightarrow> dict_get (cst_items s) i \<noteq> None"
  by (auto simp: cst_ok_def dest!: map_of_SomeD)

lemma cst_ok_id: "cst_ok s \<Longrightarrow> cst_get s i = Some c \<Longrightarrow> cs_id c = i"
  by (auto simp: cst_ok_def cst_get_def dest!: map_of_SomeD)

definition cst_lookup :: "change_set_store \<Rightarrow> string \<Rightarrow> (change_set \<times> string) option" where
  "cst_lookup s key =
     (case dict_get (cst_keys s) key of
        None \<Rightarrow> None
      | Some (i, fingerprint) \<Rightarrow> map_option (\<lambda>c. (c, fingerprint)) (dict_get (cst_items s) i))"

lemma cst_get_by_idempotency_key_ok:
  "cst_ok s \<Longrightarrow> cst_get_by_idempotency_key key s = (Inr (cst_lookup s key), s)"
  by (auto simp: cst_get_by_idempotency_key_def cst_lookup_def dest: cst_ok_key split: option.splits)

lemma in_dict_set: "(k', v') \<in> set (dict_set k v d) \<Longrightarrow> distinct (dict_keys d) \<Longrightarrow>
    (k', v') = (k, v) \<or> (k' \<noteq> k \<and> (k', v') \<in> set d)"
  by (metis Pair_inject dict_get_set dict_get_Some_in distinct_dict_set option.inject)

lemma cst_ok_update:
  assumes "cst_ok s" and "cst_update c e s = (r, s1)"
  shows "cst_ok s1"
  using assms
  by (auto simp: cst_ok_def cst_update_def dest!: in_dict_set split: if_splits option.splits)

lemma cst_ok_add:
  assumes "cst_ok s" and "cst_add c k f s = (r, s1)"
  shows "cst_ok s1"
  using assms
  by (auto simp: cst_ok_def cst_add_def dest!: in_dict_set split: if_splits)

lemma cst_ok_add_snd: "cst_ok s \<Longrightarrow> cst_ok (snd (cst_add c k f s))"
  by (metis cst_ok_add surjective_pairing)

interpretation change_sets: versioned_store DeliveryConflict cst_get cst_update cs_id cs_version
proof unfold_locales
  fix s :: change_set_store and v u :: change_set and expected i
  assume "cst_get s (cs_id v) = Some u" and "cs_version u = expected"
  then show "fst (cst_update v expected s) = Inr () \<and>
      cst_get (snd (cst_update v expected s)) i = (if i = cs_id v then Some v else cst_get s i)"
    by (simp add: cst_get_def cst_update_def)
next
  fix s :: change_set_store and v :: change_set and expected
  assume "\<And>u. cst_get s (cs_id v) = Some u \<Longrightarrow> cs_version u \<noteq> expected"
  then show "\<exists>m. cst_update v expected s = (Inl (DeliveryConflict m), s)"
    by (auto simp: cst_get_def cst_update_def split: option.splits)
qed

lemma cst_lookup_add:
  assumes "cst_ok s" and "cst_lookup s k = None" and "cst_get s (cs_id c) = None"
  shows "fst (cst_add c k f s) = Inr () \<and>
    cst_lookup (snd (cst_add c k f s)) k' = (if k' = k then Some (c, f) else cst_lookup s k')"
proof -
  from assms(1,2) have key: "dict_get (cst_keys s) k = None"
    by (auto simp: cst_lookup_def dest: cst_ok_key split: option.splits)
  have "i \<noteq> cs_id c" if "dict_get (cst_keys s) k' = Some (i, g)" for i g
    using cst_ok_key [OF assms(1) that] assms(3) by (auto simp: cst_get_def)
  with key show ?thesis
    by (auto simp: cst_add_def cst_lookup_def split: option.splits)
qed

text \<open>A ChangeSet with the key and fingerprint it was added under.\<close>

interpretation change_set_keys: keyed_store DeliveryConflict
  "\<lambda>s k. map_option (Pair k) (cst_lookup s k)"
  "\<lambda>(k, c, f). cst_add c k f" fst cst_ok "\<lambda>s (k, c, f). cst_get s (cs_id c) = None"
proof unfold_locales
  fix s k and v :: "string \<times> change_set \<times> string"
  obtain k' c f where v: "v = (k', c, f)" by (cases v)
  assume "cst_ok s" and "map_option (Pair (fst v)) (cst_lookup s (fst v)) = None"
    and "case v of (k, c, f) \<Rightarrow> cst_get s (cs_id c) = None"
  then show "fst ((case v of (k, c, f) \<Rightarrow> cst_add c k f) s) = Inr () \<and>
      map_option (Pair k) (cst_lookup (snd ((case v of (k, c, f) \<Rightarrow> cst_add c k f) s)) k) =
        (if k = fst v then Some v else map_option (Pair k) (cst_lookup s k)) \<and>
      cst_ok (snd ((case v of (k, c, f) \<Rightarrow> cst_add c k f) s))"
    using cst_lookup_add [of s k' c f k] cst_ok_add_snd [of s c k' f] by (simp add: v)
next
  fix s u and v :: "string \<times> change_set \<times> string"
  assume "cst_ok s" and "map_option (Pair (fst v)) (cst_lookup s (fst v)) = Some u"
  then show "\<exists>m. (case v of (k, c, f) \<Rightarrow> cst_add c k f) s = (Inl (DeliveryConflict m), s)"
    by (cases v) (auto simp: cst_lookup_def cst_add_def split: option.splits)
qed

subsection \<open>SCM command store\<close>

definition validate_scm_lease :: "string \<Rightarrow> int \<Rightarrow> int \<Rightarrow> unit result" where
  "validate_scm_lease owner lease_seconds limit =
     (if py_strip owner = [] \<or> length owner > 128
      then Inl (ValueError ''lease owner must contain 1-128 characters'')
      else if lease_seconds < 1 then Inl (ValueError ''lease seconds must be positive'')
      else if limit < 1 then Inl (ValueError ''claim limit must be positive'')
      else Inr ())"

record scm_command_store =
  scs_items :: "(uuid, scm_command) dict"
  scs_keys :: "(string, uuid) dict"

definition scs_add :: "scm_command \<Rightarrow> (scm_command_store, unit) proc" where
  "scs_add command s =
     (if dict_get (scs_keys s) (sc_idempotency_key command) \<noteq> None
      then (Inl (DeliveryConflict ''duplicate SCM command''), s)
      else (Inr (), s\<lparr>scs_items := dict_set (sc_id command) command (scs_items s),
                      scs_keys := dict_set (sc_idempotency_key command) (sc_id command) (scs_keys s)\<rparr>))"

definition scs_get :: "scm_command_store \<Rightarrow> uuid \<Rightarrow> scm_command option" where
  "scs_get s command_id = dict_get (scs_items s) command_id"

definition scs_get_by_idempotency_key :: "scm_command_store \<Rightarrow> string \<Rightarrow> scm_command option" where
  "scs_get_by_idempotency_key s key =
     (case dict_get (scs_keys s) key of None \<Rightarrow> None | Some i \<Rightarrow> dict_get (scs_items s) i)"

text \<open>The filter \<open>claim_batch\<close> and \<open>list_dispatchable\<close> share.\<close>

definition sc_dispatchable :: "int \<Rightarrow> datetime \<Rightarrow> scm_command \<Rightarrow> bool" where
  "sc_dispatchable max_attempts now c \<longleftrightarrow>
     sc_attempts c < max_attempts \<and>
     (sc_status c \<in> {SC_PENDING, SC_FAILED} \<or>
      (sc_status c = SC_PROCESSING \<and>
       (case sc_lease_expires_at c of None \<Rightarrow> True | Some t \<Rightarrow> t \<le> now)))"

definition scs_claim_batch ::
    "string \<Rightarrow> int \<Rightarrow> int \<Rightarrow> int \<Rightarrow> datetime \<Rightarrow> (scm_command_store, scm_command list) proc" where
  "scs_claim_batch lease_owner lease_seconds max_attempts limit now s =
     (case validate_scm_lease lease_owner lease_seconds limit of
        Inl e \<Rightarrow> (Inl e, s)
      | Inr _ \<Rightarrow>
          let values = filter (sc_dispatchable max_attempts now) (dict_values (scs_items s))
          in case map_result (sc_claim now lease_owner (now + seconds lease_seconds))
                    (py_prefix limit (sort_key sc_created_at values)) of
               Inl e \<Rightarrow> (Inl e, s)
             | Inr claimed \<Rightarrow>
                 (Inr claimed, s\<lparr>scs_items := dict_update (map (\<lambda>c. (sc_id c, c)) claimed) (scs_items s)\<rparr>))"

definition scs_owned ::
    "uuid \<Rightarrow> string \<Rightarrow> int \<Rightarrow> datetime \<Rightarrow> scm_command_store \<Rightarrow> scm_command result" where
  "scs_owned command_id owner version now s =
     (case dict_get (scs_items s) command_id of
        None \<Rightarrow> Inl (DeliveryConflict ''SCM command lease ownership changed'')
      | Some current \<Rightarrow>
          if sc_status current \<noteq> SC_PROCESSING \<or> sc_lease_owner current \<noteq> Some owner \<or>
             sc_version current \<noteq> version
          then Inl (DeliveryConflict ''SCM command lease ownership changed'')
          else if (case sc_lease_expires_at current of None \<Rightarrow> True | Some t \<Rightarrow> t \<le> now)
          then Inl (DeliveryConflict ''SCM command lease expired'')
          else Inr current)"

text \<open>\<open>renew\<close> reads the clock in \<open>_owned\<close> and again for itself, \<open>accept\<close> likewise.\<close>

definition scs_renew ::
    "uuid \<Rightarrow> string \<Rightarrow> int \<Rightarrow> int \<Rightarrow> datetime \<Rightarrow> datetime \<Rightarrow> (scm_command_store, scm_command) proc" where
  "scs_renew command_id lease_owner fencing_version lease_seconds checked_at now s =
     (case rbind (validate_scm_lease lease_owner lease_seconds 1) (\<lambda>_.
             scs_owned command_id lease_owner fencing_version checked_at s) of
        Inl e \<Rightarrow> (Inl e, s)
      | Inr current \<Rightarrow>
          if (case sc_lease_expires_at current of None \<Rightarrow> True | Some t \<Rightarrow> t \<le> now)
          then (Inl (DeliveryConflict ''SCM command lease expired''), s)
          else let renewed = current\<lparr>sc_lease_expires_at := Some (now + seconds lease_seconds)\<rparr>
               in (Inr renewed, s\<lparr>scs_items := dict_set command_id renewed (scs_items s)\<rparr>))"

definition scs_accept ::
    "uuid \<Rightarrow> string \<Rightarrow> int \<Rightarrow> datetime \<Rightarrow> datetime \<Rightarrow> (scm_command_store, scm_command) proc" where
  "scs_accept command_id lease_owner fencing_version checked_at now s =
     (case rbind (scs_owned command_id lease_owner fencing_version checked_at s) (sc_accept now) of
        Inl e \<Rightarrow> (Inl e, s)
      | Inr accepted \<Rightarrow> (Inr accepted, s\<lparr>scs_items := dict_set command_id accepted (scs_items s)\<rparr>))"

definition scs_fail ::
    "uuid \<Rightarrow> string \<Rightarrow> string \<Rightarrow> int \<Rightarrow> datetime \<Rightarrow> (scm_command_store, scm_command) proc" where
  "scs_fail command_id error lease_owner fencing_version checked_at s =
     (case rbind (scs_owned command_id lease_owner fencing_version checked_at s) (sc_fail error) of
        Inl e \<Rightarrow> (Inl e, s)
      | Inr failed \<Rightarrow> (Inr failed, s\<lparr>scs_items := dict_set command_id failed (scs_items s)\<rparr>))"

definition scs_list_dispatchable ::
    "int \<Rightarrow> int \<Rightarrow> datetime \<Rightarrow> scm_command_store \<Rightarrow> scm_command list" where
  "scs_list_dispatchable max_attempts limit now s =
     py_prefix limit (sort_key sc_created_at
       (filter (sc_dispatchable max_attempts now) (dict_values (scs_items s))))"

subsection \<open>Poll cursor store\<close>

type_synonym scm_poll_cursor_store = "(uuid \<times> uuid, scm_poll_cursor) dict"

definition pcs_get :: "scm_poll_cursor_store \<Rightarrow> uuid \<times> uuid \<Rightarrow> scm_poll_cursor option" where
  "pcs_get s key = dict_get s key"

definition pc_key :: "scm_poll_cursor \<Rightarrow> uuid \<times> uuid" where
  "pc_key c = (pc_change_set_id c, pc_repository_id c)"

definition pcs_upsert :: "scm_poll_cursor \<Rightarrow> int option \<Rightarrow> (scm_poll_cursor_store, unit) proc" where
  "pcs_upsert cursor expected_version s =
     (let key = (pc_change_set_id cursor, pc_repository_id cursor); current = dict_get s key
      in case expected_version of
           None \<Rightarrow>
             if current \<noteq> None
             then (Inl (DeliveryConflict ''SCM poll cursor already exists''), s)
             else (Inr (), dict_set key cursor s)
         | Some expected \<Rightarrow>
             if (case current of None \<Rightarrow> True | Some c \<Rightarrow> pc_version c \<noteq> expected)
             then (Inl (DeliveryConflict ''SCM poll cursor version changed''), s)
             else (Inr (), dict_set key cursor s))"

subsection \<open>Observation store\<close>

record scm_observation_store =
  sos_items :: "(uuid, scm_observation) dict"
  sos_identities :: "(string \<times> string \<times> string, uuid) dict"

definition so_identity :: "scm_observation \<Rightarrow> string \<times> string \<times> string" where
  "so_identity p = (so_provider p, scm_observation_source_value (so_source p), so_external_id p)"

definition sos_add :: "scm_observation \<Rightarrow> (scm_observation_store, unit) proc" where
  "sos_add p s =
     (let identity = (so_provider p, scm_observation_source_value (so_source p), so_external_id p)
      in if dict_get (sos_identities s) identity \<noteq> None
         then (Inl (DeliveryConflict ''duplicate SCM observation''), s)
         else (Inr (), s\<lparr>sos_items := dict_set (so_id p) p (sos_items s),
                         sos_identities := dict_set identity (so_id p) (sos_identities s)\<rparr>))"

definition sos_get :: "scm_observation_store \<Rightarrow> uuid \<Rightarrow> scm_observation option" where
  "sos_get s observation_id = dict_get (sos_items s) observation_id"

definition sos_get_by_identity ::
    "scm_observation_store \<Rightarrow> string \<times> string \<times> string \<Rightarrow> scm_observation option" where
  "sos_get_by_identity s identity =
     (case dict_get (sos_identities s) identity of None \<Rightarrow> None | Some i \<Rightarrow> dict_get (sos_items s) i)"

definition sos_update :: "scm_observation \<Rightarrow> int \<Rightarrow> (scm_observation_store, unit) proc" where
  "sos_update p expected_version s =
     (if (case dict_get (sos_items s) (so_id p) of
            None \<Rightarrow> True | Some current \<Rightarrow> so_version current \<noteq> expected_version)
      then (Inl (DeliveryConflict ''SCM observation version changed''), s)
      else (Inr (), s\<lparr>sos_items := dict_set (so_id p) p (sos_items s)\<rparr>))"

definition sos_list_replayable ::
    "datetime \<Rightarrow> int \<Rightarrow> int \<Rightarrow> scm_observation_store \<Rightarrow> scm_observation list" where
  "sos_list_replayable stale_before max_attempts limit s =
     py_prefix limit (sort_key so_received_at
       (filter (\<lambda>p. so_attempts p < max_attempts \<and>
            (so_status p \<in> {SO_PENDING, SO_FAILED} \<or>
             (so_status p = SO_PROCESSING \<and>
              (case so_claimed_at p of None \<Rightarrow> False | Some t \<Rightarrow> t \<le> stale_before))))
         (dict_values (sos_items s))))"

subsection \<open>Archives and the audit log\<close>

type_synonym delivery_archive_store = "(uuid, delivery_archive_view) dict"

definition das_add :: "delivery_archive_view \<Rightarrow> (delivery_archive_store, unit) proc" where
  "das_add archive s =
     (if dict_get s (dav_delivery_id archive) \<noteq> None
      then (Inl (DeliveryConflict ''delivery is already archived''), s)
      else (Inr (), dict_set (dav_delivery_id archive) archive s))"

definition das_get :: "delivery_archive_store \<Rightarrow> uuid \<Rightarrow> delivery_archive_view option" where
  "das_get s delivery_id = dict_get s delivery_id"

definition das_list_ids :: "delivery_archive_store \<Rightarrow> uuid list" where
  "das_list_ids s = dict_keys s"

text \<open>The envelope of a domain event; its payload is a JSON object.\<close>

datatype actor_type = AT_HUMAN | AT_AGENT | AT_SERVICE

record event_envelope =
  ee_event_type :: string
  ee_actor_type :: actor_type
  ee_actor_id :: string
  ee_aggregate_type :: string
  ee_aggregate_id :: uuid
  ee_aggregate_version :: int
  ee_payload :: json
  ee_correlation_id :: uuid
  ee_schema_version :: int
  ee_event_id :: uuid
  ee_occurred_at :: datetime
  ee_organization_id :: "uuid option"
  ee_project_id :: "uuid option"
  ee_workstream_id :: "uuid option"
  ee_task_id :: "uuid option"
  ee_run_id :: "uuid option"
  ee_causation_id :: "uuid option"

definition audit_append :: "event_envelope \<Rightarrow> event_envelope list \<Rightarrow> event_envelope list" where
  "audit_append event events = events @ [event]"

subsection \<open>The stores keep their contracts\<close>

interpretation observations: versioned_store DeliveryConflict sos_get sos_update so_id so_version
proof unfold_locales
  fix s :: scm_observation_store and v u :: scm_observation and expected i
  assume "sos_get s (so_id v) = Some u" and "so_version u = expected"
  then show "fst (sos_update v expected s) = Inr () \<and>
      sos_get (snd (sos_update v expected s)) i = (if i = so_id v then Some v else sos_get s i)"
    by (simp add: sos_get_def sos_update_def)
next
  fix s :: scm_observation_store and v :: scm_observation and expected
  assume "\<And>u. sos_get s (so_id v) = Some u \<Longrightarrow> so_version u \<noteq> expected"
  then show "\<exists>m. sos_update v expected s = (Inl (DeliveryConflict m), s)"
    by (auto simp: sos_get_def sos_update_def split: option.splits)
qed

interpretation cursors: versioned_store DeliveryConflict pcs_get "\<lambda>c e. pcs_upsert c (Some e)" pc_key pc_version
proof unfold_locales
  fix s :: scm_poll_cursor_store and v u :: scm_poll_cursor and expected i
  assume "pcs_get s (pc_key v) = Some u" and "pc_version u = expected"
  then show "fst (pcs_upsert v (Some expected) s) = Inr () \<and>
      pcs_get (snd (pcs_upsert v (Some expected) s)) i = (if i = pc_key v then Some v else pcs_get s i)"
    by (simp add: pcs_get_def pcs_upsert_def pc_key_def Let_def)
next
  fix s :: scm_poll_cursor_store and v :: scm_poll_cursor and expected
  assume "\<And>u. pcs_get s (pc_key v) = Some u \<Longrightarrow> pc_version u \<noteq> expected"
  then show "\<exists>m. pcs_upsert v (Some expected) s = (Inl (DeliveryConflict m), s)"
    by (auto simp: pcs_get_def pcs_upsert_def pc_key_def Let_def split: option.splits)
qed

interpretation archives: keyed_store DeliveryConflict das_get das_add dav_delivery_id "\<lambda>_. True" "\<lambda>_ _. True"
  by unfold_locales (auto simp: das_get_def das_add_def split: if_splits)

text \<open>Stored under its own identity and id; every identity names a stored observation.\<close>

definition sos_ok :: "scm_observation_store \<Rightarrow> bool" where
  "sos_ok s \<longleftrightarrow> (\<forall>i p. dict_get (sos_items s) i = Some p \<longrightarrow> so_id p = i) \<and>
     (\<forall>k i. dict_get (sos_identities s) k = Some i \<longrightarrow>
        (\<exists>p. dict_get (sos_items s) i = Some p \<and> so_identity p = k))"

lemma sos_ok_key:
  "sos_ok s \<Longrightarrow> dict_get (sos_identities s) k = Some i \<Longrightarrow>
     \<exists>p. dict_get (sos_items s) i = Some p \<and> so_identity p = k"
  unfolding sos_ok_def by blast

interpretation observation_identities: keyed_store DeliveryConflict sos_get_by_identity sos_add so_identity sos_ok
  "\<lambda>s p. sos_get s (so_id p) = None"
proof unfold_locales
  fix s :: scm_observation_store and v :: scm_observation and k
  assume ok: "sos_ok s" and "sos_get_by_identity s (so_identity v) = None"
    and new: "sos_get s (so_id v) = None"
  then have key: "dict_get (sos_identities s) (so_identity v) = None"
    using sos_ok_key [of s "so_identity v"]
    by (auto simp: sos_get_by_identity_def split: option.splits)
  then have add: "sos_add v s = (Inr (), s\<lparr>sos_items := dict_set (so_id v) v (sos_items s),
      sos_identities := dict_set (so_identity v) (so_id v) (sos_identities s)\<rparr>)"
    by (simp add: sos_add_def so_identity_def Let_def)
  have other: "i \<noteq> so_id v" if "dict_get (sos_identities s) k = Some i" for k i
    using sos_ok_key [OF ok that] new by (auto simp: sos_get_def)
  have "sos_get_by_identity (snd (sos_add v s)) k =
      (if k = so_identity v then Some v else sos_get_by_identity s k)"
    by (simp add: add sos_get_by_identity_def split: option.splits) (use other in blast)
  moreover have "sos_ok (snd (sos_add v s))"
    using ok other unfolding sos_ok_def by (simp add: add)
  ultimately show "fst (sos_add v s) = Inr () \<and> sos_get_by_identity (snd (sos_add v s)) k =
      (if k = so_identity v then Some v else sos_get_by_identity s k) \<and> sos_ok (snd (sos_add v s))"
    by (simp add: add)
next
  fix s :: scm_observation_store and v u :: scm_observation
  assume "sos_get_by_identity s (so_identity v) = Some u"
  then show "\<exists>m. sos_add v s = (Inl (DeliveryConflict m), s)"
    by (auto simp: sos_get_by_identity_def sos_add_def so_identity_def Let_def split: option.splits)
qed

end
