(* ===== verification/SCM_Leases.thy ===== *)
theory SCM_Leases
  imports Delivery_Stores
begin

text \<open>
  The lease protocol of \<open>InMemorySCMCommandStore\<close>: the store as a transition system, its
  invariant, and what the fencing version buys. A worker claims a batch, renews, and accepts or
  fails a command; once somebody else claimed it or it was accepted, the former owner's
  version is refused for good.
\<close>

subsection \<open>The store invariant\<close>

definition scs_ok :: "scm_command_store \<Rightarrow> bool" where
  "scs_ok s \<longleftrightarrow> distinct (dict_keys (scs_items s)) \<and>
     (\<forall>i c. dict_get (scs_items s) i = Some c \<longrightarrow> sc_id c = i \<and> sc_inv c) \<and>
     (\<forall>k i. dict_get (scs_keys s) k = Some i \<longrightarrow>
        (\<exists>c. dict_get (scs_items s) i = Some c \<and> sc_idempotency_key c = k))"

lemma scs_ok_item: "scs_ok s \<Longrightarrow> scs_get s i = Some c \<Longrightarrow> sc_id c = i \<and> sc_inv c"
  by (simp add: scs_ok_def scs_get_def)

lemma scs_ok_key:
  "scs_ok s \<Longrightarrow> dict_get (scs_keys s) k = Some i \<Longrightarrow>
     \<exists>c. dict_get (scs_items s) i = Some c \<and> sc_idempotency_key c = k"
  unfolding scs_ok_def by blast

text \<open>Overwriting a stored command by one with its id and key keeps the store well formed.\<close>

lemma scs_ok_set:
  assumes "scs_ok s" and "scs_get s i = Some c" and "sc_id d = i" and "sc_inv d"
    and "sc_idempotency_key d = sc_idempotency_key c"
  shows "scs_ok (s\<lparr>scs_items := dict_set i d (scs_items s)\<rparr>)"
proof -
  have "\<exists>e. dict_get (dict_set i d (scs_items s)) j = Some e \<and> sc_idempotency_key e = k"
    if "dict_get (scs_keys s) k = Some j" for k j
    using scs_ok_key [OF assms(1) that] assms(2,5) by (auto simp: scs_get_def)
  then show ?thesis using assms(1,3,4) by (auto simp: scs_ok_def)
qed

interpretation command_keys: keyed_store DeliveryConflict scs_get_by_idempotency_key scs_add sc_idempotency_key
  scs_ok "\<lambda>s c. scs_get s (sc_id c) = None \<and> sc_inv c"
proof unfold_locales
  fix s :: scm_command_store and v :: scm_command and k
  assume ok: "scs_ok s" and none: "scs_get_by_idempotency_key s (sc_idempotency_key v) = None"
    and new: "scs_get s (sc_id v) = None \<and> sc_inv v"
  from none have key: "dict_get (scs_keys s) (sc_idempotency_key v) = None"
    using scs_ok_key [OF ok, of "sc_idempotency_key v"]
    by (auto simp: scs_get_by_idempotency_key_def split: option.splits)
  then have add: "scs_add v s = (Inr (), s\<lparr>scs_items := dict_set (sc_id v) v (scs_items s),
      scs_keys := dict_set (sc_idempotency_key v) (sc_id v) (scs_keys s)\<rparr>)"
    by (simp add: scs_add_def)
  have other: "i \<noteq> sc_id v" if "dict_get (scs_keys s) k = Some i" for k i
    using scs_ok_key [OF ok that] new by (auto simp: scs_get_def)
  have "scs_get_by_idempotency_key (snd (scs_add v s)) k =
      (if k = sc_idempotency_key v then Some v else scs_get_by_idempotency_key s k)"
    by (simp add: add scs_get_by_idempotency_key_def split: option.splits) (use other in blast)
  moreover have bound: "\<exists>c. dict_get (dict_set (sc_id v) v (scs_items s)) i = Some c \<and> sc_idempotency_key c = k"
    if "dict_get (dict_set (sc_idempotency_key v) (sc_id v) (scs_keys s)) k = Some i" for k i
    using that other scs_ok_key [OF ok, of k i] by (auto split: if_splits)
  have "scs_ok (snd (scs_add v s))"
    using ok new bound unfolding scs_ok_def add by auto
  ultimately show "fst (scs_add v s) = Inr () \<and> scs_get_by_idempotency_key (snd (scs_add v s)) k =
      (if k = sc_idempotency_key v then Some v else scs_get_by_idempotency_key s k) \<and>
      scs_ok (snd (scs_add v s))"
    by (simp add: add)
next
  fix s :: scm_command_store and v u :: scm_command
  assume "scs_get_by_idempotency_key s (sc_idempotency_key v) = Some u"
  then show "\<exists>m. scs_add v s = (Inl (DeliveryConflict m), s)"
    by (auto simp: scs_get_by_idempotency_key_def scs_add_def split: option.splits)
qed

subsection \<open>Claiming a batch\<close>

lemma sc_claim_ok:
  assumes "sc_dispatchable m t c"
  shows "sc_claim now owner expires c = Inr (c\<lparr>sc_status := SC_PROCESSING,
     sc_attempts := sc_attempts c + 1, sc_claimed_at := Some now, sc_lease_owner := Some owner,
     sc_lease_expires_at := Some expires, sc_last_error := None, sc_version := sc_version c + 1\<rparr>)"
  using assms by (auto simp: sc_dispatchable_def sc_claim_def)

definition sc_claimed :: "datetime \<Rightarrow> string \<Rightarrow> datetime \<Rightarrow> scm_command \<Rightarrow> scm_command" where
  "sc_claimed now owner expires c = c\<lparr>sc_status := SC_PROCESSING,
     sc_attempts := sc_attempts c + 1, sc_claimed_at := Some now, sc_lease_owner := Some owner,
     sc_lease_expires_at := Some expires, sc_last_error := None, sc_version := sc_version c + 1\<rparr>"

text \<open>The commands a claim takes, before they are claimed.\<close>

definition scs_batch :: "int \<Rightarrow> int \<Rightarrow> datetime \<Rightarrow> scm_command_store \<Rightarrow> scm_command list" where
  "scs_batch max_attempts limit now s = py_prefix limit (sort_key sc_created_at
     (filter (sc_dispatchable max_attempts now) (dict_values (scs_items s))))"

lemma scs_batch_mem:
  "c \<in> set (scs_batch max_attempts limit now s) \<Longrightarrow>
     c \<in> set (dict_values (scs_items s)) \<and> sc_dispatchable max_attempts now c"
  using set_py_prefix unfolding scs_batch_def by fastforce

lemma scs_batch_stored:
  "scs_ok s \<Longrightarrow> c \<in> set (scs_batch max_attempts limit now s) \<Longrightarrow> scs_get s (sc_id c) = Some c"
  by (drule scs_batch_mem) (force simp: scs_ok_def scs_get_def)

lemma distinct_values_ids:
  assumes "scs_ok s"
  shows "distinct (map sc_id (dict_values (scs_items s)))"
proof -
  have "sc_id c = i" if "(i, c) \<in> set (scs_items s)" for i c
    using that assms by (simp add: scs_ok_def)
  then have keys: "map sc_id (dict_values (scs_items s)) = dict_keys (scs_items s)" by auto
  show ?thesis unfolding keys using assms by (simp add: scs_ok_def)
qed

lemma scs_batch_distinct:
  assumes "scs_ok s"
  shows "distinct (map sc_id (scs_batch max_attempts limit now s))"
proof -
  have "distinct (map sc_id (filter P (dict_values (scs_items s))))" for P
    using distinct_values_ids [OF assms] by (rule distinct_map_filter)
  then have "distinct (map sc_id (sort_key sc_created_at (filter P (dict_values (scs_items s)))))" for P
    by (simp add: distinct_map)
  then show ?thesis unfolding scs_batch_def
    by (metis distinct_append map_append py_prefix_split)
qed

lemma scs_batch_first:
  assumes "scs_get s i = Some c" and "sc_dispatchable max_attempts now c" and "1 \<le> limit"
    and "c \<notin> set (scs_batch max_attempts limit now s)"
  shows "int (length (scs_batch max_attempts limit now s)) = limit \<and>
    (\<forall>b \<in> set (scs_batch max_attempts limit now s). sc_created_at b \<le> sc_created_at c)"
proof -
  let ?xs = "sort_key sc_created_at (filter (sc_dispatchable max_attempts now) (dict_values (scs_items s)))"
  let ?n = "nat limit"
  have batch: "scs_batch max_attempts limit now s = take ?n ?xs"
    using assms(3) by (simp add: scs_batch_def py_prefix_def)
  have "(i, c) \<in> set (scs_items s)" using assms(1) by (simp add: scs_get_def map_of_SomeD)
  then have "c \<in> set ?xs" using assms(2) by force
  then have later: "c \<in> set (drop ?n ?xs)" using assms(4) unfolding batch by (metis append_take_drop_id Un_iff set_append)
  then have "drop ?n ?xs \<noteq> []" by auto
  then have "?n < length ?xs" by (metis drop_eq_Nil2 not_le)
  moreover have "sorted (map sc_created_at (take ?n ?xs @ drop ?n ?xs))" by (simp del: map_append)
  then have "\<forall>b \<in> set (take ?n ?xs). sc_created_at b \<le> sc_created_at c"
    using later unfolding map_append sorted_append by auto
  ultimately show ?thesis using assms(3) unfolding batch by simp
qed

lemma scs_claim_batch_Inr:
  "scs_claim_batch owner secs max_attempts limit now s = (Inr batch, s1) \<longleftrightarrow>
     validate_scm_lease owner secs limit = Inr () \<and>
     batch = map (sc_claimed now owner (now + seconds secs)) (scs_batch max_attempts limit now s) \<and>
     s1 = s\<lparr>scs_items := dict_update (map (\<lambda>c. (sc_id c, c)) batch) (scs_items s)\<rparr>"
proof -
  have "map_result (sc_claim now owner (now + seconds secs)) (scs_batch max_attempts limit now s) =
      Inr (map (sc_claimed now owner (now + seconds secs)) (scs_batch max_attempts limit now s))"
    unfolding sc_claimed_def
    by (rule map_result_total) (use scs_batch_mem sc_claim_ok in blast)
  then show ?thesis
    unfolding scs_claim_batch_def Let_def scs_batch_def [symmetric]
    by (auto split: sum.splits)
qed

lemma scs_claim_batch_store:
  assumes "scs_ok s" and "scs_claim_batch owner secs max_attempts limit now s = (Inr batch, s1)"
  shows "scs_get s1 i = (case find (\<lambda>c. sc_id c = i) (scs_batch max_attempts limit now s) of
      Some c \<Rightarrow> Some (sc_claimed now owner (now + seconds secs) c) | None \<Rightarrow> scs_get s i)"
proof -
  let ?b = "scs_batch max_attempts limit now s"
  let ?f = "sc_claimed now owner (now + seconds secs)"
  have dist: "distinct (map sc_id ?b)" by (rule scs_batch_distinct [OF assms(1)])
  have id: "sc_id (?f c) = sc_id c" for c by (simp add: sc_claimed_def)
  have "map_of (rev (map (\<lambda>c. (sc_id c, c)) (map ?f ?b))) i =
      map_of (map (\<lambda>c. (sc_id c, c)) (map ?f ?b)) i"
    using dist by (intro fun_cong [OF map_of_inject_set [THEN iffD2]])
      (simp_all add: comp_def id rev_map [symmetric])
  also have "map_of (map (\<lambda>c. (sc_id c, c)) (map ?f b)) i = map_option ?f (find (\<lambda>c. sc_id c = i) b)" for b
    by (induction b) (auto simp: id)
  finally show ?thesis
    using assms(2) by (auto simp: scs_claim_batch_Inr scs_get_def dict_get_update_pairs
        split: option.splits)
qed

subsection \<open>The store as a transition system\<close>

text \<open>Fresh ids are new: \<open>uuid4\<close> never repeats one already stored.\<close>

inductive scs_step :: "scm_command_store \<Rightarrow> scm_command_store \<Rightarrow> bool" where
  add: "c = new_scm_command command i now \<Longrightarrow> scs_get s i = None \<Longrightarrow> scs_add c s = (Inr (), t) \<Longrightarrow>
    scs_step s t"
| claim: "scs_claim_batch owner secs max_attempts limit now s = (Inr batch, t) \<Longrightarrow> scs_step s t"
| renew: "scs_renew i owner version secs checked_at now s = (Inr c, t) \<Longrightarrow> scs_step s t"
| accept: "scs_accept i owner version checked_at now s = (Inr c, t) \<Longrightarrow> scs_step s t"
| failed: "scs_fail i error owner version checked_at s = (Inr c, t) \<Longrightarrow> scs_step s t"

inductive_cases scs_stepE: "scs_step s t"

inductive scs_steps :: "scm_command_store \<Rightarrow> scm_command_store \<Rightarrow> bool" where
  refl: "scs_steps s s"
| step: "scs_steps s t \<Longrightarrow> scs_step t u \<Longrightarrow> scs_steps s u"

definition empty_scm_command_store :: scm_command_store where
  "empty_scm_command_store = \<lparr>scs_items = [], scs_keys = []\<rparr>"

definition scs_reachable :: "scm_command_store \<Rightarrow> bool" where
  "scs_reachable s \<longleftrightarrow> scs_steps empty_scm_command_store s"

lemma scs_owned_Inr:
  "scs_owned i owner version now s = Inr c \<longleftrightarrow>
     scs_get s i = Some c \<and> sc_status c = SC_PROCESSING \<and> sc_lease_owner c = Some owner \<and>
     sc_version c = version \<and> (\<exists>t. sc_lease_expires_at c = Some t \<and> now < t)"
  by (auto simp: scs_owned_def scs_get_def split: option.splits if_splits)

text \<open>What a stored command can turn into: never older, and final once accepted.\<close>

definition sc_later :: "scm_command \<Rightarrow> scm_command \<Rightarrow> bool" where
  "sc_later c d \<longleftrightarrow> sc_version c \<le> sc_version d \<and> (sc_status c = SC_ACCEPTED \<longrightarrow> d = c) \<and>
     sc_idempotency_key d = sc_idempotency_key c \<and> sc_id d = sc_id c"

lemma sc_later_refl [simp]: "sc_later c c"
  by (simp add: sc_later_def)

lemma sc_later_trans: "sc_later c d \<Longrightarrow> sc_later d e \<Longrightarrow> sc_later c e"
  by (auto simp: sc_later_def)

lemma sc_step_later: "sc_step c d \<Longrightarrow> sc_later c d"
  using sc_step_version [of c d] sc_step_identity [of c d] sc_accepted_final [of c d]
  by (auto simp: sc_later_def)

lemma sc_claimed_step: "sc_dispatchable m t c \<Longrightarrow> sc_step c (sc_claimed now owner expires c)"
  using sc_claim_ok [of m t c now owner expires] sc_step.claim by (simp add: sc_claimed_def)

text \<open>Every write but \<open>add\<close> and a batch replaces one owned command.\<close>

lemma scs_single_writes:
  assumes "scs_renew i owner version secs checked_at now s = (Inr d, t) \<or>
    scs_accept i owner version checked_at now s = (Inr d, t) \<or>
    scs_fail i error owner version checked_at s = (Inr d, t)"
  shows "\<exists>c. scs_owned i owner version checked_at s = Inr c \<and>
    t = s\<lparr>scs_items := dict_set i d (scs_items s)\<rparr> \<and>
    (sc_step c d \<or> (\<exists>e. d = c\<lparr>sc_lease_expires_at := Some e\<rparr>))"
  using assms
  by (auto simp: scs_renew_def scs_accept_def scs_fail_def rbind_eq_Inr_iff Let_def
      intro: sc_step.intros split: sum.splits if_splits)

lemma scs_step_single:
  assumes "scs_ok s" and "scs_owned i owner version checked_at s = Inr c"
    and "sc_step c d \<or> (\<exists>e. d = c\<lparr>sc_lease_expires_at := Some e\<rparr>)"
  shows "sc_later c d \<and> sc_inv d \<and> scs_ok (s\<lparr>scs_items := dict_set i d (scs_items s)\<rparr>)"
proof -
  from assms(2) have get: "scs_get s i = Some c" and st: "sc_status c = SC_PROCESSING"
    by (simp_all add: scs_owned_Inr)
  then have c: "sc_id c = i" "sc_inv c" using scs_ok_item [OF assms(1)] by blast+
  have later: "sc_later c d"
    using assms(3) st by (auto simp: sc_later_def dest: sc_step_later)
  moreover have inv: "sc_inv d"
    using assms(3) c(2) st by (auto dest: sc_step_inv simp: sc_inv_def)
  ultimately show ?thesis
    using scs_ok_set [OF assms(1) get _ inv] c(1) by (simp add: sc_later_def)
qed

lemma scs_step_ok:
  assumes "scs_step s t" and ok: "scs_ok s"
  shows "scs_ok t \<and> (\<forall>i c. scs_get s i = Some c \<longrightarrow> (\<exists>d. scs_get t i = Some d \<and> sc_later c d))"
  using assms(1)
proof (cases rule: scs_step.cases)
  case (add c command i now)
  have "sc_inv c" unfolding add(1) by (rule sc_inv_new)
  moreover have "sc_id c = i" using add(1) by (simp add: new_scm_command_def)
  ultimately have "scs_ok t" using add(2) command_keys.add_Inr_bound [OF ok _ add(3)] by simp
  moreover have "scs_get t j = (if j = i then Some c else scs_get s j)" for j
    using add(3) \<open>sc_id c = i\<close> by (auto simp: scs_add_def scs_get_def split: if_splits)
  ultimately show ?thesis using add(2) by auto
next
  case (claim owner secs max_attempts limit now batch)
  let ?b = "scs_batch max_attempts limit now s"
  let ?f = "sc_claimed now owner (now + seconds secs)"
  have store: "scs_get t i = (case find (\<lambda>c. sc_id c = i) ?b of
      Some c \<Rightarrow> Some (?f c) | None \<Rightarrow> scs_get s i)" for i
    by (rule scs_claim_batch_store [OF ok claim])
  have found: "scs_get s i = Some c \<and> sc_step c (?f c)" if "find (\<lambda>c. sc_id c = i) ?b = Some c" for i c
    using find_SomeD [OF that] scs_batch_stored [OF ok] scs_batch_mem sc_claimed_step by blast
  have later: "\<exists>d. scs_get t i = Some d \<and> sc_later c d" if "scs_get s i = Some c" for i c
    using that found [of i] sc_step_later by (auto simp: store split: option.splits)
  have item: "sc_id d = i \<and> sc_inv d" if "scs_get t i = Some d" for i d
  proof (cases "find (\<lambda>c. sc_id c = i) ?b")
    case None
    with that scs_ok_item [OF ok] show ?thesis by (simp add: store)
  next
    case (Some c)
    with found [OF this] that scs_ok_item [OF ok, of i c] sc_step_inv [of c d] sc_step_identity [of c d]
    show ?thesis by (simp add: store)
  qed
  from claim have t: "t = s\<lparr>scs_items := dict_update (map (\<lambda>c. (sc_id c, c)) batch) (scs_items s)\<rparr>"
    by (simp add: scs_claim_batch_Inr)
  have "\<exists>d. dict_get (scs_items t) i = Some d \<and> sc_idempotency_key d = k"
    if "dict_get (scs_keys t) k = Some i" for k i
  proof -
    from that t have "dict_get (scs_keys s) k = Some i" by simp
    from scs_ok_key [OF ok this] obtain c where "scs_get s i = Some c" "sc_idempotency_key c = k"
      by (auto simp: scs_get_def)
    with later [of i c] show ?thesis by (auto simp: scs_get_def sc_later_def)
  qed
  moreover have "distinct (dict_keys (scs_items t))"
    using ok by (simp add: t scs_ok_def distinct_dict_update)
  ultimately have "scs_ok t" using item unfolding scs_ok_def scs_get_def by blast
  with later show ?thesis by blast
next
  case (renew i owner version secs checked_at now c)
  then show ?thesis using scs_single_writes [of i owner version secs checked_at now s c t]
      scs_step_single [OF ok] by (fastforce simp: scs_get_def scs_owned_Inr)
next
  case (accept i owner version checked_at now c)
  then show ?thesis using scs_single_writes [of i owner version _ checked_at now s c t]
      scs_step_single [OF ok] by (fastforce simp: scs_get_def scs_owned_Inr)
next
  case (failed i error owner version checked_at c)
  then show ?thesis using scs_single_writes [of i owner version _ checked_at _ s c t error]
      scs_step_single [OF ok] by (fastforce simp: scs_get_def scs_owned_Inr)
qed

lemma scs_steps_ok:
  "scs_steps s t \<Longrightarrow> scs_ok s \<Longrightarrow>
     scs_ok t \<and> (\<forall>i c. scs_get s i = Some c \<longrightarrow> (\<exists>d. scs_get t i = Some d \<and> sc_later c d))"
proof (induction rule: scs_steps.induct)
  case (step s t u)
  then have "scs_ok t" and later: "\<And>i c. scs_get s i = Some c \<Longrightarrow> \<exists>d. scs_get t i = Some d \<and> sc_later c d"
    by blast+
  from scs_step_ok [OF step.hyps(2) this(1)] later sc_later_trans show ?case by meson
qed simp

lemma scs_ok_empty: "scs_ok empty_scm_command_store"
  by (simp add: empty_scm_command_store_def scs_ok_def)

lemma scs_reachable_ok: "scs_reachable s \<Longrightarrow> scs_ok s"
  using scs_steps_ok [OF _ scs_ok_empty] unfolding scs_reachable_def by blast

lemma scs_not_owned:
  assumes "\<And>c. scs_get s i = Some c \<Longrightarrow>
    sc_status c \<noteq> SC_PROCESSING \<or> sc_lease_owner c \<noteq> Some owner \<or> sc_version c \<noteq> version"
  shows "\<exists>m. scs_owned i owner version now s = Inl (DeliveryConflict m)"
  using assms by (auto simp: scs_owned_def scs_get_def split: option.splits)

text \<open>Refused by \<open>_owned\<close>, so refused by every method that asks it, without a write.\<close>

definition scs_refused :: "uuid \<Rightarrow> string \<Rightarrow> int \<Rightarrow> scm_command_store \<Rightarrow> bool" where
  "scs_refused i owner version s \<longleftrightarrow>
     (\<forall>t now. \<exists>m. scs_accept i owner version t now s = (Inl (DeliveryConflict m), s)) \<and>
     (\<forall>t error. \<exists>m. scs_fail i error owner version t s = (Inl (DeliveryConflict m), s)) \<and>
     (\<forall>secs t now. \<exists>e. scs_renew i owner version secs t now s = (Inl e, s))"

lemma scs_refusedI:
  assumes "\<And>now. \<exists>m. scs_owned i owner version now s = Inl (DeliveryConflict m)"
  shows "scs_refused i owner version s"
proof -
  have 1: "\<exists>m. scs_accept i owner version t now s = (Inl (DeliveryConflict m), s)" for t now
    using assms [of t] by (auto simp: scs_accept_def)
  have 2: "\<exists>m. scs_fail i error owner version t s = (Inl (DeliveryConflict m), s)" for error t
    using assms [of t] by (auto simp: scs_fail_def)
  have 3: "\<exists>e. scs_renew i owner version secs t now s = (Inl e, s)" for secs t now
    using assms [of t] by (auto simp: scs_renew_def rbind_def split: sum.splits)
  show ?thesis unfolding scs_refused_def using 1 2 3 by blast
qed

lemma scs_claim_batch_get:
  assumes "scs_ok s" and "scs_claim_batch owner secs max_attempts limit now s = (Inr batch, t)"
    and "d \<in> set batch"
  shows "\<exists>c. scs_get s (sc_id d) = Some c \<and> sc_dispatchable max_attempts now c \<and>
    d = sc_claimed now owner (now + seconds secs) c \<and> scs_get t (sc_id d) = Some d"
proof -
  let ?b = "scs_batch max_attempts limit now s"
  from assms(2,3) obtain c where c: "c \<in> set ?b" and d: "d = sc_claimed now owner (now + seconds secs) c"
    by (auto simp: scs_claim_batch_Inr)
  have id: "sc_id d = sc_id c" by (simp add: d sc_claimed_def)
  have "find (\<lambda>x. sc_id x = sc_id c) ?b = Some c"
    by (rule find_unique_key [OF scs_batch_distinct [OF assms(1)] c])
  then have "scs_get t (sc_id d) = Some d"
    using scs_claim_batch_store [OF assms(1,2), of "sc_id c"] by (simp add: id [unfolded d] d)
  with c d id scs_batch_stored [OF assms(1) c] scs_batch_mem [OF c] show ?thesis by simp
qed

subsection \<open>A sample run\<close>

definition sample_enqueue :: enqueue_scm_command where
  "sample_enqueue = \<lparr>esc_change_set_id = 9, esc_repository_id = 1, esc_kind = CK_MERGE_PULL_REQUEST,
     esc_idempotency_key = ''k'', esc_payload = JObject []\<rparr>"

definition sample_command :: scm_command where
  "sample_command = new_scm_command sample_enqueue 5 0"

definition sample_first :: scm_command where
  "sample_first = sc_claimed 0 ''a'' (0 + seconds 10) sample_command"

definition sample_second :: scm_command where
  "sample_second = sc_claimed (seconds 20) ''b'' (seconds 20 + seconds 10) sample_first"

definition sample_store :: "scm_command \<Rightarrow> scm_command_store" where
  "sample_store c = \<lparr>scs_items = [(5, c)], scs_keys = [(''k'', 5)]\<rparr>"

lemmas sample_command_defs =
  sample_command_def sample_first_def sample_second_def new_scm_command_def sc_claimed_def
  sample_enqueue_def

lemma sample_lease [simp]:
  "validate_scm_lease ''a'' 10 1 = Inr ()" "validate_scm_lease ''b'' 10 1 = Inr ()"
  by (simp_all add: validate_scm_lease_def py_strip_def py_isspace_def)

lemma sample_run:
  "scs_reachable (sample_store sample_command)"
  "scs_claim_batch ''a'' 10 3 1 0 (sample_store sample_command) =
     (Inr [sample_first], sample_store sample_first)"
  "scs_claim_batch ''b'' 10 3 1 (seconds 20) (sample_store sample_first) =
     (Inr [sample_second], sample_store sample_second)"
proof -
  have "scs_add (new_scm_command sample_enqueue 5 0) empty_scm_command_store = (Inr (), sample_store sample_command)"
    by (simp add: scs_add_def empty_scm_command_store_def sample_store_def sample_command_defs)
  moreover have "scs_get empty_scm_command_store 5 = None"
    by (simp add: scs_get_def empty_scm_command_store_def)
  ultimately show "scs_reachable (sample_store sample_command)"
    unfolding scs_reachable_def by (blast intro: scs_steps.intros scs_step.add)
  have "scs_batch 3 1 0 (sample_store sample_command) = [sample_command]"
    by (simp add: scs_batch_def sample_store_def sc_dispatchable_def sample_command_defs py_prefix_def)
  then show "scs_claim_batch ''a'' 10 3 1 0 (sample_store sample_command) =
     (Inr [sample_first], sample_store sample_first)"
    by (simp add: scs_claim_batch_Inr sample_first_def sample_store_def)
      (simp add: sample_command_defs)
  have "scs_batch 3 1 (seconds 20) (sample_store sample_first) = [sample_first]"
    by (simp add: scs_batch_def sample_store_def sc_dispatchable_def sample_command_defs py_prefix_def
        seconds_def)
  then show "scs_claim_batch ''b'' 10 3 1 (seconds 20) (sample_store sample_first) =
     (Inr [sample_second], sample_store sample_second)"
    by (simp add: scs_claim_batch_Inr sample_second_def sample_store_def)
      (simp add: sample_command_defs)
qed

lemma sample_get [simp]: "scs_get (sample_store c) 5 = Some c"
  by (simp add: scs_get_def sample_store_def)

lemma sample_reachable_first:
  "scs_reachable (sample_store sample_first)" "scs_reachable (sample_store sample_second)"
proof -
  have 1: "scs_step (sample_store sample_command) (sample_store sample_first)"
    using sample_run(2) by (rule scs_step.claim)
  then show first: "scs_reachable (sample_store sample_first)"
    using sample_run(1) unfolding scs_reachable_def by (rule scs_steps.step [rotated])
  have "scs_step (sample_store sample_first) (sample_store sample_second)"
    using sample_run(3) by (rule scs_step.claim)
  then show "scs_reachable (sample_store sample_second)"
    using first unfolding scs_reachable_def by (rule scs_steps.step [rotated])
qed

subsection \<open>Properties\<close>

text \<open>C15: A claim hands out commands that are free: they have attempts left and wait, have failed, or
  are processed under a lease that is missing or has run out. It hands out at most \<open>limit\<close> of them,
  each once, the oldest first, and leaves a free command out only when \<open>limit\<close> others, none of them
  younger, were handed out. Each is stored as processed by the claimant until its new lease ends,
  with one more attempt and the next version; every other command is left as it was.\<close>

theorem claim_batch_correct:
  assumes "scs_reachable s"
    and "scs_claim_batch owner secs max_attempts limit now s = (Inr batch, t)"
  shows "int (length batch) \<le> limit \<and> distinct (map sc_id batch) \<and> sorted (map sc_created_at batch) \<and>
    (\<forall>d \<in> set batch. \<exists>c. scs_get s (sc_id d) = Some c \<and> sc_attempts c < max_attempts \<and>
       (sc_status c = SC_PENDING \<or> sc_status c = SC_FAILED \<or>
        sc_status c = SC_PROCESSING \<and> (\<forall>expiry. sc_lease_expires_at c = Some expiry \<longrightarrow> expiry \<le> now)) \<and>
       scs_get t (sc_id d) = Some d \<and> sc_status d = SC_PROCESSING \<and> sc_lease_owner d = Some owner \<and>
       sc_lease_expires_at d = Some (now + seconds secs) \<and>
       sc_attempts d = sc_attempts c + 1 \<and> sc_version d = sc_version c + 1) \<and>
    (\<forall>i c. scs_get s i = Some c \<and> i \<notin> set (map sc_id batch) \<longrightarrow> scs_get t i = Some c \<and>
       (sc_attempts c < max_attempts \<and>
        (sc_status c = SC_PENDING \<or> sc_status c = SC_FAILED \<or>
         sc_status c = SC_PROCESSING \<and> (\<forall>expiry. sc_lease_expires_at c = Some expiry \<longrightarrow> expiry \<le> now)) \<longrightarrow>
        int (length batch) = limit \<and> (\<forall>d \<in> set batch. sc_created_at d \<le> sc_created_at c)))"
proof -
  note ok = scs_reachable_ok [OF assms(1)]
  let ?b = "scs_batch max_attempts limit now s"
  let ?f = "sc_claimed now owner (now + seconds secs)"
  from assms(2) have batch: "batch = map ?f ?b" and valid: "validate_scm_lease owner secs limit = Inr ()"
    by (simp_all add: scs_claim_batch_Inr)
  have f: "sc_id (?f c) = sc_id c" "sc_created_at (?f c) = sc_created_at c" for c
    by (simp_all add: sc_claimed_def)
  have free: "sc_dispatchable max_attempts now c \<longleftrightarrow> sc_attempts c < max_attempts \<and>
      (sc_status c = SC_PENDING \<or> sc_status c = SC_FAILED \<or>
       sc_status c = SC_PROCESSING \<and> (\<forall>expiry. sc_lease_expires_at c = Some expiry \<longrightarrow> expiry \<le> now))" for c
    by (auto simp: sc_dispatchable_def split: option.splits)
  have ids: "map sc_id batch = map sc_id ?b" by (simp add: batch f comp_def)
  from valid have limit: "1 \<le> limit" by (simp add: validate_scm_lease_def split: if_splits)
  then have len: "int (length batch) \<le> limit"
    using length_py_prefix [of limit] by (simp add: batch scs_batch_def)
  have "sorted (map sc_created_at (sort_key sc_created_at xs))" for xs by (rule sorted_sort_key)
  then have "sorted (map sc_created_at ?b)"
    unfolding scs_batch_def by (metis map_append py_prefix_split sorted_append)
  then have sorted: "sorted (map sc_created_at batch)" by (simp add: batch f comp_def)
  have taken: "\<exists>c. scs_get s (sc_id d) = Some c \<and> sc_dispatchable max_attempts now c \<and>
      scs_get t (sc_id d) = Some d \<and> sc_status d = SC_PROCESSING \<and> sc_lease_owner d = Some owner \<and>
      sc_lease_expires_at d = Some (now + seconds secs) \<and>
      sc_attempts d = sc_attempts c + 1 \<and> sc_version d = sc_version c + 1" if "d \<in> set batch" for d
    using scs_claim_batch_get [OF ok assms(2) that] by (auto simp: sc_claimed_def)
  have left: "scs_get t i = Some c \<and> (sc_dispatchable max_attempts now c \<longrightarrow> int (length batch) = limit \<and>
      (\<forall>d \<in> set batch. sc_created_at d \<le> sc_created_at c))"
    if "scs_get s i = Some c" "i \<notin> set (map sc_id batch)" for i c
  proof -
    have "i \<notin> set (map sc_id ?b)" using that(2) unfolding ids .
    moreover have "sc_id c = i" using scs_ok_item [OF ok that(1)] by simp
    ultimately have "find (\<lambda>c. sc_id c = i) ?b = None" and "c \<notin> set ?b"
      by (auto simp: find_None_iff image_iff)
    then show ?thesis using scs_batch_first [OF that(1) _ limit] that(1)
      by (auto simp: scs_claim_batch_store [OF ok assms(2)] batch f)
  qed
  have distinct: "distinct (map sc_id batch)" unfolding ids by (rule scs_batch_distinct [OF ok])
  note taken = taken [unfolded free] and left = left [unfolded free]
  show ?thesis by (intro conjI) (use len sorted distinct taken left in blast)+
qed

theorem claim_batch_correct_witness:
  "sc_lease_owner sample_first = Some ''a'' \<and> sc_version sample_first = sc_version sample_command + 1 \<and>
   scs_get (sample_store sample_first) 5 = Some sample_first"
proof -
  have "sc_id sample_first = 5" by (simp add: sample_command_defs)
  with claim_batch_correct [OF sample_run(1,2)] show ?thesis by simp
qed

text \<open>C16: Once another worker claimed a command, the version the former owner holds is refused by
  \<open>accept\<close>, \<open>fail\<close> and \<open>renew\<close> at any later time, whatever happened in between, and the
  refused call writes nothing.\<close>

theorem stale_owner_fenced_off:
  assumes "scs_reachable s" and "scs_get s i = Some c"
    and "scs_claim_batch owner secs max_attempts limit now s = (Inr batch, s1)"
    and "i \<in> set (map sc_id batch)" and "scs_steps s1 t"
  shows "scs_refused i former_owner (sc_version c) t"
proof -
  note ok = scs_reachable_ok [OF assms(1)]
  from assms(4) obtain d where d: "d \<in> set batch" "sc_id d = i" by auto
  with scs_claim_batch_get [OF ok assms(3) d(1)] assms(2)
  have s1: "scs_get s1 i = Some d" and "sc_version d = sc_version c + 1"
    by (auto simp: sc_claimed_def)
  have "scs_ok s1" using scs_step_ok [OF scs_step.claim [OF assms(3)] ok] by blast
  with scs_steps_ok [OF assms(5)] s1 obtain e where "scs_get t i = Some e" "sc_later d e" by blast
  with \<open>sc_version d = sc_version c + 1\<close> show ?thesis
    by (intro scs_refusedI scs_not_owned) (auto simp: sc_later_def)
qed

theorem stale_owner_fenced_off_witness:
  "\<exists>m. scs_accept 5 ''a'' 2 (seconds 21) (seconds 21) (sample_store sample_second) =
     (Inl (DeliveryConflict m), sample_store sample_second)"
proof -
  have "5 \<in> set (map sc_id [sample_second])" by (simp add: sample_command_defs)
  from stale_owner_fenced_off [OF sample_reachable_first(1) sample_get sample_run(3) this scs_steps.refl,
      of "''a''"]
  have "scs_refused 5 ''a'' 2 (sample_store sample_second)" by (simp add: sample_command_defs)
  then show ?thesis by (simp add: scs_refused_def)
qed

text \<open>C17: An accepted command stays accepted, unchanged: it is never claimed again, and no worker
  can accept, fail or renew it a second time.\<close>

theorem accepted_exactly_once:
  assumes "scs_reachable s" and "scs_accept i owner version checked_at now s = (Inr d, s1)"
    and "scs_steps s1 t"
  shows "scs_get t i = Some d \<and> sc_status d = SC_ACCEPTED \<and> scs_refused i any_owner any_version t \<and>
    (\<forall>worker secs max_attempts limit later batch u.
       scs_claim_batch worker secs max_attempts limit later t = (Inr batch, u)
       \<longrightarrow> i \<notin> set (map sc_id batch))"
proof -
  note ok = scs_reachable_ok [OF assms(1)]
  from assms(2) obtain c where c: "scs_owned i owner version checked_at s = Inr c"
    and acc: "sc_accept now c = Inr d" and s1: "s1 = s\<lparr>scs_items := dict_set i d (scs_items s)\<rparr>"
    by (auto simp: scs_accept_def rbind_eq_Inr_iff split: sum.splits)
  from acc have d: "sc_status d = SC_ACCEPTED" by (auto simp: sc_accept_def split: if_splits)
  have "scs_ok s1" using scs_step_ok [OF scs_step.accept [OF assms(2)] ok] by blast
  moreover have "scs_get s1 i = Some d" by (simp add: scs_get_def s1)
  ultimately obtain e where "scs_get t i = Some e" "sc_later d e" and okt: "scs_ok t"
    using scs_steps_ok [OF assms(3)] by blast
  with d have t: "scs_get t i = Some d" by (simp add: sc_later_def)
  moreover have "scs_refused i any_owner any_version t"
    using t d by (intro scs_refusedI scs_not_owned) simp
  moreover have "i \<notin> set (map sc_id batch)"
    if "scs_claim_batch worker secs max_attempts limit later t = (Inr batch, u)"
    for worker secs max_attempts limit later batch u
  proof
    assume "i \<in> set (map sc_id batch)"
    then obtain e where "e \<in> set batch" "sc_id e = i" by auto
    with scs_claim_batch_get [OF okt that this(1)] t have "sc_dispatchable max_attempts later d" by auto
    with d show False by (auto simp: sc_dispatchable_def)
  qed
  ultimately show ?thesis using d by blast
qed

definition sample_done :: scm_command where
  "sample_done = sample_second\<lparr>sc_status := SC_ACCEPTED, sc_completed_at := Some (seconds 25),
     sc_lease_owner := None, sc_lease_expires_at := None, sc_last_error := None, sc_version := 4\<rparr>"

theorem accepted_exactly_once_witness:
  "scs_accept 5 ''b'' 3 (seconds 25) (seconds 25) (sample_store sample_second) =
     (Inr sample_done, sample_store sample_done) \<and>
   scs_refused 5 ''b'' 4 (sample_store sample_done)"
proof -
  have accept: "scs_accept 5 ''b'' 3 (seconds 25) (seconds 25) (sample_store sample_second) =
      (Inr sample_done, sample_store sample_done)"
    by (simp add: scs_accept_def scs_owned_def sample_store_def sample_done_def sample_command_defs
        seconds_def sc_accept_def)
  with accepted_exactly_once [OF sample_reachable_first(2) accept scs_steps.refl] show ?thesis
    by blast
qed

end
