(* ===== verification/SCM_Services.thy ===== *)
theory SCM_Services
  imports SCM_Leases
begin

text \<open>
  The application services over the three source-control stores
  (\<open>modules/delivery/application.py\<close>): \<open>SCMCommandService\<close>,
  \<open>SCMPollCursorService\<close> and \<open>SCMObservationService\<close>. A method is a procedure over
  its store; where it calls the store twice, \<open>env\<close> is what other tasks did to the store
  between the calls.
\<close>

subsection \<open>SCMCommandService\<close>

record scm_command_service =
  scv_lease_seconds :: int
  scv_max_attempts :: int

definition scm_enqueue ::
    "enqueue_scm_command \<Rightarrow> uuid \<Rightarrow> datetime \<Rightarrow> (scm_command_store \<Rightarrow> scm_command_store)
     \<Rightarrow> (scm_command_store, scm_command_view) proc" where
  "scm_enqueue command i now env =
     pbind (pget (\<lambda>s. scs_get_by_idempotency_key s (esc_idempotency_key command))) (\<lambda>existing.
     case existing of
       Some e \<Rightarrow>
         if sc_change_set_id e \<noteq> esc_change_set_id command \<or>
            sc_repository_id e \<noteq> esc_repository_id command \<or> sc_kind e \<noteq> esc_kind command \<or>
            \<not> json_eq (sc_payload e) (esc_payload command)
         then praise (DeliveryConflict ''SCM command idempotency key changed meaning'')
         else preturn (sc_to_view e)
     | None \<Rightarrow>
         let created = new_scm_command command i now
         in pbind (pwait env) (\<lambda>_.
            ptry_conflict
              (pbind (scs_add created) (\<lambda>_. preturn (sc_to_view created)))
              (\<lambda>error. pbind (pget (\<lambda>s. scs_get_by_idempotency_key s (esc_idempotency_key command)))
                (\<lambda>existing. case existing of None \<Rightarrow> praise error | Some e \<Rightarrow> preturn (sc_to_view e)))))"

definition scm_claim_batch ::
    "scm_command_service \<Rightarrow> string \<Rightarrow> int \<Rightarrow> datetime \<Rightarrow> (scm_command_store, scm_command_view list) proc" where
  "scm_claim_batch service lease_owner limit now =
     pbind (scs_claim_batch lease_owner (scv_lease_seconds service) (scv_max_attempts service) limit now)
       (\<lambda>claimed. preturn (map sc_to_view claimed))"

definition scm_renew ::
    "scm_command_service \<Rightarrow> uuid \<Rightarrow> string \<Rightarrow> int \<Rightarrow> datetime \<Rightarrow> datetime
     \<Rightarrow> (scm_command_store, scm_command_view) proc" where
  "scm_renew service command_id lease_owner fencing_version checked_at now =
     pbind (scs_renew command_id lease_owner fencing_version (scv_lease_seconds service) checked_at now)
       (\<lambda>renewed. preturn (sc_to_view renewed))"

definition scm_accept ::
    "uuid \<Rightarrow> string \<Rightarrow> int \<Rightarrow> datetime \<Rightarrow> datetime \<Rightarrow> (scm_command_store, scm_command_view) proc" where
  "scm_accept command_id lease_owner fencing_version checked_at now =
     pbind (scs_accept command_id lease_owner fencing_version checked_at now)
       (\<lambda>accepted. preturn (sc_to_view accepted))"

definition scm_fail ::
    "uuid \<Rightarrow> string \<Rightarrow> string \<Rightarrow> int \<Rightarrow> datetime \<Rightarrow> (scm_command_store, scm_command_view) proc" where
  "scm_fail command_id error lease_owner fencing_version checked_at =
     pbind (scs_fail command_id error lease_owner fencing_version checked_at)
       (\<lambda>failed. preturn (sc_to_view failed))"

definition scm_list_dispatchable ::
    "scm_command_service \<Rightarrow> int \<Rightarrow> datetime \<Rightarrow> (scm_command_store, scm_command_view list) proc" where
  "scm_list_dispatchable service limit now =
     pget (\<lambda>s. map sc_to_view (scs_list_dispatchable (scv_max_attempts service) limit now s))"

subsection \<open>SCMPollCursorService\<close>

definition poll_due :: "uuid \<Rightarrow> uuid \<Rightarrow> datetime \<Rightarrow> scm_poll_cursor_store \<Rightarrow> bool" where
  "poll_due change_set_id repository_id now s =
     (case pcs_get s (change_set_id, repository_id) of
        None \<Rightarrow> True | Some cursor \<Rightarrow> pc_next_poll_at cursor \<le> now)"

definition poll_succeed ::
    "int \<Rightarrow> uuid \<Rightarrow> uuid \<Rightarrow> datetime \<Rightarrow> (scm_poll_cursor_store \<Rightarrow> scm_poll_cursor_store)
     \<Rightarrow> (scm_poll_cursor_store, unit) proc" where
  "poll_succeed interval_seconds change_set_id repository_id now env =
     pbind (pget (\<lambda>s. pcs_get s (change_set_id, repository_id))) (\<lambda>found.
     let current = (case found of None \<Rightarrow> new_scm_poll_cursor change_set_id repository_id now
                    | Some c \<Rightarrow> c);
         expected = map_option pc_version found
     in pbind (pwait env) (\<lambda>_. pcs_upsert (pc_succeed now interval_seconds current) expected))"

definition poll_fail ::
    "int \<Rightarrow> uuid \<Rightarrow> uuid \<Rightarrow> string \<Rightarrow> int option \<Rightarrow> datetime
     \<Rightarrow> (scm_poll_cursor_store \<Rightarrow> scm_poll_cursor_store) \<Rightarrow> (scm_poll_cursor_store, unit) proc" where
  "poll_fail interval_seconds change_set_id repository_id error retry_after now env =
     pbind (pget (\<lambda>s. pcs_get s (change_set_id, repository_id))) (\<lambda>found.
     let current = (case found of None \<Rightarrow> new_scm_poll_cursor change_set_id repository_id now
                    | Some c \<Rightarrow> c);
         expected = map_option pc_version found
     in pbind (pwait env) (\<lambda>_.
          pcs_upsert (pc_fail now error interval_seconds retry_after current) expected))"

subsection \<open>SCMObservationService\<close>

record scm_observation_service =
  obs_lease_timeout :: int
  obs_max_attempts :: int

definition new_scm_observation_service :: "int \<Rightarrow> int \<Rightarrow> scm_observation_service result" where
  "new_scm_observation_service lease_timeout max_attempts =
     (if lease_timeout \<le> 0 \<or> max_attempts < 1
      then Inl (ValueError ''observation retry policy must be positive'')
      else Inr \<lparr>obs_lease_timeout = lease_timeout, obs_max_attempts = max_attempts\<rparr>)"

definition obs_identity :: "record_scm_observation_command \<Rightarrow> string \<times> string \<times> string" where
  "obs_identity command =
     (py_lower (py_strip (rso_provider command)),
      scm_observation_source_value (rso_source command), py_strip (rso_external_id command))"

definition validate_duplicate ::
    "scm_observation \<Rightarrow> record_scm_observation_command \<Rightarrow> unit result" where
  "validate_duplicate existing command =
     (if so_payload_hash existing = py_lower (py_strip (rso_payload_hash command)) \<and>
         so_event_type existing = py_lower (py_strip (rso_event_type command)) \<and>
         so_change_set_id existing = rso_change_set_id command \<and>
         so_repository_id existing = rso_repository_id command
      then Inr ()
      else Inl (DeliveryConflict ''SCM observation identity was reused for another external fact''))"

definition observation_of :: "record_scm_observation_command \<Rightarrow> uuid \<Rightarrow> datetime \<Rightarrow> scm_observation result" where
  "observation_of command i now = so_post_init
     \<lparr>so_provider = py_lower (py_strip (rso_provider command)), so_source = rso_source command,
      so_external_id = py_strip (rso_external_id command),
      so_event_type = py_lower (py_strip (rso_event_type command)), so_payload = rso_payload command,
      so_payload_hash = py_lower (py_strip (rso_payload_hash command)),
      so_observed_at = rso_observed_at command, so_change_set_id = rso_change_set_id command,
      so_repository_id = rso_repository_id command, so_id = i, so_status = SO_PENDING,
      so_attempts = 0, so_version = 1, so_last_error = None, so_received_at = now,
      so_claimed_at = None, so_processed_at = None\<rparr>"

definition obs_record ::
    "record_scm_observation_command \<Rightarrow> uuid \<Rightarrow> datetime
     \<Rightarrow> (scm_observation_store \<Rightarrow> scm_observation_store)
     \<Rightarrow> (scm_observation_store, recorded_scm_observation) proc" where
  "obs_record command i now env =
     pbind (pget (\<lambda>s. sos_get_by_identity s (obs_identity command))) (\<lambda>existing.
     case existing of
       Some e \<Rightarrow> pbind (plift (validate_duplicate e command)) (\<lambda>_.
         preturn \<lparr>ros_observation = so_to_view e, ros_created = False\<rparr>)
     | None \<Rightarrow>
         pbind (plift (observation_of command i now)) (\<lambda>observation.
         pbind (pwait env) (\<lambda>_.
         ptry_conflict
           (pbind (sos_add observation) (\<lambda>_.
              preturn \<lparr>ros_observation = so_to_view observation, ros_created = True\<rparr>))
           (\<lambda>error. pbind (pget (\<lambda>s. sos_get_by_identity s (so_identity observation))) (\<lambda>existing.
              case existing of
                None \<Rightarrow> praise error
              | Some e \<Rightarrow> pbind (plift (validate_duplicate e command)) (\<lambda>_.
                  preturn \<lparr>ros_observation = so_to_view e, ros_created = False\<rparr>))))))"

definition obs_required :: "uuid \<Rightarrow> (scm_observation_store, scm_observation) proc" where
  "obs_required observation_id =
     pbind (pget (\<lambda>s. sos_get s observation_id)) (\<lambda>found.
     case found of
       None \<Rightarrow> praise (DeliveryNotFound (''SCM observation not found: '' @ uuid_str observation_id))
     | Some p \<Rightarrow> preturn p)"

definition obs_get :: "uuid \<Rightarrow> (scm_observation_store, scm_observation_view) proc" where
  "obs_get observation_id = pbind (obs_required observation_id) (\<lambda>p. preturn (so_to_view p))"

definition obs_claim ::
    "scm_observation_service \<Rightarrow> uuid \<Rightarrow> datetime \<Rightarrow> (scm_observation_store \<Rightarrow> scm_observation_store)
     \<Rightarrow> (scm_observation_store, scm_observation_view option) proc" where
  "obs_claim service observation_id now env =
     pbind (obs_required observation_id) (\<lambda>p.
     if \<not> so_is_claimable now (obs_lease_timeout service) (obs_max_attempts service) p
     then preturn None
     else pbind (plift (so_claim now p)) (\<lambda>claimed.
          pbind (pwait env) (\<lambda>_.
          pbind (sos_update claimed (so_version p)) (\<lambda>_. preturn (Some (so_to_view claimed))))))"

definition obs_complete ::
    "uuid \<Rightarrow> datetime \<Rightarrow> (scm_observation_store \<Rightarrow> scm_observation_store)
     \<Rightarrow> (scm_observation_store, scm_observation_view) proc" where
  "obs_complete observation_id now env =
     pbind (obs_required observation_id) (\<lambda>p.
     pbind (plift (so_complete now p)) (\<lambda>completed.
     pbind (pwait env) (\<lambda>_.
     pbind (sos_update completed (so_version p)) (\<lambda>_. preturn (so_to_view completed)))))"

definition obs_fail ::
    "uuid \<Rightarrow> string \<Rightarrow> (scm_observation_store \<Rightarrow> scm_observation_store)
     \<Rightarrow> (scm_observation_store, scm_observation_view) proc" where
  "obs_fail observation_id error env =
     pbind (obs_required observation_id) (\<lambda>p.
     pbind (plift (so_fail error p)) (\<lambda>failed.
     pbind (pwait env) (\<lambda>_.
     pbind (sos_update failed (so_version p)) (\<lambda>_. preturn (so_to_view failed)))))"

definition obs_list_replayable ::
    "scm_observation_service \<Rightarrow> int \<Rightarrow> datetime \<Rightarrow> (scm_observation_store, scm_observation_view list) proc" where
  "obs_list_replayable service limit now =
     (if limit < 1 then praise (ValueError ''limit must be positive'')
      else pget (\<lambda>s. map so_to_view
             (sos_list_replayable (now - obs_lease_timeout service) (obs_max_attempts service) limit s)))"

subsection \<open>Idempotent enqueueing\<close>

lemma scm_enqueue_found:
  assumes "scs_get_by_idempotency_key s (esc_idempotency_key command) = Some e"
  shows "scm_enqueue command i now env s =
    (if sc_change_set_id e = esc_change_set_id command \<and>
        sc_repository_id e = esc_repository_id command \<and> sc_kind e = esc_kind command \<and>
        json_eq (sc_payload e) (esc_payload command)
     then Inr (sc_to_view e)
     else Inl (DeliveryConflict ''SCM command idempotency key changed meaning''), s)"
  using assms by (simp add: scm_enqueue_def preturn_def praise_def)

lemma new_scm_command_id [simp]:
  "sc_id (new_scm_command command i now) = i"
  "sc_idempotency_key (new_scm_command command i now) = esc_idempotency_key command"
  by (simp_all add: new_scm_command_def)

lemma scm_enqueue_new:
  assumes "scs_ok s" and "scs_get s i = None"
    and "scs_get_by_idempotency_key s (esc_idempotency_key command) = None"
  shows "\<exists>t. scm_enqueue command i now id s = (Inr (sc_to_view (new_scm_command command i now)), t) \<and>
    scs_add (new_scm_command command i now) s = (Inr (), t) \<and>
    scs_get_by_idempotency_key t (esc_idempotency_key command) = Some (new_scm_command command i now)"
proof -
  let ?c = "new_scm_command command i now"
  have "fst (scs_add ?c s) = Inr ()"
    and "scs_get_by_idempotency_key (snd (scs_add ?c s)) (esc_idempotency_key command) = Some ?c"
    using command_keys.add_new [OF assms(1), of ?c "esc_idempotency_key command"] assms(2,3) sc_inv_new
    by simp_all
  then show ?thesis
    using assms(3) by (cases "scs_add ?c s")
      (simp add: scm_enqueue_def Let_def ptry_conflict_def pbind_def [of "scs_add _"] preturn_def)
qed

text \<open>A key bound to a command stays bound to it, whatever the store goes through.\<close>

lemma scs_step_key:
  assumes "scs_step s t" and "dict_get (scs_keys s) k = Some i"
  shows "dict_get (scs_keys t) k = Some i"
  using assms
proof (cases rule: scs_step.cases)
  case (claim owner secs max_attempts limit now batch)
  with assms(2) show ?thesis by (simp add: scs_claim_batch_Inr)
qed (auto simp: scs_add_def scs_renew_def scs_accept_def scs_fail_def Let_def
      split: if_splits sum.splits)

lemma scs_steps_key:
  "scs_steps s t \<Longrightarrow> dict_get (scs_keys s) k = Some i \<Longrightarrow> dict_get (scs_keys t) k = Some i"
  by (induction rule: scs_steps.induct) (auto dest: scs_step_key)

text \<open>What a command asks for never changes.\<close>

definition sc_same :: "scm_command \<Rightarrow> scm_command \<Rightarrow> bool" where
  "sc_same c d \<longleftrightarrow> sc_change_set_id d = sc_change_set_id c \<and> sc_repository_id d = sc_repository_id c \<and>
     sc_kind d = sc_kind c \<and> sc_payload d = sc_payload c \<and> sc_id d = sc_id c"

lemma sc_same_refl [simp]: "sc_same c c"
  by (simp add: sc_same_def)

lemma sc_same_trans: "sc_same c d \<Longrightarrow> sc_same d e \<Longrightarrow> sc_same c e"
  by (simp add: sc_same_def)

lemma sc_step_same: "sc_step c d \<Longrightarrow> sc_same c d"
  using sc_step_identity by (simp add: sc_same_def)

lemma scs_step_same:
  assumes "scs_step s t" and ok: "scs_ok s" and get: "scs_get s i = Some c"
  shows "\<exists>d. scs_get t i = Some d \<and> sc_same c d"
proof -
  have single: ?thesis if "scs_owned j owner version checked_at s = Inr b \<and>
      t = s\<lparr>scs_items := dict_set j d (scs_items s)\<rparr> \<and>
      (sc_step b d \<or> (\<exists>e. d = b\<lparr>sc_lease_expires_at := Some e\<rparr>))" for j owner version checked_at b d
    using that get sc_step_same [of b d]
    by (cases "i = j") (auto simp: scs_get_def scs_owned_Inr sc_same_def)
  from assms(1) show ?thesis
  proof (cases rule: scs_step.cases)
    case (add c' command j now)
    with get have "scs_get t i = Some c"
      by (auto simp: scs_add_def scs_get_def new_scm_command_def split: if_splits)
    then show ?thesis by simp
  next
    case (claim owner secs max_attempts limit now batch)
    show ?thesis
    proof (cases "find (\<lambda>c. sc_id c = i) (scs_batch max_attempts limit now s)")
      case None
      with get show ?thesis by (simp add: scs_claim_batch_store [OF ok claim])
    next
      case (Some e)
      with find_SomeD [OF Some] scs_batch_stored [OF ok] get have "e = c" by fastforce
      with Some show ?thesis
        by (simp add: scs_claim_batch_store [OF ok claim] sc_claimed_def sc_same_def)
    qed
  next
    case (renew j owner version secs checked_at now d)
    with scs_single_writes [of j owner version secs checked_at now s d t] single show ?thesis by blast
  next
    case (accept j owner version checked_at now d)
    with scs_single_writes [of j owner version _ checked_at now s d t] single show ?thesis by blast
  next
    case (failed j error owner version checked_at d)
    with scs_single_writes [of j owner version _ checked_at _ s d t error] single show ?thesis by blast
  qed
qed

lemma scs_steps_same:
  "scs_steps s t \<Longrightarrow> scs_ok s \<Longrightarrow> scs_get s i = Some c \<Longrightarrow> \<exists>d. scs_get t i = Some d \<and> sc_same c d"
proof (induction arbitrary: c rule: scs_steps.induct)
  case (step s t u)
  then obtain d where "scs_get t i = Some d" "sc_same c d" by blast
  moreover have "scs_ok t" using scs_steps_ok [OF step.hyps(1) step.prems(1)] by blast
  ultimately show ?case using scs_step_same [OF step.hyps(2)] sc_same_trans by blast
qed auto

subsection \<open>Properties\<close>

text \<open>Enqueueing is idempotent for good: after a command was enqueued, whatever the store
  went through since, enqueueing the same request again writes nothing and answers with the one
  command stored under that key, and a request of another meaning under that key is refused.\<close>

theorem enqueue_idempotent:
  assumes "scs_reachable s" and "scs_get s i = None" and "json_wf (esc_payload command)"
    and "scs_get_by_idempotency_key s (esc_idempotency_key command) = None"
    and "scm_enqueue command i now id s = (Inr view, s1)" and "scs_steps s1 t"
  shows "(\<exists>c. scs_get_by_idempotency_key t (esc_idempotency_key command) = Some c \<and> sc_id c = scv_id view \<and>
      scm_enqueue command i' now' env t = (Inr (sc_to_view c), t)) \<and>
    (esc_idempotency_key other = esc_idempotency_key command \<and> esc_kind other \<noteq> esc_kind command \<longrightarrow>
      scm_enqueue other i' now' env t =
        (Inl (DeliveryConflict ''SCM command idempotency key changed meaning''), t))"
proof -
  let ?c = "new_scm_command command i now" and ?k = "esc_idempotency_key command"
  note ok = scs_reachable_ok [OF assms(1)]
  from scm_enqueue_new [OF ok assms(2,4), of now] assms(5) have view: "view = sc_to_view ?c"
    and add: "scs_add ?c s = (Inr (), s1)" by auto
  have step: "scs_step s s1" using assms(2) add by (intro scs_step.add) auto
  have key: "dict_get (scs_keys s1) ?k = Some i" and item: "scs_get s1 i = Some ?c"
    using add by (auto simp: scs_add_def scs_get_def split: if_splits)
  have okt: "scs_ok t" using scs_steps_ok [OF assms(6)] scs_step_ok [OF step ok] by blast
  from scs_steps_same [OF assms(6) _ item] scs_step_ok [OF step ok]
  obtain d where d: "scs_get t i = Some d" and same: "sc_same ?c d" by blast
  have found: "scs_get_by_idempotency_key t ?k = Some d"
    using scs_steps_key [OF assms(6) key] d by (simp add: scs_get_by_idempotency_key_def scs_get_def)
  have id: "sc_id d = scv_id view" using same by (simp add: view sc_same_def sc_to_view_def)
  have "scm_enqueue command i' now' env t = (Inr (sc_to_view d), t)"
    using same json_eq_refl [OF assms(3)]
    by (simp add: scm_enqueue_found [OF found] sc_same_def new_scm_command_def)
  moreover have "scm_enqueue other i' now' env t =
      (Inl (DeliveryConflict ''SCM command idempotency key changed meaning''), t)"
    if "esc_idempotency_key other = ?k" "esc_kind other \<noteq> esc_kind command"
    using that same scm_enqueue_found [of t other d i' now' env] found
    by (simp add: sc_same_def new_scm_command_def)
  ultimately show ?thesis using found id by blast
qed

theorem enqueue_idempotent_witness:
  "\<exists>c. scs_get_by_idempotency_key (sample_store sample_second) ''k'' = Some c \<and>
     scm_enqueue sample_enqueue 6 1 id (sample_store sample_second) =
       (Inr (sc_to_view c), sample_store sample_second)"
proof -
  have empty: "scs_reachable empty_scm_command_store" unfolding scs_reachable_def by (rule scs_steps.refl)
  have none: "scs_get empty_scm_command_store 5 = None"
    "scs_get_by_idempotency_key empty_scm_command_store (esc_idempotency_key sample_enqueue) = None"
    by (simp_all add: scs_get_def empty_scm_command_store_def scs_get_by_idempotency_key_def)
  have wf: "json_wf (esc_payload sample_enqueue)" by (simp add: sample_enqueue_def)
  have key: "esc_idempotency_key sample_enqueue = ''k''" by (simp add: sample_enqueue_def)
  have "scs_add (new_scm_command sample_enqueue 5 0) empty_scm_command_store = (Inr (), sample_store sample_command)"
    by (simp add: scs_add_def empty_scm_command_store_def sample_store_def sample_command_defs)
  with scm_enqueue_new [OF scs_ok_empty none(1), of sample_enqueue 0] none(2)
  have enq: "scm_enqueue sample_enqueue 5 0 id empty_scm_command_store =
      (Inr (sc_to_view (new_scm_command sample_enqueue 5 0)), sample_store sample_command)" by auto
  have "scs_steps (sample_store sample_command) (sample_store sample_second)"
    using sample_run(2,3) by (blast intro: scs_steps.intros scs_step.claim)
  from enqueue_idempotent [OF empty none(1) wf none(2) enq this, of 6 1 id] key show ?thesis by auto
qed

text \<open>Where another task adds a command under the same key while \<open>enqueue\<close> waits
  between its lookup and its insert, the call succeeds and answers with that other command, whatever
  its change set, repository, kind and payload: on this path the meaning is not compared.\<close>

theorem enqueue_race_skips_comparison:
  assumes "scs_get_by_idempotency_key s (esc_idempotency_key command) = None"
    and "scs_get_by_idempotency_key (env s) (esc_idempotency_key command) = Some e"
  shows "scm_enqueue command i now env s = (Inr (sc_to_view e), env s)"
  using assms
  by (auto simp: scm_enqueue_def Let_def ptry_conflict_def pbind_def [of "scs_add _"] scs_add_def
      scs_get_by_idempotency_key_def preturn_def split: option.splits)

definition other_enqueue :: enqueue_scm_command where
  "other_enqueue = sample_enqueue\<lparr>esc_kind := CK_UNDRAFT_PULL_REQUEST, esc_repository_id := 2\<rparr>"

theorem enqueue_race_skips_comparison_witness:
  "scm_enqueue other_enqueue 6 0 (\<lambda>_. sample_store sample_command) empty_scm_command_store =
     (Inr (sc_to_view sample_command), sample_store sample_command) \<and>
   esc_kind other_enqueue \<noteq> sc_kind sample_command"
proof -
  have none: "scs_get_by_idempotency_key empty_scm_command_store (esc_idempotency_key other_enqueue) = None"
    by (simp add: empty_scm_command_store_def scs_get_by_idempotency_key_def)
  have "scs_get_by_idempotency_key (sample_store sample_command) (esc_idempotency_key other_enqueue)
      = Some sample_command"
    by (simp add: scs_get_by_idempotency_key_def sample_store_def other_enqueue_def sample_enqueue_def)
  with enqueue_race_skips_comparison [OF none, of "\<lambda>_. sample_store sample_command"] show ?thesis
    by (simp add: other_enqueue_def sample_command_defs)
qed

subsection \<open>Properties of the poll cursors\<close>

text \<open>
  The outcomes recorded for one repository, latest last. Between its reading and its writing a
  recording may be overtaken by others that leave this repository's cursor alone; if one does not,
  the recording is refused.
\<close>

datatype poll_outcome = Polled datetime | Poll_Failed datetime string "int option"

definition poll_failed :: "poll_outcome \<Rightarrow> bool" where
  "poll_failed e \<longleftrightarrow> (case e of Polled _ \<Rightarrow> False | Poll_Failed _ _ _ \<Rightarrow> True)"

lemma poll_failed_simps [simp]: "\<not> poll_failed (Polled t)" "poll_failed (Poll_Failed t e r)"
  by (simp_all add: poll_failed_def)

inductive poll_history :: "int \<Rightarrow> uuid \<Rightarrow> uuid \<Rightarrow> poll_outcome list \<Rightarrow> scm_poll_cursor_store \<Rightarrow> bool"
  for interval change_set_id repository_id where
  unpolled: "pcs_get s (change_set_id, repository_id) = None \<Longrightarrow>
    poll_history interval change_set_id repository_id [] s"
| others: "poll_history interval change_set_id repository_id h s \<Longrightarrow>
    pcs_get t (change_set_id, repository_id) = pcs_get s (change_set_id, repository_id) \<Longrightarrow>
    poll_history interval change_set_id repository_id h t"
| polled: "poll_history interval change_set_id repository_id h s \<Longrightarrow>
    (\<And>u. pcs_get (env u) (change_set_id, repository_id) = pcs_get u (change_set_id, repository_id)) \<Longrightarrow>
    poll_succeed interval change_set_id repository_id now env s = (Inr (), t) \<Longrightarrow>
    poll_history interval change_set_id repository_id (h @ [Polled now]) t"
| failed: "poll_history interval change_set_id repository_id h s \<Longrightarrow>
    (\<And>u. pcs_get (env u) (change_set_id, repository_id) = pcs_get u (change_set_id, repository_id)) \<Longrightarrow>
    poll_fail interval change_set_id repository_id error retry_after now env s = (Inr (), t) \<Longrightarrow>
    poll_history interval change_set_id repository_id (h @ [Poll_Failed now error retry_after]) t"

text \<open>How many failures are the last ones in a row, and when the next poll is due.\<close>

definition failures_in_row :: "poll_outcome list \<Rightarrow> nat" where
  "failures_in_row h = length (takeWhile poll_failed (rev h))"

fun due_after :: "int \<Rightarrow> nat \<Rightarrow> poll_outcome \<Rightarrow> datetime" where
  "due_after interval k (Polled t) = t + seconds interval"
| "due_after interval k (Poll_Failed t error retry_after) = t + seconds (backoff_seconds interval (int k) retry_after)"

lemma upsert_cursor:
  assumes "pcs_upsert c expected s = (Inr (), t)"
  shows "pcs_get t (pc_key c) = Some c"
  using assms by (auto simp: pcs_upsert_def pcs_get_def pc_key_def Let_def split: option.splits if_splits)

lemma poll_history_cursor:
  assumes "poll_history interval change_set_id repository_id h s"
  shows "case pcs_get s (change_set_id, repository_id) of
    None \<Rightarrow> h = []
  | Some c \<Rightarrow> h \<noteq> [] \<and> pc_key c = (change_set_id, repository_id) \<and>
      pc_consecutive_failures c = int (failures_in_row h) \<and>
      pc_next_poll_at c = due_after interval (failures_in_row h) (last h)"
  using assms
proof induction
  case (polled h s env now t)
  let ?c = "case pcs_get s (change_set_id, repository_id) of None \<Rightarrow> new_scm_poll_cursor change_set_id repository_id now | Some c \<Rightarrow> c"
  have key: "pc_key (pc_succeed now interval ?c) = (change_set_id, repository_id)"
    using polled.IH by (auto simp: pc_key_def pc_succeed_def new_scm_poll_cursor_def split: option.splits)
  have "pcs_get t (pc_key (pc_succeed now interval ?c)) = Some (pc_succeed now interval ?c)"
    by (rule upsert_cursor) (use polled.hyps(3) in \<open>simp add: poll_succeed_def Let_def\<close>)
  then show ?case unfolding key using key by (simp add: pc_succeed_def pc_key_def failures_in_row_def)
next
  case (failed h s env error retry_after now t)
  let ?c = "case pcs_get s (change_set_id, repository_id) of None \<Rightarrow> new_scm_poll_cursor change_set_id repository_id now | Some c \<Rightarrow> c"
  let ?d = "pc_fail now error interval retry_after ?c"
  have count: "pc_consecutive_failures ?c = int (failures_in_row h)"
    using failed.IH by (auto simp: new_scm_poll_cursor_def failures_in_row_def split: option.splits)
  have key: "pc_key ?d = (change_set_id, repository_id)"
    using failed.IH by (auto simp: pc_key_def pc_fail_def Let_def new_scm_poll_cursor_def split: option.splits)
  have "pcs_get t (pc_key ?d) = Some ?d"
    by (rule upsert_cursor) (use failed.hyps(3) in \<open>simp add: poll_fail_def Let_def\<close>)
  then show ?case unfolding key using key count
    by (simp add: pc_fail_def pc_key_def Let_def failures_in_row_def add.commute)
qed simp_all

text \<open>C20: When the last \<open>k\<close> polls of a repository failed in a row, whatever came before them (nothing, or a
  poll that succeeded), and the last of them without a delay asked for by the server, the repository is
  due again exactly \<open>min(interval * 2^(k-1), 3600)\<close> seconds after the last failure, so never later than
  an hour and never earlier than the interval (or an hour, if that is shorter). After a poll that
  succeeded it is due an interval later, however many failed before it.\<close>

theorem poll_backoff:
  assumes "0 < interval"
    and "poll_history interval change_set_id repository_id (before @ failures @ [Poll_Failed last_failure error None]) s"
    and "before = [] \<or> (\<exists>t. last before = Polled t)" and "\<forall>e \<in> set failures. poll_failed e"
    and "poll_history interval change_set_id repository_id (earlier @ [Polled last_success]) u"
  shows "(poll_due change_set_id repository_id now s \<longleftrightarrow>
      last_failure + seconds (min (interval * 2 ^ length failures) 3600) \<le> now) \<and>
    min interval 3600 \<le> min (interval * 2 ^ length failures) 3600 \<and>
    (poll_due change_set_id repository_id now u \<longleftrightarrow> last_success + seconds interval \<le> now)"
proof -
  have "takeWhile poll_failed (rev before) = []"
    using assms(3) by (cases before rule: rev_cases) auto
  then have row: "failures_in_row (before @ failures @ [Poll_Failed last_failure error None]) = Suc (length failures)"
    using assms(4) takeWhile_append2 [of "rev failures" poll_failed "rev before"] by (simp add: failures_in_row_def)
  have "interval * 1 \<le> interval * 2 ^ length failures"
    using assms(1) by (intro mult_left_mono) auto
  then show ?thesis
    using poll_history_cursor [OF assms(2)] poll_history_cursor [OF assms(5)] row
    by (auto simp: poll_due_def backoff_seconds_def Let_def split: option.splits)
qed

definition sample_cursor :: "datetime \<Rightarrow> int \<Rightarrow> string option \<Rightarrow> datetime option \<Rightarrow> int \<Rightarrow> scm_poll_cursor_store" where
  "sample_cursor next failures error polled version =
     [((9, 1), \<lparr>pc_change_set_id = 9, pc_repository_id = 1, pc_next_poll_at = next, pc_consecutive_failures = failures,
        pc_last_polled_at = polled, pc_last_error = error, pc_version = version\<rparr>)]"

lemmas poll_exec = poll_fail_def poll_succeed_def pcs_get_def pcs_upsert_def new_scm_poll_cursor_def pc_fail_def pc_succeed_def
  backoff_seconds_def sample_cursor_def Let_def

text \<open>A failure, a success and two failures, a minute apart.\<close>

theorem poll_backoff_witness:
  "\<not> poll_due 9 1 (seconds 299) (sample_cursor (seconds 300) 2 (Some ''z'') (Some (seconds 60)) 4) \<and>
   poll_due 9 1 (seconds 300) (sample_cursor (seconds 300) 2 (Some ''z'') (Some (seconds 60)) 4) \<and>
   poll_due 9 1 (seconds 120) (sample_cursor (seconds 120) 0 None (Some (seconds 60)) 2)"
proof -
  have "poll_history 60 9 1 [] []" by (rule poll_history.unpolled) (simp add: pcs_get_def)
  from poll_history.failed [OF this, of id "''x''" None 0 "sample_cursor (seconds 60) 1 (Some ''x'') None 1"]
  have "poll_history 60 9 1 [Poll_Failed 0 ''x'' None] (sample_cursor (seconds 60) 1 (Some ''x'') None 1)"
    by (simp add: poll_exec)
  from poll_history.polled [OF this, of id "seconds 60" "sample_cursor (seconds 120) 0 None (Some (seconds 60)) 2"]
  have up: "poll_history 60 9 1 [Poll_Failed 0 ''x'' None, Polled (seconds 60)]
      (sample_cursor (seconds 120) 0 None (Some (seconds 60)) 2)"
    by (simp add: poll_exec seconds_def)
  from poll_history.failed [OF this, of id "''y''" None "seconds 120" "sample_cursor (seconds 180) 1 (Some ''y'') (Some (seconds 60)) 3"]
  have "poll_history 60 9 1 [Poll_Failed 0 ''x'' None, Polled (seconds 60), Poll_Failed (seconds 120) ''y'' None]
      (sample_cursor (seconds 180) 1 (Some ''y'') (Some (seconds 60)) 3)"
    by (simp add: poll_exec seconds_def)
  from poll_history.failed [OF this, of id "''z''" None "seconds 180" "sample_cursor (seconds 300) 2 (Some ''z'') (Some (seconds 60)) 4"]
  have down: "poll_history 60 9 1 ([Poll_Failed 0 ''x'' None, Polled (seconds 60)] @ [Poll_Failed (seconds 120) ''y'' None] @
      [Poll_Failed (seconds 180) ''z'' None]) (sample_cursor (seconds 300) 2 (Some ''z'') (Some (seconds 60)) 4)"
    by (simp add: poll_exec seconds_def)
  have up': "poll_history 60 9 1 ([Poll_Failed 0 ''x'' None] @ [Polled (seconds 60)])
      (sample_cursor (seconds 120) 0 None (Some (seconds 60)) 2)" using up by simp
  note due = poll_backoff [OF _ down _ _ up']
  show ?thesis using due [of "seconds 299"] due [of "seconds 300"] due [of "seconds 120"] by (simp add: seconds_def)
qed

text \<open>A poll that fails or succeeds while another one recorded its outcome writes nothing and
  reports the conflict: of two concurrent recordings exactly one counts.\<close>

theorem concurrent_poll_refused:
  assumes "pcs_get s (change_set_id, repository_id) = Some c"
    and "poll_succeed interval change_set_id repository_id now id s = (Inr (), s1)"
    and "pc_key c = (change_set_id, repository_id)"
  shows "(\<exists>m. poll_fail interval change_set_id repository_id error retry_after now' (\<lambda>_. s1) s =
      (Inl (DeliveryConflict m), s1)) \<and>
    (\<exists>m. poll_succeed interval change_set_id repository_id now' (\<lambda>_. s1) s =
      (Inl (DeliveryConflict m), s1))"
proof -
  let ?u = "pc_succeed now interval c"
  have key: "pc_key (pc_succeed t n c) = pc_key c" "pc_key (pc_fail t e n r c) = pc_key c"
    "pc_version ?u \<noteq> pc_version c" for t n e r
    by (simp_all add: pc_key_def pc_succeed_def pc_fail_def Let_def)
  have first: "pcs_upsert ?u (Some (pc_version c)) s = (Inr (), s1)"
    using assms(1,2) by (simp add: poll_succeed_def Let_def)
  note refused = cursors.second_writer_refused [OF assms(1) _ _ key(3) first]
  have "\<exists>m. pcs_upsert (pc_fail now' error interval retry_after c) (Some (pc_version c)) s1 =
      (Inl (DeliveryConflict m), s1)"
    using refused [of "pc_fail now' error interval retry_after c"] key assms(3) by simp
  moreover have "\<exists>m. pcs_upsert (pc_succeed now' interval c) (Some (pc_version c)) s1 =
      (Inl (DeliveryConflict m), s1)"
    using refused [of "pc_succeed now' interval c"] key assms(3) by simp
  ultimately show ?thesis using assms(1) by (simp add: poll_succeed_def poll_fail_def Let_def)
qed

theorem concurrent_poll_refused_witness:
  "\<exists>s1 m. poll_fail 60 9 1 ''z'' None (seconds 181) (\<lambda>_. s1) (sample_cursor (seconds 60) 1 (Some ''x'') None 1) =
     (Inl (DeliveryConflict m), s1)"
proof -
  let ?s = "sample_cursor (seconds 60) 1 (Some ''x'') None 1"
  let ?c = "snd (hd ?s)"
  have get: "pcs_get ?s (9, 1) = Some ?c" and key: "pc_key ?c = (9, 1)"
    by (simp_all add: poll_exec pc_key_def)
  have "fst (poll_succeed 60 9 1 (seconds 180) id ?s) = Inr ()" by (simp add: poll_exec)
  then obtain s1 where "poll_succeed 60 9 1 (seconds 180) id ?s = (Inr (), s1)"
    by (metis prod.collapse)
  from concurrent_poll_refused [OF get this key] show ?thesis by blast
qed

subsection \<open>Properties of the observations\<close>

lemma sos_update_fst: "sos_update p e s = (Inr (), t) \<Longrightarrow>
    \<exists>u. sos_get s (so_id p) = Some u \<and> so_version u = e \<and> sos_get t (so_id p) = Some p"
  by (auto simp: sos_update_def sos_get_def split: if_splits option.splits)

lemma so_claim_Inr: "so_claim now p = Inr q \<Longrightarrow>
    so_id q = so_id p \<and> so_version q = so_version p + 1 \<and> so_attempts q = so_attempts p + 1"
  by (auto simp: so_claim_def so_post_init_Inr)

lemma obs_required_run:
  "pbind (obs_required i) f s = (case sos_get s i of
     None \<Rightarrow> (Inl (DeliveryNotFound (''SCM observation not found: '' @ uuid_str i)), s)
   | Some p \<Rightarrow> f p s)"
  by (cases "sos_get s i")
    (simp_all add: obs_required_def pbind_def [of "pbind _ _"] praise_def preturn_def)

lemma obs_claim_run:
  "obs_claim service i now env s = (case sos_get s i of
     None \<Rightarrow> (Inl (DeliveryNotFound (''SCM observation not found: '' @ uuid_str i)), s)
   | Some p \<Rightarrow>
       if so_is_claimable now (obs_lease_timeout service) (obs_max_attempts service) p
       then case so_claim now p of Inl e \<Rightarrow> (Inl e, s)
            | Inr q \<Rightarrow> (case sos_update q (so_version p) (env s) of
                (Inl e, t) \<Rightarrow> (Inl e, t) | (Inr _, t) \<Rightarrow> (Inr (Some (so_to_view q)), t))
       else (Inr None, s))"
  unfolding obs_claim_def obs_required_run
  by (auto simp: pbind_plift pbind_def [of "sos_update _ _"] preturn_def
      split: option.splits sum.splits prod.splits)

lemma so_claim_cases: "so_claim now p = Inl e \<longleftrightarrow> so_claim now' p = Inl e"
  by (auto simp: so_claim_def so_post_init_def Let_def split: if_splits py_datetime.splits)

text \<open>Of two workers that read the same observation and both try to claim it, the second one
  gets nothing: it either finds the observation not claimable or is refused by the version check,
  and the first claim stays as it was written.\<close>

theorem observation_claimed_once:
  assumes "sos_ok s" and "obs_claim service i now id s = (Inr (Some view), s1)"
  shows "obs_claim service i now' (\<lambda>_. s1) s = (Inr None, s) \<or>
    (\<exists>m. obs_claim service i now' (\<lambda>_. s1) s = (Inl (DeliveryConflict m), s1))"
proof -
  from assms(2) obtain p q where p: "sos_get s i = Some p" and q: "so_claim now p = Inr q"
    and up: "sos_update q (so_version p) s = (Inr (), s1)"
    by (auto simp: obs_claim_run split: option.splits if_splits sum.splits prod.splits)
  have id: "so_id p = i" using assms(1) p by (simp add: sos_ok_def sos_get_def)
  show ?thesis
  proof (cases "so_is_claimable now' (obs_lease_timeout service) (obs_max_attempts service) p")
    case True
    obtain q' where q': "so_claim now' p = Inr q'"
      using q so_claim_cases [of now' p _ now] by (cases "so_claim now' p") auto
    have "\<exists>m. sos_update q' (so_version p) s1 = (Inl (DeliveryConflict m), s1)"
      using so_claim_Inr [OF q] so_claim_Inr [OF q'] id
      by (intro observations.second_writer_refused [OF p _ _ _ up]) simp_all
    with True p q' show ?thesis by (auto simp: obs_claim_run)
  qed (simp add: obs_claim_run p)
qed

definition sample_observation :: scm_observation where
  "sample_observation =
     \<lparr>so_provider = ''git'', so_source = SRC_WEBHOOK, so_external_id = ''e1'',
      so_event_type = ''push'', so_payload = JObject [], so_payload_hash = replicate 64 (CHR ''0''),
      so_observed_at = Aware 0, so_change_set_id = None, so_repository_id = None, so_id = 40,
      so_status = SO_PENDING, so_attempts = 0, so_version = 1, so_last_error = None,
      so_received_at = 0, so_claimed_at = None, so_processed_at = None\<rparr>"

definition sample_observations :: scm_observation_store where
  "sample_observations = \<lparr>sos_items = [(40, sample_observation)],
     sos_identities = [(so_identity sample_observation, 40)]\<rparr>"

lemma sample_observation_wf: "so_wf sample_observation"
proof -
  have "py_strip (replicate 64 (CHR ''0'')) = replicate 64 (CHR ''0'')"
    by (rule py_strip_fixed) (simp add: py_isspace_def)
  moreover have "py_lower (replicate 64 (CHR ''0'')) = replicate 64 (CHR ''0'')"
    by (simp add: py_lower_def py_lower_char_def)
  moreover have "\<not> blank ''git''" "\<not> blank ''e1''" "\<not> blank ''push''"
    by (simp_all add: blank_def py_strip_def py_isspace_def)
  ultimately show ?thesis
    by (simp add: so_wf_def so_post_init_def sample_observation_def Let_def is_hex_def)
qed

theorem observation_claimed_once_witness:
  "\<exists>s1 m. obs_claim \<lparr>obs_lease_timeout = 300, obs_max_attempts = 5\<rparr> 40 1 (\<lambda>_. s1) sample_observations
     = (Inl (DeliveryConflict m), s1)"
proof -
  let ?v = "\<lparr>obs_lease_timeout = 300, obs_max_attempts = 5\<rparr>"
  have ok: "sos_ok sample_observations"
    by (auto simp: sos_ok_def sample_observations_def sample_observation_def split: if_splits)
  have get: "sos_get sample_observations 40 = Some sample_observation"
    by (simp add: sos_get_def sample_observations_def)
  have claimable: "so_is_claimable t 300 5 sample_observation" for t
    by (simp add: so_is_claimable_def sample_observation_def)
  obtain q where q: "so_claim 0 sample_observation = Inr q"
    using sample_observation_wf by (simp add: so_claim_def so_post_init_Inr)
  moreover have "so_id sample_observation = 40" by (simp add: sample_observation_def)
  ultimately have "\<exists>t. sos_update q (so_version sample_observation) sample_observations = (Inr (), t)"
    using so_claim_Inr [OF q] get by (simp add: sos_update_def sos_get_def)
  then obtain s1 where claim: "obs_claim ?v 40 0 id sample_observations = (Inr (Some (so_to_view q)), s1)"
    by (auto simp: obs_claim_run get claimable q)
  have "obs_claim ?v 40 1 (\<lambda>_. s1) sample_observations \<noteq> (Inr None, sample_observations)"
    by (auto simp: obs_claim_run get claimable split: sum.splits prod.splits)
  with observation_claimed_once [OF ok claim, of 1] show ?thesis by blast
qed

end
