(* ===== verification/Merge_Order.thy ===== *)
theory Merge_Order
  imports Change_Set "HOL-Library.Multiset"
begin

text \<open>
  The merge order of a ChangeSet's candidates: \<open>_merge_order\<close> and
  \<open>_merge_order_for_append\<close> of \<open>modules/delivery/application.py\<close>. Both number the
  candidates round by round, a round being the repositories whose dependencies are numbered
  already, sorted by the text of their id. The lemmas show that the loop ends, that what it
  returns is a topological numbering, and that it raises only for a dependency cycle.
\<close>

subsection \<open>The loop\<close>

text \<open>\<open>for repository_id in ready: order[repository_id] = index; index += 1\<close>.\<close>

fun assign_orders :: "uuid list \<Rightarrow> int \<Rightarrow> (uuid, int) dict \<Rightarrow> (uuid, int) dict" where
  "assign_orders [] index order = order"
| "assign_orders (r # rs) index order = assign_orders rs (index + 1) (dict_set r index order)"

definition ready_repositories ::
    "(uuid, uuid list) dict \<Rightarrow> (uuid, int) dict \<Rightarrow> uuid list" where
  "ready_repositories remaining order =
     sort_key uuid_str
       (map fst (filter (\<lambda>(repo, deps). set deps \<subseteq> set (dict_keys order)) remaining))"

text \<open>\<open>while remaining: ...\<close>: each round removes at least one repository or raises.\<close>

function order_rounds ::
    "(uuid, uuid list) dict \<Rightarrow> (uuid, int) dict \<Rightarrow> int \<Rightarrow> (uuid, int) dict result" where
  "order_rounds remaining order index =
     (if remaining = [] then Inr order
      else let ready = ready_repositories remaining order
           in if ready = []
              then Inl (DeliveryConflict ''repository dependency graph contains a cycle'')
              else order_rounds (filter (\<lambda>(repo, deps). repo \<notin> set ready) remaining)
                     (assign_orders ready index order) (index + int (length ready)))"
  by pat_completeness auto

lemma set_ready_repositories:
  "set (ready_repositories remaining order) =
     {repo. \<exists>deps. (repo, deps) \<in> set remaining \<and> set deps \<subseteq> set (dict_keys order)}"
  by (force simp: ready_repositories_def)

termination order_rounds
proof (relation "measure (\<lambda>(remaining, _). length remaining)")
  fix remaining :: "(uuid, uuid list) dict" and order index ready
  assume "ready = ready_repositories remaining order" and "ready \<noteq> []"
  then obtain repo where repo: "repo \<in> set (ready_repositories remaining order)"
    and ready: "ready = ready_repositories remaining order"
    by (metis list.set_sel(1))
  then obtain deps where "(repo, deps) \<in> set remaining" by (auto simp: set_ready_repositories)
  with repo have "length (filter (\<lambda>(repo, deps). repo \<notin> set ready) remaining) < length remaining"
    unfolding ready by (intro length_filter_less) auto
  then show "((filter (\<lambda>(repo, deps). repo \<notin> set ready) remaining, assign_orders ready index order,
      index + int (length ready)), (remaining, order, index))
      \<in> measure (\<lambda>(remaining, _). length remaining)" by simp
qed simp

declare order_rounds.simps [simp del]

definition merge_order :: "repository_candidate_input list \<Rightarrow> (uuid, int) dict result" where
  "merge_order candidates =
     (let ids = map rci_repository_id candidates;
          dependencies =
            dict_update (map (\<lambda>c. (rci_repository_id c, rci_depends_on c)) candidates) []
      in if \<exists>values \<in> set (dict_values dependencies). \<not> set values \<subseteq> set ids
         then Inl (DeliveryConflict ''repository dependency is outside the ChangeSet'')
         else order_rounds dependencies [] 0)"

definition merge_order_for_append ::
    "change_set \<Rightarrow> repository_candidate_input list \<Rightarrow> (uuid, int) dict result" where
  "merge_order_for_append c candidates =
     (let order = dict_update (map (\<lambda>r. (rd_repository_id r, rd_merge_order r)) (cs_repositories c)) [];
          next_index = py_max (dict_values order) (-1) + 1;
          dependencies =
            dict_update (map (\<lambda>c. (rci_repository_id c, rci_depends_on c)) candidates) []
      in order_rounds dependencies order next_index)"

subsection \<open>Numbered lists\<close>

fun numbered :: "int \<Rightarrow> 'a list \<Rightarrow> ('a \<times> int) list" where
  "numbered i [] = []"
| "numbered i (x # xs) = (x, i) # numbered (i + 1) xs"

lemma numbered_append: "numbered i (xs @ ys) = numbered i xs @ numbered (i + int (length xs)) ys"
  by (induction xs arbitrary: i) (simp_all add: add.assoc)

lemma map_fst_numbered [simp]: "map fst (numbered i xs) = xs"
  by (induction xs arbitrary: i) auto

lemma fst_set_numbered [simp]: "fst ` set (numbered i xs) = set xs"
  by (metis list.set_map map_fst_numbered)

lemma length_numbered [simp]: "length (numbered i xs) = length xs"
  by (induction xs arbitrary: i) auto

lemma snd_set_numbered: "snd ` set (numbered i xs) = {i ..< i + int (length xs)}"
proof (induction xs arbitrary: i)
  case (Cons x xs)
  have "{i ..< i + int (length (x # xs))} = insert i {i + 1 ..< i + 1 + int (length xs)}" by auto
  then show ?case using Cons.IH [of "i + 1"] by simp
qed simp

lemma distinct_snd_numbered: "distinct (map snd (numbered i xs))"
proof (induction xs arbitrary: i)
  case (Cons x xs)
  have "i \<notin> snd ` set (numbered (i + 1) xs)" by (simp add: snd_set_numbered)
  with Cons show ?case by simp
qed simp

lemma numbered_bounds: "(x, k) \<in> set (numbered i xs) \<Longrightarrow> i \<le> k \<and> k < i + int (length xs)"
  using snd_set_numbered [of i xs] by force

lemma assign_orders_numbered:
  "distinct rs \<Longrightarrow> set rs \<inter> fst ` set order = {} \<Longrightarrow>
     assign_orders rs index order = order @ numbered index rs"
proof (induction rs arbitrary: index order)
  case (Cons r rs)
  then have "dict_set r index order = order @ [(r, index)]" by (intro dict_set_new) auto
  with Cons show ?case by auto
qed simp

subsection \<open>The loop is a topological numbering\<close>

text \<open>Every element's dependencies are known or come earlier in the list.\<close>

fun deps_first :: "uuid set \<Rightarrow> (uuid \<times> uuid list) set \<Rightarrow> uuid list \<Rightarrow> bool" where
  "deps_first known R [] = True"
| "deps_first known R (x # xs) \<longleftrightarrow>
     (\<forall>deps. (x, deps) \<in> R \<longrightarrow> set deps \<subseteq> known) \<and> deps_first (insert x known) R xs"

lemma deps_first_append:
  "deps_first known R (xs @ ys) \<longleftrightarrow>
     deps_first known R xs \<and> deps_first (known \<union> set xs) R ys"
  by (induction xs arbitrary: known) auto

lemma deps_first_block:
  "(\<And>x deps. x \<in> set xs \<Longrightarrow> (x, deps) \<in> R \<Longrightarrow> set deps \<subseteq> known) \<Longrightarrow> deps_first known R xs"
proof (induction xs arbitrary: known)
  case (Cons x xs)
  have "deps_first (insert x known) R xs"
    by (rule Cons.IH) (use Cons.prems in \<open>auto simp: subset_iff\<close>)
  with Cons.prems show ?case by auto
qed simp

lemma deps_first_cong:
  "(\<And>x deps. x \<in> set xs \<Longrightarrow> (x, deps) \<in> R \<longleftrightarrow> (x, deps) \<in> S) \<Longrightarrow>
     deps_first known R xs = deps_first known S xs"
  by (induction xs arbitrary: known) auto

lemma deps_first_numbered:
  "deps_first known R xs \<Longrightarrow> (x, deps) \<in> R \<Longrightarrow> (x, k) \<in> set (numbered i xs) \<Longrightarrow>
     d \<in> set deps \<Longrightarrow> d \<in> known \<or> (\<exists>j < k. (d, j) \<in> set (numbered i xs))"
proof (induction xs arbitrary: known i)
  case (Cons y ys)
  show ?case
  proof (cases "(x, k) = (y, i)")
    case True
    with Cons.prems show ?thesis by auto
  next
    case False
    with Cons.prems have x: "(x, k) \<in> set (numbered (i + 1) ys)" by auto
    from Cons.IH [OF _ Cons.prems(2) x Cons.prems(4), of "insert y known"] Cons.prems(1)
    have "d \<in> insert y known \<or> (\<exists>j < k. (d, j) \<in> set (numbered (i + 1) ys))" by simp
    moreover have "i < k" using numbered_bounds [OF x] by simp
    ultimately show ?thesis by auto
  qed
qed simp

lemma distinct_fst_inj: "distinct (map fst xs) \<Longrightarrow> inj_on fst (set xs)"
  by (simp add: distinct_map)

lemma ready_distinct:
  "distinct (dict_keys remaining) \<Longrightarrow> distinct (ready_repositories remaining order)"
  by (simp add: ready_repositories_def distinct_map_filter)

lemma order_rounds_sound:
  "order_rounds remaining order index = Inr result \<Longrightarrow>
   distinct (dict_keys order @ dict_keys remaining) \<Longrightarrow>
   \<exists>xs. result = order @ numbered index xs \<and> distinct xs \<and> set xs = fst ` set remaining \<and>
        deps_first (fst ` set order) (set remaining) xs"
proof (induction remaining order index arbitrary: result rule: order_rounds.induct)
  case (1 remaining order index)
  show ?case
  proof (cases "remaining = []")
    case True
    with 1 show ?thesis by (intro exI [of _ "[]"]) (simp add: order_rounds.simps)
  next
    case False
    let ?ready = "ready_repositories remaining order"
    let ?rest = "filter (\<lambda>(repo, deps). repo \<notin> set ?ready) remaining"
    let ?order = "assign_orders ?ready index order"
    from "1.prems"(1) False have ready: "?ready \<noteq> []"
      and rec: "order_rounds ?rest ?order (index + int (length ?ready)) = Inr result"
      by (auto simp: order_rounds.simps [of remaining] Let_def split: if_splits)
    have sub: "set ?ready \<subseteq> fst ` set remaining" by (force simp: set_ready_repositories)
    have dist: "distinct ?ready" using "1.prems"(2) by (simp add: ready_distinct)
    have order: "?order = order @ numbered index ?ready"
      using "1.prems"(2) sub dist by (intro assign_orders_numbered) auto
    have rest: "distinct (map fst ?rest)" "fst ` set ?rest = fst ` set remaining - set ?ready"
      using "1.prems"(2) by (auto simp: distinct_map_filter image_iff)
    have "distinct (dict_keys ?order @ dict_keys ?rest)"
      using "1.prems"(2) rest sub dist by (auto simp: order)
    from "1.IH" [OF False refl ready rec this] obtain xs where
      xs: "result = ?order @ numbered (index + int (length ?ready)) xs" "distinct xs"
        "set xs = fst ` set ?rest" "deps_first (fst ` set ?order) (set ?rest) xs" by blast
    have "deps_first (fst ` set order) (set remaining) ?ready"
    proof (rule deps_first_block)
      fix x deps assume "x \<in> set ?ready" and mem: "(x, deps) \<in> set remaining"
      then obtain deps' where "(x, deps') \<in> set remaining" "set deps' \<subseteq> fst ` set order"
        by (auto simp: set_ready_repositories)
      with mem "1.prems"(2) show "set deps \<subseteq> fst ` set order" by (auto dest: eq_key_imp_eq_value)
    qed
    moreover have "deps_first (fst ` set order \<union> set ?ready) (set remaining) xs"
    proof -
      have "deps_first (fst ` set ?order) (set remaining) xs =
          deps_first (fst ` set ?order) (set ?rest) xs"
        using xs(3) rest(2) by (intro deps_first_cong) auto
      with xs(4) show ?thesis by (simp add: order image_Un)
    qed
    ultimately have "deps_first (fst ` set order) (set remaining) (?ready @ xs)"
      by (simp add: deps_first_append)
    moreover have "result = order @ numbered index (?ready @ xs)"
      using xs(1) by (simp add: order numbered_append)
    moreover have "distinct (?ready @ xs)" using xs(2,3) rest(2) dist by auto
    moreover have "set (?ready @ xs) = fst ` set remaining" using xs(3) rest(2) sub by auto
    ultimately show ?thesis by blast
  qed
qed

subsection \<open>The loop raises only for a cycle\<close>

lemma order_rounds_Inl:
  "order_rounds remaining order index = Inl e \<Longrightarrow>
     e = DeliveryConflict ''repository dependency graph contains a cycle''"
proof (induction remaining order index rule: order_rounds.induct)
  case (1 remaining order index)
  then show ?case
    by (auto simp: order_rounds.simps [of remaining] Let_def split: if_splits)
qed

text \<open>A rank that decreases along every dependency not yet numbered.\<close>

definition acyclic_rank :: "(uuid \<Rightarrow> nat) \<Rightarrow> uuid set \<Rightarrow> (uuid, uuid list) dict \<Rightarrow> bool" where
  "acyclic_rank rank known remaining \<longleftrightarrow>
     (\<forall>(repo, deps) \<in> set remaining. \<forall>d \<in> set deps.
        d \<in> known \<or> (d \<in> fst ` set remaining \<and> rank d < rank repo))"

lemma acyclic_rankI:
  "(\<And>repo deps d. (repo, deps) \<in> set remaining \<Longrightarrow> d \<in> set deps \<Longrightarrow>
      d \<in> known \<or> (d \<in> fst ` set remaining \<and> rank d < rank repo)) \<Longrightarrow>
   acyclic_rank rank known remaining"
  by (auto simp: acyclic_rank_def)

lemma acyclic_rank_ready:
  assumes "acyclic_rank rank (fst ` set order) remaining" and "remaining \<noteq> []"
  shows "ready_repositories remaining order \<noteq> []"
proof -
  let ?P = "\<lambda>x. x \<in> set remaining" and ?m = "\<lambda>x. rank (fst x)"
  from assms(2) have "?P (hd remaining)" by simp
  from ex_has_least_nat [of ?P, OF this, of ?m] obtain x where
    x: "x \<in> set remaining" and least: "\<forall>y. y \<in> set remaining \<longrightarrow> rank (fst x) \<le> rank (fst y)"
    by blast
  obtain repo deps where [simp]: "x = (repo, deps)" by (cases x)
  have "d \<in> fst ` set order" if "d \<in> set deps" for d
  proof (rule ccontr)
    assume "d \<notin> fst ` set order"
    with assms(1) x that have "d \<in> fst ` set remaining" "rank d < rank repo"
      by (auto simp: acyclic_rank_def)
    with least show False by force
  qed
  with x have "repo \<in> set (ready_repositories remaining order)"
    by (auto simp: set_ready_repositories)
  then show ?thesis by auto
qed

lemma order_rounds_complete:
  "acyclic_rank rank (fst ` set order) remaining \<Longrightarrow>
     \<exists>result. order_rounds remaining order index = Inr result"
proof (induction remaining order index rule: order_rounds.induct)
  case (1 remaining order index)
  show ?case
  proof (cases "remaining = []")
    case True
    then show ?thesis by (simp add: order_rounds.simps)
  next
    case False
    let ?ready = "ready_repositories remaining order"
    let ?rest = "filter (\<lambda>(repo, deps). repo \<notin> set ?ready) remaining"
    let ?order = "assign_orders ?ready index order"
    have ready: "?ready \<noteq> []" using acyclic_rank_ready [OF "1.prems" False] .
    have keys: "fst ` set (assign_orders rs i d) = set rs \<union> fst ` set d" for rs i d
      by (induction rs i d rule: assign_orders.induct) auto
    have "acyclic_rank rank (fst ` set ?order) ?rest"
      using "1.prems" by (fastforce simp: acyclic_rank_def keys)
    from "1.IH" [OF False refl ready this] show ?thesis
      using False ready by (simp add: order_rounds.simps [of remaining] Let_def)
  qed
qed

lemma order_rounds_Inr_rank:
  assumes "order_rounds remaining order index = Inr result"
    and "distinct (dict_keys order @ dict_keys remaining)"
  shows "\<exists>rank. acyclic_rank rank (fst ` set order) remaining"
proof -
  from order_rounds_sound [OF assms] obtain xs where xs: "distinct xs"
    "set xs = fst ` set remaining" "deps_first (fst ` set order) (set remaining) xs" by blast
  let ?rank = "\<lambda>d. nat (the (map_of (numbered 0 xs) d))"
  have get: "map_of (numbered 0 xs) x = Some k \<longleftrightarrow> (x, k) \<in> set (numbered 0 xs)" for x k
    using xs(1) by (simp add: map_of_eq_Some_iff)
  have "d \<in> fst ` set order \<or> (d \<in> fst ` set remaining \<and> ?rank d < ?rank repo)"
    if mem: "(repo, deps) \<in> set remaining" and d: "d \<in> set deps" for repo deps d
  proof -
    from mem xs(2) have "repo \<in> fst ` set (numbered 0 xs)" by force
    then obtain k where k: "(repo, k) \<in> set (numbered 0 xs)" by (elim imageE) (metis prod.collapse)
    from deps_first_numbered [OF xs(3) mem k d] show ?thesis
    proof
      assume "\<exists>j<k. (d, j) \<in> set (numbered 0 xs)"
      then obtain j where j: "j < k" "(d, j) \<in> set (numbered 0 xs)" by blast
      have "d \<in> fst ` set (numbered 0 xs)" using imageI [OF j(2), of fst] by (simp only: fst_conv)
      then have "d \<in> fst ` set remaining" using xs(2) by simp
      moreover have "?rank d < ?rank repo"
        using j k numbered_bounds [OF j(2)] by (simp add: get [THEN iffD2])
      ultimately show ?thesis by blast
    qed blast
  qed
  then have "acyclic_rank ?rank (fst ` set order) remaining" by (rule acyclic_rankI)
  then show ?thesis by (intro exI)
qed

text \<open>The numbering does not depend on the order the candidates are listed in.\<close>

lemma ready_permuted:
  assumes "mset remaining = mset remaining'"
  shows "ready_repositories remaining order = ready_repositories remaining' order"
proof -
  let ?p = "\<lambda>(repo, deps). set deps \<subseteq> set (dict_keys order)"
  have "mset (map fst (filter ?p remaining)) = mset (map fst (filter ?p remaining'))"
    using assms by simp
  then have "sort (map fst (filter ?p remaining)) = sort (map fst (filter ?p remaining'))"
    by (intro properties_for_sort) simp_all
  then show ?thesis by (simp add: ready_repositories_def)
qed

lemma order_rounds_permuted:
  "mset remaining = mset remaining' \<Longrightarrow>
     order_rounds remaining order index = order_rounds remaining' order index"
proof (induction remaining order index arbitrary: remaining' rule: order_rounds.induct)
  case (1 remaining order index)
  show ?case
  proof (cases "remaining = []")
    case False
    then have ne: "remaining' \<noteq> []" using "1.prems" by auto
    let ?ready = "ready_repositories remaining order"
    show ?thesis
    proof (cases "?ready = []")
      case True
      with False ne ready_permuted [OF "1.prems", of order] show ?thesis
        by (simp add: order_rounds.simps [of remaining] order_rounds.simps [of remaining'])
    next
      case ready: False
      have "mset (filter (\<lambda>(repo, deps). repo \<notin> set ?ready) remaining) =
            mset (filter (\<lambda>(repo, deps). repo \<notin> set ?ready) remaining')"
        using "1.prems" by simp
      from "1.IH" [OF False refl ready this] show ?thesis
        using False ne ready ready_permuted [OF "1.prems", of order]
        by (simp add: order_rounds.simps [of remaining] order_rounds.simps [of remaining'] Let_def)
    qed
  qed (use "1.prems" in simp)
qed

subsection \<open>What the numbering promises\<close>

text \<open>\<open>order\<close> numbers each repository after everything it depends on.\<close>

definition orders_dependencies :: "(uuid, int) dict \<Rightarrow> (uuid \<times> uuid list) set \<Rightarrow> bool" where
  "orders_dependencies order R \<longleftrightarrow>
     (\<forall>(repo, deps) \<in> R. \<forall>d \<in> set deps. \<exists>i j. dict_get order d = Some i \<and>
        dict_get order repo = Some j \<and> i < j)"

lemma order_rounds_spec:
  assumes "order_rounds remaining order index = Inr result"
    and dist: "distinct (dict_keys order @ dict_keys remaining)"
    and below: "\<And>v. v \<in> snd ` set order \<Longrightarrow> v < index"
  shows "\<exists>xs. result = order @ numbered index xs \<and> distinct xs \<and>
      set xs = fst ` set remaining \<and> orders_dependencies result (set remaining)"
proof -
  from order_rounds_sound [OF assms(1) dist] obtain xs where
    result: "result = order @ numbered index xs" and xs: "distinct xs" "set xs = fst ` set remaining"
    and first: "deps_first (fst ` set order) (set remaining) xs" by blast
  have keys: "distinct (dict_keys result)" using dist xs by (auto simp: result)
  have "\<exists>i j. dict_get result d = Some i \<and> dict_get result repo = Some j \<and> i < j"
    if mem: "(repo, deps) \<in> set remaining" and d: "d \<in> set deps" for repo deps d
  proof -
    from mem xs(2) have "repo \<in> fst ` set (numbered index xs)" by force
    then obtain j where j: "(repo, j) \<in> set (numbered index xs)" by (elim imageE) (metis prod.collapse)
    from deps_first_numbered [OF first mem j d] obtain i where "(d, i) \<in> set result" "i < j"
    proof
      assume "d \<in> fst ` set order"
      then obtain i where i: "(d, i) \<in> set order" by (elim imageE) (metis prod.collapse)
      then have "i < index" using below imageI [OF i, of snd] by simp
      then have "i < j" using numbered_bounds [OF j] by simp
      with i that show thesis by (auto simp: result)
    qed (use that result in auto)
    moreover have "(repo, j) \<in> set result" using j by (simp add: result)
    ultimately show ?thesis using keys by (metis map_of_is_SomeI)
  qed
  then have "orders_dependencies result (set remaining)"
    unfolding orders_dependencies_def by fast
  with result xs show ?thesis by blast
qed

text \<open>The dependency dictionary of candidates with distinct repositories.\<close>

definition candidate_pairs :: "repository_candidate_input list \<Rightarrow> (uuid \<times> uuid list) list" where
  "candidate_pairs candidates = map (\<lambda>c. (rci_repository_id c, rci_depends_on c)) candidates"

lemma dict_update_new:
  "distinct (map fst kvs) \<Longrightarrow> set (map fst kvs) \<inter> fst ` set d = {} \<Longrightarrow> dict_update kvs d = d @ kvs"
proof (induction kvs arbitrary: d)
  case (Cons kv kvs)
  obtain k v where [simp]: "kv = (k, v)" by (cases kv)
  from Cons.prems have "dict_set k v d = d @ [(k, v)]" by (intro dict_set_new) auto
  with Cons show ?case by auto
qed simp

lemma candidate_dict:
  "distinct (map rci_repository_id candidates) \<Longrightarrow>
     dict_update (map (\<lambda>c. (rci_repository_id c, rci_depends_on c)) candidates) [] =
       candidate_pairs candidates"
  by (subst dict_update_new) (simp_all add: candidate_pairs_def comp_def)

lemma fst_candidate_pairs [simp]:
  "map fst (candidate_pairs candidates) = map rci_repository_id candidates"
  "fst ` set (candidate_pairs candidates) = rci_repository_id ` set candidates"
  by (simp_all add: candidate_pairs_def comp_def image_image)

lemma merge_order_unfold:
  "distinct (map rci_repository_id candidates) \<Longrightarrow>
   merge_order candidates =
     (if \<exists>c \<in> set candidates. \<not> set (rci_depends_on c) \<subseteq> rci_repository_id ` set candidates
      then Inl (DeliveryConflict ''repository dependency is outside the ChangeSet'')
      else order_rounds (candidate_pairs candidates) [] 0)"
  by (auto simp: merge_order_def candidate_dict Let_def) (auto simp: candidate_pairs_def)

lemma merge_order_Inr:
  assumes "merge_order candidates = Inr order"
    and "distinct (map rci_repository_id candidates)"
  shows "\<exists>xs. order = numbered 0 xs \<and> distinct xs \<and> set xs = rci_repository_id ` set candidates \<and>
      orders_dependencies order (set (candidate_pairs candidates))"
proof -
  from assms have "order_rounds (candidate_pairs candidates) [] 0 = Inr order"
    by (simp add: merge_order_unfold split: if_splits)
  from order_rounds_spec [OF this] assms(2) show ?thesis by simp
qed

lemma orders_candidates:
  "orders_dependencies order (set (candidate_pairs candidates)) \<longleftrightarrow>
     (\<forall>c \<in> set candidates. \<forall>d \<in> set (rci_depends_on c). \<exists>i j. dict_get order d = Some i \<and>
        dict_get order (rci_repository_id c) = Some j \<and> i < j)"
  by (simp add: orders_dependencies_def candidate_pairs_def)

subsection \<open>Appended candidates\<close>

lemma merge_order_for_append_Inr:
  assumes "merge_order_for_append c candidates = Inr order"
    and "distinct (map rd_repository_id (cs_repositories c))"
    and "distinct (map rci_repository_id candidates)"
    and "rci_repository_id ` set candidates \<inter> rd_repository_id ` set (cs_repositories c) = {}"
  shows "\<exists>xs. order = map (\<lambda>r. (rd_repository_id r, rd_merge_order r)) (cs_repositories c) @
           numbered (py_max (map rd_merge_order (cs_repositories c)) (-1) + 1) xs \<and>
         distinct xs \<and> set xs = rci_repository_id ` set candidates \<and>
         orders_dependencies order (set (candidate_pairs candidates))"
proof -
  let ?known = "map (\<lambda>r. (rd_repository_id r, rd_merge_order r)) (cs_repositories c)"
  let ?next = "py_max (map rd_merge_order (cs_repositories c)) (-1) + 1"
  have known: "dict_update ?known [] = ?known"
    using assms(2) by (subst dict_update_new) (simp_all add: comp_def)
  then have rounds: "order_rounds (candidate_pairs candidates) ?known ?next = Inr order"
    using assms(1,3) by (simp add: merge_order_for_append_def candidate_dict comp_def Let_def)
  have "distinct (dict_keys ?known @ dict_keys (candidate_pairs candidates))"
    using assms(2-4) by (auto simp: comp_def)
  moreover have "v < ?next" if "v \<in> snd ` set ?known" for v
  proof -
    from that have "v \<in> set (map rd_merge_order (cs_repositories c))" by force
    then show ?thesis using py_max_ge [of v "map rd_merge_order (cs_repositories c)" "-1"] by simp
  qed
  ultimately show ?thesis using order_rounds_spec [OF rounds] by simp
qed

subsection \<open>Properties\<close>

text \<open>C12: The merge order of a ChangeSet numbers its candidates 0 to n-1, each once, and every
  candidate after all the repositories it depends on.\<close>

theorem merge_order_topological:
  assumes "merge_order candidates = Inr order"
    and "distinct (map rci_repository_id candidates)"
  shows "distinct (dict_keys order) \<and>
         set (dict_keys order) = rci_repository_id ` set candidates \<and>
         distinct (dict_values order) \<and>
         set (dict_values order) = {0 ..< int (length candidates)} \<and>
         (\<forall>c \<in> set candidates. \<forall>d \<in> set (rci_depends_on c). \<exists>i j.
            dict_get order d = Some i \<and> dict_get order (rci_repository_id c) = Some j \<and> i < j)"
proof -
  from merge_order_Inr [OF assms] obtain xs where order: "order = numbered 0 xs"
    and xs: "distinct xs" "set xs = rci_repository_id ` set candidates"
    and deps: "orders_dependencies order (set (candidate_pairs candidates))" by blast
  have "length xs = length candidates"
    using xs assms(2) by (metis distinct_card length_map list.set_map)
  then show ?thesis
    using xs deps by (simp add: order distinct_snd_numbered snd_set_numbered orders_candidates)
qed

definition sample_candidates :: "repository_candidate_input list" where
  "sample_candidates =
     [sample_item\<lparr>rci_repository_id := 3, rci_depends_on := [1, 2]\<rparr>,
      sample_item\<lparr>rci_repository_id := 2, rci_depends_on := [1]\<rparr>,
      sample_item]"

lemma sample_merge_order: "merge_order sample_candidates = Inr [(1, 0), (2, 1), (3, 2)]"
  by (simp add: merge_order_def sample_candidates_def sample_item_def Let_def
      order_rounds.simps [of "_ # _"] order_rounds.simps [of "[]"] ready_repositories_def)

theorem merge_order_topological_witness:
  "merge_order sample_candidates = Inr [(1, 0), (2, 1), (3, 2)] \<and>
   (\<exists>i j. dict_get [(1, 0), (2, 1), (3, 2)] (2::uuid) = Some (i::int) \<and>
      dict_get [(1, 0), (2, 1), (3, 2)] (3::uuid) = Some j \<and> i < j)"
proof -
  have "distinct (map rci_repository_id sample_candidates)"
    by (simp add: sample_candidates_def sample_item_def)
  from merge_order_topological [OF sample_merge_order this] sample_merge_order
  show ?thesis by (simp add: sample_candidates_def sample_item_def)
qed

definition dependencies_inside :: "repository_candidate_input list \<Rightarrow> bool" where
  "dependencies_inside candidates \<longleftrightarrow>
     (\<forall>c \<in> set candidates. set (rci_depends_on c) \<subseteq> rci_repository_id ` set candidates)"

definition dependencies_acyclic :: "repository_candidate_input list \<Rightarrow> bool" where
  "dependencies_acyclic candidates \<longleftrightarrow>
     (\<exists>rank :: uuid \<Rightarrow> nat. \<forall>c \<in> set candidates. \<forall>d \<in> set (rci_depends_on c).
        rank d < rank (rci_repository_id c))"

lemma merge_order_inside:
  "distinct (map rci_repository_id candidates) \<Longrightarrow> dependencies_inside candidates \<Longrightarrow>
     merge_order candidates = order_rounds (candidate_pairs candidates) [] 0"
  by (auto simp: merge_order_unfold dependencies_inside_def)

lemma acyclic_rank_candidates:
  "dependencies_inside candidates \<Longrightarrow>
     acyclic_rank rank {} (candidate_pairs candidates) \<longleftrightarrow>
       (\<forall>c \<in> set candidates. \<forall>d \<in> set (rci_depends_on c). rank d < rank (rci_repository_id c))"
  unfolding dependencies_inside_def acyclic_rank_def candidate_pairs_def
  by (force simp: image_image)

text \<open>The merge order fails exactly when a candidate depends on a repository outside the
  ChangeSet or the dependencies admit no ranking, that is when they form a cycle; the two
  cases are told apart by the error.\<close>

theorem merge_order_complete:
  assumes "distinct (map rci_repository_id candidates)"
  shows "(merge_order candidates =
            Inl (DeliveryConflict ''repository dependency is outside the ChangeSet'')
          \<longleftrightarrow> \<not> dependencies_inside candidates) \<and>
         (merge_order candidates =
            Inl (DeliveryConflict ''repository dependency graph contains a cycle'')
          \<longleftrightarrow> dependencies_inside candidates \<and> \<not> dependencies_acyclic candidates) \<and>
         ((\<exists>order. merge_order candidates = Inr order)
          \<longleftrightarrow> dependencies_inside candidates \<and> dependencies_acyclic candidates)"
proof (cases "dependencies_inside candidates")
  case False
  then show ?thesis by (auto simp: merge_order_unfold assms dependencies_inside_def)
next
  case True
  note unfold = merge_order_inside [OF assms True] and rank = acyclic_rank_candidates [OF True]
  show ?thesis
  proof (cases "dependencies_acyclic candidates")
    case acyclic: True
    then obtain rank where "acyclic_rank rank {} (candidate_pairs candidates)"
      unfolding dependencies_acyclic_def rank by blast
    with order_rounds_complete [of rank "[]" "candidate_pairs candidates" 0]
    obtain order where "order_rounds (candidate_pairs candidates) [] 0 = Inr order" by auto
    with True acyclic show ?thesis by (simp add: unfold)
  next
    case cyclic: False
    then have "\<not> acyclic_rank rank {} (candidate_pairs candidates)" for rank
      unfolding dependencies_acyclic_def rank by blast
    with order_rounds_Inr_rank [of "candidate_pairs candidates" "[]" 0] assms
    have "order_rounds (candidate_pairs candidates) [] 0 \<noteq> Inr order" for order by auto
    then have "order_rounds (candidate_pairs candidates) [] 0 =
        Inl (DeliveryConflict ''repository dependency graph contains a cycle'')"
      using order_rounds_Inl by (metis sum.exhaust)
    with True cyclic show ?thesis by (simp add: unfold)
  qed
qed

theorem merge_order_complete_witness:
  "merge_order [sample_item\<lparr>rci_depends_on := [2]\<rparr>,
                sample_item\<lparr>rci_repository_id := 2, rci_depends_on := [1]\<rparr>] =
     Inl (DeliveryConflict ''repository dependency graph contains a cycle'')"
proof -
  let ?cs = "[sample_item\<lparr>rci_depends_on := [2]\<rparr>,
              sample_item\<lparr>rci_repository_id := 2, rci_depends_on := [1]\<rparr>]"
  have dist: "distinct (map rci_repository_id ?cs)" by (simp add: sample_item_def)
  have "dependencies_inside ?cs" by (simp add: dependencies_inside_def sample_item_def)
  moreover have "\<not> dependencies_acyclic ?cs"
    by (auto simp: dependencies_acyclic_def sample_item_def dest: less_asym)
  ultimately show ?thesis using merge_order_complete [OF dist] by blast
qed

text \<open>The merge order does not depend on the order in which the candidates are listed:
  rounds are sorted by repository id.\<close>

theorem merge_order_listing_irrelevant:
  assumes "distinct (map rci_repository_id candidates)"
    and "mset candidates = mset candidates'"
  shows "merge_order candidates = merge_order candidates'"
proof -
  have "mset (map rci_repository_id candidates) = mset (map rci_repository_id candidates')"
    using assms(2) by simp
  then have "distinct (map rci_repository_id candidates')"
    using assms(1) mset_eq_imp_distinct_iff by blast
  moreover have "set candidates = set candidates'" using assms(2) by (metis mset_eq_setD)
  moreover have "mset (candidate_pairs candidates) = mset (candidate_pairs candidates')"
    using assms(2) by (simp add: candidate_pairs_def)
  then have "order_rounds (candidate_pairs candidates) [] 0 =
      order_rounds (candidate_pairs candidates') [] 0"
    by (rule order_rounds_permuted)
  ultimately show ?thesis by (simp add: merge_order_unfold assms(1))
qed

theorem merge_order_listing_irrelevant_witness:
  "merge_order (rev sample_candidates) = Inr [(1, 0), (2, 1), (3, 2)]"
proof -
  have "distinct (map rci_repository_id sample_candidates)"
    by (simp add: sample_candidates_def sample_item_def)
  from merge_order_listing_irrelevant [OF this, of "rev sample_candidates"] sample_merge_order
  show ?thesis by simp
qed

end
