(* ===== verification/Change_Set_Steps.thy ===== *)
theory Change_Set_Steps
  imports Merge_Order
begin

text \<open>
  The life of one ChangeSet: the part of \<open>DeliveryService\<close> that computes aggregates
  (\<open>prepare\<close>, \<open>append_candidates\<close>, \<open>plan_recovery\<close> and the update of one candidate),
  without its store, composed into a step relation. The invariant collects what a ChangeSet
  promises its readers: validated candidates, a topological merge order, a merge cursor at the
  first pending order, a complete revision lineage, governance bound to recorded heads.
\<close>

subsection \<open>Preparing and extending a ChangeSet\<close>

definition candidate_deliveries ::
    "(uuid, int) dict \<Rightarrow> repository_candidate_input list \<Rightarrow> repository_delivery list result" where
  "candidate_deliveries order items =
     map_result (\<lambda>item. case dict_get order (rci_repository_id item) of
        None \<Rightarrow> Inl (ValueError ''KeyError'')
      | Some k \<Rightarrow> rd_of_candidate item k) items"

definition prepare_change_set ::
    "prepare_change_set_command \<Rightarrow> uuid \<Rightarrow> (nat \<Rightarrow> uuid) \<Rightarrow> datetime \<Rightarrow> change_set result" where
  "prepare_change_set command i fresh now =
     rbind (merge_order (pcs_candidates command)) (\<lambda>order.
     rbind (candidate_deliveries order (pcs_candidates command)) (\<lambda>repositories.
     cs_post_init
      \<lparr>cs_organization_id = pcs_organization_id command, cs_project_id = pcs_project_id command,
       cs_created_by_agent_id = pcs_created_by_agent_id command,
       cs_title = py_strip (pcs_title command),
       cs_validation_snapshot_id = pcs_validation_snapshot_id command,
       cs_repositories = repositories, cs_id = i, cs_status = CS_READY, cs_recovery_plans = [],
       cs_governance_decisions = [],
       cs_candidate_revisions = initial_revisions repositories fresh now,
       cs_version = 1, cs_merge_cursor = 0, cs_created_at = now, cs_updated_at = now\<rparr>))"

text \<open>\<open>append_candidates\<close> between its read and its write; the flag says whether it writes.\<close>

definition append_change_set ::
    "append_candidates_command \<Rightarrow> (nat \<Rightarrow> uuid) \<Rightarrow> datetime \<Rightarrow> change_set
     \<Rightarrow> (change_set \<times> bool) result" where
  "append_change_set command fresh now c =
     (let known_ids = set (map rd_repository_id (cs_repositories c));
          new = filter (\<lambda>item. rci_repository_id item \<notin> known_ids) (apc_candidates command);
          combined = known_ids \<union> set (map rci_repository_id new)
      in if new = [] then Inr (c, False)
         else if \<exists>item \<in> set new. \<not> set (rci_depends_on item) \<subseteq> combined
         then Inl (DeliveryConflict ''repository dependency is outside the ChangeSet'')
         else rbind (merge_order_for_append c new) (\<lambda>order.
              rbind (candidate_deliveries order new) (\<lambda>repositories.
              rbind (cs_append_repositories repositories fresh now c) (\<lambda>appended.
              Inr (appended, True)))))"

text \<open>\<open>_recovery_actions\<close>: action \<open>k\<close> gets the fresh id \<open>fresh k\<close>.\<close>

fun recovery_actions_for ::
    "repository_delivery list \<Rightarrow> (nat \<Rightarrow> uuid) \<Rightarrow> recovery_action list \<Rightarrow> recovery_action list" where
  "recovery_actions_for [] fresh actions =
     actions @ [\<lparr>ra_sequence = int (length actions) + 1, ra_kind = RK_REVALIDATE_CHANGESET,
        ra_repository_id = None, ra_run_id = None,
        ra_detail = ''Create a new validation snapshot before delivery resumes.'',
        ra_id = fresh (length actions), ra_status = RA_PENDING\<rparr>]"
| "recovery_actions_for (item # items) fresh actions =
     (if rd_status item = RD_MERGED
      then recovery_actions_for items fresh (actions @
        [\<lparr>ra_sequence = int (length actions) + 1, ra_kind = RK_CREATE_REVERT_PULL_REQUEST,
          ra_repository_id = Some (rd_repository_id item), ra_run_id = None,
          ra_detail = ''Create a revert PR; force-push rollback is forbidden.'',
          ra_id = fresh (length actions), ra_status = RA_PENDING\<rparr>,
         \<lparr>ra_sequence = int (length actions) + 2, ra_kind = RK_MERGE_REVERT_PULL_REQUEST,
          ra_repository_id = Some (rd_repository_id item), ra_run_id = None,
          ra_detail = ''Merge the approved revert PR after required CI checks pass.'',
          ra_id = fresh (length actions + 1), ra_status = RA_PENDING\<rparr>])
      else if rd_pull_request_number item \<noteq> None
      then recovery_actions_for items fresh (actions @
        [\<lparr>ra_sequence = int (length actions) + 1, ra_kind = RK_CLOSE_PULL_REQUEST,
          ra_repository_id = Some (rd_repository_id item), ra_run_id = None,
          ra_detail = ''Close the unmerged PR and retain its evidence.'',
          ra_id = fresh (length actions), ra_status = RA_PENDING\<rparr>])
      else recovery_actions_for items fresh actions)"

text \<open>
  \<open>sorted(affected, key=merge_order, reverse=True)\<close> is stable, so equal orders would stay
  in list order: the reverse of a stable ascending sort of the reversed list.
\<close>

definition affected_repositories :: "change_set \<Rightarrow> uuid option \<Rightarrow> repository_delivery list" where
  "affected_repositories c repository_id =
     rev (sort_key rd_merge_order (rev (filter
       (\<lambda>r. repository_id = None \<or> Some (rd_repository_id r) = repository_id) (cs_repositories c))))"

definition recovery_actions ::
    "change_set \<Rightarrow> plan_recovery_command \<Rightarrow> (nat \<Rightarrow> uuid) \<Rightarrow> recovery_action list" where
  "recovery_actions c command fresh =
     (if prc_trigger command \<in> {RT_RUNNER_FAILED, RT_RUNNER_INTERRUPTED}
      then [\<lparr>ra_sequence = 1,
             ra_kind = (case prc_native_session_id command of
                None \<Rightarrow> RK_RETRY_RUNNER
              | Some s \<Rightarrow> if s = [] then RK_RETRY_RUNNER else RK_RESUME_RUNNER_SESSION),
             ra_repository_id = prc_repository_id command, ra_run_id = prc_run_id command,
             ra_detail = py_strip (prc_reason command), ra_id = fresh 0, ra_status = RA_PENDING\<rparr>]
      else recovery_actions_for (affected_repositories c (prc_repository_id command)) fresh [])"

definition plan_change_set_recovery ::
    "plan_recovery_command \<Rightarrow> uuid \<Rightarrow> (nat \<Rightarrow> uuid) \<Rightarrow> datetime \<Rightarrow> change_set \<Rightarrow> change_set result" where
  "plan_change_set_recovery command i fresh now c =
     cs_add_recovery
       \<lparr>rp_trigger = prc_trigger command, rp_reason = py_strip (prc_reason command),
        rp_actions = recovery_actions c command fresh, rp_id = i, rp_created_at = now\<rparr> now c"

definition govern_change_set ::
    "record_governance_decision_command \<Rightarrow> uuid \<Rightarrow> datetime \<Rightarrow> change_set \<Rightarrow> change_set result" where
  "govern_change_set command i now c =
     rbind (gd_post_init
       \<lparr>gd_repository_id = rgd_repository_id command,
        gd_head_sha = py_lower (py_strip (rgd_head_sha command)), gd_decision = rgd_decision command,
        gd_decided_by_agent_id = rgd_decided_by_agent_id command,
        gd_reason = py_strip (rgd_reason command), gd_id = i, gd_decided_at = now\<rparr>)
       (\<lambda>decision. cs_record_governance decision now c)"

subsection \<open>Operations on one candidate\<close>

text \<open>The operations the service passes to \<open>_update_repository\<close>.\<close>

datatype candidate_operation =
    ObservePR int string string
  | AttachTraceability uuid string uuid "uuid option" uuid
  | ObserveCI bool string string string
  | ObserveReview string string review_state string string
  | ObserveMerge string
  | RequestMerge string

fun apply_operation ::
    "candidate_operation \<Rightarrow> repository_delivery \<Rightarrow> repository_delivery result" where
  "apply_operation (ObservePR number url head) r = rd_observe_pr number url head r"
| "apply_operation (AttachTraceability task_id sha plan_id run_id worker) r =
     rd_attach_traceability task_id sha plan_id run_id worker r"
| "apply_operation (ObserveCI passed run_id summary name) r =
     rd_observe_ci passed run_id summary name r"
| "apply_operation (ObserveReview review_id reviewer state head summary) r =
     rd_observe_review review_id reviewer state head summary r"
| "apply_operation (ObserveMerge sha) r = rd_observe_merge sha r"
| "apply_operation (RequestMerge head) r = rd_request_merge head r"

lemma apply_operation_step: "apply_operation op r = Inr q \<Longrightarrow> rd_step r q"
  by (cases op) (auto intro: rd_step.intros)

lemma apply_operation_head:
  "apply_operation op r = Inr q \<Longrightarrow> rd_commit_sha q = rd_commit_sha r \<and> rd_task_id q = rd_task_id r"
  by (cases op) (auto simp: rd_op_defs rbind_eq_Inr_iff Let_def split: if_splits)

text \<open>
  The guard of \<open>observe_merge\<close>: the dependencies of the target that are not merged. The
  service evaluates it on one read of the ChangeSet and updates a later one, so the steps below
  do not include it.
\<close>

definition cs_repository :: "change_set \<Rightarrow> uuid \<Rightarrow> repository_delivery result" where
  "cs_repository c repository_id =
     (case find (\<lambda>r. rd_repository_id r = repository_id) (cs_repositories c) of
        None \<Rightarrow> Inl (DeliveryNotFound (''repository not in ChangeSet: '' @ uuid_str repository_id))
      | Some r \<Rightarrow> Inr r)"

definition cs_unmet :: "change_set \<Rightarrow> repository_delivery \<Rightarrow> uuid list result" where
  "cs_unmet c target =
     rbind (map_result (\<lambda>d. rbind (cs_repository c d) (\<lambda>r. Inr (d, rd_status r \<noteq> RD_MERGED)))
              (rd_depends_on target))
       (\<lambda>flags. Inr (map fst (filter snd flags)))"

subsection \<open>Steps and reachable ChangeSets\<close>

inductive cs_step :: "change_set \<Rightarrow> change_set \<Rightarrow> bool" where
  operate: "cs_update_repository repository_id (apply_operation op) now c = Inr (d, w) \<Longrightarrow> cs_step c d"
| append: "append_change_set command fresh now c = Inr (d, w) \<Longrightarrow> cs_step c d"
| recover: "plan_change_set_recovery command i fresh now c = Inr d \<Longrightarrow> cs_step c d"
| govern: "govern_change_set command i now c = Inr d \<Longrightarrow> cs_step c d"
| revise: "cs_record_candidate_revision repository_id task_id previous_head new_head reason i now c
     = Inr d \<Longrightarrow> cs_step c d"
| resolve: "cs_record_recovery_action plan_id action_id status detail now c = Inr d \<Longrightarrow> cs_step c d"

inductive_cases cs_stepE: "cs_step c d"

inductive cs_reachable :: "change_set \<Rightarrow> bool" where
  prepared: "prepare_change_set command i fresh now = Inr c \<Longrightarrow> cs_reachable c"
| step: "cs_reachable c \<Longrightarrow> cs_step c d \<Longrightarrow> cs_reachable d"

end
