(* ===== verification/Change_Set_Invariant.thy ===== *)
theory Change_Set_Invariant
  imports Change_Set_Steps
begin

text \<open>
  The invariant of a ChangeSet, preserved by every step of \<open>Change_Set_Steps\<close>: its parts
  are predicates on the candidates and records they speak of, each preserved by each operation
  in a lemma of its own.
\<close>

subsection \<open>What each operation returns\<close>

definition cs_wf :: "change_set \<Rightarrow> bool" where
  "cs_wf c \<longleftrightarrow> \<not> blank (cs_title c) \<and> cs_repositories c \<noteq> [] \<and>
     distinct (map rd_repository_id (cs_repositories c))"

lemma cs_post_init_Inr [simp]: "cs_post_init c = Inr d \<longleftrightarrow> d = c \<and> cs_wf c"
  by (auto simp: cs_post_init_def cs_wf_def)

lemma cs_with_repositories_Inr:
  "cs_with_repositories rs now c = Inr d \<Longrightarrow>
     d = c\<lparr>cs_repositories := rs, cs_status := delivery_status rs, cs_version := cs_version c + 1,
           cs_merge_cursor := py_min (pending_orders rs) (int (length rs)), cs_updated_at := now\<rparr> \<and>
     cs_wf d"
  by (simp add: cs_with_repositories_def)

lemma cs_append_repositories_Inr:
  "cs_append_repositories rs fresh now c = Inr d \<Longrightarrow>
     \<exists>rs'. rs' = cs_repositories c @ rs \<and>
       d = c\<lparr>cs_repositories := rs', cs_status := delivery_status rs', cs_version := cs_version c + 1,
           cs_merge_cursor := py_min (pending_orders rs') (int (length rs')), cs_updated_at := now,
           cs_candidate_revisions := cs_candidate_revisions c @ initial_revisions rs fresh now\<rparr> \<and>
     cs_wf d"
  by (auto simp: cs_append_repositories_def rbind_eq_Inr_iff dest!: cs_with_repositories_Inr
      split: if_splits)

lemma cs_add_recovery_Inr:
  "cs_add_recovery plan now c = Inr d \<Longrightarrow>
     d = c\<lparr>cs_status := CS_COMPENSATING, cs_recovery_plans := cs_recovery_plans c @ [plan],
           cs_version := cs_version c + 1, cs_updated_at := now\<rparr> \<and> cs_wf d"
  by (simp add: cs_add_recovery_def)

lemma cs_record_governance_Inr:
  "cs_record_governance decision now c = Inr d \<Longrightarrow>
     \<exists>r \<in> set (cs_repositories c). rd_repository_id r = gd_repository_id decision \<and>
       rd_commit_sha r = gd_head_sha decision \<and>
       d = c\<lparr>cs_governance_decisions := put_by gd_key decision (cs_governance_decisions c),
             cs_version := cs_version c + 1, cs_updated_at := now\<rparr> \<and> cs_wf d"
  by (auto simp: cs_record_governance_def dest: find_SomeD split: option.splits if_splits)

lemma cs_update_repository_Inr:
  assumes "cs_update_repository repository_id operation now c = Inr (d, w)"
  shows "\<exists>rs. list_all2 (\<lambda>r q. if rd_repository_id r = repository_id then operation r = Inr q
                               else q = r) (cs_repositories c) rs \<and>
    (\<exists>r \<in> set (cs_repositories c). rd_repository_id r = repository_id) \<and>
    (if rs = cs_repositories c then d = c \<and> \<not> w
     else w \<and> cs_with_repositories rs now c = Inr d)"
proof -
  let ?f = "\<lambda>r. if rd_repository_id r = repository_id then operation r else Inr r"
  from assms obtain rs where rs: "map_result ?f (cs_repositories c) = Inr rs"
    by (auto simp: cs_update_repository_def rbind_eq_Inr_iff)
  then have "list_all2 (\<lambda>r q. if rd_repository_id r = repository_id then operation r = Inr q
      else q = r) (cs_repositories c) rs"
    unfolding map_result_Inr_iff by (rule list_all2_mono) (simp split: if_splits)
  moreover have "\<exists>r \<in> set (cs_repositories c). rd_repository_id r = repository_id"
    using assms rs by (simp add: cs_update_repository_def split: if_splits)
  moreover have "if rs = cs_repositories c then d = c \<and> \<not> w
      else w \<and> cs_with_repositories rs now c = Inr d"
    using assms rs by (simp add: cs_update_repository_def rbind_eq_Inr_iff split: if_splits)
  ultimately show ?thesis by blast
qed

lemma cs_revision_Inr:
  assumes "cs_record_candidate_revision repository_id task_id previous_head new_head reason i now c
    = Inr d"
  shows "\<exists>r q v rs. r \<in> set (cs_repositories c) \<and> rd_repository_id r = repository_id \<and>
       rd_revise task_id previous_head new_head r = Inr q \<and>
       rs = map_where (\<lambda>x. rd_repository_id x = repository_id) (\<lambda>_. q) (cs_repositories c) \<and>
       cr_repository_id v = repository_id \<and> cr_task_id v = task_id \<and>
       cr_sequence v = 1 + py_max (map cr_sequence (filter (\<lambda>v. cr_repository_id v = repository_id)
         (cs_candidate_revisions c))) 0 \<and>
       cr_head_sha v = rd_commit_sha q \<and> cr_previous_head_sha v = Some (rd_commit_sha r) \<and>
       pending_orders rs \<noteq> [] \<and>
       d = c\<lparr>cs_repositories := rs, cs_candidate_revisions := cs_candidate_revisions c @ [v],
             cs_status := CS_DELIVERING, cs_merge_cursor := py_min (pending_orders rs) 0,
             cs_version := cs_version c + 1, cs_updated_at := now\<rparr> \<and> cs_wf d"
proof -
  from assms obtain r q where r: "find (\<lambda>r. rd_repository_id r = repository_id) (cs_repositories c) = Some r"
    and q: "rd_revise task_id previous_head new_head r = Inr q"
    by (auto simp: cs_record_candidate_revision_def rbind_eq_Inr_iff split: option.splits)
  let ?v = "\<lparr>cr_repository_id = repository_id, cr_task_id = task_id,
     cr_sequence = 1 + py_max (map cr_sequence (filter (\<lambda>v. cr_repository_id v = repository_id)
         (cs_candidate_revisions c))) 0,
     cr_head_sha = rd_commit_sha q, cr_previous_head_sha = Some (rd_commit_sha r),
     cr_reason = (if py_strip reason \<noteq> [] then py_strip reason else ''candidate rework''),
     cr_id = i, cr_created_at = now\<rparr>"
  let ?rs = "map_where (\<lambda>x. rd_repository_id x = repository_id) (\<lambda>_. q) (cs_repositories c)"
  from assms have "pending_orders ?rs \<noteq> []" and
    "d = c\<lparr>cs_repositories := ?rs, cs_candidate_revisions := cs_candidate_revisions c @ [?v],
             cs_status := CS_DELIVERING, cs_merge_cursor := py_min (pending_orders ?rs) 0,
             cs_version := cs_version c + 1, cs_updated_at := now\<rparr>" and "cs_wf d"
    by (simp_all add: cs_record_candidate_revision_def r q Let_def split: if_splits)
  with q find_SomeD [OF r] show ?thesis
    by (intro exI [of _ r] exI [of _ q] exI [of _ ?v] exI [of _ ?rs]) simp
qed

lemma cs_record_recovery_action_Inr:
  assumes "cs_record_recovery_action plan_id action_id status detail now c = Inr d"
  shows "\<exists>plans active. list_all2 (\<lambda>p q. if rp_id p = plan_id
           then rp_record_action action_id status detail p = Inr q else q = p)
         (cs_recovery_plans c) plans \<and>
       active \<in> set plans \<and> rp_id active = plan_id \<and>
       d = c\<lparr>cs_status := recovery_status (rp_actions active), cs_recovery_plans := plans,
             cs_version := cs_version c + 1, cs_updated_at := now\<rparr> \<and> cs_wf d"
proof -
  from assms obtain plans active where
    "map_result (\<lambda>p. if rp_id p = plan_id then rp_record_action action_id status detail p
                     else Inr p) (cs_recovery_plans c) = Inr plans"
    and "find (\<lambda>p. rp_id p = plan_id) plans = Some active"
    and "cs_post_init (c\<lparr>cs_status := recovery_status (rp_actions active),
        cs_recovery_plans := plans, cs_version := cs_version c + 1, cs_updated_at := now\<rparr>) = Inr d"
    unfolding cs_record_recovery_action_def
    by (auto simp: rbind_eq_Inr_iff split: option.splits if_splits)
  then have "list_all2 (\<lambda>p q. if rp_id p = plan_id
        then rp_record_action action_id status detail p = Inr q else q = p) (cs_recovery_plans c) plans"
    and "active \<in> set plans \<and> rp_id active = plan_id" and
    "d = c\<lparr>cs_status := recovery_status (rp_actions active), cs_recovery_plans := plans,
        cs_version := cs_version c + 1, cs_updated_at := now\<rparr> \<and> cs_wf d"
    unfolding map_result_Inr_iff cs_post_init_Inr
    by (auto elim!: list_all2_mono dest: find_SomeD split: if_splits)
  then show ?thesis by blast
qed

subsection \<open>Merge orders\<close>

definition orders_ok :: "repository_delivery list \<Rightarrow> bool" where
  "orders_ok rs \<longleftrightarrow>
     distinct (map rd_merge_order rs) \<and> set (map rd_merge_order rs) = {0 ..< int (length rs)} \<and>
     (\<forall>r \<in> set rs. \<forall>d \<in> set (rd_depends_on r).
        \<exists>u \<in> set rs. rd_repository_id u = d \<and> rd_merge_order u < rd_merge_order r)"

text \<open>The fields the merge order rests on.\<close>

definition skeleton :: "repository_delivery \<Rightarrow> uuid \<times> int \<times> uuid list" where
  "skeleton r = (rd_repository_id r, rd_merge_order r, rd_depends_on r)"

lemma orders_ok_skeleton:
  "orders_ok rs \<longleftrightarrow>
     (let ks = map skeleton rs in
      distinct (map (fst \<circ> snd) ks) \<and> set (map (fst \<circ> snd) ks) = {0 ..< int (length ks)} \<and>
      (\<forall>(r, k, ds) \<in> set ks. \<forall>d \<in> set ds. \<exists>(r', k', ds') \<in> set ks. r' = d \<and> k' < k))"
  by (simp add: orders_ok_def skeleton_def comp_def Let_def image_image)

lemma orders_ok_cong: "map skeleton rs = map skeleton qs \<Longrightarrow> orders_ok rs = orders_ok qs"
  by (simp only: orders_ok_skeleton)

lemma skeleton_ids: "map skeleton rs = map skeleton qs \<Longrightarrow>
    map rd_repository_id rs = map rd_repository_id qs"
  using map_map [of fst skeleton rs] map_map [of fst skeleton qs]
  by (simp add: comp_def skeleton_def)

lemma rd_step_skeleton: "rd_step r q \<Longrightarrow> skeleton q = skeleton r"
  by (auto simp: skeleton_def dest: rd_step_frame)

lemma list_all2_skeleton:
  "list_all2 (\<lambda>r q. q = r \<or> rd_step r q) rs qs \<Longrightarrow> map skeleton qs = map skeleton rs"
  by (induction rule: list_all2_induct) (auto dest: rd_step_skeleton)

text \<open>Candidates built from their inputs are numbered as the order says.\<close>

lemma candidate_deliveries_all2:
  assumes "candidate_deliveries order items = Inr rs"
  shows "list_all2 (\<lambda>item r. dict_get order (rci_repository_id item) = Some (rd_merge_order r) \<and>
      rd_repository_id r = rci_repository_id item \<and> rd_depends_on r = rci_depends_on item \<and>
      rd_status r = RD_PENDING \<and> (\<exists>k. rd_of_candidate item k = Inr r)) items rs"
  using assms unfolding candidate_deliveries_def map_result_Inr_iff
  by (rule list_all2_mono) (auto dest: rd_of_candidate_fields split: option.splits)

lemma list_all2_ids:
  "list_all2 (\<lambda>x y. f y = g x \<and> P x y) xs ys \<Longrightarrow> map f ys = map g xs"
  by (induction rule: list_all2_induct) auto

lemma candidate_deliveries_ids:
  assumes "candidate_deliveries order items = Inr rs"
  shows "map rd_repository_id rs = map rci_repository_id items"
    and "map rd_depends_on rs = map rci_depends_on items"
    and "length rs = length items"
  using candidate_deliveries_all2 [OF assms]
  by (induction rule: list_all2_induct) auto

lemma candidate_deliveries_new:
  assumes "candidate_deliveries order items = Inr rs" and "r \<in> set rs"
  shows "dict_get order (rd_repository_id r) = Some (rd_merge_order r)"
    and "rd_status r = RD_PENDING" and "rd_inv r"
    and "(rd_repository_id r, rd_depends_on r) \<in> set (candidate_pairs items)"
proof -
  from candidate_deliveries_all2 [OF assms(1)] assms(2) obtain item where "item \<in> set items"
    "dict_get order (rci_repository_id item) = Some (rd_merge_order r) \<and>
      rd_repository_id r = rci_repository_id item \<and> rd_depends_on r = rci_depends_on item \<and>
      rd_status r = RD_PENDING \<and> (\<exists>k. rd_of_candidate item k = Inr r)"
    unfolding list_all2_conv_all_nth in_set_conv_nth by metis
  then show "dict_get order (rd_repository_id r) = Some (rd_merge_order r)"
    "rd_status r = RD_PENDING" "rd_inv r"
    "(rd_repository_id r, rd_depends_on r) \<in> set (candidate_pairs items)"
    by (auto simp: candidate_pairs_def intro: rd_inv_initial)
qed

lemma candidate_deliveries_orders:
  assumes "candidate_deliveries order items = Inr rs"
    and "distinct (map rci_repository_id items)"
    and order: "order = known @ numbered index xs" and "distinct (dict_keys order)"
    and "set xs = rci_repository_id ` set items"
  shows "distinct (map rd_merge_order rs)"
    and "set (map rd_merge_order rs) = {index ..< index + int (length rs)}"
proof -
  let ?ps = "map (\<lambda>r. (rd_repository_id r, rd_merge_order r)) rs"
  have ids: "map rd_repository_id rs = map rci_repository_id items"
    by (rule candidate_deliveries_ids [OF assms(1)])
  then have dist: "distinct (map fst ?ps)" using assms(2) by (simp add: comp_def)
  have "distinct xs" using assms(4) by (simp add: order)
  then have "length xs = card (set xs)" by (simp add: distinct_card)
  also have "\<dots> = card (set (map rci_repository_id items))" by (simp add: assms(5))
  also have "\<dots> = length items" using distinct_card [OF assms(2)] by simp
  finally have "length xs = length items" .
  then have len: "length xs = length rs" using candidate_deliveries_ids(3) [OF assms(1)] by simp
  have sub: "set ?ps \<subseteq> set (numbered index xs)"
  proof
    fix p assume "p \<in> set ?ps"
    then obtain r where r: "r \<in> set rs" "p = (rd_repository_id r, rd_merge_order r)" by auto
    have "p \<in> set order"
      using candidate_deliveries_new(1) [OF assms(1) r(1)] by (simp add: r(2) map_of_SomeD)
    moreover have "fst p \<in> set xs" using r ids assms(5) by (metis fst_conv image_eqI list.set_map)
    then have "fst p \<in> fst ` set (numbered index xs)" by simp
    moreover have "fst p \<notin> fst ` set known" using calculation(2) assms(4) by (auto simp: order)
    ultimately show "p \<in> set (numbered index xs)" by (auto simp: order)
  qed
  have "distinct ?ps" using distinct_map [of fst ?ps] dist by blast
  then have "card (set ?ps) = length rs" using distinct_card by fastforce
  moreover have "card (set (numbered index xs)) \<le> length rs"
    using card_length [of "numbered index xs"] by (simp add: len)
  ultimately have eq: "set ?ps = set (numbered index xs)"
    using sub by (intro card_seteq) simp_all
  have "snd ` set ?ps = set (map rd_merge_order rs)" by (simp add: image_image)
  then show range: "set (map rd_merge_order rs) = {index ..< index + int (length rs)}"
    unfolding eq using len by (simp add: snd_set_numbered)
  show "distinct (map rd_merge_order rs)"
    by (rule card_distinct) (simp add: range del: set_map)
qed

lemma orders_dependenciesD:
  "orders_dependencies order R \<Longrightarrow> (repo, deps) \<in> R \<Longrightarrow> d \<in> set deps \<Longrightarrow>
     \<exists>i j. dict_get order d = Some i \<and> dict_get order repo = Some j \<and> i < j"
  unfolding orders_dependencies_def by fast

lemma orders_ok_prepared:
  assumes "merge_order items = Inr order" and "candidate_deliveries order items = Inr rs"
    and "distinct (map rci_repository_id items)"
  shows "orders_ok rs"
proof -
  from merge_order_Inr [OF assms(1,3)] obtain xs where order: "order = numbered 0 xs" "distinct xs"
    "set xs = rci_repository_id ` set items" "orders_dependencies order (set (candidate_pairs items))"
    by blast
  then have keys: "distinct (dict_keys order)" by simp
  have split: "order = [] @ numbered 0 xs" by (simp add: order(1))
  note orders = candidate_deliveries_orders [OF assms(2,3) split keys order(3)]
  have "\<exists>u \<in> set rs. rd_repository_id u = d \<and> rd_merge_order u < rd_merge_order r"
    if r: "r \<in> set rs" and d: "d \<in> set (rd_depends_on r)" for r d
  proof -
    note new = candidate_deliveries_new [OF assms(2) r]
    from orders_dependenciesD [OF order(4) new(4) d] obtain i j where ij: "dict_get order d = Some i"
      "dict_get order (rd_repository_id r) = Some j" "i < j" by blast
    have "d \<in> fst ` set order" using ij(1) by (metis map_of_eq_None_iff option.distinct(1))
    then have "d \<in> set (map rd_repository_id rs)"
      using order(1,3) by (simp add: candidate_deliveries_ids(1) [OF assms(2)] del: set_map) (simp add: order(1,3))
    then obtain u where "u \<in> set rs" "rd_repository_id u = d" by auto
    with candidate_deliveries_new(1) [OF assms(2) this(1)] ij new(1) show ?thesis by auto
  qed
  with orders show ?thesis by (simp add: orders_ok_def)
qed

lemma orders_ok_appended:
  assumes "orders_ok (cs_repositories c)" and "distinct (map rd_repository_id (cs_repositories c @ rs))"
    and "merge_order_for_append c items = Inr order" and "candidate_deliveries order items = Inr rs"
  shows "orders_ok (cs_repositories c @ rs)"
proof -
  let ?old = "cs_repositories c"
  let ?known = "map (\<lambda>r. (rd_repository_id r, rd_merge_order r)) ?old"
  have ids: "map rd_repository_id rs = map rci_repository_id items"
    by (rule candidate_deliveries_ids [OF assms(4)])
  then have idset: "rd_repository_id ` set rs = rci_repository_id ` set items"
    by (metis list.set_map)
  have dist: "distinct (map rci_repository_id items)" "distinct (map rd_repository_id ?old)"
    "rci_repository_id ` set items \<inter> rd_repository_id ` set ?old = {}"
    using assms(2) ids idset by auto
  from merge_order_for_append_Inr [OF assms(3) dist(2,1,3)] obtain index xs where
    index: "index = py_max (map rd_merge_order ?old) (-1) + 1" and
    order: "order = ?known @ numbered index xs" "distinct xs" "set xs = rci_repository_id ` set items"
      "orders_dependencies order (set (candidate_pairs items))" by blast
  have keys: "distinct (dict_keys order)"
    using dist order(2,3) by (auto simp: order(1) comp_def)
  note orders = candidate_deliveries_orders [OF assms(4) dist(1) order(1) keys order(3)]
  have old: "set (map rd_merge_order ?old) = {0 ..< int (length ?old)}"
    "distinct (map rd_merge_order ?old)" using assms(1) by (simp_all add: orders_ok_def)
  have len: "index = int (length ?old)"
  proof (cases "?old = []")
    case False
    then have "Max {0 ..< int (length ?old)} = int (length ?old) - 1"
      by (intro Max_eqI) auto
    with False old(1) show ?thesis by (simp add: index py_max_Max del: set_map)
  qed (simp add: index)
  have get_old: "dict_get order (rd_repository_id u) = Some (rd_merge_order u)" if "u \<in> set ?old" for u
    using that keys by (auto simp: order(1) intro!: map_of_is_SomeI)
  have get: "dict_get order (rd_repository_id u) = Some (rd_merge_order u)" if "u \<in> set (?old @ rs)" for u
    using that get_old candidate_deliveries_new(1) [OF assms(4)] by auto
  have "\<exists>u \<in> set (?old @ rs). rd_repository_id u = d \<and> rd_merge_order u < rd_merge_order r"
    if r: "r \<in> set rs" and d: "d \<in> set (rd_depends_on r)" for r d
  proof -
    note new = candidate_deliveries_new [OF assms(4) r]
    from orders_dependenciesD [OF order(4) new(4) d] obtain i j where ij: "dict_get order d = Some i"
      "dict_get order (rd_repository_id r) = Some j" "i < j" by blast
    have "d \<in> fst ` set order" using ij(1) by (metis map_of_eq_None_iff option.distinct(1))
    then have "d \<in> rd_repository_id ` set (?old @ rs)"
      using idset by (auto simp: order(1,3) image_Un image_image)
    then obtain u where "u \<in> set (?old @ rs)" "rd_repository_id u = d" by auto
    with get [OF this(1)] ij new(1) show ?thesis by auto
  qed
  moreover have "\<exists>u \<in> set (?old @ rs). rd_repository_id u = d \<and> rd_merge_order u < rd_merge_order r"
    if "r \<in> set ?old" "d \<in> set (rd_depends_on r)" for r d
    using that assms(1) unfolding orders_ok_def by (metis Un_iff set_append)
  moreover have "distinct (map rd_merge_order (?old @ rs))"
    using old orders by (simp add: len del: set_map)
  moreover have "set (map rd_merge_order (?old @ rs)) = {0 ..< int (length (?old @ rs))}"
    using old(1) orders(2) by (auto simp: len)
  ultimately show ?thesis by (simp add: orders_ok_def) blast
qed

lemma orders_pending_min:
  assumes "orders_ok rs" and "rs \<noteq> []" and "\<forall>r \<in> set rs. rd_status r \<noteq> RD_MERGED"
  shows "py_min (pending_orders rs) d = 0"
proof -
  from assms(3) have "pending_orders rs = map rd_merge_order rs" by (simp add: pending_orders_def)
  moreover have "Min {0 ..< int (length rs)} = 0" using assms(2) by (intro Min_eqI) auto
  ultimately show ?thesis using assms(1,2) by (simp add: orders_ok_def py_min_Min del: set_map)
qed

subsection \<open>Revision lineage\<close>

definition revisions_of :: "uuid \<Rightarrow> candidate_revision list \<Rightarrow> candidate_revision list" where
  "revisions_of repository_id vs = filter (\<lambda>v. cr_repository_id v = repository_id) vs"

text \<open>Sequences 0, 1, ...; each revision names its predecessor's head; \<open>head\<close> is the last.\<close>

inductive lineage :: "candidate_revision list \<Rightarrow> string \<Rightarrow> bool" where
  first: "cr_sequence v = 0 \<Longrightarrow> cr_previous_head_sha v = None \<Longrightarrow> lineage [v] (cr_head_sha v)"
| next_revision: "lineage vs head \<Longrightarrow> cr_sequence v = int (length vs) \<Longrightarrow>
     cr_previous_head_sha v = Some head \<Longrightarrow> cr_head_sha v \<noteq> head \<Longrightarrow>
     lineage (vs @ [v]) (cr_head_sha v)"

lemma lineage_sequences:
  "lineage vs head \<Longrightarrow> vs \<noteq> [] \<and> map cr_sequence vs = map int [0 ..< length vs]"
  by (induction rule: lineage.induct) auto

lemma lineage_last: "lineage vs head \<Longrightarrow> \<exists>v \<in> set vs. cr_head_sha v = head"
  by (induction rule: lineage.induct) auto

lemma lineage_max: "lineage vs head \<Longrightarrow> 1 + py_max (map cr_sequence vs) 0 = int (length vs)"
proof -
  assume "lineage vs head"
  with lineage_sequences have ne: "vs \<noteq> []" and seqs: "map cr_sequence vs = map int [0 ..< length vs]"
    by auto
  have "Max (int ` {0 ..< length vs}) = int (length vs - 1)"
    using ne by (intro Max_eqI) auto
  with ne show ?thesis unfolding seqs by (simp add: py_max_Max Suc_le_eq of_nat_diff)
qed

definition lineages_ok :: "repository_delivery list \<Rightarrow> candidate_revision list \<Rightarrow> bool" where
  "lineages_ok rs vs \<longleftrightarrow>
     (\<forall>r \<in> set rs. lineage (revisions_of (rd_repository_id r) vs) (rd_commit_sha r)) \<and>
     (\<forall>v \<in> set vs. cr_repository_id v \<in> rd_repository_id ` set rs)"

lemma initial_revisions_ids:
  "map cr_repository_id (initial_revisions rs fresh now) = map rd_repository_id rs"
proof -
  have "map cr_repository_id (map (\<lambda>(k, r). initial_revision r (fresh k) now) (enumerate n rs)) =
      map rd_repository_id rs" for n
    by (induction rs arbitrary: n) (auto simp: initial_revision_def)
  then show ?thesis by (simp add: initial_revisions_def)
qed

lemma initial_revisions_of:
  assumes "distinct (map rd_repository_id rs)" and "r \<in> set rs"
  shows "\<exists>i. revisions_of (rd_repository_id r) (initial_revisions rs fresh now) = [initial_revision r i now]"
proof -
  have none: "filter (\<lambda>v. cr_repository_id v = k)
      (map (\<lambda>(k, r). initial_revision r (fresh k) now) (enumerate n qs)) = []"
    if "k \<notin> rd_repository_id ` set qs" for k n qs
    using that by (induction qs arbitrary: n) (auto simp: initial_revision_def)
  have "\<exists>i. filter (\<lambda>v. cr_repository_id v = rd_repository_id r)
      (map (\<lambda>(k, r). initial_revision r (fresh k) now) (enumerate n rs)) = [initial_revision r i now]" for n
    using assms
  proof (induction rs arbitrary: n)
    case (Cons q qs)
    then show ?case
    proof (cases "r = q")
      case True
      with Cons.prems none [of "rd_repository_id r" qs "Suc n"] show ?thesis
        by (auto simp: initial_revision_def)
    next
      case False
      with Cons.prems have "rd_repository_id q \<noteq> rd_repository_id r" by (auto simp: image_iff)
      with Cons False show ?thesis by (auto simp: initial_revision_def)
    qed
  qed simp
  then show ?thesis by (simp add: initial_revisions_def revisions_of_def)
qed

lemma lineages_ok_initial:
  assumes "distinct (map rd_repository_id rs)"
  shows "lineages_ok rs (initial_revisions rs fresh now)"
proof -
  have "lineage [initial_revision r i now] (rd_commit_sha r)" for r i
    using lineage.first [of "initial_revision r i now"] by (simp add: initial_revision_def)
  moreover have "cr_repository_id ` set (initial_revisions rs fresh now) = rd_repository_id ` set rs"
    by (metis initial_revisions_ids list.set_map)
  ultimately show ?thesis
    using initial_revisions_of [OF assms, of _ fresh now] unfolding lineages_ok_def
    by (metis imageI)
qed

lemma revisions_of_other:
  "repository_id \<notin> cr_repository_id ` set vs \<Longrightarrow> revisions_of repository_id vs = []"
  by (auto simp: revisions_of_def filter_empty_conv)

lemma revisions_of_append [simp]:
  "revisions_of k (vs @ ws) = revisions_of k vs @ revisions_of k ws"
  by (simp add: revisions_of_def)

lemma lineages_ok_append:
  assumes "lineages_ok rs vs" and "lineages_ok qs ws"
    and "rd_repository_id ` set rs \<inter> rd_repository_id ` set qs = {}"
  shows "lineages_ok (rs @ qs) (vs @ ws)"
proof -
  have "lineage (revisions_of (rd_repository_id r) (vs @ ws)) (rd_commit_sha r)" if "r \<in> set rs" for r
  proof -
    have "rd_repository_id r \<notin> cr_repository_id ` set ws"
      using that assms(2,3) unfolding lineages_ok_def by (metis disjoint_iff imageE imageI)
    with that assms(1) show ?thesis by (simp add: lineages_ok_def revisions_of_other)
  qed
  moreover have "lineage (revisions_of (rd_repository_id r) (vs @ ws)) (rd_commit_sha r)"
    if "r \<in> set qs" for r
  proof -
    have "rd_repository_id r \<notin> cr_repository_id ` set vs"
      using that assms(1,3) unfolding lineages_ok_def by (metis disjoint_iff imageE imageI)
    with that assms(2) show ?thesis by (simp add: lineages_ok_def revisions_of_other)
  qed
  moreover have "cr_repository_id v \<in> rd_repository_id ` set (rs @ qs)" if "v \<in> set (vs @ ws)" for v
    using that assms(1,2) by (auto simp: lineages_ok_def)
  ultimately show ?thesis by (auto simp: lineages_ok_def)
qed

lemma lineages_ok_cong:
  assumes "map (\<lambda>r. (rd_repository_id r, rd_commit_sha r)) rs =
           map (\<lambda>r. (rd_repository_id r, rd_commit_sha r)) qs"
  shows "lineages_ok rs vs = lineages_ok qs vs"
proof -
  let ?p = "\<lambda>r. (rd_repository_id r, rd_commit_sha r)"
  have pairs: "lineages_ok rs vs \<longleftrightarrow>
     (\<forall>x \<in> set (map ?p rs). lineage (revisions_of (fst x) vs) (snd x)) \<and>
     (\<forall>v \<in> set vs. cr_repository_id v \<in> fst ` set (map ?p rs))" for rs
    by (simp add: lineages_ok_def image_image)
  show ?thesis unfolding pairs assms ..
qed

lemma lineages_ok_revise:
  assumes "lineages_ok rs vs" and "r \<in> set rs" and "distinct (map rd_repository_id rs)"
    and "rd_repository_id q = rd_repository_id r" and "rd_commit_sha q \<noteq> rd_commit_sha r"
    and v: "cr_repository_id v = rd_repository_id r" "cr_head_sha v = rd_commit_sha q"
      "cr_previous_head_sha v = Some (rd_commit_sha r)"
      "cr_sequence v = 1 + py_max (map cr_sequence (revisions_of (rd_repository_id r) vs)) 0"
  shows "lineages_ok (map_where (\<lambda>x. rd_repository_id x = rd_repository_id r) (\<lambda>_. q) rs) (vs @ [v])"
proof -
  let ?rs = "map_where (\<lambda>x. rd_repository_id x = rd_repository_id r) (\<lambda>_. q) rs"
  have old: "lineage (revisions_of (rd_repository_id r) vs) (rd_commit_sha r)"
    using assms(1,2) by (simp add: lineages_ok_def)
  have "lineage (revisions_of (rd_repository_id r) vs @ [v]) (rd_commit_sha q)"
    using lineage.next_revision [OF old, of v] lineage_max [OF old] v assms(5) by simp
  then have new: "lineage (revisions_of (rd_repository_id q) (vs @ [v])) (rd_commit_sha q)"
    using assms(4) v(1) by (simp add: revisions_of_def)
  have other: "lineage (revisions_of (rd_repository_id x) (vs @ [v])) (rd_commit_sha x)"
    if "x \<in> set rs" "rd_repository_id x \<noteq> rd_repository_id r" for x
    using that assms(1) v(1) by (simp add: lineages_ok_def revisions_of_def)
  have "set ?rs \<subseteq> insert q {x \<in> set rs. rd_repository_id x \<noteq> rd_repository_id r}"
    by (auto simp: set_map_where)
  then have "\<forall>x \<in> set ?rs. lineage (revisions_of (rd_repository_id x) (vs @ [v])) (rd_commit_sha x)"
    using new other by blast
  moreover have "map rd_repository_id ?rs = map rd_repository_id rs"
    by (rule map_map_where) (simp add: assms(4))
  then have "rd_repository_id ` set ?rs = rd_repository_id ` set rs" by (metis list.set_map)
  moreover have "\<forall>x \<in> set (vs @ [v]). cr_repository_id x \<in> rd_repository_id ` set rs"
    using assms(1,2) v(1) by (simp add: lineages_ok_def)
  ultimately show ?thesis unfolding lineages_ok_def by simp
qed

subsection \<open>Governance and status\<close>

definition governance_ok :: "governance_decision list \<Rightarrow> candidate_revision list \<Rightarrow> bool" where
  "governance_ok gs vs \<longleftrightarrow> distinct (map gd_key gs) \<and>
     (\<forall>g \<in> set gs. \<exists>v \<in> set vs. cr_repository_id v = gd_repository_id g \<and> cr_head_sha v = gd_head_sha g)"

lemma governance_ok_more: "governance_ok gs vs \<Longrightarrow> governance_ok gs (vs @ ws)"
  by (auto simp: governance_ok_def)

lemma governance_ok_put:
  assumes "governance_ok gs vs" and "lineages_ok rs vs" and "r \<in> set rs"
    and "rd_repository_id r = gd_repository_id g" and "rd_commit_sha r = gd_head_sha g"
  shows "governance_ok (put_by gd_key g gs) vs"
proof -
  from assms(2,3) lineage_last obtain v where "v \<in> set (revisions_of (rd_repository_id r) vs)"
    "cr_head_sha v = rd_commit_sha r" unfolding lineages_ok_def by metis
  with assms(4,5) have "\<exists>v \<in> set vs. cr_repository_id v = gd_repository_id g \<and> cr_head_sha v = gd_head_sha g"
    by (auto simp: revisions_of_def)
  with assms(1) show ?thesis by (auto simp: governance_ok_def set_put_by distinct_put_by)
qed

definition plan_finished :: "recovery_plan \<Rightarrow> bool" where
  "plan_finished p \<longleftrightarrow> (\<forall>a \<in> set (rp_actions p). ra_status a \<in> {RA_SUCCEEDED, RA_SKIPPED})"

definition status_ok :: "change_set_status \<Rightarrow> repository_delivery list \<Rightarrow> recovery_plan list \<Rightarrow> bool" where
  "status_ok s rs plans \<longleftrightarrow>
     (s = CS_DELIVERED \<longrightarrow> (\<forall>r \<in> set rs. rd_status r = RD_MERGED)) \<and>
     (s = CS_COMPENSATED \<longrightarrow> (\<exists>p \<in> set plans. plan_finished p))"

lemma status_ok_delivery [simp]: "status_ok (delivery_status rs) rs plans"
  by (simp add: status_ok_def delivery_status_def)

lemma status_ok_plain [simp]:
  "s \<in> {CS_READY, CS_DELIVERING, CS_BLOCKED, CS_COMPENSATING, CS_MANUAL_INTERVENTION} \<Longrightarrow>
     status_ok s rs plans"
  by (auto simp: status_ok_def)

lemma status_ok_recovery [simp]:
  "active \<in> set plans \<Longrightarrow> status_ok (recovery_status (rp_actions active)) rs plans"
  by (auto simp: status_ok_def recovery_status_def plan_finished_def)

subsection \<open>The invariant\<close>

definition cs_inv :: "change_set \<Rightarrow> bool" where
  "cs_inv c \<longleftrightarrow>
     cs_wf c \<and> (\<forall>r \<in> set (cs_repositories c). rd_inv r) \<and> orders_ok (cs_repositories c) \<and>
     cs_merge_cursor c =
       py_min (pending_orders (cs_repositories c)) (int (length (cs_repositories c))) \<and>
     lineages_ok (cs_repositories c) (cs_candidate_revisions c) \<and>
     governance_ok (cs_governance_decisions c) (cs_candidate_revisions c) \<and>
     status_ok (cs_status c) (cs_repositories c) (cs_recovery_plans c)"

lemma cs_inv_prepared:
  assumes "prepare_change_set command i fresh now = Inr c"
  shows "cs_inv c"
proof -
  from assms obtain order rs where order: "merge_order (pcs_candidates command) = Inr order"
    and rs: "candidate_deliveries order (pcs_candidates command) = Inr rs"
    and repos: "cs_repositories c = rs" and wf: "cs_wf c"
    and fields: "cs_merge_cursor c = 0" "cs_governance_decisions c = []" "cs_status c = CS_READY"
      "cs_candidate_revisions c = initial_revisions rs fresh now"
    by (auto simp: prepare_change_set_def rbind_eq_Inr_iff)
  from wf repos have dist: "distinct (map rd_repository_id rs)" and ne: "rs \<noteq> []"
    by (auto simp: cs_wf_def)
  then have "distinct (map rci_repository_id (pcs_candidates command))"
    by (simp add: candidate_deliveries_ids(1) [OF rs])
  then have orders: "orders_ok rs" by (rule orders_ok_prepared [OF order rs])
  have "\<forall>r \<in> set rs. rd_status r \<noteq> RD_MERGED"
    using candidate_deliveries_new(2) [OF rs] by simp
  then have "py_min (pending_orders rs) (int (length rs)) = 0"
    by (rule orders_pending_min [OF orders ne])
  moreover have "\<forall>r \<in> set rs. rd_inv r" using candidate_deliveries_new(3) [OF rs] by blast
  moreover have "governance_ok [] vs" for vs by (simp add: governance_ok_def)
  ultimately show ?thesis
    using wf orders lineages_ok_initial [OF dist] by (simp add: cs_inv_def repos fields)
qed

lemma apply_all2:
  assumes "list_all2 (\<lambda>r q. if rd_repository_id r = repository_id then apply_operation op r = Inr q
      else q = r) rs qs"
  shows "list_all2 (\<lambda>r q. q = r \<or> rd_step r q) rs qs"
    and "map (\<lambda>r. (rd_repository_id r, rd_commit_sha r)) qs =
         map (\<lambda>r. (rd_repository_id r, rd_commit_sha r)) rs"
proof -
  from assms show "list_all2 (\<lambda>r q. q = r \<or> rd_step r q) rs qs"
    by (rule list_all2_mono) (auto dest: apply_operation_step split: if_splits)
  have same: "(rd_repository_id q, rd_commit_sha q) = (rd_repository_id r, rd_commit_sha r)"
    if "if rd_repository_id r = repository_id then apply_operation op r = Inr q else q = r" for r q
    using that apply_operation_head [of op r q] apply_operation_step [of op r q]
      rd_step_frame [of r q] by (auto split: if_splits)
  from assms show "map (\<lambda>r. (rd_repository_id r, rd_commit_sha r)) qs =
      map (\<lambda>r. (rd_repository_id r, rd_commit_sha r)) rs"
  proof (induction rule: list_all2_induct)
    case (Cons x xs y ys)
    with same [OF Cons.hyps(1)] show ?case by simp
  qed simp
qed

lemma list_all2_rd_inv:
  "list_all2 (\<lambda>r q. q = r \<or> rd_step r q) rs qs \<Longrightarrow> \<forall>r \<in> set rs. rd_inv r \<Longrightarrow> \<forall>q \<in> set qs. rd_inv q"
  by (induction rule: list_all2_induct) (auto dest: rd_step_inv)

lemma cs_inv_operate:
  assumes "cs_update_repository repository_id (apply_operation op) now c = Inr (d, w)" and inv: "cs_inv c"
  shows "cs_inv d"
proof -
  from cs_update_repository_Inr [OF assms(1)] obtain rs where
    all2: "list_all2 (\<lambda>r q. if rd_repository_id r = repository_id then apply_operation op r = Inr q
      else q = r) (cs_repositories c) rs"
    and d: "if rs = cs_repositories c then d = c \<and> \<not> w else w \<and> cs_with_repositories rs now c = Inr d"
    by blast
  show ?thesis
  proof (cases "rs = cs_repositories c")
    case True
    with d inv show ?thesis by simp
  next
    case False
    with d have "cs_with_repositories rs now c = Inr d" by simp
    from cs_with_repositories_Inr [OF this] have wf: "cs_wf d" and d: "d =
        c\<lparr>cs_repositories := rs, cs_status := delivery_status rs, cs_version := cs_version c + 1,
           cs_merge_cursor := py_min (pending_orders rs) (int (length rs)), cs_updated_at := now\<rparr>"
      by blast+
    note steps = apply_all2 [OF all2]
    have "\<forall>r \<in> set rs. rd_inv r" using list_all2_rd_inv [OF steps(1)] inv by (simp add: cs_inv_def)
    moreover have "orders_ok rs"
      using orders_ok_cong [OF list_all2_skeleton [OF steps(1)]] inv by (simp add: cs_inv_def)
    moreover have "lineages_ok rs (cs_candidate_revisions c)"
      using lineages_ok_cong [OF steps(2)] inv by (simp add: cs_inv_def)
    ultimately show ?thesis using inv wf unfolding cs_inv_def by (simp add: d)
  qed
qed

lemma cs_inv_append:
  assumes "append_change_set command fresh now c = Inr (d, w)" and inv: "cs_inv c"
  shows "cs_inv d"
proof -
  let ?new = "filter (\<lambda>item. rci_repository_id item \<notin> set (map rd_repository_id (cs_repositories c)))
      (apc_candidates command)"
  show ?thesis
  proof (cases "?new = []")
    case True
    with assms show ?thesis by (simp add: append_change_set_def Let_def)
  next
    case False
    with assms(1) obtain order rs where order: "merge_order_for_append c ?new = Inr order"
      and rs: "candidate_deliveries order ?new = Inr rs"
      and app: "cs_append_repositories rs fresh now c = Inr d"
      by (auto simp: append_change_set_def Let_def rbind_eq_Inr_iff split: if_splits)
    from cs_append_repositories_Inr [OF app] have wf: "cs_wf d" and d: "d =
      c\<lparr>cs_repositories := cs_repositories c @ rs, cs_status := delivery_status (cs_repositories c @ rs),
        cs_version := cs_version c + 1,
        cs_merge_cursor := py_min (pending_orders (cs_repositories c @ rs))
          (int (length (cs_repositories c @ rs))), cs_updated_at := now,
        cs_candidate_revisions := cs_candidate_revisions c @ initial_revisions rs fresh now\<rparr>"
      by blast+
    from wf have dist: "distinct (map rd_repository_id (cs_repositories c @ rs))"
      by (simp add: cs_wf_def d)
    have "orders_ok (cs_repositories c @ rs)"
      using inv by (intro orders_ok_appended [OF _ dist order rs]) (simp add: cs_inv_def)
    moreover have "lineages_ok (cs_repositories c @ rs)
        (cs_candidate_revisions c @ initial_revisions rs fresh now)"
      using dist inv by (intro lineages_ok_append lineages_ok_initial) (auto simp: cs_inv_def)
    moreover have "\<forall>r \<in> set (cs_repositories c @ rs). rd_inv r"
      using candidate_deliveries_new(3) [OF rs] inv by (auto simp: cs_inv_def)
    moreover have "governance_ok (cs_governance_decisions c)
        (cs_candidate_revisions c @ initial_revisions rs fresh now)"
      using inv by (simp add: cs_inv_def governance_ok_more)
    ultimately show ?thesis using wf unfolding cs_inv_def by (simp add: d)
  qed
qed

lemma cs_inv_recover:
  assumes "plan_change_set_recovery command i fresh now c = Inr d" and "cs_inv c"
  shows "cs_inv d"
  using assms unfolding plan_change_set_recovery_def cs_inv_def by (auto dest!: cs_add_recovery_Inr)

lemma cs_inv_govern:
  assumes "govern_change_set command i now c = Inr d" and inv: "cs_inv c"
  shows "cs_inv d"
proof -
  from assms(1) obtain g where "cs_record_governance g now c = Inr d"
    by (auto simp: govern_change_set_def rbind_eq_Inr_iff)
  from cs_record_governance_Inr [OF this] obtain r where r: "r \<in> set (cs_repositories c)"
    "rd_repository_id r = gd_repository_id g" "rd_commit_sha r = gd_head_sha g" and wf: "cs_wf d"
    and d: "d = c\<lparr>cs_governance_decisions := put_by gd_key g (cs_governance_decisions c),
             cs_version := cs_version c + 1, cs_updated_at := now\<rparr>" by blast
  have "governance_ok (put_by gd_key g (cs_governance_decisions c)) (cs_candidate_revisions c)"
    using inv r by (intro governance_ok_put) (auto simp: cs_inv_def)
  then show ?thesis using inv wf unfolding cs_inv_def by (simp add: d)
qed

lemma rd_revise_changes_head:
  "rd_revise task_id previous_head new_head r = Inr q \<Longrightarrow> rd_commit_sha q \<noteq> rd_commit_sha r"
  by (auto simp: rd_revise_def rbind_eq_Inr_iff split: if_splits)

lemma cs_inv_revise:
  assumes "cs_record_candidate_revision repository_id task_id previous_head new_head reason i now c
      = Inr d" and inv: "cs_inv c"
  shows "cs_inv d"
proof -
  from cs_revision_Inr [OF assms(1)] obtain r q v rs where r: "r \<in> set (cs_repositories c)"
    and id: "repository_id = rd_repository_id r"
    and q: "rd_revise task_id previous_head new_head r = Inr q"
    and rs: "rs = map_where (\<lambda>x. rd_repository_id x = repository_id) (\<lambda>_. q) (cs_repositories c)"
    and v: "cr_repository_id v = repository_id" "cr_head_sha v = rd_commit_sha q"
      "cr_previous_head_sha v = Some (rd_commit_sha r)"
      "cr_sequence v = 1 + py_max (map cr_sequence (filter (\<lambda>v. cr_repository_id v = repository_id)
         (cs_candidate_revisions c))) 0"
    and pending: "pending_orders rs \<noteq> []" and wf: "cs_wf d"
    and d: "d = c\<lparr>cs_repositories := rs, cs_candidate_revisions := cs_candidate_revisions c @ [v],
             cs_status := CS_DELIVERING, cs_merge_cursor := py_min (pending_orders rs) 0,
             cs_version := cs_version c + 1, cs_updated_at := now\<rparr>" by blast
  have step: "rd_step r q" using q by (rule rd_step.revise)
  have dist: "distinct (map rd_repository_id (cs_repositories c))"
    using inv by (simp add: cs_inv_def cs_wf_def)
  have only: "x = r" if "x \<in> set (cs_repositories c)" "rd_repository_id x = repository_id" for x
    using that r dist id by (auto simp: distinct_map dest: inj_onD)
  have "list_all2 (\<lambda>r q. q = r \<or> rd_step r q) (cs_repositories c) rs"
    unfolding rs map_where_def list_all2_map2
    by (rule list.rel_refl_strong) (use step only in auto)
  then have "\<forall>r \<in> set rs. rd_inv r" and skel: "map skeleton rs = map skeleton (cs_repositories c)"
    using list_all2_rd_inv list_all2_skeleton inv by (auto simp: cs_inv_def)
  moreover have "orders_ok rs" using orders_ok_cong [OF skel] inv by (simp add: cs_inv_def)
  moreover have "lineages_ok rs (cs_candidate_revisions c @ [v])"
    unfolding rs id
    using inv r dist rd_step_frame [OF step] rd_revise_changes_head [OF q] v
    by (intro lineages_ok_revise) (auto simp: cs_inv_def id revisions_of_def)
  moreover have "governance_ok (cs_governance_decisions c) (cs_candidate_revisions c @ [v])"
    using inv by (simp add: cs_inv_def governance_ok_more)
  moreover have "py_min (pending_orders rs) 0 = py_min (pending_orders rs) (int (length rs))"
    using pending by (simp add: py_min_Min)
  ultimately show ?thesis using wf unfolding cs_inv_def by (simp add: d)
qed

lemma cs_inv_resolve:
  assumes "cs_record_recovery_action plan_id action_id status detail now c = Inr d" and "cs_inv c"
  shows "cs_inv d"
  using assms unfolding cs_inv_def by (auto dest!: cs_record_recovery_action_Inr)

lemma cs_step_inv: "cs_step c d \<Longrightarrow> cs_inv c \<Longrightarrow> cs_inv d"
  by (erule cs_stepE)
    (blast intro: cs_inv_operate cs_inv_append cs_inv_recover cs_inv_govern cs_inv_revise cs_inv_resolve)+

lemma cs_reachable_inv: "cs_reachable c \<Longrightarrow> cs_inv c"
  by (induction rule: cs_reachable.induct) (auto intro: cs_inv_prepared cs_step_inv)

text \<open>Every step that changes the aggregate raises its version by one.\<close>

lemma cs_update_version:
  "cs_update_repository repository_id operation now c = Inr (d, w) \<Longrightarrow>
     if w then cs_version d = cs_version c + 1 else d = c"
  by (drule cs_update_repository_Inr)
    (auto dest: cs_with_repositories_Inr split: if_splits)

lemma append_version:
  assumes "append_change_set command fresh now c = Inr (d, w)"
  shows "if w then cs_version d = cs_version c + 1 else d = c"
  using assms
  by (auto simp: append_change_set_def Let_def rbind_eq_Inr_iff dest!: cs_append_repositories_Inr
      split: if_splits)

lemma cs_step_version: "cs_step c d \<Longrightarrow> d = c \<or> cs_version d = cs_version c + 1"
proof (erule cs_stepE)
  fix repository_id op now w assume "cs_update_repository repository_id (apply_operation op) now c = Inr (d, w)"
  from cs_update_version [OF this] show ?thesis by (auto split: if_splits)
next
  fix command fresh now w assume "append_change_set command fresh now c = Inr (d, w)"
  from append_version [OF this] show ?thesis by (auto split: if_splits)
next
  fix command i fresh now assume "plan_change_set_recovery command i fresh now c = Inr d"
  then show ?thesis by (auto simp: plan_change_set_recovery_def dest!: cs_add_recovery_Inr)
next
  fix command i now assume "govern_change_set command i now c = Inr d"
  then show ?thesis
    by (auto simp: govern_change_set_def rbind_eq_Inr_iff dest!: cs_record_governance_Inr)
next
  fix a b e f g i now assume "cs_record_candidate_revision a b e f g i now c = Inr d"
  then show ?thesis by (auto dest!: cs_revision_Inr)
next
  fix a b e f now assume "cs_record_recovery_action a b e f now c = Inr d"
  then show ?thesis by (auto dest!: cs_record_recovery_action_Inr)
qed

end
