(* ===== verification/Change_Set_Properties.thy ===== *)
theory Change_Set_Properties
  imports Change_Set_Invariant
begin

text \<open>
  What the invariant of a ChangeSet gives its readers, the order in which a recovery plan
  undoes deliveries, and the sample ChangeSet the closed instances run on.
\<close>

lemma cs_post_init_wf [simp]: "cs_wf c \<Longrightarrow> cs_post_init c = Inr c"
  by simp

subsection \<open>Recovery plans undo deliveries in reverse merge order\<close>

text \<open>What the plan does with one affected repository.\<close>

definition undo_actions ::
    "repository_delivery \<Rightarrow> (recovery_action_kind \<times> uuid option) list" where
  "undo_actions r =
     (if rd_status r = RD_MERGED
      then [(RK_CREATE_REVERT_PULL_REQUEST, Some (rd_repository_id r)),
            (RK_MERGE_REVERT_PULL_REQUEST, Some (rd_repository_id r))]
      else if rd_pull_request_number r \<noteq> None
      then [(RK_CLOSE_PULL_REQUEST, Some (rd_repository_id r))]
      else [])"

abbreviation action_targets :: "recovery_action list \<Rightarrow> (recovery_action_kind \<times> uuid option) list" where
  "action_targets \<equiv> map (\<lambda>a. (ra_kind a, ra_repository_id a))"

lemma recovery_actions_for_targets:
  "action_targets (recovery_actions_for items fresh actions) =
     action_targets actions @ concat (map undo_actions items) @ [(RK_REVALIDATE_CHANGESET, None)]"
  by (induction items fresh actions rule: recovery_actions_for.induct) (auto simp: undo_actions_def)

definition sequences_ok :: "recovery_action list \<Rightarrow> bool" where
  "sequences_ok actions \<longleftrightarrow> map ra_sequence actions = map int [1 ..< length actions + 1]"

lemma sequences_ok_snoc:
  "sequences_ok actions \<Longrightarrow> ra_sequence a = int (length actions) + 1 \<Longrightarrow> sequences_ok (actions @ [a])"
  by (simp add: sequences_ok_def)

lemma sequences_ok_snoc2:
  "sequences_ok actions \<Longrightarrow> ra_sequence a = int (length actions) + 1 \<Longrightarrow>
   ra_sequence b = int (length actions) + 2 \<Longrightarrow> sequences_ok (actions @ [a, b])"
  using sequences_ok_snoc [OF sequences_ok_snoc, of actions a b] by simp

lemma recovery_actions_for_sequences:
  "sequences_ok actions \<Longrightarrow> sequences_ok (recovery_actions_for items fresh actions)"
proof (induction items fresh actions rule: recovery_actions_for.induct)
  case (1 fresh actions)
  then show ?case by (auto intro: sequences_ok_snoc)
next
  case (2 item items fresh actions)
  show ?case
  proof (cases "rd_status item = RD_MERGED")
    case True
    show ?thesis
      unfolding recovery_actions_for.simps(2) if_P [OF True]
      by (rule "2.IH"(1) [OF True sequences_ok_snoc2 [OF "2.prems"]]) simp_all
  next
    case open_pr: False
    show ?thesis
    proof (cases "rd_pull_request_number item \<noteq> None")
      case True
      show ?thesis
        unfolding recovery_actions_for.simps(2) if_not_P [OF open_pr] if_P [OF True]
        by (rule "2.IH"(2) [OF open_pr True sequences_ok_snoc [OF "2.prems"]]) simp
    next
      case False
      show ?thesis
        unfolding recovery_actions_for.simps(2) if_not_P [OF open_pr] if_not_P [OF False]
        by (rule "2.IH"(3) [OF open_pr False "2.prems"])
    qed
  qed
qed

lemma sorted_rev_key: "sorted_wrt (\<lambda>a b. f b \<le> f a) (rev (sort_key f xs))"
  using sorted_sort_key [of f xs] by (simp add: sorted_wrt_rev sorted_map)

lemma affected_repositories_set:
  "set (affected_repositories c repository_id) =
     {r \<in> set (cs_repositories c). repository_id = None \<or> repository_id = Some (rd_repository_id r)}"
  by (auto simp: affected_repositories_def)

lemma affected_repositories_distinct:
  "distinct (cs_repositories c) \<Longrightarrow> distinct (affected_repositories c repository_id)"
  by (simp add: affected_repositories_def)

lemma affected_dependencies_last:
  assumes "orders_ok (cs_repositories c)" and "distinct (map rd_repository_id (cs_repositories c))"
  shows "sorted_wrt (\<lambda>a b. rd_repository_id a \<notin> set (rd_depends_on b))
           (affected_repositories c repository_id)"
proof (rule sorted_wrt_mono_rel)
  show "sorted_wrt (\<lambda>a b. rd_merge_order b \<le> rd_merge_order a) (affected_repositories c repository_id)"
    unfolding affected_repositories_def by (rule sorted_rev_key)
next
  fix a b assume mem: "a \<in> set (affected_repositories c repository_id)"
    "b \<in> set (affected_repositories c repository_id)" and le: "rd_merge_order b \<le> rd_merge_order a"
  show "rd_repository_id a \<notin> set (rd_depends_on b)"
  proof
    assume "rd_repository_id a \<in> set (rd_depends_on b)"
    with assms(1) mem obtain u where u: "u \<in> set (cs_repositories c)"
      "rd_repository_id u = rd_repository_id a" "rd_merge_order u < rd_merge_order b"
      unfolding orders_ok_def affected_repositories_set by blast
    with assms(2) mem have "u = a" by (auto simp: affected_repositories_set distinct_map dest: inj_onD)
    with u le show False by simp
  qed
qed

subsection \<open>A sample ChangeSet\<close>

definition sample_set :: "repository_delivery list \<Rightarrow> change_set_status \<Rightarrow> int \<Rightarrow> int \<Rightarrow> change_set" where
  "sample_set rs s v cursor =
     \<lparr>cs_organization_id = 100, cs_project_id = 200, cs_created_by_agent_id = 300, cs_title = ''t'',
      cs_validation_snapshot_id = None, cs_repositories = rs, cs_id = 9, cs_status = s,
      cs_recovery_plans = [], cs_governance_decisions = [],
      cs_candidate_revisions = [initial_revision sample_candidate 50 0],
      cs_version = v, cs_merge_cursor = cursor, cs_created_at = 0, cs_updated_at = 0\<rparr>"

definition sample_prepare :: prepare_change_set_command where
  "sample_prepare =
     \<lparr>pcs_organization_id = 100, pcs_project_id = 200, pcs_created_by_agent_id = 300,
      pcs_title = ''t'', pcs_validation_snapshot_id = None, pcs_candidates = [sample_item]\<rparr>"

lemma sample_title [simp]: "py_strip ''t'' = ''t''" "\<not> blank ''t''"
  by (simp_all add: blank_def py_strip_def py_isspace_def)

lemma sample_set_wf [simp]: "cs_wf (sample_set [r] s v cursor)"
  by (simp add: cs_wf_def sample_set_def)

lemma sample_prepared: "prepare_change_set sample_prepare 9 (\<lambda>_. 50) 0 = Inr (sample_set [sample_candidate] CS_READY 1 0)"
proof -
  have "rci_repository_id sample_item = 1" "rci_depends_on sample_item = []" by (simp_all add: sample_item_def)
  then have "merge_order [sample_item] = Inr [(1, 0)]"
    by (simp add: merge_order_def Let_def order_rounds.simps [of "[(1, [])]"]
        order_rounds.simps [of "[]"] ready_repositories_def)
  then show ?thesis
    using sample_steps(1)
    by (simp add: prepare_change_set_def sample_prepare_def candidate_deliveries_def
        \<open>rci_repository_id sample_item = 1\<close> initial_revisions_def cs_wf_def)
      (simp add: sample_set_def)
qed

text \<open>The three steps of \<open>sample_steps\<close> on the one-candidate ChangeSet.\<close>

lemma sample_operate:
  assumes "apply_operation op r = Inr q" and "rd_repository_id r = 1" and "q \<noteq> r"
  shows "cs_update_repository 1 (apply_operation op) 0 (sample_set [r] s v cursor) =
    Inr (sample_set [q] (delivery_status [q]) (v + 1) (py_min (pending_orders [q]) 1), True)"
proof -
  have repos: "cs_repositories (sample_set [r] s v cursor) = [r]" by (simp add: sample_set_def)
  have "cs_update_repository 1 (apply_operation op) 0 (sample_set [r] s v cursor) =
      rbind (cs_with_repositories [q] 0 (sample_set [r] s v cursor)) (\<lambda>u. Inr (u, True))"
    using assms by (simp add: cs_update_repository_def repos)
  also have "\<dots> = Inr (sample_set [q] (delivery_status [q]) (v + 1) (py_min (pending_orders [q]) 1), True)"
    by (simp add: cs_with_repositories_def cs_post_init_def) (simp add: sample_set_def)
  finally show ?thesis .
qed

lemma sample_fields [simp]:
  "rd_repository_id sample_candidate = 1" "rd_repository_id sample_open = 1"
  "rd_repository_id sample_ready = 1" "rd_repository_id sample_merged = 1"
  "rd_depends_on sample_candidate = []" "rd_depends_on sample_open = []"
  "rd_depends_on sample_ready = []" "rd_depends_on sample_merged = []"
  "rd_status sample_candidate = RD_PENDING" "rd_status sample_open = RD_PR_OPEN"
  "rd_status sample_ready = RD_READY_TO_MERGE" "rd_status sample_merged = RD_MERGED"
  "rd_merge_order sample_candidate = 0" "rd_merge_order sample_open = 0"
  "rd_merge_order sample_ready = 0" "rd_merge_order sample_merged = 0"
  by (simp_all add: sample_defs)

lemma sample_merge_step:
  "cs_step (sample_set [sample_ready] CS_DELIVERING 3 0) (sample_set [sample_merged] CS_DELIVERED 4 1)"
proof (rule cs_step.operate)
  have "sample_merged \<noteq> sample_ready"
    using sample_fields by (metis repository_delivery_status.distinct)
  then show "cs_update_repository 1 (apply_operation (ObserveMerge sample_sha)) 0 (sample_set [sample_ready] CS_DELIVERING 3 0) =
      Inr (sample_set [sample_merged] CS_DELIVERED 4 1, True)"
    using sample_steps(4)
    by (subst sample_operate [of _ _ sample_merged]) (simp_all add: delivery_status_def pending_orders_def)
qed

lemma sample_delivered:
  "cs_reachable (sample_set [sample_merged] CS_DELIVERED 4 1)"
  "cs_reachable (sample_set [sample_ready] CS_DELIVERING 3 0)"
proof -
  have ne: "sample_open \<noteq> sample_candidate" "sample_ready \<noteq> sample_open" "sample_merged \<noteq> sample_ready"
    using sample_fields by (metis repository_delivery_status.distinct)+
  have 0: "cs_reachable (sample_set [sample_candidate] CS_READY 1 0)"
    using sample_prepared by (rule cs_reachable.prepared)
  have "cs_update_repository 1 (apply_operation (ObservePR 7 ''u'' sample_sha)) 0 (sample_set [sample_candidate] CS_READY 1 0) =
      Inr (sample_set [sample_open] CS_DELIVERING 2 0, True)"
    using sample_steps(2) ne
    by (subst sample_operate [of _ _ sample_open]) (simp_all add: delivery_status_def pending_orders_def)
  with 0 have 1: "cs_reachable (sample_set [sample_open] CS_DELIVERING 2 0)"
    by (blast intro: cs_reachable.step cs_step.operate)
  have "cs_update_repository 1 (apply_operation (ObserveCI True ''9'' ''ok'' ''build'')) 0 (sample_set [sample_open] CS_DELIVERING 2 0) =
      Inr (sample_set [sample_ready] CS_DELIVERING 3 0, True)"
    using sample_steps(3) ne
    by (subst sample_operate [of _ _ sample_ready]) (simp_all add: delivery_status_def pending_orders_def)
  with 1 show 2: "cs_reachable (sample_set [sample_ready] CS_DELIVERING 3 0)"
    by (blast intro: cs_reachable.step cs_step.operate)
  from 2 sample_merge_step show "cs_reachable (sample_set [sample_merged] CS_DELIVERED 4 1)"
    by (rule cs_reachable.step)
qed

subsection \<open>Properties\<close>

text \<open>The merge cursor of a ChangeSet is always the smallest merge order of a candidate not
  merged yet, and the number of candidates once all are merged.\<close>

theorem merge_cursor_is_first_pending:
  assumes "cs_reachable c"
  shows "cs_merge_cursor c =
    (if \<exists>r \<in> set (cs_repositories c). rd_status r \<noteq> RD_MERGED
     then Min {rd_merge_order r | r. r \<in> set (cs_repositories c) \<and> rd_status r \<noteq> RD_MERGED}
     else int (length (cs_repositories c)))"
proof -
  have set: "set (pending_orders (cs_repositories c)) =
      {rd_merge_order r | r. r \<in> set (cs_repositories c) \<and> rd_status r \<noteq> RD_MERGED}"
    by (auto simp: pending_orders_def)
  have "pending_orders (cs_repositories c) = [] \<longleftrightarrow>
      \<not> (\<exists>r \<in> set (cs_repositories c). rd_status r \<noteq> RD_MERGED)"
    by (auto simp: pending_orders_def filter_empty_conv)
  then show ?thesis
    using cs_reachable_inv [OF assms] set by (auto simp: cs_inv_def py_min_Min)
qed

theorem merge_cursor_is_first_pending_witness:
  "cs_merge_cursor (sample_set [sample_merged] CS_DELIVERED 4 1) = 1 \<and>
   cs_merge_cursor (sample_set [sample_ready] CS_DELIVERING 3 0) = 0"
  unfolding merge_cursor_is_first_pending [OF sample_delivered(1)]
    merge_cursor_is_first_pending [OF sample_delivered(2)]
  by (simp add: sample_set_def)

text \<open>C4: A ChangeSet reported \<open>DELIVERED\<close> has every candidate merged, with the CI and review
  evidence its policy asks for and a full merge commit id.\<close>

theorem delivered_means_merged:
  assumes "cs_reachable c" and "cs_status c = CS_DELIVERED" and "r \<in> set (cs_repositories c)"
  shows "rd_status r = RD_MERGED \<and> rd_evidence r \<and> (\<exists>sha. rd_merge_sha r = Some sha \<and> full_sha sha)"
proof -
  from cs_reachable_inv [OF assms(1)] assms(2,3) have "rd_status r = RD_MERGED" and "rd_inv r"
    by (auto simp: cs_inv_def status_ok_def)
  then show ?thesis by (auto simp: rd_inv_def rd_cleared_def)
qed

theorem delivered_means_merged_witness:
  "cs_status (sample_set [sample_merged] CS_DELIVERED 4 1) = CS_DELIVERED \<and>
   rd_status sample_merged = RD_MERGED \<and> rd_evidence sample_merged"
proof -
  have "cs_status (sample_set [sample_merged] CS_DELIVERED 4 1) = CS_DELIVERED"
    and "sample_merged \<in> set (cs_repositories (sample_set [sample_merged] CS_DELIVERED 4 1))"
    by (simp_all add: sample_set_def)
  with delivered_means_merged [OF sample_delivered(1) this] show ?thesis by blast
qed

text \<open>C13: However batches of candidates are appended, the merge orders of a ChangeSet stay the
  numbers 0 to n-1, each once, and every candidate comes after its dependencies, all of which are
  in the ChangeSet.\<close>

theorem merge_order_stays_topological:
  assumes "cs_reachable c"
  shows "distinct (map rd_merge_order (cs_repositories c)) \<and>
    set (map rd_merge_order (cs_repositories c)) = {0 ..< int (length (cs_repositories c))} \<and>
    (\<forall>r \<in> set (cs_repositories c). \<forall>d \<in> set (rd_depends_on r).
       \<exists>u \<in> set (cs_repositories c). rd_repository_id u = d \<and> rd_merge_order u < rd_merge_order r)"
  using cs_reachable_inv [OF assms] by (simp add: cs_inv_def orders_ok_def del: set_map)

theorem merge_order_stays_topological_witness:
  "set (map rd_merge_order (cs_repositories (sample_set [sample_merged] CS_DELIVERED 4 1))) = {0 ..< 1}"
  using merge_order_stays_topological [OF sample_delivered(1)] by (simp add: sample_set_def)

text \<open>C18: The candidate revisions record every head a repository had: for each candidate they are
  numbered 0, 1, ... without gaps, each names its predecessor's head and changes it, and the last
  one's head is the candidate's current commit.\<close>

theorem revision_lineage_complete:
  assumes "cs_reachable c" and "r \<in> set (cs_repositories c)"
  defines "vs \<equiv> revisions_of (rd_repository_id r) (cs_candidate_revisions c)"
  shows "lineage vs (rd_commit_sha r) \<and> map cr_sequence vs = map int [0 ..< length vs]"
  using cs_reachable_inv [OF assms(1)] assms(2) lineage_sequences
  unfolding vs_def cs_inv_def lineages_ok_def by blast

theorem revision_lineage_complete_witness:
  "lineage (revisions_of 1 (cs_candidate_revisions (sample_set [sample_merged] CS_DELIVERED 4 1))) sample_sha"
proof -
  have "sample_merged \<in> set (cs_repositories (sample_set [sample_merged] CS_DELIVERED 4 1))"
    by (simp add: sample_set_def)
  from revision_lineage_complete [OF sample_delivered(1) this] show ?thesis
    by (simp add: sample_defs)
qed

text \<open>A ChangeSet holds at most one governance decision per repository and head, and each is
  bound to a head that repository really had as a candidate.\<close>

theorem governance_bound_to_heads:
  assumes "cs_reachable c"
  shows "distinct (map gd_key (cs_governance_decisions c)) \<and>
    (\<forall>g \<in> set (cs_governance_decisions c). \<exists>v \<in> set (cs_candidate_revisions c).
       cr_repository_id v = gd_repository_id g \<and> cr_head_sha v = gd_head_sha g)"
  using cs_reachable_inv [OF assms] by (simp add: cs_inv_def governance_ok_def)

definition sample_governance :: record_governance_decision_command where
  "sample_governance =
     \<lparr>rgd_change_set_id = 9, rgd_repository_id = 1, rgd_head_sha = sample_sha,
      rgd_decision = GD_READY, rgd_decided_by_agent_id = 300, rgd_reason = ''ok''\<rparr>"

definition governed_set :: change_set where
  "governed_set = (sample_set [sample_ready] CS_DELIVERING 4 0)
     \<lparr>cs_governance_decisions := [\<lparr>gd_repository_id = 1, gd_head_sha = sample_sha,
        gd_decision = GD_READY, gd_decided_by_agent_id = 300, gd_reason = ''ok'', gd_id = 70,
        gd_decided_at = 0\<rparr>]\<rparr>"

lemma sample_govern_step: "cs_step (sample_set [sample_ready] CS_DELIVERING 3 0) governed_set"
proof -
  have head: "rd_commit_sha sample_ready = sample_sha" by (simp add: sample_defs)
  have nb: "\<not> blank ''ok''" by (simp add: blank_def py_strip_def py_isspace_def)
  have "govern_change_set sample_governance 70 0 (sample_set [sample_ready] CS_DELIVERING 3 0) =
      Inr governed_set"
    using nb head full_sha_sample
    by (simp add: govern_change_set_def sample_governance_def gd_post_init_def
        normalize_full_sha_def rbind_def cs_record_governance_def Let_def norm_text_def_strip
        cs_post_init_def full_sha_def)
      (simp add: sample_set_def governed_set_def put_by_def cs_wf_def)
  then show ?thesis by (rule cs_step.govern)
qed

lemma sample_governed: "cs_reachable governed_set"
  using sample_delivered(2) sample_govern_step by (rule cs_reachable.step)

theorem governance_bound_to_heads_witness:
  "map gd_key (cs_governance_decisions governed_set) = [(1, sample_sha)] \<and>
   (\<exists>v \<in> set (cs_candidate_revisions governed_set).
      cr_repository_id v = 1 \<and> cr_head_sha v = sample_sha)"
  using governance_bound_to_heads [OF sample_governed] by (auto simp: governed_set_def gd_key_def)

text \<open>A candidate revision is recorded exactly when the repository is in the ChangeSet and
  not merged, the stated previous head is its current commit, and the new head is a full object
  id different from it; in particular the cursor's \<open>min()\<close> never runs on nothing.\<close>

theorem revision_accepted_iff:
  assumes "cs_reachable c"
  shows "(\<exists>d. cs_record_candidate_revision repository_id task_id previous_head new_head reason i now c
            = Inr d) \<longleftrightarrow>
    (\<exists>r \<in> set (cs_repositories c). rd_repository_id r = repository_id \<and> rd_status r \<noteq> RD_MERGED \<and>
       norm_text previous_head = rd_commit_sha r \<and> full_sha (norm_text new_head) \<and>
       norm_text new_head \<noteq> rd_commit_sha r)"
    (is "?ok \<longleftrightarrow> (\<exists>r \<in> _. ?P r)")
proof
  assume ?ok
  then obtain d where "cs_record_candidate_revision repository_id task_id previous_head new_head
      reason i now c = Inr d" ..
  from cs_revision_Inr [OF this] obtain r q where "r \<in> set (cs_repositories c)"
    "rd_repository_id r = repository_id" "rd_revise task_id previous_head new_head r = Inr q" by blast
  moreover from this(3) have "rd_status r \<noteq> RD_MERGED \<and> norm_text previous_head = rd_commit_sha r \<and>
      full_sha (norm_text new_head) \<and> norm_text new_head \<noteq> rd_commit_sha r"
    by (simp add: rd_revise_def rbind_eq_Inr_iff normalize_full_sha_Inr_iff norm_text_def_strip
        split: if_splits)
  ultimately show "\<exists>r \<in> set (cs_repositories c). ?P r" by blast
next
  have inv: "cs_inv c" using assms by (rule cs_reachable_inv)
  assume "\<exists>r \<in> set (cs_repositories c). ?P r"
  then obtain r where r: "r \<in> set (cs_repositories c)" and P: "?P r" by blast
  have find: "find (\<lambda>x. rd_repository_id x = repository_id) (cs_repositories c) = Some r"
    using find_unique_key [of rd_repository_id "cs_repositories c" r] inv r P
    by (simp add: cs_inv_def cs_wf_def)
  have wf: "rd_wf r" using inv r by (simp add: cs_inv_def rd_inv_def)
  let ?sha = "norm_text new_head"
  let ?q = "r\<lparr>rd_task_id := task_id, rd_base_sha := rd_commit_sha r, rd_commit_sha := ?sha,
      rd_status := (if rd_pull_request_number r \<noteq> None then RD_PR_OPEN else RD_PENDING),
      rd_ci_check_run_id := None, rd_ci_summary := None, rd_ci_checks := [], rd_reviews := [],
      rd_merge_sha := None\<rparr>"
  have "normalize_full_sha new_head ''new candidate head'' = Inr ?sha"
    using P by (simp add: normalize_full_sha_Inr_iff)
  moreover have "rd_wf ?q" using rd_wf_revised [OF wf _ refl] P by blast
  ultimately have q: "rd_revise task_id previous_head new_head r = Inr ?q"
    using P by (simp add: rd_revise_def norm_text_def_strip)
  let ?rs = "map_where (\<lambda>x. rd_repository_id x = repository_id) (\<lambda>_. ?q) (cs_repositories c)"
  have "?q \<in> set ?rs" using r P by (auto simp: set_map_where)
  moreover have "rd_status ?q \<noteq> RD_MERGED" by simp
  ultimately have pending: "pending_orders ?rs \<noteq> []"
    unfolding pending_orders_def map_is_Nil_conv filter_empty_conv by blast
  have "map rd_repository_id ?rs = map rd_repository_id (cs_repositories c)"
    using P by (intro map_map_where) simp
  moreover have "?rs \<noteq> []" using \<open>?q \<in> set ?rs\<close> by auto
  ultimately have wf': "cs_wf d" if "cs_repositories d = ?rs" "cs_title d = cs_title c" for d
    using inv that by (simp add: cs_inv_def cs_wf_def del: map_map_where)
  show ?ok
    unfolding cs_record_candidate_revision_def find option.case q rbind_Inr Let_def if_not_P [OF pending]
    by (rule exI, rule cs_post_init_wf, rule wf') simp_all
qed

theorem revision_accepted_iff_witness:
  "\<not> (\<exists>d. cs_record_candidate_revision 1 5 sample_sha (replicate 40 (CHR ''0'')) ''fix'' 60 1
         (sample_set [sample_merged] CS_DELIVERED 4 1) = Inr d) \<and>
   (\<exists>d. cs_record_candidate_revision 1 5 sample_sha (replicate 40 (CHR ''0'')) ''fix'' 60 1
         (sample_set [sample_ready] CS_DELIVERING 3 0) = Inr d)"
proof -
  have "replicate 40 (CHR ''0'') \<noteq> sample_sha" by (simp add: sample_sha_def)
  then show ?thesis
    unfolding revision_accepted_iff [OF sample_delivered(1)] revision_accepted_iff [OF sample_delivered(2)]
    by (simp add: sample_set_def) (simp add: sample_defs)
qed

text \<open>C14: A rollback plan numbers its actions 1, 2, ..., undoes the affected repositories in
  descending merge order (a merged one by a revert pull request that is then merged, an open pull
  request by closing it), never undoes a repository before one that depends on it, and ends with
  revalidating the ChangeSet.\<close>

theorem recovery_reverses_merge_order:
  assumes "cs_reachable c"
    and "prc_trigger command \<notin> {RT_RUNNER_FAILED, RT_RUNNER_INTERRUPTED}"
  shows "sequences_ok (recovery_actions c command fresh) \<and>
    (\<exists>rs. set rs = {r \<in> set (cs_repositories c). prc_repository_id command = None \<or>
              prc_repository_id command = Some (rd_repository_id r)} \<and> distinct rs \<and>
       action_targets (recovery_actions c command fresh) =
         concat (map undo_actions rs) @ [(RK_REVALIDATE_CHANGESET, None)] \<and>
       sorted_wrt (\<lambda>a b. rd_merge_order b \<le> rd_merge_order a) rs \<and>
       sorted_wrt (\<lambda>a b. rd_repository_id a \<notin> set (rd_depends_on b)) rs)"
proof -
  let ?rs = "affected_repositories c (prc_repository_id command)"
  from cs_reachable_inv [OF assms(1)] have orders: "orders_ok (cs_repositories c)"
    and ids: "distinct (map rd_repository_id (cs_repositories c))"
    by (simp_all add: cs_inv_def cs_wf_def)
  have actions: "recovery_actions c command fresh = recovery_actions_for ?rs fresh []"
    using assms(2) by (simp add: recovery_actions_def)
  have "sequences_ok (recovery_actions c command fresh)"
    unfolding actions by (rule recovery_actions_for_sequences) (simp add: sequences_ok_def)
  moreover have "action_targets (recovery_actions c command fresh) =
      concat (map undo_actions ?rs) @ [(RK_REVALIDATE_CHANGESET, None)]"
    unfolding actions recovery_actions_for_targets by simp
  moreover have "sorted_wrt (\<lambda>a b. rd_merge_order b \<le> rd_merge_order a) ?rs"
    unfolding affected_repositories_def by (rule sorted_rev_key)
  moreover have "distinct ?rs"
    using ids by (intro affected_repositories_distinct) (simp add: distinct_map)
  ultimately show ?thesis
    using affected_dependencies_last [OF orders ids] affected_repositories_set by blast
qed

definition sample_rollback :: plan_recovery_command where
  "sample_rollback =
     \<lparr>prc_change_set_id = 9, prc_trigger = RT_OPERATOR_REQUESTED, prc_reason = ''t'',
      prc_repository_id = None, prc_run_id = None, prc_native_session_id = None\<rparr>"

theorem recovery_reverses_merge_order_witness:
  "sequences_ok (recovery_actions (sample_set [sample_merged] CS_DELIVERED 4 1) sample_rollback
     (\<lambda>_. 80)) \<and>
   action_targets (recovery_actions (sample_set [sample_merged] CS_DELIVERED 4 1) sample_rollback
     (\<lambda>_. 80)) = [(RK_CREATE_REVERT_PULL_REQUEST, Some 1), (RK_MERGE_REVERT_PULL_REQUEST, Some 1),
       (RK_REVALIDATE_CHANGESET, None)]"
proof -
  have "prc_trigger sample_rollback \<notin> {RT_RUNNER_FAILED, RT_RUNNER_INTERRUPTED}"
    by (simp add: sample_rollback_def)
  from recovery_reverses_merge_order [OF sample_delivered(1) this, of "\<lambda>_. 80"] show ?thesis
    by (simp add: recovery_actions_def sample_rollback_def affected_repositories_def
        sample_set_def)
qed

text \<open>Back-filling the provenance of a candidate while a fully merged ChangeSet is being rolled
  back reports it \<open>DELIVERED\<close> again, with the unfinished recovery plan still in it (so
  the list of active ChangeSets no longer offers the rollback to the recovery saga).\<close>

theorem provenance_ends_rollback:
  assumes "cs_reachable c" and "cs_status c = CS_COMPENSATING"
    and "\<forall>r \<in> set (cs_repositories c). rd_status r = RD_MERGED"
    and "cs_update_repository repository_id (apply_operation (AttachTraceability task_id sha plan_id run_id worker)) now c
           = Inr (d, True)"
  shows "cs_status d = CS_DELIVERED \<and> cs_recovery_plans d = cs_recovery_plans c"
proof -
  let ?op = "AttachTraceability task_id sha plan_id run_id worker"
  from cs_update_repository_Inr [OF assms(4)] obtain rs where
    all2: "list_all2 (\<lambda>r q. if rd_repository_id r = repository_id then apply_operation ?op r = Inr q
      else q = r) (cs_repositories c) rs"
    and "if rs = cs_repositories c then d = c \<and> \<not> True
         else True \<and> cs_with_repositories rs now c = Inr d"
    by blast
  then have "cs_with_repositories rs now c = Inr d" by (simp split: if_splits)
  moreover have "\<forall>r \<in> set rs. rd_status r = RD_MERGED"
    using all2 assms(3)
    by (induction rule: list_all2_induct)
      (auto simp: rd_attach_traceability_def split: if_splits)
  ultimately show ?thesis
    by (auto dest!: cs_with_repositories_Inr simp: delivery_status_def)
qed

definition rolling_back_set :: change_set where
  "rolling_back_set = (sample_set [sample_merged] CS_COMPENSATING 5 1)
     \<lparr>cs_recovery_plans := [\<lparr>rp_trigger = RT_OPERATOR_REQUESTED, rp_reason = ''t'',
        rp_actions = recovery_actions (sample_set [sample_merged] CS_DELIVERED 4 1) sample_rollback
          (\<lambda>_. 80), rp_id = 90, rp_created_at = 0\<rparr>]\<rparr>"

lemma sample_rolling_back: "cs_reachable rolling_back_set"
proof -
  have "plan_change_set_recovery sample_rollback 90 (\<lambda>_. 80) 0 (sample_set [sample_merged] CS_DELIVERED 4 1)
      = Inr rolling_back_set"
    by (simp add: plan_change_set_recovery_def cs_add_recovery_def cs_post_init_def sample_rollback_def)
      (simp add: sample_set_def rolling_back_set_def sample_rollback_def)
  with sample_delivered(1) show ?thesis by (blast intro: cs_reachable.step cs_step.recover)
qed

definition traced_merged :: repository_delivery where
  "traced_merged = sample_merged\<lparr>rd_plan_id := Some 1000, rd_run_id := None,
     rd_worker_agent_id := Some 1001\<rparr>"

theorem provenance_ends_rollback_witness:
  "\<exists>d. cs_update_repository 1 (apply_operation (AttachTraceability 11 sample_sha 1000 None 1001)) 0 rolling_back_set = Inr (d, True) \<and>
       cs_status d = CS_DELIVERED \<and> \<not> plan_finished (last (cs_recovery_plans d))"
proof -
  let ?op = "AttachTraceability 11 sample_sha 1000 None 1001"
  let ?d = "rolling_back_set\<lparr>cs_repositories := [traced_merged], cs_status := CS_DELIVERED,
      cs_version := 6, cs_merge_cursor := 1, cs_updated_at := 0\<rparr>"
  have repos: "cs_repositories rolling_back_set = [sample_merged]"
    and status: "cs_status rolling_back_set = CS_COMPENSATING" and "cs_version rolling_back_set = 5"
    by (simp_all add: rolling_back_set_def sample_set_def)
  have "rd_wf sample_merged" using sample_reachable(3) by (rule rd_reachable_wf)
  then have "apply_operation ?op sample_merged = Inr traced_merged"
    by (simp add: rd_attach_traceability_def traced_merged_def norm_text_def_strip)
      (simp add: sample_defs)
  moreover have "traced_merged \<noteq> sample_merged"
  proof
    assume "traced_merged = sample_merged"
    then have "rd_plan_id traced_merged = rd_plan_id sample_merged" by simp
    then show False by (simp add: traced_merged_def sample_defs)
  qed
  moreover have "cs_post_init ?d = Inr ?d"
    by (simp add: cs_wf_def rolling_back_set_def sample_set_def)
  moreover have "rd_status traced_merged = RD_MERGED" by (simp add: traced_merged_def)
  ultimately have ok: "cs_update_repository 1 (apply_operation ?op) 0 rolling_back_set = Inr (?d, True)"
    by (simp add: cs_update_repository_def repos cs_with_repositories_def
        \<open>cs_version rolling_back_set = 5\<close> delivery_status_def pending_orders_def)
  have "\<not> plan_finished (last (cs_recovery_plans rolling_back_set))"
    by (simp add: rolling_back_set_def sample_set_def plan_finished_def recovery_actions_def
        sample_rollback_def affected_repositories_def)
  with ok provenance_ends_rollback [OF sample_rolling_back status _ ok] repos show ?thesis by auto
qed

end
