(* ===== verification/Py_Text.thy ===== *)
theory Py_Text
  imports Identifiers
begin

text \<open>
  The texts Python makes of numbers, instants and JSON documents: \<open>str(int)\<close>,
  \<open>datetime.isoformat()\<close> in UTC, and \<open>json.dumps\<close> with sorted keys and the compact
  separators, which fingerprints are computed from.
\<close>

subsection \<open>Decimal numbers\<close>

fun dec_digits :: "nat \<Rightarrow> string" where
  "dec_digits n = (if n < 10 then [char_of (48 + n)]
     else dec_digits (n div 10) @ [char_of (48 + n mod 10)])"

declare dec_digits.simps [simp del]

definition dec_nat :: "nat \<Rightarrow> string" where
  "dec_nat n = dec_digits n"

definition dec_int :: "int \<Rightarrow> string" where
  "dec_int i = (if i < 0 then CHR ''-'' # dec_nat (nat (- i)) else dec_nat (nat i))"

text \<open>Padded with zeros to \<open>k\<close> digits.\<close>

definition dec_pad :: "nat \<Rightarrow> nat \<Rightarrow> string" where
  "dec_pad k n = replicate (k - length (dec_nat n)) (CHR ''0'') @ dec_nat n"

subsection \<open>The calendar\<close>

text \<open>
  The proleptic Gregorian calendar. Years are counted from the first of March, so that a leap
  day is the last day of its year: \<open>march_days y\<close> is the number of days from 0000-03-01 to
  the first of March of year \<open>y\<close>, \<open>march_year z\<close> the year that holds the day \<open>z\<close>.
\<close>

definition march_days :: "int \<Rightarrow> int" where
  "march_days y = 365 * y + y div 4 - y div 100 + y div 400"

definition march_year :: "int \<Rightarrow> int" where
  "march_year z = (let y = 400 * z div 146097 in if march_days (y + 1) \<le> z then y + 1 else y)"

text \<open>Year, month and day of a day number (day 0 is 1970-01-01), and back.\<close>

definition civil_date :: "int \<Rightarrow> int \<times> int \<times> int" where
  "civil_date days =
     (let z = days + 719468; y = march_year z; doy = z - march_days y;
          mp = (5 * doy + 2) div 153;
          d = doy - (153 * mp + 2) div 5 + 1;
          m = (if mp < 10 then mp + 3 else mp - 9)
      in (y + (if m \<le> 2 then 1 else 0), m, d))"

definition civil_days :: "int \<Rightarrow> int \<Rightarrow> int \<Rightarrow> int" where
  "civil_days y m d =
     march_days (if m \<le> 2 then y - 1 else y) + (153 * ((m + 9) mod 12) + 2) div 5 + d - 1 - 719468"

lemma div_bounds: "k * (y div k) \<le> y" "y < k * (y div k) + k" if "0 < k" for k y :: int
  using that pos_mod_sign [of k y] pos_mod_bound [of k y] mult_div_mod_eq [of k y] by linarith+

lemma march_days_bounds: "400 * march_days y \<le> 146097 * y + 399" "146097 * y - 701 \<le> 400 * march_days y"
proof -
  define a b c where "a = y div 4" and "b = y div 100" and "c = y div 400"
  have "4 * a \<le> y" "y < 4 * a + 4" "100 * b \<le> y" "y < 100 * b + 100" "400 * c \<le> y" "y < 400 * c + 400"
    unfolding a_def b_def c_def by (rule div_bounds; simp)+
  moreover have "march_days y = 365 * y + a - b + c" by (simp add: march_days_def a_def b_def c_def)
  ultimately show "400 * march_days y \<le> 146097 * y + 399" "146097 * y - 701 \<le> 400 * march_days y"
    by simp_all
qed

lemma div_succ: "(y + 1) div k = y div k + (if k dvd y + 1 then 1 else 0)" if "0 < k" for k y :: int
proof -
  define q r where "q = y div k" and "r = y mod k"
  have y: "y = k * q + r" and r: "0 \<le> r" "r < k"
    using that by (simp_all add: q_def r_def)
  show ?thesis
  proof (cases "r + 1 = k")
    case True
    then have "y + 1 = k * (q + 1)" by (simp add: y distrib_left)
    then show ?thesis using that by (simp add: q_def [symmetric])
  next
    case False
    with r have less: "0 \<le> r + 1" "r + 1 < k" and "0 < r + 1" by linarith+
    then have "\<not> k dvd r + 1" by (intro zdvd_not_zless)
    then have "\<not> k dvd y + 1" unfolding y add.assoc by (metis dvd_add_right_iff dvd_triv_left)
    moreover have "(k * q + (r + 1)) div k = q" by (rule int_div_pos_eq [OF refl less])
    moreover have "(k * q + r) div k = q" by (rule int_div_pos_eq [OF refl r])
    ultimately show ?thesis by (simp add: y add.assoc)
  qed
qed

lemma march_days_step: "march_days y + 365 \<le> march_days (y + 1)" "march_days (y + 1) \<le> march_days y + 366"
proof -
  have "(100::int) dvd y + 1 \<longrightarrow> 4 dvd y + 1" "(400::int) dvd y + 1 \<longrightarrow> 100 dvd y + 1" by presburger+
  then show "march_days y + 365 \<le> march_days (y + 1)" "march_days (y + 1) \<le> march_days y + 366"
    by (simp_all add: march_days_def div_succ)
qed

lemma march_year: "march_days (march_year z) \<le> z" "z < march_days (march_year z + 1)"
proof -
  define y where "y = 400 * z div 146097"
  have y: "146097 * y \<le> 400 * z" "400 * z < 146097 * y + 146097"
    unfolding y_def by (rule div_bounds; simp)+
  have "march_days y \<le> z" using march_days_bounds(1) [of y] y(1) by linarith
  moreover have "400 * z < 400 * march_days (y + 1 + 1)"
    using march_days_bounds(2) [of "y + 1 + 1"] y(2) by (simp add: algebra_simps)
  ultimately show "march_days (march_year z) \<le> z" "z < march_days (march_year z + 1)"
    by (auto simp: march_year_def Let_def y_def)
qed

lemma civil_date_days:
  assumes "civil_date days = (y, m, d)"
  shows "civil_days y m d = days" and "1 \<le> m \<and> m \<le> 12" and "1 \<le> d \<and> d \<le> 31"
proof -
  define z where "z = days + 719468"
  define doy where "doy = z - march_days (march_year z)"
  define mp where "mp = (5 * doy + 2) div 153"
  define ms where "ms = (153 * mp + 2) div 5"
  have doy: "0 \<le> doy" "doy \<le> 365"
    using march_year [of z] march_days_step(2) [of "march_year z"] by (simp_all add: doy_def)
  have "153 * mp \<le> 5 * doy + 2" "5 * doy + 2 < 153 * mp + 153" "5 * ms \<le> 153 * mp + 2" "153 * mp + 2 < 5 * ms + 5"
    unfolding mp_def ms_def by (rule div_bounds; simp)+
  then have mp: "0 \<le> mp" "mp \<le> 11" and d: "0 \<le> doy - ms" "doy - ms \<le> 30" using doy by linarith+
  have "civil_date days = (march_year z + (if (if mp < 10 then mp + 3 else mp - 9) \<le> 2 then 1 else 0),
      if mp < 10 then mp + 3 else mp - 9, doy - ms + 1)"
    unfolding civil_date_def Let_def z_def [symmetric] doy_def [symmetric] mp_def [symmetric]
      ms_def [symmetric] ..
  then have m: "m = (if mp < 10 then mp + 3 else mp - 9)" and d_eq: "d = doy - ms + 1"
    and y: "y = march_year z + (if m \<le> 2 then 1 else 0)"
    using assms by (simp_all only: prod.inject)
  show "1 \<le> m \<and> m \<le> 12" "1 \<le> d \<and> d \<le> 31" using mp d by (auto simp: m d_eq)
  have "(m + 9) mod 12 = mp" using mp by (auto simp: m)
  moreover have "(if m \<le> 2 then y - 1 else y) = march_year z" by (simp add: y)
  ultimately show "civil_days y m d = days"
    by (simp add: civil_days_def d_eq ms_def [symmetric]) (simp add: doy_def z_def)
qed

subsection \<open>Instants\<close>

text \<open>\<open>isoformat()\<close> of an aware UTC datetime; the fraction is left out when it is zero.\<close>

definition isoformat :: "datetime \<Rightarrow> string" where
  "isoformat t =
     (let day = t div 86400000000; rest = t mod 86400000000;
          (y, m, d) = civil_date day; micro = rest mod 1000000; secs = rest div 1000000
      in dec_pad 4 (nat y) @ ''-'' @ dec_pad 2 (nat m) @ ''-'' @ dec_pad 2 (nat d) @ ''T'' @
         dec_pad 2 (nat (secs div 3600)) @ '':'' @ dec_pad 2 (nat (secs mod 3600 div 60)) @ '':'' @
         dec_pad 2 (nat (secs mod 60)) @
         (if micro = 0 then [] else ''.'' @ dec_pad 6 (nat micro)) @ ''+00:00'')"

lemma isoformat_examples:
  "isoformat 0 = ''1970-01-01T00:00:00+00:00''"
  "isoformat 1709210096000250 = ''2024-02-29T12:34:56.000250+00:00''"
  by code_simp+

subsection \<open>JSON text\<close>

text \<open>A JSON string with \<open>ensure_ascii\<close>: everything but printable ASCII is escaped.\<close>

definition json_char :: "char \<Rightarrow> string" where
  "json_char c =
     (let n = (of_char c :: nat)
      in if c = CHR 0x22 then [CHR 0x5C, CHR 0x22]
         else if c = CHR 0x5C then [CHR 0x5C, CHR 0x5C]
         else if n = 10 then [CHR 0x5C] @ ''n''
         else if n = 13 then [CHR 0x5C] @ ''r''
         else if n = 9 then [CHR 0x5C] @ ''t''
         else if n = 12 then [CHR 0x5C] @ ''f''
         else if n = 8 then [CHR 0x5C] @ ''b''
         else if 32 \<le> n \<and> n \<le> 126 then [c]
         else [CHR 0x5C] @ ''u'' @ hexn 4 n)"

definition json_string :: "string \<Rightarrow> string" where
  "json_string s = CHR 0x22 # concat (map json_char s) @ [CHR 0x22]"

fun json_join :: "string list \<Rightarrow> string" where
  "json_join [] = []"
| "json_join [x] = x"
| "json_join (x # y # xs) = x @ '','' @ json_join (y # xs)"

definition json_array :: "string list \<Rightarrow> string" where
  "json_array xs = ''['' @ json_join xs @ '']''"

text \<open>An object from its key and value texts, keys sorted.\<close>

definition json_object :: "(string \<times> string) list \<Rightarrow> string" where
  "json_object kvs = ''{'' @
     json_join (map (\<lambda>(k, v). json_string k @ '':'' @ v) (sort_key fst kvs)) @ ''}''"

definition json_null :: string where
  "json_null = ''null''"

end
