(* ===== verification/Py_Parse.thy ===== *)
theory Py_Parse
  imports Py_Text Json_Values
begin

text \<open>
  The readings Python makes of stored values, inverse to \<open>Py_Text\<close>: \<open>UUID(text)\<close>,
  \<open>datetime.fromisoformat\<close>, \<open>int\<close>, \<open>str\<close>, \<open>bool\<close>, subscription and iteration of
  decoded JSON. \<open>storage_codec\<close> is the contract of a class that is written to a JSON
  document and read back.
\<close>

subsection \<open>Printed values\<close>

text \<open>\<open>repr\<close> of a text: single quotes unless only they occur in it.\<close>

definition repr_char :: "char \<Rightarrow> char \<Rightarrow> string" where
  "repr_char quote c =
     (let n = (of_char c :: nat)
      in if c = quote \<or> c = CHR 0x5C then [CHR 0x5C, c]
         else if n = 10 then [CHR 0x5C] @ ''n''
         else if n = 13 then [CHR 0x5C] @ ''r''
         else if n = 9 then [CHR 0x5C] @ ''t''
         else if n < 32 \<or> (127 \<le> n \<and> n \<le> 160) \<or> n = 173 then [CHR 0x5C] @ ''x'' @ hexn 2 n
         else [c])"

definition py_repr :: "string \<Rightarrow> string" where
  "py_repr s =
     (let quote = (if CHR 0x27 \<in> set s \<and> CHR 0x22 \<notin> set s then CHR 0x22 else CHR 0x27)
      in quote # concat (map (repr_char quote) s) @ [quote])"

text \<open>\<open>repr\<close> of the float \<open>m * 10 ^ e\<close>.\<close>

fun trim_zeros :: "nat \<Rightarrow> nat" where
  "trim_zeros n = (if n = 0 \<or> n mod 10 \<noteq> 0 then n else trim_zeros (n div 10))"

declare trim_zeros.simps [simp del]

definition float_digits :: "string \<Rightarrow> int \<Rightarrow> string" where
  "float_digits ds point =
     (if point \<le> -4 \<or> 16 < point
      then let x = point - 1; fraction = tl ds
           in hd ds # (if fraction = [] then [] else CHR ''.'' # fraction) @ ''e'' @
              (if x < 0 then ''-'' else ''+'') @ dec_pad 2 (nat (abs x))
      else if point \<le> 0 then ''0.'' @ replicate (nat (- point)) (CHR ''0'') @ ds
      else if int (length ds) \<le> point
      then ds @ replicate (nat point - length ds) (CHR ''0'') @ ''.0''
      else take (nat point) ds @ ''.'' @ drop (nat point) ds)"

definition py_repr_float :: "int \<Rightarrow> int \<Rightarrow> string" where
  "py_repr_float m e =
     (if m = 0 then ''0.0''
      else (if m < 0 then ''-'' else []) @
        float_digits (dec_nat (trim_zeros (nat (abs m)))) (int (length (dec_nat (nat (abs m)))) + e))"

fun comma_join :: "string list \<Rightarrow> string" where
  "comma_join [] = []"
| "comma_join [x] = x"
| "comma_join (x # y # xs) = x @ '', '' @ comma_join (y # xs)"

fun py_repr_json :: "json \<Rightarrow> string" where
  "py_repr_json JNull = ''None''"
| "py_repr_json (JBool b) = (if b then ''True'' else ''False'')"
| "py_repr_json (JInt n) = dec_int n"
| "py_repr_json (JFloat m e) = py_repr_float m e"
| "py_repr_json (JStr s) = py_repr s"
| "py_repr_json (JList xs) = ''['' @ comma_join (map py_repr_json xs) @ '']''"
| "py_repr_json (JObject kvs) =
     ''{'' @ comma_join (map (\<lambda>kv. py_repr (fst kv) @ '': '' @ py_repr_json (snd kv)) kvs) @ ''}''"

text \<open>\<open>str(value)\<close>.\<close>

definition py_str :: "json \<Rightarrow> string" where
  "py_str j = (case j of JStr s \<Rightarrow> s | _ \<Rightarrow> py_repr_json j)"

lemma py_str_JStr [simp]: "py_str (JStr s) = s"
  by (simp add: py_str_def)

lemma py_repr_examples:
  "py_repr ''it's'' = [CHR 0x22] @ ''it's'' @ [CHR 0x22]"
  "map (\<lambda>(m, e). py_repr_float m e) [(5, -1), (120, 0), (1, -5), (-15, 16), (123, -1)] =
     [''0.5'', ''120.0'', ''1e-05'', ''-1.5e+17'', ''12.3'']"
  "py_str (JList [JNull, JBool True, JObject [(''k'', JInt (-3))]]) = ''[None, True, {'k': -3}]''"
  by code_simp+

subsection \<open>Reading numbers\<close>

definition digit_value :: "char \<Rightarrow> nat option" where
  "digit_value c = (let n = of_char c in if 48 \<le> n \<and> n \<le> 57 then Some (n - 48) else None)"

fun dec_fold :: "nat \<Rightarrow> string \<Rightarrow> nat option" where
  "dec_fold acc [] = Some acc"
| "dec_fold acc (c # cs) =
     (case digit_value c of None \<Rightarrow> None | Some v \<Rightarrow> dec_fold (10 * acc + v) cs)"

definition dec_value :: "string \<Rightarrow> nat option" where
  "dec_value s = (if s = [] then None else dec_fold 0 s)"

text \<open>\<open>int(text)\<close>: blank ends, a sign, digits with single underscores between them.\<close>

fun underscores_ok :: "bool \<Rightarrow> string \<Rightarrow> bool" where
  "underscores_ok digit [] = digit"
| "underscores_ok digit (c # cs) =
     (if c = CHR ''_'' then digit \<and> underscores_ok False cs else underscores_ok True cs)"

definition int_text :: "string \<Rightarrow> int option" where
  "int_text s =
     (let t = py_strip s; negative = (t \<noteq> [] \<and> hd t = CHR ''-'');
          u = (if t \<noteq> [] \<and> (hd t = CHR ''-'' \<or> hd t = CHR ''+'') then tl t else t)
      in if \<not> underscores_ok False u then None
         else map_option (\<lambda>n. if negative then - int n else int n)
                (dec_value (filter (\<lambda>c. c \<noteq> CHR ''_'') u)))"

definition type_error :: "string \<Rightarrow> 'a result" where
  "type_error m = Inl (ModuleError ''TypeError'' m)"

fun type_name :: "json \<Rightarrow> string" where
  "type_name JNull = ''NoneType''"
| "type_name (JBool _) = ''bool''"
| "type_name (JInt _) = ''int''"
| "type_name (JFloat _ _) = ''float''"
| "type_name (JStr _) = ''str''"
| "type_name (JList _) = ''list''"
| "type_name (JObject _) = ''dict''"

text \<open>\<open>int(value)\<close> of a decoded value; a float is cut towards zero.\<close>

fun py_int :: "json \<Rightarrow> int result" where
  "py_int (JBool b) = Inr (bool_int b)"
| "py_int (JInt n) = Inr n"
| "py_int (JFloat m e) =
     Inr (if 0 \<le> e then m * 10 ^ nat e else sgn m * (abs m div 10 ^ nat (- e)))"
| "py_int (JStr s) =
     (case int_text s of
        None \<Rightarrow> Inl (ValueError (''invalid literal for int() with base 10: '' @ py_repr s))
      | Some n \<Rightarrow> Inr n)"
| "py_int j = type_error
     (''int() argument must be a string, a bytes-like object or a real number, not '' @
      py_repr (type_name j))"

text \<open>\<open>bool(value)\<close>.\<close>

fun py_truthy :: "json \<Rightarrow> bool" where
  "py_truthy JNull = False"
| "py_truthy (JBool b) = b"
| "py_truthy (JInt n) = (n \<noteq> 0)"
| "py_truthy (JFloat m e) = (m \<noteq> 0)"
| "py_truthy (JStr s) = (s \<noteq> [])"
| "py_truthy (JList xs) = (xs \<noteq> [])"
| "py_truthy (JObject kvs) = (kvs \<noteq> [])"

lemma of_char_of_digit: "n < 10 \<Longrightarrow> digit_value (char_of (48 + n)) = Some n"
  by (simp add: digit_value_def of_char_of Let_def)

lemma dec_fold_append:
  "dec_fold acc (s @ t) = (case dec_fold acc s of None \<Rightarrow> None | Some a \<Rightarrow> dec_fold a t)"
  by (induction acc s rule: dec_fold.induct) (auto split: option.splits)

lemma dec_digits_ne: "dec_digits n \<noteq> []"
  by (subst dec_digits.simps) simp

lemma dec_fold_digits: "dec_fold 0 (dec_digits n) = Some n"
proof (induction n rule: dec_digits.induct)
  case (1 n)
  show ?case
  proof (cases "n < 10")
    case True
    then show ?thesis by (subst dec_digits.simps) (simp add: of_char_of_digit)
  next
    case False
    then show ?thesis
      by (subst dec_digits.simps) (simp add: 1 dec_fold_append of_char_of_digit)
  qed
qed

lemma dec_fold_zeros: "dec_fold 0 (replicate k (CHR ''0'') @ s) = dec_fold 0 s"
  by (induction k) (simp_all add: digit_value_def)

lemma dec_value_pad [simp]: "dec_value (dec_pad k n) = Some n"
  by (simp add: dec_value_def dec_pad_def dec_nat_def dec_fold_zeros dec_fold_digits dec_digits_ne)

lemma length_dec_digits: "n < 10 ^ k \<Longrightarrow> 0 < k \<Longrightarrow> length (dec_digits n) \<le> k"
proof (induction k arbitrary: n)
  case (Suc k)
  show ?case
  proof (cases "n < 10")
    case False
    with Suc.prems have "n div 10 < 10 ^ k" "0 < k"
      by (auto simp: less_mult_imp_div_less mult.commute intro: gr0I)
    with False Suc.IH show ?thesis by (subst dec_digits.simps) simp
  qed (subst dec_digits.simps, simp)
qed simp

lemma length_dec_pad: "n < 10 ^ k \<Longrightarrow> 0 < k \<Longrightarrow> length (dec_pad k n) = k"
  using length_dec_digits [of n k] by (simp add: dec_pad_def dec_nat_def)

subsection \<open>Reading identifiers\<close>

definition hex_value :: "char \<Rightarrow> nat option" where
  "hex_value c =
     (let n = of_char c
      in if 48 \<le> n \<and> n \<le> 57 then Some (n - 48)
         else if 65 \<le> n \<and> n \<le> 70 then Some (n - 55)
         else if 97 \<le> n \<and> n \<le> 102 then Some (n - 87)
         else None)"

fun hex_fold :: "nat \<Rightarrow> string \<Rightarrow> nat option" where
  "hex_fold acc [] = Some acc"
| "hex_fold acc (c # cs) =
     (case hex_value c of None \<Rightarrow> None | Some v \<Rightarrow> hex_fold (16 * acc + v) cs)"

text \<open>\<open>text.replace(pattern, '')\<close>.\<close>

fun remove_all :: "string \<Rightarrow> string \<Rightarrow> string" where
  "remove_all pattern [] = []"
| "remove_all pattern (c # s) =
     (if take (length pattern) (c # s) = pattern then remove_all pattern (drop (length pattern - 1) s)
      else c # remove_all pattern s)"

definition strip_braces :: "string \<Rightarrow> string" where
  "strip_braces s = rev (dropWhile (\<lambda>c. c \<in> set ''{}'') (rev (dropWhile (\<lambda>c. c \<in> set ''{}'') s)))"

text \<open>\<open>int(text, 16)\<close>: blank ends, a sign, a prefix, digits with single underscores.\<close>

definition int16_text :: "string \<Rightarrow> int option" where
  "int16_text s =
     (let t = py_strip s; negative = (t \<noteq> [] \<and> hd t = CHR ''-'');
          u = (if t \<noteq> [] \<and> (hd t = CHR ''-'' \<or> hd t = CHR ''+'') then tl t else t);
          prefixed = (take 2 u = ''0x'' \<or> take 2 u = ''0X''); v = (if prefixed then drop 2 u else u)
      in if \<not> underscores_ok prefixed v \<or> v = [] then None
         else map_option (\<lambda>n. if negative then - int n else int n) (hex_fold 0 (filter (\<lambda>c. c \<noteq> CHR ''_'') v)))"

text \<open>\<open>UUID(text)\<close>.\<close>

definition py_uuid :: "string \<Rightarrow> uuid result" where
  "py_uuid s =
     (let hex = filter (\<lambda>c. c \<noteq> CHR ''-'') (strip_braces (remove_all ''uuid:'' (remove_all ''urn:'' s)))
      in if length hex \<noteq> 32 then Inl (ValueError ''badly formed hexadecimal UUID string'')
         else case int16_text hex of
                None \<Rightarrow> Inl (ValueError (''invalid literal for int() with base 16: '' @ py_repr hex))
              | Some n \<Rightarrow> if n < 0 then Inl (ValueError ''int is out of range (need a 128-bit value)'')
                          else Inr (word_of_int n))"

lemma remove_all_absent: "c \<notin> set s \<Longrightarrow> remove_all (c # p) s = s"
  by (induction s) auto

lemma hex_value_digit: "d < 16 \<Longrightarrow> hex_value (hex_digit d) = Some d \<and> hex_digit d \<noteq> CHR ''-''"
proof -
  have "\<forall>d < 16. hex_value (hex_digit d) = Some d \<and> hex_digit d \<noteq> CHR ''-''"
    by code_simp
  then show "d < 16 \<Longrightarrow> hex_value (hex_digit d) = Some d \<and> hex_digit d \<noteq> CHR ''-''" by blast
qed

lemma hexn_no_dash: "CHR ''-'' \<notin> set (hexn n x)"
proof (induction n)
  case (Suc n)
  have "hex_digit (x div 16 ^ n mod 16) \<noteq> CHR ''-''" by (simp add: hex_value_digit)
  with Suc show ?case by (simp add: eq_commute)
qed simp

lemma hex_fold_hexn: "hex_fold acc (hexn n x) = Some (16 ^ n * acc + x mod 16 ^ n)"
proof (induction n arbitrary: acc)
  case (Suc n)
  have "hex_fold acc (hexn (Suc n) x) = hex_fold (16 * acc + x div 16 ^ n mod 16) (hexn n x)"
    by (simp add: hex_value_digit)
  also have "\<dots> = Some (16 ^ n * (16 * acc + x div 16 ^ n mod 16) + x mod 16 ^ n)"
    by (rule Suc)
  finally show ?case by (simp only: mod_pow_Suc [of x n]) (simp add: algebra_simps)
qed simp

lemma filter_dashed: "CHR ''-'' \<notin> set h \<Longrightarrow> filter (\<lambda>c. c \<noteq> CHR ''-'') (dashed h) = h"
proof -
  assume "CHR ''-'' \<notin> set h"
  then have keep: "filter (\<lambda>c. c \<noteq> CHR ''-'') t = t" if "set t \<subseteq> set h" for t
    using that by (auto simp: filter_id_conv)
  have sub: "set (take k (drop i h)) \<subseteq> set h" "set (take k h) \<subseteq> set h" "set (drop i h) \<subseteq> set h" for i k
    by (auto dest: in_set_takeD in_set_dropD)
  show ?thesis
    using dashed_blocks [of h] by (simp add: dashed_def keep sub)
qed

lemma is_hex_digit: "d < 16 \<Longrightarrow> is_hex (hex_digit d)"
proof -
  have "\<forall>d < 16. is_hex (hex_digit d)" by code_simp
  then show "d < 16 \<Longrightarrow> is_hex (hex_digit d)" by blast
qed

lemma hexn_hex: "c \<in> set (hexn n x) \<Longrightarrow> is_hex c"
  by (induction n) (auto simp: is_hex_digit)

lemma underscores_ok_none: "CHR ''_'' \<notin> set s \<Longrightarrow> underscores_ok d s = (d \<or> s \<noteq> [])"
  by (induction d s rule: underscores_ok.induct) auto

lemma int16_text_hex:
  assumes "\<forall>c \<in> set s. is_hex c" and "s \<noteq> []"
  shows "int16_text s = map_option int (hex_fold 0 s)"
proof -
  have ends: "is_hex (hd s)" "is_hex (last s)" using assms by auto
  then have "py_strip s = s" using hex_plain by (intro py_strip_fixed) auto
  moreover have "hd s \<noteq> CHR ''-''" "hd s \<noteq> CHR ''+''" using ends by (auto simp: is_hex_def)
  moreover have "take 2 s \<noteq> ''0x''" "take 2 s \<noteq> ''0X''"
  proof -
    have "set (take 2 s) \<subseteq> Collect is_hex" using assms(1) by (auto dest: in_set_takeD)
    then show "take 2 s \<noteq> ''0x''" "take 2 s \<noteq> ''0X''" by (auto simp: is_hex_def)
  qed
  moreover have none: "CHR ''_'' \<notin> set s" using assms(1) by (auto simp: is_hex_def)
  moreover from none have "filter (\<lambda>c. c \<noteq> CHR ''_'') s = s" by (auto simp: filter_id_conv)
  ultimately show ?thesis using assms(2) by (simp add: int16_text_def underscores_ok_none Let_def)
qed

lemma uuid_str_chars: "c \<in> set (uuid_str u) \<Longrightarrow> is_hex c \<or> c = CHR ''-''"
  by (auto simp: uuid_str_def dashed_def dest!: in_set_takeD in_set_dropD dest: hexn_hex)

lemma strip_braces_absent: "CHR ''{'' \<notin> set s \<Longrightarrow> CHR ''}'' \<notin> set s \<Longrightarrow> strip_braces s = s"
proof -
  assume none: "CHR ''{'' \<notin> set s" "CHR ''}'' \<notin> set s"
  have "dropWhile (\<lambda>c. c \<in> set ''{}'') t = t" if "set t \<subseteq> set s" for t
    using that none by (intro dropWhile_fixed) (cases t; auto)
  then show ?thesis by (simp add: strip_braces_def)
qed

lemma py_uuid_str [simp]: "py_uuid (uuid_str u) = Inr u"
proof -
  have no: "c \<notin> set (uuid_str u)" if "\<not> is_hex c" "c \<noteq> CHR ''-''" for c
    using that uuid_str_chars by blast
  have "remove_all ''urn:'' (uuid_str u) = uuid_str u" "remove_all ''uuid:'' (uuid_str u) = uuid_str u"
    by (rule remove_all_absent; rule no; simp add: is_hex_def)+
  moreover have "strip_braces (uuid_str u) = uuid_str u"
    by (rule strip_braces_absent; rule no; simp add: is_hex_def)
  moreover have "filter (\<lambda>c. c \<noteq> CHR ''-'') (uuid_str u) = hexn 32 (unat u)"
    unfolding uuid_str_def by (rule filter_dashed [OF hexn_no_dash])
  moreover have "int16_text (hexn 32 (unat u)) = Some (int (unat u))"
  proof -
    have "hex_fold 0 (hexn 32 (unat u)) = Some (unat u)"
      using unat_uuid_less [of u] by (simp only: hex_fold_hexn mult_0_right add_0 mod_less)
    moreover have "hexn 32 (unat u) \<noteq> []" using length_hexn [of 32 "unat u"] by fastforce
    ultimately show ?thesis using int16_text_hex hexn_hex by simp
  qed
  ultimately show ?thesis by (simp add: py_uuid_def)
qed

subsection \<open>Reading instants\<close>

text \<open>The fields of the form \<open>isoformat\<close> writes; other ISO 8601 forms are not read.\<close>

definition iso_fields :: "string \<Rightarrow> nat option list option" where
  "iso_fields s =
     (if (length s = 25 \<or> (length s = 32 \<and> s ! 19 = CHR ''.'')) \<and> s ! 4 = CHR ''-'' \<and> s ! 7 = CHR ''-'' \<and>
         s ! 10 = CHR ''T'' \<and> s ! 13 = CHR '':'' \<and> s ! 16 = CHR '':'' \<and>
         drop (length s - 6) s = ''+00:00''
      then Some [dec_value (take 4 s), dec_value (take 2 (drop 5 s)), dec_value (take 2 (drop 8 s)),
                 dec_value (take 2 (drop 11 s)), dec_value (take 2 (drop 14 s)),
                 dec_value (take 2 (drop 17 s)),
                 (if length s = 25 then Some 0 else dec_value (take 6 (drop 20 s)))]
      else None)"

definition iso_instant :: "nat \<Rightarrow> nat \<Rightarrow> nat \<Rightarrow> nat \<Rightarrow> nat \<Rightarrow> nat \<Rightarrow> nat \<Rightarrow> datetime result" where
  "iso_instant y m d h mi sec micro =
     (let day = civil_days (int y) (int m) (int d)
      in if y = 0 then Inl (ValueError ''year 0 is out of range'')
         else if m = 0 \<or> 12 < m then Inl (ValueError ''month must be in 1..12'')
         else if civil_date day \<noteq> (int y, int m, int d)
         then Inl (ValueError ''day is out of range for month'')
         else if 23 < h then Inl (ValueError ''hour must be in 0..23'')
         else if 59 < mi then Inl (ValueError ''minute must be in 0..59'')
         else if 59 < sec then Inl (ValueError ''second must be in 0..59'')
         else Inr (day * 86400000000 + (int h * 3600 + int mi * 60 + int sec) * 1000000 + int micro))"

definition fromisoformat :: "string \<Rightarrow> datetime result" where
  "fromisoformat s =
     (case iso_fields s of
        Some [Some y, Some m, Some d, Some h, Some mi, Some sec, Some micro] \<Rightarrow>
          iso_instant y m d h mi sec micro
      | _ \<Rightarrow> Inl (ValueError (''Invalid isoformat string: '' @ py_repr s)))"

text \<open>The instants a \<open>datetime\<close> has: years 1 to 9999.\<close>

definition datetime_ok :: "datetime \<Rightarrow> bool" where
  "datetime_ok t \<longleftrightarrow> -62135596800000000 \<le> t \<and> t < 253402300800000000"

lemma march_days_mono: "y \<le> y' \<Longrightarrow> march_days y \<le> march_days y'"
proof (induction y' rule: int_ge_induct)
  case (step i)
  with march_days_step(1) [of i] show ?case by simp
qed simp

lemma civil_year_range:
  assumes "-719162 \<le> days" and "days < 2932897" and date: "civil_date days = (y, m, d)"
  shows "1 \<le> y \<and> y \<le> 9999"
proof -
  define ms where "ms = (153 * ((m + 9) mod 12) + 2) div 5"
  define yy where "yy = (if m \<le> 2 then y - 1 else y)"
  have days: "days = march_days yy + ms + d - 1 - 719468"
    using civil_date_days(1) [OF date] by (simp add: civil_days_def ms_def yy_def)
  have m: "1 \<le> m" "m \<le> 12" and d: "1 \<le> d" "d \<le> 31" using civil_date_days(2,3) [OF date] by auto
  define mp where "mp = (if m \<le> 2 then m + 9 else m - 3)"
  have "(m + 9) mod 12 = mp"
    using m int_mod_pos_eq [of "m + 9" 12 1 "m - 3"] by (auto simp: mp_def)
  then have "5 * ms \<le> 153 * mp + 2" "153 * mp + 2 < 5 * ms + 5"
    unfolding ms_def by (simp_all add: div_bounds)
  then have ms: "0 \<le> ms" "ms \<le> 337" "m \<le> 2 \<Longrightarrow> 306 \<le> ms" "2 < m \<Longrightarrow> ms \<le> 275"
    using m by (auto simp: mp_def split: if_splits)
  have "0 < y"
  proof (rule ccontr)
    assume "\<not> 0 < y"
    then have "march_days yy \<le> march_days (if m \<le> 2 then -1 else 0)"
      by (intro march_days_mono) (auto simp: yy_def)
    also have "\<dots> = (if m \<le> 2 then -366 else 0)" by (simp add: march_days_def)
    finally show False using days assms(1) d ms by (simp split: if_splits)
  qed
  moreover have "y < 10000"
  proof (rule ccontr)
    assume "\<not> y < 10000"
    then have "march_days (if m \<le> 2 then 9999 else 10000) \<le> march_days yy"
      by (intro march_days_mono) (auto simp: yy_def)
    moreover have "march_days (if m \<le> 2 then 9999 else 10000) = (if m \<le> 2 then 3652059 else 3652425)"
      by (simp add: march_days_def)
    ultimately show False using days assms(2) d ms by (simp split: if_splits)
  qed
  ultimately show ?thesis by simp
qed

lemma iso_fields_written:
  assumes "length ys = 4" "length ms = 2" "length ds = 2" "length hs = 2" "length mis = 2" "length ss = 2"
    and "f = [] \<or> length f = 6"
  shows "iso_fields (ys @ ''-'' @ ms @ ''-'' @ ds @ ''T'' @ hs @ '':'' @ mis @ '':'' @ ss @
      (if f = [] then [] else ''.'' @ f) @ ''+00:00'') =
    Some [dec_value ys, dec_value ms, dec_value ds, dec_value hs, dec_value mis, dec_value ss,
      (if f = [] then Some 0 else dec_value f)]"
proof -
  obtain a b c d where "ys = [a, b, c, d]" using assms(1) by (auto simp: length_Suc_conv eval_nat_numeral)
  moreover obtain e g where "ms = [e, g]" using assms(2) by (auto simp: length_Suc_conv eval_nat_numeral)
  moreover obtain h i where "ds = [h, i]" using assms(3) by (auto simp: length_Suc_conv eval_nat_numeral)
  moreover obtain j k where "hs = [j, k]" using assms(4) by (auto simp: length_Suc_conv eval_nat_numeral)
  moreover obtain l m where "mis = [l, m]" using assms(5) by (auto simp: length_Suc_conv eval_nat_numeral)
  moreover obtain n p where "ss = [n, p]" using assms(6) by (auto simp: length_Suc_conv eval_nat_numeral)
  moreover have "f = [] \<or> (\<exists>a b c d e g. f = [a, b, c, d, e, g])"
    using assms(7) by (auto simp: length_Suc_conv eval_nat_numeral)
  ultimately show ?thesis by (elim disjE exE) (simp_all add: iso_fields_def)
qed

theorem fromisoformat_isoformat:
  assumes "datetime_ok t"
  shows "fromisoformat (isoformat t) = Inr t"
proof -
  define day rest where "day = t div 86400000000" and "rest = t mod 86400000000"
  define secs micro where "secs = rest div 1000000" and "micro = rest mod 1000000"
  define h mi sec where "h = secs div 3600" and "mi = secs mod 3600 div 60" and "sec = secs mod 60"
  obtain y m d where date: "civil_date day = (y, m, d)" by (metis prod_cases3)
  have t: "t = day * 86400000000 + rest" by (simp add: day_def rest_def)
  have rest: "0 \<le> rest" "rest < 86400000000" by (simp_all add: rest_def)
  have rest_eq: "rest = secs * 1000000 + micro" by (simp add: secs_def micro_def)
  have micro: "0 \<le> micro" "micro < 1000000" by (simp_all add: micro_def)
  have secs: "0 \<le> secs" "secs < 86400" using rest rest_eq micro by linarith+
  have hms: "secs = h * 3600 + mi * 60 + sec" "0 \<le> h" "h < 24" "0 \<le> mi" "mi < 60" "0 \<le> sec" "sec < 60"
  proof -
    define r where "r = secs mod 3600"
    have "r mod 60 = sec" by (simp add: r_def sec_def mod_mod_cancel)
    then have "r = mi * 60 + sec" unfolding mi_def r_def [symmetric] by (metis div_mult_mod_eq)
    moreover have "secs = h * 3600 + r" by (simp add: h_def r_def)
    moreover have "0 \<le> r" "r < 3600" "0 \<le> sec" "sec < 60" by (simp_all add: r_def sec_def)
    ultimately show "secs = h * 3600 + mi * 60 + sec" "0 \<le> h" "h < 24" "0 \<le> mi" "mi < 60" "0 \<le> sec" "sec < 60"
      using secs by linarith+
  qed
  have "-719162 \<le> day" "day < 2932897" using assms t rest by (auto simp: datetime_ok_def)
  from civil_year_range [OF this date] have y: "1 \<le> y" "y \<le> 9999" by auto
  have m: "1 \<le> m" "m \<le> 12" and d: "1 \<le> d" "d \<le> 31" using civil_date_days(2,3) [OF date] by auto
  define f where "f = (if micro = 0 then [] else dec_pad 6 (nat micro))"
  have f: "f = [] \<longleftrightarrow> micro = 0" "f = [] \<or> length f = 6" "f \<noteq> [] \<Longrightarrow> dec_value f = Some (nat micro)"
    using micro by (auto simp: f_def length_dec_pad nat_less_iff)
      (simp add: dec_pad_def dec_nat_def dec_digits_ne)
  have written: "isoformat t = dec_pad 4 (nat y) @ ''-'' @ dec_pad 2 (nat m) @ ''-'' @ dec_pad 2 (nat d) @ ''T'' @
      dec_pad 2 (nat h) @ '':'' @ dec_pad 2 (nat mi) @ '':'' @ dec_pad 2 (nat sec) @
      (if f = [] then [] else ''.'' @ f) @ ''+00:00''"
    by (simp add: isoformat_def Let_def date day_def [symmetric] rest_def [symmetric] f_def
        secs_def [symmetric] micro_def [symmetric] h_def [symmetric] mi_def [symmetric] sec_def [symmetric])
      (simp add: dec_pad_def dec_nat_def dec_digits_ne)
  have "iso_fields (isoformat t) = Some [Some (nat y), Some (nat m), Some (nat d), Some (nat h),
      Some (nat mi), Some (nat sec), Some (nat micro)]"
    unfolding written
    by (subst iso_fields_written [OF _ _ _ _ _ _ f(2)])
      (use y m d hms micro f(1,3) in \<open>auto simp: length_dec_pad nat_less_iff\<close>)
  moreover have "civil_days y m d = day" by (rule civil_date_days(1) [OF date])
  moreover have in_range: "\<not> 12 < nat m" "\<not> 23 < nat h" "\<not> 59 < nat mi" "\<not> 59 < nat sec"
    using m hms by auto
  ultimately show ?thesis
    using y(1) m(1) d(1) hms(2,4,6) micro(1) date in_range
    by (simp add: fromisoformat_def iso_instant_def Let_def) (simp add: t rest_eq hms(1))
qed

subsection \<open>Reading decoded JSON\<close>

text \<open>\<open>document[key]\<close>, \<open>document.get(key, default)\<close> and iteration.\<close>

fun json_item :: "json \<Rightarrow> string \<Rightarrow> json result" where
  "json_item (JObject kvs) k =
     (case map_of kvs k of None \<Rightarrow> Inl (KeyError (py_repr k)) | Some v \<Rightarrow> Inr v)"
| "json_item (JList xs) k = type_error ''list indices must be integers or slices, not str''"
| "json_item (JStr s) k = type_error (''string indices must be integers, not '' @ py_repr ''str'')"
| "json_item j k = type_error (py_repr (type_name j) @ '' object is not subscriptable'')"

fun json_item_or :: "json \<Rightarrow> string \<Rightarrow> json \<Rightarrow> json result" where
  "json_item_or (JObject kvs) k d = Inr (case map_of kvs k of None \<Rightarrow> d | Some v \<Rightarrow> v)"
| "json_item_or j k d = Inl (ModuleError ''AttributeError''
     (py_repr (type_name j) @ '' object has no attribute '' @ py_repr ''get''))"

fun json_iter :: "json \<Rightarrow> json list result" where
  "json_iter (JList xs) = Inr xs"
| "json_iter (JObject kvs) = Inr (map (\<lambda>kv. JStr (fst kv)) kvs)"
| "json_iter (JStr s) = Inr (map (\<lambda>c. JStr [c]) s)"
| "json_iter j = type_error (py_repr (type_name j) @ '' object is not iterable'')"

text \<open>The conversions the stores apply to an entry: \<open>str(d[k])\<close>, \<open>int(d[k])\<close>, and so on.\<close>

definition item_str :: "json \<Rightarrow> string \<Rightarrow> string result" where
  "item_str j k = rbind (json_item j k) (\<lambda>v. Inr (py_str v))"

definition item_int :: "json \<Rightarrow> string \<Rightarrow> int result" where
  "item_int j k = rbind (json_item j k) py_int"

definition item_uuid :: "json \<Rightarrow> string \<Rightarrow> uuid result" where
  "item_uuid j k = rbind (item_str j k) py_uuid"

definition item_time :: "json \<Rightarrow> string \<Rightarrow> datetime result" where
  "item_time j k = rbind (item_str j k) fromisoformat"

definition item_enum :: "string \<Rightarrow> ('e \<Rightarrow> string) \<Rightarrow> 'e list \<Rightarrow> json \<Rightarrow> string \<Rightarrow> 'e result" where
  "item_enum name val members j k =
     rbind (item_str j k) (\<lambda>s. case enum_parse val members s of
        None \<Rightarrow> Inl (ValueError (py_repr s @ '' is not a valid '' @ name)) | Some x \<Rightarrow> Inr x)"

definition item_list :: "(json \<Rightarrow> 'a result) \<Rightarrow> json \<Rightarrow> string \<Rightarrow> 'a list result" where
  "item_list dec j k = rbind (json_item j k) (\<lambda>v. rbind (json_iter v) (map_result dec))"

text \<open>\<open>tuple(f(x) for x in d.get(k, ()))\<close>.\<close>

definition item_list_or :: "(json \<Rightarrow> 'a result) \<Rightarrow> json \<Rightarrow> string \<Rightarrow> 'a list result" where
  "item_list_or dec j k = rbind (json_item_or j k (JList [])) (\<lambda>v. rbind (json_iter v) (map_result dec))"

text \<open>\<open>f(str(d[k])) if d.get(k) else None\<close>.\<close>

definition item_opt :: "(string \<Rightarrow> 'a result) \<Rightarrow> json \<Rightarrow> string \<Rightarrow> 'a option result" where
  "item_opt dec j k =
     rbind (json_item_or j k JNull) (\<lambda>v.
       if py_truthy v then rbind (item_str j k) (\<lambda>s. rbind (dec s) (\<lambda>x. Inr (Some x)))
       else Inr None)"

text \<open>
  \<open>d.get(k)\<close> stored in a field as it is. A field of the model has the type its class
  declares; a document with another value there is refused.
\<close>

definition untyped :: "'a result" where
  "untyped = type_error ''the document does not have the declared type''"

fun raw_str :: "json \<Rightarrow> string result" where
  "raw_str (JStr s) = Inr s"
| "raw_str _ = untyped"

fun raw_opt_str :: "json \<Rightarrow> string option result" where
  "raw_opt_str JNull = Inr None"
| "raw_opt_str (JStr s) = Inr (Some s)"
| "raw_opt_str _ = untyped"

fun raw_opt_int :: "json \<Rightarrow> int option result" where
  "raw_opt_int JNull = Inr None"
| "raw_opt_int (JInt n) = Inr (Some n)"
| "raw_opt_int _ = untyped"

definition opt_json :: "('a \<Rightarrow> json) \<Rightarrow> 'a option \<Rightarrow> json" where
  "opt_json f x = (case x of None \<Rightarrow> JNull | Some y \<Rightarrow> f y)"

definition uuid_json :: "uuid \<Rightarrow> json" where
  "uuid_json u = JStr (uuid_str u)"

lemma opt_json_simps [simp]: "opt_json f None = JNull" "opt_json f (Some x) = f x"
  by (simp_all add: opt_json_def)

lemma uuid_str_ne [simp]: "uuid_str u \<noteq> []"
  by (simp add: uuid_str_def dashed_def)

lemma raw_opt [simp]: "raw_opt_str (opt_json JStr s) = Inr s" "raw_opt_int (opt_json JInt n) = Inr n"
  by (cases s; simp) (cases n; simp)

lemma raw_strs [simp]: "map_result raw_str (map JStr xs) = Inr xs"
  by (induction xs) simp_all

text \<open>Reading back what was written, entry by entry.\<close>

named_theorems read_back \<open>an entry of a document reads back the value it was written from\<close>

lemma read_entries [read_back]:
  "map_of kvs k = Some (JStr s) \<Longrightarrow> item_str (JObject kvs) k = Inr s"
  "map_of kvs k = Some (JInt n) \<Longrightarrow> item_int (JObject kvs) k = Inr n"
  "map_of kvs k = Some (uuid_json u) \<Longrightarrow> item_uuid (JObject kvs) k = Inr u"
  "map_of kvs k = Some (JStr (isoformat t)) \<Longrightarrow> datetime_ok t \<Longrightarrow> item_time (JObject kvs) k = Inr t"
  "map_of kvs k = Some v \<Longrightarrow> json_item_or (JObject kvs) k d = Inr v"
  by (simp_all add: item_str_def item_int_def item_uuid_def item_time_def uuid_json_def
      fromisoformat_isoformat)

lemma read_opt_uuid [read_back]:
  "map_of kvs k = Some (opt_json uuid_json x) \<Longrightarrow> item_opt py_uuid (JObject kvs) k = Inr x"
  by (cases x) (simp_all add: item_opt_def item_str_def uuid_json_def)

lemma read_opt_text [read_back]:
  "map_of kvs k = Some (opt_json JStr x) \<Longrightarrow> x \<noteq> Some [] \<Longrightarrow> item_opt Inr (JObject kvs) k = Inr x"
  by (cases x) (simp_all add: item_opt_def item_str_def)

lemma read_enum:
  assumes "str_enum val members" and "map_of kvs k = Some (JStr (val x))"
  shows "item_enum name val members (JObject kvs) k = Inr x"
  using assms by (simp add: item_enum_def item_str_def str_enum.parse_value)

subsection \<open>Classes stored as documents\<close>

text \<open>
  What the stores rely on for every class they keep in a payload: a storable value is read
  back from the document written for it.
\<close>

locale storage_codec =
  fixes enc :: "'a \<Rightarrow> json"
    and dec :: "json \<Rightarrow> 'a result"
    and storable :: "'a \<Rightarrow> bool"
  assumes dec_enc: "storable x \<Longrightarrow> dec (enc x) = Inr x"
begin

lemma enc_inj: "storable x \<Longrightarrow> storable y \<Longrightarrow> enc x = enc y \<Longrightarrow> x = y"
  by (metis dec_enc sum.inject(2))

lemma map_dec_enc: "(\<And>x. x \<in> set xs \<Longrightarrow> storable x) \<Longrightarrow> map_result dec (map enc xs) = Inr xs"
  by (induction xs) (simp_all add: dec_enc)

lemma read_list:
  "map_of kvs k = Some (JList (map enc xs)) \<Longrightarrow> (\<And>x. x \<in> set xs \<Longrightarrow> storable x) \<Longrightarrow>
     item_list dec (JObject kvs) k = Inr xs"
  by (simp add: item_list_def map_dec_enc)

lemma read_list_or:
  "map_of kvs k = Some (JList (map enc xs)) \<Longrightarrow> (\<And>x. x \<in> set xs \<Longrightarrow> storable x) \<Longrightarrow>
     item_list_or dec (JObject kvs) k = Inr xs"
  by (simp add: item_list_or_def map_dec_enc)

end

text \<open>Identifiers in a list.\<close>

definition uuid_hydrate :: "json \<Rightarrow> uuid result" where
  "uuid_hydrate j = py_uuid (py_str j)"

interpretation uuid_codec: storage_codec uuid_json uuid_hydrate "\<lambda>_. True"
  by unfold_locales (simp add: uuid_json_def uuid_hydrate_def)

declare uuid_codec.read_list [read_back] uuid_codec.read_list_or [read_back]

end
