(* ===== verification/Delivery_Persistence.thy ===== *)
theory Delivery_Persistence
  imports Change_Set_Properties Delivery_Stores Py_Parse
begin

text \<open>
  \<open>PostgresChangeSetStore\<close> of \<open>modules/delivery/infrastructure.py\<close>: the rows of its two
  tables, the JSON payload an aggregate is written to (\<open>_payload\<close>) and read back from
  (\<open>_hydrate\<close>), and the statements of its methods. A table is the list of its rows in
  insertion order; a query without \<open>ORDER BY\<close> is taken to return them in that order. Column
  widths are not modelled. JSONB may reorder the keys of a document, which no reading of it
  notices: every reading is by key.
\<close>

subsection \<open>Payloads\<close>

lemmas read_enums =
  read_enum [OF RV.str_enum_axioms] read_enum [OF RD.str_enum_axioms]
  read_enum [OF RT.str_enum_axioms] read_enum [OF RK.str_enum_axioms]
  read_enum [OF RA.str_enum_axioms] read_enum [OF GD.str_enum_axioms]

definition cc_payload :: "ci_check_observation \<Rightarrow> json" where
  "cc_payload c = JObject
     [(''check_name'', JStr (cc_check_name c)), (''check_run_id'', JStr (cc_check_run_id c)),
      (''passed'', JBool (cc_passed c)), (''summary'', JStr (cc_summary c))]"

definition cc_hydrate :: "json \<Rightarrow> ci_check_observation result" where
  "cc_hydrate j =
     rbind (item_str j ''check_name'') (\<lambda>name.
     rbind (item_str j ''check_run_id'') (\<lambda>run.
     rbind (json_item j ''passed'') (\<lambda>passed.
     rbind (item_str j ''summary'') (\<lambda>summary.
     Inr \<lparr>cc_check_name = name, cc_check_run_id = run, cc_passed = py_truthy passed,
          cc_summary = summary\<rparr>))))"

interpretation ci_check_codec: storage_codec cc_payload cc_hydrate "\<lambda>_. True"
  by unfold_locales (simp add: cc_payload_def cc_hydrate_def read_back)

definition ro_payload :: "review_observation \<Rightarrow> json" where
  "ro_payload r = JObject
     [(''review_id'', JStr (ro_review_id r)), (''reviewer'', JStr (ro_reviewer r)),
      (''state'', JStr (review_state_value (ro_state r))), (''summary'', JStr (ro_summary r))]"

definition ro_hydrate :: "json \<Rightarrow> review_observation result" where
  "ro_hydrate j =
     rbind (item_str j ''review_id'') (\<lambda>i.
     rbind (item_str j ''reviewer'') (\<lambda>reviewer.
     rbind (item_enum ''ReviewState'' review_state_value review_state_members j ''state'') (\<lambda>state.
     rbind (json_item_or j ''summary'' (JStr [])) (\<lambda>summary.
     Inr \<lparr>ro_review_id = i, ro_reviewer = reviewer, ro_state = state,
          ro_summary = py_str summary\<rparr>))))"

interpretation review_codec: storage_codec ro_payload ro_hydrate "\<lambda>_. True"
  by unfold_locales (simp add: ro_payload_def ro_hydrate_def read_back read_enums)

definition rd_payload :: "repository_delivery \<Rightarrow> json" where
  "rd_payload r = JObject
     [(''repository_id'', uuid_json (rd_repository_id r)),
      (''task_id'', uuid_json (rd_task_id r)),
      (''commit_sha'', JStr (rd_commit_sha r)),
      (''base_sha'', JStr (rd_base_sha r)),
      (''branch_name'', JStr (rd_branch_name r)),
      (''depends_on'', JList (map uuid_json (rd_depends_on r))),
      (''merge_order'', JInt (rd_merge_order r)),
      (''status'', JStr (repository_delivery_status_value (rd_status r))),
      (''pull_request_number'', opt_json JInt (rd_pull_request_number r)),
      (''pull_request_url'', opt_json JStr (rd_pull_request_url r)),
      (''ci_check_run_id'', opt_json JStr (rd_ci_check_run_id r)),
      (''ci_summary'', opt_json JStr (rd_ci_summary r)),
      (''merge_sha'', opt_json JStr (rd_merge_sha r)),
      (''required_checks'', JList (map JStr (rd_required_checks r))),
      (''ci_checks'', JList (map cc_payload (rd_ci_checks r))),
      (''required_approvals'', JInt (rd_required_approvals r)),
      (''plan_id'', opt_json uuid_json (rd_plan_id r)),
      (''run_id'', opt_json uuid_json (rd_run_id r)),
      (''worker_agent_id'', opt_json uuid_json (rd_worker_agent_id r)),
      (''reviews'', JList (map ro_payload (rd_reviews r)))]"

definition rd_hydrate :: "json \<Rightarrow> repository_delivery result" where
  "rd_hydrate j =
     rbind (item_uuid j ''repository_id'') (\<lambda>repository_id.
     rbind (item_uuid j ''task_id'') (\<lambda>task_id.
     rbind (item_str j ''commit_sha'') (\<lambda>commit_sha.
     rbind (item_str j ''base_sha'') (\<lambda>base_sha.
     rbind (item_str j ''branch_name'') (\<lambda>branch_name.
     rbind (item_list uuid_hydrate j ''depends_on'') (\<lambda>depends_on.
     rbind (item_int j ''merge_order'') (\<lambda>merge_order.
     rbind (item_enum ''RepositoryDeliveryStatus'' repository_delivery_status_value
              repository_delivery_status_members j ''status'') (\<lambda>status.
     rbind (rbind (json_item_or j ''pull_request_number'' JNull) raw_opt_int) (\<lambda>pr_number.
     rbind (rbind (json_item_or j ''pull_request_url'' JNull) raw_opt_str) (\<lambda>pr_url.
     rbind (rbind (json_item_or j ''ci_check_run_id'' JNull) raw_opt_str) (\<lambda>ci_run.
     rbind (rbind (json_item_or j ''ci_summary'' JNull) raw_opt_str) (\<lambda>ci_summary.
     rbind (rbind (json_item_or j ''merge_sha'' JNull) raw_opt_str) (\<lambda>merge_sha.
     rbind (item_list_or raw_str j ''required_checks'') (\<lambda>required_checks.
     rbind (item_list_or cc_hydrate j ''ci_checks'') (\<lambda>ci_checks.
     rbind (rbind (json_item_or j ''required_approvals'' (JInt 0)) py_int) (\<lambda>approvals.
     rbind (item_opt py_uuid j ''plan_id'') (\<lambda>plan_id.
     rbind (item_opt py_uuid j ''run_id'') (\<lambda>run_id.
     rbind (item_opt py_uuid j ''worker_agent_id'') (\<lambda>worker_agent_id.
     rbind (item_list_or ro_hydrate j ''reviews'') (\<lambda>reviews.
     rd_post_init
      \<lparr>rd_repository_id = repository_id, rd_task_id = task_id, rd_commit_sha = commit_sha,
       rd_base_sha = base_sha, rd_branch_name = branch_name, rd_depends_on = depends_on,
       rd_merge_order = merge_order, rd_required_checks = required_checks,
       rd_ci_checks = ci_checks, rd_required_approvals = approvals, rd_reviews = reviews,
       rd_status = status, rd_pull_request_number = pr_number, rd_pull_request_url = pr_url,
       rd_ci_check_run_id = ci_run, rd_ci_summary = ci_summary, rd_merge_sha = merge_sha,
       rd_plan_id = plan_id, rd_run_id = run_id,
       rd_worker_agent_id = worker_agent_id\<rparr>))))))))))))))))))))"

interpretation candidate_codec: storage_codec rd_payload rd_hydrate rd_wf
proof
  have strs: "map_of kvs k = Some (JList (map JStr xs)) \<Longrightarrow> item_list_or raw_str (JObject kvs) k = Inr xs"
    for kvs k xs by (simp add: item_list_or_def)
  fix r assume "rd_wf r"
  then show "rd_hydrate (rd_payload r) = Inr r"
    by (cases r) (simp add: rd_payload_def rd_hydrate_def read_back read_enums strs
        ci_check_codec.read_list_or review_codec.read_list_or)
qed

definition ra_payload :: "recovery_action \<Rightarrow> json" where
  "ra_payload a = JObject
     [(''id'', uuid_json (ra_id a)), (''sequence'', JInt (ra_sequence a)),
      (''kind'', JStr (recovery_action_kind_value (ra_kind a))),
      (''status'', JStr (recovery_action_status_value (ra_status a))),
      (''repository_id'', opt_json uuid_json (ra_repository_id a)),
      (''run_id'', opt_json uuid_json (ra_run_id a)), (''detail'', JStr (ra_detail a))]"

definition ra_hydrate :: "json \<Rightarrow> recovery_action result" where
  "ra_hydrate j =
     rbind (item_uuid j ''id'') (\<lambda>i.
     rbind (item_int j ''sequence'') (\<lambda>sequence.
     rbind (item_enum ''RecoveryActionKind'' recovery_action_kind_value
              recovery_action_kind_members j ''kind'') (\<lambda>kind.
     rbind (item_enum ''RecoveryActionStatus'' recovery_action_status_value
              recovery_action_status_members j ''status'') (\<lambda>status.
     rbind (item_opt py_uuid j ''repository_id'') (\<lambda>repository_id.
     rbind (item_opt py_uuid j ''run_id'') (\<lambda>run_id.
     rbind (item_str j ''detail'') (\<lambda>detail.
     Inr \<lparr>ra_sequence = sequence, ra_kind = kind, ra_repository_id = repository_id,
          ra_run_id = run_id, ra_detail = detail, ra_id = i, ra_status = status\<rparr>)))))))"

interpretation action_codec: storage_codec ra_payload ra_hydrate "\<lambda>_. True"
  by unfold_locales (simp add: ra_payload_def ra_hydrate_def read_back read_enums)

definition rp_payload :: "recovery_plan \<Rightarrow> json" where
  "rp_payload p = JObject
     [(''id'', uuid_json (rp_id p)),
      (''trigger'', JStr (recovery_trigger_value (rp_trigger p))),
      (''reason'', JStr (rp_reason p)), (''created_at'', JStr (isoformat (rp_created_at p))),
      (''actions'', JList (map ra_payload (rp_actions p)))]"

definition rp_hydrate :: "json \<Rightarrow> recovery_plan result" where
  "rp_hydrate j =
     rbind (item_uuid j ''id'') (\<lambda>i.
     rbind (item_enum ''RecoveryTrigger'' recovery_trigger_value recovery_trigger_members j ''trigger'') (\<lambda>trigger.
     rbind (item_str j ''reason'') (\<lambda>reason.
     rbind (item_time j ''created_at'') (\<lambda>created_at.
     rbind (item_list ra_hydrate j ''actions'') (\<lambda>actions.
     Inr \<lparr>rp_trigger = trigger, rp_reason = reason, rp_actions = actions, rp_id = i,
          rp_created_at = created_at\<rparr>)))))"

interpretation plan_codec: storage_codec rp_payload rp_hydrate "\<lambda>p. datetime_ok (rp_created_at p)"
  by unfold_locales
    (simp add: rp_payload_def rp_hydrate_def read_back read_enums action_codec.read_list)

definition gd_payload :: "governance_decision \<Rightarrow> json" where
  "gd_payload d = JObject
     [(''id'', uuid_json (gd_id d)), (''repository_id'', uuid_json (gd_repository_id d)),
      (''head_sha'', JStr (gd_head_sha d)),
      (''decision'', JStr (governance_decision_kind_value (gd_decision d))),
      (''decided_by_agent_id'', uuid_json (gd_decided_by_agent_id d)),
      (''reason'', JStr (gd_reason d)), (''decided_at'', JStr (isoformat (gd_decided_at d)))]"

definition gd_hydrate :: "json \<Rightarrow> governance_decision result" where
  "gd_hydrate j =
     rbind (item_uuid j ''id'') (\<lambda>i.
     rbind (item_uuid j ''repository_id'') (\<lambda>repository_id.
     rbind (item_str j ''head_sha'') (\<lambda>head_sha.
     rbind (item_enum ''GovernanceDecisionKind'' governance_decision_kind_value
              governance_decision_kind_members j ''decision'') (\<lambda>decision.
     rbind (item_uuid j ''decided_by_agent_id'') (\<lambda>agent.
     rbind (item_str j ''reason'') (\<lambda>reason.
     rbind (item_time j ''decided_at'') (\<lambda>decided_at.
     gd_post_init
      \<lparr>gd_repository_id = repository_id, gd_head_sha = head_sha, gd_decision = decision,
       gd_decided_by_agent_id = agent, gd_reason = reason, gd_id = i,
       gd_decided_at = decided_at\<rparr>)))))))"

interpretation decision_codec: storage_codec gd_payload gd_hydrate
  "\<lambda>d. gd_post_init d = Inr d \<and> datetime_ok (gd_decided_at d)"
proof
  fix d assume "gd_post_init d = Inr d \<and> datetime_ok (gd_decided_at d)"
  then show "gd_hydrate (gd_payload d) = Inr d"
    by (cases d) (simp add: gd_payload_def gd_hydrate_def read_back read_enums)
qed

definition cr_payload :: "candidate_revision \<Rightarrow> json" where
  "cr_payload v = JObject
     [(''id'', uuid_json (cr_id v)), (''repository_id'', uuid_json (cr_repository_id v)),
      (''task_id'', uuid_json (cr_task_id v)), (''sequence'', JInt (cr_sequence v)),
      (''head_sha'', JStr (cr_head_sha v)),
      (''previous_head_sha'', opt_json JStr (cr_previous_head_sha v)),
      (''reason'', JStr (cr_reason v)), (''created_at'', JStr (isoformat (cr_created_at v)))]"

definition cr_hydrate :: "json \<Rightarrow> candidate_revision result" where
  "cr_hydrate j =
     rbind (item_uuid j ''id'') (\<lambda>i.
     rbind (item_uuid j ''repository_id'') (\<lambda>repository_id.
     rbind (item_uuid j ''task_id'') (\<lambda>task_id.
     rbind (item_int j ''sequence'') (\<lambda>sequence.
     rbind (item_str j ''head_sha'') (\<lambda>head_sha.
     rbind (item_opt Inr j ''previous_head_sha'') (\<lambda>previous_head_sha.
     rbind (item_str j ''reason'') (\<lambda>reason.
     rbind (item_time j ''created_at'') (\<lambda>created_at.
     Inr \<lparr>cr_repository_id = repository_id, cr_task_id = task_id, cr_sequence = sequence,
          cr_head_sha = head_sha, cr_previous_head_sha = previous_head_sha, cr_reason = reason,
          cr_id = i, cr_created_at = created_at\<rparr>))))))))"

interpretation revision_codec: storage_codec cr_payload cr_hydrate
  "\<lambda>v. cr_previous_head_sha v \<noteq> Some [] \<and> datetime_ok (cr_created_at v)"
  by unfold_locales (simp add: cr_payload_def cr_hydrate_def read_back)

subsection \<open>Rows\<close>

record change_set_record =
  csr_id :: uuid
  csr_organization_id :: uuid
  csr_project_id :: uuid
  csr_status :: string
  csr_version :: int
  csr_idempotency_key :: string
  csr_fingerprint :: string
  csr_payload :: json
  csr_created_at :: datetime
  csr_updated_at :: datetime

record change_set_repository_record =
  crr_change_set_id :: uuid
  crr_repository_id :: uuid
  crr_head_sha :: string
  crr_pull_request_number :: "int option"
  crr_status :: string

definition cs_payload :: "change_set \<Rightarrow> json" where
  "cs_payload c = JObject
     [(''created_by_agent_id'', uuid_json (cs_created_by_agent_id c)),
      (''title'', JStr (cs_title c)),
      (''validation_snapshot_id'', opt_json uuid_json (cs_validation_snapshot_id c)),
      (''merge_cursor'', JInt (cs_merge_cursor c)),
      (''repositories'', JList (map rd_payload (cs_repositories c))),
      (''recovery_plans'', JList (map rp_payload (cs_recovery_plans c))),
      (''governance_decisions'', JList (map gd_payload (cs_governance_decisions c))),
      (''candidate_revisions'', JList (map cr_payload (cs_candidate_revisions c)))]"

definition cs_hydrate :: "change_set_record \<Rightarrow> change_set result" where
  "cs_hydrate row =
     (let j = csr_payload row in
     rbind (item_list rd_hydrate j ''repositories'') (\<lambda>repositories.
     rbind (item_list rp_hydrate j ''recovery_plans'') (\<lambda>plans.
     rbind (item_list_or gd_hydrate j ''governance_decisions'') (\<lambda>governance.
     rbind (item_list_or cr_hydrate j ''candidate_revisions'') (\<lambda>revisions.
     rbind (item_uuid j ''created_by_agent_id'') (\<lambda>agent.
     rbind (item_str j ''title'') (\<lambda>title.
     rbind (item_opt py_uuid j ''validation_snapshot_id'') (\<lambda>snapshot.
     rbind (case enum_parse change_set_status_value change_set_status_members (csr_status row) of
              None \<Rightarrow> Inl (ValueError (py_repr (csr_status row) @ '' is not a valid ChangeSetStatus''))
            | Some status \<Rightarrow> Inr status) (\<lambda>status.
     rbind (rbind (json_item_or j ''merge_cursor'' (JInt 0)) py_int) (\<lambda>cursor.
     cs_post_init
      \<lparr>cs_organization_id = csr_organization_id row, cs_project_id = csr_project_id row,
       cs_created_by_agent_id = agent, cs_title = title, cs_validation_snapshot_id = snapshot,
       cs_repositories = repositories, cs_id = csr_id row, cs_status = status,
       cs_recovery_plans = plans, cs_governance_decisions = governance,
       cs_candidate_revisions = revisions, cs_version = csr_version row,
       cs_merge_cursor = cursor, cs_created_at = csr_created_at row,
       cs_updated_at = csr_updated_at row\<rparr>))))))))))"

definition change_set_row :: "change_set \<Rightarrow> string \<Rightarrow> string \<Rightarrow> change_set_record" where
  "change_set_row c idempotency_key fingerprint =
     \<lparr>csr_id = cs_id c, csr_organization_id = cs_organization_id c,
      csr_project_id = cs_project_id c, csr_status = change_set_status_value (cs_status c),
      csr_version = cs_version c, csr_idempotency_key = idempotency_key,
      csr_fingerprint = fingerprint, csr_payload = cs_payload c,
      csr_created_at = cs_created_at c, csr_updated_at = cs_updated_at c\<rparr>"

text \<open>What a ChangeSet must satisfy to survive being written and read.\<close>

definition cs_storable :: "change_set \<Rightarrow> bool" where
  "cs_storable c \<longleftrightarrow>
     cs_wf c \<and> (\<forall>r \<in> set (cs_repositories c). rd_wf r) \<and>
     (\<forall>p \<in> set (cs_recovery_plans c). datetime_ok (rp_created_at p)) \<and>
     (\<forall>d \<in> set (cs_governance_decisions c). gd_post_init d = Inr d \<and> datetime_ok (gd_decided_at d)) \<and>
     (\<forall>v \<in> set (cs_candidate_revisions c).
        cr_previous_head_sha v \<noteq> Some [] \<and> datetime_ok (cr_created_at v))"

lemma cs_hydrate_row [simp]:
  assumes "cs_storable c"
  shows "cs_hydrate (change_set_row c k f) = Inr c"
proof -
  have "cs_post_init c = Inr c" using assms by (simp add: cs_storable_def)
  with assms show ?thesis
    unfolding cs_hydrate_def change_set_row_def cs_payload_def
    by (cases c)
      (simp add: Let_def read_back cs_storable_def candidate_codec.read_list plan_codec.read_list
        decision_codec.read_list_or revision_codec.read_list_or)
qed

subsection \<open>Statements\<close>

record delivery_db =
  db_change_sets :: "change_set_record list"
  db_repositories :: "change_set_repository_record list"

definition repository_row :: "change_set \<Rightarrow> repository_delivery \<Rightarrow> change_set_repository_record" where
  "repository_row c r =
     \<lparr>crr_change_set_id = cs_id c, crr_repository_id = rd_repository_id r,
      crr_head_sha = rd_commit_sha r, crr_pull_request_number = rd_pull_request_number r,
      crr_status = repository_delivery_status_value (rd_status r)\<rparr>"

definition repository_rows :: "change_set \<Rightarrow> change_set_repository_record list" where
  "repository_rows c = map (repository_row c) (cs_repositories c)"

definition crr_key :: "change_set_repository_record \<Rightarrow> uuid \<times> uuid" where
  "crr_key row = (crr_change_set_id row, crr_repository_id row)"

text \<open>
  \<open>add\<close>: one transaction; a violated unique constraint (the id, the idempotency key, a
  candidate of the ChangeSet) is an \<open>IntegrityError\<close> and nothing is written.
\<close>

definition pg_add :: "change_set \<Rightarrow> string \<Rightarrow> string \<Rightarrow> (delivery_db, unit) proc" where
  "pg_add c idempotency_key fingerprint db =
     (if (\<exists>row \<in> set (db_change_sets db). csr_id row = cs_id c \<or> csr_idempotency_key row = idempotency_key)
         \<or> \<not> distinct (map crr_key (db_repositories db @ repository_rows c))
      then (Inl (DeliveryConflict ''duplicate ChangeSet''), db)
      else (Inr (), db\<lparr>db_change_sets := db_change_sets db @ [change_set_row c idempotency_key fingerprint],
                       db_repositories := db_repositories db @ repository_rows c\<rparr>))"

definition pg_get :: "uuid \<Rightarrow> (delivery_db, change_set option) proc" where
  "pg_get change_set_id db =
     (case find (\<lambda>row. csr_id row = change_set_id) (db_change_sets db) of
        None \<Rightarrow> (Inr None, db)
      | Some row \<Rightarrow> (rbind (cs_hydrate row) (\<lambda>c. Inr (Some c)), db))"

definition pg_get_by_idempotency_key ::
    "string \<Rightarrow> (delivery_db, (change_set \<times> string) option) proc" where
  "pg_get_by_idempotency_key key db =
     (case find (\<lambda>row. csr_idempotency_key row = key) (db_change_sets db) of
        None \<Rightarrow> (Inr None, db)
      | Some row \<Rightarrow> (rbind (cs_hydrate row) (\<lambda>c. Inr (Some (c, csr_fingerprint row))), db))"

text \<open>
  \<open>update\<close> has two parts. It reads the row and the candidate rows and compares the version
  in the program; then the commit sends one \<open>UPDATE ... WHERE id = ...\<close> per changed row, with
  the columns whose value differs from the one read, and an \<open>INSERT\<close> per new candidate. Other
  transactions may commit in between: the isolation is the database's default, read committed,
  and the row is not locked by the read.
\<close>

definition pg_update_read ::
    "change_set \<Rightarrow> int \<Rightarrow> delivery_db \<Rightarrow> (change_set_record \<times> change_set_repository_record list) result" where
  "pg_update_read c expected_version db =
     (case find (\<lambda>row. csr_id row = cs_id c) (db_change_sets db) of
        None \<Rightarrow> Inl (DeliveryConflict ''ChangeSet version changed'')
      | Some row \<Rightarrow>
          if csr_version row \<noteq> expected_version
          then Inl (DeliveryConflict ''ChangeSet version changed'')
          else Inr (row, filter (\<lambda>item. crr_change_set_id item = cs_id c) (db_repositories db)))"

definition col :: "'a \<Rightarrow> 'a \<Rightarrow> 'a \<Rightarrow> 'a" where
  "col loaded new current = (if new = loaded then current else new)"

definition write_change_set :: "change_set \<Rightarrow> change_set_record \<Rightarrow> change_set_record \<Rightarrow> change_set_record" where
  "write_change_set c loaded row =
     row\<lparr>csr_status := col (csr_status loaded) (change_set_status_value (cs_status c)) (csr_status row),
         csr_version := col (csr_version loaded) (cs_version c) (csr_version row),
         csr_payload := col (csr_payload loaded) (cs_payload c) (csr_payload row),
         csr_updated_at := col (csr_updated_at loaded) (cs_updated_at c) (csr_updated_at row)\<rparr>"

definition write_repository ::
    "repository_delivery \<Rightarrow> change_set_repository_record \<Rightarrow> change_set_repository_record
     \<Rightarrow> change_set_repository_record" where
  "write_repository r loaded row =
     row\<lparr>crr_head_sha := col (crr_head_sha loaded) (rd_commit_sha r) (crr_head_sha row),
         crr_pull_request_number :=
           col (crr_pull_request_number loaded) (rd_pull_request_number r) (crr_pull_request_number row),
         crr_status := col (crr_status loaded) (repository_delivery_status_value (rd_status r))
           (crr_status row)\<rparr>"

definition write_candidate ::
    "change_set \<Rightarrow> change_set_repository_record list \<Rightarrow> change_set_repository_record list
     \<Rightarrow> repository_delivery \<Rightarrow> change_set_repository_record list" where
  "write_candidate c loaded rows r =
     (case find (\<lambda>l. crr_repository_id l = rd_repository_id r) loaded of
        None \<Rightarrow> rows @ [repository_row c r]
      | Some l \<Rightarrow> map_where (\<lambda>row. crr_key row = (cs_id c, rd_repository_id r)) (write_repository r l) rows)"

definition pg_update_write ::
    "change_set \<Rightarrow> change_set_record \<times> change_set_repository_record list \<Rightarrow> (delivery_db, unit) proc" where
  "pg_update_write c loaded db =
     (let repositories = foldl (write_candidate c (snd loaded)) (db_repositories db) (cs_repositories c)
      in if \<not> distinct (map crr_key repositories)
         then (Inl (ModuleError ''IntegrityError'' ''uq_change_set_repositories_candidate''), db)
         else (Inr (), db\<lparr>db_change_sets :=
                  map_where (\<lambda>row. csr_id row = cs_id c) (write_change_set c (fst loaded)) (db_change_sets db),
                db_repositories := repositories\<rparr>))"

text \<open>The update when nothing commits in between.\<close>

definition pg_update :: "change_set \<Rightarrow> int \<Rightarrow> (delivery_db, unit) proc" where
  "pg_update c expected_version db =
     (case pg_update_read c expected_version db of
        Inl e \<Rightarrow> (Inl e, db) | Inr loaded \<Rightarrow> pg_update_write c loaded db)"

definition pg_find_by_candidate :: "uuid \<Rightarrow> string \<Rightarrow> delivery_db \<Rightarrow> change_set list result" where
  "pg_find_by_candidate repository_id head_sha db =
     (let normalized = py_lower (py_strip head_sha);
          ids = map crr_change_set_id (filter (\<lambda>row. crr_repository_id row = repository_id \<and>
                  crr_head_sha row = normalized) (db_repositories db))
      in if ids = [] then Inr []
         else map_result cs_hydrate (filter (\<lambda>row. csr_id row \<in> set ids) (db_change_sets db)))"

definition pg_find_by_project :: "uuid \<Rightarrow> delivery_db \<Rightarrow> change_set list result" where
  "pg_find_by_project project_id db =
     map_result cs_hydrate (sort_key csr_updated_at
       (filter (\<lambda>row. csr_project_id row = project_id) (db_change_sets db)))"

definition pg_list_active :: "delivery_db \<Rightarrow> change_set list result" where
  "pg_list_active db =
     map_result cs_hydrate (sort_key csr_updated_at
       (filter (\<lambda>row. csr_status row \<notin>
           {change_set_status_value CS_DELIVERED, change_set_status_value CS_COMPENSATED})
         (db_change_sets db)))"

end
