(* ===== verification/Delivery_Conflicts.thy ===== *)
theory Delivery_Conflicts
  imports Delivery_Contracts
begin

text \<open>
  Delivery conflict cases (\<open>modules/delivery/conflicts.py\<close>). The table is the list of its
  rows and every method is one database transaction, so it is atomic; the partial unique index
  admits one open row per ChangeSet and repository, and a write that would break it (or the
  primary key) is the \<open>IntegrityError\<close> the code catches.
\<close>

datatype delivery_conflict_kind = BASE_DRIFT | CONTENT_CONFLICT

fun delivery_conflict_kind_value :: "delivery_conflict_kind \<Rightarrow> string" where
  "delivery_conflict_kind_value BASE_DRIFT = ''base_drift''"
| "delivery_conflict_kind_value CONTENT_CONFLICT = ''content_conflict''"

interpretation DK: str_enum delivery_conflict_kind_value "[BASE_DRIFT, CONTENT_CONFLICT]"
proof
  show "x \<in> set [BASE_DRIFT, CONTENT_CONFLICT]" for x by (cases x) simp_all
qed simp

datatype delivery_conflict_case_status = DC_OPEN | DC_RESOLVED | DC_ESCALATED

record delivery_conflict_case =
  dc_id :: uuid
  dc_change_set_id :: uuid
  dc_organization_id :: uuid
  dc_project_id :: uuid
  dc_repository_id :: uuid
  dc_candidate_head_sha :: string
  dc_kind :: delivery_conflict_kind
  dc_expected_base_sha :: string
  dc_observed_base_sha :: string
  dc_detail :: string
  dc_status :: delivery_conflict_case_status
  dc_repair_task_id :: "uuid option"
  dc_version :: int
  dc_detected_at :: datetime
  dc_updated_at :: datetime
  dc_resolved_at :: "datetime option"

type_synonym conflict_case_table = "delivery_conflict_case list"

definition dc_active :: "uuid \<Rightarrow> uuid \<Rightarrow> delivery_conflict_case \<Rightarrow> bool" where
  "dc_active change_set_id repository_id r \<longleftrightarrow> dc_change_set_id r = change_set_id \<and>
     dc_repository_id r = repository_id \<and> dc_status r = DC_OPEN"

definition dc_index_ok :: "conflict_case_table \<Rightarrow> bool" where
  "dc_index_ok rows \<longleftrightarrow> distinct (map dc_id rows) \<and>
     distinct (map (\<lambda>r. (dc_change_set_id r, dc_repository_id r)) (filter (\<lambda>r. dc_status r = DC_OPEN) rows))"

definition ccs_active_for :: "uuid \<Rightarrow> uuid \<Rightarrow> conflict_case_table \<Rightarrow> delivery_conflict_case option" where
  "ccs_active_for change_set_id repository_id rows = find (dc_active change_set_id repository_id) rows"

text \<open>The arguments of \<open>ensure\<close>.\<close>

record conflict_report =
  crp_change_set_id :: uuid
  crp_organization_id :: uuid
  crp_project_id :: uuid
  crp_repository_id :: uuid
  crp_candidate_head_sha :: string
  crp_kind :: delivery_conflict_kind
  crp_expected_base_sha :: string
  crp_observed_base_sha :: string
  crp_detail :: string

definition new_conflict_case :: "conflict_report \<Rightarrow> uuid \<Rightarrow> datetime \<Rightarrow> delivery_conflict_case" where
  "new_conflict_case p i now =
     \<lparr>dc_id = i, dc_change_set_id = crp_change_set_id p, dc_organization_id = crp_organization_id p,
      dc_project_id = crp_project_id p, dc_repository_id = crp_repository_id p,
      dc_candidate_head_sha = crp_candidate_head_sha p, dc_kind = crp_kind p,
      dc_expected_base_sha = crp_expected_base_sha p, dc_observed_base_sha = crp_observed_base_sha p,
      dc_detail = take 2000 (crp_detail p), dc_status = DC_OPEN, dc_repair_task_id = None,
      dc_version = 1, dc_detected_at = now, dc_updated_at = now, dc_resolved_at = None\<rparr>"

text \<open>Replace the row with this primary key.\<close>

definition dc_write :: "delivery_conflict_case \<Rightarrow> conflict_case_table \<Rightarrow> conflict_case_table" where
  "dc_write r rows = map_where (\<lambda>x. dc_id x = dc_id r) (\<lambda>_. r) rows"

text \<open>
  The insert at the end of the transaction on \<open>table\<close>; where it breaks the index, the
  transaction is undone to \<open>rows\<close> and the case that is open there is the answer.
\<close>

definition dc_insert ::
    "delivery_conflict_case \<Rightarrow> conflict_case_table \<Rightarrow> (conflict_case_table, delivery_conflict_case) proc" where
  "dc_insert created table rows =
     (if dc_index_ok (table @ [created]) then (Inr created, table @ [created])
      else case ccs_active_for (dc_change_set_id created) (dc_repository_id created) rows of
             Some r \<Rightarrow> (Inr r, rows)
           | None \<Rightarrow> (Inl (DeliveryConflict ''delivery conflict case changed concurrently''), rows))"

definition dc_refreshed :: "conflict_report \<Rightarrow> datetime \<Rightarrow> delivery_conflict_case \<Rightarrow> delivery_conflict_case" where
  "dc_refreshed p now r = r\<lparr>dc_kind := crp_kind p, dc_observed_base_sha := crp_observed_base_sha p,
     dc_detail := take 2000 (crp_detail p), dc_version := dc_version r + 1, dc_updated_at := now\<rparr>"

definition ccs_ensure ::
    "conflict_report \<Rightarrow> uuid \<Rightarrow> datetime \<Rightarrow> (conflict_case_table, delivery_conflict_case) proc" where
  "ccs_ensure p i now rows =
     (case ccs_active_for (crp_change_set_id p) (crp_repository_id p) rows of
        None \<Rightarrow> dc_insert (new_conflict_case p i now) rows rows
      | Some r \<Rightarrow>
          if dc_candidate_head_sha r \<noteq> crp_candidate_head_sha p
          then dc_insert (new_conflict_case p i now)
                 (dc_write (r\<lparr>dc_status := DC_RESOLVED, dc_resolved_at := Some now\<rparr>) rows) rows
          else (Inr (dc_refreshed p now r), dc_write (dc_refreshed p now r) rows))"

definition ccs_set_repair_task ::
    "uuid \<Rightarrow> uuid \<Rightarrow> datetime \<Rightarrow> (conflict_case_table, delivery_conflict_case) proc" where
  "ccs_set_repair_task case_id task_id now rows =
     (case find (\<lambda>r. dc_id r = case_id) rows of
        None \<Rightarrow> (Inl (DeliveryConflict ''delivery conflict case is not open''), rows)
      | Some r \<Rightarrow>
          if dc_status r \<noteq> DC_OPEN
          then (Inl (DeliveryConflict ''delivery conflict case is not open''), rows)
          else if dc_repair_task_id r \<noteq> None \<and> dc_repair_task_id r \<noteq> Some task_id
          then (Inl (DeliveryConflict ''delivery conflict case already has another repair task''), rows)
          else let updated = r\<lparr>dc_repair_task_id := Some task_id, dc_version := dc_version r + 1,
                     dc_updated_at := now\<rparr>
               in (Inr updated, dc_write updated rows))"

definition ccs_resolve_for_revision ::
    "uuid \<Rightarrow> uuid \<Rightarrow> string \<Rightarrow> datetime \<Rightarrow> conflict_case_table \<Rightarrow> conflict_case_table" where
  "ccs_resolve_for_revision change_set_id repository_id previous_head_sha now rows =
     map_where (\<lambda>r. dc_active change_set_id repository_id r \<and> dc_candidate_head_sha r = previous_head_sha)
       (\<lambda>r. r\<lparr>dc_status := DC_RESOLVED, dc_resolved_at := Some now, dc_updated_at := now,
              dc_version := dc_version r + 1\<rparr>) rows"

definition ccs_list_for_change_set :: "uuid \<Rightarrow> conflict_case_table \<Rightarrow> delivery_conflict_case list" where
  "ccs_list_for_change_set change_set_id rows =
     sort_key dc_detected_at (filter (\<lambda>r. dc_change_set_id r = change_set_id) rows)"

definition ccs_list_all :: "conflict_case_table \<Rightarrow> delivery_conflict_case list" where
  "ccs_list_all rows = sort_key dc_detected_at rows"

subsection \<open>At most one open case per candidate\<close>

lemma dc_write_keys:
  "map dc_id (dc_write r rows) = map dc_id rows"
  by (simp add: dc_write_def map_map_where)

lemma map_where_id: "(\<And>x. x \<in> set xs \<Longrightarrow> p x \<Longrightarrow> f x = x) \<Longrightarrow> map_where p f xs = xs"
  by (induction xs) (auto simp: map_where_def)

text \<open>Closing rows, or changing a row without opening it, keeps the index.\<close>

lemma dc_index_ok_map:
  assumes "dc_index_ok rows"
    and "\<And>r. r \<in> set rows \<Longrightarrow> dc_id (f r) = dc_id r"
    and "\<And>r. r \<in> set rows \<Longrightarrow> dc_status (f r) = DC_OPEN \<Longrightarrow> dc_status r = DC_OPEN \<and>
      dc_change_set_id (f r) = dc_change_set_id r \<and> dc_repository_id (f r) = dc_repository_id r"
  shows "dc_index_ok (map f rows)"
proof -
  let ?k = "\<lambda>r. (dc_change_set_id r, dc_repository_id r)" and ?o = "\<lambda>r. dc_status r = DC_OPEN"
  have "map dc_id (map f rows) = map dc_id rows" using assms(2) by simp
  moreover have "distinct (map ?k (filter ?o (map f rows)))"
    if "distinct (map ?k (filter ?o rows))"
    using that assms(3)
  proof (induction rows)
    case (Cons r rows)
    have sub: "?k ` set (filter ?o (map f rows)) \<subseteq> ?k ` set (filter ?o rows)"
      using Cons.prems(2) by (fastforce simp: image_iff)
    with Cons show ?case by (auto split: if_splits)
  qed simp
  ultimately show ?thesis using assms(1) by (simp only: dc_index_ok_def)
qed

lemma dc_index_ok_write:
  assumes "dc_index_ok rows" and "r \<in> set rows" and "dc_id q = dc_id r"
    and "dc_status q = DC_OPEN \<Longrightarrow> dc_status r = DC_OPEN \<and>
      dc_change_set_id q = dc_change_set_id r \<and> dc_repository_id q = dc_repository_id r"
  shows "dc_index_ok (dc_write q rows)"
  unfolding dc_write_def map_where_def
proof (rule dc_index_ok_map [OF assms(1)])
  have same: "x = r" if "x \<in> set rows" "dc_id x = dc_id q" for x
    using assms(1-3) that by (auto simp: dc_index_ok_def distinct_map dest: inj_onD)
  fix x assume "x \<in> set rows"
  then show "dc_id (if dc_id x = dc_id q then q else x) = dc_id x"
    and "dc_status (if dc_id x = dc_id q then q else x) = DC_OPEN \<Longrightarrow> dc_status x = DC_OPEN \<and>
      dc_change_set_id (if dc_id x = dc_id q then q else x) = dc_change_set_id x \<and>
      dc_repository_id (if dc_id x = dc_id q then q else x) = dc_repository_id x"
    using assms(4) same by (auto split: if_splits)
qed

lemma ccs_active_forD:
  "ccs_active_for c p rows = Some r \<Longrightarrow> r \<in> set rows \<and> dc_active c p r"
  by (auto simp: ccs_active_for_def dest: find_SomeD)

lemma ccs_resolve_index: "dc_index_ok rows \<Longrightarrow> dc_index_ok (ccs_resolve_for_revision c p h now rows)"
  unfolding ccs_resolve_for_revision_def map_where_def
  by (rule dc_index_ok_map) (auto split: if_splits)

lemma ccs_set_repair_task_index:
  "ccs_set_repair_task i t now rows = (r, rows') \<Longrightarrow> dc_index_ok rows \<Longrightarrow> dc_index_ok rows'"
  by (auto simp: ccs_set_repair_task_def Let_def intro!: dc_index_ok_write dest: find_SomeD
      split: option.splits if_splits)

lemma dc_insert_index: "dc_insert c table rows = (r, rows') \<Longrightarrow> dc_index_ok rows \<Longrightarrow> dc_index_ok rows'"
  by (auto simp: dc_insert_def split: if_splits option.splits)

lemma ccs_ensure_index:
  assumes "ccs_ensure p i now rows = (r, rows')" and "dc_index_ok rows"
  shows "dc_index_ok rows'"
proof (cases "ccs_active_for (crp_change_set_id p) (crp_repository_id p) rows")
  case None
  with assms(1) have "dc_insert (new_conflict_case p i now) rows rows = (r, rows')"
    by (simp add: ccs_ensure_def)
  then show ?thesis using assms(2) by (rule dc_insert_index)
next
  case (Some q)
  have "dc_index_ok (dc_write (dc_refreshed p now q) rows)"
    using ccs_active_forD [OF Some]
    by (intro dc_index_ok_write [OF assms(2), of q]) (simp_all add: dc_refreshed_def)
  with Some assms show ?thesis
    by (auto simp: ccs_ensure_def dest: dc_insert_index split: if_splits)
qed

text \<open>After a revision away from the head of its open case a candidate has no open case left.\<close>

lemma ccs_resolve_none:
  assumes "dc_index_ok rows" and "ccs_active_for c p rows = Some r" and "dc_candidate_head_sha r = h"
  shows "ccs_active_for c p (ccs_resolve_for_revision c p h now rows) = None"
proof -
  let ?k = "\<lambda>r. (dc_change_set_id r, dc_repository_id r)" and ?o = "\<lambda>r. dc_status r = DC_OPEN"
  have same: "x = r" if "x \<in> set rows" "dc_active c p x" for x
  proof -
    have "x \<in> set (filter ?o rows)" "r \<in> set (filter ?o rows)" "?k x = ?k r"
      using that ccs_active_forD [OF assms(2)] by (auto simp: dc_active_def)
    moreover have "inj_on ?k (set (filter ?o rows))"
      using assms(1) unfolding dc_index_ok_def distinct_map by blast
    ultimately show ?thesis by (blast dest: inj_onD)
  qed
  have "\<not> dc_active c p x" if "x \<in> set (ccs_resolve_for_revision c p h now rows)" for x
  proof -
    from that consider (closed) y where "x = y\<lparr>dc_status := DC_RESOLVED, dc_resolved_at := Some now,
        dc_updated_at := now, dc_version := dc_version y + 1\<rparr>"
      | (kept) "x \<in> set rows" "\<not> (dc_active c p x \<and> dc_candidate_head_sha x = h)"
      unfolding ccs_resolve_for_revision_def set_map_where by blast
    then show ?thesis
    proof cases
      case closed
      then show ?thesis by (simp add: dc_active_def)
    next
      case kept
      with same assms(3) show ?thesis by blast
    qed
  qed
  then show ?thesis unfolding ccs_active_for_def find_None_iff by blast
qed

end
