(* ===== verification/Delivery_Service.thy ===== *)
theory Delivery_Service
  imports Change_Set_Properties Delivery_Stores Delivery_Conflicts Py_Text
begin

text \<open>
  \<open>DeliveryService\<close> of \<open>modules/delivery/application.py\<close> over its store, its audit log
  and the conflict cases. The state is a record of the three; a method is a procedure over it.
  Where a method awaits two store calls, \<open>env\<close> is what other tasks did to the state between
  them. The validation reader and the contract catalogue are ports whose implementations are
  arguments of the model.
\<close>

subsection \<open>The service and its state\<close>

record delivery_state =
  dst_store :: change_set_store
  dst_events :: "event_envelope list"
  dst_cases :: conflict_case_table

record delivery_service =
  dsv_require_governance :: bool
  dsv_require_validation :: bool
  dsv_validation_reader :: "(uuid \<Rightarrow> uuid \<Rightarrow> (uuid, string) dict \<Rightarrow> validation_evidence_decision) option"
  dsv_contract_catalog :: "(uuid \<Rightarrow> contract_view list) option"
  dsv_audit :: bool
  dsv_conflict_cases :: bool

type_synonym 'a delivery_proc = "(delivery_state, 'a) proc"

definition in_store :: "(change_set_store, 'a) proc \<Rightarrow> 'a delivery_proc" where
  "in_store p s = (case p (dst_store s) of (r, t) \<Rightarrow> (r, s\<lparr>dst_store := t\<rparr>))"

definition append_event :: "event_envelope \<Rightarrow> unit delivery_proc" where
  "append_event e s = (Inr (), s\<lparr>dst_events := audit_append e (dst_events s)\<rparr>)"

definition ds_required :: "uuid \<Rightarrow> change_set delivery_proc" where
  "ds_required change_set_id =
     pbind (pget (\<lambda>s. cst_get (dst_store s) change_set_id)) (\<lambda>found.
     case found of
       None \<Rightarrow> praise (DeliveryNotFound (''ChangeSet not found: '' @ uuid_str change_set_id))
     | Some c \<Rightarrow> preturn c)"

text \<open>Write the new aggregate over the version that was read.\<close>

definition ds_update :: "change_set \<Rightarrow> change_set \<Rightarrow> change_set_view delivery_proc" where
  "ds_update c updated =
     pbind (in_store (cst_update updated (cs_version c))) (\<lambda>_. preturn (cs_to_view updated))"

subsection \<open>Preparing\<close>

text \<open>
  \<open>_fingerprint\<close>: the command without its provenance as canonical JSON, hashed.
  \<open>sha256\<close> is the hexadecimal digest of the text.
\<close>

definition candidate_json :: "repository_candidate_input \<Rightarrow> string" where
  "candidate_json item = json_object
     [(''repository_id'', json_string (uuid_str (rci_repository_id item))),
      (''task_id'', json_string (uuid_str (rci_task_id item))),
      (''commit_sha'', json_string (rci_commit_sha item)),
      (''base_sha'', json_string (rci_base_sha item)),
      (''branch_name'', json_string (rci_branch_name item)),
      (''depends_on'', json_array (map (\<lambda>d. json_string (uuid_str d)) (rci_depends_on item))),
      (''required_checks'', json_array (map json_string (rci_required_checks item))),
      (''required_approvals'', dec_int (rci_required_approvals item))]"

definition prepare_json :: "prepare_change_set_command \<Rightarrow> string" where
  "prepare_json command = json_object
     [(''organization_id'', json_string (uuid_str (pcs_organization_id command))),
      (''project_id'', json_string (uuid_str (pcs_project_id command))),
      (''created_by_agent_id'', json_string (uuid_str (pcs_created_by_agent_id command))),
      (''title'', json_string (pcs_title command)),
      (''validation_snapshot_id'', (case pcs_validation_snapshot_id command of
         None \<Rightarrow> json_null | Some u \<Rightarrow> json_string (uuid_str u))),
      (''candidates'', json_array (map candidate_json (pcs_candidates command)))]"

definition prepare_fingerprint :: "(string \<Rightarrow> string) \<Rightarrow> prepare_change_set_command \<Rightarrow> string" where
  "prepare_fingerprint sha256 command = sha256 (prepare_json command)"

definition ds_prepare ::
    "(string \<Rightarrow> string) \<Rightarrow> prepare_change_set_command \<Rightarrow> string \<Rightarrow> uuid \<Rightarrow> (nat \<Rightarrow> uuid) \<Rightarrow> datetime
     \<Rightarrow> (delivery_state \<Rightarrow> delivery_state) \<Rightarrow> change_set_view delivery_proc" where
  "ds_prepare sha256 command idempotency_key i fresh now env =
     (let key = py_strip idempotency_key
      in if key = [] then praise (ValueError ''idempotency_key is required'')
         else let fingerprint = prepare_fingerprint sha256 command
         in pbind (in_store (cst_get_by_idempotency_key key)) (\<lambda>existing.
            case existing of
              Some (c, previous) \<Rightarrow>
                if previous \<noteq> fingerprint
                then praise (DeliveryConflict ''idempotency key was used for another ChangeSet'')
                else preturn (cs_to_view c)
            | None \<Rightarrow>
                pbind (plift (prepare_change_set command i fresh now)) (\<lambda>c.
                pbind (pwait env) (\<lambda>_.
                pbind (in_store (cst_add c key fingerprint)) (\<lambda>_. preturn (cs_to_view c))))))"

definition ds_get_by_idempotency_key :: "string \<Rightarrow> change_set_view option delivery_proc" where
  "ds_get_by_idempotency_key key =
     pbind (in_store (cst_get_by_idempotency_key key)) (\<lambda>existing.
     preturn (map_option (\<lambda>(c, f). cs_to_view c) existing))"

definition ds_append_candidates ::
    "append_candidates_command \<Rightarrow> string \<Rightarrow> (nat \<Rightarrow> uuid) \<Rightarrow> datetime
     \<Rightarrow> (delivery_state \<Rightarrow> delivery_state) \<Rightarrow> change_set_view delivery_proc" where
  "ds_append_candidates command idempotency_key fresh now env =
     (if py_strip idempotency_key = [] then praise (ValueError ''idempotency_key is required'')
      else pbind (ds_required (apc_change_set_id command)) (\<lambda>c.
           pbind (plift (append_change_set command fresh now c)) (\<lambda>(appended, write).
           if \<not> write then preturn (cs_to_view c)
           else pbind (pwait env) (\<lambda>_. ds_update c appended))))"

subsection \<open>Observations\<close>

definition ds_update_repository ::
    "uuid \<Rightarrow> uuid \<Rightarrow> candidate_operation \<Rightarrow> datetime \<Rightarrow> (delivery_state \<Rightarrow> delivery_state)
     \<Rightarrow> change_set_view delivery_proc" where
  "ds_update_repository change_set_id repository_id op now env =
     pbind (ds_required change_set_id) (\<lambda>c.
     pbind (plift (cs_update_repository repository_id (apply_operation op) now c)) (\<lambda>(updated, write).
     if \<not> write then preturn (cs_to_view c)
     else pbind (pwait env) (\<lambda>_. ds_update c updated)))"

definition ds_record_candidate_traceability ::
    "record_candidate_traceability_command \<Rightarrow> datetime \<Rightarrow> (delivery_state \<Rightarrow> delivery_state)
     \<Rightarrow> change_set_view delivery_proc" where
  "ds_record_candidate_traceability command now env =
     ds_update_repository (rct_change_set_id command) (rct_repository_id command)
       (AttachTraceability (rct_task_id command) (rct_commit_sha command) (rct_plan_id command)
          (rct_run_id command) (rct_worker_agent_id command)) now env"

definition new_event ::
    "string \<Rightarrow> actor_type \<Rightarrow> string \<Rightarrow> string \<Rightarrow> uuid \<Rightarrow> int \<Rightarrow> json \<Rightarrow> uuid \<Rightarrow> uuid \<Rightarrow> datetime
     \<Rightarrow> uuid \<Rightarrow> uuid \<Rightarrow> event_envelope" where
  "new_event event_type actor_type actor_id aggregate_type aggregate_id aggregate_version payload
     correlation_id event_id now organization_id project_id =
     \<lparr>ee_event_type = event_type, ee_actor_type = actor_type, ee_actor_id = actor_id,
      ee_aggregate_type = aggregate_type, ee_aggregate_id = aggregate_id,
      ee_aggregate_version = aggregate_version, ee_payload = payload,
      ee_correlation_id = correlation_id, ee_schema_version = 1, ee_event_id = event_id,
      ee_occurred_at = now, ee_organization_id = Some organization_id,
      ee_project_id = Some project_id, ee_workstream_id = None, ee_task_id = None,
      ee_run_id = None, ee_causation_id = None\<rparr>"

definition pull_request_observed_event ::
    "change_set \<Rightarrow> repository_delivery \<Rightarrow> pull_request_observation_command \<Rightarrow> (nat \<Rightarrow> uuid) \<Rightarrow> datetime
     \<Rightarrow> event_envelope" where
  "pull_request_observed_event c r command fresh now =
     new_event ''PullRequestObserved'' AT_SERVICE (uuid_str (cs_created_by_agent_id c)) ''ChangeSet''
       (cs_id c) (cs_version c)
       (JObject [(''schema_version'', JInt 1), (''occurred_at'', JStr (isoformat now)),
          (''change_set_id'', JStr (uuid_str (cs_id c))),
          (''repository_id'', JStr (uuid_str (rd_repository_id r))),
          (''pull_request_number'', JInt (pro_pull_request_number command)),
          (''pull_request_url'', JStr (pro_pull_request_url command)),
          (''task_ids'', JList [JStr (uuid_str (rd_task_id r))])])
       (fresh 0) (fresh 1) now (cs_organization_id c) (cs_project_id c)"

definition ds_observe_pull_request ::
    "delivery_service \<Rightarrow> pull_request_observation_command \<Rightarrow> (nat \<Rightarrow> uuid) \<Rightarrow> datetime
     \<Rightarrow> (delivery_state \<Rightarrow> delivery_state) \<Rightarrow> (delivery_state \<Rightarrow> delivery_state)
     \<Rightarrow> change_set_view delivery_proc" where
  "ds_observe_pull_request service command fresh now env env' =
     pbind (ds_required (pro_change_set_id command)) (\<lambda>c.
     pbind (plift (cs_repository c (pro_repository_id command))) (\<lambda>target.
     pbind (pwait env) (\<lambda>_.
     pbind (ds_update_repository (pro_change_set_id command) (pro_repository_id command)
              (ObservePR (pro_pull_request_number command) (pro_pull_request_url command)
                 (pro_head_sha command)) now env') (\<lambda>view.
     if rd_pull_request_number target \<noteq> Some (pro_pull_request_number command) \<and> dsv_audit service
     then pbind (append_event (pull_request_observed_event c target command fresh now))
            (\<lambda>_. preturn view)
     else preturn view))))"

definition ds_observe_ci ::
    "ci_observation_command \<Rightarrow> datetime \<Rightarrow> (delivery_state \<Rightarrow> delivery_state)
     \<Rightarrow> change_set_view delivery_proc" where
  "ds_observe_ci command now env =
     ds_update_repository (cio_change_set_id command) (cio_repository_id command)
       (ObserveCI (cio_passed command) (cio_check_run_id command) (cio_summary command)
          (cio_check_name command)) now env"

definition ds_observe_review ::
    "review_observation_command \<Rightarrow> datetime \<Rightarrow> (delivery_state \<Rightarrow> delivery_state)
     \<Rightarrow> change_set_view delivery_proc" where
  "ds_observe_review command now env =
     ds_update_repository (rvo_change_set_id command) (rvo_repository_id command)
       (ObserveReview (rvo_review_id command) (rvo_reviewer command) (rvo_state command)
          (rvo_head_sha command) (rvo_summary command)) now env"

definition ds_observe_merge ::
    "merge_observation_command \<Rightarrow> datetime \<Rightarrow> (delivery_state \<Rightarrow> delivery_state)
     \<Rightarrow> (delivery_state \<Rightarrow> delivery_state) \<Rightarrow> change_set_view delivery_proc" where
  "ds_observe_merge command now env env' =
     pbind (ds_required (mob_change_set_id command)) (\<lambda>c.
     pbind (plift (cs_repository c (mob_repository_id command))) (\<lambda>target.
     pbind (plift (cs_unmet c target)) (\<lambda>unmet.
     if unmet \<noteq> [] then praise (DeliveryConflict ''upstream repositories must merge first'')
     else pbind (pwait env) (\<lambda>_.
          ds_update_repository (mob_change_set_id command) (mob_repository_id command)
            (ObserveMerge (mob_merge_sha command)) now env'))))"

definition ds_record_merge_requested ::
    "record_merge_requested_command \<Rightarrow> datetime \<Rightarrow> (delivery_state \<Rightarrow> delivery_state)
     \<Rightarrow> change_set_view delivery_proc" where
  "ds_record_merge_requested command now env =
     ds_update_repository (rmr_change_set_id command) (rmr_repository_id command)
       (RequestMerge (rmr_head_sha command)) now env"

subsection \<open>Governance, revisions and recovery\<close>

definition ds_record_governance_decision ::
    "record_governance_decision_command \<Rightarrow> uuid \<Rightarrow> datetime \<Rightarrow> (delivery_state \<Rightarrow> delivery_state)
     \<Rightarrow> change_set_view delivery_proc" where
  "ds_record_governance_decision command i now env =
     pbind (ds_required (rgd_change_set_id command)) (\<lambda>c.
     pbind (plift (govern_change_set command i now c)) (\<lambda>updated.
     pbind (pwait env) (\<lambda>_. ds_update c updated)))"

definition ds_record_candidate_revision ::
    "delivery_service \<Rightarrow> record_candidate_revision_command \<Rightarrow> uuid \<Rightarrow> datetime
     \<Rightarrow> (delivery_state \<Rightarrow> delivery_state) \<Rightarrow> change_set_view delivery_proc" where
  "ds_record_candidate_revision service command i now env =
     pbind (ds_required (rcr_change_set_id command)) (\<lambda>c.
     pbind (plift (cs_record_candidate_revision (rcr_repository_id command) (rcr_task_id command)
        (rcr_previous_head_sha command) (rcr_new_head_sha command) (rcr_reason command) i now c))
       (\<lambda>updated.
     pbind (pwait env) (\<lambda>_.
     pbind (ds_update c updated) (\<lambda>view.
     if dsv_conflict_cases service
     then pbind (pwait (\<lambda>s. s\<lparr>dst_cases := ccs_resolve_for_revision (rcr_change_set_id command)
            (rcr_repository_id command) (py_lower (py_strip (rcr_previous_head_sha command))) now
            (dst_cases s)\<rparr>)) (\<lambda>_. preturn view)
     else preturn view))))"

definition ds_plan_recovery ::
    "plan_recovery_command \<Rightarrow> uuid \<Rightarrow> (nat \<Rightarrow> uuid) \<Rightarrow> datetime \<Rightarrow> (delivery_state \<Rightarrow> delivery_state)
     \<Rightarrow> change_set_view delivery_proc" where
  "ds_plan_recovery command i fresh now env =
     pbind (ds_required (prc_change_set_id command)) (\<lambda>c.
     pbind (plift (plan_change_set_recovery command i fresh now c)) (\<lambda>updated.
     pbind (pwait env) (\<lambda>_. ds_update c updated)))"

definition ds_preview_recovery ::
    "plan_recovery_command \<Rightarrow> (nat \<Rightarrow> uuid) \<Rightarrow> recovery_action_view list delivery_proc" where
  "ds_preview_recovery command fresh =
     pbind (ds_required (prc_change_set_id command)) (\<lambda>c.
     preturn (map ra_to_view (recovery_actions c command fresh)))"

definition ds_record_recovery_action ::
    "record_recovery_action_command \<Rightarrow> datetime \<Rightarrow> (delivery_state \<Rightarrow> delivery_state)
     \<Rightarrow> change_set_view delivery_proc" where
  "ds_record_recovery_action command now env =
     pbind (ds_required (rra_change_set_id command)) (\<lambda>c.
     pbind (plift (cs_record_recovery_action (rra_recovery_plan_id command) (rra_action_id command)
        (rra_status command) (rra_detail command) now c)) (\<lambda>updated.
     pbind (pwait env) (\<lambda>_. ds_update c updated)))"

subsection \<open>Queries\<close>

definition ds_get :: "uuid \<Rightarrow> change_set_view delivery_proc" where
  "ds_get change_set_id = pbind (ds_required change_set_id) (\<lambda>c. preturn (cs_to_view c))"

definition ds_list_active :: "change_set_view list delivery_proc" where
  "ds_list_active = pget (\<lambda>s. map cs_to_view (cst_list_active (dst_store s)))"

definition ds_find_by_project :: "uuid \<Rightarrow> change_set_view list delivery_proc" where
  "ds_find_by_project project_id =
     pget (\<lambda>s. map cs_to_view (cst_find_by_project project_id (dst_store s)))"

definition ds_resolve_candidate :: "uuid \<Rightarrow> string \<Rightarrow> (change_set_view \<times> uuid) delivery_proc" where
  "ds_resolve_candidate repository_id head_sha =
     pbind (pget (\<lambda>s. cst_find_by_candidate repository_id head_sha (dst_store s))) (\<lambda>matches.
     case filter (\<lambda>c. cs_status c \<notin> {CS_DELIVERED, CS_COMPENSATED}) matches of
       [] \<Rightarrow> praise (DeliveryNotFound ''no active ChangeSet candidate matches repository and SHA'')
     | [c] \<Rightarrow> preturn (cs_to_view c, repository_id)
     | _ \<Rightarrow> praise (DeliveryConflict ''multiple active ChangeSets match repository and SHA''))"

end
