(* ===== verification/Delivery_Gate.thy ===== *)
theory Delivery_Gate
  imports Delivery_Service
begin

text \<open>
  The merge gate (\<open>DeliveryService.evaluate_merge_gate\<close>): every reason against merging a
  candidate, in the order the code collects them, and what an open gate means.
\<close>

subsection \<open>The reasons\<close>

definition gate_conflict_reasons ::
    "delivery_service \<Rightarrow> conflict_case_table \<Rightarrow> uuid \<Rightarrow> uuid \<Rightarrow> string list" where
  "gate_conflict_reasons service cases change_set_id repository_id =
     (if \<not> dsv_conflict_cases service then []
      else case ccs_active_for change_set_id repository_id cases of
             None \<Rightarrow> []
           | Some k \<Rightarrow> [''delivery conflict is unresolved: '' @ delivery_conflict_kind_value (dc_kind k)])"

definition gate_status_reasons :: "repository_delivery \<Rightarrow> string list" where
  "gate_status_reasons target =
     (if rd_status target \<noteq> RD_READY_TO_MERGE then [''required CI checks have not passed''] else []) @
     (if rd_status target \<in> {RD_REVIEW_PENDING, RD_REVIEW_CHANGES_REQUESTED}
      then [''required reviews have not passed''] else [])"

definition gate_upstream_reasons :: "(uuid \<times> repository_delivery) list \<Rightarrow> string list" where
  "gate_upstream_reasons upstreams =
     map (\<lambda>(dependency, u). ''upstream repository is not merged: '' @ uuid_str dependency)
       (filter (\<lambda>(dependency, u). rd_status u \<noteq> RD_MERGED) upstreams)"

definition starts_with :: "string \<Rightarrow> string \<Rightarrow> bool" where
  "starts_with p s \<longleftrightarrow> take (length p) s = p"

definition gate_cursor_reasons :: "change_set \<Rightarrow> repository_delivery \<Rightarrow> string list \<Rightarrow> string list" where
  "gate_cursor_reasons c target reasons =
     (if rd_merge_order target > cs_merge_cursor c \<and>
         \<not> (\<exists>reason \<in> set reasons. starts_with ''upstream repository'' reason)
      then [''merge cursor is waiting at order '' @ dec_int (cs_merge_cursor c)] else [])"

definition gate_earlier_reasons :: "change_set \<Rightarrow> repository_delivery \<Rightarrow> string list" where
  "gate_earlier_reasons c target =
     (if \<exists>r \<in> set (cs_repositories c). rd_merge_order r < rd_merge_order target \<and>
           rd_repository_id r \<notin> set (rd_depends_on target) \<and> rd_status r = RD_CI_FAILED
      then [''an earlier delivery candidate has failed CI''] else [])"

definition gate_recovery_reasons :: "change_set \<Rightarrow> string list" where
  "gate_recovery_reasons c =
     (if cs_recovery_plans c \<noteq> [] \<and>
         (\<exists>a \<in> set (rp_actions (last (cs_recovery_plans c))). ra_status a \<notin> {RA_SUCCEEDED, RA_SKIPPED})
      then [''an active recovery plan is incomplete''] else [])"

definition latest_governance :: "change_set \<Rightarrow> uuid \<Rightarrow> string \<Rightarrow> governance_decision option" where
  "latest_governance c repository_id head_sha =
     find (\<lambda>g. gd_repository_id g = repository_id \<and> gd_head_sha g = head_sha)
       (rev (cs_governance_decisions c))"

definition gate_governance_reasons ::
    "delivery_service \<Rightarrow> change_set \<Rightarrow> repository_delivery \<Rightarrow> uuid \<Rightarrow> string list" where
  "gate_governance_reasons service c target repository_id =
     (if \<not> dsv_require_governance service then []
      else case latest_governance c repository_id (rd_commit_sha target) of
             None \<Rightarrow> [merge_gate_governance_missing_reason]
           | Some g \<Rightarrow> (case gd_decision g of
               GD_BLOCKED \<Rightarrow> [''governance blocked delivery: '' @ gd_reason g]
             | GD_ROLLBACK_REQUIRED \<Rightarrow> [''governance requires rollback: '' @ gd_reason g]
             | GD_READY \<Rightarrow> []))"

definition gate_validation_reasons :: "delivery_service \<Rightarrow> change_set \<Rightarrow> string list" where
  "gate_validation_reasons service c =
     (if \<not> dsv_require_validation service then []
      else case cs_validation_snapshot_id c of
             None \<Rightarrow> [''validation snapshot is missing'']
           | Some snapshot \<Rightarrow> (case dsv_validation_reader service of
               None \<Rightarrow> [''validation snapshot reader is unavailable'']
             | Some read \<Rightarrow> ved_reasons (read snapshot (cs_project_id c)
                 (dict_update (map (\<lambda>r. (rd_repository_id r, rd_commit_sha r)) (cs_repositories c)) []))))"

definition gate_contract_reasons :: "delivery_service \<Rightarrow> change_set \<Rightarrow> uuid \<Rightarrow> string list" where
  "gate_contract_reasons service c repository_id =
     (case dsv_contract_catalog service of
        None \<Rightarrow> []
      | Some contracts_for_project \<Rightarrow>
          if \<exists>k \<in> set (contracts_for_project (cs_project_id c)). cov_producer k = repository_id \<and>
               cov_consumer k \<notin> set (map rd_repository_id (cs_repositories c)) \<and>
               \<not> cov_consumer_planned k
          then [''contract change is missing a consumer adapter candidate''] else [])"

definition gate_reasons ::
    "delivery_service \<Rightarrow> conflict_case_table \<Rightarrow> change_set \<Rightarrow> uuid \<Rightarrow> string list result" where
  "gate_reasons service cases c repository_id =
     rbind (cs_repository c repository_id) (\<lambda>target.
     rbind (map_result (\<lambda>d. rbind (cs_repository c d) (\<lambda>u. Inr (d, u))) (rd_depends_on target))
       (\<lambda>upstreams.
     let r1 = gate_conflict_reasons service cases (cs_id c) repository_id @
              gate_status_reasons target @ gate_upstream_reasons upstreams
     in Inr (r1 @ gate_cursor_reasons c target r1 @ gate_earlier_reasons c target @
             gate_recovery_reasons c @ gate_governance_reasons service c target repository_id @
             gate_validation_reasons service c @ gate_contract_reasons service c repository_id)))"

definition ds_evaluate_merge_gate ::
    "delivery_service \<Rightarrow> uuid \<Rightarrow> uuid \<Rightarrow> merge_gate_decision delivery_proc" where
  "ds_evaluate_merge_gate service change_set_id repository_id =
     pbind (ds_required change_set_id) (\<lambda>c.
     pbind (pget dst_cases) (\<lambda>cases.
     pbind (plift (gate_reasons service cases c repository_id)) (\<lambda>reasons.
     preturn \<lparr>mgd_change_set_id = cs_id c, mgd_repository_id = repository_id,
              mgd_allowed = (reasons = []), mgd_reasons = reasons\<rparr>)))"

subsection \<open>An open gate\<close>

text \<open>
  When the gate lets a candidate through, stated without the code's order: it is ready, all its
  dependencies are merged, every earlier candidate is merged, no recovery is running, and the
  policies that are switched on are satisfied.
\<close>

definition gate_open :: "delivery_service \<Rightarrow> conflict_case_table \<Rightarrow> change_set \<Rightarrow> repository_delivery \<Rightarrow> bool" where
  "gate_open service cases c r \<longleftrightarrow>
     rd_status r = RD_READY_TO_MERGE \<and>
     (\<forall>u \<in> set (cs_repositories c). rd_merge_order u < rd_merge_order r \<longrightarrow> rd_status u = RD_MERGED) \<and>
     (cs_recovery_plans c = [] \<or> plan_finished (last (cs_recovery_plans c))) \<and>
     (dsv_conflict_cases service \<longrightarrow> ccs_active_for (cs_id c) (rd_repository_id r) cases = None) \<and>
     (dsv_require_governance service \<longrightarrow>
        (\<exists>g. latest_governance c (rd_repository_id r) (rd_commit_sha r) = Some g \<and> gd_decision g = GD_READY)) \<and>
     gate_validation_reasons service c = [] \<and>
     gate_contract_reasons service c (rd_repository_id r) = []"

lemma cs_repository_Inr:
  assumes "cs_wf c"
  shows "cs_repository c k = Inr r \<longleftrightarrow> r \<in> set (cs_repositories c) \<and> rd_repository_id r = k"
proof -
  have "distinct (map rd_repository_id (cs_repositories c))" using assms by (simp add: cs_wf_def)
  from find_unique_key [OF this] show ?thesis
    by (auto simp: cs_repository_def dest: find_SomeD split: option.splits)
qed

lemma gate_recovery_empty:
  "gate_recovery_reasons c = [] \<longleftrightarrow>
     cs_recovery_plans c = [] \<or> plan_finished (last (cs_recovery_plans c))"
  by (auto simp: gate_recovery_reasons_def plan_finished_def)

lemma gate_governance_empty:
  "gate_governance_reasons service c r k = [] \<longleftrightarrow>
     (dsv_require_governance service \<longrightarrow>
        (\<exists>g. latest_governance c k (rd_commit_sha r) = Some g \<and> gd_decision g = GD_READY))"
  by (auto simp: gate_governance_reasons_def merge_gate_governance_missing_reason_def
      split: option.splits governance_decision_kind.splits)

lemma gate_conflict_empty:
  "gate_conflict_reasons service cases i k = [] \<longleftrightarrow>
     (dsv_conflict_cases service \<longrightarrow> ccs_active_for i k cases = None)"
  by (auto simp: gate_conflict_reasons_def split: option.splits)

lemma gate_status_empty: "gate_status_reasons r = [] \<longleftrightarrow> rd_status r = RD_READY_TO_MERGE"
  by (auto simp: gate_status_reasons_def)

text \<open>With every dependency in the ChangeSet, the gate's lookups succeed.\<close>

lemma gate_upstreams:
  assumes "cs_inv c" and "r \<in> set (cs_repositories c)"
  shows "\<exists>us. map_result (\<lambda>d. rbind (cs_repository c d) (\<lambda>u. Inr (d, u))) (rd_depends_on r) = Inr us \<and>
    list_all2 (\<lambda>d (d', u). d' = d \<and> u \<in> set (cs_repositories c) \<and> rd_repository_id u = d \<and>
      rd_merge_order u < rd_merge_order r) (rd_depends_on r) us"
proof -
  have wf: "cs_wf c" using assms(1) by (simp add: cs_inv_def)
  have dep: "\<exists>u. u \<in> set (cs_repositories c) \<and> rd_repository_id u = d \<and> rd_merge_order u < rd_merge_order r"
    if "d \<in> set (rd_depends_on r)" for d
    using that assms unfolding cs_inv_def orders_ok_def by blast
  have "\<exists>us. list_all2 (\<lambda>d (d', u). d' = d \<and> u \<in> set (cs_repositories c) \<and> rd_repository_id u = d \<and>
      rd_merge_order u < rd_merge_order r) ds us" if "set ds \<subseteq> set (rd_depends_on r)" for ds
    using that
  proof (induction ds)
    case (Cons d ds)
    with dep [of d] show ?case by (auto simp: list_all2_Cons1)
  qed (intro exI [of _ "[]"], simp)
  then obtain us where us: "list_all2 (\<lambda>d (d', u). d' = d \<and> u \<in> set (cs_repositories c) \<and>
      rd_repository_id u = d \<and> rd_merge_order u < rd_merge_order r) (rd_depends_on r) us" by blast
  then have "list_all2 (\<lambda>d y. rbind (cs_repository c d) (\<lambda>u. Inr (d, u)) = Inr y) (rd_depends_on r) us"
    by (rule list_all2_mono) (auto simp: rbind_eq_Inr_iff cs_repository_Inr [OF wf])
  with us show ?thesis by (auto simp: map_result_Inr_iff)
qed

lemma gate_upstream_empty:
  assumes "list_all2 (\<lambda>d (d', u). d' = d \<and> u \<in> set (cs_repositories c) \<and> rd_repository_id u = d \<and>
      rd_merge_order u < rd_merge_order r) (rd_depends_on r) us"
    and "\<forall>u \<in> set (cs_repositories c). rd_merge_order u < rd_merge_order r \<longrightarrow> rd_status u = RD_MERGED"
  shows "gate_upstream_reasons us = []"
proof -
  have "rd_status u = RD_MERGED" if "(d, u) \<in> set us" for d u
  proof -
    from that obtain n where "n < length us" "us ! n = (d, u)" by (auto simp: in_set_conv_nth)
    with list_all2_nthD2 [OF assms(1), of n] assms(2) show ?thesis by auto
  qed
  then show ?thesis by (auto simp: gate_upstream_reasons_def filter_empty_conv)
qed

lemma cursor_reached:
  assumes "cs_inv c" and "r \<in> set (cs_repositories c)" and "rd_status r \<noteq> RD_MERGED"
  shows "rd_merge_order r \<le> cs_merge_cursor c \<longleftrightarrow>
    (\<forall>u \<in> set (cs_repositories c). rd_merge_order u < rd_merge_order r \<longrightarrow> rd_status u = RD_MERGED)"
proof -
  have cursor: "cs_merge_cursor c =
      py_min (pending_orders (cs_repositories c)) (int (length (cs_repositories c)))"
    using assms(1) by (simp add: cs_inv_def)
  have mem: "k \<in> set (pending_orders (cs_repositories c)) \<longleftrightarrow>
      (\<exists>u \<in> set (cs_repositories c). rd_status u \<noteq> RD_MERGED \<and> rd_merge_order u = k)" for k
    by (auto simp: pending_orders_def)
  have ne: "pending_orders (cs_repositories c) \<noteq> []" using assms(2,3) mem by fastforce
  show ?thesis
  proof
    assume le: "rd_merge_order r \<le> cs_merge_cursor c"
    show "\<forall>u \<in> set (cs_repositories c). rd_merge_order u < rd_merge_order r \<longrightarrow> rd_status u = RD_MERGED"
    proof (intro ballI impI, rule ccontr)
      fix u assume u: "u \<in> set (cs_repositories c)" "rd_merge_order u < rd_merge_order r"
        "rd_status u \<noteq> RD_MERGED"
      then have "rd_merge_order u \<in> set (pending_orders (cs_repositories c))" using mem by blast
      from py_min_le [OF this, of "int (length (cs_repositories c))"] u le show False
        by (simp add: cursor)
    qed
  next
    assume "\<forall>u \<in> set (cs_repositories c). rd_merge_order u < rd_merge_order r \<longrightarrow> rd_status u = RD_MERGED"
    with py_min_in [OF ne, of "int (length (cs_repositories c))"] show "rd_merge_order r \<le> cs_merge_cursor c"
      unfolding cursor mem by (metis linorder_not_less)
  qed
qed

subsection \<open>Properties\<close>

text \<open>C3: For a candidate of a ChangeSet the merge gate always answers, and it is open exactly when
  the candidate is ready, every candidate with a smaller merge order (so every dependency) is
  merged, no recovery is unfinished, no conflict case is open, and the governance, validation and
  contract policies that are switched on are satisfied.\<close>

theorem merge_gate_characterised:
  assumes "cs_reachable c" and "r \<in> set (cs_repositories c)"
  shows "\<exists>reasons. gate_reasons service cases c (rd_repository_id r) = Inr reasons \<and>
    (reasons = [] \<longleftrightarrow> gate_open service cases c r)"
proof -
  have inv: "cs_inv c" using assms(1) by (rule cs_reachable_inv)
  then have wf: "cs_wf c" by (simp add: cs_inv_def)
  from gate_upstreams [OF inv assms(2)] obtain us where
    us: "map_result (\<lambda>d. rbind (cs_repository c d) (\<lambda>u. Inr (d, u))) (rd_depends_on r) = Inr us"
    and deps: "list_all2 (\<lambda>d (d', u). d' = d \<and> u \<in> set (cs_repositories c) \<and> rd_repository_id u = d \<and>
      rd_merge_order u < rd_merge_order r) (rd_depends_on r) us" by blast
  have target: "cs_repository c (rd_repository_id r) = Inr r"
    using assms(2) by (simp add: cs_repository_Inr [OF wf])
  let ?r1 = "gate_conflict_reasons service cases (cs_id c) (rd_repository_id r) @
      gate_status_reasons r @ gate_upstream_reasons us"
  let ?rest = "gate_earlier_reasons c r @ gate_recovery_reasons c @
      gate_governance_reasons service c r (rd_repository_id r) @
      gate_validation_reasons service c @ gate_contract_reasons service c (rd_repository_id r)"
  let ?before = "\<forall>u \<in> set (cs_repositories c). rd_merge_order u < rd_merge_order r \<longrightarrow> rd_status u = RD_MERGED"
  have gate: "gate_reasons service cases c (rd_repository_id r) =
      Inr (?r1 @ gate_cursor_reasons c r ?r1 @ ?rest)"
    by (simp add: gate_reasons_def target us Let_def)
  have cursor: "gate_cursor_reasons c r [] = [] \<longleftrightarrow> rd_merge_order r \<le> cs_merge_cursor c"
    by (auto simp: gate_cursor_reasons_def)
  have earlier: "gate_earlier_reasons c r = []" if ?before
    using that by (auto simp: gate_earlier_reasons_def)
  have reached: "rd_merge_order r \<le> cs_merge_cursor c \<longleftrightarrow> ?before" if "rd_status r = RD_READY_TO_MERGE"
    using cursor_reached [OF inv assms(2)] that by simp
  have "?r1 @ gate_cursor_reasons c r ?r1 @ ?rest = [] \<longleftrightarrow> gate_open service cases c r"
    (is "?all = [] \<longleftrightarrow> _")
  proof
    assume empty: "?all = []"
    then have r1: "?r1 = []" and cur: "gate_cursor_reasons c r ?r1 = []" and rest: "?rest = []"
      unfolding append_is_Nil_conv by blast+
    from r1 have ready: "rd_status r = RD_READY_TO_MERGE" by (simp add: gate_status_empty)
    from cur have ?before unfolding r1 cursor reached [OF ready] .
    with r1 rest ready show "gate_open service cases c r"
      by (simp add: gate_open_def gate_conflict_empty gate_recovery_empty gate_governance_empty)
  next
    assume "gate_open service cases c r"
    then have ready: "rd_status r = RD_READY_TO_MERGE" and before: ?before
      and rest: "gate_recovery_reasons c = []"
        "gate_governance_reasons service c r (rd_repository_id r) = []"
        "gate_conflict_reasons service cases (cs_id c) (rd_repository_id r) = []"
        "gate_validation_reasons service c = []"
        "gate_contract_reasons service c (rd_repository_id r) = []"
      by (simp_all add: gate_open_def gate_recovery_empty gate_governance_empty gate_conflict_empty)
    have "?r1 = []"
      using rest gate_upstream_empty [OF deps before] ready by (simp add: gate_status_empty)
    moreover have "gate_cursor_reasons c r [] = []" using cursor reached [OF ready] before by simp
    ultimately show "?all = []" using rest earlier [OF before] by simp
  qed
  with gate show ?thesis by blast
qed

definition plain_service :: delivery_service where
  "plain_service = \<lparr>dsv_require_governance = False, dsv_require_validation = False,
     dsv_validation_reader = None, dsv_contract_catalog = None, dsv_audit = True,
     dsv_conflict_cases = True\<rparr>"

theorem merge_gate_characterised_witness:
  "gate_reasons plain_service [] (sample_set [sample_ready] CS_DELIVERING 3 0) 1 = Inr []"
proof -
  let ?c = "sample_set [sample_ready] CS_DELIVERING 3 0"
  have mem: "sample_ready \<in> set (cs_repositories ?c)" by (simp add: sample_set_def)
  have "gate_open plain_service [] ?c sample_ready"
    by (simp add: gate_open_def plain_service_def sample_set_def ccs_active_for_def
        gate_validation_reasons_def gate_contract_reasons_def)
  with merge_gate_characterised [OF sample_delivered(2) mem, of plain_service "[]"] show ?thesis
    by simp
qed

end
