(* ===== verification/Proc_Invariants.thy ===== *)
theory Proc_Invariants
  imports Prelude
begin

text \<open>
  Reasoning about procedures over a shared state: what every run of a procedure maintains, and
  triples with a postcondition on the value returned and the state it is returned in. A wait
  is where other tasks change the state: an assertion kept across it has to be stable under
  what they do.
\<close>

subsection \<open>Invariants of procedures\<close>

text \<open>Started in \<open>I\<close>, \<open>m\<close> ends in \<open>I\<close> however it ends, and what it returns satisfies \<open>Q\<close>.\<close>

definition maintains :: "('s \<Rightarrow> bool) \<Rightarrow> ('s, 'a) proc \<Rightarrow> ('a \<Rightarrow> bool) \<Rightarrow> bool" where
  "maintains I m Q \<longleftrightarrow> (\<forall>s. I s \<longrightarrow> I (snd (m s)) \<and> (\<forall>x. fst (m s) = Inr x \<longrightarrow> Q x))"

named_theorems maintains_rules \<open>introduction rules of maintains\<close>

lemma maintains_return [maintains_rules]: "Q x \<Longrightarrow> maintains I (preturn x) Q"
  by (simp add: maintains_def preturn_def)

lemma maintains_raise [maintains_rules]: "maintains I (praise e) Q"
  by (simp add: maintains_def praise_def)

lemma maintains_lift [maintains_rules]: "(\<And>x. r = Inr x \<Longrightarrow> Q x) \<Longrightarrow> maintains I (plift r) Q"
  by (simp add: maintains_def plift_def)

lemma maintains_get [maintains_rules]: "(\<And>s. I s \<Longrightarrow> Q (f s)) \<Longrightarrow> maintains I (pget f) Q"
  by (auto simp: maintains_def pget_def)

lemma maintains_wait [maintains_rules]: "(\<And>s. I s \<Longrightarrow> I (env s)) \<Longrightarrow> maintains I (pwait env) (\<lambda>_. True)"
  by (simp add: maintains_def pwait_def)

lemma maintains_bind [maintains_rules]:
  assumes "maintains I m P" and "\<And>x. P x \<Longrightarrow> maintains I (f x) Q"
  shows "maintains I (pbind m f) Q"
proof -
  have "I (snd (pbind m f s)) \<and> (\<forall>y. fst (pbind m f s) = Inr y \<longrightarrow> Q y)" if "I s" for s
  proof (cases "m s")
    case (Pair r t)
    with assms(1) that have t: "I t" "\<And>x. r = Inr x \<Longrightarrow> P x" by (force simp: maintains_def)+
    then show ?thesis
      using assms(2) Pair by (cases r) (auto simp: pbind_def maintains_def)
  qed
  then show ?thesis by (simp add: maintains_def)
qed

lemma maintainsD: "maintains I m Q \<Longrightarrow> I s \<Longrightarrow> I (snd (m s))"
  by (simp add: maintains_def)

lemma maintains_result: "maintains I m Q \<Longrightarrow> I s \<Longrightarrow> m s = (Inr x, t) \<Longrightarrow> Q x"
  by (force simp: maintains_def)

subsection \<open>Triples\<close>

text \<open>
  Started in \<open>P\<close>, \<open>m\<close> returns a value and a state in \<open>Q\<close>, or raises in a state in \<open>E\<close>.
\<close>

definition triple :: "('s \<Rightarrow> bool) \<Rightarrow> ('s, 'a) proc \<Rightarrow> ('a \<Rightarrow> 's \<Rightarrow> bool) \<Rightarrow> ('s \<Rightarrow> bool) \<Rightarrow> bool" where
  "triple P m Q E \<longleftrightarrow>
     (\<forall>s. P s \<longrightarrow> (case m s of (Inr x, t) \<Rightarrow> Q x t | (Inl e, t) \<Rightarrow> E t))"

lemma triple_return: "(\<And>s. P s \<Longrightarrow> Q x s) \<Longrightarrow> triple P (preturn x) Q E"
  by (simp add: triple_def preturn_def)

lemma triple_raise: "(\<And>s. P s \<Longrightarrow> E s) \<Longrightarrow> triple P (praise e) Q E"
  by (simp add: triple_def praise_def)

lemma triple_lift:
  "(\<And>s x. P s \<Longrightarrow> r = Inr x \<Longrightarrow> Q x s) \<Longrightarrow> (\<And>s e. P s \<Longrightarrow> r = Inl e \<Longrightarrow> E s) \<Longrightarrow> triple P (plift r) Q E"
  by (cases r) (auto simp: triple_def plift_def)

lemma triple_get: "(\<And>s. P s \<Longrightarrow> Q (f s) s) \<Longrightarrow> triple P (pget f) Q E"
  by (simp add: triple_def pget_def)

lemma triple_wait: "(\<And>s. P s \<Longrightarrow> Q () (env s)) \<Longrightarrow> triple P (pwait env) Q E"
  by (simp add: triple_def pwait_def)

lemma triple_bind:
  assumes "triple P m R E" and "\<And>x. triple (R x) (f x) Q E"
  shows "triple P (pbind m f) Q E"
proof -
  have "case pbind m f s of (Inr y, u) \<Rightarrow> Q y u | (Inl e, u) \<Rightarrow> E u" if "P s" for s
  proof (cases "m s")
    case (Pair r t)
    then show ?thesis
      using assms that by (cases r) (fastforce simp: triple_def pbind_def)+
  qed
  then show ?thesis by (simp add: triple_def)
qed

lemma triple_call:
  assumes "\<And>s x t. P s \<Longrightarrow> m s = (Inr x, t) \<Longrightarrow> Q x t" and "\<And>s e t. P s \<Longrightarrow> m s = (Inl e, t) \<Longrightarrow> E t"
  shows "triple P m Q E"
  unfolding triple_def
proof (intro allI impI)
  fix s assume "P s"
  then show "case m s of (Inr x, t) \<Rightarrow> Q x t | (Inl e, t) \<Rightarrow> E t"
    using assms [OF \<open>P s\<close>] by (cases "m s"; cases "fst (m s)") auto
qed

text \<open>A fact that does not depend on the state.\<close>

lemma triple_pure: "triple P m Q E \<Longrightarrow> triple (\<lambda>s. c \<and> P s) m (\<lambda>x s. c \<and> Q x s) E"
  by (fastforce simp: triple_def split: prod.splits sum.splits)

lemma triple_conseq:
  "triple P m Q E \<Longrightarrow> (\<And>s. P' s \<Longrightarrow> P s) \<Longrightarrow> (\<And>x s. Q x s \<Longrightarrow> Q' x s) \<Longrightarrow> (\<And>s. E s \<Longrightarrow> E' s) \<Longrightarrow>
     triple P' m Q' E'"
  by (fastforce simp: triple_def split: prod.splits sum.splits)

lemma triple_Inr: "triple P m Q E \<Longrightarrow> P s \<Longrightarrow> m s = (Inr x, t) \<Longrightarrow> Q x t"
  by (fastforce simp: triple_def)

lemma triple_Inl: "triple P m Q E \<Longrightarrow> P s \<Longrightarrow> m s = (Inl e, t) \<Longrightarrow> E t"
  by (fastforce simp: triple_def)

subsection \<open>Awaited calls\<close>

text \<open>
  A call, after which the other coroutines get their turn. One function \<open>env\<close> stands for all the
  turns of a call: where the state has a part of its own for the other coroutines, they can count
  their turns in it.
\<close>

definition await :: "('s \<Rightarrow> 's) \<Rightarrow> ('s, 'a) proc \<Rightarrow> ('a \<Rightarrow> ('s, 'b) proc) \<Rightarrow> ('s, 'b) proc" where
  "await env m f = pbind m (\<lambda>x. pbind (pwait env) (\<lambda>_. f x))"

lemma await_simps [simp, res_simps]:
  "await env (preturn x) f s = f x (env s)"
  "await env (praise e) f s = (Inl e, s)"
  "await env (pget h) f s = f (h s) (env s)"
  by (simp_all add: await_def)

lemma await_run: "m s = (Inr x, s') \<Longrightarrow> await env m f s = f x (env s')"
  by (simp add: await_def pbind_def pwait_def)

lemma await_error: "m s = (Inl e, s') \<Longrightarrow> await env m f s = (Inl e, s')"
  by (simp add: await_def pbind_def)

lemma triple_await:
  assumes "triple P m R E" and "\<And>x s. R x s \<Longrightarrow> R' x (env s)" and "\<And>x. triple (R' x) (f x) Q E"
  shows "triple P (await env m f) Q E"
proof -
  have "triple (R x) (pbind (pwait env) (\<lambda>_. f x)) Q E" for x
    by (rule triple_bind [OF triple_wait [where Q = "\<lambda>_. R' x"]]) (auto intro: assms(2,3))
  then show ?thesis unfolding await_def by (rule triple_bind [OF assms(1)])
qed

end
