(* ===== verification/Delivery_Safety.thy ===== *)
theory Delivery_Safety
  imports Delivery_Gate Proc_Invariants
begin

text \<open>
  The service as a whole: whatever calls run, in whatever interleaving of their store accesses,
  every stored ChangeSet is one its own steps can reach, so the invariant of
  \<open>Change_Set_Invariant\<close> holds of everything the service answers with; keys stay bound;
  concurrent writers of one ChangeSet do not overwrite each other.
\<close>

subsection \<open>The invariant of the state\<close>

text \<open>
  \<open>K\<close> are key bindings the state must keep. Ids are fresh where \<open>add\<close> stores one: the
  code draws them from \<open>uuid4\<close>.
\<close>

definition dst_inv :: "(string \<rightharpoonup> uuid \<times> string) \<Rightarrow> delivery_state \<Rightarrow> bool" where
  "dst_inv K s \<longleftrightarrow> cst_ok (dst_store s) \<and>
     (\<forall>i c. cst_get (dst_store s) i = Some c \<longrightarrow> cs_reachable c) \<and>
     K \<subseteq>\<^sub>m map_of (cst_keys (dst_store s)) \<and> dc_index_ok (dst_cases s)"

lemma cs_step_id: "cs_step c d \<Longrightarrow> cs_id d = cs_id c"
proof (erule cs_stepE)
  fix repository_id op now w
  assume "cs_update_repository repository_id (apply_operation op) now c = Inr (d, w)"
  from cs_update_repository_Inr [OF this] show ?thesis
    by (auto dest: cs_with_repositories_Inr split: if_splits)
next
  fix command fresh now w assume "append_change_set command fresh now c = Inr (d, w)"
  then show ?thesis
    by (auto simp: append_change_set_def Let_def rbind_eq_Inr_iff dest!: cs_append_repositories_Inr
        split: if_splits)
next
  fix command i fresh now assume "plan_change_set_recovery command i fresh now c = Inr d"
  then show ?thesis by (auto simp: plan_change_set_recovery_def dest!: cs_add_recovery_Inr)
next
  fix command i now assume "govern_change_set command i now c = Inr d"
  then show ?thesis
    by (auto simp: govern_change_set_def rbind_eq_Inr_iff dest!: cs_record_governance_Inr)
next
  fix a b e f g i now assume "cs_record_candidate_revision a b e f g i now c = Inr d"
  then show ?thesis by (auto dest!: cs_revision_Inr)
next
  fix a b e f now assume "cs_record_recovery_action a b e f now c = Inr d"
  then show ?thesis by (auto dest!: cs_record_recovery_action_Inr)
qed

lemma dst_inv_update:
  assumes "dst_inv K s" and "cs_reachable d"
  shows "dst_inv K (snd (in_store (cst_update d e) s))"
proof (cases "cst_update d e (dst_store s)")
  case (Pair r t)
  have "cst_ok t" using cst_ok_update [OF _ Pair] assms(1) by (simp add: dst_inv_def)
  moreover have "cst_keys t = cst_keys (dst_store s)"
    using Pair by (auto simp: cst_update_def split: if_splits)
  moreover have "cs_reachable c" if "cst_get t i = Some c" for i c
    using that Pair assms
    by (auto simp: cst_update_def cst_get_def dst_inv_def split: if_splits)
  ultimately show ?thesis using assms(1) Pair by (simp add: dst_inv_def in_store_def)
qed

lemma maintains_update [maintains_rules]:
  "cs_reachable d \<Longrightarrow> maintains (dst_inv K) (in_store (cst_update d e)) (\<lambda>_. True)"
  by (simp add: maintains_def dst_inv_update)

lemma maintains_required [maintains_rules]:
  "maintains (dst_inv K) (ds_required i) (\<lambda>c. cs_reachable c)"
  unfolding ds_required_def
  by (rule maintains_bind [where P = "\<lambda>found. \<forall>c. found = Some c \<longrightarrow> cs_reachable c"])
    (auto intro!: maintains_rules simp: dst_inv_def split: option.splits)

lemma maintains_ds_update [maintains_rules]:
  "cs_reachable d \<Longrightarrow> maintains (dst_inv K) (ds_update c d) (\<lambda>v. v = cs_to_view d)"
  unfolding ds_update_def by (auto intro!: maintains_rules)

lemmas reach_steps = cs_reachable.step [OF _ cs_step.operate] cs_reachable.step [OF _ cs_step.append]
  cs_reachable.step [OF _ cs_step.recover] cs_reachable.step [OF _ cs_step.govern]
  cs_reachable.step [OF _ cs_step.revise] cs_reachable.step [OF _ cs_step.resolve]

subsection \<open>Every call keeps the invariant\<close>

definition keeps_inv :: "(string \<rightharpoonup> uuid \<times> string) \<Rightarrow> (delivery_state \<Rightarrow> delivery_state) \<Rightarrow> bool" where
  "keeps_inv K env \<longleftrightarrow> (\<forall>s. dst_inv K s \<longrightarrow> dst_inv K (env s))"

lemma maintains_env [maintains_rules]: "keeps_inv K env \<Longrightarrow> maintains (dst_inv K) (pwait env) (\<lambda>_. True)"
  by (rule maintains_wait) (simp add: keeps_inv_def)

text \<open>Read, compute, let others run, write: the shape of the service's writes.\<close>

lemma maintains_rmw:
  assumes "keeps_inv K env"
    and "\<And>c d. cs_reachable c \<Longrightarrow> f c = Inr d \<Longrightarrow> cs_reachable d"
  shows "maintains (dst_inv K) (pbind (ds_required i) (\<lambda>c. pbind (plift (f c)) (\<lambda>d.
    pbind (pwait env) (\<lambda>_. ds_update c d)))) (\<lambda>_. True)"
proof (intro maintains_bind)
  show "maintains (dst_inv K) (ds_required i) cs_reachable" by (rule maintains_required)
  show "maintains (dst_inv K) (plift (f c)) cs_reachable" if "cs_reachable c" for c
    by (rule maintains_lift) (use assms(2) that in blast)
  show "maintains (dst_inv K) (pwait env) (\<lambda>_. True)" using assms(1) by (rule maintains_env)
  show "maintains (dst_inv K) (ds_update c d) (\<lambda>_. True)" if "cs_reachable d" for c d
    using maintains_ds_update [OF that] by (simp add: maintains_def)
qed

lemma maintains_rmw_flag:
  assumes "keeps_inv K env"
    and "\<And>c d w. cs_reachable c \<Longrightarrow> f c = Inr (d, w) \<Longrightarrow> cs_reachable d"
  shows "maintains (dst_inv K) (pbind (ds_required i) (\<lambda>c. pbind (plift (f c)) (\<lambda>(d, w).
    if \<not> w then preturn (cs_to_view c) else pbind (pwait env) (\<lambda>_. ds_update c d)))) (\<lambda>_. True)"
proof (intro maintains_bind)
  show "maintains (dst_inv K) (ds_required i) cs_reachable" by (rule maintains_required)
  show "maintains (dst_inv K) (plift (f c)) (\<lambda>(d, w). cs_reachable d)" if "cs_reachable c" for c
    by (rule maintains_lift) (use assms(2) that in blast)
  show "maintains (dst_inv K) (case x of (d, w) \<Rightarrow> if \<not> w then preturn (cs_to_view c)
      else pbind (pwait env) (\<lambda>_. ds_update c d)) (\<lambda>_. True)"
    if "case x of (d, w) \<Rightarrow> cs_reachable d" for c x
  proof (cases x)
    case (Pair d w)
    have "maintains (dst_inv K) (ds_update c d) (\<lambda>_. True)"
      using maintains_ds_update [of d K c] that Pair by (simp add: maintains_def)
    then have "maintains (dst_inv K) (pbind (pwait env) (\<lambda>_. ds_update c d)) (\<lambda>_. True)"
      by (intro maintains_bind [OF maintains_env [OF assms(1)]])
    with Pair show ?thesis by (simp add: maintains_return)
  qed
qed

lemma maintains_update_repository:
  "keeps_inv K env \<Longrightarrow> maintains (dst_inv K) (ds_update_repository i k op now env) (\<lambda>_. True)"
  unfolding ds_update_repository_def by (rule maintains_rmw_flag) (auto intro: reach_steps)

lemma maintains_append:
  "keeps_inv K env \<Longrightarrow> maintains (dst_inv K) (ds_append_candidates command key fresh now env) (\<lambda>_. True)"
  unfolding ds_append_candidates_def
  by (cases "py_strip key = []") (auto intro!: maintains_raise maintains_rmw_flag intro: reach_steps)

lemma maintains_weaken: "maintains I m P \<Longrightarrow> (\<And>x. P x \<Longrightarrow> Q x) \<Longrightarrow> maintains I m Q"
  by (auto simp: maintains_def)

lemma maintains_any: "maintains I m P \<Longrightarrow> maintains I m (\<lambda>_. True)"
  by (erule maintains_weaken) simp

lemma maintains_event: "maintains (dst_inv K) (append_event e) (\<lambda>_. True)"
  by (simp add: maintains_def append_event_def dst_inv_def)

lemma maintains_observe_pull_request:
  assumes "keeps_inv K env" and "keeps_inv K env'"
  shows "maintains (dst_inv K) (ds_observe_pull_request service command fresh now env env') (\<lambda>_. True)"
  unfolding ds_observe_pull_request_def
  using maintains_update_repository [OF assms(2)] maintains_env [OF assms(1)] maintains_event
  by (intro maintains_bind [OF maintains_any [OF maintains_required]] maintains_bind [where P = "\<lambda>_. True"]
      maintains_lift) (auto intro!: maintains_return maintains_bind [OF maintains_event])

lemma maintains_observe_merge:
  assumes "keeps_inv K env" and "keeps_inv K env'"
  shows "maintains (dst_inv K) (ds_observe_merge command now env env') (\<lambda>_. True)"
  unfolding ds_observe_merge_def
  using maintains_update_repository [OF assms(2)] maintains_env [OF assms(1)]
  by (intro maintains_bind [OF maintains_any [OF maintains_required]] maintains_bind [where P = "\<lambda>_. True"]
      maintains_lift) (auto intro!: maintains_raise maintains_bind [OF maintains_env [OF assms(1)]])

lemma maintains_governance:
  "keeps_inv K env \<Longrightarrow> maintains (dst_inv K) (ds_record_governance_decision command i now env) (\<lambda>_. True)"
  unfolding ds_record_governance_decision_def by (rule maintains_rmw) (auto intro: reach_steps)

lemma maintains_recovery:
  "keeps_inv K env \<Longrightarrow> maintains (dst_inv K) (ds_plan_recovery command i fresh now env) (\<lambda>_. True)"
  unfolding ds_plan_recovery_def by (rule maintains_rmw) (auto intro: reach_steps)

lemma maintains_recovery_action:
  "keeps_inv K env \<Longrightarrow> maintains (dst_inv K) (ds_record_recovery_action command now env) (\<lambda>_. True)"
  unfolding ds_record_recovery_action_def by (rule maintains_rmw) (auto intro: reach_steps)

lemma maintains_revision:
  assumes "keeps_inv K env"
  shows "maintains (dst_inv K) (ds_record_candidate_revision service command i now env) (\<lambda>_. True)"
proof -
  let ?resolve = "\<lambda>s. s\<lparr>dst_cases := ccs_resolve_for_revision (rcr_change_set_id command)
     (rcr_repository_id command) (py_lower (py_strip (rcr_previous_head_sha command))) now (dst_cases s)\<rparr>"
  have resolve: "maintains (dst_inv K) (pwait ?resolve) (\<lambda>_. True)"
    by (rule maintains_wait) (simp add: dst_inv_def ccs_resolve_index)
  show ?thesis
    unfolding ds_record_candidate_revision_def
  proof (intro maintains_bind)
    show "maintains (dst_inv K) (ds_required (rcr_change_set_id command)) cs_reachable"
      by (rule maintains_required)
    show "maintains (dst_inv K) (plift (cs_record_candidate_revision (rcr_repository_id command)
        (rcr_task_id command) (rcr_previous_head_sha command) (rcr_new_head_sha command)
        (rcr_reason command) i now c)) cs_reachable" if "cs_reachable c" for c
      by (rule maintains_lift) (use reach_steps(5) that in blast)
    show "maintains (dst_inv K) (pwait env) (\<lambda>_. True)" using assms by (rule maintains_env)
    show "maintains (dst_inv K) (ds_update c d) (\<lambda>_. True)" if "cs_reachable d" for c d
      using maintains_ds_update [OF that] by (rule maintains_any)
    show "maintains (dst_inv K) (if dsv_conflict_cases service
        then pbind (pwait ?resolve) (\<lambda>_. preturn view) else preturn view) (\<lambda>_. True)" for view
      by (auto intro!: maintains_return maintains_bind [OF resolve])
  qed
qed

subsection \<open>Runs of the service\<close>

lemma in_store_lookup:
  "cst_ok (dst_store s) \<Longrightarrow> in_store (cst_get_by_idempotency_key key) s = (Inr (cst_lookup (dst_store s) key), s)"
  by (simp add: in_store_def cst_get_by_idempotency_key_ok)

lemma ds_prepare_run:
  assumes "cst_ok (dst_store s)"
  shows "ds_prepare sha256 command idempotency_key i fresh now env s =
    (if blank idempotency_key then (Inl (ValueError ''idempotency_key is required''), s)
     else case cst_lookup (dst_store s) (py_strip idempotency_key) of
       Some (c, previous) \<Rightarrow>
         if previous \<noteq> prepare_fingerprint sha256 command
         then (Inl (DeliveryConflict ''idempotency key was used for another ChangeSet''), s)
         else (Inr (cs_to_view c), s)
     | None \<Rightarrow> (case prepare_change_set command i fresh now of
         Inl e \<Rightarrow> (Inl e, s)
       | Inr c \<Rightarrow> pbind (in_store (cst_add c (py_strip idempotency_key)
                     (prepare_fingerprint sha256 command))) (\<lambda>_. preturn (cs_to_view c)) (env s)))"
  by (simp add: ds_prepare_def Let_def blank_def pbind_def [of "in_store (cst_get_by_idempotency_key _)"]
      in_store_lookup [OF assms] pbind_plift praise_def preturn_def split: option.splits sum.splits)

lemma prepare_change_set_id: "prepare_change_set command i fresh now = Inr c \<Longrightarrow> cs_id c = i"
  by (auto simp: prepare_change_set_def rbind_eq_Inr_iff)

lemma dst_inv_add:
  assumes "dst_inv K s" and "cs_reachable c" and "cst_get (dst_store s) (cs_id c) = None"
  shows "dst_inv K (snd (in_store (cst_add c key f) s))"
proof (cases "cst_add c key f (dst_store s)")
  case (Pair r t)
  have "cst_ok t" using cst_ok_add [OF _ Pair] assms(1) by (simp add: dst_inv_def)
  moreover have "map_of (cst_keys (dst_store s)) \<subseteq>\<^sub>m map_of (cst_keys t)"
    using Pair by (auto simp: cst_add_def map_le_def split: if_splits)
  then have "K \<subseteq>\<^sub>m map_of (cst_keys t)" using assms(1) map_le_trans by (auto simp: dst_inv_def)
  moreover have "cs_reachable d" if "cst_get t i = Some d" for i d
    using that Pair assms by (auto simp: cst_add_def cst_get_def dst_inv_def split: if_splits)
  ultimately show ?thesis using assms(1) Pair by (simp add: dst_inv_def in_store_def)
qed

lemma snd_pbind_return: "snd (pbind m (\<lambda>_. preturn x) s) = snd (m s)"
  by (simp add: pbind_def preturn_def split: prod.splits sum.splits)

lemma dst_inv_prepare:
  assumes "dst_inv K s" and "keeps_inv K env" and "cst_get (dst_store (env s)) i = None"
  shows "dst_inv K (snd (ds_prepare sha256 command key i fresh now env s))"
proof -
  have ok: "cst_ok (dst_store s)" using assms(1) by (simp add: dst_inv_def)
  have env: "dst_inv K (env s)" using assms(1,2) by (simp add: keeps_inv_def)
  have "dst_inv K (snd (in_store (cst_add c (py_strip key) f) (env s)))"
    if "prepare_change_set command i fresh now = Inr c" for c f
    using dst_inv_add [OF env cs_reachable.prepared [OF that]] prepare_change_set_id [OF that] assms(3)
    by simp
  then show ?thesis
    using assms(1) by (auto simp: ds_prepare_run [OF ok] snd_pbind_return split: option.splits sum.splits)
qed

text \<open>
  A run is a sequence of calls; what runs between a call's store accesses is a run itself. The
  identifier a new ChangeSet gets is one nobody stored.
\<close>

inductive delivery_run :: "delivery_state \<Rightarrow> delivery_state \<Rightarrow> bool" where
  start: "delivery_run s s"
| prepare: "delivery_run s t \<Longrightarrow> \<forall>x. delivery_run x (env x) \<Longrightarrow> cst_get (dst_store (env t)) i = None \<Longrightarrow>
    ds_prepare sha256 command key i fresh now env t = (r, u) \<Longrightarrow> delivery_run s u"
| append: "delivery_run s t \<Longrightarrow> \<forall>x. delivery_run x (env x) \<Longrightarrow>
    ds_append_candidates append_command key fresh now env t = (r, u) \<Longrightarrow> delivery_run s u"
| update: "delivery_run s t \<Longrightarrow> \<forall>x. delivery_run x (env x) \<Longrightarrow>
    ds_update_repository i k op now env t = (r, u) \<Longrightarrow> delivery_run s u"
| pull_request: "delivery_run s t \<Longrightarrow> \<forall>x. delivery_run x (env x) \<Longrightarrow> \<forall>x. delivery_run x (env' x) \<Longrightarrow>
    ds_observe_pull_request service pr_command fresh now env env' t = (r, u) \<Longrightarrow> delivery_run s u"
| merge: "delivery_run s t \<Longrightarrow> \<forall>x. delivery_run x (env x) \<Longrightarrow> \<forall>x. delivery_run x (env' x) \<Longrightarrow>
    ds_observe_merge merge_command now env env' t = (r, u) \<Longrightarrow> delivery_run s u"
| govern: "delivery_run s t \<Longrightarrow> \<forall>x. delivery_run x (env x) \<Longrightarrow>
    ds_record_governance_decision governance_command i now env t = (r, u) \<Longrightarrow> delivery_run s u"
| revise: "delivery_run s t \<Longrightarrow> \<forall>x. delivery_run x (env x) \<Longrightarrow>
    ds_record_candidate_revision service revision_command i now env t = (r, u) \<Longrightarrow> delivery_run s u"
| recover: "delivery_run s t \<Longrightarrow> \<forall>x. delivery_run x (env x) \<Longrightarrow>
    ds_plan_recovery recovery_command i fresh now env t = (r, u) \<Longrightarrow> delivery_run s u"
| resolve: "delivery_run s t \<Longrightarrow> \<forall>x. delivery_run x (env x) \<Longrightarrow>
    ds_record_recovery_action action_command now env t = (r, u) \<Longrightarrow> delivery_run s u"
| conflict: "delivery_run s t \<Longrightarrow> ccs_ensure report i now (dst_cases t) = (r', rows) \<Longrightarrow>
    delivery_run s (t\<lparr>dst_cases := rows\<rparr>)"

lemma maintains_snd: "maintains I m Q \<Longrightarrow> I s \<Longrightarrow> m s = (r, u) \<Longrightarrow> I u"
  by (force simp: maintains_def)

lemma delivery_run_inv: "delivery_run s t \<Longrightarrow> dst_inv K s \<longrightarrow> dst_inv K t"
proof (induction rule: delivery_run.induct)
  case (prepare s t env i sha256 command key fresh now r u)
  then have "keeps_inv K env" by (simp add: keeps_inv_def)
  with prepare dst_inv_prepare [of K t env i sha256 command key fresh now] show ?case by auto
next
  case (append s t env append_command key fresh now r u)
  then have "keeps_inv K env" by (simp add: keeps_inv_def)
  with append show ?case using maintains_snd [OF maintains_append] by blast
next
  case (update s t env i k op now r u)
  then have "keeps_inv K env" by (simp add: keeps_inv_def)
  with update show ?case using maintains_snd [OF maintains_update_repository] by blast
next
  case (pull_request s t env env' service pr_command fresh now r u)
  then have "keeps_inv K env" "keeps_inv K env'" by (simp_all add: keeps_inv_def)
  with pull_request show ?case using maintains_snd [OF maintains_observe_pull_request] by blast
next
  case (merge s t env env' merge_command now r u)
  then have "keeps_inv K env" "keeps_inv K env'" by (simp_all add: keeps_inv_def)
  with merge show ?case using maintains_snd [OF maintains_observe_merge] by blast
next
  case (govern s t env governance_command i now r u)
  then have "keeps_inv K env" by (simp add: keeps_inv_def)
  with govern show ?case using maintains_snd [OF maintains_governance] by blast
next
  case (revise s t env service revision_command i now r u)
  then have "keeps_inv K env" by (simp add: keeps_inv_def)
  with revise show ?case using maintains_snd [OF maintains_revision] by blast
next
  case (recover s t env recovery_command i fresh now r u)
  then have "keeps_inv K env" by (simp add: keeps_inv_def)
  with recover show ?case using maintains_snd [OF maintains_recovery] by blast
next
  case (resolve s t env action_command now r u)
  then have "keeps_inv K env" by (simp add: keeps_inv_def)
  with resolve show ?case using maintains_snd [OF maintains_recovery_action] by blast
next
  case (conflict s t report i now r' rows)
  then show ?case by (auto simp: dst_inv_def dest: ccs_ensure_index)
qed simp

definition empty_delivery_state :: delivery_state where
  "empty_delivery_state = \<lparr>dst_store = \<lparr>cst_items = [], cst_keys = []\<rparr>, dst_events = [], dst_cases = []\<rparr>"

lemma empty_delivery_state_inv: "dst_inv Map.empty empty_delivery_state"
  by (simp add: dst_inv_def empty_delivery_state_def cst_ok_def cst_get_def dc_index_ok_def)

lemma delivery_run_empty: "delivery_run empty_delivery_state t \<Longrightarrow> dst_inv Map.empty t"
  using delivery_run_inv empty_delivery_state_inv by blast

text \<open>The state after the sample ChangeSet was prepared under the key \<open>k\<close>.\<close>

definition prepared_state :: "(string \<Rightarrow> string) \<Rightarrow> delivery_state" where
  "prepared_state sha256 = \<lparr>dst_store = \<lparr>cst_items = [(9, sample_set [sample_candidate] CS_READY 1 0)],
     cst_keys = [(''k'', 9, prepare_fingerprint sha256 sample_prepare)]\<rparr>, dst_events = [], dst_cases = []\<rparr>"

lemma sample_key [simp]: "py_strip ''k'' = ''k''" "\<not> blank ''k''"
  by (simp_all add: blank_def py_strip_def py_isspace_def)

lemma sample_prepare_call:
  "ds_prepare sha256 sample_prepare ''k'' 9 (\<lambda>_. 50) 0 id empty_delivery_state =
     (Inr (cs_to_view (sample_set [sample_candidate] CS_READY 1 0)), prepared_state sha256)"
proof -
  have "cst_ok (dst_store empty_delivery_state)"
    using empty_delivery_state_inv by (simp add: dst_inv_def)
  moreover have "cst_lookup (dst_store empty_delivery_state) ''k'' = None"
    by (simp add: cst_lookup_def empty_delivery_state_def)
  moreover have "in_store (cst_add (sample_set [sample_candidate] CS_READY 1 0) ''k''
      (prepare_fingerprint sha256 sample_prepare)) empty_delivery_state = (Inr (), prepared_state sha256)"
    by (simp add: in_store_def cst_add_def empty_delivery_state_def prepared_state_def sample_set_def)
  ultimately show ?thesis
    by (simp add: ds_prepare_run sample_prepared pbind_def preturn_def)
qed

lemma sample_prepare_run: "delivery_run empty_delivery_state (prepared_state sha256)"
proof (rule delivery_run.prepare [OF delivery_run.start _ _ sample_prepare_call])
  show "\<forall>x. delivery_run x (id x)" by (simp add: delivery_run.start)
  show "cst_get (dst_store (id empty_delivery_state)) 9 = None"
    by (simp add: cst_get_def empty_delivery_state_def)
qed

subsection \<open>Properties\<close>

text \<open>C1: Whatever calls ran, in whatever interleaving of their accesses to the store, every
  stored ChangeSet satisfies the ChangeSet invariant, and at most one conflict case is open per
  candidate.\<close>

theorem stored_change_sets_sound:
  assumes "delivery_run empty_delivery_state s" and "cst_get (dst_store s) i = Some c"
  shows "cs_id c = i \<and> cs_reachable c \<and> cs_inv c \<and> dc_index_ok (dst_cases s)"
  using delivery_run_empty [OF assms(1)] assms(2) cst_ok_id cs_reachable_inv
  by (auto simp: dst_inv_def)

theorem stored_change_sets_sound_witness:
  "cs_inv (sample_set [sample_candidate] CS_READY 1 0) \<and>
   cst_get (dst_store (prepared_state id)) 9 = Some (sample_set [sample_candidate] CS_READY 1 0)"
proof -
  have get: "cst_get (dst_store (prepared_state id)) 9 = Some (sample_set [sample_candidate] CS_READY 1 0)"
    by (simp add: cst_get_def prepared_state_def)
  with stored_change_sets_sound [OF sample_prepare_run get] show ?thesis by blast
qed

text \<open>C2: Preparing is idempotent for good: after a ChangeSet was prepared under a key, whatever ran
  since, preparing under that key writes nothing; it answers with the current state of that
  ChangeSet when the fingerprint is the same and refuses the request otherwise. The fingerprint
  leaves out the candidates' provenance.\<close>

theorem prepare_idempotent:
  assumes "delivery_run empty_delivery_state s" and "cst_get (dst_store s) i = None"
    and "cst_lookup (dst_store s) (py_strip key) = None"
    and "ds_prepare sha256 command key i fresh now id s = (Inr view, s1)" and "delivery_run s1 t"
    and "py_strip key' = py_strip key"
  shows "\<exists>c. cst_get (dst_store t) (csv_id view) = Some c \<and>
    ds_prepare sha256 command' key' i' fresh' now' env t =
      (if sha256 (prepare_json command') = sha256 (prepare_json command) then Inr (cs_to_view c)
       else Inl (DeliveryConflict ''idempotency key was used for another ChangeSet''), t)"
proof -
  let ?f = "prepare_fingerprint sha256 command" and ?k = "py_strip key"
  have inv: "dst_inv Map.empty s" using assms(1) by (rule delivery_run_empty)
  then have ok: "cst_ok (dst_store s)" by (simp add: dst_inv_def)
  have nb: "\<not> blank key" using assms(4) by (auto simp: ds_prepare_run [OF ok])
  with assms(3,4) obtain c where c: "prepare_change_set command i fresh now = Inr c"
    and add: "pbind (in_store (cst_add c ?k ?f)) (\<lambda>_. preturn (cs_to_view c)) s = (Inr view, s1)"
    by (auto simp: ds_prepare_run [OF ok] split: sum.splits)
  have id: "cs_id c = i" using c by (rule prepare_change_set_id)
  from add have view: "view = cs_to_view c" and "fst (in_store (cst_add c ?k ?f) s) = Inr ()"
    and s1: "s1 = snd (in_store (cst_add c ?k ?f) s)"
    by (auto simp: pbind_def preturn_def split: prod.splits sum.splits)
  then have key: "dict_get (cst_keys (dst_store s1)) ?k = Some (i, ?f)"
    using id by (auto simp: in_store_def cst_add_def split: if_splits)
  have "dst_inv Map.empty s1"
    using dst_inv_add [OF inv cs_reachable.prepared [OF c]] assms(2) id s1 by simp
  then have "dst_inv [?k \<mapsto> (i, ?f)] s1" using key by (simp add: dst_inv_def map_le_def)
  then have invt: "dst_inv [?k \<mapsto> (i, ?f)] t" using delivery_run_inv [OF assms(5)] by blast
  then have okt: "cst_ok (dst_store t)" and keyt: "dict_get (cst_keys (dst_store t)) ?k = Some (i, ?f)"
    by (auto simp: dst_inv_def map_le_def)
  then obtain d where d: "cst_get (dst_store t) i = Some d"
    using cst_ok_key [OF okt keyt] by (auto simp: cst_get_def)
  have "cst_lookup (dst_store t) ?k = Some (d, ?f)"
    using keyt d by (simp add: cst_lookup_def cst_get_def)
  moreover have "\<not> blank key'" using nb assms(6) by (simp add: blank_def)
  ultimately have "ds_prepare sha256 command' key' i' fresh' now' env t =
      (if sha256 (prepare_json command') = sha256 (prepare_json command) then Inr (cs_to_view d)
       else Inl (DeliveryConflict ''idempotency key was used for another ChangeSet''), t)"
    using assms(6) by (auto simp: ds_prepare_run [OF okt] prepare_fingerprint_def)
  moreover have "csv_id view = i" by (simp add: view id cs_to_view_def)
  ultimately show ?thesis using d by blast
qed

theorem prepare_idempotent_witness:
  "\<exists>c. ds_prepare id (sample_prepare\<lparr>pcs_candidates :=
        [sample_item\<lparr>rci_worker_agent_id := Some 77\<rparr>]\<rparr>) ''k'' 10 (\<lambda>_. 51) 1 id (prepared_state id) =
     (Inr (cs_to_view c), prepared_state id)"
proof -
  let ?other = "sample_prepare\<lparr>pcs_candidates := [sample_item\<lparr>rci_worker_agent_id := Some 77\<rparr>]\<rparr>"
  have none: "cst_get (dst_store empty_delivery_state) 9 = None"
    "cst_lookup (dst_store empty_delivery_state) (py_strip ''k'') = None"
    by (simp_all add: cst_get_def cst_lookup_def empty_delivery_state_def)
  have "candidate_json (sample_item\<lparr>rci_worker_agent_id := Some 77\<rparr>) = candidate_json sample_item"
    by (simp add: candidate_json_def)
  then have "id (prepare_json ?other) = id (prepare_json sample_prepare)"
    by (simp add: prepare_json_def sample_prepare_def)
  with prepare_idempotent [OF delivery_run.start none sample_prepare_call delivery_run.start refl,
      where command' = ?other and i' = 10 and fresh' = "\<lambda>_. 51" and now' = 1 and env = id and ?sha256.0 = id]
  show ?thesis by auto
qed

text \<open>No observation is lost to a concurrent writer: where the ChangeSet's version changed
  between the read and the write of an update, the update is refused and writes nothing.\<close>

theorem concurrent_update_refused:
  assumes "cst_get (dst_store s) i = Some c"
    and "cs_update_repository k (apply_operation op) now c = Inr (u, True)" and "cs_id u = i"
    and "cst_get (dst_store (env s)) i = Some d" and "cs_version d \<noteq> cs_version c"
  shows "ds_update_repository i k op now env s =
    (Inl (DeliveryConflict ''ChangeSet version changed''), env s)"
proof -
  have "cst_update u (cs_version c) (dst_store (env s)) =
      (Inl (DeliveryConflict ''ChangeSet version changed''), dst_store (env s))"
    using assms(3-5) by (simp add: cst_update_def cst_get_def)
  then have "in_store (cst_update u (cs_version c)) (env s) =
      (Inl (DeliveryConflict ''ChangeSet version changed''), env s)"
    by (simp add: in_store_def)
  then show ?thesis
    using assms(1,2)
    by (simp add: ds_update_repository_def ds_required_def ds_update_def
        pbind_def [of "pbind (pget _) _"] preturn_def plift_def pbind_def [of "in_store _"]
        pbind_def [of "plift _"])
qed

theorem concurrent_update_refused_witness:
  "ds_update_repository 9 1 (ObservePR 7 ''u'' sample_sha) 0
     (\<lambda>s. s\<lparr>dst_store := \<lparr>cst_items = [(9, sample_set [sample_open] CS_DELIVERING 2 0)], cst_keys = []\<rparr>\<rparr>)
     (prepared_state id) =
   (Inl (DeliveryConflict ''ChangeSet version changed''),
    (prepared_state id)\<lparr>dst_store := \<lparr>cst_items = [(9, sample_set [sample_open] CS_DELIVERING 2 0)],
      cst_keys = []\<rparr>\<rparr>)"
proof -
  let ?c = "sample_set [sample_candidate] CS_READY 1 0" and ?op = "ObservePR 7 ''u'' sample_sha"
  let ?u = "sample_set [sample_open] CS_DELIVERING 2 0"
  have ne: "sample_open \<noteq> sample_candidate"
    using sample_fields by (metis repository_delivery_status.distinct(1))
  have get: "cst_get (dst_store (prepared_state id)) 9 = Some ?c"
    by (simp add: cst_get_def prepared_state_def)
  have up: "cs_update_repository 1 (apply_operation ?op) 0 ?c = Inr (?u, True)"
    using sample_steps(2) ne
    by (subst sample_operate [of _ _ sample_open]) (simp_all add: delivery_status_def pending_orders_def)
  show ?thesis
    by (rule concurrent_update_refused [OF get up, where d = ?u]) (simp_all add: cst_get_def sample_set_def)
qed

end
