(* ===== verification/Delivery_Refinement.thy ===== *)
theory Delivery_Refinement
  imports Delivery_Persistence Delivery_Safety
begin

text \<open>
  The Postgres store against the in-memory store. Every reachable ChangeSet survives being
  written and read; as long as the transactions do not overlap, each method of the Postgres
  store answers as the in-memory one, so what is proved of the services over the in-memory
  store holds over the tables; two overlapping updates break the version check.
\<close>

subsection \<open>Reachable ChangeSets can be stored\<close>

text \<open>What a later state of a ChangeSet keeps of an earlier one.\<close>

definition cs_succeeds :: "change_set \<Rightarrow> change_set \<Rightarrow> bool" where
  "cs_succeeds c d \<longleftrightarrow>
     cs_id d = cs_id c \<and> cs_organization_id d = cs_organization_id c \<and>
     cs_project_id d = cs_project_id c \<and> cs_created_at d = cs_created_at c \<and>
     rd_repository_id ` set (cs_repositories c) \<subseteq> rd_repository_id ` set (cs_repositories d)"

lemma cs_succeeds_refl [simp]: "cs_succeeds c c"
  by (simp add: cs_succeeds_def)

lemma cs_step_succeeds: "cs_step c d \<Longrightarrow> cs_succeeds c d"
proof (erule cs_stepE)
  fix repository_id op now w
  assume "cs_update_repository repository_id (apply_operation op) now c = Inr (d, w)"
  from cs_update_repository_Inr [OF this] obtain rs where
    rs: "list_all2 (\<lambda>r q. if rd_repository_id r = repository_id then apply_operation op r = Inr q
           else q = r) (cs_repositories c) rs"
    and "if rs = cs_repositories c then d = c \<and> \<not> w
         else w \<and> cs_with_repositories rs now c = Inr d" by blast
  then have d: "d = c \<or> cs_with_repositories rs now c = Inr d" by (simp split: if_splits)
  have "map rd_repository_id rs = map rd_repository_id (cs_repositories c)"
    using arg_cong [OF apply_all2(2) [OF rs], of "map fst"] by (simp add: comp_def)
  then have "rd_repository_id ` set rs = rd_repository_id ` set (cs_repositories c)"
    by (metis image_set)
  with d show ?thesis by (auto simp: cs_succeeds_def dest: cs_with_repositories_Inr)
next
  fix command fresh now w assume "append_change_set command fresh now c = Inr (d, w)"
  then show ?thesis
    by (auto simp: cs_succeeds_def append_change_set_def Let_def rbind_eq_Inr_iff
        dest!: cs_append_repositories_Inr split: if_splits)
next
  fix command i fresh now assume "plan_change_set_recovery command i fresh now c = Inr d"
  then show ?thesis
    by (auto simp: cs_succeeds_def plan_change_set_recovery_def dest!: cs_add_recovery_Inr)
next
  fix command i now assume "govern_change_set command i now c = Inr d"
  then show ?thesis
    by (auto simp: cs_succeeds_def govern_change_set_def rbind_eq_Inr_iff dest!: cs_record_governance_Inr)
next
  fix a b e f g i now assume "cs_record_candidate_revision a b e f g i now c = Inr d"
  from cs_revision_Inr [OF this] obtain r q v rs where "rd_repository_id r = a"
    and q: "rd_revise b e f r = Inr q"
    and rs: "rs = map_where (\<lambda>x. rd_repository_id x = a) (\<lambda>_. q) (cs_repositories c)"
    and d: "d = c\<lparr>cs_repositories := rs, cs_candidate_revisions := cs_candidate_revisions c @ [v],
             cs_status := CS_DELIVERING, cs_merge_cursor := py_min (pending_orders rs) 0,
             cs_version := cs_version c + 1, cs_updated_at := now\<rparr>" by blast
  with rd_step_skeleton [OF rd_step.revise [OF q]] have "rd_repository_id q = a"
    by (simp add: skeleton_def)
  then have "map rd_repository_id rs = map rd_repository_id (cs_repositories c)"
    unfolding rs by (intro map_map_where) simp
  then have "rd_repository_id ` set rs = rd_repository_id ` set (cs_repositories c)"
    by (metis image_set)
  then show ?thesis by (simp add: cs_succeeds_def d)
next
  fix a b e f now assume "cs_record_recovery_action a b e f now c = Inr d"
  then show ?thesis by (auto simp: cs_succeeds_def dest!: cs_record_recovery_action_Inr)
qed

text \<open>Decisions are valid and a revision's predecessor is never the empty text.\<close>

definition cs_details_ok :: "change_set \<Rightarrow> bool" where
  "cs_details_ok c \<longleftrightarrow>
     (\<forall>d \<in> set (cs_governance_decisions c). gd_post_init d = Inr d) \<and>
     (\<forall>v \<in> set (cs_candidate_revisions c). cr_previous_head_sha v \<noteq> Some [])"

lemma initial_revisions_previous:
  "v \<in> set (initial_revisions rs fresh now) \<Longrightarrow> cr_previous_head_sha v = Some p \<Longrightarrow> False"
  by (auto simp: initial_revisions_def initial_revision_def)

lemma gd_post_init_again: "gd_post_init d = Inr g \<Longrightarrow> gd_post_init g = Inr g"
  by (auto simp: gd_post_init_def rbind_eq_Inr_iff split: if_splits)

lemma cs_step_details:
  assumes "cs_step c d" and inv: "cs_inv c" and ok: "cs_details_ok c"
  shows "cs_details_ok d"
  using assms(1)
proof (rule cs_stepE)
  fix repository_id op now w
  assume "cs_update_repository repository_id (apply_operation op) now c = Inr (d, w)"
  from cs_update_repository_Inr [OF this] ok show ?thesis
    by (auto simp: cs_details_ok_def dest: cs_with_repositories_Inr split: if_splits)
next
  fix command fresh now w assume "append_change_set command fresh now c = Inr (d, w)"
  with ok show ?thesis
    by (auto simp: cs_details_ok_def append_change_set_def Let_def rbind_eq_Inr_iff
        dest!: cs_append_repositories_Inr initial_revisions_previous split: if_splits)
next
  fix command i fresh now assume "plan_change_set_recovery command i fresh now c = Inr d"
  with ok show ?thesis
    by (auto simp: cs_details_ok_def plan_change_set_recovery_def dest!: cs_add_recovery_Inr)
next
  fix command i now assume "govern_change_set command i now c = Inr d"
  with ok show ?thesis
    by (auto simp: cs_details_ok_def govern_change_set_def rbind_eq_Inr_iff set_put_by
        dest!: cs_record_governance_Inr dest: gd_post_init_again)
next
  fix a b e f g i now assume "cs_record_candidate_revision a b e f g i now c = Inr d"
  moreover have "rd_commit_sha r \<noteq> []" if "r \<in> set (cs_repositories c)" for r
    using inv that by (auto simp: cs_inv_def rd_inv_def rd_wf_def norm_text_def full_sha_def)
  ultimately show ?thesis
    using ok by (auto simp: cs_details_ok_def dest!: cs_revision_Inr)
next
  fix a b e f now assume "cs_record_recovery_action a b e f now c = Inr d"
  with ok show ?thesis by (auto simp: cs_details_ok_def dest!: cs_record_recovery_action_Inr)
qed

lemma prepare_details: "prepare_change_set command i fresh now = Inr c \<Longrightarrow> cs_details_ok c"
  by (auto simp: prepare_change_set_def cs_details_ok_def rbind_eq_Inr_iff
      dest!: initial_revisions_previous split: if_splits)

lemma cs_reachable_details: "cs_reachable c \<Longrightarrow> cs_details_ok c"
  by (induction rule: cs_reachable.induct)
    (auto intro: prepare_details cs_step_details cs_reachable_inv)

text \<open>Every clock reading the payload keeps lies within the years a \<open>datetime\<close> has.\<close>

definition cs_times_ok :: "change_set \<Rightarrow> bool" where
  "cs_times_ok c \<longleftrightarrow>
     (\<forall>p \<in> set (cs_recovery_plans c). datetime_ok (rp_created_at p)) \<and>
     (\<forall>d \<in> set (cs_governance_decisions c). datetime_ok (gd_decided_at d)) \<and>
     (\<forall>v \<in> set (cs_candidate_revisions c). datetime_ok (cr_created_at v))"

lemma cs_reachable_storable: "cs_reachable c \<Longrightarrow> cs_times_ok c \<Longrightarrow> cs_storable c"
  using cs_reachable_inv [of c] cs_reachable_details [of c]
  by (auto simp: cs_storable_def cs_times_ok_def cs_details_ok_def cs_inv_def rd_inv_def)

subsection \<open>The tables mirror the dictionaries\<close>

record stored_entry =
  se_change_set :: change_set
  se_key :: string
  se_fingerprint :: string

definition entry_row :: "stored_entry \<Rightarrow> change_set_record" where
  "entry_row e = change_set_row (se_change_set e) (se_key e) (se_fingerprint e)"

definition entry_id :: "stored_entry \<Rightarrow> uuid" where
  "entry_id e = cs_id (se_change_set e)"

definition entries_mirrored :: "stored_entry list \<Rightarrow> delivery_db \<Rightarrow> change_set_store \<Rightarrow> bool" where
  "entries_mirrored es db s \<longleftrightarrow>
     db_change_sets db = map entry_row es \<and>
     cst_items s = map (\<lambda>e. (entry_id e, se_change_set e)) es \<and>
     cst_keys s = map (\<lambda>e. (se_key e, entry_id e, se_fingerprint e)) es \<and>
     distinct (map entry_id es) \<and> distinct (map se_key es) \<and>
     (\<forall>e \<in> set es. cs_storable (se_change_set e)) \<and>
     distinct (map crr_key (db_repositories db)) \<and>
     set (db_repositories db) = (\<Union>e \<in> set es. set (repository_rows (se_change_set e)))"

lemma repository_row_simps [simp]:
  "crr_change_set_id (repository_row c r) = cs_id c"
  "crr_repository_id (repository_row c r) = rd_repository_id r"
  "crr_head_sha (repository_row c r) = rd_commit_sha r"
  "crr_key (repository_row c r) = (cs_id c, rd_repository_id r)"
  by (simp_all add: repository_row_def crr_key_def)

lemma entry_row_simps [simp]:
  "csr_id (entry_row e) = entry_id e" "csr_idempotency_key (entry_row e) = se_key e"
  "csr_fingerprint (entry_row e) = se_fingerprint e"
  "csr_version (entry_row e) = cs_version (se_change_set e)"
  "csr_project_id (entry_row e) = cs_project_id (se_change_set e)"
  "csr_updated_at (entry_row e) = cs_updated_at (se_change_set e)"
  "csr_status (entry_row e) = change_set_status_value (cs_status (se_change_set e))"
  "cs_storable (se_change_set e) \<Longrightarrow> cs_hydrate (entry_row e) = Inr (se_change_set e)"
  by (simp_all add: entry_row_def entry_id_def) (simp_all add: change_set_row_def)

lemma mirrored_get:
  assumes "entries_mirrored es db s"
  shows "pg_get i db = (Inr (cst_get s i), db)"
proof (cases "find (\<lambda>e. entry_id e = i) es")
  case (Some e)
  with find_SomeD assms have "cs_storable (se_change_set e)" by (fastforce simp: entries_mirrored_def)
  with Some assms show ?thesis
    by (simp add: pg_get_def cst_get_def entries_mirrored_def find_map map_of_find)
qed (use assms in \<open>simp add: pg_get_def cst_get_def entries_mirrored_def find_map map_of_find\<close>)

lemma find_entry: "distinct (map k es) \<Longrightarrow> e \<in> set es \<Longrightarrow> find (\<lambda>x. k x = k e) es = Some e"
  by (rule find_unique_key)

lemma mirrored_get_by_key:
  assumes m: "entries_mirrored es db s"
  shows "pg_get_by_idempotency_key k db = (Inr (cst_lookup s k), db)"
proof (cases "find (\<lambda>e. se_key e = k) es")
  case (Some e)
  with find_SomeD have "e \<in> set es" by fastforce
  moreover from this m have "find (\<lambda>x. entry_id x = entry_id e) es = Some e"
    by (intro find_entry) (simp_all add: entries_mirrored_def)
  moreover have "cs_storable (se_change_set e)"
    using m \<open>e \<in> set es\<close> by (simp add: entries_mirrored_def)
  ultimately show ?thesis
    using Some m by (simp add: pg_get_by_idempotency_key_def cst_lookup_def entries_mirrored_def find_map map_of_find)
qed (use m in \<open>simp add: pg_get_by_idempotency_key_def cst_lookup_def entries_mirrored_def find_map map_of_find\<close>)

lemma mirrored_ok: "entries_mirrored es db s \<Longrightarrow> cst_ok s"
  by (auto simp: entries_mirrored_def cst_ok_def comp_def map_of_eq_None_iff image_image entry_id_def [symmetric])

text \<open>A query over the rows that stands for the same query over the dictionary.\<close>

lemma mirrored_query:
  assumes m: "entries_mirrored es db s"
    and sel: "\<And>e. e \<in> set es \<Longrightarrow> P (entry_row e) = Q (se_change_set e)"
  shows "map_result cs_hydrate (filter P (db_change_sets db)) = Inr (filter Q (dict_values (cst_items s)))"
    and "map_result cs_hydrate (sort_key csr_updated_at (filter P (db_change_sets db))) =
      Inr (sort_key cs_updated_at (filter Q (dict_values (cst_items s))))"
proof -
  have rows: "filter P (db_change_sets db) = map entry_row (filter (Q \<circ> se_change_set) es)"
    using m sel by (auto simp: entries_mirrored_def filter_map comp_def intro!: arg_cong [of _ _ "map entry_row"] filter_cong)
  have items: "filter Q (dict_values (cst_items s)) = map se_change_set (filter (Q \<circ> se_change_set) es)"
    using m by (simp add: entries_mirrored_def comp_def filter_map)
  have read: "map_result cs_hydrate (map entry_row xs) = Inr (map se_change_set xs)" if "set xs \<subseteq> set es" for xs
    using that m by (induction xs) (auto simp: entries_mirrored_def)
  show "map_result cs_hydrate (filter P (db_change_sets db)) = Inr (filter Q (dict_values (cst_items s)))"
    unfolding rows items by (rule read) auto
  have by_row: "sort_key csr_updated_at (map entry_row xs) = map entry_row (sort_key (cs_updated_at \<circ> se_change_set) xs)"
    for xs by (simp add: sort_key_map comp_def)
  have by_item: "sort_key cs_updated_at (map se_change_set xs) = map se_change_set (sort_key (cs_updated_at \<circ> se_change_set) xs)"
    for xs by (simp add: sort_key_map comp_def)
  show "map_result cs_hydrate (sort_key csr_updated_at (filter P (db_change_sets db))) =
      Inr (sort_key cs_updated_at (filter Q (dict_values (cst_items s))))"
    unfolding rows items by_row by_item by (rule read) auto
qed

lemma mirrored_find_by_candidate:
  assumes m: "entries_mirrored es db s"
  shows "pg_find_by_candidate repository_id head_sha db = Inr (cst_find_by_candidate repository_id head_sha s)"
proof -
  define ids where "ids = map crr_change_set_id (filter (\<lambda>row. crr_repository_id row = repository_id \<and>
    crr_head_sha row = py_lower (py_strip head_sha)) (db_repositories db))"
  let ?Q = "\<lambda>c. \<exists>r \<in> set (cs_repositories c). rd_repository_id r = repository_id \<and>
    rd_commit_sha r = py_lower (py_strip head_sha)"
  have rows: "set (db_repositories db) =
      (\<Union>e \<in> set es. repository_row (se_change_set e) ` set (cs_repositories (se_change_set e)))"
    using m by (simp add: entries_mirrored_def repository_rows_def)
  have ids: "set ids = entry_id ` {e \<in> set es. ?Q (se_change_set e)}"
    unfolding ids_def set_map set_filter rows by (force simp: entry_id_def image_iff)
  have "(entry_id e \<in> set ids) = ?Q (se_change_set e)" if "e \<in> set es" for e
    using m that unfolding ids by (auto simp: entries_mirrored_def distinct_map dest: inj_onD)
  then have "map_result cs_hydrate (filter (\<lambda>row. csr_id row \<in> set ids) (db_change_sets db)) =
      Inr (filter ?Q (dict_values (cst_items s)))"
    by (intro mirrored_query(1) [OF m]) simp
  moreover have "ids = [] \<Longrightarrow> map_result cs_hydrate (filter (\<lambda>row. csr_id row \<in> set ids) (db_change_sets db)) = Inr []"
    by simp
  ultimately show ?thesis
    unfolding pg_find_by_candidate_def cst_find_by_candidate_def Let_def ids_def [symmetric] by auto
qed

lemma mirrored_find_by_project:
  assumes m: "entries_mirrored es db s"
  shows "pg_find_by_project p db = Inr (sort_key cs_updated_at (cst_find_by_project p s))"
  unfolding pg_find_by_project_def cst_find_by_project_def by (rule mirrored_query(2) [OF m]) simp

lemma mirrored_list_active:
  assumes m: "entries_mirrored es db s"
  shows "pg_list_active db = Inr (sort_key cs_updated_at (cst_list_active s))"
  unfolding pg_list_active_def cst_list_active_def
  by (rule mirrored_query(2) [OF m]) (simp only: entry_row_simps insert_iff empty_iff CS.value_eq_iff)

subsection \<open>Writes that do not overlap\<close>

lemma col_same [simp]: "col x y x = y"
  by (simp add: col_def)

lemma write_repository_key [simp]: "crr_key (write_repository r l row) = crr_key row"
  by (simp add: write_repository_def crr_key_def)

lemma write_repository_same:
  "crr_key l = (cs_id c, rd_repository_id r) \<Longrightarrow> write_repository r l l = repository_row c r"
  by (cases l) (simp add: write_repository_def repository_row_def crr_key_def)

lemma Pair_image_iff: "(a, x) \<in> Pair b ` S \<longleftrightarrow> a = b \<and> x \<in> S"
  by auto

text \<open>One candidate written, when its loaded row is the current one.\<close>

lemma write_candidate_serial:
  fixes c rows r
  defines "k \<equiv> (cs_id c, rd_repository_id r)"
  assumes same: "find (\<lambda>l. crr_repository_id l = rd_repository_id r) loaded = find (\<lambda>row. crr_key row = k) rows"
    and dist: "distinct (map crr_key rows)"
  shows "set (write_candidate c loaded rows r) =
      insert (repository_row c r) {row \<in> set rows. crr_key row \<noteq> k}" (is ?set)
    and "distinct (map crr_key (write_candidate c loaded rows r))" (is ?dist)
    and "k' \<noteq> k \<Longrightarrow> find (\<lambda>row. crr_key row = k') (write_candidate c loaded rows r) =
      find (\<lambda>row. crr_key row = k') rows" (is "_ \<Longrightarrow> ?find")
proof -
  have parts: "?set \<and> ?dist \<and> (k' \<noteq> k \<longrightarrow> ?find)"
  proof (cases "find (\<lambda>row. crr_key row = k) rows")
    case None
    then have "\<forall>row \<in> set rows. crr_key row \<noteq> k" by (simp add: find_None_iff)
    moreover from None same have "write_candidate c loaded rows r = rows @ [repository_row c r]"
      by (simp add: write_candidate_def)
    ultimately show ?thesis using dist by (auto simp: k_def find_append split: option.splits)
  next
    case (Some l)
    from find_SomeD [OF this] have l: "l \<in> set rows" "crr_key l = k" by auto
    have only: "row = l" if "row \<in> set rows" "crr_key row = k" for row
      by (rule key_unique [OF dist that(1) l(1)]) (simp add: that(2) l(2))
    have w: "write_candidate c loaded rows r = map_where (\<lambda>row. crr_key row = k) (write_repository r l) rows"
      using Some same by (simp add: write_candidate_def k_def)
    have "{row \<in> set rows. crr_key row = k} = {l}" using l by (auto dest: only)
    then have "write_repository r l ` {row \<in> set rows. crr_key row = k} = {repository_row c r}"
      using l write_repository_same [of l c r] by (simp add: k_def)
    then have ?set unfolding w set_map_where by simp
    moreover have ?dist unfolding w using dist by (simp add: map_map_where)
    moreover have "k' \<noteq> k \<longrightarrow> ?find" unfolding w using find_key_map_where [of crr_key] by simp
    ultimately show ?thesis by (intro conjI)
  qed
  show ?set by (rule parts [THEN conjunct1])
  show ?dist by (rule parts [THEN conjunct2, THEN conjunct1])
  show ?find if "k' \<noteq> k" by (rule mp [OF parts [THEN conjunct2, THEN conjunct2] that])
qed

lemma write_candidates_serial:
  assumes "distinct (map rd_repository_id rs)" and "distinct (map crr_key rows)"
    and "\<forall>r \<in> set rs. find (\<lambda>l. crr_repository_id l = rd_repository_id r) loaded =
      find (\<lambda>row. crr_key row = (cs_id c, rd_repository_id r)) rows"
  shows "set (foldl (write_candidate c loaded) rows rs) = repository_row c ` set rs \<union>
      {row \<in> set rows. crr_key row \<notin> Pair (cs_id c) ` rd_repository_id ` set rs} \<and>
    distinct (map crr_key (foldl (write_candidate c loaded) rows rs))"
  using assms
proof (induction rs arbitrary: rows)
  case (Cons r rs)
  let ?rows = "write_candidate c loaded rows r"
  have same: "find (\<lambda>l. crr_repository_id l = rd_repository_id r) loaded =
      find (\<lambda>row. crr_key row = (cs_id c, rd_repository_id r)) rows"
    using Cons.prems(3) by simp
  note w = write_candidate_serial [OF same Cons.prems(2)]
  have "\<forall>q \<in> set rs. find (\<lambda>l. crr_repository_id l = rd_repository_id q) loaded =
      find (\<lambda>row. crr_key row = (cs_id c, rd_repository_id q)) ?rows"
  proof
    fix q assume "q \<in> set rs"
    then have "rd_repository_id q \<in> rd_repository_id ` set rs" by (rule imageI)
    with Cons.prems(1) have "rd_repository_id q \<noteq> rd_repository_id r" by auto
    then show "find (\<lambda>l. crr_repository_id l = rd_repository_id q) loaded =
        find (\<lambda>row. crr_key row = (cs_id c, rd_repository_id q)) ?rows"
      using Cons.prems(3) \<open>q \<in> set rs\<close> by (simp add: w(3))
  qed
  from Cons.IH [OF _ w(2) this] Cons.prems(1) show ?case by (auto simp: w(1) image_iff)
qed simp

lemma write_change_set_serial:
  assumes "cs_succeeds (se_change_set e) c"
  shows "write_change_set c (entry_row e) (entry_row e) = entry_row (e\<lparr>se_change_set := c\<rparr>)"
  using assms by (simp add: write_change_set_def entry_row_def change_set_row_def cs_succeeds_def)

definition replace_entry :: "change_set \<Rightarrow> stored_entry list \<Rightarrow> stored_entry list" where
  "replace_entry c es = map_where (\<lambda>e. entry_id e = cs_id c) (\<lambda>e. e\<lparr>se_change_set := c\<rparr>) es"

lemma dict_set_map:
  assumes "distinct (map k xs)" and "x \<in> set xs"
  shows "dict_set (k x) w (map (\<lambda>x. (k x, v x)) xs) = map (\<lambda>y. (k y, if k y = k x then w else v y)) xs"
  using assms
proof (induction xs)
  case (Cons y ys)
  show ?case
  proof (cases "k y = k x")
    case True
    with Cons.prems(1) have "\<forall>z \<in> set ys. k z \<noteq> k x" by (auto simp: image_iff)
    with True show ?thesis by simp
  qed (use Cons in auto)
qed simp

lemma mirrored_update_write:
  assumes m: "entries_mirrored es db s" and storable: "cs_storable c"
    and e: "e \<in> set es" "entry_id e = cs_id c" and later: "cs_succeeds (se_change_set e) c"
  defines "loaded \<equiv> filter (\<lambda>item. crr_change_set_id item = cs_id c) (db_repositories db)"
  shows "\<exists>db'. pg_update_write c (entry_row e, loaded) db = (Inr (), db') \<and>
    entries_mirrored (replace_entry c es) db' (s\<lparr>cst_items := dict_set (cs_id c) c (cst_items s)\<rparr>)"
proof -
  let ?rows = "foldl (write_candidate c loaded) (db_repositories db) (cs_repositories c)"
  define K where "K = Pair (cs_id c) ` rd_repository_id ` set (cs_repositories c)"
  have only: "x = e" if "x \<in> set es" "entry_id x = cs_id c" for x
    using m e that by (intro key_unique [of entry_id es]) (simp_all add: entries_mirrored_def)
  have "find (\<lambda>l. crr_repository_id l = i) loaded = find (\<lambda>row. crr_key row = (cs_id c, i)) (db_repositories db)"
    for i by (simp add: loaded_def find_filter crr_key_def)
  then have w: "set ?rows = repository_row c ` set (cs_repositories c) \<union>
      {row \<in> set (db_repositories db). crr_key row \<notin> K} \<and>
    distinct (map crr_key ?rows)"
    unfolding K_def using m storable by (intro write_candidates_serial)
      (auto simp: entries_mirrored_def cs_storable_def cs_wf_def)
  have kept_ids: "rd_repository_id r \<in> rd_repository_id ` set (cs_repositories c)"
    if "r \<in> set (cs_repositories (se_change_set e))" for r
    using later that unfolding cs_succeeds_def by blast
  have own: "crr_key row \<in> K \<longleftrightarrow> entry_id x = cs_id c"
    if "x \<in> set es" "row \<in> set (repository_rows (se_change_set x))" for x row
    using that only [OF that(1)] kept_ids by (auto simp: K_def repository_rows_def entry_id_def Pair_image_iff)
  have kept: "{row \<in> set (db_repositories db). crr_key row \<notin> K} =
      (\<Union>x \<in> {x \<in> set es. entry_id x \<noteq> cs_id c}. set (repository_rows (se_change_set x)))"
  proof -
    have "set (db_repositories db) = (\<Union>x \<in> set es. set (repository_rows (se_change_set x)))"
      using m by (simp add: entries_mirrored_def)
    then show ?thesis by (auto simp: own)
  qed
  have replaced: "set (replace_entry c es) = insert (e\<lparr>se_change_set := c\<rparr>) {x \<in> set es. entry_id x \<noteq> cs_id c}"
  proof -
    have "{x \<in> set es. entry_id x = cs_id c} = {e}" using e by (auto dest: only)
    then show ?thesis by (simp add: replace_entry_def set_map_where)
  qed
  have ids: "map entry_id (replace_entry c es) = map entry_id es" "map se_key (replace_entry c es) = map se_key es"
    unfolding replace_entry_def by (rule map_map_where; simp add: entry_id_def)+
  have change_sets: "map_where (\<lambda>row. csr_id row = cs_id c) (write_change_set c (entry_row e)) (map entry_row es) =
      map entry_row (replace_entry c es)"
    using write_change_set_serial [OF later] by (auto simp: map_where_def replace_entry_def dest: only)
  have "dict_set (cs_id c) c (map (\<lambda>e. (entry_id e, se_change_set e)) es) =
      map (\<lambda>e. (entry_id e, se_change_set e)) (replace_entry c es)"
    using dict_set_map [of entry_id es e c se_change_set] m e
    by (auto simp: entries_mirrored_def replace_entry_def map_where_def entry_id_def)
  moreover have "map (\<lambda>e. (se_key e, entry_id e, se_fingerprint e)) (replace_entry c es) =
      map (\<lambda>e. (se_key e, entry_id e, se_fingerprint e)) es"
    unfolding replace_entry_def by (rule map_map_where) (simp add: entry_id_def)
  ultimately show ?thesis
    using m w [unfolded kept] storable unfolding pg_update_write_def entries_mirrored_def
    by (simp add: Let_def change_sets ids replaced repository_rows_def)
qed

lemma mirrored_update:
  assumes m: "entries_mirrored es db s" and storable: "cs_storable c"
    and later: "\<And>u. cst_get s (cs_id c) = Some u \<Longrightarrow> cs_version u = expected \<Longrightarrow> cs_succeeds u c"
  shows "fst (pg_update c expected db) = fst (cst_update c expected s) \<and>
    (\<exists>es'. entries_mirrored es' (snd (pg_update c expected db)) (snd (cst_update c expected s)))"
proof (cases "find (\<lambda>e. entry_id e = cs_id c) es")
  case None
  with m show ?thesis
    by (auto simp: pg_update_def pg_update_read_def cst_update_def entries_mirrored_def find_map map_of_find)
next
  case (Some e)
  from find_SomeD [OF this] have e: "e \<in> set es" "entry_id e = cs_id c" by auto
  have get: "dict_get (cst_items s) (cs_id c) = Some (se_change_set e)"
    and row: "find (\<lambda>row. csr_id row = cs_id c) (db_change_sets db) = Some (entry_row e)"
    using Some m by (simp_all add: entries_mirrored_def find_map map_of_find)
  show ?thesis
  proof (cases "cs_version (se_change_set e) = expected")
    case False
    with get row m show ?thesis by (auto simp: pg_update_def pg_update_read_def cst_update_def)
  next
    case True
    then have "cs_succeeds (se_change_set e) c" using later get by (simp add: cst_get_def)
    from mirrored_update_write [OF m storable e this] True get row show ?thesis
      by (auto simp: pg_update_def pg_update_read_def cst_update_def)
  qed
qed

lemma distinct_Pair: "distinct (map (Pair a) xs) = distinct xs"
  by (induction xs) auto

lemma mirrored_add:
  assumes m: "entries_mirrored es db s" and storable: "cs_storable c" and new: "cst_get s (cs_id c) = None"
  shows "(fst (pg_add c k f db) = Inr ()) = (fst (cst_add c k f s) = Inr ()) \<and>
    (\<exists>es'. entries_mirrored es' (snd (pg_add c k f db)) (snd (cst_add c k f s)))"
proof -
  have unused: "\<forall>e \<in> set es. entry_id e \<noteq> cs_id c"
    using m new by (auto simp: entries_mirrored_def cst_get_def map_of_eq_None_iff image_iff)
  have keys: "(dict_get (cst_keys s) k \<noteq> None) = (\<exists>e \<in> set es. se_key e = k)"
    using m by (auto simp: entries_mirrored_def map_of_eq_None_iff image_iff)
  have own: "map crr_key (repository_rows c) = map (Pair (cs_id c)) (map rd_repository_id (cs_repositories c))"
    by (simp add: repository_rows_def)
  have "distinct (map crr_key (repository_rows c))"
    unfolding own distinct_Pair using storable by (simp add: cs_storable_def cs_wf_def)
  moreover have "crr_key ` set (db_repositories db) \<inter> crr_key ` set (repository_rows c) = {}"
    using m unused by (auto simp: entries_mirrored_def repository_rows_def entry_id_def)
  ultimately have rows: "distinct (map crr_key (db_repositories db @ repository_rows c))"
    using m by (auto simp: entries_mirrored_def)
  show ?thesis
  proof (cases "\<exists>e \<in> set es. se_key e = k")
    case True
    with keys m show ?thesis by (auto simp: pg_add_def cst_add_def entries_mirrored_def)
  next
    case False
    define e where "e = \<lparr>se_change_set = c, se_key = k, se_fingerprint = f\<rparr>"
    have e [simp]: "entry_id e = cs_id c" "entry_row e = change_set_row c k f" "se_change_set e = c"
      "se_key e = k" "se_fingerprint e = f"
      by (simp_all add: e_def entry_id_def entry_row_def)
    have "pg_add c k f db = (Inr (), db\<lparr>db_change_sets := db_change_sets db @ [entry_row e],
        db_repositories := db_repositories db @ repository_rows c\<rparr>)"
      using m False unused rows by (auto simp: pg_add_def entries_mirrored_def)
    moreover have "cst_add c k f s = (Inr (), s\<lparr>cst_items := cst_items s @ [(entry_id e, c)],
        cst_keys := cst_keys s @ [(k, entry_id e, f)]\<rparr>)"
    proof -
      have "cs_id c \<notin> fst ` set (cst_items s)" "k \<notin> fst ` set (cst_keys s)"
        using m False unused by (auto simp: entries_mirrored_def)
      then show ?thesis using keys False by (simp add: cst_add_def dict_set_new)
    qed
    moreover have "cs_id c \<notin> entry_id ` set es" "k \<notin> se_key ` set es" using unused False by auto
    then have "entries_mirrored (es @ [e]) (db\<lparr>db_change_sets := db_change_sets db @ [entry_row e],
        db_repositories := db_repositories db @ repository_rows c\<rparr>)
      (s\<lparr>cst_items := cst_items s @ [(entry_id e, c)], cst_keys := cst_keys s @ [(k, entry_id e, f)]\<rparr>)"
      using m rows storable by (simp add: entries_mirrored_def Un_commute)
    ultimately show ?thesis by auto
  qed
qed

subsection \<open>Runs of both stores\<close>

text \<open>
  The same calls made to both stores, one after the other: new ChangeSets are added, and an
  update writes the outcome of a step of the ChangeSet it was read from, or a stale one.
\<close>

definition empty_db :: delivery_db where
  "empty_db = \<lparr>db_change_sets = [], db_repositories = []\<rparr>"

definition empty_store :: change_set_store where
  "empty_store = \<lparr>cst_items = [], cst_keys = []\<rparr>"

inductive serial_run :: "delivery_db \<Rightarrow> change_set_store \<Rightarrow> bool" where
  start: "serial_run empty_db empty_store"
| add: "serial_run db s \<Longrightarrow> cs_reachable c \<Longrightarrow> cs_times_ok c \<Longrightarrow> cst_get s (cs_id c) = None \<Longrightarrow>
     serial_run (snd (pg_add c k f db)) (snd (cst_add c k f s))"
| update: "serial_run db s \<Longrightarrow> cs_reachable c \<Longrightarrow> cs_times_ok c \<Longrightarrow>
     (\<And>u. cst_get s (cs_id c) = Some u \<Longrightarrow> cs_version u = expected \<Longrightarrow> cs_step u c) \<Longrightarrow>
     serial_run (snd (pg_update c expected db)) (snd (cst_update c expected s))"

lemma serial_run_mirrored: "serial_run db s \<Longrightarrow> \<exists>es. entries_mirrored es db s"
proof (induction rule: serial_run.induct)
  case start
  have "entries_mirrored [] empty_db empty_store"
    by (simp add: entries_mirrored_def empty_db_def empty_store_def)
  then show ?case by blast
next
  case (add db s c k f)
  then obtain es where "entries_mirrored es db s" by blast
  from mirrored_add [OF this cs_reachable_storable [OF add(2,3)] add(4)] show ?case by blast
next
  case (update db s c expected)
  then obtain es where es: "entries_mirrored es db s" by blast
  from mirrored_update [OF es cs_reachable_storable [OF update(2,3)], of expected] update(4)
  show ?case using cs_step_succeeds by blast
qed

subsection \<open>Writes that overlap\<close>

lemma write_candidates_keys:
  "\<forall>r \<in> set rs. \<exists>l \<in> set loaded. crr_repository_id l = rd_repository_id r \<Longrightarrow>
     map crr_key (foldl (write_candidate c loaded) rows rs) = map crr_key rows"
proof (induction rs arbitrary: rows)
  case (Cons r rs)
  then have "find (\<lambda>l. crr_repository_id l = rd_repository_id r) loaded \<noteq> None"
    by (auto simp: find_None_iff)
  then have "map crr_key (write_candidate c loaded rows r) = map crr_key rows"
    by (auto simp: write_candidate_def map_map_where)
  with Cons show ?case by simp
qed simp

lemma pg_update_write_existing:
  assumes "\<forall>r \<in> set (cs_repositories c). \<exists>l \<in> set (snd loaded). crr_repository_id l = rd_repository_id r"
    and "distinct (map crr_key (db_repositories db))"
  shows "\<exists>db'. pg_update_write c loaded db = (Inr (), db') \<and>
    db_change_sets db' =
      map_where (\<lambda>row. csr_id row = cs_id c) (write_change_set c (fst loaded)) (db_change_sets db) \<and>
    map crr_key (db_repositories db') = map crr_key (db_repositories db)"
  using assms(2) write_candidates_keys [OF assms(1)]
  by (simp add: pg_update_write_def Let_def)

lemma write_change_set_id [simp]: "csr_id (write_change_set c loaded row) = csr_id row"
  by (simp add: write_change_set_def)

subsection \<open>Properties\<close>

text \<open>C25: Every ChangeSet the program can reach survives the database: the row written for it is
  read back as the same ChangeSet, candidates, evidence, recovery plans, decisions and lineage
  included, as long as its clock readings are dates a \<open>datetime\<close> has.\<close>

theorem stored_change_set_reads_back:
  assumes "cs_reachable c" and "cs_times_ok c"
  shows "cs_hydrate (change_set_row c idempotency_key fingerprint) = Inr c"
  by (rule cs_hydrate_row [OF cs_reachable_storable [OF assms]])

lemma sample_times [simp]: "cs_times_ok (sample_set rs s v cursor)"
  by (simp add: cs_times_ok_def sample_set_def initial_revision_def datetime_ok_def)

theorem stored_change_set_reads_back_witness:
  "cs_hydrate (change_set_row (sample_set [sample_merged] CS_DELIVERED 4 1) ''k'' ''f'') =
     Inr (sample_set [sample_merged] CS_DELIVERED 4 1)"
  by (rule stored_change_set_reads_back [OF sample_delivered(1) sample_times])

text \<open>C26: As long as its transactions do not overlap, the Postgres store is the in-memory store:
  after any run of adds and updates made to both, every query gives the same answer (the two
  listings that sort give it in the order of the last update) and an update is accepted by the
  one exactly when it is accepted by the other.\<close>

theorem postgres_refines_memory:
  assumes "serial_run db s"
  shows "pg_get i db = (Inr (cst_get s i), db) \<and>
    pg_get_by_idempotency_key key db = (fst (cst_get_by_idempotency_key key s), db) \<and>
    pg_find_by_candidate repository_id head_sha db =
      Inr (cst_find_by_candidate repository_id head_sha s) \<and>
    pg_find_by_project project_id db =
      Inr (sort_key cs_updated_at (cst_find_by_project project_id s)) \<and>
    pg_list_active db = Inr (sort_key cs_updated_at (cst_list_active s)) \<and>
    (\<exists>loaded. pg_update_read c expected db = Inr loaded) = (fst (cst_update c expected s) = Inr ())"
proof -
  from serial_run_mirrored [OF assms] obtain es where m: "entries_mirrored es db s" by blast
  have "(\<exists>loaded. pg_update_read c expected db = Inr loaded) = (fst (cst_update c expected s) = Inr ())"
    using m by (cases "find (\<lambda>e. entry_id e = cs_id c) es")
      (simp_all add: pg_update_read_def cst_update_def entries_mirrored_def find_map map_of_find)
  then show ?thesis
    using mirrored_get_by_key [OF m] cst_get_by_idempotency_key_ok [OF mirrored_ok [OF m]]
    by (simp add: mirrored_get [OF m] mirrored_find_by_candidate [OF m] mirrored_find_by_project [OF m]
        mirrored_list_active [OF m])
qed

lemma sample_serial_run:
  assumes "cs_reachable (sample_set rs s v cursor)"
  shows "serial_run (snd (pg_add (sample_set rs s v cursor) ''k'' ''f'' empty_db))
    (snd (cst_add (sample_set rs s v cursor) ''k'' ''f'' empty_store))"
  by (rule serial_run.add [OF serial_run.start assms sample_times]) (simp add: cst_get_def empty_store_def)

lemma sample_stored:
  "cst_get (snd (cst_add (sample_set rs s v cursor) ''k'' ''f'' empty_store)) 9 = Some (sample_set rs s v cursor)"
  by (simp add: cst_get_def cst_add_def empty_store_def) (simp add: sample_set_def)

theorem postgres_refines_memory_witness:
  "fst (pg_get 9 (snd (pg_add (sample_set [sample_ready] CS_DELIVERING 3 0) ''k'' ''f'' empty_db))) =
     Inr (Some (sample_set [sample_ready] CS_DELIVERING 3 0))"
  by (simp add: postgres_refines_memory [OF sample_serial_run [OF sample_delivered(2)]] sample_stored)

text \<open>C27: The version check of the Postgres store does not hold off a concurrent writer. Two callers
  that read the same version of a ChangeSet both pass the check before either commits; then both
  updates succeed, and the row that remains is neither's: it has the second caller's payload, and
  the first caller's status if the second left the status as it was. The in-memory store refuses
  the second caller.\<close>

theorem concurrent_postgres_updates_mix:
  assumes "serial_run db s" and u: "cst_get s (cs_id u) = Some u"
    and c: "cs_step u c" "cs_version c \<noteq> cs_version u"
    and d: "cs_step u d" "cs_payload d \<noteq> cs_payload u"
    and same: "map rd_repository_id (cs_repositories c) = map rd_repository_id (cs_repositories u)"
      "map rd_repository_id (cs_repositories d) = map rd_repository_id (cs_repositories u)"
  shows "(\<exists>loaded db1 db2 row.
      pg_update_read c (cs_version u) db = Inr loaded \<and> pg_update_read d (cs_version u) db = Inr loaded \<and>
      pg_update_write c loaded db = (Inr (), db1) \<and> pg_update_write d loaded db1 = (Inr (), db2) \<and>
      find (\<lambda>row. csr_id row = cs_id u) (db_change_sets db2) = Some row \<and>
      csr_payload row = cs_payload d \<and>
      csr_status row = change_set_status_value (if cs_status d = cs_status u then cs_status c else cs_status d)) \<and>
    fst (cst_update d (cs_version u) (snd (cst_update c (cs_version u) s))) =
      Inl (DeliveryConflict ''ChangeSet version changed'')"
proof -
  from serial_run_mirrored [OF assms(1)] obtain es where m: "entries_mirrored es db s" by blast
  obtain e where e: "find (\<lambda>e. entry_id e = cs_id u) es = Some e" "se_change_set e = u"
    using m u by (auto simp: entries_mirrored_def cst_get_def map_of_find)
  have ids: "cs_id c = cs_id u" "cs_id d = cs_id u" using c d cs_step_id by auto
  define rows where "rows = filter (\<lambda>item. crr_change_set_id item = cs_id u) (db_repositories db)"
  have row: "find (\<lambda>row. csr_id row = cs_id u) (db_change_sets db) = Some (entry_row e)"
    using m e by (simp add: entries_mirrored_def find_map)
  then have read: "pg_update_read c (cs_version u) db = Inr (entry_row e, rows)"
    "pg_update_read d (cs_version u) db = Inr (entry_row e, rows)"
    by (simp_all add: pg_update_read_def ids rows_def e)
  have loaded: "\<exists>l \<in> set rows. crr_repository_id l = rd_repository_id r" if "r \<in> set (cs_repositories u)" for r
    using m e(2) find_SomeD [OF e(1)] that
    by (intro bexI [of _ "repository_row u r"]) (auto simp: rows_def entries_mirrored_def repository_rows_def)
  have all: "\<forall>r \<in> set (cs_repositories x). \<exists>l \<in> set rows. crr_repository_id l = rd_repository_id r"
    if "map rd_repository_id (cs_repositories x) = map rd_repository_id (cs_repositories u)" for x
    using arg_cong [OF that, of set] loaded by (auto simp: image_iff set_eq_iff) metis
  have keys: "distinct (map crr_key (db_repositories db))" using m by (simp add: entries_mirrored_def)
  obtain db1 where db1: "pg_update_write c (entry_row e, rows) db = (Inr (), db1)"
    "db_change_sets db1 = map_where (\<lambda>row. csr_id row = cs_id u) (write_change_set c (entry_row e)) (db_change_sets db)"
    "map crr_key (db_repositories db1) = map crr_key (db_repositories db)"
    using pg_update_write_existing [of c "(entry_row e, rows)" db] all [OF same(1)] keys by (auto simp: ids)
  obtain db2 where db2: "pg_update_write d (entry_row e, rows) db1 = (Inr (), db2)"
    "db_change_sets db2 = map_where (\<lambda>row. csr_id row = cs_id u) (write_change_set d (entry_row e)) (db_change_sets db1)"
    using pg_update_write_existing [of d "(entry_row e, rows)" db1] all [OF same(2)] keys
    by (auto simp: ids db1(3))
  define final where "final = write_change_set d (entry_row e) (write_change_set c (entry_row e) (entry_row e))"
  have "find (\<lambda>row. csr_id row = cs_id u) (db_change_sets db2) = Some final"
    by (simp add: db2(2) db1(2) find_own_map_where row final_def)
  moreover have "csr_payload final = cs_payload d"
    using d(2) by (simp add: final_def write_change_set_def col_def entry_row_def e change_set_row_def)
  moreover have "csr_status final = change_set_status_value (if cs_status d = cs_status u then cs_status c else cs_status d)"
    by (auto simp: final_def write_change_set_def col_def e CS.value_eq_iff)
  moreover have "fst (cst_update d (cs_version u) (snd (cst_update c (cs_version u) s))) =
      Inl (DeliveryConflict ''ChangeSet version changed'')"
    using u c(2) by (simp add: cst_get_def cst_update_def ids)
  ultimately show ?thesis using read db1(1) db2(1) by blast
qed

definition sample_db :: delivery_db where
  "sample_db = snd (pg_add (sample_set [sample_ready] CS_DELIVERING 3 0) ''k'' ''f'' empty_db)"

text \<open>The merge is observed while a governance decision is recorded: delivered, and not merged.\<close>

theorem concurrent_postgres_updates_mix_witness:
  "\<exists>loaded db1 db2 row.
     pg_update_read (sample_set [sample_merged] CS_DELIVERED 4 1) 3 sample_db = Inr loaded \<and>
     pg_update_read governed_set 3 sample_db = Inr loaded \<and>
     pg_update_write (sample_set [sample_merged] CS_DELIVERED 4 1) loaded sample_db = (Inr (), db1) \<and>
     pg_update_write governed_set loaded db1 = (Inr (), db2) \<and>
     find (\<lambda>row. csr_id row = 9) (db_change_sets db2) = Some row \<and>
     csr_payload row = cs_payload governed_set \<and> csr_status row = ''delivered'' \<and>
     map rd_status (cs_repositories governed_set) = [RD_READY_TO_MERGE]"
proof -
  let ?u = "sample_set [sample_ready] CS_DELIVERING 3 0"
  let ?c = "sample_set [sample_merged] CS_DELIVERED 4 1"
  have id: "cs_id ?u = 9" "cs_version ?u = 3" "cs_status ?u = CS_DELIVERING" "cs_status ?c = CS_DELIVERED"
    "cs_status governed_set = CS_DELIVERING" "map rd_status (cs_repositories governed_set) = [RD_READY_TO_MERGE]"
    by (simp_all add: sample_set_def governed_set_def)
  have payload: "cs_payload governed_set \<noteq> cs_payload ?u"
    by (simp add: cs_payload_def governed_set_def sample_set_def)
  have version: "cs_version ?c \<noteq> cs_version ?u" by (simp add: sample_set_def)
  have get: "cst_get (snd (cst_add ?u ''k'' ''f'' empty_store)) (cs_id ?u) = Some ?u"
    unfolding id by (rule sample_stored)
  have same: "map rd_repository_id (cs_repositories ?c) = map rd_repository_id (cs_repositories ?u)"
    "map rd_repository_id (cs_repositories governed_set) = map rd_repository_id (cs_repositories ?u)"
    by (simp_all add: sample_set_def governed_set_def)
  show ?thesis
    using conjunct1 [OF concurrent_postgres_updates_mix [OF sample_serial_run [OF sample_delivered(2)] get
          sample_merge_step version sample_govern_step payload same]]
    by (simp add: id sample_db_def)
qed

end
