(* ===== verification/Agent_Contracts.thy ===== *)
theory Agent_Contracts
  imports Identifiers
begin

text \<open>
  The agent principals the services ask for permissions
  (\<open>modules/agent_directory/contracts.py\<close>). The directory itself is behind the port
  \<open>AgentPrincipalReader\<close>: an argument of the operations that consult it.
\<close>

datatype agent_role =
    AR_ORGANIZATION_LEADER
  | AR_REPOSITORY_LEADER
  | AR_WORKER

fun agent_role_value :: "agent_role \<Rightarrow> string" where
  "agent_role_value AR_ORGANIZATION_LEADER = ''organization_leader''"
| "agent_role_value AR_REPOSITORY_LEADER = ''repository_leader''"
| "agent_role_value AR_WORKER = ''worker''"

definition agent_role_members :: "agent_role list" where
  "agent_role_members =
     [AR_ORGANIZATION_LEADER, AR_REPOSITORY_LEADER, AR_WORKER]"

interpretation AR: str_enum agent_role_value agent_role_members
proof
  show "x \<in> set agent_role_members" for x
    by (cases x) (simp_all add: agent_role_members_def)
qed (simp add: agent_role_members_def)

datatype agent_principal_status =
    AS_ACTIVE
  | AS_DISABLED

fun agent_principal_status_value :: "agent_principal_status \<Rightarrow> string" where
  "agent_principal_status_value AS_ACTIVE = ''active''"
| "agent_principal_status_value AS_DISABLED = ''disabled''"

definition agent_principal_status_members :: "agent_principal_status list" where
  "agent_principal_status_members =
     [AS_ACTIVE, AS_DISABLED]"

interpretation AS: str_enum agent_principal_status_value agent_principal_status_members
proof
  show "x \<in> set agent_principal_status_members" for x
    by (cases x) (simp_all add: agent_principal_status_members_def)
qed (simp add: agent_principal_status_members_def)

record agent_principal_view =
  apv_id :: uuid
  apv_organization_id :: uuid
  apv_role :: agent_role
  apv_leader_agent_id :: "uuid option"
  apv_repository_id :: "uuid option"
  apv_responsibility_paths :: "string list"
  apv_agentteams_resource_name :: string
  apv_status :: agent_principal_status

end
