(* ===== verification/Task_Contracts.thy ===== *)
theory Task_Contracts
  imports Identifiers Json_Values
begin

text \<open>
  The vocabulary of task orchestration (\<open>modules/task_orchestration/contracts.py\<close>): status
  enumerations with their stored values, the declared database change of a task, the evidence a
  run leaves behind, and the views of tasks and execution plans.
\<close>

subsection \<open>Enumerations and views\<close>

datatype task_status =
    TS_ASSIGNED
  | TS_IN_PROGRESS
  | TS_BLOCKED
  | TS_SUCCEEDED
  | TS_FAILED
  | TS_CANCELLED
  | TS_SUPERSEDED

fun task_status_value :: "task_status \<Rightarrow> string" where
  "task_status_value TS_ASSIGNED = ''assigned''"
| "task_status_value TS_IN_PROGRESS = ''in_progress''"
| "task_status_value TS_BLOCKED = ''blocked''"
| "task_status_value TS_SUCCEEDED = ''succeeded''"
| "task_status_value TS_FAILED = ''failed''"
| "task_status_value TS_CANCELLED = ''cancelled''"
| "task_status_value TS_SUPERSEDED = ''superseded''"

definition task_status_members :: "task_status list" where
  "task_status_members =
     [TS_ASSIGNED, TS_IN_PROGRESS, TS_BLOCKED, TS_SUCCEEDED, TS_FAILED, TS_CANCELLED,
      TS_SUPERSEDED]"

interpretation TS: str_enum task_status_value task_status_members
proof
  show "x \<in> set task_status_members" for x
    by (cases x) (simp_all add: task_status_members_def)
qed (simp add: task_status_members_def)

datatype task_origin =
    TO_PLANNED
  | TO_REWORK

fun task_origin_value :: "task_origin \<Rightarrow> string" where
  "task_origin_value TO_PLANNED = ''planned''"
| "task_origin_value TO_REWORK = ''rework''"

definition task_origin_members :: "task_origin list" where
  "task_origin_members =
     [TO_PLANNED, TO_REWORK]"

interpretation TO: str_enum task_origin_value task_origin_members
proof
  show "x \<in> set task_origin_members" for x
    by (cases x) (simp_all add: task_origin_members_def)
qed (simp add: task_origin_members_def)

datatype database_change_kind =
    DK_SCHEMA
  | DK_MIGRATION
  | DK_BACKFILL
  | DK_QUERY
  | DK_DATA

fun database_change_kind_value :: "database_change_kind \<Rightarrow> string" where
  "database_change_kind_value DK_SCHEMA = ''schema''"
| "database_change_kind_value DK_MIGRATION = ''migration''"
| "database_change_kind_value DK_BACKFILL = ''backfill''"
| "database_change_kind_value DK_QUERY = ''query''"
| "database_change_kind_value DK_DATA = ''data''"

definition database_change_kind_members :: "database_change_kind list" where
  "database_change_kind_members =
     [DK_SCHEMA, DK_MIGRATION, DK_BACKFILL, DK_QUERY, DK_DATA]"

interpretation DK: str_enum database_change_kind_value database_change_kind_members
proof
  show "x \<in> set database_change_kind_members" for x
    by (cases x) (simp_all add: database_change_kind_members_def)
qed (simp add: database_change_kind_members_def)

record database_change_requirement =
  dcr_declared :: bool
  dcr_required :: bool
  dcr_change_kinds :: "database_change_kind list"
  dcr_affected_tables :: "string list"
  dcr_migration_required :: bool
  dcr_backfill_required :: bool
  dcr_required_checks :: "string list"

record task_test_result_view =
  ttr_command :: string
  ttr_exit_code :: int
  ttr_summary :: string

record database_change_evidence =
  dce_migration_files :: "string list"
  dce_backfill_files :: "string list"
  dce_affected_tables :: "string list"
  dce_checks :: "task_test_result_view list"

record task_evidence_view =
  tev_commit_sha :: "string option"
  tev_run_id :: "uuid option"
  tev_changed_files :: "string list"
  tev_base_sha :: "string option"
  tev_workspace_path :: "string option"
  tev_summary_text :: "string option"
  tev_blockers :: "string list"
  tev_test_command :: "string option"
  tev_test_results :: "task_test_result_view list"
  tev_artifact_count :: int
  tev_database_change :: "database_change_evidence option"

record task_view =
  tkv_id :: uuid
  tkv_organization_id :: uuid
  tkv_project_id :: uuid
  tkv_repository_id :: uuid
  tkv_parent_task_id :: "uuid option"
  tkv_assigned_by_agent_id :: uuid
  tkv_assignee_agent_id :: uuid
  tkv_title :: string
  tkv_instruction :: string
  tkv_acceptance :: "string list"
  tkv_status :: task_status
  tkv_result_summary :: "string option"
  tkv_version :: int
  tkv_origin :: task_origin
  tkv_evidence :: "task_evidence_view option"
  tkv_database_change :: database_change_requirement

datatype execution_plan_status =
    EP_IN_PROGRESS
  | EP_COMPLETED
  | EP_FAILED

fun execution_plan_status_value :: "execution_plan_status \<Rightarrow> string" where
  "execution_plan_status_value EP_IN_PROGRESS = ''in_progress''"
| "execution_plan_status_value EP_COMPLETED = ''completed''"
| "execution_plan_status_value EP_FAILED = ''failed''"

definition execution_plan_status_members :: "execution_plan_status list" where
  "execution_plan_status_members =
     [EP_IN_PROGRESS, EP_COMPLETED, EP_FAILED]"

interpretation EP: str_enum execution_plan_status_value execution_plan_status_members
proof
  show "x \<in> set execution_plan_status_members" for x
    by (cases x) (simp_all add: execution_plan_status_members_def)
qed (simp add: execution_plan_status_members_def)

record planned_repository_task_view =
  prv_repository_id :: uuid
  prv_title :: string
  prv_instruction :: string
  prv_acceptance :: "string list"
  prv_leader_task_id :: "uuid option"
  prv_tests :: "string list"
  prv_test_paths :: "string list"
  prv_depends_on :: "uuid list"

record append_plan_task_input =
  api_repository_id :: uuid
  api_title :: string
  api_instruction :: string
  api_acceptance :: "string list"
  api_depends_on :: "uuid list"
  api_tests :: "string list"
  api_test_paths :: "string list"

record append_plan_tasks_command =
  apc_plan_id :: uuid
  apc_expected_plan_version :: int
  apc_actor_agent_id :: uuid
  apc_reason :: string
  apc_items :: "append_plan_task_input list"
  apc_mode :: string

record dynamic_plan_revision_view =
  dpr_id :: uuid
  dpr_plan_id :: uuid
  dpr_revision :: int
  dpr_base_plan_version :: int
  dpr_result_plan_version :: "int option"
  dpr_actor_agent_id :: uuid
  dpr_reason :: string
  dpr_status :: string
  dpr_appended_repository_ids :: "uuid list"
  dpr_previous_batches :: "uuid list list"
  dpr_new_batches :: "uuid list list"
  dpr_created_at :: datetime

record delivery_refusal_view =
  drv_reason :: string
  drv_batch_index :: int
  drv_repository_id :: "uuid option"
  drv_task_id :: "uuid option"
  drv_at :: datetime

record execution_plan_view =
  epv_id :: uuid
  epv_organization_id :: uuid
  epv_project_id :: uuid
  epv_created_by_agent_id :: uuid
  epv_status :: execution_plan_status
  epv_current_batch_index :: int
  epv_batches :: "planned_repository_task_view list list"
  epv_delivery_refusal :: "delivery_refusal_view option"

subsection \<open>The declared database change\<close>

definition no_database_change :: database_change_requirement where
  "no_database_change =
     \<lparr>dcr_declared = False, dcr_required = False, dcr_change_kinds = [], dcr_affected_tables = [],
      dcr_migration_required = False, dcr_backfill_required = False, dcr_required_checks = []\<rparr>"

definition dcr_post_init :: "database_change_requirement \<Rightarrow> database_change_requirement result" where
  "dcr_post_init d =
     (if dcr_required d \<and> \<not> dcr_declared d
      then Inl (ValueError ''required database change must be explicitly declared'')
      else if \<not> dcr_required d \<and>
        (dcr_change_kinds d \<noteq> [] \<or> dcr_affected_tables d \<noteq> [] \<or> dcr_migration_required d \<or>
         dcr_backfill_required d \<or> dcr_required_checks d \<noteq> [])
      then Inl (ValueError ''database change details require required=true'')
      else if dcr_required d \<and> dcr_required_checks d = []
      then Inl (ValueError ''required database change needs at least one verification check'')
      else if \<exists>v \<in> set (dcr_affected_tables d @ dcr_required_checks d). blank v
      then Inl (ValueError ''database table and check names must be non-empty'')
      else if \<not> distinct (dcr_change_kinds d)
      then Inl (ValueError ''database change kinds must be unique'')
      else if \<not> distinct (dcr_affected_tables d)
      then Inl (ValueError ''affected database tables must be unique'')
      else if \<not> distinct (dcr_required_checks d)
      then Inl (ValueError ''required database checks must be unique'')
      else Inr d)"

lemma dcr_post_init_default [simp]: "dcr_post_init no_database_change = Inr no_database_change"
  by (simp add: dcr_post_init_def no_database_change_def)

subsection \<open>Verified evidence\<close>

definition tev_verified :: "task_evidence_view \<Rightarrow> bool" where
  "tev_verified e \<longleftrightarrow>
     tev_test_results e \<noteq> [] \<and> (\<forall>r \<in> set (tev_test_results e). ttr_exit_code r = 0)"

end
