(* ===== verification/Delivery_Governance.thy ===== *)
theory Delivery_Governance
  imports Delivery_Gate Agent_Contracts Task_Contracts
begin

text \<open>
  The services in front of \<open>DeliveryService\<close> (\<open>application.py\<close>): \<open>DeliveryGovernanceService\<close>
  records one leader's decision on one candidate, \<open>DeliveryRollbackService\<close> turns a request to
  roll a whole ChangeSet back into decisions and a recovery plan, and \<open>DeliveryArchiveService\<close>
  archives a delivery that has ended. The agent directory and the reader of execution plans are
  ports: arguments of the model. An argument \<open>env\<close> is what other tasks did between two accesses
  to the store.
\<close>

subsection \<open>What the services share\<close>

definition delivery_change_set_key :: "uuid \<Rightarrow> string" where
  "delivery_change_set_key delivery_id = ''execution-plan:'' @ uuid_str delivery_id @ '':delivery''"

definition view_latest_decision ::
    "change_set_view \<Rightarrow> uuid \<Rightarrow> string \<Rightarrow> governance_decision_view option" where
  "view_latest_decision c repository_id head_sha =
     find (\<lambda>g. gdv_repository_id g = repository_id \<and> gdv_head_sha g = head_sha)
       (rev (csv_governance_decisions c))"

text \<open>The ChangeSet of a delivery, which must be the one the command names.\<close>

definition delivery_change_set :: "uuid \<Rightarrow> uuid \<Rightarrow> change_set_view delivery_proc" where
  "delivery_change_set delivery_id change_set_id =
     pbind (ds_get_by_idempotency_key (delivery_change_set_key delivery_id)) (\<lambda>found.
     case found of
       None \<Rightarrow> praise (DeliveryNotFound (''delivery has no ChangeSet: '' @ uuid_str delivery_id))
     | Some c \<Rightarrow>
         if csv_id c \<noteq> change_set_id
         then praise (DeliveryConflict ''change set does not belong to this delivery'')
         else preturn c)"

subsection \<open>Governance decisions\<close>

definition governance_actor ::
    "(uuid \<Rightarrow> agent_principal_view option) \<Rightarrow> record_governance_decision_command \<Rightarrow> change_set_view
     \<Rightarrow> agent_principal_view result" where
  "governance_actor directory command c =
     (case directory (rgd_decided_by_agent_id command) of
        None \<Rightarrow> Inl (DeliveryDenied ''governance decisions require an active agent principal'')
      | Some actor \<Rightarrow>
          if apv_status actor \<noteq> AS_ACTIVE
          then Inl (DeliveryDenied ''governance decisions require an active agent principal'')
          else if apv_organization_id actor \<noteq> csv_organization_id c
          then Inl (DeliveryDenied ''governance agent belongs to another organization'')
          else if apv_role actor = AR_ORGANIZATION_LEADER then Inr actor
          else if apv_role actor = AR_REPOSITORY_LEADER \<and>
                  apv_repository_id actor = Some (rgd_repository_id command) then Inr actor
          else Inl (DeliveryDenied ''governance decisions require a leader for this repository''))"

definition same_decision ::
    "governance_decision_view \<Rightarrow> record_governance_decision_command \<Rightarrow> bool" where
  "same_decision existing command \<longleftrightarrow>
     gdv_decision existing = rgd_decision command \<and>
     gdv_decided_by_agent_id existing = rgd_decided_by_agent_id command \<and>
     gdv_reason existing = py_strip (rgd_reason command)"

definition governance_recorded_event ::
    "uuid \<Rightarrow> agent_principal_view \<Rightarrow> change_set_view \<Rightarrow> record_governance_decision_command \<Rightarrow> string
     \<Rightarrow> string \<Rightarrow> (nat \<Rightarrow> uuid) \<Rightarrow> datetime \<Rightarrow> event_envelope" where
  "governance_recorded_event delivery_id actor updated command head_sha idempotency_key fresh now =
     new_event ''DeliveryGovernanceDecisionRecorded'' AT_AGENT (uuid_str (apv_id actor)) ''ChangeSet''
       (csv_id updated) (csv_version updated)
       (JObject [(''deliveryId'', JStr (uuid_str delivery_id)),
          (''repositoryId'', JStr (uuid_str (rgd_repository_id command))),
          (''headSha'', JStr head_sha),
          (''decision'', JStr (governance_decision_kind_value (rgd_decision command))),
          (''reason'', JStr (py_strip (rgd_reason command))),
          (''idempotencyKey'', JStr (py_strip idempotency_key))])
       (fresh 0) (fresh 1) now (csv_organization_id updated) (csv_project_id updated)"

definition governance_record ::
    "(uuid \<Rightarrow> agent_principal_view option) \<Rightarrow> uuid \<Rightarrow> record_governance_decision_command \<Rightarrow> string
     \<Rightarrow> uuid \<Rightarrow> (nat \<Rightarrow> uuid) \<Rightarrow> datetime \<Rightarrow> (delivery_state \<Rightarrow> delivery_state)
     \<Rightarrow> (delivery_state \<Rightarrow> delivery_state) \<Rightarrow> governance_decision_view delivery_proc" where
  "governance_record directory delivery_id command idempotency_key i fresh now env env' =
     (if py_strip idempotency_key = [] then praise (ValueError ''idempotency_key is required'')
      else pbind (delivery_change_set delivery_id (rgd_change_set_id command)) (\<lambda>c.
           pbind (plift (governance_actor directory command c)) (\<lambda>actor.
           let head_sha = py_lower (py_strip (rgd_head_sha command));
               record = pbind (pwait env) (\<lambda>_.
                 pbind (ds_record_governance_decision command i now env') (\<lambda>updated.
                 case view_latest_decision updated (rgd_repository_id command) head_sha of
                   None \<Rightarrow> praise (DeliveryNotFound ''governance decision was not recorded'')
                 | Some recorded \<Rightarrow>
                     pbind (append_event (governance_recorded_event delivery_id actor updated command
                              head_sha idempotency_key fresh now)) (\<lambda>_. preturn recorded)))
           in case view_latest_decision c (rgd_repository_id command) head_sha of
                Some replayed \<Rightarrow> if same_decision replayed command then preturn replayed else record
              | None \<Rightarrow> record)))"

subsection \<open>Rolling a ChangeSet back\<close>

definition rollback_actor ::
    "(uuid \<Rightarrow> agent_principal_view option) \<Rightarrow> request_change_set_rollback_command \<Rightarrow> change_set_view
     \<Rightarrow> agent_principal_view result" where
  "rollback_actor directory command c =
     (case directory (rcb_requested_by_agent_id command) of
        None \<Rightarrow> Inl (DeliveryDenied ''rollback requires an active agent principal'')
      | Some actor \<Rightarrow>
          if apv_status actor \<noteq> AS_ACTIVE
          then Inl (DeliveryDenied ''rollback requires an active agent principal'')
          else if apv_organization_id actor \<noteq> csv_organization_id c
          then Inl (DeliveryDenied ''rollback agent belongs to another organization'')
          else if apv_role actor \<noteq> AR_ORGANIZATION_LEADER
          then Inl (DeliveryDenied ''whole-ChangeSet rollback requires an organization leader'')
          else Inr actor)"

definition plan_incomplete :: "recovery_plan_view \<Rightarrow> bool" where
  "plan_incomplete plan \<longleftrightarrow> (\<exists>a \<in> set (rpv_actions plan). rav_status a \<notin> {RA_SUCCEEDED, RA_SKIPPED})"

text \<open>\<open>existing\<close>: the latest recovery plan, where there is one.\<close>

definition latest_plan :: "change_set_view \<Rightarrow> recovery_plan_view option" where
  "latest_plan c =
     (if csv_recovery_plans c = [] then None else Some (last (csv_recovery_plans c)))"

definition rollback_replaying :: "change_set_view \<Rightarrow> string \<Rightarrow> bool" where
  "rollback_replaying c reason \<longleftrightarrow>
     (case latest_plan c of
        None \<Rightarrow> False
      | Some existing \<Rightarrow> rpv_trigger existing = RT_OPERATOR_REQUESTED \<and> rpv_reason existing = reason)"

definition rollback_command ::
    "uuid \<Rightarrow> string \<Rightarrow> uuid \<Rightarrow> repository_delivery_view \<Rightarrow> record_governance_decision_command" where
  "rollback_command actor_id reason change_set_id candidate =
     \<lparr>rgd_change_set_id = change_set_id, rgd_repository_id = rdv_repository_id candidate,
      rgd_head_sha = py_lower (py_strip (rdv_commit_sha candidate)),
      rgd_decision = GD_ROLLBACK_REQUIRED, rgd_decided_by_agent_id = actor_id,
      rgd_reason = reason\<rparr>"

definition rollback_recorded :: "uuid \<Rightarrow> string \<Rightarrow> change_set_view \<Rightarrow> repository_delivery_view \<Rightarrow> bool" where
  "rollback_recorded actor_id reason c candidate \<longleftrightarrow>
     (case view_latest_decision c (rdv_repository_id candidate)
             (py_lower (py_strip (rdv_commit_sha candidate))) of
        None \<Rightarrow> False
      | Some recorded \<Rightarrow> gdv_decision recorded = GD_ROLLBACK_REQUIRED \<and>
          gdv_decided_by_agent_id recorded = actor_id \<and> gdv_reason recorded = reason)"

text \<open>
  The loop over the candidates: the latest view, and whether a decision was written. The \<open>k\<close>-th
  call of \<open>record_governance_decision\<close> uses the \<open>k\<close>-th fresh identifier and environments.
\<close>

fun rollback_decisions ::
    "uuid \<Rightarrow> string \<Rightarrow> (nat \<Rightarrow> uuid) \<Rightarrow> datetime \<Rightarrow> (nat \<Rightarrow> delivery_state \<Rightarrow> delivery_state)
     \<Rightarrow> (nat \<Rightarrow> delivery_state \<Rightarrow> delivery_state) \<Rightarrow> nat \<Rightarrow> repository_delivery_view list
     \<Rightarrow> change_set_view \<Rightarrow> bool \<Rightarrow> (change_set_view \<times> bool) delivery_proc" where
  "rollback_decisions actor_id reason fresh now env env' k [] c wrote = preturn (c, wrote)"
| "rollback_decisions actor_id reason fresh now env env' k (candidate # later) c wrote =
     (if rollback_recorded actor_id reason c candidate
      then rollback_decisions actor_id reason fresh now env env' k later c wrote
      else pbind (pwait (env k)) (\<lambda>_.
           pbind (ds_record_governance_decision
                    (rollback_command actor_id reason (csv_id c) candidate) (fresh k) now (env' k)) (\<lambda>c'.
           rollback_decisions actor_id reason fresh now env env' (Suc k) later c' True)))"

definition rollback_recovery_command :: "uuid \<Rightarrow> string \<Rightarrow> plan_recovery_command" where
  "rollback_recovery_command change_set_id reason =
     \<lparr>prc_change_set_id = change_set_id, prc_trigger = RT_OPERATOR_REQUESTED, prc_reason = reason,
      prc_repository_id = None, prc_run_id = None, prc_native_session_id = None\<rparr>"

definition rollback_requested_event ::
    "uuid \<Rightarrow> agent_principal_view \<Rightarrow> change_set_view \<Rightarrow> recovery_plan_view
     \<Rightarrow> repository_delivery_view list \<Rightarrow> string \<Rightarrow> string \<Rightarrow> uuid \<Rightarrow> uuid \<Rightarrow> datetime \<Rightarrow> event_envelope" where
  "rollback_requested_event delivery_id actor c plan candidates reason idempotency_key
     correlation_id event_id now =
     new_event ''DeliveryRollbackRequested'' AT_AGENT (uuid_str (apv_id actor)) ''ChangeSet''
       (csv_id c) (csv_version c)
       (JObject [(''deliveryId'', JStr (uuid_str delivery_id)),
          (''recoveryPlanId'', JStr (uuid_str (rpv_id plan))),
          (''repositoryIds'', JList (map (\<lambda>r. JStr (uuid_str (rdv_repository_id r))) candidates)),
          (''reason'', JStr reason),
          (''idempotencyKey'', JStr (py_strip idempotency_key))])
       correlation_id event_id now (csv_organization_id c) (csv_project_id c)"

text \<open>
  Identifiers a request makes: those of decisions, of the plan, of its actions and of the event.
  Environments: around each decision, and around the plan.
\<close>

record rollback_world =
  rw_decision_ids :: "nat \<Rightarrow> uuid"
  rw_plan_id :: uuid
  rw_action_ids :: "nat \<Rightarrow> uuid"
  rw_correlation_id :: uuid
  rw_event_id :: uuid
  rw_now :: datetime
  rw_before_decision :: "nat \<Rightarrow> delivery_state \<Rightarrow> delivery_state"
  rw_during_decision :: "nat \<Rightarrow> delivery_state \<Rightarrow> delivery_state"
  rw_before_plan :: "delivery_state \<Rightarrow> delivery_state"
  rw_during_plan :: "delivery_state \<Rightarrow> delivery_state"

definition rollback_plan ::
    "bool \<Rightarrow> string \<Rightarrow> rollback_world \<Rightarrow> change_set_view
     \<Rightarrow> (change_set_view \<times> recovery_plan_view) delivery_proc" where
  "rollback_plan replaying reason w c =
     (let latest = (\<lambda>c. case latest_plan c of
            None \<Rightarrow> praise (IndexError ''tuple index out of range'') | Some plan \<Rightarrow> preturn (c, plan))
      in if replaying then latest c
         else pbind (pwait (rw_before_plan w)) (\<lambda>_.
              pbind (ds_plan_recovery (rollback_recovery_command (csv_id c) reason) (rw_plan_id w)
                       (rw_action_ids w) (rw_now w) (rw_during_plan w)) latest))"

definition rollback_finish ::
    "uuid \<Rightarrow> string \<Rightarrow> string \<Rightarrow> rollback_world \<Rightarrow> agent_principal_view \<Rightarrow> repository_delivery_view list
     \<Rightarrow> bool \<Rightarrow> change_set_view \<Rightarrow> recovery_plan_view \<Rightarrow> change_set_rollback_view delivery_proc" where
  "rollback_finish delivery_id reason idempotency_key w actor candidates replayed c plan =
     (let view = \<lparr>crb_delivery_id = delivery_id, crb_change_set_id = csv_id c,
            crb_decisions = List.map_filter (\<lambda>r. view_latest_decision c (rdv_repository_id r)
               (py_lower (py_strip (rdv_commit_sha r)))) candidates,
            crb_recovery_plan = plan, crb_replayed = replayed\<rparr>
      in if replayed then preturn view
         else pbind (append_event (rollback_requested_event delivery_id actor c plan candidates reason
                  idempotency_key (rw_correlation_id w) (rw_event_id w) (rw_now w)))
                (\<lambda>_. preturn view))"

definition rollback_request ::
    "(uuid \<Rightarrow> agent_principal_view option) \<Rightarrow> uuid \<Rightarrow> request_change_set_rollback_command \<Rightarrow> string
     \<Rightarrow> rollback_world \<Rightarrow> change_set_rollback_view delivery_proc" where
  "rollback_request directory delivery_id command idempotency_key w =
     (if py_strip idempotency_key = [] then praise (ValueError ''idempotency_key is required'')
      else let reason = py_strip (rcb_reason command)
      in if reason = [] then praise (ValueError ''reason is required'')
         else pbind (delivery_change_set delivery_id (rcb_change_set_id command)) (\<lambda>c.
              pbind (plift (rollback_actor directory command c)) (\<lambda>actor.
              let replaying = rollback_replaying c reason;
                  candidates = sort_key rdv_merge_order (csv_repositories c)
              in if \<not> replaying \<and> (case latest_plan c of None \<Rightarrow> False | Some p \<Rightarrow> plan_incomplete p)
                 then praise (DeliveryConflict (''a recovery plan is already running for this '' @
                   ''ChangeSet; wait for it to finish or resolve it before requesting another rollback''))
                 else pbind (rollback_decisions (apv_id actor) reason (rw_decision_ids w) (rw_now w)
                        (rw_before_decision w) (rw_during_decision w) 0 candidates c False)
                   (\<lambda>(c', wrote).
                   pbind (rollback_plan replaying reason w c') (\<lambda>(c'', plan).
                   rollback_finish delivery_id reason idempotency_key w actor candidates
                     (replaying \<and> \<not> wrote) c'' plan)))))"

subsection \<open>Archiving\<close>

record archive_state =
  acs_delivery :: delivery_state
  acs_archives :: delivery_archive_store

definition in_delivery :: "'a delivery_proc \<Rightarrow> (archive_state, 'a) proc" where
  "in_delivery p s = (case p (acs_delivery s) of (r, t) \<Rightarrow> (r, s\<lparr>acs_delivery := t\<rparr>))"

definition in_archives :: "(delivery_archive_store, 'a) proc \<Rightarrow> (archive_state, 'a) proc" where
  "in_archives p s = (case p (acs_archives s) of (r, t) \<Rightarrow> (r, s\<lparr>acs_archives := t\<rparr>))"

definition has_active_recovery :: "change_set_view \<Rightarrow> bool" where
  "has_active_recovery c \<longleftrightarrow> (case latest_plan c of None \<Rightarrow> False | Some active \<Rightarrow> plan_incomplete active)"

definition require_terminal :: "change_set_view \<Rightarrow> bool \<Rightarrow> unit result" where
  "require_terminal c plan_failed =
     (if csv_status c \<in> {CS_DELIVERED, CS_COMPENSATED} then Inr ()
      else if (plan_failed \<or> csv_status c = CS_MANUAL_INTERVENTION) \<and> \<not> has_active_recovery c
      then Inr ()
      else Inl (DeliveryConflict (''an active delivery cannot be archived (ChangeSet is '' @
             change_set_status_value (csv_status c) @ '')'')))"

definition delivery_archived_event ::
    "uuid \<Rightarrow> execution_plan_view \<Rightarrow> change_set_view option \<Rightarrow> (nat \<Rightarrow> uuid) \<Rightarrow> datetime \<Rightarrow> event_envelope" where
  "delivery_archived_event delivery_id plan c fresh now =
     new_event ''DeliveryArchived'' AT_SERVICE ''repomesh-api'' ''ExecutionPlan'' delivery_id
       (epv_current_batch_index plan + 1)
       (JObject [(''planStatus'', JStr (execution_plan_status_value (epv_status plan))),
          (''changeSetId'', case c of None \<Rightarrow> JNull | Some c \<Rightarrow> JStr (uuid_str (csv_id c))),
          (''changeSetStatus'', case c of None \<Rightarrow> JNull
             | Some c \<Rightarrow> JStr (change_set_status_value (csv_status c)))])
       (fresh 0) (fresh 1) now (epv_organization_id plan) (epv_project_id plan)"

definition archive_add ::
    "delivery_archive_view \<Rightarrow> (archive_state \<Rightarrow> archive_state)
     \<Rightarrow> (archive_state, delivery_archive_view option) proc" where
  "archive_add archive env =
     ptry_conflict (pbind (in_archives (das_add archive)) (\<lambda>_. preturn None))
       (\<lambda>e. pbind (pwait env) (\<lambda>_.
          pbind (pget (\<lambda>s. das_get (acs_archives s) (dav_delivery_id archive))) (\<lambda>stored.
          case stored of None \<Rightarrow> praise e | Some a \<Rightarrow> preturn (Some a))))"

definition archive_delivery ::
    "(uuid \<Rightarrow> execution_plan_view option) \<Rightarrow> uuid \<Rightarrow> (nat \<Rightarrow> uuid) \<Rightarrow> datetime
     \<Rightarrow> (nat \<Rightarrow> archive_state \<Rightarrow> archive_state) \<Rightarrow> (archive_state, delivery_archive_view) proc" where
  "archive_delivery plans delivery_id fresh now env =
     pbind (pget (\<lambda>s. das_get (acs_archives s) delivery_id)) (\<lambda>existing.
     case existing of Some archive \<Rightarrow> preturn archive
     | None \<Rightarrow>
         case plans delivery_id of
           None \<Rightarrow> praise (DeliveryNotFound (''delivery not found: '' @ uuid_str delivery_id))
         | Some plan \<Rightarrow>
             if epv_status plan = EP_IN_PROGRESS
             then praise (DeliveryConflict ''an in-progress delivery cannot be archived'')
             else
               pbind (pwait (env 0)) (\<lambda>_.
               pbind (in_delivery (ds_get_by_idempotency_key (delivery_change_set_key delivery_id))) (\<lambda>c.
               pbind (plift (case c of None \<Rightarrow> Inr ()
                        | Some c \<Rightarrow> require_terminal c (epv_status plan = EP_FAILED))) (\<lambda>_.
               let archive = \<lparr>dav_delivery_id = delivery_id, dav_archived_at = now\<rparr>
               in pbind (pwait (env 1)) (\<lambda>_.
                  pbind (archive_add archive (env 2)) (\<lambda>stored.
                  case stored of Some a \<Rightarrow> preturn a
                  | None \<Rightarrow>
                      pbind (in_delivery (append_event (delivery_archived_event delivery_id plan c fresh now)))
                        (\<lambda>_. preturn archive)))))))"

subsection \<open>Reading\<close>

lemma delivery_change_set_run:
  assumes "cst_ok (dst_store s)"
  shows "delivery_change_set delivery_id i s =
    (case cst_lookup (dst_store s) (delivery_change_set_key delivery_id) of
       None \<Rightarrow> (Inl (DeliveryNotFound (''delivery has no ChangeSet: '' @ uuid_str delivery_id)), s)
     | Some (c, f) \<Rightarrow>
         if cs_id c \<noteq> i then (Inl (DeliveryConflict ''change set does not belong to this delivery''), s)
         else (Inr (cs_to_view c), s))"
  using cst_get_by_idempotency_key_ok [OF assms, of "delivery_change_set_key delivery_id"]
  by (simp add: delivery_change_set_def ds_get_by_idempotency_key_def pbind_def [of "in_store _"]
      pbind_def [of "pbind _ _"] in_store_def preturn_def praise_def cs_to_view_def split: option.splits)

lemma view_latest_decision_view:
  "view_latest_decision (cs_to_view c) k h = map_option gd_to_view (latest_governance c k h)"
proof -
  have "find P (map gd_to_view gs) = map_option gd_to_view (find (P \<circ> gd_to_view) gs)" for P gs
    by (induction gs) auto
  then show ?thesis
    by (simp add: view_latest_decision_def latest_governance_def cs_to_view_def rev_map comp_def
        gd_to_view_def)
qed

lemma latest_plan_view:
  "latest_plan (cs_to_view c) =
     (if cs_recovery_plans c = [] then None else Some (rp_to_view (last (cs_recovery_plans c))))"
  by (simp add: latest_plan_def cs_to_view_def last_map)

subsection \<open>Authority\<close>

definition may_govern :: "agent_principal_view \<Rightarrow> change_set \<Rightarrow> uuid \<Rightarrow> bool" where
  "may_govern actor c repository_id \<longleftrightarrow>
     apv_status actor = AS_ACTIVE \<and> apv_organization_id actor = cs_organization_id c \<and>
     (apv_role actor = AR_ORGANIZATION_LEADER \<or>
      apv_role actor = AR_REPOSITORY_LEADER \<and> apv_repository_id actor = Some repository_id)"

definition may_roll_back :: "agent_principal_view \<Rightarrow> change_set \<Rightarrow> bool" where
  "may_roll_back actor c \<longleftrightarrow>
     apv_status actor = AS_ACTIVE \<and> apv_organization_id actor = cs_organization_id c \<and>
     apv_role actor = AR_ORGANIZATION_LEADER"

lemma cs_view_fields [simp]:
  "csv_organization_id (cs_to_view c) = cs_organization_id c" "csv_id (cs_to_view c) = cs_id c"
  "csv_status (cs_to_view c) = cs_status c"
  by (simp_all add: cs_to_view_def)

lemma governance_actor_Inr:
  "governance_actor directory command (cs_to_view c) = Inr actor \<longleftrightarrow>
     directory (rgd_decided_by_agent_id command) = Some actor \<and>
     may_govern actor c (rgd_repository_id command)"
  by (auto simp: governance_actor_def may_govern_def split: option.splits)

lemma governance_actor_Inl:
  "governance_actor directory command c = Inl e \<Longrightarrow> \<exists>m. e = DeliveryDenied m"
  by (auto simp: governance_actor_def split: option.splits if_splits)

lemma rollback_actor_Inr:
  "rollback_actor directory command (cs_to_view c) = Inr actor \<longleftrightarrow>
     directory (rcb_requested_by_agent_id command) = Some actor \<and> may_roll_back actor c"
  by (auto simp: rollback_actor_def may_roll_back_def split: option.splits)

lemma rollback_actor_Inl:
  "rollback_actor directory command c = Inl e \<Longrightarrow> \<exists>m. e = DeliveryDenied m"
  by (auto simp: rollback_actor_def split: option.splits if_splits)

subsection \<open>The decisions of a rollback\<close>

text \<open>A call that runs without interference from other tasks.\<close>

definition no_interference :: "nat \<Rightarrow> delivery_state \<Rightarrow> delivery_state" where
  "no_interference k s = s"

definition undisturbed :: "rollback_world \<Rightarrow> bool" where
  "undisturbed w \<longleftrightarrow> rw_before_decision w = no_interference \<and> rw_during_decision w = no_interference \<and>
     rw_before_plan w = no_interference 0 \<and> rw_during_plan w = no_interference 0"

text \<open>The candidate's latest decision at its head is the actor's demand for a rollback.\<close>

definition rollback_ordered :: "uuid \<Rightarrow> string \<Rightarrow> change_set \<Rightarrow> repository_delivery \<Rightarrow> bool" where
  "rollback_ordered actor_id reason c r \<longleftrightarrow>
     (\<exists>g. latest_governance c (rd_repository_id r) (rd_commit_sha r) = Some g \<and>
        gd_decision g = GD_ROLLBACK_REQUIRED \<and> gd_decided_by_agent_id g = actor_id \<and>
        gd_reason g = reason)"

definition normalised_head :: "repository_delivery \<Rightarrow> bool" where
  "normalised_head r \<longleftrightarrow> full_sha (rd_commit_sha r)"

lemma norm_head: "normalised_head r \<Longrightarrow> py_lower (py_strip (rd_commit_sha r)) = rd_commit_sha r"
  using full_sha_norm [of "rd_commit_sha r"] by (simp add: normalised_head_def norm_text_def)

lemma rollback_recorded_view:
  "normalised_head r \<Longrightarrow>
     rollback_recorded actor_id reason (cs_to_view c) (rd_to_view r) = rollback_ordered actor_id reason c r"
  by (auto simp: rollback_recorded_def rollback_ordered_def norm_head rd_to_view_def
      view_latest_decision_view gd_to_view_def split: option.splits)

lemma latest_governance_put:
  "latest_governance (c\<lparr>cs_governance_decisions := put_by gd_key g (cs_governance_decisions c),
      cs_version := v, cs_updated_at := t\<rparr>) k h =
     (if gd_key g = (k, h) then Some g else latest_governance c k h)"
proof -
  have key: "(\<lambda>g. gd_repository_id g = k \<and> gd_head_sha g = h) = (\<lambda>g. gd_key g = (k, h))"
    by (simp add: gd_key_def fun_eq_iff)
  show ?thesis by (simp add: latest_governance_def key find_rev_put_by)
qed

definition rollback_decision ::
    "uuid \<Rightarrow> string \<Rightarrow> uuid \<Rightarrow> datetime \<Rightarrow> repository_delivery \<Rightarrow> governance_decision" where
  "rollback_decision actor_id reason i now r =
     \<lparr>gd_repository_id = rd_repository_id r, gd_head_sha = rd_commit_sha r,
      gd_decision = GD_ROLLBACK_REQUIRED, gd_decided_by_agent_id = actor_id, gd_reason = reason,
      gd_id = i, gd_decided_at = now\<rparr>"

lemma govern_rollback:
  assumes "cs_wf c" "r \<in> set (cs_repositories c)" "normalised_head r"
    and "\<not> blank reason" "py_strip reason = reason"
  shows "govern_change_set (rollback_command actor_id reason (cs_id c) (rd_to_view r)) i now c =
    Inr (c\<lparr>cs_governance_decisions :=
           put_by gd_key (rollback_decision actor_id reason i now r) (cs_governance_decisions c),
         cs_version := cs_version c + 1, cs_updated_at := now\<rparr>)"
proof -
  have "find (\<lambda>q. rd_repository_id q = rd_repository_id r) (cs_repositories c) = Some r"
    using assms(1,2) by (intro find_unique_key) (simp_all add: cs_wf_def)
  moreover have "normalize_full_sha (rd_commit_sha r) f = Inr (rd_commit_sha r)" for f
    using assms(3) full_sha_norm by (simp add: normalize_full_sha_Inr_iff normalised_head_def norm_text_def)
  moreover have "cs_wf (c\<lparr>cs_governance_decisions := gs, cs_version := v, cs_updated_at := now\<rparr>)" for gs v
    using assms(1) by (simp add: cs_wf_def)
  ultimately show ?thesis
    using assms(3-5) by (simp add: govern_change_set_def rollback_command_def rd_to_view_def norm_head
        gd_post_init_def cs_record_governance_def rollback_decision_def)
qed

text \<open>Read, compute and write without interference.\<close>

definition put_change_set :: "change_set \<Rightarrow> delivery_state \<Rightarrow> delivery_state" where
  "put_change_set c s = s\<lparr>dst_store := (dst_store s)\<lparr>cst_items := dict_set (cs_id c) c (cst_items (dst_store s))\<rparr>\<rparr>"

lemma ds_required_run:
  "cst_get (dst_store s) i = Some c \<Longrightarrow> ds_required i s = (Inr c, s)"
  by (simp add: ds_required_def preturn_def)

lemma ds_update_run:
  assumes "cst_get (dst_store s) (cs_id c) = Some c" "cs_id d = cs_id c"
  shows "ds_update c d s = (Inr (cs_to_view d), put_change_set d s)"
  using assms by (simp add: ds_update_def pbind_def [of "in_store _"] in_store_def cst_update_def
      cst_get_def put_change_set_def preturn_def)

lemma cst_get_put [simp]:
  "cst_get (dst_store (put_change_set c s)) i = (if i = cs_id c then Some c else cst_get (dst_store s) i)"
  by (simp add: put_change_set_def cst_get_def)

lemma cst_ok_put:
  assumes "cst_ok (dst_store s)"
  shows "cst_ok (dst_store (put_change_set c s))"
  using assms by (auto simp: put_change_set_def cst_ok_def dest!: in_dict_set)

lemma put_change_set_frame [simp]:
  "dst_events (put_change_set c s) = dst_events s" "dst_cases (put_change_set c s) = dst_cases s"
  "cst_keys (dst_store (put_change_set c s)) = cst_keys (dst_store s)"
  by (simp_all add: put_change_set_def)

text \<open>The loop: every candidate ends ordered, and a candidate already ordered is left alone.\<close>

definition governed_only :: "change_set \<Rightarrow> change_set \<Rightarrow> bool" where
  "governed_only c d \<longleftrightarrow> (\<exists>gs v t. d = c\<lparr>cs_governance_decisions := gs, cs_version := v, cs_updated_at := t\<rparr>)"

lemma governed_only_refl: "governed_only c c"
  unfolding governed_only_def
  by (intro exI [of _ "cs_governance_decisions c"] exI [of _ "cs_version c"] exI [of _ "cs_updated_at c"])
    simp

lemma governed_only_trans: "governed_only c d \<Longrightarrow> governed_only d e \<Longrightarrow> governed_only c e"
  by (force simp: governed_only_def)

lemma governed_only_fields:
  "governed_only c d \<Longrightarrow> cs_id d = cs_id c \<and> cs_repositories d = cs_repositories c \<and>
     cs_recovery_plans d = cs_recovery_plans c \<and> cs_organization_id d = cs_organization_id c \<and>
     cs_project_id d = cs_project_id c \<and> (cs_wf d = cs_wf c)"
  by (auto simp: governed_only_def cs_wf_def)

lemma rollback_ordered_put:
  "rollback_ordered actor_id reason (c\<lparr>cs_governance_decisions :=
       put_by gd_key (rollback_decision actor_id reason i now r) (cs_governance_decisions c),
     cs_version := v, cs_updated_at := now\<rparr>) q \<longleftrightarrow>
   gd_key (rollback_decision actor_id reason i now r) = (rd_repository_id q, rd_commit_sha q) \<or>
   rollback_ordered actor_id reason c q"
  by (auto simp: rollback_ordered_def latest_governance_put rollback_decision_def)

lemma rollback_decision_step:
  assumes "normalised_head r" "r \<in> set (cs_repositories c)" "cs_wf c"
    and "\<not> blank reason" "py_strip reason = reason" "cst_get (dst_store s) (cs_id c) = Some c"
  obtains d where "ds_record_governance_decision (rollback_command actor_id reason (cs_id c) (rd_to_view r))
      i now (no_interference k) s = (Inr (cs_to_view d), put_change_set d s)"
    "governed_only c d" "rollback_ordered actor_id reason d r"
    "\<And>q. rollback_ordered actor_id reason c q \<Longrightarrow> rollback_ordered actor_id reason d q"
proof
  let ?d = "c\<lparr>cs_governance_decisions :=
      put_by gd_key (rollback_decision actor_id reason i now r) (cs_governance_decisions c),
    cs_version := cs_version c + 1, cs_updated_at := now\<rparr>"
  show "ds_record_governance_decision (rollback_command actor_id reason (cs_id c) (rd_to_view r))
      i now (no_interference k) s = (Inr (cs_to_view ?d), put_change_set ?d s)"
    using govern_rollback [OF assms(3,2,1,4,5), of actor_id i now] ds_required_run [OF assms(6)]
      ds_update_run [OF assms(6), of ?d]
    by (simp add: ds_record_governance_decision_def pbind_def [of "ds_required _"]
        rollback_command_def no_interference_def)
  show "governed_only c ?d" by (auto simp: governed_only_def)
  show "rollback_ordered actor_id reason ?d r" 
    by (simp add: rollback_ordered_put gd_key_def) (simp add: rollback_decision_def)
  show "rollback_ordered actor_id reason ?d q" if "rollback_ordered actor_id reason c q" for q
    using that by (simp add: rollback_ordered_put)
qed

lemma rollback_decisions_run:
  assumes "\<forall>r \<in> set rs. normalised_head r" "set rs \<subseteq> set (cs_repositories c)" "cs_wf c"
    and "\<not> blank reason" "py_strip reason = reason"
    and "cst_ok (dst_store s)" "cst_get (dst_store s) (cs_id c) = Some c"
  shows "\<exists>d w' t. rollback_decisions actor_id reason fresh now no_interference no_interference k
      (map rd_to_view rs) (cs_to_view c) w s = (Inr (cs_to_view d, w'), t) \<and>
    governed_only c d \<and> cst_ok (dst_store t) \<and> cst_get (dst_store t) (cs_id c) = Some d \<and>
    cst_keys (dst_store t) = cst_keys (dst_store s) \<and>
    (\<forall>q. rollback_ordered actor_id reason c q \<or> q \<in> set rs \<longrightarrow> rollback_ordered actor_id reason d q) \<and>
    ((\<forall>q \<in> set rs. rollback_ordered actor_id reason c q) \<longrightarrow> w' = w \<and> d = c \<and> t = s)"
  using assms
proof (induction rs arbitrary: c k w s)
  case Nil
  then show ?case by (auto simp: preturn_def governed_only_refl)
next
  case (Cons r rs)
  have norm: "normalised_head r" using Cons.prems(1) by simp
  show ?case
  proof (cases "rollback_ordered actor_id reason c r")
    case True
    from Cons.IH [of c s k w] Cons.prems True show ?thesis
      by (simp add: rollback_recorded_view [OF norm]) blast
  next
    case False
    obtain d where step: "ds_record_governance_decision (rollback_command actor_id reason (cs_id c)
        (rd_to_view r)) (fresh k) now (no_interference k) s = (Inr (cs_to_view d), put_change_set d s)"
      and d: "governed_only c d" "rollback_ordered actor_id reason d r"
        "\<And>q. rollback_ordered actor_id reason c q \<Longrightarrow> rollback_ordered actor_id reason d q"
      using Cons.prems norm by (elim rollback_decision_step [of r c reason s]) auto
    note fields = governed_only_fields [OF d(1)]
    from step have run: "rollback_decisions actor_id reason fresh now no_interference no_interference k
        (map rd_to_view (r # rs)) (cs_to_view c) w s =
        rollback_decisions actor_id reason fresh now no_interference no_interference (Suc k)
          (map rd_to_view rs) (cs_to_view d) True (put_change_set d s)"
      using False by (simp add: rollback_recorded_view [OF norm] no_interference_def
          pbind_def [of "ds_record_governance_decision _ _ _ _"])
    have "\<forall>q \<in> set rs. normalised_head q" "set rs \<subseteq> set (cs_repositories d)" "cs_wf d"
      "cst_ok (dst_store (put_change_set d s))"
      "cst_get (dst_store (put_change_set d s)) (cs_id d) = Some d"
      using Cons.prems fields by (auto simp: cst_ok_put)
    from Cons.IH [OF this(1-3) Cons.prems(4,5) this(4,5), of "Suc k" True]
    obtain e w' t where rest: "rollback_decisions actor_id reason fresh now no_interference no_interference
        (Suc k) (map rd_to_view rs) (cs_to_view d) True (put_change_set d s) = (Inr (cs_to_view e, w'), t)"
      "governed_only d e" "cst_ok (dst_store t)" "cst_get (dst_store t) (cs_id c) = Some e"
      "cst_keys (dst_store t) = cst_keys (dst_store s)"
      "\<And>q. rollback_ordered actor_id reason d q \<or> q \<in> set rs \<Longrightarrow> rollback_ordered actor_id reason e q"
      using fields by auto
    have "rollback_ordered actor_id reason e q"
      if "rollback_ordered actor_id reason c q \<or> q \<in> set (r # rs)" for q
      using that rest(6) [of q] d(2,3) by auto
    with rest False governed_only_trans [OF d(1) rest(2)] show ?thesis by (simp only: run) auto
  qed
qed

subsection \<open>A whole request\<close>

lemma pbind_run: "m s = (Inr x, t) \<Longrightarrow> pbind m f s = f x t"
  by (simp add: pbind_def)

lemma pbind_err: "m s = (Inl e, t) \<Longrightarrow> pbind m f s = (Inl e, t)"
  by (simp add: pbind_def)

lemma cst_lookup_iff:
  "cst_ok s \<Longrightarrow> cst_lookup s key = Some (c, f) \<longleftrightarrow>
     dict_get (cst_keys s) key = Some (cs_id c, f) \<and> cst_get s (cs_id c) = Some c"
  using cst_ok_id [of s] by (auto simp: cst_lookup_def cst_get_def split: option.splits)

lemma rollback_candidates:
  "sort_key rdv_merge_order (csv_repositories (cs_to_view c)) =
     map rd_to_view (sort_key rd_merge_order (cs_repositories c))"
  by (simp add: cs_to_view_def sort_key_map comp_def rd_to_view_def)

definition operator_plan :: "string \<Rightarrow> change_set \<Rightarrow> bool" where
  "operator_plan reason c \<longleftrightarrow> cs_recovery_plans c \<noteq> [] \<and>
     rp_trigger (last (cs_recovery_plans c)) = RT_OPERATOR_REQUESTED \<and>
     rp_reason (last (cs_recovery_plans c)) = reason"

lemma rollback_replaying_view: "rollback_replaying (cs_to_view c) reason = operator_plan reason c"
  by (auto simp: rollback_replaying_def operator_plan_def latest_plan_view rp_to_view_def)

lemma rollback_plan_run:
  assumes "undisturbed w" "cst_get (dst_store s) (cs_id c) = Some c" "cs_wf c"
    and "cst_ok (dst_store s)" "py_strip reason = reason" "replaying \<longrightarrow> operator_plan reason c"
  shows "\<exists>d t. rollback_plan replaying reason w (cs_to_view c) s =
      (Inr (cs_to_view d, rp_to_view (last (cs_recovery_plans d))), t) \<and>
    cst_ok (dst_store t) \<and> cst_get (dst_store t) (cs_id c) = Some d \<and> cs_id d = cs_id c \<and>
    cst_keys (dst_store t) = cst_keys (dst_store s) \<and> cs_repositories d = cs_repositories c \<and>
    cs_organization_id d = cs_organization_id c \<and>
    cs_governance_decisions d = cs_governance_decisions c \<and> operator_plan reason d \<and> cs_wf d \<and>
    (replaying \<longrightarrow> d = c \<and> t = s)"
proof (cases replaying)
  case True
  with assms show ?thesis
    by (intro exI [of _ c] exI [of _ s])
      (simp add: rollback_plan_def latest_plan_view operator_plan_def preturn_def)
next
  case False
  let ?command = "rollback_recovery_command (cs_id c) reason"
  obtain d where plan: "plan_change_set_recovery ?command (rw_plan_id w) (rw_action_ids w) (rw_now w) c = Inr d"
    and d: "cs_id d = cs_id c" "cs_repositories d = cs_repositories c" "operator_plan reason d"
      "cs_governance_decisions d = cs_governance_decisions c" "cs_wf d"
      "cs_organization_id d = cs_organization_id c"
    using assms(3,5)
    by (auto simp: plan_change_set_recovery_def cs_add_recovery_def rollback_recovery_command_def
        operator_plan_def cs_wf_def)
  have run: "ds_plan_recovery ?command (rw_plan_id w)
      (rw_action_ids w) (rw_now w) (no_interference 0) s = (Inr (cs_to_view d), put_change_set d s)"
    using plan ds_update_run [OF assms(2) d(1)] assms(1,2)
    by (simp add: ds_plan_recovery_def pbind_run [of "ds_required _" s, OF ds_required_run]
        rollback_recovery_command_def no_interference_def)
  have "rollback_plan replaying reason w (cs_to_view c) s =
      (Inr (cs_to_view d, rp_to_view (last (cs_recovery_plans d))), put_change_set d s)"
    using assms(1) d(3) False
    by (simp add: rollback_plan_def undisturbed_def no_interference_def [of 0 s]
        pbind_run [of "ds_plan_recovery _ _ _ _ _" s, OF run] latest_plan_view operator_plan_def preturn_def)
  with d assms(4) False show ?thesis
    by (intro exI [of _ d] exI [of _ "put_change_set d s"]) (simp add: cst_ok_put)
qed

text \<open>When the request is carried out, as opposed to refused.\<close>

definition rollback_accepted ::
    "(uuid \<Rightarrow> agent_principal_view option) \<Rightarrow> request_change_set_rollback_command \<Rightarrow> string
     \<Rightarrow> change_set \<Rightarrow> agent_principal_view \<Rightarrow> bool" where
  "rollback_accepted directory command idempotency_key c actor \<longleftrightarrow>
     py_strip idempotency_key \<noteq> [] \<and> \<not> blank (rcb_reason command) \<and>
     cs_id c = rcb_change_set_id command \<and>
     directory (rcb_requested_by_agent_id command) = Some actor \<and> may_roll_back actor c \<and>
     (cs_recovery_plans c = [] \<or> plan_finished (last (cs_recovery_plans c)) \<or>
      operator_plan (py_strip (rcb_reason command)) c)"

lemma plan_incomplete_view: "plan_incomplete (rp_to_view p) = (\<not> plan_finished p)"
  by (auto simp: plan_incomplete_def plan_finished_def rp_to_view_def ra_to_view_def)

lemma blank_iff: "blank s \<longleftrightarrow> py_strip s = []"
  by (simp add: blank_def)

lemma change_set_found:
  assumes "cst_ok (dst_store s)"
    and "cst_lookup (dst_store s) (delivery_change_set_key delivery_id) = Some (c, f)" "cs_id c = i"
  shows "delivery_change_set delivery_id i s = (Inr (cs_to_view c), s)"
  using assms by (simp add: delivery_change_set_run)

lemma rollback_refused:
  assumes "cst_ok (dst_store s)"
    and "cst_lookup (dst_store s) (delivery_change_set_key delivery_id) = Some (c, f)"
    and refused: "\<nexists>actor. rollback_accepted directory command idempotency_key c actor"
  shows "\<exists>e. rollback_request directory delivery_id command idempotency_key w s = (Inl e, s)"
proof (cases "py_strip idempotency_key = [] \<or> py_strip (rcb_reason command) = [] \<or>
    cs_id c \<noteq> rcb_change_set_id command")
  case True
  then show ?thesis
    using assms(1,2) by (auto simp: rollback_request_def Let_def praise_def delivery_change_set_run pbind_err)
next
  case False
  note found = pbind_run [of "delivery_change_set _ _" s, OF change_set_found [OF assms(1,2)]]
  show ?thesis
  proof (cases "rollback_actor directory command (cs_to_view c)")
    case (Inl e)
    with False show ?thesis by (simp add: rollback_request_def found Let_def)
  next
    case (Inr actor)
    then have "\<not> rollback_replaying (cs_to_view c) (py_strip (rcb_reason command))"
      "case latest_plan (cs_to_view c) of None \<Rightarrow> False | Some p \<Rightarrow> plan_incomplete p"
      using refused False by (auto simp: rollback_accepted_def rollback_actor_Inr blank_iff
          rollback_replaying_view latest_plan_view plan_incomplete_view)
    with False Inr show ?thesis by (simp add: rollback_request_def found Let_def praise_def)
  qed
qed

lemma rollback_request_run:
  assumes "undisturbed w" "cst_ok (dst_store s)"
    and "cst_lookup (dst_store s) (delivery_change_set_key delivery_id) = Some (c, f)"
    and accepted: "rollback_accepted directory command idempotency_key c actor"
    and loop: "rollback_decisions (apv_id actor) (py_strip (rcb_reason command)) (rw_decision_ids w)
      (rw_now w) no_interference no_interference 0
      (map rd_to_view (sort_key rd_merge_order (cs_repositories c))) (cs_to_view c) False s = (Inr (v, w'), t)"
    and plan: "rollback_plan (operator_plan (py_strip (rcb_reason command)) c)
      (py_strip (rcb_reason command)) w v t = (Inr (v', p), u)"
  shows "rollback_request directory delivery_id command idempotency_key w s =
    rollback_finish delivery_id (py_strip (rcb_reason command)) idempotency_key w actor
      (map rd_to_view (sort_key rd_merge_order (cs_repositories c)))
      (operator_plan (py_strip (rcb_reason command)) c \<and> \<not> w') v' p u"
proof -
  have "rollback_actor directory command (cs_to_view c) = Inr actor"
    using accepted by (simp add: rollback_actor_Inr rollback_accepted_def)
  moreover have "\<not> (\<not> operator_plan (py_strip (rcb_reason command)) c \<and>
      (case latest_plan (cs_to_view c) of None \<Rightarrow> False | Some p \<Rightarrow> plan_incomplete p))"
    using accepted by (auto simp: rollback_accepted_def latest_plan_view plan_incomplete_view)
  moreover have "py_strip idempotency_key \<noteq> []" "py_strip (rcb_reason command) \<noteq> []"
    "cs_id c = rcb_change_set_id command"
    using accepted by (simp_all add: rollback_accepted_def blank_iff)
  ultimately show ?thesis
    using assms(1) by (simp only: rollback_request_def Let_def if_False undisturbed_def
        pbind_run [of "delivery_change_set _ _" s, OF change_set_found [OF assms(2,3)]] pbind_simps
        rollback_replaying_view rollback_candidates prod.case simp_thms
        pbind_run [of "rollback_decisions _ _ _ _ _ _ _ _ _ _" s, OF loop]
        pbind_run [of "rollback_plan _ _ _ _" t, OF plan])
qed

text \<open>The answer to a request, read off the ChangeSet it leaves.\<close>

definition rollback_answer :: "uuid \<Rightarrow> change_set \<Rightarrow> bool \<Rightarrow> change_set_rollback_view" where
  "rollback_answer delivery_id d replayed =
     \<lparr>crb_delivery_id = delivery_id, crb_change_set_id = cs_id d,
      crb_decisions = List.map_filter (\<lambda>r. view_latest_decision (cs_to_view d) (rdv_repository_id r)
         (py_lower (py_strip (rdv_commit_sha r)))) (map rd_to_view (sort_key rd_merge_order (cs_repositories d))),
      crb_recovery_plan = rp_to_view (last (cs_recovery_plans d)), crb_replayed = replayed\<rparr>"

lemma rollback_performed:
  assumes "undisturbed w" "cst_ok (dst_store s)"
    and "cst_lookup (dst_store s) (delivery_change_set_key delivery_id) = Some (c, f)"
    and "cs_wf c" "\<forall>r \<in> set (cs_repositories c). normalised_head r"
    and "rollback_accepted directory command idempotency_key c actor"
  obtains d t replayed where
    "rollback_request directory delivery_id command idempotency_key w s =
       (Inr (rollback_answer delivery_id d replayed), t)"
    "cst_ok (dst_store t)" "cst_lookup (dst_store t) (delivery_change_set_key delivery_id) = Some (d, f)"
    "cs_wf d" "cs_id d = cs_id c" "cs_repositories d = cs_repositories c"
    "cs_organization_id d = cs_organization_id c"
    "\<forall>r \<in> set (cs_repositories c). rollback_ordered (apv_id actor) (py_strip (rcb_reason command)) d r"
    "operator_plan (py_strip (rcb_reason command)) d"
    "operator_plan (py_strip (rcb_reason command)) c \<Longrightarrow>
     \<forall>r \<in> set (cs_repositories c). rollback_ordered (apv_id actor) (py_strip (rcb_reason command)) c r \<Longrightarrow>
     replayed \<and> t = s \<and> d = c"
proof -
  let ?reason = "py_strip (rcb_reason command)"
  let ?rs = "sort_key rd_merge_order (cs_repositories c)"
  let ?key = "delivery_change_set_key delivery_id"
  note found = assms(3) [unfolded cst_lookup_iff [OF assms(2)]]
  from assms(6) have reason: "\<not> blank ?reason" "py_strip ?reason = ?reason"
    by (simp_all add: rollback_accepted_def)
  obtain d w' t where loop: "rollback_decisions (apv_id actor) ?reason (rw_decision_ids w) (rw_now w)
      no_interference no_interference 0 (map rd_to_view ?rs) (cs_to_view c) False s = (Inr (cs_to_view d, w'), t)"
    and d: "governed_only c d" "cst_ok (dst_store t)" "cst_get (dst_store t) (cs_id c) = Some d"
      "cst_keys (dst_store t) = cst_keys (dst_store s)"
      "\<And>q. q \<in> set (cs_repositories c) \<Longrightarrow> rollback_ordered (apv_id actor) ?reason d q"
      "(\<forall>q \<in> set (cs_repositories c). rollback_ordered (apv_id actor) ?reason c q) \<longrightarrow> \<not> w' \<and> d = c \<and> t = s"
  proof -
    have "\<forall>r \<in> set ?rs. normalised_head r" "set ?rs \<subseteq> set (cs_repositories c)"
      "cst_get (dst_store s) (cs_id c) = Some c"
      using assms(5) found by simp_all
    from rollback_decisions_run [OF this(1,2) assms(4) reason assms(2) this(3), of "apv_id actor"
        "rw_decision_ids w" "rw_now w" 0 False]
    obtain d w' t where "rollback_decisions (apv_id actor) ?reason (rw_decision_ids w) (rw_now w)
        no_interference no_interference 0 (map rd_to_view ?rs) (cs_to_view c) False s = (Inr (cs_to_view d, w'), t)"
      "governed_only c d" "cst_ok (dst_store t)" "cst_get (dst_store t) (cs_id c) = Some d"
      "cst_keys (dst_store t) = cst_keys (dst_store s)"
      "\<forall>q. rollback_ordered (apv_id actor) ?reason c q \<or> q \<in> set ?rs \<longrightarrow>
         rollback_ordered (apv_id actor) ?reason d q"
      "(\<forall>q \<in> set ?rs. rollback_ordered (apv_id actor) ?reason c q) \<longrightarrow> w' = False \<and> d = c \<and> t = s"
      by blast
    then show ?thesis by (intro that) auto
  qed
  note fields = governed_only_fields [OF d(1)]
  have replaying: "operator_plan ?reason d = operator_plan ?reason c"
    using fields by (simp add: operator_plan_def)
  obtain e u where plan: "rollback_plan (operator_plan ?reason c) ?reason w (cs_to_view d) t =
      (Inr (cs_to_view e, rp_to_view (last (cs_recovery_plans e))), u)"
    and e: "cst_ok (dst_store u)" "cst_get (dst_store u) (cs_id d) = Some e" "cs_id e = cs_id d"
      "cst_keys (dst_store u) = cst_keys (dst_store t)" "cs_repositories e = cs_repositories d"
      "cs_organization_id e = cs_organization_id d" "cs_governance_decisions e = cs_governance_decisions d"
      "operator_plan ?reason e" "cs_wf e" "operator_plan ?reason c \<longrightarrow> e = d \<and> u = t"
  proof -
    have "cst_get (dst_store t) (cs_id d) = Some d" "cs_wf d" using d(3) fields assms(4) by simp_all
    from rollback_plan_run [OF assms(1) this d(2) reason(2), of "operator_plan ?reason c"] replaying that
    show ?thesis by blast
  qed
  have ordered: "rollback_ordered (apv_id actor) ?reason e r" if "r \<in> set (cs_repositories c)" for r
    using d(5) [OF that] e(7) by (simp add: rollback_ordered_def latest_governance_def)
  have "rollback_request directory delivery_id command idempotency_key w s =
      rollback_finish delivery_id ?reason idempotency_key w actor (map rd_to_view ?rs)
        (operator_plan ?reason c \<and> \<not> w') (cs_to_view e) (rp_to_view (last (cs_recovery_plans e))) u"
    by (rule rollback_request_run [OF assms(1,2,3,6) loop plan])
  moreover have "cst_lookup (dst_store u) ?key = Some (e, f)"
    using found e(1-4) d(4) fields by (simp add: cst_lookup_iff)
  ultimately show ?thesis
    using e fields ordered d(6) found
    by (intro that [of e "operator_plan ?reason c \<and> \<not> w'"
          "snd (rollback_finish delivery_id ?reason idempotency_key w actor (map rd_to_view ?rs)
             (operator_plan ?reason c \<and> \<not> w') (cs_to_view e) (rp_to_view (last (cs_recovery_plans e))) u)"])
      (auto simp: rollback_finish_def Let_def preturn_def append_event_def pbind_run rollback_answer_def)
qed

subsection \<open>An archive is stored once\<close>

lemma archive_add_run:
  "archive_add archive env s =
     (case das_get (acs_archives s) (dav_delivery_id archive) of
        None \<Rightarrow> (Inr None, s\<lparr>acs_archives := dict_set (dav_delivery_id archive) archive (acs_archives s)\<rparr>)
      | Some _ \<Rightarrow>
          case das_get (acs_archives (env s)) (dav_delivery_id archive) of
            None \<Rightarrow> (Inl (DeliveryConflict ''delivery is already archived''), env s)
          | Some a \<Rightarrow> (Inr (Some a), env s))"
  by (auto simp: archive_add_def ptry_conflict_def in_archives_def das_add_def das_get_def
      pbind_def [of "in_archives _"] preturn_def praise_def split: option.splits)

lemma in_delivery_key:
  assumes "cst_ok (dst_store (acs_delivery s))"
  shows "in_delivery (ds_get_by_idempotency_key key) s =
    (Inr (map_option (\<lambda>(c, f). cs_to_view c) (cst_lookup (dst_store (acs_delivery s)) key)), s)"
  using cst_get_by_idempotency_key_ok [OF assms, of key]
  by (simp add: in_delivery_def ds_get_by_idempotency_key_def pbind_def [of "in_store _"]
      in_store_def preturn_def)

text \<open>A delivery may be archived: its plan has ended, and so has its ChangeSet.\<close>

definition delivery_over :: "execution_plan_view \<Rightarrow> change_set option \<Rightarrow> bool" where
  "delivery_over plan c \<longleftrightarrow> epv_status plan \<noteq> EP_IN_PROGRESS \<and>
     (case c of
        None \<Rightarrow> True
      | Some c \<Rightarrow> cs_status c \<in> {CS_DELIVERED, CS_COMPENSATED} \<or>
          (epv_status plan = EP_FAILED \<or> cs_status c = CS_MANUAL_INTERVENTION) \<and>
          (cs_recovery_plans c = [] \<or> plan_finished (last (cs_recovery_plans c))))"

lemma require_terminal_view:
  "require_terminal (cs_to_view c) failed = Inr () \<longleftrightarrow>
     cs_status c \<in> {CS_DELIVERED, CS_COMPENSATED} \<or>
     (failed \<or> cs_status c = CS_MANUAL_INTERVENTION) \<and>
     (cs_recovery_plans c = [] \<or> plan_finished (last (cs_recovery_plans c)))"
  by (auto simp: require_terminal_def has_active_recovery_def latest_plan_view plan_incomplete_view)

lemma archive_delivery_run:
  assumes "das_get (acs_archives s) delivery_id = None" "plans delivery_id = Some plan"
    and "epv_status plan \<noteq> EP_IN_PROGRESS" "cst_ok (dst_store (acs_delivery (env 0 s)))"
    and "c = map_option fst (cst_lookup (dst_store (acs_delivery (env 0 s)))
           (delivery_change_set_key delivery_id))"
  shows "archive_delivery plans delivery_id fresh now env s =
    (if \<not> delivery_over plan c
     then (Inl (DeliveryConflict (''an active delivery cannot be archived (ChangeSet is '' @
            change_set_status_value (cs_status (the c)) @ '')'')), env 0 s)
     else pbind (archive_add \<lparr>dav_delivery_id = delivery_id, dav_archived_at = now\<rparr> (env 2)) (\<lambda>stored.
       case stored of Some a \<Rightarrow> preturn a
       | None \<Rightarrow> pbind (in_delivery (append_event (delivery_archived_event delivery_id plan
             (map_option cs_to_view c) fresh now)))
           (\<lambda>_. preturn \<lparr>dav_delivery_id = delivery_id, dav_archived_at = now\<rparr>)) (env 1 (env 0 s)))"
proof -
  have view: "map_option (\<lambda>(c, f). cs_to_view c) x = map_option cs_to_view (map_option fst x)" for x
    by (cases x) auto
  have terminal: "case_option (Inr ())
        ((\<lambda>v. require_terminal v (epv_status plan = EP_FAILED)) \<circ> cs_to_view) c =
      (if delivery_over plan c then Inr ()
       else Inl (DeliveryConflict (''an active delivery cannot be archived (ChangeSet is '' @
            change_set_status_value (cs_status (the c)) @ '')'')))"
    using assms(3)
    by (cases c) (auto simp: delivery_over_def require_terminal_def has_active_recovery_def
        latest_plan_view plan_incomplete_view)
  show ?thesis
    using assms(1-3)
    by (simp add: archive_delivery_def Let_def terminal view assms(5) [symmetric]
        pbind_run [of "in_delivery (ds_get_by_idempotency_key _)" "env 0 s", OF in_delivery_key [OF assms(4)]])
qed

subsection \<open>Properties\<close>

text \<open>Only a leader can stop or roll back a delivery. A governance decision is answered or changes
  anything only where an active principal of the ChangeSet's organization asks for it who leads the
  organization or that very repository; a rollback of the whole ChangeSet only where the principal
  leads the organization and no other recovery is running. This holds for every interference of
  other tasks: a request without authority ends before any await on the store.\<close>

theorem governance_needs_authority:
  assumes "cst_ok (dst_store s)"
    and "cst_lookup (dst_store s) (delivery_change_set_key delivery_id) = Some (c, f)"
  shows "((\<nexists>actor. directory (rgd_decided_by_agent_id decision) = Some actor \<and>
            may_govern actor c (rgd_repository_id decision)) \<longrightarrow>
         (\<exists>e. governance_record directory delivery_id decision key i fresh now env env' s = (Inl e, s))) \<and>
         ((\<nexists>actor. directory (rcb_requested_by_agent_id command) = Some actor \<and> may_roll_back actor c \<and>
            (cs_recovery_plans c = [] \<or> plan_finished (last (cs_recovery_plans c)) \<or>
             operator_plan (py_strip (rcb_reason command)) c)) \<longrightarrow>
         (\<exists>e. rollback_request directory delivery_id command key w s = (Inl e, s)))"
proof (intro conjI)
  show "(\<nexists>actor. directory (rcb_requested_by_agent_id command) = Some actor \<and> may_roll_back actor c \<and>
            (cs_recovery_plans c = [] \<or> plan_finished (last (cs_recovery_plans c)) \<or>
             operator_plan (py_strip (rcb_reason command)) c)) \<longrightarrow>
         (\<exists>e. rollback_request directory delivery_id command key w s = (Inl e, s))"
    using rollback_refused [OF assms, of directory command key w] by (auto simp: rollback_accepted_def)
  show "(\<nexists>actor. directory (rgd_decided_by_agent_id decision) = Some actor \<and>
            may_govern actor c (rgd_repository_id decision)) \<longrightarrow>
         (\<exists>e. governance_record directory delivery_id decision key i fresh now env env' s = (Inl e, s))"
  proof (rule impI, cases "py_strip key = [] \<or> cs_id c \<noteq> rgd_change_set_id decision")
    case False
    assume "\<nexists>actor. directory (rgd_decided_by_agent_id decision) = Some actor \<and>
            may_govern actor c (rgd_repository_id decision)"
    then obtain e where "governance_actor directory decision (cs_to_view c) = Inl e"
      by (cases "governance_actor directory decision (cs_to_view c)") (auto simp: governance_actor_Inr)
    with False show "\<exists>e. governance_record directory delivery_id decision key i fresh now env env' s = (Inl e, s)"
      by (simp add: governance_record_def
          pbind_run [of "delivery_change_set _ _" s, OF change_set_found [OF assms]])
  qed (use assms in \<open>auto simp: governance_record_def praise_def delivery_change_set_run pbind_err\<close>)
qed

text \<open>C21: A rollback request is all or nothing where no other task interferes and the heads are
  stored normalised: either it is refused and nothing was written, or every candidate of the
  ChangeSet has the requester's demand for a rollback as the latest decision on its head, so that
  no merge gate that requires governance is open, and the latest recovery plan is the request's.\<close>

theorem rollback_all_or_nothing:
  assumes "undisturbed w" and "cst_ok (dst_store s)"
    and "cst_lookup (dst_store s) (delivery_change_set_key delivery_id) = Some (c, f)"
    and "cs_wf c" and "\<forall>r \<in> set (cs_repositories c). normalised_head r"
    and "rollback_request directory delivery_id command key w s = (outcome, t)"
  shows "(\<exists>e. outcome = Inl e) \<and> t = s \<or>
    (\<exists>view d actor. outcome = Inr view \<and>
       directory (rcb_requested_by_agent_id command) = Some actor \<and> may_roll_back actor c \<and>
       cst_get (dst_store t) (cs_id c) = Some d \<and> cs_repositories d = cs_repositories c \<and>
       (\<forall>r \<in> set (cs_repositories d).
          rollback_ordered (apv_id actor) (py_strip (rcb_reason command)) d r \<and>
          (\<forall>service cases. dsv_require_governance service \<longrightarrow> \<not> gate_open service cases d r)) \<and>
       operator_plan (py_strip (rcb_reason command)) d \<and>
       crb_recovery_plan view = rp_to_view (last (cs_recovery_plans d)))"
proof (cases "\<exists>actor. rollback_accepted directory command key c actor")
  case True
  then obtain actor where accepted: "rollback_accepted directory command key c actor" by blast
  obtain d t' replayed where
    d: "rollback_request directory delivery_id command key w s = (Inr (rollback_answer delivery_id d replayed), t')"
      "cst_ok (dst_store t')" "cst_lookup (dst_store t') (delivery_change_set_key delivery_id) = Some (d, f)"
      "cs_id d = cs_id c" "cs_repositories d = cs_repositories c"
      "\<forall>r \<in> set (cs_repositories c). rollback_ordered (apv_id actor) (py_strip (rcb_reason command)) d r"
      "operator_plan (py_strip (rcb_reason command)) d"
    by (rule rollback_performed [OF assms(1-5) accepted]) blast
  with assms(6) have "outcome = Inr (rollback_answer delivery_id d replayed)" "t = t'" by simp_all
  moreover have "cst_get (dst_store t') (cs_id c) = Some d"
    using d(3,4) by (simp add: cst_lookup_iff [OF d(2)])
  moreover have "crb_recovery_plan (rollback_answer delivery_id d replayed) =
      rp_to_view (last (cs_recovery_plans d))" by (simp add: rollback_answer_def)
  ultimately show ?thesis
    using accepted d(5-7)
    by (intro disjI2 exI [of _ "rollback_answer delivery_id d replayed"] exI [of _ d] exI [of _ actor])
      (auto simp: rollback_accepted_def rollback_ordered_def gate_open_def)
next
  case False
  from rollback_refused [OF assms(2,3) False, of w] assms(6) show ?thesis by auto
qed

text \<open>Repeating a rollback request changes nothing: with the same reason from the same requester
  it is answered with the same decisions and the same recovery plan, marked as a replay, and no
  second plan or audit event is written, even while the first plan is running.\<close>

theorem rollback_repeatable:
  assumes "undisturbed w" and "undisturbed w'" and "cst_ok (dst_store s)"
    and "cst_lookup (dst_store s) (delivery_change_set_key delivery_id) = Some (c, f)"
    and "cs_wf c" and "\<forall>r \<in> set (cs_repositories c). normalised_head r"
    and "rollback_request directory delivery_id command key w s = (Inr view, t)"
    and "py_strip key' \<noteq> []"
  shows "rollback_request directory delivery_id command key' w' t = (Inr (view\<lparr>crb_replayed := True\<rparr>), t)"
proof -
  let ?reason = "py_strip (rcb_reason command)"
  obtain actor where accepted: "rollback_accepted directory command key c actor"
    using rollback_refused [OF assms(3,4), of directory command key w] assms(7) by auto
  obtain d t' replayed where
    d: "rollback_request directory delivery_id command key w s = (Inr (rollback_answer delivery_id d replayed), t')"
      "cst_ok (dst_store t')" "cst_lookup (dst_store t') (delivery_change_set_key delivery_id) = Some (d, f)"
      "cs_wf d" "cs_id d = cs_id c" "cs_repositories d = cs_repositories c"
      "cs_organization_id d = cs_organization_id c"
      "\<forall>r \<in> set (cs_repositories c). rollback_ordered (apv_id actor) ?reason d r" "operator_plan ?reason d"
    by (rule rollback_performed [OF assms(1,3-6) accepted]) blast
  with assms(7) have view: "view = rollback_answer delivery_id d replayed" and t: "t' = t" by simp_all
  have accepted': "rollback_accepted directory command key' d actor"
    using accepted assms(8) d(5,7,9) by (auto simp: rollback_accepted_def may_roll_back_def)
  have norm: "\<forall>r \<in> set (cs_repositories d). normalised_head r" using assms(6) d(6) by simp
  obtain e t'' replayed' where "rollback_request directory delivery_id command key' w' t =
      (Inr (rollback_answer delivery_id e replayed'), t'')" "replayed' \<and> t'' = t \<and> e = d"
    by (rule rollback_performed [OF assms(2) d(2,3,4) [unfolded t] norm accepted']) (use d(6,8,9) in auto)
  then show ?thesis by (simp add: view rollback_answer_def)
qed

text \<open>A delivery not yet archived can be archived exactly when its execution plan has ended and
  its ChangeSet, where there is one, has too: delivered or compensated, or given up (a failed plan
  or a ChangeSet left to manual intervention) with no recovery running.\<close>

theorem archive_accepts_ended:
  assumes "das_get (acs_archives s) delivery_id = None" and "cst_ok (dst_store (acs_delivery s))"
  shows "(\<exists>view t. archive_delivery plans delivery_id fresh now (\<lambda>_. id) s = (Inr view, t)) \<longleftrightarrow>
    (\<exists>plan. plans delivery_id = Some plan \<and> delivery_over plan
       (map_option fst (cst_lookup (dst_store (acs_delivery s)) (delivery_change_set_key delivery_id))))"
proof (cases "plans delivery_id")
  case None
  with assms(1) show ?thesis by (simp add: archive_delivery_def praise_def)
next
  case (Some plan)
  show ?thesis
  proof (cases "epv_status plan = EP_IN_PROGRESS")
    case True
    with assms(1) Some show ?thesis by (simp add: archive_delivery_def praise_def delivery_over_def)
  next
    case False
    from archive_delivery_run [where env = "\<lambda>_. id" and plans = plans, OF assms(1) Some False _ refl] assms Some
    show ?thesis
      by (auto simp: archive_add_run pbind_def in_delivery_def append_event_def preturn_def)
  qed
qed

text \<open>A delivery is archived once. Whatever other tasks do between its reads and its write, an
  archiving call that answers leaves the answer stored, every later call is answered with that
  archive and changes nothing, and an archive found on arrival is answered without any write.\<close>

theorem archived_once:
  assumes "\<And>x. cst_ok (dst_store (acs_delivery x)) \<Longrightarrow> cst_ok (dst_store (acs_delivery (env 0 x)))"
    and "cst_ok (dst_store (acs_delivery s))"
    and "archive_delivery plans delivery_id fresh now env s = (Inr view, t)"
  shows "das_get (acs_archives t) delivery_id = Some view \<and>
    archive_delivery plans' delivery_id fresh' now' env' t = (Inr view, t) \<and>
    (\<forall>old. das_get (acs_archives s) delivery_id = Some old \<longrightarrow> view = old \<and> t = s)"
proof -
  have found: "archive_delivery ps delivery_id fr n ev x = (Inr a, x)"
    if "das_get (acs_archives x) delivery_id = Some a" for ps fr n ev x a
    using that by (simp add: archive_delivery_def preturn_def)
  have stored: "das_get (acs_archives t) delivery_id = Some view"
  proof (cases "das_get (acs_archives s) delivery_id")
    case None
    then obtain plan where plan: "plans delivery_id = Some plan" "epv_status plan \<noteq> EP_IN_PROGRESS"
      using assms(3) by (auto simp: archive_delivery_def praise_def split: option.splits if_splits)
    from assms(3) show ?thesis
      unfolding archive_delivery_run [where plans = plans and env = env, OF None plan assms(1) [OF assms(2)] refl]
      by (auto simp: archive_add_run pbind_def in_delivery_def append_event_def preturn_def das_get_def
          split: if_splits option.splits)
  next
    case (Some a)
    with found [OF Some] assms(3) show ?thesis by simp
  qed
  have "view = old \<and> t = s" if "das_get (acs_archives s) delivery_id = Some old" for old
    using found [OF that] assms(3) by simp
  with stored show ?thesis by (simp add: found [OF stored])
qed

subsection \<open>Witnesses\<close>

definition sample_leader :: agent_principal_view where
  "sample_leader = \<lparr>apv_id = 300, apv_organization_id = 100, apv_role = AR_ORGANIZATION_LEADER,
     apv_leader_agent_id = None, apv_repository_id = None, apv_responsibility_paths = [],
     apv_agentteams_resource_name = ''lead'', apv_status = AS_ACTIVE\<rparr>"

definition sample_delivery :: delivery_state where
  "sample_delivery =
     \<lparr>dst_store = \<lparr>cst_items = [(9, sample_set [sample_candidate] CS_READY 1 0)],
        cst_keys = [(delivery_change_set_key 5, 9, ''f'')]\<rparr>, dst_events = [], dst_cases = []\<rparr>"

definition sample_world :: rollback_world where
  "sample_world = \<lparr>rw_decision_ids = (\<lambda>k. of_nat k), rw_plan_id = 60, rw_action_ids = (\<lambda>k. of_nat k),
     rw_correlation_id = 61, rw_event_id = 62, rw_now = 7, rw_before_decision = no_interference,
     rw_during_decision = no_interference, rw_before_plan = no_interference 0,
     rw_during_plan = no_interference 0\<rparr>"

definition sample_rollback_command :: request_change_set_rollback_command where
  "sample_rollback_command =
     \<lparr>rcb_change_set_id = 9, rcb_reason = ''t'', rcb_requested_by_agent_id = 300\<rparr>"

lemma sample_delivery_facts:
  "cst_ok (dst_store sample_delivery)"
  "cst_lookup (dst_store sample_delivery) (delivery_change_set_key 5) =
     Some (sample_set [sample_candidate] CS_READY 1 0, ''f'')"
  "\<forall>r \<in> set (cs_repositories (sample_set [sample_candidate] CS_READY 1 0)). normalised_head r"
  "undisturbed sample_world"
  using full_sha_sample sample_fields
  by (simp_all add: sample_delivery_def cst_ok_def cst_lookup_def sample_set_def undisturbed_def
      sample_world_def normalised_head_def sample_candidate_def)

lemma sample_accepted:
  "rollback_accepted (\<lambda>_. Some sample_leader) sample_rollback_command ''t''
     (sample_set [sample_candidate] CS_READY 1 0) sample_leader"
  by (simp add: rollback_accepted_def sample_rollback_command_def sample_leader_def may_roll_back_def
      sample_set_def)

theorem governance_needs_authority_witness:
  "\<exists>e. rollback_request (\<lambda>_. Some (sample_leader\<lparr>apv_role := AR_REPOSITORY_LEADER\<rparr>)) 5
     sample_rollback_command ''t'' sample_world sample_delivery = (Inl e, sample_delivery)"
  using governance_needs_authority [OF sample_delivery_facts(1,2),
      of "\<lambda>_. Some (sample_leader\<lparr>apv_role := AR_REPOSITORY_LEADER\<rparr>)" _ _ _ _ _ _ _ sample_rollback_command]
  by (simp add: may_roll_back_def)

theorem rollback_all_or_nothing_witness:
  "\<exists>view t d. rollback_request (\<lambda>_. Some sample_leader) 5 sample_rollback_command ''t'' sample_world
      sample_delivery = (Inr view, t) \<and>
     cst_get (dst_store t) 9 = Some d \<and> operator_plan ''t'' d \<and>
     rollback_ordered 300 ''t'' d sample_candidate"
proof -
  let ?c = "sample_set [sample_candidate] CS_READY 1 0"
  obtain view t where run: "rollback_request (\<lambda>_. Some sample_leader) 5 sample_rollback_command ''t''
      sample_world sample_delivery = (Inr view, t)"
    by (rule rollback_performed [OF sample_delivery_facts(4,1,2) sample_set_wf sample_delivery_facts(3)
        sample_accepted]) blast
  from rollback_all_or_nothing [OF sample_delivery_facts(4,1,2) sample_set_wf sample_delivery_facts(3) this]
  obtain d where "cst_get (dst_store t) 9 = Some d" "cs_repositories d = [sample_candidate]"
    "\<forall>r \<in> set (cs_repositories d). rollback_ordered 300 ''t'' d r" "operator_plan ''t'' d"
    by (auto simp: sample_set_def sample_leader_def sample_rollback_command_def)
  with run show ?thesis by auto
qed

theorem rollback_repeatable_witness:
  "\<exists>view t. rollback_request (\<lambda>_. Some sample_leader) 5 sample_rollback_command ''t'' sample_world
      sample_delivery = (Inr view, t) \<and>
    rollback_request (\<lambda>_. Some sample_leader) 5 sample_rollback_command ''t'' sample_world t =
      (Inr (view\<lparr>crb_replayed := True\<rparr>), t)"
proof -
  obtain view t where run: "rollback_request (\<lambda>_. Some sample_leader) 5 sample_rollback_command ''t''
      sample_world sample_delivery = (Inr view, t)"
    by (rule rollback_performed [OF sample_delivery_facts(4,1,2) sample_set_wf sample_delivery_facts(3)
        sample_accepted]) blast
  from rollback_repeatable [OF sample_delivery_facts(4,4,1,2) sample_set_wf sample_delivery_facts(3)
      this, of "''t''"] run
  show ?thesis by auto
qed

definition sample_plan_view :: execution_plan_view where
  "sample_plan_view = \<lparr>epv_id = 5, epv_organization_id = 100, epv_project_id = 200,
     epv_created_by_agent_id = 300, epv_status = EP_FAILED, epv_current_batch_index = 0,
     epv_batches = [], epv_delivery_refusal = None\<rparr>"

definition sample_archives :: archive_state where
  "sample_archives = \<lparr>acs_delivery = sample_delivery, acs_archives = []\<rparr>"

lemma sample_archives_facts:
  "das_get (acs_archives sample_archives) 5 = None" "cst_ok (dst_store (acs_delivery sample_archives))"
  using sample_delivery_facts(1) by (simp_all add: sample_archives_def das_get_def)

theorem archive_accepts_ended_witness:
  "\<exists>view t. archive_delivery (\<lambda>_. Some sample_plan_view) 5 (\<lambda>_. 1) 7 (\<lambda>_. id) sample_archives = (Inr view, t)"
  using archive_accepts_ended [OF sample_archives_facts, of "\<lambda>_. Some sample_plan_view" "\<lambda>_. 1" 7]
    sample_delivery_facts(2)
  by (simp add: delivery_over_def sample_archives_def sample_plan_view_def)
    (simp add: sample_set_def)

theorem archived_once_witness:
  "\<exists>t. das_get (acs_archives t) 5 = Some \<lparr>dav_delivery_id = 5, dav_archived_at = 7\<rparr> \<and>
     archive_delivery (\<lambda>_. None) 5 (\<lambda>_. 1) 8 (\<lambda>_. id) t = (Inr \<lparr>dav_delivery_id = 5, dav_archived_at = 7\<rparr>, t)"
proof -
  have "delivery_over sample_plan_view (map_option fst (cst_lookup (dst_store (acs_delivery
      (id sample_archives))) (delivery_change_set_key 5)))"
    using sample_delivery_facts(2)
    by (simp add: delivery_over_def sample_archives_def sample_plan_view_def) (simp add: sample_set_def)
  moreover have "epv_status sample_plan_view \<noteq> EP_IN_PROGRESS" by (simp add: sample_plan_view_def)
  ultimately obtain t where "archive_delivery (\<lambda>_. Some sample_plan_view) 5 (\<lambda>_. 1) 7 (\<lambda>_. id)
      sample_archives = (Inr \<lparr>dav_delivery_id = 5, dav_archived_at = 7\<rparr>, t)"
    using archive_delivery_run [OF sample_archives_facts(1), of "\<lambda>_. Some sample_plan_view" sample_plan_view
        "\<lambda>_. id", OF _ _ _ refl] sample_archives_facts
    by (auto simp: archive_add_run pbind_def in_delivery_def append_event_def preturn_def)
  from archived_once [OF _ sample_archives_facts(2) this, of "\<lambda>_. None" "\<lambda>_. 1" 8 "\<lambda>_. id"]
  show ?thesis by auto
qed

end
