(* ===== verification/Execution_Plan.thy ===== *)
theory Execution_Plan
  imports Task_Contracts "HOL-Library.Multiset"
begin

text \<open>
  \<open>PlannedRepositoryTask\<close>, \<open>DeliveryRefusal\<close> and \<open>ExecutionPlan\<close> of
  \<open>modules/task_orchestration/domain.py\<close>: the batches of repository tasks an organization
  leader plans, the operations on a plan, and what every reachable plan satisfies.
\<close>

subsection \<open>Planned tasks\<close>

record planned_repository_task =
  prt_repository_id :: uuid
  prt_title :: string
  prt_instruction :: string
  prt_acceptance :: "string list"
  prt_leader_task_id :: "uuid option"
  prt_tests :: "string list"
  prt_test_paths :: "string list"
  prt_depends_on :: "uuid list"

definition prt_post_init :: "planned_repository_task \<Rightarrow> planned_repository_task result" where
  "prt_post_init p =
     (if blank (prt_title p) \<or> blank (prt_instruction p)
      then Inl (ValueError ''planned task title and instruction are required'')
      else if prt_acceptance p = [] \<or> (\<exists>a \<in> set (prt_acceptance p). blank a)
      then Inl (ValueError ''at least one non-empty acceptance criterion is required'')
      else Inr p)"

definition prt_assigned_to :: "uuid \<Rightarrow> planned_repository_task \<Rightarrow> planned_repository_task result" where
  "prt_assigned_to task_id p = prt_post_init (p\<lparr>prt_leader_task_id := Some task_id\<rparr>)"

definition prt_to_view :: "planned_repository_task \<Rightarrow> planned_repository_task_view" where
  "prt_to_view p =
     \<lparr>prv_repository_id = prt_repository_id p, prv_title = prt_title p,
      prv_instruction = prt_instruction p, prv_acceptance = prt_acceptance p,
      prv_leader_task_id = prt_leader_task_id p, prv_tests = prt_tests p,
      prv_test_paths = prt_test_paths p, prv_depends_on = prt_depends_on p\<rparr>"

subsection \<open>Refusals\<close>

record delivery_refusal =
  dr_reason :: string
  dr_batch_index :: int
  dr_at :: datetime
  dr_repository_id :: "uuid option"
  dr_task_id :: "uuid option"

definition dr_same_as :: "delivery_refusal \<Rightarrow> delivery_refusal \<Rightarrow> bool" where
  "dr_same_as a b \<longleftrightarrow>
     dr_reason a = dr_reason b \<and> dr_batch_index a = dr_batch_index b \<and>
     dr_repository_id a = dr_repository_id b \<and> dr_task_id a = dr_task_id b"

definition dr_to_view :: "delivery_refusal \<Rightarrow> delivery_refusal_view" where
  "dr_to_view r =
     \<lparr>drv_reason = dr_reason r, drv_batch_index = dr_batch_index r,
      drv_repository_id = dr_repository_id r, drv_task_id = dr_task_id r, drv_at = dr_at r\<rparr>"

subsection \<open>Plans\<close>

record execution_plan =
  ep_organization_id :: uuid
  ep_project_id :: uuid
  ep_created_by_agent_id :: uuid
  ep_batches :: "planned_repository_task list list"
  ep_id :: uuid
  ep_current_batch_index :: int
  ep_status :: execution_plan_status
  ep_version :: int
  ep_delivery_refusal :: "delivery_refusal option"

record delivery_refusal_outcome =
  dro_plan :: "execution_plan option"
  dro_refusal :: delivery_refusal

definition ep_post_init :: "execution_plan \<Rightarrow> execution_plan result" where
  "ep_post_init p =
     (if ep_batches p = [] \<or> [] \<in> set (ep_batches p)
      then Inl (ValueError ''an execution plan needs at least one non-empty batch'')
      else if \<not> (0 \<le> ep_current_batch_index p \<and>
                 ep_current_batch_index p < int (length (ep_batches p)))
      then Inl (ValueError ''current_batch_index is outside the planned batches'')
      else Inr p)"

text \<open>A plan as its constructor makes it, with the defaults.\<close>

definition new_execution_plan ::
    "uuid \<Rightarrow> uuid \<Rightarrow> uuid \<Rightarrow> planned_repository_task list list \<Rightarrow> uuid \<Rightarrow> execution_plan result" where
  "new_execution_plan organization_id project_id created_by_agent_id batches i = ep_post_init
     \<lparr>ep_organization_id = organization_id, ep_project_id = project_id,
      ep_created_by_agent_id = created_by_agent_id, ep_batches = batches, ep_id = i,
      ep_current_batch_index = 0, ep_status = EP_IN_PROGRESS, ep_version = 1,
      ep_delivery_refusal = None\<rparr>"

text \<open>\<open>xs[index]\<close> counts from the end where the index is negative.\<close>

definition py_index :: "'a list \<Rightarrow> int \<Rightarrow> 'a result" where
  "py_index xs i =
     (if 0 \<le> i \<and> i < int (length xs) then Inr (xs ! nat i)
      else if - int (length xs) \<le> i \<and> i < 0 then Inr (xs ! nat (int (length xs) + i))
      else Inl (IndexError ''tuple index out of range''))"

definition ep_current_batch :: "execution_plan \<Rightarrow> planned_repository_task list result" where
  "ep_current_batch p = py_index (ep_batches p) (ep_current_batch_index p)"

definition ep_is_last_batch :: "execution_plan \<Rightarrow> bool" where
  "ep_is_last_batch p \<longleftrightarrow> ep_current_batch_index p = int (length (ep_batches p)) - 1"

definition ep_leader_task_ids :: "execution_plan \<Rightarrow> int \<Rightarrow> uuid list result" where
  "ep_leader_task_ids p batch_index =
     rbind (py_index (ep_batches p) batch_index)
       (\<lambda>batch. Inr (List.map_filter prt_leader_task_id batch))"

definition ep_require_in_progress :: "execution_plan \<Rightarrow> unit result" where
  "ep_require_in_progress p =
     (if ep_status p \<noteq> EP_IN_PROGRESS
      then Inl (TaskConflict ''a finished execution plan cannot change'') else Inr ())"

definition ep_with_leader_tasks :: "int \<Rightarrow> uuid list \<Rightarrow> execution_plan \<Rightarrow> execution_plan result" where
  "ep_with_leader_tasks batch_index leader_task_ids p =
     rbind (py_index (ep_batches p) batch_index) (\<lambda>batch.
     if length leader_task_ids \<noteq> length batch
     then Inl (TaskConflict ''every planned task of a batch needs one leader task'')
     else rbind (map_result (\<lambda>(planned, task_id). prt_assigned_to task_id planned)
                   (zip batch leader_task_ids))
       (\<lambda>assigned. ep_post_init (p\<lparr>
          ep_batches := map (\<lambda>(index, item). if int index = batch_index then assigned else item)
                          (enumerate 0 (ep_batches p)),
          ep_version := ep_version p + 1\<rparr>)))"

definition ep_advance :: "execution_plan \<Rightarrow> execution_plan result" where
  "ep_advance p =
     rbind (ep_require_in_progress p) (\<lambda>_.
     if ep_is_last_batch p then Inl (TaskConflict ''the last batch cannot be advanced'')
     else ep_post_init (p\<lparr>ep_current_batch_index := ep_current_batch_index p + 1,
                          ep_version := ep_version p + 1\<rparr>))"

definition ep_complete :: "execution_plan \<Rightarrow> execution_plan result" where
  "ep_complete p =
     rbind (ep_require_in_progress p) (\<lambda>_.
     ep_post_init (p\<lparr>ep_status := EP_COMPLETED, ep_version := ep_version p + 1\<rparr>))"

definition ep_fail :: "execution_plan \<Rightarrow> execution_plan result" where
  "ep_fail p =
     rbind (ep_require_in_progress p) (\<lambda>_.
     ep_post_init (p\<lparr>ep_status := EP_FAILED, ep_version := ep_version p + 1\<rparr>))"

definition ep_reopen :: "execution_plan \<Rightarrow> execution_plan result" where
  "ep_reopen p =
     (if ep_status p \<noteq> EP_FAILED
      then Inl (TaskConflict ''only a failed execution plan can be reopened'')
      else ep_post_init (p\<lparr>ep_status := EP_IN_PROGRESS, ep_version := ep_version p + 1\<rparr>))"

definition ep_refuse_delivery ::
    "string \<Rightarrow> uuid option \<Rightarrow> uuid option \<Rightarrow> datetime option \<Rightarrow> datetime \<Rightarrow> execution_plan
     \<Rightarrow> delivery_refusal_outcome result" where
  "ep_refuse_delivery reason repository_id task_id at now p =
     (let refusal = \<lparr>dr_reason = reason, dr_batch_index = ep_current_batch_index p,
            dr_at = (case at of None \<Rightarrow> now | Some t \<Rightarrow> t),
            dr_repository_id = repository_id, dr_task_id = task_id\<rparr>
      in case ep_delivery_refusal p of
           Some known \<Rightarrow>
             if dr_same_as known refusal then Inr \<lparr>dro_plan = None, dro_refusal = known\<rparr>
             else rbind (ep_post_init (p\<lparr>ep_delivery_refusal := Some refusal,
                                         ep_version := ep_version p + 1\<rparr>))
                    (\<lambda>q. Inr \<lparr>dro_plan = Some q, dro_refusal = refusal\<rparr>)
         | None \<Rightarrow> rbind (ep_post_init (p\<lparr>ep_delivery_refusal := Some refusal,
                                         ep_version := ep_version p + 1\<rparr>))
                    (\<lambda>q. Inr \<lparr>dro_plan = Some q, dro_refusal = refusal\<rparr>))"

definition ep_clear_delivery_refusal :: "execution_plan \<Rightarrow> execution_plan option result" where
  "ep_clear_delivery_refusal p =
     (if ep_delivery_refusal p = None then Inr None
      else rbind (ep_post_init (p\<lparr>ep_delivery_refusal := None, ep_version := ep_version p + 1\<rparr>))
             (\<lambda>q. Inr (Some q)))"

subsection \<open>Appending tasks\<close>

definition planned_ids :: "planned_repository_task list list \<Rightarrow> uuid list" where
  "planned_ids batches = map prt_repository_id (concat batches)"

text \<open>
  \<open>remaining\<close> is a dictionary from a repository to its item; the appended repositories differ
  when it is built, so it is the list of the items. \<open>sorted\<close> by the text of the key.
\<close>

definition ready_tasks :: "planned_repository_task list \<Rightarrow> uuid list \<Rightarrow> planned_repository_task list" where
  "ready_tasks remaining satisfied =
     filter (\<lambda>item. set (prt_depends_on item) \<subseteq> set satisfied)
       (sort_key (uuid_str \<circ> prt_repository_id) remaining)"

lemma set_ready_tasks:
  "set (ready_tasks remaining satisfied) =
     {item \<in> set remaining. set (prt_depends_on item) \<subseteq> set satisfied}"
  by (auto simp: ready_tasks_def)

text \<open>
  \<open>while remaining: ...\<close>: a round takes what is ready; each ready task is popped and its
  repository joins what is satisfied.
\<close>

definition pop_tasks :: "planned_repository_task list \<Rightarrow> planned_repository_task list \<Rightarrow> planned_repository_task list" where
  "pop_tasks ready remaining =
     filter (\<lambda>item. prt_repository_id item \<notin> set (map prt_repository_id ready)) remaining"

function append_rounds ::
    "planned_repository_task list \<Rightarrow> uuid list \<Rightarrow> planned_repository_task list list result" where
  "append_rounds remaining satisfied =
     (if remaining = [] then Inr []
      else let ready = ready_tasks remaining satisfied
           in if ready = []
              then Inl (TaskConflict ''dynamic task dependencies contain a cycle'')
              else rbind (append_rounds (pop_tasks ready remaining)
                            (satisfied @ map prt_repository_id ready))
                     (\<lambda>later. Inr (ready # later)))"
  by pat_completeness auto
termination append_rounds
proof (relation "measure (\<lambda>(remaining, _). length remaining)")
  fix remaining satisfied ready
  assume ready: "ready = ready_tasks remaining satisfied" "ready \<noteq> []"
  then have "hd ready \<in> set ready" by simp
  with ready have "hd ready \<in> set remaining" by (simp add: set_ready_tasks)
  with \<open>hd ready \<in> set ready\<close> have "length (pop_tasks ready remaining) < length remaining"
    unfolding pop_tasks_def by (intro length_filter_less) auto
  then show "((pop_tasks ready remaining, satisfied @ map prt_repository_id ready),
      (remaining, satisfied)) \<in> measure (\<lambda>(remaining, _). length remaining)" by simp
qed simp

declare append_rounds.simps [simp del]

definition append_check :: "uuid list \<Rightarrow> uuid list \<Rightarrow> planned_repository_task \<Rightarrow> unit result" where
  "append_check existing appended item =
     (if prt_repository_id item \<in> set (prt_depends_on item)
      then Inl (TaskConflict ''a dynamic task cannot depend on itself'')
      else if \<not> set (prt_depends_on item) \<subseteq> set existing \<union> set appended
      then Inl (TaskConflict ''dynamic task dependency is not in the plan'')
      else Inr ())"

definition ep_append_tasks :: "planned_repository_task list \<Rightarrow> execution_plan \<Rightarrow> execution_plan result" where
  "ep_append_tasks items p =
     rbind (ep_require_in_progress p) (\<lambda>_.
     if items = [] then Inl (TaskConflict ''dynamic plan revision requires appended tasks'')
     else let existing = planned_ids (ep_batches p); appended = map prt_repository_id items
     in if \<not> distinct appended
        then Inl (TaskConflict ''dynamic plan revision contains duplicate repositories'')
        else if set existing \<inter> set appended \<noteq> {}
        then Inl (TaskConflict ''existing repository work requires full replan'')
        else rbind (map_result (append_check existing appended) items) (\<lambda>_.
        rbind (append_rounds items existing) (\<lambda>batches.
        ep_post_init (p\<lparr>ep_batches := ep_batches p @ batches, ep_version := ep_version p + 1,
                         ep_delivery_refusal := None\<rparr>))))"

definition ep_to_view :: "execution_plan \<Rightarrow> execution_plan_view" where
  "ep_to_view p =
     \<lparr>epv_id = ep_id p, epv_organization_id = ep_organization_id p,
      epv_project_id = ep_project_id p, epv_created_by_agent_id = ep_created_by_agent_id p,
      epv_status = ep_status p, epv_current_batch_index = ep_current_batch_index p,
      epv_batches = map (map prt_to_view) (ep_batches p),
      epv_delivery_refusal = map_option dr_to_view (ep_delivery_refusal p)\<rparr>"

subsection \<open>What the rounds compute\<close>

fun dependencies_met :: "uuid list \<Rightarrow> planned_repository_task list list \<Rightarrow> bool" where
  "dependencies_met known [] = True"
| "dependencies_met known (batch # later) \<longleftrightarrow>
     (\<forall>t \<in> set batch. set (prt_depends_on t) \<subseteq> set known) \<and>
     dependencies_met (known @ map prt_repository_id batch) later"

text \<open>No task waits longer than it must: in a later batch it depends on the batch before.\<close>

fun waits_for_previous :: "planned_repository_task list \<Rightarrow> planned_repository_task list list \<Rightarrow> bool" where
  "waits_for_previous previous [] = True"
| "waits_for_previous previous (batch # later) \<longleftrightarrow>
     (\<forall>t \<in> set batch. set (prt_depends_on t) \<inter> prt_repository_id ` set previous \<noteq> {}) \<and>
     waits_for_previous batch later"

lemma mset_pop_ready:
  assumes "distinct (map prt_repository_id remaining)"
  shows "mset (ready_tasks remaining satisfied) +
    mset (pop_tasks (ready_tasks remaining satisfied) remaining) = mset remaining"
proof -
  let ?ready = "ready_tasks remaining satisfied"
  have inj: "inj_on prt_repository_id (set remaining)" using assms by (simp add: distinct_map)
  have "item \<in> set ?ready \<longleftrightarrow> prt_repository_id item \<in> prt_repository_id ` set ?ready"
    if "item \<in> set remaining" for item
    using that inj by (auto simp: set_ready_tasks inj_on_def)
  then have "pop_tasks ?ready remaining = filter (\<lambda>item. item \<notin> set ?ready) remaining"
    by (auto simp: pop_tasks_def intro!: filter_cong)
  moreover have "mset ?ready = mset (filter (\<lambda>item. item \<in> set ?ready) remaining)"
    by (auto simp: ready_tasks_def set_ready_tasks intro: filter_mset_cong)

  ultimately show ?thesis
    using multiset_partition [of "mset remaining" "\<lambda>item. item \<in> set ?ready"] by simp
qed

lemma pop_tasks_distinct:
  "distinct (map prt_repository_id remaining) \<Longrightarrow>
   distinct (map prt_repository_id (pop_tasks ready remaining))"
  by (simp add: pop_tasks_def distinct_map_filter)

lemma set_pop_tasks:
  "set (pop_tasks ready remaining) =
     {t \<in> set remaining. prt_repository_id t \<notin> prt_repository_id ` set ready}"
  by (auto simp: pop_tasks_def)

lemma append_rounds_Cons:
  assumes "append_rounds remaining satisfied = Inr batches" "remaining \<noteq> []"
  obtains later where "ready_tasks remaining satisfied \<noteq> []"
    "batches = ready_tasks remaining satisfied # later"
    "append_rounds (pop_tasks (ready_tasks remaining satisfied) remaining)
       (satisfied @ map prt_repository_id (ready_tasks remaining satisfied)) = Inr later"
  using assms by (auto simp: append_rounds.simps [of remaining] Let_def rbind_eq_Inr_iff split: if_splits)

lemma append_rounds_Nil [simp]: "append_rounds [] satisfied = Inr []"
  by (simp add: append_rounds.simps)

lemma popped_wait:
  assumes "t \<in> set (pop_tasks (ready_tasks remaining satisfied) remaining)"
    and "set (prt_depends_on t) \<subseteq> set satisfied \<union> prt_repository_id ` set ready"
  shows "set (prt_depends_on t) \<inter> prt_repository_id ` set ready \<noteq> {}"
proof -
  from assms(1) have "\<not> set (prt_depends_on t) \<subseteq> set satisfied"
    by (auto simp: set_pop_tasks set_ready_tasks)
  with assms(2) show ?thesis by blast
qed

lemma append_rounds_waits:
  assumes "append_rounds (pop_tasks (ready_tasks remaining satisfied) remaining)
      (satisfied @ map prt_repository_id (ready_tasks remaining satisfied)) = Inr (b # bs)"
    and "dependencies_met (satisfied @ map prt_repository_id (ready_tasks remaining satisfied)) (b # bs)"
    and "t \<in> set b"
  shows "set (prt_depends_on t) \<inter> prt_repository_id ` set (ready_tasks remaining satisfied) \<noteq> {}"
proof (rule popped_wait)
  let ?rest = "pop_tasks (ready_tasks remaining satisfied) remaining"
  have "?rest \<noteq> []" using assms(1) by (cases "?rest = []") simp_all
  then have "b = ready_tasks ?rest (satisfied @ map prt_repository_id (ready_tasks remaining satisfied))"
    by (rule append_rounds_Cons [OF assms(1)]) simp
  with assms(3) show "t \<in> set ?rest" by (metis (no_types, lifting) mem_Collect_eq set_ready_tasks)
  show "set (prt_depends_on t) \<subseteq> set satisfied \<union> prt_repository_id ` set (ready_tasks remaining satisfied)"
    using assms(2,3) by simp
qed

lemma append_rounds_sound:
  assumes "append_rounds remaining satisfied = Inr batches" "distinct (map prt_repository_id remaining)"
  shows "mset (concat batches) = mset remaining \<and> [] \<notin> set batches \<and>
    dependencies_met satisfied batches \<and>
    (batches = [] \<or> waits_for_previous (hd batches) (tl batches))"
  using assms
proof (induction remaining satisfied arbitrary: batches rule: append_rounds.induct)
  case (1 remaining satisfied)
  let ?ready = "ready_tasks remaining satisfied"
  show ?case
  proof (cases "remaining = []")
    case True
    with "1.prems"(1) show ?thesis by simp
  next
    case False
    from "1.prems"(1) False obtain later where ready: "?ready \<noteq> []" and batches: "batches = ?ready # later"
      and rec: "append_rounds (pop_tasks ?ready remaining) (satisfied @ map prt_repository_id ?ready)
          = Inr later" by (rule append_rounds_Cons)
    have IH: "mset (concat later) = mset (pop_tasks ?ready remaining)" "[] \<notin> set later"
      "dependencies_met (satisfied @ map prt_repository_id ?ready) later"
      "later = [] \<or> waits_for_previous (hd later) (tl later)"
      using "1.IH" [OF False refl ready rec pop_tasks_distinct [OF "1.prems"(2)]] by blast+
    have "mset (concat batches) = mset remaining"
      using IH(1) mset_pop_ready [OF "1.prems"(2), of satisfied] by (simp add: batches)
    moreover have "waits_for_previous ?ready later"
    proof (cases later)
      case (Cons b bs)
      have "set (prt_depends_on t) \<inter> prt_repository_id ` set ?ready \<noteq> {}" if "t \<in> set b" for t
        using rec IH(3) that unfolding Cons by (rule append_rounds_waits)
      with IH(4) Cons show ?thesis by simp
    qed simp
    moreover have "dependencies_met satisfied batches"
      using IH(3) by (simp add: batches set_ready_tasks)
    ultimately show ?thesis using ready IH(2) by (simp add: batches)
  qed
qed

lemma append_rounds_Inl:
  "append_rounds remaining satisfied = Inl e \<Longrightarrow>
     e = TaskConflict ''dynamic task dependencies contain a cycle''"
proof (induction remaining satisfied rule: append_rounds.induct)
  case (1 remaining satisfied)
  then show ?case
    by (auto simp: append_rounds.simps [of remaining] Let_def rbind_eq_Inl_iff split: if_splits)
qed

text \<open>The rounds succeed exactly when a rank falls along every dependency among the tasks.\<close>

definition tasks_acyclic :: "planned_repository_task list \<Rightarrow> bool" where
  "tasks_acyclic items \<longleftrightarrow>
     (\<exists>rank :: uuid \<Rightarrow> nat. \<forall>t \<in> set items. \<forall>d \<in> set (prt_depends_on t).
        d \<in> set (map prt_repository_id items) \<longrightarrow> rank d < rank (prt_repository_id t))"

lemma append_rounds_ready:
  assumes "tasks_acyclic remaining" "remaining \<noteq> []"
    and inside: "\<And>t d. t \<in> set remaining \<Longrightarrow> d \<in> set (prt_depends_on t) \<Longrightarrow>
      d \<in> set satisfied \<union> prt_repository_id ` set remaining"
  shows "ready_tasks remaining satisfied \<noteq> []"
proof -
  from assms(1) obtain rank :: "uuid \<Rightarrow> nat" where
    rank: "\<And>t d. t \<in> set remaining \<Longrightarrow> d \<in> set (prt_depends_on t) \<Longrightarrow>
      d \<in> prt_repository_id ` set remaining \<Longrightarrow> rank d < rank (prt_repository_id t)"
    by (auto simp: tasks_acyclic_def)
  obtain t where t: "t \<in> set remaining"
    and least: "\<And>u. u \<in> set remaining \<Longrightarrow> rank (prt_repository_id t) \<le> rank (prt_repository_id u)"
    using ex_min_if_finite [of "(rank \<circ> prt_repository_id) ` set remaining"] assms(2)
    by (fastforce simp: not_less)
  have "d \<in> set satisfied" if "d \<in> set (prt_depends_on t)" for d
    using inside [OF t that] rank [OF t that] least by force
  with t have "t \<in> set (ready_tasks remaining satisfied)" by (auto simp: set_ready_tasks)
  then show ?thesis by auto
qed

lemma tasks_acyclic_subset:
  "tasks_acyclic items \<Longrightarrow> set rest \<subseteq> set items \<Longrightarrow> tasks_acyclic rest"
proof -
  assume "tasks_acyclic items" and sub: "set rest \<subseteq> set items"
  then obtain rank :: "uuid \<Rightarrow> nat" where "\<forall>t \<in> set items. \<forall>d \<in> set (prt_depends_on t).
      d \<in> set (map prt_repository_id items) \<longrightarrow> rank d < rank (prt_repository_id t)"
    unfolding tasks_acyclic_def by blast
  then have "\<forall>t \<in> set rest. \<forall>d \<in> set (prt_depends_on t).
      d \<in> set (map prt_repository_id rest) \<longrightarrow> rank d < rank (prt_repository_id t)"
    using sub by (metis image_mono list.set_map subset_iff)
  then show "tasks_acyclic rest" unfolding tasks_acyclic_def by (intro exI [of _ rank])
qed

lemma append_rounds_complete:
  assumes "tasks_acyclic remaining"
    and "\<And>t d. t \<in> set remaining \<Longrightarrow> d \<in> set (prt_depends_on t) \<Longrightarrow>
      d \<in> set satisfied \<union> prt_repository_id ` set remaining"
  shows "\<exists>batches. append_rounds remaining satisfied = Inr batches"
  using assms
proof (induction remaining satisfied rule: append_rounds.induct)
  case (1 remaining satisfied)
  let ?ready = "ready_tasks remaining satisfied"
  let ?rest = "pop_tasks ?ready remaining"
  show ?case
  proof (cases "remaining = []")
    case False
    have ready: "?ready \<noteq> []"
      by (rule append_rounds_ready [OF "1.prems"(1) False]) (rule "1.prems"(2))
    have "\<exists>batches. append_rounds ?rest (satisfied @ map prt_repository_id ?ready) = Inr batches"
    proof (rule "1.IH" [OF False refl ready])
      show "tasks_acyclic ?rest"
        by (rule tasks_acyclic_subset [OF "1.prems"(1)]) (auto simp: set_pop_tasks)
      fix t d assume "t \<in> set ?rest" "d \<in> set (prt_depends_on t)"
      with "1.prems"(2) [of t d]
      show "d \<in> set (satisfied @ map prt_repository_id ?ready) \<union> prt_repository_id ` set ?rest"
        by (auto simp: set_pop_tasks)
    qed
    then obtain later where
      "append_rounds ?rest (satisfied @ map prt_repository_id ?ready) = Inr later" by blast
    with False ready show ?thesis by (subst append_rounds.simps) (simp add: Let_def)
  qed simp
qed

lemma dependencies_met_rank:
  assumes "dependencies_met known batches" "distinct (planned_ids batches)"
    "set known \<inter> set (planned_ids batches) = {}"
  shows "\<exists>rank :: uuid \<Rightarrow> nat. \<forall>t \<in> set (concat batches). \<forall>d \<in> set (prt_depends_on t).
    d \<in> set (planned_ids batches) \<longrightarrow> rank d < rank (prt_repository_id t)"
  using assms
proof (induction known batches rule: dependencies_met.induct)
  case (2 known batch later)
  let ?B = "prt_repository_id ` set batch"
  have "distinct (planned_ids later)" "prt_repository_id ` set batch \<inter> set (planned_ids later) = {}"
    "set known \<inter> set (planned_ids later) = {}"
    using "2.prems"(2,3) by (auto simp: planned_ids_def simp del: set_concat)
  with "2.prems"(1) have "\<exists>rank :: uuid \<Rightarrow> nat. \<forall>t \<in> set (concat later). \<forall>d \<in> set (prt_depends_on t).
      d \<in> set (planned_ids later) \<longrightarrow> rank d < rank (prt_repository_id t)"
    by (intro "2.IH") (simp_all add: Int_Un_distrib2)
  then obtain rank :: "uuid \<Rightarrow> nat" where rank: "\<And>t d. t \<in> set (concat later) \<Longrightarrow>
      d \<in> set (prt_depends_on t) \<Longrightarrow> d \<in> set (planned_ids later) \<Longrightarrow> rank d < rank (prt_repository_id t)"
    by blast
  let ?rank = "\<lambda>i. if i \<in> ?B then 0 else Suc (rank i)"
  have "?rank d < ?rank (prt_repository_id t)"
    if t: "t \<in> set (concat (batch # later))" and d: "d \<in> set (prt_depends_on t)"
      "d \<in> set (planned_ids (batch # later))" for t d
  proof (cases "t \<in> set batch")
    case True
    with "2.prems"(1) d(1) have "d \<in> set known" by auto
    with d(2) "2.prems"(3) show ?thesis by auto
  next
    case False
    with t have later: "t \<in> set (concat later)" by auto
    then have "prt_repository_id t \<notin> ?B" using "2.prems"(2) by (force simp: planned_ids_def)
    moreover have "d \<in> ?B \<or> d \<in> set (planned_ids later)" using d(2) by (auto simp: planned_ids_def)
    ultimately show ?thesis using rank [OF later d(1)] by auto
  qed
  then show ?case by (intro exI [of _ ?rank] ballI impI) assumption
qed simp

lemma append_rounds_iff:
  assumes distinct: "distinct (map prt_repository_id items)"
    and disjoint: "set known \<inter> set (map prt_repository_id items) = {}"
    and inside: "\<And>t d. t \<in> set items \<Longrightarrow> d \<in> set (prt_depends_on t) \<Longrightarrow>
      d \<in> set known \<union> prt_repository_id ` set items"
  shows "(\<exists>batches. append_rounds items known = Inr batches) \<longleftrightarrow> tasks_acyclic items"
proof
  assume "\<exists>batches. append_rounds items known = Inr batches"
  then obtain batches where "append_rounds items known = Inr batches" by blast
  from append_rounds_sound [OF this distinct]
  have batches: "mset (concat batches) = mset items" "dependencies_met known batches" by blast+
  have ids: "mset (planned_ids batches) = mset (map prt_repository_id items)"
    unfolding planned_ids_def using batches(1) by simp
  have "distinct (planned_ids batches)" using distinct ids mset_eq_imp_distinct_iff by blast
  moreover have "set (planned_ids batches) = set (map prt_repository_id items)"
    using ids by (rule mset_eq_setD)
  moreover have "set (concat batches) = set items" using batches(1) by (rule mset_eq_setD)
  ultimately show "tasks_acyclic items"
    using dependencies_met_rank [OF batches(2)] disjoint by (simp add: tasks_acyclic_def)
qed (use inside append_rounds_complete in blast)

subsection \<open>Steps and invariant\<close>

definition ep_wf :: "execution_plan \<Rightarrow> bool" where
  "ep_wf p \<longleftrightarrow>
     ep_batches p \<noteq> [] \<and> [] \<notin> set (ep_batches p) \<and> 0 \<le> ep_current_batch_index p \<and>
     ep_current_batch_index p < int (length (ep_batches p))"

lemma ep_post_init_Inr [simp]: "ep_post_init p = Inr q \<longleftrightarrow> q = p \<and> ep_wf p"
  by (auto simp: ep_post_init_def ep_wf_def)

inductive ep_step :: "execution_plan \<Rightarrow> execution_plan \<Rightarrow> bool" where
  leader_tasks: "ep_with_leader_tasks batch_index task_ids p = Inr q \<Longrightarrow> ep_step p q"
| advance: "ep_advance p = Inr q \<Longrightarrow> ep_step p q"
| complete: "ep_complete p = Inr q \<Longrightarrow> ep_step p q"
| fail: "ep_fail p = Inr q \<Longrightarrow> ep_step p q"
| reopen: "ep_reopen p = Inr q \<Longrightarrow> ep_step p q"
| refuse: "ep_refuse_delivery reason repository_id task_id at now p
     = Inr \<lparr>dro_plan = Some q, dro_refusal = refusal\<rparr> \<Longrightarrow> ep_step p q"
| clear: "ep_clear_delivery_refusal p = Inr (Some q) \<Longrightarrow> ep_step p q"
| append: "ep_append_tasks items p = Inr q \<Longrightarrow> ep_step p q"

inductive_cases ep_stepE: "ep_step p q"

inductive ep_steps :: "execution_plan \<Rightarrow> execution_plan \<Rightarrow> bool" where
  none: "ep_steps p p"
| more: "ep_steps p q \<Longrightarrow> ep_step q r \<Longrightarrow> ep_steps p r"

lemmas ep_op_defs = ep_with_leader_tasks_def ep_advance_def ep_complete_def ep_fail_def
  ep_reopen_def ep_refuse_delivery_def ep_clear_delivery_refusal_def ep_append_tasks_def
  ep_require_in_progress_def

text \<open>The work a plan has planned: everything but which tasks carry it out.\<close>

definition planned_work :: "execution_plan \<Rightarrow> planned_repository_task list list" where
  "planned_work p = map (map (prt_leader_task_id_update (\<lambda>_. None))) (ep_batches p)"

lemma py_index_Inr:
  "py_index xs i = Inr x \<longleftrightarrow> (\<exists>k < length xs. x = xs ! k \<and>
     (i = int k \<or> i = int k - int (length xs)))"
proof
  assume "py_index xs i = Inr x"
  then show "\<exists>k < length xs. x = xs ! k \<and> (i = int k \<or> i = int k - int (length xs))"
    by (auto simp: py_index_def split: if_splits
        intro: exI [of _ "nat i"] exI [of _ "nat (int (length xs) + i)"])
qed (auto simp: py_index_def nat_add_distrib)

lemma assigned_repositories:
  "map_result (\<lambda>(planned, task_id). prt_assigned_to task_id planned) (zip batch ids) = Inr assigned \<Longrightarrow>
   length ids = length batch \<Longrightarrow>
   assigned = map (\<lambda>(planned, task_id). planned\<lparr>prt_leader_task_id := Some task_id\<rparr>) (zip batch ids)"
proof (induction batch arbitrary: ids assigned)
  case (Cons planned batch)
  then show ?case
    by (cases ids) (auto simp: rbind_eq_Inr_iff prt_assigned_to_def prt_post_init_def split: if_splits)
qed simp

lemma map_enumerate_if:
  "map (\<lambda>(index, item). if int index = i then x else item) (enumerate 0 xs) =
     (if 0 \<le> i \<and> i < int (length xs) then xs[nat i := x] else xs)"
  by (rule nth_equalityI) (auto simp: nth_enumerate_eq nth_list_update)

text \<open>\<open>with_leader_tasks\<close> writes the given tasks into the batch and changes nothing else.\<close>

lemma ep_with_leader_tasks_Inr:
  assumes "ep_with_leader_tasks i ids p = Inr q"
  shows "ep_wf q \<and> planned_work q = planned_work p \<and> (\<exists>batches. q = p\<lparr>ep_batches := batches,
    ep_version := ep_version p + 1\<rparr>)"
proof -
  from assms obtain batch assigned where batch: "py_index (ep_batches p) i = Inr batch"
    and ids: "length ids = length batch"
    and assigned: "map_result (\<lambda>(planned, task_id). prt_assigned_to task_id planned) (zip batch ids)
      = Inr assigned"
    and q: "q = p\<lparr>ep_batches := map (\<lambda>(index, item). if int index = i then assigned else item)
        (enumerate 0 (ep_batches p)), ep_version := ep_version p + 1\<rparr>" "ep_wf q"
    by (auto simp: ep_with_leader_tasks_def rbind_eq_Inr_iff split: if_splits)
  have work: "map (prt_leader_task_id_update (\<lambda>_. None)) assigned = map (prt_leader_task_id_update (\<lambda>_. None)) batch"
    unfolding assigned_repositories [OF assigned ids]
    by (rule nth_equalityI) (auto simp: ids)
  have "planned_work q = planned_work p"
  proof (cases "0 \<le> i \<and> i < int (length (ep_batches p))")
    case True
    with batch have "batch = ep_batches p ! nat i" by (simp add: py_index_def)
    with True work show ?thesis
      by (simp add: q(1) planned_work_def map_enumerate_if map_update list_update_same_conv nat_less_iff)
  qed (auto simp: q(1) planned_work_def map_enumerate_if)
  with q show ?thesis by blast
qed

lemma map_result_ex:
  "(\<exists>ys. map_result f xs = Inr ys) \<longleftrightarrow> (\<forall>x \<in> set xs. \<exists>y. f x = Inr y)"
  by (induction xs) (auto simp: rbind_eq_Inr_iff)

lemma ep_append_tasks_Inr:
  "ep_append_tasks items p = Inr q \<longleftrightarrow>
     ep_status p = EP_IN_PROGRESS \<and> items \<noteq> [] \<and> distinct (map prt_repository_id items) \<and>
     set (planned_ids (ep_batches p)) \<inter> set (map prt_repository_id items) = {} \<and>
     (\<forall>t \<in> set items. prt_repository_id t \<notin> set (prt_depends_on t) \<and>
        set (prt_depends_on t) \<subseteq> set (planned_ids (ep_batches p)) \<union> set (map prt_repository_id items)) \<and>
     (\<exists>batches. append_rounds items (planned_ids (ep_batches p)) = Inr batches \<and>
        q = p\<lparr>ep_batches := ep_batches p @ batches, ep_version := ep_version p + 1,
              ep_delivery_refusal := None\<rparr> \<and> ep_wf q)"
proof -
  have "(\<exists>us. map_result (append_check existing appended) items = Inr us) \<longleftrightarrow>
      (\<forall>t \<in> set items. prt_repository_id t \<notin> set (prt_depends_on t) \<and>
        set (prt_depends_on t) \<subseteq> set existing \<union> set appended)" for existing appended
    by (auto simp: map_result_ex append_check_def)
  then show ?thesis
    by (simp add: ep_append_tasks_def ep_require_in_progress_def rbind_eq_Inr_iff Let_def) blast
qed

lemma ep_step_effect:
  assumes "ep_step p q" "ep_wf p"
  shows "ep_wf q \<and> ep_version q = ep_version p + 1 \<and> ep_id q = ep_id p \<and>
    ep_organization_id q = ep_organization_id p \<and> ep_project_id q = ep_project_id p \<and>
    ep_created_by_agent_id q = ep_created_by_agent_id p \<and>
    ep_current_batch_index p \<le> ep_current_batch_index q \<and>
    (\<exists>new. planned_work q = planned_work p @ new) \<and>
    (ep_status p = EP_COMPLETED \<longrightarrow> ep_status q = EP_COMPLETED \<and>
       ep_current_batch_index q = ep_current_batch_index p \<and> planned_work q = planned_work p)"
  using assms(1)
proof cases
  case (leader_tasks i ids)
  from ep_with_leader_tasks_Inr [OF this] show ?thesis by auto
next
  case (append items)
  then show ?thesis by (auto simp: ep_append_tasks_Inr planned_work_def)
qed (use assms(2) in \<open>auto simp: ep_op_defs rbind_eq_Inr_iff Let_def planned_work_def
       split: if_splits option.splits\<close>)

subsection \<open>Properties\<close>

text \<open>C24: A plan only moves forward. Whatever operations run on it, its identity, organization, project and
  owner stay, the work it has planned stays as it is and only gains batches at the end, the current
  batch index never falls, and every write raises the version. A completed plan stays completed, on
  the same batch and with the same work; what can still be written to it is which tasks carry the
  work out, the delivery refusal and the version.\<close>

theorem plan_only_moves_forward:
  assumes "ep_steps p q" and "ep_wf p"
  shows "ep_wf q \<and> ep_id q = ep_id p \<and> ep_organization_id q = ep_organization_id p \<and>
    ep_project_id q = ep_project_id p \<and> ep_created_by_agent_id q = ep_created_by_agent_id p \<and>
    (\<exists>new. planned_work q = planned_work p @ new) \<and>
    ep_current_batch_index p \<le> ep_current_batch_index q \<and>
    (q = p \<or> ep_version p < ep_version q) \<and>
    (ep_status p = EP_COMPLETED \<longrightarrow> ep_status q = EP_COMPLETED \<and>
       ep_current_batch_index q = ep_current_batch_index p \<and> planned_work q = planned_work p)"
  using assms
proof induction
  case (more p q r)
  then have "ep_wf q" by simp
  note step = ep_step_effect [OF more.hyps(2) this]
  from more show ?case using step by fastforce
qed simp

text \<open>C22: Appending tasks extends the plan by batches that hold each new task once, where every
  dependency of a task is planned in an earlier batch, and no task waits needlessly: past the
  first new batch, a task depends on one of the batch right before its own.\<close>

theorem append_tasks_batches:
  assumes "ep_append_tasks items p = Inr q"
  shows "\<exists>first later. ep_batches q = ep_batches p @ first # later \<and>
    mset (concat (first # later)) = mset items \<and> [] \<notin> set (first # later) \<and>
    dependencies_met (planned_ids (ep_batches p)) (first # later) \<and>
    waits_for_previous first later \<and>
    ep_version q = ep_version p + 1 \<and> ep_current_batch_index q = ep_current_batch_index p"
proof -
  from assms obtain batches where
    rounds: "append_rounds items (planned_ids (ep_batches p)) = Inr batches"
    and q: "q = p\<lparr>ep_batches := ep_batches p @ batches, ep_version := ep_version p + 1,
              ep_delivery_refusal := None\<rparr>" and items: "items \<noteq> []" "distinct (map prt_repository_id items)"
    by (auto simp: ep_append_tasks_Inr)
  from append_rounds_sound [OF rounds items(2)] have
    batches: "mset (concat batches) = mset items" "[] \<notin> set batches"
      "dependencies_met (planned_ids (ep_batches p)) batches"
      "batches = [] \<or> waits_for_previous (hd batches) (tl batches)" by blast+
  with items(1) have "batches \<noteq> []" by auto
  then obtain first later where "batches = first # later" by (cases batches) auto
  with batches q show ?thesis by auto
qed

text \<open>C23: A plan accepts appended tasks exactly when it is in progress, there are some, no
  repository is named twice or already planned, every dependency is in the plan or among the new
  tasks, and the new tasks do not depend on each other in a circle.\<close>

theorem append_tasks_accepts:
  assumes "ep_wf p"
  shows "(\<exists>q. ep_append_tasks items p = Inr q) \<longleftrightarrow>
    ep_status p = EP_IN_PROGRESS \<and> items \<noteq> [] \<and> distinct (map prt_repository_id items) \<and>
    set (planned_ids (ep_batches p)) \<inter> set (map prt_repository_id items) = {} \<and>
    (\<forall>t \<in> set items. set (prt_depends_on t) \<subseteq>
       set (planned_ids (ep_batches p)) \<union> set (map prt_repository_id items)) \<and>
    tasks_acyclic items" (is "?accepts \<longleftrightarrow> ?conditions")
proof
  assume ?accepts
  then obtain batches where "append_rounds items (planned_ids (ep_batches p)) = Inr batches"
    by (auto simp: ep_append_tasks_Inr)
  with \<open>?accepts\<close> show ?conditions
    using append_rounds_iff [of items "planned_ids (ep_batches p)"] by (fastforce simp: ep_append_tasks_Inr)
next
  assume conditions: ?conditions
  then obtain batches where rounds: "append_rounds items (planned_ids (ep_batches p)) = Inr batches"
    using append_rounds_iff [of items "planned_ids (ep_batches p)"] by fastforce
  have self: "prt_repository_id t \<notin> set (prt_depends_on t)" if "t \<in> set items" for t
    using conditions that by (fastforce simp: tasks_acyclic_def)
  have "[] \<notin> set batches" using append_rounds_sound [OF rounds] conditions by blast
  with assms rounds self conditions show ?accepts by (auto simp: ep_append_tasks_Inr ep_wf_def)
qed

text \<open>Restating a refusal writes nothing. After a refusal was recorded, the same reason for the
  same task on the same batch is answered with the refusal already stored, its time included,
  whatever the clock says now; clearing it removes it and is a no-op when there is none.\<close>

theorem refusal_recorded_once:
  assumes "ep_wf p" and "ep_refuse_delivery reason repository_id task_id at now p = Inr outcome"
  shows "ep_delivery_refusal (case dro_plan outcome of None \<Rightarrow> p | Some q \<Rightarrow> q) = Some (dro_refusal outcome) \<and>
    ep_refuse_delivery reason repository_id task_id at' now'
      (case dro_plan outcome of None \<Rightarrow> p | Some q \<Rightarrow> q)
      = Inr \<lparr>dro_plan = None, dro_refusal = dro_refusal outcome\<rparr> \<and>
    (\<exists>q. ep_clear_delivery_refusal (case dro_plan outcome of None \<Rightarrow> p | Some q \<Rightarrow> q) = Inr (Some q) \<and>
       ep_delivery_refusal q = None \<and> ep_clear_delivery_refusal q = Inr None)"
proof -
  have wf: "ep_wf (p\<lparr>ep_delivery_refusal := r, ep_version := v\<rparr>)" for r v
    using assms(1) by (simp add: ep_wf_def)
  consider (known) known where "ep_delivery_refusal p = Some known"
      "outcome = \<lparr>dro_plan = None, dro_refusal = known\<rparr>" "dr_reason known = reason"
      "dr_batch_index known = ep_current_batch_index p" "dr_repository_id known = repository_id"
      "dr_task_id known = task_id"
    | (fresh) r where "outcome = \<lparr>dro_plan = Some (p\<lparr>ep_delivery_refusal := Some r,
        ep_version := ep_version p + 1\<rparr>), dro_refusal = r\<rparr>" "dr_reason r = reason"
      "dr_batch_index r = ep_current_batch_index p" "dr_repository_id r = repository_id"
      "dr_task_id r = task_id"
    using assms(2) by (auto simp: ep_refuse_delivery_def Let_def rbind_eq_Inr_iff dr_same_as_def
        split: option.splits if_splits)
  then show ?thesis
  proof cases
    case known
    then show ?thesis
      using wf [where r = None] by (simp add: ep_refuse_delivery_def ep_clear_delivery_refusal_def Let_def
          dr_same_as_def rbind_eq_Inr_iff)
  next
    case fresh
    then show ?thesis
      using wf [where r = None] by (simp add: ep_refuse_delivery_def ep_clear_delivery_refusal_def Let_def
          dr_same_as_def rbind_eq_Inr_iff)
  qed
qed

subsection \<open>Witnesses\<close>

definition sample_planned :: "uuid \<Rightarrow> uuid list \<Rightarrow> planned_repository_task" where
  "sample_planned i deps =
     \<lparr>prt_repository_id = i, prt_title = ''t'', prt_instruction = ''i'', prt_acceptance = [''a''],
      prt_leader_task_id = None, prt_tests = [], prt_test_paths = [], prt_depends_on = deps\<rparr>"

definition sample_plan :: execution_plan where
  "sample_plan =
     \<lparr>ep_organization_id = 100, ep_project_id = 200, ep_created_by_agent_id = 300,
      ep_batches = [[sample_planned 1 []]], ep_id = 9, ep_current_batch_index = 0,
      ep_status = EP_IN_PROGRESS, ep_version = 1, ep_delivery_refusal = None\<rparr>"

definition sample_appended :: execution_plan where
  "sample_appended = sample_plan\<lparr>ep_batches :=
     [[sample_planned 1 []], [sample_planned 2 [1]], [sample_planned 3 [1, 2]]], ep_version := 2\<rparr>"

lemma sample_plan_wf [simp]: "ep_wf sample_plan"
  by (simp add: ep_wf_def sample_plan_def)

lemma insort_key_uuid_text: "insort_key (uuid_str \<circ> f) x xs = insort_key f x xs"
  by (induction xs) (simp_all add: uuid_str_le)

lemma sort_key_uuid_text [simp]: "sort_key (uuid_str \<circ> f) xs = sort_key f xs"
  by (induction xs) (simp_all add: insort_key_uuid_text [unfolded comp_def])

lemmas sample_plan_defs = sample_plan_def sample_planned_def planned_ids_def ready_tasks_def
  pop_tasks_def

lemma sample_append:
  "ep_append_tasks [sample_planned 3 [1, 2], sample_planned 2 [1]] sample_plan = Inr sample_appended"
  by (simp add: ep_append_tasks_Inr sample_appended_def append_rounds.simps ep_wf_def sample_plan_defs)

text \<open>Two repositories are appended, the plan is completed, and a refusal is written to it afterwards.\<close>

definition sample_completed :: execution_plan where
  "sample_completed = sample_appended\<lparr>ep_status := EP_COMPLETED, ep_version := 3\<rparr>"

definition sample_refused :: execution_plan where
  "sample_refused = sample_completed\<lparr>ep_version := 4, ep_delivery_refusal :=
     Some \<lparr>dr_reason = ''no'', dr_batch_index = 0, dr_at = 0, dr_repository_id = None, dr_task_id = None\<rparr>\<rparr>"

lemma sample_completed_steps: "ep_steps sample_plan sample_completed" "ep_steps sample_completed sample_refused"
proof -
  have complete: "ep_complete sample_appended = Inr sample_completed"
    by (simp add: ep_complete_def ep_require_in_progress_def ep_post_init_def sample_completed_def sample_appended_def sample_plan_def)
  have refuse: "ep_refuse_delivery ''no'' None None (Some 0) 0 sample_completed =
      Inr \<lparr>dro_plan = Some sample_refused, dro_refusal = the (ep_delivery_refusal sample_refused)\<rparr>"
    by (simp add: ep_refuse_delivery_def Let_def ep_post_init_def sample_refused_def sample_completed_def sample_appended_def
        sample_plan_def)
  show "ep_steps sample_plan sample_completed"
    by (blast intro: ep_steps.intros ep_step.append ep_step.complete sample_append complete)
  show "ep_steps sample_completed sample_refused"
    by (blast intro: ep_steps.intros ep_step.refuse refuse)
qed

theorem plan_only_moves_forward_witness:
  "ep_version sample_plan < ep_version sample_completed \<and>
   (\<exists>new. planned_work sample_completed = planned_work sample_plan @ new) \<and>
   ep_status sample_refused = EP_COMPLETED \<and> planned_work sample_refused = planned_work sample_completed \<and>
   ep_version sample_completed < ep_version sample_refused"
proof -
  have wf: "ep_wf sample_completed" using plan_only_moves_forward [OF sample_completed_steps(1)] by simp
  have "ep_version sample_plan < ep_version sample_completed" "ep_version sample_completed < ep_version sample_refused"
    "ep_status sample_completed = EP_COMPLETED"
    by (simp_all add: sample_refused_def sample_completed_def sample_appended_def sample_plan_def)
  then show ?thesis
    using plan_only_moves_forward [OF sample_completed_steps(1) sample_plan_wf]
      plan_only_moves_forward [OF sample_completed_steps(2) wf] by blast
qed

theorem append_tasks_batches_witness:
  "\<exists>first later. ep_batches sample_appended = ep_batches sample_plan @ first # later \<and>
     waits_for_previous first later"
  using append_tasks_batches [OF sample_append] by blast

theorem append_tasks_accepts_witness:
  "\<not> tasks_acyclic [sample_planned 2 [3], sample_planned 3 [2]]"
proof -
  let ?items = "[sample_planned 2 [3], sample_planned 3 [2]]"
  have "append_rounds ?items [1] = Inl (TaskConflict ''dynamic task dependencies contain a cycle'')"
    by (simp add: append_rounds.simps sample_plan_defs)
  then have "\<not> (\<exists>q. ep_append_tasks ?items sample_plan = Inr q)"
    by (simp add: ep_append_tasks_Inr sample_plan_defs)
  then show ?thesis
    using append_tasks_accepts [OF sample_plan_wf, of ?items] by (simp add: sample_plan_defs)
qed

definition sample_refusal :: delivery_refusal where
  "sample_refusal = \<lparr>dr_reason = ''no tests'', dr_batch_index = 0, dr_at = 5,
     dr_repository_id = None, dr_task_id = None\<rparr>"

theorem refusal_recorded_once_witness:
  "ep_refuse_delivery ''no tests'' None None None 99
     (sample_plan\<lparr>ep_delivery_refusal := Some sample_refusal, ep_version := 2\<rparr>)
   = Inr \<lparr>dro_plan = None, dro_refusal = sample_refusal\<rparr>"
proof -
  have "ep_refuse_delivery ''no tests'' None None None 5 sample_plan =
      Inr \<lparr>dro_plan = Some (sample_plan\<lparr>ep_delivery_refusal := Some sample_refusal, ep_version := 2\<rparr>),
        dro_refusal = sample_refusal\<rparr>"
    by (simp add: ep_refuse_delivery_def Let_def rbind_eq_Inr_iff sample_refusal_def sample_plan_def
        ep_wf_def)
  from refusal_recorded_once [OF sample_plan_wf this, of None 99] show ?thesis by simp
qed

end
