(* ===== verification/Json_Parse.thy ===== *)
theory Json_Parse
  imports Py_Parse
begin

text \<open>
  \<open>json.loads\<close> of a text. A float keeps its decimal form; the words \<open>NaN\<close> and
  \<open>Infinity\<close>, which are not JSON, and escapes of characters beyond code point 255, which a
  \<open>string\<close> here does not hold, count as malformed. Of equal keys the last one's value wins.
\<close>

subsection \<open>Tokens\<close>

definition skip_blank :: "string \<Rightarrow> string" where
  "skip_blank s = dropWhile (\<lambda>c. of_char c \<in> {9, 10, 13, 32 :: nat}) s"

fun expect :: "char \<Rightarrow> string \<Rightarrow> string option" where
  "expect c [] = None"
| "expect c (d # s) = (if d = c then Some s else None)"

definition word :: "string \<Rightarrow> json \<Rightarrow> string \<Rightarrow> (json \<times> string) option" where
  "word w j s = (if take (length w) s = w then Some (j, drop (length w) s) else None)"

definition escaped :: "char \<Rightarrow> char option" where
  "escaped c = map_of
     [(CHR 0x22, CHR 0x22), (CHR 0x5C, CHR 0x5C), (CHR ''/'', CHR ''/''), (CHR ''b'', CHR 0x08),
      (CHR ''f'', CHR 0x0C), (CHR ''n'', CHR 0x0A), (CHR ''r'', CHR 0x0D), (CHR ''t'', CHR 0x09)] c"

definition add_char :: "char \<Rightarrow> (string \<times> string) option \<Rightarrow> (string \<times> string) option" where
  "add_char c r = map_option (\<lambda>(t, rest). (c # t, rest)) r"

text \<open>The rest of a string after its opening quote, and what follows it.\<close>

fun string_token :: "string \<Rightarrow> (string \<times> string) option" where
  "string_token [] = None"
| "string_token (c # s) =
     (if c = CHR 0x22 then Some ([], s)
      else if c = CHR 0x5C
      then (case s of
              [] \<Rightarrow> None
            | d # t \<Rightarrow>
                if d = CHR ''u''
                then (case hex_fold 0 (take 4 t) of
                        None \<Rightarrow> None
                      | Some n \<Rightarrow> if length (take 4 t) = 4 \<and> n < 256
                                  then add_char (char_of n) (string_token (drop 4 t)) else None)
                else (case escaped d of None \<Rightarrow> None | Some e \<Rightarrow> add_char e (string_token t)))
      else if of_char c < (32 :: nat) then None
      else add_char c (string_token s))"

definition digits :: "string \<Rightarrow> string \<times> string" where
  "digits s = (takeWhile (\<lambda>c. digit_value c \<noteq> None) s, dropWhile (\<lambda>c. digit_value c \<noteq> None) s)"

definition digits_nat :: "string \<Rightarrow> nat" where
  "digits_nat ds = the (dec_fold 0 ds)"

text \<open>\<open>-?(0|[1-9][0-9]*)\<close>, an optional fraction and an optional exponent.\<close>

definition number_token :: "string \<Rightarrow> (json \<times> string) option" where
  "number_token s =
     (let negative = (expect (CHR ''-'') s \<noteq> None);
          s1 = (if negative then tl s else s);
          (whole, s2) = (if expect (CHR ''0'') s1 \<noteq> None then (''0'', tl s1) else digits s1);
          (fraction, s3) = (case expect (CHR ''.'') s2 of
             None \<Rightarrow> ([], s2) | Some t \<Rightarrow> if fst (digits t) = [] then ([], s2) else digits t);
          (exponent, s4) = (if s3 \<noteq> [] \<and> (hd s3 = CHR ''e'' \<or> hd s3 = CHR ''E'')
             then let t = tl s3; minus = (expect (CHR ''-'') t \<noteq> None);
                      u = (if minus \<or> expect (CHR ''+'') t \<noteq> None then tl t else t)
                  in if fst (digits u) = [] then (None, s3)
                     else (Some (if minus then - int (digits_nat (fst (digits u)))
                                 else int (digits_nat (fst (digits u)))), snd (digits u))
             else (None, s3));
          m = int (digits_nat (whole @ fraction)); value = (if negative then - m else m)
      in if whole = [] then None
         else if fraction = [] \<and> exponent = None then Some (JInt value, s4)
         else Some (JFloat value ((case exponent of None \<Rightarrow> 0 | Some e \<Rightarrow> e) - int (length fraction)), s4))"

subsection \<open>Values\<close>

definition shorter :: "string \<Rightarrow> string \<Rightarrow> string option" where
  "shorter s rest = (if length rest < length s then Some rest else None)"

lemma shorter_Some [simp]: "shorter s rest = Some r \<longleftrightarrow> r = rest \<and> length rest < length s"
  by (auto simp: shorter_def)

text \<open>
  Recursive descent. What follows a token is shorter than the text before it, which the bodies
  test (\<open>shorter\<close>) so that the recursion ends.
\<close>

function (sequential) json_value :: "string \<Rightarrow> (json \<times> string) option"
  and json_members :: "string \<Rightarrow> ((string \<times> json) list \<times> string) option"
  and json_elements :: "string \<Rightarrow> (json list \<times> string) option"
where
  "json_value s0 =
     (let s = skip_blank s0
      in case s of
           [] \<Rightarrow> None
         | c # r \<Rightarrow>
             if c = CHR 0x22 then map_option (\<lambda>(t, rest). (JStr t, rest)) (string_token r)
             else if c = CHR ''{''
             then (case expect (CHR ''}'') (skip_blank r) of
                     Some rest \<Rightarrow> Some (JObject [], rest)
                   | None \<Rightarrow> (case shorter s0 r of
                         None \<Rightarrow> None
                       | Some q \<Rightarrow> map_option (\<lambda>(kvs, rest). (JObject (dict_update kvs []), rest)) (json_members q)))
             else if c = CHR ''[''
             then (case expect (CHR '']'') (skip_blank r) of
                     Some rest \<Rightarrow> Some (JList [], rest)
                   | None \<Rightarrow> (case shorter s0 r of
                         None \<Rightarrow> None
                       | Some q \<Rightarrow> map_option (\<lambda>(xs, rest). (JList xs, rest)) (json_elements q)))
             else if c = CHR ''n'' then word ''null'' JNull s
             else if c = CHR ''t'' then word ''true'' (JBool True) s
             else if c = CHR ''f'' then word ''false'' (JBool False) s
             else number_token s)"
| "json_members s =
     (case expect (CHR 0x22) (skip_blank s) of
        None \<Rightarrow> None
      | Some r \<Rightarrow>
     (case string_token r of
        None \<Rightarrow> None
      | Some (k, r1) \<Rightarrow>
     (case Option.bind (expect (CHR '':'') (skip_blank r1)) (shorter s) of
        None \<Rightarrow> None
      | Some r2 \<Rightarrow>
     (case json_value r2 of
        None \<Rightarrow> None
      | Some (v, r3) \<Rightarrow>
     (case expect (CHR ''}'') (skip_blank r3) of
        Some rest \<Rightarrow> Some ([(k, v)], rest)
      | None \<Rightarrow>
     (case Option.bind (expect (CHR '','') (skip_blank r3)) (shorter s) of
        None \<Rightarrow> None
      | Some r4 \<Rightarrow> map_option (\<lambda>(kvs, rest). ((k, v) # kvs, rest)) (json_members r4)))))))"
| "json_elements s =
     (case json_value s of
        None \<Rightarrow> None
      | Some (v, r) \<Rightarrow>
     (case expect (CHR '']'') (skip_blank r) of
        Some rest \<Rightarrow> Some ([v], rest)
      | None \<Rightarrow>
     (case Option.bind (expect (CHR '','') (skip_blank r)) (shorter s) of
        None \<Rightarrow> None
      | Some r1 \<Rightarrow> map_option (\<lambda>(xs, rest). (v # xs, rest)) (json_elements r1))))"
  by pat_completeness auto
termination
  by (relation "measures [\<lambda>x. case x of Inl s \<Rightarrow> length s | Inr (Inl s) \<Rightarrow> length s | Inr (Inr s) \<Rightarrow> length s,
      \<lambda>x. case x of Inl s \<Rightarrow> 0 | Inr (Inl s) \<Rightarrow> 1 | Inr (Inr s) \<Rightarrow> (1::nat)]")
    (auto simp: bind_eq_Some_conv)

definition json_loads :: "string \<Rightarrow> json option" where
  "json_loads s =
     (case json_value s of
        None \<Rightarrow> None
      | Some (j, rest) \<Rightarrow> if skip_blank rest = [] then Some j else None)"

lemma json_loads_examples:
  "json_loads ''SUPERSEDED: plan 3'' = None" "json_loads ''[1, 2],'' = None" "json_loads ''01'' = None"
  "json_loads ''{ }'' = Some (JObject [])" "json_loads '' [-12, 0.50, 1e-3, null, true] '' =
     Some (JList [JInt (-12), JFloat 50 (-2), JFloat 1 (-3), JNull, JBool True])"
  by code_simp+

definition quoted :: "string \<Rightarrow> string" where
  "quoted s = map (\<lambda>c. if c = CHR ''~'' then CHR 0x22 else c) s"

lemma json_loads_object:
  "json_loads (quoted ''{~a~: [1, {~b~: ~x~}], ~c~: null, ~a~: 2}'') = Some (JObject [(''a'', JInt 2), (''c'', JNull)])"
  by code_simp

end
