(* ===== verification/Task_Domain.thy ===== *)
theory Task_Domain
  imports Task_Contracts Json_Parse
begin

text \<open>
  Tasks (\<open>Task\<close> of \<open>modules/task_orchestration/domain.py\<close>): construction, the transitions
  between statuses, and the evidence \<open>to_view\<close> reads out of the free text of a report. A
  fallible operation returns the exception; \<open>replace\<close> validates again.
\<close>

subsection \<open>Evidence\<close>

text \<open>\<open>a or b\<close>, and \<open>isinstance(value, int)\<close>, which a \<open>bool\<close> satisfies.\<close>

definition py_or :: "json \<Rightarrow> json \<Rightarrow> json" where
  "py_or a b = (if py_truthy a then a else b)"

fun as_int :: "json \<Rightarrow> int option" where
  "as_int (JInt n) = Some n"
| "as_int (JBool b) = Some (bool_int b)"
| "as_int _ = None"

definition document_get :: "(string \<times> json) list \<Rightarrow> string \<Rightarrow> json" where
  "document_get d k = (case map_of d k of None \<Rightarrow> JNull | Some v \<Rightarrow> v)"

definition parse_blockers :: "json \<Rightarrow> string list" where
  "parse_blockers raw =
     (case raw of
        JList xs \<Rightarrow> concat (map (\<lambda>x. case x of JStr s \<Rightarrow> if blank s then [] else [s] | _ \<Rightarrow> []) xs)
      | _ \<Rightarrow> [])"

definition parse_test_result :: "json \<Rightarrow> task_test_result_view list" where
  "parse_test_result entry =
     (case entry of
        JObject d \<Rightarrow>
          (let command = py_strip (py_str (py_or (document_get d ''command'') (JStr [])))
           in case document_get d ''exitCode'' of
                JInt exit_code \<Rightarrow>
                  if command = [] then []
                  else [\<lparr>ttr_command = command, ttr_exit_code = exit_code,
                         ttr_summary = py_str (py_or (document_get d ''stderr'')
                           (py_or (document_get d ''stdout'')
                             (py_or (document_get d ''summary'') (JStr []))))\<rparr>]
              | _ \<Rightarrow> [])
      | _ \<Rightarrow> [])"

definition parse_test_results :: "json \<Rightarrow> task_test_result_view list" where
  "parse_test_results raw = (case raw of JList xs \<Rightarrow> concat (map parse_test_result xs) | _ \<Rightarrow> [])"

definition parse_check :: "json \<Rightarrow> task_test_result_view list" where
  "parse_check entry =
     (case entry of
        JObject d \<Rightarrow>
          (case (document_get d ''name'', as_int (document_get d ''exitCode'')) of
             (JStr name, Some exit_code) \<Rightarrow>
               [\<lparr>ttr_command = name, ttr_exit_code = exit_code,
                 ttr_summary = py_str (py_or (document_get d ''summary'') (JStr []))\<rparr>]
           | _ \<Rightarrow> [])
      | _ \<Rightarrow> [])"

text \<open>\<open>tuple(str(item) for item in d.get(k, ()))\<close>: the value is iterated whatever it is.\<close>

definition text_items :: "(string \<times> json) list \<Rightarrow> string \<Rightarrow> string list result" where
  "text_items d k = item_list_or (\<lambda>v. Inr (py_str v)) (JObject d) k"

definition parse_database_change :: "json \<Rightarrow> database_change_evidence option result" where
  "parse_database_change raw =
     (case raw of
        JObject d \<Rightarrow>
          rbind (item_list_or (\<lambda>v. Inr (parse_check v)) raw ''checks'') (\<lambda>checks.
          rbind (text_items d ''migrationFiles'') (\<lambda>migrations.
          rbind (text_items d ''backfillFiles'') (\<lambda>backfills.
          rbind (text_items d ''affectedTables'') (\<lambda>tables.
          Inr (Some \<lparr>dce_migration_files = migrations, dce_backfill_files = backfills,
                     dce_affected_tables = tables, dce_checks = concat checks\<rparr>)))))
      | _ \<Rightarrow> Inr None)"

fun text_value :: "json \<Rightarrow> string option" where
  "text_value (JStr s) = Some s"
| "text_value _ = None"

definition evidence_of_document :: "(string \<times> json) list \<Rightarrow> task_evidence_view result" where
  "evidence_of_document d =
     (let raw_commit_sha = document_get d ''commitSha''; raw_run_id = document_get d ''runId'';
          base_sha = document_get d ''baseSha''; workspace_path = document_get d ''workspacePath''
      in rbind (parse_database_change (document_get d ''databaseChange'')) (\<lambda>database_change.
         Inr \<lparr>tev_commit_sha =
                (case text_value raw_commit_sha of None \<Rightarrow> None | Some s \<Rightarrow> if blank s then None else Some s),
              tev_run_id =
                (if py_truthy raw_run_id
                 then (case py_uuid (py_str raw_run_id) of Inl e \<Rightarrow> None | Inr u \<Rightarrow> Some u) else None),
              tev_changed_files =
                (case document_get d ''changedFiles'' of JList xs \<Rightarrow> map py_str xs | _ \<Rightarrow> []),
              tev_base_sha = (if py_truthy base_sha then Some (py_str base_sha) else None),
              tev_workspace_path =
                (if py_truthy workspace_path then Some (py_str workspace_path) else None),
              tev_summary_text = text_value (document_get d ''summary''),
              tev_blockers = parse_blockers (document_get d ''blockers''),
              tev_test_command = text_value (document_get d ''testCommand''),
              tev_test_results = parse_test_results (document_get d ''testResults''),
              tev_artifact_count =
                (case document_get d ''artifacts'' of JList xs \<Rightarrow> int (length xs) | _ \<Rightarrow> 0),
              tev_database_change = database_change\<rparr>))"

text \<open>
  \<open>_parse_evidence\<close>: only a JSON object with the key the Runner always writes is evidence.
  A value inside it that cannot be iterated raises.
\<close>

definition parse_evidence :: "string option \<Rightarrow> task_evidence_view option result" where
  "parse_evidence result_summary =
     (case result_summary of
        None \<Rightarrow> Inr None
      | Some text \<Rightarrow>
          if text = [] then Inr None
          else case json_loads text of
                 Some (JObject d) \<Rightarrow>
                   if map_of d ''commitSha'' = None then Inr None
                   else rbind (evidence_of_document d) (\<lambda>e. Inr (Some e))
               | _ \<Rightarrow> Inr None)"

subsection \<open>Tasks\<close>

record task =
  tk_organization_id :: uuid
  tk_project_id :: uuid
  tk_repository_id :: uuid
  tk_assigned_by_agent_id :: uuid
  tk_assignee_agent_id :: uuid
  tk_title :: string
  tk_instruction :: string
  tk_acceptance :: "string list"
  tk_parent_task_id :: "uuid option"
  tk_id :: uuid
  tk_status :: task_status
  tk_result_summary :: "string option"
  tk_version :: int
  tk_origin :: task_origin
  tk_database_change :: database_change_requirement

definition final_task_statuses :: "task_status set" where
  "final_task_statuses = {TS_SUCCEEDED, TS_FAILED, TS_CANCELLED, TS_SUPERSEDED}"

definition redoable_task_statuses :: "task_status set" where
  "redoable_task_statuses = {TS_SUCCEEDED, TS_FAILED}"

definition tk_post_init :: "task \<Rightarrow> task result" where
  "tk_post_init t =
     (if blank (tk_title t) \<or> blank (tk_instruction t)
      then Inl (ValueError ''task title and instruction are required'')
      else if tk_acceptance t = [] \<or> (\<exists>a \<in> set (tk_acceptance t). blank a)
      then Inl (ValueError ''at least one non-empty acceptance criterion is required'')
      else if tk_assigned_by_agent_id t = tk_assignee_agent_id t
      then Inl (ValueError ''a task must be assigned to another agent'')
      else Inr t)"

definition tk_start :: "task \<Rightarrow> task result" where
  "tk_start t =
     (if tk_status t \<notin> {TS_ASSIGNED, TS_BLOCKED}
      then Inl (TaskConflict (''cannot start task from '' @ task_status_value (tk_status t)))
      else tk_post_init (t\<lparr>tk_status := TS_IN_PROGRESS, tk_result_summary := None,
             tk_version := tk_version t + 1\<rparr>))"

definition tk_report :: "task_status \<Rightarrow> string \<Rightarrow> task \<Rightarrow> task result" where
  "tk_report status summary t =
     (if tk_status t \<in> final_task_statuses
      then Inl (TaskConflict ''a final task cannot be reported again'')
      else if status \<notin> {TS_BLOCKED, TS_SUCCEEDED, TS_FAILED}
      then Inl (TaskConflict ''report status must be blocked, succeeded or failed'')
      else if blank summary then Inl (ValueError ''task report summary is required'')
      else tk_post_init (t\<lparr>tk_status := status, tk_result_summary := Some (py_strip summary),
             tk_version := tk_version t + 1\<rparr>))"

definition tk_redo :: "task \<Rightarrow> task result" where
  "tk_redo t =
     (if tk_status t \<notin> redoable_task_statuses
      then Inl (TaskConflict (''a '' @ task_status_value (tk_status t) @
        '' task cannot be re-run; only a succeeded or failed task can be sent back to work''))
      else tk_post_init (t\<lparr>tk_status := TS_ASSIGNED, tk_result_summary := None,
             tk_version := tk_version t + 1\<rparr>))"

definition tk_supersede :: "string \<Rightarrow> task \<Rightarrow> task result" where
  "tk_supersede reason t =
     (if tk_status t \<in> final_task_statuses
      then Inl (TaskConflict (''a '' @ task_status_value (tk_status t) @ '' task cannot be superseded''))
      else tk_post_init (t\<lparr>tk_status := TS_SUPERSEDED,
             tk_result_summary := Some (if reason \<noteq> [] then ''SUPERSEDED: '' @ reason else ''SUPERSEDED''),
             tk_version := tk_version t + 1\<rparr>))"

definition tk_to_view :: "task \<Rightarrow> task_view result" where
  "tk_to_view t =
     rbind (parse_evidence (tk_result_summary t)) (\<lambda>evidence.
     Inr \<lparr>tkv_id = tk_id t, tkv_organization_id = tk_organization_id t,
          tkv_project_id = tk_project_id t, tkv_repository_id = tk_repository_id t,
          tkv_parent_task_id = tk_parent_task_id t,
          tkv_assigned_by_agent_id = tk_assigned_by_agent_id t,
          tkv_assignee_agent_id = tk_assignee_agent_id t, tkv_title = tk_title t,
          tkv_instruction = tk_instruction t, tkv_acceptance = tk_acceptance t,
          tkv_status = tk_status t, tkv_result_summary = tk_result_summary t,
          tkv_version = tk_version t, tkv_origin = tk_origin t, tkv_evidence = evidence,
          tkv_database_change = tk_database_change t\<rparr>)"

subsection \<open>The life of a task\<close>

definition tk_wf :: "task \<Rightarrow> bool" where
  "tk_wf t \<longleftrightarrow> \<not> blank (tk_title t) \<and> \<not> blank (tk_instruction t) \<and> tk_acceptance t \<noteq> [] \<and>
     (\<forall>a \<in> set (tk_acceptance t). \<not> blank a) \<and> tk_assigned_by_agent_id t \<noteq> tk_assignee_agent_id t"

lemma tk_post_init_Inr [simp]: "tk_post_init t = Inr u \<longleftrightarrow> u = t \<and> tk_wf t"
  by (auto simp: tk_post_init_def tk_wf_def)

definition new_task :: "task \<Rightarrow> task result" where
  "new_task t = tk_post_init (t\<lparr>tk_status := TS_ASSIGNED, tk_result_summary := None, tk_version := 1\<rparr>)"

inductive tk_step :: "task \<Rightarrow> task \<Rightarrow> bool" where
  start: "tk_start t = Inr u \<Longrightarrow> tk_step t u"
| report: "tk_report status summary t = Inr u \<Longrightarrow> tk_step t u"
| redo: "tk_redo t = Inr u \<Longrightarrow> tk_step t u"
| supersede: "tk_supersede reason t = Inr u \<Longrightarrow> tk_step t u"

inductive_cases tk_stepE: "tk_step t u"

inductive tk_reachable :: "task \<Rightarrow> bool" where
  new: "new_task t = Inr u \<Longrightarrow> tk_reachable u"
| step: "tk_reachable t \<Longrightarrow> tk_step t u \<Longrightarrow> tk_reachable u"

lemmas tk_op_defs = tk_start_def tk_report_def tk_redo_def tk_supersede_def final_task_statuses_def
  redoable_task_statuses_def

text \<open>The edges of the status graph.\<close>

definition task_edges :: "(task_status \<times> task_status) set" where
  "task_edges =
     {TS_ASSIGNED, TS_BLOCKED} \<times> {TS_IN_PROGRESS} \<union>
     {TS_ASSIGNED, TS_IN_PROGRESS, TS_BLOCKED} \<times> {TS_BLOCKED, TS_SUCCEEDED, TS_FAILED, TS_SUPERSEDED} \<union>
     {TS_SUCCEEDED, TS_FAILED} \<times> {TS_ASSIGNED}"

lemma tk_step_edge: "tk_step t u \<Longrightarrow> (tk_status t, tk_status u) \<in> task_edges \<and> tk_version u = tk_version t + 1"
  by (erule tk_stepE; cases "tk_status t") (auto simp: tk_op_defs task_edges_def split: if_splits)

lemma not_blank_prefix: "\<not> py_isspace c \<Longrightarrow> \<not> blank (c # s)"
  by (auto simp: blank_def py_strip_def dropWhile_eq_Nil_conv)

text \<open>A task carries the text of its last outcome exactly while it has one.\<close>

definition tk_inv :: "task \<Rightarrow> bool" where
  "tk_inv t \<longleftrightarrow> tk_wf t \<and>
     (case tk_result_summary t of
        None \<Rightarrow> tk_status t \<in> {TS_ASSIGNED, TS_IN_PROGRESS}
      | Some s \<Rightarrow> tk_status t \<in> {TS_BLOCKED, TS_SUCCEEDED, TS_FAILED, TS_SUPERSEDED} \<and> \<not> blank s)"

lemma tk_step_inv: "tk_step t u \<Longrightarrow> tk_inv t \<Longrightarrow> tk_inv u"
  by (erule tk_stepE)
    (auto simp: tk_op_defs tk_inv_def not_blank_prefix py_isspace_def tk_wf_def split: if_splits)

lemma tk_reachable_inv: "tk_reachable t \<Longrightarrow> tk_inv t"
proof (induction rule: tk_reachable.induct)
  case (new t u)
  then show ?case by (auto simp: new_task_def tk_inv_def)
qed (rule tk_step_inv)

subsection \<open>A sample task\<close>

definition sample_task :: task where
  "sample_task = \<lparr>tk_organization_id = 1, tk_project_id = 2, tk_repository_id = 3,
     tk_assigned_by_agent_id = 4, tk_assignee_agent_id = 5, tk_title = ''t'', tk_instruction = ''i'',
     tk_acceptance = [''a''], tk_parent_task_id = None, tk_id = 6, tk_status = TS_ASSIGNED,
     tk_result_summary = None, tk_version = 1, tk_origin = TO_PLANNED,
     tk_database_change = no_database_change\<rparr>"

lemma blank_letter [simp]: "\<not> blank [CHR ''a'']" "\<not> blank [CHR ''i'']" "\<not> blank [CHR ''t'']"
  by (simp_all add: not_blank_prefix py_isspace_def)

lemma new_sample_task: "new_task sample_task = Inr sample_task"
  by (simp add: new_task_def sample_task_def tk_wf_def)

subsection \<open>Properties\<close>

text \<open>C28: Every value a task can take, from its creation through any sequence of start, report,
  redo and supersede, is well typed as the class means it: the texts are not blank, nobody is
  assigned a task by itself, and the stored result text is there exactly while the status is one
  that has an outcome. Every operation that is accepted follows an edge of the status graph
  (a superseded or cancelled task has none) and raises the version by one.\<close>

theorem task_outcome_recorded:
  assumes "tk_reachable t"
  shows "tk_wf t \<and>
    (tk_status t \<in> {TS_BLOCKED, TS_SUCCEEDED, TS_FAILED, TS_SUPERSEDED} \<longleftrightarrow>
       (\<exists>s. tk_result_summary t = Some s \<and> \<not> blank s)) \<and>
    (tk_status t \<in> {TS_ASSIGNED, TS_IN_PROGRESS} \<longleftrightarrow> tk_result_summary t = None) \<and>
    (\<forall>u. tk_step t u \<longrightarrow> (tk_status t, tk_status u) \<in> task_edges \<and> tk_version u = tk_version t + 1 \<and> tk_wf u)"
proof -
  have t: "tk_inv t" using assms by (rule tk_reachable_inv)
  have "(tk_status t, tk_status u) \<in> task_edges \<and> tk_version u = tk_version t + 1 \<and> tk_wf u" if "tk_step t u" for u
    using tk_step_edge [OF that] tk_step_inv [OF that t] by (simp add: tk_inv_def)
  with t show ?thesis by (auto simp: tk_inv_def split: option.splits)
qed

theorem task_outcome_recorded_witness:
  "tk_result_summary sample_task = None \<and> tk_wf sample_task"
  using task_outcome_recorded [OF tk_reachable.new [OF new_sample_task]]
  by (simp add: sample_task_def)

text \<open>A result text is accepted by \<open>report\<close> whatever it says, but reading the task back as a
  view parses it: when it is a JSON object with a commitSha whose databaseChange has a
  \<open>checks\<close> value that is neither absent nor iterable, \<open>to_view\<close> raises for that task from
  then on, until another operation replaces the text.\<close>

theorem malformed_evidence_breaks_view:
  assumes "tk_report status reported t = Inr u"
    and "json_loads (py_strip reported) = Some (JObject d)" and "map_of d ''commitSha'' = Some c"
    and "map_of d ''databaseChange'' = Some (JObject b)" and "map_of b ''checks'' = Some checks"
    and "case checks of JNull \<Rightarrow> True | JBool _ \<Rightarrow> True | JInt _ \<Rightarrow> True | JFloat _ _ \<Rightarrow> True | _ \<Rightarrow> False"
  shows "tk_status u = status \<and> tk_wf u \<and>
    tk_to_view u = Inl (ModuleError ''TypeError'' (py_repr (type_name checks) @ '' object is not iterable''))"
proof -
  have u: "tk_status u = status" "tk_result_summary u = Some (py_strip reported)" "tk_wf u" "\<not> blank reported"
    using assms(1) by (auto simp: tk_report_def tk_wf_def split: if_splits)
  define e where "e = ModuleError ''TypeError'' (py_repr (type_name checks) @ '' object is not iterable'')"
  have "item_list_or (\<lambda>v. Inr (parse_check v)) (JObject b) ''checks'' = Inl e"
    using assms(5,6) by (simp add: item_list_or_def type_error_def e_def split: json.splits)
  then have "parse_database_change (document_get d ''databaseChange'') = Inl e"
    using assms(4) by (simp add: parse_database_change_def document_get_def)
  then have "evidence_of_document d = Inl e" by (simp only: evidence_of_document_def Let_def rbind_Inl)
  then have "parse_evidence (tk_result_summary u) = Inl e"
    using assms(2,3) u(2,4) by (simp add: parse_evidence_def blank_def)
  then have "tk_to_view u = Inl e" by (simp add: tk_to_view_def)
  with u show ?thesis by (simp add: e_def)
qed

lemma sample_evidence:
  "json_loads (py_strip (quoted ''{~commitSha~: null, ~databaseChange~: {~checks~: null}}'')) =
     Some (JObject [(''commitSha'', JNull), (''databaseChange'', JObject [(''checks'', JNull)])])"
  "\<not> blank (quoted ''{~commitSha~: null, ~databaseChange~: {~checks~: null}}'')"
  by code_simp+

theorem malformed_evidence_breaks_view_witness:
  "\<exists>u. tk_report TS_FAILED (quoted ''{~commitSha~: null, ~databaseChange~: {~checks~: null}}'') sample_task = Inr u \<and>
     (\<exists>m. tk_to_view u = Inl (ModuleError ''TypeError'' m))"
proof -
  obtain u where u: "tk_report TS_FAILED (quoted ''{~commitSha~: null, ~databaseChange~: {~checks~: null}}'') sample_task = Inr u"
    using sample_evidence(2) by (simp add: tk_report_def final_task_statuses_def sample_task_def tk_wf_def)
  with malformed_evidence_breaks_view [OF u sample_evidence(1)] show ?thesis by simp
qed

end
