(* ===== verification/Task_Assignment.thy ===== *)
theory Task_Assignment
  imports Task_Domain
begin

text \<open>
  Which Worker a task is assigned to (\<open>modules/task_orchestration/assignment.py\<close>): a row per
  attempt, with a generation. Every method of \<open>PostgresTaskAssignmentStore\<close> is a transaction
  that locks the rows it decides on, so it is one step; only \<open>ensure_initial\<close> acts on a row
  it did not find, and what other transactions commit after that read is the argument \<open>env\<close>.
  The database enforces one active attempt per task and one attempt per task and generation.
\<close>

subsection \<open>Rows\<close>

datatype assignment_attempt_state =
    AA_ACTIVE
  | AA_SUPERSEDED
  | AA_COMPLETED
  | AA_FAILED

fun assignment_attempt_state_value :: "assignment_attempt_state \<Rightarrow> string" where
  "assignment_attempt_state_value AA_ACTIVE = ''active''"
| "assignment_attempt_state_value AA_SUPERSEDED = ''superseded''"
| "assignment_attempt_state_value AA_COMPLETED = ''completed''"
| "assignment_attempt_state_value AA_FAILED = ''failed''"

definition assignment_attempt_state_members :: "assignment_attempt_state list" where
  "assignment_attempt_state_members =
     [AA_ACTIVE, AA_SUPERSEDED, AA_COMPLETED, AA_FAILED]"

interpretation AA: str_enum assignment_attempt_state_value assignment_attempt_state_members
proof
  show "x \<in> set assignment_attempt_state_members" for x
    by (cases x) (simp_all add: assignment_attempt_state_members_def)
qed (simp add: assignment_attempt_state_members_def)

datatype assignment_reason =
    AR_INITIAL
  | AR_LEASE_EXPIRED
  | AR_WORKER_UNREACHABLE
  | AR_RUNNER_INTERRUPTED
  | AR_OPERATOR

fun assignment_reason_value :: "assignment_reason \<Rightarrow> string" where
  "assignment_reason_value AR_INITIAL = ''initial''"
| "assignment_reason_value AR_LEASE_EXPIRED = ''lease_expired''"
| "assignment_reason_value AR_WORKER_UNREACHABLE = ''worker_unreachable''"
| "assignment_reason_value AR_RUNNER_INTERRUPTED = ''runner_interrupted''"
| "assignment_reason_value AR_OPERATOR = ''operator''"

definition assignment_reason_members :: "assignment_reason list" where
  "assignment_reason_members =
     [AR_INITIAL, AR_LEASE_EXPIRED, AR_WORKER_UNREACHABLE, AR_RUNNER_INTERRUPTED, AR_OPERATOR]"

interpretation AR: str_enum assignment_reason_value assignment_reason_members
proof
  show "x \<in> set assignment_reason_members" for x
    by (cases x) (simp_all add: assignment_reason_members_def)
qed (simp add: assignment_reason_members_def)

datatype assignment_actor_kind =
    AK_AGENT
  | AK_HUMAN
  | AK_SYSTEM

fun assignment_actor_kind_value :: "assignment_actor_kind \<Rightarrow> string" where
  "assignment_actor_kind_value AK_AGENT = ''agent''"
| "assignment_actor_kind_value AK_HUMAN = ''human''"
| "assignment_actor_kind_value AK_SYSTEM = ''system''"

definition assignment_actor_kind_members :: "assignment_actor_kind list" where
  "assignment_actor_kind_members =
     [AK_AGENT, AK_HUMAN, AK_SYSTEM]"

interpretation AK: str_enum assignment_actor_kind_value assignment_actor_kind_members
proof
  show "x \<in> set assignment_actor_kind_members" for x
    by (cases x) (simp_all add: assignment_actor_kind_members_def)
qed (simp add: assignment_actor_kind_members_def)

record task_assignment_attempt =
  ta_id :: uuid
  ta_organization_id :: uuid
  ta_project_id :: uuid
  ta_repository_id :: uuid
  ta_task_id :: uuid
  ta_worker_agent_id :: uuid
  ta_generation :: int
  ta_state :: assignment_attempt_state
  ta_reason :: assignment_reason
  ta_assigned_by :: assignment_actor_kind
  ta_assigned_by_id :: "uuid option"
  ta_previous_attempt_id :: "uuid option"
  ta_execution_id :: "uuid option"
  ta_created_at :: datetime
  ta_finished_at :: "datetime option"

text \<open>The task rows the store reads and writes, and its own table, both in insertion order.\<close>

record assignment_db =
  adb_tasks :: "task list"
  adb_attempts :: "task_assignment_attempt list"

definition task_row :: "uuid \<Rightarrow> assignment_db \<Rightarrow> task option" where
  "task_row task_id db = find (\<lambda>t. tk_id t = task_id) (adb_tasks db)"

definition is_active :: "uuid \<Rightarrow> task_assignment_attempt \<Rightarrow> bool" where
  "is_active task_id a \<longleftrightarrow> ta_task_id a = task_id \<and> ta_state a = AA_ACTIVE"

definition active_row :: "uuid \<Rightarrow> assignment_db \<Rightarrow> task_assignment_attempt option" where
  "active_row task_id db = find (is_active task_id) (adb_attempts db)"

definition attempt_row :: "uuid \<Rightarrow> assignment_db \<Rightarrow> task_assignment_attempt option" where
  "attempt_row i db = find (\<lambda>a. ta_id a = i) (adb_attempts db)"

definition attempts_of :: "uuid \<Rightarrow> assignment_db \<Rightarrow> task_assignment_attempt list" where
  "attempts_of task_id db = filter (\<lambda>a. ta_task_id a = task_id) (adb_attempts db)"

text \<open>\<open>ORDER BY generation DESC LIMIT 1\<close>.\<close>

definition latest_row :: "uuid \<Rightarrow> assignment_db \<Rightarrow> task_assignment_attempt option" where
  "latest_row task_id db =
     (case rev (sort_key ta_generation (attempts_of task_id db)) of [] \<Rightarrow> None | a # _ \<Rightarrow> Some a)"

definition put_task :: "task \<Rightarrow> assignment_db \<Rightarrow> assignment_db" where
  "put_task t db = db\<lparr>adb_tasks := map_where (\<lambda>u. tk_id u = tk_id t) (\<lambda>_. t) (adb_tasks db)\<rparr>"

definition put_attempt :: "task_assignment_attempt \<Rightarrow> assignment_db \<Rightarrow> assignment_db" where
  "put_attempt a db = db\<lparr>adb_attempts := map_where (\<lambda>b. ta_id b = ta_id a) (\<lambda>_. a) (adb_attempts db)\<rparr>"

text \<open>The unique indexes an \<open>INSERT\<close> is checked against.\<close>

definition insert_violates :: "task_assignment_attempt \<Rightarrow> assignment_db \<Rightarrow> bool" where
  "insert_violates a db \<longleftrightarrow>
     (\<exists>b \<in> set (adb_attempts db). ta_id b = ta_id a \<or>
        (ta_task_id b = ta_task_id a \<and> ta_generation b = ta_generation a) \<or>
        (ta_state a = AA_ACTIVE \<and> is_active (ta_task_id a) b))"

definition insert_attempt :: "task_assignment_attempt \<Rightarrow> assignment_db \<Rightarrow> assignment_db" where
  "insert_attempt a db = db\<lparr>adb_attempts := adb_attempts db @ [a]\<rparr>"

subsection \<open>Transactions\<close>

text \<open>The row \<open>ensure_initial\<close> inserts: the first generation, or the next after the latest.\<close>

definition initial_attempt ::
    "task \<Rightarrow> task_assignment_attempt option \<Rightarrow> uuid \<Rightarrow> datetime \<Rightarrow> task_assignment_attempt" where
  "initial_attempt t latest i now =
     \<lparr>ta_id = i, ta_organization_id = tk_organization_id t, ta_project_id = tk_project_id t,
      ta_repository_id = tk_repository_id t, ta_task_id = tk_id t,
      ta_worker_agent_id = tk_assignee_agent_id t,
      ta_generation = (case latest of None \<Rightarrow> 1 | Some a \<Rightarrow> ta_generation a + 1),
      ta_state = AA_ACTIVE,
      ta_reason = (case latest of None \<Rightarrow> AR_INITIAL | Some _ \<Rightarrow> AR_OPERATOR),
      ta_assigned_by = AK_AGENT, ta_assigned_by_id = Some (tk_assigned_by_agent_id t),
      ta_previous_attempt_id = map_option ta_id latest, ta_execution_id = None,
      ta_created_at = now, ta_finished_at = None\<rparr>"

definition integrity_error :: exc where
  "integrity_error = ModuleError ''IntegrityError'' ''task_assignment_attempts''"

definition ensure_initial ::
    "(assignment_db \<Rightarrow> assignment_db) \<Rightarrow> uuid \<Rightarrow> uuid \<Rightarrow> datetime
     \<Rightarrow> (assignment_db, task_assignment_attempt) proc" where
  "ensure_initial env task_id i now db0 =
     (case active_row task_id db0 of
        Some a \<Rightarrow> (Inr a, db0)
      | None \<Rightarrow>
          let db = env db0
          in case task_row task_id db of
               None \<Rightarrow> (Inl (TaskConflict ''task does not exist''), db)
             | Some t \<Rightarrow>
                 let a = initial_attempt t (latest_row task_id db) i now
                 in if insert_violates a db
                    then (case active_row task_id db of
                            None \<Rightarrow> (Inl integrity_error, db) | Some b \<Rightarrow> (Inr b, db))
                    else (Inr a, insert_attempt a db))"

definition history :: "uuid \<Rightarrow> assignment_db \<Rightarrow> task_assignment_attempt list" where
  "history task_id db = sort_key ta_generation (attempts_of task_id db)"

definition reassign ::
    "uuid \<Rightarrow> int \<Rightarrow> int \<Rightarrow> uuid \<Rightarrow> assignment_reason \<Rightarrow> assignment_actor_kind \<Rightarrow> uuid option
     \<Rightarrow> uuid \<Rightarrow> datetime \<Rightarrow> (assignment_db, task_assignment_attempt) proc" where
  "reassign task_id expected_task_version expected_generation replacement_worker_id reason
      assigned_by assigned_by_id i now db =
     (case (task_row task_id db, active_row task_id db) of
        (Some t, Some a) \<Rightarrow>
          if tk_version t \<noteq> expected_task_version \<or> ta_generation a \<noteq> expected_generation
          then (Inl (TaskConflict ''task assignment generation changed''), db)
          else if ta_worker_agent_id a = replacement_worker_id
          then (Inl (TaskConflict ''replacement Worker must differ from current assignee''), db)
          else
            let superseded = a\<lparr>ta_state := AA_SUPERSEDED, ta_finished_at := Some now\<rparr>;
                reopened = t\<lparr>tk_assignee_agent_id := replacement_worker_id,
                  tk_version := tk_version t + 1, tk_status := TS_ASSIGNED, tk_result_summary := None\<rparr>;
                replacement = \<lparr>ta_id = i, ta_organization_id = tk_organization_id t,
                  ta_project_id = tk_project_id t, ta_repository_id = tk_repository_id t,
                  ta_task_id = tk_id t, ta_worker_agent_id = replacement_worker_id,
                  ta_generation = ta_generation a + 1, ta_state = AA_ACTIVE, ta_reason = reason,
                  ta_assigned_by = assigned_by, ta_assigned_by_id = assigned_by_id,
                  ta_previous_attempt_id = Some (ta_id a), ta_execution_id = None,
                  ta_created_at = now, ta_finished_at = None\<rparr>;
                db1 = put_task reopened (put_attempt superseded db)
            in if insert_violates replacement db1 then (Inl integrity_error, db)
               else (Inr replacement, insert_attempt replacement db1)
      | _ \<Rightarrow> (Inl (TaskConflict ''task assignment does not exist''), db))"

definition reopen_same_assignment ::
    "uuid \<Rightarrow> int \<Rightarrow> int \<Rightarrow> (assignment_db, task_assignment_attempt) proc" where
  "reopen_same_assignment task_id expected_task_version expected_generation db =
     (case (task_row task_id db, active_row task_id db) of
        (Some t, Some a) \<Rightarrow>
          if tk_version t \<noteq> expected_task_version \<or> ta_generation a \<noteq> expected_generation
          then (Inl (TaskConflict ''task assignment generation changed''), db)
          else (Inr a, put_task (t\<lparr>tk_status := TS_ASSIGNED, tk_result_summary := None,
                  tk_version := tk_version t + 1\<rparr>) db)
      | _ \<Rightarrow> (Inl (TaskConflict ''task assignment does not exist''), db))"

definition bind_execution ::
    "uuid \<Rightarrow> int \<Rightarrow> uuid \<Rightarrow> (assignment_db, task_assignment_attempt) proc" where
  "bind_execution task_id expected_generation execution_id db =
     (case active_row task_id db of
        None \<Rightarrow> (Inl (TaskConflict ''task assignment generation changed''), db)
      | Some a \<Rightarrow>
          if ta_generation a \<noteq> expected_generation
          then (Inl (TaskConflict ''task assignment generation changed''), db)
          else let bound = a\<lparr>ta_execution_id := Some execution_id\<rparr> in (Inr bound, put_attempt bound db))"

definition allows_projection :: "uuid \<Rightarrow> uuid \<Rightarrow> int \<Rightarrow> assignment_db \<Rightarrow> bool" where
  "allows_projection task_id assignment_attempt_id generation db =
     (case attempt_row assignment_attempt_id db of
        None \<Rightarrow> False
      | Some a \<Rightarrow> ta_task_id a = task_id \<and> ta_generation a = generation \<and> ta_state a \<noteq> AA_SUPERSEDED)"

definition complete_current ::
    "uuid \<Rightarrow> uuid \<Rightarrow> int \<Rightarrow> datetime \<Rightarrow> (assignment_db, unit) proc" where
  "complete_current task_id assignment_attempt_id generation now db =
     (case attempt_row assignment_attempt_id db of
        None \<Rightarrow> (Inl (TaskConflict ''task assignment generation changed''), db)
      | Some a \<Rightarrow>
          if ta_task_id a \<noteq> task_id \<or> ta_generation a \<noteq> generation \<or> ta_state a = AA_SUPERSEDED
          then (Inl (TaskConflict ''task assignment generation changed''), db)
          else (Inr (), if ta_state a = AA_ACTIVE
                        then put_attempt (a\<lparr>ta_state := AA_COMPLETED, ta_finished_at := Some now\<rparr>) db
                        else db))"

subsection \<open>The lineage of a task's attempts\<close>

text \<open>Generations 1, 2, ...; each attempt names the one before it; only the last may be active.\<close>

definition attempt_chain :: "task_assignment_attempt list \<Rightarrow> bool" where
  "attempt_chain as \<longleftrightarrow>
     map ta_generation as = map (\<lambda>k. int k + 1) [0 ..< length as] \<and>
     map ta_previous_attempt_id as = (if as = [] then [] else None # map (Some \<circ> ta_id) (butlast as)) \<and>
     (\<forall>a \<in> set (butlast as). ta_state a \<noteq> AA_ACTIVE)"

definition adb_inv :: "assignment_db \<Rightarrow> bool" where
  "adb_inv db \<longleftrightarrow> distinct (map tk_id (adb_tasks db)) \<and> distinct (map ta_id (adb_attempts db)) \<and>
     (\<forall>task_id. attempt_chain (attempts_of task_id db))"

lemma chain_Nil [simp]: "attempt_chain []"
  by (simp add: attempt_chain_def)

lemma chain_snoc:
  assumes "attempt_chain as" and "\<forall>a \<in> set as. ta_state a \<noteq> AA_ACTIVE"
    and "ta_generation v = int (length as) + 1"
    and "ta_previous_attempt_id v = (if as = [] then None else Some (ta_id (last as)))"
  shows "attempt_chain (as @ [v])"
proof -
  have "map ta_previous_attempt_id as @ [ta_previous_attempt_id v] = None # map (Some \<circ> ta_id) as"
    using assms(1,4) by (cases as rule: rev_cases) (simp_all add: attempt_chain_def split: if_splits)
  then show ?thesis using assms by (simp add: attempt_chain_def)
qed

lemma chain_last_generation: "attempt_chain as \<Longrightarrow> as \<noteq> [] \<Longrightarrow> ta_generation (last as) = int (length as)"
  using last_map [of as ta_generation] by (cases as rule: rev_cases) (simp_all add: attempt_chain_def)

lemma chain_update:
  assumes "attempt_chain as"
    and "\<And>b. b \<in> set as \<Longrightarrow> ta_id b = ta_id a \<Longrightarrow>
      ta_generation a = ta_generation b \<and> ta_previous_attempt_id a = ta_previous_attempt_id b \<and>
      (ta_state a = AA_ACTIVE \<longrightarrow> ta_state b = AA_ACTIVE)"
  shows "attempt_chain (map_where (\<lambda>b. ta_id b = ta_id a) (\<lambda>_. a) as)"
proof -
  define u where "u b = (if ta_id b = ta_id a then a else b)" for b
  have same: "map (f \<circ> u) as = map f as" if "\<And>b. b \<in> set as \<Longrightarrow> ta_id b = ta_id a \<Longrightarrow> f a = f b" for f
    using that by (simp add: u_def)
  have id: "ta_id (u b) = ta_id b" for b by (simp add: u_def)
  have "ta_state (u b) \<noteq> AA_ACTIVE" if "b \<in> set (butlast as)" for b
    using assms that in_set_butlastD [OF that] by (auto simp: attempt_chain_def u_def)
  moreover have "map ta_generation (map u as) = map ta_generation as"
    "map ta_previous_attempt_id (map u as) = map ta_previous_attempt_id as"
    using assms(2) same by auto
  moreover have "map_where (\<lambda>b. ta_id b = ta_id a) (\<lambda>_. a) as = map u as"
    by (simp add: map_where_def u_def)
  moreover have "map (Some \<circ> ta_id) (butlast (map u as)) = map (Some \<circ> ta_id) (butlast as)"
    by (simp add: map_butlast [symmetric] id)
  ultimately show ?thesis
    using assms(1) unfolding attempt_chain_def by (auto simp: map_butlast [symmetric])
qed

lemma sort_key_sorted: "sorted (map f xs) \<Longrightarrow> sort_key f xs = xs"
  by (induction xs) (simp_all add: insort_is_Cons)

lemma chain_sorted: "attempt_chain as \<Longrightarrow> sort_key ta_generation as = as"
proof (rule sort_key_sorted)
  assume "attempt_chain as"
  then have "map ta_generation as = map (\<lambda>k. int k + 1) [0 ..< length as]" by (simp add: attempt_chain_def)
  then show "sorted (map ta_generation as)" by (simp add: sorted_iff_nth_mono)
qed

lemma latest_row_chain:
  "attempt_chain (attempts_of task_id db) \<Longrightarrow>
     latest_row task_id db = (if attempts_of task_id db = [] then None else Some (last (attempts_of task_id db)))"
  by (cases "attempts_of task_id db" rule: rev_cases) (simp_all add: latest_row_def chain_sorted)

lemma active_row_find: "active_row task_id db = find (\<lambda>a. ta_state a = AA_ACTIVE) (attempts_of task_id db)"
  by (simp add: active_row_def attempts_of_def is_active_def [abs_def] find_filter)

lemma active_row_last:
  assumes "attempt_chain (attempts_of task_id db)" and "active_row task_id db = Some a"
  shows "a = last (attempts_of task_id db) \<and> attempts_of task_id db \<noteq> [] \<and> ta_state a = AA_ACTIVE \<and> ta_task_id a = task_id"
proof -
  from assms(2) have a: "a \<in> set (attempts_of task_id db)" "ta_state a = AA_ACTIVE"
    unfolding active_row_find by (auto dest: find_SomeD)
  from a(1) have ne: "attempts_of task_id db \<noteq> []" by auto
  from a(1) have id: "ta_task_id a = task_id" by (simp add: attempts_of_def)
  from ne obtain as b where as: "attempts_of task_id db = as @ [b]" by (cases "attempts_of task_id db" rule: rev_cases) auto
  with assms(1) a have "a = b" by (auto simp: attempt_chain_def)
  with as a id show ?thesis by simp
qed

lemma chain_neighbours:
  assumes "attempt_chain as" and "Suc k < length as"
  shows "ta_previous_attempt_id (as ! Suc k) = Some (ta_id (as ! k)) \<and> ta_state (as ! k) \<noteq> AA_ACTIVE"
proof -
  have prev: "map ta_previous_attempt_id as = None # map (Some \<circ> ta_id) (butlast as)"
    and old: "\<forall>a \<in> set (butlast as). ta_state a \<noteq> AA_ACTIVE"
    using assms by (auto simp: attempt_chain_def split: if_splits)
  have k: "k < length (butlast as)" "butlast as ! k = as ! k"
    using assms(2) by (simp_all add: nth_butlast)
  have "map ta_previous_attempt_id as ! Suc k = Some (ta_id (as ! k))"
    unfolding prev using k by simp
  moreover have "as ! k \<in> set (butlast as)" using k by (metis nth_mem)
  ultimately show ?thesis using old assms(2) by simp
qed

lemma active_row_iff:
  assumes "attempt_chain (attempts_of task_id db)"
  shows "active_row task_id db = Some a \<longleftrightarrow>
    attempts_of task_id db \<noteq> [] \<and> last (attempts_of task_id db) = a \<and> ta_state a = AA_ACTIVE"
proof
  assume "attempts_of task_id db \<noteq> [] \<and> last (attempts_of task_id db) = a \<and> ta_state a = AA_ACTIVE"
  then have "a \<in> set (attempts_of task_id db)" "ta_state a = AA_ACTIVE" and last: "last (attempts_of task_id db) = a"
    by auto
  then obtain b where "active_row task_id db = Some b" by (cases "active_row task_id db") (auto simp: active_row_find find_None_iff)
  with active_row_last [OF assms this] last show "active_row task_id db = Some a" by simp
qed (use active_row_last [OF assms] in blast)

lemma filter_map_where:
  "(\<And>x. x \<in> set xs \<Longrightarrow> Q x \<Longrightarrow> P (f x) = P x) \<Longrightarrow>
     filter P (map_where Q f xs) = map_where Q f (filter P xs)"
  by (induction xs) (auto simp: map_where_def)

text \<open>A row rewritten in place: same attempt, same lineage, never made active again.\<close>

definition attempt_update :: "task_assignment_attempt \<Rightarrow> task_assignment_attempt \<Rightarrow> bool" where
  "attempt_update b a \<longleftrightarrow>
     ta_id a = ta_id b \<and> ta_task_id a = ta_task_id b \<and> ta_generation a = ta_generation b \<and>
     ta_previous_attempt_id a = ta_previous_attempt_id b \<and>
     (ta_state a = AA_ACTIVE \<longrightarrow> ta_state b = AA_ACTIVE)"

lemma attempts_of_put:
  assumes "adb_inv db" and "b \<in> set (adb_attempts db)" and "attempt_update b a"
  shows "attempts_of task_id (put_attempt a db) =
    map_where (\<lambda>x. ta_id x = ta_id a) (\<lambda>_. a) (attempts_of task_id db)"
  unfolding attempts_of_def put_attempt_def
proof (simp, rule filter_map_where)
  fix x assume "x \<in> set (adb_attempts db)" and "ta_id x = ta_id a"
  then have "x = b"
    using assms by (intro key_unique [of ta_id "adb_attempts db"]) (simp_all add: adb_inv_def attempt_update_def)
  with assms(3) show "(ta_task_id a = task_id) = (ta_task_id x = task_id)" by (simp add: attempt_update_def)
qed

lemma adb_inv_put_attempt:
  assumes inv: "adb_inv db" and b: "b \<in> set (adb_attempts db)" "attempt_update b a"
  shows "adb_inv (put_attempt a db)"
proof -
  have "attempt_chain (attempts_of task_id (put_attempt a db))" for task_id
    unfolding attempts_of_put [OF assms]
  proof (rule chain_update)
    show "attempt_chain (attempts_of task_id db)" using inv by (simp add: adb_inv_def)
    fix x assume "x \<in> set (attempts_of task_id db)" and "ta_id x = ta_id a"
    then have "x = b"
      using inv b by (intro key_unique [of ta_id "adb_attempts db"])
        (simp_all add: adb_inv_def attempt_update_def attempts_of_def)
    with b(2) show "ta_generation a = ta_generation x \<and> ta_previous_attempt_id a = ta_previous_attempt_id x \<and>
        (ta_state a = AA_ACTIVE \<longrightarrow> ta_state x = AA_ACTIVE)"
      by (simp add: attempt_update_def)
  qed
  moreover have "map ta_id (adb_attempts (put_attempt a db)) = map ta_id (adb_attempts db)"
    unfolding put_attempt_def by (simp add: map_map_where)
  ultimately show ?thesis using inv by (simp add: adb_inv_def) (simp add: put_attempt_def)
qed

lemma adb_inv_tasks [simp]: "distinct (map tk_id ts) \<Longrightarrow> adb_inv db \<Longrightarrow> adb_inv (db\<lparr>adb_tasks := ts\<rparr>)"
  by (simp add: adb_inv_def attempts_of_def)

lemma adb_inv_put_task [simp]: "adb_inv db \<Longrightarrow> adb_inv (put_task t db)"
  unfolding put_task_def by (rule adb_inv_tasks) (simp_all add: map_map_where adb_inv_def)

lemma adb_inv_insert:
  assumes inv: "adb_inv db" and ok: "\<not> insert_violates a db" "ta_state a = AA_ACTIVE"
    and "ta_generation a = int (length (attempts_of (ta_task_id a) db)) + 1"
    and "ta_previous_attempt_id a = (if attempts_of (ta_task_id a) db = [] then None
      else Some (ta_id (last (attempts_of (ta_task_id a) db))))"
  shows "adb_inv (insert_attempt a db)"
proof -
  have "attempt_chain (attempts_of (ta_task_id a) db @ [a])"
    using assms by (intro chain_snoc)
      (auto simp: adb_inv_def insert_violates_def is_active_def attempts_of_def)
  moreover have "ta_id a \<notin> ta_id ` set (adb_attempts db)" using ok by (auto simp: insert_violates_def)
  ultimately show ?thesis
    using inv by (auto simp: adb_inv_def insert_attempt_def attempts_of_def)
qed

lemma active_row_in: "active_row task_id db = Some a \<Longrightarrow> a \<in> set (adb_attempts db)"
  by (auto simp: active_row_def dest: find_SomeD)

lemma attempt_row_in: "attempt_row i db = Some a \<Longrightarrow> a \<in> set (adb_attempts db) \<and> ta_id a = i"
  by (auto simp: attempt_row_def dest: find_SomeD)

lemma task_row_id: "task_row task_id db = Some t \<Longrightarrow> tk_id t = task_id"
  by (auto simp: task_row_def dest: find_SomeD)

lemma adb_inv_ensure_initial:
  assumes "ensure_initial env task_id i now db = (r, db')" and "adb_inv db" and env: "adb_inv (env db)"
  shows "adb_inv db'"
proof (cases "\<exists>t. active_row task_id db = None \<and> task_row task_id (env db) = Some t \<and>
    \<not> insert_violates (initial_attempt t (latest_row task_id (env db)) i now) (env db)")
  case True
  then obtain t where t: "active_row task_id db = None" "task_row task_id (env db) = Some t"
    "\<not> insert_violates (initial_attempt t (latest_row task_id (env db)) i now) (env db)" by blast
  have chain: "attempt_chain (attempts_of task_id (env db))" using env by (simp add: adb_inv_def)
  have "db' = insert_attempt (initial_attempt t (latest_row task_id (env db)) i now) (env db)"
    using assms(1) t by (simp add: ensure_initial_def Let_def)
  then show ?thesis
    using t(3) env task_row_id [OF t(2)] chain_last_generation [OF chain]
    by (auto intro!: adb_inv_insert simp: initial_attempt_def latest_row_chain [OF chain])
next
  case False
  then show ?thesis
    using assms by (auto simp: ensure_initial_def Let_def split: option.splits if_splits)
qed

lemma last_same: "map f xs = map f ys \<Longrightarrow> ys \<noteq> [] \<Longrightarrow> xs \<noteq> [] \<and> f (last xs) = f (last ys)"
  by (metis last_map map_is_Nil_conv)

lemma adb_inv_reassign:
  assumes run: "reassign task_id v g worker reason by_kind by_id i now db = (r, db')" and inv: "adb_inv db"
  shows "adb_inv db'"
proof (cases "db' = db")
  case False
  from run False obtain t a where t: "task_row task_id db = Some t" and a: "active_row task_id db = Some a"
    by (auto simp: reassign_def split: option.splits)
  let ?s = "a\<lparr>ta_state := AA_SUPERSEDED, ta_finished_at := Some now\<rparr>"
  let ?db1 = "put_task (t\<lparr>tk_assignee_agent_id := worker, tk_version := tk_version t + 1,
      tk_status := TS_ASSIGNED, tk_result_summary := None\<rparr>) (put_attempt ?s db)"
  let ?n = "\<lparr>ta_id = i, ta_organization_id = tk_organization_id t, ta_project_id = tk_project_id t,
      ta_repository_id = tk_repository_id t, ta_task_id = tk_id t, ta_worker_agent_id = worker,
      ta_generation = ta_generation a + 1, ta_state = AA_ACTIVE, ta_reason = reason,
      ta_assigned_by = by_kind, ta_assigned_by_id = by_id, ta_previous_attempt_id = Some (ta_id a),
      ta_execution_id = None, ta_created_at = now, ta_finished_at = None\<rparr>"
  have db': "\<not> insert_violates ?n ?db1" "db' = insert_attempt ?n ?db1"
    using run False by (auto simp: reassign_def t a Let_def split: if_splits)
  have chain: "attempt_chain (attempts_of task_id db)" using inv by (simp add: adb_inv_def)
  note last = active_row_last [OF chain a]
  have upd: "attempt_update a ?s" by (simp add: attempt_update_def)
  have "attempts_of task_id ?db1 = map_where (\<lambda>x. ta_id x = ta_id ?s) (\<lambda>_. ?s) (attempts_of task_id db)"
    using attempts_of_put [OF inv active_row_in [OF a] upd, of task_id]
    by (simp add: put_task_def attempts_of_def)
  then have same: "length (attempts_of task_id ?db1) = length (attempts_of task_id db)"
    "map ta_id (attempts_of task_id ?db1) = map ta_id (attempts_of task_id db)"
    by (simp_all add: map_map_where)
  have ne: "attempts_of task_id db \<noteq> []" and a_last: "last (attempts_of task_id db) = a"
    using last by blast+
  have prev: "attempts_of task_id ?db1 \<noteq> [] \<and> ta_id (last (attempts_of task_id ?db1)) = ta_id a"
    using last_same [OF same(2) ne] unfolding a_last .
  have gen: "ta_generation a = int (length (attempts_of task_id ?db1))"
    unfolding same(1) using chain_last_generation [OF chain ne] unfolding a_last .
  have id: "tk_id t = task_id" by (rule task_row_id [OF t])
  show ?thesis
    unfolding db'(2)
  proof (rule adb_inv_insert [OF _ db'(1)])
    show "adb_inv ?db1" using adb_inv_put_attempt [OF inv active_row_in [OF a] upd] by simp
  qed (simp_all only: task_assignment_attempt.simps id gen prev if_False simp_thms)
qed (use inv in simp)

lemma adb_inv_others:
  assumes "adb_inv db"
  shows "reopen_same_assignment task_id v g db = (r, db') \<Longrightarrow> adb_inv db'"
    and "bind_execution task_id g e db = (r, db') \<Longrightarrow> adb_inv db'"
    and "complete_current task_id i g now db = (r2, db') \<Longrightarrow> adb_inv db'"
  using assms
  by (auto simp: reopen_same_assignment_def bind_execution_def complete_current_def attempt_update_def Let_def
      split: option.splits if_splits dest: active_row_in attempt_row_in intro: adb_inv_put_attempt)

subsection \<open>Runs\<close>

text \<open>
  Any order of the transactions, with the tasks rewritten in between by whoever owns them, and
  with any run between the two reads of \<open>ensure_initial\<close>.
\<close>

inductive assignment_run :: "assignment_db \<Rightarrow> assignment_db \<Rightarrow> bool" where
  start: "assignment_run db db"
| tasks: "assignment_run s db \<Longrightarrow> distinct (map tk_id ts) \<Longrightarrow> assignment_run s (db\<lparr>adb_tasks := ts\<rparr>)"
| ensure: "assignment_run s db \<Longrightarrow> assignment_run db (env db) \<Longrightarrow>
     ensure_initial env task_id i now db = (r, db') \<Longrightarrow> assignment_run s db'"
| reassigned: "assignment_run s db \<Longrightarrow>
     reassign task_id v g worker reason by_kind by_id i now db = (r, db') \<Longrightarrow> assignment_run s db'"
| reopened: "assignment_run s db \<Longrightarrow> reopen_same_assignment task_id v g db = (r, db') \<Longrightarrow>
     assignment_run s db'"
| bound: "assignment_run s db \<Longrightarrow> bind_execution task_id g e db = (r, db') \<Longrightarrow> assignment_run s db'"
| completed: "assignment_run s db \<Longrightarrow> complete_current task_id a g now db = (ru, db') \<Longrightarrow>
     assignment_run s db'"

lemma assignment_run_inv: "assignment_run s db \<Longrightarrow> adb_inv s \<Longrightarrow> adb_inv db"
proof (induction rule: assignment_run.induct)
  case (ensure s db env task_id i now r db')
  then have "adb_inv db" "adb_inv (env db)" by blast+
  with ensure.hyps(3) show ?case by (rule adb_inv_ensure_initial)
next
  case (reassigned s db task_id v g worker reason by_kind by_id i now r db')
  then show ?case by (blast intro: adb_inv_reassign)
qed (auto intro: adb_inv_others)

text \<open>A superseded attempt stays superseded.\<close>

definition superseded :: "uuid \<Rightarrow> assignment_db \<Rightarrow> bool" where
  "superseded i db \<longleftrightarrow> (\<exists>a. attempt_row i db = Some a \<and> ta_state a = AA_SUPERSEDED)"

lemma attempt_row_put_other:
  assumes "ta_id a \<noteq> i"
  shows "attempt_row i (put_attempt a db) = attempt_row i db"
proof -
  have "find (\<lambda>x. ta_id x = i) (map_where (\<lambda>b. ta_id b = ta_id a) (\<lambda>_. a) xs) = find (\<lambda>x. ta_id x = i) xs"
    for xs using assms by (induction xs) (auto simp: map_where_def)
  then show ?thesis by (simp add: attempt_row_def put_attempt_def)
qed

lemma attempt_row_put_own:
  assumes "b \<in> set (adb_attempts db)" and "ta_id b = ta_id a"
  shows "attempt_row (ta_id a) (put_attempt a db) = Some a"
proof -
  have "b \<in> set xs \<Longrightarrow>
      find (\<lambda>x. ta_id x = ta_id a) (map_where (\<lambda>b. ta_id b = ta_id a) (\<lambda>_. a) xs) = Some a"
    for xs using assms(2) by (induction xs) (auto simp: map_where_def)
  with assms(1) show ?thesis by (simp add: attempt_row_def put_attempt_def)
qed

lemma attempt_row_put_task [simp]: "attempt_row i (put_task t db) = attempt_row i db"
  by (simp add: attempt_row_def put_task_def)

lemma attempt_row_tasks [simp]: "attempt_row i (db\<lparr>adb_tasks := ts\<rparr>) = attempt_row i db"
  by (simp add: attempt_row_def)

lemma attempt_row_insert: "attempt_row i db = Some a \<Longrightarrow> attempt_row i (insert_attempt b db) = Some a"
  by (simp add: attempt_row_def insert_attempt_def find_append)

lemma superseded_put:
  assumes inv: "adb_inv db" and i: "superseded i db"
    and b: "b \<in> set (adb_attempts db)" "ta_state b = AA_ACTIVE" "ta_id a = ta_id b"
  shows "superseded i (put_attempt a db)"
proof -
  obtain c where c: "attempt_row i db = Some c" "ta_state c = AA_SUPERSEDED"
    using i by (auto simp: superseded_def)
  have "ta_id a \<noteq> i"
  proof
    assume "ta_id a = i"
    then have "b = c"
      using inv b attempt_row_in [OF c(1)] by (intro key_unique [of ta_id "adb_attempts db"]) (simp_all add: adb_inv_def)
    with b(2) c(2) show False by simp
  qed
  with c show ?thesis by (simp add: superseded_def attempt_row_put_other)
qed

lemma superseded_insert [simp]: "superseded i db \<Longrightarrow> superseded i (insert_attempt b db)"
  by (auto simp: superseded_def dest: attempt_row_insert)

lemma superseded_tasks [simp]:
  "superseded i (put_task t db) = superseded i db" "superseded i (db\<lparr>adb_tasks := ts\<rparr>) = superseded i db"
  by (simp_all add: superseded_def)

lemma active_row_state: "active_row task_id db = Some a \<Longrightarrow> ta_state a = AA_ACTIVE"
  by (auto simp: active_row_def is_active_def dest: find_SomeD)

lemma superseded_reassign:
  assumes inv: "adb_inv db" and i: "superseded i db"
    and run: "reassign task_id v g worker reason by_kind by_id j now db = (r, db')"
  shows "superseded i db'"
proof (cases "db' = db")
  case False
  with run obtain t a where a: "active_row task_id db = Some a"
    by (auto simp: reassign_def split: option.splits)
  have "superseded i (put_attempt (a\<lparr>ta_state := AA_SUPERSEDED, ta_finished_at := Some now\<rparr>) db)"
    using active_row_in [OF a] active_row_state [OF a] by (intro superseded_put [OF inv i]) simp_all
  with run False a show ?thesis
    by (auto simp: reassign_def Let_def split: option.splits if_splits)
qed (use i in simp)

lemma superseded_step:
  assumes "adb_inv db" and "superseded i db"
  shows "ensure_initial env task_id j now db = (r, db') \<Longrightarrow> superseded i (env db) \<Longrightarrow> superseded i db'"
    and "reopen_same_assignment task_id v g db = (r, db') \<Longrightarrow> superseded i db'"
    and "bind_execution task_id g e db = (r, db') \<Longrightarrow> superseded i db'"
    and "complete_current task_id k g now db = (ru, db') \<Longrightarrow> superseded i db'"
  using assms
  by (auto simp: ensure_initial_def reopen_same_assignment_def bind_execution_def
      complete_current_def Let_def split: option.splits if_splits
      dest: active_row_in active_row_state attempt_row_in intro: superseded_put)

lemma superseded_run: "assignment_run s db \<Longrightarrow> adb_inv s \<Longrightarrow> superseded i s \<Longrightarrow> superseded i db"
proof (induction rule: assignment_run.induct)
  case (ensure s db env task_id j now r db')
  then have "adb_inv db" "superseded i db" "superseded i (env db)" by (auto intro: assignment_run_inv)
  with ensure.hyps(3) show ?case by (blast intro: superseded_step(1))
qed (auto intro: superseded_step superseded_reassign assignment_run_inv)

lemma superseded_refused:
  assumes "superseded i db"
  shows "\<not> allows_projection task_id i g db"
    and "complete_current task_id i g now db = (Inl (TaskConflict ''task assignment generation changed''), db)"
  using assms by (auto simp: superseded_def allows_projection_def complete_current_def)

lemma reassign_supersedes:
  assumes "reassign task_id v g worker reason by_kind by_id i now db = (Inr n, db')"
    and "active_row task_id db = Some a" and "adb_inv db"
  shows "superseded (ta_id a) db'"
proof -
  let ?s = "a\<lparr>ta_state := AA_SUPERSEDED, ta_finished_at := Some now\<rparr>"
  have "superseded (ta_id a) (put_attempt ?s db)"
    using attempt_row_put_own [OF active_row_in [OF assms(2)], of ?s] by (simp add: superseded_def)
  with assms(1,2) show ?thesis by (auto simp: reassign_def Let_def split: option.splits if_splits)
qed

lemma reassign_active:
  assumes run: "reassign task_id v g worker reason by_kind by_id i now db = (Inr n, db')"
    and a: "active_row task_id db = Some a" and inv: "adb_inv db"
  shows "active_row task_id db' = Some n \<and> ta_generation n = ta_generation a + 1 \<and> ta_worker_agent_id n = worker"
proof -
  from run a obtain t where t: "task_row task_id db = Some t" by (auto simp: reassign_def split: option.splits)
  then have n: "is_active task_id n" "ta_generation n = ta_generation a + 1" "ta_worker_agent_id n = worker"
    using run a task_row_id [OF t] by (auto simp: reassign_def is_active_def Let_def split: if_splits)
  have "n \<in> set (adb_attempts db')" using run a t
    by (auto simp: reassign_def Let_def insert_attempt_def split: if_splits)
  then obtain b where b: "active_row task_id db' = Some b"
    using n(1) by (cases "active_row task_id db'") (auto simp: active_row_def find_None_iff)
  have chain: "attempt_chain (attempts_of task_id db')"
    using adb_inv_reassign [OF run inv] by (simp add: adb_inv_def)
  have "last (attempts_of task_id db') = n"
    using n(1) run a t by (auto simp: reassign_def Let_def insert_attempt_def attempts_of_def is_active_def split: if_splits)
  with active_row_last [OF chain b] b n show ?thesis by simp
qed

subsection \<open>A sample run\<close>

definition sample_db :: assignment_db where
  "sample_db = \<lparr>adb_tasks = [sample_task], adb_attempts = []\<rparr>"

definition sample_assigned :: assignment_db where
  "sample_assigned = insert_attempt (initial_attempt sample_task None 10 0) sample_db"

lemma sample_db_inv: "adb_inv sample_db"
  by (simp add: adb_inv_def sample_db_def attempts_of_def)

lemmas sample_rows = sample_db_def sample_assigned_def sample_task_def insert_attempt_def initial_attempt_def
  active_row_def task_row_def is_active_def latest_row_def attempts_of_def insert_violates_def

lemma sample_ensure: "ensure_initial (\<lambda>db. db) 6 10 0 sample_db =
    (Inr (initial_attempt sample_task None 10 0), sample_assigned)"
  by (simp add: ensure_initial_def Let_def sample_rows)

lemma sample_assigned_run: "assignment_run sample_db sample_assigned"
  by (rule ensure [OF start start sample_ensure])

lemma sample_assigned_inv: "adb_inv sample_assigned"
  by (rule assignment_run_inv [OF sample_assigned_run sample_db_inv])

subsection \<open>Properties\<close>

text \<open>C29: However the transactions of the assignment store interleave, also with other transactions
  committing between the two reads of \<open>ensure_initial\<close>, the attempts of a task form one lineage:
  generations 1, 2, 3, ... in the order they were made, each naming the attempt before it as its
  predecessor, at most the last one active; so \<open>history\<close> lists them in that order and no two
  Workers hold the same task.\<close>

theorem assignment_lineage:
  assumes "assignment_run s db" and "adb_attempts s = []" and "distinct (map tk_id (adb_tasks s))"
  shows "let h = history task_id db in
     h = attempts_of task_id db \<and> map ta_generation h = map (\<lambda>k. int k + 1) [0 ..< length h] \<and>
     (\<forall>k. Suc k < length h \<longrightarrow>
        ta_previous_attempt_id (h ! Suc k) = Some (ta_id (h ! k)) \<and> ta_state (h ! k) \<noteq> AA_ACTIVE) \<and>
     (\<forall>a. active_row task_id db = Some a \<longleftrightarrow> h \<noteq> [] \<and> last h = a \<and> ta_state a = AA_ACTIVE)"
proof -
  have "adb_inv s" using assms(2,3) by (simp add: adb_inv_def attempts_of_def)
  then have chain: "attempt_chain (attempts_of task_id db)"
    using assignment_run_inv [OF assms(1)] by (simp add: adb_inv_def)
  then have h: "history task_id db = attempts_of task_id db" by (simp add: history_def chain_sorted)
  show ?thesis
    using chain chain_neighbours [OF chain] active_row_iff [OF chain] unfolding h
    by (simp add: attempt_chain_def Let_def)
qed

theorem assignment_lineage_witness:
  "active_row 6 sample_assigned = Some (last (history 6 sample_assigned))"
proof -
  define a where "a = initial_attempt sample_task None 10 0"
  have h: "history 6 sample_assigned = [a]" and active: "ta_state a = AA_ACTIVE"
    by (simp_all add: history_def sample_rows a_def)
  have "adb_attempts sample_db = []" "distinct (map tk_id (adb_tasks sample_db))" by (simp_all add: sample_db_def)
  from assignment_lineage [OF sample_assigned_run this, of 6]
  have "active_row 6 sample_assigned = Some a \<longleftrightarrow> [a] \<noteq> [] \<and> last [a] = a \<and> ta_state a = AA_ACTIVE"
    unfolding h Let_def by blast
  with active show ?thesis by (simp add: h)
qed

text \<open>C30: Once a task has been given to another Worker, the attempt it was taken from is fenced off for
  good: in whatever order the store's transactions run afterwards, its results are not projected
  under any task or generation, and completing it is refused without a change. The replacement
  is the task's one active attempt, a generation later.\<close>

theorem superseded_worker_fenced_off:
  assumes "assignment_run s db" and "adb_attempts s = []" and "distinct (map tk_id (adb_tasks s))"
    and "active_row task_id db = Some a"
    and "reassign task_id version generation worker reason by_kind by_id i now db = (Inr n, db1)"
    and "assignment_run db1 db2"
  shows "active_row task_id db1 = Some n \<and> ta_generation n = ta_generation a + 1 \<and> ta_worker_agent_id n = worker \<and>
    \<not> allows_projection t (ta_id a) g db2 \<and>
    complete_current t (ta_id a) g later db2 =
      (Inl (TaskConflict ''task assignment generation changed''), db2)"
proof -
  have "adb_inv s" using assms(2,3) by (simp add: adb_inv_def attempts_of_def)
  then have inv: "adb_inv db" by (rule assignment_run_inv [OF assms(1)])
  have inv1: "adb_inv db1" using assms(5) inv by (rule adb_inv_reassign)
  have "superseded (ta_id a) db2"
    using superseded_run [OF assms(6) inv1 reassign_supersedes [OF assms(5,4) inv]] .
  with reassign_active [OF assms(5,4) inv] show ?thesis by (simp add: superseded_refused)
qed

theorem superseded_worker_fenced_off_witness:
  "case reassign 6 1 1 7 AR_OPERATOR AK_HUMAN None 11 1 sample_assigned of
     (r, db1) \<Rightarrow> (\<exists>n. r = Inr n) \<and> \<not> allows_projection 6 10 1 db1"
proof -
  obtain n db1 where run: "reassign 6 1 1 7 AR_OPERATOR AK_HUMAN None 11 1 sample_assigned = (Inr n, db1)"
    by (simp add: reassign_def Let_def sample_rows put_task_def put_attempt_def map_where_def)
  have a: "active_row 6 sample_assigned = Some (initial_attempt sample_task None 10 0)" by (simp add: sample_rows)
  have "\<not> allows_projection 6 (ta_id (initial_attempt sample_task None 10 0)) 1 db1"
    using superseded_worker_fenced_off [OF sample_assigned_run _ _ a run start]
    by (simp add: sample_db_def)
  then show ?thesis by (simp add: run initial_attempt_def)
qed

end
