(* ===== verification/Tables.thy ===== *)
theory Tables
  imports Prelude
begin

text \<open>
  Database tables as lists of rows in insertion order, each with a primary key. A transaction
  reads a row by its key and writes the columns it changes; both are stated for any key.
\<close>

definition row :: "('r \<Rightarrow> 'k) \<Rightarrow> 'k \<Rightarrow> 'r list \<Rightarrow> 'r option" where
  "row key i rows = find (\<lambda>r. key r = i) rows"

definition write_row :: "('r \<Rightarrow> 'k) \<Rightarrow> 'r \<Rightarrow> 'r list \<Rightarrow> 'r list" where
  "write_row key x rows = map_where (\<lambda>r. key r = key x) (\<lambda>_. x) rows"

definition keyed :: "('r \<Rightarrow> 'k) \<Rightarrow> 'r list \<Rightarrow> bool" where
  "keyed key rows \<longleftrightarrow> distinct (map key rows)"

lemma row_SomeD: "row key i rows = Some r \<Longrightarrow> r \<in> set rows \<and> key r = i"
  by (auto simp: row_def dest: find_SomeD)

lemma row_in: "keyed key rows \<Longrightarrow> r \<in> set rows \<Longrightarrow> row key (key r) rows = Some r"
  unfolding row_def keyed_def by (rule find_unique_key)

lemma row_None_iff: "row key i rows = None \<longleftrightarrow> i \<notin> key ` set rows"
  by (auto simp: row_def find_None_iff)

lemma row_write:
  "row key i (write_row key x rows) =
     (if i = key x then (if row key i rows = None then None else Some x) else row key i rows)"
  unfolding row_def write_row_def by (induction rows) (auto simp: map_where_def)

lemma row_append: "row key i (rows @ [x]) =
    (case row key i rows of Some r \<Rightarrow> Some r | None \<Rightarrow> if key x = i then Some x else None)"
  by (simp add: row_def find_append split: option.split)

lemma keys_write [simp]: "map key (write_row key x rows) = map key rows"
  unfolding write_row_def by (induction rows) (auto simp: map_where_def)

lemma keyed_write [simp]: "keyed key (write_row key x rows) = keyed key rows"
  by (simp add: keyed_def)

lemma keyed_append: "keyed key (rows @ [x]) \<longleftrightarrow> keyed key rows \<and> key x \<notin> key ` set rows"
  by (auto simp: keyed_def)

lemma keyed_Nil [simp]: "keyed key []"
  by (simp add: keyed_def)

lemma write_row_absent: "row key (key x) rows = None \<Longrightarrow> write_row key x rows = rows"
  unfolding row_def write_row_def map_where_def by (induction rows) (auto split: if_splits)

lemma set_write:
  "set (write_row key x rows) =
     {r \<in> set rows. key r \<noteq> key x} \<union> (if row key (key x) rows = None then {} else {x})"
  unfolding row_def write_row_def map_where_def by (induction rows) auto

lemma length_write [simp]: "length (write_row key x rows) = length rows"
  by (simp add: write_row_def)

text \<open>The rows a condition selects, when the row written keeps what the condition looks at.\<close>

lemma filter_write:
  assumes "keyed key rows" and "row key (key x) rows = Some r" and "P x = P r"
  shows "filter P (write_row key x rows) = write_row key x (filter P rows)"
proof -
  have "P x = P y" if "y \<in> set rows" and "key y = key x" for y
    using that assms row_SomeD [OF assms(2)] key_unique [of key rows y r] by (simp add: keyed_def)
  then show ?thesis
    unfolding write_row_def map_where_def by (induction rows) auto
qed

text \<open>A condition that holds of at most one row of each group.\<close>

definition unique_where :: "('r \<Rightarrow> 'g) \<Rightarrow> ('r \<Rightarrow> bool) \<Rightarrow> 'r list \<Rightarrow> bool" where
  "unique_where g P rows \<longleftrightarrow> distinct (map g (filter P rows))"

lemma unique_where_Nil [simp]: "unique_where g P []"
  by (simp add: unique_where_def)

lemma unique_where_append:
  "unique_where g P (rows @ [x]) \<longleftrightarrow>
     unique_where g P rows \<and> (P x \<longrightarrow> (\<forall>r \<in> set rows. P r \<longrightarrow> g r \<noteq> g x))"
  by (auto simp: unique_where_def image_iff dest: sym)

lemma unique_where_eq:
  "unique_where g P rows \<Longrightarrow> x \<in> set rows \<Longrightarrow> y \<in> set rows \<Longrightarrow> P x \<Longrightarrow> P y \<Longrightarrow> g x = g y \<Longrightarrow> x = y"
  unfolding unique_where_def by (rule key_unique [of g "filter P rows"]) simp_all

text \<open>A write that does not make the condition true keeps it unique.\<close>

lemma unique_where_write:
  assumes "unique_where g P rows" and "keyed key rows" and "row key (key x) rows = Some r"
    and "P x \<Longrightarrow> P r \<and> g x = g r"
  shows "unique_where g P (write_row key x rows)"
proof (cases "P x")
  case True
  have "map g (write_row key x (filter P rows)) = map g (filter P rows)"
  proof -
    have "g x = g y" if "y \<in> set rows" and "key y = key x" for y
      using that assms(2) row_SomeD [OF assms(3)] key_unique [of key rows y r] assms(4) [OF True]
      by (simp add: keyed_def)
    then show ?thesis unfolding write_row_def map_where_def by (induction rows) auto
  qed
  with filter_write [OF assms(2,3)] True assms(1,4) show ?thesis by (simp add: unique_where_def)
next
  case False
  have "filter P (write_row key x rows) = filter (\<lambda>y. P y \<and> key y \<noteq> key x) rows"
    unfolding write_row_def map_where_def using False by (induction rows) auto
  also have "\<dots> = filter (\<lambda>y. key y \<noteq> key x) (filter P rows)" by (simp add: conj_commute)
  finally show ?thesis
    using assms(1) distinct_map_filter [of g "filter P rows"] unfolding unique_where_def by presburger
qed

end
