(* ===== verification/Worker_Execution.thy ===== *)
theory Worker_Execution
  imports Tables Identifiers Json_Values
begin

text \<open>
  Who may execute a task (\<open>modules/agent_runtime/execution_reservation.py\<close>): a reservation row per
  execution, active while it is preparing or running. The database enforces one active row per
  task and one per Worker. A transaction locks the rows it finds; what other transactions
  commit between the reads of \<open>reserve\<close> and its insert is the argument \<open>env\<close>. All readings of
  the clock in one call are one instant \<open>now\<close>.
\<close>

subsection \<open>Rows\<close>

datatype worker_execution_status =
    WX_PREPARING
  | WX_RUNNING
  | WX_SUCCEEDED
  | WX_FAILED
  | WX_CANCELLED
  | WX_EXPIRED

fun worker_execution_status_value :: "worker_execution_status \<Rightarrow> string" where
  "worker_execution_status_value WX_PREPARING = ''preparing''"
| "worker_execution_status_value WX_RUNNING = ''running''"
| "worker_execution_status_value WX_SUCCEEDED = ''succeeded''"
| "worker_execution_status_value WX_FAILED = ''failed''"
| "worker_execution_status_value WX_CANCELLED = ''cancelled''"
| "worker_execution_status_value WX_EXPIRED = ''expired''"

definition worker_execution_status_members :: "worker_execution_status list" where
  "worker_execution_status_members =
     [WX_PREPARING, WX_RUNNING, WX_SUCCEEDED, WX_FAILED, WX_CANCELLED, WX_EXPIRED]"

interpretation WX: str_enum worker_execution_status_value worker_execution_status_members
proof
  show "x \<in> set worker_execution_status_members" for x
    by (cases x) (simp_all add: worker_execution_status_members_def)
qed (simp add: worker_execution_status_members_def)

record worker_execution =
  wx_id :: uuid
  wx_organization_id :: uuid
  wx_project_id :: uuid
  wx_repository_id :: uuid
  wx_task_id :: uuid
  wx_worker_agent_id :: uuid
  wx_run_id :: uuid
  wx_status :: worker_execution_status
  wx_attempt :: int
  wx_version :: int
  wx_lease_owner :: "string option"
  wx_lease_expires_at :: "datetime option"
  wx_task_payload :: "(string \<times> json) list option"
  wx_error_detail :: "string option"
  wx_created_at :: datetime
  wx_updated_at :: datetime
  wx_completed_at :: "datetime option"
  wx_assignment_attempt_id :: "uuid option"
  wx_assignment_generation :: "int option"

type_synonym executions = "worker_execution list"

definition active_execution_states :: "worker_execution_status set" where
  "active_execution_states = {WX_PREPARING, WX_RUNNING}"

definition wx_active :: "worker_execution \<Rightarrow> bool" where
  "wx_active x \<longleftrightarrow> wx_status x \<in> active_execution_states"

definition reservation_conflict :: "string \<Rightarrow> exc" where
  "reservation_conflict m = ModuleError ''WorkerExecutionReservationConflict'' m"

definition capacity_unavailable :: exc where
  "capacity_unavailable =
     ModuleError ''WorkerCapacityUnavailable'' ''worker already has an active execution''"

text \<open>\<open>_domain\<close>: an empty payload is read as none.\<close>

definition wx_domain :: "worker_execution \<Rightarrow> worker_execution" where
  "wx_domain x = x\<lparr>wx_task_payload :=
     (case wx_task_payload x of Some [] \<Rightarrow> None | p \<Rightarrow> p)\<rparr>"

definition validate_lease :: "string \<Rightarrow> int \<Rightarrow> unit result" where
  "validate_lease owner secs =
     (if blank owner \<or> length owner > 128 then Inl (ValueError ''lease owner must contain 1-128 characters'')
      else if secs < 1 then Inl (ValueError ''lease seconds must be positive'')
      else Inr ())"

definition wx_expired :: "datetime \<Rightarrow> worker_execution \<Rightarrow> bool" where
  "wx_expired now x \<longleftrightarrow> (case wx_lease_expires_at x of None \<Rightarrow> True | Some t \<Rightarrow> t \<le> now)"

definition wx_expire :: "datetime \<Rightarrow> worker_execution \<Rightarrow> worker_execution" where
  "wx_expire now x = x\<lparr>wx_status := WX_EXPIRED, wx_lease_owner := None, wx_lease_expires_at := None,
     wx_version := wx_version x + 1, wx_updated_at := now, wx_completed_at := Some now\<rparr>"

definition same_binding :: "uuid \<Rightarrow> uuid \<Rightarrow> uuid \<Rightarrow> uuid \<Rightarrow> worker_execution \<Rightarrow> bool" where
  "same_binding organization_id project_id repository_id worker_agent_id x \<longleftrightarrow>
     wx_organization_id x = organization_id \<and> wx_project_id x = project_id \<and>
     wx_repository_id x = repository_id \<and> wx_worker_agent_id x = worker_agent_id"

definition other_binding :: exc where
  "other_binding = reservation_conflict ''active execution reservation has a different task binding''"

text \<open>\<open>_active_task\<close>: the active row of a task, with the largest attempt.\<close>

definition active_task :: "uuid \<Rightarrow> executions \<Rightarrow> worker_execution option" where
  "active_task task_id db =
     (case rev (sort_key wx_attempt (filter (\<lambda>x. wx_task_id x = task_id \<and> wx_active x) db)) of
        [] \<Rightarrow> None | x # _ \<Rightarrow> Some x)"

definition active_worker :: "uuid \<Rightarrow> executions \<Rightarrow> worker_execution option" where
  "active_worker worker_agent_id db = find (\<lambda>x. wx_worker_agent_id x = worker_agent_id \<and> wx_active x) db"

definition worker_busy :: "uuid \<Rightarrow> executions \<Rightarrow> bool" where
  "worker_busy worker_agent_id db \<longleftrightarrow> active_worker worker_agent_id db \<noteq> None"

definition get_active :: "uuid \<Rightarrow> executions \<Rightarrow> worker_execution option" where
  "get_active task_id db = map_option wx_domain (active_task task_id db)"

definition get_execution :: "uuid \<Rightarrow> executions \<Rightarrow> worker_execution option" where
  "get_execution execution_id db = map_option wx_domain (row wx_id execution_id db)"

text \<open>One more than the largest attempt of the task so far.\<close>

definition next_attempt :: "uuid \<Rightarrow> executions \<Rightarrow> int" where
  "next_attempt task_id db =
     (let last = (case rev (sort_key wx_attempt (filter (\<lambda>x. wx_task_id x = task_id) db)) of
                    [] \<Rightarrow> 0 | x # _ \<Rightarrow> wx_attempt x)
      in 1 + last)"

definition list_expired_active :: "int \<Rightarrow> int \<Rightarrow> datetime \<Rightarrow> executions \<Rightarrow> worker_execution list" where
  "list_expired_active grace_seconds limit now db =
     map wx_domain (py_prefix limit (sort_key (\<lambda>x. the (wx_lease_expires_at x))
       (filter (\<lambda>x. wx_active x \<and>
          (case wx_lease_expires_at x of None \<Rightarrow> False | Some t \<Rightarrow> t < now - seconds grace_seconds)) db)))"

subsection \<open>Reserving\<close>

text \<open>What a caller asks for, the identifiers the call draws, and the time.\<close>

record reserve_request =
  rq_organization_id :: uuid
  rq_project_id :: uuid
  rq_repository_id :: uuid
  rq_task_id :: uuid
  rq_worker_agent_id :: uuid
  rq_lease_owner :: string
  rq_lease_seconds :: int
  rq_assignment_attempt_id :: "uuid option"
  rq_assignment_generation :: "int option"

definition rq_bound :: "reserve_request \<Rightarrow> worker_execution \<Rightarrow> bool" where
  "rq_bound q = same_binding (rq_organization_id q) (rq_project_id q) (rq_repository_id q) (rq_worker_agent_id q)"

text \<open>
  The reads before the insert: the task's active row is the caller's execution when its lease
  runs, and is expired otherwise; then the same for the Worker's active row.
\<close>

definition free_worker :: "uuid \<Rightarrow> datetime \<Rightarrow> executions \<Rightarrow> executions result" where
  "free_worker worker_agent_id now db =
     (case active_worker worker_agent_id db of
        None \<Rightarrow> Inr db
      | Some busy \<Rightarrow>
          if \<not> wx_expired now busy then Inl capacity_unavailable
          else Inr (write_row wx_id (wx_expire now busy) db))"

definition reserve_reads ::
    "reserve_request \<Rightarrow> datetime \<Rightarrow> executions \<Rightarrow> (worker_execution + executions) result" where
  "reserve_reads q now db =
     (case active_task (rq_task_id q) db of
        None \<Rightarrow> rbind (free_worker (rq_worker_agent_id q) now db) (\<lambda>db1. Inr (Inr db1))
      | Some x \<Rightarrow>
          if \<not> rq_bound q x then Inl other_binding
          else if rq_assignment_attempt_id q \<noteq> None \<and>
            wx_assignment_attempt_id x \<noteq> rq_assignment_attempt_id q
          then Inl (reservation_conflict ''active execution has a different assignment attempt'')
          else if \<not> wx_expired now x then Inr (Inl (wx_domain x))
          else rbind (free_worker (rq_worker_agent_id q) now (write_row wx_id (wx_expire now x) db))
                 (\<lambda>db1. Inr (Inr db1)))"

definition new_execution ::
    "reserve_request \<Rightarrow> uuid \<Rightarrow> uuid \<Rightarrow> datetime \<Rightarrow> executions \<Rightarrow> worker_execution" where
  "new_execution q i run_id now db =
     \<lparr>wx_id = i, wx_organization_id = rq_organization_id q, wx_project_id = rq_project_id q,
      wx_repository_id = rq_repository_id q, wx_task_id = rq_task_id q,
      wx_worker_agent_id = rq_worker_agent_id q, wx_run_id = run_id, wx_status = WX_PREPARING,
      wx_attempt = next_attempt (rq_task_id q) db, wx_version = 1,
      wx_lease_owner = Some (rq_lease_owner q),
      wx_lease_expires_at = Some (now + seconds (rq_lease_seconds q)), wx_task_payload = None,
      wx_error_detail = None, wx_created_at = now, wx_updated_at = now, wx_completed_at = None,
      wx_assignment_attempt_id = rq_assignment_attempt_id q,
      wx_assignment_generation = rq_assignment_generation q\<rparr>"

text \<open>The unique indexes.\<close>

definition wx_violates :: "worker_execution \<Rightarrow> executions \<Rightarrow> bool" where
  "wx_violates x db \<longleftrightarrow>
     (\<exists>y \<in> set db. wx_id y = wx_id x \<or> wx_run_id y = wx_run_id x \<or>
        (wx_active x \<and> wx_active y \<and>
           (wx_task_id y = wx_task_id x \<or> wx_worker_agent_id y = wx_worker_agent_id x)))"

text \<open>
  \<open>reserve\<close>: the reservation and whether this call made it. An insert that violates an index rolls
  the expiries back and answers with the row that was in the way, if it is of the same task.
\<close>

definition reserve ::
    "(executions \<Rightarrow> executions) \<Rightarrow> reserve_request \<Rightarrow> uuid \<Rightarrow> uuid \<Rightarrow> datetime
     \<Rightarrow> (executions, worker_execution \<times> bool) proc" where
  "reserve env q i run_id now db =
     (case validate_lease (rq_lease_owner q) (rq_lease_seconds q) of
        Inl e \<Rightarrow> (Inl e, db)
      | Inr _ \<Rightarrow>
     (case reserve_reads q now db of
        Inl e \<Rightarrow> (Inl e, db)
      | Inr (Inl x) \<Rightarrow> (Inr (x, False), db)
      | Inr (Inr db1) \<Rightarrow>
          let x = new_execution q i run_id now (env db1)
          in if \<not> wx_violates x (env db1) then (Inr (wx_domain x, True), env db1 @ [x])
             else (case get_active (rq_task_id q) (env db) of
                     None \<Rightarrow> (Inl capacity_unavailable, env db)
                   | Some y \<Rightarrow>
                       if rq_bound q y then (Inr (y, False), env db) else (Inl other_binding, env db))))"

subsection \<open>The holder's operations\<close>

definition owned :: "uuid \<Rightarrow> string \<Rightarrow> int \<Rightarrow> datetime \<Rightarrow> executions \<Rightarrow> worker_execution result" where
  "owned reservation_id owner version now db =
     (case row wx_id reservation_id db of
        None \<Rightarrow> Inl (reservation_conflict ''execution reservation ownership changed'')
      | Some x \<Rightarrow>
          if \<not> wx_active x \<or> wx_lease_owner x \<noteq> Some owner \<or> wx_version x \<noteq> version
          then Inl (reservation_conflict ''execution reservation ownership changed'')
          else if wx_expired now x
          then Inl (reservation_conflict ''execution reservation lease expired'')
          else Inr x)"

definition write_owned ::
    "(worker_execution \<Rightarrow> worker_execution) \<Rightarrow> worker_execution result \<Rightarrow> (executions, worker_execution) proc" where
  "write_owned change found db =
     (case found of
        Inl e \<Rightarrow> (Inl e, db)
      | Inr x \<Rightarrow> (Inr (wx_domain (change x)), write_row wx_id (change x) db))"

definition reconcile_live_dispatch ::
    "uuid \<Rightarrow> int \<Rightarrow> datetime \<Rightarrow> (executions, worker_execution) proc" where
  "reconcile_live_dispatch execution_id lease_seconds now db =
     write_owned (\<lambda>x. x\<lparr>wx_lease_expires_at := Some (now + seconds lease_seconds), wx_updated_at := now\<rparr>)
       (case row wx_id execution_id db of
          None \<Rightarrow> Inl (reservation_conflict ''execution reservation is not active'')
        | Some x \<Rightarrow> if wx_active x then Inr x
                    else Inl (reservation_conflict ''execution reservation is not active'')) db"

definition bind_payload ::
    "uuid \<Rightarrow> (string \<times> json) list \<Rightarrow> string \<Rightarrow> int \<Rightarrow> datetime \<Rightarrow> (executions, worker_execution) proc" where
  "bind_payload reservation_id payload lease_owner fencing_version now db =
     write_owned (\<lambda>x. x\<lparr>wx_status := WX_RUNNING, wx_task_payload := Some payload,
         wx_version := wx_version x + 1, wx_updated_at := now\<rparr>)
       (owned reservation_id lease_owner fencing_version now db) db"

definition renew ::
    "uuid \<Rightarrow> string \<Rightarrow> int \<Rightarrow> int \<Rightarrow> datetime \<Rightarrow> (executions, worker_execution) proc" where
  "renew reservation_id lease_owner fencing_version lease_seconds now db =
     (case validate_lease lease_owner lease_seconds of
        Inl e \<Rightarrow> (Inl e, db)
      | Inr _ \<Rightarrow>
          write_owned (\<lambda>x. x\<lparr>wx_lease_expires_at := Some (now + seconds lease_seconds), wx_updated_at := now\<rparr>)
            (owned reservation_id lease_owner fencing_version now db) db)"

definition fail_preparation ::
    "uuid \<Rightarrow> string \<Rightarrow> string \<Rightarrow> int \<Rightarrow> datetime \<Rightarrow> (executions, worker_execution) proc" where
  "fail_preparation reservation_id error lease_owner fencing_version now db =
     write_owned (\<lambda>x. x\<lparr>wx_status := WX_FAILED, wx_error_detail := Some (take 2000 error),
         wx_lease_owner := None, wx_lease_expires_at := None, wx_version := wx_version x + 1,
         wx_updated_at := now, wx_completed_at := Some now\<rparr>)
       (owned reservation_id lease_owner fencing_version now db) db"

text \<open>The end of a run the Runner reports, as \<open>record_event\<close> writes it.\<close>

definition settle_run :: "uuid \<Rightarrow> worker_execution_status \<Rightarrow> datetime \<Rightarrow> executions \<Rightarrow> executions" where
  "settle_run run_id terminal now db =
     (case find (\<lambda>x. wx_run_id x = run_id \<and> wx_active x) db of
        None \<Rightarrow> db
      | Some x \<Rightarrow> write_row wx_id (x\<lparr>wx_status := terminal, wx_lease_owner := None,
          wx_lease_expires_at := None, wx_version := wx_version x + 1, wx_updated_at := now,
          wx_completed_at := Some now\<rparr>) db)"

subsection \<open>One active execution per task and per Worker\<close>

definition wx_sound :: "worker_execution \<Rightarrow> bool" where
  "wx_sound x \<longleftrightarrow> 1 \<le> wx_version x \<and> (wx_active x \<longleftrightarrow> wx_lease_owner x \<noteq> None) \<and>
     (wx_active x \<longleftrightarrow> wx_lease_expires_at x \<noteq> None) \<and> (wx_active x \<longleftrightarrow> wx_completed_at x = None)"

definition exec_inv :: "executions \<Rightarrow> bool" where
  "exec_inv db \<longleftrightarrow> keyed wx_id db \<and> keyed wx_run_id db \<and> unique_where wx_task_id wx_active db \<and>
     unique_where wx_worker_agent_id wx_active db \<and> (\<forall>x \<in> set db. wx_sound x)"

text \<open>What a row keeps, whatever is written to it.\<close>

definition wx_follows :: "worker_execution \<Rightarrow> worker_execution \<Rightarrow> bool" where
  "wx_follows x y \<longleftrightarrow> wx_id y = wx_id x \<and> wx_run_id y = wx_run_id x \<and> wx_task_id y = wx_task_id x \<and>
     wx_worker_agent_id y = wx_worker_agent_id x \<and> wx_attempt y = wx_attempt x \<and>
     wx_version x \<le> wx_version y \<and> (wx_active y \<longrightarrow> wx_active x)"

lemma wx_follows_refl [simp]: "wx_follows x x"
  by (simp add: wx_follows_def)

lemma wx_follows_trans [trans]: "wx_follows x y \<Longrightarrow> wx_follows y z \<Longrightarrow> wx_follows x z"
  by (auto simp: wx_follows_def)

definition exec_follows :: "executions \<Rightarrow> executions \<Rightarrow> bool" where
  "exec_follows db db' \<longleftrightarrow>
     (\<forall>i x. row wx_id i db = Some x \<longrightarrow> (\<exists>y. row wx_id i db' = Some y \<and> wx_follows x y))"

lemma exec_follows_refl [simp]: "exec_follows db db"
  by (simp add: exec_follows_def)

lemma exec_follows_trans [trans]: "exec_follows a b \<Longrightarrow> exec_follows b c \<Longrightarrow> exec_follows a c"
  unfolding exec_follows_def by (meson wx_follows_trans)

lemma exec_follows_append [simp]: "exec_follows db (db @ [x])"
  by (auto simp: exec_follows_def row_append)

lemma keyed_run_write:
  assumes "keyed wx_id db" and "keyed wx_run_id db" and "row wx_id (wx_id y) db = Some x" and "wx_run_id y = wx_run_id x"
  shows "keyed wx_run_id (write_row wx_id y db)"
proof -
  have "wx_run_id y = wx_run_id z" if "z \<in> set db" and "wx_id z = wx_id y" for z
    using that assms row_SomeD [OF assms(3)] key_unique [of wx_id db z x] by (simp add: keyed_def)
  then have "map wx_run_id (write_row wx_id y db) = map wx_run_id db"
    unfolding write_row_def map_where_def by (induction db) auto
  with assms(2) show ?thesis by (simp add: keyed_def)
qed

lemma exec_write:
  assumes inv: "exec_inv db" and x: "row wx_id (wx_id x) db = Some x" and y: "wx_follows x y" "wx_sound y"
  shows "exec_inv (write_row wx_id y db) \<and> exec_follows db (write_row wx_id y db)"
proof -
  have id: "row wx_id (wx_id y) db = Some x" using x y(1) by (simp add: wx_follows_def)
  have "unique_where g wx_active (write_row wx_id y db)" if "g y = g x" and "unique_where g wx_active db"
    for g :: "worker_execution \<Rightarrow> uuid"
    using that inv id y(1) by (intro unique_where_write) (auto simp: exec_inv_def wx_follows_def)
  moreover have "keyed wx_run_id (write_row wx_id y db)"
    using inv id y(1) by (intro keyed_run_write) (auto simp: exec_inv_def wx_follows_def)
  ultimately have "exec_inv (write_row wx_id y db)"
    using inv y by (auto simp: exec_inv_def wx_follows_def set_write split: if_splits)
  moreover have "exec_follows db (write_row wx_id y db)"
    using id y(1) by (auto simp: exec_follows_def row_write)
  ultimately show ?thesis ..
qed

lemma exec_append:
  assumes "exec_inv db" and "\<not> wx_violates x db" and "wx_sound x"
  shows "exec_inv (db @ [x])"
  using assms by (auto simp: exec_inv_def keyed_append unique_where_append wx_violates_def)

lemma find_row: "exec_inv db \<Longrightarrow> find P db = Some x \<Longrightarrow> row wx_id (wx_id x) db = Some x \<and> P x"
  by (auto simp: exec_inv_def dest!: find_SomeD intro: row_in)

lemma last_sorted_in: "rev (sort_key f xs) = x # ys \<Longrightarrow> x \<in> set xs"
  by (metis list.set_intros(1) set_rev set_sort)

lemma active_task_row:
  assumes "exec_inv db" and "active_task task_id db = Some x"
  shows "row wx_id (wx_id x) db = Some x \<and> wx_task_id x = task_id \<and> wx_active x"
proof -
  obtain ys where "rev (sort_key wx_attempt (filter (\<lambda>x. wx_task_id x = task_id \<and> wx_active x) db)) = x # ys"
    using assms(2) unfolding active_task_def by (metis (no_types, lifting) list.case_eq_if list.exhaust_sel option.distinct(1) option.inject)
  then have "x \<in> set (filter (\<lambda>x. wx_task_id x = task_id \<and> wx_active x) db)" by (rule last_sorted_in)
  with assms(1) show ?thesis by (auto simp: exec_inv_def intro: row_in)
qed

lemma active_worker_row:
  "exec_inv db \<Longrightarrow> active_worker worker db = Some x \<Longrightarrow>
     row wx_id (wx_id x) db = Some x \<and> wx_worker_agent_id x = worker \<and> wx_active x"
  unfolding active_worker_def by (auto dest: find_row)

lemma expire_follows: "wx_follows x (wx_expire now x)" "wx_sound x \<Longrightarrow> wx_sound (wx_expire now x)"
  "\<not> wx_active (wx_expire now x)" "wx_id (wx_expire now x) = wx_id x"
  by (auto simp: wx_follows_def wx_sound_def wx_expire_def wx_active_def active_execution_states_def)

lemma row_sound: "exec_inv db \<Longrightarrow> row wx_id i db = Some x \<Longrightarrow> wx_sound x"
  by (auto simp: exec_inv_def dest: row_SomeD)

lemma free_worker_inv:
  assumes "exec_inv db" and "free_worker worker now db = Inr db1"
  shows "exec_inv db1 \<and> exec_follows db db1"
proof (cases "active_worker worker db")
  case (Some busy)
  with assms active_worker_row [OF assms(1) Some] show ?thesis
    using exec_write [OF assms(1), of busy "wx_expire now busy"]
    by (auto simp: free_worker_def expire_follows row_sound [OF assms(1)] split: if_splits)
qed (use assms in \<open>simp add: free_worker_def\<close>)

lemma reserve_reads_inv:
  assumes inv: "exec_inv db" and run: "reserve_reads q now db = Inr (Inr db1)"
  shows "exec_inv db1 \<and> exec_follows db db1"
proof (cases "active_task (rq_task_id q) db")
  case None
  with run free_worker_inv [OF inv] show ?thesis
    by (auto simp: reserve_reads_def rbind_eq_Inr_iff)
next
  case (Some x)
  note x = active_task_row [OF inv Some]
  have w: "exec_inv (write_row wx_id (wx_expire now x) db) \<and> exec_follows db (write_row wx_id (wx_expire now x) db)"
    using x by (intro exec_write inv) (auto simp: expire_follows row_sound [OF inv])
  from run Some have "free_worker (rq_worker_agent_id q) now (write_row wx_id (wx_expire now x) db) = Inr db1"
    by (auto simp: reserve_reads_def rbind_eq_Inr_iff split: if_splits)
  with free_worker_inv [OF conjunct1 [OF w]] w show ?thesis by (blast intro: exec_follows_trans)
qed

lemma new_execution_sound: "wx_sound (new_execution q i run_id now db)" "wx_active (new_execution q i run_id now db)"
  by (auto simp: new_execution_def wx_sound_def wx_active_def active_execution_states_def)

lemma reserve_inv:
  assumes inv: "exec_inv db" and run: "reserve env q i run_id now db = (r, db')"
    and env: "\<And>x. exec_inv x \<Longrightarrow> exec_inv (env x) \<and> exec_follows x (env x)"
  shows "exec_inv db' \<and> exec_follows db db'"
proof (cases "reserve_reads q now db")
  case (Inr c)
  show ?thesis
  proof (cases c)
    case (Inr db1)
    have db1: "exec_inv db1 \<and> exec_follows db db1"
      using reserve_reads_inv [OF inv] \<open>reserve_reads q now db = Inr c\<close> Inr by simp
    let ?x = "new_execution q i run_id now (env db1)"
    from run \<open>reserve_reads q now db = Inr c\<close> Inr
    have "db' = db \<or> db' = env db \<or> \<not> wx_violates ?x (env db1) \<and> db' = env db1 @ [?x]"
      by (auto simp: reserve_def Let_def split: sum.splits option.splits if_splits)
    moreover have "exec_inv (env db1 @ [?x])" if "\<not> wx_violates ?x (env db1)"
      using env [of db1] db1 that by (intro exec_append) (simp_all add: new_execution_sound)
    moreover have "exec_follows db (env db1 @ [?x])"
      using env [of db1] db1 by (blast intro: exec_follows_trans exec_follows_append)
    ultimately show ?thesis using inv env [OF inv] by auto
  qed (use inv run \<open>reserve_reads q now db = Inr c\<close> in \<open>auto simp: reserve_def split: sum.splits\<close>)
qed (use inv run in \<open>auto simp: reserve_def split: sum.splits\<close>)

lemma owned_InrD: "owned i owner v now db = Inr x \<Longrightarrow>
    row wx_id i db = Some x \<and> wx_active x \<and> wx_lease_owner x = Some owner \<and> wx_version x = v \<and> wx_id x = i"
  by (auto simp: owned_def split: option.splits if_splits dest: row_SomeD)

lemma write_owned_inv:
  assumes inv: "exec_inv db" and run: "write_owned change found db = (r, db')"
    and "\<And>x. found = Inr x \<Longrightarrow> row wx_id (wx_id x) db = Some x \<and> wx_follows x (change x) \<and> wx_sound (change x)"
  shows "exec_inv db' \<and> exec_follows db db'"
proof (cases found)
  case (Inr x)
  with assms(3) [OF Inr] exec_write [OF inv, of x "change x"] run show ?thesis by (simp add: write_owned_def)
qed (use inv run in \<open>simp add: write_owned_def\<close>)

lemmas wx_change_simps = wx_follows_def wx_sound_def wx_active_def active_execution_states_def

lemma holder_change:
  assumes "wx_sound x" and "wx_active x"
  shows "wx_follows x (x\<lparr>wx_lease_expires_at := Some t, wx_updated_at := now\<rparr>) \<and>
      wx_sound (x\<lparr>wx_lease_expires_at := Some t, wx_updated_at := now\<rparr>)"
    and "wx_follows x (x\<lparr>wx_status := WX_RUNNING, wx_task_payload := p, wx_version := wx_version x + 1,
        wx_updated_at := now\<rparr>) \<and>
      wx_sound (x\<lparr>wx_status := WX_RUNNING, wx_task_payload := p, wx_version := wx_version x + 1,
        wx_updated_at := now\<rparr>)"
    and "s \<notin> active_execution_states \<Longrightarrow>
      wx_follows x (x\<lparr>wx_status := s, wx_error_detail := e, wx_lease_owner := None, wx_lease_expires_at := None,
        wx_version := wx_version x + 1, wx_updated_at := now, wx_completed_at := Some now\<rparr>) \<and>
      wx_sound (x\<lparr>wx_status := s, wx_error_detail := e, wx_lease_owner := None, wx_lease_expires_at := None,
        wx_version := wx_version x + 1, wx_updated_at := now, wx_completed_at := Some now\<rparr>)"
  using assms by (auto simp: wx_change_simps)

lemma holder_inv:
  assumes inv: "exec_inv db"
  shows "reconcile_live_dispatch i secs now db = (r, db') \<Longrightarrow> exec_inv db' \<and> exec_follows db db'"
    and "bind_payload i payload owner v now db = (r, db') \<Longrightarrow> exec_inv db' \<and> exec_follows db db'"
    and "renew i owner v secs now db = (r, db') \<Longrightarrow> exec_inv db' \<and> exec_follows db db'"
    and "fail_preparation i error owner v now db = (r, db') \<Longrightarrow> exec_inv db' \<and> exec_follows db db'"
proof -
  have failed: "WX_FAILED \<notin> active_execution_states" by (simp add: active_execution_states_def)
  note change = row_sound [OF inv] holder_change(1,2) holder_change(3) [OF _ _ failed]
  show "reconcile_live_dispatch i secs now db = (r, db') \<Longrightarrow> exec_inv db' \<and> exec_follows db db'"
    unfolding reconcile_live_dispatch_def
    by (erule write_owned_inv [OF inv])
      (auto split: option.splits if_splits dest: row_SomeD intro: change(2) [THEN conjunct1] change(2) [THEN conjunct2] change(1))
  show "bind_payload i payload owner v now db = (r, db') \<Longrightarrow> exec_inv db' \<and> exec_follows db db'"
    unfolding bind_payload_def
    by (erule write_owned_inv [OF inv]) (use change in \<open>blast dest: owned_InrD\<close>)
  show "renew i owner v secs now db = (r, db') \<Longrightarrow> exec_inv db' \<and> exec_follows db db'"
  proof -
    assume run: "renew i owner v secs now db = (r, db')"
    show ?thesis
    proof (cases "validate_lease owner secs")
      case (Inr u)
      with run have "write_owned (\<lambda>x. x\<lparr>wx_lease_expires_at := Some (now + seconds secs), wx_updated_at := now\<rparr>)
          (owned i owner v now db) db = (r, db')" by (simp add: renew_def)
      then show ?thesis by (rule write_owned_inv [OF inv]) (use change in \<open>blast dest: owned_InrD\<close>)
    qed (use run inv in \<open>auto simp: renew_def\<close>)
  qed
  show "fail_preparation i error owner v now db = (r, db') \<Longrightarrow> exec_inv db' \<and> exec_follows db db'"
    unfolding fail_preparation_def
    by (erule write_owned_inv [OF inv]) (use change in \<open>blast dest: owned_InrD\<close>)
qed

lemma settle_run_inv:
  assumes inv: "exec_inv db" and "terminal \<notin> active_execution_states"
  shows "exec_inv (settle_run run_id terminal now db) \<and> exec_follows db (settle_run run_id terminal now db)"
proof (cases "find (\<lambda>x. wx_run_id x = run_id \<and> wx_active x) db")
  case (Some x)
  note x = find_row [OF inv Some]
  show ?thesis
    unfolding settle_run_def Some option.case
    using x row_sound [OF inv, of "wx_id x" x] assms(2) by (intro exec_write [OF inv]) (auto simp: wx_change_simps)
qed (simp add: settle_run_def inv)

subsection \<open>Runs\<close>

inductive exec_run :: "executions \<Rightarrow> executions \<Rightarrow> bool" where
  start: "exec_run s s"
| reserved: "exec_run s db \<Longrightarrow> \<forall>x. exec_run x (env x) \<Longrightarrow> reserve env q i run_id now db = (r, db') \<Longrightarrow> exec_run s db'"
| reconciled: "exec_run s db \<Longrightarrow> reconcile_live_dispatch i secs now db = (rx, db') \<Longrightarrow> exec_run s db'"
| bound: "exec_run s db \<Longrightarrow> bind_payload i payload owner v now db = (rx, db') \<Longrightarrow> exec_run s db'"
| renewed: "exec_run s db \<Longrightarrow> renew i owner v secs now db = (rx, db') \<Longrightarrow> exec_run s db'"
| failed: "exec_run s db \<Longrightarrow> fail_preparation i error owner v now db = (rx, db') \<Longrightarrow> exec_run s db'"
| settled: "exec_run s db \<Longrightarrow> terminal \<notin> active_execution_states \<Longrightarrow>
     exec_run s (settle_run run_id terminal now db)"

lemma exec_run_step:
  "exec_inv db \<and> exec_follows s db \<Longrightarrow> exec_inv db' \<and> exec_follows db db' \<Longrightarrow> exec_inv db' \<and> exec_follows s db'"
  by (blast intro: exec_follows_trans)

lemma exec_run_inv: "exec_run s db \<Longrightarrow> exec_inv s \<Longrightarrow> exec_inv db \<and> exec_follows s db"
proof (induction rule: exec_run.induct)
  case (reserved s db env q i run_id now r db')
  then have db: "exec_inv db \<and> exec_follows s db" by simp
  have "exec_inv db' \<and> exec_follows db db'"
  proof (rule reserve_inv)
    show "reserve env q i run_id now db = (r, db')" by fact
    show "exec_inv x \<Longrightarrow> exec_inv (env x) \<and> exec_follows x (env x)" for x using reserved.IH by simp
  qed (use db in simp)
  with db show ?case by (rule exec_run_step)
next
  case (reconciled s db i secs now rx db')
  then have db: "exec_inv db \<and> exec_follows s db" by simp
  show ?case by (rule exec_run_step [OF db holder_inv(1) [OF conjunct1 [OF db] reconciled.hyps(2)]])
next
  case (bound s db i payload owner v now rx db')
  then have db: "exec_inv db \<and> exec_follows s db" by simp
  show ?case by (rule exec_run_step [OF db holder_inv(2) [OF conjunct1 [OF db] bound.hyps(2)]])
next
  case (renewed s db i owner v secs now rx db')
  then have db: "exec_inv db \<and> exec_follows s db" by simp
  show ?case by (rule exec_run_step [OF db holder_inv(3) [OF conjunct1 [OF db] renewed.hyps(2)]])
next
  case (failed s db i error owner v now rx db')
  then have db: "exec_inv db \<and> exec_follows s db" by simp
  show ?case by (rule exec_run_step [OF db holder_inv(4) [OF conjunct1 [OF db] failed.hyps(2)]])
next
  case (settled s db terminal run_id now)
  then have db: "exec_inv db \<and> exec_follows s db" by simp
  show ?case by (rule exec_run_step [OF db settle_run_inv [OF conjunct1 [OF db] settled.hyps(2)]])
qed simp

lemma exec_inv_Nil [simp]: "exec_inv []"
  by (simp add: exec_inv_def)

subsection \<open>What a reservation excludes\<close>

lemma exec_inv_unique:
  "exec_inv db \<Longrightarrow> x \<in> set db \<Longrightarrow> y \<in> set db \<Longrightarrow> wx_active x \<Longrightarrow> wx_active y \<Longrightarrow>
     wx_task_id x = wx_task_id y \<or> wx_worker_agent_id x = wx_worker_agent_id y \<Longrightarrow> x = y"
  unfolding exec_inv_def by (metis unique_where_eq)

text \<open>A row that has ended, or moved past a version, is out of reach of whoever held that version.\<close>

lemma owned_refused:
  assumes "row wx_id i db = Some x" and "\<not> wx_active x \<or> v < wx_version x"
  shows "owned i owner v now db = Inl (reservation_conflict ''execution reservation ownership changed'')"
  using assms by (auto simp: owned_def)

lemma exec_follows_refused:
  assumes "row wx_id i db = Some x" and "\<not> wx_active x \<or> v < wx_version x" and "exec_follows db db'"
  shows "owned i owner v now db' = Inl (reservation_conflict ''execution reservation ownership changed'')"
proof -
  obtain y where y: "row wx_id i db' = Some y" "wx_follows x y" using assms(1,3) by (auto simp: exec_follows_def)
  with assms(2) have "\<not> wx_active y \<or> v < wx_version y" by (auto simp: wx_follows_def)
  with y(1) show ?thesis by (rule owned_refused)
qed

text \<open>A reservation that was made displaces every other of the same task or Worker.\<close>

lemma exec_follows_ids:
  assumes "exec_follows db db'" and "exec_inv db"
  shows "wx_id ` set db \<subseteq> wx_id ` set db'"
proof
  fix i assume "i \<in> wx_id ` set db"
  then obtain x where "x \<in> set db" "i = wx_id x" by blast
  then have "row wx_id i db = Some x" using assms(2) by (simp add: exec_inv_def row_in)
  then obtain y where "row wx_id i db' = Some y" using assms(1) unfolding exec_follows_def by blast
  then show "i \<in> wx_id ` set db'" using row_SomeD by fastforce
qed

lemma reserve_created:
  assumes inv: "exec_inv db" and run: "reserve env q i run_id now db = (Inr (y, True), db')"
    and env: "\<forall>x. exec_run x (env x)"
  shows "y \<in> set db' \<and> wx_id y = i \<and> wx_active y \<and> wx_task_id y = rq_task_id q \<and>
    wx_worker_agent_id y = rq_worker_agent_id q \<and> i \<notin> wx_id ` set db"
proof -
  obtain db1 where db1: "reserve_reads q now db = Inr (Inr db1)" "\<not> wx_violates (new_execution q i run_id now (env db1)) (env db1)"
    "db' = env db1 @ [new_execution q i run_id now (env db1)]" "y = wx_domain (new_execution q i run_id now (env db1))"
    using run by (auto simp: reserve_def Let_def split: sum.splits option.splits if_splits)
  have y: "y = new_execution q i run_id now (env db1)" using db1(4) by (simp add: wx_domain_def new_execution_def)
  have "exec_inv db1 \<and> exec_follows db db1" by (rule reserve_reads_inv [OF inv db1(1)])
  then have "exec_follows db (env db1)"
    using exec_run_inv [OF env [rule_format, of db1]] by (blast intro: exec_follows_trans)
  then have "wx_id ` set db \<subseteq> wx_id ` set (env db1)" by (rule exec_follows_ids [OF _ inv])
  moreover have "i \<notin> wx_id ` set (env db1)" using db1(2) by (auto simp: wx_violates_def new_execution_def)
  moreover have "wx_id y = i \<and> wx_task_id y = rq_task_id q \<and> wx_worker_agent_id y = rq_worker_agent_id q"
    unfolding y by (simp add: new_execution_def)
  moreover have "wx_active y" unfolding y by (rule new_execution_sound)
  moreover have "y \<in> set db'" unfolding db1(3) y by simp
  ultimately show ?thesis by blast
qed

lemma sorted_last_ge: "x \<in> set xs \<Longrightarrow> rev (sort_key f xs) = z # zs \<Longrightarrow> f x \<le> f z"
proof -
  assume x: "x \<in> set xs" and z: "rev (sort_key f xs) = z # zs"
  have "sort_key f xs = rev zs @ [z]" using z by (simp add: rev_eq_Cons_iff)
  moreover have "x \<in> set (sort_key f xs)" using x by simp
  ultimately show "f x \<le> f z" using sorted_sort_key [of f xs] by (auto simp: sorted_append)
qed

lemma next_attempt_greater: "x \<in> set db \<Longrightarrow> wx_attempt x < next_attempt (wx_task_id x) db"
  using sorted_last_ge [of x "filter (\<lambda>y. wx_task_id y = wx_task_id x) db" wx_attempt]
  by (auto simp: next_attempt_def Let_def split: list.split)
    (metis (mono_tags, lifting) filter_empty_conv rev_is_Nil_conv set_empty set_sort)

text \<open>Expiring the active row of a task leaves nothing active for the task or its Worker.\<close>

lemma expired_leaves_none:
  assumes inv: "exec_inv db" and x: "row wx_id (wx_id x) db = Some x" "wx_active x"
    and z: "z \<in> set (write_row wx_id (wx_expire now x) db)" "wx_active z"
  shows "z \<in> set db \<and> wx_task_id z \<noteq> wx_task_id x \<and> wx_worker_agent_id z \<noteq> wx_worker_agent_id x"
proof -
  have "z \<in> set db" "wx_id z \<noteq> wx_id x"
    using z expire_follows(3,4) by (auto simp: set_write split: if_splits)
  with exec_inv_unique [OF inv, of z x] x z(2) row_SomeD [OF x(1)] show ?thesis by auto
qed

subsection \<open>A sample\<close>

definition sample_request :: reserve_request where
  "sample_request = \<lparr>rq_organization_id = 1, rq_project_id = 2, rq_repository_id = 3, rq_task_id = 6,
     rq_worker_agent_id = 5, rq_lease_owner = ''a'', rq_lease_seconds = 60,
     rq_assignment_attempt_id = Some 10, rq_assignment_generation = Some 1\<rparr>"

definition sample_execution :: worker_execution where
  "sample_execution = new_execution sample_request 20 21 0 []"

lemma sample_owner [simp]: "\<not> blank ''a''"
  by (simp add: blank_def py_strip_def py_isspace_def)

lemmas sample_exec_defs = sample_request_def sample_execution_def reserve_def reserve_reads_def free_worker_def
  validate_lease_def active_task_def active_worker_def new_execution_def next_attempt_def wx_violates_def
  wx_domain_def rq_bound_def same_binding_def wx_expired_def wx_expire_def wx_active_def
  active_execution_states_def write_row_def map_where_def seconds_def Let_def

lemma sample_reserved: "reserve (\<lambda>db. db) sample_request 20 21 0 [] = (Inr (sample_execution, True), [sample_execution])"
  by (simp add: sample_exec_defs)

lemma sample_exec_run: "exec_run [] [sample_execution]"
  by (rule reserved [OF start _ sample_reserved]) (simp add: start)

text \<open>The same Worker an hour later.\<close>

definition sample_again :: "worker_execution list" where
  "sample_again = [wx_expire 3600000000 sample_execution,
     new_execution sample_request 30 31 3600000000 [wx_expire 3600000000 sample_execution]]"

lemma sample_reserved_again:
  "reserve (\<lambda>db. db) sample_request 30 31 3600000000 [sample_execution] =
     (Inr (new_execution sample_request 30 31 3600000000 [wx_expire 3600000000 sample_execution], True), sample_again)"
  by (simp add: sample_exec_defs sample_again_def)

subsection \<open>Properties\<close>

text \<open>C31: However reservations, renewals, failures, Runner results and recoveries interleave, and whatever
  is committed between the reads of \<open>reserve\<close> and its insert, a task has at most one active
  execution and a Worker at most one; an active execution always has a lease holder and an expiry,
  and an ended one has neither.\<close>

theorem one_active_execution:
  assumes "exec_run [] db" and "x \<in> set db" and "y \<in> set db" and "wx_active x"
  shows "(wx_active y \<and> (wx_task_id y = wx_task_id x \<or> wx_worker_agent_id y = wx_worker_agent_id x) \<longrightarrow> y = x) \<and>
    (wx_active y \<longleftrightarrow> wx_lease_owner y \<noteq> None) \<and> (wx_active y \<longleftrightarrow> wx_lease_expires_at y \<noteq> None) \<and>
    (wx_active y \<longleftrightarrow> wx_completed_at y = None)"
proof -
  have inv: "exec_inv db" using exec_run_inv [OF assms(1)] by simp
  have "wx_sound y" using inv assms(3) by (simp add: exec_inv_def)
  with exec_inv_unique [OF inv assms(3,2) _ assms(4)] show ?thesis by (auto simp: wx_sound_def)
qed

theorem one_active_execution_witness:
  "wx_lease_owner sample_execution \<noteq> None"
  using one_active_execution [OF sample_exec_run, of sample_execution sample_execution]
  by (simp add: sample_execution_def new_execution_sound)

text \<open>C32: A reservation that was made for a task or a Worker fences off every execution that held the
  task or the Worker before: in whatever order things happen afterwards, its holder can neither
  bind a payload to it, renew it nor fail it, under any name and version, and the attempt changes nothing.\<close>

theorem displaced_execution_fenced_off:
  assumes "exec_run [] db" and "x \<in> set db"
    and "wx_task_id x = rq_task_id q \<or> wx_worker_agent_id x = rq_worker_agent_id q"
    and "\<forall>s. exec_run s (env s)" and "reserve env q i run_id now db = (Inr (y, True), db1)"
    and "exec_run db1 db2" and "validate_lease owner secs = Inr ()"
  defines "refusal \<equiv> (Inl (reservation_conflict ''execution reservation ownership changed''), db2)"
  shows "wx_id y \<noteq> wx_id x \<and> bind_payload (wx_id x) payload owner v later db2 = refusal \<and>
    renew (wx_id x) owner v secs later db2 = refusal \<and> fail_preparation (wx_id x) error owner v later db2 = refusal"
proof -
  have inv: "exec_inv db" using exec_run_inv [OF assms(1)] by simp
  have run1: "exec_run db db1" by (rule exec_run.reserved [OF start assms(4,5)])
  have inv1: "exec_inv db1" "exec_follows db db1" using exec_run_inv [OF run1 inv] by blast+
  note y = reserve_created [OF inv assms(5,4)]
  obtain x1 where x1: "row wx_id (wx_id x) db1 = Some x1" "wx_follows x x1"
    using inv inv1(2) assms(2) by (force simp: exec_follows_def exec_inv_def dest: row_in)
  have "\<not> wx_active x1"
  proof
    assume "wx_active x1"
    then have "x1 = y"
      using exec_inv_unique [OF inv1(1), of x1 y] row_SomeD [OF x1(1)] x1(2) y assms(3)
      by (auto simp: wx_follows_def)
    with x1(2) y assms(2) show False by (auto simp: wx_follows_def)
  qed
  moreover have "exec_follows db1 db2" using exec_run_inv [OF assms(6) inv1(1)] by blast
  ultimately have "owned (wx_id x) owner v later db2 =
      Inl (reservation_conflict ''execution reservation ownership changed'')"
    using x1(1) by (intro exec_follows_refused) auto
  with y assms(2,7) show ?thesis
    by (auto simp: bind_payload_def renew_def fail_preparation_def write_owned_def refusal_def)
qed

theorem displaced_execution_fenced_off_witness:
  "bind_payload 20 [] ''a'' 1 3600000001 sample_again =
     (Inl (reservation_conflict ''execution reservation ownership changed''), sample_again)"
proof -
  have x: "sample_execution \<in> set [sample_execution]" "wx_id sample_execution = 20"
    "wx_task_id sample_execution = rq_task_id sample_request"
    by (simp_all add: sample_execution_def new_execution_def)
  have lease: "validate_lease ''a'' 60 = Inr ()" by (simp add: validate_lease_def)
  have env: "\<forall>s. exec_run s ((\<lambda>db. db) s)" by (simp add: start)
  show ?thesis
    using displaced_execution_fenced_off [OF sample_exec_run x(1) disjI1 [OF x(3)] env sample_reserved_again start lease]
    unfolding x(2) by blast
qed

text \<open>C33: A crashed preparation cannot hold a task: once its lease has run out, the next request of the
  same Worker for the same assignment attempt, undisturbed, succeeds; the old execution becomes
  expired and the new one continues the numbering of the task's attempts.\<close>

theorem expired_execution_restarts:
  assumes "exec_run [] db" and "active_task (rq_task_id q) db = Some x" and "rq_bound q x"
    and "rq_assignment_attempt_id q = None \<or> wx_assignment_attempt_id x = rq_assignment_attempt_id q"
    and "wx_expired now x" and "validate_lease (rq_lease_owner q) (rq_lease_seconds q) = Inr ()"
    and "i \<notin> wx_id ` set db" and "run_id \<notin> wx_run_id ` set db"
  shows "\<exists>y db1. reserve (\<lambda>db. db) q i run_id now db = (Inr (y, True), db1) \<and>
    active_task (rq_task_id q) db1 = Some y \<and> wx_id y = i \<and> wx_attempt x < wx_attempt y \<and>
    row wx_id (wx_id x) db1 = Some (wx_expire now x)"
proof -
  have inv: "exec_inv db" using exec_run_inv [OF assms(1)] by simp
  have x: "row wx_id (wx_id x) db = Some x" "wx_task_id x = rq_task_id q" "wx_active x"
    using active_task_row [OF inv assms(2)] by auto
  define db1 where "db1 = write_row wx_id (wx_expire now x) db"
  define y where "y = new_execution q i run_id now db1"
  have y: "wx_id y = i" "wx_run_id y = run_id" "wx_task_id y = rq_task_id q" "wx_active y" "wx_domain y = y"
    "wx_worker_agent_id y = rq_worker_agent_id q" "wx_attempt y = next_attempt (rq_task_id q) db1"
    using new_execution_sound(2) by (simp_all add: y_def new_execution_def wx_domain_def)
  have other: "z \<in> set db \<and> wx_task_id z \<noteq> rq_task_id q \<and> wx_worker_agent_id z \<noteq> rq_worker_agent_id q"
    if "z \<in> set db1" "wx_active z" for z
    using expired_leaves_none [OF inv x(1,3), of z now] that x(2) assms(3)
    by (simp add: db1_def rq_bound_def same_binding_def)
  have "active_worker (rq_worker_agent_id q) db1 = None" using other by (auto simp: active_worker_def find_None_iff)
  then have reads: "reserve_reads q now db = Inr (Inr db1)"
    using assms(2-5) by (auto simp: reserve_reads_def free_worker_def db1_def)
  have ids: "z \<in> set db1 \<Longrightarrow> wx_id z \<in> wx_id ` set db \<and> wx_run_id z \<in> wx_run_id ` set db" for z
    using x(1) row_SomeD [OF x(1)] unfolding db1_def
    by (auto simp: set_write wx_expire_def split: if_splits)
  have ok: "\<not> wx_violates y db1"
    using ids other y assms(7,8) unfolding wx_violates_def by metis
  have "reserve (\<lambda>db. db) q i run_id now db = (Inr (y, True), db1 @ [y])"
    using reads ok assms(6) y(5) by (simp add: reserve_def Let_def y_def)
  moreover have "filter (\<lambda>z. wx_task_id z = rq_task_id q \<and> wx_active z) (db1 @ [y]) = [y]"
    using other y by (auto simp: filter_empty_conv)
  then have "active_task (rq_task_id q) (db1 @ [y]) = Some y" by (simp add: active_task_def)
  moreover have "wx_expire now x \<in> set db1"
    using x(1) by (auto simp: db1_def set_write wx_expire_def split: if_splits)
  then have "wx_attempt x < wx_attempt y"
    using next_attempt_greater [of "wx_expire now x" db1] x(2) unfolding y(7) by (simp add: wx_expire_def)
  moreover have "row wx_id (wx_id x) (db1 @ [y]) = Some (wx_expire now x)"
    using x(1) by (auto simp: row_append db1_def row_write wx_expire_def)
  ultimately show ?thesis using y(1) by blast
qed

lemma sample_active: "active_task 6 [sample_execution] = Some sample_execution" "rq_bound sample_request sample_execution"
  "wx_assignment_attempt_id sample_execution = Some 10" "wx_id sample_execution = 20" "wx_run_id sample_execution = 21"
  "wx_lease_expires_at sample_execution = Some 60000000" "rq_task_id sample_request = 6"
  by (simp_all add: sample_exec_defs)

theorem expired_execution_restarts_witness:
  "\<exists>y db1. reserve (\<lambda>db. db) sample_request 30 31 60000000 [sample_execution] = (Inr (y, True), db1) \<and> wx_id y = 30"
proof -
  have "validate_lease (rq_lease_owner sample_request) (rq_lease_seconds sample_request) = Inr ()"
    "rq_assignment_attempt_id sample_request = Some 10"
    by (simp_all add: validate_lease_def sample_request_def)
  then show ?thesis
    using expired_execution_restarts [OF sample_exec_run, of sample_request sample_execution 60000000 30 31]
    by (auto simp: sample_active wx_expired_def)
qed

text \<open>The binding of a task's active execution is compared before its lease is looked at: a request
  of another Worker is refused, however long ago the lease ran out, and nothing changes. So a task
  that recovery has given to a replacement cannot be executed by it while the lost Worker's
  execution is still recorded as active.\<close>

theorem expired_execution_blocks_replacement:
  assumes "active_task (rq_task_id q) db = Some x" and "rq_worker_agent_id q \<noteq> wx_worker_agent_id x"
    and "validate_lease (rq_lease_owner q) (rq_lease_seconds q) = Inr ()"
  shows "reserve env q i run_id now db =
    (Inl (reservation_conflict ''active execution reservation has a different task binding''), db)"
proof -
  have "\<not> rq_bound q x" using assms(2) by (auto simp: rq_bound_def same_binding_def)
  with assms(1,3) show ?thesis by (simp add: reserve_def reserve_reads_def other_binding_def)
qed

theorem expired_execution_blocks_replacement_witness:
  "wx_expired 3600000000 sample_execution \<and>
     reserve (\<lambda>db. db) (sample_request\<lparr>rq_worker_agent_id := 7\<rparr>) 30 31 3600000000 [sample_execution] =
       (Inl (reservation_conflict ''active execution reservation has a different task binding''), [sample_execution])"
proof -
  let ?q = "sample_request\<lparr>rq_worker_agent_id := 7\<rparr>"
  have "active_task (rq_task_id ?q) [sample_execution] = Some sample_execution"
    "rq_worker_agent_id ?q \<noteq> wx_worker_agent_id sample_execution"
    "validate_lease (rq_lease_owner ?q) (rq_lease_seconds ?q) = Inr ()"
    by (simp_all add: sample_active validate_lease_def) (simp_all add: sample_request_def sample_execution_def new_execution_def)
  from expired_execution_blocks_replacement [OF this] show ?thesis
    by (simp add: wx_expired_def sample_active)
qed

end
