(* ===== verification/Worker_Recovery.thy ===== *)
theory Worker_Recovery
  imports Tables Identifiers "HOL-Library.Product_Lexorder"
begin

text \<open>
  Recovery of lost Worker executions (\<open>modules/agent_runtime/recovery.py\<close>): an operation per
  execution, leased to one reconciler at a time, and the choice of a replacement Worker. A
  transaction locks the row it writes; \<open>claim\<close> skips the rows others hold locked, the argument
  \<open>locked\<close>. What is committed between the read and the insert of \<open>ensure\<close> is its argument \<open>env\<close>.
\<close>

subsection \<open>Rows\<close>

datatype worker_recovery_state =
    WS_PENDING
  | WS_RUNNING
  | WS_COMPLETED
  | WS_ESCALATED
  | WS_FAILED

fun worker_recovery_state_value :: "worker_recovery_state \<Rightarrow> string" where
  "worker_recovery_state_value WS_PENDING = ''pending''"
| "worker_recovery_state_value WS_RUNNING = ''running''"
| "worker_recovery_state_value WS_COMPLETED = ''completed''"
| "worker_recovery_state_value WS_ESCALATED = ''escalated''"
| "worker_recovery_state_value WS_FAILED = ''failed''"

definition worker_recovery_state_members :: "worker_recovery_state list" where
  "worker_recovery_state_members =
     [WS_PENDING, WS_RUNNING, WS_COMPLETED, WS_ESCALATED, WS_FAILED]"

interpretation WS: str_enum worker_recovery_state_value worker_recovery_state_members
proof
  show "x \<in> set worker_recovery_state_members" for x
    by (cases x) (simp_all add: worker_recovery_state_members_def)
qed (simp add: worker_recovery_state_members_def)

datatype worker_recovery_decision =
    WD_NO_ACTION
  | WD_RESUME
  | WD_REASSIGN
  | WD_ESCALATE

fun worker_recovery_decision_value :: "worker_recovery_decision \<Rightarrow> string" where
  "worker_recovery_decision_value WD_NO_ACTION = ''no_action''"
| "worker_recovery_decision_value WD_RESUME = ''resume''"
| "worker_recovery_decision_value WD_REASSIGN = ''reassign''"
| "worker_recovery_decision_value WD_ESCALATE = ''escalate''"

definition worker_recovery_decision_members :: "worker_recovery_decision list" where
  "worker_recovery_decision_members =
     [WD_NO_ACTION, WD_RESUME, WD_REASSIGN, WD_ESCALATE]"

interpretation WD: str_enum worker_recovery_decision_value worker_recovery_decision_members
proof
  show "x \<in> set worker_recovery_decision_members" for x
    by (cases x) (simp_all add: worker_recovery_decision_members_def)
qed (simp add: worker_recovery_decision_members_def)

record recovery_operation =
  ro_id :: uuid
  ro_execution_id :: uuid
  ro_task_id :: uuid
  ro_assignment_attempt_id :: "uuid option"
  ro_assignment_generation :: "int option"
  ro_failed_worker_id :: uuid
  ro_state :: worker_recovery_state
  ro_reason :: string
  ro_native_session_id :: "string option"
  ro_attempts :: int
  ro_lease_owner :: "string option"
  ro_lease_expires_at :: "datetime option"
  ro_decision :: "worker_recovery_decision option"
  ro_error_code :: "string option"
  ro_created_at :: datetime
  ro_updated_at :: datetime
  ro_finished_at :: "datetime option"

type_synonym recoveries = "recovery_operation list"

text \<open>What an operation is asked for.\<close>

record recovery_request =
  rr_execution_id :: uuid
  rr_task_id :: uuid
  rr_assignment_attempt_id :: "uuid option"
  rr_assignment_generation :: "int option"
  rr_failed_worker_id :: uuid
  rr_reason :: string
  rr_native_session_id :: "string option"

definition of_execution :: "uuid \<Rightarrow> recoveries \<Rightarrow> recovery_operation option" where
  "of_execution execution_id db = find (\<lambda>r. ro_execution_id r = execution_id) db"

definition new_operation :: "recovery_request \<Rightarrow> uuid \<Rightarrow> datetime \<Rightarrow> recovery_operation" where
  "new_operation q i now =
     \<lparr>ro_id = i, ro_execution_id = rr_execution_id q, ro_task_id = rr_task_id q,
      ro_assignment_attempt_id = rr_assignment_attempt_id q,
      ro_assignment_generation = rr_assignment_generation q,
      ro_failed_worker_id = rr_failed_worker_id q, ro_state = WS_PENDING, ro_reason = rr_reason q,
      ro_native_session_id = rr_native_session_id q, ro_attempts = 0, ro_lease_owner = None,
      ro_lease_expires_at = None, ro_decision = None, ro_error_code = None, ro_created_at = now,
      ro_updated_at = now, ro_finished_at = None\<rparr>"

subsection \<open>The store\<close>

definition ensure ::
    "(recoveries \<Rightarrow> recoveries) \<Rightarrow> recovery_request \<Rightarrow> uuid \<Rightarrow> datetime \<Rightarrow> (recoveries, recovery_operation) proc" where
  "ensure env q i now db0 =
     (case of_execution (rr_execution_id q) db0 of
        Some r \<Rightarrow> (Inr r, db0)
      | None \<Rightarrow>
          let db = env db0; r = new_operation q i now
          in if \<exists>s \<in> set db. ro_id s = i \<or> ro_execution_id s = rr_execution_id q
             then (case of_execution (rr_execution_id q) db of
                     None \<Rightarrow> (Inl (ModuleError ''IntegrityError'' ''worker_recovery_operations''), db)
                   | Some s \<Rightarrow> (Inr s, db))
             else (Inr r, db @ [r]))"

definition claimable :: "datetime \<Rightarrow> recovery_operation \<Rightarrow> bool" where
  "claimable now r \<longleftrightarrow> ro_state r = WS_PENDING \<or>
     (ro_state r = WS_RUNNING \<and> (case ro_lease_expires_at r of None \<Rightarrow> False | Some t \<Rightarrow> t < now))"

definition claim ::
    "uuid set \<Rightarrow> string \<Rightarrow> int \<Rightarrow> datetime \<Rightarrow> (recoveries, recovery_operation option) proc" where
  "claim locked owner lease_seconds now db =
     (if blank owner \<or> length owner > 128 \<or> lease_seconds < 1
      then (Inl (ValueError ''invalid Worker recovery lease''), db)
      else case sort_key ro_created_at (filter (\<lambda>r. claimable now r \<and> ro_id r \<notin> locked) db) of
             [] \<Rightarrow> (Inr None, db)
           | r # _ \<Rightarrow>
               let claimed = r\<lparr>ro_state := WS_RUNNING, ro_attempts := ro_attempts r + 1,
                     ro_lease_owner := Some owner, ro_lease_expires_at := Some (now + seconds lease_seconds),
                     ro_updated_at := now\<rparr>
               in (Inr (Some claimed), write_row ro_id claimed db))"

definition lease_changed :: exc where
  "lease_changed = ModuleError ''RuntimeError'' ''worker recovery lease ownership changed''"

definition finish ::
    "uuid \<Rightarrow> string \<Rightarrow> worker_recovery_decision \<Rightarrow> string option \<Rightarrow> datetime \<Rightarrow> (recoveries, recovery_operation) proc" where
  "finish operation_id owner decision error_code now db =
     (case row ro_id operation_id db of
        None \<Rightarrow> (Inl lease_changed, db)
      | Some r \<Rightarrow>
          if ro_lease_owner r \<noteq> Some owner \<or>
            (case ro_lease_expires_at r of None \<Rightarrow> True | Some t \<Rightarrow> t \<le> now)
          then (Inl lease_changed, db)
          else
            let done = r\<lparr>ro_state := (if decision = WD_ESCALATE then WS_ESCALATED else WS_COMPLETED),
                  ro_decision := Some decision, ro_error_code := error_code, ro_lease_owner := None,
                  ro_lease_expires_at := None, ro_updated_at := now, ro_finished_at := Some now\<rparr>
            in (Inr done, write_row ro_id done db))"

definition recent_failures :: "uuid \<Rightarrow> int \<Rightarrow> datetime \<Rightarrow> recoveries \<Rightarrow> int" where
  "recent_failures worker_id window_hours now db =
     int (length (filter (\<lambda>r. ro_failed_worker_id r = worker_id \<and>
       now - seconds (window_hours * 3600) \<le> ro_created_at r) db))"

definition list_all_operations :: "recoveries \<Rightarrow> recovery_operation list" where
  "list_all_operations db = sort_key ro_created_at db"

definition retry ::
    "uuid \<Rightarrow> worker_recovery_decision \<Rightarrow> datetime \<Rightarrow> (recoveries, recovery_operation) proc" where
  "retry operation_id decision now db =
     (if decision \<notin> {WD_RESUME, WD_REASSIGN}
      then (Inl (ValueError ''Worker recovery retry must request resume or reassign''), db)
      else case row ro_id operation_id db of
             None \<Rightarrow> (Inl (KeyError ''Worker recovery operation does not exist''), db)
           | Some r \<Rightarrow>
               let again = r\<lparr>ro_state := WS_PENDING, ro_decision := Some decision, ro_lease_owner := None,
                     ro_lease_expires_at := None, ro_error_code := None, ro_updated_at := now,
                     ro_finished_at := None\<rparr>
               in (Inr again, write_row ro_id again db))"

subsection \<open>The replacement\<close>

record recovery_candidate =
  rc_worker_id :: uuid
  rc_active_executions :: int
  rc_recent_failures :: int

text \<open>The key tuples are ordered lexicographically, their strings too.\<close>

definition candidate_key :: "recovery_candidate \<Rightarrow> int \<times> int \<times> string" where
  "candidate_key c = (rc_active_executions c, rc_recent_failures c, uuid_str (rc_worker_id c))"

text \<open>\<open>min(..., key=...)\<close> keeps the first of equals.\<close>

fun min_candidate :: "recovery_candidate list \<Rightarrow> recovery_candidate option" where
  "min_candidate [] = None"
| "min_candidate (c # cs) = Some (foldl (\<lambda>best d.
     if candidate_key d < candidate_key best then d else best) c cs)"

definition select_replacement_worker :: "recovery_candidate list \<Rightarrow> uuid \<Rightarrow> recovery_candidate option" where
  "select_replacement_worker candidates failed_worker_id =
     min_candidate (filter (\<lambda>c. rc_worker_id c \<noteq> failed_worker_id) candidates)"

subsection \<open>The reconciler\<close>

record recovery_metrics =
  rm_detected :: int
  rm_resumed :: int
  rm_reassigned :: int
  rm_escalated :: int
  rm_no_action :: int

definition record_decision :: "worker_recovery_decision \<Rightarrow> recovery_metrics \<Rightarrow> recovery_metrics" where
  "record_decision decision m =
     (let m1 = m\<lparr>rm_detected := rm_detected m + 1\<rparr>
      in case decision of
           WD_RESUME \<Rightarrow> m1\<lparr>rm_resumed := rm_resumed m1 + 1\<rparr>
         | WD_REASSIGN \<Rightarrow> m1\<lparr>rm_reassigned := rm_reassigned m1 + 1\<rparr>
         | WD_ESCALATE \<Rightarrow> m1\<lparr>rm_escalated := rm_escalated m1 + 1\<rparr>
         | WD_NO_ACTION \<Rightarrow> m1\<lparr>rm_no_action := rm_no_action m1 + 1\<rparr>)"

subsection \<open>The choice is the least candidate\<close>

lemma candidate_key_inj: "candidate_key c = candidate_key d \<Longrightarrow> rc_worker_id c = rc_worker_id d"
  by (simp add: candidate_key_def)

lemma min_fold:
  defines "f \<equiv> \<lambda>best d. if candidate_key d < candidate_key best then d else best"
  shows "foldl f c cs \<in> insert c (set cs) \<and>
    (\<forall>d \<in> insert c (set cs). \<not> candidate_key d < candidate_key (foldl f c cs))"
proof (induction cs arbitrary: c)
  case (Cons d cs)
  from Cons [of "f c d"] show ?case
    unfolding foldl.simps f_def by (auto split: if_splits dest: less_trans)
qed simp

lemma min_candidate_Some_iff:
  assumes "distinct (map rc_worker_id cs)"
  shows "min_candidate cs = Some c \<longleftrightarrow>
    c \<in> set cs \<and> (\<forall>d \<in> set cs. d = c \<or> candidate_key c < candidate_key d)"
proof (cases cs)
  case (Cons a as)
  define m where "m = foldl (\<lambda>best d. if candidate_key d < candidate_key best then d else best) a as"
  have m: "m \<in> set cs" "\<forall>d \<in> set cs. \<not> candidate_key d < candidate_key m"
    using min_fold [of a as] by (simp_all add: m_def Cons)
  have least: "d = m \<or> candidate_key m < candidate_key d" if d: "d \<in> set cs" for d
  proof (cases "candidate_key m < candidate_key d")
    case False
    have "candidate_key m = candidate_key d" using False m(2) d by (simp add: not_less order_antisym)
    then have "rc_worker_id d = rc_worker_id m" by (rule candidate_key_inj [symmetric])
    then have "d = m" by (rule key_unique [OF assms d m(1)])
    then show ?thesis ..
  qed simp
  have "min_candidate cs = Some m" by (simp add: m_def Cons)
  then show ?thesis
  proof -
    have "c = m" if "c \<in> set cs" "\<forall>d \<in> set cs. d = c \<or> candidate_key c < candidate_key d"
      using that m by metis
    with \<open>min_candidate cs = Some m\<close> least m(1) show ?thesis by auto
  qed
qed simp

subsection \<open>Operations of the store\<close>

definition ro_sound :: "recovery_operation \<Rightarrow> bool" where
  "ro_sound r \<longleftrightarrow> (ro_state r = WS_RUNNING \<longleftrightarrow> ro_lease_owner r \<noteq> None) \<and>
     (ro_state r = WS_RUNNING \<longleftrightarrow> ro_lease_expires_at r \<noteq> None) \<and>
     (ro_state r \<in> {WS_COMPLETED, WS_ESCALATED} \<longleftrightarrow> ro_finished_at r \<noteq> None) \<and>
     (ro_state r \<in> {WS_COMPLETED, WS_ESCALATED} \<longrightarrow> ro_decision r \<noteq> None) \<and> ro_state r \<noteq> WS_FAILED"

definition rec_inv :: "recoveries \<Rightarrow> bool" where
  "rec_inv db \<longleftrightarrow> keyed ro_id db \<and> keyed ro_execution_id db \<and> (\<forall>r \<in> set db. ro_sound r)"

text \<open>Everything the store does, in any order; an operator retries only operations of \<open>R\<close>.\<close>

inductive recovery_run :: "uuid set \<Rightarrow> recoveries \<Rightarrow> recoveries \<Rightarrow> bool" for R where
  start: "recovery_run R s s"
| ensured: "recovery_run R s db \<Longrightarrow> recovery_run R db (env db) \<Longrightarrow> ensure env q i now db = (r, db') \<Longrightarrow>
     recovery_run R s db'"
| claimed: "recovery_run R s db \<Longrightarrow> claim locked owner secs now db = (r2, db') \<Longrightarrow> recovery_run R s db'"
| finished: "recovery_run R s db \<Longrightarrow> finish i owner d e now db = (r, db') \<Longrightarrow> recovery_run R s db'"
| retried: "recovery_run R s db \<Longrightarrow> i \<in> R \<Longrightarrow> retry i d now db = (r, db') \<Longrightarrow> recovery_run R s db'"

definition ended :: "uuid \<Rightarrow> recovery_operation \<Rightarrow> recoveries \<Rightarrow> bool" where
  "ended i r db \<longleftrightarrow> row ro_id i db = Some r \<and> ro_finished_at r \<noteq> None"

lemma rec_write:
  assumes inv: "rec_inv db" and x: "row ro_id (ro_id x) db = Some x"
    and y: "ro_id y = ro_id x" "ro_execution_id y = ro_execution_id x" "ro_sound y"
  shows "rec_inv (write_row ro_id y db)"
proof -
  have "ro_execution_id y = ro_execution_id z" if "z \<in> set db" and "ro_id z = ro_id y" for z
    using that inv x y(1,2) row_SomeD [OF x] key_unique [of ro_id db z x] by (simp add: rec_inv_def keyed_def)
  then have "map ro_execution_id (write_row ro_id y db) = map ro_execution_id db"
    unfolding write_row_def map_where_def by (induction db) auto
  with inv y(3) show ?thesis by (auto simp: rec_inv_def keyed_def set_write split: if_splits)
qed

lemma ended_write: "ended i r db \<Longrightarrow> ro_id y \<noteq> i \<Longrightarrow> ended i r (write_row ro_id y db)"
  by (simp add: ended_def row_write)

lemma ensure_step:
  assumes "ensure env q j now db = (r, db')"
  shows "db' = db \<or> db' = env db \<or> (\<forall>s \<in> set (env db). ro_id s \<noteq> j \<and> ro_execution_id s \<noteq> rr_execution_id q) \<and>
    db' = env db @ [new_operation q j now]"
  using assms by (auto simp: ensure_def Let_def split: option.splits if_splits)

lemma claim_step:
  assumes "claim locked owner secs now db = (Inr (Some c), db')"
  shows "\<exists>r. r \<in> set db \<and> claimable now r \<and> ro_id r \<notin> locked \<and> c = r\<lparr>ro_state := WS_RUNNING,
      ro_attempts := ro_attempts r + 1, ro_lease_owner := Some owner,
      ro_lease_expires_at := Some (now + seconds secs), ro_updated_at := now\<rparr> \<and> db' = write_row ro_id c db"
proof -
  obtain r rs where r: "sort_key ro_created_at (filter (\<lambda>r. claimable now r \<and> ro_id r \<notin> locked) db) = r # rs"
    and c: "c = r\<lparr>ro_state := WS_RUNNING, ro_attempts := ro_attempts r + 1, ro_lease_owner := Some owner,
      ro_lease_expires_at := Some (now + seconds secs), ro_updated_at := now\<rparr>" "db' = write_row ro_id c db"
    using assms by (auto simp: claim_def Let_def split: list.splits if_splits)
  have "r \<in> set (sort_key ro_created_at (filter (\<lambda>r. claimable now r \<and> ro_id r \<notin> locked) db))" unfolding r by simp
  with c show ?thesis by auto
qed

lemma claim_other: "claim locked owner secs now db = (r, db') \<Longrightarrow> (\<nexists>c. r = Inr (Some c)) \<Longrightarrow> db' = db"
  by (auto simp: claim_def Let_def split: list.splits if_splits)

lemma ended_not_claimable: "rec_inv db \<Longrightarrow> ended i r db \<Longrightarrow> \<not> claimable now r \<and> ro_lease_owner r = None"
  by (auto simp: ended_def rec_inv_def ro_sound_def claimable_def dest: row_SomeD)

lemma new_operation_sound: "ro_sound (new_operation q i now)"
  by (simp add: new_operation_def ro_sound_def)

lemma recovery_step_inv:
  assumes inv: "rec_inv db"
  shows "ensure env q i now db = (r, db') \<Longrightarrow> rec_inv (env db) \<Longrightarrow> rec_inv db'"
    and "claim locked owner secs now db = (r2, db') \<Longrightarrow> rec_inv db'"
    and "finish i owner d e now db = (r, db') \<Longrightarrow> rec_inv db'"
    and "retry i d now db = (r, db') \<Longrightarrow> rec_inv db'"
proof -
  show "rec_inv db'" if "ensure env q i now db = (r, db')" and env: "rec_inv (env db)"
  proof -
    have new: "rec_inv (env db @ [new_operation q i now])"
      if "\<forall>s \<in> set (env db). ro_id s \<noteq> i \<and> ro_execution_id s \<noteq> rr_execution_id q"
    proof -
      have "ro_id (new_operation q i now) \<notin> ro_id ` set (env db)"
        "ro_execution_id (new_operation q i now) \<notin> ro_execution_id ` set (env db)"
        using that by (force simp: new_operation_def)+
      with env show ?thesis by (simp add: rec_inv_def keyed_append new_operation_sound)
    qed
    from ensure_step [OF \<open>ensure env q i now db = (r, db')\<close>] new inv env show ?thesis by blast
  qed
  show "rec_inv db'" if run: "claim locked owner secs now db = (r2, db')"
  proof (cases "\<exists>c. r2 = Inr (Some c)")
    case True
    then obtain c x where c: "x \<in> set db" "c = x\<lparr>ro_state := WS_RUNNING, ro_attempts := ro_attempts x + 1,
        ro_lease_owner := Some owner, ro_lease_expires_at := Some (now + seconds secs), ro_updated_at := now\<rparr>"
      "db' = write_row ro_id c db" "claimable now x"
      using claim_step run by blast
    have "ro_sound x" using inv c(1) by (simp add: rec_inv_def)
    then show ?thesis unfolding c(3)
      by (intro rec_write [OF inv, of x]) (use inv c in \<open>auto simp: rec_inv_def row_in ro_sound_def claimable_def\<close>)
  next
    case False
    then show ?thesis using claim_other [OF run] inv by simp
  qed
  show "rec_inv db'" if run: "finish i owner d e now db = (r, db')"
  proof (cases "db' = db")
    case False
    with run obtain x where x: "row ro_id i db = Some x" by (auto simp: finish_def split: option.splits)
    with run False show ?thesis
      using rec_write [OF inv, of x] row_SomeD [OF x]
      by (auto simp: finish_def ro_sound_def Let_def split: if_splits)
  qed (use inv in simp)
  show "rec_inv db'" if run: "retry i d now db = (r, db')"
  proof (cases "db' = db")
    case False
    with run obtain x where x: "row ro_id i db = Some x" by (auto simp: retry_def split: option.splits if_splits)
    with run False show ?thesis
      using rec_write [OF inv, of x] row_SomeD [OF x]
      by (auto simp: retry_def ro_sound_def Let_def split: if_splits)
  qed (use inv in simp)
qed

lemma recovery_run_inv: "recovery_run R s db \<Longrightarrow> rec_inv s \<Longrightarrow> rec_inv db"
proof (induction rule: recovery_run.induct)
  case (ensured s db env q i now r db')
  then have "rec_inv db" "rec_inv (env db)" by blast+
  from recovery_step_inv(1) [OF this(1) ensured.hyps(3) this(2)] show ?case .
qed (blast intro: recovery_step_inv(2-4))+

lemma recovery_run_ended:
  "recovery_run R s db \<Longrightarrow> rec_inv s \<Longrightarrow> i \<notin> R \<Longrightarrow> ended i r s \<Longrightarrow> ended i r db"
proof (induction rule: recovery_run.induct)
  case (ensured s db env q j now rr db')
  have "ended i r (env db @ [x])" if "ended i r (env db)" for x using that by (simp add: ended_def row_append)
  with ensured recovery_run_inv [OF ensured.hyps(1)] ensure_step [OF ensured.hyps(3)] show ?case by blast
next
  case (claimed s db locked owner secs now r2 db')
  then have "ended i r db" "rec_inv db" by (auto intro: recovery_run_inv)
  show ?case
  proof (cases "\<exists>c. r2 = Inr (Some c)")
    case True
    then obtain c where "claim locked owner secs now db = (Inr (Some c), db')" using claimed.hyps(2) by blast
    from claim_step [OF this] obtain x where c: "x \<in> set db" "claimable now x" "ro_id c = ro_id x" "db' = write_row ro_id c db"
      by auto
    have "ro_id c \<noteq> i"
    proof
      assume "ro_id c = i"
      with c have "row ro_id i db = Some x" using \<open>rec_inv db\<close> by (auto simp: rec_inv_def intro: row_in)
      with \<open>ended i r db\<close> have "x = r" by (simp add: ended_def)
      with c(2) ended_not_claimable [OF \<open>rec_inv db\<close> \<open>ended i r db\<close>] show False by simp
    qed
    with ended_write [OF \<open>ended i r db\<close>] c(4) show ?thesis by simp
  qed (use claim_other [OF claimed.hyps(2)] \<open>ended i r db\<close> in simp)
next
  case (finished s db j owner d e now rr db')
  then have *: "ended i r db" "rec_inv db" by (auto intro: recovery_run_inv)
  show ?case
  proof (cases "j = i")
    case True
    with finished.hyps(2) * ended_not_claimable [OF *(2,1)] show ?thesis by (simp add: finish_def ended_def)
  next
    case False
    with finished.hyps(2) *(1) show ?thesis
      by (auto simp: finish_def Let_def split: option.splits if_splits dest: row_SomeD intro!: ended_write)
  qed
next
  case (retried s db j d now rr db')
  then have "ended i r db" "j \<noteq> i" by auto
  with retried.hyps(3) show ?case
    by (auto simp: retry_def Let_def split: option.splits if_splits dest: row_SomeD intro!: ended_write)
qed

lemma claim_skips_ended:
  assumes "rec_inv db" and "ended i r db" and "claim locked owner secs now db = (Inr (Some c), db')"
  shows "ro_id c \<noteq> i"
proof
  assume i: "ro_id c = i"
  obtain x where x: "x \<in> set db" "claimable now x" "ro_id c = ro_id x" using claim_step [OF assms(3)] by auto
  then have "row ro_id i db = Some x" using assms(1) i by (auto simp: rec_inv_def intro: row_in)
  with assms(2) x(2) ended_not_claimable [OF assms(1,2)] show False by (simp add: ended_def)
qed

lemma finish_ended:
  assumes "finish i owner d e now db = (Inr r, db')"
  shows "ended i r db' \<and> ro_decision r = Some d \<and> ro_state r = (if d = WD_ESCALATE then WS_ESCALATED else WS_COMPLETED)"
  using assms
  by (auto simp: finish_def ended_def Let_def row_write split: option.splits if_splits dest: row_SomeD)

lemma of_execution_row: "rec_inv db \<Longrightarrow> row ro_id i db = Some r \<Longrightarrow> of_execution (ro_execution_id r) db = Some r"
  using row_in [of ro_execution_id db r] by (auto simp: rec_inv_def row_def of_execution_def dest: row_SomeD find_SomeD)

subsection \<open>Properties\<close>

text \<open>The replacement for a lost Worker is the candidate, the lost Worker apart, with the fewest
  active executions, then the fewest recent failures, then the least identifier: the one such
  candidate, in whatever order the team lists them, and none exactly when there is none.\<close>

theorem replacement_is_least_loaded:
  assumes "distinct (map rc_worker_id cs)"
  shows "(select_replacement_worker cs failed = Some c \<longleftrightarrow>
      c \<in> set cs \<and> rc_worker_id c \<noteq> failed \<and>
      (\<forall>d \<in> set cs. rc_worker_id d \<noteq> failed \<longrightarrow> d = c \<or>
        (rc_active_executions c, rc_recent_failures c) < (rc_active_executions d, rc_recent_failures d) \<or>
        ((rc_active_executions c, rc_recent_failures c) = (rc_active_executions d, rc_recent_failures d) \<and>
          rc_worker_id c < rc_worker_id d))) \<and>
    (select_replacement_worker cs failed = None \<longleftrightarrow> (\<forall>d \<in> set cs. rc_worker_id d = failed))"
proof -
  have dist: "distinct (map rc_worker_id (filter (\<lambda>c. rc_worker_id c \<noteq> failed) cs))"
    using assms by (rule distinct_map_filter)
  have less: "candidate_key c < candidate_key d \<longleftrightarrow>
      (rc_active_executions c, rc_recent_failures c) < (rc_active_executions d, rc_recent_failures d) \<or>
      ((rc_active_executions c, rc_recent_failures c) = (rc_active_executions d, rc_recent_failures d) \<and>
        rc_worker_id c < rc_worker_id d)" for d
    by (auto simp: candidate_key_def uuid_str_less)
  have none: "min_candidate xs = None \<longleftrightarrow> xs = []" for xs by (cases xs) simp_all
  show ?thesis
    unfolding select_replacement_worker_def min_candidate_Some_iff [OF dist] less none
    by (auto simp: filter_empty_conv)
qed

theorem replacement_is_least_loaded_witness:
  "select_replacement_worker [\<lparr>rc_worker_id = 9, rc_active_executions = 0, rc_recent_failures = 0\<rparr>,
      \<lparr>rc_worker_id = 8, rc_active_executions = 0, rc_recent_failures = 1\<rparr>,
      \<lparr>rc_worker_id = 7, rc_active_executions = 0, rc_recent_failures = 1\<rparr>] 9 =
    Some \<lparr>rc_worker_id = 7, rc_active_executions = 0, rc_recent_failures = 1\<rparr>"
  by (subst replacement_is_least_loaded [THEN conjunct1]) simp_all

text \<open>A recovery that was finished by the holder of its lease stays as it was decided until an
  operator asks for a retry: rediscovering the lost execution returns it unchanged, no reconciler
  claims it again, and nobody else can finish it, in whatever order the store's transactions run.\<close>

theorem recovery_final_until_retried:
  assumes "recovery_run R [] db" and "finish i owner d e now db = (Inr r, db1)"
    and "recovery_run R' db1 db2" and "i \<notin> R'"
  shows "row ro_id i db2 = Some r \<and> ro_decision r = Some d \<and>
    ro_state r = (if d = WD_ESCALATE then WS_ESCALATED else WS_COMPLETED) \<and>
    (\<forall>env q j later. rr_execution_id q = ro_execution_id r \<longrightarrow> ensure env q j later db2 = (Inr r, db2)) \<and>
    (\<forall>locked w s later c db3. claim locked w s later db2 = (Inr (Some c), db3) \<longrightarrow> ro_id c \<noteq> i) \<and>
    (\<forall>w d e later. finish i w d e later db2 = (Inl lease_changed, db2))"
proof -
  have inv: "rec_inv db" using recovery_run_inv [OF assms(1)] by (simp add: rec_inv_def)
  have inv1: "rec_inv db1" by (rule recovery_step_inv(3) [OF inv assms(2)])
  have inv2: "rec_inv db2" by (rule recovery_run_inv [OF assms(3) inv1])
  note r = finish_ended [OF assms(2)]
  have e2: "ended i r db2" using recovery_run_ended [OF assms(3) inv1 assms(4)] r by blast
  have "finish i w d e later db2 = (Inl lease_changed, db2)" for w d e later
    using e2 ended_not_claimable [OF inv2 e2] by (simp add: finish_def ended_def)
  moreover have "ensure env q j later db2 = (Inr r, db2)" if "rr_execution_id q = ro_execution_id r" for env q j later
    using of_execution_row [OF inv2 conjunct1 [OF e2 [unfolded ended_def]]] that by (simp add: ensure_def)
  ultimately show ?thesis using e2 r claim_skips_ended [OF inv2 e2] by (auto simp: ended_def)
qed

definition sample_lost :: recovery_request where
  "sample_lost = \<lparr>rr_execution_id = 20, rr_task_id = 6, rr_assignment_attempt_id = Some 10,
     rr_assignment_generation = Some 1, rr_failed_worker_id = 5, rr_reason = ''lease_expired'',
     rr_native_session_id = None\<rparr>"

definition sample_claimed :: recovery_operation where
  "sample_claimed = (new_operation sample_lost 40 0)\<lparr>ro_state := WS_RUNNING, ro_attempts := 1,
     ro_lease_owner := Some ''a'', ro_lease_expires_at := Some 60000000, ro_updated_at := 0\<rparr>"

lemma sample_recovery_run: "recovery_run R [] [sample_claimed]"
proof (rule claimed)
  show "claim {} ''a'' 60 0 [new_operation sample_lost 40 0] = (Inr (Some sample_claimed), [sample_claimed])"
    by (simp add: claim_def claimable_def new_operation_def sample_claimed_def sample_lost_def seconds_def
        write_row_def map_where_def Let_def blank_def py_strip_def py_isspace_def)
  show "recovery_run R [] [new_operation sample_lost 40 0]"
  proof (rule ensured)
    show "ensure (\<lambda>db. db) sample_lost 40 0 [] = (Inr (new_operation sample_lost 40 0), [new_operation sample_lost 40 0])"
      by (simp add: ensure_def of_execution_def Let_def)
  qed (simp_all add: start)
qed

theorem recovery_final_until_retried_witness:
  "let (r, db) = finish 40 ''a'' WD_NO_ACTION None 1 [sample_claimed]
   in finish 40 ''a'' WD_RESUME None 2 db = (Inl lease_changed, db)"
proof -
  have "ro_id sample_claimed = 40" "ro_lease_owner sample_claimed = Some ''a''"
    "ro_lease_expires_at sample_claimed = Some 60000000"
    by (simp_all add: sample_claimed_def new_operation_def)
  then obtain r db where run: "finish 40 ''a'' WD_NO_ACTION None 1 [sample_claimed] = (Inr r, db)"
    by (simp add: finish_def row_def Let_def)
  have "finish 40 ''a'' WD_RESUME None 2 db = (Inl lease_changed, db)"
    using recovery_final_until_retried [OF sample_recovery_run run start, of "{}"] by blast
  then show ?thesis by (simp add: run)
qed

end
