(* ===== verification/Runner_Store.thy ===== *)
theory Runner_Store
  imports Worker_Execution Worker_Recovery Py_Parse
begin

text \<open>
  The queue of runs and the events the Runner reports (\<open>modules/agent_runtime/runner_store.py\<close>),
  over the dispatch, event, reservation and recovery tables. Every method but \<open>enqueue\<close> is one
  transaction; what is committed between the lookup and the insert of \<open>enqueue\<close> is its argument
  \<open>env\<close>, and \<open>lease_next\<close> skips the rows others hold locked. An event's instant has the form
  \<open>isoformat\<close> writes, which is what the Runner sends.
\<close>

subsection \<open>\<open>dict(value)\<close>\<close>

definition not_a_pair :: "'a result" where
  "not_a_pair = Inl (ValueError ''dictionary update sequence element has the wrong length; 2 is required'')"

fun pair_of :: "json \<Rightarrow> (json \<times> json) result" where
  "pair_of (JList xs) =
     (case xs of
        [k, v] \<Rightarrow> (case k of JList _ \<Rightarrow> type_error ''unhashable type'' | JObject _ \<Rightarrow> type_error ''unhashable type''
                     | _ \<Rightarrow> Inr (k, v))
      | _ \<Rightarrow> not_a_pair)"
| "pair_of (JStr s) = (case s of [c, d] \<Rightarrow> Inr (JStr [c], JStr [d]) | _ \<Rightarrow> not_a_pair)"
| "pair_of (JObject kvs) = (case map fst kvs of [k, v] \<Rightarrow> Inr (JStr k, JStr v) | _ \<Rightarrow> not_a_pair)"
| "pair_of j = type_error ''cannot convert dictionary update sequence element to a sequence''"

text \<open>Its entries under text keys, the only ones that are looked up.\<close>

definition text_entries :: "(json \<times> json) list \<Rightarrow> (string \<times> json) list" where
  "text_entries ps = concat (map (\<lambda>(k, v). case k of JStr s \<Rightarrow> [(s, v)] | _ \<Rightarrow> []) ps)"

fun py_dict :: "json \<Rightarrow> (string \<times> json) list result" where
  "py_dict (JObject kvs) = Inr kvs"
| "py_dict (JList xs) = rbind (map_result pair_of xs) (\<lambda>ps. Inr (dict_update (text_entries ps) []))"
| "py_dict (JStr s) = (if s = [] then Inr [] else not_a_pair)"
| "py_dict j = type_error (py_repr (type_name j) @ '' object is not iterable'')"

subsection \<open>Tables\<close>

record runner_dispatch =
  dp_run_id :: uuid
  dp_organization_id :: uuid
  dp_project_id :: uuid
  dp_repository_id :: uuid
  dp_task_id :: uuid
  dp_worker_agent_id :: uuid
  dp_status :: string
  dp_task_payload :: "(string \<times> json) list"
  dp_idempotency_key :: string
  dp_attempt :: int
  dp_lease_until :: "datetime option"
  dp_created_at :: datetime
  dp_completed_at :: "datetime option"
  dp_assignment_attempt_id :: "uuid option"
  dp_assignment_generation :: "int option"
  dp_execution_id :: "uuid option"
  dp_execution_version :: "int option"

record runner_event =
  ev_event_id :: uuid
  ev_run_id :: uuid
  ev_sequence :: int
  ev_event_type :: string
  ev_payload :: "(string \<times> json) list"
  ev_occurred_at :: datetime
  ev_recorded_at :: datetime
  ev_projection_status :: string
  ev_rejection_reason :: "string option"

record runtime_db =
  rt_dispatches :: "runner_dispatch list"
  rt_events :: "runner_event list"
  rt_executions :: executions
  rt_recoveries :: recoveries

definition terminal_dispatch_statuses :: "string set" where
  "terminal_dispatch_statuses = {''completed'', ''failed'', ''interrupted'', ''input_required''}"

definition active_dispatch_statuses :: "string set" where
  "active_dispatch_statuses = {''queued'', ''leased'', ''accepted''}"

definition terminal_event_types :: "string set" where
  "terminal_event_types = (\<lambda>s. ''runner.'' @ s) ` terminal_dispatch_statuses"

definition remove_prefix :: "string \<Rightarrow> string" where
  "remove_prefix s = (if take 7 s = ''runner.'' then drop 7 s else s)"

definition gateway_conflict :: "string \<Rightarrow> exc" where
  "gateway_conflict m = ModuleError ''RunnerGatewayConflict'' m"

text \<open>\<open>except (KeyError, TypeError, ValueError)\<close>\<close>

fun malformed :: "exc \<Rightarrow> bool" where
  "malformed (ValueError _) = True"
| "malformed (KeyError _) = True"
| "malformed (ModuleError name _) = (name \<in> {''TypeError'', ''RunnerGatewayConflict''})"
| "malformed _ = False"

definition get_dispatch :: "uuid \<Rightarrow> runtime_db \<Rightarrow> runner_dispatch option" where
  "get_dispatch run_id db = row dp_run_id run_id (rt_dispatches db)"

subsection \<open>The queue\<close>

definition by_idempotency_key :: "string \<Rightarrow> runtime_db \<Rightarrow> runner_dispatch option" where
  "by_idempotency_key k db =
     (if k = [] then None else find (\<lambda>d. dp_idempotency_key d = k) (rt_dispatches db))"

definition item_opt_int :: "json \<Rightarrow> string \<Rightarrow> int option result" where
  "item_opt_int j k =
     rbind (json_item_or j k JNull) (\<lambda>v.
       if v = JNull then Inr None else rbind (item_int j k) (\<lambda>n. Inr (Some n)))"

definition dispatch_of_payload ::
    "(string \<times> json) list \<Rightarrow> string \<Rightarrow> datetime \<Rightarrow> runner_dispatch result" where
  "dispatch_of_payload payload key now =
     (let p = JObject payload in
      rbind (item_uuid p ''runId'') (\<lambda>run_id.
      rbind (item_uuid p ''organizationId'') (\<lambda>organization_id.
      rbind (item_uuid p ''projectId'') (\<lambda>project_id.
      rbind (rbind (json_item p ''repository'') (\<lambda>r. rbind (py_dict r) (\<lambda>d.
        item_uuid (JObject d) ''repositoryId''))) (\<lambda>repository_id.
      rbind (item_uuid p ''taskId'') (\<lambda>task_id.
      rbind (item_uuid p ''workerAgentId'') (\<lambda>worker_agent_id.
      rbind (item_int p ''attempt'') (\<lambda>attempt.
      rbind (item_opt py_uuid p ''assignmentAttemptId'') (\<lambda>assignment_attempt_id.
      rbind (item_opt_int p ''assignmentGeneration'') (\<lambda>assignment_generation.
      rbind (item_opt py_uuid p ''executionId'') (\<lambda>execution_id.
      rbind (item_opt_int p ''executionVersion'') (\<lambda>execution_version.
      Inr \<lparr>dp_run_id = run_id, dp_organization_id = organization_id, dp_project_id = project_id,
           dp_repository_id = repository_id, dp_task_id = task_id,
           dp_worker_agent_id = worker_agent_id, dp_status = ''queued'',
           dp_task_payload = payload, dp_idempotency_key = key, dp_attempt = attempt,
           dp_lease_until = None, dp_created_at = now, dp_completed_at = None,
           dp_assignment_attempt_id = assignment_attempt_id,
           dp_assignment_generation = assignment_generation, dp_execution_id = execution_id,
           dp_execution_version = execution_version\<rparr>))))))))))))"

definition enqueue ::
    "(runtime_db \<Rightarrow> runtime_db) \<Rightarrow> (string \<times> json) list \<Rightarrow> datetime \<Rightarrow> (runtime_db, unit) proc" where
  "enqueue env payload now db0 =
     (let key = py_strip (py_str (case map_of payload ''idempotencyKey'' of None \<Rightarrow> JStr [] | Some v \<Rightarrow> v))
      in if key = [] then (Inl (gateway_conflict ''runner idempotency key is required''), db0)
         else case by_idempotency_key key db0 of
           Some d \<Rightarrow>
             if json_eq (JObject (dp_task_payload d)) (JObject payload) then (Inr (), db0)
             else (Inl (gateway_conflict ''runner idempotency key was used for a different task''), db0)
         | None \<Rightarrow>
             let db = env db0
             in case dispatch_of_payload payload key now of
                  Inl e \<Rightarrow>
                    (Inl (if malformed e then gateway_conflict ''invalid or duplicate runner task'' else e), db)
                | Inr d \<Rightarrow>
                    if \<exists>x \<in> set (rt_dispatches db). dp_run_id x = dp_run_id d \<or> dp_idempotency_key x = key
                    then (case by_idempotency_key key db of
                            Some x \<Rightarrow>
                              if json_eq (JObject (dp_task_payload x)) (JObject payload) then (Inr (), db)
                              else (Inl (gateway_conflict ''invalid or duplicate runner task''), db)
                          | None \<Rightarrow> (Inl (gateway_conflict ''invalid or duplicate runner task''), db))
                    else (Inr (), db\<lparr>rt_dispatches := rt_dispatches db @ [d]\<rparr>))"

definition leasable :: "datetime \<Rightarrow> runner_dispatch \<Rightarrow> bool" where
  "leasable now d \<longleftrightarrow> dp_status d \<in> {''queued'', ''leased''} \<and>
     (case dp_lease_until d of None \<Rightarrow> True | Some t \<Rightarrow> t < now)"

definition lease_next ::
    "uuid set \<Rightarrow> uuid option \<Rightarrow> int \<Rightarrow> datetime \<Rightarrow> (runtime_db, (string \<times> json) list option) proc" where
  "lease_next locked worker_agent_id lease_seconds now db =
     (case sort_key dp_created_at (filter (\<lambda>d. leasable now d \<and> dp_run_id d \<notin> locked \<and>
         (worker_agent_id = None \<or> worker_agent_id = Some (dp_worker_agent_id d))) (rt_dispatches db)) of
        [] \<Rightarrow> (Inr None, db)
      | d # _ \<Rightarrow>
          (Inr (Some (dp_task_payload d)),
           db\<lparr>rt_dispatches := write_row dp_run_id
             (d\<lparr>dp_status := ''leased'', dp_lease_until := Some (now + seconds lease_seconds)\<rparr>) (rt_dispatches db)\<rparr>))"

record active_worker_dispatch =
  awd_run_id :: uuid
  awd_task_id :: uuid
  awd_worker_agent_id :: uuid
  awd_attempt :: int
  awd_status :: string
  awd_task_payload :: "(string \<times> json) list"

text \<open>The newest dispatch the execution plane still owns.\<close>

definition get_active_dispatch_for_task :: "uuid \<Rightarrow> uuid \<Rightarrow> runtime_db \<Rightarrow> active_worker_dispatch option" where
  "get_active_dispatch_for_task task_id worker_agent_id db =
     (case rev (sort_key dp_created_at (filter (\<lambda>d. dp_task_id d = task_id \<and>
         dp_worker_agent_id d = worker_agent_id \<and> dp_status d \<in> active_dispatch_statuses) (rt_dispatches db))) of
        [] \<Rightarrow> None
      | d # _ \<Rightarrow> Some \<lparr>awd_run_id = dp_run_id d, awd_task_id = dp_task_id d,
          awd_worker_agent_id = dp_worker_agent_id d, awd_attempt = dp_attempt d,
          awd_status = dp_status d, awd_task_payload = dp_task_payload d\<rparr>)"

text \<open>The events of a project's runs with their dispatches, oldest first.\<close>

record project_event =
  pe_event_id :: uuid
  pe_run_id :: uuid
  pe_sequence :: int
  pe_event_type :: string
  pe_occurred_at :: datetime
  pe_task_id :: uuid
  pe_repository_id :: uuid

definition list_events_for_project :: "uuid \<Rightarrow> runtime_db \<Rightarrow> project_event list" where
  "list_events_for_project project_id db =
     map (\<lambda>(e, d). \<lparr>pe_event_id = ev_event_id e, pe_run_id = ev_run_id e, pe_sequence = ev_sequence e,
            pe_event_type = ev_event_type e, pe_occurred_at = ev_occurred_at e, pe_task_id = dp_task_id d,
            pe_repository_id = dp_repository_id d\<rparr>)
       (sort_key (\<lambda>(e, d). ev_occurred_at e) (sort_key (\<lambda>(e, d). ev_sequence e)
          (concat (map (\<lambda>e. map (Pair e) (filter (\<lambda>d. dp_run_id d = ev_run_id e \<and> dp_project_id d = project_id)
             (rt_dispatches db))) (rt_events db)))))"

subsection \<open>Events\<close>

definition none_or :: "('a \<Rightarrow> string) \<Rightarrow> 'a option \<Rightarrow> string" where
  "none_or f x = (case x of None \<Rightarrow> ''None'' | Some y \<Rightarrow> f y)"

text \<open>The fields an event has to repeat from its dispatch, with the texts they are compared by.\<close>

definition expected_binding :: "runner_dispatch \<Rightarrow> (string \<times> string) list" where
  "expected_binding d =
     [(''organizationId'', uuid_str (dp_organization_id d)), (''projectId'', uuid_str (dp_project_id d)),
      (''taskId'', uuid_str (dp_task_id d)), (''runId'', uuid_str (dp_run_id d)),
      (''attempt'', dec_int (dp_attempt d))] @
     (case dp_assignment_attempt_id d of
        None \<Rightarrow> []
      | Some a \<Rightarrow> [(''assignmentAttemptId'', uuid_str a),
                   (''assignmentGeneration'', none_or dec_int (dp_assignment_generation d))]) @
     (case dp_execution_id d of
        None \<Rightarrow> []
      | Some x \<Rightarrow> [(''executionId'', uuid_str x), (''executionVersion'', none_or dec_int (dp_execution_version d))])"

definition event_get :: "(string \<times> json) list \<Rightarrow> string \<Rightarrow> json" where
  "event_get event k = (case map_of event k of None \<Rightarrow> JNull | Some v \<Rightarrow> v)"

definition verify_binding :: "runner_dispatch \<Rightarrow> (string \<times> json) list \<Rightarrow> unit result" where
  "verify_binding d event =
     (case find (\<lambda>(k, v). py_str (event_get event k) \<noteq> v) (expected_binding d) of
        None \<Rightarrow> Inr ()
      | Some (k, v) \<Rightarrow> Inl (gateway_conflict (''runner event '' @ k @ '' binding mismatch'')))"

definition event_of ::
    "(string \<times> json) list \<Rightarrow> uuid \<Rightarrow> uuid \<Rightarrow> bool \<Rightarrow> datetime \<Rightarrow> runner_event result" where
  "event_of event event_id run_id projection_allowed now =
     (let e = JObject event in
      rbind (item_int e ''sequence'') (\<lambda>sequence.
      rbind (item_str e ''eventType'') (\<lambda>event_type.
      rbind (item_time e ''occurredAt'') (\<lambda>occurred_at.
      Inr \<lparr>ev_event_id = event_id, ev_run_id = run_id, ev_sequence = sequence,
           ev_event_type = event_type, ev_payload = event, ev_occurred_at = occurred_at,
           ev_recorded_at = now,
           ev_projection_status = (if projection_allowed then ''accepted'' else ''rejected''),
           ev_rejection_reason =
             (if projection_allowed then None else Some ''stale_assignment_generation'')\<rparr>))))"

definition terminal_execution_status :: "string \<Rightarrow> worker_execution_status" where
  "terminal_execution_status status = (if status = ''completed'' then WX_SUCCEEDED else WX_FAILED)"

text \<open>What the event does to its dispatch and its reservation.\<close>

definition apply_event :: "string \<Rightarrow> uuid \<Rightarrow> bool \<Rightarrow> datetime \<Rightarrow> runner_dispatch \<Rightarrow> runtime_db \<Rightarrow> runtime_db" where
  "apply_event event_type run_id projection_allowed now d db =
     (if event_type = ''runner.accepted'' \<and> projection_allowed
      then db\<lparr>rt_dispatches := write_row dp_run_id
             (d\<lparr>dp_status := ''accepted'', dp_lease_until := None\<rparr>) (rt_dispatches db)\<rparr>
      else if event_type \<in> terminal_event_types
      then db\<lparr>rt_dispatches := write_row dp_run_id
               (d\<lparr>dp_status := remove_prefix event_type, dp_lease_until := None, dp_completed_at := Some now\<rparr>)
               (rt_dispatches db),
             rt_executions :=
               (if projection_allowed
                then settle_run run_id (terminal_execution_status (remove_prefix event_type)) now (rt_executions db)
                else rt_executions db)\<rparr>
      else db)"

text \<open>
  \<open>record_event\<close>: whether the event is new. The identifiers are parsed before the transaction,
  so their errors reach the caller as they are.
\<close>

definition record_event ::
    "(string \<times> json) list \<Rightarrow> uuid option \<Rightarrow> bool \<Rightarrow> datetime \<Rightarrow> (runtime_db, bool) proc" where
  "record_event event expected_worker_agent_id projection_allowed now db =
     (case item_uuid (JObject event) ''eventId'' of
        Inl e \<Rightarrow> (Inl e, db)
      | Inr event_id \<Rightarrow>
     (case item_uuid (JObject event) ''runId'' of
        Inl e \<Rightarrow> (Inl e, db)
      | Inr run_id \<Rightarrow>
     (case get_dispatch run_id db of
        None \<Rightarrow> (Inl (gateway_conflict ''runner event references an unknown run''), db)
      | Some d \<Rightarrow>
          if expected_worker_agent_id \<noteq> None \<and> expected_worker_agent_id \<noteq> Some (dp_worker_agent_id d)
          then (Inl (ModuleError ''RunnerGatewayForbidden'' ''runner event belongs to another worker''), db)
          else
     (case verify_binding d event of
        Inl e \<Rightarrow> (Inl e, db)
      | Inr _ \<Rightarrow>
     (case event_of event event_id run_id projection_allowed now of
        Inl e \<Rightarrow> (Inl (if malformed e then gateway_conflict ''invalid runner event'' else e), db)
      | Inr ev \<Rightarrow>
          if \<exists>x \<in> set (rt_events db). ev_event_id x = event_id \<or>
               (ev_run_id x = run_id \<and> ev_sequence x = ev_sequence ev)
          then (Inr False, db)
          else (Inr True, apply_event (ev_event_type ev) run_id projection_allowed now d
                            (db\<lparr>rt_events := rt_events db @ [ev]\<rparr>)))))))"

text \<open>The verdict on the run's last event, by sequence.\<close>

definition run_projection_allowed :: "uuid \<Rightarrow> runtime_db \<Rightarrow> bool" where
  "run_projection_allowed run_id db =
     (case rev (sort_key ev_sequence (filter (\<lambda>e. ev_run_id e = run_id) (rt_events db))) of
        [] \<Rightarrow> True
      | e # _ \<Rightarrow> ev_projection_status e = ''accepted'')"

definition ensure_recovery_for_run ::
    "uuid \<Rightarrow> (string \<times> json) list \<Rightarrow> uuid \<Rightarrow> datetime \<Rightarrow> (runtime_db, unit) proc" where
  "ensure_recovery_for_run run_id event i now db =
     (case find (\<lambda>x. wx_run_id x = run_id) (rt_executions db) of
        None \<Rightarrow> (Inr (), db)
      | Some x \<Rightarrow>
     (case of_execution (wx_id x) (rt_recoveries db) of
        Some r \<Rightarrow> (Inr (), db)
      | None \<Rightarrow>
     (case item_str (JObject event) ''eventType'' of
        Inl e \<Rightarrow> (Inl e, db)
      | Inr event_type \<Rightarrow>
          (Inr (), db\<lparr>rt_recoveries := rt_recoveries db @
             [new_operation \<lparr>rr_execution_id = wx_id x, rr_task_id = wx_task_id x,
                rr_assignment_attempt_id = wx_assignment_attempt_id x,
                rr_assignment_generation = wx_assignment_generation x,
                rr_failed_worker_id = wx_worker_agent_id x, rr_reason = remove_prefix event_type,
                rr_native_session_id =
                  (if py_truthy (event_get event ''nativeSessionId'')
                   then Some (py_str (event_get event ''nativeSessionId'')) else None)\<rparr> i now]\<rparr>))))"

end
