(* ===== verification/Runner_Gateway.thy ===== *)
theory Runner_Gateway
  imports Task_Assignment Runner_Store Proc_Invariants
begin

text \<open>
  What the Runner's events do to the business tasks (\<open>RunnerControlGateway\<close> of
  \<open>integrations/runner/gateway.py\<close>): an event is recorded, and the result it carries is written
  back to the task, the assignment and the recovery queue. Between two store calls the other
  coroutines of the program run: \<open>env\<close> is what they did. The follow-up scheduling of the plan is
  the argument \<open>on_terminal\<close>, as in the class.
\<close>

subsection \<open>\<open>json.dumps(..., ensure_ascii=False, sort_keys=True)\<close>\<close>

definition plain_char :: "char \<Rightarrow> string" where
  "plain_char c =
     (let n = (of_char c :: nat)
      in if c = CHR 0x22 then [CHR 0x5C, CHR 0x22]
         else if c = CHR 0x5C then [CHR 0x5C, CHR 0x5C]
         else if n = 10 then [CHR 0x5C] @ ''n''
         else if n = 13 then [CHR 0x5C] @ ''r''
         else if n = 9 then [CHR 0x5C] @ ''t''
         else if n = 12 then [CHR 0x5C] @ ''f''
         else if n = 8 then [CHR 0x5C] @ ''b''
         else if n < 32 then [CHR 0x5C] @ ''u'' @ hexn 4 n
         else [c])"

definition plain_string :: "string \<Rightarrow> string" where
  "plain_string s = CHR 0x22 # concat (map plain_char s) @ [CHR 0x22]"

fun json_dumps :: "json \<Rightarrow> string" where
  "json_dumps JNull = ''null''"
| "json_dumps (JBool b) = (if b then ''true'' else ''false'')"
| "json_dumps (JInt n) = dec_int n"
| "json_dumps (JFloat m e) = py_repr_float m e"
| "json_dumps (JStr s) = plain_string s"
| "json_dumps (JList xs) = ''['' @ comma_join (map json_dumps xs) @ '']''"
| "json_dumps (JObject kvs) =
     ''{'' @ comma_join (map (\<lambda>(k, t). plain_string k @ '': '' @ t)
       (sort_key fst (map (\<lambda>kv. (fst kv, json_dumps (snd kv))) kvs))) @ ''}''"

lemma json_dumps_example:
  "json_dumps (JObject [(''b'', JList [JInt 1, JNull]), (''a'', JStr ''x'')]) =
     quoted ''{~a~: ~x~, ~b~: [1, null]}''"
  by code_simp

subsection \<open>The gateway's stores\<close>

record gateway_db =
  gw_runtime :: runtime_db
  gw_assign :: assignment_db

definition on_runtime :: "(runtime_db, 'a) proc \<Rightarrow> (gateway_db, 'a) proc" where
  "on_runtime p s = (case p (gw_runtime s) of (r, db) \<Rightarrow> (r, s\<lparr>gw_runtime := db\<rparr>))"

definition on_assign :: "(assignment_db, 'a) proc \<Rightarrow> (gateway_db, 'a) proc" where
  "on_assign p s = (case p (gw_assign s) of (r, db) \<Rightarrow> (r, s\<lparr>gw_assign := db\<rparr>))"

text \<open>\<open>TaskStore.update\<close>: the row with the expected version takes the outcome columns.\<close>

definition task_update :: "task \<Rightarrow> int \<Rightarrow> (assignment_db, unit) proc" where
  "task_update t expected_version db =
     (case task_row (tk_id t) db of
        None \<Rightarrow> (Inl (TaskConflict ''task version changed''), db)
      | Some u \<Rightarrow>
          if tk_version u \<noteq> expected_version then (Inl (TaskConflict ''task version changed''), db)
          else (Inr (), put_task (u\<lparr>tk_status := tk_status t, tk_result_summary := tk_result_summary t,
                  tk_version := tk_version t\<rparr>) db))"

definition terminal_task_statuses :: "task_status set" where
  "terminal_task_statuses = {TS_SUCCEEDED, TS_FAILED}"

text \<open>A wired gateway: whether it has the assignment reader, and the plan's follow-up.\<close>

record gateway =
  gt_has_assignments :: bool
  gt_on_terminal :: "(uuid \<Rightarrow> (gateway_db, unit) proc) option"

definition gateway_enqueue ::
    "(runtime_db \<Rightarrow> runtime_db) \<Rightarrow> uuid option \<Rightarrow> (string \<times> json) list \<Rightarrow> datetime \<Rightarrow> (gateway_db, unit) proc" where
  "gateway_enqueue env worker_agent_id wire now =
     (if worker_agent_id = None then praise (ValueError ''runner dispatch requires worker_agent_id'')
      else on_runtime (enqueue env wire now))"

definition next_task :: "uuid set \<Rightarrow> uuid option \<Rightarrow> datetime \<Rightarrow> (gateway_db, (string \<times> json) list option) proc" where
  "next_task locked worker_agent_id now = on_runtime (lease_next locked worker_agent_id 60 now)"

subsection \<open>Results\<close>

definition result_status :: "string \<Rightarrow> task_status result" where
  "result_status event_type =
     (if event_type = ''runner.completed'' then Inr TS_SUCCEEDED
      else if event_type = ''runner.failed'' then Inr TS_FAILED
      else if event_type = ''runner.interrupted'' then Inr TS_FAILED
      else if event_type = ''runner.input_required'' then Inr TS_BLOCKED
      else Inl (KeyError (py_repr event_type)))"

definition details_of :: "(string \<times> json) list \<Rightarrow> (string \<times> json) list" where
  "details_of event = (case document_get event ''payload'' of JObject d \<Rightarrow> d | _ \<Rightarrow> [])"

definition get_or :: "(string \<times> json) list \<Rightarrow> string \<Rightarrow> json \<Rightarrow> json" where
  "get_or d k v = (case map_of d k of None \<Rightarrow> v | Some w \<Rightarrow> w)"

text \<open>\<open>dict(payload.get("workspace") or {}).get(k)\<close>\<close>

definition workspace_entry :: "runner_dispatch \<Rightarrow> string \<Rightarrow> json result" where
  "workspace_entry d k =
     rbind (py_dict (py_or (document_get (dp_task_payload d) ''workspace'') (JObject [])))
       (\<lambda>w. Inr (document_get w k))"

definition result_evidence :: "(string \<times> json) list \<Rightarrow> runner_dispatch \<Rightarrow> json result" where
  "result_evidence event d =
     (let details = details_of event in
      rbind (if py_truthy (document_get details ''summary'')
             then Inr (py_str (document_get details ''summary''))
             else item_str (JObject event) ''eventType'') (\<lambda>summary.
      rbind (workspace_entry d ''path'') (\<lambda>workspace_path.
      rbind (workspace_entry d ''baseSha'') (\<lambda>base_sha.
      Inr (JObject
        [(''summary'', JStr summary),
         (''changedFiles'', get_or details ''changedFiles'' (JList [])),
         (''testResults'', get_or details ''testResults'' (JList [])),
         (''testCommand'', document_get details ''testCommand''),
         (''artifacts'', get_or details ''artifacts'' (JList [])),
         (''blockers'', get_or details ''blockers'' (JList [])),
         (''commitSha'', document_get details ''commitSha''),
         (''runId'', JStr (uuid_str (dp_run_id d))),
         (''workspacePath'', workspace_path),
         (''baseSha'', base_sha)])))))"

text \<open>\<open>_advance_execution_plan\<close>: whatever the follow-up raises is logged and dropped.\<close>

definition advance_plan :: "gateway \<Rightarrow> uuid \<Rightarrow> (gateway_db, unit) proc" where
  "advance_plan g task_id s =
     (case gt_on_terminal g of None \<Rightarrow> (Inr (), s) | Some f \<Rightarrow> (Inr (), snd (f task_id s)))"

definition advance_if_terminal :: "gateway \<Rightarrow> task_status \<Rightarrow> uuid \<Rightarrow> (gateway_db, unit) proc" where
  "advance_if_terminal g status task_id =
     (if status \<in> terminal_task_statuses then advance_plan g task_id else preturn ())"

definition write_back ::
    "gateway \<Rightarrow> (gateway_db \<Rightarrow> gateway_db) \<Rightarrow> (string \<times> json) list \<Rightarrow> (gateway_db, unit) proc" where
  "write_back g env event =
     pbind (plift (item_uuid (JObject event) ''runId'')) (\<lambda>run_id.
     await env (pget (\<lambda>s. get_dispatch run_id (gw_runtime s))) (\<lambda>found.
     case found of
       None \<Rightarrow> praise (ValueError ''runner dispatch disappeared during result projection'')
     | Some d \<Rightarrow>
     await env (pget (\<lambda>s. task_row (dp_task_id d) (gw_assign s))) (\<lambda>task.
     case task of
       None \<Rightarrow> praise (ValueError ''runner result references an unknown business task'')
     | Some t \<Rightarrow>
         if tk_assignee_agent_id t \<noteq> dp_worker_agent_id d
         then praise (ValueError ''runner result worker binding mismatch'')
         else
     pbind (plift (rbind (item_str (JObject event) ''eventType'') result_status)) (\<lambda>status.
     if tk_status t = status then advance_if_terminal g status (tk_id t)
     else
     pbind (plift (result_evidence event d)) (\<lambda>evidence.
     pbind (plift (tk_report status (json_dumps evidence) t)) (\<lambda>u.
     await env (on_assign (task_update u (tk_version t))) (\<lambda>_.
     advance_if_terminal g status (tk_id t))))))))"

text \<open>Whether the attempt a run was dispatched for may still report.\<close>

definition projection_fresh :: "gateway \<Rightarrow> runner_dispatch option \<Rightarrow> assignment_db \<Rightarrow> bool" where
  "projection_fresh g found db =
     (case found of
        None \<Rightarrow> True
      | Some d \<Rightarrow>
          (case dp_assignment_attempt_id d of
             None \<Rightarrow> True
           | Some a \<Rightarrow> gt_has_assignments g \<and>
               (case dp_assignment_generation d of
                  None \<Rightarrow> False | Some n \<Rightarrow> allows_projection (dp_task_id d) a n db)))"

definition complete_assignment ::
    "gateway \<Rightarrow> runner_dispatch option \<Rightarrow> datetime \<Rightarrow> (gateway_db, unit) proc" where
  "complete_assignment g found now =
     (case found of
        None \<Rightarrow> preturn ()
      | Some d \<Rightarrow>
          (case (dp_assignment_attempt_id d, dp_assignment_generation d) of
             (Some a, Some n) \<Rightarrow>
               if gt_has_assignments g then on_assign (complete_current (dp_task_id d) a n now) else preturn ()
           | _ \<Rightarrow> preturn ()))"

definition receive_event ::
    "gateway \<Rightarrow> (gateway_db \<Rightarrow> gateway_db) \<Rightarrow> uuid option \<Rightarrow> uuid \<Rightarrow> datetime \<Rightarrow> (string \<times> json) list
     \<Rightarrow> (gateway_db, bool) proc" where
  "receive_event g env worker_agent_id i now event =
     (let event_type = py_str (document_get event ''eventType'') in
      pbind (plift (item_uuid (JObject event) ''runId'')) (\<lambda>run_id.
      await env (pget (\<lambda>s. get_dispatch run_id (gw_runtime s))) (\<lambda>found.
      await env (pget (\<lambda>s. projection_fresh g found (gw_assign s))) (\<lambda>allowed.
      await env (on_runtime (record_event event worker_agent_id allowed now)) (\<lambda>inserted.
      if event_type \<notin> terminal_event_types then preturn inserted
      else
      await env (pget (\<lambda>s. run_projection_allowed run_id (gw_runtime s))) (\<lambda>current.
      if \<not> current then preturn inserted
      else
      pbind (write_back g env event) (\<lambda>_.
      await env (if event_type = ''runner.completed'' then complete_assignment g found now else preturn ()) (\<lambda>_.
      await env (if event_type \<in> {''runner.failed'', ''runner.interrupted'', ''runner.input_required''}
                 then on_runtime (ensure_recovery_for_run run_id event i now) else preturn ()) (\<lambda>_.
      preturn inserted)))))))))"

subsection \<open>What an event can change\<close>

lemma record_event_True:
  assumes "record_event event w allowed now db = (Inr True, db')"
    and "item_uuid (JObject event) ''runId'' = Inr run_id" and "get_dispatch run_id db = Some d"
  shows "\<exists>ev. event_of event (ev_event_id ev) run_id allowed now = Inr ev \<and>
    item_uuid (JObject event) ''eventId'' = Inr (ev_event_id ev) \<and> verify_binding d event = Inr () \<and>
    (w = None \<or> w = Some (dp_worker_agent_id d)) \<and>
    (\<forall>x \<in> set (rt_events db). ev_event_id x \<noteq> ev_event_id ev \<and>
      \<not> (ev_run_id x = run_id \<and> ev_sequence x = ev_sequence ev)) \<and>
    db' = apply_event (ev_event_type ev) run_id allowed now d (db\<lparr>rt_events := rt_events db @ [ev]\<rparr>)"
proof -
  obtain event_id where e: "item_uuid (JObject event) ''eventId'' = Inr event_id"
    using assms(1) by (cases "item_uuid (JObject event) ''eventId''") (auto simp: record_event_def)
  have v: "verify_binding d event = Inr ()"
    using assms by (cases "verify_binding d event") (auto simp: record_event_def e split: if_splits)
  obtain ev where ev: "event_of event event_id run_id allowed now = Inr ev"
    using assms v by (cases "event_of event event_id run_id allowed now") (auto simp: record_event_def e split: if_splits)
  then have "ev_event_id ev = event_id"
    by (auto simp: event_of_def Let_def rbind_eq_Inr_iff)
  with assms e v ev show ?thesis by (auto simp: record_event_def split: if_splits)
qed

lemma event_of_fields:
  "event_of event event_id run_id allowed now = Inr ev \<Longrightarrow>
     ev_run_id ev = run_id \<and> item_int (JObject event) ''sequence'' = Inr (ev_sequence ev) \<and>
     item_str (JObject event) ''eventType'' = Inr (ev_event_type ev) \<and>
     ev_projection_status ev = (if allowed then ''accepted'' else ''rejected'')"
  by (auto simp: event_of_def Let_def rbind_eq_Inr_iff)

lemma item_str_get: "item_str (JObject event) k = Inr v \<Longrightarrow> py_str (document_get event k) = v"
  by (auto simp: item_str_def document_get_def rbind_eq_Inr_iff split: option.splits)

lemma apply_event_events [simp]:
  "rt_events (apply_event event_type run_id allowed now d db) = rt_events db"
  "rt_recoveries (apply_event event_type run_id allowed now d db) = rt_recoveries db"
  by (simp_all add: apply_event_def)

lemma apply_rejected [simp]: "rt_executions (apply_event event_type run_id False now d db) = rt_executions db"
  by (simp add: apply_event_def)

lemma insort_key_last: "\<forall>y \<in> set ys. f y \<le> f x \<Longrightarrow> \<forall>y \<in> set ys. f y \<noteq> f x \<Longrightarrow> insort_key f x ys = ys @ [x]"
  by (induction ys) auto

lemma sort_key_snoc: "\<forall>x \<in> set xs. f x < f e \<Longrightarrow> sort_key f (xs @ [e]) = sort_key f xs @ [e]"
proof (induction xs)
  case (Cons x xs)
  have "insort_key f x (ys @ [e]) = insort_key f x ys @ [e]" if "f x < f e" for ys
    using that by (induction ys) auto
  with Cons show ?case by simp
qed simp

lemma latest_event_decides:
  assumes "\<forall>x \<in> set (rt_events db). ev_run_id x = run_id \<longrightarrow> ev_sequence x < ev_sequence ev"
    and "rt_events db' = rt_events db @ [ev]" and "ev_run_id ev = run_id"
  shows "run_projection_allowed run_id db' \<longleftrightarrow> ev_projection_status ev = ''accepted''"
proof -
  have "sort_key ev_sequence (filter (\<lambda>e. ev_run_id e = run_id) (rt_events db) @ [ev]) =
      sort_key ev_sequence (filter (\<lambda>e. ev_run_id e = run_id) (rt_events db)) @ [ev]"
    by (rule sort_key_snoc) (use assms(1) in auto)
  then show ?thesis using assms(2,3) by (simp add: run_projection_allowed_def)
qed

text \<open>A terminal event, with no other coroutine in between.\<close>

lemma receive_terminal:
  assumes "item_uuid (JObject event) ''runId'' = Inr run_id"
    and "py_str (document_get event ''eventType'') = event_type" and "event_type \<in> terminal_event_types"
    and "record_event event w (projection_fresh g (get_dispatch run_id (gw_runtime s)) (gw_assign s)) now
      (gw_runtime s) = (Inr inserted, rt)"
  shows "receive_event g (\<lambda>s. s) w i now event s =
    (if \<not> run_projection_allowed run_id rt then (Inr inserted, s\<lparr>gw_runtime := rt\<rparr>)
     else pbind (write_back g (\<lambda>s. s) event) (\<lambda>_.
       await (\<lambda>s. s) (if event_type = ''runner.completed''
         then complete_assignment g (get_dispatch run_id (gw_runtime s)) now else preturn ()) (\<lambda>_.
       await (\<lambda>s. s) (if event_type \<in> {''runner.failed'', ''runner.interrupted'', ''runner.input_required''}
         then on_runtime (ensure_recovery_for_run run_id event i now) else preturn ()) (\<lambda>_.
       preturn inserted))) (s\<lparr>gw_runtime := rt\<rparr>))"
proof -
  have "on_runtime (record_event event w (projection_fresh g (get_dispatch run_id (gw_runtime s)) (gw_assign s)) now) s =
      (Inr inserted, s\<lparr>gw_runtime := rt\<rparr>)"
    using assms(4) by (simp add: on_runtime_def)
  note recorded = await_run [where m = "on_runtime (record_event event w
    (projection_fresh g (get_dispatch run_id (gw_runtime s)) (gw_assign s)) now)" and s = s, OF this]
  show ?thesis using assms(1-3) unfolding receive_event_def Let_def by (simp add: recorded preturn_def)
qed

lemma receive_written:
  assumes "item_uuid (JObject event) ''runId'' = Inr run_id"
    and "py_str (document_get event ''eventType'') = event_type" and "event_type \<in> terminal_event_types"
    and "record_event event w (projection_fresh g (get_dispatch run_id (gw_runtime s)) (gw_assign s)) now
      (gw_runtime s) = (Inr inserted, rt)"
    and "run_projection_allowed run_id rt"
    and "write_back g (\<lambda>s. s) event (s\<lparr>gw_runtime := rt\<rparr>) = (Inr (), s1)"
    and "(if event_type = ''runner.completed''
      then complete_assignment g (get_dispatch run_id (gw_runtime s)) now else preturn ()) s1 = (Inr (), s2)"
    and "(if event_type \<in> {''runner.failed'', ''runner.interrupted'', ''runner.input_required''}
      then on_runtime (ensure_recovery_for_run run_id event i now) else preturn ()) s2 = (Inr (), s3)"
  shows "receive_event g (\<lambda>s. s) w i now event s = (Inr inserted, s3)"
proof -
  define m2 where "m2 = (if event_type = ''runner.completed''
    then complete_assignment g (get_dispatch run_id (gw_runtime s)) now else preturn ())"
  define m3 where "m3 = (if event_type \<in> {''runner.failed'', ''runner.interrupted'', ''runner.input_required''}
    then on_runtime (ensure_recovery_for_run run_id event i now) else preturn ())"
  show ?thesis
    unfolding receive_terminal [OF assms(1-4)] m2_def [symmetric] m3_def [symmetric]
    using assms(5,6) assms(7) [folded m2_def] assms(8) [folded m3_def]
    by (simp add: pbind_def await_def pwait_def preturn_def)
qed

lemma receive_rejected:
  assumes "item_uuid (JObject event) ''runId'' = Inr run_id"
    and "record_event event w (projection_fresh g (get_dispatch run_id (gw_runtime s)) (gw_assign s)) now
      (gw_runtime s) = (Inr inserted, rt)"
    and "\<not> run_projection_allowed run_id rt"
  shows "receive_event g (\<lambda>s. s) w i now event s = (Inr inserted, s\<lparr>gw_runtime := rt\<rparr>)"
proof -
  have "on_runtime (record_event event w (projection_fresh g (get_dispatch run_id (gw_runtime s)) (gw_assign s)) now) s =
      (Inr inserted, s\<lparr>gw_runtime := rt\<rparr>)"
    using assms(2) by (simp add: on_runtime_def)
  note recorded = await_run [where m = "on_runtime (record_event event w
    (projection_fresh g (get_dispatch run_id (gw_runtime s)) (gw_assign s)) now)" and s = s, OF this]
  show ?thesis using assms(1,3) unfolding receive_event_def Let_def by (simp add: recorded preturn_def)
qed

lemma result_evidence_object: "result_evidence event d = Inr e \<Longrightarrow> \<exists>kvs. e = JObject kvs"
  by (auto simp: result_evidence_def Let_def rbind_eq_Inr_iff)

lemma evidence_not_blank: "result_evidence event d = Inr e \<Longrightarrow> \<not> blank (json_dumps e)"
  by (auto dest!: result_evidence_object simp: not_blank_prefix py_isspace_def)

text \<open>A result that is written to its task.\<close>

lemma write_back_reports:
  assumes "item_uuid (JObject event) ''runId'' = Inr run_id" and "get_dispatch run_id (gw_runtime s) = Some d"
    and "task_row (dp_task_id d) (gw_assign s) = Some t" and "tk_assignee_agent_id t = dp_worker_agent_id d"
    and "item_str (JObject event) ''eventType'' = Inr event_type" and "result_status event_type = Inr status"
    and "tk_status t \<noteq> status" and "tk_status t \<notin> final_task_statuses" and "tk_wf t"
    and "result_evidence event d = Inr e"
  defines "u \<equiv> t\<lparr>tk_status := status, tk_result_summary := Some (py_strip (json_dumps e)), tk_version := tk_version t + 1\<rparr>"
  shows "write_back g (\<lambda>s. s) event s =
    advance_if_terminal g status (dp_task_id d) (s\<lparr>gw_assign := put_task u (gw_assign s)\<rparr>)"
proof -
  have id: "tk_id t = dp_task_id d" using task_row_id [OF assms(3)] .
  have status: "status \<in> {TS_BLOCKED, TS_SUCCEEDED, TS_FAILED}"
    using assms(6) by (auto simp: result_status_def split: if_splits)
  have "tk_report status (json_dumps e) t = Inr u"
    using assms(8,9) status evidence_not_blank [OF assms(10)] by (simp add: tk_report_def u_def tk_wf_def)
  moreover have "task_row (tk_id u) (gw_assign s) = Some t"
    using assms(3) task_row_id [OF assms(3)] by (simp add: u_def)
  then have "task_update u (tk_version t) (gw_assign s) = (Inr (), put_task u (gw_assign s))"
    by (simp add: task_update_def) (simp add: u_def)
  then have "on_assign (task_update u (tk_version t)) s = (Inr (), s\<lparr>gw_assign := put_task u (gw_assign s)\<rparr>)"
    by (simp add: on_assign_def)
  note updated = await_run [where m = "on_assign (task_update u (tk_version t))" and s = s, OF this]
  ultimately show ?thesis
    using assms(1-7,10) id by (simp add: write_back_def updated)
qed

lemma task_row_put:
  assumes "task_row (tk_id u) db = Some t"
  shows "task_row (tk_id u) (put_task u db) = Some u"
proof -
  have "find (\<lambda>t. tk_id t = tk_id u) xs = Some t \<Longrightarrow>
      find (\<lambda>t. tk_id t = tk_id u) (map_where (\<lambda>t. tk_id t = tk_id u) (\<lambda>_. u) xs) = Some u" for xs
    by (induction xs) (auto simp: map_where_def split: if_splits)
  with assms show ?thesis by (simp add: task_row_def put_task_def)
qed

lemma record_event_foreign:
  assumes "item_uuid (JObject event) ''runId'' = Inr run_id" and "get_dispatch run_id db = Some d"
    and "w \<noteq> dp_worker_agent_id d"
  shows "\<exists>e. record_event event (Some w) allowed now db = (Inl e, db)"
  using assms by (auto simp: record_event_def split: sum.split)

lemma superseded_stale:
  assumes "dp_assignment_attempt_id d = Some a" and "superseded a db"
  shows "\<not> projection_fresh g (Some d) db"
  using assms superseded_refused(1) by (auto simp: projection_fresh_def split: option.split)

lemma ensure_recovery_Inr:
  assumes "item_str (JObject event) ''eventType'' = Inr event_type"
  shows "\<exists>rt. ensure_recovery_for_run run_id event i now db = (Inr (), rt)"
  using assms by (auto simp: ensure_recovery_for_run_def split: option.split)

lemma settled_worker:
  assumes inv: "exec_inv db" and x: "x \<in> set db" "wx_run_id x = run_id" "wx_active x"
  shows "\<forall>y \<in> set (settle_run run_id WX_SUCCEEDED now db). wx_worker_agent_id y = wx_worker_agent_id x \<longrightarrow> \<not> wx_active y"
    and "\<exists>y \<in> set (settle_run run_id WX_SUCCEEDED now db). wx_run_id y = run_id \<and>
      wx_worker_agent_id y = wx_worker_agent_id x \<and> wx_status y = WX_SUCCEEDED"
proof -
  have "y = x" if "y \<in> set db" "wx_run_id y = run_id" for y
    using inv that x key_unique [of wx_run_id db y x] by (simp add: exec_inv_def keyed_def)
  note same = this
  have found: "find (\<lambda>y. wx_run_id y = run_id \<and> wx_active y) db = Some x"
  proof (cases "find (\<lambda>y. wx_run_id y = run_id \<and> wx_active y) db")
    case None
    then show ?thesis using x by (auto simp: find_None_iff)
  next
    case (Some y)
    then show ?thesis using same find_SomeD [OF Some] by blast
  qed
  define z where "z = x\<lparr>wx_status := WX_SUCCEEDED, wx_lease_owner := None, wx_lease_expires_at := None,
    wx_version := wx_version x + 1, wx_updated_at := now, wx_completed_at := Some now\<rparr>"
  have z: "wx_id z = wx_id x" "\<not> wx_active z" "wx_run_id z = wx_run_id x" "wx_status z = WX_SUCCEEDED"
    "wx_worker_agent_id z = wx_worker_agent_id x"
    by (simp_all add: z_def wx_active_def active_execution_states_def)
  have settled: "settle_run run_id WX_SUCCEEDED now db = write_row wx_id z db"
    unfolding settle_run_def found z_def by simp
  have present: "row wx_id (wx_id x) db \<noteq> None" using x(1) by (auto simp: row_None_iff)
  have rows: "set (write_row wx_id z db) = {y \<in> set db. wx_id y \<noteq> wx_id x} \<union> {z}"
    unfolding set_write z(1) if_not_P [OF present] ..
  have "y = x" if "y \<in> set db" "wx_worker_agent_id y = wx_worker_agent_id x" "wx_active y" for y
    using unique_where_eq [of wx_worker_agent_id wx_active db y x] inv that x by (simp add: exec_inv_def)
  then show "\<forall>y \<in> set (settle_run run_id WX_SUCCEEDED now db). wx_worker_agent_id y = wx_worker_agent_id x \<longrightarrow> \<not> wx_active y"
    unfolding settled rows using z by auto
  show "\<exists>y \<in> set (settle_run run_id WX_SUCCEEDED now db). wx_run_id y = run_id \<and>
      wx_worker_agent_id y = wx_worker_agent_id x \<and> wx_status y = WX_SUCCEEDED"
    unfolding settled rows using z x(2) by auto
qed

lemma completed_run:
  assumes "get_dispatch run_id db = Some d"
    and "rt = apply_event ''runner.completed'' run_id True now d (db\<lparr>rt_events := events\<rparr>)"
  shows "get_dispatch run_id rt = Some (d\<lparr>dp_status := ''completed'', dp_lease_until := None, dp_completed_at := Some now\<rparr>)"
    and "rt_executions rt = settle_run run_id WX_SUCCEEDED now (rt_executions db)"
proof -
  have "dp_run_id d = run_id" using assms(1) by (auto simp: get_dispatch_def dest: row_SomeD)
  then show "get_dispatch run_id rt = Some (d\<lparr>dp_status := ''completed'', dp_lease_until := None, dp_completed_at := Some now\<rparr>)"
    using assms by (simp add: apply_event_def get_dispatch_def terminal_event_types_def
      terminal_dispatch_statuses_def row_write remove_prefix_def)
  show "rt_executions rt = settle_run run_id WX_SUCCEEDED now (rt_executions db)"
    using assms(2)
    by (simp add: apply_event_def terminal_event_types_def terminal_dispatch_statuses_def remove_prefix_def
        terminal_execution_status_def)
qed

text \<open>
  The plan's follow-up (\<open>AdvanceExecutionPlan.on_task_terminal\<close> where one is wired) settles leader tasks
  and assigns others; it leaves the task it is called for, its attempts, this run's dispatch and the
  Worker's executions alone.
\<close>

definition follow_up_spares :: "gateway \<Rightarrow> runner_dispatch \<Rightarrow> bool" where
  "follow_up_spares g d \<longleftrightarrow> (\<forall>f u. gt_on_terminal g = Some f \<longrightarrow> (let v = snd (f (dp_task_id d) u) in
     task_row (dp_task_id d) (gw_assign v) = task_row (dp_task_id d) (gw_assign u) \<and>
     active_row (dp_task_id d) (gw_assign v) = active_row (dp_task_id d) (gw_assign u) \<and>
     (\<forall>a. dp_assignment_attempt_id d = Some a \<longrightarrow> attempt_row a (gw_assign v) = attempt_row a (gw_assign u)) \<and>
     get_dispatch (dp_run_id d) (gw_runtime v) = get_dispatch (dp_run_id d) (gw_runtime u) \<and>
     filter (\<lambda>x. wx_worker_agent_id x = dp_worker_agent_id d) (rt_executions (gw_runtime v)) =
       filter (\<lambda>x. wx_worker_agent_id x = dp_worker_agent_id d) (rt_executions (gw_runtime u))))"

lemma follow_up:
  assumes "follow_up_spares g d" and "status \<in> terminal_task_statuses"
  shows "\<exists>v. advance_if_terminal g status (dp_task_id d) u = (Inr (), v) \<and>
     task_row (dp_task_id d) (gw_assign v) = task_row (dp_task_id d) (gw_assign u) \<and>
     active_row (dp_task_id d) (gw_assign v) = active_row (dp_task_id d) (gw_assign u) \<and>
     (\<forall>a. dp_assignment_attempt_id d = Some a \<longrightarrow> attempt_row a (gw_assign v) = attempt_row a (gw_assign u)) \<and>
     get_dispatch (dp_run_id d) (gw_runtime v) = get_dispatch (dp_run_id d) (gw_runtime u) \<and>
     filter (\<lambda>x. wx_worker_agent_id x = dp_worker_agent_id d) (rt_executions (gw_runtime v)) =
       filter (\<lambda>x. wx_worker_agent_id x = dp_worker_agent_id d) (rt_executions (gw_runtime u))"
proof (cases "gt_on_terminal g")
  case None
  then show ?thesis using assms(2) by (simp add: advance_if_terminal_def advance_plan_def)
next
  case (Some f)
  then have "advance_if_terminal g status (dp_task_id d) u = (Inr (), snd (f (dp_task_id d) u))"
    using assms(2) by (simp add: advance_if_terminal_def advance_plan_def)
  then show ?thesis using assms(1) Some unfolding follow_up_spares_def Let_def by blast
qed

lemma result_evidence_status [simp]:
  "result_evidence event (d\<lparr>dp_status := x, dp_lease_until := y, dp_completed_at := z\<rparr>) = result_evidence event d"
  by (simp add: result_evidence_def workspace_entry_def)

subsection \<open>A sample\<close>

definition sample_event :: "string \<Rightarrow> (string \<times> json) list" where
  "sample_event event_type =
     [(''eventId'', JStr (uuid_str 50)), (''runId'', JStr (uuid_str 21)), (''organizationId'', JStr (uuid_str 1)),
      (''projectId'', JStr (uuid_str 2)), (''taskId'', JStr (uuid_str 6)), (''attempt'', JInt 1),
      (''assignmentAttemptId'', JStr (uuid_str 10)), (''assignmentGeneration'', JInt 1),
      (''sequence'', JInt 3), (''eventType'', JStr event_type), (''occurredAt'', JStr (isoformat 0))]"

definition sample_dispatch :: "string \<Rightarrow> runner_dispatch" where
  "sample_dispatch status =
     \<lparr>dp_run_id = 21, dp_organization_id = 1, dp_project_id = 2, dp_repository_id = 3, dp_task_id = 6,
      dp_worker_agent_id = 5, dp_status = status, dp_task_payload = [], dp_idempotency_key = ''k'',
      dp_attempt = 1, dp_lease_until = None, dp_created_at = 0, dp_completed_at = None,
      dp_assignment_attempt_id = Some 10, dp_assignment_generation = Some 1, dp_execution_id = None,
      dp_execution_version = None\<rparr>"

definition sample_row :: "string \<Rightarrow> int \<Rightarrow> runner_event" where
  "sample_row event_type k = \<lparr>ev_event_id = 50, ev_run_id = 21, ev_sequence = k, ev_event_type = event_type,
     ev_payload = sample_event event_type, ev_occurred_at = 0, ev_recorded_at = 1,
     ev_projection_status = ''accepted'', ev_rejection_reason = None\<rparr>"

text \<open>Its follow-up assigns another task.\<close>

definition sample_follow_up :: "uuid \<Rightarrow> (gateway_db, unit) proc" where
  "sample_follow_up task_id s = (Inr (), s\<lparr>gw_assign := (gw_assign s)\<lparr>adb_tasks :=
     adb_tasks (gw_assign s) @ [sample_task\<lparr>tk_id := 99\<rparr>]\<rparr>\<rparr>)"

definition sample_gateway :: gateway where
  "sample_gateway = \<lparr>gt_has_assignments = True, gt_on_terminal = Some sample_follow_up\<rparr>"

text \<open>The task with its attempts; the run's dispatch, with the events recorded so far.\<close>

definition sample_world :: "task \<Rightarrow> task_assignment_attempt list \<Rightarrow> string \<Rightarrow> runner_event list \<Rightarrow> gateway_db" where
  "sample_world t as status events =
     \<lparr>gw_runtime = \<lparr>rt_dispatches = [sample_dispatch status], rt_events = events,
        rt_executions = [sample_execution\<lparr>wx_status := WX_RUNNING\<rparr>], rt_recoveries = []\<rparr>,
      gw_assign = \<lparr>adb_tasks = [t], adb_attempts = as\<rparr>\<rparr>"

lemma item_uuid_str [simp]: "map_of d k = Some (JStr (uuid_str u)) \<Longrightarrow> item_uuid (JObject d) k = Inr u"
  by (simp add: item_uuid_def item_str_def)

lemma datetime_ok_0: "datetime_ok 0"
  by (simp add: datetime_ok_def)

lemma dec_int_1: "dec_int 1 = ''1''"
  by code_simp

lemma sample_event_reads:
  "item_uuid (JObject (sample_event et)) ''runId'' = Inr 21" "item_uuid (JObject (sample_event et)) ''eventId'' = Inr 50"
  "item_str (JObject (sample_event et)) ''eventType'' = Inr et" "document_get (sample_event et) ''eventType'' = JStr et"
  "event_of (sample_event et) 50 21 allowed 1 = Inr ((sample_row et 3)\<lparr>
     ev_projection_status := (if allowed then ''accepted'' else ''rejected''),
     ev_rejection_reason := (if allowed then None else Some ''stale_assignment_generation'')\<rparr>)"
  "verify_binding (sample_dispatch status) (sample_event et) = Inr ()"
  "result_evidence (sample_event et) (sample_dispatch status) = Inr (JObject
     [(''summary'', JStr et), (''changedFiles'', JList []), (''testResults'', JList []), (''testCommand'', JNull),
      (''artifacts'', JList []), (''blockers'', JList []), (''commitSha'', JNull),
      (''runId'', JStr (uuid_str 21)), (''workspacePath'', JNull), (''baseSha'', JNull)])"
proof -
  show "item_uuid (JObject (sample_event et)) ''runId'' = Inr 21" "item_uuid (JObject (sample_event et)) ''eventId'' = Inr 50"
    by (simp_all add: sample_event_def)
  show et: "item_str (JObject (sample_event et)) ''eventType'' = Inr et" "document_get (sample_event et) ''eventType'' = JStr et"
    by (simp_all add: sample_event_def item_str_def document_get_def)
  show "event_of (sample_event et) 50 21 allowed 1 = Inr ((sample_row et 3)\<lparr>
     ev_projection_status := (if allowed then ''accepted'' else ''rejected''),
     ev_rejection_reason := (if allowed then None else Some ''stale_assignment_generation'')\<rparr>)"
    using fromisoformat_isoformat [OF datetime_ok_0]
    by (simp add: event_of_def Let_def et item_int_def item_time_def item_str_def sample_event_def sample_row_def)
  show "verify_binding (sample_dispatch status) (sample_event et) = Inr ()"
    by (simp add: verify_binding_def expected_binding_def sample_dispatch_def event_get_def sample_event_def
        none_or_def py_str_def)
  show "result_evidence (sample_event et) (sample_dispatch status) = Inr (JObject
     [(''summary'', JStr et), (''changedFiles'', JList []), (''testResults'', JList []), (''testCommand'', JNull),
      (''artifacts'', JList []), (''blockers'', JList []), (''commitSha'', JNull),
      (''runId'', JStr (uuid_str 21)), (''workspacePath'', JNull), (''baseSha'', JNull)])"
    by (simp add: result_evidence_def Let_def et details_of_def document_get_def sample_event_def get_or_def
        workspace_entry_def sample_dispatch_def py_or_def item_str_def)
qed

lemma sample_lookups [simp]:
  "get_dispatch 21 (gw_runtime (sample_world t as status events)) = Some (sample_dispatch status)"
  "rt_events (gw_runtime (sample_world t as status events)) = events"
  "gw_assign (sample_world t as status events) = \<lparr>adb_tasks = [t], adb_attempts = as\<rparr>"
  "dp_assignment_attempt_id (sample_dispatch status) = Some 10" "dp_assignment_generation (sample_dispatch status) = Some 1"
  "dp_task_id (sample_dispatch status) = 6" "dp_worker_agent_id (sample_dispatch status) = 5"
  by (simp_all add: get_dispatch_def row_def sample_world_def sample_dispatch_def)

lemma sample_spares: "follow_up_spares sample_gateway (sample_dispatch status)"
  by (auto simp: follow_up_spares_def sample_gateway_def sample_follow_up_def Let_def task_row_def active_row_def
      attempt_row_def find_append split: option.split)

definition sample_attempt :: "uuid \<Rightarrow> uuid \<Rightarrow> int \<Rightarrow> assignment_attempt_state \<Rightarrow> task_assignment_attempt" where
  "sample_attempt i worker n state = (initial_attempt sample_task None i 0)\<lparr>ta_worker_agent_id := worker,
     ta_generation := n, ta_state := state, ta_previous_attempt_id := (if n = 1 then None else Some (i - 1))\<rparr>"

lemma sample_record_new:
  "\<exists>ev. record_event (sample_event et) None allowed 1 (gw_runtime (sample_world t as status [])) =
     (Inr True, apply_event et 21 allowed 1 (sample_dispatch status)
        ((gw_runtime (sample_world t as status []))\<lparr>rt_events := [ev]\<rparr>))"
proof
  let ?ev = "(sample_row et 3)\<lparr>ev_projection_status := (if allowed then ''accepted'' else ''rejected''),
     ev_rejection_reason := (if allowed then None else Some ''stale_assignment_generation'')\<rparr>"
  have "ev_event_type ?ev = et" by (simp add: sample_row_def)
  then show "record_event (sample_event et) None allowed 1 (gw_runtime (sample_world t as status [])) =
     (Inr True, apply_event et 21 allowed 1 (sample_dispatch status)
        ((gw_runtime (sample_world t as status []))\<lparr>rt_events := [?ev]\<rparr>))"
    by (simp add: record_event_def sample_event_reads)
qed

lemma sample_record_again:
  "record_event (sample_event et) None allowed 1 (gw_runtime (sample_world t as status [sample_row et 3])) =
     (Inr False, gw_runtime (sample_world t as status [sample_row et 3]))"
  by (simp add: record_event_def sample_event_reads) (simp add: sample_row_def)

lemma sample_sequence: "item_int (JObject (sample_event et)) ''sequence'' = Inr 3"
  by (simp add: item_int_def sample_event_def)

subsection \<open>Properties\<close>

text \<open>An event of a run is only taken from the Worker the run was dispatched to: with another Worker's
  credential it is refused and, undisturbed, nothing at all changes, whatever the event says.\<close>

theorem foreign_event_changes_nothing:
  assumes "item_uuid (JObject event) ''runId'' = Inr run_id" and "get_dispatch run_id (gw_runtime s) = Some d"
    and "worker \<noteq> dp_worker_agent_id d"
  shows "\<exists>e. receive_event g (\<lambda>s. s) (Some worker) i now event s = (Inl e, s)"
proof -
  obtain e where "record_event event (Some worker) (projection_fresh g (Some d) (gw_assign s)) now (gw_runtime s) =
      (Inl e, gw_runtime s)"
    using record_event_foreign [OF assms] by blast
  then have "on_runtime (record_event event (Some worker) (projection_fresh g (Some d) (gw_assign s)) now) s = (Inl e, s)"
    by (simp add: on_runtime_def)
  note refused = await_error [where m = "on_runtime (record_event event (Some worker)
    (projection_fresh g (Some d) (gw_assign s)) now)" and s = s, OF this]
  show ?thesis using assms(1,2) by (simp add: receive_event_def Let_def refused)
qed

theorem foreign_event_changes_nothing_witness:
  "\<exists>e. receive_event sample_gateway (\<lambda>s. s) (Some 7) 40 1 (sample_event ''runner.failed'')
     (sample_world sample_task [] ''leased'' []) = (Inl e, sample_world sample_task [] ''leased'' [])"
  by (rule foreign_event_changes_nothing [OF sample_event_reads(1) sample_lookups(1)]) simp

text \<open>C34: A new result of a run whose assignment attempt was superseded is recorded as rejected, and with
  it, when it is the last of its run, nothing reaches the business: the tasks, the attempts, the
  Workers' executions and the recovery queue stay as they were.\<close>

theorem stale_result_projects_nothing:
  assumes "item_uuid (JObject event) ''runId'' = Inr run_id" and "get_dispatch run_id (gw_runtime s) = Some d"
    and "dp_assignment_attempt_id d = Some a" and "superseded a (gw_assign s)"
    and "item_int (JObject event) ''sequence'' = Inr k"
    and "\<forall>x \<in> set (rt_events (gw_runtime s)). ev_run_id x = run_id \<longrightarrow> ev_sequence x < k"
    and "record_event event w False now (gw_runtime s) = (Inr True, rt)"
  shows "receive_event g (\<lambda>s. s) w i now event s = (Inr True, s\<lparr>gw_runtime := rt\<rparr>) \<and>
    rt_executions rt = rt_executions (gw_runtime s) \<and> rt_recoveries rt = rt_recoveries (gw_runtime s) \<and>
    (\<exists>ev. rt_events rt = rt_events (gw_runtime s) @ [ev] \<and> ev_projection_status ev = ''rejected'')"
proof -
  obtain ev where ev: "event_of event (ev_event_id ev) run_id False now = Inr ev"
    "rt = apply_event (ev_event_type ev) run_id False now d
       ((gw_runtime s)\<lparr>rt_events := rt_events (gw_runtime s) @ [ev]\<rparr>)"
    using record_event_True [OF assms(7,1,2)] by blast
  note fields = event_of_fields [OF ev(1)]
  have stale: "\<not> projection_fresh g (Some d) (gw_assign s)" using assms(3,4) by (rule superseded_stale)
  then have recorded: "record_event event w (projection_fresh g (get_dispatch run_id (gw_runtime s)) (gw_assign s)) now
      (gw_runtime s) = (Inr True, rt)"
    using assms(2,7) by simp
  have "\<not> run_projection_allowed run_id rt"
    using latest_event_decides [of "gw_runtime s" run_id ev rt] assms(5,6) fields ev(2) by simp
  then have "receive_event g (\<lambda>s. s) w i now event s = (Inr True, s\<lparr>gw_runtime := rt\<rparr>)"
    by (rule receive_rejected [OF assms(1) recorded])
  with ev(2) fields show ?thesis by simp
qed

lemma sample_superseded:
  "superseded 10 \<lparr>adb_tasks = ts, adb_attempts = sample_attempt 10 5 1 AA_SUPERSEDED # as\<rparr>"
  by (simp add: superseded_def attempt_row_def sample_attempt_def initial_attempt_def)

theorem stale_result_projects_nothing_witness:
  "\<exists>rt. receive_event sample_gateway (\<lambda>s. s) None 40 1 (sample_event ''runner.failed'')
      (sample_world sample_task [sample_attempt 10 5 1 AA_SUPERSEDED] ''leased'' []) =
    (Inr True, (sample_world sample_task [sample_attempt 10 5 1 AA_SUPERSEDED] ''leased'' [])\<lparr>gw_runtime := rt\<rparr>)"
proof -
  obtain ev where recorded: "record_event (sample_event ''runner.failed'') None False 1
      (gw_runtime (sample_world sample_task [sample_attempt 10 5 1 AA_SUPERSEDED] ''leased'' [])) =
    (Inr True, apply_event ''runner.failed'' 21 False 1 (sample_dispatch ''leased'')
       ((gw_runtime (sample_world sample_task [sample_attempt 10 5 1 AA_SUPERSEDED] ''leased'' []))\<lparr>rt_events := [ev]\<rparr>))"
    using sample_record_new by blast
  have super: "superseded 10 (gw_assign (sample_world sample_task [sample_attempt 10 5 1 AA_SUPERSEDED] ''leased'' []))"
    by (simp add: sample_superseded)
  show ?thesis
    by (rule exI, rule stale_result_projects_nothing [OF sample_event_reads(1) sample_lookups(1) _ super
      sample_sequence _ recorded, THEN conjunct1]) simp_all
qed

text \<open>C35: Whether a result is projected is decided by the verdict stored with the run's last event, not by
  the verdict just computed. Suppose a run's failure was accepted before its attempt was superseded,
  and the task has since come back to the same Worker under another attempt. Delivered once more, and
  undisturbed, the old event is not recorded again, but it is projected: it fails the open task with
  the superseded run's evidence, while the attempt the Worker is working under stays active. (The
  follow-up that is started leaves this task, its attempts and this run alone.)\<close>

theorem replayed_result_escapes_fence:
  assumes "item_uuid (JObject event) ''runId'' = Inr run_id" and "get_dispatch run_id (gw_runtime s) = Some d"
    and "dp_assignment_attempt_id d = Some a" and "superseded a (gw_assign s)"
    and "active_row (dp_task_id d) (gw_assign s) = Some b" and "ta_id b \<noteq> a"
    and "ta_worker_agent_id b = dp_worker_agent_id d"
    and "record_event event w False now (gw_runtime s) = (Inr False, gw_runtime s)"
    and "run_projection_allowed run_id (gw_runtime s)"
    and "item_str (JObject event) ''eventType'' = Inr ''runner.failed''"
    and "task_row (dp_task_id d) (gw_assign s) = Some t" and "tk_assignee_agent_id t = dp_worker_agent_id d"
    and "tk_status t \<in> {TS_ASSIGNED, TS_IN_PROGRESS, TS_BLOCKED}" and "tk_wf t"
    and "result_evidence event d = Inr e" and spares: "follow_up_spares g d"
  shows "\<not> projection_fresh g (Some d) (gw_assign s) \<and>
    (\<exists>s' u. receive_event g (\<lambda>s. s) w i now event s = (Inr False, s') \<and>
       task_row (dp_task_id d) (gw_assign s') = Some u \<and> tk_status u = TS_FAILED \<and>
       tk_result_summary u = Some (py_strip (json_dumps e)) \<and>
       active_row (dp_task_id d) (gw_assign s') = Some b \<and> ta_state b = AA_ACTIVE)"
proof -
  have stale: "\<not> projection_fresh g (Some d) (gw_assign s)" using assms(3,4) by (rule superseded_stale)
  have b: "ta_state b = AA_ACTIVE"
    using assms(5) by (auto simp: active_row_def is_active_def dest!: find_SomeD)
  define u where "u = t\<lparr>tk_status := TS_FAILED, tk_result_summary := Some (py_strip (json_dumps e)),
    tk_version := tk_version t + 1\<rparr>"
  have status: "result_status ''runner.failed'' = Inr TS_FAILED" "tk_status t \<noteq> TS_FAILED" "tk_status t \<notin> final_task_statuses"
    using assms(13) by (auto simp: result_status_def final_task_statuses_def)
  let ?s = "s\<lparr>gw_assign := put_task u (gw_assign s)\<rparr>"
  obtain v where v: "advance_if_terminal g TS_FAILED (dp_task_id d) ?s = (Inr (), v)"
    "task_row (dp_task_id d) (gw_assign v) = task_row (dp_task_id d) (put_task u (gw_assign s))"
    "active_row (dp_task_id d) (gw_assign v) = active_row (dp_task_id d) (put_task u (gw_assign s))"
    using follow_up [OF spares, of TS_FAILED ?s] by (auto simp: terminal_task_statuses_def)
  have written: "write_back g (\<lambda>s. s) event (s\<lparr>gw_runtime := gw_runtime s\<rparr>) = (Inr (), v)"
    using write_back_reports [OF assms(1,2,11,12,10) status assms(14,15)] v(1) by (simp add: u_def)
  obtain rt where recovery: "ensure_recovery_for_run run_id event i now (gw_runtime v) = (Inr (), rt)"
    using ensure_recovery_Inr [OF assms(10)] by blast
  have recovered: "on_runtime (ensure_recovery_for_run run_id event i now) v = (Inr (), v\<lparr>gw_runtime := rt\<rparr>)"
    unfolding on_runtime_def recovery by simp
  have "receive_event g (\<lambda>s. s) w i now event s = (Inr False, v\<lparr>gw_runtime := rt\<rparr>)"
    by (rule receive_written [OF assms(1) item_str_get [OF assms(10)] _ _ assms(9) written])
      (use stale assms(2,8) recovered in
        \<open>simp_all add: terminal_event_types_def terminal_dispatch_statuses_def preturn_def\<close>)
  moreover have "task_row (dp_task_id d) (put_task u (gw_assign s)) = Some u"
    using task_row_put [of u "gw_assign s" t] assms(11) task_row_id [OF assms(11)] by (simp add: u_def)
  moreover have "active_row (dp_task_id d) (put_task u (gw_assign s)) = Some b"
    using assms(5) by (simp add: active_row_def put_task_def)
  ultimately show ?thesis using stale b v by (auto simp: u_def)
qed

definition sample_back_again :: gateway_db where
  "sample_back_again = sample_world (sample_task\<lparr>tk_status := TS_IN_PROGRESS, tk_version := 5\<rparr>)
     [sample_attempt 10 5 1 AA_SUPERSEDED, sample_attempt 11 7 2 AA_SUPERSEDED, sample_attempt 12 5 3 AA_ACTIVE]
     ''failed'' [sample_row ''runner.failed'' 3]"

lemma sample_task_wf: "tk_wf (sample_task\<lparr>tk_status := st, tk_version := v\<rparr>)"
  by (simp add: tk_wf_def sample_task_def)

theorem replayed_result_escapes_fence_witness:
  "active_row 6 (gw_assign sample_back_again) = Some (sample_attempt 12 5 3 AA_ACTIVE) \<and>
   (\<exists>s' u. receive_event sample_gateway (\<lambda>s. s) None 40 1 (sample_event ''runner.failed'') sample_back_again = (Inr False, s') \<and>
      task_row 6 (gw_assign s') = Some u \<and> tk_status u = TS_FAILED \<and>
      active_row 6 (gw_assign s') = Some (sample_attempt 12 5 3 AA_ACTIVE))"
proof -
  let ?t = "sample_task\<lparr>tk_status := TS_IN_PROGRESS, tk_version := 5\<rparr>"
  have a: "gw_assign sample_back_again = \<lparr>adb_tasks = [?t], adb_attempts = [sample_attempt 10 5 1 AA_SUPERSEDED,
      sample_attempt 11 7 2 AA_SUPERSEDED, sample_attempt 12 5 3 AA_ACTIVE]\<rparr>"
    by (simp add: sample_back_again_def)
  have d: "get_dispatch 21 (gw_runtime sample_back_again) = Some (sample_dispatch ''failed'')"
    by (simp add: sample_back_again_def)
  have super: "superseded 10 (gw_assign sample_back_again)" unfolding a by (rule sample_superseded)
  have again: "record_event (sample_event ''runner.failed'') None False 1 (gw_runtime sample_back_again) =
      (Inr False, gw_runtime sample_back_again)"
    unfolding sample_back_again_def by (rule sample_record_again)
  have accepted: "run_projection_allowed 21 (gw_runtime sample_back_again)"
    by (simp add: run_projection_allowed_def sample_back_again_def) (simp add: sample_row_def)
  have t: "task_row (dp_task_id (sample_dispatch ''failed'')) (gw_assign sample_back_again) = Some ?t"
    unfolding a by (simp add: task_row_def) (simp add: sample_task_def)
  have t_props: "tk_assignee_agent_id ?t = dp_worker_agent_id (sample_dispatch ''failed'')"
    "tk_status ?t \<in> {TS_ASSIGNED, TS_IN_PROGRESS, TS_BLOCKED}"
    "dp_assignment_attempt_id (sample_dispatch ''failed'') = Some 10"
    by simp_all (simp add: sample_task_def)
  have b: "active_row (dp_task_id (sample_dispatch ''failed'')) (gw_assign sample_back_again) = Some (sample_attempt 12 5 3 AA_ACTIVE)"
    "ta_id (sample_attempt 12 5 3 AA_ACTIVE) \<noteq> 10"
    "ta_worker_agent_id (sample_attempt 12 5 3 AA_ACTIVE) = dp_worker_agent_id (sample_dispatch ''failed'')"
    unfolding a by (simp_all add: active_row_def is_active_def sample_attempt_def initial_attempt_def sample_task_def)
  from replayed_result_escapes_fence [OF sample_event_reads(1) d t_props(3) super b again accepted sample_event_reads(3)
      t t_props(1,2) sample_task_wf sample_event_reads(7) sample_spares, where i = 40]
  show ?thesis using b(1) unfolding sample_lookups(6) by blast
qed

text \<open>C36: Undisturbed, a run that completes under the task's current attempt, with its last event, settles
  everything it touches: the task succeeds with the Runner's evidence as its result text, the attempt
  and the dispatch are completed, the run's execution is recorded as succeeded, and no execution of
  the Worker is active any more, so it is free for the next one. This holds with the plan's follow-up
  wired, as long as the follow-up leaves this task, its attempts, this dispatch and the Worker's
  executions alone. (No database check is made of the evidence on this path.)\<close>

theorem completed_run_settles:
  assumes "item_uuid (JObject event) ''runId'' = Inr run_id" and "get_dispatch run_id (gw_runtime s) = Some d"
    and "dp_assignment_attempt_id d = Some a" and "dp_assignment_generation d = Some n" and "gt_has_assignments g"
    and "attempt_row a (gw_assign s) = Some b" and "ta_task_id b = dp_task_id d" and "ta_generation b = n"
    and "ta_state b = AA_ACTIVE"
    and "item_str (JObject event) ''eventType'' = Inr ''runner.completed''"
    and "item_int (JObject event) ''sequence'' = Inr k"
    and "\<forall>x \<in> set (rt_events (gw_runtime s)). ev_run_id x = run_id \<longrightarrow> ev_sequence x < k"
    and "record_event event w True now (gw_runtime s) = (Inr True, rt)"
    and "exec_inv (rt_executions (gw_runtime s))"
    and "x \<in> set (rt_executions (gw_runtime s))" and "wx_run_id x = run_id" and "wx_active x"
    and "wx_worker_agent_id x = dp_worker_agent_id d"
    and "task_row (dp_task_id d) (gw_assign s) = Some t" and "tk_assignee_agent_id t = dp_worker_agent_id d"
    and "tk_status t \<in> {TS_ASSIGNED, TS_IN_PROGRESS, TS_BLOCKED}" and "tk_wf t"
    and "result_evidence event d = Inr e" and spares: "follow_up_spares g d"
  shows "\<exists>s' u b'. receive_event g (\<lambda>s. s) w i now event s = (Inr True, s') \<and>
    task_row (dp_task_id d) (gw_assign s') = Some u \<and> tk_status u = TS_SUCCEEDED \<and>
    tk_result_summary u = Some (py_strip (json_dumps e)) \<and>
    attempt_row a (gw_assign s') = Some b' \<and> ta_state b' = AA_COMPLETED \<and>
    get_dispatch run_id (gw_runtime s') =
      Some (d\<lparr>dp_status := ''completed'', dp_lease_until := None, dp_completed_at := Some now\<rparr>) \<and>
    (\<exists>y \<in> set (rt_executions (gw_runtime s')). wx_run_id y = run_id \<and> wx_status y = WX_SUCCEEDED) \<and>
    (\<forall>y \<in> set (rt_executions (gw_runtime s')). wx_worker_agent_id y = dp_worker_agent_id d \<longrightarrow> \<not> wx_active y)"
proof -
  have fresh: "projection_fresh g (Some d) (gw_assign s)"
    using assms(3-9) by (simp add: projection_fresh_def allows_projection_def)
  obtain ev where ev: "event_of event (ev_event_id ev) run_id True now = Inr ev"
    "rt = apply_event (ev_event_type ev) run_id True now d
       ((gw_runtime s)\<lparr>rt_events := rt_events (gw_runtime s) @ [ev]\<rparr>)"
    using record_event_True [OF assms(13,1,2)] by blast
  note fields = event_of_fields [OF ev(1)]
  have type: "ev_event_type ev = ''runner.completed''" using fields assms(10) by simp
  have allowed: "run_projection_allowed run_id rt"
    using latest_event_decides [of "gw_runtime s" run_id ev rt] assms(11,12) fields ev(2) by simp
  define u where "u = t\<lparr>tk_status := TS_SUCCEEDED, tk_result_summary := Some (py_strip (json_dumps e)),
    tk_version := tk_version t + 1\<rparr>"
  have status: "result_status ''runner.completed'' = Inr TS_SUCCEEDED" "tk_status t \<noteq> TS_SUCCEEDED"
    "tk_status t \<notin> final_task_statuses"
    using assms(21) by (auto simp: result_status_def final_task_statuses_def)
  note rt = completed_run [OF assms(2) ev(2) [unfolded type]]
  let ?d = "d\<lparr>dp_status := ''completed'', dp_lease_until := None, dp_completed_at := Some now\<rparr>"
  let ?s = "s\<lparr>gw_runtime := rt, gw_assign := put_task u (gw_assign s)\<rparr>"
  have run: "dp_run_id d = run_id" using assms(2) by (auto simp: get_dispatch_def dest: row_SomeD)
  obtain v where v: "advance_if_terminal g TS_SUCCEEDED (dp_task_id d) ?s = (Inr (), v)"
    "task_row (dp_task_id d) (gw_assign v) = task_row (dp_task_id d) (put_task u (gw_assign s))"
    "attempt_row a (gw_assign v) = attempt_row a (put_task u (gw_assign s))"
    "get_dispatch run_id (gw_runtime v) = get_dispatch run_id rt"
    "filter (\<lambda>x. wx_worker_agent_id x = dp_worker_agent_id d) (rt_executions (gw_runtime v)) =
      filter (\<lambda>x. wx_worker_agent_id x = dp_worker_agent_id d) (rt_executions rt)"
    using follow_up [OF spares, of TS_SUCCEEDED ?s] assms(3) run by (auto simp: terminal_task_statuses_def)
  have written: "write_back g (\<lambda>s. s) event (s\<lparr>gw_runtime := rt\<rparr>) = (Inr (), v)"
    using write_back_reports [OF assms(1) _ _ _ assms(10) status assms(22), of "s\<lparr>gw_runtime := rt\<rparr>" ?d e g]
      rt(1) assms(19,20,23) v(1) by (simp add: u_def)
  define b' where "b' = b\<lparr>ta_state := AA_COMPLETED, ta_finished_at := Some now\<rparr>"
  have b: "attempt_row a (gw_assign v) = Some b" using v(3) assms(6) by (simp add: attempt_row_def put_task_def)
  define s2 where "s2 = v\<lparr>gw_assign := put_attempt b' (gw_assign v)\<rparr>"
  have completed: "complete_assignment g (get_dispatch run_id (gw_runtime s)) now v = (Inr (), s2)"
    using assms(2-5,7-9) b by (simp add: complete_assignment_def on_assign_def complete_current_def b'_def s2_def)
  have "receive_event g (\<lambda>s. s) w i now event s = (Inr True, s2)"
    by (rule receive_written [OF assms(1) item_str_get [OF assms(10)] _ _ allowed written])
      (use completed fresh assms(2,13) in \<open>simp_all add: terminal_event_types_def terminal_dispatch_statuses_def preturn_def\<close>)
  moreover have "task_row (dp_task_id d) (gw_assign s2) = Some u"
    using task_row_put [of u "gw_assign s" t] assms(19) task_row_id [OF assms(19)] v(2)
    by (simp add: u_def s2_def task_row_def put_attempt_def)
  moreover have "attempt_row a (gw_assign s2) = Some b'"
    using attempt_row_put_own [of b "gw_assign v" b'] attempt_row_in [OF b] by (simp add: s2_def b'_def)
  moreover have "y \<in> set (rt_executions (gw_runtime s2)) \<and> wx_worker_agent_id y = dp_worker_agent_id d \<longleftrightarrow>
      y \<in> set (rt_executions rt) \<and> wx_worker_agent_id y = dp_worker_agent_id d" for y
    using arg_cong [OF v(5), of set] by (auto simp: s2_def)
  note executions = this
  ultimately show ?thesis
    using settled_worker [OF assms(14-17), of now] rt v(4) assms(18) executions
    by (auto simp: u_def b'_def s2_def)
qed

lemma sample_running_inv: "exec_inv (rt_executions (gw_runtime (sample_world t as status events)))"
  by (simp add: sample_world_def exec_inv_def keyed_def unique_where_def wx_sound_def wx_active_def
      active_execution_states_def sample_execution_def new_execution_def)

theorem completed_run_settles_witness:
  "\<exists>s' u. receive_event sample_gateway (\<lambda>s. s) None 40 1 (sample_event ''runner.completed'')
      (sample_world (sample_task\<lparr>tk_status := TS_IN_PROGRESS, tk_version := 2\<rparr>)
        [sample_attempt 10 5 1 AA_ACTIVE] ''leased'' []) = (Inr True, s') \<and>
    task_row 6 (gw_assign s') = Some u \<and> tk_status u = TS_SUCCEEDED \<and>
    filter (\<lambda>y. wx_worker_agent_id y = 5 \<and> wx_active y) (rt_executions (gw_runtime s')) = []"
proof -
  let ?t = "sample_task\<lparr>tk_status := TS_IN_PROGRESS, tk_version := 2\<rparr>"
  let ?s = "sample_world ?t [sample_attempt 10 5 1 AA_ACTIVE] ''leased'' []"
  obtain ev where recorded: "record_event (sample_event ''runner.completed'') None True 1 (gw_runtime ?s) =
      (Inr True, apply_event ''runner.completed'' 21 True 1 (sample_dispatch ''leased'')
         ((gw_runtime ?s)\<lparr>rt_events := [ev]\<rparr>))"
    using sample_record_new by blast
  have b: "attempt_row 10 (gw_assign ?s) = Some (sample_attempt 10 5 1 AA_ACTIVE)"
    "ta_task_id (sample_attempt 10 5 1 AA_ACTIVE) = dp_task_id (sample_dispatch ''leased'')"
    "ta_generation (sample_attempt 10 5 1 AA_ACTIVE) = 1" "ta_state (sample_attempt 10 5 1 AA_ACTIVE) = AA_ACTIVE"
    by (simp_all add: attempt_row_def sample_attempt_def initial_attempt_def sample_task_def)
  have t: "task_row (dp_task_id (sample_dispatch ''leased'')) (gw_assign ?s) = Some ?t"
    "tk_assignee_agent_id ?t = dp_worker_agent_id (sample_dispatch ''leased'')"
    "tk_status ?t \<in> {TS_ASSIGNED, TS_IN_PROGRESS, TS_BLOCKED}"
    by (simp_all add: task_row_def) (simp_all add: sample_task_def)
  have g: "gt_has_assignments sample_gateway" by (simp add: sample_gateway_def)
  let ?x = "sample_execution\<lparr>wx_status := WX_RUNNING\<rparr>"
  have x: "?x \<in> set (rt_executions (gw_runtime ?s))" "wx_run_id ?x = 21" "wx_active ?x"
    "wx_worker_agent_id ?x = dp_worker_agent_id (sample_dispatch ''leased'')"
    by (simp_all add: sample_world_def wx_active_def active_execution_states_def sample_execution_def new_execution_def
        sample_request_def sample_dispatch_def)
  have first: "\<forall>x \<in> set (rt_events (gw_runtime ?s)). ev_run_id x = 21 \<longrightarrow> ev_sequence x < 3" by simp
  from completed_run_settles [OF sample_event_reads(1) sample_lookups(1) sample_lookups(4,5) g b
      sample_event_reads(3) sample_sequence first recorded sample_running_inv x t sample_task_wf
      sample_event_reads(7) sample_spares, where i = 40]
  show ?thesis unfolding sample_lookups(6,7) filter_empty_conv by blast
qed

text \<open>
  A run that has ended can be reopened: an acceptance that is recorded after the terminal event of
  its run puts the dispatch back among the active ones.
\<close>

lemma acceptance_reopens_dispatch:
  assumes "get_dispatch run_id db = Some d"
  shows "\<exists>d'. get_dispatch run_id (apply_event ''runner.accepted'' run_id True now d db) = Some d' \<and>
    dp_status d' \<in> active_dispatch_statuses"
proof -
  have "dp_run_id d = run_id" using assms by (auto simp: get_dispatch_def dest: row_SomeD)
  with assms show ?thesis
    by (auto simp: apply_event_def get_dispatch_def row_write active_dispatch_statuses_def)
qed

end
