(* ===== verification/Project_Contracts.thy ===== *)
theory Project_Contracts
  imports Identifiers
begin

text \<open>
  The vocabulary of the project module (\<open>modules/project/contracts.py\<close>): how much of a
  project's work runs unattended, where it stops for a person and who those people are; the
  views of reviews, decisions and agent topologies; and the gate used where no checkpoint
  service is configured.
\<close>

subsection \<open>Enumerations and views\<close>

datatype project_team_runtime_status =
    PR_PENDING
  | PR_READY
  | PR_FAILED

fun project_team_runtime_status_value :: "project_team_runtime_status \<Rightarrow> string" where
  "project_team_runtime_status_value PR_PENDING = ''pending''"
| "project_team_runtime_status_value PR_READY = ''ready''"
| "project_team_runtime_status_value PR_FAILED = ''failed''"

definition project_team_runtime_status_members :: "project_team_runtime_status list" where
  "project_team_runtime_status_members =
     [PR_PENDING, PR_READY, PR_FAILED]"

interpretation PR: str_enum project_team_runtime_status_value project_team_runtime_status_members
proof
  show "x \<in> set project_team_runtime_status_members" for x
    by (cases x) (simp_all add: project_team_runtime_status_members_def)
qed (simp add: project_team_runtime_status_members_def)

datatype project_execution_mode =
    PX_AUTO
  | PX_SUPERVISED
  | PX_MANUAL_CONTROLLED

fun project_execution_mode_value :: "project_execution_mode \<Rightarrow> string" where
  "project_execution_mode_value PX_AUTO = ''auto''"
| "project_execution_mode_value PX_SUPERVISED = ''supervised''"
| "project_execution_mode_value PX_MANUAL_CONTROLLED = ''manual_controlled''"

definition project_execution_mode_members :: "project_execution_mode list" where
  "project_execution_mode_members =
     [PX_AUTO, PX_SUPERVISED, PX_MANUAL_CONTROLLED]"

interpretation PX: str_enum project_execution_mode_value project_execution_mode_members
proof
  show "x \<in> set project_execution_mode_members" for x
    by (cases x) (simp_all add: project_execution_mode_members_def)
qed (simp add: project_execution_mode_members_def)

datatype project_operational_status =
    PO_ACTIVE
  | PO_PAUSED
  | PO_CANCELLED

fun project_operational_status_value :: "project_operational_status \<Rightarrow> string" where
  "project_operational_status_value PO_ACTIVE = ''active''"
| "project_operational_status_value PO_PAUSED = ''paused''"
| "project_operational_status_value PO_CANCELLED = ''cancelled''"

definition project_operational_status_members :: "project_operational_status list" where
  "project_operational_status_members =
     [PO_ACTIVE, PO_PAUSED, PO_CANCELLED]"

interpretation PO: str_enum project_operational_status_value project_operational_status_members
proof
  show "x \<in> set project_operational_status_members" for x
    by (cases x) (simp_all add: project_operational_status_members_def)
qed (simp add: project_operational_status_members_def)

datatype human_project_role =
    HR_ORGANIZATION_SUPERVISOR
  | HR_PROJECT_SUPERVISOR
  | HR_REPOSITORY_SUPERVISOR

fun human_project_role_value :: "human_project_role \<Rightarrow> string" where
  "human_project_role_value HR_ORGANIZATION_SUPERVISOR = ''organization_supervisor''"
| "human_project_role_value HR_PROJECT_SUPERVISOR = ''project_supervisor''"
| "human_project_role_value HR_REPOSITORY_SUPERVISOR = ''repository_supervisor''"

definition human_project_role_members :: "human_project_role list" where
  "human_project_role_members =
     [HR_ORGANIZATION_SUPERVISOR, HR_PROJECT_SUPERVISOR, HR_REPOSITORY_SUPERVISOR]"

interpretation HR: str_enum human_project_role_value human_project_role_members
proof
  show "x \<in> set human_project_role_members" for x
    by (cases x) (simp_all add: human_project_role_members_def)
qed (simp add: human_project_role_members_def)

datatype code_access_level =
    CL_NONE
  | CL_READ
  | CL_WRITE

fun code_access_level_value :: "code_access_level \<Rightarrow> string" where
  "code_access_level_value CL_NONE = ''none''"
| "code_access_level_value CL_READ = ''read''"
| "code_access_level_value CL_WRITE = ''write''"

definition code_access_level_members :: "code_access_level list" where
  "code_access_level_members =
     [CL_NONE, CL_READ, CL_WRITE]"

interpretation CL: str_enum code_access_level_value code_access_level_members
proof
  show "x \<in> set code_access_level_members" for x
    by (cases x) (simp_all add: code_access_level_members_def)
qed (simp add: code_access_level_members_def)

datatype human_control_action =
    HC_VIEW_DECISIONS
  | HC_APPROVE_CHECKPOINT
  | HC_REQUEST_CHANGES
  | HC_PAUSE_PROJECT
  | HC_RESUME_PROJECT
  | HC_CANCEL_PROJECT
  | HC_EDIT_SPECIFICATION

fun human_control_action_value :: "human_control_action \<Rightarrow> string" where
  "human_control_action_value HC_VIEW_DECISIONS = ''view_decisions''"
| "human_control_action_value HC_APPROVE_CHECKPOINT = ''approve_checkpoint''"
| "human_control_action_value HC_REQUEST_CHANGES = ''request_changes''"
| "human_control_action_value HC_PAUSE_PROJECT = ''pause_project''"
| "human_control_action_value HC_RESUME_PROJECT = ''resume_project''"
| "human_control_action_value HC_CANCEL_PROJECT = ''cancel_project''"
| "human_control_action_value HC_EDIT_SPECIFICATION = ''edit_specification''"

definition human_control_action_members :: "human_control_action list" where
  "human_control_action_members =
     [HC_VIEW_DECISIONS, HC_APPROVE_CHECKPOINT, HC_REQUEST_CHANGES, HC_PAUSE_PROJECT, HC_RESUME_PROJECT, HC_CANCEL_PROJECT, HC_EDIT_SPECIFICATION]"

interpretation HC: str_enum human_control_action_value human_control_action_members
proof
  show "x \<in> set human_control_action_members" for x
    by (cases x) (simp_all add: human_control_action_members_def)
qed (simp add: human_control_action_members_def)

datatype project_checkpoint =
    PCP_REPOSITORY_SCOPE
  | PCP_SPECIFICATION
  | PCP_EXECUTION
  | PCP_VALIDATION
  | PCP_DELIVERY
  | PCP_EXCEPTION_ESCALATION

fun project_checkpoint_value :: "project_checkpoint \<Rightarrow> string" where
  "project_checkpoint_value PCP_REPOSITORY_SCOPE = ''repository_scope''"
| "project_checkpoint_value PCP_SPECIFICATION = ''specification''"
| "project_checkpoint_value PCP_EXECUTION = ''execution''"
| "project_checkpoint_value PCP_VALIDATION = ''validation''"
| "project_checkpoint_value PCP_DELIVERY = ''delivery''"
| "project_checkpoint_value PCP_EXCEPTION_ESCALATION = ''exception_escalation''"

definition project_checkpoint_members :: "project_checkpoint list" where
  "project_checkpoint_members =
     [PCP_REPOSITORY_SCOPE, PCP_SPECIFICATION, PCP_EXECUTION, PCP_VALIDATION, PCP_DELIVERY, PCP_EXCEPTION_ESCALATION]"

interpretation PCP: str_enum project_checkpoint_value project_checkpoint_members
proof
  show "x \<in> set project_checkpoint_members" for x
    by (cases x) (simp_all add: project_checkpoint_members_def)
qed (simp add: project_checkpoint_members_def)

datatype checkpoint_decision_kind =
    CD_APPROVED
  | CD_REJECTED
  | CD_CHANGES_REQUESTED

fun checkpoint_decision_kind_value :: "checkpoint_decision_kind \<Rightarrow> string" where
  "checkpoint_decision_kind_value CD_APPROVED = ''approved''"
| "checkpoint_decision_kind_value CD_REJECTED = ''rejected''"
| "checkpoint_decision_kind_value CD_CHANGES_REQUESTED = ''changes_requested''"

definition checkpoint_decision_kind_members :: "checkpoint_decision_kind list" where
  "checkpoint_decision_kind_members =
     [CD_APPROVED, CD_REJECTED, CD_CHANGES_REQUESTED]"

interpretation CD: str_enum checkpoint_decision_kind_value checkpoint_decision_kind_members
proof
  show "x \<in> set checkpoint_decision_kind_members" for x
    by (cases x) (simp_all add: checkpoint_decision_kind_members_def)
qed (simp add: checkpoint_decision_kind_members_def)

datatype human_review_status =
    HS_PENDING
  | HS_APPROVED
  | HS_REJECTED
  | HS_CHANGES_REQUESTED

fun human_review_status_value :: "human_review_status \<Rightarrow> string" where
  "human_review_status_value HS_PENDING = ''pending''"
| "human_review_status_value HS_APPROVED = ''approved''"
| "human_review_status_value HS_REJECTED = ''rejected''"
| "human_review_status_value HS_CHANGES_REQUESTED = ''changes_requested''"

definition human_review_status_members :: "human_review_status list" where
  "human_review_status_members =
     [HS_PENDING, HS_APPROVED, HS_REJECTED, HS_CHANGES_REQUESTED]"

interpretation HS: str_enum human_review_status_value human_review_status_members
proof
  show "x \<in> set human_review_status_members" for x
    by (cases x) (simp_all add: human_review_status_members_def)
qed (simp add: human_review_status_members_def)

datatype team_decomposition_mode =
    DM_SERVER
  | DM_LEADER

fun team_decomposition_mode_value :: "team_decomposition_mode \<Rightarrow> string" where
  "team_decomposition_mode_value DM_SERVER = ''server''"
| "team_decomposition_mode_value DM_LEADER = ''leader''"

definition team_decomposition_mode_members :: "team_decomposition_mode list" where
  "team_decomposition_mode_members =
     [DM_SERVER, DM_LEADER]"

interpretation DM: str_enum team_decomposition_mode_value team_decomposition_mode_members
proof
  show "x \<in> set team_decomposition_mode_members" for x
    by (cases x) (simp_all add: team_decomposition_mode_members_def)
qed (simp add: team_decomposition_mode_members_def)

record human_review_request_view =
  hrv_id :: uuid
  hrv_project_id :: uuid
  hrv_checkpoint :: project_checkpoint
  hrv_evidence_version :: string
  hrv_title :: string
  hrv_summary :: string
  hrv_status :: human_review_status
  hrv_repository_id :: "uuid option"
  hrv_requested_by_agent_id :: "uuid option"
  hrv_resolved_by_human_id :: "uuid option"
  hrv_created_at :: datetime
  hrv_updated_at :: datetime

record project_checkpoint_decision_view =
  cdv_id :: uuid
  cdv_review_request_id :: uuid
  cdv_project_id :: uuid
  cdv_checkpoint :: project_checkpoint
  cdv_human_principal_id :: uuid
  cdv_decision :: checkpoint_decision_kind
  cdv_reason :: string
  cdv_repository_id :: "uuid option"
  cdv_evidence_version :: string
  cdv_decided_at :: datetime

record human_project_grant_view =
  hgv_human_principal_id :: uuid
  hgv_role :: human_project_role
  hgv_code_access :: code_access_level
  hgv_control_actions :: "human_control_action set"
  hgv_repository_id :: "uuid option"
  hgv_path_patterns :: "string list"

record repository_team_view =
  rtv_id :: uuid
  rtv_project_id :: uuid
  rtv_repository_id :: uuid
  rtv_leader_agent_id :: uuid
  rtv_worker_agent_ids :: "uuid list"
  rtv_agentteams_team_name :: string
  rtv_runtime_status :: project_team_runtime_status
  rtv_room_id :: "string option"
  rtv_leader_room_id :: "string option"
  rtv_decomposition_mode :: team_decomposition_mode

record project_agent_topology_view =
  ptv_id :: uuid
  ptv_organization_id :: uuid
  ptv_project_id :: uuid
  ptv_organization_leader_id :: uuid
  ptv_repository_teams :: "repository_team_view list"
  ptv_execution_mode :: project_execution_mode
  ptv_required_checkpoints :: "project_checkpoint set"
  ptv_human_grants :: "human_project_grant_view list"
  ptv_operational_status :: project_operational_status

record checkpoint_gate_decision =
  cgd_allowed :: bool
  cgd_reason :: string

subsection \<open>The fallback gate\<close>

text \<open>The operational status as the gates read it: a project that is stopped is denied.\<close>

definition denied :: "string \<Rightarrow> checkpoint_gate_decision" where
  "denied reason = \<lparr>cgd_allowed = False, cgd_reason = reason\<rparr>"

definition permitted :: "string \<Rightarrow> checkpoint_gate_decision" where
  "permitted reason = \<lparr>cgd_allowed = True, cgd_reason = reason\<rparr>"

text \<open>
  \<open>TopologyAwareCheckpointFallback\<close>: \<open>operational_gate\<close> on the topology its reader returned;
  \<open>evaluate\<close> discards its other arguments and is the same gate.
\<close>

definition fallback_operational_gate :: "project_agent_topology_view option \<Rightarrow> checkpoint_gate_decision" where
  "fallback_operational_gate found =
     (case found of
        None \<Rightarrow> denied ''project_topology_missing''
      | Some topology \<Rightarrow>
          if ptv_operational_status topology = PO_PAUSED then denied ''project_paused''
          else if ptv_operational_status topology = PO_CANCELLED then denied ''project_cancelled''
          else if ptv_execution_mode topology \<noteq> PX_AUTO then denied ''checkpoint_gateway_not_configured''
          else permitted ''automatic_project'')"

lemma gate_simps [simp]:
  "cgd_allowed (denied r) = False" "cgd_reason (denied r) = r"
  "cgd_allowed (permitted r) = True" "cgd_reason (permitted r) = r"
  "denied r \<noteq> permitted r'" "permitted r' \<noteq> denied r"
  "denied r = denied q \<longleftrightarrow> r = q" "permitted r = permitted q \<longleftrightarrow> r = q"
  by (auto simp: denied_def permitted_def)

lemma fallback_gate_active_auto:
  "cgd_allowed (fallback_operational_gate found) \<longleftrightarrow>
     (\<exists>t. found = Some t \<and> ptv_operational_status t = PO_ACTIVE \<and> ptv_execution_mode t = PX_AUTO)"
  by (cases found; cases "ptv_operational_status (the found)") (auto simp: fallback_operational_gate_def)

end
