(* ===== verification/Project_Topology.thy ===== *)
theory Project_Topology
  imports Project_Contracts Py_Parse Tables
begin

text \<open>
  The agent topology of a project (\<open>modules/project/domain.py\<close> and
  \<open>supervision_policy.py\<close>): one team per repository, the supervision policy and the people it
  grants control to; its views; and the tables it is kept in (\<open>infrastructure.py\<close>). Building a
  frozen dataclass runs its \<open>__post_init__\<close>, also when \<open>replace\<close> copies one: a constructor is
  a function that returns the value or the violation.
\<close>

definition topology_violation :: "string \<Rightarrow> exc" where
  "topology_violation m = ModuleError ''ProjectTopologyViolation'' m"

definition topology_conflict :: "string \<Rightarrow> exc" where
  "topology_conflict m = ModuleError ''ProjectTopologyConflict'' m"

text \<open>The first broken rule of a list of rules.\<close>

fun first_violation :: "(bool \<times> string) list \<Rightarrow> unit result" where
  "first_violation [] = Inr ()"
| "first_violation ((broken, m) # rules) =
     (if broken then Inl (topology_violation m) else first_violation rules)"

lemma first_violation_Inr_iff: "first_violation rules = Inr u \<longleftrightarrow> (\<forall>r \<in> set rules. \<not> fst r)"
  by (induction rules rule: first_violation.induct) auto

subsection \<open>Grants\<close>

record human_project_grant =
  hg_human_principal_id :: uuid
  hg_role :: human_project_role
  hg_code_access :: code_access_level
  hg_control_actions :: "human_control_action set"
  hg_repository_id :: "uuid option"
  hg_path_patterns :: "string list"

definition grant_rules :: "human_project_grant \<Rightarrow> (bool \<times> string) list" where
  "grant_rules g =
     [(hg_role g = HR_REPOSITORY_SUPERVISOR \<and> hg_repository_id g = None,
         ''repository supervisor requires repository scope''),
      (hg_role g \<noteq> HR_REPOSITORY_SUPERVISOR \<and> hg_repository_id g \<noteq> None,
         ''only repository supervisor may have repository scope''),
      (hg_path_patterns g \<noteq> [] \<and> hg_repository_id g = None, ''path scope requires repository scope''),
      (hg_control_actions g = {}, ''human grant requires control actions'')]"

definition make_grant :: "human_project_grant \<Rightarrow> human_project_grant result" where
  "make_grant g = rbind (first_violation (grant_rules g)) (\<lambda>_. Inr g)"

definition grant_to_view :: "human_project_grant \<Rightarrow> human_project_grant_view" where
  "grant_to_view g = \<lparr>hgv_human_principal_id = hg_human_principal_id g, hgv_role = hg_role g,
     hgv_code_access = hg_code_access g, hgv_control_actions = hg_control_actions g,
     hgv_repository_id = hg_repository_id g, hgv_path_patterns = hg_path_patterns g\<rparr>"

definition valid_grant :: "human_project_grant \<Rightarrow> bool" where
  "valid_grant g \<longleftrightarrow> (\<forall>r \<in> set (grant_rules g). \<not> fst r)"

lemma make_grant_Inr_iff: "make_grant g = Inr h \<longleftrightarrow> h = g \<and> valid_grant g"
  by (auto simp: make_grant_def rbind_eq_Inr_iff first_violation_Inr_iff valid_grant_def)

subsection \<open>The supervision policy\<close>

definition policy_rules ::
    "project_execution_mode \<Rightarrow> project_checkpoint set \<Rightarrow> human_project_grant list \<Rightarrow> (bool \<times> string) list" where
  "policy_rules execution_mode required_checkpoints human_grants =
     [(execution_mode = PX_AUTO \<and> required_checkpoints \<noteq> {},
         ''automatic projects cannot require human checkpoints''),
      (execution_mode \<noteq> PX_AUTO \<and> human_grants = [], ''human-controlled projects require a human grant''),
      (execution_mode \<noteq> PX_AUTO \<and> required_checkpoints = {}, ''human-controlled projects require checkpoints''),
      (execution_mode = PX_MANUAL_CONTROLLED \<and> required_checkpoints \<noteq> set project_checkpoint_members,
         ''manual-controlled projects require every human checkpoint''),
      (\<not> distinct (map (\<lambda>g. (hg_human_principal_id g, hg_repository_id g)) human_grants),
         ''duplicate human grant scope'')]"

definition assert_supervision_policy ::
    "project_execution_mode \<Rightarrow> project_checkpoint set \<Rightarrow> human_project_grant list \<Rightarrow> unit result" where
  "assert_supervision_policy execution_mode required_checkpoints human_grants =
     first_violation (policy_rules execution_mode required_checkpoints human_grants)"

record topology_policy_draft =
  tpd_project_id :: uuid
  tpd_created_by :: uuid
  tpd_execution_mode :: project_execution_mode
  tpd_required_checkpoints :: "project_checkpoint set"
  tpd_human_grants :: "human_project_grant list"
  tpd_created_at :: datetime
  tpd_updated_at :: datetime

definition make_draft :: "topology_policy_draft \<Rightarrow> topology_policy_draft result" where
  "make_draft d =
     rbind (assert_supervision_policy (tpd_execution_mode d) (tpd_required_checkpoints d) (tpd_human_grants d))
       (\<lambda>_. Inr d)"

subsection \<open>Repository teams\<close>

record repository_team =
  rt_project_id :: uuid
  rt_repository_id :: uuid
  rt_leader_agent_id :: uuid
  rt_worker_agent_ids :: "uuid list"
  rt_id :: uuid
  rt_agentteams_team_name :: "string option"
  rt_runtime_status :: project_team_runtime_status
  rt_room_id :: "string option"
  rt_leader_room_id :: "string option"
  rt_decomposition_mode :: team_decomposition_mode

definition agentteams_name_prefix :: string where
  "agentteams_name_prefix = ''repomesh''"

definition canonical_agentteams_team_name :: "uuid \<Rightarrow> string" where
  "canonical_agentteams_team_name repository_id =
     agentteams_name_prefix @ ''-team-'' @ hexn 32 (unat repository_id)"

definition team_rules :: "repository_team \<Rightarrow> (bool \<times> string) list" where
  "team_rules t =
     [(rt_worker_agent_ids t = [], ''a repository team requires at least one worker''),
      (\<not> distinct (rt_worker_agent_ids t), ''repository team workers must be unique''),
      (rt_leader_agent_id t \<in> set (rt_worker_agent_ids t),
         ''repository leader cannot also be a team worker'')]"

definition make_team :: "repository_team \<Rightarrow> repository_team result" where
  "make_team t = rbind (first_violation (team_rules t)) (\<lambda>_. Inr
     (if rt_agentteams_team_name t = None
      then t\<lparr>rt_agentteams_team_name := Some (canonical_agentteams_team_name (rt_repository_id t))\<rparr>
      else t))"

text \<open>\<open>name or self.name\<close>: an empty name is not a name.\<close>

definition rt_with_runtime ::
    "project_team_runtime_status \<Rightarrow> string option \<Rightarrow> string option \<Rightarrow> string option
     \<Rightarrow> repository_team \<Rightarrow> repository_team result" where
  "rt_with_runtime status room_id leader_room_id agentteams_team_name t =
     make_team (t\<lparr>rt_runtime_status := status, rt_room_id := room_id, rt_leader_room_id := leader_room_id,
       rt_agentteams_team_name :=
         (case agentteams_team_name of None \<Rightarrow> rt_agentteams_team_name t
          | Some n \<Rightarrow> if n = [] then rt_agentteams_team_name t else Some n)\<rparr>)"

definition rt_with_adopted_leader :: "bool \<Rightarrow> repository_team \<Rightarrow> repository_team result" where
  "rt_with_adopted_leader external t =
     (if \<not> external \<or> rt_decomposition_mode t = DM_LEADER then Inr t
      else make_team (t\<lparr>rt_decomposition_mode := DM_LEADER\<rparr>))"

definition rt_to_view :: "repository_team \<Rightarrow> repository_team_view" where
  "rt_to_view t = \<lparr>rtv_id = rt_id t, rtv_project_id = rt_project_id t,
     rtv_repository_id = rt_repository_id t, rtv_leader_agent_id = rt_leader_agent_id t,
     rtv_worker_agent_ids = rt_worker_agent_ids t,
     rtv_agentteams_team_name = (case rt_agentteams_team_name t of None \<Rightarrow> [] | Some n \<Rightarrow> n),
     rtv_runtime_status = rt_runtime_status t, rtv_room_id = rt_room_id t,
     rtv_leader_room_id = rt_leader_room_id t, rtv_decomposition_mode = rt_decomposition_mode t\<rparr>"

definition valid_team :: "repository_team \<Rightarrow> bool" where
  "valid_team t \<longleftrightarrow> (\<forall>r \<in> set (team_rules t). \<not> fst r) \<and> rt_agentteams_team_name t \<noteq> None"

lemma make_team_valid: "valid_team t \<Longrightarrow> make_team t = Inr t"
  by (simp add: make_team_def valid_team_def rbind_eq_Inr_iff first_violation_Inr_iff)

lemma make_team_Inr: "make_team t = Inr u \<Longrightarrow> valid_team u"
  by (auto simp: make_team_def valid_team_def rbind_eq_Inr_iff first_violation_Inr_iff team_rules_def
      split: if_splits)

lemma valid_team_simps [simp]:
  "valid_team (t\<lparr>rt_runtime_status := s\<rparr>) = valid_team t"
  "valid_team (t\<lparr>rt_room_id := i\<rparr>) = valid_team t"
  "valid_team (t\<lparr>rt_leader_room_id := i\<rparr>) = valid_team t"
  "valid_team (t\<lparr>rt_decomposition_mode := m\<rparr>) = valid_team t"
  by (simp_all add: valid_team_def team_rules_def)

lemma valid_team_name: "valid_team t \<Longrightarrow> n \<noteq> None \<Longrightarrow> valid_team (t\<lparr>rt_agentteams_team_name := n\<rparr>)"
  by (simp add: valid_team_def team_rules_def)

lemma rt_with_adopted_leader_valid: "valid_team t \<Longrightarrow>
    rt_with_adopted_leader external t = Inr (if external then t\<lparr>rt_decomposition_mode := DM_LEADER\<rparr> else t)"
proof (cases "rt_decomposition_mode t = DM_LEADER")
  case True
  then have "t\<lparr>rt_decomposition_mode := DM_LEADER\<rparr> = t" by (cases t) simp
  with True show ?thesis by (simp add: rt_with_adopted_leader_def)
qed (simp add: rt_with_adopted_leader_def make_team_valid)

lemma rt_with_runtime_valid:
  assumes "valid_team t"
  shows "\<exists>u. rt_with_runtime status room_id leader_room_id name t = Inr u \<and> valid_team u \<and>
    rt_decomposition_mode u = rt_decomposition_mode t \<and> rt_repository_id u = rt_repository_id t"
proof -
  have "rt_agentteams_team_name t \<noteq> None" using assms by (simp add: valid_team_def)
  then show ?thesis
    using assms unfolding rt_with_runtime_def
    by (subst make_team_valid) (auto intro!: valid_team_name split: option.splits)
qed

subsection \<open>The topology\<close>

record project_agent_topology =
  pt_organization_id :: uuid
  pt_project_id :: uuid
  pt_organization_leader_id :: uuid
  pt_repository_teams :: "repository_team list"
  pt_execution_mode :: project_execution_mode
  pt_required_checkpoints :: "project_checkpoint set"
  pt_human_grants :: "human_project_grant list"
  pt_operational_status :: project_operational_status
  pt_id :: uuid

definition team_agents :: "repository_team \<Rightarrow> uuid list" where
  "team_agents t = rt_leader_agent_id t # rt_worker_agent_ids t"

definition team_set_rules :: "uuid \<Rightarrow> repository_team list \<Rightarrow> (bool \<times> string) list" where
  "team_set_rules project_id teams =
     [(teams = [], ''a project topology requires repository teams''),
      (\<not> distinct (map rt_repository_id teams), ''a project can have only one team per repository''),
      (\<not> distinct (concat (map team_agents teams)), ''an agent cannot join multiple repository teams''),
      (\<exists>t \<in> set teams. rt_project_id t \<noteq> project_id, ''repository team project must match topology project'')]"

definition grant_scope_rule :: "project_agent_topology \<Rightarrow> bool \<times> string" where
  "grant_scope_rule p =
     (\<exists>g \<in> set (pt_human_grants p). case hg_repository_id g of None \<Rightarrow> False
        | Some r \<Rightarrow> r \<notin> rt_repository_id ` set (pt_repository_teams p),
      ''human grant references an unknown project repository'')"

definition topology_rules :: "project_agent_topology \<Rightarrow> (bool \<times> string) list" where
  "topology_rules p =
     team_set_rules (pt_project_id p) (pt_repository_teams p) @
     policy_rules (pt_execution_mode p) (pt_required_checkpoints p) (pt_human_grants p) @
     [grant_scope_rule p]"

definition make_topology :: "project_agent_topology \<Rightarrow> project_agent_topology result" where
  "make_topology p = rbind (first_violation (topology_rules p)) (\<lambda>_. Inr p)"

definition pt_to_view :: "project_agent_topology \<Rightarrow> project_agent_topology_view" where
  "pt_to_view p = \<lparr>ptv_id = pt_id p, ptv_organization_id = pt_organization_id p,
     ptv_project_id = pt_project_id p, ptv_organization_leader_id = pt_organization_leader_id p,
     ptv_repository_teams = map rt_to_view (pt_repository_teams p),
     ptv_execution_mode = pt_execution_mode p, ptv_required_checkpoints = pt_required_checkpoints p,
     ptv_human_grants = map grant_to_view (pt_human_grants p),
     ptv_operational_status = pt_operational_status p\<rparr>"

definition pt_with_operational_status ::
    "project_operational_status \<Rightarrow> project_agent_topology \<Rightarrow> project_agent_topology result" where
  "pt_with_operational_status status p =
     (if pt_operational_status p = PO_CANCELLED \<and> status \<noteq> PO_CANCELLED
      then Inl (topology_violation ''cancelled project cannot be resumed'')
      else make_topology (p\<lparr>pt_operational_status := status\<rparr>))"

definition valid_topology :: "project_agent_topology \<Rightarrow> bool" where
  "valid_topology p \<longleftrightarrow> (\<forall>r \<in> set (topology_rules p). \<not> fst r) \<and>
     (\<forall>t \<in> set (pt_repository_teams p). valid_team t) \<and> (\<forall>g \<in> set (pt_human_grants p). valid_grant g)"

lemma make_topology_valid: "valid_topology p \<Longrightarrow> make_topology p = Inr p"
  by (simp add: make_topology_def valid_topology_def rbind_eq_Inr_iff first_violation_Inr_iff)

lemma valid_topology_status [simp]: "valid_topology (p\<lparr>pt_operational_status := s\<rparr>) = valid_topology p"
  by (simp add: valid_topology_def topology_rules_def grant_scope_rule_def cong: option.case_cong)

lemma pt_with_operational_status_Inr_iff:
  assumes "valid_topology p"
  shows "pt_with_operational_status s p = Inr q \<longleftrightarrow>
    q = p\<lparr>pt_operational_status := s\<rparr> \<and> (pt_operational_status p = PO_CANCELLED \<longrightarrow> s = PO_CANCELLED)"
  using assms by (auto simp: pt_with_operational_status_def make_topology_valid)

end
