(* ===== verification/Project_Tables.thy ===== *)
theory Project_Tables
  imports Project_Topology "HOL-Library.Multiset"
begin

text \<open>
  Where topologies and policy drafts are kept (\<open>modules/project/infrastructure.py\<close>): the tables
  of the Postgres stores, the JSON their grants are written to and read back from, and the
  in-memory topology store. A query without \<open>ORDER BY\<close> is taken to return the rows in insertion
  order. Column widths are not modelled.
\<close>

subsection \<open>Grants as documents\<close>

text \<open>\<open>sorted(item.value for item in items)\<close>.\<close>

definition sorted_values :: "('e \<Rightarrow> string) \<Rightarrow> 'e list \<Rightarrow> 'e set \<Rightarrow> string list" where
  "sorted_values val members items = sort (map val (filter (\<lambda>x. x \<in> items) members))"

definition enum_of :: "string \<Rightarrow> ('e \<Rightarrow> string) \<Rightarrow> 'e list \<Rightarrow> string \<Rightarrow> 'e result" where
  "enum_of name val members s =
     (case enum_parse val members s of
        None \<Rightarrow> Inl (ValueError (py_repr s @ '' is not a valid '' @ name)) | Some x \<Rightarrow> Inr x)"

definition action_of :: "json \<Rightarrow> human_control_action result" where
  "action_of j = enum_of ''HumanControlAction'' human_control_action_value human_control_action_members (py_str j)"

definition grant_payload :: "human_project_grant \<Rightarrow> json" where
  "grant_payload g = JObject
     [(''human_principal_id'', uuid_json (hg_human_principal_id g)),
      (''role'', JStr (human_project_role_value (hg_role g))),
      (''code_access'', JStr (code_access_level_value (hg_code_access g))),
      (''control_actions'', JList (map JStr
         (sorted_values human_control_action_value human_control_action_members (hg_control_actions g)))),
      (''repository_id'', opt_json uuid_json (hg_repository_id g)),
      (''path_patterns'', JList (map JStr (hg_path_patterns g)))]"

definition grant_from_payload :: "json \<Rightarrow> human_project_grant result" where
  "grant_from_payload j =
     rbind (item_uuid j ''human_principal_id'') (\<lambda>human.
     rbind (item_enum ''HumanProjectRole'' human_project_role_value human_project_role_members j ''role'') (\<lambda>role.
     rbind (item_enum ''CodeAccessLevel'' code_access_level_value code_access_level_members j ''code_access'') (\<lambda>access.
     rbind (item_list action_of j ''control_actions'') (\<lambda>actions.
     rbind (item_opt py_uuid j ''repository_id'') (\<lambda>repository.
     rbind (item_list (\<lambda>v. Inr (py_str v)) j ''path_patterns'') (\<lambda>patterns.
     make_grant \<lparr>hg_human_principal_id = human, hg_role = role, hg_code_access = access,
       hg_control_actions = set actions, hg_repository_id = repository, hg_path_patterns = patterns\<rparr>))))))"

definition grant_payloads :: "human_project_grant list \<Rightarrow> json list" where
  "grant_payloads gs = map grant_payload gs"

definition grants_from_payloads :: "json list \<Rightarrow> human_project_grant list result" where
  "grants_from_payloads js = map_result grant_from_payload js"

lemma enum_of_value: "str_enum val members \<Longrightarrow> enum_of name val members (val x) = Inr x"
  by (simp add: enum_of_def str_enum.parse_value)

lemma read_values:
  assumes "str_enum val members"
  shows "\<exists>xs. map_result (enum_of name val members) (sorted_values val members A) = Inr xs \<and> set xs = A"
proof -
  have stored: "set (sorted_values val members A) = val ` A"
    using str_enum.member [OF assms] by (auto simp: sorted_values_def)
  have "\<exists>xs. map_result (enum_of name val members) vs = Inr xs \<and> val ` set xs = set vs"
    if "set vs \<subseteq> val ` A" for vs
    using that by (induction vs) (auto simp: enum_of_value [OF assms])
  then obtain xs where xs: "map_result (enum_of name val members) (sorted_values val members A) = Inr xs"
    "val ` set xs = val ` A"
    using stored by (metis subset_refl)
  then have "set xs = A"
    using str_enum.value_inj [OF assms] by (simp add: inj_image_eq_iff inj_def)
  with xs(1) show ?thesis by blast
qed

lemma map_result_JStr: "map_result (\<lambda>j. f (py_str j)) (map JStr vs) = map_result f vs"
  by (induction vs) simp_all

interpretation grant_codec: storage_codec grant_payload grant_from_payload valid_grant
proof
  fix g assume "valid_grant g"
  define vs where
    "vs = sorted_values human_control_action_value human_control_action_members (hg_control_actions g)"
  obtain actions where actions: "map_result action_of (map JStr vs) = Inr actions" "set actions = hg_control_actions g"
    using read_values [OF HC.str_enum_axioms, of "''HumanControlAction''" "hg_control_actions g"]
    unfolding action_of_def map_result_JStr vs_def by blast
  have eta: "\<lparr>hg_human_principal_id = hg_human_principal_id g, hg_role = hg_role g,
      hg_code_access = hg_code_access g, hg_control_actions = hg_control_actions g,
      hg_repository_id = hg_repository_id g, hg_path_patterns = hg_path_patterns g\<rparr> = g"
    by (cases g) simp
  have patterns: "map_result (\<lambda>v. Inr (py_str v)) (map JStr ps) = Inr ps" for ps
    by (induction ps) simp_all
  show "grant_from_payload (grant_payload g) = Inr g"
    using \<open>valid_grant g\<close>
    unfolding grant_from_payload_def grant_payload_def vs_def [symmetric]
    by (simp add: read_back read_enum [OF HR.str_enum_axioms] read_enum [OF CL.str_enum_axioms]
        item_list_def actions patterns eta make_grant_Inr_iff)
qed

lemma grants_round_trip: "(\<And>g. g \<in> set gs \<Longrightarrow> valid_grant g) \<Longrightarrow> grants_from_payloads (grant_payloads gs) = Inr gs"
  by (simp add: grants_from_payloads_def grant_payloads_def grant_codec.map_dec_enc)

definition checkpoint_values :: "project_checkpoint set \<Rightarrow> string list" where
  "checkpoint_values = sorted_values project_checkpoint_value project_checkpoint_members"

definition checkpoints_from :: "string list \<Rightarrow> project_checkpoint set result" where
  "checkpoints_from vs =
     rbind (map_result (enum_of ''ProjectCheckpoint'' project_checkpoint_value project_checkpoint_members) vs)
       (\<lambda>xs. Inr (set xs))"

lemma checkpoints_round_trip [simp]: "checkpoints_from (checkpoint_values A) = Inr A"
  using read_values [OF PCP.str_enum_axioms, of "''ProjectCheckpoint''" A]
  by (auto simp: checkpoints_from_def checkpoint_values_def)

subsection \<open>Rows of a topology\<close>

record topology_row =
  tr_id :: uuid
  tr_organization_id :: uuid
  tr_project_id :: uuid
  tr_organization_leader_id :: uuid
  tr_idempotency_key :: string
  tr_request_fingerprint :: string
  tr_execution_mode :: string
  tr_operational_status :: string
  tr_required_checkpoints :: "string list"
  tr_human_grants :: "json list"

record team_row =
  tm_id :: uuid
  tm_topology_id :: uuid
  tm_project_id :: uuid
  tm_repository_id :: uuid
  tm_leader_agent_id :: uuid
  tm_worker_agent_ids :: "string list"
  tm_agentteams_team_name :: "string option"
  tm_runtime_status :: string
  tm_room_id :: "string option"
  tm_leader_room_id :: "string option"
  tm_decomposition_mode :: "string option"

definition topology_record :: "project_agent_topology \<Rightarrow> string \<Rightarrow> string \<Rightarrow> topology_row" where
  "topology_record p idempotency_key request_fingerprint =
     \<lparr>tr_id = pt_id p, tr_organization_id = pt_organization_id p, tr_project_id = pt_project_id p,
      tr_organization_leader_id = pt_organization_leader_id p, tr_idempotency_key = idempotency_key,
      tr_request_fingerprint = request_fingerprint,
      tr_execution_mode = project_execution_mode_value (pt_execution_mode p),
      tr_operational_status = project_operational_status_value (pt_operational_status p),
      tr_required_checkpoints = checkpoint_values (pt_required_checkpoints p),
      tr_human_grants = grant_payloads (pt_human_grants p)\<rparr>"

definition team_record :: "project_agent_topology \<Rightarrow> repository_team \<Rightarrow> team_row" where
  "team_record p t =
     \<lparr>tm_id = rt_id t, tm_topology_id = pt_id p, tm_project_id = pt_project_id p,
      tm_repository_id = rt_repository_id t, tm_leader_agent_id = rt_leader_agent_id t,
      tm_worker_agent_ids = map uuid_str (rt_worker_agent_ids t),
      tm_agentteams_team_name = rt_agentteams_team_name t,
      tm_runtime_status = project_team_runtime_status_value (rt_runtime_status t),
      tm_room_id = rt_room_id t, tm_leader_room_id = rt_leader_room_id t,
      tm_decomposition_mode = Some (team_decomposition_mode_value (rt_decomposition_mode t))\<rparr>"

definition team_records :: "project_agent_topology \<Rightarrow> team_row list" where
  "team_records p = map (team_record p) (pt_repository_teams p)"

text \<open>\<open>_to_domain\<close>; a missing or empty mode is a server team.\<close>

definition team_to_domain :: "team_row \<Rightarrow> repository_team result" where
  "team_to_domain r =
     rbind (map_result py_uuid (tm_worker_agent_ids r)) (\<lambda>workers.
     rbind (enum_of ''ProjectTeamRuntimeStatus'' project_team_runtime_status_value
       project_team_runtime_status_members (tm_runtime_status r)) (\<lambda>status.
     rbind (enum_of ''TeamDecompositionMode'' team_decomposition_mode_value team_decomposition_mode_members
       (case tm_decomposition_mode r of None \<Rightarrow> team_decomposition_mode_value DM_SERVER
        | Some m \<Rightarrow> if m = [] then team_decomposition_mode_value DM_SERVER else m)) (\<lambda>mode.
     make_team \<lparr>rt_project_id = tm_project_id r, rt_repository_id = tm_repository_id r,
       rt_leader_agent_id = tm_leader_agent_id r, rt_worker_agent_ids = workers, rt_id = tm_id r,
       rt_agentteams_team_name = tm_agentteams_team_name r, rt_runtime_status = status,
       rt_room_id = tm_room_id r, rt_leader_room_id = tm_leader_room_id r,
       rt_decomposition_mode = mode\<rparr>)))"

definition topology_to_domain :: "topology_row \<Rightarrow> team_row list \<Rightarrow> project_agent_topology result" where
  "topology_to_domain r teams =
     rbind (enum_of ''ProjectExecutionMode'' project_execution_mode_value project_execution_mode_members
       (tr_execution_mode r)) (\<lambda>mode.
     rbind (enum_of ''ProjectOperationalStatus'' project_operational_status_value
       project_operational_status_members (tr_operational_status r)) (\<lambda>status.
     rbind (checkpoints_from (tr_required_checkpoints r)) (\<lambda>checkpoints.
     rbind (grants_from_payloads (tr_human_grants r)) (\<lambda>grants.
     rbind (map_result team_to_domain teams) (\<lambda>domain_teams.
     make_topology \<lparr>pt_organization_id = tr_organization_id r, pt_project_id = tr_project_id r,
       pt_organization_leader_id = tr_organization_leader_id r, pt_repository_teams = domain_teams,
       pt_execution_mode = mode, pt_required_checkpoints = checkpoints, pt_human_grants = grants,
       pt_operational_status = status, pt_id = tr_id r\<rparr>)))))"

lemma read_workers [simp]: "map_result py_uuid (map uuid_str us) = Inr us"
  by (induction us) simp_all

lemma map_result_comp: "map_result f (map g xs) = map_result (\<lambda>x. f (g x)) xs"
  by (induction xs) simp_all

lemma team_round_trip:
  assumes "valid_team t" and "rt_project_id t = pt_project_id p"
  shows "team_to_domain (team_record p t) = Inr t"
proof -
  have "team_decomposition_mode_value m \<noteq> []" for m by (cases m) simp_all
  moreover have eta: "\<lparr>rt_project_id = rt_project_id t, rt_repository_id = rt_repository_id t,
      rt_leader_agent_id = rt_leader_agent_id t, rt_worker_agent_ids = rt_worker_agent_ids t,
      rt_id = rt_id t, rt_agentteams_team_name = rt_agentteams_team_name t,
      rt_runtime_status = rt_runtime_status t, rt_room_id = rt_room_id t,
      rt_leader_room_id = rt_leader_room_id t, rt_decomposition_mode = rt_decomposition_mode t\<rparr> = t"
    by (cases t) simp
  ultimately show ?thesis
    by (simp add: eta team_to_domain_def team_record_def enum_of_value [OF PR.str_enum_axioms]
        enum_of_value [OF DM.str_enum_axioms] make_team_valid [OF assms(1)] assms(2) [symmetric])
qed

text \<open>
  A stored topology is read back as it was written, with its teams in the order the query
  returns them, which is by repository.
\<close>

definition by_repository :: "project_agent_topology \<Rightarrow> project_agent_topology" where
  "by_repository p = p\<lparr>pt_repository_teams := sort_key rt_repository_id (pt_repository_teams p)\<rparr>"

lemma distinct_concat_mset:
  "mset xs = mset ys \<Longrightarrow> distinct (concat (map f xs)) = distinct (concat (map f ys))"
proof -
  assume "mset xs = mset ys"
  then have "mset (concat (map f xs)) = mset (concat (map f ys))"
    by (simp add: mset_concat sum_mset_sum_list [symmetric])
  then show ?thesis by (metis mset_eq_imp_distinct_iff)
qed

lemma valid_by_repository [simp]: "valid_topology (by_repository p) = valid_topology p"
proof -
  have "distinct (map f (sort_key g xs)) = distinct (map f xs)" for f :: "repository_team \<Rightarrow> uuid"
      and g :: "repository_team \<Rightarrow> uuid" and xs
    by (metis distinct_map mset_eq_imp_distinct_iff mset_sort set_sort)
  moreover have "distinct (concat (map f (sort_key g xs))) = distinct (concat (map f xs))"
    for f :: "repository_team \<Rightarrow> uuid list" and g :: "repository_team \<Rightarrow> uuid" and xs
    by (rule distinct_concat_mset) simp
  moreover have "sort_key g xs = [] \<longleftrightarrow> xs = []" for g :: "repository_team \<Rightarrow> uuid" and xs
    by (metis set_empty set_sort)
  ultimately show ?thesis
    by (simp add: valid_topology_def topology_rules_def team_set_rules_def grant_scope_rule_def by_repository_def
        cong: option.case_cong)
qed

lemma topology_round_trip:
  assumes "valid_topology p"
  shows "topology_to_domain (topology_record p key fingerprint)
     (sort_key tm_repository_id (team_records p)) = Inr (by_repository p)"
proof -
  have teams: "sort_key tm_repository_id (team_records p) =
      map (team_record p) (sort_key rt_repository_id (pt_repository_teams p))"
    unfolding team_records_def by (simp add: sort_key_map comp_def team_record_def)
  have "team_to_domain (team_record p t) = Inr t" if "t \<in> set (pt_repository_teams p)" for t
    using that assms
    by (intro team_round_trip) (auto simp: valid_topology_def topology_rules_def team_set_rules_def)
  then have read: "map_result team_to_domain
      (map (team_record p) (sort_key rt_repository_id (pt_repository_teams p))) =
    Inr (sort_key rt_repository_id (pt_repository_teams p))"
    using map_result_total [of "sort_key rt_repository_id (pt_repository_teams p)"
        "\<lambda>t. team_to_domain (team_record p t)" "\<lambda>t. t"]
    by (simp add: map_result_comp)
  have grants: "grants_from_payloads (grant_payloads (pt_human_grants p)) = Inr (pt_human_grants p)"
    using assms by (intro grants_round_trip) (simp add: valid_topology_def)
  have "\<lparr>pt_organization_id = pt_organization_id p, pt_project_id = pt_project_id p,
      pt_organization_leader_id = pt_organization_leader_id p,
      pt_repository_teams = sort_key rt_repository_id (pt_repository_teams p),
      pt_execution_mode = pt_execution_mode p, pt_required_checkpoints = pt_required_checkpoints p,
      pt_human_grants = pt_human_grants p, pt_operational_status = pt_operational_status p,
      pt_id = pt_id p\<rparr> = by_repository p"
    by (cases p) (simp add: by_repository_def)
  then show ?thesis
    using make_topology_valid [of "by_repository p"] assms
    by (simp add: topology_to_domain_def topology_record_def teams read grants
        enum_of_value [OF PX.str_enum_axioms] enum_of_value [OF PO.str_enum_axioms])
qed

subsection \<open>The tables\<close>

record draft_row =
  dr_project_id :: uuid
  dr_execution_mode :: string
  dr_required_checkpoints :: "string list"
  dr_human_grants :: "json list"
  dr_created_by :: uuid
  dr_created_at :: datetime
  dr_updated_at :: datetime

record topology_tables =
  tt_topologies :: "topology_row list"
  tt_teams :: "team_row list"
  tt_drafts :: "draft_row list"

definition integrity_error :: exc where
  "integrity_error = ModuleError ''IntegrityError'' []"

text \<open>The unique constraints on teams: the id, and in a project the repository and the Team name.\<close>

definition teams_unique :: "team_row list \<Rightarrow> bool" where
  "teams_unique teams \<longleftrightarrow> distinct (map tm_id teams) \<and>
     distinct (map (\<lambda>r. (tm_project_id r, tm_repository_id r)) teams) \<and>
     distinct (map (\<lambda>r. (tm_project_id r, tm_agentteams_team_name r)) teams)"

definition teams_of :: "uuid \<Rightarrow> team_row list \<Rightarrow> team_row list" where
  "teams_of topology_id teams = filter (\<lambda>r. tm_topology_id r = topology_id) teams"

definition read_topology :: "topology_row \<Rightarrow> topology_tables \<Rightarrow> project_agent_topology result" where
  "read_topology r db = topology_to_domain r (sort_key tm_repository_id (teams_of (tr_id r) (tt_teams db)))"

definition pg_topology_add ::
    "project_agent_topology \<Rightarrow> string \<Rightarrow> string \<Rightarrow> (topology_tables, unit) proc" where
  "pg_topology_add p idempotency_key request_fingerprint db =
     (if (\<exists>r \<in> set (tt_topologies db). tr_id r = pt_id p \<or> tr_project_id r = pt_project_id p \<or>
            tr_idempotency_key r = idempotency_key) \<or> \<not> teams_unique (tt_teams db @ team_records p)
      then (Inl (topology_conflict ''project topology already exists''), db)
      else (Inr (), db\<lparr>tt_topologies := tt_topologies db @ [topology_record p idempotency_key request_fingerprint],
                       tt_teams := tt_teams db @ team_records p\<rparr>))"

definition pg_topology_get :: "uuid \<Rightarrow> (topology_tables, project_agent_topology option) proc" where
  "pg_topology_get project_id db =
     (case find (\<lambda>r. tr_project_id r = project_id) (tt_topologies db) of
        None \<Rightarrow> (Inr None, db)
      | Some r \<Rightarrow> (rbind (read_topology r db) (\<lambda>p. Inr (Some p)), db))"

definition pg_topology_get_view :: "uuid \<Rightarrow> (topology_tables, project_agent_topology_view option) proc" where
  "pg_topology_get_view project_id =
     pbind (pg_topology_get project_id) (\<lambda>found. preturn (map_option pt_to_view found))"

definition pg_topology_get_by_idempotency_key ::
    "string \<Rightarrow> (topology_tables, (project_agent_topology \<times> string) option) proc" where
  "pg_topology_get_by_idempotency_key key db =
     (case find (\<lambda>r. tr_idempotency_key r = key) (tt_topologies db) of
        None \<Rightarrow> (Inr None, db)
      | Some r \<Rightarrow> (rbind (read_topology r db) (\<lambda>p. Inr (Some (p, tr_request_fingerprint r))), db))"

text \<open>\<open>list_views\<close>: the ids in order, then one read per id; a topology deleted meanwhile is left out.\<close>

fun views_of :: "uuid list \<Rightarrow> (topology_tables, project_agent_topology_view list) proc" where
  "views_of [] = preturn []"
| "views_of (i # is) =
     pbind (pg_topology_get_view i) (\<lambda>view.
     pbind (views_of is) (\<lambda>views. preturn (case view of None \<Rightarrow> views | Some v \<Rightarrow> v # views)))"

definition pg_topology_list_views :: "(topology_tables, project_agent_topology_view list) proc" where
  "pg_topology_list_views =
     pbind (pget (\<lambda>db. sort (map tr_project_id (tt_topologies db)))) (\<lambda>ids. views_of ids)"

definition pg_topology_find_view_by_room ::
    "string \<Rightarrow> (topology_tables, project_agent_topology_view option) proc" where
  "pg_topology_find_view_by_room room_id =
     pbind (pget (\<lambda>db. find (\<lambda>r. tm_room_id r = Some room_id \<or> tm_leader_room_id r = Some room_id) (tt_teams db)))
       (\<lambda>found. case found of None \<Rightarrow> preturn None | Some r \<Rightarrow> pg_topology_get_view (tm_project_id r))"

text \<open>\<open>save\<close> writes the operational status and replaces the teams; nothing else of the row.\<close>

definition pg_topology_save :: "project_agent_topology \<Rightarrow> (topology_tables, unit) proc" where
  "pg_topology_save p db =
     (case row tr_id (pt_id p) (tt_topologies db) of
        None \<Rightarrow> (Inl (topology_conflict ''project topology does not exist''), db)
      | Some r \<Rightarrow>
          let teams = filter (\<lambda>t. tm_topology_id t \<noteq> pt_id p) (tt_teams db) @ team_records p
          in if \<not> teams_unique teams then (Inl integrity_error, db)
             else (Inr (), db\<lparr>tt_topologies := write_row tr_id (r\<lparr>tr_operational_status :=
                      project_operational_status_value (pt_operational_status p)\<rparr>) (tt_topologies db),
                    tt_teams := teams\<rparr>))"

text \<open>\<open>PersistedTeamDecompositionModeReader\<close>.\<close>

definition decomposition_mode :: "uuid \<Rightarrow> uuid \<Rightarrow> (topology_tables, team_decomposition_mode) proc" where
  "decomposition_mode project_id repository_id =
     pbind (pg_topology_get project_id) (\<lambda>found.
     preturn (case found of
        None \<Rightarrow> DM_SERVER
      | Some p \<Rightarrow> (case find (\<lambda>t. rt_repository_id t = repository_id) (pt_repository_teams p) of
                    None \<Rightarrow> DM_SERVER | Some t \<Rightarrow> rt_decomposition_mode t)))"

subsection \<open>Policy drafts\<close>

definition draft_to_domain :: "draft_row \<Rightarrow> topology_policy_draft result" where
  "draft_to_domain r =
     rbind (enum_of ''ProjectExecutionMode'' project_execution_mode_value project_execution_mode_members
       (dr_execution_mode r)) (\<lambda>mode.
     rbind (checkpoints_from (dr_required_checkpoints r)) (\<lambda>checkpoints.
     rbind (grants_from_payloads (dr_human_grants r)) (\<lambda>grants.
     make_draft \<lparr>tpd_project_id = dr_project_id r, tpd_created_by = dr_created_by r,
       tpd_execution_mode = mode, tpd_required_checkpoints = checkpoints, tpd_human_grants = grants,
       tpd_created_at = dr_created_at r, tpd_updated_at = dr_updated_at r\<rparr>)))"

definition draft_get :: "uuid \<Rightarrow> (topology_tables, topology_policy_draft option) proc" where
  "draft_get project_id db =
     (case row dr_project_id project_id (tt_drafts db) of
        None \<Rightarrow> (Inr None, db)
      | Some r \<Rightarrow> (rbind (draft_to_domain r) (\<lambda>d. Inr (Some d)), db))"

text \<open>\<open>upsert\<close> keeps who first set the draft and when; an unreadable one rolls the write back.\<close>

definition draft_record :: "topology_policy_draft \<Rightarrow> draft_row \<Rightarrow> draft_row" where
  "draft_record d r =
     r\<lparr>dr_execution_mode := project_execution_mode_value (tpd_execution_mode d),
       dr_required_checkpoints := checkpoint_values (tpd_required_checkpoints d),
       dr_human_grants := grant_payloads (tpd_human_grants d), dr_updated_at := tpd_updated_at d\<rparr>"

definition new_draft_record :: "topology_policy_draft \<Rightarrow> draft_row" where
  "new_draft_record d =
     \<lparr>dr_project_id = tpd_project_id d, dr_execution_mode = project_execution_mode_value PX_AUTO,
      dr_required_checkpoints = [], dr_human_grants = [], dr_created_by = tpd_created_by d,
      dr_created_at = tpd_created_at d, dr_updated_at = tpd_updated_at d\<rparr>"

definition draft_upsert :: "topology_policy_draft \<Rightarrow> (topology_tables, topology_policy_draft) proc" where
  "draft_upsert d db =
     (let found = row dr_project_id (tpd_project_id d) (tt_drafts db);
          r = draft_record d (case found of None \<Rightarrow> new_draft_record d | Some r \<Rightarrow> r)
      in case draft_to_domain r of
           Inl e \<Rightarrow> (Inl e, db)
         | Inr stored \<Rightarrow> (Inr stored, db\<lparr>tt_drafts :=
             (case found of None \<Rightarrow> tt_drafts db @ [r] | Some _ \<Rightarrow> write_row dr_project_id r (tt_drafts db))\<rparr>))"

definition draft_delete :: "uuid \<Rightarrow> (topology_tables, bool) proc" where
  "draft_delete project_id db =
     (Inr (row dr_project_id project_id (tt_drafts db) \<noteq> None),
      db\<lparr>tt_drafts := filter (\<lambda>r. dr_project_id r \<noteq> project_id) (tt_drafts db)\<rparr>)"

subsection \<open>The topologies in memory\<close>

record memory_topologies =
  mt_topologies :: "(uuid, project_agent_topology) dict"
  mt_idempotency :: "(string, uuid \<times> string) dict"

definition mt_add :: "project_agent_topology \<Rightarrow> string \<Rightarrow> string \<Rightarrow> (memory_topologies, unit) proc" where
  "mt_add p idempotency_key request_fingerprint s =
     (if dict_get (mt_topologies s) (pt_project_id p) \<noteq> None \<or> dict_get (mt_idempotency s) idempotency_key \<noteq> None
      then (Inl (topology_conflict ''project topology already exists''), s)
      else (Inr (), s\<lparr>mt_topologies := dict_set (pt_project_id p) p (mt_topologies s),
              mt_idempotency := dict_set idempotency_key (pt_project_id p, request_fingerprint) (mt_idempotency s)\<rparr>))"

definition mt_get :: "uuid \<Rightarrow> (memory_topologies, project_agent_topology option) proc" where
  "mt_get project_id = pget (\<lambda>s. dict_get (mt_topologies s) project_id)"

definition mt_get_view :: "uuid \<Rightarrow> (memory_topologies, project_agent_topology_view option) proc" where
  "mt_get_view project_id = pbind (mt_get project_id) (\<lambda>found. preturn (map_option pt_to_view found))"

definition mt_list_views :: "(memory_topologies, project_agent_topology_view list) proc" where
  "mt_list_views = pget (\<lambda>s. map pt_to_view (dict_values (mt_topologies s)))"

definition mt_find_view_by_room :: "string \<Rightarrow> (memory_topologies, project_agent_topology_view option) proc" where
  "mt_find_view_by_room room_id = pget (\<lambda>s. map_option pt_to_view
     (find (\<lambda>p. \<exists>t \<in> set (pt_repository_teams p). Some room_id \<in> {rt_room_id t, rt_leader_room_id t})
        (dict_values (mt_topologies s))))"

definition mt_get_by_idempotency_key ::
    "string \<Rightarrow> (memory_topologies, (project_agent_topology \<times> string) option) proc" where
  "mt_get_by_idempotency_key key s =
     (case dict_get (mt_idempotency s) key of
        None \<Rightarrow> (Inr None, s)
      | Some (project_id, fingerprint) \<Rightarrow>
          (case dict_get (mt_topologies s) project_id of
             None \<Rightarrow> (Inl (KeyError (''UUID('' @ py_repr (uuid_str project_id) @ '')'')), s)
           | Some p \<Rightarrow> (Inr (Some (p, fingerprint)), s)))"

definition mt_save :: "project_agent_topology \<Rightarrow> (memory_topologies, unit) proc" where
  "mt_save p s =
     (if dict_get (mt_topologies s) (pt_project_id p) = None
      then (Inl (topology_conflict ''project topology does not exist''), s)
      else (Inr (), s\<lparr>mt_topologies := dict_set (pt_project_id p) p (mt_topologies s)\<rparr>))"

subsection \<open>What the services rely on\<close>

text \<open>
  Equal up to the order of the teams; and equal in what \<open>save\<close> does not write: the identity and
  the supervision policy.
\<close>

definition same_topology :: "project_agent_topology \<Rightarrow> project_agent_topology \<Rightarrow> bool" where
  "same_topology p q \<longleftrightarrow> by_repository p = by_repository q"

definition same_policy :: "project_agent_topology \<Rightarrow> project_agent_topology \<Rightarrow> bool" where
  "same_policy p q \<longleftrightarrow> pt_id p = pt_id q \<and> pt_project_id p = pt_project_id q \<and>
     pt_organization_id p = pt_organization_id q \<and> pt_organization_leader_id p = pt_organization_leader_id q \<and>
     pt_execution_mode p = pt_execution_mode q \<and> pt_required_checkpoints p = pt_required_checkpoints q \<and>
     pt_human_grants p = pt_human_grants q"

lemma same_policy_refl [simp]: "same_policy p p"
  by (simp add: same_policy_def)

lemma same_policy_trans [trans]: "same_policy p q \<Longrightarrow> same_policy q r \<Longrightarrow> same_policy p r"
  by (simp add: same_policy_def)

lemma same_policy_sym: "same_policy p q \<Longrightarrow> same_policy q p"
  by (simp add: same_policy_def)

lemma same_policy_status [simp]: "same_policy p (p\<lparr>pt_operational_status := s\<rparr>)"
  by (simp add: same_policy_def)

lemma by_repository_idem [simp]: "by_repository (by_repository p) = by_repository p"
  by (simp add: by_repository_def sort_key_id_if_sorted)

lemma same_topology_refl [simp]: "same_topology p p" "same_topology p (by_repository p)"
  by (simp_all add: same_topology_def)

lemma by_repository_simps [simp]:
  "pt_operational_status (by_repository p) = pt_operational_status p"
  "pt_project_id (by_repository p) = pt_project_id p" "same_policy p (by_repository p)"
  "pt_id (by_repository p) = pt_id p"
  by (simp_all add: by_repository_def same_policy_def)

lemma same_topologyD:
  assumes "same_topology p q"
  shows "same_policy p q" "pt_operational_status q = pt_operational_status p"
proof -
  have "same_policy p (by_repository q)" using assms by (metis same_topology_def by_repository_simps(3))
  then show "same_policy p q" by (metis by_repository_simps(3) same_policy_sym same_policy_trans)
  show "pt_operational_status q = pt_operational_status p"
    using assms by (metis same_topology_def by_repository_simps(1))
qed

text \<open>\<open>ProjectTopologyStore\<close>: what its methods promise the services, whatever keeps the topologies.\<close>

locale topology_store =
  fixes look :: "'s \<Rightarrow> uuid \<Rightarrow> project_agent_topology option"
    and add :: "project_agent_topology \<Rightarrow> string \<Rightarrow> string \<Rightarrow> ('s, unit) proc"
    and save :: "project_agent_topology \<Rightarrow> ('s, unit) proc"
    and inv :: "'s \<Rightarrow> bool"
  assumes look_valid: "inv s \<Longrightarrow> look s i = Some p \<Longrightarrow> valid_topology p \<and> pt_project_id p = i"
    and add_inv: "inv s \<Longrightarrow> valid_topology p \<Longrightarrow> inv (snd (add p key fingerprint s))"
    and add_look: "inv s \<Longrightarrow> valid_topology p \<Longrightarrow> add p key fingerprint s = (Inr (), t) \<Longrightarrow>
      look s (pt_project_id p) = None \<and> (\<exists>q. same_topology p q \<and> look t = (look s)(pt_project_id p \<mapsto> q))"
    and add_raises: "add p key fingerprint s = (Inl e, t) \<Longrightarrow> t = s"
    and save_inv: "inv s \<Longrightarrow> look s (pt_project_id q) = Some p \<Longrightarrow> same_policy p q \<Longrightarrow> valid_topology q \<Longrightarrow>
      inv (snd (save q s))"
    and save_look: "inv s \<Longrightarrow> look s (pt_project_id q) = Some p \<Longrightarrow> same_policy p q \<Longrightarrow> valid_topology q \<Longrightarrow>
      save q s = (Inr (), t) \<Longrightarrow> (\<exists>q'. same_topology q q' \<and> look t = (look s)(pt_project_id q \<mapsto> q'))"
    and save_raises: "save q s = (Inl e, t) \<Longrightarrow> t = s"
begin

text \<open>A project that has a topology keeps its policy, whatever is added and saved.\<close>

lemma add_keeps_policy:
  assumes "inv s" and "valid_topology p" and "look s i = Some r"
  shows "\<exists>r'. look (snd (add p key fingerprint s)) i = Some r' \<and> same_policy r r'"
proof (cases "add p key fingerprint s")
  case (Pair res t)
  show ?thesis
  proof (cases res)
    case (Inl e)
    then have "t = s" using Pair by (auto dest: add_raises)
    then show ?thesis using Pair assms(3) by auto
  next
    case (Inr u)
    then have "look s (pt_project_id p) = None" "\<exists>q. look t = (look s)(pt_project_id p \<mapsto> q)"
      using add_look [OF assms(1,2), of key fingerprint t] Pair by auto
    then show ?thesis using assms(3) Pair by auto
  qed
qed

lemma save_keeps_policy:
  assumes "inv s" and "look s (pt_project_id q) = Some p" and "same_policy p q" and "valid_topology q"
    and "look s i = Some r"
  shows "\<exists>r'. look (snd (save q s)) i = Some r' \<and> same_policy r r'"
proof (cases "save q s")
  case (Pair res t)
  show ?thesis
  proof (cases res)
    case (Inl e)
    then have "t = s" using Pair by (auto dest: save_raises)
    then show ?thesis using Pair assms(5) by auto
  next
    case (Inr u)
    then obtain q' where q': "same_topology q q'" "look t = (look s)(pt_project_id q \<mapsto> q')"
      using save_look [OF assms(1-4), of t] Pair by auto
    then have "same_policy p q'" using same_topologyD(1) assms(3) same_policy_trans by blast
    then show ?thesis using q'(2) assms(2,5) Pair by auto
  qed
qed

end

text \<open>The dictionary provides it.\<close>

definition mt_look :: "memory_topologies \<Rightarrow> uuid \<Rightarrow> project_agent_topology option" where
  "mt_look s i = dict_get (mt_topologies s) i"

definition mt_ok :: "memory_topologies \<Rightarrow> bool" where
  "mt_ok s \<longleftrightarrow> (\<forall>i p. mt_look s i = Some p \<longrightarrow> valid_topology p \<and> pt_project_id p = i)"

interpretation memory_store: topology_store mt_look mt_add mt_save mt_ok
proof
  show "valid_topology p \<and> pt_project_id p = i" if "mt_ok s" "mt_look s i = Some p" for s i p
    using that by (simp add: mt_ok_def)
  show "mt_ok (snd (mt_add p key fingerprint s))" if "mt_ok s" "valid_topology p" for s p key fingerprint
    using that by (auto simp: mt_ok_def mt_look_def mt_add_def split: if_splits)
  show "mt_look s (pt_project_id p) = None \<and> (\<exists>q. same_topology p q \<and> mt_look t = (mt_look s)(pt_project_id p \<mapsto> q))"
    if "mt_add p key fingerprint s = (Inr (), t)" for s t p key fingerprint
    using that by (auto simp: mt_look_def mt_add_def fun_eq_iff intro!: exI [of _ p] split: if_splits)
  show "t = s" if "mt_add p key fingerprint s = (Inl e, t)" for s t p key fingerprint e
    using that by (simp add: mt_add_def split: if_splits)
  show "mt_ok (snd (mt_save q s))" if "mt_ok s" "valid_topology q" for s q
    using that by (auto simp: mt_ok_def mt_look_def mt_save_def split: if_splits)
  show "\<exists>q'. same_topology q q' \<and> mt_look t = (mt_look s)(pt_project_id q \<mapsto> q')"
    if "mt_save q s = (Inr (), t)" for s t q
    using that by (auto simp: mt_look_def mt_save_def fun_eq_iff intro!: exI [of _ q] split: if_splits)
  show "t = s" if "mt_save q s = (Inl e, t)" for s t q e
    using that by (simp add: mt_save_def split: if_splits)
qed

subsection \<open>The tables provide it\<close>

definition pg_look :: "topology_tables \<Rightarrow> uuid \<Rightarrow> project_agent_topology option" where
  "pg_look db i = (case fst (pg_topology_get i db) of Inr found \<Rightarrow> found | Inl _ \<Rightarrow> None)"

definition stored :: "topology_tables \<Rightarrow> topology_row \<Rightarrow> project_agent_topology \<Rightarrow> bool" where
  "stored db r p \<longleftrightarrow> valid_topology p \<and>
     r = topology_record p (tr_idempotency_key r) (tr_request_fingerprint r) \<and>
     teams_of (tr_id r) (tt_teams db) = team_records p"

definition tables_ok :: "topology_tables \<Rightarrow> bool" where
  "tables_ok db \<longleftrightarrow> keyed tr_id (tt_topologies db) \<and> keyed tr_project_id (tt_topologies db) \<and>
     keyed tr_idempotency_key (tt_topologies db) \<and> teams_unique (tt_teams db) \<and>
     (\<forall>t \<in> set (tt_teams db). tm_topology_id t \<in> tr_id ` set (tt_topologies db)) \<and>
     (\<forall>r \<in> set (tt_topologies db). \<exists>p. stored db r p)"

lemma stored_ids:
  assumes "stored db r p"
  shows "tr_project_id r = pt_project_id p" "tr_id r = pt_id p"
proof -
  obtain k f where "r = topology_record p k f" using assms unfolding stored_def by blast
  then show "tr_project_id r = pt_project_id p" "tr_id r = pt_id p" by (simp_all add: topology_record_def)
qed

lemma stored_valid: "stored db r p \<Longrightarrow> valid_topology p"
  by (simp add: stored_def)

lemma read_stored: "stored db r p \<Longrightarrow> read_topology r db = Inr (by_repository p)"
  unfolding read_topology_def stored_def by (metis topology_round_trip)

lemma find_topology:
  assumes "tables_ok db" and "r \<in> set (tt_topologies db)"
  shows "find (\<lambda>x. tr_project_id x = tr_project_id r) (tt_topologies db) = Some r"
  using assms by (intro find_unique_key) (simp_all add: tables_ok_def keyed_def)

lemma look_stored:
  assumes "tables_ok db" and "r \<in> set (tt_topologies db)" and "stored db r p"
  shows "pg_look db (tr_project_id r) = Some (by_repository p)"
  by (simp add: pg_look_def pg_topology_get_def find_topology [OF assms(1,2)] read_stored [OF assms(3)])

lemma look_absent: "i \<notin> tr_project_id ` set (tt_topologies db) \<Longrightarrow> pg_look db i = None"
proof -
  assume "i \<notin> tr_project_id ` set (tt_topologies db)"
  then have "find (\<lambda>x. tr_project_id x = i) (tt_topologies db) = None" by (auto simp: find_None_iff)
  then show ?thesis by (simp add: pg_look_def pg_topology_get_def)
qed

lemma look_SomeD:
  assumes "tables_ok db" and "pg_look db i = Some q"
  shows "\<exists>r p. r \<in> set (tt_topologies db) \<and> tr_project_id r = i \<and> stored db r p \<and> q = by_repository p"
proof -
  obtain r where r: "r \<in> set (tt_topologies db)" "tr_project_id r = i"
    using look_absent [of i db] assms(2) by force
  moreover obtain p where "stored db r p" using r(1) assms(1) by (auto simp: tables_ok_def)
  ultimately show ?thesis using look_stored [OF assms(1) r(1)] assms(2) by auto
qed

lemma get_topology:
  assumes "tables_ok db"
  shows "pg_topology_get i db = (Inr (pg_look db i), db)"
proof (cases "i \<in> tr_project_id ` set (tt_topologies db)")
  case True
  then obtain r p where "r \<in> set (tt_topologies db)" "tr_project_id r = i" "stored db r p"
    using assms by (auto simp: tables_ok_def)
  then show ?thesis
    using find_topology [OF assms] by (auto simp: pg_look_def pg_topology_get_def read_stored)
next
  case False
  then have "find (\<lambda>x. tr_project_id x = i) (tt_topologies db) = None" by (auto simp: find_None_iff)
  then show ?thesis by (simp add: pg_look_def pg_topology_get_def)
qed

lemma look_update:
  assumes ok: "tables_ok s" "tables_ok t"
    and ids: "tr_project_id ` set (tt_topologies t) = insert i (tr_project_id ` set (tt_topologies s))"
    and r: "r \<in> set (tt_topologies t)" "tr_project_id r = i" "stored t r q"
    and rest: "\<And>x. x \<in> set (tt_topologies s) \<Longrightarrow> tr_project_id x \<noteq> i \<Longrightarrow>
      x \<in> set (tt_topologies t) \<and> teams_of (tr_id x) (tt_teams t) = teams_of (tr_id x) (tt_teams s)"
  shows "pg_look t = (pg_look s)(i \<mapsto> by_repository q)"
proof
  fix j
  show "pg_look t j = ((pg_look s)(i \<mapsto> by_repository q)) j"
  proof (cases "j = i")
    case True
    then show ?thesis using look_stored [OF ok(2) r(1,3)] r(2) by simp
  next
    case other: False
    show ?thesis
    proof (cases "j \<in> tr_project_id ` set (tt_topologies s)")
      case True
      then obtain x p where x: "x \<in> set (tt_topologies s)" "tr_project_id x = j" "stored s x p"
        using ok(1) by (auto simp: tables_ok_def)
      then have "x \<in> set (tt_topologies t)" "stored t x p"
        using rest [of x] other by (auto simp: stored_def)
      then show ?thesis
        using look_stored [OF ok(2)] look_stored [OF ok(1) x(1,3)] x(2) other by fastforce
    next
      case False
      then have "j \<notin> tr_project_id ` set (tt_topologies t)" using ids other by auto
      then show ?thesis using False other by (simp add: look_absent)
    qed
  qed
qed

lemma teams_of_append: "teams_of i (xs @ ys) = teams_of i xs @ teams_of i ys"
  by (simp add: teams_of_def)

lemma teams_of_records: "teams_of i (team_records p) = (if i = pt_id p then team_records p else [])"
  by (auto simp: teams_of_def team_records_def team_record_def filter_empty_conv)

lemma team_records_id: "m \<in> set (team_records p) \<Longrightarrow> tm_topology_id m = pt_id p"
  by (auto simp: team_records_def team_record_def)

lemma map_write_same:
  assumes "keyed key rows" and "row key (key x) rows = Some r" and "f x = f r"
  shows "map f (write_row key x rows) = map f rows"
proof -
  have "f x = f y" if "y \<in> set rows" and "key y = key x" for y
    using that assms row_SomeD [OF assms(2)] key_unique [of key rows y r] by (simp add: keyed_def)
  then show ?thesis unfolding write_row_def map_where_def by (induction rows) auto
qed

text \<open>A call that writes nothing when it raises keeps what its result has.\<close>

lemma snd_cases:
  assumes "\<And>t. m s = (Inr (), t) \<Longrightarrow> I t" and "\<And>e t. m s = (Inl e, t) \<Longrightarrow> t = s" and "I s"
  shows "I (snd (m s))"
proof (cases "m s")
  case (Pair r t)
  then show ?thesis using assms by (cases r) auto
qed

lemma pg_add_raises: "pg_topology_add p key fingerprint s = (Inl e, t) \<Longrightarrow> t = s"
  by (simp add: pg_topology_add_def split: if_splits)

lemma pg_save_raises: "pg_topology_save q s = (Inl e, t) \<Longrightarrow> t = s"
  by (simp add: pg_topology_save_def Let_def split: option.splits if_splits)

lemma pg_add_Inr:
  assumes ok: "tables_ok s" and valid: "valid_topology p" and add: "pg_topology_add p key fingerprint s = (Inr (), t)"
  shows "tables_ok t \<and> pg_look s (pt_project_id p) = None \<and> pg_look t = (pg_look s)(pt_project_id p \<mapsto> by_repository p)"
proof -
  define new where "new = topology_record p key fingerprint"
  have new: "tr_id new = pt_id p" "tr_project_id new = pt_project_id p" "tr_idempotency_key new = key"
    by (simp_all add: new_def topology_record_def)
  have fresh: "\<forall>r \<in> set (tt_topologies s). tr_id r \<noteq> pt_id p \<and> tr_project_id r \<noteq> pt_project_id p \<and>
      tr_idempotency_key r \<noteq> key" and unique: "teams_unique (tt_teams s @ team_records p)"
    and t: "t = s\<lparr>tt_topologies := tt_topologies s @ [new], tt_teams := tt_teams s @ team_records p\<rparr>"
    using add by (auto simp: pg_topology_add_def new_def split: if_splits)
  have "tm_topology_id m \<noteq> pt_id p" if "m \<in> set (tt_teams s)" for m
    using that ok fresh by (auto simp: tables_ok_def)
  then have "teams_of (pt_id p) (tt_teams s) = []" by (simp add: teams_of_def filter_empty_conv)
  then have stored_new: "stored t new p"
    using valid by (simp add: stored_def t teams_of_append teams_of_records new)
      (simp add: new_def topology_record_def)
  have rest: "teams_of (tr_id x) (tt_teams t) = teams_of (tr_id x) (tt_teams s)"
    if "x \<in> set (tt_topologies s)" for x
    using that fresh by (simp add: t teams_of_append teams_of_records)
  then have "\<exists>q. stored t x q" if "x \<in> set (tt_topologies s)" for x
    using that ok by (fastforce simp: tables_ok_def stored_def)
  then have okt: "tables_ok t"
    using ok fresh unique stored_new
    by (auto simp: tables_ok_def t keyed_append new dest: team_records_id)
  have "pg_look t = (pg_look s)(pt_project_id p \<mapsto> by_repository p)"
    by (rule look_update [OF ok okt _ _ new(2) stored_new]) (use rest in \<open>auto simp: t new\<close>)
  moreover have "pg_look s (pt_project_id p) = None" using fresh by (intro look_absent) auto
  ultimately show ?thesis using okt by simp
qed

lemma pg_save_Inr:
  assumes ok: "tables_ok s" and looked: "pg_look s (pt_project_id q) = Some p" and policy: "same_policy p q"
    and valid: "valid_topology q" and save: "pg_topology_save q s = (Inr (), t)"
  shows "tables_ok t \<and> pg_look t = (pg_look s)(pt_project_id q \<mapsto> by_repository q)"
proof -
  obtain r0 p0 where r0: "r0 \<in> set (tt_topologies s)" "tr_project_id r0 = pt_project_id q" "stored s r0 p0"
    "p = by_repository p0"
    using look_SomeD [OF ok looked] by blast
  have policy0: "same_policy p0 q" using policy unfolding r0(4) by (rule same_policy_trans [OF by_repository_simps(3)])
  have id0: "tr_id r0 = pt_id q" using stored_ids [OF r0(3)] policy0 by (simp add: same_policy_def)
  then have row0: "row tr_id (pt_id q) (tt_topologies s) = Some r0"
    using ok row_in [of tr_id "tt_topologies s" r0] r0(1) by (simp add: tables_ok_def)
  define new where "new = r0\<lparr>tr_operational_status := project_operational_status_value (pt_operational_status q)\<rparr>"
  define teams where "teams = filter (\<lambda>m. tm_topology_id m \<noteq> pt_id q) (tt_teams s) @ team_records q"
  have t: "t = s\<lparr>tt_topologies := write_row tr_id new (tt_topologies s), tt_teams := teams\<rparr>"
    and unique: "teams_unique teams"
    using save row0 by (auto simp: pg_topology_save_def Let_def new_def teams_def split: if_splits)
  have new: "tr_id new = pt_id q" "tr_project_id new = pt_project_id q"
    using id0 r0(2) by (simp_all add: new_def)
  obtain k f where "r0 = topology_record p0 k f" using r0(3) unfolding stored_def by blast
  then have "new = topology_record q k f"
    using policy0 by (simp add: new_def topology_record_def same_policy_def)
  then have written: "new = topology_record q (tr_idempotency_key new) (tr_request_fingerprint new)"
    by (simp add: topology_record_def)
  have "teams_of (pt_id q) teams = team_records q"
    by (simp add: teams_def teams_of_append teams_of_records) (simp add: teams_of_def filter_empty_conv)
  then have stored_new: "stored t new q"
    using valid written by (simp add: stored_def t new)
  have others: "teams_of (tr_id x) (tt_teams t) = teams_of (tr_id x) (tt_teams s)" if "tr_id x \<noteq> pt_id q" for x
  proof -
    have "teams_of (tr_id x) (filter (\<lambda>m. tm_topology_id m \<noteq> pt_id q) ms) = teams_of (tr_id x) ms" for ms
      using that by (induction ms) (auto simp: teams_of_def)
    then show ?thesis using that by (simp add: t teams_def teams_of_append teams_of_records)
  qed
  have kept: "x \<in> set (tt_topologies t)" if "x \<in> set (tt_topologies s)" and "tr_id x \<noteq> pt_id q" for x
    using that by (simp add: t set_write new)
  have in_t: "new \<in> set (tt_topologies t)" using row0 by (simp add: t set_write new)
  have cases_t: "x = new \<or> (x \<in> set (tt_topologies s) \<and> tr_id x \<noteq> pt_id q)" if "x \<in> set (tt_topologies t)" for x
    using that by (auto simp: t set_write new split: if_splits)
  have keys: "map f (tt_topologies t) = map f (tt_topologies s)" if "f new = f r0" for f :: "topology_row \<Rightarrow> 'k"
    unfolding t using ok row0 new that by (simp add: map_write_same tables_ok_def)
  have maps: "map tr_id (tt_topologies t) = map tr_id (tt_topologies s)"
    "map tr_project_id (tt_topologies t) = map tr_project_id (tt_topologies s)"
    "map tr_idempotency_key (tt_topologies t) = map tr_idempotency_key (tt_topologies s)"
    by (rule keys; simp add: new_def)+
  then have sets: "tr_id ` set (tt_topologies t) = tr_id ` set (tt_topologies s)"
    "tr_project_id ` set (tt_topologies t) = tr_project_id ` set (tt_topologies s)"
    by (metis list.set_map)+
  have "\<exists>q'. stored t x q'" if "x \<in> set (tt_topologies t)" for x
    using cases_t [OF that]
  proof
    assume x: "x \<in> set (tt_topologies s) \<and> tr_id x \<noteq> pt_id q"
    then obtain p' where "stored s x p'" using ok by (auto simp: tables_ok_def)
    then show ?thesis using others [of x] x by (auto simp: stored_def)
  qed (use stored_new in blast)
  moreover have "pt_id q \<in> tr_id ` set (tt_topologies s)" using r0(1) id0 by force
  then have "\<forall>m \<in> set teams. tm_topology_id m \<in> tr_id ` set (tt_topologies s)"
    using ok by (auto simp: teams_def tables_ok_def dest: team_records_id)
  ultimately have okt: "tables_ok t"
    using ok unique maps sets by (simp add: tables_ok_def keyed_def) (simp add: t)
  have same: "tr_project_id x = pt_project_id q" if "x \<in> set (tt_topologies s)" "tr_id x = pt_id q" for x
    using key_unique [of tr_id "tt_topologies s" x r0] that ok r0(1,2) id0 by (simp add: tables_ok_def keyed_def)
  have "pg_look t = (pg_look s)(pt_project_id q \<mapsto> by_repository q)"
  proof (rule look_update [OF ok okt _ in_t new(2) stored_new])
    have "pt_project_id q \<in> tr_project_id ` set (tt_topologies s)" using r0(1,2) by force
    then show "tr_project_id ` set (tt_topologies t) = insert (pt_project_id q) (tr_project_id ` set (tt_topologies s))"
      using sets(2) by auto
    fix x assume x: "x \<in> set (tt_topologies s)" "tr_project_id x \<noteq> pt_project_id q"
    then have "tr_id x \<noteq> pt_id q" using same by blast
    then show "x \<in> set (tt_topologies t) \<and> teams_of (tr_id x) (tt_teams t) = teams_of (tr_id x) (tt_teams s)"
      using kept others x(1) by blast
  qed
  then show ?thesis using okt by simp
qed

interpretation table_store: topology_store pg_look pg_topology_add pg_topology_save tables_ok
proof
  show "valid_topology p \<and> pt_project_id p = i" if ok: "tables_ok s" and found: "pg_look s i = Some p" for s i p
  proof -
    obtain r p0 where "tr_project_id r = i" "stored s r p0" "p = by_repository p0"
      using look_SomeD [OF ok found] by blast
    then show ?thesis using stored_ids(1) stored_valid by simp
  qed
  show "t = s" if "pg_topology_add p key fingerprint s = (Inl e, t)" for s t p key fingerprint e
    using that by (rule pg_add_raises)
  show "t = s" if "pg_topology_save q s = (Inl e, t)" for s t q e
    using that by (rule pg_save_raises)
  show "tables_ok (snd (pg_topology_add p key fingerprint s))" if "tables_ok s" "valid_topology p"
    for s p key fingerprint
    by (rule snd_cases) (use pg_add_Inr [OF that] pg_add_raises that(1) in blast)+
  show "pg_look s (pt_project_id p) = None \<and> (\<exists>q. same_topology p q \<and> pg_look t = (pg_look s)(pt_project_id p \<mapsto> q))"
    if "tables_ok s" "valid_topology p" "pg_topology_add p key fingerprint s = (Inr (), t)" for s t p key fingerprint
    using pg_add_Inr [OF that] same_topology_refl(2) by blast
  show "tables_ok (snd (pg_topology_save q s))"
    if "tables_ok s" "pg_look s (pt_project_id q) = Some p" "same_policy p q" "valid_topology q" for s q p
    by (rule snd_cases) (use pg_save_Inr [OF that] pg_save_raises that(1) in blast)+
  show "\<exists>q'. same_topology q q' \<and> pg_look t = (pg_look s)(pt_project_id q \<mapsto> q')"
    if "tables_ok s" "pg_look s (pt_project_id q) = Some p" "same_policy p q" "valid_topology q"
      "pg_topology_save q s = (Inr (), t)" for s t q p
    using pg_save_Inr [OF that] same_topology_refl(2) by blast
qed

end
