(* ===== verification/Human_Control.thy ===== *)
theory Human_Control
  imports Project_Contracts Prelude
begin

text \<open>
  Who may do what in a project (\<open>modules/project/human_control.py\<close>): the grants of a person that
  cover the repository, the action, the code access and the path asked for. Paths are matched
  with Python's \<open>fnmatchcase\<close>.
\<close>

subsection \<open>Shell patterns\<close>

text \<open>
  The inside of a bracket expression, as \<open>fnmatch.translate\<close> reads it: hyphens between two
  characters split it into chunks; a range whose ends are out of order is dropped with both of
  its ends; what is left is a set of characters, negated if it starts with an exclamation mark.
\<close>

fun class_end :: "string \<Rightarrow> string \<Rightarrow> (string \<times> string) option" where
  "class_end acc [] = None"
| "class_end acc (c # cs) = (if c = CHR '']'' then Some (rev acc, cs) else class_end (c # acc) cs)"

text \<open>The bracket's content and the rest of the pattern; a \<open>]\<close> right after the opening is content.\<close>

definition bracket :: "string \<Rightarrow> (string \<times> string) option" where
  "bracket p =
     (let (neg, q) = (case p of c # cs \<Rightarrow> if c = CHR ''!'' then ([c], cs) else ([], p) | [] \<Rightarrow> ([], p));
          (lead, q') = (case q of c # cs \<Rightarrow> if c = CHR '']'' then (c # neg, cs) else (neg, q) | [] \<Rightarrow> (neg, q))
      in class_end lead q')"

text \<open>\<open>chunks first rest\<close>: \<open>first\<close> is the chunk so far, reversed; the next hyphen splits it.\<close>

fun chunks :: "string \<Rightarrow> string \<Rightarrow> string list" where
  "chunks acc [] = [rev acc]"
| "chunks acc (c # cs) =
     (if c = CHR ''-'' then
        (case cs of
           [] \<Rightarrow> [rev (c # acc)]
         | [y] \<Rightarrow> [rev acc, [y]]
         | y # z # zs \<Rightarrow> rev acc # chunks [z, y] zs)
      else chunks (c # acc) cs)"

definition class_chunks :: "string \<Rightarrow> string list" where
  "class_chunks content =
     (case content of
        [] \<Rightarrow> [[]]
      | c # cs \<Rightarrow>
          if c = CHR ''!'' then (case cs of [] \<Rightarrow> [[c]] | d # ds \<Rightarrow> chunks [d, c] ds)
          else chunks [c] cs)"

text \<open>Dropping the empty ranges, from the last to the first.\<close>

definition join_chunk :: "string \<Rightarrow> string list \<Rightarrow> string list" where
  "join_chunk c rest =
     (case rest of
        [] \<Rightarrow> [c]
      | d # ds \<Rightarrow> if c \<noteq> [] \<and> d \<noteq> [] \<and> last c > hd d then (butlast c @ tl d) # ds else c # rest)"

definition drop_empty_ranges :: "string list \<Rightarrow> string list" where
  "drop_empty_ranges cs = foldr join_chunk cs []"

fun ranges :: "string list \<Rightarrow> (char \<times> char) list" where
  "ranges [] = []"
| "ranges [c] = []"
| "ranges (c # d # ds) = (if c \<noteq> [] \<and> d \<noteq> [] then [(last c, hd d)] else []) @ ranges (d # ds)"

definition class_matches :: "string \<Rightarrow> char \<Rightarrow> bool" where
  "class_matches content x =
     (let cs = drop_empty_ranges (class_chunks content);
          negated = (case cs of (c # _) # _ \<Rightarrow> c = CHR ''!'' | _ \<Rightarrow> False);
          cs' = (if negated then tl (hd cs) # tl cs else cs);
          hit = (\<exists>c \<in> set cs'. x \<in> set c) \<or> (\<exists>(lo, hi) \<in> set (ranges cs'). lo \<le> x \<and> x \<le> hi) \<or>
            (negated \<and> hd cs' = [] \<and> tl cs' \<noteq> [] \<and> x = CHR ''-'')
      in hit \<noteq> negated)"

lemma class_end_length: "class_end acc p = Some (content, rest) \<Longrightarrow> length rest < length p"
  by (induction acc p rule: class_end.induct) (fastforce split: if_splits)+

lemma bracket_length: "bracket p = Some (content, rest) \<Longrightarrow> length rest < length p"
  unfolding bracket_def Let_def
  by (fastforce dest: class_end_length split: list.splits if_splits prod.splits)

function (sequential) fnmatchcase :: "string \<Rightarrow> string \<Rightarrow> bool" where
  "fnmatchcase s [] = (s = [])"
| "fnmatchcase [] (c # p) = (c = CHR ''*'' \<and> fnmatchcase [] p)"
| "fnmatchcase (x # s) (c # p) =
     (if c = CHR ''*'' then fnmatchcase (x # s) p \<or> fnmatchcase s (c # p)
      else if c = CHR ''?'' then fnmatchcase s p
      else if c = CHR ''['' then
        (case bracket p of
           None \<Rightarrow> x = c \<and> fnmatchcase s p
         | Some (content, rest) \<Rightarrow> class_matches content x \<and> fnmatchcase s rest)
      else x = c \<and> fnmatchcase s p)"
  by pat_completeness auto
termination
  by (relation "measure (\<lambda>(s, p). length s + length p)") (auto dest: bracket_length simp: less_Suc_eq_le)

lemma fnmatchcase_examples:
  "fnmatchcase ''src/a.py'' ''src/*''" "fnmatchcase ''b'' ''[a-c]''" "\<not> fnmatchcase ''d'' ''[a-c]''"
  "fnmatchcase ''d'' ''[!a-c]''" "\<not> fnmatchcase ''src/a.py'' ''docs/*''" "fnmatchcase '']x'' ''[]a]?''"
  "\<not> fnmatchcase ''b'' ''[c-a]''" "fnmatchcase ''[a'' ''[a''"
  by code_simp+

subsection \<open>Authorisation\<close>

record human_authorization_request =
  har_human_principal_id :: uuid
  har_action :: "human_control_action option"
  har_repository_id :: "uuid option"
  har_path :: "string option"
  har_code_access :: code_access_level

record human_authorization_decision =
  had_allowed :: bool
  had_reason :: string

fun access_rank :: "code_access_level \<Rightarrow> int" where
  "access_rank CL_NONE = 0"
| "access_rank CL_READ = 1"
| "access_rank CL_WRITE = 2"

text \<open>\<open>path.replace("\\", "/").lstrip("/")\<close>.\<close>

definition normalize_path :: "string \<Rightarrow> string" where
  "normalize_path p = dropWhile (\<lambda>c. c = CHR ''/'') (map (\<lambda>c. if c = CHR 0x5C then CHR ''/'' else c) p)"

definition request_path :: "human_authorization_request \<Rightarrow> string option" where
  "request_path q = (case har_path q of None \<Rightarrow> None | Some [] \<Rightarrow> None | Some p \<Rightarrow> Some (normalize_path p))"

definition grant_allows :: "human_authorization_request \<Rightarrow> human_project_grant_view \<Rightarrow> bool" where
  "grant_allows q g \<longleftrightarrow>
     (case har_action q of None \<Rightarrow> True | Some a \<Rightarrow> a \<in> hgv_control_actions g) \<and>
     access_rank (har_code_access q) \<le> access_rank (hgv_code_access g) \<and>
     (case request_path q of None \<Rightarrow> True
      | Some p \<Rightarrow> hgv_path_patterns g = [] \<or> (\<exists>pattern \<in> set (hgv_path_patterns g). fnmatchcase p pattern))"

definition in_scope :: "human_authorization_request \<Rightarrow> human_project_grant_view \<Rightarrow> bool" where
  "in_scope q g \<longleftrightarrow> hgv_repository_id g = None \<or> hgv_repository_id g = har_repository_id q"

definition authorize_human ::
    "project_agent_topology_view \<Rightarrow> human_authorization_request \<Rightarrow> human_authorization_decision" where
  "authorize_human topology q =
     (let grants = filter (\<lambda>g. hgv_human_principal_id g = har_human_principal_id q) (ptv_human_grants topology);
          scoped = filter (in_scope q) grants
      in if grants = [] then \<lparr>had_allowed = False, had_reason = ''human_project_membership_denied''\<rparr>
         else if scoped = [] then \<lparr>had_allowed = False, had_reason = ''human_repository_scope_denied''\<rparr>
         else if \<exists>g \<in> set scoped. grant_allows q g then \<lparr>had_allowed = True, had_reason = ''allowed''\<rparr>
         else \<lparr>had_allowed = False, had_reason = ''human_grant_does_not_allow_request''\<rparr>)"

definition requires_human_checkpoint :: "project_agent_topology_view \<Rightarrow> project_checkpoint \<Rightarrow> bool" where
  "requires_human_checkpoint topology checkpoint =
     (if ptv_execution_mode topology = PX_AUTO then False
      else if checkpoint = PCP_EXCEPTION_ESCALATION then True
      else checkpoint \<in> ptv_required_checkpoints topology)"

lemma authorize_human_iff:
  "had_allowed (authorize_human topology q) \<longleftrightarrow>
     (\<exists>g \<in> set (ptv_human_grants topology).
        hgv_human_principal_id g = har_human_principal_id q \<and> in_scope q g \<and> grant_allows q g)"
  by (auto simp: authorize_human_def Let_def filter_empty_conv)

text \<open>Access grows with the grants, and only the people named in a grant have any.\<close>

lemma authorize_human_mono:
  "set (ptv_human_grants t) \<subseteq> set (ptv_human_grants u) \<Longrightarrow>
     had_allowed (authorize_human t q) \<Longrightarrow> had_allowed (authorize_human u q)"
  by (auto simp: authorize_human_iff)

end
