(* ===== verification/Project_Control.thy ===== *)
theory Project_Control
  imports Project_Tables Human_Control Proc_Invariants
begin

text \<open>
  The human checkpoints of a project and its operational state: \<open>ProjectCheckpointService\<close>
  (\<open>modules/project/checkpoint_control.py\<close>), \<open>ProjectLifecycleService\<close>
  (\<open>lifecycle_control.py\<close>), and the Postgres stores of reviews and decisions
  (\<open>infrastructure.py\<close>). Between two statements other tasks run: \<open>env n\<close> is what they do to
  the database at the n-th await. The service's default texts are Chinese, outside the
  characters of the model; they are an argument.
\<close>

subsection \<open>Reviews and decisions\<close>

record project_checkpoint_decision =
  pcd_review_request_id :: uuid
  pcd_project_id :: uuid
  pcd_checkpoint :: project_checkpoint
  pcd_human_principal_id :: uuid
  pcd_decision :: checkpoint_decision_kind
  pcd_reason :: string
  pcd_evidence_version :: string
  pcd_repository_id :: "uuid option"
  pcd_id :: uuid
  pcd_decided_at :: datetime

definition make_decision :: "project_checkpoint_decision \<Rightarrow> project_checkpoint_decision result" where
  "make_decision d = rbind (first_violation
     [(blank (pcd_reason d), ''checkpoint decision reason is required''),
      (blank (pcd_evidence_version d), ''checkpoint evidence version is required'')]) (\<lambda>_. Inr d)"

definition decision_to_view :: "project_checkpoint_decision \<Rightarrow> project_checkpoint_decision_view" where
  "decision_to_view d = \<lparr>cdv_id = pcd_id d, cdv_review_request_id = pcd_review_request_id d,
     cdv_project_id = pcd_project_id d, cdv_checkpoint = pcd_checkpoint d,
     cdv_human_principal_id = pcd_human_principal_id d, cdv_decision = pcd_decision d,
     cdv_reason = pcd_reason d, cdv_repository_id = pcd_repository_id d,
     cdv_evidence_version = pcd_evidence_version d, cdv_decided_at = pcd_decided_at d\<rparr>"

record human_review_request =
  hr_project_id :: uuid
  hr_checkpoint :: project_checkpoint
  hr_evidence_version :: string
  hr_title :: string
  hr_summary :: string
  hr_repository_id :: "uuid option"
  hr_requested_by_agent_id :: "uuid option"
  hr_status :: human_review_status
  hr_resolved_by_human_id :: "uuid option"
  hr_id :: uuid
  hr_created_at :: datetime
  hr_updated_at :: datetime

definition make_review :: "human_review_request \<Rightarrow> human_review_request result" where
  "make_review r = rbind (first_violation
     [(blank (hr_evidence_version r), ''review evidence version is required''),
      (blank (hr_title r), ''review title is required'')]) (\<lambda>_. Inr r)"

definition review_to_view :: "human_review_request \<Rightarrow> human_review_request_view" where
  "review_to_view r = \<lparr>hrv_id = hr_id r, hrv_project_id = hr_project_id r, hrv_checkpoint = hr_checkpoint r,
     hrv_evidence_version = hr_evidence_version r, hrv_title = hr_title r, hrv_summary = hr_summary r,
     hrv_status = hr_status r, hrv_repository_id = hr_repository_id r,
     hrv_requested_by_agent_id = hr_requested_by_agent_id r,
     hrv_resolved_by_human_id = hr_resolved_by_human_id r, hrv_created_at = hr_created_at r,
     hrv_updated_at = hr_updated_at r\<rparr>"

type_synonym review_key = "uuid \<times> project_checkpoint \<times> uuid option \<times> string"

definition review_key :: "human_review_request \<Rightarrow> review_key" where
  "review_key r = (hr_project_id r, hr_checkpoint r, hr_repository_id r, hr_evidence_version r)"

definition decision_key :: "project_checkpoint_decision \<Rightarrow> review_key" where
  "decision_key d = (pcd_project_id d, pcd_checkpoint d, pcd_repository_id d, pcd_evidence_version d)"

text \<open>\<open>HumanReviewStatus(decision.value)\<close>.\<close>

fun review_status_of :: "checkpoint_decision_kind \<Rightarrow> human_review_status" where
  "review_status_of CD_APPROVED = HS_APPROVED"
| "review_status_of CD_REJECTED = HS_REJECTED"
| "review_status_of CD_CHANGES_REQUESTED = HS_CHANGES_REQUESTED"

lemma review_status_of_value:
  "human_review_status_value (review_status_of k) = checkpoint_decision_kind_value k"
  by (cases k) simp_all

lemma review_status_of_resolved [simp]: "review_status_of k \<noteq> HS_PENDING"
  by (cases k) simp_all

subsection \<open>The stores\<close>

record project_db =
  pj_tables :: topology_tables
  pj_decisions :: "project_checkpoint_decision list"
  pj_reviews :: "human_review_request list"

type_synonym 'a project_proc = "(project_db, 'a) proc"

definition in_tables :: "(topology_tables, 'a) proc \<Rightarrow> 'a project_proc" where
  "in_tables p db = (case p (pj_tables db) of (r, t) \<Rightarrow> (r, db\<lparr>pj_tables := t\<rparr>))"

text \<open>\<open>PostgresProjectCheckpointDecisionStore\<close>; a review has one decision.\<close>

definition decision_add :: "project_checkpoint_decision \<Rightarrow> unit project_proc" where
  "decision_add d db =
     (if \<exists>x \<in> set (pj_decisions db). pcd_review_request_id x = pcd_review_request_id d \<or> pcd_id x = pcd_id d
      then (Inl (topology_conflict ''review request was already decided''), db)
      else (Inr (), db\<lparr>pj_decisions := pj_decisions db @ [d]\<rparr>))"

definition latest_decision ::
    "uuid \<Rightarrow> project_checkpoint \<Rightarrow> uuid option \<Rightarrow> project_db \<Rightarrow> project_checkpoint_decision option" where
  "latest_decision project_id checkpoint repository_id db =
     (case sort_key (\<lambda>d. - pcd_decided_at d)
        (filter (\<lambda>d. pcd_project_id d = project_id \<and> pcd_checkpoint d = checkpoint \<and>
           pcd_repository_id d = repository_id) (pj_decisions db)) of
        [] \<Rightarrow> None | d # _ \<Rightarrow> Some d)"

text \<open>
  \<open>PostgresHumanReviewRequestStore.ensure\<close>: the stored review of that evidence, or a new one;
  \<open>env\<close> is what others commit between the read and the insert.
\<close>

definition review_get_exact ::
    "uuid \<Rightarrow> project_checkpoint \<Rightarrow> uuid option \<Rightarrow> string \<Rightarrow> project_db \<Rightarrow> human_review_request option" where
  "review_get_exact project_id checkpoint repository_id evidence_version db =
     find (\<lambda>r. review_key r = (project_id, checkpoint, repository_id, evidence_version)) (pj_reviews db)"

definition review_ensure ::
    "(project_db \<Rightarrow> project_db) \<Rightarrow> human_review_request \<Rightarrow> human_review_request project_proc" where
  "review_ensure env request db =
     (case find (\<lambda>r. review_key r = review_key request) (pj_reviews db) of
        Some r \<Rightarrow> (Inr r, db)
      | None \<Rightarrow>
          if \<exists>r \<in> set (pj_reviews (env db)). review_key r = review_key request \<or> hr_id r = hr_id request
          then (Inl integrity_error, env db)
          else (Inr request, (env db)\<lparr>pj_reviews := pj_reviews (env db) @ [request]\<rparr>))"

definition review_get_by_id :: "uuid \<Rightarrow> project_db \<Rightarrow> human_review_request option" where
  "review_get_by_id review_request_id db = row hr_id review_request_id (pj_reviews db)"

text \<open>
  \<open>resolve_pending\<close> reads the pending row and writes three of its columns; the row is not locked
  between the two.
\<close>

definition review_resolve_pending ::
    "(project_db \<Rightarrow> project_db) \<Rightarrow> uuid \<Rightarrow> checkpoint_decision_kind \<Rightarrow> uuid \<Rightarrow> datetime \<Rightarrow> bool project_proc" where
  "review_resolve_pending env review_request_id decision human_principal_id now db =
     (case find (\<lambda>r. hr_id r = review_request_id \<and> hr_status r = HS_PENDING) (pj_reviews db) of
        None \<Rightarrow> (Inr False, db)
      | Some _ \<Rightarrow>
          (Inr True, (env db)\<lparr>pj_reviews := map_where (\<lambda>r. hr_id r = review_request_id)
             (\<lambda>r. r\<lparr>hr_status := review_status_of decision, hr_resolved_by_human_id := Some human_principal_id,
                hr_updated_at := now\<rparr>) (pj_reviews (env db))\<rparr>))"

definition review_list_all :: "human_review_status option \<Rightarrow> project_db \<Rightarrow> human_review_request list" where
  "review_list_all status db =
     sort_key (\<lambda>r. - hr_updated_at r)
       (filter (\<lambda>r. case status of None \<Rightarrow> True | Some s \<Rightarrow> hr_status r = s) (pj_reviews db))"

text \<open>
  \<open>list_for_human\<close>: the reviews a grant of this person covers, read from the stored documents.
\<close>

definition text_at :: "json \<Rightarrow> string \<Rightarrow> json" where
  "text_at j k = (case json_get j k of None \<Rightarrow> JNull | Some v \<Rightarrow> v)"

definition grants_of_human :: "uuid \<Rightarrow> topology_row \<Rightarrow> json list" where
  "grants_of_human human_principal_id r =
     filter (\<lambda>g. text_at g ''human_principal_id'' = JStr (uuid_str human_principal_id)) (tr_human_grants r)"

definition grant_covers :: "human_review_request \<Rightarrow> json \<Rightarrow> bool" where
  "grant_covers r g \<longleftrightarrow> text_at g ''repository_id'' = JNull \<or>
     text_at g ''repository_id'' =
       JStr (case hr_repository_id r of None \<Rightarrow> ''None'' | Some i \<Rightarrow> uuid_str i)"

definition review_list_for_human ::
    "uuid \<Rightarrow> human_review_status option \<Rightarrow> project_db \<Rightarrow> human_review_request list" where
  "review_list_for_human human_principal_id status db =
     filter (\<lambda>r. \<exists>t \<in> set (tt_topologies (pj_tables db)). tr_project_id t = hr_project_id r \<and>
         (\<exists>g \<in> set (grants_of_human human_principal_id t). grant_covers r g))
       (review_list_all status db)"

subsection \<open>The checkpoint service\<close>

record review_texts =
  tx_pending_title :: "project_checkpoint \<Rightarrow> string"
  tx_pending_summary :: string
  tx_stale_title :: "project_checkpoint \<Rightarrow> string"
  tx_stale_summary :: string

record record_decision_command =
  rdc_project_id :: uuid
  rdc_review_request_id :: uuid
  rdc_human_principal_id :: uuid
  rdc_decision :: checkpoint_decision_kind
  rdc_reason :: string
  rdc_actor_is_admin :: bool

text \<open>\<open>a or b\<close> for an optional text.\<close>

definition text_or :: "string option \<Rightarrow> string \<Rightarrow> string" where
  "text_or x d = (case x of None \<Rightarrow> d | Some s \<Rightarrow> if s = [] then d else s)"

definition decision_request :: "record_decision_command \<Rightarrow> human_review_request \<Rightarrow> human_authorization_request" where
  "decision_request command review =
     \<lparr>har_human_principal_id = rdc_human_principal_id command,
      har_action = Some (if rdc_decision command = CD_APPROVED then HC_APPROVE_CHECKPOINT else HC_REQUEST_CHANGES),
      har_repository_id = hr_repository_id review, har_path = None, har_code_access = CL_NONE\<rparr>"

text \<open>Who may decide: a grant, or an administrator once the project no longer asks for the checkpoint.\<close>

definition authorize_decision ::
    "project_agent_topology_view \<Rightarrow> record_decision_command \<Rightarrow> human_review_request
     \<Rightarrow> human_authorization_decision result" where
  "authorize_decision topology command review =
     (let authorization = authorize_human topology (decision_request command review)
      in if \<not> had_allowed authorization \<and> \<not> requires_human_checkpoint topology (hr_checkpoint review)
         then if \<not> rdc_actor_is_admin command
              then Inl (topology_violation ''checkpoint is not enabled for this project'')
              else Inr \<lparr>had_allowed = True, had_reason = ''stale_policy_admin''\<rparr>
         else if \<not> had_allowed authorization then Inl (topology_violation (had_reason authorization))
         else Inr authorization)"

definition decision_of ::
    "record_decision_command \<Rightarrow> human_review_request \<Rightarrow> uuid \<Rightarrow> datetime \<Rightarrow> project_checkpoint_decision" where
  "decision_of command review i now =
     \<lparr>pcd_review_request_id = hr_id review, pcd_project_id = rdc_project_id command,
      pcd_checkpoint = hr_checkpoint review, pcd_human_principal_id = rdc_human_principal_id command,
      pcd_decision = rdc_decision command, pcd_reason = py_strip (rdc_reason command),
      pcd_evidence_version = hr_evidence_version review, pcd_repository_id = hr_repository_id review,
      pcd_id = i, pcd_decided_at = now\<rparr>"

text \<open>The notifier sends a message; it may fail after the decision is stored.\<close>

type_synonym decision_notifier =
  "(project_agent_topology_view \<Rightarrow> human_review_request \<Rightarrow> project_checkpoint_decision_view \<Rightarrow> unit result) option"

definition notify_decision ::
    "decision_notifier \<Rightarrow> project_agent_topology_view \<Rightarrow> human_review_request
     \<Rightarrow> project_checkpoint_decision_view \<Rightarrow> project_checkpoint_decision_view result" where
  "notify_decision notifier topology review view =
     (case notifier of
        None \<Rightarrow> Inr view
      | Some f \<Rightarrow> if hr_checkpoint review \<noteq> PCP_EXCEPTION_ESCALATION then Inr view
                  else rbind (f topology review view) (\<lambda>_. Inr view))"

definition required_review :: "record_decision_command \<Rightarrow> human_review_request option \<Rightarrow> human_review_request result" where
  "required_review command found =
     (case found of
        None \<Rightarrow> Inl (topology_violation ''pending review request does not exist'')
      | Some review \<Rightarrow>
          if hr_project_id review \<noteq> rdc_project_id command
          then Inl (topology_violation ''pending review request does not exist'')
          else if hr_status review \<noteq> HS_PENDING
          then Inl (topology_conflict ''review request was already decided'')
          else Inr review)"

text \<open>\<open>record\<close> from the authorization of the decision on.\<close>

definition decide_review ::
    "decision_notifier \<Rightarrow> (nat \<Rightarrow> project_db \<Rightarrow> project_db) \<Rightarrow> record_decision_command
     \<Rightarrow> project_agent_topology_view \<Rightarrow> human_review_request \<Rightarrow> uuid \<Rightarrow> datetime
     \<Rightarrow> project_checkpoint_decision_view project_proc" where
  "decide_review notifier env command topology review i now =
     pbind (plift (authorize_decision topology command review)) (\<lambda>_.
     pbind (plift (make_decision (decision_of command review i now))) (\<lambda>decision.
     pbind (pwait (env 1)) (\<lambda>_.
     pbind (decision_add decision) (\<lambda>_.
     pbind (pwait (env 2)) (\<lambda>_.
     pbind (review_resolve_pending (env 3) (hr_id review) (rdc_decision command)
              (rdc_human_principal_id command) now) (\<lambda>resolved.
     if \<not> resolved then praise (topology_conflict ''review request was already decided'')
     else plift (notify_decision notifier topology review (decision_to_view decision))))))))"

definition checkpoint_record ::
    "decision_notifier \<Rightarrow> (nat \<Rightarrow> project_db \<Rightarrow> project_db) \<Rightarrow> record_decision_command \<Rightarrow> uuid \<Rightarrow> datetime
     \<Rightarrow> project_checkpoint_decision_view project_proc" where
  "checkpoint_record notifier env command i now =
     pbind (in_tables (pg_topology_get_view (rdc_project_id command))) (\<lambda>found_topology.
     case found_topology of
       None \<Rightarrow> praise (topology_violation ''project topology does not exist'')
     | Some topology \<Rightarrow>
     pbind (pwait (env 0)) (\<lambda>_.
     pbind (pget (review_get_by_id (rdc_review_request_id command))) (\<lambda>found.
     pbind (plift (required_review command found)) (\<lambda>review.
     decide_review notifier env command topology review i now))))"

record evaluation =
  ev_project_id :: uuid
  ev_checkpoint :: project_checkpoint
  ev_evidence_version :: string
  ev_repository_id :: "uuid option"
  ev_requested_by_agent_id :: "uuid option"
  ev_title :: "string option"
  ev_summary :: "string option"

definition new_review ::
    "evaluation \<Rightarrow> string \<Rightarrow> string \<Rightarrow> uuid \<Rightarrow> datetime \<Rightarrow> human_review_request result" where
  "new_review q default_title default_summary i now = make_review
     \<lparr>hr_project_id = ev_project_id q, hr_checkpoint = ev_checkpoint q,
      hr_evidence_version = py_strip (ev_evidence_version q), hr_title = text_or (ev_title q) default_title,
      hr_summary = text_or (ev_summary q) default_summary, hr_repository_id = ev_repository_id q,
      hr_requested_by_agent_id = ev_requested_by_agent_id q, hr_status = HS_PENDING,
      hr_resolved_by_human_id = None, hr_id = i, hr_created_at = now, hr_updated_at = now\<rparr>"

definition request_review ::
    "(project_db \<Rightarrow> project_db) \<Rightarrow> evaluation \<Rightarrow> string \<Rightarrow> string \<Rightarrow> uuid \<Rightarrow> datetime \<Rightarrow> string
     \<Rightarrow> checkpoint_gate_decision project_proc" where
  "request_review env q default_title default_summary i now reason =
     pbind (plift (new_review q default_title default_summary i now)) (\<lambda>request.
     pbind (review_ensure env request) (\<lambda>_. preturn (denied reason)))"

text \<open>The operational status of the topology that was read; \<open>None\<close> when the project runs.\<close>

definition stopped_gate :: "project_agent_topology_view option \<Rightarrow> checkpoint_gate_decision option" where
  "stopped_gate found =
     (case found of
        None \<Rightarrow> Some (denied ''project_topology_missing'')
      | Some topology \<Rightarrow>
          if ptv_operational_status topology = PO_PAUSED then Some (denied ''project_paused'')
          else if ptv_operational_status topology = PO_CANCELLED then Some (denied ''project_cancelled'')
          else None)"

definition decided_gate :: "project_checkpoint_decision \<Rightarrow> checkpoint_gate_decision" where
  "decided_gate d =
     (if pcd_decision d \<noteq> CD_APPROVED
      then denied (''human_checkpoint_'' @ checkpoint_decision_kind_value (pcd_decision d))
      else permitted ''human_checkpoint_approved'')"

definition checkpoint_evaluate ::
    "review_texts \<Rightarrow> (nat \<Rightarrow> project_db \<Rightarrow> project_db) \<Rightarrow> evaluation \<Rightarrow> uuid \<Rightarrow> datetime
     \<Rightarrow> checkpoint_gate_decision project_proc" where
  "checkpoint_evaluate texts env q i now =
     pbind (in_tables (pg_topology_get_view (ev_project_id q))) (\<lambda>found.
     case stopped_gate found of
       Some gate \<Rightarrow> preturn gate
     | None \<Rightarrow>
     if \<not> requires_human_checkpoint (the found) (ev_checkpoint q)
     then preturn (permitted ''human_checkpoint_not_required'')
     else
     pbind (pwait (env 0)) (\<lambda>_.
     pbind (pget (latest_decision (ev_project_id q) (ev_checkpoint q) (ev_repository_id q))) (\<lambda>decision.
     case decision of
       None \<Rightarrow> pbind (pwait (env 1)) (\<lambda>_.
         request_review (env 2) q (tx_pending_title texts (ev_checkpoint q)) (tx_pending_summary texts) i now
           ''human_checkpoint_pending'')
     | Some d \<Rightarrow>
         if pcd_evidence_version d \<noteq> py_strip (ev_evidence_version q)
         then pbind (pwait (env 1)) (\<lambda>_.
           request_review (env 2) q (tx_stale_title texts (ev_checkpoint q)) (tx_stale_summary texts) i now
             ''human_checkpoint_evidence_stale'')
         else preturn (decided_gate d))))"

definition operational_gate :: "uuid \<Rightarrow> checkpoint_gate_decision project_proc" where
  "operational_gate project_id =
     pbind (in_tables (pg_topology_get_view project_id)) (\<lambda>found.
     preturn (case stopped_gate found of Some gate \<Rightarrow> gate | None \<Rightarrow> permitted ''project_active''))"

subsection \<open>The lifecycle service\<close>

record control_project_command =
  cpc_project_id :: uuid
  cpc_human_principal_id :: uuid
  cpc_action :: human_control_action

fun status_by_action :: "human_control_action \<Rightarrow> project_operational_status option" where
  "status_by_action HC_PAUSE_PROJECT = Some PO_PAUSED"
| "status_by_action HC_RESUME_PROJECT = Some PO_ACTIVE"
| "status_by_action HC_CANCEL_PROJECT = Some PO_CANCELLED"
| "status_by_action _ = None"

definition control_request :: "control_project_command \<Rightarrow> human_authorization_request" where
  "control_request command =
     \<lparr>har_human_principal_id = cpc_human_principal_id command, har_action = Some (cpc_action command),
      har_repository_id = None, har_path = None, har_code_access = CL_NONE\<rparr>"

definition control_topology ::
    "control_project_command \<Rightarrow> project_operational_status \<Rightarrow> project_agent_topology option
     \<Rightarrow> project_agent_topology result" where
  "control_topology command status found =
     (case found of
        None \<Rightarrow> Inl (topology_violation ''project topology does not exist'')
      | Some topology \<Rightarrow>
          let decision = authorize_human (pt_to_view topology) (control_request command)
          in if \<not> had_allowed decision then Inl (topology_violation (had_reason decision))
             else pt_with_operational_status status topology)"

definition lifecycle_control ::
    "(project_db \<Rightarrow> project_db) \<Rightarrow> control_project_command \<Rightarrow> project_agent_topology_view project_proc" where
  "lifecycle_control env command =
     (case status_by_action (cpc_action command) of
        None \<Rightarrow> praise (topology_violation ''unsupported project lifecycle action'')
      | Some status \<Rightarrow>
          pbind (in_tables (pg_topology_get (cpc_project_id command))) (\<lambda>found.
          pbind (plift (control_topology command status found)) (\<lambda>updated.
          pbind (pwait env) (\<lambda>_.
          pbind (in_tables (pg_topology_save updated)) (\<lambda>_. preturn (pt_to_view updated))))))"

end
