(* ===== verification/Project_Safety.thy ===== *)
theory Project_Safety
  imports Project_Control
begin

text \<open>
  What the checkpoints guarantee, whatever calls run and however they interleave at their awaits:
  decisions and reviews stay consistent, every decision was made by someone the project's policy
  entitles, and an open gate has an approval of exactly the evidence it was asked about.
\<close>

subsection \<open>The invariant\<close>

definition look :: "project_db \<Rightarrow> uuid \<Rightarrow> project_agent_topology option" where
  "look db = pg_look (pj_tables db)"

definition action_of_decision :: "checkpoint_decision_kind \<Rightarrow> human_control_action" where
  "action_of_decision k = (if k = CD_APPROVED then HC_APPROVE_CHECKPOINT else HC_REQUEST_CHANGES)"

text \<open>A grant of the project lets this person take this decision.\<close>

definition granted :: "project_agent_topology_view \<Rightarrow> project_checkpoint_decision \<Rightarrow> bool" where
  "granted v d \<longleftrightarrow> had_allowed (authorize_human v
     \<lparr>har_human_principal_id = pcd_human_principal_id d, har_action = Some (action_of_decision (pcd_decision d)),
      har_repository_id = pcd_repository_id d, har_path = None, har_code_access = CL_NONE\<rparr>)"

definition entitled :: "project_agent_topology_view \<Rightarrow> project_checkpoint_decision \<Rightarrow> bool" where
  "entitled v d \<longleftrightarrow> granted v d \<or> \<not> requires_human_checkpoint v (pcd_checkpoint d)"

definition resolves :: "project_checkpoint_decision \<Rightarrow> human_review_request \<Rightarrow> bool" where
  "resolves d r \<longleftrightarrow> pcd_review_request_id d = hr_id r \<and> hr_status r = review_status_of (pcd_decision d) \<and>
     hr_resolved_by_human_id r = Some (pcd_human_principal_id d)"

definition project_inv :: "project_db \<Rightarrow> bool" where
  "project_inv db \<longleftrightarrow> tables_ok (pj_tables db) \<and>
     keyed hr_id (pj_reviews db) \<and> keyed review_key (pj_reviews db) \<and>
     keyed pcd_review_request_id (pj_decisions db) \<and>
     (\<forall>d \<in> set (pj_decisions db). \<exists>r \<in> set (pj_reviews db).
        hr_id r = pcd_review_request_id d \<and> review_key r = decision_key d) \<and>
     (\<forall>r \<in> set (pj_reviews db). hr_status r \<noteq> HS_PENDING \<longrightarrow> (\<exists>d \<in> set (pj_decisions db). resolves d r)) \<and>
     (\<forall>d \<in> set (pj_decisions db). \<exists>p. look db (pcd_project_id d) = Some p \<and> entitled (pt_to_view p) d)"

text \<open>What no step undoes.\<close>

definition review_follows :: "human_review_request \<Rightarrow> human_review_request \<Rightarrow> bool" where
  "review_follows r r' \<longleftrightarrow> hr_id r' = hr_id r \<and> review_key r' = review_key r \<and>
     (hr_status r \<noteq> HS_PENDING \<longrightarrow> hr_status r' = hr_status r \<and>
        hr_resolved_by_human_id r' = hr_resolved_by_human_id r)"

definition project_follows :: "project_db \<Rightarrow> project_db \<Rightarrow> bool" where
  "project_follows s t \<longleftrightarrow>
     (\<forall>i p. look s i = Some p \<longrightarrow> (\<exists>q. look t i = Some q \<and> same_policy p q)) \<and>
     set (pj_decisions s) \<subseteq> set (pj_decisions t) \<and>
     (\<forall>r \<in> set (pj_reviews s). \<exists>r' \<in> set (pj_reviews t). review_follows r r')"

lemma review_follows_refl [simp]: "review_follows r r"
  by (simp add: review_follows_def)

lemma review_follows_trans: "review_follows r r' \<Longrightarrow> review_follows r' r'' \<Longrightarrow> review_follows r r''"
  by (auto simp: review_follows_def)

lemma project_follows_refl [simp]: "project_follows s s"
  by (auto simp: project_follows_def intro: review_follows_refl)

lemma project_follows_trans [trans]:
  assumes "project_follows s t" and "project_follows t u"
  shows "project_follows s u"
  unfolding project_follows_def
proof (intro conjI allI impI ballI)
  fix i p assume "look s i = Some p"
  then show "\<exists>q. look u i = Some q \<and> same_policy p q"
    using assms unfolding project_follows_def by (meson same_policy_trans)
next
  show "set (pj_decisions s) \<subseteq> set (pj_decisions u)" using assms unfolding project_follows_def by blast
next
  fix r assume "r \<in> set (pj_reviews s)"
  then show "\<exists>r' \<in> set (pj_reviews u). review_follows r r'"
    using assms unfolding project_follows_def by (meson review_follows_trans)
qed

lemma view_policy:
  assumes "same_policy p q"
  shows "authorize_human (pt_to_view p) = authorize_human (pt_to_view q)"
    and "requires_human_checkpoint (pt_to_view p) = requires_human_checkpoint (pt_to_view q)"
  using assms by (simp_all add: same_policy_def pt_to_view_def authorize_human_def requires_human_checkpoint_def fun_eq_iff)

lemma entitled_policy: "same_policy p q \<Longrightarrow> entitled (pt_to_view p) d = entitled (pt_to_view q) d"
  by (simp add: entitled_def granted_def view_policy)

text \<open>Reached from \<open>s\<close> by steps that keep the invariant.\<close>

definition reached :: "project_db \<Rightarrow> project_db \<Rightarrow> bool" where
  "reached s t \<longleftrightarrow> project_inv t \<and> project_follows s t"

definition steady :: "(project_db \<Rightarrow> project_db) \<Rightarrow> bool" where
  "steady env \<longleftrightarrow> (\<forall>s. project_inv s \<longrightarrow> reached s (env s))"

lemma reached_refl [simp]: "reached s s = project_inv s"
  by (simp add: reached_def)

lemma reached_trans: "reached s t \<Longrightarrow> reached t u \<Longrightarrow> reached s u"
  unfolding reached_def using project_follows_trans by blast

lemma reached_env: "steady env \<Longrightarrow> reached s t \<Longrightarrow> reached s (env t) \<and> project_follows t (env t)"
  unfolding steady_def using reached_def reached_trans by blast

subsection \<open>What a call remembers across its awaits\<close>

definition knows_topology :: "uuid \<Rightarrow> project_agent_topology_view \<Rightarrow> project_db \<Rightarrow> bool" where
  "knows_topology i v s \<longleftrightarrow> (\<exists>q. look s i = Some q \<and> authorize_human (pt_to_view q) = authorize_human v \<and>
     requires_human_checkpoint (pt_to_view q) = requires_human_checkpoint v)"

definition knows_review :: "human_review_request \<Rightarrow> project_db \<Rightarrow> bool" where
  "knows_review r s \<longleftrightarrow> (\<exists>r' \<in> set (pj_reviews s). hr_id r' = hr_id r \<and> review_key r' = review_key r)"

lemma knows_topology_follows: "project_follows s t \<Longrightarrow> knows_topology i v s \<Longrightarrow> knows_topology i v t"
  unfolding knows_topology_def project_follows_def by (metis view_policy)

lemma knows_review_follows: "project_follows s t \<Longrightarrow> knows_review r s \<Longrightarrow> knows_review r t"
  unfolding knows_review_def project_follows_def review_follows_def by metis

lemma decision_follows: "project_follows s t \<Longrightarrow> d \<in> set (pj_decisions s) \<Longrightarrow> d \<in> set (pj_decisions t)"
  unfolding project_follows_def by blast

subsection \<open>The statements\<close>

lemma get_topology_view:
  assumes "project_inv s"
  shows "in_tables (pg_topology_get_view i) s = (Inr (map_option pt_to_view (look s i)), s)"
  using assms get_topology [of "pj_tables s" i]
  by (simp add: in_tables_def pg_topology_get_view_def pbind_def preturn_def project_inv_def look_def)

lemma get_topology_row:
  assumes "project_inv s"
  shows "in_tables (pg_topology_get i) s = (Inr (look s i), s)"
  using assms get_topology [of "pj_tables s" i] by (simp add: in_tables_def project_inv_def look_def)

lemma reached_decision_add:
  assumes inv: "project_inv s" and review: "knows_review r s" and topology: "knows_topology (pcd_project_id d) v s"
    and d: "pcd_review_request_id d = hr_id r" "decision_key d = review_key r" "entitled v d"
    and add: "decision_add d s = (Inr u, t)"
  shows "reached s t \<and> d \<in> set (pj_decisions t)"
proof -
  have fresh: "\<forall>x \<in> set (pj_decisions s). pcd_review_request_id x \<noteq> pcd_review_request_id d"
    and t: "t = s\<lparr>pj_decisions := pj_decisions s @ [d]\<rparr>"
    using add by (auto simp: decision_add_def split: if_splits)
  obtain q where q: "look s (pcd_project_id d) = Some q" "entitled (pt_to_view q) d"
    using topology d(3) by (auto simp: knows_topology_def entitled_def granted_def)
  have "look t = look s" by (simp add: look_def t)
  moreover have "\<exists>r' \<in> set (pj_reviews t). hr_id r' = pcd_review_request_id d \<and> review_key r' = decision_key d"
    using review d by (auto simp: knows_review_def t)
  ultimately have "project_inv t"
    using inv fresh q by (auto simp: project_inv_def t keyed_append)
  moreover have "project_follows s t"
    using \<open>look t = look s\<close> by (auto simp: project_follows_def t intro: review_follows_refl)
  ultimately show ?thesis by (simp add: reached_def t)
qed

lemma reached_resolve:
  assumes inv: "project_inv s" and d: "d \<in> set (pj_decisions s)" "pcd_review_request_id d = i"
    and t: "t = s\<lparr>pj_reviews := map_where (\<lambda>r. hr_id r = i)
      (\<lambda>r. r\<lparr>hr_status := review_status_of (pcd_decision d),
             hr_resolved_by_human_id := Some (pcd_human_principal_id d), hr_updated_at := now\<rparr>) (pj_reviews s)\<rparr>"
  shows "reached s t"
proof -
  define w where "w r = (if hr_id r = i then r\<lparr>hr_status := review_status_of (pcd_decision d),
      hr_resolved_by_human_id := Some (pcd_human_principal_id d), hr_updated_at := now\<rparr> else r)" for r :: human_review_request
  have rows: "pj_reviews t = map w (pj_reviews s)" by (simp add: t map_where_def w_def)
  have w: "hr_id (w r) = hr_id r" "review_key (w r) = review_key r" for r
    by (simp_all add: w_def review_key_def)
  have "look t = look s" "pj_decisions t = pj_decisions s" "pj_tables t = pj_tables s"
    by (simp_all add: look_def t)
  note same = this
  have resolved: "\<exists>x \<in> set (pj_decisions s). resolves x (w r)"
    if "r \<in> set (pj_reviews s)" "hr_status (w r) \<noteq> HS_PENDING" for r
  proof (cases "hr_id r = i")
    case True
    then have "resolves d (w r)" using d(2) by (simp add: w_def resolves_def)
    then show ?thesis using d(1) by blast
  next
    case False
    then show ?thesis using that inv by (simp add: w_def project_inv_def)
  qed
  have "project_inv t"
    using inv resolved unfolding project_inv_def same rows
    by (simp add: keyed_def comp_def w)
  moreover have "review_follows r (w r)" if member: "r \<in> set (pj_reviews s)" for r
  proof (cases "hr_id r = i \<and> hr_status r \<noteq> HS_PENDING")
    case True
    then obtain x where x: "x \<in> set (pj_decisions s)" "resolves x r"
      using member inv by (auto simp: project_inv_def)
    then have "x = d"
      using True d inv key_unique [of pcd_review_request_id "pj_decisions s" x d]
      by (simp add: project_inv_def keyed_def resolves_def)
    then show ?thesis using x(2) w by (simp add: review_follows_def) (simp add: w_def resolves_def)
  next
    case False
    then show ?thesis by (auto simp: review_follows_def w) (simp_all add: w_def)
  qed
  ultimately show ?thesis
    by (auto simp: reached_def project_follows_def same rows)
qed

lemma reached_ensure:
  assumes inv: "project_inv (env s)" and r: "hr_status request = HS_PENDING"
    and ensured: "review_ensure env request s = (res, t)"
  shows "t = s \<or> reached (env s) t"
proof (cases "find (\<lambda>r. review_key r = review_key request) (pj_reviews s)")
  case (Some r)
  then show ?thesis using ensured by (simp add: review_ensure_def)
next
  case None
  show ?thesis
  proof (cases "\<exists>r \<in> set (pj_reviews (env s)). review_key r = review_key request \<or> hr_id r = hr_id request")
    case True
    then show ?thesis using ensured None inv by (simp add: review_ensure_def)
  next
    case False
    then have t: "t = (env s)\<lparr>pj_reviews := pj_reviews (env s) @ [request]\<rparr>"
      using ensured None by (simp add: review_ensure_def)
    have same: "look t = look (env s)" by (simp add: look_def t)
    have "project_inv t"
      using inv False r unfolding project_inv_def same
      by (auto simp: t keyed_append)
    moreover have "project_follows (env s) t"
      using same by (auto simp: project_follows_def t intro: review_follows_refl)
    ultimately show ?thesis by (simp add: reached_def)
  qed
qed

subsection \<open>The calls\<close>

lemma authorize_decision_entitled:
  assumes "authorize_decision v command review = Inr a"
  shows "entitled v (decision_of command review i now)"
  using assms unfolding authorize_decision_def Let_def entitled_def granted_def decision_of_def
    decision_request_def action_of_decision_def
  by (auto split: if_splits)

lemma decision_of_key: "hr_project_id review = rdc_project_id command \<Longrightarrow>
    decision_key (decision_of command review i now) = review_key review"
  by (simp add: decision_key_def decision_of_def review_key_def)

text \<open>The assertions of \<open>record\<close> between its awaits; each is stable under what others do.\<close>

definition before_decision ::
    "project_db \<Rightarrow> record_decision_command \<Rightarrow> project_agent_topology_view \<Rightarrow> human_review_request \<Rightarrow> project_db \<Rightarrow> bool" where
  "before_decision s0 command v review s \<longleftrightarrow> reached s0 s \<and> knows_topology (rdc_project_id command) v s \<and>
     knows_review review s \<and> hr_project_id review = rdc_project_id command \<and>
     hr_id review = rdc_review_request_id command"

definition after_decision ::
    "project_db \<Rightarrow> project_checkpoint_decision \<Rightarrow> project_db \<Rightarrow> bool" where
  "after_decision s0 d s \<longleftrightarrow> reached s0 s \<and> d \<in> set (pj_decisions s)"

lemma stable_assertions:
  assumes "steady env"
  shows "reached s0 s \<Longrightarrow> reached s0 (env s)"
    and "reached s0 s \<and> knows_topology i v s \<Longrightarrow> reached s0 (env s) \<and> knows_topology i v (env s)"
    and "before_decision s0 command v review s \<Longrightarrow> before_decision s0 command v review (env s)"
    and "after_decision s0 d s \<Longrightarrow> after_decision s0 d (env s)"
  using reached_env [OF assms] knows_topology_follows knows_review_follows decision_follows
  unfolding before_decision_def after_decision_def by blast+

lemma required_review_Inr:
  assumes "required_review command (review_get_by_id (rdc_review_request_id command) s) = Inr review"
  shows "review \<in> set (pj_reviews s)" "hr_project_id review = rdc_project_id command"
    "hr_id review = rdc_review_request_id command" "hr_status review = HS_PENDING"
  using assms
  by (auto simp: required_review_def review_get_by_id_def split: option.splits if_splits dest: row_SomeD)

lemma resolve_triple:
  assumes "steady env" and "pcd_review_request_id d = i" "pcd_decision d = k" "pcd_human_principal_id d = h"
  shows "triple (after_decision s0 d) (review_resolve_pending env i k h now)
    (\<lambda>x s. after_decision s0 d s \<and> (x \<longrightarrow> (\<exists>r \<in> set (pj_reviews s). resolves d r))) (reached s0)"
proof (rule triple_call)
  fix s x t assume s: "after_decision s0 d s" and call: "review_resolve_pending env i k h now s = (Inr x, t)"
  show "after_decision s0 d t \<and> (x \<longrightarrow> (\<exists>r \<in> set (pj_reviews t). resolves d r))"
  proof (cases "find (\<lambda>r. hr_id r = i \<and> hr_status r = HS_PENDING) (pj_reviews s)")
    case None
    then show ?thesis using s call by (simp add: review_resolve_pending_def)
  next
    case (Some r)
    then have t: "t = (env s)\<lparr>pj_reviews := map_where (\<lambda>r. hr_id r = i)
        (\<lambda>r. r\<lparr>hr_status := review_status_of (pcd_decision d),
             hr_resolved_by_human_id := Some (pcd_human_principal_id d), hr_updated_at := now\<rparr>) (pj_reviews (env s))\<rparr>"
      using call assms by (simp add: review_resolve_pending_def)
    have e: "after_decision s0 d (env s)" using stable_assertions(4) [OF assms(1) s] .
    then have "reached (env s) t"
      using reached_resolve [OF _ _ assms(2) t] by (simp add: after_decision_def reached_def)
    then have "after_decision s0 d t"
      using e reached_trans decision_follows unfolding after_decision_def reached_def by blast
    moreover obtain y where y: "y \<in> set (pj_reviews (env s))" "hr_id y = i"
      using e assms(2) by (auto simp: after_decision_def reached_def project_inv_def)
    let ?y = "y\<lparr>hr_status := review_status_of (pcd_decision d),
      hr_resolved_by_human_id := Some (pcd_human_principal_id d), hr_updated_at := now\<rparr>"
    have "?y \<in> set (pj_reviews t)" "resolves d ?y"
      using y assms(2) by (simp_all add: t set_map_where resolves_def)
    ultimately show ?thesis by blast
  qed
qed (simp add: review_resolve_pending_def split: option.splits)

definition recorded :: "project_db \<Rightarrow> record_decision_command \<Rightarrow> project_checkpoint_decision_view \<Rightarrow> project_db \<Rightarrow> bool" where
  "recorded s0 command w s \<longleftrightarrow> reached s0 s \<and> (\<exists>d \<in> set (pj_decisions s). w = decision_to_view d \<and>
     pcd_review_request_id d = rdc_review_request_id command \<and> (\<exists>r \<in> set (pj_reviews s). resolves d r))"

lemma decide_triple:
  assumes env: "\<And>n. steady (env n)"
  shows "triple (before_decision s0 command v review) (decide_review notifier env command v review i now)
     (recorded s0 command) (reached s0)"
proof -
  define d where "d = decision_of command review i now"
  have ids: "pcd_review_request_id d = hr_id review" "pcd_decision d = rdc_decision command"
    "pcd_human_principal_id d = rdc_human_principal_id command" "pcd_project_id d = rdc_project_id command"
    by (simp_all add: d_def decision_of_def)
  have made: "make_decision d = Inr x \<Longrightarrow> x = d" for x
    by (auto simp: make_decision_def rbind_eq_Inr_iff)
  have notified: "notify_decision notifier v review (decision_to_view d) = Inr w \<Longrightarrow> w = decision_to_view d" for w
    by (auto simp: notify_decision_def rbind_eq_Inr_iff split: option.splits if_splits)
  let ?B = "\<lambda>s. before_decision s0 command v review s \<and> entitled v d"
  let ?A = "\<lambda>s. hr_id review = rdc_review_request_id command \<and> after_decision s0 d s"
  show ?thesis
    unfolding decide_review_def d_def [symmetric]
  proof (rule triple_bind [where R = "\<lambda>_. ?B"], goal_cases)
    case 1
    show ?case
      by (rule triple_lift) (auto simp: before_decision_def d_def intro: authorize_decision_entitled)
  next
    case (2 a)
    show ?case
    proof (rule triple_bind [where R = "\<lambda>x s. x = d \<and> ?B s"], goal_cases)
      case 1
      show ?case by (rule triple_lift) (auto simp: before_decision_def dest: made)
    next
      case (2 x)
      show ?case
      proof (rule triple_bind [where R = "\<lambda>_ s. x = d \<and> ?B s"], goal_cases)
        case 1
        show ?case by (rule triple_wait) (auto intro: stable_assertions(3) [OF env])
      next
        case (2 u)
        show ?case
        proof (rule triple_bind [where R = "\<lambda>_ s. x = d \<and> ?A s"], goal_cases)
          case 1
          show ?case
          proof (rule triple_call)
            fix s y t assume s: "x = d \<and> ?B s" and add: "decision_add x s = (Inr y, t)"
            then have "decision_key d = review_key review"
              by (simp add: d_def before_decision_def decision_of_key)
            then have "reached s t \<and> d \<in> set (pj_decisions t)"
              using s reached_decision_add [of s review d v y t] add ids
              by (simp add: before_decision_def reached_def)
            then show "x = d \<and> ?A t"
              using s reached_trans unfolding after_decision_def before_decision_def by blast
          next
            fix s e t assume "x = d \<and> ?B s" and "decision_add x s = (Inl e, t)"
            then show "reached s0 t" by (auto simp: decision_add_def before_decision_def split: if_splits)
          qed
        next
          case (2 y)
          show ?case
          proof (rule triple_bind [where R = "\<lambda>_ s. x = d \<and> ?A s"], goal_cases)
            case 1
            show ?case by (rule triple_wait) (auto intro: stable_assertions(4) [OF env])
          next
            case (2 z)
            show ?case
            proof (rule triple_bind [where R = "\<lambda>y s. x = d \<and> hr_id review = rdc_review_request_id command \<and>
                after_decision s0 d s \<and> (y \<longrightarrow> (\<exists>r \<in> set (pj_reviews s). resolves d r))"], goal_cases)
              case 1
              show ?case by (intro triple_pure resolve_triple [OF env]) (simp_all add: ids)
            next
              case (2 resolved)
              show ?case
              proof (cases resolved)
                case False
                then show ?thesis by (auto intro!: triple_raise simp: after_decision_def)
              next
                case True
                then show ?thesis
                  using notified ids
                    by (auto intro!: triple_lift bexI [of _ d] simp: after_decision_def recorded_def)
              qed
            qed
          qed
        qed
      qed
    qed
  qed
qed

lemma record_triple:
  assumes env: "\<And>n. steady (env n)"
  shows "triple (reached s0) (checkpoint_record notifier env command i now) (recorded s0 command) (reached s0)"
  unfolding checkpoint_record_def
proof (rule triple_bind [where R = "\<lambda>found s. reached s0 s \<and>
    (\<forall>v. found = Some v \<longrightarrow> knows_topology (rdc_project_id command) v s)"], goal_cases)
  case 1
  show ?case
    by (rule triple_call) (auto simp: reached_def get_topology_view knows_topology_def)
next
  case (2 found)
  show ?case
  proof (cases found)
    case None
    then show ?thesis by (auto intro!: triple_raise)
  next
    case (Some v)
    let ?P = "\<lambda>s. reached s0 s \<and> knows_topology (rdc_project_id command) v s"
    have "triple ?P (pbind (pwait (env 0)) (\<lambda>_. pbind (pget (review_get_by_id (rdc_review_request_id command)))
        (\<lambda>found. pbind (plift (required_review command found))
        (\<lambda>review. decide_review notifier env command v review i now)))) (recorded s0 command) (reached s0)"
    proof (rule triple_bind [where R = "\<lambda>_. ?P"], goal_cases)
      case 1
      show ?case by (rule triple_wait) (rule stable_assertions(2) [OF env])
    next
      case (2 u)
      show ?case
      proof (rule triple_bind [where R = "\<lambda>found s. ?P s \<and> found = review_get_by_id (rdc_review_request_id command) s"],
          goal_cases)
        case 1
        show ?case by (rule triple_get) simp
      next
        case (2 found)
        show ?case
        proof (rule triple_bind [where R = "\<lambda>review. before_decision s0 command v review"], goal_cases)
          case 1
          show ?case
            by (rule triple_lift)
              (auto simp: before_decision_def knows_review_def dest: required_review_Inr)
        next
          case (2 review)
          show ?case by (rule decide_triple [OF env])
        qed
      qed
    qed
    then show ?thesis by (simp add: Some)
  qed
qed

lemma record_reached:
  assumes env: "\<And>n. steady (env n)" and s: "project_inv s"
    and call: "checkpoint_record notifier env command i now s = (r, t)"
  shows "reached s t"
proof (cases r)
  case (Inl e)
  have "reached s s" using s by simp
  from triple_Inl [OF record_triple [OF env] this call [unfolded Inl]] show ?thesis .
next
  case (Inr w)
  have "reached s s" using s by simp
  from triple_Inr [OF record_triple [OF env] this call [unfolded Inr]] have "recorded s command w t" .
  then show ?thesis by (simp add: recorded_def)
qed

lemma evaluate_reached:
  assumes env: "\<And>n. steady (env n)" and s: "project_inv s"
    and call: "checkpoint_evaluate texts env q i now s = (res, t)"
  shows "reached s t"
proof -
  have waited: "reached s (env 1 (env 0 s))" "reached s (env 2 (env 1 (env 0 s)))" "reached s (env 0 s)"
    using reached_env [OF env] s by (meson reached_refl)+
  have requested: "reached s u" if requests: "request_review (env 2) q title summary i now reason (env 1 (env 0 s)) = (r, u)"
    for title summary reason r u
  proof (cases "new_review q title summary i now")
    case (Inl e)
    then show ?thesis using that waited by (simp add: request_review_def)
  next
    case (Inr request)
    then have "hr_status request = HS_PENDING"
      by (auto simp: new_review_def make_review_def rbind_eq_Inr_iff)
    moreover obtain res' where "review_ensure (env 2) request (env 1 (env 0 s)) = (res', u)"
      using requests Inr by (auto simp: request_review_def pbind_def preturn_def plift_def split: prod.splits sum.splits)
    ultimately have "u = env 1 (env 0 s) \<or> reached (env 2 (env 1 (env 0 s))) u"
      using reached_ensure waited by (auto simp: reached_def)
    then show ?thesis using waited reached_trans by blast
  qed
  show ?thesis
  proof (cases "stopped_gate (map_option pt_to_view (look s (ev_project_id q)))")
    case (Some g)
    then show ?thesis
      using call s by (simp add: checkpoint_evaluate_def pbind_def get_topology_view preturn_def)
  next
    case None
    then show ?thesis
      using call s requested waited
      by (auto simp: checkpoint_evaluate_def pbind_def get_topology_view preturn_def pwait_def pget_def
          split: if_splits option.splits)
  qed
qed

lemma control_topology_Inr:
  assumes "control_topology command status found = Inr p" and "\<And>q. found = Some q \<Longrightarrow> valid_topology q"
  shows "\<exists>q. found = Some q \<and> p = q\<lparr>pt_operational_status := status\<rparr> \<and>
     (pt_operational_status q = PO_CANCELLED \<longrightarrow> status = PO_CANCELLED) \<and>
     had_allowed (authorize_human (pt_to_view q) (control_request command))"
  using assms
  by (auto simp: control_topology_def Let_def pt_with_operational_status_Inr_iff split: option.splits if_splits)

lemma reached_tables:
  assumes s: "project_inv s" and ok: "tables_ok tables" and t: "t = s\<lparr>pj_tables := tables\<rparr>"
    and kept: "\<And>i p. look s i = Some p \<Longrightarrow> \<exists>q. pg_look tables i = Some q \<and> same_policy p q"
  shows "reached s t"
proof -
  have look: "look t = pg_look tables" by (simp add: look_def t)
  have "\<exists>q. pg_look tables (pcd_project_id d) = Some q \<and> entitled (pt_to_view q) d"
    if "d \<in> set (pj_decisions s)" for d
    using that s kept entitled_policy unfolding project_inv_def by metis
  then have "project_inv t"
    using s ok unfolding project_inv_def look by (simp add: t)
  moreover have "project_follows s t"
    using kept unfolding project_follows_def look by (auto simp: t intro: review_follows_refl)
  ultimately show ?thesis by (simp add: reached_def)
qed

lemma reached_add:
  assumes s: "project_inv s" and p: "valid_topology p"
    and call: "in_tables (pg_topology_add p key fingerprint) s = (res, t)"
  shows "reached s t"
proof -
  have ok: "tables_ok (pj_tables s)" using s by (simp add: project_inv_def)
  show ?thesis
    by (rule reached_tables [OF s table_store.add_inv [OF ok p, of key fingerprint]])
      (use call table_store.add_keeps_policy [OF ok p] in
        \<open>auto simp: in_tables_def look_def split: prod.splits\<close>)
qed

lemma reached_save:
  assumes s: "project_inv s" and p: "look s (pt_project_id q) = Some p" "same_policy p q" "valid_topology q"
    and call: "in_tables (pg_topology_save q) s = (res, t)"
  shows "reached s t"
proof -
  have ok: "tables_ok (pj_tables s)" using s by (simp add: project_inv_def)
  note looked = p(1) [unfolded look_def]
  show ?thesis
    by (rule reached_tables [OF s table_store.save_inv [OF ok looked p(2,3)]])
      (use call table_store.save_keeps_policy [OF ok looked p(2,3)] in
        \<open>auto simp: in_tables_def look_def split: prod.splits\<close>)
qed

lemma look_valid: "project_inv s \<Longrightarrow> look s i = Some p \<Longrightarrow> valid_topology p \<and> pt_project_id p = i"
  using table_store.look_valid [of "pj_tables s" i p] by (simp add: project_inv_def look_def)

lemma control_reached:
  assumes env: "steady env" and s: "project_inv s" and call: "lifecycle_control env command s = (res, t)"
  shows "reached s t"
proof (cases "status_by_action (cpc_action command)")
  case None
  then show ?thesis using call s by (simp add: lifecycle_control_def praise_def)
next
  case (Some status)
  show ?thesis
  proof (cases "control_topology command status (look s (cpc_project_id command))")
    case (Inl e)
    then show ?thesis
      using call s Some by (simp add: lifecycle_control_def pbind_def get_topology_row plift_def)
  next
    case (Inr q)
    then obtain p where p: "look s (cpc_project_id command) = Some p" "q = p\<lparr>pt_operational_status := status\<rparr>"
      using control_topology_Inr [OF Inr] look_valid [OF s] by blast
    have e: "reached s (env s)" using env s by (simp add: steady_def)
    then obtain p' where p': "look (env s) (cpc_project_id command) = Some p'" "same_policy p p'"
      using p(1) unfolding reached_def project_follows_def by blast
    have "pt_project_id q = cpc_project_id command" "valid_topology q"
      using look_valid [OF s p(1)] by (simp_all add: p(2))
    moreover have "same_policy p' q"
      unfolding p(2) by (rule same_policy_trans [OF same_policy_sym [OF p'(2)] same_policy_status])
    moreover obtain res' where "in_tables (pg_topology_save q) (env s) = (res', t)"
      using call s Some Inr
      by (auto simp: lifecycle_control_def pbind_def get_topology_row plift_def pwait_def preturn_def
          split: prod.splits sum.splits)
    moreover have "project_inv (env s)" using e by (simp add: reached_def)
    ultimately have "reached (env s) t" using reached_save p'(1) by metis
    then show ?thesis using e reached_trans by blast
  qed
qed

subsection \<open>Every interleaving\<close>

text \<open>
  \<open>project_run s t\<close>: the database goes from \<open>s\<close> to \<open>t\<close> by calls of the services and the topology
  store. What others do at an await of a call is itself a run.
\<close>

inductive project_run :: "project_db \<Rightarrow> project_db \<Rightarrow> bool" where
  start: "project_run s s"
| record_decision: "project_run s t \<Longrightarrow> \<forall>n x. project_run x (env n x) \<Longrightarrow>
    checkpoint_record notifier env command i now t = (r, u) \<Longrightarrow> project_run s u"
| evaluate_gate: "project_run s t \<Longrightarrow> \<forall>n x. project_run x (env n x) \<Longrightarrow>
    checkpoint_evaluate texts env q i now t = (g, u) \<Longrightarrow> project_run s u"
| control_project: "project_run s t \<Longrightarrow> \<forall>x. project_run x (env x) \<Longrightarrow>
    lifecycle_control env control t = (v, u) \<Longrightarrow> project_run s u"
| create_topology: "project_run s t \<Longrightarrow> valid_topology p \<Longrightarrow>
    in_tables (pg_topology_add p key fingerprint) t = (a, u) \<Longrightarrow> project_run s u"
| update_teams: "project_run s t \<Longrightarrow> look t (pt_project_id p') = Some p \<Longrightarrow> same_policy p p' \<Longrightarrow>
    valid_topology p' \<Longrightarrow> in_tables (pg_topology_save p') t = (a, u) \<Longrightarrow> project_run s u"

lemma run_reached: "project_run s t \<Longrightarrow> project_inv s \<longrightarrow> reached s t"
proof (induction rule: project_run.induct)
  case (record_decision s t env notifier command i now r u)
  then have env: "steady (env n)" for n by (simp add: steady_def)
  then show ?case using record_decision record_reached reached_trans by (meson reached_def)
next
  case (evaluate_gate s t env texts q i now g u)
  then have "steady (env n)" for n by (simp add: steady_def)
  then show ?case using evaluate_gate evaluate_reached reached_trans by (meson reached_def)
next
  case (control_project s t env control v u)
  then have "steady env" by (simp add: steady_def)
  then show ?case using control_project control_reached reached_trans by (meson reached_def)
next
  case (create_topology s t p key fingerprint a u)
  then show ?case using reached_add reached_trans by (meson reached_def)
next
  case (update_teams s t p' p a u)
  then show ?case using reached_save reached_trans by (meson reached_def)
qed simp

definition empty_project_db :: project_db where
  "empty_project_db = \<lparr>pj_tables = \<lparr>tt_topologies = [], tt_teams = [], tt_drafts = []\<rparr>,
     pj_decisions = [], pj_reviews = []\<rparr>"

lemma empty_project_inv: "project_inv empty_project_db"
  by (simp add: project_inv_def empty_project_db_def tables_ok_def teams_unique_def)

lemma run_inv: "project_run empty_project_db t \<Longrightarrow> project_inv t"
  using run_reached empty_project_inv reached_def by blast

lemma run_steady: "\<forall>x. project_run x (env x) \<Longrightarrow> steady env"
  by (simp add: steady_def run_reached)

end
