(* ===== verification/Project_Properties.thy ===== *)
theory Project_Properties
  imports Project_Safety
begin

text \<open>
  What the human checkpoints and the lifecycle of a project guarantee, and two places where they
  do not do what they mean to.
\<close>

subsection \<open>A sample project\<close>

definition sample_team :: repository_team where
  "sample_team = \<lparr>rt_project_id = 1, rt_repository_id = 2, rt_leader_agent_id = 3, rt_worker_agent_ids = [4],
     rt_id = 6, rt_agentteams_team_name = Some ''team'', rt_runtime_status = PR_READY, rt_room_id = None,
     rt_leader_room_id = None, rt_decomposition_mode = DM_SERVER\<rparr>"

definition sample_topology :: project_agent_topology where
  "sample_topology = \<lparr>pt_organization_id = 8, pt_project_id = 1, pt_organization_leader_id = 9,
     pt_repository_teams = [sample_team], pt_execution_mode = PX_SUPERVISED,
     pt_required_checkpoints = {PCP_DELIVERY},
     pt_human_grants = [\<lparr>hg_human_principal_id = 5, hg_role = HR_PROJECT_SUPERVISOR, hg_code_access = CL_NONE,
       hg_control_actions = {HC_APPROVE_CHECKPOINT, HC_PAUSE_PROJECT, HC_CANCEL_PROJECT}, hg_repository_id = None,
       hg_path_patterns = []\<rparr>],
     pt_operational_status = PO_ACTIVE, pt_id = 7\<rparr>"

lemma sample_topology_valid: "valid_topology sample_topology"
  by (simp add: valid_topology_def topology_rules_def team_set_rules_def policy_rules_def grant_scope_rule_def
      sample_topology_def sample_team_def team_agents_def valid_team_def team_rules_def valid_grant_def grant_rules_def)

definition sample_tables :: topology_tables where
  "sample_tables = snd (pg_topology_add sample_topology ''key'' ''f'' (pj_tables empty_project_db))"

definition sample_db :: "project_checkpoint_decision list \<Rightarrow> human_review_request list \<Rightarrow> project_db" where
  "sample_db decisions reviews = \<lparr>pj_tables = sample_tables, pj_decisions = decisions, pj_reviews = reviews\<rparr>"

lemma sample_add: "in_tables (pg_topology_add sample_topology ''key'' ''f'') empty_project_db = (Inr (), sample_db [] [])"
  by (simp add: in_tables_def sample_db_def sample_tables_def pg_topology_add_def empty_project_db_def
      teams_unique_def team_records_def sample_topology_def)

lemma sample_project_run: "project_run empty_project_db (sample_db [] [])"
  by (rule project_run.create_topology [OF project_run.start sample_topology_valid sample_add])

lemma sample_look: "look (sample_db decisions reviews) 1 = Some sample_topology"
proof -
  have "pg_topology_add sample_topology ''key'' ''f'' (pj_tables empty_project_db) = (Inr (), sample_tables)"
    using sample_add by (simp add: in_tables_def sample_tables_def split: prod.splits)
  moreover have "tables_ok (pj_tables empty_project_db)" using empty_project_inv by (simp add: project_inv_def)
  ultimately have "pg_look sample_tables = (pg_look (pj_tables empty_project_db))(1 \<mapsto> by_repository sample_topology)"
    using pg_add_Inr sample_topology_valid by (fastforce simp: sample_topology_def)
  moreover have "by_repository sample_topology = sample_topology"
    by (simp add: by_repository_def sample_topology_def)
  ultimately show ?thesis by (simp add: look_def sample_db_def)
qed

definition sample_texts :: review_texts where
  "sample_texts = \<lparr>tx_pending_title = \<lambda>_. ''t'', tx_pending_summary = ''s'', tx_stale_title = \<lambda>_. ''t'',
     tx_stale_summary = ''s''\<rparr>"

definition sample_evaluation :: "string \<Rightarrow> evaluation" where
  "sample_evaluation version = \<lparr>ev_project_id = 1, ev_checkpoint = PCP_DELIVERY, ev_evidence_version = version,
     ev_repository_id = None, ev_requested_by_agent_id = None, ev_title = None, ev_summary = None\<rparr>"

definition sample_review :: "string \<Rightarrow> uuid \<Rightarrow> datetime \<Rightarrow> human_review_request" where
  "sample_review version i now = \<lparr>hr_project_id = 1, hr_checkpoint = PCP_DELIVERY, hr_evidence_version = version,
     hr_title = ''t'', hr_summary = ''s'', hr_repository_id = None, hr_requested_by_agent_id = None,
     hr_status = HS_PENDING, hr_resolved_by_human_id = None, hr_id = i, hr_created_at = now, hr_updated_at = now\<rparr>"

definition sample_resolved :: "datetime \<Rightarrow> human_review_request \<Rightarrow> human_review_request" where
  "sample_resolved now r = r\<lparr>hr_status := HS_APPROVED, hr_resolved_by_human_id := Some 5, hr_updated_at := now\<rparr>"

definition sample_command :: "uuid \<Rightarrow> record_decision_command" where
  "sample_command i = \<lparr>rdc_project_id = 1, rdc_review_request_id = i, rdc_human_principal_id = 5,
     rdc_decision = CD_APPROVED, rdc_reason = ''ok'', rdc_actor_is_admin = False\<rparr>"

definition sample_decision :: "string \<Rightarrow> uuid \<Rightarrow> datetime \<Rightarrow> project_checkpoint_decision" where
  "sample_decision version i now = decision_of (sample_command i) (sample_review version i 0) (i + 100) now"

lemma sample_authorised:
  "authorize_human (pt_to_view sample_topology) (decision_request (sample_command i) (sample_review v j now)) =
     \<lparr>had_allowed = True, had_reason = ''allowed''\<rparr>"
  by (simp add: authorize_human_def Let_def pt_to_view_def sample_topology_def grant_to_view_def decision_request_def
      sample_command_def sample_review_def in_scope_def grant_allows_def request_path_def)

subsection \<open>An open gate\<close>

lemma latest_decision_SomeD:
  assumes "latest_decision i checkpoint repository db = Some d"
  shows "d \<in> set (pj_decisions db)" "pcd_project_id d = i" "pcd_checkpoint d = checkpoint" "pcd_repository_id d = repository"
    "\<And>x. x \<in> set (pj_decisions db) \<Longrightarrow> pcd_project_id x = i \<Longrightarrow> pcd_checkpoint x = checkpoint \<Longrightarrow>
       pcd_repository_id x = repository \<Longrightarrow> pcd_decided_at x \<le> pcd_decided_at d"
proof -
  let ?of = "\<lambda>d. pcd_project_id d = i \<and> pcd_checkpoint d = checkpoint \<and> pcd_repository_id d = repository"
  let ?sorted = "sort_key (\<lambda>d. - pcd_decided_at d) (filter ?of (pj_decisions db))"
  obtain ds where ds: "?sorted = d # ds"
    using assms by (auto simp: latest_decision_def split: list.splits)
  have members: "set (d # ds) = {x \<in> set (pj_decisions db). ?of x}"
    unfolding ds [symmetric] by auto
  then show "d \<in> set (pj_decisions db)" "pcd_project_id d = i" "pcd_checkpoint d = checkpoint"
    "pcd_repository_id d = repository"
    by auto
  fix x assume "x \<in> set (pj_decisions db)" "pcd_project_id x = i" "pcd_checkpoint x = checkpoint"
    "pcd_repository_id x = repository"
  then have "x \<in> set (d # ds)" using members by blast
  moreover have "sorted (map (\<lambda>d. - pcd_decided_at d) (d # ds))"
    unfolding ds [symmetric] by simp
  ultimately show "pcd_decided_at x \<le> pcd_decided_at d" by (auto simp: sorted_simps(2))
qed

text \<open>The gate, given what the call reads.\<close>

lemma evaluate_run:
  assumes "project_inv s"
  shows "checkpoint_evaluate texts env q i now s =
    (case stopped_gate (map_option pt_to_view (look s (ev_project_id q))) of
       Some gate \<Rightarrow> (Inr gate, s)
     | None \<Rightarrow>
         if \<not> requires_human_checkpoint (pt_to_view (the (look s (ev_project_id q)))) (ev_checkpoint q)
         then (Inr (permitted ''human_checkpoint_not_required''), s)
         else (case latest_decision (ev_project_id q) (ev_checkpoint q) (ev_repository_id q) (env 0 s) of
             None \<Rightarrow> request_review (env 2) q (tx_pending_title texts (ev_checkpoint q))
                 (tx_pending_summary texts) i now ''human_checkpoint_pending'' (env 1 (env 0 s))
           | Some d \<Rightarrow>
               if pcd_evidence_version d \<noteq> py_strip (ev_evidence_version q)
               then request_review (env 2) q (tx_stale_title texts (ev_checkpoint q))
                 (tx_stale_summary texts) i now ''human_checkpoint_evidence_stale'' (env 1 (env 0 s))
               else (Inr (decided_gate d), env 0 s)))"
proof (cases "look s (ev_project_id q)")
  case None
  then show ?thesis
    by (simp add: checkpoint_evaluate_def pbind_def get_topology_view [OF assms] stopped_gate_def preturn_def)
next
  case (Some p)
  then show ?thesis
    by (simp add: checkpoint_evaluate_def pbind_def get_topology_view [OF assms] preturn_def pwait_def pget_def
        split: option.split)
qed

lemma request_review_denied:
  "request_review env q title summary i now reason s = (Inr gate, t) \<Longrightarrow> gate = denied reason"
  by (auto simp: request_review_def pbind_def plift_def preturn_def split: prod.splits sum.splits)

lemma stopped_gate_None: "stopped_gate found = None \<Longrightarrow> \<exists>v. found = Some v \<and> ptv_operational_status v = PO_ACTIVE"
  by (cases found; cases "ptv_operational_status (the found)") (auto simp: stopped_gate_def split: if_splits)

lemma stopped_gate_denied: "stopped_gate found = Some gate \<Longrightarrow> \<not> cgd_allowed gate"
  by (auto simp: stopped_gate_def split: option.splits if_splits)

text \<open>C37: Whatever calls ran and however they interleave, an open checkpoint gate means that the project is
  active and, where its policy asks for a person, that the latest decision on this checkpoint
  and repository approves exactly the evidence asked about and was made by a person to whom a
  grant of the project gives the approval of checkpoints there.\<close>

theorem open_gate_has_approval:
  assumes "project_run empty_project_db s" and "\<forall>n x. project_run x (env n x)"
    and "checkpoint_evaluate texts env q i now s = (Inr gate, t)" and "cgd_allowed gate"
  shows "\<exists>p. look s (ev_project_id q) = Some p \<and> pt_operational_status p = PO_ACTIVE \<and>
    (requires_human_checkpoint (pt_to_view p) (ev_checkpoint q) \<longrightarrow>
      (\<exists>d. latest_decision (ev_project_id q) (ev_checkpoint q) (ev_repository_id q) t = Some d \<and>
         pcd_evidence_version d = py_strip (ev_evidence_version q) \<and> pcd_decision d = CD_APPROVED \<and>
         granted (pt_to_view p) d))"
proof -
  have inv: "project_inv s" using assms(1) by (rule run_inv)
  let ?found = "look s (ev_project_id q)"
  note run = assms(3) [unfolded evaluate_run [OF inv]]
  have "stopped_gate (map_option pt_to_view ?found) = None"
    using run stopped_gate_denied assms(4) by (cases "stopped_gate (map_option pt_to_view ?found)") auto
  moreover from stopped_gate_None [OF this] obtain p where "?found = Some p" "pt_operational_status p = PO_ACTIVE"
    by (auto simp: pt_to_view_def)
  ultimately have "\<exists>p. ?found = Some p \<and> pt_operational_status p = PO_ACTIVE \<and> stopped_gate (Some (pt_to_view p)) = None"
    by simp
  then obtain p where p: "?found = Some p" "pt_operational_status p = PO_ACTIVE"
    "stopped_gate (Some (pt_to_view p)) = None"
    by blast
  show ?thesis
  proof (intro exI [of _ p] conjI p(1,2) impI)
    assume required: "requires_human_checkpoint (pt_to_view p) (ev_checkpoint q)"
    then obtain d where d: "latest_decision (ev_project_id q) (ev_checkpoint q) (ev_repository_id q) (env 0 s) = Some d"
      "pcd_evidence_version d = py_strip (ev_evidence_version q)" "gate = decided_gate d" "t = env 0 s"
      using run p assms(4) by (auto split: option.splits if_splits dest!: request_review_denied)
    have reached: "reached s (env 0 s)"
      using assms(2) inv run_reached by blast
    have in_t: "d \<in> set (pj_decisions t)" "pcd_project_id d = ev_project_id q" "pcd_checkpoint d = ev_checkpoint q"
      using latest_decision_SomeD [OF d(1)] d(4) by simp_all
    obtain p' where p': "look t (ev_project_id q) = Some p'" "same_policy p p'"
      using reached p(1) d(4) unfolding reached_def project_follows_def by blast
    have "entitled (pt_to_view p') d"
      using reached in_t p'(1) unfolding reached_def d(4) project_inv_def by fastforce
    then have "granted (pt_to_view p) d"
      using required in_t(3) entitled_policy [OF p'(2), of d] by (simp add: entitled_def)
    moreover have "pcd_decision d = CD_APPROVED"
      using d(3) assms(4) by (auto simp: decided_gate_def split: if_splits)
    ultimately show "\<exists>d. latest_decision (ev_project_id q) (ev_checkpoint q) (ev_repository_id q) t = Some d \<and>
         pcd_evidence_version d = py_strip (ev_evidence_version q) \<and> pcd_decision d = CD_APPROVED \<and>
         granted (pt_to_view p) d"
      using d by blast
  qed
qed

lemma idle_run: "\<forall>n x. project_run x ((\<lambda>_. id) n x)"
  by (simp add: project_run.start)

lemma sample_gate:
  assumes "project_inv (sample_db ds rs)"
  shows "checkpoint_evaluate sample_texts (\<lambda>_. id) (sample_evaluation v) i now (sample_db ds rs) =
    (case latest_decision 1 PCP_DELIVERY None (sample_db ds rs) of
       None \<Rightarrow> request_review id (sample_evaluation v) ''t'' ''s'' i now ''human_checkpoint_pending'' (sample_db ds rs)
     | Some d \<Rightarrow>
         if pcd_evidence_version d \<noteq> py_strip v
         then request_review id (sample_evaluation v) ''t'' ''s'' i now ''human_checkpoint_evidence_stale'' (sample_db ds rs)
         else (Inr (decided_gate d), sample_db ds rs))"
proof -
  have "stopped_gate (Some (pt_to_view sample_topology)) = None"
    "requires_human_checkpoint (pt_to_view sample_topology) PCP_DELIVERY"
    by (simp_all add: stopped_gate_def requires_human_checkpoint_def pt_to_view_def sample_topology_def)
  then show ?thesis
    by (simp add: evaluate_run [OF assms] sample_look sample_evaluation_def sample_texts_def split: option.split)
qed

lemmas sample_states = sample_evaluation_def latest_decision_def request_review_def new_review_def make_review_def
  review_ensure_def text_or_def review_key_def preturn_def plift_def pbind_def blank_def
  py_strip_def py_isspace_def sample_db_def sample_review_def sample_decision_def sample_resolved_def
  decision_of_def sample_command_def

lemma sample_request:
  "checkpoint_evaluate sample_texts (\<lambda>_. id) (sample_evaluation ''v1'') 10 0 (sample_db [] []) =
     (Inr (denied ''human_checkpoint_pending''), sample_db [] [sample_review ''v1'' 10 0])"
  unfolding sample_gate [OF run_inv [OF sample_project_run]] by (simp add: sample_states)

lemma sample_requested_run: "project_run empty_project_db (sample_db [] [sample_review ''v1'' 10 0])"
  by (rule project_run.evaluate_gate [OF sample_project_run idle_run sample_request])

lemma sample_record:
  assumes "project_inv (sample_db ds rs)" and "review_get_by_id i (sample_db ds rs) = Some (sample_review version i 0)"
    and "\<forall>d \<in> set ds. pcd_review_request_id d \<noteq> i \<and> pcd_id d \<noteq> i + 100" and "\<not> blank version"
  shows "checkpoint_record None (\<lambda>_. id) (sample_command i) (i + 100) now (sample_db ds rs) =
    (Inr (decision_to_view (sample_decision version i now)),
     sample_db (ds @ [sample_decision version i now])
       (map_where (\<lambda>r. hr_id r = i) (sample_resolved now) rs))"
proof -
  let ?d = "sample_decision version i now"
  have d: "decision_of (sample_command i) (sample_review version i 0) (i + 100) now = ?d"
    by (simp add: sample_decision_def)
  have fields: "pcd_review_request_id ?d = i" "pcd_id ?d = i + 100" "\<not> blank (pcd_reason ?d)"
    "pcd_evidence_version ?d = version"
    by (simp_all add: sample_decision_def decision_of_def sample_command_def sample_review_def blank_def
        py_strip_def py_isspace_def)
  have make: "make_decision ?d = Inr ?d" using assms(4) fields by (simp add: make_decision_def)
  have add: "decision_add ?d (sample_db ds rs) = (Inr (), sample_db (ds @ [?d]) rs)"
    using assms(3) fields by (auto simp: decision_add_def sample_db_def)
  have auth: "authorize_decision (pt_to_view sample_topology) (sample_command i) (sample_review version i 0) =
      Inr \<lparr>had_allowed = True, had_reason = ''allowed''\<rparr>"
    by (simp add: authorize_decision_def Let_def sample_authorised)
  have found: "find (\<lambda>r. hr_id r = i \<and> hr_status r = HS_PENDING) rs = Some (sample_review version i 0)"
  proof -
    have "find (\<lambda>r. hr_id r = i) rs = Some (sample_review version i 0)"
      using assms(2) by (simp add: review_get_by_id_def row_def sample_db_def)
    then show ?thesis by (induction rs) (auto simp: sample_review_def split: if_splits)
  qed
  have resolve: "review_resolve_pending id i CD_APPROVED 5 now (sample_db (ds @ [?d]) rs) =
      (Inr True, sample_db (ds @ [?d]) (map_where (\<lambda>r. hr_id r = i) (sample_resolved now) rs))"
    using found by (simp add: review_resolve_pending_def sample_db_def map_where_def sample_resolved_def)
  have required: "required_review (sample_command i) (Some (sample_review version i 0)) = Inr (sample_review version i 0)"
    by (simp add: required_review_def sample_command_def sample_review_def)
  have command: "rdc_project_id (sample_command i) = 1" "rdc_review_request_id (sample_command i) = i"
    "rdc_decision (sample_command i) = CD_APPROVED" "rdc_human_principal_id (sample_command i) = 5"
    "hr_id (sample_review version i 0) = i"
    by (simp_all add: sample_command_def sample_review_def)
  have "decide_review None (\<lambda>_. id) (sample_command i) (pt_to_view sample_topology) (sample_review version i 0)
      (i + 100) now (sample_db ds rs) =
    (Inr (decision_to_view ?d), sample_db (ds @ [?d]) (map_where (\<lambda>r. hr_id r = i) (sample_resolved now) rs))"
    unfolding decide_review_def d auth
    by (simp add: pbind_def plift_def make pwait_def add resolve command notify_decision_def)
  then show ?thesis
    unfolding checkpoint_record_def command
    by (simp add: pbind_def get_topology_view [OF assms(1)] sample_look pwait_def pget_def assms(2) required plift_def)
qed

lemma sample_decided:
  shows sample_decide: "checkpoint_record None (\<lambda>_. id) (sample_command 10) 110 1 (sample_db [] [sample_review ''v1'' 10 0]) =
      (Inr (decision_to_view (sample_decision ''v1'' 10 1)),
       sample_db [sample_decision ''v1'' 10 1] [sample_resolved 1 (sample_review ''v1'' 10 0)])" (is ?call)
    and sample_decided_run: "project_run empty_project_db
      (sample_db [sample_decision ''v1'' 10 1] [sample_resolved 1 (sample_review ''v1'' 10 0)])" (is ?run)
proof -
  let ?r = "sample_review ''v1'' 10 0"
  have "checkpoint_record None (\<lambda>_. id) (sample_command 10) (10 + 100) 1 (sample_db [] [?r]) =
    (Inr (decision_to_view (sample_decision ''v1'' 10 1)),
     sample_db ([] @ [sample_decision ''v1'' 10 1]) (map_where (\<lambda>r. hr_id r = 10) (sample_resolved 1) [?r]))"
    by (rule sample_record [OF run_inv [OF sample_requested_run]])
      (simp_all add: review_get_by_id_def row_def sample_states)
  moreover have "map_where (\<lambda>r. hr_id r = 10) (sample_resolved 1) [?r] = [sample_resolved 1 ?r]"
    by (simp add: map_where_def sample_review_def)
  ultimately have "checkpoint_record None (\<lambda>_. id) (sample_command 10) 110 1 (sample_db [] [?r]) =
    (Inr (decision_to_view (sample_decision ''v1'' 10 1)),
     sample_db [sample_decision ''v1'' 10 1] [sample_resolved 1 ?r])"
    by simp
  then show ?call .
  from project_run.record_decision [OF sample_requested_run idle_run this] show ?run .
qed

theorem open_gate_has_approval_witness:
  "\<exists>p. look (sample_db [sample_decision ''v1'' 10 1] [sample_resolved 1 (sample_review ''v1'' 10 0)]) 1 = Some p \<and>
     pt_operational_status p = PO_ACTIVE"
proof -
  let ?s = "sample_db [sample_decision ''v1'' 10 1] [sample_resolved 1 (sample_review ''v1'' 10 0)]"
  have "checkpoint_evaluate sample_texts (\<lambda>_. id) (sample_evaluation ''v1'') 12 2 ?s =
      (Inr (permitted ''human_checkpoint_approved''), ?s)"
    unfolding sample_gate [OF run_inv [OF sample_decided_run]]
    by (simp add: sample_states decided_gate_def)
  from open_gate_has_approval [OF sample_decided_run idle_run this]
  show ?thesis by (auto simp: sample_evaluation_def)
qed

subsection \<open>A decided review\<close>

lemma record_refused:
  assumes env: "\<And>n. steady (env n)" and s: "project_inv s" and d: "d \<in> set (pj_decisions s)"
    and id: "pcd_review_request_id d = rdc_review_request_id command"
  shows "\<exists>e. fst (checkpoint_record notifier env command i now s) = Inl e"
proof (cases "look s (rdc_project_id command)")
  case None
  then show ?thesis by (simp add: checkpoint_record_def pbind_def get_topology_view [OF s] praise_def)
next
  case (Some p)
  let ?s = "env 0 s"
  have "d \<in> set (pj_decisions (env 1 ?s))"
    using reached_env [OF env] s d decision_follows by (meson reached_refl)
  then have refuse: "decision_add x (env 1 ?s) = (Inl (topology_conflict ''review request was already decided''), env 1 ?s)"
    if "pcd_review_request_id x = pcd_review_request_id d" for x
    using that by (auto simp: decision_add_def)
  have "\<exists>e. fst (decide_review notifier env command v review i now ?s) = Inl e"
    if review: "hr_id review = rdc_review_request_id command" for v review
  proof -
    let ?x = "decision_of command review i now"
    have "pcd_review_request_id ?x = pcd_review_request_id d" using review id by (simp add: decision_of_def)
    note refused = refuse [OF this]
    have "make_decision ?x = Inr y \<Longrightarrow> y = ?x" for y by (auto simp: make_decision_def rbind_eq_Inr_iff)
    then consider e where "make_decision ?x = Inl e" | "make_decision ?x = Inr ?x"
      by (cases "make_decision ?x") auto
    then show ?thesis
      by cases (use refused in \<open>auto simp: decide_review_def pbind_def plift_def pwait_def split: sum.splits\<close>)
  qed
  then show ?thesis
    using Some
    by (auto simp: checkpoint_record_def pbind_def get_topology_view [OF s] pwait_def pget_def plift_def
        split: sum.splits dest!: required_review_Inr(3))
qed

text \<open>A review is decided at most once: after a recorded decision, whatever else runs, recording
  another one for that review is refused, and the review keeps the outcome and the person of
  the first.\<close>

theorem review_decided_once:
  assumes "project_run empty_project_db s" and "\<forall>n x. project_run x (env n x)"
    and "checkpoint_record notifier env command i now s = (Inr w, t)" and "project_run t u"
    and "\<forall>n x. project_run x (env' n x)" and "rdc_review_request_id command' = rdc_review_request_id command"
    and "checkpoint_record notifier' env' command' i' now' u = (res, v)"
  shows "(\<exists>e. res = Inl e) \<and> (\<exists>r \<in> set (pj_reviews v). hr_id r = rdc_review_request_id command \<and>
    hr_status r = review_status_of (cdv_decision w) \<and>
    hr_resolved_by_human_id r = Some (cdv_human_principal_id w))"
proof -
  have env: "steady (env n)" "steady (env' n)" for n using assms(2,5) run_steady by blast+
  have "project_inv s" using assms(1) by (rule run_inv)
  then have "recorded s command w t"
    using triple_Inr [OF record_triple [OF env(1)] _ assms(3)] by simp
  then obtain d r where d: "d \<in> set (pj_decisions t)" "w = decision_to_view d"
    "pcd_review_request_id d = rdc_review_request_id command" and r: "r \<in> set (pj_reviews t)" "resolves d r"
    and t: "project_inv t"
    by (auto simp: recorded_def reached_def)
  have tu: "reached t u" using assms(4) t run_reached by blast
  moreover have "reached u v"
    using record_reached [OF env(2) _ assms(7)] tu by (simp add: reached_def)
  ultimately obtain r' where r': "r' \<in> set (pj_reviews v)" "review_follows r r'"
    using r(1) reached_trans [of t u v] unfolding reached_def project_follows_def by blast
  have "d \<in> set (pj_decisions u)" using tu d(1) decision_follows by (auto simp: reached_def)
  then obtain e where "res = Inl e"
    using record_refused [where env = env', OF env(2), of u d command' notifier' i' now'] tu d(3) assms(6,7)
    by (auto simp: reached_def)
  moreover have "hr_id r' = rdc_review_request_id command" "hr_status r' = review_status_of (cdv_decision w)"
    "hr_resolved_by_human_id r' = Some (cdv_human_principal_id w)"
    using r(2) r'(2) d(2,3) by (auto simp: resolves_def review_follows_def decision_to_view_def)
  ultimately show ?thesis using r'(1) by blast
qed

theorem review_decided_once_witness:
  "\<exists>e. fst (checkpoint_record None (\<lambda>_. id) (sample_command 10) 111 2
     (sample_db [sample_decision ''v1'' 10 1] [sample_resolved 1 (sample_review ''v1'' 10 0)])) = Inl e"
  using review_decided_once [OF sample_requested_run idle_run sample_decide project_run.start idle_run refl
      prod.collapse [symmetric], of None 111 2]
  by blast

subsection \<open>Evidence that comes back\<close>

text \<open>C38: The gate has no way back to evidence it has left. Once a checkpoint was decided on some evidence and
  later on other evidence, then in every later state of the project the gate is shut for the
  first evidence as long as the policy asks for the checkpoint, even if it had been approved,
  and no decision on it can be recorded: its review is decided and \<open>ensure\<close> never opens a new
  one.\<close>

theorem reverted_evidence_stuck:
  assumes "project_run empty_project_db s" and "d0 \<in> set (pj_decisions s)" and "d \<in> set (pj_decisions s)"
    and "decision_key d0 = (ev_project_id q, ev_checkpoint q, ev_repository_id q, py_strip (ev_evidence_version q))"
    and "pcd_project_id d = ev_project_id q" "pcd_checkpoint d = ev_checkpoint q"
      "pcd_repository_id d = ev_repository_id q"
    and "pcd_decided_at d0 < pcd_decided_at d"
    and "project_run s t" and "\<forall>n x. project_run x (env n x)"
  shows "(\<forall>gate u p. checkpoint_evaluate texts env q i now t = (Inr gate, u) \<and> look t (ev_project_id q) = Some p \<and>
        requires_human_checkpoint (pt_to_view p) (ev_checkpoint q) \<longrightarrow> \<not> cgd_allowed gate) \<and>
    (\<forall>r \<in> set (pj_reviews t). review_key r = decision_key d0 \<and> rdc_review_request_id command = hr_id r \<longrightarrow>
        (\<exists>e. fst (checkpoint_record notifier env command j now t) = Inl e))"
proof -
  have t: "reached s t" "project_inv t"
    using assms(1,9) run_inv run_reached by (blast, meson reached_def run_inv run_reached)
  have env: "steady (env n)" for n using assms(10) run_steady by blast
  have unique: "x = d0" if at: "reached s v" and x: "x \<in> set (pj_decisions v)" "decision_key x = decision_key d0"
    for v x
  proof -
    have v: "project_inv v" "d0 \<in> set (pj_decisions v)"
      using at assms(2) decision_follows by (auto simp: reached_def)
    then obtain r r0 where "r \<in> set (pj_reviews v)" "hr_id r = pcd_review_request_id x" "review_key r = decision_key x"
      "r0 \<in> set (pj_reviews v)" "hr_id r0 = pcd_review_request_id d0" "review_key r0 = decision_key d0"
      using x(1) unfolding project_inv_def by blast
    moreover from this have "r = r0"
      using v(1) x(2) key_unique [of review_key "pj_reviews v" r r0] by (simp add: project_inv_def keyed_def)
    ultimately show ?thesis
      using v x(1) key_unique [of pcd_review_request_id "pj_decisions v" x d0]
      by (simp add: project_inv_def keyed_def)
  qed
  show ?thesis
  proof (intro conjI allI ballI impI)
    fix gate u p
    assume asm: "checkpoint_evaluate texts env q i now t = (Inr gate, u) \<and> look t (ev_project_id q) = Some p \<and>
      requires_human_checkpoint (pt_to_view p) (ev_checkpoint q)"
    show "\<not> cgd_allowed gate"
    proof
      assume allowed: "cgd_allowed gate"
      note run = asm [THEN conjunct1, unfolded evaluate_run [OF t(2)]]
      obtain x where x: "latest_decision (ev_project_id q) (ev_checkpoint q) (ev_repository_id q) (env 0 t) = Some x"
        "pcd_evidence_version x = py_strip (ev_evidence_version q)"
        using run asm allowed
        by (auto split: option.splits if_splits dest!: request_review_denied stopped_gate_denied)
      have v: "reached s (env 0 t)" using reached_env [OF env t(1)] by blast
      note latest = latest_decision_SomeD [OF x(1)]
      have "decision_key x = decision_key d0" using latest(2-4) x(2) assms(4) by (simp add: decision_key_def)
      then have "x = d0" using unique [OF v latest(1)] by blast
      moreover have "d \<in> set (pj_decisions (env 0 t))"
        using v assms(3) decision_follows by (auto simp: reached_def)
      ultimately show False using latest(5) [of d] assms(5-8) by auto
    qed
  next
    fix r assume r: "r \<in> set (pj_reviews t)" "review_key r = decision_key d0 \<and> rdc_review_request_id command = hr_id r"
    have d0: "d0 \<in> set (pj_decisions t)" using t assms(2) decision_follows by (auto simp: reached_def)
    then obtain r0 where "r0 \<in> set (pj_reviews t)" "hr_id r0 = pcd_review_request_id d0" "review_key r0 = decision_key d0"
      using t(2) unfolding project_inv_def by blast
    then have "hr_id r = pcd_review_request_id d0"
      using r t(2) key_unique [of review_key "pj_reviews t" r r0] by (simp add: project_inv_def keyed_def)
    then show "\<exists>e. fst (checkpoint_record notifier env command j now t) = Inl e"
      using record_refused [where env = env, OF env t(2) d0] r(2) by simp
  qed
qed

abbreviation sample_twice :: project_db where
  "sample_twice \<equiv> sample_db [sample_decision ''v1'' 10 1, sample_decision ''v2'' 11 3]
     [sample_resolved 1 (sample_review ''v1'' 10 0), sample_resolved 3 (sample_review ''v2'' 11 0)]"

lemma sample_twice_run: "project_run empty_project_db sample_twice"
proof -
  let ?d1 = "sample_decision ''v1'' 10 1" and ?r1 = "sample_resolved 1 (sample_review ''v1'' 10 0)"
    and ?r2 = "sample_review ''v2'' 11 0"
  have "checkpoint_evaluate sample_texts (\<lambda>_. id) (sample_evaluation ''v2'') 11 0 (sample_db [?d1] [?r1]) =
      (Inr (denied ''human_checkpoint_evidence_stale''), sample_db [?d1] [?r1, ?r2])"
    unfolding sample_gate [OF run_inv [OF sample_decided_run]] by (simp add: sample_states)
  from project_run.evaluate_gate [OF sample_decided_run idle_run this]
  have run: "project_run empty_project_db (sample_db [?d1] [?r1, ?r2])" .
  have "checkpoint_record None (\<lambda>_. id) (sample_command 11) (11 + 100) 3 (sample_db [?d1] [?r1, ?r2]) =
    (Inr (decision_to_view (sample_decision ''v2'' 11 3)),
     sample_db ([?d1] @ [sample_decision ''v2'' 11 3]) (map_where (\<lambda>r. hr_id r = 11) (sample_resolved 3) [?r1, ?r2]))"
    by (rule sample_record [OF run_inv [OF run]]) (simp_all add: review_get_by_id_def row_def sample_states)
  moreover have "map_where (\<lambda>r. hr_id r = 11) (sample_resolved 3) [?r1, ?r2] = [?r1, sample_resolved 3 ?r2]"
    by (simp add: map_where_def sample_review_def sample_resolved_def)
  ultimately have "checkpoint_record None (\<lambda>_. id) (sample_command 11) 111 3 (sample_db [?d1] [?r1, ?r2]) =
    (Inr (decision_to_view (sample_decision ''v2'' 11 3)), sample_twice)"
    by simp
  from project_run.record_decision [OF run idle_run this] show ?thesis .
qed

theorem reverted_evidence_stuck_witness:
  "\<exists>gate. fst (checkpoint_evaluate sample_texts (\<lambda>_. id) (sample_evaluation ''v1'') 12 4 sample_twice) = Inr gate \<and>
     \<not> cgd_allowed gate"
proof -
  have call: "checkpoint_evaluate sample_texts (\<lambda>_. id) (sample_evaluation ''v1'') 12 4 sample_twice =
      (Inr (denied ''human_checkpoint_evidence_stale''), sample_twice)"
    unfolding sample_gate [OF run_inv [OF sample_twice_run]] by (simp add: sample_states)
  have required: "requires_human_checkpoint (pt_to_view sample_topology) (ev_checkpoint (sample_evaluation ''v1''))"
    by (simp add: requires_human_checkpoint_def pt_to_view_def sample_topology_def sample_evaluation_def)
  have looked: "look sample_twice (ev_project_id (sample_evaluation ''v1'')) = Some sample_topology"
    by (simp add: sample_look sample_evaluation_def)
  have d1: "sample_decision ''v1'' 10 1 \<in> set (pj_decisions sample_twice)"
    and d2: "sample_decision ''v2'' 11 3 \<in> set (pj_decisions sample_twice)" by (simp_all add: sample_db_def)
  note fields = decision_key_def sample_decision_def decision_of_def sample_command_def sample_review_def
    sample_evaluation_def py_strip_def py_isspace_def
  have "\<not> cgd_allowed (denied ''human_checkpoint_evidence_stale'')"
  proof (rule reverted_evidence_stuck [OF sample_twice_run d1 d2 _ _ _ _ _ project_run.start idle_run,
      THEN conjunct1, rule_format, OF _ _ _ _ _ conjI [OF call conjI [OF looked required]]])
  qed (simp_all add: fields)
  then show ?thesis using call by simp
qed

subsection \<open>Concurrent lifecycle control\<close>

lemma distinct_map_mset:
  assumes "mset xs = mset ys"
  shows "distinct (map f xs) = distinct (map f ys)"
proof -
  have "mset (map f xs) = mset (map f ys)" using assms by simp
  then show ?thesis by (rule mset_eq_imp_distinct_iff)
qed

lemma teams_unique_mset: "mset xs = mset ys \<Longrightarrow> teams_unique xs = teams_unique ys"
  unfolding teams_unique_def by (simp only: distinct_map_mset [of xs ys])

lemma save_status:
  assumes ok: "tables_ok s" and looked: "pg_look s i = Some p"
  shows "\<exists>t. pg_topology_save (p\<lparr>pt_operational_status := status\<rparr>) s = (Inr (), t)"
proof -
  let ?q = "p\<lparr>pt_operational_status := status\<rparr>"
  obtain r0 p0 where r0: "r0 \<in> set (tt_topologies s)" "stored s r0 p0" "p = by_repository p0"
    using look_SomeD [OF ok looked] by blast
  have id: "tr_id r0 = pt_id ?q" using stored_ids(2) [OF r0(2)] by (simp add: r0(3))
  then have row: "row tr_id (pt_id ?q) (tt_topologies s) = Some r0"
    using ok row_in [of tr_id "tt_topologies s" r0] r0(1) by (simp add: tables_ok_def)
  have "team_record ?q = team_record p0"
    using id by (simp add: team_record_def fun_eq_iff r0(3))
  then have "mset (team_records ?q) = mset (team_records p0)"
    by (simp add: team_records_def r0(3) by_repository_def)
  moreover have "team_records p0 = filter (\<lambda>m. tm_topology_id m = pt_id ?q) (tt_teams s)"
    using r0(2) id by (simp add: stored_def teams_of_def)
  ultimately have "mset (filter (\<lambda>m. tm_topology_id m \<noteq> pt_id ?q) (tt_teams s) @ team_records ?q) = mset (tt_teams s)"
    using multiset_partition [of "mset (tt_teams s)" "\<lambda>m. tm_topology_id m = pt_id ?q"]
    by (simp add: add.commute)
  then have "teams_unique (filter (\<lambda>m. tm_topology_id m \<noteq> pt_id ?q) (tt_teams s) @ team_records ?q)"
    using teams_unique_mset ok by (metis tables_ok_def)
  then show ?thesis by (simp only: pg_topology_save_def Let_def row option.case if_False not_not if_True) simp
qed

text \<open>A control that is allowed, with nothing in between.\<close>

lemma control_run:
  assumes s: "project_inv s" and p: "look s (cpc_project_id command) = Some p"
    and status: "status_by_action (cpc_action command) = Some status"
    and allowed: "had_allowed (authorize_human (pt_to_view p) (control_request command))"
      "pt_operational_status p = PO_CANCELLED \<longrightarrow> status = PO_CANCELLED"
    and env: "reached s (env s)" "look (env s) (cpc_project_id command) = Some p'"
      "pt_repository_teams p' = pt_repository_teams p"
  shows "\<exists>t. lifecycle_control env command s = (Inr (pt_to_view (p\<lparr>pt_operational_status := status\<rparr>)), t) \<and>
    project_inv t \<and> (\<exists>p''. look t (cpc_project_id command) = Some p'' \<and> same_policy p p'' \<and>
      pt_repository_teams p'' = pt_repository_teams p \<and> pt_operational_status p'' = status)"
proof -
  let ?q = "p\<lparr>pt_operational_status := status\<rparr>"
  have valid: "valid_topology p" "pt_project_id p = cpc_project_id command"
    using look_valid [OF s p] by simp_all
  have made: "control_topology command status (look s (cpc_project_id command)) = Inr ?q"
    using allowed valid(1) by (simp add: p control_topology_def Let_def pt_with_operational_status_Inr_iff)
  have policy: "same_policy p p'" using env p unfolding reached_def project_follows_def by fastforce
  have q: "?q = p'\<lparr>pt_operational_status := status\<rparr>"
    using policy env(3) by (cases p; cases p') (simp add: same_policy_def)
  have ok: "tables_ok (pj_tables (env s))" using env(1) by (simp add: reached_def project_inv_def)
  have looked: "pg_look (pj_tables (env s)) (pt_project_id ?q) = Some p'"
    using env(2) valid(2) by (simp add: look_def)
  obtain t where t: "pg_topology_save ?q (pj_tables (env s)) = (Inr (), t)"
    using save_status [OF ok looked, of status] unfolding q by blast
  have "same_policy p' ?q" unfolding q by simp
  then have saved: "tables_ok t \<and> pg_look t = (pg_look (pj_tables (env s)))(pt_project_id ?q \<mapsto> by_repository ?q)"
    using pg_save_Inr [OF ok looked _ _ t] valid(1) by simp
  let ?u = "(env s)\<lparr>pj_tables := t\<rparr>"
  have written: "in_tables (pg_topology_save ?q) (env s) = (Inr (), ?u)" using t by (simp add: in_tables_def)
  have call: "lifecycle_control env command s = (Inr (pt_to_view ?q), ?u)"
    using made status written
    by (simp add: lifecycle_control_def pbind_def get_topology_row [OF s] plift_def pwait_def preturn_def)
  have "reached (env s) ?u"
    using reached_save [OF _ _ _ _ written, of p'] env(1) looked \<open>same_policy p' ?q\<close> valid(1)
    by (simp add: reached_def look_def)
  moreover have "look ?u (cpc_project_id command) = Some (by_repository ?q)"
    using saved valid(2) by (simp add: look_def)
  moreover have "by_repository ?q = ?q"
  proof -
    obtain p0 where "p = by_repository p0" 
      using look_SomeD [of "pj_tables s" "cpc_project_id command" p] p s by (auto simp: project_inv_def look_def)
    then have "by_repository p = p" by simp
    then show ?thesis by (cases p) (simp add: by_repository_def)
  qed
  ultimately show ?thesis using call by (auto simp: reached_def)
qed

text \<open>C39: Controls of one project do not exclude each other: \<open>save\<close> writes the status computed from an
  earlier read over whatever is stored. A person allowed to cancel cancels an active project and
  is answered that it is cancelled; a pause that had read the project before writes paused over
  it, so the project is not cancelled any more, though a cancelled project cannot be resumed.\<close>

theorem stale_pause_uncancels:
  assumes "project_run empty_project_db s" and "look s i = Some p" and "pt_operational_status p = PO_ACTIVE"
    and "had_allowed (authorize_human (pt_to_view p) (control_request \<lparr>cpc_project_id = i, cpc_human_principal_id = h, cpc_action = HC_CANCEL_PROJECT\<rparr>))"
    and "had_allowed (authorize_human (pt_to_view p) (control_request \<lparr>cpc_project_id = i, cpc_human_principal_id = h', cpc_action = HC_PAUSE_PROJECT\<rparr>))"
    and "cancel = lifecycle_control id \<lparr>cpc_project_id = i, cpc_human_principal_id = h, cpc_action = HC_CANCEL_PROJECT\<rparr>"
    and "pause = lifecycle_control (\<lambda>x. snd (cancel x))
      \<lparr>cpc_project_id = i, cpc_human_principal_id = h', cpc_action = HC_PAUSE_PROJECT\<rparr>"
  shows "(\<exists>v p'. fst (cancel s) = Inr v \<and> ptv_operational_status v = PO_CANCELLED \<and>
      look (snd (cancel s)) i = Some p' \<and> pt_operational_status p' = PO_CANCELLED) \<and>
    (\<exists>w p''. fst (pause s) = Inr w \<and> look (snd (pause s)) i = Some p'' \<and> pt_operational_status p'' = PO_PAUSED)"
proof -
  let ?cancel = "\<lparr>cpc_project_id = i, cpc_human_principal_id = h, cpc_action = HC_CANCEL_PROJECT\<rparr>"
  let ?pause = "\<lparr>cpc_project_id = i, cpc_human_principal_id = h', cpc_action = HC_PAUSE_PROJECT\<rparr>"
  have s: "project_inv s" using assms(1) by (rule run_inv)
  obtain t p' where t: "cancel s = (Inr (pt_to_view (p\<lparr>pt_operational_status := PO_CANCELLED\<rparr>)), t)"
    "look t i = Some p'" "pt_operational_status p' = PO_CANCELLED" "pt_repository_teams p' = pt_repository_teams p"
    using control_run [OF s, of ?cancel p PO_CANCELLED id p] assms(2,4) s unfolding assms(6) by auto
  have "reached s t"
    using control_reached [of id s ?cancel "fst (cancel s)" t] t(1) s unfolding assms(6)
    by (simp add: steady_def)
  then obtain u p'' where "pause s = (Inr (pt_to_view (p\<lparr>pt_operational_status := PO_PAUSED\<rparr>)), u)"
    "look u i = Some p''" "pt_operational_status p'' = PO_PAUSED"
    using control_run [OF s, of ?pause p PO_PAUSED "\<lambda>x. snd (cancel x)" p'] assms(2,3,5) t
    unfolding assms(7) by auto
  then show ?thesis using t(1-3) by (simp add: pt_to_view_def)
qed

theorem stale_pause_uncancels_witness:
  "\<exists>w p. fst (lifecycle_control (\<lambda>x. snd (lifecycle_control id
         \<lparr>cpc_project_id = 1, cpc_human_principal_id = 5, cpc_action = HC_CANCEL_PROJECT\<rparr> x))
      \<lparr>cpc_project_id = 1, cpc_human_principal_id = 5, cpc_action = HC_PAUSE_PROJECT\<rparr> (sample_db [] [])) = Inr w \<and>
     look (snd (lifecycle_control (\<lambda>x. snd (lifecycle_control id
         \<lparr>cpc_project_id = 1, cpc_human_principal_id = 5, cpc_action = HC_CANCEL_PROJECT\<rparr> x))
      \<lparr>cpc_project_id = 1, cpc_human_principal_id = 5, cpc_action = HC_PAUSE_PROJECT\<rparr> (sample_db [] []))) 1 = Some p \<and>
     pt_operational_status p = PO_PAUSED"
proof -
  have "had_allowed (authorize_human (pt_to_view sample_topology) (control_request
      \<lparr>cpc_project_id = 1, cpc_human_principal_id = 5, cpc_action = a\<rparr>))"
    if "a \<in> {HC_CANCEL_PROJECT, HC_PAUSE_PROJECT}" for a
    using that
    by (auto simp: authorize_human_iff pt_to_view_def sample_topology_def grant_to_view_def control_request_def
        in_scope_def grant_allows_def request_path_def)
  then have cancel: "had_allowed (authorize_human (pt_to_view sample_topology) (control_request
      \<lparr>cpc_project_id = 1, cpc_human_principal_id = 5, cpc_action = HC_CANCEL_PROJECT\<rparr>))"
    and pause: "had_allowed (authorize_human (pt_to_view sample_topology) (control_request
      \<lparr>cpc_project_id = 1, cpc_human_principal_id = 5, cpc_action = HC_PAUSE_PROJECT\<rparr>))"
    by simp_all
  have active: "pt_operational_status sample_topology = PO_ACTIVE" by (simp add: sample_topology_def)
  from stale_pause_uncancels [OF sample_project_run sample_look active cancel pause refl refl, THEN conjunct2]
  show ?thesis .
qed

end
