(* ===== verification/Leader_Contracts.thy ===== *)
theory Leader_Contracts
  imports Task_Contracts Py_Parse
begin

text \<open>
  The surface through which an external repository leader plans and reviews its own work
  (\<open>modules/task_orchestration/contracts.py\<close>): the phases of a leader assignment, the refusal
  codes, the assignment with its memory, the two decisions with their receipts, and the documents
  they are sent as. A refusal is an exception that carries its code.
\<close>

subsection \<open>Types\<close>

datatype leader_assignment_phase =
    LP_PLANNING
  | LP_EXECUTING
  | LP_REVIEW_DUE
  | LP_CLOSED

fun leader_assignment_phase_value :: "leader_assignment_phase \<Rightarrow> string" where
  "leader_assignment_phase_value LP_PLANNING = ''planning''"
| "leader_assignment_phase_value LP_EXECUTING = ''executing''"
| "leader_assignment_phase_value LP_REVIEW_DUE = ''review_due''"
| "leader_assignment_phase_value LP_CLOSED = ''closed''"

definition leader_assignment_phase_members :: "leader_assignment_phase list" where
  "leader_assignment_phase_members =
     [LP_PLANNING, LP_EXECUTING, LP_REVIEW_DUE, LP_CLOSED]"

interpretation LP: str_enum leader_assignment_phase_value leader_assignment_phase_members
proof
  show "x \<in> set leader_assignment_phase_members" for x
    by (cases x) (simp_all add: leader_assignment_phase_members_def)
qed (simp add: leader_assignment_phase_members_def)

datatype leader_action_error_code =
    LE_INVALID_TOKEN
  | LE_FORBIDDEN_NOT_ASSIGNEE
  | LE_FORBIDDEN_ROLE
  | LE_ASSIGNMENT_NOT_FOUND
  | LE_PHASE_CONFLICT
  | LE_DECOMPOSITION_MODE_CONFLICT
  | LE_PLAN_INVALID_DAG_CYCLE
  | LE_PLAN_INVALID_DAG_COVERAGE
  | LE_PLAN_INVALID_ASSIGNEE
  | LE_PLAN_INVALID_ALLOWED_PATHS
  | LE_PLAN_INVALID_TESTS_REMOVED
  | LE_PLAN_INVALID_PROVENANCE
  | LE_REVIEW_INVALID_FINDINGS

fun leader_action_error_code_value :: "leader_action_error_code \<Rightarrow> string" where
  "leader_action_error_code_value LE_INVALID_TOKEN = ''invalid_token''"
| "leader_action_error_code_value LE_FORBIDDEN_NOT_ASSIGNEE = ''forbidden_not_assignee''"
| "leader_action_error_code_value LE_FORBIDDEN_ROLE = ''forbidden_role''"
| "leader_action_error_code_value LE_ASSIGNMENT_NOT_FOUND = ''assignment_not_found''"
| "leader_action_error_code_value LE_PHASE_CONFLICT = ''phase_conflict''"
| "leader_action_error_code_value LE_DECOMPOSITION_MODE_CONFLICT = ''decomposition_mode_conflict''"
| "leader_action_error_code_value LE_PLAN_INVALID_DAG_CYCLE = ''plan_invalid_dag_cycle''"
| "leader_action_error_code_value LE_PLAN_INVALID_DAG_COVERAGE = ''plan_invalid_dag_coverage''"
| "leader_action_error_code_value LE_PLAN_INVALID_ASSIGNEE = ''plan_invalid_assignee''"
| "leader_action_error_code_value LE_PLAN_INVALID_ALLOWED_PATHS = ''plan_invalid_allowed_paths''"
| "leader_action_error_code_value LE_PLAN_INVALID_TESTS_REMOVED = ''plan_invalid_tests_removed''"
| "leader_action_error_code_value LE_PLAN_INVALID_PROVENANCE = ''plan_invalid_provenance''"
| "leader_action_error_code_value LE_REVIEW_INVALID_FINDINGS = ''review_invalid_findings''"

definition leader_action_error_code_members :: "leader_action_error_code list" where
  "leader_action_error_code_members =
     [LE_INVALID_TOKEN, LE_FORBIDDEN_NOT_ASSIGNEE, LE_FORBIDDEN_ROLE, LE_ASSIGNMENT_NOT_FOUND,
      LE_PHASE_CONFLICT, LE_DECOMPOSITION_MODE_CONFLICT, LE_PLAN_INVALID_DAG_CYCLE,
      LE_PLAN_INVALID_DAG_COVERAGE, LE_PLAN_INVALID_ASSIGNEE, LE_PLAN_INVALID_ALLOWED_PATHS,
      LE_PLAN_INVALID_TESTS_REMOVED, LE_PLAN_INVALID_PROVENANCE, LE_REVIEW_INVALID_FINDINGS]"

interpretation LE: str_enum leader_action_error_code_value leader_action_error_code_members
proof
  show "x \<in> set leader_action_error_code_members" for x
    by (cases x) (simp_all add: leader_action_error_code_members_def)
qed (simp add: leader_action_error_code_members_def)

record leader_safety_envelope_view =
  lse_allowed_path_roots :: "string list"
  lse_test_paths :: "string list"
  lse_test_commands :: "string list"

record worker_roster_entry_view =
  wre_worker_agent_id :: uuid
  wre_worker_name :: string
  wre_responsibility_paths :: "string list"

record worker_evidence_view =
  wev_worker_task_id :: uuid
  wev_worker_agent_id :: uuid
  wev_status :: task_status
  wev_run_id :: "uuid option"
  wev_commit_sha :: "string option"
  wev_changed_files :: "string list"
  wev_test_results :: "task_test_result_view list"
  wev_diff_stat :: "string option"
  wev_summary :: "string option"

record leader_review_evidence_view =
  lre_review_revision :: int
  lre_worker_evidence :: "worker_evidence_view list"

record accepted_plan_view =
  apl_fingerprint :: string
  apl_plan_revision :: int
  apl_worker_task_ids :: "uuid list"
  apl_decision :: json

record accepted_review_view =
  arv_fingerprint :: string
  arv_verdict :: string
  arv_review_revision :: int
  arv_leader_task_status :: string
  arv_rework_task_ids :: "uuid list"

record leader_assignment_view =
  la_leader_task_id :: uuid
  la_organization_id :: uuid
  la_project_id :: uuid
  la_repository_id :: uuid
  la_leader_agent_id :: uuid
  la_phase :: leader_assignment_phase
  la_safety_envelope :: leader_safety_envelope_view
  la_worker_roster :: "worker_roster_entry_view list"
  la_review_revision :: int
  la_accepted_plan :: "accepted_plan_view option"
  la_review_evidence :: "leader_review_evidence_view option"
  la_accepted_reviews :: "accepted_review_view list"

record repository_task_facts_view =
  rtf_title :: string
  rtf_instruction :: string
  rtf_acceptance :: string

record repository_dependency_edge =
  rde_upstream_repository_id :: uuid
  rde_downstream_repository_id :: uuid

record repository_assignment_package =
  rap_assignment :: leader_assignment_view
  rap_repository_task :: repository_task_facts_view
  rap_advisory_dependency_edges :: "repository_dependency_edge list"
  rap_advisory_discovery_evidence :: "string option"
  rap_advisory_decomposition_hint :: "string option"

record leader_provenance_view =
  lpv_source :: string
  lpv_session_thread_id :: string
  lpv_turn_id :: "string option"

record leader_worker_task_draft =
  lwd_node_id :: string
  lwd_assignee_worker_agent_id :: uuid
  lwd_title :: string
  lwd_instruction :: string
  lwd_allowed_paths :: "string list"
  lwd_tests :: "string list"
  lwd_database_change :: database_change_requirement

record repository_plan_decision =
  rpd_engineering_spec_summary :: string
  rpd_engineering_spec_markdown :: string
  rpd_nodes :: "string list"
  rpd_edges :: "(string \<times> string) list"
  rpd_worker_tasks :: "leader_worker_task_draft list"
  rpd_provenance :: leader_provenance_view
  rpd_raw :: json

record plan_receipt =
  plr_leader_task_id :: uuid
  plr_plan_revision :: int
  plr_worker_task_ids :: "uuid list"

datatype leader_review_verdict =
    LV_APPROVE
  | LV_REQUEST_REWORK
  | LV_ESCALATE

fun leader_review_verdict_value :: "leader_review_verdict \<Rightarrow> string" where
  "leader_review_verdict_value LV_APPROVE = ''approve''"
| "leader_review_verdict_value LV_REQUEST_REWORK = ''request_rework''"
| "leader_review_verdict_value LV_ESCALATE = ''escalate''"

definition leader_review_verdict_members :: "leader_review_verdict list" where
  "leader_review_verdict_members =
     [LV_APPROVE, LV_REQUEST_REWORK, LV_ESCALATE]"

interpretation LV: str_enum leader_review_verdict_value leader_review_verdict_members
proof
  show "x \<in> set leader_review_verdict_members" for x
    by (cases x) (simp_all add: leader_review_verdict_members_def)
qed (simp add: leader_review_verdict_members_def)

record leader_review_finding =
  lrf_worker_task_id :: uuid
  lrf_note :: string
  lrf_rework_instruction :: "string option"

record repository_review_decision =
  rrd_verdict :: leader_review_verdict
  rrd_summary :: string
  rrd_findings :: "leader_review_finding list"
  rrd_provenance :: leader_provenance_view
  rrd_raw :: json

record review_receipt =
  rvr_leader_task_id :: uuid
  rvr_verdict :: leader_review_verdict
  rvr_review_revision :: int
  rvr_leader_task_status :: string
  rvr_rework_task_ids :: "uuid list"

record assign_task_command =
  atc_organization_id :: uuid
  atc_project_id :: uuid
  atc_repository_id :: uuid
  atc_assigned_by_agent_id :: uuid
  atc_assignee_agent_id :: uuid
  atc_title :: string
  atc_instruction :: string
  atc_acceptance :: "string list"
  atc_parent_task_id :: "uuid option"
  atc_database_change :: database_change_requirement

record report_task_command =
  rtc_task_id :: uuid
  rtc_reporter_agent_id :: uuid
  rtc_status :: task_status
  rtc_summary :: string
  rtc_plan_version :: int
  rtc_plan_revision_needed :: bool

record supersede_task_command =
  stc_task_id :: uuid
  stc_reason :: string
  stc_superseded_by_task_id :: "uuid option"

record project_task_progress =
  tpg_project_id :: uuid
  tpg_total :: int
  tpg_assigned :: int
  tpg_in_progress :: int
  tpg_blocked :: int
  tpg_succeeded :: int
  tpg_failed :: int
  tpg_cancelled :: int

record published_task_package =
  ptp_team_name :: string
  ptp_task_path :: string
  ptp_content_hash :: string

subsection \<open>Refusals\<close>

definition leader_action_refused :: "leader_action_error_code \<Rightarrow> string \<Rightarrow> exc" where
  "leader_action_refused code message =
     ModuleError (''LeaderActionRefused '' @ leader_action_error_code_value code) message"

lemma leader_action_refused_code [simp]:
  "leader_action_refused c m = leader_action_refused d n \<longleftrightarrow> c = d \<and> m = n"
  by (auto simp: leader_action_refused_def LE.value_eq_iff)

subsection \<open>Lookups\<close>

definition accepted_review :: "leader_assignment_view \<Rightarrow> int \<Rightarrow> accepted_review_view option" where
  "accepted_review a review_revision =
     find (\<lambda>r. arv_review_revision r = review_revision) (la_accepted_reviews a)"

definition rework_findings :: "repository_review_decision \<Rightarrow> leader_review_finding list" where
  "rework_findings d =
     filter (\<lambda>f. case lrf_rework_instruction f of None \<Rightarrow> False | Some t \<Rightarrow> t \<noteq> []) (rrd_findings d)"

definition leader_provenance_source :: string where
  "leader_provenance_source = ''leader-codex-session''"

subsection \<open>Documents on the wire\<close>

text \<open>\<open>text if len(text) <= limit else text[:limit]\<close>.\<close>

definition clamp_text :: "string \<Rightarrow> nat \<Rightarrow> string" where
  "clamp_text t limit = (if length t \<le> limit then t else take limit t)"

definition wire_title_limit :: nat where
  "wire_title_limit = 200"

definition wire_worker_name_limit :: nat where
  "wire_worker_name_limit = 100"

definition texts_json :: "string list \<Rightarrow> json" where
  "texts_json ts = JList (map JStr ts)"

definition uuids_json :: "uuid list \<Rightarrow> json" where
  "uuids_json us = JList (map uuid_json us)"

text \<open>\<open>if value: wire[key] = value\<close>.\<close>

definition text_item :: "string \<Rightarrow> string option \<Rightarrow> (string \<times> json) list" where
  "text_item key text' = (case text' of None \<Rightarrow> [] | Some t \<Rightarrow> if t = [] then [] else [(key, JStr t)])"

definition evidence_wire :: "worker_evidence_view \<Rightarrow> json" where
  "evidence_wire e = JObject
     ([(''workerTaskId'', uuid_json (wev_worker_task_id e)),
       (''workerAgentId'', uuid_json (wev_worker_agent_id e)),
       (''status'', JStr (task_status_value (wev_status e))),
       (''runId'', opt_json uuid_json (wev_run_id e)),
       (''commitSha'', opt_json JStr (wev_commit_sha e)),
       (''changedFiles'', texts_json (wev_changed_files e)),
       (''testResults'', JList (map (\<lambda>r. JObject [(''command'', JStr (ttr_command r)),
          (''exitCode'', JInt (ttr_exit_code r))]) (wev_test_results e)))] @
      text_item ''diffStat'' (wev_diff_stat e) @ text_item ''summary'' (wev_summary e))"

definition review_evidence_wire :: "leader_review_evidence_view \<Rightarrow> json" where
  "review_evidence_wire e = JObject
     [(''reviewRevision'', JInt (lre_review_revision e)),
      (''workerEvidence'', JList (map evidence_wire (lre_worker_evidence e)))]"

definition shows_evidence :: "leader_assignment_phase \<Rightarrow> bool" where
  "shows_evidence phase \<longleftrightarrow> phase \<in> {LP_REVIEW_DUE, LP_CLOSED}"

definition advisory_wire :: "repository_assignment_package \<Rightarrow> json" where
  "advisory_wire p = JObject
     ([(''authoritative'', JBool False)] @
      text_item ''discoveryEvidence'' (rap_advisory_discovery_evidence p) @
      (if rap_advisory_dependency_edges p = [] then []
       else [(''dependencyEdges'', JList (map (\<lambda>e. JObject
          [(''upstreamRepositoryId'', uuid_json (rde_upstream_repository_id e)),
           (''downstreamRepositoryId'', uuid_json (rde_downstream_repository_id e))])
          (rap_advisory_dependency_edges p)))]) @
      text_item ''decompositionHint'' (rap_advisory_decomposition_hint p))"

definition package_to_wire :: "repository_assignment_package \<Rightarrow> json result" where
  "package_to_wire p =
     (let a = rap_assignment p
      in if shows_evidence (la_phase a) \<and> la_review_evidence a = None
         then Inl (leader_action_refused LE_PHASE_CONFLICT
           ''this assignment is in a review phase but carries no evidence package'')
         else Inr (JObject
           [(''schemaVersion'', JStr ''repomesh.leader-actions.assignment-package.v1''),
            (''leaderTaskId'', uuid_json (la_leader_task_id a)),
            (''phase'', JStr (leader_assignment_phase_value (la_phase a))),
            (''organizationId'', uuid_json (la_organization_id a)),
            (''projectId'', uuid_json (la_project_id a)),
            (''repositoryId'', uuid_json (la_repository_id a)),
            (''repositoryTask'', JObject
               [(''title'', JStr (clamp_text (rtf_title (rap_repository_task p)) wire_title_limit)),
                (''instruction'', JStr (rtf_instruction (rap_repository_task p))),
                (''acceptance'', JStr (rtf_acceptance (rap_repository_task p)))]),
            (''workerRoster'', JList (map (\<lambda>w. JObject
               [(''workerAgentId'', uuid_json (wre_worker_agent_id w)),
                (''workerName'', JStr (clamp_text (wre_worker_name w) wire_worker_name_limit)),
                (''responsibilityPaths'', texts_json (wre_responsibility_paths w))])
               (la_worker_roster a))),
            (''safetyEnvelope'', JObject
               [(''allowedPathRoots'', texts_json (lse_allowed_path_roots (la_safety_envelope a))),
                (''testPaths'', texts_json (lse_test_paths (la_safety_envelope a))),
                (''testCommands'', texts_json (lse_test_commands (la_safety_envelope a)))]),
            (''advisoryContext'', advisory_wire p),
            (''reviewEvidence'',
               (if shows_evidence (la_phase a)
                then opt_json review_evidence_wire (la_review_evidence a) else JNull))]))"

definition plan_receipt_to_wire :: "plan_receipt \<Rightarrow> json" where
  "plan_receipt_to_wire r = JObject
     [(''schemaVersion'', JStr ''repomesh.leader-actions.plan-receipt.v1''),
      (''leaderTaskId'', uuid_json (plr_leader_task_id r)),
      (''planRevision'', JInt (plr_plan_revision r)),
      (''workerTaskIds'', uuids_json (plr_worker_task_ids r))]"

definition review_receipt_to_wire :: "review_receipt \<Rightarrow> json" where
  "review_receipt_to_wire r = JObject
     [(''schemaVersion'', JStr ''repomesh.leader-actions.review-receipt.v1''),
      (''leaderTaskId'', uuid_json (rvr_leader_task_id r)),
      (''verdict'', JStr (leader_review_verdict_value (rvr_verdict r))),
      (''reviewRevision'', JInt (rvr_review_revision r)),
      (''leaderTaskStatus'', JStr (rvr_leader_task_status r)),
      (''reworkTaskIds'', uuids_json (rvr_rework_task_ids r))]"

text \<open>A review phase shows its evidence, a planning phase never does.\<close>

lemma package_shows_evidence:
  "package_to_wire p = Inr wire \<Longrightarrow>
     json_get wire ''reviewEvidence'' =
       Some (if shows_evidence (la_phase (rap_assignment p))
             then review_evidence_wire (the (la_review_evidence (rap_assignment p))) else JNull)"
  by (auto simp: package_to_wire_def Let_def opt_json_def split: if_splits)

end
