(* ===== verification/Task_Store.thy ===== *)
theory Task_Store
  imports Task_Domain Execution_Plan Leader_Contracts Store_Contracts
begin

text \<open>
  The in-memory stores of task orchestration (\<open>modules/task_orchestration/infrastructure.py\<close>):
  tasks and plans under their ids and idempotency keys, and leader assignments. Tasks and plans are
  updated by compare and swap on their version; leader assignments are not.
\<close>

subsection \<open>Tasks\<close>

record task_store =
  ts_tasks :: "(uuid, task) dict"
  ts_idempotency :: "(string, uuid \<times> string) dict"

definition ts_add :: "task \<Rightarrow> string \<Rightarrow> string \<Rightarrow> (task_store, unit) proc" where
  "ts_add t idempotency_key request_fingerprint s =
     (if dict_get (ts_tasks s) (tk_id t) \<noteq> None \<or> dict_get (ts_idempotency s) idempotency_key \<noteq> None
      then (Inl (TaskConflict ''task already exists''), s)
      else (Inr (), s\<lparr>ts_tasks := dict_set (tk_id t) t (ts_tasks s),
                      ts_idempotency := dict_set idempotency_key (tk_id t, request_fingerprint) (ts_idempotency s)\<rparr>))"

definition ts_get :: "task_store \<Rightarrow> uuid \<Rightarrow> task option" where
  "ts_get s task_id = dict_get (ts_tasks s) task_id"

definition ts_get_view :: "task_store \<Rightarrow> uuid \<Rightarrow> task_view option result" where
  "ts_get_view s task_id =
     (case ts_get s task_id of None \<Rightarrow> Inr None | Some t \<Rightarrow> rbind (tk_to_view t) (\<lambda>v. Inr (Some v)))"

definition ts_get_by_idempotency_key :: "task_store \<Rightarrow> string \<Rightarrow> (task \<times> string) option result" where
  "ts_get_by_idempotency_key s idempotency_key =
     (case dict_get (ts_idempotency s) idempotency_key of
        None \<Rightarrow> Inr None
      | Some (task_id, fingerprint) \<Rightarrow>
          (case dict_get (ts_tasks s) task_id of
             None \<Rightarrow> Inl (KeyError (uuid_str task_id)) | Some t \<Rightarrow> Inr (Some (t, fingerprint))))"

definition ts_assignment_key :: "task_store \<Rightarrow> uuid \<Rightarrow> string option" where
  "ts_assignment_key s task_id =
     map_option fst (find (\<lambda>(key, bound_id, fingerprint). bound_id = task_id) (ts_idempotency s))"

definition ts_update :: "task \<Rightarrow> int \<Rightarrow> (task_store, unit) proc" where
  "ts_update t expected_version s =
     (case ts_get s (tk_id t) of
        None \<Rightarrow> (Inl (TaskConflict ''task version changed''), s)
      | Some current \<Rightarrow>
          if tk_version current \<noteq> expected_version
          then (Inl (TaskConflict ''task version changed''), s)
          else (Inr (), s\<lparr>ts_tasks := dict_set (tk_id t) t (ts_tasks s)\<rparr>))"

definition ts_list_by_project :: "task_store \<Rightarrow> uuid \<Rightarrow> task list" where
  "ts_list_by_project s project_id = filter (\<lambda>t. tk_project_id t = project_id) (dict_values (ts_tasks s))"

definition ts_list_all :: "task_store \<Rightarrow> task list" where
  "ts_list_all s = dict_values (ts_tasks s)"

definition ts_list_by_parent :: "task_store \<Rightarrow> uuid \<Rightarrow> task list" where
  "ts_list_by_parent s parent_task_id =
     filter (\<lambda>t. tk_parent_task_id t = Some parent_task_id) (dict_values (ts_tasks s))"

text \<open>Every task is stored under its id, and a key is bound to a stored task.\<close>

definition ts_ok :: "task_store \<Rightarrow> bool" where
  "ts_ok s \<longleftrightarrow> distinct (dict_keys (ts_tasks s)) \<and> (\<forall>i t. dict_get (ts_tasks s) i = Some t \<longrightarrow> tk_id t = i) \<and>
     (\<forall>key i f. dict_get (ts_idempotency s) key = Some (i, f) \<longrightarrow> i \<in> fst ` set (ts_tasks s))"

lemma ts_ok_id: "ts_ok s \<Longrightarrow> ts_get s i = Some t \<Longrightarrow> tk_id t = i"
  by (simp add: ts_ok_def ts_get_def)

lemma ts_ok_binding:
  "ts_ok s \<Longrightarrow> dict_get (ts_idempotency s) key = Some (i, f) \<Longrightarrow> \<exists>t. dict_get (ts_tasks s) i = Some t"
  unfolding ts_ok_def by (metis dict_get_None_iff option.exhaust)

lemma ts_ok_set: "ts_ok s \<Longrightarrow> ts_ok (s\<lparr>ts_tasks := dict_set (tk_id t) t (ts_tasks s)\<rparr>)"
  by (auto simp: ts_ok_def split: if_splits)

interpretation task_versions: versioned_store TaskConflict ts_get ts_update tk_id tk_version
  by unfold_locales (auto simp: ts_get_def ts_update_def split: option.splits)

definition ts_bound :: "task_store \<Rightarrow> string \<Rightarrow> (string \<times> task \<times> string) option" where
  "ts_bound s key = (case ts_get_by_idempotency_key s key of Inr (Some (t, f)) \<Rightarrow> Some (key, t, f) | _ \<Rightarrow> None)"

lemma ts_ok_lookup: "ts_ok s \<Longrightarrow> ts_get_by_idempotency_key s key = Inr (map_option snd (ts_bound s key))"
  by (cases "dict_get (ts_idempotency s) key")
    (auto simp: ts_bound_def ts_get_by_idempotency_key_def dest!: ts_ok_binding split: option.splits)

interpretation task_keys: keyed_store TaskConflict ts_bound "\<lambda>(key, t, f). ts_add t key f" fst ts_ok
  "\<lambda>s (key, t, f). ts_get s (tk_id t) = None"
proof unfold_locales
  fix s :: task_store and v :: "string \<times> task \<times> string" and k
  assume ok: "ts_ok s" and none: "ts_bound s (fst v) = None"
    and unused: "case v of (key, t, f) \<Rightarrow> ts_get s (tk_id t) = None"
  obtain key t f where v: "v = (key, t, f)" by (cases v)
  have free: "dict_get (ts_idempotency s) key = None" "dict_get (ts_tasks s) (tk_id t) = None"
    using none unused v ts_ok_binding [OF ok, of key]
    by (cases "dict_get (ts_idempotency s) key"; force simp: ts_bound_def ts_get_def ts_get_by_idempotency_key_def)+
  let ?s = "s\<lparr>ts_tasks := dict_set (tk_id t) t (ts_tasks s), ts_idempotency := dict_set key (tk_id t, f) (ts_idempotency s)\<rparr>"
  have add: "ts_add t key f s = (Inr (), ?s)" using free by (simp add: ts_add_def)
  have "ts_ok ?s" unfolding ts_ok_def
  proof (intro conjI allI impI)
    show "distinct (dict_keys (ts_tasks ?s))" using ok by (simp add: ts_ok_def distinct_dict_set)
    show "tk_id u = i" if "dict_get (ts_tasks ?s) i = Some u" for i u
      using that ts_ok_id [OF ok] by (simp add: ts_get_def split: if_splits)
    show "i \<in> fst ` set (ts_tasks ?s)" if "dict_get (ts_idempotency ?s) k = Some (i, f)" for k i f
    proof (cases "k = key")
      case False
      then have "dict_get (ts_idempotency s) k = Some (i, f)" using that by simp
      then have "i \<in> fst ` set (ts_tasks s)" using ok unfolding ts_ok_def by blast
      then show ?thesis by simp
    qed (use that in simp)
  qed
  moreover have "ts_bound ?s k = (if k = fst v then Some v else ts_bound s k)"
    using v free ts_ok_binding [OF ok, of k]
    by (cases "dict_get (ts_idempotency s) k") (auto simp: ts_bound_def ts_get_by_idempotency_key_def)
  ultimately show "fst ((case v of (key, t, f) \<Rightarrow> ts_add t key f) s) = Inr () \<and>
      ts_bound (snd ((case v of (key, t, f) \<Rightarrow> ts_add t key f) s)) k = (if k = fst v then Some v else ts_bound s k) \<and>
      ts_ok (snd ((case v of (key, t, f) \<Rightarrow> ts_add t key f) s))"
    using add v by simp
qed (auto simp: ts_bound_def ts_add_def ts_get_by_idempotency_key_def split: option.splits sum.splits)

subsection \<open>Execution plans\<close>

record plan_store =
  ps_plans :: "(uuid, execution_plan) dict"
  ps_idempotency :: "(string, uuid) dict"

definition ps_add :: "execution_plan \<Rightarrow> string \<Rightarrow> (plan_store, unit) proc" where
  "ps_add p idempotency_key s =
     (if dict_get (ps_plans s) (ep_id p) \<noteq> None \<or> dict_get (ps_idempotency s) idempotency_key \<noteq> None
      then (Inl (TaskConflict ''execution plan already exists''), s)
      else (Inr (), s\<lparr>ps_plans := dict_set (ep_id p) p (ps_plans s),
                      ps_idempotency := dict_set idempotency_key (ep_id p) (ps_idempotency s)\<rparr>))"

definition ps_get :: "plan_store \<Rightarrow> uuid \<Rightarrow> execution_plan option" where
  "ps_get s plan_id = dict_get (ps_plans s) plan_id"

definition ps_get_by_idempotency_key :: "plan_store \<Rightarrow> string \<Rightarrow> execution_plan option" where
  "ps_get_by_idempotency_key s idempotency_key =
     (case dict_get (ps_idempotency s) idempotency_key of None \<Rightarrow> None | Some i \<Rightarrow> ps_get s i)"

definition ps_update :: "execution_plan \<Rightarrow> int \<Rightarrow> (plan_store, unit) proc" where
  "ps_update p expected_version s =
     (case ps_get s (ep_id p) of
        None \<Rightarrow> (Inl (TaskConflict ''execution plan version changed''), s)
      | Some current \<Rightarrow>
          if ep_version current \<noteq> expected_version
          then (Inl (TaskConflict ''execution plan version changed''), s)
          else (Inr (), s\<lparr>ps_plans := dict_set (ep_id p) p (ps_plans s)\<rparr>))"

definition ps_find_by_leader_task :: "plan_store \<Rightarrow> uuid \<Rightarrow> execution_plan option" where
  "ps_find_by_leader_task s leader_task_id =
     find (\<lambda>p. \<exists>batch \<in> set (ep_batches p). \<exists>t \<in> set batch. prt_leader_task_id t = Some leader_task_id)
       (dict_values (ps_plans s))"

definition ps_list_all :: "plan_store \<Rightarrow> execution_plan list" where
  "ps_list_all s = dict_values (ps_plans s)"

definition ps_ok :: "plan_store \<Rightarrow> bool" where
  "ps_ok s \<longleftrightarrow> distinct (dict_keys (ps_plans s)) \<and> (\<forall>i p. dict_get (ps_plans s) i = Some p \<longrightarrow> ep_id p = i) \<and>
     (\<forall>key i. dict_get (ps_idempotency s) key = Some i \<longrightarrow> i \<in> fst ` set (ps_plans s))"

lemma ps_ok_id: "ps_ok s \<Longrightarrow> ps_get s i = Some p \<Longrightarrow> ep_id p = i"
  by (simp add: ps_ok_def ps_get_def)

lemma ps_ok_binding:
  "ps_ok s \<Longrightarrow> dict_get (ps_idempotency s) key = Some i \<Longrightarrow> \<exists>p. dict_get (ps_plans s) i = Some p"
  unfolding ps_ok_def by (metis dict_get_None_iff option.exhaust)

lemma ps_ok_set: "ps_ok s \<Longrightarrow> ps_ok (s\<lparr>ps_plans := dict_set (ep_id p) p (ps_plans s)\<rparr>)"
  by (auto simp: ps_ok_def split: if_splits)

interpretation plan_versions: versioned_store TaskConflict ps_get ps_update ep_id ep_version
  by unfold_locales (auto simp: ps_get_def ps_update_def split: option.splits)

interpretation plan_keys: keyed_store TaskConflict "\<lambda>s key. map_option (Pair key) (ps_get_by_idempotency_key s key)"
  "\<lambda>(key, p). ps_add p key" fst ps_ok "\<lambda>s (key, p). ps_get s (ep_id p) = None"
proof unfold_locales
  fix s :: plan_store and v :: "string \<times> execution_plan" and k
  assume ok: "ps_ok s" and none: "map_option (Pair (fst v)) (ps_get_by_idempotency_key s (fst v)) = None"
    and unused: "case v of (key, p) \<Rightarrow> ps_get s (ep_id p) = None"
  obtain key p where v: "v = (key, p)" by (cases v)
  have free: "dict_get (ps_idempotency s) key = None" "dict_get (ps_plans s) (ep_id p) = None"
    using none unused v ps_ok_binding [OF ok, of key]
    by (cases "dict_get (ps_idempotency s) key"; force simp: ps_get_def ps_get_by_idempotency_key_def)+
  let ?s = "s\<lparr>ps_plans := dict_set (ep_id p) p (ps_plans s), ps_idempotency := dict_set key (ep_id p) (ps_idempotency s)\<rparr>"
  have add: "ps_add p key s = (Inr (), ?s)" using free by (simp add: ps_add_def)
  have "ps_ok ?s" unfolding ps_ok_def
  proof (intro conjI allI impI)
    show "distinct (dict_keys (ps_plans ?s))" using ok by (simp add: ps_ok_def distinct_dict_set)
    show "ep_id u = i" if "dict_get (ps_plans ?s) i = Some u" for i u
      using that ps_ok_id [OF ok] by (simp add: ps_get_def split: if_splits)
    show "i \<in> fst ` set (ps_plans ?s)" if "dict_get (ps_idempotency ?s) k = Some i" for k i
    proof (cases "k = key")
      case False
      then have "dict_get (ps_idempotency s) k = Some i" using that by simp
      then have "i \<in> fst ` set (ps_plans s)" using ok unfolding ps_ok_def by blast
      then show ?thesis by simp
    qed (use that in simp)
  qed
  moreover have "map_option (Pair k) (ps_get_by_idempotency_key ?s k) =
      (if k = fst v then Some v else map_option (Pair k) (ps_get_by_idempotency_key s k))"
    using v free ps_ok_binding [OF ok, of k]
    by (cases "dict_get (ps_idempotency s) k") (auto simp: ps_get_by_idempotency_key_def ps_get_def)
  ultimately show "fst ((case v of (key, p) \<Rightarrow> ps_add p key) s) = Inr () \<and>
      map_option (Pair k) (ps_get_by_idempotency_key (snd ((case v of (key, p) \<Rightarrow> ps_add p key) s)) k) =
        (if k = fst v then Some v else map_option (Pair k) (ps_get_by_idempotency_key s k)) \<and>
      ps_ok (snd ((case v of (key, p) \<Rightarrow> ps_add p key) s))"
    using add v by simp
qed (auto simp: ps_add_def ps_get_by_idempotency_key_def split: option.splits)

subsection \<open>Leader assignments\<close>

type_synonym leader_assignment_store = "(uuid, leader_assignment_view) dict"

definition las_ensure :: "leader_assignment_view \<Rightarrow> (leader_assignment_store, leader_assignment_view) proc" where
  "las_ensure a s =
     (case dict_get s (la_leader_task_id a) of
        Some known \<Rightarrow> (Inr known, s) | None \<Rightarrow> (Inr a, dict_set (la_leader_task_id a) a s))"

definition las_get :: "leader_assignment_store \<Rightarrow> uuid \<Rightarrow> leader_assignment_view option" where
  "las_get s leader_task_id = dict_get s leader_task_id"

definition las_save :: "leader_assignment_view \<Rightarrow> (leader_assignment_store, unit) proc" where
  "las_save a s =
     (if dict_get s (la_leader_task_id a) = None
      then (Inl (TaskConflict ''leader assignment does not exist''), s)
      else (Inr (), dict_set (la_leader_task_id a) a s))"

lemma las_ensure_keeps: "las_ensure a s = (Inr b, s') \<Longrightarrow> las_get s i = Some c \<Longrightarrow> las_get s' i = Some c"
  by (auto simp: las_ensure_def las_get_def split: option.splits)

end
