(* ===== verification/Database_Automation.thy ===== *)
theory Database_Automation
  imports Task_Contracts Py_Text "HOL-Library.Sublist"
begin

text \<open>
  What a task's report means for the database (\<open>modules/task_orchestration/database_automation.py\<close>):
  the declared change is compared with the evidence of the run.
\<close>

datatype database_automation_disposition =
    DA_NOT_REQUIRED
  | DA_MANAGER_REVIEW
  | DA_WORKER_REWORK
  | DA_REQUEST_VALIDATION

record database_validation_intent =
  dvi_task_id :: string
  dvi_organization_id :: string
  dvi_project_id :: string
  dvi_repository_id :: string
  dvi_candidate_sha :: string
  dvi_migration_files :: "string list"
  dvi_backfill_files :: "string list"
  dvi_checks :: "string list"
  dvi_idempotency_key :: string

record database_automation_decision =
  dad_disposition :: database_automation_disposition
  dad_reasons :: "string list"
  dad_intent :: "database_validation_intent option"

definition database_path_markers :: "string list" where
  "database_path_markers = [''migrations/'', ''alembic/'', ''db/migrate/'', ''schema/'']"

definition forward_slashes :: "string \<Rightarrow> string" where
  "forward_slashes s = map (\<lambda>c. if c = CHR 0x5C then CHR ''/'' else c) s"

definition database_path :: "string \<Rightarrow> bool" where
  "database_path p \<longleftrightarrow> suffix ''.sql'' (py_lower p) \<or>
     (\<exists>marker \<in> set database_path_markers. sublist marker (forward_slashes (py_lower p)))"

definition manager_review :: "string list \<Rightarrow> database_automation_decision" where
  "manager_review reasons = \<lparr>dad_disposition = DA_MANAGER_REVIEW, dad_reasons = reasons, dad_intent = None\<rparr>"

text \<open>\<open>checks = {item.command: item.exit_code ...}\<close>: the last result of a command counts.\<close>

definition check_results :: "database_change_evidence \<Rightarrow> (string, int) dict" where
  "check_results e = dict_update (map (\<lambda>c. (ttr_command c, ttr_exit_code c)) (dce_checks e)) []"

definition check_reasons :: "(string, int) dict \<Rightarrow> string \<Rightarrow> string list" where
  "check_reasons checks required =
     (case dict_get checks required of
        None \<Rightarrow> [''required_check_missing:'' @ required]
      | Some code \<Rightarrow> if code \<noteq> 0 then [''required_check_failed:'' @ required] else [])"

definition evidence_reasons :: "database_change_requirement \<Rightarrow> database_change_evidence \<Rightarrow> string list" where
  "evidence_reasons r e =
     (if dcr_migration_required r \<and> dce_migration_files e = [] then [''migration_artifact_missing''] else []) @
     (if dcr_backfill_required r \<and> dce_backfill_files e = [] then [''backfill_artifact_missing''] else []) @
     concat (map (check_reasons (check_results e)) (dcr_required_checks r))"

definition candidate_commit :: "task_view \<Rightarrow> string option" where
  "candidate_commit t =
     (if tkv_status t \<noteq> TS_SUCCEEDED then None
      else case tkv_evidence t of
             None \<Rightarrow> None
           | Some e \<Rightarrow> (case tev_commit_sha e of None \<Rightarrow> None | Some s \<Rightarrow> if s = [] then None else Some s))"

definition undeclared_tables :: "database_change_requirement \<Rightarrow> database_change_evidence \<Rightarrow> string list" where
  "undeclared_tables r e =
     sort (remdups (filter (\<lambda>t. t \<notin> set (dcr_affected_tables r)) (dce_affected_tables e)))"

definition validation_intent :: "task_view \<Rightarrow> string \<Rightarrow> database_change_evidence \<Rightarrow> database_validation_intent" where
  "validation_intent t commit e =
     \<lparr>dvi_task_id = uuid_str (tkv_id t), dvi_organization_id = uuid_str (tkv_organization_id t),
      dvi_project_id = uuid_str (tkv_project_id t), dvi_repository_id = uuid_str (tkv_repository_id t),
      dvi_candidate_sha = commit, dvi_migration_files = dce_migration_files e,
      dvi_backfill_files = dce_backfill_files e, dvi_checks = map ttr_command (dce_checks e),
      dvi_idempotency_key = ''database-validation:'' @ uuid_str (tkv_id t) @ '':'' @ commit\<rparr>"

definition evaluate_database_automation :: "task_view \<Rightarrow> database_automation_decision" where
  "evaluate_database_automation t =
     (let requirement = tkv_database_change t;
          changed_files = (case tkv_evidence t of None \<Rightarrow> [] | Some e \<Rightarrow> tev_changed_files e);
          detected = filter database_path changed_files
      in if \<not> dcr_declared requirement
         then manager_review [if detected \<noteq> [] then ''undeclared_database_change'' else ''database_impact_not_declared'']
         else if \<not> dcr_required requirement
         then if detected \<noteq> [] then manager_review [''database_diff_conflicts_with_manager_declaration'']
              else \<lparr>dad_disposition = DA_NOT_REQUIRED, dad_reasons = [], dad_intent = None\<rparr>
         else let commit = candidate_commit t;
                  missing_commit = (if commit = None then [''candidate_commit_missing''] else []);
                  database = (case tkv_evidence t of None \<Rightarrow> None | Some e \<Rightarrow> tev_database_change e)
         in case database of
              None \<Rightarrow> \<lparr>dad_disposition = DA_WORKER_REWORK,
                        dad_reasons = missing_commit @ [''worker_database_evidence_missing''], dad_intent = None\<rparr>
            | Some e \<Rightarrow>
                if undeclared_tables requirement e \<noteq> []
                then manager_review (map (\<lambda>t. ''undeclared_table:'' @ t) (undeclared_tables requirement e))
                else let reasons = missing_commit @ evidence_reasons requirement e
                in if reasons \<noteq> []
                   then \<lparr>dad_disposition = DA_WORKER_REWORK, dad_reasons = reasons, dad_intent = None\<rparr>
                   else \<lparr>dad_disposition = DA_REQUEST_VALIDATION, dad_reasons = [],
                         dad_intent = Some (validation_intent t (the commit) e)\<rparr>)"

subsection \<open>When a validation is requested\<close>

lemma validation_requested_iff:
  "dad_disposition (evaluate_database_automation t) = DA_REQUEST_VALIDATION \<longleftrightarrow>
     dcr_declared (tkv_database_change t) \<and> dcr_required (tkv_database_change t) \<and> candidate_commit t \<noteq> None \<and>
     (\<exists>v e. tkv_evidence t = Some v \<and> tev_database_change v = Some e \<and>
        set (dce_affected_tables e) \<subseteq> set (dcr_affected_tables (tkv_database_change t)) \<and>
        evidence_reasons (tkv_database_change t) e = [])"
proof -
  have tables: "undeclared_tables r e = [] \<longleftrightarrow> set (dce_affected_tables e) \<subseteq> set (dcr_affected_tables r)" for r e
  proof -
    have "set (undeclared_tables r e) = set (dce_affected_tables e) - set (dcr_affected_tables r)"
      by (auto simp: undeclared_tables_def)
    then show ?thesis by (metis Diff_eq_empty_iff set_empty)
  qed
  show ?thesis
    by (auto simp: evaluate_database_automation_def manager_review_def Let_def tables split: option.splits)
qed

lemma check_reasons_Nil: "check_reasons checks c = [] \<longleftrightarrow> dict_get checks c = Some 0"
  by (auto simp: check_reasons_def split: option.splits)

lemma evidence_reasons_Nil:
  "evidence_reasons r e = [] \<longleftrightarrow>
     (dcr_migration_required r \<longrightarrow> dce_migration_files e \<noteq> []) \<and>
     (dcr_backfill_required r \<longrightarrow> dce_backfill_files e \<noteq> []) \<and>
     (\<forall>c \<in> set (dcr_required_checks r). dict_get (check_results e) c = Some 0)"
  by (simp add: evidence_reasons_def check_reasons_Nil)

end
