(* ===== verification/Collaboration_Contracts.thy ===== *)
theory Collaboration_Contracts
  imports Identifiers
begin

text \<open>
  The messages the services send to rooms (\<open>modules/collaboration/contracts.py\<close>). Sending is a
  port of the services that use it; \<open>CollaborationDeliveryDeferred\<close> says that the message was
  stored and will be delivered later.
\<close>

datatype collaboration_message_kind =
    CM_TASK_ASSIGNMENT
  | CM_TASK_REPORT
  | CM_QUESTION
  | CM_ANSWER
  | CM_PROGRESS
  | CM_DECISION

fun collaboration_message_kind_value :: "collaboration_message_kind \<Rightarrow> string" where
  "collaboration_message_kind_value CM_TASK_ASSIGNMENT = ''task_assignment''"
| "collaboration_message_kind_value CM_TASK_REPORT = ''task_report''"
| "collaboration_message_kind_value CM_QUESTION = ''question''"
| "collaboration_message_kind_value CM_ANSWER = ''answer''"
| "collaboration_message_kind_value CM_PROGRESS = ''progress''"
| "collaboration_message_kind_value CM_DECISION = ''decision''"

definition collaboration_message_kind_members :: "collaboration_message_kind list" where
  "collaboration_message_kind_members =
     [CM_TASK_ASSIGNMENT, CM_TASK_REPORT, CM_QUESTION, CM_ANSWER, CM_PROGRESS, CM_DECISION]"

interpretation CM: str_enum collaboration_message_kind_value collaboration_message_kind_members
proof
  show "x \<in> set collaboration_message_kind_members" for x
    by (cases x) (simp_all add: collaboration_message_kind_members_def)
qed (simp add: collaboration_message_kind_members_def)

record send_collaboration_message_command =
  smc_organization_id :: uuid
  smc_project_id :: uuid
  smc_sender_agent_id :: uuid
  smc_recipient_agent_id :: uuid
  smc_kind :: collaboration_message_kind
  smc_subject :: string
  smc_body :: string
  smc_repository_id :: "uuid option"
  smc_task_id :: "uuid option"
  smc_correlation_id :: "uuid option"

definition delivery_deferred :: "string \<Rightarrow> exc" where
  "delivery_deferred reason = ModuleError ''CollaborationDeliveryDeferred'' reason"

definition is_deferred :: "exc \<Rightarrow> bool" where
  "is_deferred e \<longleftrightarrow> (case e of ModuleError c _ \<Rightarrow> c = ''CollaborationDeliveryDeferred'' | _ \<Rightarrow> False)"

lemma is_deferred_simps [simp]:
  "is_deferred (delivery_deferred r)" "\<not> is_deferred (TaskDenied m)" "\<not> is_deferred (TaskConflict m)"
  "\<not> is_deferred (TaskNotFound m)" "\<not> is_deferred (ValueError m)"
  by (simp_all add: is_deferred_def delivery_deferred_def)

end
