(* ===== verification/Task_Orchestration.thy ===== *)
theory Task_Orchestration
  imports Task_Store Database_Automation Collaboration_Contracts Agent_Contracts Project_Control Delivery_Stores Proc_Invariants
begin

text \<open>
  \<open>TaskOrchestrator\<close> and \<open>TaskExecutionState\<close> of \<open>modules/task_orchestration/application.py\<close> over
  the in-memory stores. What the services reach through ports (the agent directory, topologies and
  checkpoints, the rooms, the publication of task packages, permits, the audit log) is a record of
  procedures over a part \<open>'w\<close> of the state of their own. After each store or port call the other
  coroutines run: \<open>env\<close> is what they do to the whole state.
\<close>

subsection \<open>The state and the ports\<close>

record 'w orch =
  or_tasks :: task_store
  or_plans :: plan_store
  or_assignments :: leader_assignment_store
  or_world :: 'w

definition on_tasks :: "(task_store, 'a) proc \<Rightarrow> ('w orch, 'a) proc" where
  "on_tasks p s = (case p (or_tasks s) of (r, t) \<Rightarrow> (r, s\<lparr>or_tasks := t\<rparr>))"

definition on_plans :: "(plan_store, 'a) proc \<Rightarrow> ('w orch, 'a) proc" where
  "on_plans p s = (case p (or_plans s) of (r, t) \<Rightarrow> (r, s\<lparr>or_plans := t\<rparr>))"

definition on_assignments :: "(leader_assignment_store, 'a) proc \<Rightarrow> ('w orch, 'a) proc" where
  "on_assignments p s = (case p (or_assignments s) of (r, t) \<Rightarrow> (r, s\<lparr>or_assignments := t\<rparr>))"

definition on_world :: "('w, 'a) proc \<Rightarrow> ('w orch, 'a) proc" where
  "on_world p s = (case p (or_world s) of (r, w) \<Rightarrow> (r, s\<lparr>or_world := w\<rparr>))"

definition reads :: "('s \<Rightarrow> 'a result) \<Rightarrow> ('s, 'a) proc" where
  "reads f s = (f s, s)"

record 'w ports =
  pp_agent :: "uuid \<Rightarrow> 'w \<Rightarrow> agent_principal_view option"
  pp_topology :: "uuid \<Rightarrow> 'w \<Rightarrow> project_agent_topology_view option"
  pp_mode :: "uuid \<Rightarrow> uuid \<Rightarrow> 'w \<Rightarrow> team_decomposition_mode"
  pp_gate :: "uuid \<Rightarrow> ('w, checkpoint_gate_decision) proc"
  pp_evaluate :: "evaluation \<Rightarrow> ('w, checkpoint_gate_decision) proc"
  pp_send :: "send_collaboration_message_command \<Rightarrow> string \<Rightarrow> ('w, unit) proc"
  pp_publish :: "(task_view \<Rightarrow> string \<Rightarrow> string \<Rightarrow> string \<Rightarrow> string \<Rightarrow> ('w, published_task_package) proc) option"
  pp_permit :: "(task_view \<Rightarrow> string list \<Rightarrow> string list \<Rightarrow> string \<Rightarrow> ('w, unit) proc) option"
  pp_audit :: "(event_envelope \<Rightarrow> ('w, unit) proc) option"
  pp_database :: "(database_automation_decision \<Rightarrow> ('w, unit) proc) option"

definition task_blocked :: "string \<Rightarrow> exc" where
  "task_blocked reason = ModuleError ''TaskBlocked'' reason"

definition runtime_error :: "string \<Rightarrow> exc" where
  "runtime_error message = ModuleError ''RuntimeError'' message"

definition new_line :: string where
  "new_line = [CHR 0x0A]"

subsection \<open>Keys and fingerprints\<close>

definition idempotency_key_limit :: nat where
  "idempotency_key_limit = 200"

definition attempt_token_chars :: nat where
  "attempt_token_chars = 12"

definition digest :: "(string \<Rightarrow> string) \<Rightarrow> string \<Rightarrow> nat \<Rightarrow> string" where
  "digest sha256 value' chars = take chars (sha256 value')"

definition attempt_token :: "(string \<Rightarrow> string) \<Rightarrow> string \<Rightarrow> string" where
  "attempt_token sha256 attempt = digest sha256 attempt attempt_token_chars"

definition dispatch_message_key :: "(string \<Rightarrow> string) \<Rightarrow> string \<Rightarrow> string option \<Rightarrow> string" where
  "dispatch_message_key sha256 key attempt =
     (case attempt of
        None \<Rightarrow> key @ '':message''
      | Some a \<Rightarrow>
          let derived = key @ '':message:rd:'' @ attempt_token sha256 a
          in if length derived \<le> idempotency_key_limit then derived
             else ''rd:'' @ digest sha256 key 24 @ '':'' @ attempt_token sha256 a)"

definition json_opt :: "('a \<Rightarrow> string) \<Rightarrow> 'a option \<Rightarrow> string" where
  "json_opt f x = (case x of None \<Rightarrow> json_null | Some v \<Rightarrow> f v)"

definition json_bool :: "bool \<Rightarrow> string" where
  "json_bool b = (if b then ''true'' else ''false'')"

definition requirement_json :: "database_change_requirement \<Rightarrow> string" where
  "requirement_json d = json_object
     [(''declared'', json_bool (dcr_declared d)), (''required'', json_bool (dcr_required d)),
      (''change_kinds'', json_array (map (json_string \<circ> database_change_kind_value) (dcr_change_kinds d))),
      (''affected_tables'', json_array (map json_string (dcr_affected_tables d))),
      (''migration_required'', json_bool (dcr_migration_required d)),
      (''backfill_required'', json_bool (dcr_backfill_required d)),
      (''required_checks'', json_array (map json_string (dcr_required_checks d)))]"

definition assign_json :: "assign_task_command \<Rightarrow> string" where
  "assign_json c = json_object
     [(''organization_id'', json_string (uuid_str (atc_organization_id c))),
      (''project_id'', json_string (uuid_str (atc_project_id c))),
      (''repository_id'', json_string (uuid_str (atc_repository_id c))),
      (''assigned_by_agent_id'', json_string (uuid_str (atc_assigned_by_agent_id c))),
      (''assignee_agent_id'', json_string (uuid_str (atc_assignee_agent_id c))),
      (''title'', json_string (atc_title c)), (''instruction'', json_string (atc_instruction c)),
      (''acceptance'', json_array (map json_string (atc_acceptance c))),
      (''parent_task_id'', json_opt (json_string \<circ> uuid_str) (atc_parent_task_id c)),
      (''database_change'', requirement_json (atc_database_change c))]"

definition assign_fingerprint :: "(string \<Rightarrow> string) \<Rightarrow> assign_task_command \<Rightarrow> string" where
  "assign_fingerprint sha256 c = ''sha256:'' @ sha256 (assign_json c)"

subsection \<open>Reading\<close>

definition required_agent ::
    "'w ports \<Rightarrow> ('w orch \<Rightarrow> 'w orch) \<Rightarrow> uuid \<Rightarrow> ('w orch, agent_principal_view) proc" where
  "required_agent ports env agent_id =
     await env (pget (\<lambda>s. pp_agent ports agent_id (or_world s))) (\<lambda>found.
     case found of
       None \<Rightarrow> praise (TaskDenied (''agent does not exist: '' @ uuid_str agent_id))
     | Some profile \<Rightarrow>
         if apv_status profile \<noteq> AS_ACTIVE then praise (TaskDenied ''agent_disabled'') else preturn profile)"

definition required_task :: "('w orch \<Rightarrow> 'w orch) \<Rightarrow> uuid \<Rightarrow> ('w orch, task) proc" where
  "required_task env task_id =
     await env (pget (\<lambda>s. ts_get (or_tasks s) task_id)) (\<lambda>found.
     case found of
       None \<Rightarrow> praise (TaskNotFound (''task does not exist: '' @ uuid_str task_id))
     | Some t \<Rightarrow> preturn t)"

definition validate_membership ::
    "agent_principal_view \<Rightarrow> agent_principal_view \<Rightarrow> uuid \<Rightarrow> project_agent_topology_view \<Rightarrow> unit result" where
  "validate_membership assigner assignee repository_id topology =
     (if apv_id assigner = ptv_organization_leader_id topology
      then if \<exists>team \<in> set (ptv_repository_teams topology).
                rtv_repository_id team = repository_id \<and> rtv_leader_agent_id team = apv_id assignee
           then Inr ()
           else Inl (TaskDenied ''repository leader is not assigned to this project repository'')
      else if \<exists>team \<in> set (ptv_repository_teams topology).
                rtv_repository_id team = repository_id \<and> rtv_leader_agent_id team = apv_id assigner \<and>
                apv_id assignee \<in> set (rtv_worker_agent_ids team)
           then Inr ()
           else Inl (TaskDenied ''worker is not assigned to this project repository team''))"

subsection \<open>Telling the room\<close>

definition lines_of :: "string list \<Rightarrow> string" where
  "lines_of ts = concat (map (\<lambda>t. t @ new_line) ts)"

definition bullet_list :: "string list \<Rightarrow> string" where
  "bullet_list items = (case map (\<lambda>t. ''- '' @ t) items of [] \<Rightarrow> [] | x # xs \<Rightarrow> x @ concat (map (\<lambda>t. new_line @ t) xs))"

definition assignment_body :: "task \<Rightarrow> published_task_package option \<Rightarrow> string" where
  "assignment_body t published =
     (case published of
        Some p \<Rightarrow> lines_of
          [''A verified RepoMesh task package is ready. Do not edit code directly in this '' @
           ''chat session. Call the MCP tool repomesh-task-control.start_assigned_task with:'',
           quoted ''{~task_id~:~'' @ uuid_str (tk_id t) @ quoted ''~,~worker_agent_id~:~'' @
             uuid_str (tk_assignee_agent_id t) @ quoted ''~}'',
           [],
           ''Task package: '' @ ptp_task_path p,
           ''Content hash: '' @ ptp_content_hash p] @
          ''RepoMesh Runner will prepare the isolated workspace, invoke the configured '' @
          ''coding-agent adapter, run verification, and persist the result.''
      | None \<Rightarrow> lines_of
          [tk_instruction t, [], ''Acceptance criteria:'', bullet_list (tk_acceptance t), [],
           ''When blocked or finished, reply with only this JSON object:'',
           ''{'',
           quoted ''  ~schema~: ~repomesh.agent-report.v1~,'',
           quoted ''  ~sender_agent_id~: ~'' @ uuid_str (tk_assignee_agent_id t) @ quoted ''~,'',
           quoted ''  ~project_id~: ~'' @ uuid_str (tk_project_id t) @ quoted ''~,'',
           quoted ''  ~task_id~: ~'' @ uuid_str (tk_id t) @ quoted ''~,'',
           quoted ''  ~status~: ~blocked|succeeded|failed~,'',
           quoted ''  ~summary~: ~what changed, tests run, or the blocking question~''] @ ''}'')"

definition assignment_message :: "task \<Rightarrow> published_task_package option \<Rightarrow> send_collaboration_message_command" where
  "assignment_message t published =
     \<lparr>smc_organization_id = tk_organization_id t, smc_project_id = tk_project_id t,
      smc_sender_agent_id = tk_assigned_by_agent_id t, smc_recipient_agent_id = tk_assignee_agent_id t,
      smc_kind = CM_TASK_ASSIGNMENT, smc_subject = tk_title t, smc_body = assignment_body t published,
      smc_repository_id = Some (tk_repository_id t), smc_task_id = Some (tk_id t),
      smc_correlation_id = Some (tk_id t)\<rparr>"

definition send_assignment ::
    "'w ports \<Rightarrow> (string \<Rightarrow> string) \<Rightarrow> ('w orch \<Rightarrow> 'w orch) \<Rightarrow> task \<Rightarrow> string \<Rightarrow> published_task_package option
     \<Rightarrow> string option \<Rightarrow> ('w orch, unit) proc" where
  "send_assignment ports sha256 env t key published attempt =
     await env (on_world (pp_send ports (assignment_message t published) (dispatch_message_key sha256 key attempt)))
       (\<lambda>_. preturn ())"

definition worker_team :: "task \<Rightarrow> project_agent_topology_view option \<Rightarrow> repository_team_view option" where
  "worker_team t found =
     (case found of
        None \<Rightarrow> None
      | Some topology \<Rightarrow> find (\<lambda>team. rtv_repository_id team = tk_repository_id t \<and>
          tk_assignee_agent_id t \<in> set (rtv_worker_agent_ids team)) (ptv_repository_teams topology))"

definition team_room :: "repository_team_view option \<Rightarrow> (repository_team_view \<times> string) option" where
  "team_room found =
     (case found of
        None \<Rightarrow> None
      | Some team \<Rightarrow> (case rtv_room_id team of None \<Rightarrow> None | Some r \<Rightarrow> if r = [] then None else Some (team, r)))"

definition publish_task ::
    "'w ports \<Rightarrow> ('w orch \<Rightarrow> 'w orch) \<Rightarrow> task \<Rightarrow> string \<Rightarrow> agent_principal_view
     \<Rightarrow> ('w orch, published_task_package option) proc" where
  "publish_task ports env t key assignee =
     (case pp_publish ports of
        None \<Rightarrow> praise (runtime_error ''Worker task publisher is not configured'')
      | Some publish \<Rightarrow>
          await env (pget (\<lambda>s. pp_topology ports (tk_project_id t) (or_world s))) (\<lambda>topology.
          case team_room (worker_team t topology) of
            None \<Rightarrow> praise (TaskDenied ''Worker Team runtime is not ready for task publication'')
          | Some (team, room_id) \<Rightarrow>
              pbind (plift (tk_to_view t)) (\<lambda>view.
              await env (on_world (publish view (rtv_agentteams_team_name team) room_id
                  (apv_agentteams_resource_name assignee) (key @ '':publication'')))
                (\<lambda>published. preturn (Some published)))))"

definition deliver_task ::
    "'w ports \<Rightarrow> (string \<Rightarrow> string) \<Rightarrow> ('w orch \<Rightarrow> 'w orch) \<Rightarrow> task \<Rightarrow> string \<Rightarrow> string option
     \<Rightarrow> ('w orch, unit) proc" where
  "deliver_task ports sha256 env t key attempt =
     pbind (required_agent ports env (tk_assignee_agent_id t)) (\<lambda>assignee.
     pbind (if apv_role assignee = AR_WORKER then publish_task ports env t key assignee else preturn None)
       (\<lambda>published. send_assignment ports sha256 env t key published attempt))"

definition deliver_assignment ::
    "'w ports \<Rightarrow> (string \<Rightarrow> string) \<Rightarrow> ('w orch \<Rightarrow> 'w orch) \<Rightarrow> uuid \<Rightarrow> ('w orch, unit) proc" where
  "deliver_assignment ports sha256 env task_id =
     pbind (required_task env task_id) (\<lambda>t.
     await env (pget (\<lambda>s. ts_assignment_key (or_tasks s) (tk_id t))) (\<lambda>key.
     case key of
       None \<Rightarrow> praise (TaskConflict (''task '' @ uuid_str (tk_id t) @
         '' has no recorded assignment key, so its task package cannot be published''))
     | Some k \<Rightarrow> deliver_task ports sha256 env t k None))"

subsection \<open>Assigning\<close>

definition tasks_planned_event :: "task \<Rightarrow> uuid \<Rightarrow> uuid \<Rightarrow> datetime \<Rightarrow> event_envelope" where
  "tasks_planned_event t event_id correlation_id now =
     \<lparr>ee_event_type = ''TasksPlanned'', ee_actor_type = AT_AGENT,
      ee_actor_id = uuid_str (tk_assigned_by_agent_id t), ee_aggregate_type = ''Task'',
      ee_aggregate_id = tk_id t, ee_aggregate_version = tk_version t,
      ee_payload = JObject
        [(''schema_version'', JInt 1), (''occurred_at'', JStr (isoformat now)),
         (''task'', JObject
            [(''task_id'', uuid_json (tk_id t)), (''repository_id'', uuid_json (tk_repository_id t)),
             (''title'', JStr (tk_title t)), (''parent_task_id'', opt_json uuid_json (tk_parent_task_id t))]),
         (''upstream_step'', JStr ''integration'')],
      ee_correlation_id = correlation_id, ee_schema_version = 1, ee_event_id = event_id,
      ee_occurred_at = now, ee_organization_id = Some (tk_organization_id t),
      ee_project_id = Some (tk_project_id t), ee_workstream_id = None, ee_task_id = Some (tk_id t),
      ee_run_id = None, ee_causation_id = None\<rparr>"

definition emit_tasks_planned ::
    "'w ports \<Rightarrow> ('w orch \<Rightarrow> 'w orch) \<Rightarrow> task \<Rightarrow> (nat \<Rightarrow> uuid) \<Rightarrow> datetime \<Rightarrow> ('w orch, unit) proc" where
  "emit_tasks_planned ports env t fresh now =
     (case pp_audit ports of
        None \<Rightarrow> preturn ()
      | Some record_event \<Rightarrow> await env (on_world (record_event (tasks_planned_event t (fresh 1) (fresh 2) now))) (\<lambda>_. preturn ()))"

text \<open>What the parent of a new task has to be.\<close>

definition check_parent :: "assign_task_command \<Rightarrow> agent_principal_view \<Rightarrow> task option \<Rightarrow> unit result" where
  "check_parent c assigner found =
     (case found of
        None \<Rightarrow> Inl (TaskNotFound ''parent task does not exist'')
      | Some parent \<Rightarrow>
          if tk_assignee_agent_id parent \<noteq> apv_id assigner
          then Inl (TaskDenied ''only the parent task assignee can create a child task'')
          else if tk_project_id parent \<noteq> atc_project_id c \<or> tk_repository_id parent \<noteq> atc_repository_id c
          then Inl (TaskDenied ''child task must remain in its parent project and repository'')
          else Inr ())"

definition assigned_task :: "assign_task_command \<Rightarrow> uuid \<Rightarrow> uuid \<Rightarrow> task_origin \<Rightarrow> uuid \<Rightarrow> task result" where
  "assigned_task c assigner_id assignee_id origin i = new_task
     \<lparr>tk_organization_id = atc_organization_id c, tk_project_id = atc_project_id c,
      tk_repository_id = atc_repository_id c, tk_assigned_by_agent_id = assigner_id,
      tk_assignee_agent_id = assignee_id, tk_title = py_strip (atc_title c),
      tk_instruction = py_strip (atc_instruction c), tk_acceptance = map py_strip (atc_acceptance c),
      tk_parent_task_id = atc_parent_task_id c, tk_id = i, tk_status = TS_ASSIGNED,
      tk_result_summary = None, tk_version = 1, tk_origin = origin,
      tk_database_change = atc_database_change c\<rparr>"

text \<open>The authority of the assigner, before a new task is written.\<close>

definition authorize_project ::
    "'w ports \<Rightarrow> ('w orch \<Rightarrow> 'w orch) \<Rightarrow> assign_task_command \<Rightarrow> agent_principal_view \<Rightarrow> agent_principal_view
     \<Rightarrow> ('w orch, unit) proc" where
  "authorize_project ports env c assigner assignee =
     await env (pget (\<lambda>s. pp_topology ports (atc_project_id c) (or_world s))) (\<lambda>found.
     case found of
       None \<Rightarrow> praise (TaskDenied ''project topology does not exist'')
     | Some topology \<Rightarrow>
         if ptv_organization_id topology \<noteq> atc_organization_id c
         then praise (TaskDenied ''project topology does not exist'')
         else await env (on_world (pp_gate ports (atc_project_id c))) (\<lambda>gate.
         if \<not> cgd_allowed gate then praise (task_blocked (cgd_reason gate))
         else plift (validate_membership assigner assignee (atc_repository_id c) topology)))"

definition authorize_parent ::
    "('w orch \<Rightarrow> 'w orch) \<Rightarrow> assign_task_command \<Rightarrow> agent_principal_view \<Rightarrow> ('w orch, unit) proc" where
  "authorize_parent env c assigner =
     (case atc_parent_task_id c of
        None \<Rightarrow> preturn ()
      | Some parent_id \<Rightarrow>
          await env (pget (\<lambda>s. ts_get (or_tasks s) parent_id)) (\<lambda>parent. plift (check_parent c assigner parent)))"

definition authorize_assignment ::
    "'w ports \<Rightarrow> ('w orch \<Rightarrow> 'w orch) \<Rightarrow> assign_task_command
     \<Rightarrow> ('w orch, agent_principal_view \<times> agent_principal_view) proc" where
  "authorize_assignment ports env c =
     pbind (required_agent ports env (atc_assigned_by_agent_id c)) (\<lambda>assigner.
     pbind (required_agent ports env (atc_assignee_agent_id c)) (\<lambda>assignee.
     if apv_leader_agent_id assignee \<noteq> Some (apv_id assigner)
     then praise (TaskDenied ''tasks can only be assigned to a direct subordinate'')
     else pbind (authorize_project ports env c assigner assignee) (\<lambda>_.
     pbind (authorize_parent env c assigner) (\<lambda>_. preturn (assigner, assignee)))))"

text \<open>The task is announced when the caller asks for it.\<close>

definition announce ::
    "'w ports \<Rightarrow> (string \<Rightarrow> string) \<Rightarrow> ('w orch \<Rightarrow> 'w orch) \<Rightarrow> bool \<Rightarrow> task \<Rightarrow> string \<Rightarrow> ('w orch, task_view) proc" where
  "announce ports sha256 env deliver t key =
     pbind (if deliver then deliver_task ports sha256 env t key None else preturn ()) (\<lambda>_. plift (tk_to_view t))"

definition create_task ::
    "'w ports \<Rightarrow> (string \<Rightarrow> string) \<Rightarrow> ('w orch \<Rightarrow> 'w orch) \<Rightarrow> assign_task_command \<Rightarrow> string \<Rightarrow> string
     \<Rightarrow> task_origin \<Rightarrow> bool \<Rightarrow> (nat \<Rightarrow> uuid) \<Rightarrow> datetime \<Rightarrow> ('w orch, task_view) proc" where
  "create_task ports sha256 env c key fingerprint origin deliver fresh now =
     pbind (authorize_assignment ports env c) (\<lambda>(assigner, assignee).
     pbind (plift (assigned_task c (apv_id assigner) (apv_id assignee) origin (fresh 0))) (\<lambda>t.
     await env (on_tasks (ts_add t key fingerprint)) (\<lambda>_.
     pbind (emit_tasks_planned ports env t fresh now) (\<lambda>_. announce ports sha256 env deliver t key))))"

definition assign_task ::
    "'w ports \<Rightarrow> (string \<Rightarrow> string) \<Rightarrow> ('w orch \<Rightarrow> 'w orch) \<Rightarrow> assign_task_command \<Rightarrow> string \<Rightarrow> task_origin
     \<Rightarrow> bool \<Rightarrow> (nat \<Rightarrow> uuid) \<Rightarrow> datetime \<Rightarrow> ('w orch, task_view) proc" where
  "assign_task ports sha256 env c idempotency_key origin deliver fresh now =
     (let key = py_strip idempotency_key; fingerprint = assign_fingerprint sha256 c
      in if key = [] then praise (ValueError ''idempotency_key is required'')
      else await env (reads (\<lambda>s. ts_get_by_idempotency_key (or_tasks s) key)) (\<lambda>existing.
      case existing of
        None \<Rightarrow> create_task ports sha256 env c key fingerprint origin deliver fresh now
      | Some (t, previous) \<Rightarrow>
          if fingerprint \<noteq> previous
          then praise (TaskConflict ''idempotency key was used for a different task'')
          else announce ports sha256 env deliver t key))"

subsection \<open>Re-dispatch\<close>

definition redispatch_task ::
    "'w ports \<Rightarrow> (string \<Rightarrow> string) \<Rightarrow> ('w orch \<Rightarrow> 'w orch) \<Rightarrow> uuid \<Rightarrow> string \<Rightarrow> bool \<Rightarrow> ('w orch, task_view) proc" where
  "redispatch_task ports sha256 env task_id attempt redo =
     pbind (required_task env task_id) (\<lambda>found.
     pbind (if tk_status found \<in> final_task_statuses
            then if \<not> redo
              then praise (TaskConflict (''task '' @ uuid_str (tk_id found) @ '' has already finished ('' @
                task_status_value (tk_status found) @ ''); there is nothing to dispatch again''))
              else pbind (plift (tk_redo found)) (\<lambda>reopened.
                await env (on_tasks (ts_update reopened (tk_version found))) (\<lambda>_. preturn reopened))
            else preturn found) (\<lambda>t.
     await env (pget (\<lambda>s. ts_assignment_key (or_tasks s) (tk_id t))) (\<lambda>key.
     case key of
       None \<Rightarrow> praise (TaskConflict (''task '' @ uuid_str (tk_id t) @
         '' has no recorded assignment key, so its task package cannot be republished''))
     | Some k \<Rightarrow> pbind (deliver_task ports sha256 env t k (Some attempt)) (\<lambda>_. plift (tk_to_view t)))))"

subsection \<open>Progress of a task\<close>

definition task_evidence_version :: "task \<Rightarrow> string" where
  "task_evidence_version t = ''task:'' @ uuid_str (tk_id t) @ '':v'' @ dec_int (tk_version t)"

definition write_task :: "('w orch \<Rightarrow> 'w orch) \<Rightarrow> task \<Rightarrow> task result \<Rightarrow> ('w orch, task) proc" where
  "write_task env t outcome =
     pbind (plift outcome) (\<lambda>updated.
     await env (on_tasks (ts_update updated (tk_version t))) (\<lambda>_. preturn updated))"

definition start_task :: "'w ports \<Rightarrow> ('w orch \<Rightarrow> 'w orch) \<Rightarrow> uuid \<Rightarrow> uuid \<Rightarrow> ('w orch, task_view) proc" where
  "start_task ports env task_id agent_id =
     pbind (required_task env task_id) (\<lambda>t.
     if tk_assignee_agent_id t \<noteq> agent_id then praise (TaskDenied ''only the assignee can start a task'')
     else await env (on_world (pp_evaluate ports
         \<lparr>ev_project_id = tk_project_id t, ev_checkpoint = PCP_EXECUTION,
          ev_evidence_version = task_evidence_version t, ev_repository_id = Some (tk_repository_id t),
          ev_requested_by_agent_id = None, ev_title = None, ev_summary = None\<rparr>)) (\<lambda>gate.
     if \<not> cgd_allowed gate then praise (task_blocked (cgd_reason gate))
     else pbind (write_task env t (tk_start t)) (\<lambda>updated. plift (tk_to_view updated))))"

fun comma_texts :: "string list \<Rightarrow> string" where
  "comma_texts [] = []"
| "comma_texts [x] = x"
| "comma_texts (x # y # xs) = x @ '', '' @ comma_texts (y # xs)"

definition blocks_success :: "database_automation_decision \<Rightarrow> bool" where
  "blocks_success d \<longleftrightarrow> dad_disposition d = DA_WORKER_REWORK \<or>
     (dad_disposition d = DA_MANAGER_REVIEW \<and> dad_reasons d \<noteq> [''database_impact_not_declared''])"

text \<open>The task after a report: unchanged when it is the same report again.\<close>

definition reported_task :: "report_task_command \<Rightarrow> task \<Rightarrow> (task \<times> bool) result" where
  "reported_task c t =
     (if tk_status t = rtc_status c \<and> tk_result_summary t = Some (py_strip (rtc_summary c)) then Inr (t, False)
      else if tk_status t \<in> {TS_SUCCEEDED, TS_FAILED}
      then Inl (TaskConflict ''a final task cannot be reported with different results'')
      else rbind (tk_report (rtc_status c) (rtc_summary c) t) (\<lambda>updated.
        if rtc_status c = TS_SUCCEEDED
        then rbind (tk_to_view updated) (\<lambda>view.
          let decision = evaluate_database_automation view
          in if blocks_success decision
             then Inl (task_blocked (''database automation blocked success: '' @ comma_texts (dad_reasons decision)))
             else Inr (updated, True))
        else Inr (updated, True)))"

definition report_message :: "report_task_command \<Rightarrow> task \<Rightarrow> task \<Rightarrow> send_collaboration_message_command" where
  "report_message c t updated =
     \<lparr>smc_organization_id = tk_organization_id t, smc_project_id = tk_project_id t,
      smc_sender_agent_id = tk_assignee_agent_id t, smc_recipient_agent_id = tk_assigned_by_agent_id t,
      smc_kind = (if rtc_status c = TS_BLOCKED then CM_PROGRESS else CM_TASK_REPORT),
      smc_subject = tk_title t @ '': '' @ task_status_value (tk_status updated),
      smc_body = py_strip (rtc_summary c), smc_repository_id = Some (tk_repository_id t),
      smc_task_id = Some (tk_id t), smc_correlation_id = Some (tk_id t)\<rparr>"

text \<open>\<open>except CollaborationDeliveryDeferred\<close>: the message is stored, the report stands.\<close>

definition unless_deferred :: "('s, unit) proc \<Rightarrow> ('s, unit) proc" where
  "unless_deferred m s = (case m s of (Inl e, t) \<Rightarrow> (if is_deferred e then Inr () else Inl e, t) | ok \<Rightarrow> ok)"

definition escalate_exception ::
    "'w ports \<Rightarrow> string \<Rightarrow> ('w orch \<Rightarrow> 'w orch) \<Rightarrow> report_task_command \<Rightarrow> agent_principal_view \<Rightarrow> task
     \<Rightarrow> task \<Rightarrow> ('w orch, unit) proc" where
  "escalate_exception ports escalation_suffix env c reporter t updated =
     (if apv_role reporter = AR_REPOSITORY_LEADER \<and> rtc_status c \<in> {TS_BLOCKED, TS_FAILED}
      then await env (on_world (pp_evaluate ports
         \<lparr>ev_project_id = tk_project_id t, ev_checkpoint = PCP_EXCEPTION_ESCALATION,
          ev_evidence_version = task_evidence_version updated, ev_repository_id = Some (tk_repository_id t),
          ev_requested_by_agent_id = Some (apv_id reporter), ev_title = Some (tk_title t @ escalation_suffix),
          ev_summary = Some (py_strip (rtc_summary c))\<rparr>)) (\<lambda>_. preturn ())
      else preturn ())"

definition request_validation ::
    "'w ports \<Rightarrow> ('w orch \<Rightarrow> 'w orch) \<Rightarrow> report_task_command \<Rightarrow> task \<Rightarrow> ('w orch, unit) proc" where
  "request_validation ports env c updated =
     (case pp_database ports of
        None \<Rightarrow> preturn ()
      | Some automate \<Rightarrow>
          if rtc_status c \<noteq> TS_SUCCEEDED then preturn ()
          else pbind (plift (tk_to_view updated)) (\<lambda>view.
            let decision = evaluate_database_automation view
            in if dad_disposition decision = DA_REQUEST_VALIDATION
               then await env (on_world (automate decision)) (\<lambda>_. preturn ()) else preturn ()))"

definition report_task ::
    "'w ports \<Rightarrow> string \<Rightarrow> ('w orch \<Rightarrow> 'w orch) \<Rightarrow> report_task_command \<Rightarrow> string \<Rightarrow> ('w orch, task_view) proc" where
  "report_task ports escalation_suffix env c idempotency_key =
     pbind (required_agent ports env (rtc_reporter_agent_id c)) (\<lambda>reporter.
     pbind (required_task env (rtc_task_id c)) (\<lambda>t.
     if tk_assignee_agent_id t \<noteq> rtc_reporter_agent_id c
     then praise (TaskDenied ''only the assignee can report a task'')
     else pbind (plift (reported_task c t)) (\<lambda>(updated, changed).
     pbind (if changed then await env (on_tasks (ts_update updated (tk_version t))) (\<lambda>_. preturn ())
            else preturn ()) (\<lambda>_.
     await env (unless_deferred (on_world (pp_send ports (report_message c t updated) (idempotency_key @ '':message''))))
       (\<lambda>_.
     pbind (escalate_exception ports escalation_suffix env c reporter t updated) (\<lambda>_.
     pbind (request_validation ports env c updated) (\<lambda>_. plift (tk_to_view updated))))))))"

definition supersede_task ::
    "('w orch \<Rightarrow> 'w orch) \<Rightarrow> supersede_task_command \<Rightarrow> string \<Rightarrow> ('w orch, task_view) proc" where
  "supersede_task env c idempotency_key =
     (if py_strip idempotency_key = [] then praise (ValueError ''idempotency_key is required'')
      else pbind (required_task env (stc_task_id c)) (\<lambda>t.
        let reason = py_strip (stc_reason c)
        in if tk_status t = TS_SUPERSEDED \<and> tk_result_summary t =
               Some (if reason \<noteq> [] then ''SUPERSEDED: '' @ reason else ''SUPERSEDED'')
           then plift (tk_to_view t)
           else pbind (write_task env t (tk_supersede reason t)) (\<lambda>updated. plift (tk_to_view updated))))"

definition count_status :: "task list \<Rightarrow> task_status \<Rightarrow> int" where
  "count_status tasks status = int (length (filter (\<lambda>t. tk_status t = status) tasks))"

definition task_progress :: "uuid \<Rightarrow> task_store \<Rightarrow> project_task_progress" where
  "task_progress project_id s =
     (let tasks = ts_list_by_project s project_id
      in \<lparr>tpg_project_id = project_id, tpg_total = int (length tasks),
          tpg_assigned = count_status tasks TS_ASSIGNED, tpg_in_progress = count_status tasks TS_IN_PROGRESS,
          tpg_blocked = count_status tasks TS_BLOCKED, tpg_succeeded = count_status tasks TS_SUCCEEDED,
          tpg_failed = count_status tasks TS_FAILED, tpg_cancelled = count_status tasks TS_CANCELLED\<rparr>)"

definition list_project_tasks :: "uuid \<Rightarrow> task_store \<Rightarrow> task_view list result" where
  "list_project_tasks project_id s = map_result tk_to_view (ts_list_by_project s project_id)"

subsection \<open>Worker execution\<close>

definition execution_task ::
    "'w ports \<Rightarrow> ('w orch \<Rightarrow> 'w orch) \<Rightarrow> uuid \<Rightarrow> uuid \<Rightarrow> ('w orch, task) proc" where
  "execution_task ports env task_id agent_id =
     await env (pget (\<lambda>s. pp_agent ports agent_id (or_world s))) (\<lambda>agent.
     if (case agent of None \<Rightarrow> True | Some a \<Rightarrow> apv_status a \<noteq> AS_ACTIVE)
     then praise (TaskDenied ''worker agent is missing or disabled'')
     else pbind (required_task env task_id) (\<lambda>t.
       if tk_assignee_agent_id t \<noteq> agent_id
       then praise (TaskDenied ''only the assignee can change execution state'') else preturn t))"

definition execution_start ::
    "'w ports \<Rightarrow> ('w orch \<Rightarrow> 'w orch) \<Rightarrow> uuid \<Rightarrow> uuid \<Rightarrow> ('w orch, task_view) proc" where
  "execution_start ports env task_id agent_id =
     pbind (execution_task ports env task_id agent_id) (\<lambda>t.
     if tk_status t = TS_IN_PROGRESS then plift (tk_to_view t)
     else pbind (write_task env t (tk_start t)) (\<lambda>updated. plift (tk_to_view updated)))"

definition execution_block ::
    "'w ports \<Rightarrow> ('w orch \<Rightarrow> 'w orch) \<Rightarrow> uuid \<Rightarrow> uuid \<Rightarrow> string \<Rightarrow> ('w orch, task_view) proc" where
  "execution_block ports env task_id agent_id summary =
     pbind (execution_task ports env task_id agent_id) (\<lambda>t.
     let normalized = py_strip summary
     in if tk_status t = TS_BLOCKED \<and> tk_result_summary t = Some normalized then plift (tk_to_view t)
        else pbind (write_task env t (tk_report TS_BLOCKED normalized t)) (\<lambda>updated. plift (tk_to_view updated)))"

definition accepts_room_report ::
    "'w ports \<Rightarrow> ('w orch \<Rightarrow> 'w orch) \<Rightarrow> uuid \<Rightarrow> ('w orch, bool) proc" where
  "accepts_room_report ports env task_id =
     await env (pget (\<lambda>s. ts_get (or_tasks s) task_id)) (\<lambda>found.
     case found of
       None \<Rightarrow> preturn True
     | Some t \<Rightarrow>
         await env (pget (\<lambda>s. pp_agent ports (tk_assignee_agent_id t) (or_world s))) (\<lambda>assignee.
         if (case assignee of None \<Rightarrow> True | Some a \<Rightarrow> apv_role a \<noteq> AR_WORKER) then preturn True
         else await env (pget (\<lambda>s. ts_assignment_key (or_tasks s) task_id)) (\<lambda>key. preturn (key = None))))"

end
