(* ===== verification/Leader_Plan.thy ===== *)
theory Leader_Plan
  imports Leader_Contracts Human_Control "HOL-Library.Sublist"
begin

text \<open>
  What the server checks of a leader's plan and of its verdict before anything is created
  (\<open>_assert_plan_is_within_envelope\<close>, \<open>_has_cycle\<close>, \<open>_within_roots\<close>,
  \<open>_assert_review_is_answerable\<close> and \<open>derive_allowed_paths\<close> of
  \<open>modules/task_orchestration/application.py\<close>), with the correctness of the cycle check.
\<close>

subsection \<open>Paths\<close>

definition derive_allowed_paths :: "string list \<Rightarrow> string list \<Rightarrow> string list" where
  "derive_allowed_paths responsibility_paths test_paths =
     (if responsibility_paths = [] then [''**'']
      else dict_keys (dict_update (map (\<lambda>p. (p, ())) (responsibility_paths @ test_paths)) []))"

text \<open>\<open>text.strip().lstrip("./")\<close> and \<open>text.removesuffix(s)\<close>.\<close>

definition path_core :: "string \<Rightarrow> string" where
  "path_core p = dropWhile (\<lambda>c. c \<in> set ''./'') (py_strip p)"

definition remove_suffix :: "string \<Rightarrow> string \<Rightarrow> string" where
  "remove_suffix s t = (if suffix s t then take (length t - length s) t else t)"

definition root_prefix :: "string \<Rightarrow> string" where
  "root_prefix root = remove_suffix ''*'' (remove_suffix ''**'' (path_core root))"

definition within_roots :: "string \<Rightarrow> string list \<Rightarrow> bool" where
  "within_roots p roots \<longleftrightarrow>
     (\<exists>root \<in> set roots. root_prefix root = [] \<or> prefix (root_prefix root) (path_core p))"

lemma set_derive_allowed_paths:
  "rs \<noteq> [] \<Longrightarrow> set (derive_allowed_paths rs ts) = set rs \<union> set ts"
proof -
  have "fst ` set (dict_update (map (\<lambda>p. (p, ())) ps) d) = set ps \<union> fst ` set d"
    for ps and d :: "(string, unit) dict"
    by (induction ps arbitrary: d) auto
  then show "rs \<noteq> [] \<Longrightarrow> ?thesis" by (simp add: derive_allowed_paths_def del: map_append)
qed

lemma distinct_derive_allowed_paths: "distinct (derive_allowed_paths rs ts)"
  by (simp add: derive_allowed_paths_def distinct_dict_update)

subsection \<open>Cycles\<close>

text \<open>
  Kahn's algorithm as the code runs it: \<open>outgoing\<close> and \<open>indegree\<close> are built edge by edge, an
  edge over an undeclared node raises; \<open>ready\<close> is a stack.
\<close>

fun graph_edges ::
    "(string \<times> string) list \<Rightarrow> (string, string list) dict \<Rightarrow> (string, int) dict \<Rightarrow>
     ((string, string list) dict \<times> (string, int) dict) result" where
  "graph_edges [] outgoing indegree = Inr (outgoing, indegree)"
| "graph_edges ((source, target) # edges) outgoing indegree =
     (case dict_get outgoing source of
        None \<Rightarrow> Inl (KeyError source)
      | Some targets \<Rightarrow>
          (case dict_get indegree target of
             None \<Rightarrow> Inl (KeyError target)
           | Some n \<Rightarrow> graph_edges edges (dict_set source (targets @ [target]) outgoing)
                       (dict_set target (n + 1) indegree)))"

text \<open>\<open>indegree[target] -= 1\<close> for every target, the ones that reach zero become ready.\<close>

definition degree :: "(string, int) dict \<Rightarrow> string \<Rightarrow> int" where
  "degree indegree node = (case dict_get indegree node of None \<Rightarrow> 0 | Some n \<Rightarrow> n)"

fun release :: "string list \<Rightarrow> string list \<Rightarrow> (string, int) dict \<Rightarrow> string list \<times> (string, int) dict" where
  "release [] ready indegree = (ready, indegree)"
| "release (target # targets) ready indegree =
     (let n = degree indegree target - 1
      in release targets (if n = 0 then ready @ [target] else ready) (dict_set target n indegree))"

definition pending :: "(string, int) dict \<Rightarrow> nat" where
  "pending indegree = card {node. 0 < degree indegree node}"

lemma degree_set [simp]: "degree (dict_set k n d) k' = (if k' = k then n else degree d k')"
  by (simp add: degree_def)

lemma finite_pending: "finite {node. 0 < degree d node}"
proof (rule finite_subset)
  show "{node. 0 < degree d node} \<subseteq> fst ` set d"
    by (auto simp: degree_def split: option.splits dest!: map_of_SomeD intro: rev_image_eqI)
qed simp

lemma release_measure:
  "release ts ready d = (ready', d') \<Longrightarrow> length ready' + pending d' \<le> length ready + pending d"
proof (induction ts ready d rule: release.induct)
  case (2 t ts ready d)
  let ?n = "degree d t - 1"
  have "{v. 0 < degree (dict_set t ?n d) v} = (if 0 < ?n then {v. 0 < degree d v} else {v. 0 < degree d v} - {t})"
    by auto
  then have "pending (dict_set t ?n d) + (if ?n = 0 then 1 else 0) \<le> pending d"
    using finite_pending [of d] card_Diff1_le [of "{v. 0 < degree d v}" t]
      card_Suc_Diff1 [OF finite_pending, of t d]
    by (auto simp: pending_def)
  with 2(1) [OF refl] 2(2) show ?case by (force simp: Let_def split: if_splits)
qed simp

function kahn :: "(string, string list) dict \<Rightarrow> string list \<Rightarrow> (string, int) dict \<Rightarrow> nat \<Rightarrow> nat" where
  "kahn outgoing ready indegree ordered =
     (if ready = [] then ordered
      else let (ready', indegree') =
             release (case dict_get outgoing (last ready) of None \<Rightarrow> [] | Some ts \<Rightarrow> ts)
               (butlast ready) indegree
           in kahn outgoing ready' indegree' (ordered + 1))"
  by auto
termination
proof (relation "measure (\<lambda>(outgoing, ready, indegree, ordered). length ready + pending indegree)")
  fix outgoing ready indegree ordered x ready' indegree'
  assume "ready \<noteq> []" and "x = release (case dict_get outgoing (last ready) of None \<Rightarrow> [] | Some ts \<Rightarrow> ts)
      (butlast ready) indegree" and "(ready', indegree') = x"
  then show "((outgoing, ready', indegree', ordered + 1), (outgoing, ready, indegree, ordered))
      \<in> measure (\<lambda>(outgoing, ready, indegree, ordered). length ready + pending indegree)"
    using release_measure [of _ "butlast ready" indegree ready' indegree']
    by (cases ready rule: rev_cases) force+
qed simp

declare kahn.simps [simp del]

definition has_cycle :: "string list \<Rightarrow> (string \<times> string) list \<Rightarrow> bool result" where
  "has_cycle nodes edges =
     rbind (graph_edges edges (dict_update (map (\<lambda>v. (v, [])) nodes) [])
       (dict_update (map (\<lambda>v. (v, 0)) nodes) [])) (\<lambda>(outgoing, indegree).
     Inr (kahn outgoing (map fst (filter (\<lambda>(v, n). n = 0) indegree)) indegree 0 \<noteq> length nodes))"

subsection \<open>The cycle check is correct\<close>

text \<open>A list of nodes in which every node comes after all its predecessors.\<close>

inductive ordered_by :: "(string \<times> string) set \<Rightarrow> string list \<Rightarrow> bool" for E where
  empty: "ordered_by E []"
| snoc: "ordered_by E vs \<Longrightarrow> v \<notin> set vs \<Longrightarrow> (\<And>u. (u, v) \<in> E \<Longrightarrow> u \<in> set vs) \<Longrightarrow> ordered_by E (vs @ [v])"

lemma ordered_distinct: "ordered_by E vs \<Longrightarrow> distinct vs"
  by (induction rule: ordered_by.induct) auto

lemma ordered_rank:
  assumes "ordered_by E vs"
  shows "\<exists>f :: string \<Rightarrow> nat. (\<forall>v \<in> set vs. f v < length vs) \<and>
     (\<forall>(u, v) \<in> E. v \<in> set vs \<longrightarrow> u \<in> set vs \<and> f u < f v)"
  using assms
proof (induction rule: ordered_by.induct)
  case (snoc vs v)
  then obtain f where f: "\<forall>v \<in> set vs. f v < length vs"
    "\<forall>(u, v) \<in> E. v \<in> set vs \<longrightarrow> u \<in> set vs \<and> f u < (f v :: nat)" by blast
  let ?g = "f(v := length vs)"
  have "u \<in> set (vs @ [v]) \<and> ?g u < ?g w" if "(u, w) \<in> E" "w \<in> set (vs @ [v])" for u w
    using that f snoc(2,3) by (cases "w = v") auto
  moreover have "\<forall>w \<in> set (vs @ [v]). ?g w < length (vs @ [v])"
    using f(1) by auto
  ultimately show ?case by (intro exI [of _ ?g]) blast
qed simp

lemma ordered_acyclic:
  assumes "ordered_by E vs" and "\<And>u v. (u, v) \<in> E \<Longrightarrow> v \<in> set vs"
  shows "acyclic E"
proof -
  obtain f :: "string \<Rightarrow> nat" where "\<forall>(u, v) \<in> E. v \<in> set vs \<longrightarrow> u \<in> set vs \<and> f u < f v"
    using ordered_rank [OF assms(1)] by blast
  then have "E \<subseteq> measure f" using assms(2) by auto
  then show ?thesis using acyclic_subset wf_acyclic wf_measure by blast
qed

lemma release_correct:
  assumes "release ts ready d = (ready', d')"
    and "\<And>v. int (count_list ts v) \<le> degree d v" and "\<And>v. v \<in> set ready \<Longrightarrow> degree d v = 0"
    and "distinct ready"
  shows "(\<forall>v. degree d' v = degree d v - int (count_list ts v)) \<and>
     set ready' = set ready \<union> {v \<in> set ts. degree d v = int (count_list ts v)} \<and> distinct ready'"
  using assms
proof (induction ts ready d rule: release.induct)
  case (2 t ts ready d)
  let ?n = "degree d t - 1" and ?d = "dict_set t (degree d t - 1) d"
  let ?r = "if ?n = 0 then ready @ [t] else ready"
  have t: "1 \<le> degree d t" "t \<notin> set ready" using 2(3) [of t] 2(4) [of t] by force+
  have rel: "release ts ?r ?d = (ready', d')" using 2(2) by (simp add: Let_def)
  have deg: "int (count_list ts v) \<le> degree ?d v" for v using 2(3) [of v] by (simp split: if_splits)
  have zero: "degree ?d v = 0" if "v \<in> set ?r" for v
    using that 2(4) [of v] t by (auto split: if_splits)
  have dist: "distinct ?r" using 2(5) t by simp
  have IH: "(\<forall>v. degree d' v = degree ?d v - int (count_list ts v)) \<and>
     set ready' = set ?r \<union> {v \<in> set ts. degree ?d v = int (count_list ts v)} \<and> distinct ready'"
    using 2(1) [OF refl rel deg zero dist] .
  have "degree d' v = degree d v - int (count_list (t # ts) v)" for v
    using IH by (cases "v = t") auto
  moreover have "set ready' = set ready \<union> {v \<in> set (t # ts). degree d v = int (count_list (t # ts) v)}"
    using IH deg [of t] count_list_0_iff [of ts t] by (auto split: if_splits)
  ultimately show ?case using IH by blast
qed simp

definition waiting :: "(string \<times> string) list \<Rightarrow> string list \<Rightarrow> string \<Rightarrow> nat" where
  "waiting edges visited v = length (filter (\<lambda>(u, w). w = v \<and> u \<notin> set visited) edges)"

definition targets :: "(string \<times> string) list \<Rightarrow> string \<Rightarrow> string list" where
  "targets edges v = map snd (filter (\<lambda>e. fst e = v) edges)"

lemma count_targets: "v \<notin> set vs \<Longrightarrow> waiting edges vs w = count_list (targets edges v) w + waiting edges (vs @ [v]) w"
  by (induction edges) (auto simp: waiting_def targets_def)

text \<open>The invariant of the loop: \<open>vs\<close> are the nodes placed so far.\<close>

definition kahn_inv ::
    "string set \<Rightarrow> (string \<times> string) list \<Rightarrow> string list \<Rightarrow> string list \<Rightarrow> (string, int) dict \<Rightarrow> bool" where
  "kahn_inv N edges vs ready d \<longleftrightarrow> ordered_by (set edges) vs \<and> distinct (vs @ ready) \<and> set (vs @ ready) \<subseteq> N \<and>
     (\<forall>v. degree d v = int (waiting edges vs v)) \<and>
     (\<forall>v \<in> N. waiting edges vs v = 0 \<longleftrightarrow> v \<in> set (vs @ ready))"

lemma waiting_zero: "waiting edges vs v = 0 \<longleftrightarrow> (\<forall>u. (u, v) \<in> set edges \<longrightarrow> u \<in> set vs)"
  by (auto simp: waiting_def filter_empty_conv)

lemma kahn_inv_step:
  assumes "kahn_inv N edges vs (ready @ [v]) d" and "set (targets edges v) \<subseteq> N"
    and "release (targets edges v) ready d = (ready', d')"
  shows "kahn_inv N edges (vs @ [v]) ready' d'"
proof -
  note inv = assms(1) [unfolded kahn_inv_def]
  have v: "v \<notin> set vs" "v \<in> N" using inv by auto
  have count: "waiting edges vs w = count_list (targets edges v) w + waiting edges (vs @ [v]) w" for w
    by (rule count_targets [OF v(1)])
  have le: "int (count_list (targets edges v) w) \<le> degree d w" for w
    using inv count [of w] by simp
  have zero: "degree d w = 0" if "w \<in> set ready" for w
  proof -
    have "w \<in> N" "w \<in> set (vs @ ready @ [v])" using that inv by auto
    then show ?thesis using inv by simp
  qed
  have dist: "distinct ready" using inv by simp
  have rel: "\<forall>w. degree d' w = degree d w - int (count_list (targets edges v) w)"
    "set ready' = set ready \<union> {w \<in> set (targets edges v). degree d w = int (count_list (targets edges v) w)}"
    "distinct ready'"
    using release_correct [OF assms(3) le zero dist] by blast+
  have deg: "degree d' w = int (waiting edges (vs @ [v]) w)" for w
    using rel(1) inv count [of w] by simp
  have new: "w \<in> set ready' \<longleftrightarrow> w \<in> set ready \<or> (w \<in> set (targets edges v) \<and> waiting edges (vs @ [v]) w = 0)" for w
    using rel(2) inv count [of w] by auto
  have was: "waiting edges vs w = 0 \<longleftrightarrow> w \<in> set vs \<or> w \<in> set ready \<or> w = v" if "w \<in> N" for w
    using inv that by auto
  have N: "set ready' \<subseteq> N" using rel(2) assms(2) inv by auto
  have in_targets: "w \<in> set (targets edges v) \<longleftrightarrow> count_list (targets edges v) w \<noteq> 0" for w
    by (simp add: count_list_0_iff)
  have "w \<notin> set ready'" if "w \<in> set (vs @ [v])" for w
  proof -
    have "w \<in> N" "w \<notin> set ready" using that inv by auto
    then show ?thesis using new [of w] was [of w] that count [of w] in_targets [of w] by auto
  qed
  moreover have "waiting edges (vs @ [v]) w = 0 \<longleftrightarrow> w \<in> set ((vs @ [v]) @ ready')" if "w \<in> N" for w
    using new [of w] was [OF that] count [of w] in_targets [of w] by auto
  moreover have "ordered_by (set edges) (vs @ [v])"
    using inv v was [OF v(2)] by (intro ordered_by.snoc) (auto simp: waiting_zero)
  ultimately show ?thesis
    using inv rel(3) deg N by (auto simp: kahn_inv_def)
qed

lemma kahn_result:
  assumes "kahn_inv N edges vs ready d" and "\<And>v. v \<in> N \<Longrightarrow> dict_get outgoing v = Some (targets edges v)"
    and "snd ` set edges \<subseteq> N"
  shows "\<exists>vs' d'. kahn outgoing ready d (length vs) = length vs' \<and> kahn_inv N edges vs' [] d'"
  using assms(1,2)
proof (induction outgoing ready d "length vs" arbitrary: vs rule: kahn.induct)
  case (1 outgoing ready d vs)
  show ?case
  proof (cases "ready = []")
    case True
    then show ?thesis using 1(2) kahn.simps [of outgoing ready d "length vs"] by auto
  next
    case False
    define v where "v = last ready"
    have ready: "ready = butlast ready @ [v]" using False by (simp add: v_def)
    then have "v \<in> N" using 1(2) by (metis Un_iff False kahn_inv_def last_in_set set_append subsetD v_def)
    then have out: "(case dict_get outgoing (last ready) of None \<Rightarrow> [] | Some ts \<Rightarrow> ts) = targets edges v"
      using 1(3) by (simp add: v_def)
    obtain ready' d' where rel: "release (targets edges v) (butlast ready) d = (ready', d')" by fastforce
    have "set (targets edges v) \<subseteq> N" using assms(3) by (auto simp: targets_def)
    then have inv: "kahn_inv N edges (vs @ [v]) ready' d'"
      using kahn_inv_step [OF _ _ rel] 1(2) ready by metis
    have "kahn outgoing ready d (length vs) = kahn outgoing ready' d' (length (vs @ [v]))"
      using False rel by (subst kahn.simps) (simp add: out)
    moreover have "\<exists>vs' d''. kahn outgoing ready' d' (length (vs @ [v])) = length vs' \<and> kahn_inv N edges vs' [] d''"
      using 1(1) [OF False refl _ _ inv 1(3)] rel out by simp
    ultimately show ?thesis by simp
  qed
qed

lemma kahn_complete:
  assumes "kahn_inv N edges vs [] d" and "acyclic (set edges)" and "fst ` set edges \<subseteq> N"
  shows "set vs = N"
proof (rule ccontr)
  assume "set vs \<noteq> N"
  then obtain x where x: "x \<in> N - set vs" using assms(1) by (auto simp: kahn_inv_def)
  have "wf (set edges)" using assms(2) by (simp add: finite_acyclic_wf)
  then obtain z where z: "z \<in> N - set vs" "\<And>y. (y, z) \<in> set edges \<Longrightarrow> y \<notin> N - set vs"
    using x by (rule wfE_min) blast
  then have "waiting edges vs z = 0" using assms(3) by (force simp: waiting_zero)
  then show False using z(1) assms(1) by (auto simp: kahn_inv_def)
qed

lemma graph_edges_correct:
  assumes "fst ` set edges \<subseteq> fst ` set outgoing" and "snd ` set edges \<subseteq> fst ` set d"
  shows "\<exists>outgoing' d'. graph_edges edges outgoing d = Inr (outgoing', d') \<and>
     (\<forall>v. dict_get outgoing' v = map_option (\<lambda>ts. ts @ targets edges v) (dict_get outgoing v)) \<and>
     (\<forall>v. degree d' v = degree d v + int (waiting edges [] v)) \<and> dict_keys d' = dict_keys d"
  using assms
proof (induction edges outgoing d rule: graph_edges.induct)
  case (1 outgoing d)
  then show ?case by (simp add: targets_def waiting_def option.map_ident)
next
  case (2 source target edges outgoing d)
  then have "source \<in> fst ` set outgoing" "target \<in> fst ` set d" by auto
  then obtain ts n where look: "dict_get outgoing source = Some ts" "dict_get d target = Some n"
    by (metis dict_get_None_iff option.exhaust)
  let ?o = "dict_set source (ts @ [target]) outgoing" and ?d = "dict_set target (n + 1) d"
  obtain outgoing' d' where IH: "graph_edges edges ?o ?d = Inr (outgoing', d')"
    "\<And>v. dict_get outgoing' v = map_option (\<lambda>ts. ts @ targets edges v) (dict_get ?o v)"
    "\<And>v. degree d' v = degree ?d v + int (waiting edges [] v)" "dict_keys d' = dict_keys ?d"
  proof -
    have "fst ` set edges \<subseteq> fst ` set ?o" "snd ` set edges \<subseteq> fst ` set ?d" using 2(2,3) by auto
    then show ?thesis using 2(1) [OF look] that by blast
  qed
  have "dict_get outgoing' v = map_option (\<lambda>ts. ts @ targets ((source, target) # edges) v) (dict_get outgoing v)" for v
    using IH(2) [of v] look by (auto simp: targets_def)
  moreover have "degree d' v = degree d v + int (waiting ((source, target) # edges) [] v)" for v
    using IH(3) [of v] look by (auto simp: waiting_def degree_def)
  moreover have "dict_keys d' = dict_keys d"
    using IH(4) \<open>target \<in> fst ` set d\<close> by (simp add: dict_keys_set)
  ultimately show ?case using IH(1) look by auto
qed

lemma graph_edges_undeclared:
  "graph_edges edges outgoing d = Inr r \<Longrightarrow> fst ` set edges \<subseteq> fst ` set outgoing \<and> snd ` set edges \<subseteq> fst ` set d"
proof (induction edges outgoing d rule: graph_edges.induct)
  case (2 source target edges outgoing d)
  from 2(2) obtain ts n where look: "dict_get outgoing source = Some ts" "dict_get d target = Some n"
    by (auto split: option.splits)
  then have "source \<in> fst ` set outgoing" "target \<in> fst ` set d"
    by (metis dict_get_None_iff option.distinct(1))+
  then show ?case using 2(1) [OF look] 2(2) look by auto
qed simp

lemma dict_of_nodes:
  fixes c :: 'v
  defines "mk \<equiv> \<lambda>vs. dict_update (map (\<lambda>v. (v, c)) vs) []"
  shows "fst ` set (mk vs) = set vs" and "distinct (dict_keys (mk vs))"
    and "dict_get (mk vs) v = (if v \<in> set vs then Some c else None)"
proof -
  have "fst ` set (dict_update (map (\<lambda>v. (v, c)) vs) d) = set vs \<union> fst ` set d" for d
    by (induction vs arbitrary: d) auto
  then show "fst ` set (mk vs) = set vs" by (simp add: mk_def)
  show "distinct (dict_keys (mk vs))" by (simp add: mk_def distinct_dict_update)
  have "dict_get (dict_update (map (\<lambda>v. (v, c)) vs) d) v = (if v \<in> set vs then Some c else dict_get d v)" for d
    by (induction vs arbitrary: d) auto
  then show "dict_get (mk vs) v = (if v \<in> set vs then Some c else None)" by (simp add: mk_def)
qed

theorem has_cycle_correct:
  assumes "distinct nodes" and "set edges \<subseteq> set nodes \<times> set nodes"
  shows "has_cycle nodes edges = Inr (\<not> acyclic (set edges))"
proof -
  let ?o = "dict_update (map (\<lambda>v. (v, [])) nodes) []" and ?d = "dict_update (map (\<lambda>v. (v, 0 :: int)) nodes) []"
  note o = dict_of_nodes [where c = "[]" and vs = nodes] and d = dict_of_nodes [where c = "0 :: int" and vs = nodes]
  have ends: "fst ` set edges \<subseteq> set nodes" "snd ` set edges \<subseteq> set nodes" using assms(2) by auto
  have declared: "fst ` set edges \<subseteq> fst ` set ?o" "snd ` set edges \<subseteq> fst ` set ?d"
    unfolding o(1) d(1) by (rule ends)+
  obtain outgoing indegree where all: "graph_edges edges ?o ?d = Inr (outgoing, indegree) \<and>
      (\<forall>v. dict_get outgoing v = map_option (\<lambda>ts. ts @ targets edges v) (dict_get ?o v)) \<and>
      (\<forall>v. degree indegree v = degree ?d v + int (waiting edges [] v)) \<and> dict_keys indegree = dict_keys ?d"
    using graph_edges_correct [OF declared] by (elim exE)
  note built = all [THEN conjunct1] all [THEN conjunct2, THEN conjunct1, rule_format]
    all [THEN conjunct2, THEN conjunct2, THEN conjunct1, rule_format] all [THEN conjunct2, THEN conjunct2, THEN conjunct2]
  have deg: "degree indegree v = int (waiting edges [] v)" for v
    using built(3) [of v] d(3) [of v] by (simp add: degree_def)
  have out: "dict_get outgoing v = Some (targets edges v)" if "v \<in> set nodes" for v
    using built(2) [of v] o(3) [of v] that by simp
  have keys: "distinct (dict_keys indegree)" "fst ` set indegree = set nodes"
    using built(4) d(1,2) by (metis, metis set_map)
  define ready where "ready = map fst (filter (\<lambda>(v, n). n = 0) indegree)"
  have ready: "set ready = {v \<in> set nodes. waiting edges [] v = 0}"
  proof -
    have "(v, n) \<in> set indegree \<longleftrightarrow> v \<in> set nodes \<and> degree indegree v = n" for v n
    proof -
      have "(v, n) \<in> set indegree \<longleftrightarrow> dict_get indegree v = Some n" using keys(1) by simp
      also have "\<dots> \<longleftrightarrow> v \<in> set nodes \<and> degree indegree v = n"
        using dict_get_None_iff [of indegree v] keys(2) by (cases "dict_get indegree v") (auto simp: degree_def)
      finally show ?thesis .
    qed
    moreover have "v \<in> set ready \<longleftrightarrow> (v, 0) \<in> set indegree" for v
      by (auto simp: ready_def intro: rev_image_eqI)
    ultimately show ?thesis using deg by auto
  qed
  have "distinct ready"
    unfolding ready_def using keys(1) by (rule distinct_map_filter)
  then have start: "kahn_inv (set nodes) edges [] ready indegree"
    using ready deg by (auto simp: kahn_inv_def ordered_by.empty)
  have "\<exists>vs d'. kahn outgoing ready indegree (length ([] :: string list)) = length vs \<and> kahn_inv (set nodes) edges vs [] d'"
    by (rule kahn_result [OF start _ ends(2)]) (rule out)
  then obtain vs d' where run: "kahn outgoing ready indegree 0 = length vs"
    "kahn_inv (set nodes) edges vs [] d'" by auto
  note inv = run(2) [unfolded kahn_inv_def]
  have "length vs = length nodes \<longleftrightarrow> set vs = set nodes"
    using inv assms(1) by (metis append_Nil2 card_subset_eq distinct_card finite_set)
  also have "\<dots> \<longleftrightarrow> acyclic (set edges)"
  proof
    assume "set vs = set nodes"
    then show "acyclic (set edges)"
      using ordered_acyclic [of "set edges" vs] inv ends(2) by force
  qed (rule kahn_complete [OF run(2) _ ends(1)])
  finally show ?thesis
    using run(1) built(1) by (simp add: has_cycle_def ready_def [symmetric])
qed

subsection \<open>The five clamps\<close>

definition worker_task_refusal ::
    "uuid set \<Rightarrow> leader_safety_envelope_view \<Rightarrow> leader_worker_task_draft \<Rightarrow> unit result" where
  "worker_task_refusal roster envelope draft =
     (if lwd_assignee_worker_agent_id draft \<notin> roster
      then Inl (leader_action_refused LE_PLAN_INVALID_ASSIGNEE
        ''a worker task is assigned to an agent outside this team's roster'')
      else if \<exists>p \<in> set (lwd_allowed_paths draft). \<not> within_roots p (lse_allowed_path_roots envelope)
      then Inl (leader_action_refused LE_PLAN_INVALID_ALLOWED_PATHS
        ''a worker task's allowed paths fall outside the safety envelope'')
      else if set (lse_test_commands envelope) - set (lwd_tests draft) \<noteq> {}
      then Inl (leader_action_refused LE_PLAN_INVALID_TESTS_REMOVED
        ''a worker task drops a verification command the envelope requires'')
      else Inr ())"

definition assert_plan_is_within_envelope ::
    "repository_plan_decision \<Rightarrow> leader_assignment_view \<Rightarrow> unit result" where
  "assert_plan_is_within_envelope decision a =
     (if lpv_source (rpd_provenance decision) \<noteq> leader_provenance_source
      then Inl (leader_action_refused LE_PLAN_INVALID_PROVENANCE
        ''a repository plan must carry leader-codex-session provenance'')
      else if \<not> distinct (rpd_nodes decision)
      then Inl (leader_action_refused LE_PLAN_INVALID_DAG_COVERAGE
        ''the task DAG declares the same node more than once'')
      else let claimed = map lwd_node_id (rpd_worker_tasks decision); nodes = set (rpd_nodes decision)
      in if \<not> distinct claimed \<or> set claimed \<noteq> nodes
      then Inl (leader_action_refused LE_PLAN_INVALID_DAG_COVERAGE
        ''every DAG node must be named by exactly one worker task, and vice versa'')
      else if \<exists>(source, target) \<in> set (rpd_edges decision). source \<notin> nodes \<or> target \<notin> nodes
      then Inl (leader_action_refused LE_PLAN_INVALID_DAG_COVERAGE
        ''a DAG edge references a node the plan does not declare'')
      else rbind (has_cycle (rpd_nodes decision) (rpd_edges decision)) (\<lambda>cycle.
        if cycle
        then Inl (leader_action_refused LE_PLAN_INVALID_DAG_CYCLE
          ''the task DAG contains a cycle, so no execution order exists'')
        else rbind (map_result (worker_task_refusal
            (set (map wre_worker_agent_id (la_worker_roster a))) (la_safety_envelope a))
          (rpd_worker_tasks decision)) (\<lambda>_. Inr ())))"

lemma map_result_unit: "rbind (map_result f xs) (\<lambda>_. Inr ()) = Inr () \<longleftrightarrow> (\<forall>x \<in> set xs. f x = Inr ())"
  by (induction xs) (auto simp: rbind_eq_Inr_iff)

text \<open>What an accepted plan is.\<close>

definition executable_plan :: "repository_plan_decision \<Rightarrow> bool" where
  "executable_plan d \<longleftrightarrow> distinct (rpd_nodes d) \<and> distinct (map lwd_node_id (rpd_worker_tasks d)) \<and>
     lwd_node_id ` set (rpd_worker_tasks d) = set (rpd_nodes d) \<and>
     set (rpd_edges d) \<subseteq> set (rpd_nodes d) \<times> set (rpd_nodes d) \<and> acyclic (set (rpd_edges d))"

definition task_bounded :: "leader_assignment_view \<Rightarrow> leader_worker_task_draft \<Rightarrow> bool" where
  "task_bounded a t \<longleftrightarrow>
     lwd_assignee_worker_agent_id t \<in> wre_worker_agent_id ` set (la_worker_roster a) \<and>
     (\<forall>p \<in> set (lwd_allowed_paths t). within_roots p (lse_allowed_path_roots (la_safety_envelope a))) \<and>
     set (lse_test_commands (la_safety_envelope a)) \<subseteq> set (lwd_tests t)"

text \<open>C40: \<open>_assert_plan_is_within_envelope\<close> accepts a leader's plan exactly when it carries the leader's
  provenance, its worker tasks name its DAG nodes one-to-one, its edges stay among the declared nodes
  and are acyclic (Kahn's loop decides this correctly, whatever the order of nodes and edges), and
  every worker task is for a worker of the roster, keeps its paths within the envelope and runs every
  verification command the envelope requires.\<close>
theorem plan_accepted_iff:
  "assert_plan_is_within_envelope d a = Inr () \<longleftrightarrow>
     lpv_source (rpd_provenance d) = leader_provenance_source \<and> executable_plan d \<and>
     (\<forall>t \<in> set (rpd_worker_tasks d). task_bounded a t)"
proof -
  have task: "worker_task_refusal (wre_worker_agent_id ` set (la_worker_roster a)) (la_safety_envelope a) t = Inr ()
      \<longleftrightarrow> task_bounded a t" for t
    by (auto simp: worker_task_refusal_def task_bounded_def)
  have edges: "(\<exists>(source, target) \<in> set (rpd_edges d). source \<notin> set (rpd_nodes d) \<or> target \<notin> set (rpd_nodes d))
      \<longleftrightarrow> \<not> set (rpd_edges d) \<subseteq> set (rpd_nodes d) \<times> set (rpd_nodes d)"
    by auto
  show ?thesis
    unfolding assert_plan_is_within_envelope_def executable_plan_def Let_def edges
    by (auto simp: has_cycle_correct map_result_unit task)
qed

text \<open>Two tasks of one worker, the second after the first; run backwards too, the plan is refused.\<close>

definition sample_draft :: "string \<Rightarrow> leader_worker_task_draft" where
  "sample_draft node =
     \<lparr>lwd_node_id = node, lwd_assignee_worker_agent_id = 7, lwd_title = ''t'', lwd_instruction = ''i'',
      lwd_allowed_paths = [''src/a.py''], lwd_tests = [''make''], lwd_database_change = no_database_change\<rparr>"

definition sample_plan_decision :: "(string \<times> string) list \<Rightarrow> repository_plan_decision" where
  "sample_plan_decision edges =
     \<lparr>rpd_engineering_spec_summary = ''s'', rpd_engineering_spec_markdown = ''m'', rpd_nodes = [''a'', ''b''],
      rpd_edges = edges, rpd_worker_tasks = [sample_draft ''a'', sample_draft ''b''],
      rpd_provenance = \<lparr>lpv_source = leader_provenance_source, lpv_session_thread_id = ''t'', lpv_turn_id = None\<rparr>,
      rpd_raw = JNull\<rparr>"

definition sample_leader_assignment :: leader_assignment_view where
  "sample_leader_assignment =
     \<lparr>la_leader_task_id = 6, la_organization_id = 1, la_project_id = 2, la_repository_id = 3, la_leader_agent_id = 5,
      la_phase = LP_PLANNING,
      la_safety_envelope = \<lparr>lse_allowed_path_roots = [''src/**''], lse_test_paths = [], lse_test_commands = [''make'']\<rparr>,
      la_worker_roster = [\<lparr>wre_worker_agent_id = 7, wre_worker_name = ''w'', wre_responsibility_paths = []\<rparr>],
      la_review_revision = 1, la_accepted_plan = None, la_review_evidence = None, la_accepted_reviews = []\<rparr>"

lemma sample_plan_checked:
  "assert_plan_is_within_envelope (sample_plan_decision [(''a'', ''b'')]) sample_leader_assignment = Inr ()"
  "has_cycle [''a'', ''b''] [(''a'', ''b''), (''b'', ''a'')] = Inr True"
  by code_simp+

theorem plan_accepted_iff_witness:
  "executable_plan (sample_plan_decision [(''a'', ''b'')]) \<and> task_bounded sample_leader_assignment (sample_draft ''a'') \<and>
   \<not> executable_plan (sample_plan_decision [(''a'', ''b''), (''b'', ''a'')]) \<and>
   assert_plan_is_within_envelope (sample_plan_decision [(''a'', ''b''), (''b'', ''a'')]) sample_leader_assignment \<noteq> Inr ()"
proof -
  have "\<not> acyclic {(''a'', ''b''), (''b'', ''a'')}"
    unfolding acyclic_def by (auto intro!: exI [of _ "''a''"] intro: trancl_into_trancl2)
  then have cyclic: "\<not> executable_plan (sample_plan_decision [(''a'', ''b''), (''b'', ''a'')])"
    by (simp add: executable_plan_def sample_plan_decision_def)
  show ?thesis
    using plan_accepted_iff [of "sample_plan_decision [(''a'', ''b'')]" sample_leader_assignment]
      plan_accepted_iff [of "sample_plan_decision [(''a'', ''b''), (''b'', ''a'')]" sample_leader_assignment]
      sample_plan_checked cyclic
    by (simp add: sample_plan_decision_def)
qed

subsection \<open>What the path clamp lets through\<close>

text \<open>
  The clamp compares texts: whatever is written after the text of a root is within it, a sibling
  directory included.
\<close>

theorem root_text_extends:
  assumes "root \<in> set roots" and "root_prefix root = c # cs" and "\<not> py_isspace c" and "c \<notin> set ''./''"
    and "\<not> py_isspace (last (c # cs @ s))"
  shows "within_roots (c # cs @ s) roots"
proof -
  have "py_strip (c # cs @ s) = c # cs @ s" using assms(3,5) by (intro py_strip_fixed) simp
  then have "path_core (c # cs @ s) = (c # cs) @ s" using assms(4) by (simp add: path_core_def)
  then have "prefix (root_prefix root) (path_core (c # cs @ s))" unfolding assms(2) by (metis prefixI)
  then show ?thesis using assms(1) by (auto simp: within_roots_def)
qed

text \<open>A plan within the root \<open>src\<close> may write to \<open>src-keys\<close>, which the root does not match.\<close>

lemma sibling_within_root:
  "within_roots ''src-keys/**'' [''src'']" "fnmatchcase ''src-keys/id'' ''src-keys/**''"
  "\<not> fnmatchcase ''src-keys/id'' ''src''" "\<not> fnmatchcase ''src-keys/id'' ''src/**''"
  by code_simp+

subsection \<open>The verdict\<close>

definition assert_review_is_answerable ::
    "repository_review_decision \<Rightarrow> leader_review_evidence_view \<Rightarrow> unit result" where
  "assert_review_is_answerable decision evidence =
     (let reviewed = set (map wev_worker_task_id (lre_worker_evidence evidence))
      in if \<exists>f \<in> set (rrd_findings decision). lrf_worker_task_id f \<notin> reviewed
         then Inl (leader_action_refused LE_REVIEW_INVALID_FINDINGS
           ''a finding names a worker task outside this round's evidence'')
         else if rrd_verdict decision = LV_REQUEST_REWORK \<and> rework_findings decision = []
         then Inl (leader_action_refused LE_REVIEW_INVALID_FINDINGS
           ''requesting rework needs at least one finding carrying a rework instruction'')
         else Inr ())"

lemma review_answerable_iff:
  "assert_review_is_answerable d e = Inr () \<longleftrightarrow>
     (\<forall>f \<in> set (rrd_findings d). lrf_worker_task_id f \<in> wev_worker_task_id ` set (lre_worker_evidence e)) \<and>
     (rrd_verdict d = LV_REQUEST_REWORK \<longrightarrow> rework_findings d \<noteq> [])"
  by (auto simp: assert_review_is_answerable_def Let_def)

text \<open>Every finding that asks for rework is about a task of the evidence.\<close>

lemma rework_findings_reviewed:
  "assert_review_is_answerable d e = Inr () \<Longrightarrow> f \<in> set (rework_findings d) \<Longrightarrow>
     \<exists>w \<in> set (lre_worker_evidence e). wev_worker_task_id w = lrf_worker_task_id f"
  by (force simp: review_answerable_iff rework_findings_def)

end
