(* ===== verification/Rely_Guarantee.thy ===== *)
theory Rely_Guarantee
  imports Proc_Invariants
begin

text \<open>
  Reasoning about services that interleave at their awaits. \<open>sound\<close> is what every state satisfies
  and \<open>follows\<close> how a later state may differ from an earlier one; a call guarantees both if what
  the others do at its awaits does. An assertion a call remembers across an await has to be stable
  under \<open>follows\<close>.
\<close>

definition steady_env :: "('s \<Rightarrow> bool) \<Rightarrow> ('s \<Rightarrow> 's \<Rightarrow> bool) \<Rightarrow> ('s \<Rightarrow> 's) \<Rightarrow> bool" where
  "steady_env sound follows env \<longleftrightarrow> (\<forall>s. sound s \<longrightarrow> sound (env s) \<and> follows s (env s))"

definition stable :: "('s \<Rightarrow> bool) \<Rightarrow> ('s \<Rightarrow> 's \<Rightarrow> bool) \<Rightarrow> ('s \<Rightarrow> bool) \<Rightarrow> bool" where
  "stable sound follows P \<longleftrightarrow> (\<forall>s t. sound t \<longrightarrow> follows s t \<longrightarrow> P s \<longrightarrow> P t)"

text \<open>
  Started in \<open>P\<close>, the call ends, however it ends, in a state that satisfies the invariant and
  follows the first; what it returns satisfies \<open>Q\<close> there.
\<close>

definition guarantees ::
    "('s \<Rightarrow> bool) \<Rightarrow> ('s \<Rightarrow> 's \<Rightarrow> bool) \<Rightarrow> ('s \<Rightarrow> bool) \<Rightarrow> ('s, 'a) proc \<Rightarrow> ('a \<Rightarrow> 's \<Rightarrow> bool) \<Rightarrow> bool" where
  "guarantees sound follows P m Q \<longleftrightarrow>
     (\<forall>s. sound s \<longrightarrow> P s \<longrightarrow> sound (snd (m s)) \<and> follows s (snd (m s)) \<and>
        (\<forall>x. fst (m s) = Inr x \<longrightarrow> Q x (snd (m s))))"

named_theorems stable_rules \<open>assertions that others cannot invalidate\<close>

locale rely_guarantee =
  fixes sound :: "'s \<Rightarrow> bool" and follows :: "'s \<Rightarrow> 's \<Rightarrow> bool"
  assumes follows_refl: "follows s s"
    and follows_trans: "follows s t \<Longrightarrow> follows t u \<Longrightarrow> follows s u"
begin

lemma stable_True: "stable sound follows (\<lambda>_. True)"
  by (simp add: stable_def)

lemma stable_pure: "stable sound follows (\<lambda>_. c)"
  by (simp add: stable_def)

lemma stable_conj: "stable sound follows P \<Longrightarrow> stable sound follows Q \<Longrightarrow> stable sound follows (\<lambda>s. P s \<and> Q s)"
  by (auto simp: stable_def)

lemma stable_all: "(\<And>x. stable sound follows (P x)) \<Longrightarrow> stable sound follows (\<lambda>s. \<forall>x. P x s)"
  unfolding stable_def by blast

lemma stable_imp: "stable sound follows P \<Longrightarrow> stable sound follows (\<lambda>s. c \<longrightarrow> P s)"
  unfolding stable_def by blast

lemma guarantees_return: "(\<And>s. sound s \<Longrightarrow> P s \<Longrightarrow> Q x s) \<Longrightarrow> guarantees sound follows P (preturn x) Q"
  by (simp add: guarantees_def preturn_def follows_refl)

lemma guarantees_raise: "guarantees sound follows P (praise e) Q"
  by (simp add: guarantees_def praise_def follows_refl)

lemma guarantees_lift:
  "(\<And>s x. sound s \<Longrightarrow> P s \<Longrightarrow> r = Inr x \<Longrightarrow> Q x s) \<Longrightarrow> guarantees sound follows P (plift r) Q"
  by (simp add: guarantees_def plift_def follows_refl)

lemma guarantees_get: "(\<And>s. sound s \<Longrightarrow> P s \<Longrightarrow> Q (f s) s) \<Longrightarrow> guarantees sound follows P (pget f) Q"
  by (simp add: guarantees_def pget_def follows_refl)

lemma guarantees_pure:
  "(c \<Longrightarrow> guarantees sound follows P m Q) \<Longrightarrow> guarantees sound follows (\<lambda>s. c \<and> P s) m Q"
  by (auto simp: guarantees_def)

lemma guarantees_if:
  "(c \<Longrightarrow> guarantees sound follows P m Q) \<Longrightarrow> (\<not> c \<Longrightarrow> guarantees sound follows P n Q) \<Longrightarrow>
     guarantees sound follows P (if c then m else n) Q"
  by simp

lemma guarantees_option:
  "(found = None \<Longrightarrow> guarantees sound follows P m Q) \<Longrightarrow>
     (\<And>x. found = Some x \<Longrightarrow> guarantees sound follows P (f x) Q) \<Longrightarrow>
     guarantees sound follows P (case found of None \<Rightarrow> m | Some x \<Rightarrow> f x) Q"
  by (cases found) simp_all

lemma guarantees_prod:
  "(\<And>x y. p = (x, y) \<Longrightarrow> guarantees sound follows P (f x y) Q) \<Longrightarrow>
     guarantees sound follows P (case p of (x, y) \<Rightarrow> f x y) Q"
  by (cases p) simp

lemma guarantees_bind:
  assumes "guarantees sound follows P m R" and "\<And>x. guarantees sound follows (R x) (f x) Q"
  shows "guarantees sound follows P (pbind m f) Q"
  unfolding guarantees_def
proof (intro allI impI)
  fix s assume s: "sound s" "P s"
  obtain r t where m: "m s = (r, t)" by fastforce
  then have t: "sound t" "follows s t" "\<And>x. r = Inr x \<Longrightarrow> R x t"
    using assms(1) s by (auto simp: guarantees_def)
  show "sound (snd (pbind m f s)) \<and> follows s (snd (pbind m f s)) \<and>
      (\<forall>x. fst (pbind m f s) = Inr x \<longrightarrow> Q x (snd (pbind m f s)))"
  proof (cases r)
    case (Inl e)
    then show ?thesis using m t by (simp add: pbind_def)
  next
    case (Inr x)
    then have "sound (snd (f x t)) \<and> follows t (snd (f x t)) \<and> (\<forall>y. fst (f x t) = Inr y \<longrightarrow> Q y (snd (f x t)))"
      using assms(2) [of x] t by (simp add: guarantees_def)
    then show ?thesis using m t(2) follows_trans Inr by (simp add: pbind_def)
  qed
qed

lemma guarantees_keep:
  assumes "guarantees sound follows P m (\<lambda>_. P)" and "\<And>x. guarantees sound follows P (f x) Q"
  shows "guarantees sound follows P (pbind m f) Q"
  using assms by (rule guarantees_bind)

lemma guarantees_compute:
  assumes "\<And>x. r = Inr x \<Longrightarrow> guarantees sound follows P (f x) Q"
  shows "guarantees sound follows P (pbind (plift r) f) Q"
  using assms guarantees_raise [of P _ Q] by (cases r) (auto simp: guarantees_def follows_refl)

lemma guarantees_await:
  assumes "steady_env sound follows env" and "guarantees sound follows P m R"
    and "\<And>x. stable sound follows (R x)" and "\<And>x. guarantees sound follows (R x) (f x) Q"
  shows "guarantees sound follows P (await env m f) Q"
proof -
  have "guarantees sound follows (R x) (pwait env) (\<lambda>_. R x)" for x
    using assms(1,3) by (auto simp: guarantees_def pwait_def steady_env_def stable_def)
  then have "guarantees sound follows (R x) (pbind (pwait env) (\<lambda>_. f x)) Q" for x
    by (rule guarantees_bind) (rule assms(4))
  then show ?thesis unfolding await_def by (rule guarantees_bind [OF assms(2)])
qed

lemma guarantees_conseq:
  "guarantees sound follows P m Q \<Longrightarrow> (\<And>s. sound s \<Longrightarrow> P' s \<Longrightarrow> P s) \<Longrightarrow>
     (\<And>x s. sound s \<Longrightarrow> Q x s \<Longrightarrow> Q' x s) \<Longrightarrow> guarantees sound follows P' m Q'"
  by (auto simp: guarantees_def)

text \<open>What the call remembers that is stable, it still knows.\<close>

lemma guarantees_frame:
  "guarantees sound follows P m Q \<Longrightarrow> stable sound follows F \<Longrightarrow>
     guarantees sound follows (\<lambda>s. F s \<and> P s) m (\<lambda>x s. F s \<and> Q x s)"
  by (auto simp: guarantees_def stable_def)

lemma guarantees_Inr:
  "guarantees sound follows P m Q \<Longrightarrow> sound s \<Longrightarrow> P s \<Longrightarrow> m s = (Inr x, t) \<Longrightarrow> sound t \<and> follows s t \<and> Q x t"
  by (force simp: guarantees_def)

lemma guarantees_end:
  "guarantees sound follows P m Q \<Longrightarrow> sound s \<Longrightarrow> P s \<Longrightarrow> m s = (r, t) \<Longrightarrow> sound t \<and> follows s t"
  by (force simp: guarantees_def)

end

end
