(* ===== verification/Plan_Advance.thy ===== *)
theory Plan_Advance
  imports Task_Orchestration Leader_Plan Rely_Guarantee
begin

text \<open>
  \<open>DecomposeRepositoryTask\<close> and \<open>AdvanceExecutionPlan\<close> of
  \<open>modules/task_orchestration/application.py\<close>: how a plan is driven batch by
  batch. The identifiers a call makes are given per idempotency key (\<open>fresh key\<close>), since a call
  writes at most one task under a key.
\<close>

subsection \<open>Loops\<close>

text \<open>\<open>[await f(x) for x in xs]\<close>.\<close>

fun pmap :: "('a \<Rightarrow> ('s, 'b) proc) \<Rightarrow> 'a list \<Rightarrow> ('s, 'b list) proc" where
  "pmap f [] = preturn []"
| "pmap f (x # xs) = pbind (f x) (\<lambda>y. pbind (pmap f xs) (\<lambda>ys. preturn (y # ys)))"

definition peach :: "('a \<Rightarrow> ('s, unit) proc) \<Rightarrow> 'a list \<Rightarrow> ('s, unit) proc" where
  "peach f xs = pbind (pmap f xs) (\<lambda>_. preturn ())"

subsection \<open>Decomposition by the server\<close>

definition repository_team ::
    "'w ports \<Rightarrow> ('w orch \<Rightarrow> 'w orch) \<Rightarrow> uuid \<Rightarrow> uuid \<Rightarrow> ('w orch, repository_team_view) proc" where
  "repository_team ports env project_id repository_id =
     await env (pget (\<lambda>s. pp_topology ports project_id (or_world s))) (\<lambda>topology.
     case (case topology of None \<Rightarrow> None
           | Some p \<Rightarrow> find (\<lambda>team. rtv_repository_id team = repository_id) (ptv_repository_teams p)) of
       None \<Rightarrow> praise (TaskDenied ''project repository team does not exist'')
     | Some team \<Rightarrow> preturn team)"

definition active_agent ::
    "'w ports \<Rightarrow> ('w orch \<Rightarrow> 'w orch) \<Rightarrow> string \<Rightarrow> uuid \<Rightarrow> ('w orch, agent_principal_view) proc" where
  "active_agent ports env refusal agent_id =
     await env (pget (\<lambda>s. pp_agent ports agent_id (or_world s))) (\<lambda>found.
     case found of
       None \<Rightarrow> praise (TaskDenied refusal)
     | Some a \<Rightarrow> if apv_status a \<noteq> AS_ACTIVE then praise (TaskDenied refusal) else preturn a)"

definition ensure_specification ::
    "'w ports \<Rightarrow> ('w orch \<Rightarrow> 'w orch) \<Rightarrow> task_view \<Rightarrow> string list \<Rightarrow> string list \<Rightarrow> string \<Rightarrow> ('w orch, unit) proc" where
  "ensure_specification ports env view tests test_paths key =
     (case pp_permit ports of
        None \<Rightarrow> preturn ()
      | Some permit \<Rightarrow>
          pbind (active_agent ports env ''worker agent is missing or disabled'' (tkv_assignee_agent_id view)) (\<lambda>worker.
          await env (on_world (permit view (derive_allowed_paths (apv_responsibility_paths worker) test_paths) tests
            (key @ '':spec:'' @ uuid_str (tkv_assignee_agent_id view)))) (\<lambda>_. preturn ())))"

definition worker_roster ::
    "'w ports \<Rightarrow> ('w orch \<Rightarrow> 'w orch) \<Rightarrow> repository_team_view \<Rightarrow> ('w orch, worker_roster_entry_view list) proc" where
  "worker_roster ports env team =
     (if rtv_worker_agent_ids team = []
      then praise (TaskDenied ''repository team has no worker to execute the task'')
      else pmap (\<lambda>worker_id.
        pbind (active_agent ports env ''worker agent is missing or disabled'' worker_id) (\<lambda>worker.
        preturn \<lparr>wre_worker_agent_id = apv_id worker, wre_worker_name = apv_agentteams_resource_name worker,
                 wre_responsibility_paths = apv_responsibility_paths worker\<rparr>)) (rtv_worker_agent_ids team))"

definition safety_envelope ::
    "worker_roster_entry_view list \<Rightarrow> string list \<Rightarrow> string list \<Rightarrow> leader_safety_envelope_view" where
  "safety_envelope roster tests test_paths =
     \<lparr>lse_allowed_path_roots = derive_allowed_paths
        (dict_keys (dict_update (map (\<lambda>p. (p, ())) (concat (map wre_responsibility_paths roster))) [])) test_paths,
      lse_test_paths = test_paths, lse_test_commands = tests\<rparr>"

definition child_command :: "task \<Rightarrow> uuid \<Rightarrow> assign_task_command" where
  "child_command t worker_id =
     \<lparr>atc_organization_id = tk_organization_id t, atc_project_id = tk_project_id t,
      atc_repository_id = tk_repository_id t, atc_assigned_by_agent_id = tk_assignee_agent_id t,
      atc_assignee_agent_id = worker_id, atc_title = tk_title t, atc_instruction = tk_instruction t,
      atc_acceptance = tk_acceptance t, atc_parent_task_id = Some (tk_id t),
      atc_database_change = no_database_change\<rparr>"

text \<open>The row, then its permit, and only then the room.\<close>

definition dispatch_child ::
    "'w ports \<Rightarrow> (string \<Rightarrow> string) \<Rightarrow> ('w orch \<Rightarrow> 'w orch) \<Rightarrow> task \<Rightarrow> uuid \<Rightarrow> string \<Rightarrow> string
     \<Rightarrow> string list \<Rightarrow> string list \<Rightarrow> (string \<Rightarrow> nat \<Rightarrow> uuid) \<Rightarrow> datetime \<Rightarrow> ('w orch, task_view list) proc" where
  "dispatch_child ports sha256 env t worker_id key worker_key tests test_paths fresh now =
     pbind (assign_task ports sha256 env (child_command t worker_id) worker_key (tk_origin t) False (fresh worker_key) now)
       (\<lambda>worker_task.
     pbind (ensure_specification ports env worker_task tests test_paths key) (\<lambda>_.
     pbind (deliver_assignment ports sha256 env (tkv_id worker_task)) (\<lambda>_. preturn [worker_task])))"

text \<open>Another attempt's task is in flight: only a missing permit is repaired.\<close>

definition heal_children ::
    "'w ports \<Rightarrow> ('w orch \<Rightarrow> 'w orch) \<Rightarrow> task list \<Rightarrow> string \<Rightarrow> string list \<Rightarrow> string list
     \<Rightarrow> ('w orch, task_view list) proc" where
  "heal_children ports env children key tests test_paths =
     pbind (plift (map_result tk_to_view children)) (\<lambda>views.
     pbind (peach (\<lambda>(child, view). if tk_status child \<notin> final_task_statuses
         then ensure_specification ports env view tests test_paths key else preturn ()) (zip children views))
       (\<lambda>_. preturn views))"

definition decompose_task ::
    "'w ports \<Rightarrow> (string \<Rightarrow> string) \<Rightarrow> ('w orch \<Rightarrow> 'w orch) \<Rightarrow> uuid \<Rightarrow> string \<Rightarrow> string list \<Rightarrow> string list
     \<Rightarrow> (string \<Rightarrow> nat \<Rightarrow> uuid) \<Rightarrow> datetime \<Rightarrow> ('w orch, task_view list) proc" where
  "decompose_task ports sha256 env task_id idempotency_key tests test_paths fresh now =
     (let key = py_strip idempotency_key
      in if key = [] then praise (ValueError ''idempotency_key is required'')
      else pbind (required_task env task_id) (\<lambda>t.
      pbind (active_agent ports env ''repository leader is missing or disabled'' (tk_assignee_agent_id t)) (\<lambda>leader.
      if apv_role leader \<noteq> AR_REPOSITORY_LEADER
      then praise (TaskDenied ''only a repository leader task can be decomposed'')
      else pbind (repository_team ports env (tk_project_id t) (tk_repository_id t)) (\<lambda>team.
      if rtv_leader_agent_id team \<noteq> apv_id leader
      then praise (TaskDenied ''repository team is led by another agent'')
      else case rtv_worker_agent_ids team of
        [] \<Rightarrow> praise (TaskDenied ''repository team has no worker to execute the task'')
      | worker_id # _ \<Rightarrow>
          let worker_key = key @ '':worker:'' @ uuid_str worker_id
          in await env (pget (\<lambda>s. ts_list_by_parent (or_tasks s) (tk_id t))) (\<lambda>children.
          await env (reads (\<lambda>s. ts_get_by_idempotency_key (or_tasks s) worker_key)) (\<lambda>owned.
          if (\<exists>child \<in> set children. tk_assignee_agent_id child = worker_id \<and> tk_status child \<notin> final_task_statuses) \<and>
             owned = None
          then heal_children ports env children key tests test_paths
          else dispatch_child ports sha256 env t worker_id key worker_key tests test_paths fresh now))))))"

subsection \<open>What drives a plan\<close>

record batch_refusal =
  bdr_reason :: string
  bdr_repository_id :: "uuid option"
  bdr_task_id :: "uuid option"

text \<open>
  The collaborators of \<open>AdvanceExecutionPlan\<close>. \<open>on_batch_deliver\<close> returns the refusal the class
  catches (\<open>BatchDeliveryRefused\<close>), or raises another exception; the leader lane is wired or not.
\<close>

record 'w advance_ports =
  av_completed :: "(execution_plan_view \<Rightarrow> ('w, unit) proc) option"
  av_delivery_state :: "(uuid \<Rightarrow> 'w \<Rightarrow> (uuid \<times> bool) list) option"
  av_deliver :: "(execution_plan_view \<Rightarrow> ('w, batch_refusal option) proc) option"
  av_leader_lane :: bool

definition notify_plan_completed ::
    "'w advance_ports \<Rightarrow> ('w orch \<Rightarrow> 'w orch) \<Rightarrow> execution_plan \<Rightarrow> ('w orch, unit) proc" where
  "notify_plan_completed av env p =
     (case av_completed av of None \<Rightarrow> preturn () | Some notify \<Rightarrow> await env (on_world (notify (ep_to_view p))) (\<lambda>_. preturn ()))"

text \<open>\<open>try: ... except TaskConflict\<close>: whether the write went through.\<close>

definition unless_conflict :: "('s, unit) proc \<Rightarrow> ('s, bool) proc" where
  "unless_conflict m s =
     (case m s of
        (Inr x, t) \<Rightarrow> (Inr True, t)
      | (Inl e, t) \<Rightarrow> (case e of TaskConflict _ \<Rightarrow> Inr False | _ \<Rightarrow> Inl e, t))"

definition settle_plan :: "('w orch \<Rightarrow> 'w orch) \<Rightarrow> execution_plan \<Rightarrow> execution_plan \<Rightarrow> ('w orch, bool) proc" where
  "settle_plan env p updated =
     await env (unless_conflict (on_plans (ps_update updated (ep_version p)))) preturn"

fun batch_succeeded_from ::
    "('w orch \<Rightarrow> 'w orch) \<Rightarrow> planned_repository_task list \<Rightarrow> ('w orch, bool) proc" where
  "batch_succeeded_from env [] = preturn True"
| "batch_succeeded_from env (planned # later) =
     (case prt_leader_task_id planned of
        None \<Rightarrow> preturn False
      | Some leader_id \<Rightarrow>
          await env (pget (\<lambda>s. ts_get (or_tasks s) leader_id)) (\<lambda>found.
          case found of
            None \<Rightarrow> preturn False
          | Some t \<Rightarrow> if tk_status t \<noteq> TS_SUCCEEDED then preturn False else batch_succeeded_from env later))"

definition batch_succeeded :: "('w orch \<Rightarrow> 'w orch) \<Rightarrow> execution_plan \<Rightarrow> ('w orch, bool) proc" where
  "batch_succeeded env p = pbind (plift (ep_current_batch p)) (batch_succeeded_from env)"

definition delivery_gate ::
    "'w advance_ports \<Rightarrow> ('w orch \<Rightarrow> 'w orch) \<Rightarrow> execution_plan \<Rightarrow> ('w orch, bool) proc" where
  "delivery_gate av env p =
     (case av_delivery_state av of
        None \<Rightarrow> preturn True
      | Some states \<Rightarrow>
          await env (pget (\<lambda>s. states (ep_project_id p) (or_world s))) (\<lambda>items.
          pbind (plift (ep_current_batch p)) (\<lambda>batch.
          preturn (\<forall>planned \<in> set batch. dict_get (dict_update items []) (prt_repository_id planned) = Some True))))"

definition deliver_batch ::
    "(execution_plan_view \<Rightarrow> ('w, batch_refusal option) proc) \<Rightarrow> ('w orch \<Rightarrow> 'w orch) \<Rightarrow> execution_plan \<Rightarrow> datetime
     \<Rightarrow> ('w orch, execution_plan option) proc" where
  "deliver_batch deliver env p now =
     await env (on_world (deliver (ep_to_view p))) (\<lambda>refusal.
     case refusal of
       Some r \<Rightarrow>
         pbind (plift (ep_refuse_delivery (bdr_reason r) (bdr_repository_id r) (bdr_task_id r) None now p)) (\<lambda>outcome.
         pbind (case dro_plan outcome of None \<Rightarrow> preturn True | Some q \<Rightarrow> settle_plan env p q) (\<lambda>_. preturn None))
     | None \<Rightarrow>
         pbind (plift (ep_clear_delivery_refusal p)) (\<lambda>cleared.
         case cleared of
           None \<Rightarrow> preturn (Some p)
         | Some q \<Rightarrow> pbind (settle_plan env p q) (\<lambda>done'. preturn (if done' then Some q else None))))"

subsection \<open>Assigning a batch\<close>

definition batch_key :: "string \<Rightarrow> int \<Rightarrow> planned_repository_task \<Rightarrow> string" where
  "batch_key key_prefix batch_index planned =
     key_prefix @ '':b'' @ dec_int batch_index @ '':'' @ uuid_str (prt_repository_id planned)"

definition leader_command :: "execution_plan \<Rightarrow> planned_repository_task \<Rightarrow> repository_team_view \<Rightarrow> assign_task_command" where
  "leader_command p planned team =
     \<lparr>atc_organization_id = ep_organization_id p, atc_project_id = ep_project_id p,
      atc_repository_id = prt_repository_id planned, atc_assigned_by_agent_id = ep_created_by_agent_id p,
      atc_assignee_agent_id = rtv_leader_agent_id team, atc_title = prt_title planned,
      atc_instruction = prt_instruction planned, atc_acceptance = prt_acceptance planned,
      atc_parent_task_id = None, atc_database_change = no_database_change\<rparr>"

definition assign_leader ::
    "'w ports \<Rightarrow> (string \<Rightarrow> string) \<Rightarrow> ('w orch \<Rightarrow> 'w orch) \<Rightarrow> execution_plan \<Rightarrow> int \<Rightarrow> string
     \<Rightarrow> (string \<Rightarrow> nat \<Rightarrow> uuid) \<Rightarrow> datetime \<Rightarrow> planned_repository_task
     \<Rightarrow> ('w orch, uuid \<times> repository_team_view) proc" where
  "assign_leader ports sha256 env p batch_index key_prefix fresh now planned =
     pbind (repository_team ports env (ep_project_id p) (prt_repository_id planned)) (\<lambda>team.
     pbind (assign_task ports sha256 env (leader_command p planned team) (batch_key key_prefix batch_index planned)
       TO_PLANNED True (fresh (batch_key key_prefix batch_index planned)) now) (\<lambda>leader_task.
     preturn (tkv_id leader_task, team)))"

definition parked_assignment ::
    "execution_plan \<Rightarrow> planned_repository_task \<Rightarrow> uuid \<Rightarrow> repository_team_view \<Rightarrow> worker_roster_entry_view list
     \<Rightarrow> leader_assignment_view" where
  "parked_assignment p planned leader_task_id team roster =
     \<lparr>la_leader_task_id = leader_task_id, la_organization_id = ep_organization_id p,
      la_project_id = ep_project_id p, la_repository_id = prt_repository_id planned,
      la_leader_agent_id = rtv_leader_agent_id team, la_phase = LP_PLANNING,
      la_safety_envelope = safety_envelope roster (prt_tests planned) (prt_test_paths planned),
      la_worker_roster = roster, la_review_revision = 1, la_accepted_plan = None,
      la_review_evidence = None, la_accepted_reviews = []\<rparr>"

definition planning_message ::
    "execution_plan \<Rightarrow> planned_repository_task \<Rightarrow> uuid \<Rightarrow> repository_team_view \<Rightarrow> send_collaboration_message_command" where
  "planning_message p planned leader_task_id team =
     \<lparr>smc_organization_id = ep_organization_id p, smc_project_id = ep_project_id p,
      smc_sender_agent_id = ep_created_by_agent_id p, smc_recipient_agent_id = rtv_leader_agent_id team,
      smc_kind = CM_DECISION, smc_subject = prt_title planned @ '': awaiting your repository plan'',
      smc_body = lines_of
        [''This repository team plans leader-side, so no worker task has been created for this round.'', [],
         ''Read your assignment package, then submit your Engineering Spec, task DAG and worker tasks:'',
         ''  GET  /api/v1/agent-actions/leader/assignments/'' @ uuid_str leader_task_id,
         ''  POST /api/v1/agent-actions/leader/assignments/'' @ uuid_str leader_task_id @ ''/plan'', []] @
        ''Authenticate with your own external member token. The package names '' @
        ''your worker roster and the safety envelope your plan is validated '' @
        ''against; nothing is dispatched until the plan is accepted.'',
      smc_repository_id = Some (prt_repository_id planned), smc_task_id = Some leader_task_id,
      smc_correlation_id = Some leader_task_id\<rparr>"

definition park_for_leader ::
    "'w ports \<Rightarrow> ('w orch \<Rightarrow> 'w orch) \<Rightarrow> execution_plan \<Rightarrow> planned_repository_task \<Rightarrow> uuid \<Rightarrow> repository_team_view
     \<Rightarrow> string \<Rightarrow> ('w orch, unit) proc" where
  "park_for_leader ports env p planned leader_task_id team key =
     pbind (worker_roster ports env team) (\<lambda>roster.
     await env (on_assignments (las_ensure (parked_assignment p planned leader_task_id team roster))) (\<lambda>_.
     await env (on_world (pp_send ports (planning_message p planned leader_task_id team) (key @ '':leader-plan'')))
       (\<lambda>_. preturn ())))"

definition decomposes_leader_side ::
    "'w ports \<Rightarrow> 'w advance_ports \<Rightarrow> ('w orch \<Rightarrow> 'w orch) \<Rightarrow> uuid \<Rightarrow> uuid \<Rightarrow> ('w orch, bool) proc" where
  "decomposes_leader_side ports av env project_id repository_id =
     (if \<not> av_leader_lane av then preturn False
      else await env (pget (\<lambda>s. pp_mode ports project_id repository_id (or_world s))) (\<lambda>mode. preturn (mode = DM_LEADER)))"

definition expand_leader ::
    "'w ports \<Rightarrow> 'w advance_ports \<Rightarrow> (string \<Rightarrow> string) \<Rightarrow> ('w orch \<Rightarrow> 'w orch) \<Rightarrow> execution_plan \<Rightarrow> int \<Rightarrow> string
     \<Rightarrow> (string \<Rightarrow> nat \<Rightarrow> uuid) \<Rightarrow> datetime \<Rightarrow> planned_repository_task \<times> uuid \<times> repository_team_view
     \<Rightarrow> ('w orch, unit) proc" where
  "expand_leader ports av sha256 env p batch_index key_prefix fresh now item =
     (case item of (planned, leader_task_id, team) \<Rightarrow>
     pbind (decomposes_leader_side ports av env (ep_project_id p) (prt_repository_id planned)) (\<lambda>leader_side.
     if leader_side then park_for_leader ports env p planned leader_task_id team (batch_key key_prefix batch_index planned)
     else pbind (decompose_task ports sha256 env leader_task_id (batch_key key_prefix batch_index planned @ '':decompose'')
       (prt_tests planned) (prt_test_paths planned) fresh now) (\<lambda>_. preturn ())))"

definition assign_batch ::
    "'w ports \<Rightarrow> 'w advance_ports \<Rightarrow> (string \<Rightarrow> string) \<Rightarrow> ('w orch \<Rightarrow> 'w orch) \<Rightarrow> execution_plan \<Rightarrow> int \<Rightarrow> string
     \<Rightarrow> (string \<Rightarrow> nat \<Rightarrow> uuid) \<Rightarrow> datetime \<Rightarrow> ('w orch, execution_plan) proc" where
  "assign_batch ports av sha256 env p batch_index key_prefix fresh now =
     pbind (plift (py_index (ep_batches p) batch_index)) (\<lambda>batch.
     pbind (pmap (assign_leader ports sha256 env p batch_index key_prefix fresh now) batch) (\<lambda>leaders.
     pbind (plift (ep_with_leader_tasks batch_index (map fst leaders) p)) (\<lambda>assigned.
     await env (on_plans (ps_update assigned (ep_version p))) (\<lambda>_.
     pbind (plift (py_index (ep_batches assigned) batch_index)) (\<lambda>assigned_batch.
     pbind (peach (expand_leader ports av sha256 env p batch_index key_prefix fresh now) (zip assigned_batch leaders))
       (\<lambda>_. preturn assigned))))))"

definition resume_plan ::
    "'w ports \<Rightarrow> 'w advance_ports \<Rightarrow> (string \<Rightarrow> string) \<Rightarrow> ('w orch \<Rightarrow> 'w orch) \<Rightarrow> execution_plan \<Rightarrow> string
     \<Rightarrow> (string \<Rightarrow> nat \<Rightarrow> uuid) \<Rightarrow> datetime \<Rightarrow> ('w orch, execution_plan_view) proc" where
  "resume_plan ports av sha256 env p key fresh now =
     (if ep_status p \<noteq> EP_IN_PROGRESS then preturn (ep_to_view p)
      else pbind (assign_batch ports av sha256 env p (ep_current_batch_index p)
          (if ep_current_batch_index p = 0 then key else uuid_str (ep_id p)) fresh now)
        (\<lambda>assigned. preturn (ep_to_view assigned)))"

definition start_plan ::
    "'w ports \<Rightarrow> 'w advance_ports \<Rightarrow> (string \<Rightarrow> string) \<Rightarrow> ('w orch \<Rightarrow> 'w orch) \<Rightarrow> execution_plan \<Rightarrow> string
     \<Rightarrow> (string \<Rightarrow> nat \<Rightarrow> uuid) \<Rightarrow> datetime \<Rightarrow> ('w orch, execution_plan_view) proc" where
  "start_plan ports av sha256 env p idempotency_key fresh now =
     (let key = py_strip idempotency_key
      in if key = [] then praise (ValueError ''idempotency_key is required'')
      else await env (pget (\<lambda>s. ps_get_by_idempotency_key (or_plans s) key)) (\<lambda>existing.
      case existing of
        Some q \<Rightarrow> resume_plan ports av sha256 env q key fresh now
      | None \<Rightarrow>
          await env (on_plans (ps_add p key)) (\<lambda>_.
          pbind (assign_batch ports av sha256 env p (ep_current_batch_index p) key fresh now)
            (\<lambda>assigned. preturn (ep_to_view assigned)))))"

subsection \<open>Advancing\<close>

definition move_on ::
    "'w ports \<Rightarrow> 'w advance_ports \<Rightarrow> (string \<Rightarrow> string) \<Rightarrow> ('w orch \<Rightarrow> 'w orch) \<Rightarrow> execution_plan
     \<Rightarrow> (string \<Rightarrow> nat \<Rightarrow> uuid) \<Rightarrow> datetime \<Rightarrow> ('w orch, unit) proc" where
  "move_on ports av sha256 env p fresh now =
     pbind (delivery_gate av env p) (\<lambda>merged.
     if \<not> merged then preturn ()
     else if ep_is_last_batch p
     then pbind (plift (ep_complete p)) (\<lambda>completed.
       pbind (settle_plan env p completed) (\<lambda>settled.
       if settled then notify_plan_completed av env completed else preturn ()))
     else pbind (plift (ep_advance p)) (\<lambda>advanced.
       pbind (settle_plan env p advanced) (\<lambda>settled.
       if \<not> settled then preturn ()
       else pbind (assign_batch ports av sha256 env advanced (ep_current_batch_index advanced)
           (uuid_str (ep_id p)) fresh now) (\<lambda>_. preturn ()))))"

definition advance_if_ready ::
    "'w ports \<Rightarrow> 'w advance_ports \<Rightarrow> (string \<Rightarrow> string) \<Rightarrow> ('w orch \<Rightarrow> 'w orch) \<Rightarrow> execution_plan
     \<Rightarrow> (string \<Rightarrow> nat \<Rightarrow> uuid) \<Rightarrow> datetime \<Rightarrow> ('w orch, unit) proc" where
  "advance_if_ready ports av sha256 env p fresh now =
     pbind (batch_succeeded env p) (\<lambda>succeeded.
     if \<not> succeeded then preturn ()
     else case av_deliver av of
       None \<Rightarrow> move_on ports av sha256 env p fresh now
     | Some deliver \<Rightarrow>
         pbind (deliver_batch deliver env p now) (\<lambda>delivered.
         case delivered of None \<Rightarrow> preturn () | Some q \<Rightarrow> move_on ports av sha256 env q fresh now))"

subsection \<open>Rolling up\<close>

definition failed_task_statuses :: "task_status set" where
  "failed_task_statuses = {TS_FAILED, TS_CANCELLED}"

definition open_task_statuses :: "task_status set" where
  "open_task_statuses = {TS_ASSIGNED, TS_IN_PROGRESS}"

definition worker_evidence :: "task_view \<Rightarrow> worker_evidence_view" where
  "worker_evidence v =
     (let e = tkv_evidence v
      in \<lparr>wev_worker_task_id = tkv_id v, wev_worker_agent_id = tkv_assignee_agent_id v, wev_status = tkv_status v,
          wev_run_id = (case e of None \<Rightarrow> None | Some x \<Rightarrow> tev_run_id x),
          wev_commit_sha = (case e of None \<Rightarrow> None | Some x \<Rightarrow> tev_commit_sha x),
          wev_changed_files = (case e of None \<Rightarrow> [] | Some x \<Rightarrow> tev_changed_files x),
          wev_test_results = (case e of None \<Rightarrow> [] | Some x \<Rightarrow> tev_test_results x), wev_diff_stat = None,
          wev_summary = (case e of None \<Rightarrow> tkv_result_summary v | Some x \<Rightarrow> tev_summary_text x)\<rparr>)"

definition review_message ::
    "task \<Rightarrow> leader_assignment_view \<Rightarrow> leader_review_evidence_view \<Rightarrow> send_collaboration_message_command" where
  "review_message parent a evidence =
     \<lparr>smc_organization_id = la_organization_id a, smc_project_id = la_project_id a,
      smc_sender_agent_id = tk_assigned_by_agent_id parent, smc_recipient_agent_id = la_leader_agent_id a,
      smc_kind = CM_DECISION, smc_subject = tk_title parent @ '': awaiting your review'',
      smc_body = lines_of
        [''All '' @ dec_int (int (length (lre_worker_evidence evidence))) @ '' worker tasks of this round have '' @
           ''finished, so this repository is waiting on your verdict.'', [],
         ''Read the evidence, then submit approve, request_rework or escalate:'',
         ''  GET  /api/v1/agent-actions/leader/assignments/'' @ uuid_str (tk_id parent),
         ''  POST /api/v1/agent-actions/leader/assignments/'' @ uuid_str (tk_id parent) @ ''/review'', []] @
        ''The package carries each worker task's status, run, commit, changed '' @
        ''files and test results. Nothing is delivered until you approve.'',
      smc_repository_id = Some (la_repository_id a), smc_task_id = Some (tk_id parent),
      smc_correlation_id = Some (tk_id parent)\<rparr>"

definition review_key :: "task \<Rightarrow> leader_review_evidence_view \<Rightarrow> string" where
  "review_key parent evidence =
     ''leader-review:'' @ uuid_str (tk_id parent) @ '':r'' @ dec_int (lre_review_revision evidence) @ '':due''"

definition due_assignment :: "leader_assignment_view \<Rightarrow> leader_review_evidence_view \<Rightarrow> leader_assignment_view" where
  "due_assignment a evidence = a\<lparr>la_phase := LP_REVIEW_DUE, la_review_evidence := Some evidence\<rparr>"

definition open_review ::
    "'w ports \<Rightarrow> ('w orch \<Rightarrow> 'w orch) \<Rightarrow> task \<Rightarrow> leader_assignment_view \<Rightarrow> task list \<Rightarrow> ('w orch, bool) proc" where
  "open_review ports env parent a children =
     pbind (plift (map_result tk_to_view children)) (\<lambda>views.
     let evidence = \<lparr>lre_review_revision = la_review_revision a, lre_worker_evidence = map worker_evidence views\<rparr>
     in await env (on_assignments (las_save (due_assignment a evidence))) (\<lambda>_.
        await env (on_world (pp_send ports (review_message parent a evidence) (review_key parent evidence)))
          (\<lambda>_. preturn True)))"

definition open_review_if_leader_side ::
    "'w ports \<Rightarrow> 'w advance_ports \<Rightarrow> ('w orch \<Rightarrow> 'w orch) \<Rightarrow> task \<Rightarrow> task list \<Rightarrow> ('w orch, bool) proc" where
  "open_review_if_leader_side ports av env parent children =
     (if \<not> av_leader_lane av then preturn False
      else await env (pget (\<lambda>s. las_get (or_assignments s) (tk_id parent))) (\<lambda>found.
      case found of
        None \<Rightarrow> preturn False
      | Some a \<Rightarrow>
          if la_phase a \<noteq> LP_EXECUTING then preturn True
          else if \<exists>child \<in> set children. tk_status child \<in> open_task_statuses then preturn True
          else open_review ports env parent a children))"

definition rolled_up :: "task list \<Rightarrow> task \<Rightarrow> task option result" where
  "rolled_up children parent =
     (let failed = filter (\<lambda>c. tk_status c \<in> failed_task_statuses) children
      in if failed \<noteq> []
         then rbind (tk_report TS_FAILED (dec_int (int (length failed)) @ '' of '' @ dec_int (int (length children)) @
                '' worker tasks did not succeed.'') parent) (\<lambda>u. Inr (Some u))
         else if \<forall>c \<in> set children. tk_status c = TS_SUCCEEDED
         then rbind (tk_report TS_SUCCEEDED (''All '' @ dec_int (int (length children)) @ '' worker tasks succeeded.'')
                parent) (\<lambda>u. Inr (Some u))
         else Inr None)"

text \<open>The write of a roll-up; the persisted task wins when somebody else has moved it.\<close>

definition write_roll_up :: "('w orch \<Rightarrow> 'w orch) \<Rightarrow> task \<Rightarrow> task \<Rightarrow> ('w orch, task) proc" where
  "write_roll_up env parent updated =
     await env (unless_conflict (on_tasks (ts_update updated (tk_version parent)))) (\<lambda>written.
     if written then preturn updated
     else await env (pget (\<lambda>s. ts_get (or_tasks s) (tk_id parent))) (\<lambda>current.
       preturn (case current of None \<Rightarrow> parent | Some t \<Rightarrow> t)))"

definition roll_up ::
    "'w ports \<Rightarrow> 'w advance_ports \<Rightarrow> ('w orch \<Rightarrow> 'w orch) \<Rightarrow> task \<Rightarrow> ('w orch, task) proc" where
  "roll_up ports av env parent =
     (if tk_status parent \<in> final_task_statuses then preturn parent
      else await env (pget (\<lambda>s. ts_list_by_parent (or_tasks s) (tk_id parent))) (\<lambda>children.
      if children = [] then preturn parent
      else pbind (open_review_if_leader_side ports av env parent children) (\<lambda>leader_side.
      if leader_side then preturn parent
      else pbind (plift (rolled_up children parent)) (\<lambda>updated.
      case updated of None \<Rightarrow> preturn parent | Some u \<Rightarrow> write_roll_up env parent u))))"

subsection \<open>Events\<close>

definition leader_task_final ::
    "'w ports \<Rightarrow> 'w advance_ports \<Rightarrow> (string \<Rightarrow> string) \<Rightarrow> ('w orch \<Rightarrow> 'w orch) \<Rightarrow> task
     \<Rightarrow> (string \<Rightarrow> nat \<Rightarrow> uuid) \<Rightarrow> datetime \<Rightarrow> ('w orch, unit) proc" where
  "leader_task_final ports av sha256 env leader_task fresh now =
     (if tk_status leader_task \<notin> final_task_statuses then preturn ()
      else await env (pget (\<lambda>s. ps_find_by_leader_task (or_plans s) (tk_id leader_task))) (\<lambda>found.
      case found of
        None \<Rightarrow> preturn ()
      | Some p \<Rightarrow>
          if ep_status p = EP_COMPLETED then notify_plan_completed av env p
          else if ep_status p \<noteq> EP_IN_PROGRESS then preturn ()
          else pbind (plift (ep_leader_task_ids p (ep_current_batch_index p))) (\<lambda>ids.
            if tk_id leader_task \<notin> set ids then preturn ()
            else if tk_status leader_task \<noteq> TS_SUCCEEDED
            then pbind (plift (ep_fail p)) (\<lambda>failed. pbind (settle_plan env p failed) (\<lambda>_. preturn ()))
            else advance_if_ready ports av sha256 env p fresh now)))"

definition on_task_terminal ::
    "'w ports \<Rightarrow> 'w advance_ports \<Rightarrow> (string \<Rightarrow> string) \<Rightarrow> ('w orch \<Rightarrow> 'w orch) \<Rightarrow> uuid
     \<Rightarrow> (string \<Rightarrow> nat \<Rightarrow> uuid) \<Rightarrow> datetime \<Rightarrow> ('w orch, unit) proc" where
  "on_task_terminal ports av sha256 env task_id fresh now =
     await env (pget (\<lambda>s. ts_get (or_tasks s) task_id)) (\<lambda>found.
     case found of
       None \<Rightarrow> preturn ()
     | Some t \<Rightarrow>
         (case tk_parent_task_id t of
            None \<Rightarrow> leader_task_final ports av sha256 env t fresh now
          | Some parent_id \<Rightarrow>
              await env (pget (\<lambda>s. ts_get (or_tasks s) parent_id)) (\<lambda>parent.
              case parent of
                None \<Rightarrow> preturn ()
              | Some q \<Rightarrow> pbind (roll_up ports av env q) (\<lambda>leader_task.
                  leader_task_final ports av sha256 env leader_task fresh now))))"

definition reopen_if_repaired ::
    "('w orch \<Rightarrow> 'w orch) \<Rightarrow> execution_plan \<Rightarrow> ('w orch, execution_plan option) proc" where
  "reopen_if_repaired env p =
     pbind (batch_succeeded env p) (\<lambda>succeeded.
     if \<not> succeeded then preturn None
     else pbind (plift (ep_reopen p)) (\<lambda>reopened.
       pbind (settle_plan env p reopened) (\<lambda>settled. preturn (if settled then Some reopened else None))))"

definition reconsider_plan ::
    "'w ports \<Rightarrow> 'w advance_ports \<Rightarrow> (string \<Rightarrow> string) \<Rightarrow> ('w orch \<Rightarrow> 'w orch) \<Rightarrow> uuid
     \<Rightarrow> (string \<Rightarrow> nat \<Rightarrow> uuid) \<Rightarrow> datetime \<Rightarrow> ('w orch, unit) proc" where
  "reconsider_plan ports av sha256 env leader_task_id fresh now =
     await env (pget (\<lambda>s. ps_find_by_leader_task (or_plans s) leader_task_id)) (\<lambda>found.
     case found of
       None \<Rightarrow> preturn ()
     | Some p \<Rightarrow>
         if ep_status p = EP_FAILED
         then pbind (reopen_if_repaired env p) (\<lambda>reopened.
           case reopened of None \<Rightarrow> preturn () | Some q \<Rightarrow> advance_if_ready ports av sha256 env q fresh now)
         else if ep_status p \<noteq> EP_IN_PROGRESS then preturn ()
         else advance_if_ready ports av sha256 env p fresh now)"

definition reconsider_task ::
    "'w ports \<Rightarrow> 'w advance_ports \<Rightarrow> (string \<Rightarrow> string) \<Rightarrow> ('w orch \<Rightarrow> 'w orch) \<Rightarrow> uuid
     \<Rightarrow> (string \<Rightarrow> nat \<Rightarrow> uuid) \<Rightarrow> datetime \<Rightarrow> ('w orch, unit) proc" where
  "reconsider_task ports av sha256 env task_id fresh now =
     await env (pget (\<lambda>s. ts_get (or_tasks s) task_id)) (\<lambda>found.
     case found of
       None \<Rightarrow> preturn ()
     | Some t \<Rightarrow>
         (case tk_parent_task_id t of
            None \<Rightarrow> reconsider_plan ports av sha256 env (tk_id t) fresh now
          | Some parent_id \<Rightarrow>
              await env (pget (\<lambda>s. ts_get (or_tasks s) parent_id)) (\<lambda>parent.
              case parent of
                None \<Rightarrow> preturn ()
              | Some q \<Rightarrow> reconsider_plan ports av sha256 env (tk_id q) fresh now)))"

end
