(* ===== verification/Round_Redispatch.thy ===== *)
theory Round_Redispatch
  imports Plan_Advance
begin

text \<open>
  \<open>ObserveExecutionPlan\<close> and \<open>RedispatchRound\<close> of \<open>modules/task_orchestration/application.py\<close>:
  what a round looks like from outside, and dispatching its tasks again when an operator asks.
\<close>

subsection \<open>Observing a plan\<close>

record worker_task_execution_status =
  wts_task_id :: uuid
  wts_status :: task_status

record planned_task_execution_status =
  pts_repository_id :: uuid
  pts_leader_task_id :: "uuid option"
  pts_leader_status :: "task_status option"
  pts_worker_tasks :: "worker_task_execution_status list"

record execution_plan_status_snapshot =
  pss_plan_id :: uuid
  pss_status :: execution_plan_status
  pss_current_batch_index :: int
  pss_batches :: "planned_task_execution_status list list"

text \<open>\<open>tasks_by_id\<close> and \<open>children_by_parent\<close> of the project's tasks.\<close>

definition tasks_by_id :: "task list \<Rightarrow> (uuid, task) dict" where
  "tasks_by_id tasks = dict_update (map (\<lambda>t. (tk_id t, t)) tasks) []"

definition children_of :: "task list \<Rightarrow> uuid \<Rightarrow> task list" where
  "children_of tasks parent_id = filter (\<lambda>t. tk_parent_task_id t = Some parent_id) tasks"

definition planned_status :: "task list \<Rightarrow> planned_repository_task_view \<Rightarrow> planned_task_execution_status" where
  "planned_status tasks planned =
     \<lparr>pts_repository_id = prv_repository_id planned, pts_leader_task_id = prv_leader_task_id planned,
      pts_leader_status = (case prv_leader_task_id planned of None \<Rightarrow> None
        | Some i \<Rightarrow> (case dict_get (tasks_by_id tasks) i of None \<Rightarrow> None | Some t \<Rightarrow> Some (tk_status t))),
      pts_worker_tasks = (case prv_leader_task_id planned of None \<Rightarrow> []
        | Some i \<Rightarrow> map (\<lambda>t. \<lparr>wts_task_id = tk_id t, wts_status = tk_status t\<rparr>) (children_of tasks i))\<rparr>"

definition observe_plan ::
    "('w orch \<Rightarrow> 'w orch) \<Rightarrow> uuid \<Rightarrow> ('w orch, execution_plan_status_snapshot option) proc" where
  "observe_plan env plan_id =
     await env (pget (\<lambda>s. ps_get (or_plans s) plan_id)) (\<lambda>found.
     case found of
       None \<Rightarrow> preturn None
     | Some p \<Rightarrow>
         let view = ep_to_view p
         in await env (pget (\<lambda>s. ts_list_by_project (or_tasks s) (epv_project_id view))) (\<lambda>tasks.
            preturn (Some \<lparr>pss_plan_id = epv_id view, pss_status = epv_status view,
              pss_current_batch_index = epv_current_batch_index view,
              pss_batches = map (map (planned_status tasks)) (epv_batches view)\<rparr>)))"

subsection \<open>Dispatching a round again\<close>

datatype redispatch_scope = RS_UNFINISHED | RS_RERUN

definition redispatch_scope_value :: "redispatch_scope \<Rightarrow> string" where
  "redispatch_scope_value scope = (case scope of RS_UNFINISHED \<Rightarrow> ''unfinished'' | RS_RERUN \<Rightarrow> ''rerun'')"

record round_redispatch =
  rds_round_id :: uuid
  rds_attempt :: string
  rds_scope :: redispatch_scope
  rds_task_ids :: "uuid list"
  rds_reopened_task_ids :: "uuid list"
  rds_settled_task_ids :: "uuid list"

definition round_not_dispatchable :: "string \<Rightarrow> exc" where
  "round_not_dispatchable message = ModuleError ''RoundNotDispatchable'' message"

definition leader_and_workers :: "('w orch \<Rightarrow> 'w orch) \<Rightarrow> uuid \<Rightarrow> ('w orch, task list) proc" where
  "leader_and_workers env leader_task_id =
     await env (pget (\<lambda>s. ts_get (or_tasks s) leader_task_id)) (\<lambda>found.
     case found of
       None \<Rightarrow> preturn []
     | Some leader \<Rightarrow>
         await env (pget (\<lambda>s. ts_list_by_parent (or_tasks s) (tk_id leader))) (\<lambda>workers. preturn (leader # workers)))"

fun first_seen :: "uuid list \<Rightarrow> task list \<Rightarrow> task list" where
  "first_seen seen [] = []"
| "first_seen seen (t # ts) =
     (if tk_id t \<in> set seen then first_seen seen ts else t # first_seen (tk_id t # seen) ts)"

definition round_leader_ids :: "execution_plan \<Rightarrow> uuid list result" where
  "round_leader_ids p =
     rbind (map_result (\<lambda>i. ep_leader_task_ids p (int i)) [0..<length (ep_batches p)]) (\<lambda>idss. Inr (concat idss))"

text \<open>The pending tasks of the round and the settled ones.\<close>

definition partition_round :: "('w orch \<Rightarrow> 'w orch) \<Rightarrow> execution_plan \<Rightarrow> ('w orch, task list \<times> task list) proc" where
  "partition_round env p =
     pbind (plift (round_leader_ids p)) (\<lambda>ids.
     pbind (pmap (leader_and_workers env) ids) (\<lambda>found.
     let tasks = first_seen [] (concat found)
     in preturn (filter (\<lambda>t. tk_status t \<notin> final_task_statuses) tasks,
                 filter (\<lambda>t. tk_status t \<in> final_task_statuses) tasks)))"

definition review_round ::
    "('w orch \<Rightarrow> 'w orch) \<Rightarrow> task \<Rightarrow> ('w orch, (uuid \<times> leader_assignment_view) list) proc" where
  "review_round env t =
     await env (pget (\<lambda>s. las_get (or_assignments s) (tk_id t))) (\<lambda>found.
     case found of
       None \<Rightarrow> preturn []
     | Some a \<Rightarrow> preturn (if la_phase a \<in> {LP_REVIEW_DUE, LP_CLOSED} then [(tk_id t, a)] else []))"

definition fresh_review_round :: "leader_assignment_view \<Rightarrow> leader_assignment_view" where
  "fresh_review_round a =
     a\<lparr>la_phase := LP_EXECUTING, la_review_revision := la_review_revision a + 1, la_review_evidence := None\<rparr>"

text \<open>The dash of the messages, in UTF-8.\<close>

definition em_dash :: string where
  "em_dash = [CHR 0xE2, CHR 0x80, CHR 0x94]"

definition nothing_to_dispatch :: "uuid \<Rightarrow> task list \<Rightarrow> exc" where
  "nothing_to_dispatch round_id settled = round_not_dispatchable
     (if settled = []
      then ''round '' @ uuid_str round_id @ '' has no tasks yet; it was never fully '' @
        ''materialised, so there is nothing to dispatch again '' @ em_dash @ '' materialize the issue instead''
      else ''every task of round '' @ uuid_str round_id @ '' has already finished ('' @
        dec_int (int (length settled)) @ '' task(s)); a finished round is history, not unfinished work '' @
        em_dash @ '' ask for scope=rerun if a result on file is the thing that is wrong'')"

definition redoable_tasks :: "redispatch_scope \<Rightarrow> uuid set \<Rightarrow> task list \<Rightarrow> task list" where
  "redoable_tasks scope reviewed settled =
     (if scope = RS_RERUN
      then filter (\<lambda>t. tk_status t \<in> redoable_task_statuses \<and> tk_id t \<notin> reviewed) settled else [])"

text \<open>
  The reviews are reset before anybody is told, so that a fast report finds its round \<open>executing\<close>.
\<close>

definition dispatch_round ::
    "'w ports \<Rightarrow> (string \<Rightarrow> string) \<Rightarrow> ('w orch \<Rightarrow> 'w orch) \<Rightarrow> uuid \<Rightarrow> string \<Rightarrow> redispatch_scope
     \<Rightarrow> (uuid \<times> leader_assignment_view) list \<Rightarrow> task list \<Rightarrow> task list \<Rightarrow> task list
     \<Rightarrow> ('w orch, round_redispatch) proc" where
  "dispatch_round ports sha256 env round_id token scope rounds unfinished redoable settled =
     pbind (peach (\<lambda>a. await env (on_assignments (las_save (fresh_review_round a))) (\<lambda>_. preturn ()))
       (map snd rounds)) (\<lambda>_.
     pbind (pmap (\<lambda>t. redispatch_task ports sha256 env (tk_id t) token False) unfinished) (\<lambda>_.
     pbind (pmap (\<lambda>t. redispatch_task ports sha256 env (tk_id t) token True) redoable) (\<lambda>_.
     preturn \<lparr>rds_round_id = round_id, rds_attempt = token, rds_scope = scope,
              rds_task_ids = map tk_id unfinished @ map tk_id redoable, rds_reopened_task_ids = map tk_id redoable,
              rds_settled_task_ids = filter (\<lambda>i. i \<notin> set (map tk_id redoable)) (map tk_id settled)\<rparr>)))"

definition redispatch_round ::
    "'w ports \<Rightarrow> (string \<Rightarrow> string) \<Rightarrow> bool \<Rightarrow> ('w orch \<Rightarrow> 'w orch) \<Rightarrow> uuid \<Rightarrow> string \<Rightarrow> redispatch_scope
     \<Rightarrow> ('w orch, round_redispatch) proc" where
  "redispatch_round ports sha256 has_assignments env round_id attempt scope =
     (let token = py_strip attempt
      in if token = [] then praise (ValueError ''attempt is required'')
      else await env (pget (\<lambda>s. ps_get (or_plans s) round_id)) (\<lambda>found.
      case found of
        None \<Rightarrow> praise (TaskNotFound (''round does not exist: '' @ uuid_str round_id))
      | Some p \<Rightarrow>
          pbind (partition_round env p) (\<lambda>(idle, settled).
          pbind (if scope = RS_RERUN \<and> has_assignments then pmap (review_round env) (idle @ settled)
                 else preturn []) (\<lambda>reviews.
          let rounds = concat reviews;
              reviewed = set (map fst rounds);
              unfinished = filter (\<lambda>t. tk_id t \<notin> reviewed) idle;
              redoable = redoable_tasks scope reviewed settled
          in if unfinished = [] \<and> redoable = [] then praise (nothing_to_dispatch round_id settled)
             else dispatch_round ports sha256 env round_id token scope rounds unfinished redoable settled))))"

end
