(* ===== verification/Leader_Decisions.thy ===== *)
theory Leader_Decisions
  imports Round_Redispatch
begin

text \<open>
  The use cases behind the leader's endpoints (\<open>modules/task_orchestration/application.py\<close>):
  \<open>LeaderAssignmentAuthorizer\<close>, \<open>ReadLeaderAssignment\<close>, \<open>SubmitRepositoryPlan\<close> and
  \<open>SubmitRepositoryReview\<close>.
\<close>

subsection \<open>Documents\<close>

text \<open>\<open>json.dumps(document, sort_keys=True, separators=(",", ":"))\<close>.\<close>

fun json_dumps :: "json \<Rightarrow> string" where
  "json_dumps JNull = json_null"
| "json_dumps (JBool b) = json_bool b"
| "json_dumps (JInt n) = dec_int n"
| "json_dumps (JFloat m e) = py_repr_float m e"
| "json_dumps (JStr s) = json_string s"
| "json_dumps (JList xs) = json_array (map json_dumps xs)"
| "json_dumps (JObject kvs) = json_object (map (\<lambda>(k, v). (k, json_dumps v)) kvs)"

definition document_fingerprint :: "(string \<Rightarrow> string) \<Rightarrow> json \<Rightarrow> string" where
  "document_fingerprint sha256 document = ''sha256:'' @ sha256 (json_dumps document)"

subsection \<open>Who may act on an assignment\<close>

definition active_leader :: "agent_principal_view option \<Rightarrow> bool" where
  "active_leader found \<longleftrightarrow>
     (case found of None \<Rightarrow> False | Some a \<Rightarrow> apv_status a = AS_ACTIVE \<and> apv_role a = AR_REPOSITORY_LEADER)"

definition resolve_assignment ::
    "'w ports \<Rightarrow> ('w orch \<Rightarrow> 'w orch) \<Rightarrow> uuid \<Rightarrow> uuid \<Rightarrow> ('w orch, leader_assignment_view \<times> task) proc" where
  "resolve_assignment ports env leader_task_id caller_agent_id =
     await env (pget (\<lambda>s. pp_agent ports caller_agent_id (or_world s))) (\<lambda>caller.
     if \<not> active_leader caller
     then praise (leader_action_refused LE_FORBIDDEN_ROLE
       ''this credential does not belong to an active repository leader'')
     else await env (pget (\<lambda>s. las_get (or_assignments s) leader_task_id)) (\<lambda>assignment.
     await env (pget (\<lambda>s. ts_get (or_tasks s) leader_task_id)) (\<lambda>found.
     case (assignment, found) of
       (Some a, Some t) \<Rightarrow>
         if tk_assignee_agent_id t \<noteq> caller_agent_id
         then praise (leader_action_refused LE_FORBIDDEN_NOT_ASSIGNEE
           ''this leader assignment belongs to another repository leader'')
         else await env (pget (\<lambda>s. pp_mode ports (la_project_id a) (la_repository_id a) (or_world s))) (\<lambda>mode.
           if mode \<noteq> DM_LEADER
           then praise (leader_action_refused LE_DECOMPOSITION_MODE_CONFLICT
             ''this team's planning is done server-side, so leader submissions are refused'')
           else preturn (a, t))
     | _ \<Rightarrow> praise (leader_action_refused LE_ASSIGNMENT_NOT_FOUND
         ''no leader assignment exists for this task id''))))"

fun join_lines :: "string list \<Rightarrow> string" where
  "join_lines [] = []"
| "join_lines [x] = x"
| "join_lines (x # y # xs) = x @ new_line @ join_lines (y # xs)"

definition read_leader_assignment ::
    "'w ports \<Rightarrow> ('w orch \<Rightarrow> 'w orch) \<Rightarrow> uuid \<Rightarrow> uuid \<Rightarrow> ('w orch, repository_assignment_package) proc" where
  "read_leader_assignment ports env leader_task_id caller_agent_id =
     pbind (resolve_assignment ports env leader_task_id caller_agent_id) (\<lambda>(a, t).
     preturn \<lparr>rap_assignment = a,
       rap_repository_task = \<lparr>rtf_title = tk_title t, rtf_instruction = tk_instruction t,
         rtf_acceptance = join_lines (tk_acceptance t)\<rparr>,
       rap_advisory_dependency_edges = [], rap_advisory_discovery_evidence = None,
       rap_advisory_decomposition_hint = None\<rparr>)"

subsection \<open>Dispatching what a leader asked for\<close>

text \<open>\<open>_author_permit\<close> and \<open>_author_rework_permit\<close>: the paths and tests are the caller's.\<close>

definition author_permit ::
    "'w ports \<Rightarrow> ('w orch \<Rightarrow> 'w orch) \<Rightarrow> task_view \<Rightarrow> string list \<Rightarrow> string list \<Rightarrow> string \<Rightarrow> ('w orch, unit) proc" where
  "author_permit ports env worker_task paths tests key =
     (case pp_permit ports of
        None \<Rightarrow> preturn ()
      | Some permit \<Rightarrow>
          pbind (active_agent ports env ''worker agent is missing or disabled'' (tkv_assignee_agent_id worker_task)) (\<lambda>_.
          await env (on_world (permit worker_task paths tests (key @ '':spec''))) (\<lambda>_. preturn ())))"

text \<open>The row, its permit, then the room.\<close>

definition dispatch_permitted ::
    "'w ports \<Rightarrow> (string \<Rightarrow> string) \<Rightarrow> ('w orch \<Rightarrow> 'w orch) \<Rightarrow> assign_task_command \<Rightarrow> string \<Rightarrow> task_origin
     \<Rightarrow> string list \<Rightarrow> string list \<Rightarrow> (string \<Rightarrow> nat \<Rightarrow> uuid) \<Rightarrow> datetime \<Rightarrow> ('w orch, uuid) proc" where
  "dispatch_permitted ports sha256 env c key origin paths tests fresh now =
     pbind (assign_task ports sha256 env c key origin False (fresh key) now) (\<lambda>worker_task.
     pbind (author_permit ports env worker_task paths tests key) (\<lambda>_.
     pbind (deliver_assignment ports sha256 env (tkv_id worker_task)) (\<lambda>_. preturn (tkv_id worker_task))))"

subsection \<open>Submitting a plan\<close>

definition draft_key :: "uuid \<Rightarrow> leader_worker_task_draft \<Rightarrow> string" where
  "draft_key leader_task_id draft = ''leader-plan:'' @ uuid_str leader_task_id @ '':'' @ lwd_node_id draft"

definition draft_command ::
    "leader_assignment_view \<Rightarrow> task \<Rightarrow> uuid \<Rightarrow> leader_worker_task_draft \<Rightarrow> assign_task_command" where
  "draft_command a t leader_task_id draft =
     \<lparr>atc_organization_id = la_organization_id a, atc_project_id = la_project_id a,
      atc_repository_id = la_repository_id a, atc_assigned_by_agent_id = la_leader_agent_id a,
      atc_assignee_agent_id = lwd_assignee_worker_agent_id draft, atc_title = lwd_title draft,
      atc_instruction = lwd_instruction draft, atc_acceptance = tk_acceptance t,
      atc_parent_task_id = Some leader_task_id, atc_database_change = lwd_database_change draft\<rparr>"

definition draft_paths :: "leader_worker_task_draft \<Rightarrow> string list" where
  "draft_paths draft = lwd_allowed_paths draft @
     (if dcr_required (lwd_database_change draft) then [''.repomesh/database-change-report.json''] else [])"

definition dispatch_draft ::
    "'w ports \<Rightarrow> (string \<Rightarrow> string) \<Rightarrow> ('w orch \<Rightarrow> 'w orch) \<Rightarrow> leader_assignment_view \<Rightarrow> task \<Rightarrow> uuid
     \<Rightarrow> (string \<Rightarrow> nat \<Rightarrow> uuid) \<Rightarrow> datetime \<Rightarrow> leader_worker_task_draft \<Rightarrow> ('w orch, uuid) proc" where
  "dispatch_draft ports sha256 env a t leader_task_id fresh now draft =
     dispatch_permitted ports sha256 env (draft_command a t leader_task_id draft) (draft_key leader_task_id draft)
       (tk_origin t) (draft_paths draft) (lwd_tests draft) fresh now"

definition accepted_plan_of :: "string \<Rightarrow> uuid list \<Rightarrow> repository_plan_decision \<Rightarrow> accepted_plan_view" where
  "accepted_plan_of fingerprint worker_task_ids d =
     \<lparr>apl_fingerprint = fingerprint, apl_plan_revision = 1, apl_worker_task_ids = worker_task_ids,
      apl_decision = rpd_raw d\<rparr>"

definition executing_assignment ::
    "leader_assignment_view \<Rightarrow> accepted_plan_view \<Rightarrow> leader_assignment_view" where
  "executing_assignment a accepted = a\<lparr>la_phase := LP_EXECUTING, la_accepted_plan := Some accepted\<rparr>"

definition plan_phase_check :: "leader_assignment_view \<Rightarrow> unit result" where
  "plan_phase_check a =
     (if la_phase a \<noteq> LP_PLANNING
      then Inl (leader_action_refused LE_PHASE_CONFLICT
        (''a plan may only be submitted while planning; this assignment is '' @
         leader_assignment_phase_value (la_phase a)))
      else Inr ())"

definition accept_plan ::
    "'w ports \<Rightarrow> (string \<Rightarrow> string) \<Rightarrow> ('w orch \<Rightarrow> 'w orch) \<Rightarrow> leader_assignment_view \<Rightarrow> task \<Rightarrow> uuid
     \<Rightarrow> repository_plan_decision \<Rightarrow> (string \<Rightarrow> nat \<Rightarrow> uuid) \<Rightarrow> datetime \<Rightarrow> ('w orch, plan_receipt) proc" where
  "accept_plan ports sha256 env a t leader_task_id d fresh now =
     pbind (plift (plan_phase_check a)) (\<lambda>_.
     pbind (plift (assert_plan_is_within_envelope d a)) (\<lambda>_.
     pbind (pmap (dispatch_draft ports sha256 env a t leader_task_id fresh now) (rpd_worker_tasks d)) (\<lambda>ids.
     await env (on_assignments (las_save (executing_assignment a
         (accepted_plan_of (document_fingerprint sha256 (rpd_raw d)) ids d)))) (\<lambda>_.
     preturn \<lparr>plr_leader_task_id = leader_task_id, plr_plan_revision = 1, plr_worker_task_ids = ids\<rparr>))))"

definition submit_plan ::
    "'w ports \<Rightarrow> (string \<Rightarrow> string) \<Rightarrow> ('w orch \<Rightarrow> 'w orch) \<Rightarrow> uuid \<Rightarrow> repository_plan_decision \<Rightarrow> uuid
     \<Rightarrow> (string \<Rightarrow> nat \<Rightarrow> uuid) \<Rightarrow> datetime \<Rightarrow> ('w orch, plan_receipt) proc" where
  "submit_plan ports sha256 env leader_task_id d caller_agent_id fresh now =
     pbind (resolve_assignment ports env leader_task_id caller_agent_id) (\<lambda>(a, t).
     case la_accepted_plan a of
       Some accepted \<Rightarrow>
         if apl_fingerprint accepted = document_fingerprint sha256 (rpd_raw d)
         then preturn \<lparr>plr_leader_task_id = leader_task_id, plr_plan_revision = apl_plan_revision accepted,
                       plr_worker_task_ids = apl_worker_task_ids accepted\<rparr>
         else praise (leader_action_refused LE_PHASE_CONFLICT
           ''a different plan has already been accepted for this leader task'')
     | None \<Rightarrow> accept_plan ports sha256 env a t leader_task_id d fresh now)"

subsection \<open>Submitting a review\<close>

definition evidence_by_task :: "leader_review_evidence_view \<Rightarrow> (uuid, worker_evidence_view) dict" where
  "evidence_by_task e = dict_update (map (\<lambda>w. (wev_worker_task_id w, w)) (lre_worker_evidence e)) []"

definition rework_key :: "leader_assignment_view \<Rightarrow> int \<Rightarrow> nat \<Rightarrow> string" where
  "rework_key a revision index =
     ''leader-review:'' @ uuid_str (la_leader_task_id a) @ '':r'' @ dec_int revision @ '':'' @ dec_nat index"

definition rework_command ::
    "leader_assignment_view \<Rightarrow> task \<Rightarrow> leader_review_finding \<Rightarrow> worker_evidence_view \<Rightarrow> task \<Rightarrow> assign_task_command" where
  "rework_command a t f reviewed original =
     \<lparr>atc_organization_id = la_organization_id a, atc_project_id = la_project_id a,
      atc_repository_id = la_repository_id a, atc_assigned_by_agent_id = la_leader_agent_id a,
      atc_assignee_agent_id = wev_worker_agent_id reviewed, atc_title = tk_title t,
      atc_instruction = (case lrf_rework_instruction f of None \<Rightarrow> ''None'' | Some i \<Rightarrow> i) @ new_line @ new_line @
        ''Review finding on task '' @ uuid_str (lrf_worker_task_id f) @ '': '' @ lrf_note f,
      atc_acceptance = tk_acceptance t, atc_parent_task_id = Some (la_leader_task_id a),
      atc_database_change = tk_database_change original\<rparr>"

definition rework_one ::
    "'w ports \<Rightarrow> (string \<Rightarrow> string) \<Rightarrow> ('w orch \<Rightarrow> 'w orch) \<Rightarrow> leader_assignment_view \<Rightarrow> task
     \<Rightarrow> leader_review_evidence_view \<Rightarrow> int \<Rightarrow> (string \<Rightarrow> nat \<Rightarrow> uuid) \<Rightarrow> datetime
     \<Rightarrow> nat \<times> leader_review_finding \<Rightarrow> ('w orch, uuid) proc" where
  "rework_one ports sha256 env a t evidence revision fresh now item =
     (case item of (index, f) \<Rightarrow>
     case dict_get (evidence_by_task evidence) (lrf_worker_task_id f) of
       None \<Rightarrow> praise (KeyError (uuid_str (lrf_worker_task_id f)))
     | Some reviewed \<Rightarrow>
         await env (pget (\<lambda>s. ts_get (or_tasks s) (lrf_worker_task_id f))) (\<lambda>found.
         case found of
           None \<Rightarrow> praise (TaskNotFound ''reviewed worker task does not exist'')
         | Some original \<Rightarrow>
             dispatch_permitted ports sha256 env (rework_command a t f reviewed original) (rework_key a revision index)
               TO_REWORK (lse_allowed_path_roots (la_safety_envelope a)) (lse_test_commands (la_safety_envelope a))
               fresh now))"

definition create_rework ::
    "'w ports \<Rightarrow> (string \<Rightarrow> string) \<Rightarrow> ('w orch \<Rightarrow> 'w orch) \<Rightarrow> leader_assignment_view \<Rightarrow> task
     \<Rightarrow> leader_review_evidence_view \<Rightarrow> repository_review_decision \<Rightarrow> int \<Rightarrow> (string \<Rightarrow> nat \<Rightarrow> uuid) \<Rightarrow> datetime
     \<Rightarrow> ('w orch, uuid list) proc" where
  "create_rework ports sha256 env a t evidence d revision fresh now =
     pmap (rework_one ports sha256 env a t evidence revision fresh now) (enumerate 0 (rework_findings d))"

definition review_report :: "leader_assignment_view \<Rightarrow> uuid \<Rightarrow> repository_review_decision \<Rightarrow> task_status \<Rightarrow> report_task_command" where
  "review_report a leader_task_id d status =
     \<lparr>rtc_task_id = leader_task_id, rtc_reporter_agent_id = la_leader_agent_id a, rtc_status = status,
      rtc_summary = rrd_summary d, rtc_plan_version = 1, rtc_plan_revision_needed = False\<rparr>"

definition report_verdict ::
    "'w ports \<Rightarrow> string \<Rightarrow> ('w orch \<Rightarrow> 'w orch) \<Rightarrow> leader_assignment_view \<Rightarrow> task \<Rightarrow> uuid
     \<Rightarrow> repository_review_decision \<Rightarrow> int \<Rightarrow> task_status \<Rightarrow> ('w orch, unit) proc" where
  "report_verdict ports escalation_suffix env a t leader_task_id d revision reported =
     (if tk_status t \<in> final_task_statuses
      then if tk_status t \<noteq> reported
        then praise (leader_action_refused LE_PHASE_CONFLICT
          (''the leader task has already finished as '' @ task_status_value (tk_status t) @
           '', so it cannot accept a '' @ leader_review_verdict_value (rrd_verdict d) @ '' review''))
        else preturn ()
      else pbind (report_task ports escalation_suffix env (review_report a leader_task_id d reported)
        (''leader-review:'' @ uuid_str leader_task_id @ '':r'' @ dec_int revision @ '':report'')) (\<lambda>_. preturn ()))"

text \<open>The assignment after the verdict, the status in the receipt and the tasks created.\<close>

definition carry_out ::
    "'w ports \<Rightarrow> (string \<Rightarrow> string) \<Rightarrow> string \<Rightarrow> ('w orch \<Rightarrow> 'w orch) \<Rightarrow> leader_assignment_view \<Rightarrow> task \<Rightarrow> uuid
     \<Rightarrow> leader_review_evidence_view \<Rightarrow> repository_review_decision \<Rightarrow> (string \<Rightarrow> nat \<Rightarrow> uuid) \<Rightarrow> datetime
     \<Rightarrow> ('w orch, leader_assignment_view \<times> task_status \<times> uuid list) proc" where
  "carry_out ports sha256 escalation_suffix env a t leader_task_id evidence d fresh now =
     (let revision = lre_review_revision evidence
      in if rrd_verdict d = LV_REQUEST_REWORK
      then pbind (create_rework ports sha256 env a t evidence d revision fresh now) (\<lambda>ids.
        preturn (a\<lparr>la_phase := LP_EXECUTING, la_review_revision := revision + 1, la_review_evidence := None\<rparr>,
                 TS_IN_PROGRESS, ids))
      else let reported = (if rrd_verdict d = LV_APPROVE then TS_SUCCEEDED else TS_BLOCKED)
      in pbind (report_verdict ports escalation_suffix env a t leader_task_id d revision reported) (\<lambda>_.
        preturn (a\<lparr>la_phase := LP_CLOSED\<rparr>, reported, [])))"

definition review_phase_check :: "leader_assignment_view \<Rightarrow> leader_review_evidence_view result" where
  "review_phase_check a =
     (if accepted_review a (la_review_revision a) \<noteq> None
      then Inl (leader_action_refused LE_PHASE_CONFLICT
        ''a different verdict has already been accepted for this review round'')
      else case la_review_evidence a of
        Some evidence \<Rightarrow>
          if la_phase a = LP_REVIEW_DUE then Inr evidence
          else Inl (leader_action_refused LE_PHASE_CONFLICT
            (''a review may only be submitted when review is due; this assignment is '' @
             leader_assignment_phase_value (la_phase a)))
      | None \<Rightarrow> Inl (leader_action_refused LE_PHASE_CONFLICT
            (''a review may only be submitted when review is due; this assignment is '' @
             leader_assignment_phase_value (la_phase a))))"

definition reviewed_assignment ::
    "leader_assignment_view \<Rightarrow> leader_assignment_view \<Rightarrow> string \<Rightarrow> review_receipt \<Rightarrow> leader_assignment_view" where
  "reviewed_assignment updated a fingerprint r =
     updated\<lparr>la_accepted_reviews := la_accepted_reviews a @
       [\<lparr>arv_fingerprint = fingerprint, arv_verdict = leader_review_verdict_value (rvr_verdict r),
         arv_review_revision = rvr_review_revision r, arv_leader_task_status = rvr_leader_task_status r,
         arv_rework_task_ids = rvr_rework_task_ids r\<rparr>]\<rparr>"

definition advance_approved ::
    "(uuid \<Rightarrow> ('w orch, unit) proc) option \<Rightarrow> uuid \<Rightarrow> repository_review_decision \<Rightarrow> ('w orch, unit) proc" where
  "advance_approved on_terminal leader_task_id d =
     (case on_terminal of
        Some advance \<Rightarrow> if rrd_verdict d = LV_APPROVE then advance leader_task_id else preturn ()
      | None \<Rightarrow> preturn ())"

definition record_review ::
    "(string \<Rightarrow> string) \<Rightarrow> (uuid \<Rightarrow> ('w orch, unit) proc) option \<Rightarrow> ('w orch \<Rightarrow> 'w orch) \<Rightarrow> leader_assignment_view
     \<Rightarrow> uuid \<Rightarrow> repository_review_decision \<Rightarrow> int \<Rightarrow> leader_assignment_view \<times> task_status \<times> uuid list
     \<Rightarrow> ('w orch, review_receipt) proc" where
  "record_review sha256 on_terminal env a leader_task_id d revision outcome =
     (case outcome of (updated, status, ids) \<Rightarrow>
      let receipt = \<lparr>rvr_leader_task_id = leader_task_id, rvr_verdict = rrd_verdict d,
            rvr_review_revision = revision, rvr_leader_task_status = task_status_value status,
            rvr_rework_task_ids = ids\<rparr>
      in await env (on_assignments (las_save (reviewed_assignment updated a (document_fingerprint sha256 (rrd_raw d)) receipt)))
        (\<lambda>_. pbind (advance_approved on_terminal leader_task_id d) (\<lambda>_. preturn receipt)))"

definition accept_review ::
    "'w ports \<Rightarrow> (string \<Rightarrow> string) \<Rightarrow> string \<Rightarrow> (uuid \<Rightarrow> ('w orch, unit) proc) option \<Rightarrow> ('w orch \<Rightarrow> 'w orch)
     \<Rightarrow> leader_assignment_view \<Rightarrow> task \<Rightarrow> uuid \<Rightarrow> repository_review_decision \<Rightarrow> (string \<Rightarrow> nat \<Rightarrow> uuid) \<Rightarrow> datetime
     \<Rightarrow> ('w orch, review_receipt) proc" where
  "accept_review ports sha256 escalation_suffix on_terminal env a t leader_task_id d fresh now =
     pbind (plift (review_phase_check a)) (\<lambda>evidence.
     pbind (plift (assert_review_is_answerable d evidence)) (\<lambda>_.
     pbind (carry_out ports sha256 escalation_suffix env a t leader_task_id evidence d fresh now)
       (record_review sha256 on_terminal env a leader_task_id d (lre_review_revision evidence))))"

definition submit_review ::
    "'w ports \<Rightarrow> (string \<Rightarrow> string) \<Rightarrow> string \<Rightarrow> (uuid \<Rightarrow> ('w orch, unit) proc) option \<Rightarrow> ('w orch \<Rightarrow> 'w orch)
     \<Rightarrow> uuid \<Rightarrow> repository_review_decision \<Rightarrow> uuid \<Rightarrow> (string \<Rightarrow> nat \<Rightarrow> uuid) \<Rightarrow> datetime
     \<Rightarrow> ('w orch, review_receipt) proc" where
  "submit_review ports sha256 escalation_suffix on_terminal env leader_task_id d caller_agent_id fresh now =
     pbind (resolve_assignment ports env leader_task_id caller_agent_id) (\<lambda>(a, t).
     case find (\<lambda>r. arv_fingerprint r = document_fingerprint sha256 (rrd_raw d)) (la_accepted_reviews a) of
       Some r \<Rightarrow>
         pbind (plift (enum_of ''LeaderReviewVerdict'' leader_review_verdict_value leader_review_verdict_members
             (arv_verdict r))) (\<lambda>verdict.
         preturn \<lparr>rvr_leader_task_id = leader_task_id, rvr_verdict = verdict,
           rvr_review_revision = arv_review_revision r, rvr_leader_task_status = arv_leader_task_status r,
           rvr_rework_task_ids = arv_rework_task_ids r\<rparr>)
     | None \<Rightarrow> accept_review ports sha256 escalation_suffix on_terminal env a t leader_task_id d fresh now)"

end
