(* ===== verification/Orchestration_Safety.thy ===== *)
theory Orchestration_Safety
  imports Task_Orchestration Rely_Guarantee
begin

text \<open>
  What every interleaving of the orchestration services keeps: the invariant of the three stores and
  how a later state follows an earlier one. A task keeps its identity; only a task assigned under
  another task, a worker's, may change its assignee (the reassignment of attempts writes those rows).
\<close>

subsection \<open>Tasks\<close>

definition task_frame :: "task \<Rightarrow> task \<Rightarrow> bool" where
  "task_frame t u \<longleftrightarrow> tk_id u = tk_id t \<and> tk_organization_id u = tk_organization_id t \<and>
     tk_project_id u = tk_project_id t \<and> tk_repository_id u = tk_repository_id t \<and>
     tk_parent_task_id u = tk_parent_task_id t \<and> tk_assigned_by_agent_id u = tk_assigned_by_agent_id t \<and>
     tk_title u = tk_title t \<and> tk_instruction u = tk_instruction t \<and> tk_acceptance u = tk_acceptance t \<and>
     tk_origin u = tk_origin t \<and> tk_database_change u = tk_database_change t \<and>
     (tk_parent_task_id t = None \<longrightarrow> tk_assignee_agent_id u = tk_assignee_agent_id t)"

definition task_follows :: "task \<Rightarrow> task \<Rightarrow> bool" where
  "task_follows t u \<longleftrightarrow> task_frame t u \<and> tk_version t \<le> tk_version u \<and> (tk_version t = tk_version u \<longrightarrow> t = u)"

lemma task_follows_refl [simp]: "task_follows t t"
  by (simp add: task_follows_def task_frame_def)

lemma task_frame_trans: "task_frame t u \<Longrightarrow> task_frame u v \<Longrightarrow> task_frame t v"
  unfolding task_frame_def by presburger

lemma task_follows_trans:
  assumes "task_follows t u" and "task_follows u v" shows "task_follows t v"
proof -
  have "t = v" if "tk_version t = tk_version v"
    using assms that unfolding task_follows_def by (metis order_antisym)
  then show ?thesis
    using assms task_frame_trans [of t u v] unfolding task_follows_def by linarith
qed

lemma tk_step_follows: "tk_step t u \<Longrightarrow> task_follows t u \<and> tk_assignee_agent_id u = tk_assignee_agent_id t"
  by (erule tk_stepE) (auto simp: tk_op_defs task_follows_def task_frame_def split: if_splits)

definition tasks_follow :: "task_store \<Rightarrow> task_store \<Rightarrow> bool" where
  "tasks_follow s s' \<longleftrightarrow>
     (\<forall>i t. ts_get s i = Some t \<longrightarrow> (\<exists>u. ts_get s' i = Some u \<and> task_follows t u)) \<and>
     (\<forall>key b. dict_get (ts_idempotency s) key = Some b \<longrightarrow> dict_get (ts_idempotency s') key = Some b)"

lemma tasks_follow_refl [simp]: "tasks_follow s s"
  by (auto simp: tasks_follow_def intro: task_follows_refl)

lemma tasks_follow_trans: "tasks_follow s t \<Longrightarrow> tasks_follow t u \<Longrightarrow> tasks_follow s u"
  unfolding tasks_follow_def by (meson task_follows_trans)

text \<open>
  A task under another one stays in its project and repository, and was assigned by whoever that
  task is assigned to. Every task was written under a key.
\<close>

definition under_parent :: "task_store \<Rightarrow> task \<Rightarrow> bool" where
  "under_parent s t \<longleftrightarrow> (\<forall>p. tk_parent_task_id t = Some p \<longrightarrow>
     (\<exists>q. ts_get s p = Some q \<and> tk_project_id q = tk_project_id t \<and> tk_repository_id q = tk_repository_id t \<and>
        (tk_parent_task_id q = None \<longrightarrow> tk_assignee_agent_id q = tk_assigned_by_agent_id t)))"

definition tasks_ok :: "task_store \<Rightarrow> bool" where
  "tasks_ok s \<longleftrightarrow> ts_ok s \<and> (\<forall>i t. ts_get s i = Some t \<longrightarrow> tk_inv t \<and> under_parent s t \<and>
     (\<exists>key f. dict_get (ts_idempotency s) key = Some (i, f)))"

lemma under_parent_frame:
  "tasks_follow s s' \<Longrightarrow> under_parent s t \<Longrightarrow> tk_parent_task_id u = tk_parent_task_id t \<Longrightarrow>
     tk_project_id u = tk_project_id t \<Longrightarrow> tk_repository_id u = tk_repository_id t \<Longrightarrow>
     tk_assigned_by_agent_id u = tk_assigned_by_agent_id t \<Longrightarrow> under_parent s' u"
  unfolding under_parent_def tasks_follow_def task_follows_def task_frame_def by metis

lemma tasks_write:
  assumes ok: "tasks_ok s" and t: "ts_get s (tk_id t) = Some t" and u: "task_follows t u" "tk_inv u"
    and s': "s' = s\<lparr>ts_tasks := dict_set (tk_id u) u (ts_tasks s)\<rparr>"
  shows "tasks_ok s' \<and> tasks_follow s s'"
proof -
  have id: "tk_id u = tk_id t" using u(1) by (simp add: task_follows_def task_frame_def)
  have get: "ts_get s' i = (if i = tk_id t then Some u else ts_get s i)" for i
    by (simp add: s' ts_get_def id)
  have follow: "tasks_follow s s'"
    using t u(1) by (auto simp: tasks_follow_def get) (simp add: s')
  have "tk_inv v \<and> under_parent s' v \<and> (\<exists>key f. dict_get (ts_idempotency s') key = Some (i, f))"
    if v: "ts_get s' i = Some v" for i v
  proof -
    define w where "w = (if i = tk_id t then t else v)"
    have w: "ts_get s i = Some w" using v t get by (auto simp: w_def split: if_splits)
    then have old: "tk_inv w" "under_parent s w" "\<exists>key f. dict_get (ts_idempotency s) key = Some (i, f)"
      using ok by (auto simp: tasks_ok_def)
    have "task_follows w v" using v get u(1) by (auto simp: w_def split: if_splits)
    then have "under_parent s' v"
      using under_parent_frame [OF follow old(2), of v] by (simp add: task_follows_def task_frame_def)
    moreover have "tk_inv v" using v get old(1) u(2) by (auto simp: w_def split: if_splits)
    ultimately show ?thesis using old(3) by (simp add: s')
  qed
  moreover have "ts_ok s'" using ok unfolding s' tasks_ok_def by (auto intro: ts_ok_set)
  ultimately show ?thesis using follow unfolding tasks_ok_def by blast
qed

lemma tasks_insert:
  assumes ok: "tasks_ok s" and add: "ts_add t key f s = (r, s')" and t: "tk_inv t" "under_parent s t"
  shows "tasks_ok s' \<and> tasks_follow s s' \<and> (r = Inr () \<longrightarrow> ts_get s' (tk_id t) = Some t \<and>
     dict_get (ts_idempotency s') key = Some (tk_id t, f))"
proof (cases "ts_get s (tk_id t) \<noteq> None \<or> dict_get (ts_idempotency s) key \<noteq> None")
  case True
  then show ?thesis using add ok by (auto simp: ts_add_def ts_get_def)
next
  case False
  then have s': "s' = s\<lparr>ts_tasks := dict_set (tk_id t) t (ts_tasks s),
      ts_idempotency := dict_set key (tk_id t, f) (ts_idempotency s)\<rparr>" and r: "r = Inr ()"
    using add by (auto simp: ts_add_def ts_get_def)
  have get: "ts_get s' i = (if i = tk_id t then Some t else ts_get s i)" for i by (simp add: s' ts_get_def)
  have keys: "dict_get (ts_idempotency s') k = (if k = key then Some (tk_id t, f) else dict_get (ts_idempotency s) k)" for k
    by (simp add: s')
  have follow: "tasks_follow s s'" unfolding tasks_follow_def get keys using False by auto
  have "ts_ok s'"
  proof -
    have "ts_bound s (fst (key, t, f)) = None"
      using False by (cases "dict_get (ts_idempotency s) key") (auto simp: ts_bound_def ts_get_by_idempotency_key_def)
    moreover have "ts_ok s" using ok by (simp add: tasks_ok_def)
    ultimately show ?thesis
      using task_keys.add_new [where s = s and v = "(key, t, f)" and k = key] False add by simp
  qed
  moreover have "tk_inv v \<and> under_parent s' v \<and> (\<exists>k g. dict_get (ts_idempotency s') k = Some (i, g))"
    if v: "ts_get s' i = Some v" for i v
  proof (cases "i = tk_id t")
    case True
    then have "v = t" using v get by simp
    then show ?thesis using t(1) under_parent_frame [OF follow t(2)] True keys by metis
  next
    case False
    then have "ts_get s i = Some v" using v get by simp
    then have old: "tk_inv v" "under_parent s v" "\<exists>k g. dict_get (ts_idempotency s) k = Some (i, g)"
      using ok by (auto simp: tasks_ok_def)
    have "\<exists>k g. dict_get (ts_idempotency s') k = Some (i, g)"
      using old(3) follow unfolding tasks_follow_def by blast
    then show ?thesis using old under_parent_frame [OF follow old(2)] by blast
  qed
  ultimately show ?thesis using follow get keys r unfolding tasks_ok_def by simp
qed

subsection \<open>Plans and leader assignments\<close>

lemma ep_steps_trans: "ep_steps q r \<Longrightarrow> ep_steps p q \<Longrightarrow> ep_steps p r"
  by (induction rule: ep_steps.induct) (auto intro: ep_steps.more)

definition plans_follow :: "plan_store \<Rightarrow> plan_store \<Rightarrow> bool" where
  "plans_follow s s' \<longleftrightarrow>
     (\<forall>i p. ps_get s i = Some p \<longrightarrow> (\<exists>q. ps_get s' i = Some q \<and> ep_steps p q)) \<and>
     (\<forall>key b. dict_get (ps_idempotency s) key = Some b \<longrightarrow> dict_get (ps_idempotency s') key = Some b)"

definition plans_ok :: "plan_store \<Rightarrow> bool" where
  "plans_ok s \<longleftrightarrow> ps_ok s \<and> (\<forall>i p. ps_get s i = Some p \<longrightarrow> ep_wf p)"

lemma plans_follow_refl [simp]: "plans_follow s s"
  by (auto simp: plans_follow_def intro: ep_steps.none)

lemma plans_follow_trans: "plans_follow s t \<Longrightarrow> plans_follow t u \<Longrightarrow> plans_follow s u"
  unfolding plans_follow_def by (meson ep_steps_trans)

text \<open>
  An assignment past planning has its plan, and shows evidence exactly when its phase promises it;
  what it was parked with never changes.
\<close>

definition la_ok :: "leader_assignment_view \<Rightarrow> bool" where
  "la_ok a \<longleftrightarrow> (la_phase a \<noteq> LP_PLANNING \<longrightarrow> la_accepted_plan a \<noteq> None) \<and>
     (shows_evidence (la_phase a) \<longrightarrow> la_review_evidence a \<noteq> None)"

definition assignment_follows :: "leader_assignment_view \<Rightarrow> leader_assignment_view \<Rightarrow> bool" where
  "assignment_follows a b \<longleftrightarrow> la_leader_task_id b = la_leader_task_id a \<and>
     la_organization_id b = la_organization_id a \<and> la_project_id b = la_project_id a \<and>
     la_repository_id b = la_repository_id a \<and> la_leader_agent_id b = la_leader_agent_id a \<and>
     la_safety_envelope b = la_safety_envelope a \<and> la_worker_roster b = la_worker_roster a \<and>
     (la_accepted_plan a \<noteq> None \<longrightarrow> la_accepted_plan b \<noteq> None)"

definition assignments_follow :: "leader_assignment_store \<Rightarrow> leader_assignment_store \<Rightarrow> bool" where
  "assignments_follow s s' \<longleftrightarrow>
     (\<forall>i a. las_get s i = Some a \<longrightarrow> (\<exists>b. las_get s' i = Some b \<and> assignment_follows a b))"

definition assignments_ok :: "leader_assignment_store \<Rightarrow> bool" where
  "assignments_ok s \<longleftrightarrow> (\<forall>i a. las_get s i = Some a \<longrightarrow> la_leader_task_id a = i \<and> la_ok a)"

lemma assignment_follows_refl [simp]: "assignment_follows a a"
  by (simp add: assignment_follows_def)

lemma assignments_follow_refl [simp]: "assignments_follow s s"
  by (auto simp: assignments_follow_def)

lemma assignment_follows_trans: "assignment_follows a b \<Longrightarrow> assignment_follows b c \<Longrightarrow> assignment_follows a c"
  unfolding assignment_follows_def by presburger

lemma assignments_follow_trans: "assignments_follow s t \<Longrightarrow> assignments_follow t u \<Longrightarrow> assignments_follow s u"
  unfolding assignments_follow_def by (meson assignment_follows_trans)

subsection \<open>The state of the services\<close>

definition orch_ok :: "'w orch \<Rightarrow> bool" where
  "orch_ok s \<longleftrightarrow> tasks_ok (or_tasks s) \<and> plans_ok (or_plans s) \<and> assignments_ok (or_assignments s)"

definition orch_follows :: "'w orch \<Rightarrow> 'w orch \<Rightarrow> bool" where
  "orch_follows s t \<longleftrightarrow> tasks_follow (or_tasks s) (or_tasks t) \<and> plans_follow (or_plans s) (or_plans t) \<and>
     assignments_follow (or_assignments s) (or_assignments t)"

interpretation orch_rg: rely_guarantee orch_ok orch_follows
  by unfold_locales
    (auto simp: orch_follows_def intro: tasks_follow_trans plans_follow_trans assignments_follow_trans)

abbreviation orch_steady :: "('w orch \<Rightarrow> 'w orch) \<Rightarrow> bool" where
  "orch_steady \<equiv> steady_env orch_ok orch_follows"

abbreviation orch_stable :: "('w orch \<Rightarrow> bool) \<Rightarrow> bool" where
  "orch_stable \<equiv> stable orch_ok orch_follows"

abbreviation orch_safe :: "('w orch \<Rightarrow> bool) \<Rightarrow> ('w orch, 'a) proc \<Rightarrow> ('a \<Rightarrow> 'w orch \<Rightarrow> bool) \<Rightarrow> bool" where
  "orch_safe \<equiv> guarantees orch_ok orch_follows"

lemma orch_follows_world [simp]: "orch_follows s (s\<lparr>or_world := w\<rparr>)" "orch_ok (s\<lparr>or_world := w\<rparr>) = orch_ok s"
  by (simp_all add: orch_follows_def orch_ok_def)

lemma safe_world:
  fixes P :: "'w orch \<Rightarrow> bool"
  assumes "orch_stable P" shows "orch_safe P (on_world p) (\<lambda>_. P)"
  unfolding guarantees_def
proof (intro allI impI)
  fix s :: "'w orch" assume s: "orch_ok s" "P s"
  obtain r w where p: "p (or_world s) = (r, w)" by fastforce
  have "P (s\<lparr>or_world := w\<rparr>)"
    using assms [unfolded stable_def, rule_format, of "s\<lparr>or_world := w\<rparr>" s] s by simp
  then show "orch_ok (snd (on_world p s)) \<and> orch_follows s (snd (on_world p s)) \<and>
      (\<forall>x. fst (on_world p s) = Inr x \<longrightarrow> P (snd (on_world p s)))"
    using s(1) by (simp add: on_world_def p)
qed

lemma safe_reads: "(\<And>s x. orch_ok s \<Longrightarrow> P s \<Longrightarrow> f s = Inr x \<Longrightarrow> Q x s) \<Longrightarrow> orch_safe P (reads f) Q"
  by (simp add: guarantees_def reads_def orch_rg.follows_refl)

text \<open>A task that was read is known by its frame; it is unchanged while its version is.\<close>

definition knows_task :: "task \<Rightarrow> 'w orch \<Rightarrow> bool" where
  "knows_task t s \<longleftrightarrow> tk_inv t \<and> (\<exists>u. ts_get (or_tasks s) (tk_id t) = Some u \<and> task_follows t u)"

lemma stable_knows_task: "orch_stable (knows_task t)"
  unfolding stable_def orch_follows_def tasks_follow_def knows_task_def by (meson task_follows_trans)

lemma knows_stored: "orch_ok s \<Longrightarrow> ts_get (or_tasks s) i = Some t \<Longrightarrow> tk_id t = i \<and> knows_task t s"
  using ts_ok_id by (fastforce simp: orch_ok_def tasks_ok_def knows_task_def)

definition bound_key :: "string \<Rightarrow> uuid \<Rightarrow> string \<Rightarrow> 'w orch \<Rightarrow> bool" where
  "bound_key key i f s \<longleftrightarrow> dict_get (ts_idempotency (or_tasks s)) key = Some (i, f)"

lemma stable_bound_key: "orch_stable (bound_key key i f)"
  unfolding stable_def orch_follows_def tasks_follow_def bound_key_def by blast

lemmas orch_stable_rules = orch_rg.stable_True orch_rg.stable_pure orch_rg.stable_conj orch_rg.stable_all orch_rg.stable_imp stable_knows_task stable_bound_key

lemma safe_write_tasks:
  assumes "\<And>s r s'. orch_ok s \<Longrightarrow> P s \<Longrightarrow> p (or_tasks s) = (r, s') \<Longrightarrow>
    tasks_ok s' \<and> tasks_follow (or_tasks s) s' \<and> (\<forall>x. r = Inr x \<longrightarrow> Q x (s\<lparr>or_tasks := s'\<rparr>))"
  shows "orch_safe P (on_tasks p) Q"
  unfolding guarantees_def
proof (intro allI impI)
  fix s :: "'a orch" assume s: "orch_ok s" "P s"
  obtain r s' where p: "p (or_tasks s) = (r, s')" by fastforce
  from assms [OF s p] s(1) show "orch_ok (snd (on_tasks p s)) \<and> orch_follows s (snd (on_tasks p s)) \<and>
      (\<forall>x. fst (on_tasks p s) = Inr x \<longrightarrow> Q x (snd (on_tasks p s)))"
    by (simp add: on_tasks_def p orch_ok_def orch_follows_def)
qed

text \<open>Compare and swap: the write happens over the very task that was read.\<close>

lemma safe_update:
  assumes "tk_step t u"
  shows "orch_safe (knows_task t) (on_tasks (ts_update u (tk_version t))) (\<lambda>_. knows_task u)"
proof (rule safe_write_tasks)
  fix s :: "'w orch" and r s' assume s: "orch_ok s" "knows_task t s"
    and run: "ts_update u (tk_version t) (or_tasks s) = (r, s')"
  have u: "task_follows t u" "tk_inv u" "tk_id u = tk_id t"
    using tk_step_follows [OF assms] tk_step_inv [OF assms] s(2)
    by (auto simp: knows_task_def task_follows_def task_frame_def)
  have ok: "tasks_ok (or_tasks s)" using s(1) by (simp add: orch_ok_def)
  obtain c where c: "ts_get (or_tasks s) (tk_id t) = Some c" "task_follows t c"
    using s(2) by (auto simp: knows_task_def)
  show "tasks_ok s' \<and> tasks_follow (or_tasks s) s' \<and> (\<forall>x. r = Inr x \<longrightarrow> knows_task u (s\<lparr>or_tasks := s'\<rparr>))"
  proof (cases "tk_version c = tk_version t")
    case True
    then have "c = t" using c(2) by (simp add: task_follows_def)
    moreover have s': "s' = (or_tasks s)\<lparr>ts_tasks := dict_set (tk_id u) u (ts_tasks (or_tasks s))\<rparr>"
      using run c(1) True u(3) by (simp add: ts_update_def)
    ultimately have "tasks_ok s' \<and> tasks_follow (or_tasks s) s'"
      using tasks_write [OF ok _ u(1,2) s'] c(1) by simp
    then show ?thesis using u(2) by (simp add: knows_task_def s' ts_get_def)
  next
    case False
    then show ?thesis using run c(1) u(3) ok by (auto simp: ts_update_def)
  qed
qed

subsection \<open>The calls of the orchestrator\<close>

lemmas awaits = orch_rg.guarantees_await

lemma safe_ask:
  assumes "orch_steady env" and "orch_stable P" and "\<And>x. orch_safe P (f x) Q"
  shows "orch_safe P (await env (pget g) f) Q"
  by (rule awaits [where R = "\<lambda>_. P", OF assms(1) orch_rg.guarantees_get assms(2,3)])

text \<open>A call of a port, after which the others run.\<close>

lemma safe_port:
  assumes "orch_steady env" and "orch_stable P" and "\<And>x. orch_safe P (f x) Q"
  shows "orch_safe P (await env (on_world p) f) Q"
  by (rule awaits [OF assms(1) safe_world [OF assms(2)] assms(2,3)])

text \<open>Calls that only ask and tell.\<close>

lemmas safe_rules = orch_rg.guarantees_option orch_rg.guarantees_prod orch_rg.guarantees_if
  orch_rg.guarantees_raise orch_rg.guarantees_return orch_rg.guarantees_compute safe_ask safe_port

lemma safe_required_agent:
  assumes "orch_steady env" and "orch_stable P"
  shows "orch_safe P (required_agent ports env i) (\<lambda>_. P)"
  unfolding required_agent_def by (intro safe_rules assms)

lemma safe_required_task:
  assumes env: "orch_steady env" and "orch_stable P"
  shows "orch_safe P (required_task env i) (\<lambda>t s. P s \<and> tk_id t = i \<and> knows_task t s)"
  unfolding required_task_def
proof (rule awaits [OF env, where R = "\<lambda>found s. P s \<and> (\<forall>t. found = Some t \<longrightarrow> tk_id t = i \<and> knows_task t s)"])
  show "orch_safe P (pget (\<lambda>s. ts_get (or_tasks s) i)) (\<lambda>found s. P s \<and> (\<forall>t. found = Some t \<longrightarrow> tk_id t = i \<and> knows_task t s))"
    by (rule orch_rg.guarantees_get) (auto dest: knows_stored)
  show "orch_stable (\<lambda>s. P s \<and> (\<forall>t. found = Some t \<longrightarrow> tk_id t = i \<and> knows_task t s))" for found
    by (intro orch_stable_rules assms)
qed (intro safe_rules, simp)

lemma safe_publish:
  assumes "orch_steady env" and "orch_stable P"
  shows "orch_safe P (publish_task ports env t key assignee) (\<lambda>_. P)"
  unfolding publish_task_def by (intro safe_rules assms)

lemma safe_deliver_task:
  assumes "orch_steady env" and "orch_stable P"
  shows "orch_safe P (deliver_task ports sha256 env t key attempt) (\<lambda>_. P)"
  unfolding deliver_task_def send_assignment_def
  by (intro orch_rg.guarantees_keep safe_required_agent safe_publish safe_rules assms)

lemma safe_maybe_deliver:
  assumes "orch_steady env" and "orch_stable P"
  shows "orch_safe P (if deliver then deliver_task ports sha256 env t key attempt else preturn ()) (\<lambda>_. P)"
  by (intro safe_deliver_task safe_rules assms)

lemma safe_emit:
  assumes "orch_steady env" and "orch_stable P"
  shows "orch_safe P (emit_tasks_planned ports env t fresh now) (\<lambda>_. P)"
  unfolding emit_tasks_planned_def by (intro safe_rules assms)

lemma safe_deliver_assignment:
  assumes "orch_steady env" and "orch_stable P"
  shows "orch_safe P (deliver_assignment ports sha256 env i) (\<lambda>_. P)"
  unfolding deliver_assignment_def
proof (rule orch_rg.guarantees_bind [OF safe_required_task [OF assms]], rule orch_rg.guarantees_conseq)
  fix t
  show "orch_safe P (await env (pget (\<lambda>s. ts_assignment_key (or_tasks s) (tk_id t))) (\<lambda>key.
     case key of
       None \<Rightarrow> praise (TaskConflict (''task '' @ uuid_str (tk_id t) @
         '' has no recorded assignment key, so its task package cannot be published''))
     | Some k \<Rightarrow> deliver_task ports sha256 env t k None)) (\<lambda>_. P)"
    by (intro safe_rules safe_deliver_task assms)
qed auto

text \<open>What the authorisation of an assignment has seen of the parent.\<close>

definition parent_known :: "assign_task_command \<Rightarrow> uuid \<Rightarrow> 'w orch \<Rightarrow> bool" where
  "parent_known c assigner_id s \<longleftrightarrow> (\<forall>p. atc_parent_task_id c = Some p \<longrightarrow>
     (\<exists>q. ts_get (or_tasks s) p = Some q \<and> tk_project_id q = atc_project_id c \<and>
        tk_repository_id q = atc_repository_id c \<and>
        (tk_parent_task_id q = None \<longrightarrow> tk_assignee_agent_id q = assigner_id)))"

lemma stable_parent_known: "orch_stable (parent_known c a)"
  unfolding stable_def orch_follows_def tasks_follow_def task_follows_def task_frame_def parent_known_def by metis

lemma safe_authorize_parent:
  assumes env: "orch_steady env" and P: "orch_stable P"
  shows "orch_safe P (authorize_parent env c assigner) (\<lambda>_ s. P s \<and> parent_known c (apv_id assigner) s)"
proof (cases "atc_parent_task_id c")
  case None
  then show ?thesis by (auto simp: authorize_parent_def parent_known_def intro: orch_rg.guarantees_return)
next
  case (Some p)
  let ?R = "\<lambda>found s. P s \<and> (check_parent c assigner found = Inr () \<longrightarrow> parent_known c (apv_id assigner) s)"
  have "orch_safe P (await env (pget (\<lambda>s. ts_get (or_tasks s) p)) (\<lambda>parent. plift (check_parent c assigner parent)))
      (\<lambda>_ s. P s \<and> parent_known c (apv_id assigner) s)"
  proof (rule awaits [OF env, where R = ?R])
    show "orch_safe P (pget (\<lambda>s. ts_get (or_tasks s) p)) ?R"
      by (rule orch_rg.guarantees_get) (auto simp: check_parent_def parent_known_def Some split: option.splits if_splits)
    show "orch_stable (?R found)" for found by (intro orch_stable_rules P stable_parent_known)
    show "orch_safe (?R found) (plift (check_parent c assigner found)) (\<lambda>_ s. P s \<and> parent_known c (apv_id assigner) s)" for found
      by (rule orch_rg.guarantees_lift) auto
  qed
  then show ?thesis by (simp add: authorize_parent_def Some)
qed

lemma safe_authorize:
  assumes "orch_steady env" and "orch_stable P"
  shows "orch_safe P (authorize_assignment ports env c) (\<lambda>p s. P s \<and> parent_known c (apv_id (fst p)) s)"
  unfolding authorize_assignment_def authorize_project_def
  by (intro orch_rg.guarantees_keep [OF safe_required_agent] orch_rg.guarantees_if orch_rg.guarantees_raise
      orch_rg.guarantees_keep [where P = P and m = "await env (pget _) _"]
      orch_rg.guarantees_bind [OF safe_authorize_parent] safe_ask safe_port orch_rg.guarantees_option
      orch_rg.guarantees_lift orch_rg.guarantees_return assms) auto

lemma assigned_task_Inr:
  assumes "assigned_task c a b origin i = Inr t"
  shows "tk_inv t \<and> tk_id t = i \<and> tk_project_id t = atc_project_id c \<and> tk_repository_id t = atc_repository_id c \<and>
     tk_parent_task_id t = atc_parent_task_id c \<and> tk_assigned_by_agent_id t = a \<and> tk_assignee_agent_id t = b \<and>
     tk_status t = TS_ASSIGNED"
  using assms by (auto simp: assigned_task_def new_task_def tk_inv_def)

lemma view_id: "tk_to_view t = Inr v \<Longrightarrow> tkv_id v = tk_id t"
  by (auto simp: tk_to_view_def rbind_eq_Inr_iff)

lemma safe_add_task:
  fixes P :: "'w orch \<Rightarrow> bool"
  assumes "assigned_task c a b origin i = Inr t"
  shows "orch_safe (\<lambda>s. P s \<and> parent_known c a s) (on_tasks (ts_add t key f)) (\<lambda>_. bound_key key (tk_id t) f)"
proof (rule safe_write_tasks)
  fix s :: "'w orch" and r s' assume s: "orch_ok s" "P s \<and> parent_known c a s" and run: "ts_add t key f (or_tasks s) = (r, s')"
  have "under_parent (or_tasks s) t"
    using s(2) assigned_task_Inr [OF assms] by (auto simp: under_parent_def parent_known_def)
  then show "tasks_ok s' \<and> tasks_follow (or_tasks s) s' \<and> (\<forall>x. r = Inr x \<longrightarrow> bound_key key (tk_id t) f (s\<lparr>or_tasks := s'\<rparr>))"
    using tasks_insert [OF _ run] s(1) assigned_task_Inr [OF assms] by (simp add: orch_ok_def bound_key_def)
qed

lemma safe_announce:
  assumes "orch_steady env"
  shows "orch_safe (bound_key k (tk_id t) f) (announce ports sha256 env deliver t key) (\<lambda>v. bound_key k (tkv_id v) f)"
  unfolding announce_def
  by (intro orch_rg.guarantees_keep safe_maybe_deliver [OF assms stable_bound_key] orch_rg.guarantees_lift)
    (simp add: view_id)

lemma safe_create:
  assumes env: "orch_steady env"
  shows "orch_safe (\<lambda>_. True) (create_task ports sha256 env c k f origin deliver fresh now) (\<lambda>v. bound_key k (tkv_id v) f)"
  unfolding create_task_def
proof (rule orch_rg.guarantees_bind [OF safe_authorize [OF env orch_rg.stable_True]], rule orch_rg.guarantees_prod,
    rule orch_rg.guarantees_compute)
  fix p assigner assignee t
  assume p: "p = (assigner, assignee)" and t: "assigned_task c (apv_id assigner) (apv_id assignee) origin (fresh 0) = Inr t"
  have "orch_safe (\<lambda>s. True \<and> parent_known c (apv_id assigner) s) (await env (on_tasks (ts_add t k f)) (\<lambda>_.
      pbind (emit_tasks_planned ports env t fresh now) (\<lambda>_. announce ports sha256 env deliver t k)))
      (\<lambda>v. bound_key k (tkv_id v) f)"
    by (intro awaits [OF env safe_add_task [OF t] stable_bound_key] orch_rg.guarantees_keep
        safe_emit [OF env stable_bound_key] safe_announce [OF env])
  then show "orch_safe (\<lambda>s. True \<and> parent_known c (apv_id (fst p)) s) (await env (on_tasks (ts_add t k f)) (\<lambda>_.
      pbind (emit_tasks_planned ports env t fresh now) (\<lambda>_. announce ports sha256 env deliver t k)))
      (\<lambda>v. bound_key k (tkv_id v) f)" by (simp add: p)
qed

lemma safe_assign:
  fixes env :: "'w orch \<Rightarrow> 'w orch"
  assumes env: "orch_steady env"
  shows "orch_safe (\<lambda>_. True) (assign_task ports sha256 env c key origin deliver fresh now)
    (\<lambda>v. bound_key (py_strip key) (tkv_id v) (assign_fingerprint sha256 c))"
  unfolding assign_task_def Let_def
proof (rule orch_rg.guarantees_if [OF orch_rg.guarantees_raise])
  define k where "k = py_strip key"
  define f where "f = assign_fingerprint sha256 c"
  let ?Q = "\<lambda>v. bound_key k (tkv_id v) f"
  let ?R = "\<lambda>(existing :: (task \<times> string) option) s :: 'w orch. \<forall>t g. existing = Some (t, g) \<longrightarrow> bound_key k (tk_id t) g s"
  have "orch_safe (\<lambda>_. True) (await env (reads (\<lambda>s. ts_get_by_idempotency_key (or_tasks s) k)) (\<lambda>existing.
      case existing of
        None \<Rightarrow> create_task ports sha256 env c k f origin deliver fresh now
      | Some (t, previous) \<Rightarrow>
          if f \<noteq> previous then praise (TaskConflict ''idempotency key was used for a different task'')
          else announce ports sha256 env deliver t k)) ?Q"
  proof (rule awaits [OF env, where R = ?R])
    show "orch_safe (\<lambda>_. True) (reads (\<lambda>s. ts_get_by_idempotency_key (or_tasks s) k)) ?R"
    proof (rule safe_reads)
      fix s :: "'w orch" and existing assume s: "orch_ok s" and "ts_get_by_idempotency_key (or_tasks s) k = Inr existing"
      moreover have "ts_ok (or_tasks s)" using s by (simp add: orch_ok_def tasks_ok_def)
      ultimately show "?R existing s"
        using ts_ok_id [of "or_tasks s"]
        by (auto simp: ts_get_by_idempotency_key_def bound_key_def ts_get_def split: option.splits)
    qed
    show "orch_stable (?R existing)" for existing by (intro orch_stable_rules)
    show "orch_safe (?R existing) (case existing of
        None \<Rightarrow> create_task ports sha256 env c k f origin deliver fresh now
      | Some (t, previous) \<Rightarrow>
          if f \<noteq> previous then praise (TaskConflict ''idempotency key was used for a different task'')
          else announce ports sha256 env deliver t k) ?Q" for existing
      by (cases existing) (auto simp: safe_create [OF env] safe_announce [OF env] orch_rg.guarantees_raise)
  qed
  then show "orch_safe (\<lambda>_. True) (await env (reads (\<lambda>s. ts_get_by_idempotency_key (or_tasks s) (py_strip key))) (\<lambda>existing.
      case existing of
        None \<Rightarrow> create_task ports sha256 env c (py_strip key) (assign_fingerprint sha256 c) origin deliver fresh now
      | Some (t, previous) \<Rightarrow>
          if assign_fingerprint sha256 c \<noteq> previous
          then praise (TaskConflict ''idempotency key was used for a different task'')
          else announce ports sha256 env deliver t (py_strip key)))
    (\<lambda>v. bound_key (py_strip key) (tkv_id v) (assign_fingerprint sha256 c))" by (simp only: k_def f_def)
qed

lemma safe_write_task:
  assumes "orch_steady env" and "\<And>u. outcome = Inr u \<Longrightarrow> tk_step t u"
  shows "orch_safe (knows_task t) (write_task env t outcome) knows_task"
  unfolding write_task_def
proof (rule orch_rg.guarantees_compute)
  fix u assume "outcome = Inr u"
  then show "orch_safe (knows_task t) (await env (on_tasks (ts_update u (tk_version t))) (\<lambda>_. preturn u)) knows_task"
    using assms by (intro awaits [OF assms(1) safe_update stable_knows_task] orch_rg.guarantees_return) auto
qed

lemma safe_knowing:
  assumes "orch_safe (knows_task t) m Q"
  shows "orch_safe (\<lambda>s. True \<and> tk_id t = i \<and> knows_task t s) m Q"
  using assms by (rule orch_rg.guarantees_conseq) auto

lemma safe_start:
  assumes "orch_steady env"
  shows "orch_safe (\<lambda>_. True) (start_task ports env i agent) (\<lambda>_ _. True)"
  unfolding start_task_def
  by (intro orch_rg.guarantees_bind [OF safe_required_task [OF assms orch_rg.stable_True]] safe_knowing
      orch_rg.guarantees_if orch_rg.guarantees_raise safe_port [OF assms stable_knows_task]
      orch_rg.guarantees_bind [OF safe_write_task [OF assms tk_step.start]] orch_rg.guarantees_lift TrueI)

lemma safe_redispatch:
  assumes "orch_steady env"
  shows "orch_safe (\<lambda>_. True) (redispatch_task ports sha256 env i attempt redo) (\<lambda>_ _. True)"
  unfolding redispatch_task_def
  by (intro orch_rg.guarantees_bind [OF safe_required_task [OF assms orch_rg.stable_True]] safe_knowing
      orch_rg.guarantees_bind [where R = knows_task] orch_rg.guarantees_if orch_rg.guarantees_raise
      orch_rg.guarantees_return orch_rg.guarantees_compute
      awaits [OF assms safe_update [OF tk_step.redo] stable_knows_task]
      safe_ask [OF assms stable_knows_task] orch_rg.guarantees_option
      orch_rg.guarantees_keep [OF safe_deliver_task [OF assms stable_knows_task]] orch_rg.guarantees_lift TrueI)

lemma reported_task_step: "reported_task c t = Inr (u, changed) \<Longrightarrow> if changed then tk_step t u else u = t"
  by (auto simp: reported_task_def rbind_eq_Inr_iff Let_def intro: tk_step.report split: if_splits)

lemma safe_deferred: "orch_safe P m (\<lambda>_. P) \<Longrightarrow> orch_stable P \<Longrightarrow> orch_safe P (unless_deferred m) (\<lambda>_. P)"
  unfolding guarantees_def stable_def unless_deferred_def by (fastforce split: prod.splits sum.splits)

lemma safe_report:
  assumes "orch_steady env"
  shows "orch_safe (\<lambda>_. True) (report_task ports ending env c key) (\<lambda>_ _. True)"
  unfolding report_task_def
proof (rule orch_rg.guarantees_keep [OF safe_required_agent [OF assms orch_rg.stable_True]],
    rule orch_rg.guarantees_bind [OF safe_required_task [OF assms orch_rg.stable_True]], rule safe_knowing,
    rule orch_rg.guarantees_if [OF orch_rg.guarantees_raise], rule orch_rg.guarantees_compute, rule orch_rg.guarantees_prod)
  fix reporter t p updated changed
  assume "reported_task c t = Inr p" and "p = (updated, changed)"
  then have step: "if changed then tk_step t updated else updated = t" using reported_task_step by blast
  show "orch_safe (knows_task t) (pbind (if changed then await env (on_tasks (ts_update updated (tk_version t))) (\<lambda>_. preturn ())
            else preturn ()) (\<lambda>_.
     await env (unless_deferred (on_world (pp_send ports (report_message c t updated) (key @ '':message''))))
       (\<lambda>_.
     pbind (escalate_exception ports ending env c reporter t updated) (\<lambda>_.
     pbind (request_validation ports env c updated) (\<lambda>_. plift (tk_to_view updated)))))) (\<lambda>_ _. True)"
  proof (rule orch_rg.guarantees_bind [where R = "\<lambda>_. knows_task updated"])
    show "orch_safe (knows_task t) (if changed then await env (on_tasks (ts_update updated (tk_version t))) (\<lambda>_. preturn ())
        else preturn ()) (\<lambda>_. knows_task updated)"
      using step by (auto intro!: awaits [OF assms safe_update stable_knows_task] orch_rg.guarantees_return)
    note P = stable_knows_task [of updated]
    show "orch_safe (knows_task updated)
     (await env (unless_deferred (on_world (pp_send ports (report_message c t updated) (key @ '':message''))))
       (\<lambda>_.
     pbind (escalate_exception ports ending env c reporter t updated) (\<lambda>_.
     pbind (request_validation ports env c updated) (\<lambda>_. plift (tk_to_view updated))))) (\<lambda>_ _. True)"
      unfolding escalate_exception_def request_validation_def
      by (intro awaits [OF assms safe_deferred [OF safe_world [OF P] P] P] orch_rg.guarantees_keep [where P = "knows_task updated"]
          safe_rules orch_rg.guarantees_lift assms P TrueI) (auto simp: Let_def intro!: safe_rules assms P)
  qed
qed

lemma safe_supersede:
  assumes "orch_steady env"
  shows "orch_safe (\<lambda>_. True) (supersede_task env c key) (\<lambda>_ _. True)"
  unfolding supersede_task_def Let_def
  by (intro orch_rg.guarantees_bind [OF safe_required_task [OF assms orch_rg.stable_True]] safe_knowing
      orch_rg.guarantees_if orch_rg.guarantees_raise
      orch_rg.guarantees_bind [OF safe_write_task [OF assms tk_step.supersede]] orch_rg.guarantees_lift TrueI)

lemma safe_execution_task:
  assumes "orch_steady env"
  shows "orch_safe (\<lambda>_. True) (execution_task ports env i agent) (\<lambda>t. knows_task t)"
  unfolding execution_task_def
  by (intro safe_ask [OF assms orch_rg.stable_True] orch_rg.guarantees_if orch_rg.guarantees_raise
      orch_rg.guarantees_bind [OF safe_required_task [OF assms orch_rg.stable_True]] orch_rg.guarantees_return) auto

lemma safe_execution_start:
  assumes "orch_steady env"
  shows "orch_safe (\<lambda>_. True) (execution_start ports env i agent) (\<lambda>_ _. True)"
  unfolding execution_start_def
  by (intro orch_rg.guarantees_bind [OF safe_execution_task [OF assms]] orch_rg.guarantees_if
      orch_rg.guarantees_bind [OF safe_write_task [OF assms tk_step.start]] orch_rg.guarantees_lift TrueI)

lemma safe_execution_block:
  assumes "orch_steady env"
  shows "orch_safe (\<lambda>_. True) (execution_block ports env i agent summary) (\<lambda>_ _. True)"
  unfolding execution_block_def Let_def
  by (intro orch_rg.guarantees_bind [OF safe_execution_task [OF assms]] orch_rg.guarantees_if
      orch_rg.guarantees_bind [OF safe_write_task [OF assms tk_step.report]] orch_rg.guarantees_lift TrueI)

end
