(* ===== verification/Plan_Safety.thy ===== *)
theory Plan_Safety
  imports Leader_Decisions Orchestration_Safety
begin

text \<open>
  Every call that drives a plan keeps the invariant of the stores and only moves them forward,
  whatever runs at its awaits.
\<close>

subsection \<open>Plans\<close>

lemma ep_steps_effect:
  assumes "ep_steps p q" and "ep_wf p"
  shows "ep_wf q \<and> ep_id q = ep_id p \<and> ep_version p \<le> ep_version q \<and> (ep_version q = ep_version p \<longrightarrow> q = p)"
  using assms
proof induction
  case (more p q r)
  then have "ep_wf q" by simp
  note step = ep_step_effect [OF more.hyps(2) this]
  from more show ?case using step by fastforce
qed simp

definition knows_plan :: "execution_plan \<Rightarrow> 'w orch \<Rightarrow> bool" where
  "knows_plan p s \<longleftrightarrow> ep_wf p \<and> (\<exists>q. ps_get (or_plans s) (ep_id p) = Some q \<and> ep_steps p q)"

lemma stable_knows_plan: "orch_stable (knows_plan p)"
  unfolding stable_def orch_follows_def plans_follow_def knows_plan_def by (meson ep_steps_trans)

lemma knows_stored_plan: "orch_ok s \<Longrightarrow> ps_get (or_plans s) i = Some p \<Longrightarrow> ep_id p = i \<and> knows_plan p s"
  using ps_ok_id by (fastforce simp: orch_ok_def plans_ok_def knows_plan_def intro: ep_steps.none)

lemma safe_write_plans:
  assumes "\<And>s r s'. orch_ok s \<Longrightarrow> P s \<Longrightarrow> p (or_plans s) = (r, s') \<Longrightarrow>
    plans_ok s' \<and> plans_follow (or_plans s) s' \<and> (\<forall>x. r = Inr x \<longrightarrow> Q x (s\<lparr>or_plans := s'\<rparr>))"
  shows "orch_safe P (on_plans p) Q"
  unfolding guarantees_def
proof (intro allI impI)
  fix s :: "'a orch" assume s: "orch_ok s" "P s"
  obtain r s' where p: "p (or_plans s) = (r, s')" by fastforce
  from assms [OF s p] s(1) show "orch_ok (snd (on_plans p s)) \<and> orch_follows s (snd (on_plans p s)) \<and>
      (\<forall>x. fst (on_plans p s) = Inr x \<longrightarrow> Q x (snd (on_plans p s)))"
    by (simp add: on_plans_def p orch_ok_def orch_follows_def)
qed

lemma plans_write:
  assumes ok: "plans_ok s" and p: "ps_get s (ep_id p) = Some p" and step: "ep_step p q"
    and s': "s' = s\<lparr>ps_plans := dict_set (ep_id q) q (ps_plans s)\<rparr>"
  shows "plans_ok s' \<and> plans_follow s s'"
proof -
  have wf: "ep_wf p" using ok p by (auto simp: plans_ok_def)
  note q = ep_step_effect [OF step wf]
  have s'': "s' = s\<lparr>ps_plans := dict_set (ep_id p) q (ps_plans s)\<rparr>" using s' q by simp
  have get: "ps_get (s\<lparr>ps_plans := dict_set (ep_id p) q (ps_plans s)\<rparr>) i = (if i = ep_id p then Some q else ps_get s i)" for i
    by (simp add: ps_get_def)
  have steps: "ep_steps p q" using step by (blast intro: ep_steps.intros)
  have "ps_ok s'" using ok unfolding s' plans_ok_def by (auto intro: ps_ok_set)
  moreover have "ep_wf r" if "ps_get s' i = Some r" for i r
    using that ok q by (auto simp: s'' get plans_ok_def split: if_splits)
  moreover have "plans_follow s s'"
    using p steps by (auto simp: plans_follow_def s'' get intro: ep_steps.none)
  ultimately show ?thesis by (auto simp: plans_ok_def)
qed

lemma safe_update_plan:
  assumes "ep_step p q"
  shows "orch_safe (knows_plan p) (on_plans (ps_update q (ep_version p))) (\<lambda>_. knows_plan q)"
proof (rule safe_write_plans)
  fix s :: "'w orch" and r s' assume s: "orch_ok s" "knows_plan p s"
    and run: "ps_update q (ep_version p) (or_plans s) = (r, s')"
  have ok: "plans_ok (or_plans s)" using s(1) by (simp add: orch_ok_def)
  have wf: "ep_wf p" using s(2) by (simp add: knows_plan_def)
  note q = ep_step_effect [OF assms wf]
  obtain c where c: "ps_get (or_plans s) (ep_id p) = Some c" "ep_steps p c"
    using s(2) by (auto simp: knows_plan_def)
  show "plans_ok s' \<and> plans_follow (or_plans s) s' \<and> (\<forall>x. r = Inr x \<longrightarrow> knows_plan q (s\<lparr>or_plans := s'\<rparr>))"
  proof (cases "ep_version c = ep_version p")
    case True
    then have "c = p" using ep_steps_effect [OF c(2) wf] by simp
    moreover have s': "s' = (or_plans s)\<lparr>ps_plans := dict_set (ep_id q) q (ps_plans (or_plans s))\<rparr>"
      using run c(1) True q by (simp add: ps_update_def)
    ultimately have "plans_ok s' \<and> plans_follow (or_plans s) s'"
      using plans_write [OF ok _ assms s'] c(1) by simp
    then show ?thesis using q by (simp add: knows_plan_def s' ps_get_def ep_steps.none)
  next
    case False
    then show ?thesis using run c(1) q ok by (auto simp: ps_update_def)
  qed
qed

lemma safe_add_plan:
  assumes "ep_wf p"
  shows "orch_safe (\<lambda>_. True) (on_plans (ps_add p key)) (\<lambda>_. knows_plan p)"
proof (rule safe_write_plans)
  fix s :: "'w orch" and r s' assume "orch_ok s" and run: "ps_add p key (or_plans s) = (r, s')"
  then have ok: "plans_ok (or_plans s)" by (simp add: orch_ok_def)
  show "plans_ok s' \<and> plans_follow (or_plans s) s' \<and> (\<forall>x. r = Inr x \<longrightarrow> knows_plan p (s\<lparr>or_plans := s'\<rparr>))"
  proof (cases "dict_get (ps_plans (or_plans s)) (ep_id p) \<noteq> None \<or> dict_get (ps_idempotency (or_plans s)) key \<noteq> None")
    case True
    then show ?thesis using run ok by (auto simp: ps_add_def)
  next
    case False
    have s': "s' = (or_plans s)\<lparr>ps_plans := dict_set (ep_id p) p (ps_plans (or_plans s)),
        ps_idempotency := dict_set key (ep_id p) (ps_idempotency (or_plans s))\<rparr>"
      using False run by (auto simp: ps_add_def)
    have get: "ps_get ((or_plans s)\<lparr>ps_plans := dict_set (ep_id p) p (ps_plans (or_plans s)),
        ps_idempotency := dict_set key (ep_id p) (ps_idempotency (or_plans s))\<rparr>) i =
        (if i = ep_id p then Some p else ps_get (or_plans s) i)" for i
      by (simp add: ps_get_def)
    have "ps_ok s'"
      using plan_keys.add_new [where s = "or_plans s" and v = "(key, p)" and k = key] ok False run
      by (auto simp: plans_ok_def ps_get_by_idempotency_key_def ps_get_def split: option.splits)
    moreover have "ps_get (or_plans s) (ep_id p) = None" using False by (simp add: ps_get_def)
    ultimately show ?thesis
      using assms ok False by (auto simp: plans_ok_def plans_follow_def s' get knows_plan_def intro: ep_steps.none split: if_splits)
  qed
qed

text \<open>A write that tells a lost race apart: it knows what it wrote, or still what it had read.\<close>

lemma safe_unless_conflict:
  assumes "orch_safe P m (\<lambda>_. R)" and "orch_stable P"
  shows "orch_safe P (unless_conflict m) (\<lambda>done' s. P s \<and> (done' \<longrightarrow> R s))"
  unfolding guarantees_def
proof (intro allI impI)
  fix s :: "'a orch" assume s: "orch_ok s" "P s"
  obtain r t where m: "m s = (r, t)" by fastforce
  then have t: "orch_ok t" "orch_follows s t" "r = Inr () \<Longrightarrow> R t"
    using assms(1) s by (auto simp: guarantees_def)
  have "P t" using assms(2) [unfolded stable_def, rule_format, of t s] s t by simp
  then show "orch_ok (snd (unless_conflict m s)) \<and> orch_follows s (snd (unless_conflict m s)) \<and>
      (\<forall>x. fst (unless_conflict m s) = Inr x \<longrightarrow> P (snd (unless_conflict m s)) \<and> (x \<longrightarrow> R (snd (unless_conflict m s))))"
    using t by (auto simp: unless_conflict_def m split: sum.splits exc.splits)
qed

lemma safe_settle:
  assumes env: "orch_steady env" and step: "ep_step p q"
  shows "orch_safe (knows_plan p) (settle_plan env p q) (\<lambda>done' s. done' \<longrightarrow> knows_plan q s)"
  unfolding settle_plan_def
  by (rule awaits [OF env safe_unless_conflict [OF safe_update_plan [OF step] stable_knows_plan]])
    (auto intro!: orch_stable_rules stable_knows_plan orch_rg.guarantees_return)

subsection \<open>Loops\<close>

lemma safe_pmap:
  assumes "\<And>x. x \<in> set xs \<Longrightarrow> orch_safe P (f x) (\<lambda>_. P)"
  shows "orch_safe P (pmap f xs) (\<lambda>_. P)"
  using assms
proof (induction xs)
  case Nil
  show ?case by (auto intro: orch_rg.guarantees_return)
next
  case (Cons x xs)
  then show ?case by (auto intro!: orch_rg.guarantees_keep orch_rg.guarantees_return)
qed

lemma safe_peach:
  assumes "\<And>x. x \<in> set xs \<Longrightarrow> orch_safe P (f x) (\<lambda>_. P)"
  shows "orch_safe P (peach f xs) (\<lambda>_. P)"
  unfolding peach_def by (intro orch_rg.guarantees_keep safe_pmap orch_rg.guarantees_return assms) auto

text \<open>A call whose other knowledge is lost.\<close>

lemma safe_forget:
  assumes "orch_safe (\<lambda>_. True) m (\<lambda>_ _. True)" and "orch_stable P"
  shows "orch_safe P m (\<lambda>_. P)"
  by (rule orch_rg.guarantees_conseq [OF orch_rg.guarantees_frame [OF assms]]) auto

subsection \<open>Leader assignments\<close>

lemma safe_write_assignments:
  assumes "\<And>s r s'. orch_ok s \<Longrightarrow> P s \<Longrightarrow> p (or_assignments s) = (r, s') \<Longrightarrow>
    assignments_ok s' \<and> assignments_follow (or_assignments s) s' \<and> (\<forall>x. r = Inr x \<longrightarrow> Q x (s\<lparr>or_assignments := s'\<rparr>))"
  shows "orch_safe P (on_assignments p) Q"
  unfolding guarantees_def
proof (intro allI impI)
  fix s :: "'a orch" assume s: "orch_ok s" "P s"
  obtain r s' where p: "p (or_assignments s) = (r, s')" by fastforce
  from assms [OF s p] s(1) show "orch_ok (snd (on_assignments p s)) \<and> orch_follows s (snd (on_assignments p s)) \<and>
      (\<forall>x. fst (on_assignments p s) = Inr x \<longrightarrow> Q x (snd (on_assignments p s)))"
    by (simp add: on_assignments_def p orch_ok_def orch_follows_def)
qed

definition knows_assignment :: "leader_assignment_view \<Rightarrow> 'w orch \<Rightarrow> bool" where
  "knows_assignment a s \<longleftrightarrow> la_ok a \<and>
     (\<exists>b. las_get (or_assignments s) (la_leader_task_id a) = Some b \<and> assignment_follows a b)"

lemma stable_knows_assignment: "orch_stable (knows_assignment a)"
  unfolding stable_def orch_follows_def assignments_follow_def knows_assignment_def
  by (meson assignment_follows_trans)

lemma knows_stored_assignment:
  "orch_ok s \<Longrightarrow> las_get (or_assignments s) i = Some a \<Longrightarrow> la_leader_task_id a = i \<and> knows_assignment a s"
  by (fastforce simp: orch_ok_def assignments_ok_def knows_assignment_def)

text \<open>
  A save overwrites what it finds. It never takes the plan away, because every assignment that is
  saved has one.
\<close>

lemma safe_save:
  fixes a b :: leader_assignment_view
  assumes b: "la_ok b" "la_accepted_plan b \<noteq> None" and ab: "assignment_follows a b"
  shows "orch_safe (knows_assignment a) (on_assignments (las_save b)) (\<lambda>_. knows_assignment b)"
proof (rule safe_write_assignments)
  fix s :: "'w orch" and r s' assume s: "orch_ok s" "knows_assignment a s"
    and run: "las_save b (or_assignments s) = (r, s')"
  obtain c where c: "las_get (or_assignments s) (la_leader_task_id a) = Some c" "assignment_follows a c"
    using s(2) by (auto simp: knows_assignment_def)
  have id: "la_leader_task_id b = la_leader_task_id a" using ab by (simp add: assignment_follows_def)
  have cb: "assignment_follows c b" using c(2) ab b(2) by (auto simp: assignment_follows_def)
  have s': "s' = dict_set (la_leader_task_id a) b (or_assignments s)"
    using run c(1) id by (auto simp: las_save_def las_get_def)
  have get: "las_get s' i = (if i = la_leader_task_id a then Some b else las_get (or_assignments s) i)" for i
    by (simp add: s' las_get_def)
  have ok: "assignments_ok s'" using s(1) b(1) id by (auto simp: assignments_ok_def orch_ok_def get)
  have follow: "assignments_follow (or_assignments s) s'"
    unfolding assignments_follow_def using cb c(1) by (auto simp: get)
  have "knows_assignment b (s\<lparr>or_assignments := s'\<rparr>)" using b(1) id by (simp add: knows_assignment_def get)
  then show "assignments_ok s' \<and> assignments_follow (or_assignments s) s' \<and>
      (\<forall>x. r = Inr x \<longrightarrow> knows_assignment b (s\<lparr>or_assignments := s'\<rparr>))"
    using ok follow by simp
qed

lemma safe_ensure:
  assumes "la_ok a" and P: "orch_stable P"
  shows "orch_safe P (on_assignments (las_ensure a)) (\<lambda>_. P)"
proof (rule orch_rg.guarantees_conseq [OF orch_rg.guarantees_frame [OF safe_write_assignments P]])
  fix s :: "'a orch" and r s' assume s: "orch_ok s" and run: "las_ensure a (or_assignments s) = (r, s')"
  show "assignments_ok s' \<and> assignments_follow (or_assignments s) s' \<and> (\<forall>x. r = Inr x \<longrightarrow> True)"
    using s run assms(1)
    by (auto simp: las_ensure_def orch_ok_def assignments_ok_def assignments_follow_def las_get_def
        split: option.splits if_splits)
qed auto

lemma safe_read_assignment:
  assumes env: "orch_steady env" and P: "orch_stable P" and "orch_safe P (f None) Q"
    and "\<And>a. la_leader_task_id a = i \<Longrightarrow> orch_safe (\<lambda>s. P s \<and> knows_assignment a s) (f (Some a)) Q"
  shows "orch_safe P (await env (pget (\<lambda>s. las_get (or_assignments s) i)) f) Q"
proof (rule awaits [OF env, where R = "\<lambda>found s. P s \<and> (\<forall>a. found = Some a \<longrightarrow> la_leader_task_id a = i \<and> knows_assignment a s)"])
  show "orch_safe P (pget (\<lambda>s. las_get (or_assignments s) i))
      (\<lambda>found s. P s \<and> (\<forall>a. found = Some a \<longrightarrow> la_leader_task_id a = i \<and> knows_assignment a s))"
    by (rule orch_rg.guarantees_get) (auto dest: knows_stored_assignment)
  show "orch_stable (\<lambda>s. P s \<and> (\<forall>a. found = Some a \<longrightarrow> la_leader_task_id a = i \<and> knows_assignment a s))" for found
    by (intro orch_stable_rules P stable_knows_assignment)
  show "orch_safe (\<lambda>s. P s \<and> (\<forall>a. found = Some a \<longrightarrow> la_leader_task_id a = i \<and> knows_assignment a s)) (f found) Q" for found
  proof (cases found)
    case None
    then show ?thesis using assms(3) by simp
  next
    case (Some a)
    show ?thesis
    proof (cases "la_leader_task_id a = i")
      case True
      then show ?thesis using assms(4) [OF True] Some by simp
    next
      case False
      then show ?thesis by (simp add: Some guarantees_def)
    qed
  qed
qed

lemma safe_read_task:
  assumes env: "orch_steady env" and P: "orch_stable P" and "orch_safe P (f None) Q"
    and "\<And>t. tk_id t = i \<Longrightarrow> orch_safe (\<lambda>s. P s \<and> knows_task t s) (f (Some t)) Q"
  shows "orch_safe P (await env (pget (\<lambda>s. ts_get (or_tasks s) i)) f) Q"
proof (rule awaits [OF env, where R = "\<lambda>found s. P s \<and> (\<forall>t. found = Some t \<longrightarrow> tk_id t = i \<and> knows_task t s)"])
  show "orch_safe P (pget (\<lambda>s. ts_get (or_tasks s) i)) (\<lambda>found s. P s \<and> (\<forall>t. found = Some t \<longrightarrow> tk_id t = i \<and> knows_task t s))"
    by (rule orch_rg.guarantees_get) (auto dest: knows_stored)
  show "orch_stable (\<lambda>s. P s \<and> (\<forall>t. found = Some t \<longrightarrow> tk_id t = i \<and> knows_task t s))" for found
    by (intro orch_stable_rules P)
  show "orch_safe (\<lambda>s. P s \<and> (\<forall>t. found = Some t \<longrightarrow> tk_id t = i \<and> knows_task t s)) (f found) Q" for found
  proof (cases found)
    case None
    then show ?thesis using assms(3) by simp
  next
    case (Some t)
    show ?thesis
    proof (cases "tk_id t = i")
      case True
      then show ?thesis using assms(4) [OF True] Some by simp
    next
      case False
      then show ?thesis by (simp add: Some guarantees_def)
    qed
  qed
qed

lemma safe_read_plan:
  assumes env: "orch_steady env" and P: "orch_stable P"
    and read: "\<And>s p. ps_ok s \<Longrightarrow> g s = Some p \<Longrightarrow> \<exists>i. ps_get s i = Some p"
    and "orch_safe P (f None) Q" and some: "\<And>p. orch_safe (\<lambda>s. P s \<and> knows_plan p s) (f (Some p)) Q"
  shows "orch_safe P (await env (pget (\<lambda>s. g (or_plans s))) f) Q"
proof (rule awaits [OF env, where R = "\<lambda>found s. P s \<and> (\<forall>p. found = Some p \<longrightarrow> knows_plan p s)"])
  show "orch_safe P (pget (\<lambda>s. g (or_plans s))) (\<lambda>found s. P s \<and> (\<forall>p. found = Some p \<longrightarrow> knows_plan p s))"
  proof (rule orch_rg.guarantees_get, intro conjI allI impI)
    fix s :: "'a orch" and p assume s: "orch_ok s" and "g (or_plans s) = Some p"
    moreover have "ps_ok (or_plans s)" using s by (simp add: orch_ok_def plans_ok_def)
    ultimately obtain i where "ps_get (or_plans s) i = Some p" using read by blast
    then show "knows_plan p s" using knows_stored_plan [OF s] by blast
  qed
  show "orch_stable (\<lambda>s. P s \<and> (\<forall>p. found = Some p \<longrightarrow> knows_plan p s))" for found
    by (intro orch_stable_rules P stable_knows_plan)
  show "orch_safe (\<lambda>s. P s \<and> (\<forall>p. found = Some p \<longrightarrow> knows_plan p s)) (f found) Q" for found
    using assms(4) some by (cases found) simp_all
qed

subsection \<open>Decomposing\<close>

lemma safe_assign_keep:
  assumes "orch_steady env" and "orch_stable P"
  shows "orch_safe P (assign_task ports sha256 env c key origin deliver fresh now) (\<lambda>_. P)"
  by (rule safe_forget [OF orch_rg.guarantees_conseq [OF safe_assign [OF assms(1)]] assms(2)]) auto

lemma safe_repository_team:
  assumes "orch_steady env" and "orch_stable P"
  shows "orch_safe P (repository_team ports env i j) (\<lambda>_. P)"
  unfolding repository_team_def by (intro safe_rules assms)

lemma safe_active_agent:
  assumes "orch_steady env" and "orch_stable P"
  shows "orch_safe P (active_agent ports env refusal i) (\<lambda>_. P)"
  unfolding active_agent_def by (intro safe_rules assms)

lemma safe_specification:
  assumes "orch_steady env" and "orch_stable P"
  shows "orch_safe P (ensure_specification ports env view tests paths key) (\<lambda>_. P)"
  unfolding ensure_specification_def
  by (intro safe_rules orch_rg.guarantees_keep [OF safe_active_agent] assms)

lemma safe_roster:
  assumes "orch_steady env" and "orch_stable P"
  shows "orch_safe P (worker_roster ports env team) (\<lambda>_. P)"
  unfolding worker_roster_def
  by (intro safe_rules safe_pmap orch_rg.guarantees_keep [OF safe_active_agent] assms)

lemma safe_dispatch_child:
  assumes "orch_steady env" and "orch_stable P"
  shows "orch_safe P (dispatch_child ports sha256 env t w key wkey tests paths fresh now) (\<lambda>_. P)"
  unfolding dispatch_child_def
  by (intro orch_rg.guarantees_keep safe_assign_keep safe_specification safe_deliver_assignment
      orch_rg.guarantees_return assms)

lemma safe_heal:
  assumes "orch_steady env" and "orch_stable P"
  shows "orch_safe P (heal_children ports env children key tests paths) (\<lambda>_. P)"
  unfolding heal_children_def
  by (intro orch_rg.guarantees_compute orch_rg.guarantees_keep safe_peach orch_rg.guarantees_return)
    (auto intro!: safe_rules safe_specification assms)

lemma safe_read:
  assumes "orch_steady env" and "orch_stable P" and "\<And>x. orch_safe P (f x) Q"
  shows "orch_safe P (await env (reads g) f) Q"
  by (rule awaits [where R = "\<lambda>_. P", OF assms(1) safe_reads assms(2,3)]) auto

lemma safe_required_task_keep:
  assumes "orch_steady env" and "orch_stable P"
  shows "orch_safe P (required_task env i) (\<lambda>_. P)"
  by (rule orch_rg.guarantees_conseq [OF safe_required_task [OF assms]]) auto

lemma safe_decompose:
  assumes "orch_steady env" and P: "orch_stable P"
  shows "orch_safe P (decompose_task ports sha256 env i key tests paths fresh now) (\<lambda>_. P)"
proof -
  have cases: "orch_safe P (case ws of [] \<Rightarrow> praise e | w # _ \<Rightarrow> f w) (\<lambda>_. P)"
    if "\<And>w. orch_safe P (f w) (\<lambda>_. P)" for ws e and f :: "uuid \<Rightarrow> ('a orch, task_view list) proc"
    using that by (cases ws) (simp_all add: orch_rg.guarantees_raise)
  show ?thesis
    unfolding decompose_task_def Let_def
    by (intro orch_rg.guarantees_if orch_rg.guarantees_raise cases safe_ask safe_read safe_heal safe_dispatch_child
        orch_rg.guarantees_keep [OF safe_required_task_keep] orch_rg.guarantees_keep [OF safe_active_agent]
        orch_rg.guarantees_keep [OF safe_repository_team] assms)
qed

subsection \<open>Assigning a batch\<close>

lemma safe_park:
  assumes "orch_steady env" and "orch_stable P"
  shows "orch_safe P (park_for_leader ports env p planned i team key) (\<lambda>_. P)"
proof -
  have "la_ok (parked_assignment p planned i team roster)" for roster
    by (simp add: la_ok_def parked_assignment_def shows_evidence_def)
  then show ?thesis unfolding park_for_leader_def
    by (intro orch_rg.guarantees_keep [OF safe_roster] awaits [OF assms(1) safe_ensure] safe_rules assms)
qed

lemma safe_expand:
  assumes "orch_steady env" and "orch_stable P"
  shows "orch_safe P (expand_leader ports av sha256 env p i prefix' fresh now item) (\<lambda>_. P)"
  unfolding expand_leader_def decomposes_leader_side_def
  by (intro orch_rg.guarantees_prod orch_rg.guarantees_keep [where P = P] orch_rg.guarantees_if safe_park
      safe_decompose safe_ask orch_rg.guarantees_return assms)

lemma safe_assign_leader:
  assumes "orch_steady env" and "orch_stable P"
  shows "orch_safe P (assign_leader ports sha256 env p i prefix' fresh now planned) (\<lambda>_. P)"
  unfolding assign_leader_def
  by (intro orch_rg.guarantees_keep [OF safe_repository_team] orch_rg.guarantees_keep [OF safe_assign_keep]
      orch_rg.guarantees_return assms)

lemma safe_assign_batch:
  assumes "orch_steady env"
  shows "orch_safe (knows_plan p) (assign_batch ports av sha256 env p i prefix' fresh now) knows_plan"
  unfolding assign_batch_def
  by (intro orch_rg.guarantees_compute orch_rg.guarantees_keep [where P = "knows_plan p"] safe_pmap
      safe_assign_leader stable_knows_plan assms
      awaits [OF assms safe_update_plan [OF ep_step.leader_tasks] stable_knows_plan])
    (auto intro!: orch_rg.guarantees_keep safe_peach safe_expand orch_rg.guarantees_return stable_knows_plan assms)

lemma safe_resume:
  assumes "orch_steady env"
  shows "orch_safe (knows_plan p) (resume_plan ports av sha256 env p key fresh now) (\<lambda>_ _. True)"
  unfolding resume_plan_def
  by (intro orch_rg.guarantees_if orch_rg.guarantees_bind [OF safe_assign_batch] orch_rg.guarantees_return assms) auto

lemma ps_key_stored: "ps_get_by_idempotency_key s key = Some p \<Longrightarrow> \<exists>i. ps_get s i = Some p"
  by (auto simp: ps_get_by_idempotency_key_def split: option.splits)

lemma safe_start_plan:
  assumes "orch_steady env" and "ep_wf p"
  shows "orch_safe (\<lambda>_. True) (start_plan ports av sha256 env p key fresh now) (\<lambda>_ _. True)"
  unfolding start_plan_def Let_def
proof (rule orch_rg.guarantees_if [OF orch_rg.guarantees_raise],
    rule safe_read_plan [OF assms(1) orch_rg.stable_True])
  show "ps_get_by_idempotency_key s (py_strip key) = Some q \<Longrightarrow> \<exists>i. ps_get s i = Some q" for s q
    by (rule ps_key_stored)
qed (auto intro!: awaits [OF assms(1) safe_add_plan [OF assms(2)] stable_knows_plan] orch_rg.guarantees_return
    orch_rg.guarantees_bind [OF safe_assign_batch] safe_resume assms(1))

subsection \<open>Advancing\<close>

lemma safe_notify:
  assumes "orch_steady env" and "orch_stable P"
  shows "orch_safe P (notify_plan_completed av env p) (\<lambda>_. P)"
  unfolding notify_plan_completed_def by (intro safe_rules assms)

lemma safe_batch_succeeded_from:
  assumes "orch_steady env" and "orch_stable P"
  shows "orch_safe P (batch_succeeded_from env batch) (\<lambda>_. P)"
  by (induction batch) (auto intro!: safe_rules assms)

lemma safe_batch_succeeded:
  assumes "orch_steady env" and "orch_stable P"
  shows "orch_safe P (batch_succeeded env p) (\<lambda>_. P)"
  unfolding batch_succeeded_def by (intro orch_rg.guarantees_compute safe_batch_succeeded_from assms)

lemma safe_gate:
  assumes "orch_steady env" and "orch_stable P"
  shows "orch_safe P (delivery_gate av env p) (\<lambda>_. P)"
  unfolding delivery_gate_def by (intro safe_rules assms)

lemma refusal_step:
  assumes "ep_refuse_delivery reason repository_id task_id at' now p = Inr outcome" and "dro_plan outcome = Some q"
  shows "ep_step p q"
  using assms ep_step.refuse [of reason repository_id task_id at' now p q "dro_refusal outcome"] by (cases outcome) auto

lemma safe_deliver_batch:
  assumes env: "orch_steady env"
  shows "orch_safe (knows_plan p) (deliver_batch deliver env p now) (\<lambda>r s. \<forall>q. r = Some q \<longrightarrow> knows_plan q s)"
  unfolding deliver_batch_def
proof (rule safe_port [OF env stable_knows_plan], rule orch_rg.guarantees_option;
    rule orch_rg.guarantees_compute)
  fix cleared :: "execution_plan option" assume cleared: "ep_clear_delivery_refusal p = Inr cleared"
  show "orch_safe (knows_plan p) (case cleared of None \<Rightarrow> preturn (Some p)
      | Some q \<Rightarrow> pbind (settle_plan env p q) (\<lambda>done'. preturn (if done' then Some q else None)))
    (\<lambda>r s. \<forall>q. r = Some q \<longrightarrow> knows_plan q s)"
    using cleared by (auto intro!: orch_rg.guarantees_return orch_rg.guarantees_bind [OF safe_settle [OF env ep_step.clear]]
        split: option.splits if_splits)
next
  fix outcome r
  assume outcome: "ep_refuse_delivery (bdr_reason r) (bdr_repository_id r) (bdr_task_id r) None now p = Inr outcome"
  show "orch_safe (knows_plan p) (pbind (case dro_plan outcome of None \<Rightarrow> preturn True | Some q \<Rightarrow> settle_plan env p q)
      (\<lambda>_. preturn None)) (\<lambda>r s. \<forall>q. r = Some q \<longrightarrow> knows_plan q s)"
    by (rule orch_rg.guarantees_bind [where R = "\<lambda>_ _. True"])
      (auto intro!: orch_rg.guarantees_return orch_rg.guarantees_conseq [OF safe_settle [OF env refusal_step [OF outcome]]]
        split: option.splits)
qed

lemma safe_move_on:
  assumes env: "orch_steady env"
  shows "orch_safe (knows_plan p) (move_on ports av sha256 env p fresh now) (\<lambda>_ _. True)"
proof -
  have batch: "orch_safe (\<lambda>s. settled \<longrightarrow> knows_plan q s) (if \<not> settled then preturn ()
      else pbind (assign_batch ports av sha256 env q i prefix' fresh now) (\<lambda>_. preturn ())) (\<lambda>_ _. True)"
    for settled q i prefix'
    by (cases settled) (auto intro!: orch_rg.guarantees_return orch_rg.guarantees_bind [OF safe_assign_batch [OF env]])
  have notify: "orch_safe R (if settled then notify_plan_completed av env q else preturn ()) (\<lambda>_ _. True)"
    for settled q and R :: "'a orch \<Rightarrow> bool"
    by (rule orch_rg.guarantees_conseq [where P = "\<lambda>_. True" and Q = "\<lambda>_ _. True"])
      (auto intro!: orch_rg.guarantees_return safe_notify [OF env orch_rg.stable_True])
  show ?thesis unfolding move_on_def
    by (intro orch_rg.guarantees_keep [OF safe_gate [OF env stable_knows_plan]] orch_rg.guarantees_if
        orch_rg.guarantees_return orch_rg.guarantees_compute TrueI
        orch_rg.guarantees_bind [OF safe_settle [OF env ep_step.complete] notify]
        orch_rg.guarantees_bind [OF safe_settle [OF env ep_step.advance] batch])
qed

lemma safe_advance:
  assumes env: "orch_steady env"
  shows "orch_safe (knows_plan p) (advance_if_ready ports av sha256 env p fresh now) (\<lambda>_ _. True)"
  unfolding advance_if_ready_def
proof (rule orch_rg.guarantees_keep [OF safe_batch_succeeded [OF env stable_knows_plan]],
    rule orch_rg.guarantees_if, rule orch_rg.guarantees_return, rule TrueI, rule orch_rg.guarantees_option,
    rule safe_move_on [OF env], rule orch_rg.guarantees_bind [OF safe_deliver_batch [OF env]])
  show "orch_safe (\<lambda>s. \<forall>q. delivered = Some q \<longrightarrow> knows_plan q s)
      (case delivered of None \<Rightarrow> preturn () | Some q \<Rightarrow> move_on ports av sha256 env q fresh now) (\<lambda>_ _. True)" for delivered
    using safe_move_on [OF env] by (cases delivered) (auto intro: orch_rg.guarantees_return)
qed

subsection \<open>Rolling up\<close>

lemma la_ok_plan: "la_ok a \<Longrightarrow> la_phase a \<noteq> LP_PLANNING \<Longrightarrow> la_accepted_plan a \<noteq> None"
  by (simp add: la_ok_def)

lemma due_ok:
  assumes "la_ok a" and "la_phase a = LP_EXECUTING"
  shows "la_ok (due_assignment a e) \<and> la_accepted_plan (due_assignment a e) \<noteq> None \<and>
    assignment_follows a (due_assignment a e)"
  using la_ok_plan [OF assms(1)] assms(2) by (simp add: la_ok_def due_assignment_def assignment_follows_def)

lemma safe_known:
  assumes "la_ok a \<Longrightarrow> orch_safe (knows_assignment a) m Q"
  shows "orch_safe (knows_assignment a) m Q"
  using assms by (cases "la_ok a") (simp_all add: guarantees_def knows_assignment_def)

lemma safe_open_review:
  assumes env: "orch_steady env" and "la_phase a = LP_EXECUTING"
  shows "orch_safe (knows_assignment a) (open_review ports env parent a children) (\<lambda>_ _. True)"
proof (rule safe_known)
  assume "la_ok a"
  note due = due_ok [OF this assms(2)]
  then show ?thesis unfolding open_review_def Let_def
    by (intro orch_rg.guarantees_compute awaits [OF env safe_save stable_knows_assignment]
        safe_port [OF env stable_knows_assignment] orch_rg.guarantees_return) auto
qed

lemma safe_weaken: "orch_safe (\<lambda>_. True) m (\<lambda>_ _. True) \<Longrightarrow> orch_safe P m (\<lambda>_ _. True)"
  by (rule orch_rg.guarantees_conseq) auto

lemma safe_review:
  assumes env: "orch_steady env"
  shows "orch_safe (\<lambda>_. True) (open_review_if_leader_side ports av env parent children) (\<lambda>_ _. True)"
  unfolding open_review_if_leader_side_def
  by (intro orch_rg.guarantees_if orch_rg.guarantees_return TrueI safe_read_assignment [OF env orch_rg.stable_True])
    (auto intro!: orch_rg.guarantees_return safe_open_review [OF env, THEN orch_rg.guarantees_conseq])

lemma rolled_up_step: "rolled_up children parent = Inr (Some u) \<Longrightarrow> tk_step parent u"
  by (auto simp: rolled_up_def Let_def rbind_eq_Inr_iff intro: tk_step.report split: if_splits)

lemma safe_write_roll_up:
  assumes env: "orch_steady env" and step: "tk_step parent u"
  shows "orch_safe (knows_task parent) (write_roll_up env parent u) (\<lambda>_ _. True)"
  unfolding write_roll_up_def
  by (rule awaits [OF env safe_unless_conflict [OF safe_update [OF step] stable_knows_task]])
    (auto intro!: orch_rg.stable_conj orch_rg.stable_imp stable_knows_task orch_rg.guarantees_return
      safe_weaken [OF safe_ask [OF env orch_rg.stable_True]])

lemma safe_roll_up:
  assumes env: "orch_steady env"
  shows "orch_safe (knows_task parent) (roll_up ports av env parent) (\<lambda>_ _. True)"
  unfolding roll_up_def
  by (intro orch_rg.guarantees_if orch_rg.guarantees_return TrueI safe_ask [OF env stable_knows_task]
      orch_rg.guarantees_keep [OF safe_forget [OF safe_review [OF env] stable_knows_task]] orch_rg.guarantees_compute
      orch_rg.guarantees_option safe_write_roll_up [OF env rolled_up_step]) simp_all

subsection \<open>Events\<close>

lemma ps_find_stored:
  assumes "ps_ok s" and "ps_find_by_leader_task s i = Some p" shows "\<exists>j. ps_get s j = Some p"
proof -
  have "p \<in> set (dict_values (ps_plans s))"
    using assms(2) by (metis (no_types, lifting) find_Some_iff nth_mem ps_find_by_leader_task_def)
  then obtain j where "(j, p) \<in> set (ps_plans s)" by auto
  then show ?thesis using assms(1) dict_get_Some_in unfolding ps_get_def ps_ok_def by metis
qed

lemma safe_find_plan:
  assumes env: "orch_steady env" and "orch_safe (\<lambda>_. True) (f None) Q"
    and "\<And>p. orch_safe (knows_plan p) (f (Some p)) Q"
  shows "orch_safe (\<lambda>_. True) (await env (pget (\<lambda>s. ps_find_by_leader_task (or_plans s) i)) f) Q"
  using assms(2,3)
  by (intro safe_read_plan [where g = "\<lambda>s. ps_find_by_leader_task s i", OF env orch_rg.stable_True])
    (auto dest: ps_find_stored)

lemma safe_notify_end:
  assumes "orch_steady env"
  shows "orch_safe P (notify_plan_completed av env p) (\<lambda>_ _. True)"
  by (rule safe_weaken [OF safe_notify [OF assms orch_rg.stable_True]])

lemma safe_leader_task_final:
  assumes env: "orch_steady env"
  shows "orch_safe (\<lambda>_. True) (leader_task_final ports av sha256 env t fresh now) (\<lambda>_ _. True)"
  unfolding leader_task_final_def
  by (intro orch_rg.guarantees_if safe_find_plan [OF env])
    (auto intro!: orch_rg.guarantees_return orch_rg.guarantees_compute safe_advance [OF env]
      orch_rg.guarantees_bind [OF safe_settle [OF env ep_step.fail]] safe_notify_end [OF env])

lemma safe_terminal:
  assumes env: "orch_steady env"
  shows "orch_safe (\<lambda>_. True) (on_task_terminal ports av sha256 env i fresh now) (\<lambda>_ _. True)"
  unfolding on_task_terminal_def
  by (rule safe_ask [OF env orch_rg.stable_True], intro orch_rg.guarantees_option orch_rg.guarantees_return TrueI
      safe_leader_task_final [OF env], rule safe_read_task [OF env orch_rg.stable_True])
    (auto intro!: orch_rg.guarantees_return orch_rg.guarantees_bind [OF safe_roll_up [OF env] safe_leader_task_final [OF env]])

lemma safe_reopen:
  assumes env: "orch_steady env"
  shows "orch_safe (knows_plan p) (reopen_if_repaired env p) (\<lambda>r s. \<forall>q. r = Some q \<longrightarrow> knows_plan q s)"
  unfolding reopen_if_repaired_def
  by (rule orch_rg.guarantees_keep [OF safe_batch_succeeded [OF env stable_knows_plan]])
    (auto intro!: orch_rg.guarantees_return orch_rg.guarantees_compute
      orch_rg.guarantees_bind [OF safe_settle [OF env ep_step.reopen]] split: if_splits)

lemma safe_reconsider_plan:
  assumes env: "orch_steady env"
  shows "orch_safe (\<lambda>_. True) (reconsider_plan ports av sha256 env i fresh now) (\<lambda>_ _. True)"
proof -
  have "orch_safe (\<lambda>s. \<forall>q. r = Some q \<longrightarrow> knows_plan q s)
      (case r of None \<Rightarrow> preturn () | Some q \<Rightarrow> advance_if_ready ports av sha256 env q fresh now) (\<lambda>_ _. True)" for r
    using safe_advance [OF env] by (cases r) (auto intro: orch_rg.guarantees_return)
  then show ?thesis unfolding reconsider_plan_def
    by (intro safe_find_plan [OF env])
      (auto intro!: orch_rg.guarantees_return safe_advance [OF env] orch_rg.guarantees_bind [OF safe_reopen [OF env]])
qed

lemma safe_reconsider:
  assumes env: "orch_steady env"
  shows "orch_safe (\<lambda>_. True) (reconsider_task ports av sha256 env i fresh now) (\<lambda>_ _. True)"
  unfolding reconsider_task_def
  by (intro safe_ask [OF env orch_rg.stable_True] orch_rg.guarantees_option orch_rg.guarantees_return TrueI
      safe_reconsider_plan [OF env])

subsection \<open>Re-dispatch and the leader's decisions\<close>

lemma safe_fresh_review_round:
  assumes env: "orch_steady env" and "la_phase a \<in> {LP_REVIEW_DUE, LP_CLOSED}"
  shows "orch_safe (knows_assignment a)
    (await env (on_assignments (las_save (fresh_review_round a))) (\<lambda>_. preturn ())) (\<lambda>_ _. True)"
proof (rule safe_known)
  assume "la_ok a"
  then have "la_ok (fresh_review_round a)" "la_accepted_plan (fresh_review_round a) \<noteq> None"
      "assignment_follows a (fresh_review_round a)"
    using la_ok_plan [of a] assms(2) by (auto simp: la_ok_def fresh_review_round_def assignment_follows_def shows_evidence_def)
  then show ?thesis
    by (intro awaits [OF env safe_save stable_knows_assignment] orch_rg.guarantees_return) auto
qed

end
