(* ===== verification/Decision_Safety.thy ===== *)
theory Decision_Safety
  imports Plan_Safety
begin

text \<open>
  The same for re-dispatching a round and for the leader's decisions, and then for every sequence of
  calls, where what runs at the awaits of a call is again any sequence of calls.
\<close>

subsection \<open>Re-dispatching a round\<close>

lemma safe_pmap_all:
  assumes "\<And>x. orch_safe P (f x) (\<lambda>y s. P s \<and> R y s)" and R: "\<And>y. orch_stable (R y)"
  shows "orch_safe P (pmap f xs) (\<lambda>ys s. P s \<and> (\<forall>y. y \<in> set ys \<longrightarrow> R y s))"
proof (induction xs)
  case Nil
  show ?case by (auto intro: orch_rg.guarantees_return)
next
  case (Cons x xs)
  have "orch_safe (\<lambda>s. P s \<and> R y s) (pbind (pmap f xs) (\<lambda>ys. preturn (y # ys)))
      (\<lambda>zs s. P s \<and> (\<forall>z. z \<in> set zs \<longrightarrow> R z s))" for y
  proof (rule orch_rg.guarantees_bind)
    show "orch_safe (\<lambda>s. P s \<and> R y s) (pmap f xs) (\<lambda>ys s. R y s \<and> P s \<and> (\<forall>z. z \<in> set ys \<longrightarrow> R z s))"
      by (rule orch_rg.guarantees_conseq [OF orch_rg.guarantees_frame [OF Cons.IH R]]) auto
    show "orch_safe (\<lambda>s. R y s \<and> P s \<and> (\<forall>z. z \<in> set ys \<longrightarrow> R z s)) (preturn (y # ys))
        (\<lambda>zs s. P s \<and> (\<forall>z. z \<in> set zs \<longrightarrow> R z s))" for ys
      by (rule orch_rg.guarantees_return) auto
  qed
  then show ?case unfolding pmap.simps by (rule orch_rg.guarantees_bind [OF assms(1)])
qed

lemma safe_leader_and_workers:
  assumes "orch_steady env"
  shows "orch_safe (\<lambda>_. True) (leader_and_workers env i) (\<lambda>_ _. True)"
  unfolding leader_and_workers_def
  by (intro safe_ask [OF assms orch_rg.stable_True] orch_rg.guarantees_option orch_rg.guarantees_return TrueI)

lemma safe_partition:
  assumes "orch_steady env"
  shows "orch_safe (\<lambda>_. True) (partition_round env p) (\<lambda>_ _. True)"
  unfolding partition_round_def Let_def
  by (intro orch_rg.guarantees_compute orch_rg.guarantees_keep [OF safe_pmap] safe_leader_and_workers
      orch_rg.guarantees_return assms TrueI)

definition reviewed_round :: "uuid \<times> leader_assignment_view \<Rightarrow> 'w orch \<Rightarrow> bool" where
  "reviewed_round r s \<longleftrightarrow> la_phase (snd r) \<in> {LP_REVIEW_DUE, LP_CLOSED} \<and> knows_assignment (snd r) s"

lemma stable_reviewed_round: "orch_stable (reviewed_round r)"
  unfolding reviewed_round_def by (intro orch_stable_rules stable_knows_assignment)

definition reviewed_rounds :: "(uuid \<times> leader_assignment_view) list \<Rightarrow> 'w orch \<Rightarrow> bool" where
  "reviewed_rounds rs s \<longleftrightarrow> (\<forall>r. r \<in> set rs \<longrightarrow> reviewed_round r s)"

lemma stable_reviewed_rounds: "orch_stable (reviewed_rounds rs)"
  unfolding reviewed_rounds_def by (intro orch_stable_rules stable_reviewed_round)

lemma safe_review_round:
  assumes env: "orch_steady env"
  shows "orch_safe (\<lambda>_. True) (review_round env t) (\<lambda>rs s. True \<and> reviewed_rounds rs s)"
  unfolding review_round_def
  by (rule safe_read_assignment [OF env orch_rg.stable_True])
    (auto intro!: orch_rg.guarantees_return simp: reviewed_rounds_def reviewed_round_def)

lemma safe_review_rounds:
  assumes env: "orch_steady env"
  shows "orch_safe (\<lambda>_. True) (pmap (review_round env) ts) (\<lambda>rs. reviewed_rounds (concat rs))"
  by (rule orch_rg.guarantees_conseq [OF safe_pmap_all [OF safe_review_round [OF env] stable_reviewed_rounds]])
    (auto simp: reviewed_rounds_def)

lemma safe_redispatch_keep:
  assumes "orch_steady env"
  shows "orch_safe (\<lambda>_. True) (pmap (\<lambda>t. redispatch_task ports sha256 env (tk_id t) token redo) ts) (\<lambda>_ _. True)"
  by (intro safe_pmap safe_redispatch assms)

lemma safe_dispatch_round:
  assumes env: "orch_steady env"
  shows "orch_safe (reviewed_rounds rounds)
    (dispatch_round ports sha256 env i token scope rounds unfinished redoable settled) (\<lambda>_ _. True)"
proof -
  have "orch_safe (reviewed_rounds rounds)
      (await env (on_assignments (las_save (fresh_review_round a))) (\<lambda>_. preturn ())) (\<lambda>_. reviewed_rounds rounds)"
    if a: "a \<in> set (map snd rounds)" for a
  proof -
    obtain r where r: "r \<in> set rounds" "snd r = a" using a by (auto simp only: set_map)
    have known: "la_phase a \<in> {LP_REVIEW_DUE, LP_CLOSED} \<and> knows_assignment a s" if "reviewed_rounds rounds s" for s :: "'a orch"
      using that r unfolding reviewed_rounds_def reviewed_round_def by blast
    show ?thesis
    proof (cases "la_phase a \<in> {LP_REVIEW_DUE, LP_CLOSED}")
      case True
      have "orch_safe (\<lambda>s. reviewed_rounds rounds s \<and> knows_assignment a s)
        (await env (on_assignments (las_save (fresh_review_round a))) (\<lambda>_. preturn ())) (\<lambda>_ s. reviewed_rounds rounds s \<and> True)"
        by (rule orch_rg.guarantees_frame [OF safe_fresh_review_round [OF env True] stable_reviewed_rounds])
      then show ?thesis by (rule orch_rg.guarantees_conseq) (simp_all add: known)
    next
      case False
      then show ?thesis using known unfolding guarantees_def by blast
    qed
  qed
  then have saves: "orch_safe (reviewed_rounds rounds)
      (peach (\<lambda>a. await env (on_assignments (las_save (fresh_review_round a))) (\<lambda>_. preturn ())) (map snd rounds))
      (\<lambda>_. reviewed_rounds rounds)"
    by (intro safe_peach) blast
  show ?thesis unfolding dispatch_round_def
    by (rule orch_rg.guarantees_keep [OF saves], rule safe_weaken,
      intro orch_rg.guarantees_keep [OF safe_redispatch_keep [OF env]] orch_rg.guarantees_return TrueI)
qed

lemma safe_redispatch_round:
  assumes env: "orch_steady env"
  shows "orch_safe (\<lambda>_. True) (redispatch_round ports sha256 has env i attempt scope) (\<lambda>_ _. True)"
  unfolding redispatch_round_def Let_def
proof (intro orch_rg.guarantees_if orch_rg.guarantees_raise safe_ask [OF env orch_rg.stable_True]
    orch_rg.guarantees_option orch_rg.guarantees_keep [OF safe_partition [OF env]] orch_rg.guarantees_prod)
  fix p :: execution_plan and idle settled
  let ?reviewed = "\<lambda>rounds :: (uuid \<times> leader_assignment_view) list. set (map fst rounds)"
  show "orch_safe (\<lambda>_. True) (pbind (if scope = RS_RERUN \<and> has then pmap (review_round env) (idle @ settled) else preturn [])
     (\<lambda>reviews. if filter (\<lambda>t. tk_id t \<notin> ?reviewed (concat reviews)) idle = [] \<and>
           redoable_tasks scope (?reviewed (concat reviews)) settled = []
        then praise (nothing_to_dispatch i settled)
        else dispatch_round ports sha256 env i (py_strip attempt) scope (concat reviews)
          (filter (\<lambda>t. tk_id t \<notin> ?reviewed (concat reviews)) idle)
          (redoable_tasks scope (?reviewed (concat reviews)) settled) settled)) (\<lambda>_ _. True)"
    by (rule orch_rg.guarantees_bind [where R = "\<lambda>rs. reviewed_rounds (concat rs)"])
      (auto intro!: safe_review_rounds [OF env] orch_rg.guarantees_return orch_rg.guarantees_raise
        safe_dispatch_round [OF env] simp: reviewed_rounds_def [of "[]"])
qed

subsection \<open>The leader's decisions\<close>

lemma safe_resolve:
  assumes env: "orch_steady env"
  shows "orch_safe (\<lambda>_. True) (resolve_assignment ports env i caller)
    (\<lambda>(a, t) s. la_leader_task_id a = i \<and> tk_id t = i \<and> knows_assignment a s \<and> knows_task t s)"
  unfolding resolve_assignment_def
proof (rule safe_ask [OF env orch_rg.stable_True], rule orch_rg.guarantees_if [OF orch_rg.guarantees_raise],
    rule safe_read_assignment [OF env orch_rg.stable_True])
  fix a :: leader_assignment_view assume a: "la_leader_task_id a = i"
  let ?P = "\<lambda>s. True \<and> knows_assignment a s"
  have P: "orch_stable ?P" by (intro orch_stable_rules stable_knows_assignment)
  show "orch_safe ?P (await env (pget (\<lambda>s. ts_get (or_tasks s) i)) (\<lambda>found.
     case (Some a, found) of
       (Some a, Some t) \<Rightarrow>
         if tk_assignee_agent_id t \<noteq> caller
         then praise (leader_action_refused LE_FORBIDDEN_NOT_ASSIGNEE
           ''this leader assignment belongs to another repository leader'')
         else await env (pget (\<lambda>s. pp_mode ports (la_project_id a) (la_repository_id a) (or_world s))) (\<lambda>mode.
           if mode \<noteq> DM_LEADER
           then praise (leader_action_refused LE_DECOMPOSITION_MODE_CONFLICT
             ''this team's planning is done server-side, so leader submissions are refused'')
           else preturn (a, t))
     | _ \<Rightarrow> praise (leader_action_refused LE_ASSIGNMENT_NOT_FOUND
         ''no leader assignment exists for this task id'')))
    (\<lambda>(a, t) s. la_leader_task_id a = i \<and> tk_id t = i \<and> knows_assignment a s \<and> knows_task t s)"
  proof (rule safe_read_task [OF env P])
    fix t :: task assume t: "tk_id t = i"
    have "orch_stable (\<lambda>s. ?P s \<and> knows_task t s)" by (intro orch_stable_rules stable_knows_assignment)
    then show "orch_safe (\<lambda>s. ?P s \<and> knows_task t s) (case (Some a, Some t) of
       (Some a, Some t) \<Rightarrow>
         if tk_assignee_agent_id t \<noteq> caller
         then praise (leader_action_refused LE_FORBIDDEN_NOT_ASSIGNEE
           ''this leader assignment belongs to another repository leader'')
         else await env (pget (\<lambda>s. pp_mode ports (la_project_id a) (la_repository_id a) (or_world s))) (\<lambda>mode.
           if mode \<noteq> DM_LEADER
           then praise (leader_action_refused LE_DECOMPOSITION_MODE_CONFLICT
             ''this team's planning is done server-side, so leader submissions are refused'')
           else preturn (a, t))
     | _ \<Rightarrow> praise (leader_action_refused LE_ASSIGNMENT_NOT_FOUND
         ''no leader assignment exists for this task id''))
    (\<lambda>(a, t) s. la_leader_task_id a = i \<and> tk_id t = i \<and> knows_assignment a s \<and> knows_task t s)"
      using a t by (auto intro!: orch_rg.guarantees_raise safe_ask [OF env] orch_rg.guarantees_return)
  qed (auto intro: orch_rg.guarantees_raise)
qed (auto intro!: safe_ask [OF env orch_rg.stable_True] orch_rg.guarantees_raise)

lemma safe_author_permit:
  assumes "orch_steady env" and "orch_stable P"
  shows "orch_safe P (author_permit ports env w paths tests key) (\<lambda>_. P)"
  unfolding author_permit_def
  by (intro safe_rules orch_rg.guarantees_keep [OF safe_active_agent] assms)

lemma safe_dispatch_permitted:
  assumes "orch_steady env" and "orch_stable P"
  shows "orch_safe P (dispatch_permitted ports sha256 env c key origin paths tests fresh now) (\<lambda>_. P)"
  unfolding dispatch_permitted_def
  by (intro orch_rg.guarantees_keep safe_assign_keep safe_author_permit safe_deliver_assignment
      orch_rg.guarantees_return assms)

lemma safe_accept_plan:
  assumes env: "orch_steady env"
  shows "orch_safe (knows_assignment a) (accept_plan ports sha256 env a t i d fresh now) (\<lambda>_ _. True)"
  unfolding accept_plan_def
proof (intro orch_rg.guarantees_compute orch_rg.guarantees_keep
    [OF safe_pmap [where P = "knows_assignment a"]])
  show "orch_safe (knows_assignment a) (dispatch_draft ports sha256 env a t i fresh now draft) (\<lambda>_. knows_assignment a)" for draft
    unfolding dispatch_draft_def by (rule safe_dispatch_permitted [OF env stable_knows_assignment])
  fix ids
  have ok: "la_ok (executing_assignment a (accepted_plan_of f ids d))"
      "la_accepted_plan (executing_assignment a (accepted_plan_of f ids d)) \<noteq> None"
      "assignment_follows a (executing_assignment a (accepted_plan_of f ids d))" for f
    by (simp_all add: la_ok_def executing_assignment_def assignment_follows_def shows_evidence_def)
  show "orch_safe (knows_assignment a) (await env (on_assignments (las_save (executing_assignment a
         (accepted_plan_of (document_fingerprint sha256 (rpd_raw d)) ids d)))) (\<lambda>_.
     preturn \<lparr>plr_leader_task_id = i, plr_plan_revision = 1, plr_worker_task_ids = ids\<rparr>)) (\<lambda>_ _. True)"
    by (intro awaits [OF env safe_save [OF ok] stable_knows_assignment] orch_rg.guarantees_return TrueI)
qed

lemma safe_resolved:
  assumes env: "orch_steady env" and "\<And>a t. orch_safe (knows_assignment a) (f a t) Q"
  shows "orch_safe (\<lambda>_. True) (pbind (resolve_assignment ports env i caller) (\<lambda>(a, t). f a t)) Q"
proof (rule orch_rg.guarantees_bind [OF safe_resolve [OF env]], clarify)
  show "orch_safe (\<lambda>s. la_leader_task_id a = i \<and> tk_id t = i \<and> knows_assignment a s \<and> knows_task t s) (f a t) Q" for a t
    by (rule orch_rg.guarantees_conseq [OF assms(2)]) auto
qed

lemma safe_submit_plan:
  assumes env: "orch_steady env"
  shows "orch_safe (\<lambda>_. True) (submit_plan ports sha256 env i d caller fresh now) (\<lambda>_ _. True)"
  unfolding submit_plan_def
  by (intro safe_resolved [OF env] orch_rg.guarantees_option orch_rg.guarantees_if orch_rg.guarantees_return
      orch_rg.guarantees_raise safe_accept_plan [OF env] TrueI)

text \<open>What carrying out a verdict returns still is the assignment, with its plan.\<close>

definition carried :: "leader_assignment_view \<Rightarrow> leader_assignment_view \<Rightarrow> bool" where
  "carried a b \<longleftrightarrow> la_ok b \<and> la_accepted_plan b \<noteq> None \<and> assignment_follows a b"

lemma carried_reviewed: "carried a b \<Longrightarrow> carried a (reviewed_assignment b a f r)"
  by (auto simp: carried_def reviewed_assignment_def la_ok_def assignment_follows_def)

lemma safe_rework:
  assumes "orch_steady env" and "orch_stable P"
  shows "orch_safe P (create_rework ports sha256 env a t evidence d revision fresh now) (\<lambda>_. P)"
  unfolding create_rework_def
  by (intro safe_pmap) (auto simp: rework_one_def intro!: safe_rules safe_dispatch_permitted assms)

lemma safe_report_verdict:
  assumes "orch_steady env" and "orch_stable P"
  shows "orch_safe P (report_verdict ports ending env a t i d revision reported) (\<lambda>_. P)"
  unfolding report_verdict_def
  by (intro orch_rg.guarantees_if orch_rg.guarantees_raise orch_rg.guarantees_return
      orch_rg.guarantees_keep [OF safe_forget [OF safe_report [OF assms(1)] assms(2)]])

lemma review_phase: "review_phase_check a = Inr e \<Longrightarrow> la_phase a = LP_REVIEW_DUE \<and> la_review_evidence a = Some e"
  by (auto simp: review_phase_check_def split: if_splits option.splits)

lemma safe_carry_out:
  assumes env: "orch_steady env" and e: "review_phase_check a = Inr e"
  shows "orch_safe (knows_assignment a) (carry_out ports sha256 ending env a t i e d fresh now)
    (\<lambda>(b, status, ids) s. carried a b \<and> knows_assignment a s)"
proof (rule safe_known)
  assume ok: "la_ok a"
  have plan: "la_accepted_plan a \<noteq> None" using la_ok_plan [OF ok] review_phase [OF e] by simp
  then have "carried a (a\<lparr>la_phase := LP_EXECUTING, la_review_revision := n, la_review_evidence := None\<rparr>)"
      "carried a (a\<lparr>la_phase := LP_CLOSED\<rparr>)" for n
    using review_phase [OF e] by (simp_all add: carried_def la_ok_def assignment_follows_def shows_evidence_def)
  then show ?thesis unfolding carry_out_def Let_def
    by (intro orch_rg.guarantees_if orch_rg.guarantees_keep [OF safe_rework] orch_rg.guarantees_keep [OF safe_report_verdict]
        orch_rg.guarantees_return env stable_knows_assignment) auto
qed

lemma safe_record_review:
  assumes env: "orch_steady env"
    and advance: "\<And>f i. on_terminal = Some f \<Longrightarrow> orch_safe (\<lambda>_. True) (f i) (\<lambda>_ _. True)"
  shows "orch_safe (\<lambda>s. carried a b \<and> knows_assignment a s)
    (record_review sha256 on_terminal env a i d revision (b, status, ids)) (\<lambda>_ _. True)"
proof (rule orch_rg.guarantees_pure)
  assume b: "carried a b"
  have "orch_safe (\<lambda>_. True) (advance_approved on_terminal i d) (\<lambda>_ _. True)"
    using advance by (auto simp: advance_approved_def intro: orch_rg.guarantees_return split: option.splits)
  then have finish: "orch_safe (\<lambda>_. True) (pbind (advance_approved on_terminal i d) (\<lambda>_. preturn receipt)) (\<lambda>_ _. True)"
    for receipt :: review_receipt
    by (rule orch_rg.guarantees_bind) (auto intro: orch_rg.guarantees_return)
  have "la_ok (reviewed_assignment b a f r) \<and> la_accepted_plan (reviewed_assignment b a f r) \<noteq> None \<and>
      assignment_follows a (reviewed_assignment b a f r)" for f r
    using carried_reviewed [OF b] by (simp add: carried_def)
  then show "orch_safe (knows_assignment a) (record_review sha256 on_terminal env a i d revision (b, status, ids)) (\<lambda>_ _. True)"
    unfolding record_review_def Let_def prod.case
    by (intro awaits [OF env safe_save stable_knows_assignment] safe_weaken [OF finish]) auto
qed

lemma safe_accept_review:
  assumes env: "orch_steady env"
    and advance: "\<And>f i. on_terminal = Some f \<Longrightarrow> orch_safe (\<lambda>_. True) (f i) (\<lambda>_ _. True)"
  shows "orch_safe (knows_assignment a) (accept_review ports sha256 ending on_terminal env a t i d fresh now) (\<lambda>_ _. True)"
  unfolding accept_review_def
proof (rule orch_rg.guarantees_compute, rule orch_rg.guarantees_compute)
  fix e assume e: "review_phase_check a = Inr e"
  show "orch_safe (knows_assignment a) (pbind (carry_out ports sha256 ending env a t i e d fresh now)
      (record_review sha256 on_terminal env a i d (lre_review_revision e))) (\<lambda>_ _. True)"
    by (rule orch_rg.guarantees_bind [OF safe_carry_out [OF env e]])
      (clarify, rule safe_record_review [OF env], erule advance)
qed

lemma safe_submit_review:
  assumes env: "orch_steady env"
    and advance: "\<And>f i. on_terminal = Some f \<Longrightarrow> orch_safe (\<lambda>_. True) (f i) (\<lambda>_ _. True)"
  shows "orch_safe (\<lambda>_. True) (submit_review ports sha256 ending on_terminal env i d caller fresh now) (\<lambda>_ _. True)"
  unfolding submit_review_def
  by (intro safe_resolved [OF env] orch_rg.guarantees_option orch_rg.guarantees_compute orch_rg.guarantees_return TrueI
      safe_accept_review [OF env]) (erule advance)

end
