(* ===== verification/Orchestration_Runs.thy ===== *)
theory Orchestration_Runs
  imports Decision_Safety
begin

text \<open>
  Every sequence of calls of the task services, with any sequence of calls at each await, from empty
  stores. The ports of a call and what the world does are arbitrary.
\<close>

subsection \<open>Runs\<close>

inductive orch_call :: "('w orch \<Rightarrow> 'w orch) \<Rightarrow> ('w orch \<Rightarrow> 'w orch) \<Rightarrow> bool" for env where
  assign: "orch_call env (\<lambda>s. snd (assign_task ports sha256 env c key origin deliver new now s))"
| deliver: "orch_call env (\<lambda>s. snd (deliver_assignment ports sha256 env i s))"
| redispatch: "orch_call env (\<lambda>s. snd (redispatch_task ports sha256 env i attempt redo s))"
| start: "orch_call env (\<lambda>s. snd (start_task ports env i agent s))"
| report: "orch_call env (\<lambda>s. snd (report_task ports ending env r key s))"
| supersede: "orch_call env (\<lambda>s. snd (supersede_task env su key s))"
| execution_start: "orch_call env (\<lambda>s. snd (execution_start ports env i agent s))"
| execution_block: "orch_call env (\<lambda>s. snd (execution_block ports env i agent summary s))"
| decompose: "orch_call env (\<lambda>s. snd (decompose_task ports sha256 env i key tests paths fresh now s))"
| start_plan: "ep_wf p \<Longrightarrow> orch_call env (\<lambda>s. snd (start_plan ports av sha256 env p key fresh now s))"
| terminal: "orch_call env (\<lambda>s. snd (on_task_terminal ports av sha256 env i fresh now s))"
| reconsider: "orch_call env (\<lambda>s. snd (reconsider_task ports av sha256 env i fresh now s))"
| redispatch_round: "orch_call env (\<lambda>s. snd (redispatch_round ports sha256 lane env i attempt scope s))"
| submit_plan: "orch_call env (\<lambda>s. snd (submit_plan ports sha256 env i d caller fresh now s))"
| submit_review: "(\<And>f j. on_terminal = Some f \<Longrightarrow> f j = on_task_terminal ports av sha256 env j fresh now) \<Longrightarrow>
    orch_call env (\<lambda>s. snd (submit_review ports sha256 ending on_terminal env i v caller fresh now s))"

inductive orch_run :: "'w orch \<Rightarrow> 'w orch \<Rightarrow> bool" where
  none: "orch_run s s"
| call: "orch_run s t \<Longrightarrow> (\<And>u. orch_run u (env u)) \<Longrightarrow> orch_call env f \<Longrightarrow> orch_run s (f t)"

definition no_work :: "'w \<Rightarrow> 'w orch" where
  "no_work w = \<lparr>or_tasks = \<lparr>ts_tasks = [], ts_idempotency = []\<rparr>, or_plans = \<lparr>ps_plans = [], ps_idempotency = []\<rparr>,
     or_assignments = [], or_world = w\<rparr>"

lemma no_work_ok [simp]: "orch_ok (no_work w)"
  by (simp add: orch_ok_def no_work_def tasks_ok_def plans_ok_def assignments_ok_def ts_ok_def ps_ok_def
      ts_get_def ps_get_def las_get_def)

lemma safe_end: "orch_safe (\<lambda>_. True) m Q \<Longrightarrow> orch_ok s \<Longrightarrow> orch_ok (snd (m s)) \<and> orch_follows s (snd (m s))"
  by (simp add: guarantees_def)

lemma orch_call_sound:
  fixes env :: "'w orch \<Rightarrow> 'w orch"
  assumes env: "orch_steady env" and "orch_call env f" and s: "orch_ok s"
  shows "orch_ok (f s) \<and> orch_follows s (f s)"
  using assms(2)
proof cases
  case (submit_review on_terminal ports av sha256 fresh now ending i v caller)
  show ?thesis unfolding submit_review(1)
    by (rule safe_end [OF safe_submit_review [OF env] s]) (simp add: submit_review(2) safe_terminal [OF env])
qed (simp_all only:, (rule safe_end [OF _ s],
    (rule safe_assign [OF env] safe_deliver_assignment [OF env orch_rg.stable_True] safe_redispatch [OF env]
      safe_start [OF env] safe_report [OF env] safe_supersede [OF env] safe_execution_start [OF env]
      safe_execution_block [OF env] safe_decompose [OF env orch_rg.stable_True] safe_start_plan [OF env]
      safe_terminal [OF env] safe_reconsider [OF env] safe_redispatch_round [OF env] safe_submit_plan [OF env]); assumption?)+)

lemma orch_run_sound: "orch_run s t \<Longrightarrow> orch_ok s \<longrightarrow> orch_ok t \<and> orch_follows s t"
proof (induction rule: orch_run.induct)
  case (none s)
  then show ?case by (simp add: orch_rg.follows_refl)
next
  case (call s t env f)
  then have "orch_steady env" by (simp add: steady_env_def)
  then show ?case using call orch_call_sound [of env f t] orch_rg.follows_trans by blast
qed

lemma orch_run_steady: "(\<And>u. orch_run u (env u)) \<Longrightarrow> orch_steady env"
  using orch_run_sound by (auto simp: steady_env_def)

end
