(* ===== verification/Call_Effects.thy ===== *)
theory Call_Effects
  imports Round_Redispatch
begin

text \<open>
  What a service's call may leave behind, stated for any relation between an earlier and a later
  state that the collaborators outside the store (the world of the ports) cannot break.
\<close>

locale orch_effect = rely_guarantee sound follows
  for sound :: "'w orch \<Rightarrow> bool" and follows :: "'w orch \<Rightarrow> 'w orch \<Rightarrow> bool" +
  assumes world_sound: "sound s \<Longrightarrow> sound (s\<lparr>or_world := w\<rparr>)"
    and world_follows: "follows s (s\<lparr>or_world := w\<rparr>)"
begin

lemma keeps_await:
  assumes "steady_env sound follows env" and "guarantees sound follows (\<lambda>_. True) m (\<lambda>_ _. True)"
    and "\<And>x. guarantees sound follows (\<lambda>_. True) (f x) Q"
  shows "guarantees sound follows (\<lambda>_. True) (await env m f) Q"
  using assms by (intro guarantees_await [OF _ _ stable_True])

lemma keeps_world: "guarantees sound follows (\<lambda>_. True) (on_world p) (\<lambda>_ _. True)"
  using world_follows world_sound by (auto simp: guarantees_def on_world_def split: prod.split)

lemma keeps_get: "guarantees sound follows (\<lambda>_. True) (pget f) (\<lambda>_ _. True)"
  by (rule guarantees_get) simp

lemma keeps_return: "guarantees sound follows (\<lambda>_. True) (preturn x) (\<lambda>_ _. True)"
  by (rule guarantees_return) simp

lemma keeps_lift: "guarantees sound follows (\<lambda>_. True) (plift r) (\<lambda>_ _. True)"
  by (rule guarantees_lift) simp

lemma keeps_deferred:
  "guarantees sound follows (\<lambda>_. True) m (\<lambda>_ _. True) \<Longrightarrow>
     guarantees sound follows (\<lambda>_. True) (unless_deferred m) (\<lambda>_ _. True)"
  unfolding guarantees_def unless_deferred_def by (auto split: prod.splits sum.splits)

lemmas keeps = guarantees_keep guarantees_if guarantees_raise guarantees_option guarantees_prod keeps_await keeps_world
  keeps_get keeps_return keeps_lift

lemma keeps_pmap:
  assumes "\<And>x. x \<in> set xs \<Longrightarrow> guarantees sound follows (\<lambda>_. True) (f x) (\<lambda>_ _. True)"
  shows "guarantees sound follows (\<lambda>_. True) (pmap f xs) (\<lambda>_ _. True)"
  using assms by (induction xs) (auto intro!: keeps)

lemma keeps_required_agent:
  "steady_env sound follows env \<Longrightarrow>
     guarantees sound follows (\<lambda>_. True) (required_agent ports env i) (\<lambda>_ _. True)"
  unfolding required_agent_def by (intro keeps)

lemma keeps_deliver_task:
  assumes env: "steady_env sound follows env"
  shows "guarantees sound follows (\<lambda>_. True) (deliver_task ports sha256 env t key attempt) (\<lambda>_ _. True)"
  unfolding deliver_task_def publish_task_def send_assignment_def
  by (intro keeps keeps_required_agent env)

lemma keeps_redispatch:
  assumes env: "steady_env sound follows env"
    and stored: "\<And>s t. sound s \<Longrightarrow> ts_get (or_tasks s) i = Some t \<Longrightarrow> tk_id t = i"
    and redo: "\<And>t u. tk_id t = i \<Longrightarrow> redo \<Longrightarrow> tk_redo t = Inr u \<Longrightarrow>
      guarantees sound follows (\<lambda>_. True) (on_tasks (ts_update u (tk_version t))) (\<lambda>_ _. True)"
  shows "guarantees sound follows (\<lambda>_. True) (redispatch_task ports sha256 env i attempt redo) (\<lambda>_ _. True)"
proof -
  have found: "guarantees sound follows (\<lambda>_. True) (required_task env i) (\<lambda>t _. tk_id t = i)"
    unfolding required_task_def
  proof (rule guarantees_await [OF env, where R = "\<lambda>found _. \<forall>t. found = Some t \<longrightarrow> tk_id t = i"])
    show "guarantees sound follows (\<lambda>_. True) (pget (\<lambda>s. ts_get (or_tasks s) i)) (\<lambda>found _. \<forall>t. found = Some t \<longrightarrow> tk_id t = i)"
      by (rule guarantees_get) (use stored in blast)
  qed (auto intro!: guarantees_option guarantees_raise guarantees_return stable_pure)
  show ?thesis unfolding redispatch_task_def
  proof (rule guarantees_bind [OF found])
    fix t
    show "guarantees sound follows (\<lambda>_. tk_id t = i)
      (pbind (if tk_status t \<in> final_task_statuses
            then if \<not> redo
              then praise (TaskConflict (''task '' @ uuid_str (tk_id t) @ '' has already finished ('' @
                task_status_value (tk_status t) @ ''); there is nothing to dispatch again''))
              else pbind (plift (tk_redo t)) (\<lambda>reopened.
                await env (on_tasks (ts_update reopened (tk_version t))) (\<lambda>_. preturn reopened))
            else preturn t) (\<lambda>t.
     await env (pget (\<lambda>s. ts_assignment_key (or_tasks s) (tk_id t))) (\<lambda>key.
     case key of
       None \<Rightarrow> praise (TaskConflict (''task '' @ uuid_str (tk_id t) @
         '' has no recorded assignment key, so its task package cannot be republished''))
     | Some k \<Rightarrow> pbind (deliver_task ports sha256 env t k (Some attempt)) (\<lambda>_. plift (tk_to_view t))))) (\<lambda>_ _. True)"
    proof (cases "tk_id t = i")
      case True
      show ?thesis unfolding True [symmetric] HOL.simp_thms
        by (intro keeps keeps_deliver_task env guarantees_compute [where P = "\<lambda>_. True"]) (auto intro: redo simp: True)
    qed (simp add: guarantees_def)
  qed
qed

lemma keeps_report:
  assumes env: "steady_env sound follows env"
    and report: "\<And>t u. reported_task c t = Inr (u, True) \<Longrightarrow>
      guarantees sound follows (\<lambda>_. True) (on_tasks (ts_update u (tk_version t))) (\<lambda>_ _. True)"
  shows "guarantees sound follows (\<lambda>_. True) (report_task ports ending env c key) (\<lambda>_ _. True)"
  unfolding report_task_def required_task_def escalate_exception_def request_validation_def Let_def
  by (intro keeps keeps_required_agent keeps_deferred env guarantees_compute [where P = "\<lambda>_. True"]) (auto intro: report)

end

end
