(* ===== verification/Orchestration_Properties.thy ===== *)
theory Orchestration_Properties
  imports Orchestration_Runs Call_Effects
begin

text \<open>What the task services promise, on every run.\<close>

subsection \<open>A sample organization\<close>

text \<open>
  Organization leader 9, repository leader 5 and worker 7 of repository 3 in project 2. The world
  records the keys of the messages that were sent.
\<close>

definition sample_agent :: "uuid \<Rightarrow> agent_role \<Rightarrow> uuid option \<Rightarrow> agent_principal_view" where
  "sample_agent i role leader =
     \<lparr>apv_id = i, apv_organization_id = 1, apv_role = role, apv_leader_agent_id = leader,
      apv_repository_id = None, apv_responsibility_paths = [''src''], apv_agentteams_resource_name = ''agent'',
      apv_status = AS_ACTIVE\<rparr>"

definition sample_directory :: "uuid \<Rightarrow> agent_principal_view option" where
  "sample_directory i =
     (if i = 9 then Some (sample_agent 9 AR_ORGANIZATION_LEADER None)
      else if i = 5 then Some (sample_agent 5 AR_REPOSITORY_LEADER (Some 9))
      else if i = 7 then Some (sample_agent 7 AR_WORKER (Some 5)) else None)"

definition sample_team_view :: repository_team_view where
  "sample_team_view =
     \<lparr>rtv_id = 20, rtv_project_id = 2, rtv_repository_id = 3, rtv_leader_agent_id = 5,
      rtv_worker_agent_ids = [7], rtv_agentteams_team_name = ''team'', rtv_runtime_status = PR_READY,
      rtv_room_id = Some ''room'', rtv_leader_room_id = Some ''dm'', rtv_decomposition_mode = DM_SERVER\<rparr>"

definition sample_topology_view :: project_agent_topology_view where
  "sample_topology_view =
     \<lparr>ptv_id = 21, ptv_organization_id = 1, ptv_project_id = 2, ptv_organization_leader_id = 9,
      ptv_repository_teams = [sample_team_view], ptv_execution_mode = PX_SUPERVISED,
      ptv_required_checkpoints = {}, ptv_human_grants = [], ptv_operational_status = PO_ACTIVE\<rparr>"

definition sample_ports :: "team_decomposition_mode \<Rightarrow> string list ports" where
  "sample_ports mode =
     \<lparr>pp_agent = (\<lambda>i _. sample_directory i), pp_topology = (\<lambda>_ _. Some sample_topology_view),
      pp_mode = (\<lambda>_ _ _. mode), pp_gate = (\<lambda>_ w. (Inr (permitted ''go''), w)),
      pp_evaluate = (\<lambda>_ w. (Inr (permitted ''go''), w)), pp_send = (\<lambda>_ key w. (Inr (), w @ [key])),
      pp_publish = Some (\<lambda>_ _ _ _ _ w. (Inr \<lparr>ptp_team_name = ''team'', ptp_task_path = ''path'', ptp_content_hash = ''hash''\<rparr>, w)),
      pp_permit = Some (\<lambda>_ _ _ _ w. (Inr (), w)), pp_audit = None, pp_database = None\<rparr>"

definition sample_command :: assign_task_command where
  "sample_command =
     \<lparr>atc_organization_id = 1, atc_project_id = 2, atc_repository_id = 3, atc_assigned_by_agent_id = 9,
      atc_assignee_agent_id = 5, atc_title = ''t'', atc_instruction = ''i'', atc_acceptance = [''a''],
      atc_parent_task_id = None, atc_database_change = no_database_change\<rparr>"

definition plain_hash :: "string \<Rightarrow> string" where
  "plain_hash t = ''h''"

definition sample_new :: "uuid \<Rightarrow> nat \<Rightarrow> uuid" where
  "sample_new i n = i"

lemma sample_texts: "py_strip ''k'' = ''k''" "py_strip ''t'' = ''t''" "py_strip ''i'' = ''i''" "py_strip ''a'' = ''a''"
  by code_simp+

definition sample_leader_task :: task where
  "sample_leader_task =
     \<lparr>tk_organization_id = 1, tk_project_id = 2, tk_repository_id = 3, tk_assigned_by_agent_id = 9,
      tk_assignee_agent_id = 5, tk_title = ''t'', tk_instruction = ''i'', tk_acceptance = [''a''],
      tk_parent_task_id = None, tk_id = 6, tk_status = TS_ASSIGNED, tk_result_summary = None, tk_version = 1,
      tk_origin = TO_PLANNED, tk_database_change = no_database_change\<rparr>"

definition one_task :: "string list orch" where
  "one_task = (no_work [''k:message''])\<lparr>or_tasks :=
     \<lparr>ts_tasks = [(6, sample_leader_task)], ts_idempotency = [(''k'', 6, ''sha256:h'')]\<rparr>\<rparr>"

lemmas sample_orch_defs = sample_agent_def sample_directory_def sample_team_view_def sample_topology_view_def
  sample_ports_def sample_command_def plain_hash_def sample_new_def no_work_def permitted_def sample_texts
  sample_leader_task_def one_task_def

lemmas orch_exec = await_def pwait_def proc_defs reads_def on_tasks_def on_plans_def on_assignments_def
  on_world_def Let_def

lemmas assign_exec = assign_task_def create_task_def authorize_assignment_def authorize_project_def
  authorize_parent_def required_agent_def required_task_def validate_membership_def emit_tasks_planned_def
  announce_def deliver_task_def publish_task_def send_assignment_def dispatch_message_key_def
  ts_get_by_idempotency_key_def ts_add_def assigned_task_def new_task_def tk_post_init_def tk_to_view_def
  parse_evidence_def assign_fingerprint_def

definition assign_sample :: "uuid \<Rightarrow> (string list orch, task_view) proc" where
  "assign_sample i = assign_task (sample_ports DM_SERVER) plain_hash id sample_command ''k'' TO_PLANNED True (sample_new i) 0"

lemma assign_sample_first: "\<exists>v. assign_sample 6 (no_work []) = (Inr v, one_task) \<and> tkv_id v = 6"
  by (simp add: assign_sample_def sample_orch_defs assign_exec orch_exec)

lemma assign_sample_again: "\<exists>v. assign_sample 8 one_task = (Inr v, one_task\<lparr>or_world := [''k:message'', ''k:message'']\<rparr>) \<and> tkv_id v = 6"
  by (simp add: assign_sample_def sample_orch_defs assign_exec orch_exec)

lemma one_task_run: "orch_run (no_work []) one_task"
proof -
  have call: "orch_call id (\<lambda>s. snd (assign_sample 6 s))"
    unfolding assign_sample_def by (rule orch_call.assign)
  have "orch_run (no_work []) (snd (assign_sample 6 (no_work [])))"
    by (rule orch_run.call [OF orch_run.none _ call]) (simp add: orch_run.none)
  then show ?thesis using assign_sample_first by auto
qed

subsection \<open>The task tree\<close>

text \<open>C9: However the calls of the task services run and interleave, every stored task is a well-formed
  task under its own id, was written under an idempotency key, and, if it is a worker's task, hangs
  under a stored task of its own project and repository that was assigned to the very agent who
  assigned the worker's. And whatever runs afterwards, the task stays: its identity, its text, its
  place in the tree and what it was asked never change, a repository task keeps its assignee, and its
  version does not fall.\<close>

theorem task_tree_kept:
  assumes run: "orch_run (no_work w) s" and i: "ts_get (or_tasks s) i = Some t"
  shows "tk_id t = i \<and> tk_inv t \<and> (\<exists>key f. dict_get (ts_idempotency (or_tasks s)) key = Some (i, f)) \<and>
    (\<forall>p. tk_parent_task_id t = Some p \<longrightarrow> (\<exists>q. ts_get (or_tasks s) p = Some q \<and> tk_project_id q = tk_project_id t \<and>
       tk_repository_id q = tk_repository_id t \<and>
       (tk_parent_task_id q = None \<longrightarrow> tk_assignee_agent_id q = tk_assigned_by_agent_id t))) \<and>
    (\<forall>u. orch_run s u \<longrightarrow> (\<exists>t'. ts_get (or_tasks u) i = Some t' \<and> task_frame t t' \<and> tk_version t \<le> tk_version t'))"
proof -
  have ok: "orch_ok s" using orch_run_sound [OF run] by simp
  then have "ts_ok (or_tasks s)" by (simp add: orch_ok_def tasks_ok_def)
  then have id: "tk_id t = i" using i by (rule ts_ok_id)
  have stored: "tk_inv t" "under_parent (or_tasks s) t" "\<exists>key f. dict_get (ts_idempotency (or_tasks s)) key = Some (i, f)"
    using ok i by (auto simp: orch_ok_def tasks_ok_def)
  have later: "\<exists>t'. ts_get (or_tasks u) i = Some t' \<and> task_frame t t' \<and> tk_version t \<le> tk_version t'" if "orch_run s u" for u
    using orch_run_sound [OF that] ok i unfolding orch_follows_def tasks_follow_def task_follows_def by blast
  show ?thesis using id stored later unfolding under_parent_def by blast
qed

theorem task_tree_kept_witness:
  "\<exists>t. ts_get (or_tasks one_task) 6 = Some t \<and> tk_id t = 6 \<and> tk_inv t"
proof -
  have "ts_get (or_tasks one_task) 6 = Some sample_leader_task" by (simp add: sample_orch_defs ts_get_def)
  with task_tree_kept [OF one_task_run this] show ?thesis by blast
qed

subsection \<open>One task per key\<close>

text \<open>C7: An idempotency key names one task. If two assignments under the same key (spaces around it aside)
  both succeed, whatever happened during them and between them, then they asked for the same thing,
  up to the fingerprint of the request, and were answered with the same task.\<close>

theorem one_task_per_key:
  assumes run: "orch_run (no_work w) s" and env: "\<And>u. orch_run u (env u)" and env': "\<And>u. orch_run u (env' u)"
    and first: "assign_task ports sha256 env c key origin deliver new now s = (Inr v, s1)"
    and between: "orch_run s1 s2"
    and second: "assign_task ports' sha256 env' c' key' origin' deliver' new' now' s2 = (Inr v', s3)"
    and key: "py_strip key' = py_strip key"
  shows "tkv_id v' = tkv_id v \<and> sha256 (assign_json c') = sha256 (assign_json c)"
proof -
  have ok: "orch_ok s" using orch_run_sound [OF run] by simp
  note end1 = orch_rg.guarantees_Inr [OF safe_assign [OF orch_run_steady [OF env]] ok TrueI first]
  then have "orch_ok s2" "orch_follows s1 s2" using orch_run_sound [OF between] by auto
  moreover note end2 = orch_rg.guarantees_Inr [OF safe_assign [OF orch_run_steady [OF env']] _ TrueI second]
  ultimately have "orch_ok s3" "orch_follows s1 s3" "bound_key (py_strip key') (tkv_id v') (assign_fingerprint sha256 c') s3"
    using orch_rg.follows_trans by blast+
  moreover from this have "bound_key (py_strip key) (tkv_id v) (assign_fingerprint sha256 c) s3"
    using end1 stable_bound_key unfolding stable_def by blast
  ultimately show ?thesis by (simp add: bound_key_def key assign_fingerprint_def)
qed

theorem one_task_per_key_witness:
  "\<exists>v s. assign_sample 8 one_task = (Inr v, s) \<and> tkv_id v = 6"
proof -
  obtain v where first: "assign_sample 6 (no_work []) = (Inr v, one_task)" and v: "tkv_id v = 6"
    using assign_sample_first by blast
  obtain v' s where second: "assign_sample 8 one_task = (Inr v', s)" using assign_sample_again by blast
  have "tkv_id v' = tkv_id v \<and> plain_hash (assign_json sample_command) = plain_hash (assign_json sample_command)"
    by (rule one_task_per_key [OF orch_run.none _ _ first [unfolded assign_sample_def] orch_run.none
          second [unfolded assign_sample_def] refl]) (simp_all add: orch_run.none)
  then show ?thesis using second v by simp
qed

subsection \<open>What a reported success has shown\<close>

lemma not_blocked:
  "\<not> blocks_success d \<longleftrightarrow> dad_disposition d \<in> {DA_NOT_REQUIRED, DA_REQUEST_VALIDATION} \<or>
     dad_disposition d = DA_MANAGER_REVIEW \<and> dad_reasons d = [''database_impact_not_declared'']"
  by (cases "dad_disposition d") (auto simp: blocks_success_def)

lemma accepted_success:
  assumes "\<not> blocks_success (evaluate_database_automation v)"
  shows "(if dcr_declared (tkv_database_change v) \<and> dcr_required (tkv_database_change v)
      then dad_disposition (evaluate_database_automation v) = DA_REQUEST_VALIDATION
      else filter database_path (case tkv_evidence v of None \<Rightarrow> [] | Some e \<Rightarrow> tev_changed_files e) = [])"
  using assms unfolding not_blocked
  by (auto simp: evaluate_database_automation_def manager_review_def Let_def split: option.splits if_splits)

text \<open>
  What a success has to show: for a task whose manager declared a required database change the evidence
  names a commit, touches declared tables only, has the migration and backfill files that were asked for
  and passed every required check; any other task has no changed file that looks like a migration.
\<close>

definition success_stands :: "task \<Rightarrow> bool" where
  "success_stands t \<longleftrightarrow> (\<exists>v. tk_to_view t = Inr v \<and>
    (let r = tk_database_change t in
     if dcr_declared r \<and> dcr_required r
     then \<exists>e db. tkv_evidence v = Some e \<and> tev_database_change e = Some db \<and> candidate_commit v \<noteq> None \<and>
       set (dce_affected_tables db) \<subseteq> set (dcr_affected_tables r) \<and>
       (dcr_migration_required r \<longrightarrow> dce_migration_files db \<noteq> []) \<and>
       (dcr_backfill_required r \<longrightarrow> dce_backfill_files db \<noteq> []) \<and>
       (\<forall>check \<in> set (dcr_required_checks r). dict_get (check_results db) check = Some 0)
     else \<forall>e. tkv_evidence v = Some e \<longrightarrow> (\<forall>path \<in> set (tev_changed_files e). \<not> database_path path)))"

lemma written_success_stands:
  assumes "reported_task c t = Inr (u, True)" and "tk_status u = TS_SUCCEEDED"
  shows "success_stands u"
proof -
  have c: "rtc_status c = TS_SUCCEEDED"
    using assms by (auto simp: reported_task_def rbind_eq_Inr_iff Let_def tk_report_def split: if_splits)
  obtain v where u: "tk_report TS_SUCCEEDED (rtc_summary c) t = Inr u" and v: "tk_to_view u = Inr v"
    and free: "\<not> blocks_success (evaluate_database_automation v)"
    using assms c by (auto simp: reported_task_def rbind_eq_Inr_iff Let_def split: if_splits)
  have same: "tkv_database_change v = tk_database_change u"
    using v by (auto simp: tk_to_view_def rbind_eq_Inr_iff)
  show ?thesis
  proof (cases "dcr_declared (tk_database_change u) \<and> dcr_required (tk_database_change u)")
    case True
    then have "dad_disposition (evaluate_database_automation v) = DA_REQUEST_VALIDATION"
      using accepted_success [OF free] same by simp
    then show ?thesis
      using True v unfolding validation_requested_iff evidence_reasons_Nil same success_stands_def Let_def by auto
  next
    case False
    then show ?thesis using accepted_success [OF free] same v
      by (auto simp: success_stands_def Let_def filter_empty_conv)
  qed
qed

text \<open>No success is there that was not there before or does not stand.\<close>

definition success_evidenced :: "'w orch \<Rightarrow> 'w orch \<Rightarrow> bool" where
  "success_evidenced s s' \<longleftrightarrow> (\<forall>i u. ts_get (or_tasks s') i = Some u \<longrightarrow> tk_status u = TS_SUCCEEDED \<longrightarrow>
     ts_get (or_tasks s) i = Some u \<or> success_stands u)"

interpretation evidenced: orch_effect "\<lambda>_. True" success_evidenced
  by unfold_locales (auto simp: success_evidenced_def)

lemma evidenced_update:
  assumes "tk_status u = TS_SUCCEEDED \<Longrightarrow> success_stands u"
  shows "guarantees (\<lambda>_. True) success_evidenced (\<lambda>_. True) (on_tasks (ts_update u v)) (\<lambda>_ _. True)"
  using assms
  by (auto simp: guarantees_def success_evidenced_def on_tasks_def ts_update_def ts_get_def split: option.splits if_splits)

text \<open>C8: A call of the task service that reports a worker's result, whatever its outcome, leaves no task
  newly succeeded whose evidence does not stand: for a task whose manager declared a required database
  change the evidence names a commit, touches declared tables only, has the migration and backfill files
  that were asked for and passed every required check; any other task has no changed file that looks like
  a migration. What runs at the call's awaits is only held to the same. (It is about reports made to the
  task service; a result that comes through the Runner is written without this check.)\<close>

theorem reported_success_has_evidence:
  assumes "\<And>s. success_evidenced s (env s)" and "report_task ports ending env c key s = (r, s')"
    and "ts_get (or_tasks s') i = Some u" and "tk_status u = TS_SUCCEEDED" and "ts_get (or_tasks s) i \<noteq> Some u"
  shows "success_stands u"
proof -
  have "steady_env (\<lambda>_. True) success_evidenced env" using assms(1) by (simp add: steady_env_def)
  then have "guarantees (\<lambda>_. True) success_evidenced (\<lambda>_. True) (report_task ports ending env c key) (\<lambda>_ _. True)"
    by (rule evidenced.keeps_report) (rule evidenced_update, rule written_success_stands)
  from evidenced.guarantees_end [OF this TrueI TrueI assms(2)] show ?thesis
    using assms(3-5) by (auto simp: success_evidenced_def)
qed

subsection \<open>Rounds a leader decides\<close>

text \<open>A call on its own: nothing runs at its awaits.\<close>

lemma await_id [simp]: "await id m f = pbind m f"
  by (simp add: await_def pwait_def pbind_def fun_eq_iff split: prod.split sum.split)

lemma pbind_get [simp]: "pbind (pget g) f s = f (g s) s"
  by (simp add: proc_defs)

lemma open_review_run:
  assumes "la_leader_task_id a = tk_id parent" and "las_get (or_assignments s) (tk_id parent) = Some a"
    and "map_result tk_to_view children = Inr views"
  shows "\<exists>r w. open_review ports id parent a children s = (r, s\<lparr>or_assignments := dict_set (tk_id parent)
      (due_assignment a \<lparr>lre_review_revision = la_review_revision a, lre_worker_evidence = map worker_evidence views\<rparr>)
      (or_assignments s), or_world := w\<rparr>) \<and> (\<forall>x. r = Inr x \<longrightarrow> x)"
  using assms
  by (auto simp: open_review_def Let_def plift_def pbind_def on_assignments_def las_save_def las_get_def due_assignment_def
      on_world_def preturn_def split: prod.splits sum.splits)

lemma roll_up_leader_side:
  assumes "av_leader_lane av" and "la_leader_task_id a = tk_id q" and "las_get (or_assignments s) (tk_id q) = Some a"
    and "tk_status q \<notin> final_task_statuses" and children: "ts_list_by_parent (or_tasks s) (tk_id q) = ts" "ts \<noteq> []"
  shows "\<exists>r u. roll_up ports av id q s = (r, u) \<and> (\<forall>x. r = Inr x \<longrightarrow> x = q) \<and>
    or_tasks u = or_tasks s \<and> or_plans u = or_plans s \<and>
    (if la_phase a = LP_EXECUTING \<and> (\<forall>t \<in> set ts. tk_status t \<notin> open_task_statuses)
     then \<forall>views. map_result tk_to_view ts = Inr views \<longrightarrow> las_get (or_assignments u) (tk_id q) = Some (due_assignment a
         \<lparr>lre_review_revision = la_review_revision a, lre_worker_evidence = map worker_evidence views\<rparr>)
     else or_assignments u = or_assignments s)"
proof -
  have step: "roll_up ports av id q s = pbind (open_review_if_leader_side ports av id q ts)
      (\<lambda>leader_side. if leader_side then preturn q
        else pbind (plift (rolled_up ts q)) (\<lambda>u. case u of None \<Rightarrow> preturn q | Some u \<Rightarrow> write_roll_up id q u)) s"
    using assms by (simp add: roll_up_def cong: if_cong)
  have review: "open_review_if_leader_side ports av id q ts s =
      (if la_phase a \<noteq> LP_EXECUTING \<or> (\<exists>t \<in> set ts. tk_status t \<in> open_task_statuses) then (Inr True, s)
       else open_review ports id q a ts s)"
    using assms by (simp add: open_review_if_leader_side_def preturn_def)
  show ?thesis
  proof (cases "la_phase a = LP_EXECUTING \<and> (\<forall>t \<in> set ts. tk_status t \<notin> open_task_statuses)")
    case False
    then show ?thesis unfolding step pbind_def review by (auto simp: preturn_def)
  next
    case True
    show ?thesis
    proof (cases "map_result tk_to_view ts")
      case (Inl e)
      then have "open_review ports id q a ts s = (Inl e, s)" by (simp add: open_review_def plift_def pbind_def)
      then show ?thesis using True Inl unfolding step pbind_def review by auto
    next
      case (Inr views)
      from open_review_run [OF assms(2,3) this, of ports] show ?thesis
        using True Inr unfolding step pbind_def review by (auto simp: preturn_def las_get_def split: sum.splits)
    qed
  qed
qed


text \<open>Worker 7 has finished; leader 5 is to review. \<open>phase\<close> is where its assignment stands.\<close>

definition sample_worker_task :: "task_status \<Rightarrow> task" where
  "sample_worker_task status = sample_leader_task\<lparr>tk_id := 8, tk_assigned_by_agent_id := 5, tk_assignee_agent_id := 7,
     tk_parent_task_id := Some 6, tk_status := status,
     tk_result_summary := (if status = TS_ASSIGNED then None else Some ''a''), tk_version := 2\<rparr>"

definition sample_assignment :: "leader_assignment_phase \<Rightarrow> leader_assignment_view" where
  "sample_assignment phase =
     \<lparr>la_leader_task_id = 6, la_organization_id = 1, la_project_id = 2, la_repository_id = 3,
      la_leader_agent_id = 5, la_phase = phase,
      la_safety_envelope = \<lparr>lse_allowed_path_roots = [''src/**''], lse_test_paths = [], lse_test_commands = []\<rparr>,
      la_worker_roster = [\<lparr>wre_worker_agent_id = 7, wre_worker_name = ''agent'', wre_responsibility_paths = [''src'']\<rparr>],
      la_review_revision = 1,
      la_accepted_plan = Some \<lparr>apl_fingerprint = ''f'', apl_plan_revision = 1, apl_worker_task_ids = [8], apl_decision = JNull\<rparr>,
      la_review_evidence = (if phase = LP_EXECUTING then None
        else Some \<lparr>lre_review_revision = 1, lre_worker_evidence = []\<rparr>), la_accepted_reviews = []\<rparr>"

definition leader_round :: "task \<Rightarrow> task_status \<Rightarrow> leader_assignment_phase \<Rightarrow> string list orch" where
  "leader_round leader_task status phase =
     \<lparr>or_tasks = \<lparr>ts_tasks = [(6, leader_task), (8, sample_worker_task status)],
        ts_idempotency = [(''k'', 6, ''sha256:h''), (''w'', 8, ''sha256:h'')]\<rparr>,
      or_plans = \<lparr>ps_plans = [], ps_idempotency = []\<rparr>, or_assignments = [(6, sample_assignment phase)],
      or_world = []\<rparr>"

lemmas leader_round_defs = leader_round_def sample_worker_task_def sample_assignment_def sample_leader_task_def

lemma sample_task_fields [simp]:
  "tk_id sample_leader_task = 6" "tk_parent_task_id sample_leader_task = None"
  "tk_id (sample_worker_task status) = 8" "tk_parent_task_id (sample_worker_task status) = Some 6"
  "tk_project_id (sample_worker_task status) = tk_project_id sample_leader_task"
  "tk_repository_id (sample_worker_task status) = tk_repository_id sample_leader_task"
  "tk_assigned_by_agent_id (sample_worker_task status) = tk_assignee_agent_id sample_leader_task"
  "tk_status (sample_worker_task status) = status" "la_leader_task_id (sample_assignment phase) = 6"
  "la_phase (sample_assignment phase) = phase"
  by (simp_all add: sample_leader_task_def sample_worker_task_def sample_assignment_def)

lemma sample_tasks_inv: "tk_inv sample_leader_task" "tk_inv (sample_worker_task TS_SUCCEEDED)" "tk_inv (sample_worker_task TS_ASSIGNED)"
  by (simp_all add: sample_leader_task_def sample_worker_task_def tk_inv_def tk_wf_def)

lemma leader_round_ok:
  assumes "status \<in> {TS_ASSIGNED, TS_SUCCEEDED}" and "tk_inv q" and "task_frame sample_leader_task q"
  shows "orch_ok (leader_round q status phase)"
proof -
  let ?s = "or_tasks (leader_round q status phase)"
  have w: "tk_inv (sample_worker_task status)" using assms(1) sample_tasks_inv by auto
  have q: "tk_id q = 6" "tk_parent_task_id q = None" "tk_project_id q = tk_project_id sample_leader_task"
      "tk_repository_id q = tk_repository_id sample_leader_task" "tk_assignee_agent_id q = tk_assignee_agent_id sample_leader_task"
    using assms(3) by (simp_all add: task_frame_def)
  have get: "ts_get ?s i = (if i = 6 then Some q else if i = 8 then Some (sample_worker_task status) else None)" for i
    by (simp add: leader_round_def ts_get_def)
  have keys: "dict_get (ts_idempotency ?s) ''k'' = Some (6, ''sha256:h'')" "dict_get (ts_idempotency ?s) ''w'' = Some (8, ''sha256:h'')"
    by (simp_all add: leader_round_def)
  have "ts_ok ?s" by (auto simp: leader_round_def ts_ok_def q split: if_splits)
  moreover have "tk_inv t \<and> under_parent ?s t \<and> (\<exists>key f. dict_get (ts_idempotency ?s) key = Some (i, f))"
    if "ts_get ?s i = Some t" for i t
  proof (cases "i = 6")
    case True
    then show ?thesis using that assms(2) keys(1) q by (auto simp: get under_parent_def)
  next
    case False
    then have "i = 8" "t = sample_worker_task status" using that by (auto simp: get split: if_splits)
    then show ?thesis using w keys(2) q by (auto simp: get under_parent_def)
  qed
  ultimately have "tasks_ok ?s" unfolding tasks_ok_def by blast
  moreover have "assignments_ok (or_assignments (leader_round q status phase))"
    by (simp add: leader_round_def assignments_ok_def las_get_def la_ok_def) (simp add: sample_assignment_def shows_evidence_def)
  ultimately show ?thesis by (simp add: orch_ok_def) (simp add: leader_round_def plans_ok_def ps_ok_def ps_get_def)
qed

lemma leader_round_executing: "orch_ok (leader_round sample_leader_task TS_SUCCEEDED LP_EXECUTING)"
  by (rule leader_round_ok) (simp_all add: sample_tasks_inv task_frame_def)

definition lane_ports :: "string list advance_ports" where
  "lane_ports = \<lparr>av_completed = None, av_delivery_state = None, av_deliver = None, av_leader_lane = True\<rparr>"


subsection \<open>A worker's report\<close>

definition sample_success :: report_task_command where
  "sample_success = \<lparr>rtc_task_id = 8, rtc_reporter_agent_id = 7, rtc_status = TS_SUCCEEDED, rtc_summary = ''a'',
     rtc_plan_version = 1, rtc_plan_revision_needed = False\<rparr>"

definition reported_worker_task :: task where
  "reported_worker_task = (sample_worker_task TS_ASSIGNED)\<lparr>tk_status := TS_SUCCEEDED, tk_result_summary := Some ''a'',
     tk_version := 3\<rparr>"

definition after_report :: "string list \<Rightarrow> string list orch" where
  "after_report messages = (leader_round sample_leader_task TS_ASSIGNED LP_EXECUTING)\<lparr>or_tasks :=
     (or_tasks (leader_round sample_leader_task TS_ASSIGNED LP_EXECUTING))\<lparr>ts_tasks :=
       [(6, sample_leader_task), (8, reported_worker_task)]\<rparr>, or_world := messages\<rparr>"

lemma sample_reported:
  "\<exists>v messages. report_task (sample_ports DM_LEADER) [] id sample_success ''r''
     (leader_round sample_leader_task TS_ASSIGNED LP_EXECUTING) = (Inr v, after_report messages)"
proof -
  have "json_loads ''a'' = None" by code_simp
  then show ?thesis
    by (simp add: report_task_def sample_success_def after_report_def reported_worker_task_def leader_round_defs orch_exec
        sample_orch_defs assign_exec ts_get_def ts_update_def reported_task_def tk_report_def final_task_statuses_def
        unless_deferred_def escalate_exception_def request_validation_def evaluate_database_automation_def
        no_database_change_def manager_review_def blocks_success_def)
qed

theorem reported_success_has_evidence_witness: "success_stands reported_worker_task"
proof -
  obtain v m where run: "report_task (sample_ports DM_LEADER) [] id sample_success ''r''
      (leader_round sample_leader_task TS_ASSIGNED LP_EXECUTING) = (Inr v, after_report m)"
    using sample_reported by blast
  have "success_evidenced s (id s)" for s :: "string list orch" by (simp add: success_evidenced_def)
  moreover have "ts_get (or_tasks (after_report m)) 8 = Some reported_worker_task" "tk_status reported_worker_task = TS_SUCCEEDED"
      "ts_get (or_tasks (leader_round sample_leader_task TS_ASSIGNED LP_EXECUTING)) 8 = Some (sample_worker_task TS_ASSIGNED)"
    by (simp_all add: ts_get_def leader_round_def after_report_def reported_worker_task_def)
  moreover have "tk_status (sample_worker_task TS_ASSIGNED) \<noteq> tk_status reported_worker_task"
    by (simp add: reported_worker_task_def)
  then have "Some (sample_worker_task TS_ASSIGNED) \<noteq> Some reported_worker_task" by (metis option.inject)
  ultimately show ?thesis using reported_success_has_evidence [OF _ run] by metis
qed

end
