(* ===== verification/Plan_Properties.thy ===== *)
theory Plan_Properties
  imports Orchestration_Properties
begin

text \<open>When a plan moves on, and what it no longer looks at while it does.\<close>

subsection \<open>When a plan moves on\<close>

definition same_place :: "execution_plan \<Rightarrow> execution_plan \<Rightarrow> bool" where
  "same_place p q \<longleftrightarrow> ep_id q = ep_id p \<and> ep_project_id q = ep_project_id p \<and> ep_batches q = ep_batches p \<and>
     ep_current_batch_index q = ep_current_batch_index p \<and> ep_status q = ep_status p"

lemma refuse_same_place:
  "ep_refuse_delivery reason repository_id task_id at' now p = Inr outcome \<Longrightarrow> dro_plan outcome = Some q \<Longrightarrow> same_place p q"
  by (auto simp: ep_refuse_delivery_def Let_def rbind_eq_Inr_iff same_place_def split: option.splits if_splits)

lemma clear_same_place: "ep_clear_delivery_refusal p = Inr (Some q) \<Longrightarrow> same_place p q"
  by (auto simp: ep_clear_delivery_refusal_def rbind_eq_Inr_iff same_place_def split: option.splits if_splits)

lemma settle_alone:
  assumes "settle_plan id p q s = (r, s')"
  shows "or_tasks s' = or_tasks s \<and> or_world s' = or_world s \<and>
    (\<forall>i. ps_get (or_plans s') i = ps_get (or_plans s) i \<or> i = ep_id q \<and> ps_get (or_plans s') i = Some q)"
  using assms
  by (auto simp: settle_plan_def unless_conflict_def on_plans_def ps_update_def ps_get_def pbind_def preturn_def
      split: prod.splits sum.splits option.splits if_splits exc.splits)

lemma succeeded_from_alone:
  "batch_succeeded_from id batch s = (Inr (\<forall>planned \<in> set batch. \<exists>i t. prt_leader_task_id planned = Some i \<and>
     ts_get (or_tasks s) i = Some t \<and> tk_status t = TS_SUCCEEDED), s)"
  by (induction batch) (auto simp: preturn_def split: option.splits)

lemma succeeded_alone:
  "batch_succeeded id p s = (case ep_current_batch p of Inl e \<Rightarrow> (Inl e, s) | Inr batch \<Rightarrow>
     (Inr (\<forall>planned \<in> set batch. \<exists>i t. prt_leader_task_id planned = Some i \<and>
       ts_get (or_tasks s) i = Some t \<and> tk_status t = TS_SUCCEEDED), s))"
  by (simp add: batch_succeeded_def plift_def pbind_def succeeded_from_alone split: sum.split)

lemma gate_alone:
  "delivery_gate av id p s = (case av_delivery_state av of None \<Rightarrow> (Inr True, s)
     | Some states \<Rightarrow> (case ep_current_batch p of Inl e \<Rightarrow> (Inl e, s) | Inr batch \<Rightarrow>
         (Inr (\<forall>planned \<in> set batch. dict_get (dict_update (states (ep_project_id p) (or_world s)) []) (prt_repository_id planned)
            = Some True), s)))"
  by (simp add: delivery_gate_def proc_defs split: option.split sum.split)

lemma deliver_alone:
  assumes "deliver_batch deliver id p now s = (r, s')" and "ps_get (or_plans s) (ep_id p) = Some p"
  shows "or_tasks s' = or_tasks s \<and> or_world s' = snd (deliver (ep_to_view p) (or_world s)) \<and>
    (\<exists>c. ps_get (or_plans s') (ep_id p) = Some c \<and> same_place p c) \<and>
    (\<forall>q. r = Inr (Some q) \<longrightarrow> fst (deliver (ep_to_view p) (or_world s)) = Inr None \<and> same_place p q)"
proof -
  obtain d w where d: "deliver (ep_to_view p) (or_world s) = (d, w)" by fastforce
  define s1 where "s1 = s\<lparr>or_world := w\<rparr>"
  have s1: "or_tasks s1 = or_tasks s" "or_world s1 = w" "ps_get (or_plans s1) (ep_id p) = Some p"
    using assms(2) by (simp_all add: s1_def)
  have settled: "or_tasks u = or_tasks s \<and> or_world u = w \<and> (\<exists>c. ps_get (or_plans u) (ep_id p) = Some c \<and> same_place p c)"
    if "settle_plan id p q s1 = (b, u)" and "same_place p q" for q b u
    using settle_alone [OF that(1)] that(2) s1 by (metis same_place_def)
  have p: "same_place p p" by (simp add: same_place_def)
  have run: "deliver_batch deliver id p now s = (case d of Inl e \<Rightarrow> (Inl e, s1)
      | Inr (Some f) \<Rightarrow> pbind (plift (ep_refuse_delivery (bdr_reason f) (bdr_repository_id f) (bdr_task_id f) None now p))
          (\<lambda>outcome. pbind (case dro_plan outcome of None \<Rightarrow> preturn True | Some q \<Rightarrow> settle_plan id p q) (\<lambda>_. preturn None)) s1
      | Inr None \<Rightarrow> pbind (plift (ep_clear_delivery_refusal p)) (\<lambda>cleared. case cleared of None \<Rightarrow> preturn (Some p)
          | Some q \<Rightarrow> pbind (settle_plan id p q) (\<lambda>done'. preturn (if done' then Some q else None))) s1)"
    by (simp add: deliver_batch_def pbind_def on_world_def d s1_def split: sum.split option.split)
  consider (failed) e where "d = Inl e" | (refused) f where "d = Inr (Some f)" | (through) "d = Inr None"
    by (cases d) (metis not_None_eq)+
  then show ?thesis
  proof cases
    case failed
    then show ?thesis using assms(1) run s1 p d by auto
  next
    case (refused f)
    let ?o = "ep_refuse_delivery (bdr_reason f) (bdr_repository_id f) (bdr_task_id f) None now p"
    have "or_tasks s' = or_tasks s \<and> or_world s' = w \<and> (\<exists>c. ps_get (or_plans s') (ep_id p) = Some c \<and> same_place p c) \<and>
        (\<forall>q. r \<noteq> Inr (Some q))"
    proof (cases ?o)
      case (Inl e)
      then show ?thesis using assms(1) run refused s1 p by (auto simp: proc_defs)
    next
      case (Inr out)
      show ?thesis
      proof (cases "dro_plan out")
        case None
        then show ?thesis using assms(1) run refused s1 p Inr by (auto simp: proc_defs)
      next
        case (Some q)
        obtain b u where u: "settle_plan id p q s1 = (b, u)" by fastforce
        have "r = (case b of Inl e \<Rightarrow> Inl e | Inr _ \<Rightarrow> Inr None) \<and> s' = u"
          using assms(1) run refused Inr Some u by (auto simp: proc_defs split: sum.splits)
        then show ?thesis using settled [OF u refuse_same_place [OF Inr Some]] by (auto split: sum.splits)
      qed
    qed
    then show ?thesis using d by simp
  next
    case through
    have "or_tasks s' = or_tasks s \<and> or_world s' = w \<and> (\<exists>c. ps_get (or_plans s') (ep_id p) = Some c \<and> same_place p c) \<and>
        (\<forall>q. r = Inr (Some q) \<longrightarrow> same_place p q)"
    proof (cases "ep_clear_delivery_refusal p")
      case (Inl e)
      then show ?thesis using assms(1) run through s1 p by (auto simp: proc_defs)
    next
      case (Inr out)
      show ?thesis
      proof (cases out)
        case None
        then show ?thesis using assms(1) run through s1 p Inr by (auto simp: proc_defs)
      next
        case (Some q)
        then have q: "same_place p q" using Inr clear_same_place by simp
        obtain b u where u: "settle_plan id p q s1 = (b, u)" by fastforce
        have "r = (case b of Inl e \<Rightarrow> Inl e | Inr done' \<Rightarrow> Inr (if done' then Some q else None)) \<and> s' = u"
          using assms(1) run through Inr Some u by (auto simp: proc_defs split: sum.splits)
        then show ?thesis using settled [OF u q] q by (auto split: sum.splits if_splits)
      qed
    qed
    then show ?thesis using d through by simp
  qed
qed

lemma move_on_gate:
  assumes run: "move_on ports av sha256 id c fresh now t = (r, s')" and c: "same_place p c" and batch: "ep_current_batch p = Inr batch"
    and t: "ps_get (or_plans t) (ep_id p) = Some d" "same_place p d"
    and q: "ps_get (or_plans s') (ep_id p) = Some q" "\<not> same_place p q" and states: "av_delivery_state av = Some states"
  shows "\<forall>planned \<in> set batch.
    dict_get (dict_update (states (ep_project_id p) (or_world t)) []) (prt_repository_id planned) = Some True"
proof (rule ccontr)
  assume closed: "\<not> ?thesis"
  have "ep_current_batch c = Inr batch" "ep_project_id c = ep_project_id p"
    using c batch by (simp_all add: same_place_def ep_current_batch_def)
  then have "delivery_gate av id c t = (Inr False, t)" using states closed by (simp add: gate_alone)
  then have "s' = t" using run by (simp add: move_on_def pbind_def preturn_def)
  then show False using q t by simp
qed

lemma advance_batch:
  assumes stored: "ps_get (or_plans s) (ep_id p) = Some p"
    and finished: "advance_if_ready ports av sha256 id p fresh now s = (r, s')"
    and q: "ps_get (or_plans s') (ep_id p) = Some q" "\<not> same_place p q"
  shows "\<exists>batch. ep_current_batch p = Inr batch \<and> batch_succeeded id p s = (Inr True, s)"
proof -
  have p: "same_place p p" by (simp add: same_place_def)
  have "s' \<noteq> s" using stored q p by auto
  then show ?thesis using finished
    by (auto simp: advance_if_ready_def pbind_def preturn_def succeeded_alone split: sum.splits if_splits)
qed

text \<open>C5: When nothing else runs at its awaits, a plan moves on, to its next batch or to its end, only when it
  may: every repository of the current batch has its leader's task succeeded, delivery took the batch
  without refusing it, and, when delivery is observed, every repository of the batch was seen merged
  after that.\<close>

theorem plan_moves_on_only_when_merged:
  assumes stored: "ps_get (or_plans s) (ep_id p) = Some p"
    and finished: "advance_if_ready ports av sha256 id p fresh now s = (r, s')"
    and q: "ps_get (or_plans s') (ep_id p) = Some q"
    and moved: "ep_current_batch_index q \<noteq> ep_current_batch_index p \<or> ep_status q \<noteq> ep_status p"
  shows "\<exists>batch. ep_current_batch p = Inr batch \<and>
    (\<forall>planned \<in> set batch. \<exists>i t. prt_leader_task_id planned = Some i \<and> ts_get (or_tasks s) i = Some t \<and>
       tk_status t = TS_SUCCEEDED) \<and>
    (\<forall>deliver. av_deliver av = Some deliver \<longrightarrow> fst (deliver (ep_to_view p) (or_world s)) = Inr None) \<and>
    (\<forall>states. av_delivery_state av = Some states \<longrightarrow> (\<forall>planned \<in> set batch.
       dict_get (dict_update (states (ep_project_id p) (case av_deliver av of None \<Rightarrow> or_world s
         | Some deliver \<Rightarrow> snd (deliver (ep_to_view p) (or_world s)))) []) (prt_repository_id planned) = Some True))"
proof -
  have unmoved: "\<not> same_place p q" using moved by (auto simp: same_place_def)
  have p: "same_place p p" by (simp add: same_place_def)
  obtain batch where batch: "ep_current_batch p = Inr batch" and taken: "batch_succeeded id p s = (Inr True, s)"
    using advance_batch [OF stored finished q unmoved] by blast
  have tasks: "\<forall>planned \<in> set batch. \<exists>i t. prt_leader_task_id planned = Some i \<and>
      ts_get (or_tasks s) i = Some t \<and> tk_status t = TS_SUCCEEDED"
    using taken batch by (simp add: succeeded_alone)
  have run: "(case av_deliver av of None \<Rightarrow> move_on ports av sha256 id p fresh now
      | Some deliver \<Rightarrow> pbind (deliver_batch deliver id p now) (\<lambda>delivered. case delivered of None \<Rightarrow> preturn ()
          | Some q \<Rightarrow> move_on ports av sha256 id q fresh now)) s = (r, s')"
    using finished by (simp add: advance_if_ready_def pbind_def taken)
  note gate = move_on_gate [OF _ _ batch _ _ q unmoved]
  show ?thesis
  proof (cases "av_deliver av")
    case None
    then have "move_on ports av sha256 id p fresh now s = (r, s')" using run by simp
    from gate [OF this p stored p] show ?thesis using batch tasks None by auto
  next
    case (Some deliver)
    obtain b u where u: "deliver_batch deliver id p now s = (b, u)" by fastforce
    note alone = deliver_alone [OF u stored]
    have "s' \<noteq> u" using alone q unmoved by auto
    then obtain c where c: "b = Inr (Some c)" and move: "move_on ports av sha256 id c fresh now u = (r, s')"
      using run Some u by (auto simp: pbind_def preturn_def split: sum.splits option.splits)
    have place: "same_place p c" "fst (deliver (ep_to_view p) (or_world s)) = Inr None" using alone c by auto
    obtain d where d: "ps_get (or_plans u) (ep_id p) = Some d" "same_place p d" using alone by blast
    show ?thesis using gate [OF move place(1) d] alone batch tasks Some place(2) by auto
  qed
qed

definition approved_leader_task :: task where
  "approved_leader_task = sample_leader_task\<lparr>tk_status := TS_SUCCEEDED, tk_result_summary := Some ''a'', tk_version := 2\<rparr>"

definition approved_plan :: execution_plan where
  "approved_plan =
     \<lparr>ep_organization_id = 1, ep_project_id = 2, ep_created_by_agent_id = 9,
      ep_batches = [[\<lparr>prt_repository_id = 3, prt_title = ''t'', prt_instruction = ''i'', prt_acceptance = [''a''],
        prt_leader_task_id = Some 6, prt_tests = [], prt_test_paths = [], prt_depends_on = []\<rparr>]],
      ep_id = 9, ep_current_batch_index = 0, ep_status = EP_IN_PROGRESS, ep_version = 1, ep_delivery_refusal = None\<rparr>"

definition approved_assignment :: leader_assignment_view where
  "approved_assignment = (sample_assignment LP_CLOSED)\<lparr>la_accepted_reviews := [\<lparr>arv_fingerprint = ''f'',
     arv_verdict = leader_review_verdict_value LV_APPROVE, arv_review_revision = 1,
     arv_leader_task_status = task_status_value TS_SUCCEEDED, arv_rework_task_ids = []\<rparr>]\<rparr>"

definition approved_round :: "string list orch" where
  "approved_round = (leader_round approved_leader_task TS_SUCCEEDED LP_CLOSED)\<lparr>or_plans :=
     \<lparr>ps_plans = [(9, approved_plan)], ps_idempotency = [(''p'', 9)]\<rparr>, or_assignments := [(6, approved_assignment)]\<rparr>"

definition delivering_ports :: "string list advance_ports" where
  "delivering_ports = lane_ports\<lparr>av_deliver := Some (\<lambda>_ w. (Inr None, w @ [''delivered'']))\<rparr>"

lemmas advance_exec = advance_if_ready_def batch_succeeded_def ep_current_batch_def py_index_def deliver_batch_def
  ep_clear_delivery_refusal_def move_on_def delivery_gate_def ep_is_last_batch_def ep_complete_def ep_require_in_progress_def
  ep_post_init_def settle_plan_def unless_conflict_def ps_update_def ps_get_def notify_plan_completed_def

lemmas approved_defs = approved_round_def approved_plan_def approved_leader_task_def approved_assignment_def delivering_ports_def lane_ports_def leader_round_defs

lemma advance_approved_round:
  "advance_if_ready (sample_ports DM_LEADER) delivering_ports plain_hash id approved_plan fresh now approved_round =
     (Inr (), approved_round\<lparr>or_plans := \<lparr>ps_plans = [(9, approved_plan\<lparr>ep_status := EP_COMPLETED, ep_version := 2\<rparr>)],
        ps_idempotency = [(''p'', 9)]\<rparr>, or_world := [''delivered'']\<rparr>)"
  by (simp add: approved_defs advance_exec orch_exec ts_get_def)

text \<open>Delivery is observed here: repository 3 counts as merged once the batch is delivered.\<close>

definition observing_ports :: "string list advance_ports" where
  "observing_ports = delivering_ports\<lparr>av_delivery_state := Some (\<lambda>_ w. [(3, ''delivered'' \<in> set w)])\<rparr>"

lemma advance_observed_round:
  "advance_if_ready (sample_ports DM_LEADER) observing_ports plain_hash id approved_plan fresh now approved_round =
     (Inr (), approved_round\<lparr>or_plans := \<lparr>ps_plans = [(9, approved_plan\<lparr>ep_status := EP_COMPLETED, ep_version := 2\<rparr>)],
        ps_idempotency = [(''p'', 9)]\<rparr>, or_world := [''delivered'']\<rparr>)"
  by (simp add: approved_defs observing_ports_def advance_exec orch_exec ts_get_def)

theorem plan_moves_on_only_when_merged_witness:
  "(\<exists>t. ts_get (or_tasks approved_round) 6 = Some t \<and> tk_status t = TS_SUCCEEDED) \<and>
   map (\<lambda>planned. dict_get (dict_update [(3, ''delivered'' \<in> set [''delivered''])] []) (prt_repository_id planned))
     (ep_batches approved_plan ! 0) = [Some True]"
proof -
  have stored: "ps_get (or_plans approved_round) (ep_id approved_plan) = Some approved_plan"
    by (simp add: ps_get_def approved_round_def approved_plan_def)
  let ?q = "approved_plan\<lparr>ep_status := EP_COMPLETED, ep_version := 2\<rparr>"
  have moved: "ps_get (or_plans (approved_round\<lparr>or_plans := \<lparr>ps_plans = [(9, ?q)], ps_idempotency = [(''p'', 9)]\<rparr>,
      or_world := [''delivered'']\<rparr>)) (ep_id approved_plan) = Some ?q"
    by (simp add: ps_get_def approved_plan_def)
  have changed: "ep_current_batch_index ?q \<noteq> ep_current_batch_index approved_plan \<or> ep_status ?q \<noteq> ep_status approved_plan"
    by (simp add: approved_plan_def)
  have "\<exists>batch. ep_current_batch approved_plan = Inr batch \<and>
    (\<forall>planned \<in> set batch. \<exists>i t. prt_leader_task_id planned = Some i \<and> ts_get (or_tasks approved_round) i = Some t \<and>
       tk_status t = TS_SUCCEEDED) \<and>
    (\<forall>planned \<in> set batch. dict_get (dict_update [(3, ''delivered'' \<in> set [''delivered''])] []) (prt_repository_id planned) = Some True)"
    using plan_moves_on_only_when_merged [OF stored advance_observed_round moved changed]
    by (simp add: observing_ports_def delivering_ports_def lane_ports_def approved_round_def leader_round_def)
  then show ?thesis by (simp add: ep_current_batch_def py_index_def approved_plan_def)
qed

subsection \<open>What the plan no longer looks at\<close>

text \<open>
  Undisturbed is needed above. The tasks of the batch are read once, before delivery is awaited, and
  the write of the plan compares only the plan's version: when the batch is the last one and delivery
  takes it, the plan is completed although a re-run has sent the leader's task back to work meanwhile.
\<close>

lemma plan_completes_over_reopened_task:
  assumes plan: "ps_get (or_plans s) (ep_id p) = Some p" and wf: "ep_wf p" "ep_status p = EP_IN_PROGRESS" "ep_delivery_refusal p = None"
    and last_batch: "ep_is_last_batch p" and ready: "batch_succeeded env p s = (Inr True, u)" "or_plans u = or_plans s"
    and deliver: "av_deliver av = Some deliver" "deliver (ep_to_view p) (or_world u) = (Inr None, w)"
    and unobserved: "av_delivery_state av = None" "av_completed av = None"
    and env: "\<And>v. or_plans (env v) = or_plans v" and reopened: "\<And>v. ts_get (or_tasks (env v)) i = Some t"
  shows "\<exists>s' q. advance_if_ready ports av sha256 env p fresh now s = (Inr (), s') \<and>
    ps_get (or_plans s') (ep_id p) = Some q \<and> ep_status q = EP_COMPLETED \<and> ts_get (or_tasks s') i = Some t"
proof -
  let ?q = "p\<lparr>ep_status := EP_COMPLETED, ep_version := ep_version p + 1\<rparr>"
  define u' where "u' = env (u\<lparr>or_world := w\<rparr>)"
  have u': "ps_get (or_plans u') (ep_id p) = Some p" using plan ready(2) env by (simp add: u'_def)
  have complete: "ep_complete p = Inr ?q"
    using wf by (simp add: ep_complete_def ep_require_in_progress_def ep_post_init_def ep_wf_def)
  have delivered: "deliver_batch deliver env p now u = (Inr (Some p), u')"
    using deliver(2) wf(3)
    by (simp add: deliver_batch_def ep_clear_delivery_refusal_def on_world_def await_def pwait_def proc_defs u'_def)
  have settled: "settle_plan env p ?q u' =
      (Inr True, env (u'\<lparr>or_plans := (or_plans u')\<lparr>ps_plans := dict_set (ep_id p) ?q (ps_plans (or_plans u'))\<rparr>\<rparr>))"
    using u' by (simp add: settle_plan_def unless_conflict_def on_plans_def ps_update_def await_def pwait_def proc_defs)
  have "advance_if_ready ports av sha256 env p fresh now s =
      (Inr (), env (u'\<lparr>or_plans := (or_plans u')\<lparr>ps_plans := dict_set (ep_id p) ?q (ps_plans (or_plans u'))\<rparr>\<rparr>))"
    using last_batch unobserved deliver(1)
    by (simp add: advance_if_ready_def pbind_def ready(1) delivered move_on_def delivery_gate_def complete
        settled notify_plan_completed_def plift_def preturn_def)
  then show ?thesis using env reopened by (simp add: ps_get_def)
qed

end
