(* ===== verification/Round_Rerun.thy ===== *)
theory Round_Rerun
  imports Call_Effects Plan_Properties
begin

text \<open>Re-running a round its leader approved: what it resets, and what it leaves settled.\<close>

subsection \<open>Loops on their own\<close>

lemma pmap_reads:
  assumes "\<And>x. f x s = (Inr (g x), s)" shows "pmap f xs s = (Inr (map g xs), s)"
  by (induction xs) (simp_all add: pbind_def preturn_def assms)

lemma pmap_first:
  assumes "pmap f (x # xs) s = (Inr zs, s')"
  shows "\<exists>y ys u. f x s = (Inr y, u) \<and> pmap f xs u = (Inr ys, s')"
  using assms by (auto simp: pbind_def preturn_def split: prod.splits sum.splits)

lemma bind_first:
  "pbind m f s = (Inr x, s') \<Longrightarrow> \<exists>y u. m s = (Inr y, u) \<and> f y u = (Inr x, s')"
  by (auto simp: pbind_def split: prod.splits sum.splits)

lemma bind_step: "m s = (Inr y, u) \<Longrightarrow> pbind m f s = f y u"
  by (simp add: pbind_def)

lemma three_stages:
  "pbind (peach f xs) (\<lambda>_. pbind (pmap g ys) (\<lambda>_. pbind (pmap h zs) (\<lambda>_. preturn r))) s = (Inr x, t) \<Longrightarrow>
     \<exists>as u bs v cs. pmap f xs s = (Inr as, u) \<and> pmap g ys u = (Inr bs, v) \<and> pmap h zs v = (Inr cs, t)"
  by (auto simp: peach_def pbind_def preturn_def split: prod.splits sum.splits)

lemma leader_and_workers_alone:
  "leader_and_workers id k s = (Inr (case ts_get (or_tasks s) k of None \<Rightarrow> []
     | Some t \<Rightarrow> t # ts_list_by_parent (or_tasks s) (tk_id t)), s)"
  by (simp add: leader_and_workers_def preturn_def split: option.split)

lemma review_round_alone:
  "review_round id t s = (Inr (case las_get (or_assignments s) (tk_id t) of None \<Rightarrow> []
     | Some a \<Rightarrow> if la_phase a \<in> {LP_REVIEW_DUE, LP_CLOSED} then [(tk_id t, a)] else []), s)"
  by (simp add: review_round_def preturn_def split: option.split)

lemma first_seen_holds:
  assumes "t \<in> set ts" and "tk_id t \<notin> set seen" and "\<And>u. u \<in> set ts \<Longrightarrow> tk_id u = tk_id t \<Longrightarrow> u = t"
  shows "t \<in> set (first_seen seen ts)"
  using assms
proof (induction ts arbitrary: seen)
  case (Cons u ts)
  show ?case
  proof (cases "tk_id u = tk_id t")
    case True
    then have "u = t" using Cons.prems(3) by simp
    then show ?thesis using Cons.prems(2) by simp
  next
    case False
    then have t: "t \<in> set ts" using Cons.prems(1) by auto
    have "t \<in> set (first_seen seen' ts)" if "tk_id t \<notin> set seen'" for seen'
      using Cons.IH [OF t that] Cons.prems(3) by simp
    then show ?thesis using False Cons.prems(2) by simp
  qed
qed simp

lemma first_seen_in: "u \<in> set (first_seen seen ts) \<Longrightarrow> u \<in> set ts"
  by (induction ts arbitrary: seen) (auto split: if_splits)

lemma listed_stored:
  assumes "orch_ok s" and "t \<in> set (ts_list_by_parent (or_tasks s) p)"
  shows "ts_get (or_tasks s) (tk_id t) = Some t"
proof -
  have d: "distinct (dict_keys (ts_tasks (or_tasks s)))" using assms(1) by (simp add: orch_ok_def tasks_ok_def ts_ok_def)
  obtain k where "(k, t) \<in> set (ts_tasks (or_tasks s))" using assms(2) by (auto simp: ts_list_by_parent_def)
  then have k: "ts_get (or_tasks s) k = Some t" using dict_get_Some_in [OF d] unfolding ts_get_def by blast
  then have "tk_id t = k" using knows_stored [OF assms(1)] by blast
  with k show ?thesis by simp
qed

text \<open>The round's tasks: its leaders and their workers, each as it is stored.\<close>

lemma partition_alone:
  assumes ok: "orch_ok s" and ids: "round_leader_ids p = Inr ids" "i \<in> set ids"
    and leader: "ts_get (or_tasks s) i = Some t" "tk_status t \<in> final_task_statuses"
  shows "\<exists>idle settled. partition_round id p s = (Inr (idle, settled), s) \<and> t \<in> set settled \<and>
    (\<forall>u \<in> set idle \<union> set settled. ts_get (or_tasks s) (tk_id u) = Some u)"
proof -
  define g where "g k = (case ts_get (or_tasks s) k of None \<Rightarrow> []
     | Some t \<Rightarrow> t # ts_list_by_parent (or_tasks s) (tk_id t))" for k
  let ?all = "concat (map g ids)" and ?tasks = "first_seen [] (concat (map g ids))"
  have found: "pmap (leader_and_workers id) ids s = (Inr (map g ids), s)"
    by (rule pmap_reads) (simp add: leader_and_workers_alone g_def)
  have stored: "ts_get (or_tasks s) (tk_id u) = Some u" if "u \<in> set ?all" for u
    using that listed_stored [OF ok] knows_stored [OF ok] by (auto simp: g_def split: option.splits)
  have "t \<in> set (g i)" using leader(1) by (simp add: g_def)
  then have t: "t \<in> set ?all" using ids(2) by auto
  have seen: "t \<in> set ?tasks"
    using t
  proof (rule first_seen_holds)
    show "u = t" if "u \<in> set ?all" "tk_id u = tk_id t" for u
      using stored [OF that(1), unfolded that(2)] stored [OF t] by (metis option.inject)
  qed simp
  have run: "partition_round id p s = (Inr (filter (\<lambda>t. tk_status t \<notin> final_task_statuses) ?tasks,
      filter (\<lambda>t. tk_status t \<in> final_task_statuses) ?tasks), s)"
    by (simp only: partition_round_def ids(1) plift_def pbind_def found preturn_def Let_def sum.case prod.case)
  show ?thesis
  proof (intro exI conjI ballI)
    show "partition_round id p s = (Inr (filter (\<lambda>t. tk_status t \<notin> final_task_statuses) ?tasks,
      filter (\<lambda>t. tk_status t \<in> final_task_statuses) ?tasks), s)" by (rule run)
    show "t \<in> set (filter (\<lambda>t. tk_status t \<in> final_task_statuses) ?tasks)" using seen leader(2) by simp
    fix u assume "u \<in> set (filter (\<lambda>t. tk_status t \<notin> final_task_statuses) ?tasks) \<union>
      set (filter (\<lambda>t. tk_status t \<in> final_task_statuses) ?tasks)"
    then have "u \<in> set ?tasks" by auto
    then show "ts_get (or_tasks s) (tk_id u) = Some u" using stored first_seen_in by blast
  qed
qed

lemma saves_alone:
  assumes "pmap (\<lambda>a. pbind (on_assignments (las_save (fresh_review_round a))) (\<lambda>_. preturn ())) bs s = (Inr xs, s')"
    and "\<And>b. b \<in> set bs \<Longrightarrow> la_leader_task_id b = i \<Longrightarrow> b = a"
  shows "or_tasks s' = or_tasks s \<and> las_get (or_assignments s') i =
    (if \<exists>b \<in> set bs. la_leader_task_id b = i then Some (fresh_review_round a) else las_get (or_assignments s) i)"
  using assms
proof (induction bs arbitrary: s xs)
  case Nil
  then show ?case by (simp add: preturn_def)
next
  case (Cons b bs)
  obtain y ys u where "pbind (on_assignments (las_save (fresh_review_round b))) (\<lambda>_. preturn ()) s = (Inr y, u)"
    and rest: "pmap (\<lambda>a. pbind (on_assignments (las_save (fresh_review_round a))) (\<lambda>_. preturn ())) bs u = (Inr ys, s')"
    using pmap_first [OF Cons.prems(1)] by blast
  then have u: "on_assignments (las_save (fresh_review_round b)) s = (Inr (), u)"
    by (auto simp: pbind_def preturn_def split: prod.splits sum.splits)
  have "or_tasks u = or_tasks s" "las_get (or_assignments u) i =
      (if la_leader_task_id b = i then Some (fresh_review_round b) else las_get (or_assignments s) i)"
    using u by (auto simp: on_assignments_def las_save_def las_get_def fresh_review_round_def split: prod.splits if_splits)
  then show ?case using Cons.IH [OF rest] Cons.prems(2) by auto
qed

subsection \<open>The leader's row while others are dispatched\<close>

definition keyed_tasks :: "'w orch \<Rightarrow> bool" where
  "keyed_tasks s \<longleftrightarrow> (\<forall>i t. ts_get (or_tasks s) i = Some t \<longrightarrow> tk_id t = i)"

definition leaves_alone :: "uuid \<Rightarrow> 'w orch \<Rightarrow> 'w orch \<Rightarrow> bool" where
  "leaves_alone i s s' \<longleftrightarrow> ts_get (or_tasks s') i = ts_get (or_tasks s) i \<and> or_assignments s' = or_assignments s"

interpretation alone: orch_effect keyed_tasks "leaves_alone i" for i
  by unfold_locales (auto simp: keyed_tasks_def leaves_alone_def)

lemma alone_update:
  assumes "tk_id u \<noteq> i"
  shows "guarantees keyed_tasks (leaves_alone i) (\<lambda>_. True) (on_tasks (ts_update u v)) (\<lambda>_ _. True)"
  using assms
  by (auto simp: guarantees_def keyed_tasks_def leaves_alone_def on_tasks_def ts_update_def ts_get_def split: option.splits)

subsection \<open>The round after a re-run\<close>

lemma alone_redispatch:
  assumes "\<And>t. t \<in> set ts \<Longrightarrow> tk_id t \<noteq> i"
  shows "guarantees keyed_tasks (leaves_alone i) (\<lambda>_. True)
    (pmap (\<lambda>t. redispatch_task ports sha256 id (tk_id t) token redo) ts) (\<lambda>_ _. True)"
proof (rule alone.keeps_pmap, rule alone.keeps_redispatch)
  show "steady_env keyed_tasks (leaves_alone i) id"
    by (simp add: steady_env_def alone.follows_refl)
  fix x t u assume "x \<in> set ts" "tk_id t = tk_id x" "tk_redo t = Inr u"
  then have "tk_id u = tk_id x" by (auto simp: tk_redo_def tk_post_init_def Let_def split: if_splits)
  then have "tk_id u \<noteq> i" using assms \<open>x \<in> set ts\<close> by simp
  then show "guarantees keyed_tasks (leaves_alone i) (\<lambda>_. True) (on_tasks (ts_update u (tk_version t))) (\<lambda>_ _. True)"
    by (rule alone_update)
qed (simp add: keyed_tasks_def)


subsection \<open>A sample\<close>

text \<open>The round of leader 5 and worker 7 that the leader approved, run again; then worker 7 succeeds.\<close>

definition rerun_worker_task :: task where
  "rerun_worker_task = (sample_worker_task TS_SUCCEEDED)\<lparr>tk_status := TS_ASSIGNED, tk_result_summary := None, tk_version := 3\<rparr>"

definition rerun_round :: "task \<Rightarrow> string list \<Rightarrow> string list orch" where
  "rerun_round worker_task messages = approved_round\<lparr>or_tasks := (or_tasks approved_round)\<lparr>ts_tasks :=
       [(6, approved_leader_task), (8, worker_task)]\<rparr>,
     or_assignments := [(6, fresh_review_round approved_assignment)], or_world := messages\<rparr>"

lemmas redispatch_exec = redispatch_round_def partition_round_def round_leader_ids_def ep_leader_task_ids_def
  leader_and_workers_def review_round_def redoable_tasks_def dispatch_round_def peach_def las_save_def las_get_def
  redispatch_task_def tk_redo_def redoable_task_statuses_def final_task_statuses_def ts_list_by_parent_def
  ts_assignment_key_def ts_update_def ts_get_def

lemma rerun_approved:
  "\<exists>receipt messages. redispatch_round (sample_ports DM_LEADER) plain_hash True id 9 ''a'' RS_RERUN approved_round =
     (Inr receipt, rerun_round rerun_worker_task messages) \<and> rds_reopened_task_ids receipt = [8]"
  by (simp add: approved_defs rerun_round_def rerun_worker_task_def redispatch_exec orch_exec sample_orch_defs assign_exec
      ps_get_def py_index_def List.map_filter_simps attempt_token_def digest_def
      idempotency_key_limit_def attempt_token_chars_def fresh_review_round_def team_room_def worker_team_def)

definition rerun_report :: report_task_command where
  "rerun_report = \<lparr>rtc_task_id = 8, rtc_reporter_agent_id = 7, rtc_status = TS_SUCCEEDED, rtc_summary = ''a'',
     rtc_plan_version = 1, rtc_plan_revision_needed = False\<rparr>"

definition rerun_succeeded_task :: task where
  "rerun_succeeded_task = rerun_worker_task\<lparr>tk_status := TS_SUCCEEDED, tk_result_summary := Some ''a'', tk_version := 4\<rparr>"

lemma rerun_reports:
  "\<exists>v messages'. report_task (sample_ports DM_LEADER) [] id rerun_report ''r'' (rerun_round rerun_worker_task messages) =
     (Inr v, rerun_round rerun_succeeded_task messages')"
proof -
  have "json_loads ''a'' = None" by code_simp
  then show ?thesis
    by (simp add: report_task_def rerun_report_def rerun_succeeded_task_def rerun_round_def rerun_worker_task_def approved_defs
        orch_exec sample_orch_defs assign_exec ts_get_def ts_update_def reported_task_def tk_report_def final_task_statuses_def
        unless_deferred_def escalate_exception_def request_validation_def evaluate_database_automation_def
        no_database_change_def manager_review_def blocks_success_def)
qed

lemma approved_round_ok: "orch_ok approved_round"
proof -
  have "orch_ok (leader_round approved_leader_task TS_SUCCEEDED LP_CLOSED)"
    by (rule leader_round_ok)
      (simp_all add: approved_leader_task_def task_frame_def tk_inv_def tk_wf_def sample_leader_task_def)
  moreover have "plans_ok (or_plans approved_round)"
    by (auto simp: approved_round_def approved_plan_def plans_ok_def ps_ok_def ps_get_def ep_wf_def split: if_splits)
  moreover have "assignments_ok (or_assignments approved_round)"
    by (simp add: approved_round_def approved_assignment_def assignments_ok_def las_get_def la_ok_def)
      (simp add: sample_assignment_def shows_evidence_def)
  ultimately show ?thesis by (simp add: orch_ok_def approved_round_def)
qed


end
