(* ===== verification/Dispatch_Order.thy ===== *)
theory Dispatch_Order
  imports Orchestration_Properties
begin

text \<open>
  The row, the permit, then the room: the plan's operations do not tell a worker of a task whose permit
  is not written yet. A room that refuses to pass on a message about a task without a permit changes nothing.
\<close>

subsection \<open>Two calls that agree\<close>

definition agree :: "('s \<Rightarrow> bool) \<Rightarrow> ('s, 'a) proc \<Rightarrow> ('s, 'a) proc \<Rightarrow> ('a \<Rightarrow> 's \<Rightarrow> bool) \<Rightarrow> bool" where
  "agree P m n Q \<longleftrightarrow> (\<forall>s. P s \<longrightarrow> m s = n s \<and> (\<forall>x. fst (n s) = Inr x \<longrightarrow> Q x (snd (n s))))"

lemma agree_same: "agree P m n Q \<Longrightarrow> P s \<Longrightarrow> m s = n s"
  by (simp add: agree_def)

lemma agree_bind: "agree P m n R \<Longrightarrow> (\<And>x. agree (R x) (f x) (g x) Q) \<Longrightarrow> agree P (pbind m f) (pbind n g) Q"
  unfolding agree_def pbind_def by (fastforce split: prod.splits sum.splits)

lemma agree_conseq: "agree P m n Q \<Longrightarrow> (\<And>s. P' s \<Longrightarrow> P s) \<Longrightarrow> (\<And>x s. Q x s \<Longrightarrow> Q' x s) \<Longrightarrow> agree P' m n Q'"
  by (auto simp: agree_def)

lemma agree_pure: "(c \<Longrightarrow> agree P m n Q) \<Longrightarrow> agree (\<lambda>s. c \<and> P s) m n Q"
  by (auto simp: agree_def)

lemma agree_praise: "agree P (praise e) (praise e) Q"
  by (simp add: agree_def praise_def)

lemma agree_return: "(\<And>s. P s \<Longrightarrow> Q x s) \<Longrightarrow> agree P (preturn x) (preturn x) Q"
  by (simp add: agree_def preturn_def)

lemma agree_option:
  "(found = None \<Longrightarrow> agree P m n Q) \<Longrightarrow> (\<And>x. found = Some x \<Longrightarrow> agree P (f x) (g x) Q) \<Longrightarrow>
     agree P (case found of None \<Rightarrow> m | Some x \<Rightarrow> f x) (case found of None \<Rightarrow> n | Some x \<Rightarrow> g x) Q"
  by (cases found) simp_all

lemma agree_pmap:
  assumes "\<And>x. x \<in> set xs \<Longrightarrow> agree P (f x) (g x) (\<lambda>_. P)" shows "agree P (pmap f xs) (pmap g xs) (\<lambda>_. P)"
  using assms
proof (induction xs)
  case Nil
  show ?case by (auto intro: agree_return)
next
  case (Cons x xs)
  then show ?case by (auto intro!: agree_bind [where R = "\<lambda>_. P"] agree_return)
qed

text \<open>A call agrees with itself, and has what it guarantees.\<close>

lemma agree_safe: "orch_safe P m Q \<Longrightarrow> agree (\<lambda>s. orch_ok s \<and> P s) m m (\<lambda>x s. orch_ok s \<and> Q x s)"
  by (auto simp: agree_def guarantees_def)

subsection \<open>A room that asks for permits\<close>

definition guarded_room :: "(uuid \<Rightarrow> 'w \<Rightarrow> bool) \<Rightarrow> 'w ports \<Rightarrow> 'w ports" where
  "guarded_room permitted' ports = ports\<lparr>pp_send := (\<lambda>c key w.
     if \<forall>i. smc_task_id c = Some i \<longrightarrow> permitted' i w then pp_send ports c key w
     else (Inl (runtime_error ''the room was told before the permit was written''), w))\<rparr>"

lemma guarded_ports [simp]:
  "pp_agent (guarded_room p ports) = pp_agent ports" "pp_topology (guarded_room p ports) = pp_topology ports"
  "pp_mode (guarded_room p ports) = pp_mode ports" "pp_gate (guarded_room p ports) = pp_gate ports"
  "pp_publish (guarded_room p ports) = pp_publish ports" "pp_permit (guarded_room p ports) = pp_permit ports"
  "pp_audit (guarded_room p ports) = pp_audit ports"
  by (simp_all add: guarded_room_def)

lemma guarded_quiet [simp]:
  "required_agent (guarded_room p ports) = required_agent ports"
  "authorize_assignment (guarded_room p ports) = authorize_assignment ports"
  "emit_tasks_planned (guarded_room p ports) = emit_tasks_planned ports"
  "publish_task (guarded_room p ports) = publish_task ports"
  "active_agent (guarded_room p ports) = active_agent ports"
  "author_permit (guarded_room p ports) = author_permit ports"
  "ensure_specification (guarded_room p ports) = ensure_specification ports"
  "repository_team (guarded_room p ports) = repository_team ports"
  "heal_children (guarded_room p ports) = heal_children ports"
  "resolve_assignment (guarded_room p ports) = resolve_assignment ports"
  unfolding fun_eq_iff required_agent_def authorize_assignment_def authorize_project_def emit_tasks_planned_def
    publish_task_def active_agent_def author_permit_def ensure_specification_def repository_team_def heal_children_def
    resolve_assignment_def guarded_ports
  by simp_all

lemma guarded_assign [simp]:
  "assign_task (guarded_room p ports) sha256 env c key origin False new now = assign_task ports sha256 env c key origin False new now"
  unfolding assign_task_def create_task_def announce_def guarded_quiet if_False by (rule refl)

text \<open>
  What the order rests on: writing a permit makes the task permitted, and a permit stays, whatever
  the publication of the package, the room and the other calls do.
\<close>

definition permits_stay :: "(uuid \<Rightarrow> 'w \<Rightarrow> bool) \<Rightarrow> 'w ports \<Rightarrow> ('w orch \<Rightarrow> 'w orch) \<Rightarrow> bool" where
  "permits_stay permitted' ports env \<longleftrightarrow>
     (\<forall>i s. permitted' i (or_world s) \<longrightarrow> permitted' i (or_world (env s))) \<and>
     (\<forall>publish v team room worker key i w. pp_publish ports = Some publish \<longrightarrow> permitted' i w \<longrightarrow>
        permitted' i (snd (publish v team room worker key w))) \<and>
     (\<exists>permit. pp_permit ports = Some permit \<and>
        (\<forall>v paths tests key w w'. permit v paths tests key w = (Inr (), w') \<longrightarrow> permitted' (tkv_id v) w'))"

lemma agree_await:
  assumes "agree P m n R" and "\<And>x s. R x s \<Longrightarrow> S x (env s)" and "\<And>x. agree (S x) (f x) (g x) Q"
  shows "agree P (await env m f) (await env n g) Q"
proof -
  have "agree (R x) (pwait env) (pwait env) (\<lambda>_. S x)" for x
    using assms(2) by (simp add: agree_def pwait_def)
  then have "agree (R x) (pbind (pwait env) (\<lambda>_. f x)) (pbind (pwait env) (\<lambda>_. g x)) Q" for x
    by (rule agree_bind) (rule assms(3))
  then show ?thesis unfolding await_def by (rule agree_bind [OF assms(1)])
qed

lemma agree_get: "(\<And>s. P s \<Longrightarrow> R (h s) s) \<Longrightarrow> agree P (pget h) (pget h) R"
  by (simp add: agree_def pget_def)

lemma agree_if: "(c \<Longrightarrow> agree P m n Q) \<Longrightarrow> (\<not> c \<Longrightarrow> agree P m' n' Q) \<Longrightarrow> agree P (if c then m else m') (if c then n else n') Q"
  by simp

lemma agree_compute: "(\<And>x. r = Inr x \<Longrightarrow> agree P (f x) (g x) Q) \<Longrightarrow> agree P (pbind (plift r) f) (pbind (plift r) g) Q"
  by (cases r) (auto simp: agree_def proc_defs)

subsection \<open>Telling the room of a permitted task\<close>

definition permitted_task :: "(uuid \<Rightarrow> 'w \<Rightarrow> bool) \<Rightarrow> uuid \<Rightarrow> 'w orch \<Rightarrow> bool" where
  "permitted_task permitted' i s \<longleftrightarrow> orch_ok s \<and> permitted' i (or_world s)"

lemma permitted_env:
  "permits_stay p ports env \<Longrightarrow> orch_steady env \<Longrightarrow> permitted_task p i s \<Longrightarrow> permitted_task p i (env s)"
  by (auto simp: permits_stay_def permitted_task_def steady_env_def)

lemma agree_ask:
  assumes "permits_stay p ports env" and "orch_steady env" and "\<And>x. agree (permitted_task p i) (f x) (g x) Q"
  shows "agree (permitted_task p i) (await env (pget h) f) (await env (pget h) g) Q"
  by (rule agree_await [where R = "\<lambda>_. permitted_task p i" and S = "\<lambda>_. permitted_task p i", OF agree_get _ assms(3)])
    (auto intro: permitted_env [OF assms(1,2)])

lemma agree_send:
  assumes "tk_id t = i"
  shows "agree (permitted_task p i) (send_assignment (guarded_room p ports) sha256 env t key published attempt)
    (send_assignment ports sha256 env t key published attempt) (\<lambda>_ _. True)"
  unfolding agree_def
proof (intro allI impI conjI TrueI)
  fix s assume s: "permitted_task p i s"
  have "smc_task_id (assignment_message t published) = Some i" using assms by (simp add: assignment_message_def)
  then have "pp_send (guarded_room p ports) (assignment_message t published) k (or_world s) =
      pp_send ports (assignment_message t published) k (or_world s)" for k
    using s by (simp add: guarded_room_def permitted_task_def)
  then show "send_assignment (guarded_room p ports) sha256 env t key published attempt s =
      send_assignment ports sha256 env t key published attempt s"
    by (simp add: send_assignment_def await_def pbind_def on_world_def)
qed

lemma agree_publish:
  assumes stay: "permits_stay p ports env" and env: "orch_steady env"
  shows "agree (permitted_task p i) (publish_task ports env t key assignee) (publish_task ports env t key assignee)
    (\<lambda>_. permitted_task p i)"
  unfolding publish_task_def
proof (intro agree_option agree_praise agree_ask [OF stay env] agree_compute)
  fix publish topology and team_room' :: "repository_team_view \<times> string"
  assume publish: "pp_publish ports = Some publish"
  have world: "agree (permitted_task p i) (on_world (publish view name room worker k)) (on_world (publish view name room worker k))
      (\<lambda>_. permitted_task p i)" for view name room worker k
  proof -
    have "p i w \<Longrightarrow> publish view name room worker k w = (r, w') \<Longrightarrow> p i w'" for w r w'
      using stay publish unfolding permits_stay_def by (metis snd_conv)
    then show ?thesis by (auto simp: agree_def on_world_def permitted_task_def split: prod.splits)
  qed
  show "agree (permitted_task p i)
     (case team_room' of (team, room_id) \<Rightarrow> pbind (plift (tk_to_view t)) (\<lambda>view.
        await env (on_world (publish view (rtv_agentteams_team_name team) room_id (apv_agentteams_resource_name assignee) (key @ '':publication'')))
          (\<lambda>published. preturn (Some published))))
     (case team_room' of (team, room_id) \<Rightarrow> pbind (plift (tk_to_view t)) (\<lambda>view.
        await env (on_world (publish view (rtv_agentteams_team_name team) room_id (apv_agentteams_resource_name assignee) (key @ '':publication'')))
          (\<lambda>published. preturn (Some published)))) (\<lambda>_. permitted_task p i)"
    by (cases team_room', simp only: prod.case)
      (intro agree_compute agree_await [OF world, where S = "\<lambda>_. permitted_task p i"] permitted_env [OF stay env] agree_return)
qed

lemma agree_deliver:
  assumes stay: "permits_stay p ports env" and env: "orch_steady env"
  shows "agree (permitted_task p i) (deliver_assignment (guarded_room p ports) sha256 env i)
    (deliver_assignment ports sha256 env i) (\<lambda>_ _. True)"
proof -
  let ?P = "permitted_task p i"
  have agent: "agree ?P (required_agent ports env j) (required_agent ports env j) (\<lambda>_. ?P)" for j
    unfolding required_agent_def by (intro agree_ask [OF stay env] agree_option agree_if agree_praise agree_return)
  have deliver: "agree ?P (deliver_task (guarded_room p ports) sha256 env t k attempt) (deliver_task ports sha256 env t k attempt)
      (\<lambda>_ _. True)" if "tk_id t = i" for t k attempt
    unfolding deliver_task_def guarded_quiet
    by (intro agree_bind [OF agent] agree_bind [where R = "\<lambda>_. ?P"] agree_if agree_publish [OF stay env] agree_return
        agree_send [OF that])
  have found: "agree ?P (pget (\<lambda>s. ts_get (or_tasks s) i)) (pget (\<lambda>s. ts_get (or_tasks s) i))
      (\<lambda>found s. (\<forall>t. found = Some t \<longrightarrow> tk_id t = i) \<and> ?P s)"
    by (rule agree_get) (auto simp: permitted_task_def dest: knows_stored)
  have task: "agree ?P (required_task env i) (required_task env i) (\<lambda>t s. tk_id t = i \<and> ?P s)"
    unfolding required_task_def
  proof (rule agree_await [OF found, where S = "\<lambda>found s. (\<forall>t. found = Some t \<longrightarrow> tk_id t = i) \<and> ?P s"])
    show "agree (\<lambda>s. (\<forall>t. found = Some t \<longrightarrow> tk_id t = i) \<and> ?P s)
        (case found of None \<Rightarrow> praise (TaskNotFound (''task does not exist: '' @ uuid_str i)) | Some t \<Rightarrow> preturn t)
        (case found of None \<Rightarrow> praise (TaskNotFound (''task does not exist: '' @ uuid_str i)) | Some t \<Rightarrow> preturn t)
        (\<lambda>t s. tk_id t = i \<and> ?P s)" for found
      by (cases found) (auto intro: agree_praise agree_return)
  qed (auto intro: permitted_env [OF stay env])
  show ?thesis unfolding deliver_assignment_def
    by (rule agree_bind [OF task], rule agree_pure, rule agree_ask [OF stay env], rule agree_option [OF agree_praise deliver])
qed

lemma agree_ok:
  assumes "orch_safe (\<lambda>_. True) m (\<lambda>_ _. True)" shows "agree orch_ok m m (\<lambda>_. orch_ok)"
  by (rule agree_conseq [OF agree_safe [OF assms]]) auto

text \<open>Once the permit is written, the task is permitted.\<close>

lemma agree_permit:
  assumes stay: "permits_stay p ports env" and env: "orch_steady env" and permit: "pp_permit ports = Some permit"
  shows "agree orch_ok
     (pbind (active_agent ports env refusal (tkv_assignee_agent_id v)) (\<lambda>worker. await env (on_world (permit v (paths worker) tests key)) (\<lambda>_. preturn ())))
     (pbind (active_agent ports env refusal (tkv_assignee_agent_id v)) (\<lambda>worker. await env (on_world (permit v (paths worker) tests key)) (\<lambda>_. preturn ())))
     (\<lambda>_. permitted_task p (tkv_id v))"
proof (rule agree_bind [OF agree_ok])
  show "orch_safe (\<lambda>_. True) (active_agent ports env refusal (tkv_assignee_agent_id v)) (\<lambda>_ _. True)"
    by (rule safe_active_agent [OF env orch_rg.stable_True])
  have "p (tkv_id v) w'" if "permit v paths' tests key w = (Inr (), w')" for paths' w w'
    using stay permit that by (auto simp: permits_stay_def)
  then have "agree orch_ok (on_world (permit v (paths worker) tests key)) (on_world (permit v (paths worker) tests key))
      (\<lambda>_. permitted_task p (tkv_id v))" for worker
    by (auto simp: agree_def on_world_def permitted_task_def split: prod.splits)
  then show "agree orch_ok (await env (on_world (permit v (paths worker) tests key)) (\<lambda>_. preturn ()))
     (await env (on_world (permit v (paths worker) tests key)) (\<lambda>_. preturn ())) (\<lambda>_. permitted_task p (tkv_id v))" for worker
    by (rule agree_await [where S = "\<lambda>_. permitted_task p (tkv_id v)"])
      (auto intro: permitted_env [OF stay env] agree_return)
qed

lemma agree_dispatch_permitted:
  assumes stay: "permits_stay p ports env" and env: "orch_steady env"
  shows "agree orch_ok (dispatch_permitted (guarded_room p ports) sha256 env c key origin paths tests fresh now)
    (dispatch_permitted ports sha256 env c key origin paths tests fresh now) (\<lambda>_ _. True)"
proof -
  obtain permit where permit: "pp_permit ports = Some permit" using stay by (auto simp: permits_stay_def)
  show ?thesis
    unfolding dispatch_permitted_def guarded_assign guarded_quiet author_permit_def permit option.case
    by (intro agree_bind [OF agree_ok [OF safe_assign_keep [OF env orch_rg.stable_True]]]
        agree_bind [OF agree_permit [OF stay env permit]] agree_bind [OF agree_deliver [OF stay env]] agree_return TrueI)
qed

lemma agree_dispatch_child:
  assumes stay: "permits_stay p ports env" and env: "orch_steady env"
  shows "agree orch_ok (dispatch_child (guarded_room p ports) sha256 env t w key wkey tests paths fresh now)
    (dispatch_child ports sha256 env t w key wkey tests paths fresh now) (\<lambda>_ _. True)"
proof -
  obtain permit where permit: "pp_permit ports = Some permit" using stay by (auto simp: permits_stay_def)
  show ?thesis
    unfolding dispatch_child_def guarded_assign guarded_quiet ensure_specification_def permit option.case
    by (intro agree_bind [OF agree_ok [OF safe_assign_keep [OF env orch_rg.stable_True]]]
        agree_bind [OF agree_permit [OF stay env permit]] agree_bind [OF agree_deliver [OF stay env]] agree_return TrueI)
qed

lemma agree_steps:
  assumes env: "orch_steady env"
  shows "agree orch_ok (required_task env i) (required_task env i) (\<lambda>_. orch_ok)"
    "agree orch_ok (active_agent ports env refusal i) (active_agent ports env refusal i) (\<lambda>_. orch_ok)"
    "agree orch_ok (repository_team ports env i j) (repository_team ports env i j) (\<lambda>_. orch_ok)"
    "agree orch_ok (heal_children ports env children key tests paths) (heal_children ports env children key tests paths) (\<lambda>_ _. True)"
proof -
  note True = orch_rg.stable_True
  show "agree orch_ok (required_task env i) (required_task env i) (\<lambda>_. orch_ok)"
    "agree orch_ok (active_agent ports env refusal i) (active_agent ports env refusal i) (\<lambda>_. orch_ok)"
    "agree orch_ok (repository_team ports env i j) (repository_team ports env i j) (\<lambda>_. orch_ok)"
    by (intro agree_ok safe_required_task_keep [OF env True] safe_active_agent [OF env True] safe_repository_team [OF env True])+
  show "agree orch_ok (heal_children ports env children key tests paths) (heal_children ports env children key tests paths) (\<lambda>_ _. True)"
    by (rule agree_conseq [OF agree_ok [OF safe_heal [OF env True]]]) auto
qed

lemma agree_read:
  assumes env: "orch_steady env" and "\<And>x. agree orch_ok (f x) (g x) Q"
  shows "agree orch_ok (await env (reads h) f) (await env (reads h) g) Q" "agree orch_ok (await env (pget k) f) (await env (pget k) g) Q"
proof -
  have "agree orch_ok (reads h) (reads h) (\<lambda>_. orch_ok)" "agree orch_ok (pget k) (pget k) (\<lambda>_. orch_ok)"
    by (simp_all add: agree_def reads_def pget_def)
  moreover have "orch_ok s \<Longrightarrow> orch_ok (env s)" for s using env by (simp add: steady_env_def)
  ultimately show "agree orch_ok (await env (reads h) f) (await env (reads h) g) Q"
    "agree orch_ok (await env (pget k) f) (await env (pget k) g) Q"
    using assms(2) by (auto intro: agree_await [where S = "\<lambda>_. orch_ok"])
qed

lemma agree_post: "agree P m n Q \<Longrightarrow> agree P n n R \<Longrightarrow> agree P m n R"
  by (auto simp: agree_def)

lemma agree_decompose:
  assumes stay: "permits_stay p ports env" and env: "orch_steady env"
  shows "agree orch_ok (decompose_task (guarded_room p ports) sha256 env i key tests paths fresh now)
    (decompose_task ports sha256 env i key tests paths fresh now) (\<lambda>_ _. True)"
proof -
  have cases: "agree orch_ok (case ws of [] \<Rightarrow> praise e | w # _ \<Rightarrow> f w) (case ws of [] \<Rightarrow> praise e | w # _ \<Rightarrow> g w) (\<lambda>_ _. True)"
    if "\<And>w. agree orch_ok (f w) (g w) (\<lambda>_ _. True)" for ws e and f g :: "uuid \<Rightarrow> ('a orch, task_view list) proc"
    using that by (cases ws) (simp_all add: agree_praise)
  show ?thesis
    unfolding decompose_task_def Let_def guarded_quiet
    by (intro agree_if agree_praise agree_bind [OF agree_steps(1) [OF env]] agree_bind [OF agree_steps(2) [OF env]]
        agree_bind [OF agree_steps(3) [OF env]] cases agree_read [OF env] agree_steps(4) [OF env]
        agree_dispatch_child [OF stay env])
qed

lemma agree_create_rework:
  assumes stay: "permits_stay p ports env" and env: "orch_steady env"
  shows "agree orch_ok (create_rework (guarded_room p ports) sha256 env a t evidence d revision fresh now)
    (create_rework ports sha256 env a t evidence d revision fresh now) (\<lambda>_. orch_ok)"
  unfolding create_rework_def
proof (rule agree_pmap)
  fix item
  have dispatch: "agree orch_ok (dispatch_permitted (guarded_room p ports) sha256 env c key origin paths tests fresh now)
      (dispatch_permitted ports sha256 env c key origin paths tests fresh now) (\<lambda>_. orch_ok)" for c key origin paths tests
    by (rule agree_post [OF agree_dispatch_permitted [OF stay env] agree_ok [OF safe_dispatch_permitted [OF env orch_rg.stable_True]]])
  show "agree orch_ok (rework_one (guarded_room p ports) sha256 env a t evidence revision fresh now item)
      (rework_one ports sha256 env a t evidence revision fresh now item) (\<lambda>_. orch_ok)"
    unfolding rework_one_def
    by (cases item, simp only: prod.case) (intro agree_option agree_praise agree_read [OF env] dispatch)
qed

lemma agree_submit_plan:
  assumes stay: "permits_stay p ports env" and env: "orch_steady env"
  shows "agree orch_ok (submit_plan (guarded_room p ports) sha256 env i d caller fresh now)
    (submit_plan ports sha256 env i d caller fresh now) (\<lambda>_ _. True)"
  unfolding submit_plan_def guarded_quiet
proof (rule agree_bind [OF agree_ok])
  show "orch_safe (\<lambda>_. True) (resolve_assignment ports env i caller) (\<lambda>_ _. True)"
    by (rule orch_rg.guarantees_conseq [OF safe_resolve [OF env]]) auto
  have draft: "agree orch_ok (dispatch_draft (guarded_room p ports) sha256 env a t i fresh now draft)
      (dispatch_draft ports sha256 env a t i fresh now draft) (\<lambda>_. orch_ok)" for a t draft
    unfolding dispatch_draft_def
    by (rule agree_post [OF agree_dispatch_permitted [OF stay env] agree_ok [OF safe_dispatch_permitted [OF env orch_rg.stable_True]]])
  have finish: "agree orch_ok (await env m (\<lambda>_. preturn x)) (await env m (\<lambda>_. preturn x)) (\<lambda>_ _. True)"
    for m :: "('a orch, unit) proc" and x :: plan_receipt
    by (simp add: agree_def)
  have accept: "agree orch_ok (accept_plan (guarded_room p ports) sha256 env a t i d fresh now)
      (accept_plan ports sha256 env a t i d fresh now) (\<lambda>_ _. True)" for a t
    unfolding accept_plan_def by (intro agree_compute agree_bind [OF agree_pmap [OF draft]] finish)
  show "agree orch_ok (case q of (a, t) \<Rightarrow> case la_accepted_plan a of
       Some accepted \<Rightarrow>
         if apl_fingerprint accepted = document_fingerprint sha256 (rpd_raw d)
         then preturn \<lparr>plr_leader_task_id = i, plr_plan_revision = apl_plan_revision accepted,
                       plr_worker_task_ids = apl_worker_task_ids accepted\<rparr>
         else praise (leader_action_refused LE_PHASE_CONFLICT
           ''a different plan has already been accepted for this leader task'')
     | None \<Rightarrow> accept_plan (guarded_room p ports) sha256 env a t i d fresh now)
    (case q of (a, t) \<Rightarrow> case la_accepted_plan a of
       Some accepted \<Rightarrow>
         if apl_fingerprint accepted = document_fingerprint sha256 (rpd_raw d)
         then preturn \<lparr>plr_leader_task_id = i, plr_plan_revision = apl_plan_revision accepted,
                       plr_worker_task_ids = apl_worker_task_ids accepted\<rparr>
         else praise (leader_action_refused LE_PHASE_CONFLICT
           ''a different plan has already been accepted for this leader task'')
     | None \<Rightarrow> accept_plan ports sha256 env a t i d fresh now) (\<lambda>_ _. True)" for q
    by (cases q, simp only: prod.case) (intro agree_option accept agree_if agree_return TrueI agree_praise)
qed

text \<open>C10: Where a permit writer is configured, three operations that create a worker's task tell no room of
  it before its permit is written: whatever else runs meanwhile, decomposing a repository task,
  accepting a leader's plan and creating the rework a review asks for behave exactly as they would with
  a room that refuses every message about a task without a permit. It is assumed that a call of the
  writer writes the permit and that a permit stays. (Re-dispatching a task, and the repairs the delivery
  side assigns, write no permit and are not claimed.)\<close>

theorem permit_before_room:
  assumes run: "orch_run (no_work w) s" and env: "\<And>u. orch_run u (env u)" and stay: "permits_stay permitted' ports env"
  shows "decompose_task (guarded_room permitted' ports) sha256 env i key tests paths fresh now s =
      decompose_task ports sha256 env i key tests paths fresh now s \<and>
    submit_plan (guarded_room permitted' ports) sha256 env i d caller fresh now s =
      submit_plan ports sha256 env i d caller fresh now s \<and>
    create_rework (guarded_room permitted' ports) sha256 env a t evidence v revision fresh now s =
      create_rework ports sha256 env a t evidence v revision fresh now s"
proof -
  have "orch_ok s" using orch_run_sound [OF run] by simp
  then show ?thesis
    using orch_run_steady [OF env] stay
    by (intro conjI agree_same [OF agree_decompose] agree_same [OF agree_submit_plan] agree_same [OF agree_create_rework])
qed

text \<open>A world of permits and messages: \<open>permit\<close> writes the task's id, the room records the keys.\<close>

definition permit_ports :: "(uuid list \<times> string list) ports" where
  "permit_ports =
     \<lparr>pp_agent = (\<lambda>i _. sample_directory i), pp_topology = (\<lambda>_ _. Some sample_topology_view),
      pp_mode = (\<lambda>_ _ _. DM_SERVER), pp_gate = (\<lambda>_ w. (Inr (permitted ''go''), w)),
      pp_evaluate = (\<lambda>_ w. (Inr (permitted ''go''), w)), pp_send = (\<lambda>_ key (ids, keys). (Inr (), (ids, keys @ [key]))),
      pp_publish = Some (\<lambda>_ _ _ _ _ w. (Inr \<lparr>ptp_team_name = ''team'', ptp_task_path = ''path'', ptp_content_hash = ''hash''\<rparr>, w)),
      pp_permit = Some (\<lambda>v _ _ _ (ids, keys). (Inr (), (tkv_id v # ids, keys))), pp_audit = None, pp_database = None\<rparr>"

definition permit_task :: "(uuid list \<times> string list) orch" where
  "permit_task = (no_work ([], [''k:message'']))\<lparr>or_tasks := or_tasks one_task\<rparr>"

lemma assign_permit_task:
  "snd (assign_task permit_ports plain_hash id sample_command ''k'' TO_PLANNED True (sample_new 6) 0 (no_work ([], []))) = permit_task"
  by (simp add: permit_ports_def permit_task_def sample_orch_defs assign_exec orch_exec)

lemma permit_task_run: "orch_run (no_work ([], [])) permit_task"
proof -
  have call: "orch_call id (\<lambda>s. snd (assign_task permit_ports plain_hash id sample_command ''k'' TO_PLANNED True (sample_new 6) 0 s))"
    by (rule orch_call.assign)
  have "orch_run (no_work ([], [])) (snd (assign_task permit_ports plain_hash id sample_command ''k'' TO_PLANNED True (sample_new 6) 0
      (no_work ([], []))))"
    by (rule orch_run.call [OF orch_run.none _ call]) (simp add: orch_run.none)
  then show ?thesis by (simp add: assign_permit_task)
qed

lemma strip_key: "\<not> py_isspace c \<Longrightarrow> py_strip (c # s @ uuid_str u) = c # s @ uuid_str u"
proof (rule py_strip_fixed, intro disjI2 conjI)
  assume "\<not> py_isspace c"
  then show "\<not> py_isspace (hd (c # s @ uuid_str u))" by simp
  have last: "last (c # s @ uuid_str u) = last (uuid_str u)" by simp
  have "is_hex (last (uuid_str u)) \<or> last (uuid_str u) = CHR ''-''" by (rule uuid_str_chars [of _ u]) simp
  moreover have "is_hex d \<or> d = CHR ''-'' \<Longrightarrow> \<not> py_isspace d" for d by (auto simp: is_hex_def py_isspace_def)
  ultimately show "\<not> py_isspace (last (c # s @ uuid_str u))" unfolding last by blast
qed

lemma decompose_permit_task:
  "or_world (snd (decompose_task permit_ports plain_hash id 6 ''k'' [] [] (\<lambda>_ _. 8) 0 permit_task)) =
     ([8], [''k:message'', ''k:worker:'' @ uuid_str 7 @ '':message''])"
proof -
  have key: "py_strip (CHR ''k'' # CHR '':'' # CHR ''w'' # CHR ''o'' # CHR ''r'' # CHR ''k'' # CHR ''e'' # CHR ''r'' # CHR '':'' # uuid_str 7) =
      CHR ''k'' # CHR '':'' # CHR ''w'' # CHR ''o'' # CHR ''r'' # CHR ''k'' # CHR ''e'' # CHR ''r'' # CHR '':'' # uuid_str 7"
    using strip_key [of "CHR ''k''" "'':worker:''" 7] by (simp add: py_isspace_def)
  show ?thesis
    by (simp add: decompose_task_def dispatch_child_def child_command_def active_agent_def repository_team_def
        ensure_specification_def deliver_assignment_def permit_task_def permit_ports_def sample_orch_defs assign_exec orch_exec
        key ts_get_def ts_list_by_parent_def ts_assignment_key_def check_parent_def team_room_def worker_team_def)
qed

theorem permit_before_room_witness:
  "or_world (snd (decompose_task (guarded_room (\<lambda>i w. i \<in> set (fst w)) permit_ports) plain_hash id 6 ''k'' [] [] (\<lambda>_ _. 8) 0 permit_task)) =
     ([8], [''k:message'', ''k:worker:'' @ uuid_str 7 @ '':message''])"
proof -
  have "permits_stay (\<lambda>i w. i \<in> set (fst w)) permit_ports id"
    by (auto simp: permits_stay_def permit_ports_def)
  from permit_before_room [OF permit_task_run _ this] show ?thesis by (simp add: orch_run.none decompose_permit_task)
qed

end
