(* ===== verification/Spec2Isabelle.thy ===== *)
theory Spec2Isabelle
  imports SCM_Services Delivery_Refinement Delivery_Governance Execution_Plan Runner_Gateway Project_Properties
    Plan_Properties Round_Rerun Dispatch_Order
begin

text \<open>
  A verification library for RepoMesh, the control plane that delivers changes spanning several
  Git repositories. RepoMesh is a modular monolith under \<open>src/src/repomesh\<close>. A project has a
  topology of leader and worker agents (\<open>modules/project\<close>); a plan splits a change into tasks
  (\<open>modules/task_orchestration\<close>); a worker claims a task attempt and runs it on a runner
  (\<open>modules/agent_runtime\<close>, \<open>integrations/runner\<close>); the resulting commits, the candidates, are
  taken to merged pull requests in dependency order (\<open>modules/delivery\<close>); humans control the
  project at checkpoints. The library models these modules' state, operations and stores.

  Conventions, everywhere:

  \<^item> Exceptions are values of \<open>exc\<close>; a fallible function returns \<open>'a result\<close>; a method over
    shared state is a procedure \<open>'s \<Rightarrow> 'a result \<times> 's\<close>. \<open>pwait env\<close> is an await: \<open>env\<close> is what
    the other tasks do to the state meanwhile, an arbitrary function, so a theorem that holds for
    every \<open>env\<close> (or every \<open>env\<close> that keeps an invariant) holds for every interleaving at awaits.
    What a call read before an await it may only use after it as far as the other tasks cannot take
    it back; \<open>Rely_Guarantee\<close> makes that a rule per construct (\<open>guarantees\<close>, \<open>stable\<close>).
    A database transaction under a row lock is one step; a transaction without the lock is split
    at its statements.
  \<^item> A class is a record, a frozen dataclass's \<open>replace\<close> a record update, an enumeration a
    datatype with its string values (locale \<open>str_enum\<close>). \<open>UUID\<close> is a 128-bit word, \<open>datetime\<close>
    an integer number of microseconds, a \<open>dict\<close> an association list in insertion order, strings
    are ASCII. Fresh identifiers and the clock \<open>now\<close> are arguments; one method reads one \<open>now\<close>.
  \<^item> A table is a list of rows in insertion order (\<open>Tables\<close>); queries without an \<open>ORDER BY\<close> return
    that order. A unique index refuses an insertion. Limits on the length of a column are not
    modelled.

  The theories (paths relative to \<open>src/src/repomesh\<close>):

  \<^item> \<open>Prelude\<close>, \<open>Proc_Invariants\<close>, \<open>Identifiers\<close>, \<open>Json_Values\<close>, \<open>Py_Text\<close>, \<open>Py_Parse\<close>,
    \<open>Json_Parse\<close>, \<open>Tables\<close>: what the source uses of Python (exceptions, procedures with their
    Hoare triples \<open>triple P m Q E\<close> and invariants \<open>maintains\<close>, \<open>UUID\<close>, \<open>isoformat\<close>,
    \<open>fromisoformat\<close>, \<open>json\<close> values, printing and parsing, rows). \<open>normalize_full_sha\<close> is
    \<open>shared/git.py\<close>.
  \<^item> \<open>Delivery_Contracts\<close>, \<open>SCM_Domain\<close>, \<open>Repository_Delivery\<close>, \<open>Change_Set\<close>: the contracts and the
    domain classes of \<open>modules/delivery\<close>, one definition per method. \<open>Merge_Order\<close>: the
    topological merge order, whose loop over rounds ends because every round places a candidate.
    \<open>Change_Set_Steps\<close>, \<open>Change_Set_Invariant\<close>, \<open>Change_Set_Properties\<close>: the transitions of a
    ChangeSet as a step relation, the invariant of the reachable ones, and what follows.
  \<^item> \<open>Store_Contracts\<close>: the locales \<open>versioned_store\<close> (compare and swap on a version) and
    \<open>keyed_store\<close> (one item per idempotency key). \<open>Delivery_Stores\<close>: the in-memory stores that
    interpret them. \<open>Delivery_Persistence\<close>: the
    payloads, rows and statements of the Postgres store; \<open>Delivery_Refinement\<close>: it reads back what
    was stored, refines the in-memory store, and where concurrent updates do not.
  \<^item> \<open>SCM_Leases\<close>, \<open>SCM_Services\<close>: the lease protocol of the SCM command outbox, and the services
    for commands, poll cursors and observations. \<open>Delivery_Conflicts\<close>: \<open>conflicts.py\<close>.
  \<^item> \<open>Delivery_Service\<close>, \<open>Delivery_Gate\<close>, \<open>Delivery_Safety\<close>, \<open>Delivery_Governance\<close>:
    \<open>DeliveryService\<close>, its merge gate, its invariant under every interleaving of calls
    (\<open>delivery_run\<close>), and the governance, rollback and archive services in front of it.
  \<^item> \<open>Task_Contracts\<close>, \<open>Agent_Contracts\<close>, \<open>Task_Domain\<close>, \<open>Execution_Plan\<close>, \<open>Task_Assignment\<close>: tasks with
    the evidence read out of their reports, execution plans and their batches (refined by an
    abstract layering), the attempts of a task and the transactions that reassign it.
  \<^item> \<open>Collaboration_Contracts\<close>, \<open>Leader_Contracts\<close>: the messages sent to rooms, and the surface of an
    external repository leader with its documents. \<open>Leader_Plan\<close>: what is checked of a leader's plan
    (envelope, limits, dependency cycles by Kahn's algorithm) and review. \<open>Database_Automation\<close>: a
    report's evidence against the declared database change.
  \<^item> \<open>Task_Store\<close>: the in-memory stores of tasks, plans and leader assignments.
    \<open>Task_Orchestration\<close>: \<open>TaskOrchestrator\<close> and \<open>TaskExecutionState\<close>. \<open>Plan_Advance\<close>:
    \<open>DecomposeRepositoryTask\<close> and \<open>AdvanceExecutionPlan\<close> (batches, roll-up, delivery, replanning).
    \<open>Round_Redispatch\<close>: \<open>ObserveExecutionPlan\<close> and \<open>RedispatchRound\<close>. \<open>Leader_Decisions\<close>: the
    authorizer and the use cases that submit a leader's plan and review. All are from
    \<open>modules/task_orchestration/application.py\<close>; the state is the record \<open>orch\<close>, whose field
    \<open>or_world\<close> belongs to the ports.
  \<^item> \<open>Orchestration_Safety\<close>, \<open>Plan_Safety\<close>, \<open>Decision_Safety\<close>, \<open>Orchestration_Runs\<close>: each of those
    calls keeps the invariant \<open>orch_ok\<close> and only moves the stores forward (\<open>orch_follows\<close>), hence so
    does every run \<open>orch_run\<close>, in which each await may contain any run. \<open>Orchestration_Properties\<close>,
    \<open>Plan_Properties\<close>, \<open>Dispatch_Order\<close>: what follows for tasks, leaders and plans, with sample
    runs; the order of permits and messages, by comparing a call with itself in a stricter room.
    \<open>Call_Effects\<close>: what a call may leave behind for any relation between states that the ports cannot
    break (locale \<open>orch_effect\<close>); it carries the reported successes and \<open>Round_Rerun\<close>, on re-running a
    round its leader approved. A property that is only claimed for a call on its own, with nothing
    running at its awaits (\<open>id\<close> as its environment), says so as "undisturbed".
  \<^item> \<open>Worker_Execution\<close>, \<open>Worker_Recovery\<close>, \<open>Runner_Store\<close>, \<open>Runner_Gateway\<close>: reservations of
    attempts (\<open>agent_runtime/execution_reservation.py\<close>), recovery operations, the runner's queue
    and events, and the gateway that projects events onto tasks.
  \<^item> \<open>Project_Contracts\<close>, \<open>Project_Topology\<close>, \<open>Project_Tables\<close>, \<open>Human_Control\<close>, \<open>Project_Control\<close>,
    \<open>Project_Safety\<close>, \<open>Project_Properties\<close>: grants, teams and topologies with their policy rules and
    both stores (locale \<open>topology_store\<close>), authorisation of humans, checkpoint reviews and
    decisions, project lifecycle, and the invariant and order (\<open>project_inv\<close>, \<open>project_follows\<close>)
    that every interleaving of these operations keeps.

  Recursion over lists is structural; the rounds of the merge order, of plan batches and of the
  cycle check have termination proofs. No fuel is used.

  Simplifications: seconds of intervals and back-off are whole numbers, as the settings are; other
  transactions run after both reads of a reservation, before its insert, not between the reads; the
  delivery of a batch is a port of the plan's driver (its code, \<open>integrations/scm/plan_delivery.py\<close>, is not
  modelled), so what it refuses is a parameter; the order of permits is stated where a permit writer is
  configured, since without one the code writes none.

  Parameters, since their code is outside the sources or behind an interface: the \<open>sha256\<close>
  digest, the readers of validation evidence, plans, agents and contracts passed to the services,
  the ports of the task services (rooms, permits, specifications, topologies, delivery), and texts in Chinese that the source uses as defaults.

  Not modelled: the Postgres stores of SCM commands, cursors, observations, archives, tasks, plans and
  leader assignments (the in-memory ones are), HTTP routers and read models (request parsing and SQL projections), the
  adapters to SCM hosts, language models and runners (network and process I/O), non-Latin text,
  Python's recursion limit, the vendored agent components and the frontends.
\<close>

end
